(* ===== verification/PyFloat.thy ===== *)
theory PyFloat
  imports Complex_Main
begin

text \<open>
  Python's \<^verbatim>\<open>float\<close> is the IEEE 754 binary64 format. A finite double is modelled by the
  rational number it denotes; every arithmetic result is the exact rational result rounded
  to nearest, ties to even, with gradual underflow and overflow to infinity, as the
  hardware does. Two things Python's doubles have are left out: the payload of a NaN, which none
  of the modelled code observes, and the sign of zero, which only the text of a zero shows (the
  code compares, adds and divides, and Python's division by a zero of either sign raises).

  The first section gives the binary exponent of a rational, the second rounding, the third
  the operations. The lemmas say what the accounting proofs need from rounding: it is
  monotone, keeps signs, is exact on representable numbers, idempotent, and off by at most
  half a unit in the last place. The collection \<open>float_eval\<close> evaluates an operation on
  numerals.
\<close>

section \<open>Binary exponents\<close>

named_theorems float_eval \<open>rules that evaluate a float operation on numerals\<close>

datatype pyfloat = Fin rat | PosInf | NegInf | NaN

definition pow2 :: "int \<Rightarrow> rat" where
  "pow2 e = (if 0 \<le> e then 2 ^ nat e else 1 / 2 ^ nat (- e))"

lemma pow2_pos [simp]: "0 < pow2 e"
  by (simp add: pow2_def)

lemma pow2_nonneg [simp]: "0 \<le> pow2 e"
  using pow2_pos [of e] by linarith

lemma pow2_neq_0 [simp]: "pow2 e \<noteq> 0"
  using pow2_pos [of e] by linarith

lemma pow2_0 [simp]: "pow2 0 = 1"
  by (simp add: pow2_def)

lemma pow2_Suc: "pow2 (e + 1) = 2 * pow2 e"
proof (cases "0 \<le> e")
  case True
  then have "nat (e + 1) = Suc (nat e)" by simp
  with True show ?thesis by (simp add: pow2_def)
next
  case False
  then have "nat (- e) = Suc (nat (- (e + 1)))" by simp
  with False show ?thesis
    by (cases "e = - 1") (simp_all add: pow2_def)
qed

lemma pow2_pred: "pow2 (e - 1) = pow2 e / 2"
  using pow2_Suc [of "e - 1"] by simp

lemma pow2_add: "pow2 (a + b) = pow2 a * pow2 b"
proof (induction b rule: int_induct [where k = 0])
  case base
  show ?case by simp
next
  case (step1 i)
  have "pow2 (a + (i + 1)) = 2 * pow2 (a + i)"
    using pow2_Suc [of "a + i"] by (simp add: add.assoc)
  with step1 show ?case by (simp add: pow2_Suc)
next
  case (step2 i)
  have "pow2 (a + (i - 1)) = pow2 (a + i) / 2"
    using pow2_pred [of "a + i"] by (simp add: algebra_simps)
  with step2 show ?case by (simp add: pow2_pred)
qed

lemma pow2_nat: "pow2 (int n) = 2 ^ n"
  by (simp add: pow2_def)

lemma pow2_mono: "a \<le> b \<Longrightarrow> pow2 a \<le> pow2 b"
proof -
  assume "a \<le> b"
  then obtain n where b: "b = a + int n"
    using zle_iff_zadd by blast
  have "pow2 a * 1 \<le> pow2 a * 2 ^ n"
    by (rule mult_left_mono) simp_all
  then show ?thesis by (simp add: b pow2_add pow2_nat)
qed

lemma pow2_less: "a < b \<Longrightarrow> pow2 a < pow2 b"
  using pow2_mono [of "a + 1" b] pow2_Suc [of a] pow2_pos [of a] by linarith

text \<open>
  The exponent of the leading binary digit, found by halving or doubling; the measure of its
  termination shrinks towards the unit interval from both sides.
\<close>

function ilog2 :: "rat \<Rightarrow> int" where
  "ilog2 q =
     (if q \<le> 0 then 0
      else if 2 \<le> q then ilog2 (q / 2) + 1
      else if q < 1 then ilog2 (2 * q) - 1
      else 0)"
  by pat_completeness auto
termination
proof (relation "measure (\<lambda>q. nat \<lfloor>q\<rfloor> + 2 * nat \<lceil>1 / q\<rceil>)", goal_cases)
  case 1
  show ?case by simp
next
  case (2 q)
  then have "1 / q \<le> 1 / 2" by (simp add: field_simps)
  have "\<lceil>1 / q\<rceil> = 1" "\<lceil>2 / q\<rceil> = 1"
    using 2 by (simp_all add: ceiling_eq_iff field_simps)
  moreover have "\<lfloor>q / 2\<rfloor> < \<lfloor>q\<rfloor>"
    using 2 by linarith
  moreover have "1 \<le> \<lfloor>q / 2\<rfloor>" using 2 by simp
  ultimately show ?case by simp
next
  case (3 q)
  show ?case
  proof (cases "2 * q < 1")
    case True
    have "\<lfloor>2 * q\<rfloor> = 0" using 3 True by (simp add: floor_eq_iff)
    have "1 / q = 2 * (1 / (2 * q))" by (simp add: field_simps)
    have "1 < 1 / (2 * q)" using 3 True by (simp add: field_simps)
    then have "\<lceil>1 / (2 * q)\<rceil> < \<lceil>1 / q\<rceil>"
      using \<open>1 / q = 2 * (1 / (2 * q))\<close> by linarith
    then show ?thesis using \<open>\<lfloor>2 * q\<rfloor> = 0\<close> \<open>1 < 1 / (2 * q)\<close> by simp linarith
  next
    case False
    have "\<lfloor>2 * q\<rfloor> = 1" using 3 False by (simp add: floor_eq_iff)
    have "\<lceil>1 / (2 * q)\<rceil> = 1" using 3 False by (simp add: ceiling_eq_iff field_simps)
    have "2 \<le> \<lceil>1 / q\<rceil>" "\<lfloor>q\<rfloor> = 0"
      using 3 by (simp_all add: le_ceiling_iff floor_eq_iff field_simps)
    then have "4 \<le> 2 * nat \<lceil>1 / q\<rceil>" by linarith
    then show ?thesis using \<open>\<lfloor>2 * q\<rfloor> = 1\<close> \<open>\<lceil>1 / (2 * q)\<rceil> = 1\<close> by (simp del: one_less_ceiling)
  qed
qed

declare ilog2.simps [simp del]

lemma ilog2_ge2 [float_eval]: "2 \<le> q \<Longrightarrow> ilog2 q = ilog2 (q / 2) + 1"
  by (subst ilog2.simps) simp

lemma ilog2_lt1 [float_eval]: "0 < q \<Longrightarrow> q < 1 \<Longrightarrow> ilog2 q = ilog2 (2 * q) - 1"
  by (subst ilog2.simps) simp

lemma ilog2_unit [float_eval]: "1 \<le> q \<Longrightarrow> q < 2 \<Longrightarrow> ilog2 q = 0"
  by (subst ilog2.simps) simp

lemma ilog2_spec: "0 < q \<Longrightarrow> pow2 (ilog2 q) \<le> q \<and> q < pow2 (ilog2 q + 1)"
proof (induction q rule: ilog2.induct)
  case (1 q)
  consider "2 \<le> q" | "q < 1" | "1 \<le> q" "q < 2" by linarith
  then show ?case
  proof cases
    case 1
    let ?i = "ilog2 (q / 2)"
    have "pow2 ?i \<le> q / 2 \<and> q / 2 < pow2 (?i + 1)"
      using "1.IH"(1) "1.prems" 1 by simp
    moreover have "ilog2 q = ?i + 1" using 1 by (rule ilog2_ge2)
    ultimately show ?thesis
      using pow2_Suc [of ?i] pow2_Suc [of "?i + 1"] by simp
  next
    case 2
    let ?i = "ilog2 (2 * q)"
    have "pow2 ?i \<le> 2 * q \<and> 2 * q < pow2 (?i + 1)"
      using "1.IH"(2) "1.prems" 2 by simp
    moreover have "ilog2 q = ?i - 1" using "1.prems" 2 by (rule ilog2_lt1)
    ultimately show ?thesis
      using pow2_pred [of ?i] pow2_Suc [of ?i] by simp
  next
    case 3
    then show ?thesis by (simp add: pow2_def ilog2_unit)
  qed
qed

lemma ilog2_unique: "0 < q \<Longrightarrow> pow2 e \<le> q \<Longrightarrow> q < pow2 (e + 1) \<Longrightarrow> ilog2 q = e"
proof (rule ccontr)
  assume q: "0 < q" "pow2 e \<le> q" "q < pow2 (e + 1)" and "ilog2 q \<noteq> e"
  then consider "ilog2 q + 1 \<le> e" | "e + 1 \<le> ilog2 q" by linarith
  then show False
  proof cases
    case 1
    with pow2_mono [OF 1] ilog2_spec [OF q(1)] q show False by linarith
  next
    case 2
    with pow2_mono [OF 2] ilog2_spec [OF q(1)] q show False by linarith
  qed
qed

lemma ilog2_mono: "0 < p \<Longrightarrow> p \<le> q \<Longrightarrow> ilog2 p \<le> ilog2 q"
proof (rule ccontr)
  assume "0 < p" "p \<le> q" "\<not> ilog2 p \<le> ilog2 q"
  then have "pow2 (ilog2 q + 1) \<le> pow2 (ilog2 p)" by (intro pow2_mono) simp
  with ilog2_spec [of p] ilog2_spec [of q] \<open>0 < p\<close> \<open>p \<le> q\<close> show False by linarith
qed

lemma floor_rat_numeral [simp]:
  "\<lfloor>numeral a / numeral b :: rat\<rfloor> = numeral a div numeral b"
  "\<lfloor>1 / numeral b :: rat\<rfloor> = 1 div numeral b"
  using floor_divide_of_int_eq [of "numeral a" "numeral b", where 'a = rat]
    floor_divide_of_int_eq [of 1 "numeral b", where 'a = rat]
  by simp_all

section \<open>Rounding to nearest, ties to even\<close>

definition round_even :: "rat \<Rightarrow> int" where
  "round_even x =
     (let f = \<lfloor>x\<rfloor>; r = x - of_int f
      in if r < 1 / 2 then f else if 1 / 2 < r then f + 1 else if even f then f else f + 1)"

lemma round_even_of_int [simp]: "round_even (of_int n) = n"
  by (simp add: round_even_def)

lemma round_even_cases: "round_even x = \<lfloor>x\<rfloor> \<or> round_even x = \<lfloor>x\<rfloor> + 1"
  by (simp add: round_even_def Let_def)

lemma round_even_error: "\<bar>of_int (round_even x) - x\<bar> \<le> 1 / 2"
proof -
  have "of_int \<lfloor>x\<rfloor> \<le> x" "x < of_int \<lfloor>x\<rfloor> + 1" by linarith+
  then show ?thesis
    by (auto simp: round_even_def Let_def abs_le_iff)
qed

lemma round_even_mono: "x \<le> y \<Longrightarrow> round_even x \<le> round_even y"
proof -
  assume xy: "x \<le> y"
  show ?thesis
  proof (cases "\<lfloor>x\<rfloor> = \<lfloor>y\<rfloor>")
    case True
    with xy show ?thesis by (simp add: round_even_def Let_def)
  next
    case False
    with xy have "\<lfloor>x\<rfloor> + 1 \<le> \<lfloor>y\<rfloor>"
      using floor_mono [OF xy] by linarith
    with round_even_cases [of x] round_even_cases [of y] show ?thesis by linarith
  qed
qed

lemma round_even_ge: "of_int n \<le> x \<Longrightarrow> n \<le> round_even x"
  using round_even_mono [of "of_int n" x] by simp

lemma round_even_le: "x \<le> of_int n \<Longrightarrow> round_even x \<le> n"
  using round_even_mono [of x "of_int n"] by simp

text \<open>
  A positive rational is rounded to a multiple of its unit in the last place: 53 significant
  bits, but never below the smallest subnormal exponent.
\<close>

definition ulp_exp :: "rat \<Rightarrow> int" where
  "ulp_exp q = max (ilog2 q - 52) (- 1074)"

definition round_mag :: "rat \<Rightarrow> rat" where
  "round_mag q = of_int (round_even (q / pow2 (ulp_exp q))) * pow2 (ulp_exp q)"

definition double_bound :: rat where
  "double_bound = 2 ^ 1024"

definition round_double :: "rat \<Rightarrow> pyfloat" where
  "round_double q =
     (if q = 0 then Fin 0
      else let m = round_mag \<bar>q\<bar>
           in if double_bound \<le> m then (if 0 < q then PosInf else NegInf)
              else Fin (if 0 < q then m else - m))"


lemma ulp_exp_mono: "0 < p \<Longrightarrow> p \<le> q \<Longrightarrow> ulp_exp p \<le> ulp_exp q"
  using ilog2_mono [of p q] by (simp add: ulp_exp_def max_def)

lemma pow2_div: "pow2 a / pow2 b = pow2 (a - b)"
  using pow2_add [of "a - b" b] by (simp add: field_simps)

lemma pow2_of_int: "0 \<le> e \<Longrightarrow> pow2 e = of_int (2 ^ nat e)"
  by (simp add: pow2_def)

lemma round_mag_ge_pow2:
  assumes "ulp_exp q \<le> b" and "pow2 b \<le> q"
  shows "pow2 b \<le> round_mag q"
proof -
  let ?u = "pow2 (ulp_exp q)" and ?k = "2 ^ nat (b - ulp_exp q) :: int"
  have k: "pow2 b / ?u = of_int ?k"
    using assms(1) by (simp add: pow2_div pow2_of_int)
  have "of_int ?k \<le> q / ?u"
    unfolding k [symmetric] using assms(2) by (simp add: divide_right_mono)
  then have "?k \<le> round_even (q / ?u)" by (rule round_even_ge)
  then have "of_int ?k * ?u \<le> round_mag q"
    unfolding round_mag_def by (intro mult_right_mono) (simp_all only: of_int_le_iff pow2_nonneg)
  then show ?thesis using k by (simp add: field_simps)
qed

lemma round_mag_le_pow2:
  assumes "ulp_exp q \<le> b" and "q \<le> pow2 b"
  shows "round_mag q \<le> pow2 b"
proof -
  let ?u = "pow2 (ulp_exp q)" and ?k = "2 ^ nat (b - ulp_exp q) :: int"
  have k: "pow2 b / ?u = of_int ?k"
    using assms(1) by (simp add: pow2_div pow2_of_int)
  have "q / ?u \<le> of_int ?k"
    unfolding k [symmetric] using assms(2) by (simp add: divide_right_mono)
  then have "round_even (q / ?u) \<le> ?k" by (rule round_even_le)
  then have "round_mag q \<le> of_int ?k * ?u"
    unfolding round_mag_def by (intro mult_right_mono) (simp_all only: of_int_le_iff pow2_nonneg)
  then show ?thesis using k by (simp add: field_simps)
qed

lemma round_mag_mono: "0 < p \<Longrightarrow> p \<le> q \<Longrightarrow> round_mag p \<le> round_mag q"
proof -
  assume p: "0 < p" "p \<le> q"
  show ?thesis
  proof (cases "ulp_exp p = ulp_exp q")
    case True
    have "round_even (p / pow2 (ulp_exp q)) \<le> round_even (q / pow2 (ulp_exp q))"
      using p by (intro round_even_mono divide_right_mono) simp_all
    then show ?thesis
      unfolding round_mag_def True by (intro mult_right_mono) simp_all
  next
    case False
    with ulp_exp_mono [OF p] have lt: "ulp_exp p < ulp_exp q" by simp
    then have uq: "ulp_exp q = ilog2 q - 52" and il: "ilog2 p < ilog2 q"
      unfolding ulp_exp_def by linarith+
    have "p \<le> pow2 (ilog2 q)"
      using ilog2_spec [OF p(1)] pow2_mono [of "ilog2 p + 1" "ilog2 q"] il by linarith
    then have "round_mag p \<le> pow2 (ilog2 q)"
      using lt uq by (intro round_mag_le_pow2) simp_all
    also have "pow2 (ilog2 q) \<le> round_mag q"
      using ilog2_spec [of q] p uq by (intro round_mag_ge_pow2) simp_all
    finally show ?thesis .
  qed
qed

lemma round_mag_nonneg: "0 < q \<Longrightarrow> 0 \<le> round_mag q"
  unfolding round_mag_def by (intro mult_nonneg_nonneg) (simp_all add: round_even_ge)

text \<open>The rationals that are doubles, on which rounding is the identity.\<close>

definition is_double :: "rat \<Rightarrow> bool" where
  "is_double q \<longleftrightarrow> round_double q = Fin q"

lemma is_double_0 [simp]: "is_double 0"
  by (simp add: is_double_def round_double_def)

lemma round_mag_exact:
  assumes "0 < m" "m \<le> 2 ^ 53" "- 1074 \<le> e"
  shows "round_mag (of_int m * pow2 e) = of_int m * pow2 e"
proof -
  let ?q = "of_int m * pow2 e" and ?x = "ulp_exp (of_int m * pow2 e)"
  have pos: "0 < ?q" using assms by simp
  have "\<exists>k::int. ?q / pow2 ?x = of_int k"
  proof (cases "m = 2 ^ 53")
    case True
    have q: "?q = pow2 (e + 53)" using True by (simp add: pow2_add pow2_def [of 53])
    have "ilog2 ?q = e + 53"
      unfolding q by (rule ilog2_unique) (simp_all add: pow2_less)
    then have "?x = e + 1" using assms(3) by (simp add: ulp_exp_def)
    then have "?q / pow2 ?x = of_int (2 ^ 52)"
      unfolding q by (simp add: pow2_div pow2_def [of 52])
    then show ?thesis by blast
  next
    case False
    then have "(of_int m :: rat) < of_int (2 ^ 53)" using assms by (simp only: of_int_less_iff)
    then have "?q < pow2 (e + 53)"
      by (simp add: pow2_add pow2_def [of 53] mult.commute)
    then have "ilog2 ?q < e + 53"
      using ilog2_spec [OF pos] pow2_mono [of "e + 53" "ilog2 ?q"] by linarith
    then have "?x \<le> e" using assms(3) by (simp add: ulp_exp_def)
    then have "?q / pow2 ?x = of_int (m * 2 ^ nat (e - ?x))"
      using pow2_div [of e ?x]
      by (simp add: pow2_of_int times_divide_eq_right [symmetric] del: times_divide_eq_right)
    then show ?thesis by blast
  qed
  then obtain k where k: "?q / pow2 ?x = of_int k" by blast
  then have "round_mag ?q = of_int k * pow2 ?x"
    by (simp only: round_mag_def round_even_of_int)
  also have "\<dots> = ?q" unfolding k [symmetric] by simp
  finally show ?thesis .
qed

lemma is_doubleI:
  assumes "\<bar>m\<bar> \<le> 2 ^ 53" "- 1074 \<le> e" "\<bar>of_int m * pow2 e\<bar> < double_bound"
  shows "is_double (of_int m * pow2 e)"
proof (cases "m = 0")
  case False
  have "\<bar>of_int m * pow2 e\<bar> = of_int \<bar>m\<bar> * pow2 e" by (simp add: abs_mult)
  moreover have "round_mag (of_int \<bar>m\<bar> * pow2 e) = of_int \<bar>m\<bar> * pow2 e"
    using assms False by (intro round_mag_exact) simp_all
  ultimately show ?thesis
    using assms False
    by (auto simp: is_double_def round_double_def Let_def zero_less_mult_iff abs_if not_less)
qed simp

lemma is_double_of_int: "\<bar>n\<bar> \<le> 2 ^ 53 \<Longrightarrow> is_double (of_int n)"
proof -
  assume n: "\<bar>n\<bar> \<le> 2 ^ 53"
  have "(of_int \<bar>n\<bar> :: rat) \<le> of_int (2 ^ 53)" using n by (simp only: of_int_le_iff)
  also have "\<dots> < (double_bound :: rat)" by (simp add: double_bound_def)
  finally show ?thesis using is_doubleI [of n 0] n by simp
qed

lemma round_double_0 [simp]: "round_double 0 = Fin 0"
  by (simp add: round_double_def)

lemma round_double_cases:
  obtains r where "round_double q = Fin r" | "0 < q" "round_double q = PosInf"
    | "q < 0" "round_double q = NegInf"
  by (cases "q = 0"; cases "0 < q"; cases "double_bound \<le> round_mag \<bar>q\<bar>")
     (auto simp: round_double_def Let_def)

lemma round_double_Fin_iff:
  "round_double q = Fin r \<longleftrightarrow>
     (if q = 0 then r = 0 else round_mag \<bar>q\<bar> < double_bound \<and> r = sgn q * round_mag \<bar>q\<bar>)"
  by (auto simp: round_double_def Let_def sgn_if not_less)

lemma round_double_nonneg: "round_double q = Fin r \<Longrightarrow> 0 \<le> q \<Longrightarrow> 0 \<le> r"
  using round_mag_nonneg [of q]
  by (auto simp: round_double_Fin_iff sgn_if split: if_splits)

lemma round_double_nonpos: "round_double q = Fin r \<Longrightarrow> q \<le> 0 \<Longrightarrow> r \<le> 0"
  using round_mag_nonneg [of "- q"]
  by (auto simp: round_double_Fin_iff sgn_if split: if_splits)

lemma round_double_mono:
  "round_double p = Fin p' \<Longrightarrow> round_double q = Fin q' \<Longrightarrow> p \<le> q \<Longrightarrow> p' \<le> q'"
proof -
  assume p': "round_double p = Fin p'" and q': "round_double q = Fin q'" and pq: "p \<le> q"
  consider "0 < p" | "q < 0" | "p \<le> 0" "0 \<le> q" by linarith
  then show ?thesis
  proof cases
    case 1
    with p' q' pq round_mag_mono [of p q] show ?thesis
      by (simp add: round_double_Fin_iff)
  next
    case 2
    with p' q' pq round_mag_mono [of "- q" "- p"] show ?thesis
      by (simp add: round_double_Fin_iff)
  next
    case 3
    then have "p' \<le> 0" "0 \<le> q'"
      using round_double_nonpos [OF p'] round_double_nonneg [OF q'] by simp_all
    then show ?thesis by simp
  qed
qed

lemma round_double_uminus:
  "round_double (- q) = (case round_double q of Fin r \<Rightarrow> Fin (- r) | PosInf \<Rightarrow> NegInf
     | NegInf \<Rightarrow> PosInf | NaN \<Rightarrow> NaN)"
  by (auto simp: round_double_def Let_def)

lemma is_double_round_mag:
  assumes "0 < q" "round_mag q < double_bound"
  shows "is_double (round_mag q)"
proof -
  let ?e = "ulp_exp q" and ?m = "round_even (q / pow2 (ulp_exp q))"
  have "q < pow2 (ilog2 q + 1)" using ilog2_spec assms(1) by blast
  also have "\<dots> \<le> pow2 (?e + 53)" by (rule pow2_mono) (simp add: ulp_exp_def)
  also have "\<dots> = of_int (2 ^ 53) * pow2 ?e"
    by (simp add: pow2_add pow2_def [of 53])
  finally have "q / pow2 ?e \<le> of_int (2 ^ 53)" by (simp add: field_simps)
  then have "?m \<le> 2 ^ 53" by (rule round_even_le)
  moreover have "0 \<le> ?m" using assms(1) by (intro round_even_ge) simp
  moreover have "- 1074 \<le> ?e" by (simp add: ulp_exp_def)
  ultimately show ?thesis
    using assms round_mag_nonneg [OF assms(1)] unfolding round_mag_def
    by (intro is_doubleI) simp_all
qed

lemma is_double_uminus: "is_double q \<Longrightarrow> is_double (- q)"
  by (simp add: is_double_def round_double_uminus)

lemma round_double_is_double: "round_double q = Fin r \<Longrightarrow> is_double r"
proof -
  assume r: "round_double q = Fin r"
  show ?thesis
  proof (cases "q = 0")
    case False
    with r have "is_double (round_mag \<bar>q\<bar>)" "r = sgn q * round_mag \<bar>q\<bar>"
      by (auto simp: round_double_Fin_iff intro: is_double_round_mag)
    then show ?thesis by (auto simp: sgn_if is_double_uminus)
  qed (use r in simp)
qed

lemma round_double_error:
  "round_double q = Fin r \<Longrightarrow> q \<noteq> 0 \<Longrightarrow> \<bar>r - q\<bar> \<le> pow2 (ulp_exp \<bar>q\<bar>) / 2"
proof -
  assume r: "round_double q = Fin r" and q: "q \<noteq> 0"
  let ?u = "pow2 (ulp_exp \<bar>q\<bar>)"
  have "\<bar>round_mag \<bar>q\<bar> - \<bar>q\<bar>\<bar> = \<bar>of_int (round_even (\<bar>q\<bar> / ?u)) - \<bar>q\<bar> / ?u\<bar> * ?u"
  proof -
    have "round_mag \<bar>q\<bar> - \<bar>q\<bar> = (of_int (round_even (\<bar>q\<bar> / ?u)) - \<bar>q\<bar> / ?u) * ?u"
      by (simp add: round_mag_def left_diff_distrib)
    then show ?thesis by (simp only: abs_mult) simp
  qed
  also have "\<dots> \<le> 1 / 2 * ?u"
    using round_even_error by (rule mult_right_mono) simp
  finally show ?thesis
    using r q by (auto simp: round_double_Fin_iff sgn_if abs_if split: if_splits)
qed

section \<open>Operations and comparisons\<close>

fun fl_neg :: "pyfloat \<Rightarrow> pyfloat" where
  "fl_neg (Fin a) = Fin (- a)"
| "fl_neg PosInf = NegInf"
| "fl_neg NegInf = PosInf"
| "fl_neg NaN = NaN"

fun fl_add :: "pyfloat \<Rightarrow> pyfloat \<Rightarrow> pyfloat" where
  "fl_add (Fin a) (Fin b) = round_double (a + b)"
| "fl_add NaN _ = NaN"
| "fl_add _ NaN = NaN"
| "fl_add PosInf NegInf = NaN"
| "fl_add NegInf PosInf = NaN"
| "fl_add PosInf _ = PosInf"
| "fl_add _ PosInf = PosInf"
| "fl_add NegInf _ = NegInf"
| "fl_add _ NegInf = NegInf"

definition fl_sub :: "pyfloat \<Rightarrow> pyfloat \<Rightarrow> pyfloat" where
  "fl_sub x y = fl_add x (fl_neg y)"

fun fl_sgn :: "pyfloat \<Rightarrow> rat" where
  "fl_sgn (Fin a) = sgn a"
| "fl_sgn PosInf = 1"
| "fl_sgn NegInf = - 1"
| "fl_sgn NaN = 0"

definition fl_inf :: "rat \<Rightarrow> pyfloat" where
  "fl_inf s = (if s = 0 then NaN else if 0 < s then PosInf else NegInf)"

fun fl_mul :: "pyfloat \<Rightarrow> pyfloat \<Rightarrow> pyfloat" where
  "fl_mul (Fin a) (Fin b) = round_double (a * b)"
| "fl_mul x y = fl_inf (fl_sgn x * fl_sgn y)"

text \<open>\<^verbatim>\<open>/\<close>; \<open>None\<close> is \<^verbatim>\<open>ZeroDivisionError\<close>.\<close>

fun fl_div :: "pyfloat \<Rightarrow> pyfloat \<Rightarrow> pyfloat option" where
  "fl_div x (Fin b) =
     (if b = 0 then None
      else Some (case x of Fin a \<Rightarrow> round_double (a / b) | _ \<Rightarrow> fl_inf (fl_sgn x * sgn b)))"
| "fl_div (Fin a) PosInf = Some (Fin 0)"
| "fl_div (Fin a) NegInf = Some (Fin 0)"
| "fl_div _ _ = Some NaN"

fun fl_le :: "pyfloat \<Rightarrow> pyfloat \<Rightarrow> bool" where
  "fl_le (Fin a) (Fin b) = (a \<le> b)"
| "fl_le NaN _ = False"
| "fl_le _ NaN = False"
| "fl_le NegInf _ = True"
| "fl_le _ PosInf = True"
| "fl_le _ _ = False"

fun fl_lt :: "pyfloat \<Rightarrow> pyfloat \<Rightarrow> bool" where
  "fl_lt (Fin a) (Fin b) = (a < b)"
| "fl_lt NaN _ = False"
| "fl_lt _ NaN = False"
| "fl_lt NegInf y = (y \<noteq> NegInf)"
| "fl_lt x PosInf = (x \<noteq> PosInf)"
| "fl_lt _ _ = False"

text \<open>\<^verbatim>\<open>max(x, y)\<close> keeps \<open>x\<close> unless \<open>y\<close> is greater, \<^verbatim>\<open>min(x, y)\<close> unless it is less.\<close>

definition fl_max :: "pyfloat \<Rightarrow> pyfloat \<Rightarrow> pyfloat" where
  "fl_max x y = (if fl_lt x y then y else x)"

definition fl_min :: "pyfloat \<Rightarrow> pyfloat \<Rightarrow> pyfloat" where
  "fl_min x y = (if fl_lt y x then y else x)"

fun fl_abs :: "pyfloat \<Rightarrow> pyfloat" where
  "fl_abs (Fin a) = Fin \<bar>a\<bar>"
| "fl_abs NaN = NaN"
| "fl_abs _ = PosInf"

lemma fl_lt_trans: "fl_lt x y \<Longrightarrow> fl_lt y z \<Longrightarrow> fl_lt x z"
  by (cases x; cases y; cases z) simp_all

lemma fl_lt_irrefl [simp]: "\<not> fl_lt x x"
  by (cases x) simp_all

lemma fl_not_lt_zero: "\<not> fl_le x (Fin 0) \<Longrightarrow> x = NaN \<or> fl_lt (Fin 0) x"
  by (cases x) auto

fun fl_finite :: "pyfloat \<Rightarrow> bool" where
  "fl_finite (Fin _) = True"
| "fl_finite _ = False"

lemma fl_finite_iff: "fl_finite x \<longleftrightarrow> (\<exists>a. x = Fin a)"
  by (cases x) simp_all

lemma not_fl_le_zero: "fl_finite x \<Longrightarrow> \<not> fl_le x (Fin 0) \<longleftrightarrow> fl_lt (Fin 0) x"
  by (cases x) (simp_all add: not_le)

lemma fl_mul_sign:
  "fl_mul (Fin a) (Fin b) = Fin c \<Longrightarrow> 0 \<le> a * b \<Longrightarrow> 0 \<le> c"
  by (simp add: round_double_nonneg)

text \<open>Results of arithmetic are doubles; adding a number of one sign moves one way.\<close>

definition fl_double :: "pyfloat \<Rightarrow> bool" where
  "fl_double x \<longleftrightarrow> (case x of Fin q \<Rightarrow> is_double q | _ \<Rightarrow> True)"

lemma fl_double_round [simp]: "fl_double (round_double q)"
  by (cases "round_double q") (simp_all add: fl_double_def round_double_is_double)

lemma fl_double_0 [simp]: "fl_double (Fin 0)"
  by (simp add: fl_double_def)

lemma fl_double_add [simp]: "fl_double (fl_add x y)"
  by (cases x; cases y) (simp_all, simp_all add: fl_double_def)

text \<open>\<^verbatim>\<open>round(x, n)\<close>: the exact value to \<open>n\<close> decimals, ties to even, and the double nearest to it.\<close>

fun fl_round :: "nat \<Rightarrow> pyfloat \<Rightarrow> pyfloat" where
  "fl_round n (Fin q) = round_double (of_int (round_even (q * 10 ^ n)) / 10 ^ n)"
| "fl_round n x = x"

lemma fl_double_fl_round: "fl_double x \<Longrightarrow> fl_double (fl_round n x)"
  by (cases x) simp_all

lemma fl_add_ge:
  assumes "fl_double x" "fl_finite x" "fl_le (Fin 0) y" "fl_finite (fl_add x y)"
  shows "fl_le x (fl_add x y)"
proof (cases y)
  case (Fin b)
  obtain a c where ac: "x = Fin a" "round_double (a + b) = Fin c"
    using assms Fin by (auto simp: fl_finite_iff)
  moreover have "round_double a = Fin a"
    using assms(1) ac by (simp add: fl_double_def is_double_def)
  ultimately show ?thesis
    using assms(3) Fin round_double_mono [of a a "a + b" c] by simp
qed (use assms in \<open>auto simp: fl_finite_iff\<close>)

section \<open>Evaluation on numerals\<close>

lemmas round_eval = round_double_def round_mag_def ulp_exp_def pow2_def round_even_def
  Let_def double_bound_def

lemma round_double_numeral [simp]:
  "numeral n \<le> (9007199254740992::int) \<Longrightarrow> round_double (numeral n) = Fin (numeral n)"
  "numeral n \<le> (9007199254740992::int) \<Longrightarrow> round_double (- numeral n) = Fin (- numeral n)"
  using is_double_of_int [of "numeral n"] is_double_of_int [of "- numeral n"]
  by (simp_all add: is_double_def)

lemma round_double_1 [simp]: "round_double 1 = Fin 1" "round_double (- 1) = Fin (- 1)"
  using is_double_of_int [of 1] is_double_of_int [of "- 1"] by (simp_all add: is_double_def)

text \<open>
  The familiar rounding error: one tenth is not a double, and the sum of one tenth and two
  tenths is not the double nearest to three tenths.
\<close>

lemma tenth_rounds: "round_double (1 / 10) = Fin (3602879701896397 / 36028797018963968)"
  by (simp add: round_eval float_eval)

lemma tenth_plus_two_tenths:
  "fl_add (round_double (1 / 10)) (round_double (2 / 10)) \<noteq> round_double (3 / 10)"
  by (simp add: round_eval float_eval)

end
