(* ===== verification/PyPrelude.thy ===== *)
theory PyPrelude
  imports PyFloat "HOL-Library.AList" "HOL-Library.List_Lexorder" "HOL-Library.Char_ord"
begin

text \<open>
  What every component of the development shares: results that may be an exception, the loop
  that replays a list of events and stops at the first exception, Python values and
  dictionaries, and the locales \<open>event_replay\<close>, \<open>guarded_machine\<close> and \<open>draining_machine\<close> in which the facts about
  such loops and about state machines are proved once.
\<close>

section \<open>Results\<close>

text \<open>
  A Python function that may raise returns a sum: \<open>Inl e\<close> is the exception, \<open>Inr v\<close> the value.
\<close>

named_theorems result_simps \<open>rewrite rules for results\<close>

definition bindE :: "'e + 'a \<Rightarrow> ('a \<Rightarrow> 'e + 'b) \<Rightarrow> 'e + 'b" where
  "bindE m f = (case m of Inl e \<Rightarrow> Inl e | Inr a \<Rightarrow> f a)"

lemma bindE_Inl [simp]: "bindE (Inl e) f = Inl e"
  by (simp add: bindE_def)

lemma bindE_Inr [simp]: "bindE (Inr a) f = f a"
  by (simp add: bindE_def)

lemma bindE_eq_Inr [result_simps]: "bindE m f = Inr b \<longleftrightarrow> (\<exists>a. m = Inr a \<and> f a = Inr b)"
  by (cases m) simp_all

lemma bindE_eq_Inl [result_simps]:
  "bindE m f = Inl e \<longleftrightarrow> m = Inl e \<or> (\<exists>a. m = Inr a \<and> f a = Inl e)"
  by (cases m) simp_all

lemma bindE_assoc: "bindE (bindE m f) g = bindE m (\<lambda>x. bindE (f x) g)"
  by (cases m) simp_all

lemma bindE_cong [fundef_cong]:
  "m = m' \<Longrightarrow> (\<And>a. m' = Inr a \<Longrightarrow> f a = g a) \<Longrightarrow> bindE m f = bindE m' g"
  by (cases m') simp_all

text \<open>\<^verbatim>\<open>if bad: raise e\<close>.\<close>

definition raise_if :: "bool \<Rightarrow> 'e \<Rightarrow> 'e + unit" where
  "raise_if bad e = (if bad then Inl e else Inr ())"

lemma raise_if_eq_Inr [simp]: "raise_if bad e = Inr u \<longleftrightarrow> \<not> bad"
  by (simp add: raise_if_def)

lemma raise_if_simps [simp]: "raise_if True e = Inl e" "raise_if False e = Inr ()"
  by (simp_all add: raise_if_def)

text \<open>A subscript \<^verbatim>\<open>d[k]\<close> or an attribute that may be missing.\<close>

definition or_raise :: "'e \<Rightarrow> 'a option \<Rightarrow> 'e + 'a" where
  "or_raise e m = (case m of None \<Rightarrow> Inl e | Some a \<Rightarrow> Inr a)"

lemma or_raise_eq_Inr [simp]: "or_raise e m = Inr a \<longleftrightarrow> m = Some a"
  by (cases m) (simp_all add: or_raise_def)

lemma or_raise_Some [simp]: "or_raise e (Some a) = Inr a"
  by (simp add: or_raise_def)

lemma or_raise_None [simp]: "or_raise e None = Inl e"
  by (simp add: or_raise_def)

text \<open>The exceptions a computation may raise.\<close>

definition raises_only :: "('e \<Rightarrow> bool) \<Rightarrow> 'e + 'a \<Rightarrow> bool" where
  "raises_only P m \<longleftrightarrow> (case m of Inl e \<Rightarrow> P e | Inr _ \<Rightarrow> True)"

lemma raises_only_simps [simp]:
  "raises_only P (Inr x)" "raises_only P (Inl e) \<longleftrightarrow> P e"
  "raises_only P (raise_if b e) \<longleftrightarrow> (b \<longrightarrow> P e)" "raises_only P (or_raise e v) \<longleftrightarrow> (v = None \<longrightarrow> P e)"
  by (auto simp: raises_only_def raise_if_def or_raise_def split: option.splits)

lemma raises_only_bindE:
  "raises_only P m \<Longrightarrow> (\<And>a. m = Inr a \<Longrightarrow> raises_only P (f a)) \<Longrightarrow> raises_only P (bindE m f)"
  by (cases m) (auto simp: raises_only_def)

lemma raises_onlyD: "raises_only P m \<Longrightarrow> m = Inl e \<Longrightarrow> P e"
  by (simp add: raises_only_def)

section \<open>Methods\<close>

text \<open>
  A method of an object that may raise: it takes the state, and returns it with the result. A
  state change before an exception stays.
\<close>

type_synonym ('s, 'e, 'a) action = "'s \<Rightarrow> 's \<times> ('e + 'a)"

definition bindS :: "('s, 'e, 'a) action \<Rightarrow> ('a \<Rightarrow> ('s, 'e, 'b) action) \<Rightarrow> ('s, 'e, 'b) action" where
  "bindS m f s = (case m s of (t, Inl e) \<Rightarrow> (t, Inl e) | (t, Inr a) \<Rightarrow> f a t)"

definition liftS :: "'e + 'a \<Rightarrow> ('s, 'e, 'a) action" where
  "liftS r s = (s, r)"

definition getS :: "('s \<Rightarrow> 'a) \<Rightarrow> ('s, 'e, 'a) action" where
  "getS f s = (s, Inr (f s))"

definition setS :: "('s \<Rightarrow> 's) \<Rightarrow> ('s, 'e, unit) action" where
  "setS f s = (f s, Inr ())"

lemma bindS_run:
  "bindS m f s = (t, r) \<longleftrightarrow> (\<exists>err. m s = (t, Inl err) \<and> r = Inl err) \<or> (\<exists>u a. m s = (u, Inr a) \<and> f a u = (t, r))"
  by (auto simp: bindS_def split: prod.splits sum.splits)

lemma action_run [simp]:
  "getS f s = (t, r) \<longleftrightarrow> t = s \<and> r = Inr (f s)"
  "setS g s = (t, u) \<longleftrightarrow> t = g s \<and> u = Inr ()"
  "liftS v s = (t, v') \<longleftrightarrow> t = s \<and> v' = v"
  by (auto simp: getS_def setS_def liftS_def)

primrec eachS :: "('a \<Rightarrow> ('s, 'e, unit) action) \<Rightarrow> 'a list \<Rightarrow> ('s, 'e, unit) action" where
  "eachS f [] = liftS (Inr ())"
| "eachS f (x # xs) = bindS (f x) (\<lambda>_. eachS f xs)"

definition whenS :: "('s \<Rightarrow> bool) \<Rightarrow> ('s, 'e, unit) action \<Rightarrow> ('s, 'e, unit) action" where
  "whenS b m s = (if b s then m s else (s, Inr ()))"

text \<open>
  What every method of an object respects: a preorder between the state before and the state
  after, whether the method returns or raises. It is proved step by step along the code.
\<close>

definition keeps :: "('s \<Rightarrow> 's \<Rightarrow> bool) \<Rightarrow> ('s, 'e, 'a) action \<Rightarrow> bool" where
  "keeps R m \<longleftrightarrow> (\<forall>s t r. m s = (t, r) \<longrightarrow> R s t)"

lemma keepsI: "(\<And>s t r. m s = (t, r) \<Longrightarrow> R s t) \<Longrightarrow> keeps R m"
  by (simp add: keeps_def)

lemma keepsD: "keeps R m \<Longrightarrow> m s = (t, r) \<Longrightarrow> R s t"
  by (simp add: keeps_def)

lemma keeps_set: "(\<And>s. R s (g s)) \<Longrightarrow> keeps R (setS g)"
  by (simp add: keeps_def)

locale action_preorder =
  fixes R :: "'s \<Rightarrow> 's \<Rightarrow> bool"
  assumes R_refl: "R s s"
    and R_trans: "R s t \<Longrightarrow> R t u \<Longrightarrow> R s u"
begin

lemma keeps_bind:
  assumes "keeps R m" "\<And>a. keeps R (f a)"
  shows "keeps R (bindS m f)"
  by (rule keepsI) (auto simp: bindS_run dest: keepsD [OF assms(1)] keepsD [OF assms(2)] intro: R_trans)

text \<open>A value that was read is the state's at that point.\<close>

lemma keeps_get_bind:
  "(\<And>s t r. f (g s) s = (t, r) \<Longrightarrow> R s t) \<Longrightarrow> keeps R (bindS (getS g) f)"
  by (rule keepsI) (auto simp: bindS_run)

lemma keeps_pure: "keeps R (liftS v)" "keeps R (getS g)"
  by (simp_all add: keeps_def R_refl)

lemma keeps_when: "keeps R m \<Longrightarrow> keeps R (whenS b m)"
  by (auto simp: keeps_def whenS_def R_refl)

lemma keeps_each: "(\<And>x. keeps R (f x)) \<Longrightarrow> keeps R (eachS f xs)"
  by (induction xs) (auto intro: keeps_bind keeps_pure)

end

section \<open>Replaying a list of events\<close>

text \<open>\<^verbatim>\<open>for event in events: state = apply(state, event)\<close>, where \<^verbatim>\<open>apply\<close> may raise.\<close>

fun foldE :: "('s \<Rightarrow> 'a \<Rightarrow> 'e + 's) \<Rightarrow> 's \<Rightarrow> 'a list \<Rightarrow> 'e + 's" where
  "foldE step s [] = Inr s"
| "foldE step s (x # xs) = bindE (step s x) (\<lambda>s'. foldE step s' xs)"

lemma foldE_append: "foldE step s (xs @ ys) = bindE (foldE step s xs) (\<lambda>s'. foldE step s' ys)"
  by (induction xs arbitrary: s) (simp_all add: bindE_assoc)

lemma foldE_snoc: "foldE step s (xs @ [x]) = bindE (foldE step s xs) (\<lambda>s'. step s' x)"
  by (cases "foldE step s xs") (auto simp: foldE_append bindE_def split: sum.splits)

text \<open>
  Every consumer of an event stream (the portfolio ledger, the financial ledger, the durable
  store's reader) is such a loop with an invariant of its own: what one event keeps, the
  replay of any list keeps.
\<close>

locale event_replay =
  fixes step :: "'s \<Rightarrow> 'a \<Rightarrow> 'e + 's"
    and inv :: "'s \<Rightarrow> bool"
  assumes step_keeps: "inv s \<Longrightarrow> step s x = Inr s' \<Longrightarrow> inv s'"
begin

lemma replay_keeps: "inv s \<Longrightarrow> foldE step s xs = Inr s' \<Longrightarrow> inv s'"
proof (induction xs arbitrary: s)
  case Nil
  then show ?case by simp
next
  case (Cons x xs)
  from Cons.prems(2) obtain t where "step s x = Inr t" "foldE step t xs = Inr s'"
    by (auto simp: result_simps)
  with Cons.IH [of t] step_keeps [OF Cons.prems(1)] show ?case by blast
qed

lemma replay_relates:
  assumes one: "\<And>s x s'. inv s \<Longrightarrow> step s x = Inr s' \<Longrightarrow> R s s'"
    and refl: "\<And>s. R s s" and trans: "\<And>s t u. R s t \<Longrightarrow> R t u \<Longrightarrow> R s u"
  shows "inv s \<Longrightarrow> foldE step s xs = Inr s' \<Longrightarrow> R s s'"
proof (induction xs arbitrary: s)
  case Nil
  then show ?case by (simp add: refl)
next
  case (Cons x xs)
  from Cons.prems(2) obtain t where t: "step s x = Inr t" "foldE step t xs = Inr s'"
    by (auto simp: result_simps)
  from Cons.IH [OF step_keeps [OF Cons.prems(1) t(1)] t(2)] one [OF Cons.prems(1) t(1)]
  show ?case using trans by blast
qed

lemma replay_prefix:
  assumes "foldE step s (xs @ ys) = Inr s'" and "inv s"
  obtains t where "foldE step s xs = Inr t" and "inv t" and "foldE step t ys = Inr s'"
proof -
  from assms(1) obtain t where "foldE step s xs = Inr t" "foldE step t ys = Inr s'"
    by (auto simp: foldE_append result_simps)
  with that replay_keeps [OF assms(2)] show ?thesis by blast
qed

end

text \<open>
  An event stream whose events are numbered and whose state remembers the number of the last
  event it has taken, with each event required to carry the next number.
\<close>

locale sequenced_replay = event_replay step inv
  for step :: "'s \<Rightarrow> 'a \<Rightarrow> 'e + 's" and inv :: "'s \<Rightarrow> bool" +
  fixes last_seq :: "'s \<Rightarrow> int"
    and seq :: "'a \<Rightarrow> int"
  assumes step_seq: "inv s \<Longrightarrow> step s x = Inr s' \<Longrightarrow> seq x = last_seq s + 1"
    and step_last: "inv s \<Longrightarrow> step s x = Inr s' \<Longrightarrow> last_seq s' = seq x"
begin

lemma replay_seqs:
  "inv s \<Longrightarrow> foldE step s xs = Inr s' \<Longrightarrow>
     map seq xs = map (\<lambda>i. last_seq s + 1 + int i) [0..<length xs] \<and>
     last_seq s' = last_seq s + int (length xs)"
proof (induction xs arbitrary: s)
  case Nil
  then show ?case by simp
next
  case (Cons x xs)
  from Cons.prems(2) obtain t where t: "step s x = Inr t" "foldE step t xs = Inr s'"
    by (auto simp: result_simps)
  note head = step_seq [OF Cons.prems(1) t(1)] step_last [OF Cons.prems(1) t(1)]
  have "map seq xs = map (\<lambda>i. last_seq t + 1 + int i) [0..<length xs] \<and>
      last_seq s' = last_seq t + int (length xs)"
    using Cons.IH [OF step_keeps [OF Cons.prems(1) t(1)] t(2)] .
  then show ?case
    using head by (simp add: upt_conv_Cons map_Suc_upt [symmetric] o_def del: upt_Suc)
qed

end

text \<open>
  A replay that refines an abstract one: \<open>abs\<close> maps the detailed state to the abstract state
  and every event the detailed replay takes is an event the abstract replay takes.
\<close>

locale replay_refinement = event_replay step inv
  for step :: "'s \<Rightarrow> 'a \<Rightarrow> 'e + 's" and inv :: "'s \<Rightarrow> bool" +
  fixes astep :: "'t \<Rightarrow> 'a \<Rightarrow> 'f + 't"
    and abs :: "'s \<Rightarrow> 't"
  assumes step_refines: "inv s \<Longrightarrow> step s x = Inr s' \<Longrightarrow> astep (abs s) x = Inr (abs s')"
begin

lemma replay_refines:
  "inv s \<Longrightarrow> foldE step s xs = Inr s' \<Longrightarrow> foldE astep (abs s) xs = Inr (abs s')"
proof (induction xs arbitrary: s)
  case Nil
  then show ?case by simp
next
  case (Cons x xs)
  from Cons.prems(2) obtain t where t: "step s x = Inr t" "foldE step t xs = Inr s'"
    by (auto simp: result_simps)
  from Cons.IH [OF step_keeps [OF Cons.prems(1) t(1)] t(2)] step_refines [OF Cons.prems(1) t(1)]
  show ?case by simp
qed

end

section \<open>State machines whose operations return a state\<close>

text \<open>
  A component with a state, an initial state and operations: whatever holds at the start and
  survives every operation holds after every run. The operations are the values of a
  datatype and \<open>op\<close> is their effect.
\<close>

locale guarded_machine =
  fixes init :: "'s \<Rightarrow> bool"
    and op :: "'c \<Rightarrow> 's \<Rightarrow> 's"
    and inv :: "'s \<Rightarrow> bool"
  assumes init_inv: "init s \<Longrightarrow> inv s"
    and op_inv: "inv s \<Longrightarrow> inv (op c s)"
begin

lemma run_keeps: "inv s \<Longrightarrow> inv (fold op cs s)"
  by (induction cs arbitrary: s) (simp_all add: op_inv)

lemma run_inv: "init s \<Longrightarrow> inv (fold op cs s)"
  by (rule run_keeps [OF init_inv])

end

text \<open>
  A machine that comes to an end: outside its final states every operation uses up some of a
  budget, so no run stays outside for more operations than the budget at its start.
\<close>

locale draining_machine = guarded_machine +
  fixes over :: "'a \<Rightarrow> bool" and budget :: "'a \<Rightarrow> nat"
  assumes op_over: "inv s \<Longrightarrow> over s \<Longrightarrow> over (op c s)"
    and op_spends: "inv s \<Longrightarrow> \<not> over s \<Longrightarrow> \<not> over (op c s) \<Longrightarrow> budget (op c s) < budget s"
    and budget_left: "inv s \<Longrightarrow> \<not> over s \<Longrightarrow> 0 < budget s"
begin

lemma run_over: "inv s \<Longrightarrow> over s \<Longrightarrow> over (fold op cs s)"
  by (induction cs arbitrary: s) (simp_all add: op_inv op_over)

lemma run_ends: "inv s \<Longrightarrow> budget s \<le> length cs \<Longrightarrow> over (fold op cs s)"
proof (induction cs arbitrary: s)
  case Nil
  then show ?case using budget_left by fastforce
next
  case (Cons c cs)
  show ?case
  proof (cases "over (op c s)")
    case True
    then show ?thesis using Cons.prems(1) by (simp add: run_over op_inv)
  next
    case False
    then have "\<not> over s" using Cons.prems(1) op_over by blast
    then have "budget (op c s) < budget s" using False Cons.prems(1) op_spends by blast
    then have "budget (op c s) \<le> length cs" using Cons.prems(2) by simp
    then show ?thesis using Cons.IH Cons.prems(1) by (simp add: op_inv)
  qed
qed

end

section \<open>Dictionaries\<close>

text \<open>
  A \<^verbatim>\<open>dict\<close> is an association list in insertion order, because the code iterates over
  dictionaries: assignment replaces in place or appends at the end, and \<^verbatim>\<open>del\<close> keeps the
  order of the rest. The invariant of a dictionary is that its keys are distinct.
\<close>

type_synonym ('k, 'v) dict = "('k \<times> 'v) list"

abbreviation dict_get :: "('k, 'v) dict \<Rightarrow> 'k \<Rightarrow> 'v option" where
  "dict_get \<equiv> map_of"

abbreviation dict_keys :: "('k, 'v) dict \<Rightarrow> 'k list" where
  "dict_keys d \<equiv> map fst d"

abbreviation dict_has :: "('k, 'v) dict \<Rightarrow> 'k \<Rightarrow> bool" where
  "dict_has d k \<equiv> k \<in> set (dict_keys d)"

definition dict_set :: "('k, 'v) dict \<Rightarrow> 'k \<Rightarrow> 'v \<Rightarrow> ('k, 'v) dict" where
  "dict_set d k v = AList.update k v d"

definition dict_del :: "('k, 'v) dict \<Rightarrow> 'k \<Rightarrow> ('k, 'v) dict" where
  "dict_del d k = AList.delete k d"

lemma dict_get_set [simp]: "dict_get (dict_set d k v) = (dict_get d)(k \<mapsto> v)"
  by (simp add: dict_set_def update_conv')

lemma dict_get_del [simp]: "dict_get (dict_del d k) = (dict_get d)(k := None)"
  by (simp add: dict_del_def delete_conv')

lemma dict_keys_set [simp]: "set (dict_keys (dict_set d k v)) = insert k (set (dict_keys d))"
  by (simp add: dict_set_def dom_update)

lemma dict_keys_del [simp]: "dict_keys (dict_del d k) = removeAll k (dict_keys d)"
  by (simp add: dict_del_def delete_keys)

lemma fst_set_dict_set [simp]: "fst ` set (dict_set d k v) = insert k (fst ` set d)"
  using dict_keys_set [of d k v] by simp

lemma fst_set_dict_del [simp]: "fst ` set (dict_del d k) = fst ` set d - {k}"
  by (force simp: dict_del_def AList.delete_eq)

lemma dict_distinct_set [simp]:
  "distinct (dict_keys d) \<Longrightarrow> distinct (dict_keys (dict_set d k v))"
  by (simp add: dict_set_def distinct_update)

lemma dict_distinct_del [simp]:
  "distinct (dict_keys d) \<Longrightarrow> distinct (dict_keys (dict_del d k))"
  by (simp add: distinct_removeAll)

lemma dict_set_fresh: "k \<notin> set (dict_keys d) \<Longrightarrow> dict_set d k v = d @ [(k, v)]"
  by (induction d) (auto simp: dict_set_def)

lemma dict_get_None_iff: "dict_get d k = None \<longleftrightarrow> k \<notin> set (dict_keys d)"
  by (simp add: map_of_eq_None_iff)

lemma dict_get_Some_key: "dict_get d k = Some v \<Longrightarrow> k \<in> fst ` set d"
  by (metis image_eqI map_of_SomeD fst_conv)

lemma dict_set_mem:
  "(x, y) \<in> set (dict_set d k v) \<Longrightarrow> (x, y) \<in> set d \<or> x = k \<and> y = v"
  by (induction d) (auto simp: dict_set_def split: if_splits)

lemma dict_del_mem: "(x, y) \<in> set (dict_del d k) \<Longrightarrow> (x, y) \<in> set d \<and> x \<noteq> k"
  by (auto simp: dict_del_def AList.delete_eq)

lemma sum_list_dict_del:
  fixes f :: "'v \<Rightarrow> 'a :: ab_group_add"
  assumes "distinct (dict_keys d)" "dict_get d k = Some v"
  shows "(\<Sum>(_, x) \<leftarrow> dict_del d k. f x) = (\<Sum>(_, x) \<leftarrow> d. f x) - f v"
  using assms
proof (induction d)
  case Nil
  then show ?case by simp
next
  case (Cons a d)
  obtain k' v' where a: "a = (k', v')" by force
  show ?case
  proof (cases "k' = k")
    case True
    with Cons.prems(1) a have "\<And>x. (k, x) \<notin> set d" by force
    then have "dict_del d k = d"
      by (auto simp: dict_del_def AList.delete_eq filter_id_conv)
    with True Cons.prems a show ?thesis by (simp add: dict_del_def AList.delete_eq)
  next
    case False
    with Cons a show ?thesis by (simp add: dict_del_def AList.delete_eq)
  qed
qed

section \<open>Python values\<close>

text \<open>
  The scalars a payload or a configuration holds. A \<^verbatim>\<open>str\<close> is a \<open>string\<close> whose characters are
  the code points up to 255. \<open>is_number\<close> is
  \<^verbatim>\<open>isinstance(v, (int, float)) and not isinstance(v, bool)\<close>.
\<close>

datatype pyval = VNone | VBool bool | VInt int | VFloat pyfloat | VStr string

fun is_number :: "pyval \<Rightarrow> bool" where
  "is_number (VInt _) = True"
| "is_number (VFloat _) = True"
| "is_number _ = False"

fun is_str :: "pyval \<Rightarrow> bool" where
  "is_str (VStr _) = True"
| "is_str _ = False"

text \<open>
  \<^verbatim>\<open>float(n)\<close> of an int rounds to nearest; an int beyond the range raises
  \<^verbatim>\<open>OverflowError\<close>, here \<open>None\<close>, as does \<^verbatim>\<open>math.isnan\<close> or \<^verbatim>\<open>math.isinf\<close> of it.
\<close>

fun float_of_number :: "pyval \<Rightarrow> pyfloat option" where
  "float_of_number (VInt n) =
     (case round_double (of_int n) of Fin q \<Rightarrow> Some (Fin q) | _ \<Rightarrow> None)"
| "float_of_number (VFloat x) = Some x"
| "float_of_number _ = None"

text \<open>The truth value of a scalar, \<^verbatim>\<open>d.get(k)\<close>, and \<^verbatim>\<open>a or b or ... or 0\<close>.\<close>

fun truthy :: "pyval \<Rightarrow> bool" where
  "truthy VNone = False"
| "truthy (VBool b) = b"
| "truthy (VInt n) = (n \<noteq> 0)"
| "truthy (VFloat x) = (x \<noteq> Fin 0)"
| "truthy (VStr s) = (s \<noteq> [])"

definition get_or_none :: "(string, pyval) dict \<Rightarrow> string \<Rightarrow> pyval" where
  "get_or_none c k = (case dict_get c k of None \<Rightarrow> VNone | Some v \<Rightarrow> v)"

definition or_chain :: "pyval list \<Rightarrow> pyval" where
  "or_chain vs = (case List.find truthy vs of Some v \<Rightarrow> v | None \<Rightarrow> VInt 0)"

text \<open>The first integer that has no float.\<close>

lemma first_overflow: "float_of_number (VInt (2 ^ 1024)) = None"
proof -
  have bound: "double_bound = pow2 1024" by (simp add: double_bound_def pow2_def)
  have "ilog2 (pow2 1024) = 1024" by (rule ilog2_unique) (simp_all add: pow2_less)
  then have "ulp_exp (pow2 1024) \<le> 1024" by (simp add: ulp_exp_def)
  then have "double_bound \<le> round_mag (pow2 1024)"
    unfolding bound by (intro round_mag_ge_pow2) simp_all
  then have "round_double (pow2 1024) = PosInf" by (simp add: round_double_def)
  moreover have "of_int (2 ^ 1024) = pow2 1024" by (simp add: pow2_def)
  ultimately show ?thesis by (simp only: float_of_number.simps pyfloat.case)
qed

text \<open>The truth value of a string: \<^verbatim>\<open>not s\<close> is \<open>s = []\<close>; of an optional string, both.\<close>

definition truthy_str :: "string option \<Rightarrow> bool" where
  "truthy_str s \<longleftrightarrow> (case s of None \<Rightarrow> False | Some t \<Rightarrow> t \<noteq> [])"

lemma truthy_str_simps [simp]: "truthy_str None = False" "truthy_str (Some s) \<longleftrightarrow> s \<noteq> []"
  by (simp_all add: truthy_str_def)

end
