(* ===== verification/PyText.thy ===== *)
theory PyText
  imports PyPrelude
begin

text \<open>
  Text as Python makes and reads it: \<^verbatim>\<open>str\<close> of ints and floats, the string methods the code
  calls, and the decimal notation of numbers. The central definition is \<open>shortest\<close>, the
  shortest decimal that reads back as a given double, which is what \<^verbatim>\<open>repr\<close> and \<^verbatim>\<open>str\<close> of a
  float print; the central lemma is \<open>shortest_reads_back\<close>.
\<close>

section \<open>Digits\<close>

lemma of_char_less: "(of_char c :: nat) < 256"
  by (cases c) (simp add: of_char_def)

lemma char_iff: "c = d \<longleftrightarrow> (of_char c :: nat) = of_char d"
  by (metis of_char_eq_iff)

lemma char_of_eq: "(of_char c :: nat) = n \<Longrightarrow> char_of n = c"
  by (metis char_of_char)

definition digit_char :: "nat \<Rightarrow> char" where
  "digit_char d = char_of (48 + d)"

fun show_nat :: "nat \<Rightarrow> string" where
  "show_nat n = (if n < 10 then [digit_char n] else show_nat (n div 10) @ [digit_char (n mod 10)])"

declare show_nat.simps [simp del]

lemma show_nat_digit: "n < 10 \<Longrightarrow> show_nat n = [digit_char n]"
  by (simp add: show_nat.simps)

lemma show_nat_ge: "10 \<le> n \<Longrightarrow> show_nat n = show_nat (n div 10) @ [digit_char (n mod 10)]"
  by (subst show_nat.simps) simp

lemma show_nat_nonempty [simp]: "show_nat n \<noteq> []"
  by (subst show_nat.simps) simp

definition show_int :: "int \<Rightarrow> string" where
  "show_int n = (if n < 0 then ''-'' @ show_nat (nat (- n)) else show_nat (nat n))"

definition is_digit :: "char \<Rightarrow> bool" where
  "is_digit c \<longleftrightarrow> 48 \<le> (of_char c :: nat) \<and> (of_char c :: nat) \<le> 57"

lemma is_digit_digit_char: "d < 10 \<Longrightarrow> is_digit (digit_char d)"
  by (simp add: is_digit_def digit_char_def of_char_of)

definition digit_val :: "char \<Rightarrow> nat" where
  "digit_val c = of_char c - 48"

lemma digit_val_digit_char: "d < 10 \<Longrightarrow> digit_val (digit_char d) = d"
  by (simp add: digit_val_def digit_char_def of_char_of)

definition read_digits :: "string \<Rightarrow> nat" where
  "read_digits s = foldl (\<lambda>n c. 10 * n + digit_val c) 0 s"

lemma read_digits_snoc [simp]: "read_digits (s @ [c]) = 10 * read_digits s + digit_val c"
  by (simp add: read_digits_def)

lemma read_show_nat: "read_digits (show_nat n) = n"
proof (induction n rule: show_nat.induct)
  case (1 n)
  show ?case
  proof (cases "n < 10")
    case True
    then show ?thesis
      by (simp add: show_nat_digit read_digits_def digit_val_digit_char)
  next
    case False
    with 1 show ?thesis by (simp add: show_nat_ge digit_val_digit_char)
  qed
qed

lemma show_nat_digits: "list_all is_digit (show_nat n)"
proof (induction n rule: show_nat.induct)
  case (1 n)
  then show ?case
    by (cases "n < 10") (simp_all add: show_nat_digit show_nat_ge is_digit_digit_char)
qed

lemma show_nat_inj: "show_nat m = show_nat n \<Longrightarrow> m = n"
  by (metis read_show_nat)

section \<open>Powers of ten\<close>

definition pow10 :: "int \<Rightarrow> rat" where
  "pow10 e = (if 0 \<le> e then 10 ^ nat e else 1 / 10 ^ nat (- e))"

lemma pow10_pos [simp]: "0 < pow10 e"
  by (simp add: pow10_def)

lemma pow10_0 [simp]: "pow10 0 = 1"
  by (simp add: pow10_def)

lemma pow10_Suc: "pow10 (e + 1) = 10 * pow10 e"
proof (cases "0 \<le> e")
  case True
  then have "nat (e + 1) = Suc (nat e)" by simp
  with True show ?thesis by (simp add: pow10_def)
next
  case False
  then have "nat (- e) = Suc (nat (- (e + 1)))" by simp
  with False show ?thesis
    by (cases "e = - 1") (simp_all add: pow10_def)
qed

lemma pow10_add: "pow10 (a + b) = pow10 a * pow10 b"
proof (induction b rule: int_induct [where k = 0])
  case base
  show ?case by simp
next
  case (step1 i)
  have "pow10 (a + (i + 1)) = 10 * pow10 (a + i)"
    using pow10_Suc [of "a + i"] by (simp add: add.assoc)
  with step1 show ?case by (simp add: pow10_Suc)
next
  case (step2 i)
  have "pow10 (a + i) = 10 * pow10 (a + (i - 1))" "pow10 i = 10 * pow10 (i - 1)"
    using pow10_Suc [of "a + i - 1"] pow10_Suc [of "i - 1"] by (simp_all add: algebra_simps)
  with step2 show ?case by simp
qed

section \<open>The shortest decimal of a double\<close>

text \<open>
  The decimal exponent of a positive rational: \<open>10 ^ e \<le> q < 10 ^ (e + 1)\<close>, found by scaling;
  the fuel bounds the number of steps and 400 covers every double (from 5e-324 to 1.8e308).
\<close>

fun ilog10 :: "nat \<Rightarrow> rat \<Rightarrow> int" where
  "ilog10 0 q = 0"
| "ilog10 (Suc n) q =
     (if 10 \<le> q then ilog10 n (q / 10) + 1
      else if q < 1 then ilog10 n (q * 10) - 1
      else 0)"

lemma ilog10_numeral [float_eval]:
  "10 \<le> q \<Longrightarrow> ilog10 (numeral w) q = ilog10 (pred_numeral w) (q / 10) + 1"
  "q < 1 \<Longrightarrow> ilog10 (numeral w) q = ilog10 (pred_numeral w) (q * 10) - 1"
  "1 \<le> q \<Longrightarrow> q < 10 \<Longrightarrow> ilog10 (numeral w) q = 0"
  by (simp_all add: numeral_eq_Suc)

text \<open>
  With \<open>n\<close> digits the candidates are the nearest decimal and its other neighbour; a candidate
  counts if it rounds to the double. \<open>None\<close>: no decimal of \<open>n\<close> digits reads back as \<open>q\<close>.
\<close>

definition reads_as :: "int \<Rightarrow> int \<Rightarrow> rat \<Rightarrow> bool" where
  "reads_as m k q \<longleftrightarrow> round_double (of_int m * pow10 k) = Fin q"

definition with_digits :: "rat \<Rightarrow> int \<Rightarrow> int \<Rightarrow> (int \<times> int) option" where
  "with_digits q e n =
     (let k = e - n + 1; x = q / pow10 k; m = round_even x;
          m' = (if m = \<lfloor>x\<rfloor> then m + 1 else m - 1)
      in if reads_as m k q then Some (m, k)
         else if reads_as m' k q then Some (m', k)
         else None)"

definition exact_decimal :: "nat \<Rightarrow> rat \<Rightarrow> int \<times> int" where
  "exact_decimal n q = (\<lfloor>q * 10 ^ n\<rfloor>, - int n)"

fun try_digits :: "rat \<Rightarrow> int \<Rightarrow> int list \<Rightarrow> int \<times> int" where
  "try_digits q e [] = exact_decimal 1074 q"
| "try_digits q e (n # ns) =
     (case with_digits q e n of Some r \<Rightarrow> r | None \<Rightarrow> try_digits q e ns)"

text \<open>Trailing zeros are moved into the exponent.\<close>

function strip_zeros :: "int \<Rightarrow> int \<Rightarrow> int \<times> int" where
  "strip_zeros m k = (if m \<noteq> 0 \<and> m mod 10 = 0 then strip_zeros (m div 10) (k + 1) else (m, k))"
  by pat_completeness auto
termination
  by (relation "measure (\<lambda>(m, k). nat \<bar>m\<bar>)") auto

declare strip_zeros.simps [simp del]

text \<open>
  Seventeen digits are enough for every double; the list ends with the exact expansion of the
  double, which is never reached and makes the function total.
\<close>

definition shortest :: "rat \<Rightarrow> int \<times> int" where
  "shortest q =
     (case try_digits q (ilog10 400 q) [1..17] of (m, k) \<Rightarrow> strip_zeros m k)"

lemma strip_zeros_value:
  "strip_zeros m k = (m', k') \<Longrightarrow> of_int m' * pow10 k' = of_int m * pow10 k"
proof (induction m k rule: strip_zeros.induct)
  case (1 m k)
  show ?case
  proof (cases "m \<noteq> 0 \<and> m mod 10 = 0")
    case True
    then have m: "m = 10 * (m div 10)" by presburger
    from True "1.prems" have "strip_zeros (m div 10) (k + 1) = (m', k')"
      by (subst (asm) strip_zeros.simps) simp
    then have "of_int m' * pow10 k' = of_int (m div 10) * pow10 (k + 1)"
      using "1.IH" True by blast
    also have "\<dots> = of_int (10 * (m div 10)) * pow10 k" by (simp add: pow10_Suc)
    finally show ?thesis using m by simp
  next
    case False
    with "1.prems" show ?thesis by (subst (asm) strip_zeros.simps) auto
  qed
qed

lemma with_digits_reads: "with_digits q e n = Some (m, k) \<Longrightarrow> reads_as m k q"
  by (auto simp: with_digits_def Let_def split: if_splits)

text \<open>Every double is an integer multiple of the smallest subnormal, hence a finite decimal.\<close>

lemma is_double_multiple:
  assumes "is_double q" and "0 < q"
  obtains n :: int where "q = of_int n * pow2 (- int 1074)"
proof -
  let ?e = "ulp_exp q"
  have e: "0 \<le> ?e + int 1074" by (simp add: ulp_exp_def)
  have "q = of_int (round_even (q / pow2 ?e)) * pow2 ?e"
    using assms by (simp add: is_double_def round_double_Fin_iff round_mag_def)
  then obtain m where q: "q = of_int m * pow2 ?e" by blast
  have p: "pow2 ?e = of_int (2 ^ nat (?e + int 1074)) * pow2 (- int 1074)"
    using pow2_add [of "?e + int 1074" "- int 1074"] pow2_of_int [OF e] by simp
  have "q = of_int (m * 2 ^ nat (?e + int 1074)) * pow2 (- int 1074)"
    unfolding of_int_mult mult.assoc p [symmetric] by (rule q)
  then show ?thesis by (rule that)
qed

lemma exact_decimal_value:
  assumes "q = of_int n * pow2 (- int N)"
  shows "of_int \<lfloor>q * 10 ^ N\<rfloor> * pow10 (- int N) = q"
proof -
  have two: "pow2 (- int N) * 2 ^ N = 1" by (simp add: pow2_def)
  have ten: "(10 :: rat) ^ N = 2 ^ N * 5 ^ N"
    by (simp add: power_mult_distrib [symmetric])
  have "q * 10 ^ N = of_int n * (pow2 (- int N) * 2 ^ N) * 5 ^ N"
    unfolding assms ten by (simp only: mult.assoc mult.left_commute)
  then have "q * 10 ^ N = of_int (n * 5 ^ N)" by (simp add: two)
  then have int: "of_int \<lfloor>q * 10 ^ N\<rfloor> = q * 10 ^ N" by (metis floor_of_int)
  have pow: "pow10 (- int N) = 1 / 10 ^ N" by (cases "N = 0") (simp_all add: pow10_def)
  show ?thesis unfolding int pow by simp
qed

lemma exact_decimal_reads:
  assumes "is_double q" and "0 < q" and "exact_decimal 1074 q = (m, k)"
  shows "reads_as m k q"
proof -
  obtain n where "q = of_int n * pow2 (- int 1074)"
    using is_double_multiple [OF assms(1,2)] .
  from exact_decimal_value [OF this] have "of_int m * pow10 k = q"
    using assms(3) unfolding exact_decimal_def prod.inject by blast
  with assms(1) show ?thesis by (simp add: reads_as_def is_double_def)
qed

lemma try_digits_reads:
  "is_double q \<Longrightarrow> 0 < q \<Longrightarrow> try_digits q e ns = (m, k) \<Longrightarrow> reads_as m k q"
proof (induction ns)
  case Nil
  with exact_decimal_reads show ?case by (simp only: try_digits.simps)
next
  case (Cons n ns)
  then show ?case by (auto split: option.splits dest: with_digits_reads)
qed

theorem shortest_reads_back:
  assumes "is_double q" and "0 < q" and "shortest q = (m, k)"
  shows "round_double (of_int m * pow10 k) = Fin q"
proof -
  obtain a b where ab: "try_digits q (ilog10 400 q) [1..17] = (a, b)" by force
  then have "reads_as a b q" using try_digits_reads assms by blast
  moreover have "of_int m * pow10 k = of_int a * pow10 b"
    using assms(3) ab strip_zeros_value [of a b m k] by (simp add: shortest_def)
  ultimately show ?thesis by (simp add: reads_as_def)
qed

section \<open>The text of a value\<close>

text \<open>
  \<^verbatim>\<open>repr\<close> of a float prints the shortest digits, in positional notation when the decimal point
  lies within sixteen places to the right or four to the left of the first digit, and with an
  exponent of at least two digits otherwise.
\<close>

definition zeros :: "int \<Rightarrow> string" where
  "zeros n = replicate (nat n) (CHR ''0'')"

definition point_notation :: "string \<Rightarrow> int \<Rightarrow> string" where
  "point_notation ds p =
     (if p \<le> 0 then ''0.'' @ zeros (- p) @ ds
      else if int (length ds) \<le> p then ds @ zeros (p - int (length ds)) @ ''.0''
      else take (nat p) ds @ ''.'' @ drop (nat p) ds)"

definition exponent_notation :: "string \<Rightarrow> int \<Rightarrow> string" where
  "exponent_notation ds x =
     take 1 ds @ (if length ds = 1 then [] else ''.'' @ drop 1 ds) @ ''e'' @
     (if x < 0 then ''-'' else ''+'') @
     (if \<bar>x\<bar> < 10 then ''0'' else []) @ show_int \<bar>x\<bar>"

definition repr_pos :: "rat \<Rightarrow> string" where
  "repr_pos q =
     (case shortest q of (m, k) \<Rightarrow>
        let ds = show_int m; p = int (length ds) + k
        in if - 4 < p \<and> p \<le> 16 then point_notation ds p else exponent_notation ds (p - 1))"

fun float_repr :: "pyfloat \<Rightarrow> string" where
  "float_repr (Fin q) =
     (if q = 0 then ''0.0'' else if q < 0 then ''-'' @ repr_pos (- q) else repr_pos q)"
| "float_repr PosInf = ''inf''"
| "float_repr NegInf = ''-inf''"
| "float_repr NaN = ''nan''"

fun py_str :: "pyval \<Rightarrow> string" where
  "py_str VNone = ''None''"
| "py_str (VBool b) = (if b then ''True'' else ''False'')"
| "py_str (VInt n) = show_int n"
| "py_str (VFloat x) = float_repr x"
| "py_str (VStr s) = s"

lemma repr_of_half: "float_repr (Fin (1 / 2)) = ''0.5''"
  by (simp add: repr_pos_def shortest_def with_digits_def reads_as_def round_eval float_eval
      upto.simps pow10_def strip_zeros.simps point_notation_def zeros_def
      show_int_def show_nat.simps digit_char_def char_of_def bit_0)

section \<open>String methods\<close>

text \<open>\<^verbatim>\<open>str.isspace\<close> on the code points up to 255, and \<^verbatim>\<open>strip\<close>.\<close>

definition is_space :: "char \<Rightarrow> bool" where
  "is_space c \<longleftrightarrow> (of_char c :: nat) \<in> {9, 10, 11, 12, 13, 28, 29, 30, 31, 32, 133, 160}"

definition py_strip :: "string \<Rightarrow> string" where
  "py_strip s = rev (dropWhile is_space (rev (dropWhile is_space s)))"

text \<open>
  \<^verbatim>\<open>upper\<close> and \<^verbatim>\<open>lower\<close>: the sharp s becomes two letters, and the two letters whose upper case
  is beyond 255 (the micro sign and y with diaeresis) are left alone; no table the code
  compares with has a letter outside ASCII.
\<close>

definition upper_char :: "char \<Rightarrow> string" where
  "upper_char c =
     (let n = (of_char c :: nat) in
      if 97 \<le> n \<and> n \<le> 122 \<or> 224 \<le> n \<and> n \<le> 254 \<and> n \<noteq> 247 then [char_of (n - 32)]
      else if n = 223 then ''SS'' else [c])"

definition lower_char :: "char \<Rightarrow> char" where
  "lower_char c =
     (let n = (of_char c :: nat) in
      if 65 \<le> n \<and> n \<le> 90 \<or> 192 \<le> n \<and> n \<le> 222 \<and> n \<noteq> 215 then char_of (n + 32) else c)"

definition py_upper :: "string \<Rightarrow> string" where
  "py_upper s = concat (map upper_char s)"

definition py_lower :: "string \<Rightarrow> string" where
  "py_lower s = map lower_char s"

lemma is_space_digit [simp]: "is_digit c \<Longrightarrow> \<not> is_space c"
  by (auto simp: is_digit_def is_space_def)

lemma py_strip_id: "s \<noteq> [] \<Longrightarrow> \<not> is_space (hd s) \<Longrightarrow> \<not> is_space (last s) \<Longrightarrow> py_strip s = s"
proof -
  assume "s \<noteq> []" "\<not> is_space (hd s)" "\<not> is_space (last s)"
  then have "dropWhile is_space s = s" "dropWhile is_space (rev s) = rev s"
    by (simp_all add: dropWhile_eq_self_iff hd_rev)
  then show ?thesis by (simp add: py_strip_def)
qed

section \<open>Numbers from text\<close>

text \<open>
  \<^verbatim>\<open>int(s)\<close> of a string: surrounding space, a sign, digits with single underscores between
  them. \<open>None\<close> is \<^verbatim>\<open>ValueError\<close>.
\<close>

fun plain_digits :: "string \<Rightarrow> string option" where
  "plain_digits [] = None"
| "plain_digits [c] = (if is_digit c then Some [c] else None)"
| "plain_digits (c # d # s) =
     (if \<not> is_digit c then None
      else if d = CHR ''_'' then map_option ((#) c) (plain_digits s)
      else map_option ((#) c) (plain_digits (d # s)))"

definition unsigned_int :: "string \<Rightarrow> int option" where
  "unsigned_int s = map_option (\<lambda>ds. int (read_digits ds)) (plain_digits s)"

definition int_of_str :: "string \<Rightarrow> int option" where
  "int_of_str s =
     (case py_strip s of
        [] \<Rightarrow> None
      | c # t \<Rightarrow>
          if c = CHR ''-'' then map_option uminus (unsigned_int t)
          else if c = CHR ''+'' then unsigned_int t
          else unsigned_int (c # t))"

text \<open>The conversion \<^verbatim>\<open>int(v)\<close>; a float is truncated towards zero.\<close>

datatype conv_error = TypeError | ValueError | OverflowError

definition truncate_rat :: "rat \<Rightarrow> int" where
  "truncate_rat q = (if 0 \<le> q then \<lfloor>q\<rfloor> else \<lceil>q\<rceil>)"

fun py_int :: "pyval \<Rightarrow> conv_error + int" where
  "py_int VNone = Inl TypeError"
| "py_int (VBool b) = Inr (if b then 1 else 0)"
| "py_int (VInt n) = Inr n"
| "py_int (VFloat (Fin q)) = Inr (truncate_rat q)"
| "py_int (VFloat NaN) = Inl ValueError"
| "py_int (VFloat _) = Inl OverflowError"
| "py_int (VStr s) = or_raise ValueError (int_of_str s)"

lemma plain_digits_id: "ds \<noteq> [] \<Longrightarrow> list_all is_digit ds \<Longrightarrow> plain_digits ds = Some ds"
  by (induction ds rule: plain_digits.induct) (auto simp: is_digit_def)

lemma show_nat_strip: "py_strip (show_nat n) = show_nat n"
  using show_nat_digits [of n] by (intro py_strip_id) (auto simp: list_all_iff)

lemma int_of_show_nat: "int_of_str (show_nat n) = Some (int n)"
proof -
  obtain c t where ct: "show_nat n = c # t" using show_nat_nonempty by (meson neq_Nil_conv)
  have "is_digit c" using show_nat_digits [of n] ct by simp
  then have "c \<noteq> CHR ''-''" "c \<noteq> CHR ''+''" by (auto simp: is_digit_def)
  moreover have "unsigned_int (show_nat n) = Some (int n)"
    by (simp add: unsigned_int_def plain_digits_id show_nat_digits read_show_nat)
  ultimately show ?thesis
    using ct by (simp add: int_of_str_def show_nat_strip [of n, unfolded ct])
qed

theorem int_of_show_int: "int_of_str (show_int n) = Some n"
proof (cases "n < 0")
  case True
  let ?s = "CHR ''-'' # show_nat (nat (- n))"
  have "\<not> is_space (last ?s)"
    using show_nat_digits [of "nat (- n)"] by (auto simp: list_all_iff)
  then have "py_strip ?s = ?s" by (intro py_strip_id) (auto simp: is_space_def)
  moreover have "unsigned_int (show_nat (nat (- n))) = Some (- n)"
    using True by (simp add: unsigned_int_def plain_digits_id show_nat_digits read_show_nat)
  ultimately show ?thesis
    using True by (simp add: int_of_str_def show_int_def)
next
  case False
  then show ?thesis by (simp add: show_int_def int_of_show_nat)
qed

section \<open>Floats from text\<close>

text \<open>
  \<^verbatim>\<open>float(s)\<close> of a string: surrounding space, a sign, then an infinity, a NaN, or decimal
  digits with at most one point and an optional exponent, underscores allowed between digits.
  \<open>None\<close> is \<^verbatim>\<open>ValueError\<close>.
\<close>

definition break_at :: "(char \<Rightarrow> bool) \<Rightarrow> string \<Rightarrow> string \<times> string option" where
  "break_at p s =
     (takeWhile (\<lambda>c. \<not> p c) s,
      case dropWhile (\<lambda>c. \<not> p c) s of [] \<Rightarrow> None | _ # t \<Rightarrow> Some t)"

definition optional_digits :: "string \<Rightarrow> string option" where
  "optional_digits s = (if s = [] then Some [] else plain_digits s)"

definition signed_digits :: "string \<Rightarrow> int option" where
  "signed_digits s =
     (case s of
        [] \<Rightarrow> None
      | c # t \<Rightarrow>
          if c = CHR ''-'' then map_option uminus (unsigned_int t)
          else if c = CHR ''+'' then unsigned_int t
          else unsigned_int s)"

text \<open>The digits of an unsigned decimal numeral and the power of ten they are scaled by.\<close>

definition decimal_parts :: "string \<Rightarrow> (nat \<times> int) option" where
  "decimal_parts s =
     (case break_at (\<lambda>c. c = CHR ''e'') s of
        (mantissa, expo) \<Rightarrow>
          (case break_at (\<lambda>c. c = CHR ''.'') mantissa of
             (whole, fraction) \<Rightarrow>
               (case (optional_digits whole,
                      case fraction of None \<Rightarrow> Some [] | Some f \<Rightarrow> optional_digits f,
                      case expo of None \<Rightarrow> Some 0 | Some x \<Rightarrow> signed_digits x) of
                  (Some w, Some f, Some x) \<Rightarrow>
                    if w @ f = [] then None
                    else Some (read_digits (w @ f), x - int (length f))
                | _ \<Rightarrow> None)))"

definition decimal_of_text :: "string \<Rightarrow> rat option" where
  "decimal_of_text s = map_option (\<lambda>(m, k). of_nat m * pow10 k) (decimal_parts s)"

definition unsigned_float_of_str :: "string \<Rightarrow> pyfloat option" where
  "unsigned_float_of_str s =
     (if s = ''inf'' \<or> s = ''infinity'' then Some PosInf
      else if s = ''nan'' then Some NaN
      else map_option round_double (decimal_of_text s))"

definition float_of_str :: "string \<Rightarrow> pyfloat option" where
  "float_of_str s =
     (case py_lower (py_strip s) of
        [] \<Rightarrow> None
      | c # t \<Rightarrow>
          if c = CHR ''-'' then map_option fl_neg (unsigned_float_of_str t)
          else if c = CHR ''+'' then unsigned_float_of_str t
          else unsigned_float_of_str (c # t))"

text \<open>The conversion \<^verbatim>\<open>float(v)\<close> of any scalar.\<close>

fun py_float :: "pyval \<Rightarrow> conv_error + pyfloat" where
  "py_float VNone = Inl TypeError"
| "py_float (VBool b) = Inr (Fin (if b then 1 else 0))"
| "py_float (VInt n) = or_raise OverflowError (float_of_number (VInt n))"
| "py_float (VFloat x) = Inr x"
| "py_float (VStr s) = or_raise ValueError (float_of_str s)"

end
