(* ===== verification/PaperEpoch.thy ===== *)
theory PaperEpoch
  imports PyPrelude
begin

text \<open>
  \<^verbatim>\<open>paper_trading/paper_epoch.py\<close>: the identity of one bounded paper-trading experiment, its
  validating constructor and its two terminal transitions. The arguments a caller passes
  where Python checks types at run time are \<open>pyval\<close>s, the fields of a constructed object have
  their checked types.
\<close>

datatype paper_epoch_status = ACTIVE | CLOSED | SUPERSEDED

definition terminal_statuses :: "paper_epoch_status list" where
  "terminal_statuses = [CLOSED, SUPERSEDED]"

datatype number_error = NotReal string | NotFinite string | NumberOverflow string

datatype epoch_error =
    EpochNumber number_error
  | EmptyPaperEpochId
  | CapitalNotPositive
  | EmptyCodeSha
  | EmptyConfigHash
  | BadSchemaVersion
  | InvalidPaperEpochTransition paper_epoch_status paper_epoch_status

definition require_finite :: "string \<Rightarrow> pyval \<Rightarrow> number_error + pyfloat" where
  "require_finite name v =
     (if \<not> is_number v then Inl (NotReal name)
      else case float_of_number v of
             None \<Rightarrow> Inl (NumberOverflow name)
           | Some x \<Rightarrow> if fl_finite x then Inr x else Inl (NotFinite name))"

definition lift_error :: "('e \<Rightarrow> 'f) \<Rightarrow> 'e + 'a \<Rightarrow> 'f + 'a" where
  "lift_error f m = (case m of Inl e \<Rightarrow> Inl (f e) | Inr a \<Rightarrow> Inr a)"

lemma lift_error_Inr [simp]: "lift_error f m = Inr a \<longleftrightarrow> m = Inr a"
  by (cases m) (simp_all add: lift_error_def)

lemma lift_error_simps [simp]:
  "lift_error f (Inl e) = Inl (f e)" "lift_error f (Inr a) = Inr a"
  by (simp_all add: lift_error_def)

lemma require_finite_finite:
  "require_finite name v = Inr x \<Longrightarrow> fl_finite x"
  by (auto simp: require_finite_def split: if_splits option.splits)

lemma require_finite_Fin [simp]: "require_finite name (VFloat (Fin q)) = Inr (Fin q)"
  by (simp add: require_finite_def)

text \<open>
  An \<^verbatim>\<open>int\<close> is wanted; Python's \<^verbatim>\<open>bool\<close> is one, and \<^verbatim>\<open>True\<close> is then used as the number 1.
\<close>

fun as_int :: "pyval \<Rightarrow> int option" where
  "as_int (VInt n) = Some n"
| "as_int (VBool b) = Some (if b then 1 else 0)"
| "as_int _ = None"

record paper_epoch =
  pe_id :: string
  pe_created_at :: pyfloat
  pe_initial_virtual_capital :: pyfloat
  pe_status :: paper_epoch_status
  pe_code_sha :: string
  pe_config_snapshot_hash :: string
  pe_schema_version :: int

text \<open>The dataclass constructor with its \<^verbatim>\<open>__post_init__\<close>.\<close>

definition new_paper_epoch ::
  "string \<Rightarrow> pyval \<Rightarrow> pyval \<Rightarrow> paper_epoch_status \<Rightarrow> string \<Rightarrow> string \<Rightarrow> pyval
     \<Rightarrow> epoch_error + paper_epoch" where
  "new_paper_epoch i created cap status sha conf schema =
     bindE (raise_if (i = []) EmptyPaperEpochId) (\<lambda>_.
     bindE (lift_error EpochNumber (require_finite ''created_at'' created)) (\<lambda>created_at.
     bindE (lift_error EpochNumber (require_finite ''initial_virtual_capital'' cap)) (\<lambda>capital.
     bindE (raise_if (fl_le capital (Fin 0)) CapitalNotPositive) (\<lambda>_.
     bindE (raise_if (sha = []) EmptyCodeSha) (\<lambda>_.
     bindE (raise_if (conf = []) EmptyConfigHash) (\<lambda>_.
     bindE (or_raise BadSchemaVersion (as_int schema)) (\<lambda>version.
     bindE (raise_if (version < 1) BadSchemaVersion) (\<lambda>_.
       Inr \<lparr>pe_id = i, pe_created_at = created_at, pe_initial_virtual_capital = capital,
            pe_status = status, pe_code_sha = sha, pe_config_snapshot_hash = conf,
            pe_schema_version = version\<rparr>))))))))"

definition epoch_is_terminal :: "paper_epoch \<Rightarrow> bool" where
  "epoch_is_terminal e \<longleftrightarrow> pe_status e \<in> set terminal_statuses"

definition transition_to :: "paper_epoch \<Rightarrow> paper_epoch_status \<Rightarrow> epoch_error + paper_epoch" where
  "transition_to e new =
     (if pe_status e \<in> set terminal_statuses
      then Inl (InvalidPaperEpochTransition (pe_status e) new)
      else new_paper_epoch (pe_id e) (VFloat (pe_created_at e))
             (VFloat (pe_initial_virtual_capital e)) new (pe_code_sha e)
             (pe_config_snapshot_hash e) (VInt (pe_schema_version e)))"

definition close_epoch :: "paper_epoch \<Rightarrow> epoch_error + paper_epoch" where
  "close_epoch e = transition_to e CLOSED"

definition supersede_epoch :: "paper_epoch \<Rightarrow> epoch_error + paper_epoch" where
  "supersede_epoch e = transition_to e SUPERSEDED"

definition create_paper_epoch ::
  "string \<Rightarrow> pyval \<Rightarrow> pyval \<Rightarrow> string \<Rightarrow> string \<Rightarrow> pyval \<Rightarrow> epoch_error + paper_epoch" where
  "create_paper_epoch i created cap sha conf schema =
     new_paper_epoch i created cap ACTIVE sha conf schema"

section \<open>Well-formed epochs\<close>

definition epoch_ok :: "paper_epoch \<Rightarrow> bool" where
  "epoch_ok e \<longleftrightarrow>
     pe_id e \<noteq> [] \<and> fl_finite (pe_created_at e) \<and> fl_finite (pe_initial_virtual_capital e) \<and>
     fl_lt (Fin 0) (pe_initial_virtual_capital e) \<and> pe_code_sha e \<noteq> [] \<and>
     pe_config_snapshot_hash e \<noteq> [] \<and> 1 \<le> pe_schema_version e"

lemma new_paper_epoch_ok:
  "new_paper_epoch i c v st sha conf s = Inr e \<Longrightarrow> epoch_ok e \<and> pe_status e = st"
  by (auto simp: new_paper_epoch_def epoch_ok_def result_simps not_fl_le_zero
      dest: require_finite_finite)

lemma new_paper_epoch_id: 
  "new_paper_epoch i c v st sha conf s = Inr e \<Longrightarrow> pe_id e = i"
  by (auto simp: new_paper_epoch_def result_simps)

lemma new_paper_epoch_rebuild:
  assumes "epoch_ok e"
  shows "new_paper_epoch (pe_id e) (VFloat (pe_created_at e))
           (VFloat (pe_initial_virtual_capital e)) st (pe_code_sha e)
           (pe_config_snapshot_hash e) (VInt (pe_schema_version e))
         = Inr (e\<lparr>pe_status := st\<rparr>)"
  using assms
  by (cases e)
     (auto simp: new_paper_epoch_def epoch_ok_def raise_if_def fl_finite_iff not_le)

lemma transition_to_ok:
  assumes "epoch_ok e" "pe_status e = ACTIVE"
  shows "transition_to e new = Inr (e\<lparr>pe_status := new\<rparr>)"
  using assms by (simp add: transition_to_def terminal_statuses_def new_paper_epoch_rebuild)

lemma terminal_is_final:
  "epoch_is_terminal e \<Longrightarrow> transition_to e new = Inl (InvalidPaperEpochTransition (pe_status e) new)"
  by (simp add: epoch_is_terminal_def transition_to_def)

end
