(* ===== verification/LedgerEvents.thy ===== *)
theory LedgerEvents
  imports PyText PaperEpoch
begin

text \<open>
  \<^verbatim>\<open>paper_trading/ledger_events.py\<close>: the event envelope of the paper portfolio ledger, the
  checks of its constructor, the closed vocabulary of trade sides, and one builder per event
  type. A payload is a dictionary of scalars: the builders and the projection never put or
  read anything else, and the recursive freezing of nested containers is the identity on it.
\<close>

datatype ledger_event_type =
    EPOCH_CREATED
  | POSITION_OPENED
  | POSITION_CLOSED
  | POSITION_UNRESOLVED
  | RECOVERY_COMPLETED

datatype side = LONG | SHORT

fun side_value :: "side \<Rightarrow> string" where
  "side_value LONG = ''LONG''"
| "side_value SHORT = ''SHORT''"

datatype event_error =
    SideNotString
  | UnrecognizedSide string
  | EventNumber number_error
  | EmptyEventId
  | EmptyEventEpochId
  | SequenceNotInt
  | SequenceBelowOne
  | SchemaNotInt
  | SchemaBelowOne
  | MissingTradeId ledger_event_type
  | EventIdIsTradeId string
  | EpochCreatedWithTradeId
  | ReplayTermsInVersion1
  | ReplayTermsMissing
  | NonPositiveExitTerm
  | TimeoutNotAfterOpen
  | RecoveryBeforeTimeout

definition side_aliases :: "(string \<times> side) list" where
  "side_aliases = [(''LONG'', LONG), (''BUY'', LONG), (''SHORT'', SHORT), (''SELL'', SHORT)]"

fun normalize_side :: "pyval \<Rightarrow> event_error + side" where
  "normalize_side (VStr raw) =
     or_raise (UnrecognizedSide raw) (map_of side_aliases (py_upper (py_strip raw)))"
| "normalize_side _ = Inl SideNotString"

definition trade_scoped_event_types :: "ledger_event_type list" where
  "trade_scoped_event_types = [POSITION_OPENED, POSITION_CLOSED, POSITION_UNRESOLVED]"

definition event_require_finite :: "string \<Rightarrow> pyval \<Rightarrow> event_error + pyfloat" where
  "event_require_finite name v =
     (if \<not> is_number v then Inl (EventNumber (NotReal name))
      else case float_of_number v of
             None \<Rightarrow> Inl (EventNumber (NumberOverflow name))
           | Some x \<Rightarrow> if fl_finite x then Inr x else Inl (EventNumber (NotFinite name)))"

section \<open>The envelope\<close>

type_synonym payload = "(string, pyval) dict"

record ledger_event =
  le_event_id :: string
  le_paper_epoch_id :: string
  le_sequence :: int
  le_event_type :: ledger_event_type
  le_timestamp :: pyfloat
  le_trade_id :: "string option"
  le_decision_id :: "string option"
  le_payload :: payload
  le_schema_version :: int

text \<open>\<^verbatim>\<open>isinstance(v, int) and not isinstance(v, bool)\<close>.\<close>

fun strict_int :: "pyval \<Rightarrow> int option" where
  "strict_int (VInt n) = Some n"
| "strict_int _ = None"

definition new_ledger_event ::
  "string \<Rightarrow> string \<Rightarrow> pyval \<Rightarrow> ledger_event_type \<Rightarrow> pyval \<Rightarrow> string option \<Rightarrow> string option
     \<Rightarrow> payload \<Rightarrow> pyval \<Rightarrow> event_error + ledger_event" where
  "new_ledger_event eid epoch seq etype ts tid did pl schema =
     bindE (raise_if (eid = []) EmptyEventId) (\<lambda>_.
     bindE (raise_if (epoch = []) EmptyEventEpochId) (\<lambda>_.
     bindE (or_raise SequenceNotInt (strict_int seq)) (\<lambda>sequence.
     bindE (raise_if (sequence < 1) SequenceBelowOne) (\<lambda>_.
     bindE (or_raise SchemaNotInt (strict_int schema)) (\<lambda>version.
     bindE (raise_if (version < 1) SchemaBelowOne) (\<lambda>_.
     bindE (event_require_finite ''timestamp'' ts) (\<lambda>timestamp.
     bindE (if etype \<in> set trade_scoped_event_types
            then bindE (raise_if (\<not> truthy_str tid) (MissingTradeId etype)) (\<lambda>_.
                   raise_if (tid = Some eid) (EventIdIsTradeId eid))
            else Inr ()) (\<lambda>_.
     bindE (raise_if (etype = EPOCH_CREATED \<and> truthy_str tid) EpochCreatedWithTradeId) (\<lambda>_.
       Inr \<lparr>le_event_id = eid, le_paper_epoch_id = epoch, le_sequence = sequence,
            le_event_type = etype, le_timestamp = timestamp, le_trade_id = tid,
            le_decision_id = did, le_payload = pl, le_schema_version = version\<rparr>)))))))))"

section \<open>The builders\<close>

definition make_epoch_created_event ::
  "string \<Rightarrow> string \<Rightarrow> pyval \<Rightarrow> pyval \<Rightarrow> pyval \<Rightarrow> pyval \<Rightarrow> pyval \<Rightarrow> string option \<Rightarrow> pyval
     \<Rightarrow> event_error + ledger_event" where
  "make_epoch_created_event eid epoch seq ts cap sha conf did schema =
     new_ledger_event eid epoch seq EPOCH_CREATED ts None did
       [(''initial_virtual_capital'', cap), (''code_sha'', sha), (''config_snapshot_hash'', conf)]
       schema"

definition make_epoch_created_event_from_epoch ::
  "paper_epoch \<Rightarrow> string \<Rightarrow> pyval \<Rightarrow> string option \<Rightarrow> event_error + ledger_event" where
  "make_epoch_created_event_from_epoch e eid seq did =
     make_epoch_created_event eid (pe_id e) seq (VFloat (pe_created_at e))
       (VFloat (pe_initial_virtual_capital e)) (VStr (pe_code_sha e))
       (VStr (pe_config_snapshot_hash e)) did (VInt (pe_schema_version e))"

text \<open>
  Schema version 2 requires the four replay terms and validates them; version 1 forbids them;
  any other version ignores them. \<^verbatim>\<open>schema_version == 1\<close> is Python equality, which holds of
  \<^verbatim>\<open>True\<close> and \<^verbatim>\<open>1.0\<close> too.
\<close>

fun py_eq_int :: "pyval \<Rightarrow> int \<Rightarrow> bool" where
  "py_eq_int (VInt m) n = (m = n)"
| "py_eq_int (VBool b) n = ((if b then 1 else 0) = n)"
| "py_eq_int (VFloat (Fin q)) n = (q = of_int n)"
| "py_eq_int _ _ = False"

definition replay_terms_payload ::
  "pyval \<Rightarrow> pyval \<Rightarrow> pyval \<Rightarrow> pyval \<Rightarrow> pyval \<Rightarrow> event_error + payload" where
  "replay_terms_payload ts tp sl timeout recovery =
     bindE (raise_if (VNone \<in> set [tp, sl, timeout, recovery]) ReplayTermsMissing) (\<lambda>_.
     bindE (event_require_finite ''timestamp'' ts) (\<lambda>opened_at.
     bindE (event_require_finite ''tp_price'' tp) (\<lambda>tp_value.
     bindE (event_require_finite ''sl_price'' sl) (\<lambda>sl_value.
     bindE (event_require_finite ''timeout_at'' timeout) (\<lambda>timeout_value.
     bindE (event_require_finite ''recovery_eligible_until'' recovery) (\<lambda>recovery_value.
     bindE (raise_if (fl_le tp_value (Fin 0) \<or> fl_le sl_value (Fin 0)) NonPositiveExitTerm) (\<lambda>_.
     bindE (raise_if (fl_le timeout_value opened_at) TimeoutNotAfterOpen) (\<lambda>_.
     bindE (raise_if (fl_lt recovery_value timeout_value) RecoveryBeforeTimeout) (\<lambda>_.
       Inr [(''tp_price'', VFloat tp_value), (''sl_price'', VFloat sl_value),
            (''timeout_at'', VFloat timeout_value),
            (''recovery_eligible_until'', VFloat recovery_value)])))))))))"

definition make_position_opened_event ::
  "string \<Rightarrow> string \<Rightarrow> pyval \<Rightarrow> pyval \<Rightarrow> string option \<Rightarrow> pyval \<Rightarrow> pyval \<Rightarrow> pyval \<Rightarrow> pyval \<Rightarrow> pyval
     \<Rightarrow> string option \<Rightarrow> pyval \<Rightarrow> pyval \<Rightarrow> pyval \<Rightarrow> pyval \<Rightarrow> pyval \<Rightarrow> event_error + ledger_event" where
  "make_position_opened_event eid epoch seq ts tid symbol sd amount entry_price entry_fee did
       schema tp sl timeout recovery =
     bindE (normalize_side sd) (\<lambda>canonical.
     let base = [(''symbol'', symbol), (''side'', VStr (side_value canonical)),
                 (''principal'', amount), (''entry_price'', entry_price),
                 (''entry_fee'', entry_fee)]
     in bindE (if py_eq_int schema 1 then
                 bindE (raise_if (\<exists>v \<in> set [tp, sl, timeout, recovery]. v \<noteq> VNone)
                          ReplayTermsInVersion1) (\<lambda>_. Inr base)
               else if py_eq_int schema 2 then
                 bindE (replay_terms_payload ts tp sl timeout recovery) (\<lambda>terms. Inr (base @ terms))
               else Inr base) (\<lambda>pl.
        new_ledger_event eid epoch seq POSITION_OPENED ts tid did pl schema))"

definition make_position_closed_event ::
  "string \<Rightarrow> string \<Rightarrow> pyval \<Rightarrow> pyval \<Rightarrow> string option \<Rightarrow> pyval \<Rightarrow> pyval \<Rightarrow> string option \<Rightarrow> pyval
     \<Rightarrow> event_error + ledger_event" where
  "make_position_closed_event eid epoch seq ts tid exit_price exit_fee did schema =
     new_ledger_event eid epoch seq POSITION_CLOSED ts tid did
       [(''exit_price'', exit_price), (''exit_fee'', exit_fee)] schema"

definition make_position_unresolved_event ::
  "string \<Rightarrow> string \<Rightarrow> pyval \<Rightarrow> pyval \<Rightarrow> string option \<Rightarrow> pyval \<Rightarrow> string option \<Rightarrow> pyval
     \<Rightarrow> event_error + ledger_event" where
  "make_position_unresolved_event eid epoch seq ts tid reason did schema =
     new_ledger_event eid epoch seq POSITION_UNRESOLVED ts tid did [(''reason'', reason)] schema"

definition make_recovery_completed_event ::
  "string \<Rightarrow> string \<Rightarrow> pyval \<Rightarrow> pyval \<Rightarrow> pyval \<Rightarrow> pyval \<Rightarrow> string option \<Rightarrow> pyval
     \<Rightarrow> event_error + ledger_event" where
  "make_recovery_completed_event eid epoch seq ts restored unresolved did schema =
     new_ledger_event eid epoch seq RECOVERY_COMPLETED ts None did
       [(''restored_count'', restored), (''unresolved_count'', unresolved)] schema"

section \<open>Well-formed events\<close>

text \<open>What the constructor promises of every event that exists.\<close>

definition event_ok :: "ledger_event \<Rightarrow> bool" where
  "event_ok e \<longleftrightarrow>
     le_event_id e \<noteq> [] \<and> le_paper_epoch_id e \<noteq> [] \<and> 1 \<le> le_sequence e \<and>
     1 \<le> le_schema_version e \<and> fl_finite (le_timestamp e) \<and>
     (le_event_type e \<in> set trade_scoped_event_types \<longrightarrow>
        truthy_str (le_trade_id e) \<and> le_trade_id e \<noteq> Some (le_event_id e)) \<and>
     (le_event_type e = EPOCH_CREATED \<longrightarrow> \<not> truthy_str (le_trade_id e))"

lemma event_require_finite_finite:
  "event_require_finite name v = Inr x \<Longrightarrow> fl_finite x"
  by (auto simp: event_require_finite_def split: if_splits option.splits)

lemma event_require_finite_Fin [simp]: "event_require_finite name (VFloat (Fin q)) = Inr (Fin q)"
  by (simp add: event_require_finite_def)

lemma new_ledger_event_ok:
  "new_ledger_event eid epoch seq etype ts tid did pl schema = Inr e \<Longrightarrow>
     event_ok e \<and> le_event_id e = eid \<and> le_paper_epoch_id e = epoch \<and> le_event_type e = etype \<and>
     le_trade_id e = tid \<and> le_payload e = pl"
  by (auto simp: new_ledger_event_def event_ok_def result_simps split: if_splits
      dest: event_require_finite_finite)

lemma normalize_side_table:
  "normalize_side (VStr raw) = Inr s \<longleftrightarrow>
     (py_upper (py_strip raw) \<in> {''LONG'', ''BUY''} \<and> s = LONG) \<or>
     (py_upper (py_strip raw) \<in> {''SHORT'', ''SELL''} \<and> s = SHORT)"
  by (auto simp: side_aliases_def)

end
