(* ===== verification/FloatOrder.thy ===== *)
theory FloatOrder
  imports PyPrelude
begin

text \<open>
  The order of floats and their arithmetic: every rounded operation is monotone, infinities
  included, and their sum. Shared by the components that compare computed amounts with limits.
\<close>

section \<open>The order\<close>

lemma fl_le_trans: "fl_le x y \<Longrightarrow> fl_le y z \<Longrightarrow> fl_le x z"
  by (cases x; cases y; cases z) simp_all

lemma fl_le_lt_trans: "fl_le x y \<Longrightarrow> fl_lt y z \<Longrightarrow> fl_lt x z"
  by (cases x; cases y; cases z) simp_all

lemma fl_lt_le_trans: "fl_lt x y \<Longrightarrow> fl_le y z \<Longrightarrow> fl_lt x z"
  by (cases x; cases y; cases z) simp_all

lemma fl_lt_imp_le: "fl_lt x y \<Longrightarrow> fl_le x y"
  by (cases x; cases y) simp_all

lemma fl_not_lt: "x \<noteq> NaN \<Longrightarrow> y \<noteq> NaN \<Longrightarrow> \<not> fl_lt x y \<longleftrightarrow> fl_le y x"
  by (cases x; cases y) (auto simp: not_less)

lemma fl_le_not_lt: "fl_le x y \<Longrightarrow> \<not> fl_lt y x"
  by (cases x; cases y) simp_all

lemma fl_le_refl: "x \<noteq> NaN \<Longrightarrow> fl_le x x"
  by (cases x) simp_all

lemma fl_le_antisym: "fl_le x y \<Longrightarrow> fl_le y x \<Longrightarrow> x = y"
  by (cases x; cases y) simp_all

section \<open>Monotone operations\<close>

lemma round_double_not_nan [simp]: "round_double q \<noteq> NaN"
  by (cases q rule: round_double_cases) simp_all

lemma round_double_le:
  assumes "p \<le> q"
  shows "fl_le (round_double p) (round_double q)"
proof -
  have infinite: "round_double q = PosInf" if "round_double p = PosInf"
  proof -
    from that have "0 < p" "double_bound \<le> round_mag p"
      by (auto simp: round_double_def Let_def split: if_splits)
    then have "0 < q" "double_bound \<le> round_mag q"
      using assms round_mag_mono [of p q] by linarith+
    then show ?thesis by (simp add: round_double_def Let_def)
  qed
  have negative: "round_double p = NegInf" if "round_double q = NegInf"
  proof -
    from that have "q < 0" "double_bound \<le> round_mag (- q)"
      by (auto simp: round_double_def Let_def split: if_splits)
    then have "p < 0" "double_bound \<le> round_mag (- p)"
      using assms round_mag_mono [of "- q" "- p"] by linarith+
    then show ?thesis by (simp add: round_double_def Let_def)
  qed
  show ?thesis
    using infinite negative round_double_mono [OF _ _ assms]
    by (cases "round_double p"; cases "round_double q") auto
qed

lemma fl_mul_mono:
  assumes "fl_le x y" "0 < b"
  shows "fl_le (fl_mul x (Fin b)) (fl_mul y (Fin b))"
proof -
  have "round_double (- r) \<noteq> NaN" "round_double r \<noteq> NaN" for r by simp_all
  then have ends: "fl_le (round_double r) PosInf" "fl_le NegInf (round_double r)" for r
    by (cases "round_double r"; simp)+
  show ?thesis
    using assms by (cases x; cases y) (auto simp: fl_inf_def ends intro!: round_double_le)
qed

lemma fl_add_mono:
  assumes "fl_le x y" "fl_finite z"
  shows "fl_le (fl_add x z) (fl_add y z)"
proof -
  have ends: "fl_le (round_double r) PosInf" "fl_le NegInf (round_double r)" for r
    by (cases "round_double r"; simp)+
  show ?thesis
    using assms by (cases x; cases y; cases z) (auto simp: ends intro!: round_double_le)
qed

lemma fl_sub_mono: "fl_le x y \<Longrightarrow> fl_finite z \<Longrightarrow> fl_le (fl_sub x z) (fl_sub y z)"
  by (cases z) (simp_all add: fl_sub_def fl_add_mono)

lemma fl_div_mono:
  assumes "fl_le x y" "0 < b" "fl_div x (Fin b) = Some p" "fl_div y (Fin b) = Some q"
  shows "fl_le p q"
proof -
  have ends: "fl_le (round_double r) PosInf" "fl_le NegInf (round_double r)" for r
    by (cases "round_double r"; simp)+
  show ?thesis
    using assms by (cases x; cases y) (auto simp: ends fl_inf_def divide_right_mono intro!: round_double_le)
qed

section \<open>Sums\<close>

text \<open>\<^verbatim>\<open>sum\<close> of floats, from the left, as Python 3.11 adds.\<close>

definition fl_sum :: "pyfloat list \<Rightarrow> pyfloat" where
  "fl_sum xs = foldl fl_add (Fin 0) xs"

lemma fl_sum_nan: "NaN \<in> set xs \<Longrightarrow> fl_sum xs = NaN"
proof -
  have absorbed: "foldl fl_add NaN ys = NaN" for ys by (induction ys) simp_all
  have "NaN \<in> set xs \<Longrightarrow> foldl fl_add x xs = NaN" for x
  proof (induction xs arbitrary: x)
    case (Cons y ys)
    then show ?case using absorbed by (cases "y = NaN"; cases x) simp_all
  qed simp
  then show "NaN \<in> set xs \<Longrightarrow> fl_sum xs = NaN" by (simp add: fl_sum_def)
qed

lemma fl_inf_zero [simp]: "fl_inf 0 = NaN"
  by (simp add: fl_inf_def)

end
