(* ===== verification/PortfolioLedger.thy ===== *)
theory PortfolioLedger
  imports LedgerEvents FloatOrder
begin

text \<open>
  \<^verbatim>\<open>paper_trading/paper_portfolio_ledger.py\<close>: the projection of an event stream onto the
  financial state of the paper portfolio. \<open>apply_event\<close> is \<^verbatim>\<open>_apply\<close> with one definition per
  event handler, \<open>project\<close> the replay loop, \<open>equity\<close> the mark-to-market query. All arithmetic
  is on doubles, in the order of the code, and every place where the code raises is an error
  value, those it raises by accident included (a missing payload key, an empty field handed to
  the epoch constructor, an integer beyond the range of floats).
\<close>

section \<open>Errors and numeric validation\<close>

datatype replay_error =
    DuplicateEventError string
  | SequenceGapError
  | SequenceRegressionError
  | EpochMismatchError
  | DuplicateOpenError
  | CloseWithoutOpenError
  | DoubleCloseError
  | IllegalTransitionError string
  | NegativeCashError
  | NonFiniteValueError string
  | InvalidSideError
  | MissingKey string
  | NumberTooLarge string
  | EpochValueError epoch_error
  | BadConversion conv_error
  | DivisionByZero
  | AssertionFailed

text \<open>The errors that are subclasses of \<^verbatim>\<open>LedgerReplayError\<close>.\<close>

fun is_replay_error :: "replay_error \<Rightarrow> bool" where
  "is_replay_error (MissingKey _) = False"
| "is_replay_error (NumberTooLarge _) = False"
| "is_replay_error (EpochValueError _) = False"
| "is_replay_error (BadConversion _) = False"
| "is_replay_error DivisionByZero = False"
| "is_replay_error AssertionFailed = False"
| "is_replay_error _ = True"

definition finite_value :: "string \<Rightarrow> bool \<Rightarrow> bool \<Rightarrow> pyval \<Rightarrow> replay_error + pyfloat" where
  "finite_value name positive non_negative v =
     (if \<not> is_number v then Inl (NonFiniteValueError name)
      else case float_of_number v of
             None \<Rightarrow> Inl (NumberTooLarge name)
           | Some x \<Rightarrow>
               if \<not> fl_finite x then Inl (NonFiniteValueError name)
               else if positive \<and> fl_le x (Fin 0) then Inl (IllegalTransitionError name)
               else if non_negative \<and> fl_lt x (Fin 0) then Inl (IllegalTransitionError name)
               else Inr x)"

text \<open>\<open>Inr None\<close> is an invalid mark, \<open>Inr (Some x)\<close> a valid one as a float.\<close>

definition valid_mark_price :: "pyval option \<Rightarrow> replay_error + pyfloat option" where
  "valid_mark_price v =
     (case v of
        None \<Rightarrow> Inr None
      | Some w \<Rightarrow>
          if \<not> is_number w then Inr None
          else case float_of_number w of
                 None \<Rightarrow> Inl (NumberTooLarge ''mark'')
               | Some x \<Rightarrow> Inr (if fl_finite x \<and> fl_lt (Fin 0) x then Some x else None))"

definition finite_derived :: "string \<Rightarrow> pyfloat \<Rightarrow> replay_error + pyfloat" where
  "finite_derived name x = (if fl_finite x then Inr x else Inl (NonFiniteValueError name))"

lemma finite_derived_Inr [simp]: "finite_derived name x = Inr y \<longleftrightarrow> fl_finite x \<and> y = x"
  by (auto simp: finite_derived_def)

lemma finite_value_Inr:
  "finite_value name pos nonneg v = Inr x \<Longrightarrow>
     fl_finite x \<and> (pos \<longrightarrow> fl_lt (Fin 0) x) \<and> (nonneg \<longrightarrow> fl_le (Fin 0) x)"
  by (auto simp: finite_value_def fl_finite_iff split: if_splits option.splits)

lemma finite_value_Fin [simp]:
  "finite_value name pos nonneg (VFloat (Fin q)) =
     (if pos \<and> q \<le> 0 \<or> nonneg \<and> q < 0 then Inl (IllegalTransitionError name) else Inr (Fin q))"
  by (auto simp: finite_value_def)

section \<open>State\<close>

record open_position =
  op_trade_id :: string
  op_symbol :: string
  op_side :: side
  op_principal :: pyfloat
  op_entry_price :: pyfloat
  op_entry_fee :: pyfloat
  op_opened_sequence :: int
  op_opened_at :: pyfloat
  op_tp_price :: "pyfloat option"
  op_sl_price :: "pyfloat option"
  op_timeout_at :: "pyfloat option"
  op_recovery_until :: "pyfloat option"

definition replay_complete :: "open_position \<Rightarrow> bool" where
  "replay_complete p \<longleftrightarrow>
     None \<notin> set [op_tp_price p, op_sl_price p, op_timeout_at p, op_recovery_until p]"

record unresolved_position =
  up_trade_id :: string
  up_symbol :: string
  up_side :: side
  up_principal :: pyfloat
  up_entry_price :: pyfloat
  up_entry_fee :: pyfloat
  up_reason :: string
  up_unresolved_sequence :: int

record equity_breakdown =
  eq_available_cash :: pyfloat
  eq_reserved_principal :: pyfloat
  eq_known_unrealized_pnl :: pyfloat
  eq_unresolved_capital :: pyfloat
  eq_mark_coverage_complete :: bool
  eq_unpriced_trade_ids :: "string set"
  eq_certified_equity :: "pyfloat option"
  eq_equity :: "pyfloat option"

record portfolio_state =
  paper_epoch_id :: "string option"
  epoch :: "paper_epoch option"
  available_cash :: pyfloat
  reserved_principal :: pyfloat
  unresolved_capital :: pyfloat
  realized_pnl :: pyfloat
  fees_paid :: pyfloat
  open_positions :: "(string, open_position) dict"
  unresolved_positions :: "(string, unresolved_position) dict"
  closed_trade_ids :: "string set"
  last_sequence :: int
  seen_event_ids :: "string set"
  restored_count_total :: int
  unresolved_count_total :: int

definition empty_state :: portfolio_state where
  "empty_state = \<lparr>paper_epoch_id = None, epoch = None, available_cash = Fin 0,
     reserved_principal = Fin 0, unresolved_capital = Fin 0, realized_pnl = Fin 0,
     fees_paid = Fin 0, open_positions = [], unresolved_positions = [], closed_trade_ids = {},
     last_sequence = 0, seen_event_ids = {}, restored_count_total = 0,
     unresolved_count_total = 0\<rparr>"

text \<open>The relative price move of a trade; \<open>None\<close> is a division by zero.\<close>

definition gross_pct :: "side \<Rightarrow> pyfloat \<Rightarrow> pyfloat \<Rightarrow> pyfloat option" where
  "gross_pct sd entry price =
     fl_div (case sd of LONG \<Rightarrow> fl_sub price entry | SHORT \<Rightarrow> fl_sub entry price) entry"

section \<open>Mark-to-market equity\<close>

definition mark_position ::
  "(string, pyval) dict \<Rightarrow> pyfloat \<times> string list \<Rightarrow> string \<times> open_position
     \<Rightarrow> replay_error + (pyfloat \<times> string list)" where
  "mark_position marks acc tp =
     (case (acc, tp) of ((known, unpriced), (tid, pos)) \<Rightarrow>
        bindE (valid_mark_price (dict_get marks (op_symbol pos))) (\<lambda>mark.
        case mark of
          None \<Rightarrow> Inr (known, unpriced @ [tid])
        | Some price \<Rightarrow>
            bindE (or_raise DivisionByZero (gross_pct (op_side pos) (op_entry_price pos) price)) (\<lambda>g.
            bindE (finite_derived ''mark-to-market gross_pct'' g) (\<lambda>pct.
            bindE (finite_derived ''position unrealized_pnl'' (fl_mul (op_principal pos) pct)) (\<lambda>pnl.
            bindE (finite_derived ''known_unrealized_pnl'' (fl_add known pnl)) (\<lambda>known'.
              Inr (known', unpriced)))))))"

definition equity ::
  "portfolio_state \<Rightarrow> (string, pyval) dict option \<Rightarrow> replay_error + equity_breakdown" where
  "equity s mark_prices =
     (let marks = (case mark_prices of None \<Rightarrow> [] | Some m \<Rightarrow> m) in
      bindE (foldE (mark_position marks) (Fin 0, []) (open_positions s)) (\<lambda>(known, unpriced).
      let complete = (unpriced = []) in
      bindE (if complete then
               bindE (finite_derived ''certified_equity''
                        (fl_add (fl_add (available_cash s) (reserved_principal s)) known)) (\<lambda>c.
               bindE (finite_derived ''equity'' (fl_add c (unresolved_capital s))) (\<lambda>e.
                 Inr (Some c, Some e)))
             else Inr (None, None)) (\<lambda>(certified, eq).
        Inr \<lparr>eq_available_cash = available_cash s,
             eq_reserved_principal = reserved_principal s,
             eq_known_unrealized_pnl = known,
             eq_unresolved_capital = unresolved_capital s,
             eq_mark_coverage_complete = complete,
             eq_unpriced_trade_ids = set unpriced,
             eq_certified_equity = certified,
             eq_equity = eq\<rparr>)))"

section \<open>The event handlers\<close>

definition payload_get :: "ledger_event \<Rightarrow> string \<Rightarrow> replay_error + pyval" where
  "payload_get e k = or_raise (MissingKey k) (dict_get (le_payload e) k)"

definition get_finite ::
  "ledger_event \<Rightarrow> string \<Rightarrow> bool \<Rightarrow> bool \<Rightarrow> replay_error + pyfloat" where
  "get_finite e k positive non_negative =
     bindE (payload_get e k) (finite_value k positive non_negative)"

definition apply_epoch_created ::
  "portfolio_state \<Rightarrow> ledger_event \<Rightarrow> string set \<Rightarrow> replay_error + portfolio_state" where
  "apply_epoch_created s e seen =
     bindE (get_finite e ''initial_virtual_capital'' True False) (\<lambda>capital.
     bindE (payload_get e ''code_sha'') (\<lambda>sha.
     bindE (payload_get e ''config_snapshot_hash'') (\<lambda>conf.
     bindE (lift_error EpochValueError
              (new_paper_epoch (le_paper_epoch_id e) (VFloat (le_timestamp e)) (VFloat capital)
                 ACTIVE (py_str sha) (py_str conf) (VInt (le_schema_version e)))) (\<lambda>ep.
       Inr (s\<lparr>paper_epoch_id := Some (le_paper_epoch_id e), epoch := Some ep,
              available_cash := capital, reserved_principal := Fin 0,
              unresolved_capital := Fin 0, realized_pnl := Fin 0, fees_paid := Fin 0,
              last_sequence := le_sequence e, seen_event_ids := seen\<rparr>)))))"

fun side_of_payload :: "pyval \<Rightarrow> replay_error + side" where
  "side_of_payload (VStr s) =
     (if s = ''LONG'' then Inr LONG else if s = ''SHORT'' then Inr SHORT else Inl InvalidSideError)"
| "side_of_payload _ = Inl InvalidSideError"

text \<open>The four replay terms of schema version 2: take profit, stop loss, timeout, recovery.\<close>

type_synonym replay_terms =
  "pyfloat option \<times> pyfloat option \<times> pyfloat option \<times> pyfloat option"

definition opened_terms :: "ledger_event \<Rightarrow> pyfloat \<Rightarrow> replay_error + replay_terms" where
  "opened_terms e opened_at =
     (if le_schema_version e = 2 then
        bindE (get_finite e ''tp_price'' True False) (\<lambda>tp.
        bindE (get_finite e ''sl_price'' True False) (\<lambda>sl.
        bindE (get_finite e ''timeout_at'' False False) (\<lambda>timeout.
        bindE (get_finite e ''recovery_eligible_until'' False False) (\<lambda>recovery.
        bindE (raise_if (fl_le timeout opened_at) (IllegalTransitionError ''timeout_at'')) (\<lambda>_.
        bindE (raise_if (fl_lt recovery timeout)
                 (IllegalTransitionError ''recovery_eligible_until'')) (\<lambda>_.
          Inr (Some tp, Some sl, Some timeout, Some recovery)))))))
      else Inr (None, None, None, None))"

definition apply_position_opened ::
  "portfolio_state \<Rightarrow> ledger_event \<Rightarrow> string set \<Rightarrow> replay_error + portfolio_state" where
  "apply_position_opened s e seen =
     bindE (or_raise AssertionFailed (le_trade_id e)) (\<lambda>tid.
     bindE (raise_if (dict_has (open_positions s) tid) DuplicateOpenError) (\<lambda>_.
     bindE (raise_if (tid \<in> closed_trade_ids s \<or> dict_has (unresolved_positions s) tid)
              (IllegalTransitionError tid)) (\<lambda>_.
     bindE (payload_get e ''side'') (\<lambda>raw_side.
     bindE (side_of_payload raw_side) (\<lambda>sd.
     bindE (get_finite e ''principal'' True False) (\<lambda>amount.
     bindE (get_finite e ''entry_price'' True False) (\<lambda>price.
     bindE (get_finite e ''entry_fee'' False True) (\<lambda>fee.
     bindE (finite_value ''opened_at'' False False (VFloat (le_timestamp e))) (\<lambda>opened_at.
     bindE (opened_terms e opened_at) (\<lambda>(tp, sl, timeout, recovery).
     bindE (finite_derived ''available_cash'' (fl_sub (fl_sub (available_cash s) amount) fee)) (\<lambda>cash.
     bindE (raise_if (fl_lt cash (Fin 0)) NegativeCashError) (\<lambda>_.
     bindE (finite_derived ''reserved_principal'' (fl_add (reserved_principal s) amount)) (\<lambda>reserved.
     bindE (finite_derived ''fees_paid'' (fl_add (fees_paid s) fee)) (\<lambda>fees.
     bindE (payload_get e ''symbol'') (\<lambda>symbol.
       Inr (s\<lparr>available_cash := cash, reserved_principal := reserved, fees_paid := fees,
              open_positions := dict_set (open_positions s) tid
                \<lparr>op_trade_id = tid, op_symbol = py_str symbol, op_side = sd,
                 op_principal = amount, op_entry_price = price, op_entry_fee = fee,
                 op_opened_sequence = le_sequence e, op_opened_at = opened_at,
                 op_tp_price = tp, op_sl_price = sl, op_timeout_at = timeout,
                 op_recovery_until = recovery\<rparr>,
              last_sequence := le_sequence e, seen_event_ids := seen\<rparr>))))))))))))))))"

definition apply_position_closed ::
  "portfolio_state \<Rightarrow> ledger_event \<Rightarrow> string set \<Rightarrow> replay_error + portfolio_state" where
  "apply_position_closed s e seen =
     bindE (or_raise AssertionFailed (le_trade_id e)) (\<lambda>tid.
     bindE (raise_if (tid \<in> closed_trade_ids s \<or> dict_has (unresolved_positions s) tid)
              DoubleCloseError) (\<lambda>_.
     bindE (or_raise CloseWithoutOpenError (dict_get (open_positions s) tid)) (\<lambda>pos.
     bindE (get_finite e ''exit_price'' True False) (\<lambda>exit_price.
     bindE (get_finite e ''exit_fee'' False True) (\<lambda>exit_fee.
     bindE (or_raise DivisionByZero (gross_pct (op_side pos) (op_entry_price pos) exit_price)) (\<lambda>g.
     bindE (finite_derived ''gross_pct'' g) (\<lambda>pct.
     bindE (finite_derived ''gross_pnl'' (fl_mul (op_principal pos) pct)) (\<lambda>gross_pnl.
     bindE (finite_derived ''trade_realized_pnl''
              (fl_sub (fl_sub gross_pnl (op_entry_fee pos)) exit_fee)) (\<lambda>trade_pnl.
     bindE (finite_derived ''available_cash''
              (fl_sub (fl_add (fl_add (available_cash s) (op_principal pos)) gross_pnl) exit_fee)) (\<lambda>cash.
     bindE (raise_if (fl_lt cash (Fin 0)) NegativeCashError) (\<lambda>_.
     bindE (finite_derived ''reserved_principal''
              (fl_sub (reserved_principal s) (op_principal pos))) (\<lambda>reserved.
     bindE (finite_derived ''fees_paid'' (fl_add (fees_paid s) exit_fee)) (\<lambda>fees.
     bindE (finite_derived ''realized_pnl'' (fl_add (realized_pnl s) trade_pnl)) (\<lambda>realized.
       Inr (s\<lparr>available_cash := cash, reserved_principal := reserved, fees_paid := fees,
              realized_pnl := realized, open_positions := dict_del (open_positions s) tid,
              closed_trade_ids := insert tid (closed_trade_ids s),
              last_sequence := le_sequence e, seen_event_ids := seen\<rparr>)))))))))))))))"

definition apply_position_unresolved ::
  "portfolio_state \<Rightarrow> ledger_event \<Rightarrow> string set \<Rightarrow> replay_error + portfolio_state" where
  "apply_position_unresolved s e seen =
     bindE (or_raise AssertionFailed (le_trade_id e)) (\<lambda>tid.
     bindE (raise_if (tid \<in> closed_trade_ids s \<or> dict_has (unresolved_positions s) tid)
              (IllegalTransitionError tid)) (\<lambda>_.
     bindE (or_raise (IllegalTransitionError tid) (dict_get (open_positions s) tid)) (\<lambda>pos.
     bindE (finite_derived ''reserved_principal''
              (fl_sub (reserved_principal s) (op_principal pos))) (\<lambda>reserved.
     bindE (finite_derived ''unresolved_capital''
              (fl_add (unresolved_capital s) (op_principal pos))) (\<lambda>unresolved.
       Inr (s\<lparr>reserved_principal := reserved, unresolved_capital := unresolved,
              open_positions := dict_del (open_positions s) tid,
              unresolved_positions := dict_set (unresolved_positions s) tid
                \<lparr>up_trade_id = tid, up_symbol = op_symbol pos, up_side = op_side pos,
                 up_principal = op_principal pos, up_entry_price = op_entry_price pos,
                 up_entry_fee = op_entry_fee pos,
                 up_reason = (case dict_get (le_payload e) ''reason'' of
                                None \<Rightarrow> ''unknown'' | Some r \<Rightarrow> py_str r),
                 up_unresolved_sequence = le_sequence e\<rparr>,
              unresolved_count_total := unresolved_count_total s + 1,
              last_sequence := le_sequence e, seen_event_ids := seen\<rparr>))))))"

definition apply_recovery_completed ::
  "portfolio_state \<Rightarrow> ledger_event \<Rightarrow> string set \<Rightarrow> replay_error + portfolio_state" where
  "apply_recovery_completed s e seen =
     bindE (lift_error BadConversion
              (case dict_get (le_payload e) ''restored_count'' of
                 None \<Rightarrow> Inr 0 | Some v \<Rightarrow> py_int v)) (\<lambda>restored.
       Inr (s\<lparr>restored_count_total := restored_count_total s + restored,
              last_sequence := le_sequence e, seen_event_ids := seen\<rparr>))"

section \<open>The projection\<close>

text \<open>The checks \<^verbatim>\<open>_apply\<close> makes before it dispatches on the event type.\<close>

definition check_event :: "portfolio_state \<Rightarrow> ledger_event \<Rightarrow> replay_error + unit" where
  "check_event s e =
     bindE (raise_if (le_event_id e \<in> seen_event_ids s) (DuplicateEventError (le_event_id e))) (\<lambda>_.
     bindE (raise_if (le_schema_version e \<notin> {1, 2}) (IllegalTransitionError ''schema'')) (\<lambda>_.
     bindE (case paper_epoch_id s of
              None \<Rightarrow> raise_if (le_event_type e \<noteq> EPOCH_CREATED)
                        (IllegalTransitionError ''first event'')
            | Some i \<Rightarrow>
                bindE (raise_if (le_event_type e = EPOCH_CREATED)
                         (IllegalTransitionError ''second epoch'')) (\<lambda>_.
                bindE (raise_if (le_paper_epoch_id e \<noteq> i) EpochMismatchError) (\<lambda>_.
                bindE (or_raise AssertionFailed (epoch s)) (\<lambda>ep.
                  raise_if (le_schema_version e \<noteq> pe_schema_version ep)
                    (IllegalTransitionError ''mixed schema''))))) (\<lambda>_.
     bindE (raise_if (le_sequence e < last_sequence s + 1) SequenceRegressionError) (\<lambda>_.
       raise_if (last_sequence s + 1 < le_sequence e) SequenceGapError))))"

definition apply_event :: "portfolio_state \<Rightarrow> ledger_event \<Rightarrow> replay_error + portfolio_state" where
  "apply_event s e =
     bindE (check_event s e) (\<lambda>_.
     let seen = insert (le_event_id e) (seen_event_ids s) in
     case le_event_type e of
       EPOCH_CREATED \<Rightarrow> apply_epoch_created s e seen
     | POSITION_OPENED \<Rightarrow> apply_position_opened s e seen
     | POSITION_CLOSED \<Rightarrow> apply_position_closed s e seen
     | POSITION_UNRESOLVED \<Rightarrow> apply_position_unresolved s e seen
     | RECOVERY_COMPLETED \<Rightarrow> apply_recovery_completed s e seen)"

definition project :: "ledger_event list \<Rightarrow> replay_error + portfolio_state" where
  "project events = foldE apply_event empty_state events"

lemmas handler_defs =
  apply_epoch_created_def apply_position_opened_def apply_position_closed_def
  apply_position_unresolved_def apply_recovery_completed_def

section \<open>Well-formed states\<close>

definition position_ok :: "int \<Rightarrow> string \<Rightarrow> open_position \<Rightarrow> bool" where
  "position_ok version tid p \<longleftrightarrow>
     op_trade_id p = tid \<and>
     fl_finite (op_principal p) \<and> fl_lt (Fin 0) (op_principal p) \<and>
     fl_finite (op_entry_price p) \<and> fl_lt (Fin 0) (op_entry_price p) \<and>
     fl_finite (op_entry_fee p) \<and> fl_le (Fin 0) (op_entry_fee p) \<and> fl_finite (op_opened_at p) \<and>
     (if version = 2
      then \<exists>tp sl timeout recovery.
             op_tp_price p = Some tp \<and> op_sl_price p = Some sl \<and>
             op_timeout_at p = Some timeout \<and> op_recovery_until p = Some recovery \<and>
             fl_lt (Fin 0) tp \<and> fl_lt (Fin 0) sl \<and>
             fl_lt (op_opened_at p) timeout \<and> fl_le timeout recovery
      else op_tp_price p = None \<and> op_sl_price p = None \<and> op_timeout_at p = None \<and>
           op_recovery_until p = None)"

definition money_ok :: "portfolio_state \<Rightarrow> bool" where
  "money_ok s \<longleftrightarrow>
     fl_finite (available_cash s) \<and> fl_le (Fin 0) (available_cash s) \<and>
     fl_finite (reserved_principal s) \<and>
     fl_finite (unresolved_capital s) \<and> fl_le (Fin 0) (unresolved_capital s) \<and>
     fl_finite (realized_pnl s) \<and>
     fl_finite (fees_paid s) \<and> fl_le (Fin 0) (fees_paid s)"

definition books_ok :: "portfolio_state \<Rightarrow> bool" where
  "books_ok s \<longleftrightarrow>
     distinct (dict_keys (open_positions s)) \<and> distinct (dict_keys (unresolved_positions s)) \<and>
     set (dict_keys (open_positions s)) \<inter> set (dict_keys (unresolved_positions s)) = {} \<and>
     set (dict_keys (open_positions s)) \<inter> closed_trade_ids s = {} \<and>
     set (dict_keys (unresolved_positions s)) \<inter> closed_trade_ids s = {} \<and>
     unresolved_count_total s = int (length (unresolved_positions s))"

definition epoch_known :: "portfolio_state \<Rightarrow> bool" where
  "epoch_known s \<longleftrightarrow>
     (\<exists>ep. epoch s = Some ep \<and> paper_epoch_id s = Some (pe_id ep) \<and> epoch_ok ep \<and>
           pe_status ep = ACTIVE \<and> pe_schema_version ep \<in> {1, 2} \<and>
           (\<forall>(tid, p) \<in> set (open_positions s). position_ok (pe_schema_version ep) tid p))"

definition state_ok :: "portfolio_state \<Rightarrow> bool" where
  "state_ok s \<longleftrightarrow> s = empty_state \<or> (epoch_known s \<and> money_ok s \<and> books_ok s)"

lemma finite_sign [simp]: "fl_finite x \<Longrightarrow> \<not> fl_lt x (Fin 0) \<longleftrightarrow> fl_le (Fin 0) x"
  by (cases x) (simp_all add: not_less)

lemma fl_add_nonneg:
  "fl_le (Fin 0) x \<Longrightarrow> fl_le (Fin 0) y \<Longrightarrow> fl_finite (fl_add x y) \<Longrightarrow> fl_le (Fin 0) (fl_add x y)"
  by (cases x; cases y) (auto simp: fl_finite_iff round_double_nonneg [OF _ add_nonneg_nonneg])

text \<open>What a handler that succeeds has established.\<close>

lemma get_finite_Inr:
  "get_finite e k pos nonneg = Inr x \<Longrightarrow>
     fl_finite x \<and> (pos \<longrightarrow> fl_lt (Fin 0) x) \<and> (nonneg \<longrightarrow> fl_le (Fin 0) x)"
  by (auto simp: get_finite_def result_simps dest: finite_value_Inr)

lemma not_fl_le: "fl_finite x \<Longrightarrow> fl_finite y \<Longrightarrow> \<not> fl_le x y \<longleftrightarrow> fl_lt y x"
  by (cases x; cases y) (simp_all add: not_le)

lemma not_fl_lt: "fl_finite x \<Longrightarrow> fl_finite y \<Longrightarrow> \<not> fl_lt x y \<longleftrightarrow> fl_le y x"
  by (cases x; cases y) (simp_all add: not_less)

definition opened_position ::
  "ledger_event \<Rightarrow> string \<Rightarrow> open_position \<Rightarrow> bool" where
  "opened_position e tid p \<longleftrightarrow>
     position_ok (le_schema_version e) tid p \<and> op_opened_sequence p = le_sequence e \<and>
     op_opened_at p = le_timestamp e \<and>
     get_finite e ''principal'' True False = Inr (op_principal p) \<and>
     get_finite e ''entry_price'' True False = Inr (op_entry_price p) \<and>
     get_finite e ''entry_fee'' False True = Inr (op_entry_fee p) \<and>
     opened_terms e (le_timestamp e) =
       Inr (op_tp_price p, op_sl_price p, op_timeout_at p, op_recovery_until p)"

lemma opened_terms_Inr:
  assumes "opened_terms e t = Inr (tp, sl, timeout, recovery)" "fl_finite t"
  shows "if le_schema_version e = 2
         then \<exists>a b c d. tp = Some a \<and> sl = Some b \<and> timeout = Some c \<and> recovery = Some d \<and>
              fl_lt (Fin 0) a \<and> fl_lt (Fin 0) b \<and> fl_lt t c \<and> fl_le c d
         else tp = None \<and> sl = None \<and> timeout = None \<and> recovery = None"
  using assms
  by (auto simp: opened_terms_def result_simps split: if_splits
      dest!: get_finite_Inr simp: not_fl_le not_fl_lt)

lemma applied_opened:
  assumes "apply_position_opened s e seen = Inr s'"
  obtains tid p cash where
    "le_trade_id e = Some tid" "tid \<notin> set (dict_keys (open_positions s))"
    "tid \<notin> closed_trade_ids s" "tid \<notin> set (dict_keys (unresolved_positions s))"
    "opened_position e tid p"
    "cash = fl_sub (fl_sub (available_cash s) (op_principal p)) (op_entry_fee p)"
    "fl_finite cash" "fl_le (Fin 0) cash"
    "fl_finite (fl_add (reserved_principal s) (op_principal p))"
    "fl_finite (fl_add (fees_paid s) (op_entry_fee p))"
    "s' = s\<lparr>available_cash := cash,
            reserved_principal := fl_add (reserved_principal s) (op_principal p),
            fees_paid := fl_add (fees_paid s) (op_entry_fee p),
            open_positions := dict_set (open_positions s) tid p,
            last_sequence := le_sequence e, seen_event_ids := seen\<rparr>"
proof -
  from assms obtain tid sd amount price fee t tp sl timeout recovery symbol where
    tid: "le_trade_id e = Some tid" and fresh: "tid \<notin> set (dict_keys (open_positions s))"
    "tid \<notin> closed_trade_ids s" "tid \<notin> set (dict_keys (unresolved_positions s))" and
    get: "get_finite e ''principal'' True False = Inr amount"
      "get_finite e ''entry_price'' True False = Inr price"
      "get_finite e ''entry_fee'' False True = Inr fee"
      "finite_value ''opened_at'' False False (VFloat (le_timestamp e)) = Inr t"
      "opened_terms e t = Inr (tp, sl, timeout, recovery)" and
    cash: "fl_finite (fl_sub (fl_sub (available_cash s) amount) fee)"
      "\<not> fl_lt (fl_sub (fl_sub (available_cash s) amount) fee) (Fin 0)" and
    sums: "fl_finite (fl_add (reserved_principal s) amount)"
      "fl_finite (fl_add (fees_paid s) fee)" and
    s': "s' = s\<lparr>available_cash := fl_sub (fl_sub (available_cash s) amount) fee,
            reserved_principal := fl_add (reserved_principal s) amount,
            fees_paid := fl_add (fees_paid s) fee,
            open_positions := dict_set (open_positions s) tid
               \<lparr>op_trade_id = tid, op_symbol = symbol, op_side = sd,
                 op_principal = amount, op_entry_price = price, op_entry_fee = fee,
                 op_opened_sequence = le_sequence e, op_opened_at = t,
                 op_tp_price = tp, op_sl_price = sl, op_timeout_at = timeout,
                 op_recovery_until = recovery\<rparr>,
            last_sequence := le_sequence e, seen_event_ids := seen\<rparr>"
    unfolding apply_position_opened_def
    by (auto simp: result_simps split: prod.splits)
  have t: "fl_finite t" "t = le_timestamp e"
    using get(4) by (auto simp: finite_value_def fl_finite_iff split: if_splits)
  show ?thesis
    by (rule that [OF tid fresh _ refl, where p = "\<lparr>op_trade_id = tid, op_symbol = symbol, op_side = sd,
                 op_principal = amount, op_entry_price = price, op_entry_fee = fee,
                 op_opened_sequence = le_sequence e, op_opened_at = t,
                 op_tp_price = tp, op_sl_price = sl, op_timeout_at = timeout,
                 op_recovery_until = recovery\<rparr>"])
      (use get_finite_Inr [OF get(1)] get_finite_Inr [OF get(2)] get_finite_Inr [OF get(3)]
        opened_terms_Inr [OF get(5) t(1)] get t cash sums s' in
       \<open>auto simp: opened_position_def position_ok_def\<close>)
qed


lemma applied_closed:
  assumes "apply_position_closed s e seen = Inr s'"
  obtains tid p exit_price exit_fee pct gain trade cash where
    "le_trade_id e = Some tid" "tid \<notin> closed_trade_ids s"
    "tid \<notin> set (dict_keys (unresolved_positions s))" "dict_get (open_positions s) tid = Some p"
    "get_finite e ''exit_price'' True False = Inr exit_price"
    "get_finite e ''exit_fee'' False True = Inr exit_fee"
    "gross_pct (op_side p) (op_entry_price p) exit_price = Some pct"
    "gain = fl_mul (op_principal p) pct"
    "trade = fl_sub (fl_sub gain (op_entry_fee p)) exit_fee"
    "cash = fl_sub (fl_add (fl_add (available_cash s) (op_principal p)) gain) exit_fee"
    "fl_finite pct" "fl_finite gain" "fl_finite trade" "fl_finite cash" "fl_le (Fin 0) cash"
    "fl_finite (fl_sub (reserved_principal s) (op_principal p))"
    "fl_finite (fl_add (fees_paid s) exit_fee)"
    "fl_finite (fl_add (realized_pnl s) trade)"
    "s' = s\<lparr>available_cash := cash,
            reserved_principal := fl_sub (reserved_principal s) (op_principal p),
            fees_paid := fl_add (fees_paid s) exit_fee,
            realized_pnl := fl_add (realized_pnl s) trade,
            open_positions := dict_del (open_positions s) tid,
            closed_trade_ids := insert tid (closed_trade_ids s),
            last_sequence := le_sequence e, seen_event_ids := seen\<rparr>"
  using assms unfolding apply_position_closed_def
  by (auto simp: result_simps)

lemma applied_unresolved:
  assumes "apply_position_unresolved s e seen = Inr s'"
  obtains tid p u where
    "le_trade_id e = Some tid" "tid \<notin> closed_trade_ids s"
    "tid \<notin> set (dict_keys (unresolved_positions s))" "dict_get (open_positions s) tid = Some p"
    "up_trade_id u = tid" "up_principal u = op_principal p" "up_entry_fee u = op_entry_fee p"
    "fl_finite (fl_sub (reserved_principal s) (op_principal p))"
    "fl_finite (fl_add (unresolved_capital s) (op_principal p))"
    "s' = s\<lparr>reserved_principal := fl_sub (reserved_principal s) (op_principal p),
            unresolved_capital := fl_add (unresolved_capital s) (op_principal p),
            open_positions := dict_del (open_positions s) tid,
            unresolved_positions := dict_set (unresolved_positions s) tid u,
            unresolved_count_total := unresolved_count_total s + 1,
            last_sequence := le_sequence e, seen_event_ids := seen\<rparr>"
proof -
  let ?r = "case dict_get (le_payload e) ''reason'' of None \<Rightarrow> ''unknown'' | Some r \<Rightarrow> py_str r"
  let ?u = "\<lambda>tid p. \<lparr>up_trade_id = tid, up_symbol = op_symbol p, up_side = op_side p,
                 up_principal = op_principal p, up_entry_price = op_entry_price p,
                 up_entry_fee = op_entry_fee p, up_reason = ?r,
                 up_unresolved_sequence = le_sequence e\<rparr>"
  from assms obtain tid p where
    h: "le_trade_id e = Some tid" "tid \<notin> closed_trade_ids s"
    "tid \<notin> set (dict_keys (unresolved_positions s))" "dict_get (open_positions s) tid = Some p"
    "fl_finite (fl_sub (reserved_principal s) (op_principal p))"
    "fl_finite (fl_add (unresolved_capital s) (op_principal p))"
    "s' = s\<lparr>reserved_principal := fl_sub (reserved_principal s) (op_principal p),
            unresolved_capital := fl_add (unresolved_capital s) (op_principal p),
            open_positions := dict_del (open_positions s) tid,
            unresolved_positions := dict_set (unresolved_positions s) tid (?u tid p),
            unresolved_count_total := unresolved_count_total s + 1,
            last_sequence := le_sequence e, seen_event_ids := seen\<rparr>"
    unfolding apply_position_unresolved_def by (auto simp: result_simps)
  show ?thesis by (rule that [OF h(1-4) _ _ _ h(5,6,7)]) simp_all
qed

lemma applied_created:
  assumes "apply_epoch_created s e seen = Inr s'"
  obtains cap ep where "fl_finite cap" "fl_lt (Fin 0) cap" "epoch_ok ep" "pe_status ep = ACTIVE"
    "pe_id ep = le_paper_epoch_id e" "pe_schema_version ep = le_schema_version e"
    "pe_initial_virtual_capital ep = cap" "pe_created_at ep = le_timestamp e"
    "s' = s\<lparr>paper_epoch_id := Some (le_paper_epoch_id e), epoch := Some ep,
              available_cash := cap, reserved_principal := Fin 0,
              unresolved_capital := Fin 0, realized_pnl := Fin 0, fees_paid := Fin 0,
              last_sequence := le_sequence e, seen_event_ids := seen\<rparr>"
proof -
  from assms obtain cap sha conf ep where
    get: "get_finite e ''initial_virtual_capital'' True False = Inr cap" and
    ep: "new_paper_epoch (le_paper_epoch_id e) (VFloat (le_timestamp e)) (VFloat cap)
                 ACTIVE (py_str sha) (py_str conf) (VInt (le_schema_version e)) = Inr ep" and
    s': "s' = s\<lparr>paper_epoch_id := Some (le_paper_epoch_id e), epoch := Some ep,
              available_cash := cap, reserved_principal := Fin 0,
              unresolved_capital := Fin 0, realized_pnl := Fin 0, fees_paid := Fin 0,
              last_sequence := le_sequence e, seen_event_ids := seen\<rparr>"
    unfolding apply_epoch_created_def by (auto simp: result_simps)
  from get_finite_Inr [OF get] have cap: "fl_finite cap" "fl_lt (Fin 0) cap" by simp_all
  from new_paper_epoch_ok [OF ep] have ok: "epoch_ok ep" "pe_status ep = ACTIVE" by simp_all
  from ep have "pe_id ep = le_paper_epoch_id e" "pe_schema_version ep = le_schema_version e"
    "pe_initial_virtual_capital ep = cap" "pe_created_at ep = le_timestamp e"
    by (auto simp: new_paper_epoch_def result_simps require_finite_def split: if_splits)
  from that [OF cap ok this s'] show ?thesis .
qed

lemma applied_recovery:
  assumes "apply_recovery_completed s e seen = Inr s'"
  obtains n where "s' = s\<lparr>restored_count_total := restored_count_total s + n,
              last_sequence := le_sequence e, seen_event_ids := seen\<rparr>"
  using assms unfolding apply_recovery_completed_def by (auto simp: result_simps)

lemma checked_event:
  assumes "check_event s e = Inr u"
  shows "le_event_id e \<notin> seen_event_ids s" "le_schema_version e \<in> {1, 2}"
    "le_sequence e = last_sequence s + 1"
    "paper_epoch_id s = None \<longleftrightarrow> le_event_type e = EPOCH_CREATED"
    "paper_epoch_id s = None \<or>
       (\<exists>ep. epoch s = Some ep \<and> paper_epoch_id s = Some (le_paper_epoch_id e) \<and>
             le_schema_version e = pe_schema_version ep)"
  using assms by (auto simp: check_event_def result_simps split: option.splits)

lemma empty_state_sel [simp]:
  "paper_epoch_id empty_state = None" "last_sequence empty_state = 0"
  "seen_event_ids empty_state = {}" "open_positions empty_state = []"
  "unresolved_positions empty_state = []" "closed_trade_ids empty_state = {}"
  "unresolved_count_total empty_state = 0" "epoch empty_state = None"
  "available_cash empty_state = Fin 0" "reserved_principal empty_state = Fin 0"
  "unresolved_capital empty_state = Fin 0" "realized_pnl empty_state = Fin 0"
  "fees_paid empty_state = Fin 0" "restored_count_total empty_state = 0"
  by (simp_all add: empty_state_def)

lemma length_dict_set_fresh:
  "k \<notin> set (dict_keys d) \<Longrightarrow> length (dict_set d k v) = Suc (length d)"
  by (simp add: dict_set_fresh)

lemma state_ok_known: "state_ok s \<Longrightarrow> paper_epoch_id s \<noteq> None \<Longrightarrow> epoch_known s \<and> money_ok s \<and> books_ok s"
  by (auto simp: state_ok_def)

lemma state_ok_unknown: "state_ok s \<Longrightarrow> paper_epoch_id s = None \<Longrightarrow> s = empty_state"
  by (auto simp: state_ok_def epoch_known_def)

lemma fl_finite_simps [simp]: "fl_finite (Fin q)" by simp

lemma opened_keeps:
  assumes ok: "epoch_known s" "money_ok s" "books_ok s"
    and version: "\<exists>ep. epoch s = Some ep \<and> le_schema_version e = pe_schema_version ep"
    and step: "apply_position_opened s e seen = Inr s'"
  shows "epoch_known s' \<and> money_ok s' \<and> books_ok s'"
proof -
  from version obtain ep where ep: "epoch s = Some ep" "le_schema_version e = pe_schema_version ep"
    by blast
  from step show ?thesis
  proof (rule applied_opened)
    fix tid p cash
    assume h: "tid \<notin> set (dict_keys (open_positions s))"
      "tid \<notin> closed_trade_ids s" "tid \<notin> set (dict_keys (unresolved_positions s))"
      "opened_position e tid p" "fl_finite cash" "fl_le (Fin 0) cash"
      "fl_finite (fl_add (reserved_principal s) (op_principal p))"
      "fl_finite (fl_add (fees_paid s) (op_entry_fee p))"
      "s' = s\<lparr>available_cash := cash,
            reserved_principal := fl_add (reserved_principal s) (op_principal p),
            fees_paid := fl_add (fees_paid s) (op_entry_fee p),
            open_positions := dict_set (open_positions s) tid p,
            last_sequence := le_sequence e, seen_event_ids := seen\<rparr>"
    have p: "position_ok (pe_schema_version ep) tid p" using h(4) ep by (simp add: opened_position_def)
    then have fee: "fl_le (Fin 0) (op_entry_fee p)" by (simp add: position_ok_def)
    have "epoch_known s'"
      using ok(1) p h(9) ep by (auto simp: epoch_known_def dest!: dict_set_mem)
    moreover have "money_ok s'"
      using ok(2) h fee by (simp add: money_ok_def fl_add_nonneg)
    moreover have "books_ok s'"
      using ok(3) h by (auto simp: books_ok_def)
    ultimately show ?thesis by blast
  qed
qed

lemma closed_keeps:
  assumes ok: "epoch_known s" "money_ok s" "books_ok s"
    and step: "apply_position_closed s e seen = Inr s'"
  shows "epoch_known s' \<and> money_ok s' \<and> books_ok s'"
  using step
proof (rule applied_closed)
  fix tid p exit_price exit_fee pct gain trade cash
  assume h: "tid \<notin> closed_trade_ids s" "tid \<notin> set (dict_keys (unresolved_positions s))"
    "dict_get (open_positions s) tid = Some p"
    "get_finite e ''exit_fee'' False True = Inr exit_fee"
    "fl_finite cash" "fl_le (Fin 0) cash"
    "fl_finite (fl_sub (reserved_principal s) (op_principal p))"
    "fl_finite (fl_add (fees_paid s) exit_fee)" "fl_finite (fl_add (realized_pnl s) trade)"
    "s' = s\<lparr>available_cash := cash,
            reserved_principal := fl_sub (reserved_principal s) (op_principal p),
            fees_paid := fl_add (fees_paid s) exit_fee,
            realized_pnl := fl_add (realized_pnl s) trade,
            open_positions := dict_del (open_positions s) tid,
            closed_trade_ids := insert tid (closed_trade_ids s),
            last_sequence := le_sequence e, seen_event_ids := seen\<rparr>"
  have fee: "fl_le (Fin 0) exit_fee" using get_finite_Inr [OF h(4)] by simp
  have "epoch_known s'"
    using ok(1) h(10) by (auto simp: epoch_known_def dest!: dict_del_mem)
  moreover have "money_ok s'"
    using ok(2) h fee by (simp add: money_ok_def fl_add_nonneg)
  moreover have "books_ok s'"
    using ok(3) h by (auto simp: books_ok_def distinct_removeAll)
  ultimately show ?thesis by blast
qed

lemma unresolved_keeps:
  assumes ok: "epoch_known s" "money_ok s" "books_ok s"
    and step: "apply_position_unresolved s e seen = Inr s'"
  shows "epoch_known s' \<and> money_ok s' \<and> books_ok s'"
  using step
proof (rule applied_unresolved)
  fix tid p u
  assume h: "tid \<notin> closed_trade_ids s" "tid \<notin> set (dict_keys (unresolved_positions s))"
    "dict_get (open_positions s) tid = Some p" 
    "fl_finite (fl_sub (reserved_principal s) (op_principal p))"
    "fl_finite (fl_add (unresolved_capital s) (op_principal p))"
    "s' = s\<lparr>reserved_principal := fl_sub (reserved_principal s) (op_principal p),
            unresolved_capital := fl_add (unresolved_capital s) (op_principal p),
            open_positions := dict_del (open_positions s) tid,
            unresolved_positions := dict_set (unresolved_positions s) tid u,
            unresolved_count_total := unresolved_count_total s + 1,
            last_sequence := le_sequence e, seen_event_ids := seen\<rparr>"
  have "(tid, p) \<in> set (open_positions s)" using h(3) by (rule map_of_SomeD)
  then have "fl_le (Fin 0) (op_principal p)"
    using ok(1) by (auto simp: epoch_known_def position_ok_def intro: fl_lt_imp_le)
  then have "money_ok s'"
    using ok(2) h by (simp add: money_ok_def fl_add_nonneg)
  moreover have "epoch_known s'"
    using ok(1) h(6) by (auto simp: epoch_known_def dest!: dict_del_mem)
  moreover have "books_ok s'"
    using ok(3) h dict_get_Some_key [OF h(3)] by (auto simp: books_ok_def length_dict_set_fresh distinct_removeAll)
  ultimately show ?thesis by blast
qed

lemma created_establishes:
  assumes "apply_epoch_created empty_state e seen = Inr s'" "le_schema_version e \<in> {1, 2}"
  shows "epoch_known s' \<and> money_ok s' \<and> books_ok s'"
  using assms(1)
proof (rule applied_created)
  fix cap ep
  assume h: "fl_finite cap" "fl_lt (Fin 0) cap" "epoch_ok ep" "pe_status ep = ACTIVE"
    "pe_id ep = le_paper_epoch_id e" "pe_schema_version ep = le_schema_version e"
    "s' = empty_state\<lparr>paper_epoch_id := Some (le_paper_epoch_id e), epoch := Some ep,
              available_cash := cap, reserved_principal := Fin 0,
              unresolved_capital := Fin 0, realized_pnl := Fin 0, fees_paid := Fin 0,
              last_sequence := le_sequence e, seen_event_ids := seen\<rparr>"
  then show ?thesis
    using assms(2) by (auto simp: epoch_known_def money_ok_def books_ok_def fl_lt_imp_le)
qed

lemma recovery_keeps:
  assumes ok: "epoch_known s" "money_ok s" "books_ok s"
    and step: "apply_recovery_completed s e seen = Inr s'"
  shows "epoch_known s' \<and> money_ok s' \<and> books_ok s'"
  using step ok by (elim applied_recovery) (simp add: epoch_known_def money_ok_def books_ok_def)

lemma applied_event:
  assumes "apply_event s e = Inr s'"
  obtains seen where "seen = insert (le_event_id e) (seen_event_ids s)" "check_event s e = Inr ()"
    and "le_event_type e = EPOCH_CREATED \<and> apply_epoch_created s e seen = Inr s' \<or>
     le_event_type e = POSITION_OPENED \<and> apply_position_opened s e seen = Inr s' \<or>
     le_event_type e = POSITION_CLOSED \<and> apply_position_closed s e seen = Inr s' \<or>
     le_event_type e = POSITION_UNRESOLVED \<and> apply_position_unresolved s e seen = Inr s' \<or>
     le_event_type e = RECOVERY_COMPLETED \<and> apply_recovery_completed s e seen = Inr s'"
proof -
  from assms have chk: "check_event s e = Inr ()"
    unfolding apply_event_def bindE_eq_Inr by fastforce
  from assms show ?thesis
    unfolding apply_event_def chk bindE_Inr Let_def
    by (cases "le_event_type e") (simp_all only: ledger_event_type.case, (rule that [OF refl chk], blast)+)
qed

lemma apply_event_result:
  assumes ok: "state_ok s" and step: "apply_event s e = Inr s'"
  shows "epoch_known s' \<and> money_ok s' \<and> books_ok s'"
proof -
  from step obtain seen where seen: "seen = insert (le_event_id e) (seen_event_ids s)"
    and chk: "check_event s e = Inr ()"
    and do: "le_event_type e = EPOCH_CREATED \<and> apply_epoch_created s e seen = Inr s' \<or>
     le_event_type e = POSITION_OPENED \<and> apply_position_opened s e seen = Inr s' \<or>
     le_event_type e = POSITION_CLOSED \<and> apply_position_closed s e seen = Inr s' \<or>
     le_event_type e = POSITION_UNRESOLVED \<and> apply_position_unresolved s e seen = Inr s' \<or>
     le_event_type e = RECOVERY_COMPLETED \<and> apply_recovery_completed s e seen = Inr s'"
    by (rule applied_event)
  note c = checked_event [OF chk]
  show ?thesis
  proof (cases "paper_epoch_id s")
    case None
    then have "s = empty_state" "le_event_type e = EPOCH_CREATED"
      using state_ok_unknown [OF ok] c(4) by simp_all
    then have "apply_epoch_created empty_state e seen = Inr s'" using do by simp
    then show ?thesis using c(2) by (rule created_establishes)
  next
    case (Some i)
    then have ok: "epoch_known s" "money_ok s" "books_ok s"
      using state_ok_known [OF ok] by simp_all
    have version: "\<exists>ep. epoch s = Some ep \<and> le_schema_version e = pe_schema_version ep"
      using c(5) Some by auto
    have "le_event_type e \<noteq> EPOCH_CREATED" using c(4) Some by auto
    then show ?thesis
      using do opened_keeps [OF ok version, of seen s'] closed_keeps [OF ok, of e seen s']
        unresolved_keeps [OF ok, of e seen s'] recovery_keeps [OF ok, of e seen s']
      by blast
  qed
qed

lemma handler_last:
  "apply_epoch_created s e seen = Inr s' \<Longrightarrow> last_sequence s' = le_sequence e \<and> seen_event_ids s' = seen"
  "apply_position_opened s e seen = Inr s' \<Longrightarrow> last_sequence s' = le_sequence e \<and> seen_event_ids s' = seen"
  "apply_position_closed s e seen = Inr s' \<Longrightarrow> last_sequence s' = le_sequence e \<and> seen_event_ids s' = seen"
  "apply_position_unresolved s e seen = Inr s' \<Longrightarrow> last_sequence s' = le_sequence e \<and> seen_event_ids s' = seen"
  "apply_recovery_completed s e seen = Inr s' \<Longrightarrow> last_sequence s' = le_sequence e \<and> seen_event_ids s' = seen"
  by (erule applied_created, simp) (erule applied_opened, simp, erule applied_closed, simp,
      erule applied_unresolved, simp, erule applied_recovery, simp)

lemma apply_event_last:
  "apply_event s e = Inr s' \<Longrightarrow>
     last_sequence s' = le_sequence e \<and> seen_event_ids s' = insert (le_event_id e) (seen_event_ids s)"
  by (erule applied_event) (use handler_last [of s e _ s'] in blast)

interpretation ppl: sequenced_replay apply_event state_ok last_sequence le_sequence
proof
  show "state_ok s \<Longrightarrow> apply_event s e = Inr s' \<Longrightarrow> state_ok s'" for s e s'
    using apply_event_result [of s e s'] unfolding state_ok_def [of s'] by blast
  show "state_ok s \<Longrightarrow> apply_event s e = Inr s' \<Longrightarrow> le_sequence e = last_sequence s + 1" for s e s'
    by (erule applied_event) (rule checked_event(3))
  show "state_ok s \<Longrightarrow> apply_event s e = Inr s' \<Longrightarrow> last_sequence s' = le_sequence e" for s e s'
    using apply_event_last by blast
qed

end
