(* ===== verification/PortfolioAccounting.thy ===== *)
theory PortfolioAccounting
  imports PortfolioLedger
begin

text \<open>
  The theorems about the paper portfolio ledger: what holds of every state \<open>project\<close> returns,
  how the state relates to the stream it was projected from, the life cycle of each trade as
  an abstract machine the ledger refines, the mark-to-market contract, and the round trips
  from the event builders through the projection. A small sample stream with its projected
  state serves as the concrete input.
\<close>

section \<open>Every projected state\<close>

lemma state_ok_empty [simp]: "state_ok empty_state"
  by (simp add: state_ok_def)

lemma project_state_ok: "project events = Inr s \<Longrightarrow> state_ok s"
  unfolding project_def by (rule ppl.replay_keeps [OF state_ok_empty])

lemma state_ok_money: "state_ok s \<Longrightarrow> money_ok s"
  by (auto simp: state_ok_def money_ok_def)

lemma state_ok_books: "state_ok s \<Longrightarrow> books_ok s"
  by (auto simp: state_ok_def books_ok_def)

lemma project_append:
  "project (xs @ ys) = bindE (project xs) (\<lambda>s. foldE apply_event s ys)"
  by (simp add: project_def foldE_append)

lemma project_snoc: "project (xs @ [e]) = bindE (project xs) (\<lambda>s. apply_event s e)"
  by (simp add: project_def foldE_snoc)

section \<open>A sample stream\<close>

definition sample_event ::
  "string \<Rightarrow> int \<Rightarrow> ledger_event_type \<Rightarrow> string option \<Rightarrow> payload \<Rightarrow> ledger_event" where
  "sample_event i n t tid pl =
     \<lparr>le_event_id = i, le_paper_epoch_id = ''E'', le_sequence = n, le_event_type = t,
      le_timestamp = Fin (of_int n), le_trade_id = tid, le_decision_id = None, le_payload = pl,
      le_schema_version = 1\<rparr>"

definition sample_open :: "string \<Rightarrow> int \<Rightarrow> string \<Rightarrow> string \<Rightarrow> int \<Rightarrow> ledger_event" where
  "sample_open i n tid sd amount = sample_event i n POSITION_OPENED (Some tid)
     [(''symbol'', VStr ''BTC''), (''side'', VStr sd), (''principal'', VInt amount),
      (''entry_price'', VInt 4), (''entry_fee'', VInt 1)]"

definition sample_stream :: "ledger_event list" where
  "sample_stream =
     [sample_event ''e1'' 1 EPOCH_CREATED None
        [(''initial_virtual_capital'', VInt 1000), (''code_sha'', VStr ''c''),
         (''config_snapshot_hash'', VStr ''h'')],
      sample_open ''e2'' 2 ''A'' ''LONG'' 100,
      sample_open ''e3'' 3 ''B'' ''SHORT'' 200,
      sample_open ''e4'' 4 ''C'' ''LONG'' 300,
      sample_event ''e5'' 5 POSITION_CLOSED (Some ''A'')
        [(''exit_price'', VInt 8), (''exit_fee'', VInt 2)],
      sample_event ''e6'' 6 POSITION_UNRESOLVED (Some ''B'') [(''reason'', VStr ''gone'')]]"

definition sample_position :: "string \<Rightarrow> int \<Rightarrow> side \<Rightarrow> rat \<Rightarrow> open_position" where
  "sample_position tid n sd amount =
     \<lparr>op_trade_id = tid, op_symbol = ''BTC'', op_side = sd, op_principal = Fin amount,
      op_entry_price = Fin 4, op_entry_fee = Fin 1, op_opened_sequence = n,
      op_opened_at = Fin (of_int n), op_tp_price = None, op_sl_price = None,
      op_timeout_at = None, op_recovery_until = None\<rparr>"

definition sample_epoch :: paper_epoch where
  "sample_epoch = \<lparr>pe_id = ''E'', pe_created_at = Fin 1, pe_initial_virtual_capital = Fin 1000,
     pe_status = ACTIVE, pe_code_sha = ''c'', pe_config_snapshot_hash = ''h'',
     pe_schema_version = 1\<rparr>"

definition sample_state :: portfolio_state where
  "sample_state = \<lparr>paper_epoch_id = Some ''E'', epoch = Some sample_epoch,
     available_cash = Fin 595, reserved_principal = Fin 300, unresolved_capital = Fin 200,
     realized_pnl = Fin 97, fees_paid = Fin 5,
     open_positions = [(''C'', sample_position ''C'' 4 LONG 300)],
     unresolved_positions = [(''B'',
       \<lparr>up_trade_id = ''B'', up_symbol = ''BTC'', up_side = SHORT, up_principal = Fin 200,
        up_entry_price = Fin 4, up_entry_fee = Fin 1, up_reason = ''gone'',
        up_unresolved_sequence = 6\<rparr>)],
     closed_trade_ids = {''A''}, last_sequence = 6,
     seen_event_ids = {''e1'', ''e2'', ''e3'', ''e4'', ''e5'', ''e6''},
     restored_count_total = 0, unresolved_count_total = 1\<rparr>"

lemmas apply_eval = apply_event_def check_event_def handler_defs get_finite_def payload_get_def
  finite_value_def finite_derived_def opened_terms_def gross_pct_def fl_sub_def raise_if_def
  dict_set_def dict_del_def

lemma sample_project: "project sample_stream = Inr sample_state"
  by (simp add: project_def sample_stream_def sample_open_def sample_event_def empty_state_def
      sample_state_def sample_epoch_def sample_position_def apply_eval new_paper_epoch_def
      require_finite_def insert_commute)

section \<open>Money\<close>

text \<open>
  C6: Whatever events are replayed, if the projection returns a state then its available
  cash is a finite number and not negative, every other money field is finite, and neither
  the fees paid nor the unresolved capital is negative.
\<close>

theorem project_money:
  assumes "project events = Inr s"
  shows "fl_finite (available_cash s) \<and> fl_le (Fin 0) (available_cash s) \<and>
    fl_finite (reserved_principal s) \<and> fl_finite (realized_pnl s) \<and>
    fl_finite (unresolved_capital s) \<and> fl_le (Fin 0) (unresolved_capital s) \<and>
    fl_finite (fees_paid s) \<and> fl_le (Fin 0) (fees_paid s)"
  using state_ok_money [OF project_state_ok [OF assms]] by (simp add: money_ok_def)

theorem project_money_witness:
  "fl_finite (available_cash sample_state) \<and> fl_le (Fin 0) (available_cash sample_state)"
  using project_money [OF sample_project] by blast

section \<open>The shape of a stream that projects\<close>

definition same_epoch :: "ledger_event list \<Rightarrow> bool" where
  "same_epoch events \<longleftrightarrow>
     (\<forall>e \<in> set events. le_paper_epoch_id e = le_paper_epoch_id (hd events) \<and>
        le_schema_version e = le_schema_version (hd events))"

lemma apply_event_epoch:
  assumes "state_ok s" "apply_event s e = Inr s'"
  shows "paper_epoch_id s' = Some (le_paper_epoch_id e) \<and>
    (\<exists>ep. epoch s' = Some ep \<and> pe_schema_version ep = le_schema_version e)"
  using assms(2)
proof (rule applied_event)
  fix seen
  assume chk: "check_event s e = Inr ()"
    and do: "le_event_type e = EPOCH_CREATED \<and> apply_epoch_created s e seen = Inr s' \<or>
     le_event_type e = POSITION_OPENED \<and> apply_position_opened s e seen = Inr s' \<or>
     le_event_type e = POSITION_CLOSED \<and> apply_position_closed s e seen = Inr s' \<or>
     le_event_type e = POSITION_UNRESOLVED \<and> apply_position_unresolved s e seen = Inr s' \<or>
     le_event_type e = RECOVERY_COMPLETED \<and> apply_recovery_completed s e seen = Inr s'"
  show ?thesis
  proof (cases "le_event_type e = EPOCH_CREATED")
    case True
    then have "apply_epoch_created s e seen = Inr s'" using do by simp
    then show ?thesis by (rule applied_created) simp
  next
    case False
    then have "\<exists>ep. epoch s = Some ep \<and> paper_epoch_id s = Some (le_paper_epoch_id e) \<and>
        pe_schema_version ep = le_schema_version e"
      using checked_event(4,5) [OF chk] by auto
    moreover have "epoch s' = epoch s \<and> paper_epoch_id s' = paper_epoch_id s"
      using do False
      by (auto elim!: applied_opened applied_closed applied_unresolved applied_recovery)
    ultimately show ?thesis by auto
  qed
qed

text \<open>The stream-shape facts, kept event by event.\<close>

definition stream_shape :: "ledger_event list \<Rightarrow> portfolio_state \<Rightarrow> bool" where
  "stream_shape events s \<longleftrightarrow>
     same_epoch events \<and> distinct (map le_event_id events) \<and>
     seen_event_ids s = le_event_id ` set events \<and>
     (events \<noteq> [] \<longrightarrow> le_event_type (hd events) = EPOCH_CREATED) \<and>
     (\<forall>e \<in> set (tl events). le_event_type e \<noteq> EPOCH_CREATED) \<and>
     (events \<noteq> [] \<longrightarrow> paper_epoch_id s = Some (le_paper_epoch_id (hd events)) \<and>
        (\<exists>ep. epoch s = Some ep \<and> pe_schema_version ep = le_schema_version (hd events))) \<and>
     (events = [] \<longrightarrow> s = empty_state)"

lemma project_shape: "project events = Inr s \<Longrightarrow> stream_shape events s"
proof (induction events arbitrary: s rule: rev_induct)
  case Nil
  then show ?case by (simp add: project_def stream_shape_def same_epoch_def)
next
  case (snoc e es)
  from snoc.prems obtain t where t: "project es = Inr t" "apply_event t e = Inr s"
    by (auto simp: project_snoc result_simps)
  note ih = snoc.IH [OF t(1), unfolded stream_shape_def]
  have ok: "state_ok t" using t(1) by (rule project_state_ok)
  have last: "seen_event_ids s = insert (le_event_id e) (seen_event_ids t)"
    using apply_event_last [OF t(2)] by blast
  have ep: "paper_epoch_id s = Some (le_paper_epoch_id e)"
    "\<exists>ep. epoch s = Some ep \<and> pe_schema_version ep = le_schema_version e"
    using apply_event_epoch [OF ok t(2)] by blast+
  obtain chk: "check_event t e = Inr ()" using t(2) by (rule applied_event)
  note c = checked_event [OF chk]
  show ?case
  proof (cases es)
    case Nil
    with ih c ep last show ?thesis by (simp add: stream_shape_def same_epoch_def)
  next
    case (Cons h hs)
    then have "paper_epoch_id t = Some (le_paper_epoch_id h)"
      "\<exists>ep. epoch t = Some ep \<and> pe_schema_version ep = le_schema_version h"
      using ih by simp_all
    then have e: "le_paper_epoch_id e = le_paper_epoch_id h"
      "le_schema_version e = le_schema_version h" "le_event_type e \<noteq> EPOCH_CREATED"
      using c(4,5) by auto
    have hd: "hd (es @ [e]) = hd es" "set (tl (es @ [e])) = insert e (set (tl es))"
      "hd es = h" "es \<noteq> []"
      using Cons by simp_all
    have "same_epoch (es @ [e])"
      using ih e(1,2) hd unfolding same_epoch_def by auto
    moreover have "distinct (map le_event_id (es @ [e]))"
      "seen_event_ids s = le_event_id ` set (es @ [e])"
      using ih c(1) last by auto
    moreover have "le_event_type (hd (es @ [e])) = EPOCH_CREATED"
      "\<forall>x \<in> set (tl (es @ [e])). le_event_type x \<noteq> EPOCH_CREATED"
      unfolding hd using ih e(3) hd by auto
    ultimately show ?thesis
      unfolding stream_shape_def hd(1) hd(3) using ep e(1,2) by simp
  qed
qed

text \<open>
  A stream that projects is numbered 1, 2, 3 and so on without a gap, carries one epoch
  identity, one schema version and pairwise different event identifiers, and its first event,
  and no other, creates the epoch.
\<close>

theorem project_stream:
  assumes "project events = Inr s"
  shows "map le_sequence events = map (\<lambda>i. 1 + int i) [0..<length events] \<and>
    last_sequence s = int (length events) \<and>
    distinct (map le_event_id events) \<and> same_epoch events \<and>
    (events \<noteq> [] \<longrightarrow> le_event_type (hd events) = EPOCH_CREATED) \<and>
    (\<forall>e \<in> set (tl events). le_event_type e \<noteq> EPOCH_CREATED)"
  using project_shape [OF assms] ppl.replay_seqs [OF state_ok_empty assms [unfolded project_def]]
  by (simp add: stream_shape_def)

theorem project_stream_witness:
  "map le_sequence sample_stream = map (\<lambda>i. 1 + int i) [0..<length sample_stream] \<and>
   distinct (map le_event_id sample_stream) \<and> same_epoch sample_stream"
  using project_stream [OF sample_project] by blast

section \<open>The life cycle of a trade\<close>

text \<open>
  The abstract machine of one trade identifier: it is opened once, then closed once or declared
  unresolved once, and nothing follows either. Any other event for it is refused.
\<close>

datatype trade_status = Unused | Opened | Closed | Unresolved

fun lifecycle_step :: "string \<Rightarrow> trade_status \<Rightarrow> ledger_event \<Rightarrow> unit + trade_status" where
  "lifecycle_step tid st e =
     (if le_trade_id e \<noteq> Some tid then Inr st
      else case (le_event_type e, st) of
             (POSITION_OPENED, Unused) \<Rightarrow> Inr Opened
           | (POSITION_CLOSED, Opened) \<Rightarrow> Inr Closed
           | (POSITION_UNRESOLVED, Opened) \<Rightarrow> Inr Unresolved
           | (EPOCH_CREATED, _) \<Rightarrow> Inr st
           | (RECOVERY_COMPLETED, _) \<Rightarrow> Inr st
           | _ \<Rightarrow> Inl ())"

definition status_of :: "string \<Rightarrow> portfolio_state \<Rightarrow> trade_status" where
  "status_of tid s =
     (if dict_has (open_positions s) tid then Opened
      else if tid \<in> closed_trade_ids s then Closed
      else if dict_has (unresolved_positions s) tid then Unresolved
      else Unused)"

lemma lifecycle_other: "le_trade_id e \<noteq> Some tid \<Longrightarrow> lifecycle_step tid st e = Inr st"
  by simp

lemma opened_status:
  assumes "apply_position_opened s e seen = Inr s'" "le_event_type e = POSITION_OPENED"
  shows "lifecycle_step tid (status_of tid s) e = Inr (status_of tid s')"
  using assms(1)
  by (rule applied_opened) (auto simp: status_of_def assms(2))

lemma closed_status:
  assumes "apply_position_closed s e seen = Inr s'" "le_event_type e = POSITION_CLOSED"
  shows "lifecycle_step tid (status_of tid s) e = Inr (status_of tid s')"
  using assms(1)
  by (rule applied_closed) (auto simp: status_of_def assms(2) dest: dict_get_Some_key)

lemma unresolved_status:
  assumes "apply_position_unresolved s e seen = Inr s'" "le_event_type e = POSITION_UNRESOLVED"
  shows "lifecycle_step tid (status_of tid s) e = Inr (status_of tid s')"
  using assms(1)
  by (rule applied_unresolved) (auto simp: status_of_def assms(2) dest: dict_get_Some_key)

lemma created_status:
  assumes "apply_epoch_created s e seen = Inr s'" "le_event_type e = EPOCH_CREATED"
  shows "lifecycle_step tid (status_of tid s) e = Inr (status_of tid s')"
  using assms(1)
  by (rule applied_created) (auto simp: status_of_def assms(2))

lemma recovery_status:
  assumes "apply_recovery_completed s e seen = Inr s'" "le_event_type e = RECOVERY_COMPLETED"
  shows "lifecycle_step tid (status_of tid s) e = Inr (status_of tid s')"
  using assms(1)
  by (rule applied_recovery) (auto simp: status_of_def assms(2))

interpretation lifecycle:
  replay_refinement apply_event state_ok "lifecycle_step tid" "status_of tid" for tid
proof
  fix s e s'
  assume "apply_event s e = Inr s'"
  then show "lifecycle_step tid (status_of tid s) e = Inr (status_of tid s')"
    by (rule applied_event)
      (elim disjE conjE, erule (1) created_status, erule (1) opened_status,
        erule (1) closed_status, erule (1) unresolved_status, erule (1) recovery_status)
qed

text \<open>
  C8: The ledger refines the life cycle of every trade: replaying the same events through
  the abstract machine of any trade identifier succeeds and ends in the status that the
  projected books show, so no trade is opened twice, closed twice, closed and unresolved, or
  closed before it is opened.
\<close>

theorem project_lifecycle:
  assumes "project events = Inr s"
  shows "foldE (lifecycle_step tid) Unused events = Inr (status_of tid s)"
proof -
  have "status_of tid empty_state = Unused" by (simp add: status_of_def)
  with lifecycle.replay_refines [OF state_ok_empty assms [unfolded project_def], of tid]
  show ?thesis by (simp del: lifecycle_step.simps)
qed

theorem project_lifecycle_witness:
  "foldE (lifecycle_step ''B'') Unused sample_stream = Inr Unresolved"
  using project_lifecycle [OF sample_project, of "''B''"]
  by (simp add: status_of_def sample_state_def)

text \<open>
  The open, the closed and the unresolved trades of a projected state are disjoint, each
  book names a trade once, every open position is filed under its own identifier with a
  positive principal and entry price, and the unresolved counter is the number of unresolved
  positions.
\<close>

theorem project_books:
  assumes "project events = Inr s"
  shows "distinct (dict_keys (open_positions s)) \<and>
    set (dict_keys (open_positions s)) \<inter> set (dict_keys (unresolved_positions s)) = {} \<and>
    set (dict_keys (open_positions s)) \<inter> closed_trade_ids s = {} \<and>
    set (dict_keys (unresolved_positions s)) \<inter> closed_trade_ids s = {} \<and>
    unresolved_count_total s = int (length (unresolved_positions s)) \<and>
    (\<forall>(tid, p) \<in> set (open_positions s). op_trade_id p = tid \<and>
       fl_lt (Fin 0) (op_principal p) \<and> fl_lt (Fin 0) (op_entry_price p))"
proof -
  have ok: "state_ok s" using assms by (rule project_state_ok)
  then have "\<forall>(tid, p) \<in> set (open_positions s). op_trade_id p = tid \<and>
       fl_lt (Fin 0) (op_principal p) \<and> fl_lt (Fin 0) (op_entry_price p)"
    by (force simp: state_ok_def epoch_known_def position_ok_def)
  with state_ok_books [OF ok] show ?thesis unfolding books_ok_def by blast
qed

theorem project_books_witness:
  "set (dict_keys (open_positions sample_state)) \<inter>
     set (dict_keys (unresolved_positions sample_state)) = {} \<and>
   unresolved_count_total sample_state = 1"
  using project_books [OF sample_project] by (simp add: sample_state_def)

section \<open>What later events can change\<close>

definition settles_only :: "portfolio_state \<Rightarrow> portfolio_state \<Rightarrow> bool" where
  "settles_only s s' \<longleftrightarrow>
     fl_le (fees_paid s) (fees_paid s') \<and> fl_le (unresolved_capital s) (unresolved_capital s') \<and>
     closed_trade_ids s \<subseteq> closed_trade_ids s' \<and>
     set (dict_keys (unresolved_positions s)) \<subseteq> set (dict_keys (unresolved_positions s')) \<and>
     (s \<noteq> empty_state \<longrightarrow> epoch s' = epoch s \<and> paper_epoch_id s' = paper_epoch_id s)"

text \<open>The two running totals are sums of doubles and only ever grow.\<close>

definition totals_double :: "portfolio_state \<Rightarrow> bool" where
  "totals_double s \<longleftrightarrow> fl_double (fees_paid s) \<and> fl_double (unresolved_capital s)"

lemma apply_event_totals:
  "apply_event s e = Inr s' \<Longrightarrow> totals_double s \<Longrightarrow> totals_double s'"
  by (erule applied_event, elim disjE conjE)
    (erule applied_created applied_opened applied_closed applied_unresolved applied_recovery,
      simp add: totals_double_def)+

interpretation totals: event_replay apply_event "\<lambda>s. state_ok s \<and> totals_double s"
  using ppl.step_keeps apply_event_totals by unfold_locales blast

lemma fl_le_refl_finite: "fl_finite x \<Longrightarrow> fl_le x x"
  by (cases x) simp_all

lemma settles_open:
  assumes "apply_position_opened s e seen = Inr s'" "money_ok s" "totals_double s"
  shows "settles_only s s'"
  using assms(1)
proof (rule applied_opened)
  fix tid p cash
  assume h: "opened_position e tid p" "fl_finite (fl_add (fees_paid s) (op_entry_fee p))"
    "s' = s\<lparr>available_cash := cash,
            reserved_principal := fl_add (reserved_principal s) (op_principal p),
            fees_paid := fl_add (fees_paid s) (op_entry_fee p),
            open_positions := dict_set (open_positions s) tid p,
            last_sequence := le_sequence e, seen_event_ids := seen\<rparr>"
  have "fl_le (Fin 0) (op_entry_fee p)" using h(1) by (simp add: opened_position_def position_ok_def)
  then show ?thesis
    using assms(2,3) h(2,3)
    by (simp add: settles_only_def money_ok_def totals_double_def fl_add_ge fl_le_refl_finite)
qed

lemma settles_close:
  assumes "apply_position_closed s e seen = Inr s'" "money_ok s" "totals_double s"
  shows "settles_only s s'"
  using assms(1)
proof (rule applied_closed)
  fix tid p exit_price exit_fee pct gain trade cash
  assume h: "get_finite e ''exit_fee'' False True = Inr exit_fee"
    "fl_finite (fl_add (fees_paid s) exit_fee)"
    "s' = s\<lparr>available_cash := cash,
            reserved_principal := fl_sub (reserved_principal s) (op_principal p),
            fees_paid := fl_add (fees_paid s) exit_fee,
            realized_pnl := fl_add (realized_pnl s) trade,
            open_positions := dict_del (open_positions s) tid,
            closed_trade_ids := insert tid (closed_trade_ids s),
            last_sequence := le_sequence e, seen_event_ids := seen\<rparr>"
  have "fl_le (Fin 0) exit_fee" using get_finite_Inr [OF h(1)] by simp
  then show ?thesis
    using assms(2,3) h(2,3)
    by (auto simp: settles_only_def money_ok_def totals_double_def fl_add_ge fl_le_refl_finite)
qed

lemma settles_unresolved:
  assumes "apply_position_unresolved s e seen = Inr s'" "money_ok s" "totals_double s"
    "epoch_known s"
  shows "settles_only s s'"
  using assms(1)
proof (rule applied_unresolved)
  fix tid p u
  assume h: "dict_get (open_positions s) tid = Some p" 
    "fl_finite (fl_add (unresolved_capital s) (op_principal p))"
    "s' = s\<lparr>reserved_principal := fl_sub (reserved_principal s) (op_principal p),
            unresolved_capital := fl_add (unresolved_capital s) (op_principal p),
            open_positions := dict_del (open_positions s) tid,
            unresolved_positions := dict_set (unresolved_positions s) tid u,
            unresolved_count_total := unresolved_count_total s + 1,
            last_sequence := le_sequence e, seen_event_ids := seen\<rparr>"
  have "fl_le (Fin 0) (op_principal p)"
    using map_of_SomeD [OF h(1)] assms(4)
    by (auto simp: epoch_known_def position_ok_def intro: fl_lt_imp_le)
  then show ?thesis
    using assms(2,3) h(2,3)
    by (auto simp: settles_only_def money_ok_def totals_double_def fl_add_ge fl_le_refl_finite)
qed

lemma settles_step:
  assumes ok: "state_ok s" "totals_double s" and step: "apply_event s e = Inr s'"
  shows "settles_only s s'"
  using step
proof (rule applied_event)
  fix seen
  assume chk: "check_event s e = Inr ()"
    and do: "le_event_type e = EPOCH_CREATED \<and> apply_epoch_created s e seen = Inr s' \<or>
     le_event_type e = POSITION_OPENED \<and> apply_position_opened s e seen = Inr s' \<or>
     le_event_type e = POSITION_CLOSED \<and> apply_position_closed s e seen = Inr s' \<or>
     le_event_type e = POSITION_UNRESOLVED \<and> apply_position_unresolved s e seen = Inr s' \<or>
     le_event_type e = RECOVERY_COMPLETED \<and> apply_recovery_completed s e seen = Inr s'"
  have money: "money_ok s" using ok(1) by (rule state_ok_money)
  show ?thesis
  proof (cases "paper_epoch_id s")
    case None
    then have "s = empty_state" using ok(1) state_ok_unknown by blast
    moreover have "money_ok s'"
      using apply_event_result [OF ok(1) step] by blast
    ultimately show ?thesis by (simp add: settles_only_def money_ok_def)
  next
    case (Some i)
    then have "epoch_known s" using ok(1) state_ok_known by auto
    moreover have "le_event_type e \<noteq> EPOCH_CREATED" using checked_event(4) [OF chk] Some by auto
    moreover have "apply_recovery_completed s e seen = Inr s' \<Longrightarrow> settles_only s s'"
      using money by (elim applied_recovery) (simp add: settles_only_def money_ok_def fl_le_refl_finite)
    ultimately show ?thesis
      using do settles_open settles_close settles_unresolved money ok(2) by blast
  qed
qed

definition settles_later :: "portfolio_state \<Rightarrow> portfolio_state \<Rightarrow> bool" where
  "settles_later s s' \<longleftrightarrow> s = s' \<or> (settles_only s s' \<and> s' \<noteq> empty_state)"

lemma settles_later_trans: "settles_later s t \<Longrightarrow> settles_later t u \<Longrightarrow> settles_later s u"
  unfolding settles_later_def settles_only_def
  by (elim disjE conjE) (use fl_le_trans subset_trans in \<open>metis (no_types)\<close>)+

text \<open>
  The projection is a fold: a stream projects only if each of its prefixes does, and what
  comes later never lowers the fees paid or the unresolved capital, never reopens a closed or
  an unresolved trade, and never changes the epoch.
\<close>

theorem project_prefix:
  assumes "project (xs @ ys) = Inr s'"
  shows "\<exists>s. project xs = Inr s \<and> settles_later s s'"
proof -
  from assms obtain s where s: "project xs = Inr s" "foldE apply_event s ys = Inr s'"
    by (auto simp: project_append result_simps)
  have "totals_double empty_state" by (simp add: totals_double_def)
  then have "state_ok s \<and> totals_double s"
    using totals.replay_keeps s(1) unfolding project_def by (metis state_ok_empty)
  then have "settles_later s s'"
  proof (rule totals.replay_relates [rotated 3, OF _ s(2)])
    show "settles_later s t" if "state_ok s \<and> totals_double s" "apply_event s e = Inr t" for s e t
      using that settles_step apply_event_result [of s e t]
      by (auto simp: settles_later_def epoch_known_def)
    show "settles_later s s" for s by (simp add: settles_later_def)
    show "settles_later s t \<Longrightarrow> settles_later t u \<Longrightarrow> settles_later s u" for s t u
      by (rule settles_later_trans)
  qed
  with s(1) show ?thesis by blast
qed

theorem project_prefix_witness:
  "\<exists>s. project (take 4 sample_stream) = Inr s \<and> settles_later s sample_state"
  using project_prefix [of "take 4 sample_stream" "drop 4 sample_stream" sample_state]
    sample_project by (simp only: append_take_drop_id)

section \<open>Closing and losing track of a position\<close>

text \<open>The rounded price move has the sign of the exact one.\<close>

lemma gross_pct_sign:
  assumes "gross_pct sd (Fin a) (Fin b) = Some (Fin c)" and "0 < a"
  shows "(case sd of LONG \<Rightarrow> a \<le> b | SHORT \<Rightarrow> b \<le> a) \<longrightarrow> 0 \<le> c"
    and "(case sd of LONG \<Rightarrow> b \<le> a | SHORT \<Rightarrow> a \<le> b) \<longrightarrow> c \<le> 0"
proof -
  let ?d = "case sd of LONG \<Rightarrow> b - a | SHORT \<Rightarrow> a - b"
  from assms obtain d where d: "round_double ?d = Fin d" "round_double (d / a) = Fin c"
    by (cases "round_double ?d"; cases sd)
      (auto simp: gross_pct_def fl_sub_def fl_inf_def split: if_splits)
  have "0 \<le> ?d \<Longrightarrow> 0 \<le> c"
    using round_double_nonneg [OF d(2)] round_double_nonneg [OF d(1)] assms(2) by simp
  moreover have "?d \<le> 0 \<Longrightarrow> c \<le> 0"
    using round_double_nonpos [OF d(2)] round_double_nonpos [OF d(1)] assms(2)
    by (simp add: divide_nonpos_pos)
  ultimately show "(case sd of LONG \<Rightarrow> a \<le> b | SHORT \<Rightarrow> b \<le> a) \<longrightarrow> 0 \<le> c"
    and "(case sd of LONG \<Rightarrow> b \<le> a | SHORT \<Rightarrow> a \<le> b) \<longrightarrow> c \<le> 0"
    by (cases sd; simp)+
qed

definition favourable :: "side \<Rightarrow> pyfloat \<Rightarrow> pyfloat \<Rightarrow> bool" where
  "favourable sd entry price = (case sd of LONG \<Rightarrow> fl_le entry price | SHORT \<Rightarrow> fl_le price entry)"

definition adverse :: "side \<Rightarrow> pyfloat \<Rightarrow> pyfloat \<Rightarrow> bool" where
  "adverse sd entry price = (case sd of LONG \<Rightarrow> fl_le price entry | SHORT \<Rightarrow> fl_le entry price)"

lemma gain_sign:
  assumes pct: "gross_pct sd entry price = Some pct" and gain: "gain = fl_mul amount pct"
    and fin: "fl_finite entry" "fl_finite price" "fl_finite pct" "fl_finite amount" "fl_finite gain"
    and pos: "fl_lt (Fin 0) entry" "fl_lt (Fin 0) amount"
  shows "favourable sd entry price \<Longrightarrow> fl_le (Fin 0) gain"
    and "adverse sd entry price \<Longrightarrow> fl_le gain (Fin 0)"
proof -
  obtain a b c p g where eqs: "entry = Fin a" "price = Fin b" "pct = Fin c" "amount = Fin p"
    "round_double (p * c) = Fin g" "gain = Fin g"
    using fin gain by (auto simp: fl_finite_iff)
  have "0 < a" "0 < p" using pos eqs by simp_all
  note sign = gross_pct_sign [OF pct [unfolded eqs] \<open>0 < a\<close>]
  show "fl_le (Fin 0) gain" if "favourable sd entry price"
    using that sign(1) eqs round_double_nonneg [OF eqs(5)] \<open>0 < p\<close>
    by (cases sd) (simp_all add: favourable_def)
  show "fl_le gain (Fin 0)" if "adverse sd entry price"
    using that sign(2) eqs round_double_nonpos [OF eqs(5)] \<open>0 < p\<close>
    by (cases sd) (simp_all add: adverse_def mult_nonneg_nonpos)
qed

text \<open>
  Closing a position removes exactly that position, pays its principal and its gain less
  the exit fee into the cash, books the gain less both fees as realized, and the gain is
  computed from the recorded entry and the exit price alone, with the sign of the price move
  for the side of the trade: never negative when the price moved in its favour, never positive
  when it moved against it.
\<close>

theorem close_accounts:
  assumes "project events = Inr s" and "apply_event s e = Inr s'"
    and "le_event_type e = POSITION_CLOSED"
  shows "\<exists>tid p exit_price exit_fee gain.
    le_trade_id e = Some tid \<and> dict_get (open_positions s) tid = Some p \<and>
    get_finite e ''exit_price'' True False = Inr exit_price \<and>
    get_finite e ''exit_fee'' False True = Inr exit_fee \<and>
    available_cash s' = fl_sub (fl_add (fl_add (available_cash s) (op_principal p)) gain) exit_fee \<and>
    realized_pnl s' = fl_add (realized_pnl s) (fl_sub (fl_sub gain (op_entry_fee p)) exit_fee) \<and>
    reserved_principal s' = fl_sub (reserved_principal s) (op_principal p) \<and>
    open_positions s' = dict_del (open_positions s) tid \<and>
    unresolved_capital s' = unresolved_capital s \<and>
    (favourable (op_side p) (op_entry_price p) exit_price \<longrightarrow> fl_le (Fin 0) gain) \<and>
    (adverse (op_side p) (op_entry_price p) exit_price \<longrightarrow> fl_le gain (Fin 0))"
proof -
  obtain seen where "apply_position_closed s e seen = Inr s'"
    using assms(2,3) by (elim applied_event) auto
  then show ?thesis
  proof (rule applied_closed)
    fix tid p exit_price exit_fee pct gain trade cash
    assume h: "le_trade_id e = Some tid" "dict_get (open_positions s) tid = Some p"
      "get_finite e ''exit_price'' True False = Inr exit_price"
      "get_finite e ''exit_fee'' False True = Inr exit_fee"
      "gross_pct (op_side p) (op_entry_price p) exit_price = Some pct"
      "gain = fl_mul (op_principal p) pct"
      "trade = fl_sub (fl_sub gain (op_entry_fee p)) exit_fee"
      "cash = fl_sub (fl_add (fl_add (available_cash s) (op_principal p)) gain) exit_fee"
      "fl_finite pct" "fl_finite gain"
      "s' = s\<lparr>available_cash := cash,
            reserved_principal := fl_sub (reserved_principal s) (op_principal p),
            fees_paid := fl_add (fees_paid s) exit_fee,
            realized_pnl := fl_add (realized_pnl s) trade,
            open_positions := dict_del (open_positions s) tid,
            closed_trade_ids := insert tid (closed_trade_ids s),
            last_sequence := le_sequence e, seen_event_ids := seen\<rparr>"
    have "fl_finite (op_entry_price p) \<and> fl_finite (op_principal p) \<and>
        fl_lt (Fin 0) (op_entry_price p) \<and> fl_lt (Fin 0) (op_principal p)"
      using project_state_ok [OF assms(1)] map_of_SomeD [OF h(2)]
      by (force simp: state_ok_def epoch_known_def position_ok_def)
    then have "(favourable (op_side p) (op_entry_price p) exit_price \<longrightarrow> fl_le (Fin 0) gain) \<and>
      (adverse (op_side p) (op_entry_price p) exit_price \<longrightarrow> fl_le gain (Fin 0))"
      using gain_sign [OF h(5,6)] get_finite_Inr [OF h(3)] h(9,10) by blast
    with h show ?thesis
      by (intro exI [of _ tid] exI [of _ p] exI [of _ exit_price] exI [of _ exit_fee]
          exI [of _ gain]) simp
  qed
qed

definition sample_close :: ledger_event where
  "sample_close = sample_event ''e7'' 7 POSITION_CLOSED (Some ''C'')
     [(''exit_price'', VInt 2), (''exit_fee'', VInt 0)]"

lemma sample_close_applies:
  "\<exists>s'. apply_event sample_state sample_close = Inr s' \<and> available_cash s' = Fin 745 \<and>
      realized_pnl s' = Fin (- 54)"
  by (simp add: sample_close_def apply_eval sample_state_def sample_event_def sample_epoch_def
      sample_position_def round_eval float_eval)

theorem close_accounts_witness:
  "\<exists>s' gain. apply_event sample_state sample_close = Inr s' \<and> fl_le gain (Fin 0) \<and>
     available_cash s' = fl_sub (fl_add (fl_add (Fin 595) (Fin 300)) gain) (Fin 0)"
proof -
  obtain s' where s': "apply_event sample_state sample_close = Inr s'"
    using sample_close_applies by blast
  have "le_event_type sample_close = POSITION_CLOSED" "le_trade_id sample_close = Some ''C''"
    "get_finite sample_close ''exit_price'' True False = Inr (Fin 2)"
    "get_finite sample_close ''exit_fee'' False True = Inr (Fin 0)"
    "dict_get (open_positions sample_state) ''C'' = Some (sample_position ''C'' 4 LONG 300)"
    by (simp_all add: sample_close_def sample_event_def sample_state_def apply_eval)
  with close_accounts [OF sample_project s'] s' show ?thesis
    by (force simp: sample_position_def sample_state_def adverse_def)
qed

text \<open>
  A position whose outcome is unknown moves its principal from the reserved to the
  unresolved capital and changes nothing else of the money: the cash, the realized result and
  the fees stay what they were, and the trade is filed as unresolved with its principal.
\<close>

theorem unresolved_is_not_a_result:
  assumes "apply_event s e = Inr s'" and "le_event_type e = POSITION_UNRESOLVED"
  shows "\<exists>tid p u. le_trade_id e = Some tid \<and> dict_get (open_positions s) tid = Some p \<and>
    available_cash s' = available_cash s \<and> realized_pnl s' = realized_pnl s \<and>
    fees_paid s' = fees_paid s \<and>
    reserved_principal s' = fl_sub (reserved_principal s) (op_principal p) \<and>
    unresolved_capital s' = fl_add (unresolved_capital s) (op_principal p) \<and>
    open_positions s' = dict_del (open_positions s) tid \<and>
    closed_trade_ids s' = closed_trade_ids s \<and>
    dict_get (unresolved_positions s') tid = Some u \<and> up_principal u = op_principal p"
proof -
  obtain seen where "apply_position_unresolved s e seen = Inr s'"
    using assms by (elim applied_event) auto
  then show ?thesis by (rule applied_unresolved) auto
qed

definition sample_lost :: ledger_event where
  "sample_lost = sample_event ''e7'' 7 POSITION_UNRESOLVED (Some ''C'') []"

lemma sample_lost_applies: "\<exists>s'. apply_event sample_state sample_lost = Inr s'"
  by (simp add: sample_lost_def apply_eval sample_state_def sample_event_def sample_epoch_def
      sample_position_def round_eval float_eval)

theorem unresolved_is_not_a_result_witness:
  "\<exists>s'. apply_event sample_state sample_lost = Inr s' \<and> available_cash s' = Fin 595 \<and>
     realized_pnl s' = Fin 97"
proof -
  obtain s' where s': "apply_event sample_state sample_lost = Inr s'"
    using sample_lost_applies by blast
  have "le_event_type sample_lost = POSITION_UNRESOLVED"
    by (simp add: sample_lost_def sample_event_def)
  from unresolved_is_not_a_result [OF s' this] s' show ?thesis by (auto simp: sample_state_def)
qed

section \<open>Mark-to-market equity\<close>

definition marked :: "(string, pyval) dict \<Rightarrow> open_position \<Rightarrow> bool" where
  "marked marks p \<longleftrightarrow> (\<exists>x. valid_mark_price (dict_get marks (op_symbol p)) = Inr (Some x))"

lemma mark_positions_unpriced:
  "foldE (mark_position marks) (k, u) ps = Inr (k', u') \<Longrightarrow>
     u' = u @ map fst (filter (\<lambda>(tid, p). \<not> marked marks p) ps) \<and> (fl_finite k \<longrightarrow> fl_finite k')"
proof (induction ps arbitrary: k u)
  case Nil
  then show ?case by simp
next
  case (Cons tp ps)
  obtain tid p where tp: "tp = (tid, p)" by force
  from Cons.prems obtain k1 u1 where step: "mark_position marks (k, u) tp = Inr (k1, u1)"
    and rest: "foldE (mark_position marks) (k1, u1) ps = Inr (k', u')"
    by (auto simp: result_simps)
  from step have "u1 = u @ (if marked marks p then [] else [tid]) \<and> (fl_finite k \<longrightarrow> fl_finite k1)"
    by (auto simp: mark_position_def tp marked_def result_simps split: option.splits)
  with Cons.IH [OF rest] show ?case by (auto simp: tp)
qed

lemma equity_Inr:
  assumes "equity s (Some marks) = Inr b"
  obtains known unpriced where
    "foldE (mark_position marks) (Fin 0, []) (open_positions s) = Inr (known, unpriced)"
    "eq_known_unrealized_pnl b = known" "eq_unpriced_trade_ids b = set unpriced"
    "eq_mark_coverage_complete b \<longleftrightarrow> unpriced = []"
    "unpriced = [] \<Longrightarrow> eq_certified_equity b =
       Some (fl_add (fl_add (available_cash s) (reserved_principal s)) known)"
    "unpriced = [] \<Longrightarrow> eq_equity b = Some (fl_add
       (fl_add (fl_add (available_cash s) (reserved_principal s)) known) (unresolved_capital s))"
    "unpriced = [] \<Longrightarrow> fl_finite (fl_add
       (fl_add (fl_add (available_cash s) (reserved_principal s)) known) (unresolved_capital s))"
    "unpriced \<noteq> [] \<Longrightarrow> eq_certified_equity b = None \<and> eq_equity b = None"
  using assms unfolding equity_def Let_def
  by (auto simp: result_simps split: if_splits)

text \<open>
  Mark coverage is exact. The positions reported as unpriced are those with no finite
  positive mark; coverage is complete just when there is none; then the certified equity is
  cash plus reserved principal plus the unrealized gains and the total adds the unresolved
  capital, both finite; otherwise both are absent, never a number.
\<close>

theorem equity_coverage:
  assumes "equity s (Some marks) = Inr b"
  shows "eq_unpriced_trade_ids b = {tid. \<exists>p. (tid, p) \<in> set (open_positions s) \<and> \<not> marked marks p} \<and>
    (eq_mark_coverage_complete b \<longleftrightarrow> (\<forall>(tid, p) \<in> set (open_positions s). marked marks p)) \<and>
    (if eq_mark_coverage_complete b
     then \<exists>c e. eq_certified_equity b = Some c \<and> eq_equity b = Some e \<and> fl_finite e \<and>
       c = fl_add (fl_add (available_cash s) (reserved_principal s)) (eq_known_unrealized_pnl b) \<and>
       e = fl_add c (unresolved_capital s)
     else eq_certified_equity b = None \<and> eq_equity b = None)"
  using assms
proof (rule equity_Inr)
  fix known unpriced
  assume h: "foldE (mark_position marks) (Fin 0, []) (open_positions s) = Inr (known, unpriced)"
    "eq_known_unrealized_pnl b = known" "eq_unpriced_trade_ids b = set unpriced"
    "eq_mark_coverage_complete b \<longleftrightarrow> unpriced = []"
    "unpriced = [] \<Longrightarrow> eq_certified_equity b =
       Some (fl_add (fl_add (available_cash s) (reserved_principal s)) known)"
    "unpriced = [] \<Longrightarrow> eq_equity b = Some (fl_add
       (fl_add (fl_add (available_cash s) (reserved_principal s)) known) (unresolved_capital s))"
    "unpriced = [] \<Longrightarrow> fl_finite (fl_add
       (fl_add (fl_add (available_cash s) (reserved_principal s)) known) (unresolved_capital s))"
    "unpriced \<noteq> [] \<Longrightarrow> eq_certified_equity b = None \<and> eq_equity b = None"
  have u: "unpriced = map fst (filter (\<lambda>(tid, p). \<not> marked marks p) (open_positions s))"
    using mark_positions_unpriced [OF h(1)] by simp
  have "set unpriced = {tid. \<exists>p. (tid, p) \<in> set (open_positions s) \<and> \<not> marked marks p}"
    unfolding u by force
  moreover have "unpriced = [] \<longleftrightarrow> (\<forall>(tid, p) \<in> set (open_positions s). marked marks p)"
    unfolding u by (auto simp: filter_empty_conv)
  ultimately show ?thesis using h by auto
qed

definition sample_breakdown :: equity_breakdown where
  "sample_breakdown = \<lparr>eq_available_cash = Fin 595, eq_reserved_principal = Fin 300,
     eq_known_unrealized_pnl = Fin 150, eq_unresolved_capital = Fin 200,
     eq_mark_coverage_complete = True, eq_unpriced_trade_ids = {},
     eq_certified_equity = Some (Fin 1045), eq_equity = Some (Fin 1245)\<rparr>"

lemma sample_equity: "equity sample_state (Some [(''BTC'', VInt 6)]) = Inr sample_breakdown"
  by (simp add: equity_def sample_state_def sample_position_def mark_position_def
      valid_mark_price_def sample_breakdown_def apply_eval round_eval float_eval)

theorem equity_coverage_witness:
  "eq_mark_coverage_complete sample_breakdown \<longleftrightarrow>
     (\<forall>(tid, p) \<in> set (open_positions sample_state). marked [(''BTC'', VInt 6)] p)"
  using equity_coverage [OF sample_equity] by blast

lemma mark_at_entry:
  assumes "position_ok v tid p" "dict_get marks (op_symbol p) = Some (VFloat (op_entry_price p))"
  shows "mark_position marks (Fin 0, u) (tid, p) = Inr (Fin 0, u)"
  using assms
  by (auto simp: mark_position_def position_ok_def valid_mark_price_def gross_pct_def fl_sub_def
      fl_finite_iff finite_derived_def split: side.splits)

lemma marks_at_entry:
  assumes "\<forall>(tid, p) \<in> set ps. position_ok v tid p \<and>
    dict_get marks (op_symbol p) = Some (VFloat (op_entry_price p))"
  shows "foldE (mark_position marks) (Fin 0, []) ps = Inr (Fin 0, [])"
  using assms by (induction ps) (auto simp: mark_at_entry)

lemma fl_add_zero: "fl_double x \<Longrightarrow> fl_add x (Fin 0) = x"
  by (cases x) (simp_all add: fl_double_def is_double_def)

lemma fl_add_finite_left: "fl_finite (fl_add x y) \<Longrightarrow> fl_finite x"
  by (cases x; cases y) simp_all

text \<open>
  Marking every open position at its own entry price shows no unrealized gain and no
  unrealized loss, so the certified equity is the cash plus the reserved principal, unless
  the total with the unresolved capital leaves the range of floats.
\<close>

theorem equity_at_entry_prices:
  assumes "project events = Inr s"
    and "\<forall>(tid, p) \<in> set (open_positions s).
      dict_get marks (op_symbol p) = Some (VFloat (op_entry_price p))"
    and "fl_finite (fl_add (fl_add (available_cash s) (reserved_principal s)) (unresolved_capital s))"
  shows "\<exists>b. equity s (Some marks) = Inr b \<and> eq_known_unrealized_pnl b = Fin 0 \<and>
    eq_mark_coverage_complete b \<and>
    eq_certified_equity b = Some (fl_add (available_cash s) (reserved_principal s))"
proof -
  have "\<exists>v. \<forall>(tid, p) \<in> set (open_positions s). position_ok v tid p"
    using project_state_ok [OF assms(1)] by (auto simp: state_ok_def epoch_known_def)
  then obtain v where "\<forall>(tid, p) \<in> set (open_positions s). position_ok v tid p \<and>
      dict_get marks (op_symbol p) = Some (VFloat (op_entry_price p))"
    using assms(2) by fast
  then have "foldE (mark_position marks) (Fin 0, []) (open_positions s) = Inr (Fin 0, [])"
    by (rule marks_at_entry)
  moreover have "fl_finite (fl_add (available_cash s) (reserved_principal s))"
    using assms(3) by (rule fl_add_finite_left)
  ultimately show ?thesis
    using assms(3) by (simp add: equity_def fl_add_zero finite_derived_def)
qed

theorem equity_at_entry_prices_witness:
  "\<exists>b. equity sample_state (Some [(''BTC'', VFloat (Fin 4))]) = Inr b \<and>
     eq_certified_equity b = Some (fl_add (Fin 595) (Fin 300))"
  using equity_at_entry_prices [OF sample_project, of "[(''BTC'', VFloat (Fin 4))]"]
  by (auto simp: sample_state_def sample_position_def)

section \<open>From the builders through the projection\<close>

text \<open>
  An epoch survives its own birth event. For an active epoch of schema 1 or 2, the event
  built from it projects, as a stream of its own, to a state that holds exactly that epoch
  and its initial capital as cash.
\<close>

theorem epoch_roundtrip:
  assumes "epoch_ok ep" and "pe_status ep = ACTIVE" and "pe_schema_version ep \<in> {1, 2}"
    and "make_epoch_created_event_from_epoch ep eid (VInt 1) did = Inr e"
  shows "\<exists>s. project [e] = Inr s \<and> epoch s = Some ep \<and> paper_epoch_id s = Some (pe_id ep) \<and>
    available_cash s = pe_initial_virtual_capital ep \<and> open_positions s = []"
proof -
  have e: "e = \<lparr>le_event_id = eid, le_paper_epoch_id = pe_id ep, le_sequence = 1,
      le_event_type = EPOCH_CREATED, le_timestamp = pe_created_at ep, le_trade_id = None,
      le_decision_id = did,
      le_payload = [(''initial_virtual_capital'', VFloat (pe_initial_virtual_capital ep)),
        (''code_sha'', VStr (pe_code_sha ep)),
        (''config_snapshot_hash'', VStr (pe_config_snapshot_hash ep))],
      le_schema_version = pe_schema_version ep\<rparr>"
    using assms(1,4)
    by (auto simp: make_epoch_created_event_from_epoch_def make_epoch_created_event_def
        new_ledger_event_def result_simps trade_scoped_event_types_def epoch_ok_def fl_finite_iff)
  obtain q where q: "pe_initial_virtual_capital ep = Fin q" "0 < q"
    using assms(1) by (auto simp: epoch_ok_def fl_finite_iff)
  have new: "new_paper_epoch (pe_id ep) (VFloat (pe_created_at ep)) (VFloat (Fin q)) ACTIVE
      (pe_code_sha ep) (pe_config_snapshot_hash ep) (VInt (pe_schema_version ep)) = Inr ep"
    using new_paper_epoch_rebuild [OF assms(1), of ACTIVE] assms(2) q by (cases ep) simp
  show ?thesis
    using assms(3) q
    by (simp add: e project_def apply_event_def check_event_def apply_epoch_created_def
        get_finite_def payload_get_def new raise_if_def)
qed

theorem epoch_roundtrip_witness:
  "\<exists>e s. make_epoch_created_event_from_epoch sample_epoch ''e1'' (VInt 1) None = Inr e \<and>
     project [e] = Inr s \<and> epoch s = Some sample_epoch"
proof -
  obtain e where e: "make_epoch_created_event_from_epoch sample_epoch ''e1'' (VInt 1) None = Inr e"
    by (auto simp: make_epoch_created_event_from_epoch_def make_epoch_created_event_def
        new_ledger_event_def trade_scoped_event_types_def sample_epoch_def raise_if_def)
  have "epoch_ok sample_epoch" "pe_status sample_epoch = ACTIVE" "pe_schema_version sample_epoch \<in> {1, 2}"
    by (simp_all add: epoch_ok_def sample_epoch_def)
  from epoch_roundtrip [OF this e] e show ?thesis by blast
qed

lemma finite_value_of_built:
  assumes "event_require_finite n v = Inr x" "finite_value k pos nonneg (VFloat x) = Inr y"
  shows "y = x \<and> float_of_number v = Some y"
  using assms
  by (auto simp: event_require_finite_def finite_value_def split: if_splits option.splits)

lemma built_terms:
  assumes "replay_terms_payload ts tp sl timeout recovery = Inr terms"
    and "le_payload e = base @ terms" "le_schema_version e = 2"
    and "set (map fst base) \<inter> {''tp_price'', ''sl_price'', ''timeout_at'', ''recovery_eligible_until''} = {}"
    and "opened_terms e t = Inr (a, b, c, d)"
  shows "a = float_of_number tp \<and> b = float_of_number sl \<and> c = float_of_number timeout \<and>
    d = float_of_number recovery \<and> None \<notin> {a, b, c, d}"
proof -
  from assms(1) obtain x1 x2 x3 x4 where
    x: "event_require_finite ''tp_price'' tp = Inr x1" "event_require_finite ''sl_price'' sl = Inr x2"
      "event_require_finite ''timeout_at'' timeout = Inr x3"
      "event_require_finite ''recovery_eligible_until'' recovery = Inr x4"
    and terms: "terms = [(''tp_price'', VFloat x1), (''sl_price'', VFloat x2),
            (''timeout_at'', VFloat x3), (''recovery_eligible_until'', VFloat x4)]"
    unfolding replay_terms_payload_def by (auto simp: result_simps)
  have get: "dict_get (le_payload e) ''tp_price'' = Some (VFloat x1)"
    "dict_get (le_payload e) ''sl_price'' = Some (VFloat x2)"
    "dict_get (le_payload e) ''timeout_at'' = Some (VFloat x3)"
    "dict_get (le_payload e) ''recovery_eligible_until'' = Some (VFloat x4)"
    using assms(4) by (auto simp: assms(2) terms map_add_def split: option.splits
        dest: dict_get_Some_key)
  from assms(5) obtain y1 y2 y3 y4 where
    y: "finite_value ''tp_price'' True False (VFloat x1) = Inr y1"
      "finite_value ''sl_price'' True False (VFloat x2) = Inr y2"
      "finite_value ''timeout_at'' False False (VFloat x3) = Inr y3"
      "finite_value ''recovery_eligible_until'' False False (VFloat x4) = Inr y4"
      "(a, b, c, d) = (Some y1, Some y2, Some y3, Some y4)"
    using assms(3) unfolding opened_terms_def
    by (auto simp: get_finite_def payload_get_def get result_simps)
  from x(1,2,3,4) y show ?thesis
    using finite_value_of_built [OF x(1) y(1)] finite_value_of_built [OF x(2) y(2)]
      finite_value_of_built [OF x(3) y(3)] finite_value_of_built [OF x(4) y(4)] by simp
qed

lemma side_of_value: "side_of_payload (VStr (side_value sd)) = Inr sd'\<longleftrightarrow> sd' = sd"
  by (cases sd) auto

text \<open>
  A version 2 open event built by the library, once the ledger takes it, leaves a position
  that a restart can rebuild without guessing: the side is the normalized side, and the take
  profit, stop loss, timeout and recovery deadline are exactly the numbers the caller gave.
\<close>

theorem opened_event_roundtrip:
  assumes "make_position_opened_event eid ep seq ts (Some tid) symbol sd amount price fee did
      (VInt 2) tp sl timeout recovery = Inr e"
    and "apply_event s e = Inr s'"
  shows "\<exists>p. dict_get (open_positions s') tid = Some p \<and> replay_complete p \<and>
    op_trade_id p = tid \<and> normalize_side sd = Inr (op_side p) \<and> op_symbol p = py_str symbol \<and>
    op_tp_price p = float_of_number tp \<and> op_sl_price p = float_of_number sl \<and>
    op_timeout_at p = float_of_number timeout \<and>
    op_recovery_until p = float_of_number recovery"
proof -
  from assms(1) obtain canonical terms where side: "normalize_side sd = Inr canonical"
    and terms: "replay_terms_payload ts tp sl timeout recovery = Inr terms"
    and e: "le_event_type e = POSITION_OPENED" "le_trade_id e = Some tid" "le_schema_version e = 2"
      "le_payload e = [(''symbol'', symbol), (''side'', VStr (side_value canonical)),
         (''principal'', amount), (''entry_price'', price), (''entry_fee'', fee)] @ terms"
    by (auto simp: make_position_opened_event_def new_ledger_event_def result_simps Let_def
        split: if_splits)
  obtain seen where "apply_position_opened s e seen = Inr s'"
    using assms(2) e(1) by (elim applied_event) auto
  then obtain sd' am pr fe t a b c d where
    sd': "side_of_payload (VStr (side_value canonical)) = Inr sd'" and
    t: "opened_terms e t = Inr (a, b, c, d)" and
    p: "dict_get (open_positions s') tid = Some
      \<lparr>op_trade_id = tid, op_symbol = py_str symbol, op_side = sd', op_principal = am,
       op_entry_price = pr, op_entry_fee = fe, op_opened_sequence = le_sequence e,
       op_opened_at = t, op_tp_price = a, op_sl_price = b, op_timeout_at = c,
       op_recovery_until = d\<rparr>"
    unfolding apply_position_opened_def e(2)
    by (auto simp: result_simps payload_get_def e(4) simp del: side_of_payload.simps)
  have "a = float_of_number tp \<and> b = float_of_number sl \<and> c = float_of_number timeout \<and>
      d = float_of_number recovery \<and> None \<notin> {a, b, c, d}"
    by (rule built_terms [OF terms e(4,3) _ t]) simp
  moreover have "sd' = canonical" using sd' side_of_value by blast
  ultimately show ?thesis using p side by (auto simp: replay_complete_def)
qed

definition sample_state2 :: portfolio_state where
  "sample_state2 = empty_state\<lparr>paper_epoch_id := Some ''E'',
     epoch := Some (sample_epoch\<lparr>pe_schema_version := 2\<rparr>), available_cash := Fin 1000,
     last_sequence := 1\<rparr>"

theorem opened_event_roundtrip_witness:
  "\<exists>e s' p. apply_event sample_state2 e = Inr s' \<and> dict_get (open_positions s') ''A'' = Some p \<and>
     op_side p = SHORT \<and> op_timeout_at p = Some (Fin 10)"
proof -
  let ?make = "make_position_opened_event ''e2'' ''E'' (VInt 2) (VInt 3) (Some ''A'') (VStr ''BTC'')
      (VStr '' sell'') (VInt 100) (VInt 4) (VInt 1) None (VInt 2) (VInt 3) (VInt 5) (VInt 10) (VInt 20)"
  have side: "normalize_side (VStr '' sell'') = Inr SHORT"
    by (simp add: side_aliases_def py_strip_def is_space_def py_upper_def upper_char_def
        Let_def char_of_def bit_0)
  then obtain e where e: "?make = Inr e"
    by (simp add: make_position_opened_event_def new_ledger_event_def trade_scoped_event_types_def
        replay_terms_payload_def event_require_finite_def raise_if_def del: normalize_side.simps)
  moreover obtain s' where s': "apply_event sample_state2 e = Inr s'"
    using e [symmetric] side
    by (simp add: make_position_opened_event_def new_ledger_event_def trade_scoped_event_types_def
        replay_terms_payload_def event_require_finite_def apply_eval sample_state2_def empty_state_def
        sample_epoch_def del: normalize_side.simps)
  from opened_event_roundtrip [OF e s'] side obtain p where
    "dict_get (open_positions s') ''A'' = Some p" "op_side p = SHORT" "op_timeout_at p = Some (Fin 10)"
    by auto
  with s' show ?thesis by blast
qed

text \<open>
  The projection does not always fail with one of its own replay errors: the library
  builds an epoch event with an empty code identity without complaint, and replaying that
  event raises the \<^verbatim>\<open>ValueError\<close> of the epoch constructor.
\<close>

theorem project_foreign_error:
  "\<exists>e. make_epoch_created_event ''e1'' ''E'' (VInt 1) (VInt 1) (VInt 1000) (VStr []) (VStr ''h'')
         None (VInt 1) = Inr e \<and>
     project [e] = Inl (EpochValueError EmptyCodeSha) \<and>
     \<not> is_replay_error (EpochValueError EmptyCodeSha)"
  by (simp add: make_epoch_created_event_def new_ledger_event_def trade_scoped_event_types_def
      event_require_finite_def project_def empty_state_def new_paper_epoch_def require_finite_def
      apply_eval)

end
