(* ===== verification/LedgerConservation.thy ===== *)
theory LedgerConservation
  imports PortfolioAccounting
begin

text \<open>
  How far the money of the paper portfolio can drift from exact accounting. In exact
  arithmetic the cash, the reserved and the unresolved capital always add up to the initial
  capital plus the realized result, less the entry fees of the positions that are not yet
  closed. The ledger computes in doubles; \<open>drift\<close> is the difference, and it grows by at most
  seven half units in the last place per event.
\<close>

section \<open>Rounding within a range\<close>

fun fl_val :: "pyfloat \<Rightarrow> rat" where
  "fl_val (Fin q) = q"
| "fl_val _ = 0"

lemma ulp_exp_le: "0 < q \<Longrightarrow> q \<le> pow2 k \<Longrightarrow> - 1022 \<le> k \<Longrightarrow> ulp_exp q \<le> k - 52"
proof -
  assume q: "0 < q" "q \<le> pow2 k" "- 1022 \<le> k"
  have "pow2 (ilog2 q) \<le> pow2 k" using ilog2_spec [OF q(1)] q(2) by linarith
  then have "ilog2 q \<le> k" using pow2_less [of k "ilog2 q"] by linarith
  with q(3) show ?thesis by (simp add: ulp_exp_def)
qed

lemma round_close:
  assumes "round_double x = Fin r" and "\<bar>x\<bar> \<le> pow2 k" and "- 1022 \<le> k"
  shows "\<bar>r - x\<bar> \<le> pow2 (k - 53)"
proof (cases "x = 0")
  case True
  with assms(1) show ?thesis by simp
next
  case False
  have "\<bar>r - x\<bar> \<le> pow2 (ulp_exp \<bar>x\<bar>) / 2" using round_double_error [OF assms(1) False] .
  also have "pow2 (ulp_exp \<bar>x\<bar>) \<le> pow2 (k - 52)"
    using ulp_exp_le [of "\<bar>x\<bar>" k] False assms by (intro pow2_mono) simp
  finally show ?thesis using pow2_pred [of "k - 52"] by simp
qed

lemma round_within:
  assumes "round_double x = Fin r" and "\<bar>x\<bar> \<le> pow2 k" and "- 1022 \<le> k"
  shows "\<bar>r\<bar> \<le> pow2 k"
proof (cases "x = 0")
  case True
  with assms(1) show ?thesis by simp
next
  case False
  have "ulp_exp \<bar>x\<bar> \<le> k" using ulp_exp_le [of "\<bar>x\<bar>" k] False assms by simp
  then have "round_mag \<bar>x\<bar> \<le> pow2 k" using assms(2) by (rule round_mag_le_pow2)
  moreover have "0 \<le> round_mag \<bar>x\<bar>" using False by (intro round_mag_nonneg) simp
  ultimately show ?thesis
    using assms(1) False by (auto simp: round_double_Fin_iff sgn_if abs_mult)
qed

text \<open>One addition of bounded amounts: the error and the size of the result.\<close>

lemma add_close:
  assumes "fl_finite (fl_add x y)" "fl_finite x" "fl_finite y"
    and "\<bar>fl_val x\<bar> \<le> pow2 j" "\<bar>fl_val y\<bar> \<le> pow2 j" "j + 1 \<le> k" "- 1022 \<le> j"
  shows "\<bar>fl_val (fl_add x y) - (fl_val x + fl_val y)\<bar> \<le> pow2 (k - 53)"
    and "\<bar>fl_val (fl_add x y)\<bar> \<le> pow2 (j + 1)"
proof -
  obtain a b r where eqs: "x = Fin a" "y = Fin b" "round_double (a + b) = Fin r"
    using assms(1-3) by (auto simp: fl_finite_iff)
  have ab: "\<bar>a + b\<bar> \<le> pow2 (j + 1)"
    using assms(4,5) eqs pow2_Suc [of j] abs_triangle_ineq [of a b] by simp
  then have "\<bar>a + b\<bar> \<le> pow2 k" using pow2_mono [OF assms(6)] by linarith
  with round_close [OF eqs(3), of k] assms(6,7) eqs
  show "\<bar>fl_val (fl_add x y) - (fl_val x + fl_val y)\<bar> \<le> pow2 (k - 53)" by simp
  from round_within [OF eqs(3) ab] assms(7) eqs
  show "\<bar>fl_val (fl_add x y)\<bar> \<le> pow2 (j + 1)" by simp
qed

lemma fl_val_neg [simp]: "fl_val (fl_neg x) = - fl_val x"
  by (cases x) simp_all

lemma fl_finite_neg [simp]: "fl_finite (fl_neg x) = fl_finite x"
  by (cases x) simp_all

lemma sub_close:
  assumes "fl_finite (fl_sub x y)" "fl_finite x" "fl_finite y"
    and "\<bar>fl_val x\<bar> \<le> pow2 j" "\<bar>fl_val y\<bar> \<le> pow2 j" "j + 1 \<le> k" "- 1022 \<le> j"
  shows "\<bar>fl_val (fl_sub x y) - (fl_val x - fl_val y)\<bar> \<le> pow2 (k - 53)"
    and "\<bar>fl_val (fl_sub x y)\<bar> \<le> pow2 (j + 1)"
  using add_close [of x "fl_neg y" j k] assms by (simp_all add: fl_sub_def)

section \<open>Drift\<close>

definition initial_capital :: "portfolio_state \<Rightarrow> rat" where
  "initial_capital s =
     (case epoch s of None \<Rightarrow> 0 | Some ep \<Rightarrow> fl_val (pe_initial_virtual_capital ep))"

definition drift :: "portfolio_state \<Rightarrow> rat" where
  "drift s =
     fl_val (available_cash s) + fl_val (reserved_principal s) + fl_val (unresolved_capital s)
     + (\<Sum>(_, p) \<leftarrow> open_positions s. fl_val (op_entry_fee p))
     + (\<Sum>(_, u) \<leftarrow> unresolved_positions s. fl_val (up_entry_fee u))
     - (initial_capital s + fl_val (realized_pnl s))"

text \<open>
  The amounts a step works with are at most \<open>2 ^ (k - 3)\<close>: the money of the state, the
  principal and fee of each open position, and, for a close, the exit fee and the gain.
\<close>

definition in_range :: "int \<Rightarrow> pyfloat \<Rightarrow> bool" where
  "in_range k x \<longleftrightarrow> \<bar>fl_val x\<bar> \<le> pow2 (k - 3)"

definition state_within :: "int \<Rightarrow> portfolio_state \<Rightarrow> bool" where
  "state_within k s \<longleftrightarrow>
     in_range k (available_cash s) \<and> in_range k (reserved_principal s) \<and>
     in_range k (unresolved_capital s) \<and> in_range k (realized_pnl s) \<and>
     (\<forall>(_, p) \<in> set (open_positions s). in_range k (op_principal p) \<and> in_range k (op_entry_fee p))"

definition close_within :: "int \<Rightarrow> portfolio_state \<Rightarrow> ledger_event \<Rightarrow> bool" where
  "close_within k s e \<longleftrightarrow>
     (case get_finite e ''exit_fee'' False True of Inl _ \<Rightarrow> True | Inr fee \<Rightarrow> in_range k fee) \<and>
     (case le_trade_id e of
        None \<Rightarrow> True
      | Some tid \<Rightarrow>
          (case (dict_get (open_positions s) tid, get_finite e ''exit_price'' True False) of
             (Some p, Inr price) \<Rightarrow>
               (case gross_pct (op_side p) (op_entry_price p) price of
                  None \<Rightarrow> True
                | Some pct \<Rightarrow> in_range k (fl_mul (op_principal p) pct))
           | _ \<Rightarrow> True))"

fun run_within :: "int \<Rightarrow> portfolio_state \<Rightarrow> ledger_event list \<Rightarrow> bool" where
  "run_within k s [] = state_within k s"
| "run_within k s (e # es) =
     (state_within k s \<and> (le_event_type e = POSITION_CLOSED \<longrightarrow> close_within k s e) \<and>
      (case apply_event s e of Inl _ \<Rightarrow> True | Inr s' \<Rightarrow> run_within k s' es))"

lemma run_within_head: "run_within k s es \<Longrightarrow> state_within k s"
  by (cases es) simp_all

abbreviation unit_error :: "int \<Rightarrow> rat" where
  "unit_error k \<equiv> pow2 (k - 53)"

lemma pow2_chain: "pow2 (k - 3 + 1) = 2 * pow2 (k - 3)" "pow2 (k - 3) \<le> pow2 (k - 3 + 1)"
  "pow2 (k - 3) \<le> pow2 (k - 3 + 1 + 1)"
  using pow2_Suc [of "k - 3"] pow2_Suc [of "k - 3 + 1"] pow2_pos [of "k - 3"] by linarith+

lemma opened_drift:
  assumes k: "0 \<le> k" and step: "apply_position_opened s e seen = Inr s'"
    and ok: "money_ok s" and bounds: "state_within k s" "state_within k s'"
  shows "\<bar>drift s' - drift s\<bar> \<le> 7 * unit_error k"
  using step
proof (rule applied_opened)
  fix tid p cash
  assume h: "tid \<notin> set (dict_keys (open_positions s))" "opened_position e tid p"
    "cash = fl_sub (fl_sub (available_cash s) (op_principal p)) (op_entry_fee p)"
    "fl_finite cash" "fl_finite (fl_add (reserved_principal s) (op_principal p))"
    "s' = s\<lparr>available_cash := cash,
            reserved_principal := fl_add (reserved_principal s) (op_principal p),
            fees_paid := fl_add (fees_paid s) (op_entry_fee p),
            open_positions := dict_set (open_positions s) tid p,
            last_sequence := le_sequence e, seen_event_ids := seen\<rparr>"
  let ?c = "available_cash s" and ?p = "op_principal p" and ?f = "op_entry_fee p"
    and ?r = "reserved_principal s"
  have "(tid, p) \<in> set (open_positions s')"
    using h(1,6) by (simp add: dict_set_fresh)
  then have w: "in_range k ?c" "in_range k ?r" "in_range k ?p" "in_range k ?f"
    using bounds by (auto simp: state_within_def)
  have fin: "fl_finite ?c" "fl_finite ?r" "fl_finite ?p" "fl_finite ?f"
    using ok h(2) by (simp_all add: money_ok_def opened_position_def position_ok_def)
  have mid: "fl_finite (fl_sub ?c ?p)"
    using h(3,4) unfolding fl_sub_def by (blast intro: fl_add_finite_left)
  note w = w [unfolded in_range_def]
  have a: "\<bar>fl_val (fl_sub ?c ?p) - (fl_val ?c - fl_val ?p)\<bar> \<le> unit_error k"
    "\<bar>fl_val (fl_sub ?c ?p)\<bar> \<le> pow2 (k - 3 + 1)"
    using sub_close [OF mid fin(1,3) w(1,3), of k] k by simp_all
  have b: "\<bar>fl_val cash - (fl_val (fl_sub ?c ?p) - fl_val ?f)\<bar> \<le> unit_error k"
    using sub_close(1) [OF h(4) [unfolded h(3)] mid fin(4) a(2), of k] w(4) pow2_chain [of k] k
    unfolding h(3) by simp
  have c: "\<bar>fl_val (fl_add ?r ?p) - (fl_val ?r + fl_val ?p)\<bar> \<le> unit_error k"
    using add_close(1) [OF h(5) fin(2,3) w(2,3), of k] k by simp
  have "drift s' - drift s = (fl_val cash - (fl_val (fl_sub ?c ?p) - fl_val ?f))
      + (fl_val (fl_sub ?c ?p) - (fl_val ?c - fl_val ?p))
      + (fl_val (fl_add ?r ?p) - (fl_val ?r + fl_val ?p))"
    by (simp add: drift_def initial_capital_def h(6) dict_set_fresh [OF h(1)])
  then show ?thesis using a(1) b c pow2_pos [of "k - 53"] by linarith
qed

lemma closed_drift:
  assumes k: "0 \<le> k" and step: "apply_position_closed s e seen = Inr s'"
    and ok: "money_ok s" "books_ok s" "epoch_known s"
    and bounds: "state_within k s" "close_within k s e"
  shows "\<bar>drift s' - drift s\<bar> \<le> 7 * unit_error k"
  using step
proof (rule applied_closed)
  fix tid p price fee pct gain trade cash
  assume tid: "le_trade_id e = Some tid" "dict_get (open_positions s) tid = Some p"
    and get: "get_finite e ''exit_price'' True False = Inr price"
      "get_finite e ''exit_fee'' False True = Inr fee"
      "gross_pct (op_side p) (op_entry_price p) price = Some pct"
    and gain: "gain = fl_mul (op_principal p) pct"
    and trade: "trade = fl_sub (fl_sub gain (op_entry_fee p)) fee"
    and cash: "cash = fl_sub (fl_add (fl_add (available_cash s) (op_principal p)) gain) fee"
    and f: "fl_finite gain" "fl_finite trade" "fl_finite cash"
      "fl_finite (fl_sub (reserved_principal s) (op_principal p))"
      "fl_finite (fl_add (realized_pnl s) trade)"
    and s': "s' = s\<lparr>available_cash := cash,
            reserved_principal := fl_sub (reserved_principal s) (op_principal p),
            fees_paid := fl_add (fees_paid s) fee,
            realized_pnl := fl_add (realized_pnl s) trade,
            open_positions := dict_del (open_positions s) tid,
            closed_trade_ids := insert tid (closed_trade_ids s),
            last_sequence := le_sequence e, seen_event_ids := seen\<rparr>"
  let ?c = "available_cash s" and ?p = "op_principal p" and ?ef = "op_entry_fee p"
    and ?r = "reserved_principal s" and ?z = "realized_pnl s"
  have mem: "(tid, p) \<in> set (open_positions s)" using tid(2) by (rule map_of_SomeD)
  have w: "\<bar>fl_val ?c\<bar> \<le> pow2 (k - 3)" "\<bar>fl_val ?r\<bar> \<le> pow2 (k - 3)"
    "\<bar>fl_val ?z\<bar> \<le> pow2 (k - 3)" "\<bar>fl_val ?p\<bar> \<le> pow2 (k - 3)"
    "\<bar>fl_val ?ef\<bar> \<le> pow2 (k - 3)" "\<bar>fl_val fee\<bar> \<le> pow2 (k - 3)" "\<bar>fl_val gain\<bar> \<le> pow2 (k - 3)"
    using bounds mem tid get gain by (auto simp: state_within_def close_within_def in_range_def)
  have fin: "fl_finite ?c" "fl_finite ?r" "fl_finite ?z" "fl_finite ?p" "fl_finite ?ef" "fl_finite fee"
    using ok mem get_finite_Inr [OF get(2)]
    by (auto simp: money_ok_def epoch_known_def position_ok_def)
  have m: "fl_finite (fl_sub gain ?ef)" "fl_finite (fl_add (fl_add ?c ?p) gain)"
    "fl_finite (fl_add ?c ?p)"
    using f(2,3) unfolding trade cash fl_sub_def by (blast intro: fl_add_finite_left)+
  note chain = pow2_chain [of k]
  have t1: "\<bar>fl_val (fl_sub gain ?ef) - (fl_val gain - fl_val ?ef)\<bar> \<le> unit_error k"
    "\<bar>fl_val (fl_sub gain ?ef)\<bar> \<le> pow2 (k - 3 + 1)"
    using sub_close [OF m(1) f(1) fin(5) w(7,5), of k] k by simp_all
  have t2: "\<bar>fl_val trade - (fl_val (fl_sub gain ?ef) - fl_val fee)\<bar> \<le> unit_error k"
    "\<bar>fl_val trade\<bar> \<le> pow2 (k - 3 + 1 + 1)"
    using sub_close [OF f(2) [unfolded trade] m(1) fin(6) t1(2), of k] w(6) chain k
    unfolding trade by simp_all
  have t3: "\<bar>fl_val (fl_add ?z trade) - (fl_val ?z + fl_val trade)\<bar> \<le> unit_error k"
    using add_close(1) [OF f(5) fin(3) f(2) _ t2(2), of k] w(3) chain k by simp
  have c1: "\<bar>fl_val (fl_add ?c ?p) - (fl_val ?c + fl_val ?p)\<bar> \<le> unit_error k"
    "\<bar>fl_val (fl_add ?c ?p)\<bar> \<le> pow2 (k - 3 + 1)"
    using add_close [OF m(3) fin(1,4) w(1,4), of k] k by simp_all
  have c2: "\<bar>fl_val (fl_add (fl_add ?c ?p) gain) - (fl_val (fl_add ?c ?p) + fl_val gain)\<bar> \<le> unit_error k"
    "\<bar>fl_val (fl_add (fl_add ?c ?p) gain)\<bar> \<le> pow2 (k - 3 + 1 + 1)"
    using add_close [OF m(2,3) f(1) c1(2), of k] w(7) chain k by simp_all
  have c3: "\<bar>fl_val cash - (fl_val (fl_add (fl_add ?c ?p) gain) - fl_val fee)\<bar> \<le> unit_error k"
    using sub_close(1) [OF f(3) [unfolded cash] m(2) fin(6) c2(2), of k] w(6) chain k
    unfolding cash by simp
  have r1: "\<bar>fl_val (fl_sub ?r ?p) - (fl_val ?r - fl_val ?p)\<bar> \<le> unit_error k"
    using sub_close(1) [OF f(4) fin(2,4) w(2,4), of k] k by simp
  have "(\<Sum>(_, p) \<leftarrow> dict_del (open_positions s) tid. fl_val (op_entry_fee p)) =
      (\<Sum>(_, p) \<leftarrow> open_positions s. fl_val (op_entry_fee p)) - fl_val ?ef"
    using ok(2) tid(2) by (intro sum_list_dict_del) (simp_all add: books_ok_def)
  then have "drift s' - drift s =
      (fl_val cash - (fl_val (fl_add (fl_add ?c ?p) gain) - fl_val fee))
    + (fl_val (fl_add (fl_add ?c ?p) gain) - (fl_val (fl_add ?c ?p) + fl_val gain))
    + (fl_val (fl_add ?c ?p) - (fl_val ?c + fl_val ?p))
    + (fl_val (fl_sub ?r ?p) - (fl_val ?r - fl_val ?p))
    - (fl_val (fl_add ?z trade) - (fl_val ?z + fl_val trade))
    - (fl_val trade - (fl_val (fl_sub gain ?ef) - fl_val fee))
    - (fl_val (fl_sub gain ?ef) - (fl_val gain - fl_val ?ef))"
    by (simp add: drift_def initial_capital_def s')
  then show ?thesis using t1(1) t2(1) t3 c1(1) c2(1) c3 r1 by linarith
qed

lemma unresolved_drift:
  assumes k: "0 \<le> k" and step: "apply_position_unresolved s e seen = Inr s'"
    and ok: "money_ok s" "books_ok s" "epoch_known s" and bounds: "state_within k s"
  shows "\<bar>drift s' - drift s\<bar> \<le> 7 * unit_error k"
  using step
proof (rule applied_unresolved)
  fix tid p u
  assume h: "tid \<notin> set (dict_keys (unresolved_positions s))"
    "dict_get (open_positions s) tid = Some p" "up_entry_fee u = op_entry_fee p"
    "fl_finite (fl_sub (reserved_principal s) (op_principal p))"
    "fl_finite (fl_add (unresolved_capital s) (op_principal p))"
    "s' = s\<lparr>reserved_principal := fl_sub (reserved_principal s) (op_principal p),
            unresolved_capital := fl_add (unresolved_capital s) (op_principal p),
            open_positions := dict_del (open_positions s) tid,
            unresolved_positions := dict_set (unresolved_positions s) tid u,
            unresolved_count_total := unresolved_count_total s + 1,
            last_sequence := le_sequence e, seen_event_ids := seen\<rparr>"
  let ?p = "op_principal p" and ?r = "reserved_principal s" and ?u = "unresolved_capital s"
  have mem: "(tid, p) \<in> set (open_positions s)" using h(2) by (rule map_of_SomeD)
  have w: "\<bar>fl_val ?r\<bar> \<le> pow2 (k - 3)" "\<bar>fl_val ?u\<bar> \<le> pow2 (k - 3)" "\<bar>fl_val ?p\<bar> \<le> pow2 (k - 3)"
    using bounds mem by (auto simp: state_within_def in_range_def)
  have fin: "fl_finite ?r" "fl_finite ?u" "fl_finite ?p"
    using ok mem by (auto simp: money_ok_def epoch_known_def position_ok_def)
  have a: "\<bar>fl_val (fl_sub ?r ?p) - (fl_val ?r - fl_val ?p)\<bar> \<le> unit_error k"
    using sub_close(1) [OF h(4) fin(1,3) w(1,3), of k] k by simp
  have b: "\<bar>fl_val (fl_add ?u ?p) - (fl_val ?u + fl_val ?p)\<bar> \<le> unit_error k"
    using add_close(1) [OF h(5) fin(2,3) w(2,3), of k] k by simp
  have "(\<Sum>(_, p) \<leftarrow> dict_del (open_positions s) tid. fl_val (op_entry_fee p)) =
      (\<Sum>(_, p) \<leftarrow> open_positions s. fl_val (op_entry_fee p)) - fl_val (op_entry_fee p)"
    using ok(2) h(2) by (intro sum_list_dict_del) (simp_all add: books_ok_def)
  then have "drift s' - drift s = (fl_val (fl_sub ?r ?p) - (fl_val ?r - fl_val ?p))
      + (fl_val (fl_add ?u ?p) - (fl_val ?u + fl_val ?p))"
    using h(3) by (simp add: drift_def initial_capital_def h(6) dict_set_fresh [OF h(1)])
  then show ?thesis using a b pow2_pos [of "k - 53"] by linarith
qed

lemma event_drift:
  assumes k: "0 \<le> k" and ok: "state_ok s" and step: "apply_event s e = Inr s'"
    and bounds: "state_within k s" "state_within k s'"
    and close: "le_event_type e = POSITION_CLOSED \<longrightarrow> close_within k s e"
  shows "\<bar>drift s' - drift s\<bar> \<le> 7 * unit_error k"
  using step
proof (rule applied_event)
  fix seen
  assume chk: "check_event s e = Inr ()"
    and do: "le_event_type e = EPOCH_CREATED \<and> apply_epoch_created s e seen = Inr s' \<or>
     le_event_type e = POSITION_OPENED \<and> apply_position_opened s e seen = Inr s' \<or>
     le_event_type e = POSITION_CLOSED \<and> apply_position_closed s e seen = Inr s' \<or>
     le_event_type e = POSITION_UNRESOLVED \<and> apply_position_unresolved s e seen = Inr s' \<or>
     le_event_type e = RECOVERY_COMPLETED \<and> apply_recovery_completed s e seen = Inr s'"
  show ?thesis
  proof (cases "paper_epoch_id s")
    case None
    then have "s = empty_state" "apply_epoch_created s e seen = Inr s'"
      using state_ok_unknown [OF ok] checked_event(4) [OF chk] do by auto
    then have "drift s = 0" "drift s' = 0"
      by (auto simp: drift_def initial_capital_def elim!: applied_created)
    then show ?thesis by simp
  next
    case (Some i)
    then have good: "money_ok s" "books_ok s" "epoch_known s"
      using state_ok_known [OF ok] by simp_all
    have "drift s' = drift s" if "apply_recovery_completed s e seen = Inr s'"
      using that by (rule applied_recovery) (simp add: drift_def initial_capital_def)
    moreover have "le_event_type e \<noteq> EPOCH_CREATED" using checked_event(4) [OF chk] Some by auto
    ultimately show ?thesis
      using do opened_drift [OF k _ good(1) bounds] closed_drift [OF k _ good bounds(1)]
        unresolved_drift [OF k _ good bounds(1)] close by fastforce
  qed
qed

lemma replay_drift:
  assumes "0 \<le> k"
  shows "state_ok s \<Longrightarrow> foldE apply_event s es = Inr s' \<Longrightarrow> run_within k s es \<Longrightarrow>
    \<bar>drift s' - drift s\<bar> \<le> of_nat (length es) * (7 * unit_error k)"
proof (induction es arbitrary: s)
  case Nil
  then show ?case by simp
next
  case (Cons e es)
  from Cons.prems(2) obtain t where t: "apply_event s e = Inr t" "foldE apply_event t es = Inr s'"
    by (auto simp: result_simps)
  have within: "state_within k s" "run_within k t es"
    "le_event_type e = POSITION_CLOSED \<longrightarrow> close_within k s e"
    using Cons.prems(3) t(1) by simp_all
  have "\<bar>drift t - drift s\<bar> \<le> 7 * unit_error k"
    using event_drift [OF assms Cons.prems(1) t(1) within(1) run_within_head [OF within(2)] within(3)] .
  moreover have "\<bar>drift s' - drift t\<bar> \<le> of_nat (length es) * (7 * unit_error k)"
    using Cons.IH [OF ppl.step_keeps [OF Cons.prems(1) t(1)] t(2) within(2)] .
  ultimately show ?case by (simp add: algebra_simps)
qed

text \<open>
  C7: Conservation of money. When no amount of the run exceeds \<open>2 ^ (k - 3)\<close>, the cash, the
  reserved and the unresolved capital together differ from the initial capital plus the
  realized result, less the entry fees not yet settled, by at most seven rounding errors of
  \<open>2 ^ (k - 53)\<close> per event. With amounts up to a billion that is less than a hundred-thousandth
  of a unit per event.
\<close>

theorem conservation:
  assumes "project events = Inr s" and "run_within k empty_state events" and "0 \<le> k"
  shows "\<bar>fl_val (available_cash s) + fl_val (reserved_principal s) + fl_val (unresolved_capital s)
      + (\<Sum>(_, p) \<leftarrow> open_positions s. fl_val (op_entry_fee p))
      + (\<Sum>(_, u) \<leftarrow> unresolved_positions s. fl_val (up_entry_fee u))
      - (initial_capital s + fl_val (realized_pnl s))\<bar>
    \<le> of_nat (length events) * (7 * pow2 (k - 53))"
proof -
  have "drift empty_state = 0" by (simp add: drift_def initial_capital_def)
  with replay_drift [OF assms(3) state_ok_empty assms(1) [unfolded project_def] assms(2)]
  show ?thesis unfolding drift_def by simp
qed

lemma sample_within: "run_within 13 empty_state sample_stream"
  by (simp add: sample_stream_def sample_open_def sample_event_def empty_state_def
      apply_eval new_paper_epoch_def require_finite_def state_within_def in_range_def
      close_within_def pow2_def)

theorem conservation_witness:
  "\<bar>fl_val (available_cash sample_state) + fl_val (reserved_principal sample_state)
      + fl_val (unresolved_capital sample_state) + 1 + 1
      - (1000 + fl_val (realized_pnl sample_state))\<bar> \<le> 42 * pow2 (- 40)"
  using conservation [OF sample_project sample_within]
  by (simp add: sample_state_def initial_capital_def sample_epoch_def sample_position_def
      sample_stream_def)

end
