(* ===== verification/PplRecovery.thy ===== *)
theory PplRecovery
  imports PortfolioAccounting
begin

text \<open>
  What a restart does with the projected portfolio: the classification of open positions
  (\<^verbatim>\<open>paper_trading/ppl_recovery.py\<close>), the read-only readiness gate
  (\<^verbatim>\<open>paper_trading/ppl_authority_gate.py\<close>), the scientific-capital view
  (\<^verbatim>\<open>paper_trading/ppl_capital.py\<close>) and the selector of the lifecycle authority
  (\<^verbatim>\<open>paper_trading/paper_authority.py\<close>). The durable store is the argument \<open>load\<close>: it maps a
  store dir and an epoch to the name of the exception it raises or to the stored events.
\<close>

section \<open>Restart planning\<close>

datatype recovery_error =
    NowNotReal
  | NowTooLarge
  | NowNotFinite
  | NoEpoch
  | ReplayIncompletePosition string
  | TermsAssertion

datatype restart_disposition = RESTORE_MONITORING | RESTORE_TIMEOUT_DUE | UNRESOLVED_REQUIRED

record restart_position_plan =
  rp_trade_id :: string
  rp_disposition :: restart_disposition

record restart_recovery_plan =
  rr_paper_epoch_id :: string
  rr_positions :: "restart_position_plan list"

definition disposition_at :: "pyfloat \<Rightarrow> pyfloat \<Rightarrow> pyfloat \<Rightarrow> restart_disposition" where
  "disposition_at timeout recovery now =
     (if fl_lt recovery now then UNRESOLVED_REQUIRED
      else if fl_le timeout now then RESTORE_TIMEOUT_DUE
      else RESTORE_MONITORING)"

definition plan_position ::
  "portfolio_state \<Rightarrow> paper_epoch \<Rightarrow> pyfloat \<Rightarrow> restart_position_plan list \<Rightarrow> string
     \<Rightarrow> recovery_error + restart_position_plan list" where
  "plan_position s ep now plans tid =
     bindE (or_raise TermsAssertion (dict_get (open_positions s) tid)) (\<lambda>p.
     bindE (raise_if (\<not> replay_complete p \<or> pe_schema_version ep \<noteq> 2)
              (ReplayIncompletePosition tid)) (\<lambda>_.
     bindE (or_raise TermsAssertion (op_timeout_at p)) (\<lambda>timeout.
     bindE (or_raise TermsAssertion (op_recovery_until p)) (\<lambda>recovery.
       Inr (plans @ [\<lparr>rp_trade_id = tid,
                      rp_disposition = disposition_at timeout recovery now\<rparr>])))))"

definition plan_restart_recovery ::
  "portfolio_state \<Rightarrow> pyval \<Rightarrow> recovery_error + restart_recovery_plan" where
  "plan_restart_recovery s now =
     bindE (raise_if (\<not> is_number now) NowNotReal) (\<lambda>_.
     bindE (or_raise NowTooLarge (float_of_number now)) (\<lambda>now_value.
     bindE (raise_if (\<not> fl_finite now_value) NowNotFinite) (\<lambda>_.
     bindE (raise_if (\<not> truthy_str (paper_epoch_id s)) NoEpoch) (\<lambda>_.
     bindE (or_raise NoEpoch (epoch s)) (\<lambda>ep.
     bindE (foldE (plan_position s ep now_value) [] (sort (dict_keys (open_positions s)))) (\<lambda>plans.
       Inr \<lparr>rr_paper_epoch_id = the (paper_epoch_id s), rr_positions = plans\<rparr>))))))"

section \<open>The readiness gate\<close>

record dataset_report =
  dr_ready_for_mutation :: bool
  dr_paper_epoch_id :: string
  dr_reason :: string
  dr_open_positions :: nat
  dr_unresolved_positions :: nat

fun exception_name :: "replay_error \<Rightarrow> string" where
  "exception_name (DuplicateEventError _) = ''DuplicateEventError''"
| "exception_name SequenceGapError = ''SequenceGapError''"
| "exception_name SequenceRegressionError = ''SequenceRegressionError''"
| "exception_name EpochMismatchError = ''EpochMismatchError''"
| "exception_name DuplicateOpenError = ''DuplicateOpenError''"
| "exception_name CloseWithoutOpenError = ''CloseWithoutOpenError''"
| "exception_name DoubleCloseError = ''DoubleCloseError''"
| "exception_name (IllegalTransitionError _) = ''IllegalTransitionError''"
| "exception_name NegativeCashError = ''NegativeCashError''"
| "exception_name (NonFiniteValueError _) = ''NonFiniteValueError''"
| "exception_name InvalidSideError = ''InvalidSideError''"
| "exception_name (MissingKey _) = ''KeyError''"
| "exception_name (NumberTooLarge _) = ''OverflowError''"
| "exception_name (EpochValueError _) = ''ValueError''"
| "exception_name (BadConversion TypeError) = ''TypeError''"
| "exception_name (BadConversion ValueError) = ''ValueError''"
| "exception_name (BadConversion OverflowError) = ''OverflowError''"
| "exception_name DivisionByZero = ''ZeroDivisionError''"
| "exception_name AssertionFailed = ''AssertionError''"

type_synonym store = "string \<Rightarrow> string \<Rightarrow> string + ledger_event list"

text \<open>\<^verbatim>\<open>load_epoch\<close> and \<^verbatim>\<open>project\<close> under one \<^verbatim>\<open>except Exception\<close>: the error is its class name.\<close>

definition load_and_project :: "store \<Rightarrow> string \<Rightarrow> string \<Rightarrow> string + portfolio_state" where
  "load_and_project load dir epoch_id =
     bindE (load dir epoch_id) (\<lambda>events. lift_error exception_name (project events))"

definition validate_ppl_authority_dataset :: "store \<Rightarrow> string \<Rightarrow> string \<Rightarrow> dataset_report" where
  "validate_ppl_authority_dataset load dir epoch_id =
     (let report = (\<lambda>ready i reason m n.
        \<lparr>dr_ready_for_mutation = ready, dr_paper_epoch_id = i, dr_reason = reason,
         dr_open_positions = m, dr_unresolved_positions = n\<rparr>) in
      if dir = [] then report False epoch_id ''STORE_ROOT_MISSING'' 0 0
      else if epoch_id = [] then report False [] ''PAPER_EPOCH_ID_MISSING'' 0 0
      else case load_and_project load dir epoch_id of
        Inl name \<Rightarrow> report False epoch_id (''REPLAY_FAILED:'' @ name) 0 0
      | Inr s \<Rightarrow>
          (case epoch s of
             None \<Rightarrow> report False epoch_id ''EPOCH_MISMATCH'' 0 0
           | Some ep \<Rightarrow>
               let m = length (open_positions s); n = length (unresolved_positions s) in
               if paper_epoch_id s \<noteq> Some epoch_id then report False epoch_id ''EPOCH_MISMATCH'' 0 0
               else if pe_schema_version ep \<noteq> 2
                 then report False epoch_id ''SCHEMA_NOT_REPLAY_COMPLETE'' m n
               else if filter (\<lambda>(_, p). \<not> replay_complete p) (open_positions s) \<noteq> []
                 then report False epoch_id ''OPEN_POSITION_NOT_REPLAY_COMPLETE'' m n
               else if unresolved_positions s \<noteq> [] \<or> unresolved_capital s \<noteq> Fin 0
                 then report False epoch_id ''UNRESOLVED_CAPITAL'' m n
               else report True epoch_id ''READY'' m 0))"

section \<open>Scientific capital\<close>

datatype capital_error =
    StoreRootMissing
  | EpochIdMissing
  | ReplayUnavailable string
  | CapitalEpochMismatch
  | SchemaNotReplayComplete
  | UnresolvedCapital
  | CapitalInvalid pyfloat

definition replay_authoritative_ppl :: "store \<Rightarrow> string \<Rightarrow> string \<Rightarrow> capital_error + portfolio_state" where
  "replay_authoritative_ppl load dir epoch_id =
     bindE (raise_if (dir = []) StoreRootMissing) (\<lambda>_.
     bindE (raise_if (epoch_id = []) EpochIdMissing) (\<lambda>_.
     bindE (lift_error ReplayUnavailable (load_and_project load dir epoch_id)) (\<lambda>s.
     bindE (or_raise CapitalEpochMismatch (epoch s)) (\<lambda>ep.
     bindE (raise_if (paper_epoch_id s \<noteq> Some epoch_id) CapitalEpochMismatch) (\<lambda>_.
     bindE (raise_if (pe_schema_version ep \<noteq> 2) SchemaNotReplayComplete) (\<lambda>_.
       Inr s))))))"

definition initial_virtual_capital_from_ppl ::
  "store \<Rightarrow> string \<Rightarrow> string \<Rightarrow> capital_error + pyfloat" where
  "initial_virtual_capital_from_ppl load dir epoch_id =
     bindE (replay_authoritative_ppl load dir epoch_id) (\<lambda>s.
     let value = (case epoch s of None \<Rightarrow> NaN | Some ep \<Rightarrow> pe_initial_virtual_capital ep) in
     if \<not> fl_finite value \<or> fl_le value (Fin 0) then Inl (CapitalInvalid value) else Inr value)"

definition scientific_capital_from_ppl ::
  "store \<Rightarrow> string \<Rightarrow> string \<Rightarrow> capital_error + pyfloat" where
  "scientific_capital_from_ppl load dir epoch_id =
     bindE (replay_authoritative_ppl load dir epoch_id) (\<lambda>s.
     bindE (raise_if (unresolved_capital s \<noteq> Fin 0 \<or> unresolved_positions s \<noteq> []) UnresolvedCapital) (\<lambda>_.
     let value = (case epoch s of None \<Rightarrow> NaN
                  | Some ep \<Rightarrow> fl_add (pe_initial_virtual_capital ep) (realized_pnl s)) in
     if \<not> fl_finite value \<or> fl_lt value (Fin 0) then Inl (CapitalInvalid value) else Inr value))"

section \<open>The authority selector\<close>

datatype paper_lifecycle_authority = LEGACY_AUTHORITY | PPL_SHADOW | PPL_AUTHORITY

definition legacy_mutation_allowed :: "paper_lifecycle_authority \<Rightarrow> bool" where
  "legacy_mutation_allowed a \<longleftrightarrow> a \<in> set [LEGACY_AUTHORITY, PPL_SHADOW]"

definition ppl_is_authoritative :: "paper_lifecycle_authority \<Rightarrow> bool" where
  "ppl_is_authoritative a \<longleftrightarrow> a = PPL_AUTHORITY"

datatype authority_error = InvalidAuthority string

definition authority_aliases :: "(string \<times> paper_lifecycle_authority) list" where
  "authority_aliases =
     [(''legacy'', LEGACY_AUTHORITY), (''legacy_authority'', LEGACY_AUTHORITY),
      (''LEGACY_AUTHORITY'', LEGACY_AUTHORITY), (''shadow'', PPL_SHADOW),
      (''ppl_shadow'', PPL_SHADOW), (''PPL_SHADOW'', PPL_SHADOW), (''ppl'', PPL_AUTHORITY),
      (''ppl_authority'', PPL_AUTHORITY), (''PPL_AUTHORITY'', PPL_AUTHORITY)]"

definition parse_paper_lifecycle_authority ::
  "string option \<Rightarrow> authority_error + paper_lifecycle_authority" where
  "parse_paper_lifecycle_authority value =
     (case value of
        None \<Rightarrow> Inr LEGACY_AUTHORITY
      | Some v \<Rightarrow>
          let raw = py_strip v in
          if raw = [] then Inr LEGACY_AUTHORITY
          else case map_of authority_aliases raw of
                 Some mode \<Rightarrow> Inr mode
               | None \<Rightarrow> or_raise (InvalidAuthority raw) (map_of authority_aliases (py_lower raw)))"

definition resolve_paper_lifecycle_authority ::
  "(string, string) dict \<Rightarrow> authority_error + paper_lifecycle_authority" where
  "resolve_paper_lifecycle_authority environ =
     parse_paper_lifecycle_authority (dict_get environ ''PAPER_LIFECYCLE_AUTHORITY'')"

section \<open>Restart plans\<close>

lemma known_replay_complete:
  assumes "epoch_known s" "epoch s = Some ep" "pe_schema_version ep = 2"
    and "dict_get (open_positions s) tid = Some p"
  shows "\<exists>timeout recovery. replay_complete p \<and> op_timeout_at p = Some timeout \<and>
    op_recovery_until p = Some recovery \<and> fl_le timeout recovery"
  using assms map_of_SomeD [OF assms(4)]
  by (fastforce simp: epoch_known_def position_ok_def replay_complete_def)

definition planned :: "portfolio_state \<Rightarrow> pyfloat \<Rightarrow> string \<Rightarrow> restart_position_plan" where
  "planned s now tid =
     (case dict_get (open_positions s) tid of
        None \<Rightarrow> \<lparr>rp_trade_id = tid, rp_disposition = UNRESOLVED_REQUIRED\<rparr>
      | Some p \<Rightarrow> \<lparr>rp_trade_id = tid, rp_disposition =
          disposition_at (the (op_timeout_at p)) (the (op_recovery_until p)) now\<rparr>)"

lemma plan_positions_all:
  assumes "epoch_known s" "epoch s = Some ep" "pe_schema_version ep = 2"
  shows "set tids \<subseteq> set (dict_keys (open_positions s)) \<Longrightarrow>
    foldE (plan_position s ep now) plans tids = Inr (plans @ map (planned s now) tids)"
proof (induction tids arbitrary: plans)
  case Nil
  then show ?case by simp
next
  case (Cons tid tids)
  then obtain p where p: "dict_get (open_positions s) tid = Some p"
    by (metis dict_get_None_iff list.set_intros(1) not_None_eq subsetD)
  from known_replay_complete [OF assms p] obtain timeout recovery where
    "replay_complete p" "op_timeout_at p = Some timeout" "op_recovery_until p = Some recovery"
    by blast
  with p assms(3) have "plan_position s ep now plans tid = Inr (plans @ [planned s now tid])"
    by (simp add: plan_position_def planned_def)
  with Cons show ?case by simp
qed

lemma projected_known:
  "project events = Inr s \<Longrightarrow> epoch s = Some ep \<Longrightarrow> epoch_known s \<and> money_ok s \<and> books_ok s"
  using project_state_ok by (force simp: state_ok_def)

lemma plan_planned:
  assumes "project events = Inr s" and "epoch s = Some ep" and "pe_schema_version ep = 2"
    and "float_of_number now = Some t" and "fl_finite t"
  shows "plan_restart_recovery s now = Inr \<lparr>rr_paper_epoch_id = pe_id ep,
    rr_positions = map (planned s t) (sort (dict_keys (open_positions s)))\<rparr>"
proof -
  have known: "epoch_known s" using projected_known [OF assms(1,2)] by simp
  have id: "paper_epoch_id s = Some (pe_id ep)" "pe_id ep \<noteq> []"
    using known assms(2) by (auto simp: epoch_known_def epoch_ok_def)
  let ?tids = "sort (dict_keys (open_positions s))"
  have "foldE (plan_position s ep t) [] ?tids = Inr ([] @ map (planned s t) ?tids)"
    by (rule plan_positions_all [OF known assms(2,3)]) simp
  moreover have "is_number now" using assms(4) by (cases now) auto
  ultimately show ?thesis using id assms by (simp add: plan_restart_recovery_def)
qed

lemma planned_trade_id [simp]: "rp_trade_id (planned s t tid) = tid"
  by (simp add: planned_def split: option.splits)

text \<open>
  A restart plan exists for every projected version 2 portfolio at every finite time. It
  names each open position once, in order, and classifies it by its own recorded deadlines:
  monitoring before the timeout, timeout due from then to the end of the recovery window, and
  unresolved only after it. The error for incomplete terms cannot occur.
\<close>

theorem restart_plan_complete:
  assumes "project events = Inr s" and "epoch s = Some ep" and "pe_schema_version ep = 2"
    and "float_of_number now = Some t" and "fl_finite t"
  shows "\<exists>plan. plan_restart_recovery s now = Inr plan \<and>
    rr_paper_epoch_id plan = pe_id ep \<and>
    map rp_trade_id (rr_positions plan) = sort (dict_keys (open_positions s)) \<and>
    distinct (map rp_trade_id (rr_positions plan)) \<and>
    (\<forall>r \<in> set (rr_positions plan). \<exists>p timeout recovery.
       dict_get (open_positions s) (rp_trade_id r) = Some p \<and>
       op_timeout_at p = Some timeout \<and> op_recovery_until p = Some recovery \<and>
       (rp_disposition r = RESTORE_MONITORING \<longleftrightarrow> fl_lt t timeout) \<and>
       (rp_disposition r = RESTORE_TIMEOUT_DUE \<longleftrightarrow> fl_le timeout t \<and> fl_le t recovery) \<and>
       (rp_disposition r = UNRESOLVED_REQUIRED \<longleftrightarrow> fl_lt recovery t))"
proof -
  have known: "epoch_known s" and books: "books_ok s"
    using projected_known [OF assms(1,2)] by simp_all
  let ?tids = "sort (dict_keys (open_positions s))"
  let ?plan = "\<lparr>rr_paper_epoch_id = pe_id ep, rr_positions = map (planned s t) ?tids\<rparr>"
  have plan: "plan_restart_recovery s now = Inr ?plan" by (rule plan_planned [OF assms])
  have ids: "map rp_trade_id (map (planned s t) ?tids) = ?tids"
    by (simp add: comp_def)
  have cls: "\<exists>p timeout recovery. dict_get (open_positions s) (rp_trade_id (planned s t tid)) = Some p \<and>
       op_timeout_at p = Some timeout \<and> op_recovery_until p = Some recovery \<and>
       (rp_disposition (planned s t tid) = RESTORE_MONITORING \<longleftrightarrow> fl_lt t timeout) \<and>
       (rp_disposition (planned s t tid) = RESTORE_TIMEOUT_DUE \<longleftrightarrow> fl_le timeout t \<and> fl_le t recovery) \<and>
       (rp_disposition (planned s t tid) = UNRESOLVED_REQUIRED \<longleftrightarrow> fl_lt recovery t)"
    if "tid \<in> set (dict_keys (open_positions s))" for tid
  proof -
    from that obtain p where p: "dict_get (open_positions s) tid = Some p"
      by (metis dict_get_None_iff not_None_eq)
    from known_replay_complete [OF known assms(2,3) p] obtain timeout recovery where
      d: "op_timeout_at p = Some timeout" "op_recovery_until p = Some recovery"
      "fl_le timeout recovery" by blast
    obtain q where "t = Fin q" using assms(5) by (auto simp: fl_finite_iff)
    with p d show ?thesis
      by (cases timeout; cases recovery) (auto simp: planned_def disposition_at_def)
  qed
  have "distinct ?tids" using books by (simp add: books_ok_def)
  with plan ids cls show ?thesis by (intro exI [of _ ?plan]) auto
qed

definition sample_stream2 :: "ledger_event list" where
  "sample_stream2 =
     [(sample_event ''e1'' 1 EPOCH_CREATED None
        [(''initial_virtual_capital'', VInt 1000), (''code_sha'', VStr ''c''),
         (''config_snapshot_hash'', VStr ''h'')])\<lparr>le_schema_version := 2\<rparr>,
      (sample_event ''e2'' 2 POSITION_OPENED (Some ''A'')
        [(''symbol'', VStr ''BTC''), (''side'', VStr ''LONG''), (''principal'', VInt 100),
         (''entry_price'', VInt 4), (''entry_fee'', VInt 1), (''tp_price'', VInt 6),
         (''sl_price'', VInt 3), (''timeout_at'', VInt 10),
         (''recovery_eligible_until'', VInt 20)])\<lparr>le_schema_version := 2\<rparr>]"

lemma sample_project2:
  "\<exists>s. project sample_stream2 = Inr s \<and> epoch s = Some (sample_epoch\<lparr>pe_schema_version := 2\<rparr>) \<and>
     dict_keys (open_positions s) = [''A''] \<and> paper_epoch_id s = Some ''E'' \<and>
     realized_pnl s = Fin 0 \<and> unresolved_positions s = [] \<and> unresolved_capital s = Fin 0"
  by (simp add: project_def sample_stream2_def sample_event_def empty_state_def
      sample_epoch_def apply_eval new_paper_epoch_def require_finite_def)

theorem restart_plan_complete_witness:
  "\<exists>s plan. project sample_stream2 = Inr s \<and> plan_restart_recovery s (VInt 15) = Inr plan \<and>
     map rp_trade_id (rr_positions plan) = [''A'']"
proof -
  obtain s where s: "project sample_stream2 = Inr s"
    "epoch s = Some (sample_epoch\<lparr>pe_schema_version := 2\<rparr>)"
    "dict_keys (open_positions s) = [''A'']"
    using sample_project2 by metis
  have "float_of_number (VInt 15) = Some (Fin 15)" "fl_finite (Fin 15)" by simp_all
  with restart_plan_complete [OF s(1,2)] obtain plan where
    "plan_restart_recovery s (VInt 15) = Inr plan"
    "map rp_trade_id (rr_positions plan) = sort [''A'']"
    unfolding s(3) by fastforce
  with s(1) show ?thesis by auto
qed

section \<open>Readiness and capital\<close>

lemma gate_cases:
  "dr_ready_for_mutation (validate_ppl_authority_dataset load dir i) \<longleftrightarrow>
     (\<exists>s. replay_authoritative_ppl load dir i = Inr s \<and>
       list_all (\<lambda>(_, p). replay_complete p) (open_positions s) \<and>
       unresolved_positions s = [] \<and> unresolved_capital s = Fin 0)"
proof (cases "dir = [] \<or> i = []")
  case True
  then show ?thesis
    by (auto simp: validate_ppl_authority_dataset_def replay_authoritative_ppl_def Let_def raise_if_def)
next
  case False
  show ?thesis
  proof (cases "load_and_project load dir i")
    case (Inl e)
    with False show ?thesis
      by (simp add: validate_ppl_authority_dataset_def replay_authoritative_ppl_def Let_def)
  next
    case (Inr s)
    with False show ?thesis
      by (cases "epoch s")
        (simp_all add: validate_ppl_authority_dataset_def replay_authoritative_ppl_def Let_def
          raise_if_def list_all_iff filter_empty_conv case_prod_unfold)
  qed
qed

lemma replayed_state:
  assumes "replay_authoritative_ppl load dir i = Inr s"
  obtains ep where "epoch s = Some ep" "paper_epoch_id s = Some i" "pe_schema_version ep = 2"
    "epoch_known s" "money_ok s" "books_ok s"
proof -
  from assms obtain ep events where "project events = Inr s" "epoch s = Some ep"
    "paper_epoch_id s = Some i" "pe_schema_version ep = 2"
    by (auto simp: replay_authoritative_ppl_def load_and_project_def result_simps)
  with projected_known that show ?thesis by blast
qed

lemma replayed_complete:
  "replay_authoritative_ppl load dir i = Inr s \<Longrightarrow>
     list_all (\<lambda>(_, p). replay_complete p) (open_positions s)"
  by (erule replayed_state) (fastforce simp: list_all_iff epoch_known_def position_ok_def replay_complete_def)

text \<open>
  The readiness gate and the capital view agree, whatever the store holds. The gate is
  open exactly when the scientific capital exists or fails only for its own value being out of
  range; a loaded version 2 epoch is never held back for an incomplete position; and the
  declared initial capital, when the epoch loads, is always a positive finite number.
\<close>

theorem gate_agrees_with_capital:
  "(dr_ready_for_mutation (validate_ppl_authority_dataset load dir i) \<longleftrightarrow>
      (\<exists>v. scientific_capital_from_ppl load dir i = Inr v) \<or>
      (\<exists>x. scientific_capital_from_ppl load dir i = Inl (CapitalInvalid x))) \<and>
   dr_reason (validate_ppl_authority_dataset load dir i) \<noteq> ''OPEN_POSITION_NOT_REPLAY_COMPLETE'' \<and>
   initial_virtual_capital_from_ppl load dir i \<noteq> Inl (CapitalInvalid x)"
proof (intro conjI)
  show "dr_ready_for_mutation (validate_ppl_authority_dataset load dir i) \<longleftrightarrow>
      (\<exists>v. scientific_capital_from_ppl load dir i = Inr v) \<or>
      (\<exists>x. scientific_capital_from_ppl load dir i = Inl (CapitalInvalid x))"
  proof (cases "replay_authoritative_ppl load dir i")
    case (Inl e)
    then have "e \<noteq> CapitalInvalid x" for x
      by (auto simp: replay_authoritative_ppl_def load_and_project_def result_simps
          raise_if_def lift_error_def or_raise_def split: if_splits sum.splits option.splits)
    with Inl show ?thesis by (auto simp: gate_cases scientific_capital_from_ppl_def)
  next
    case (Inr s)
    with replayed_complete [OF Inr] show ?thesis
      by (auto simp: gate_cases scientific_capital_from_ppl_def raise_if_def Let_def)
  qed
  have "\<not> (replay_authoritative_ppl load dir i = Inr s \<and>
      filter (\<lambda>(_, p). \<not> replay_complete p) (open_positions s) \<noteq> [])" for s
    using replayed_complete [of load dir i s] by (auto simp: list_all_iff filter_empty_conv)
  then show "dr_reason (validate_ppl_authority_dataset load dir i) \<noteq> ''OPEN_POSITION_NOT_REPLAY_COMPLETE''"
    by (cases "load_and_project load dir i")
      (auto simp: validate_ppl_authority_dataset_def replay_authoritative_ppl_def Let_def
        result_simps split: option.splits)
  show "initial_virtual_capital_from_ppl load dir i \<noteq> Inl (CapitalInvalid x)"
  proof (cases "replay_authoritative_ppl load dir i")
    case (Inl e)
    then have "e \<noteq> CapitalInvalid x"
      by (auto simp: replay_authoritative_ppl_def load_and_project_def result_simps
          raise_if_def lift_error_def or_raise_def split: if_splits sum.splits option.splits)
    with Inl show ?thesis by (simp add: initial_virtual_capital_from_ppl_def)
  next
    case (Inr s)
    then obtain ep where "epoch s = Some ep" "epoch_known s" by (rule replayed_state)
    then show ?thesis
      by (auto simp: initial_virtual_capital_from_ppl_def Inr epoch_known_def epoch_ok_def
          fl_finite_iff)
  qed
qed

text \<open>
  The scientific capital, when there is one, is the declared initial capital plus the
  realized result of the very events in the store, is not negative, and no position of that
  portfolio is unresolved.
\<close>

theorem scientific_capital_value:
  assumes "scientific_capital_from_ppl load dir i = Inr v"
  shows "\<exists>events s ep. load dir i = Inr events \<and> project events = Inr s \<and> epoch s = Some ep \<and>
    pe_id ep = i \<and> v = fl_add (pe_initial_virtual_capital ep) (realized_pnl s) \<and>
    fl_finite v \<and> fl_le (Fin 0) v \<and> unresolved_positions s = [] \<and>
    unresolved_capital s = Fin 0"
proof -
  from assms obtain s where s: "replay_authoritative_ppl load dir i = Inr s"
    "unresolved_positions s = []" "unresolved_capital s = Fin 0"
    and v: "v = (case epoch s of None \<Rightarrow> NaN
                  | Some ep \<Rightarrow> fl_add (pe_initial_virtual_capital ep) (realized_pnl s))"
      "fl_finite v" "\<not> fl_lt v (Fin 0)"
    by (auto simp: scientific_capital_from_ppl_def result_simps Let_def split: if_splits)
  from s(1) obtain events where "load dir i = Inr events" "project events = Inr s"
    by (auto simp: replay_authoritative_ppl_def load_and_project_def result_simps)
  moreover obtain ep where "epoch s = Some ep" "paper_epoch_id s = Some i" "epoch_known s"
    using s(1) by (rule replayed_state)
  ultimately show ?thesis using s v by (auto simp: epoch_known_def)
qed

theorem scientific_capital_value_witness:
  "\<exists>v. scientific_capital_from_ppl (\<lambda>_ _. Inr sample_stream2) ''d'' ''E'' = Inr v \<and> v = Fin 1000 \<and>
     fl_le (Fin 0) v"
proof -
  obtain s where "project sample_stream2 = Inr s"
    "epoch s = Some (sample_epoch\<lparr>pe_schema_version := 2\<rparr>)" "paper_epoch_id s = Some ''E''"
    "realized_pnl s = Fin 0" "unresolved_positions s = []" "unresolved_capital s = Fin 0"
    using sample_project2 by metis
  then have "scientific_capital_from_ppl (\<lambda>_ _. Inr sample_stream2) ''d'' ''E'' = Inr (Fin 1000)"
    by (simp add: scientific_capital_from_ppl_def replay_authoritative_ppl_def load_and_project_def
        sample_epoch_def raise_if_def)
  with scientific_capital_value [OF this] show ?thesis by blast
qed

end
