(* ===== verification/Admission.thy ===== *)
theory Admission
  imports PyPrelude
begin

text \<open>
  Portfolio admission: the verdict vocabulary (\<^verbatim>\<open>paper_trading/admission_types.py\<close>), the hard
  portfolio ceiling (\<^verbatim>\<open>paper_trading/admission_policy.py\<close>) and the append-only admission ledger
  (\<^verbatim>\<open>paper_trading/admission_ledger.py\<close>). The ledger's file is the list of its lines, each
  either an event as it was written, an object of another kind, a JSON value that is not an
  object, or text that is not JSON; the clock and the random identifier are arguments.
\<close>

section \<open>Vocabulary\<close>

datatype admission_level = OFF | LevelA | LevelB | LevelC

datatype admission_decision = APPROVED | REJECTED

datatype admission_blocker =
    NONE
  | SIGNAL
  | PORTFOLIO_HARD_CEILING
  | PORTFOLIO_STRICT
  | OVER_LIMIT_RESTORED
  | OVER_LIMIT_POLICY_TIGHTENED
  | STALE_TOCTOU
  | LEGACY_ADMISSION_FREEZE

datatype write_result =
    FILLED
  | REJECTED_DUPLICATE
  | REJECTED_INSUFFICIENT_CAPITAL
  | REJECTED_STALE
  | REJECTED_ADMISSION
  | REJECTED_FROZEN

text \<open>\<open>av_reason\<close> is the pair of counters the French sentence of the code prints.\<close>

record admission_verdict =
  av_decision :: admission_decision
  av_level :: admission_level
  av_n_at_check :: int
  av_hard_max_at_check :: int
  av_blocker :: admission_blocker
  av_reason :: "(int \<times> int) option"
  av_checked_by :: string

record admission_attempt =
  aa_attempt_id :: string
  aa_ts :: pyfloat
  aa_cycle_id :: string
  aa_symbol :: string
  aa_n_before :: int
  aa_hard_max :: int
  aa_level :: admission_level
  aa_decision :: admission_decision
  aa_blocker :: admission_blocker
  aa_reason :: "(int \<times> int) option"
  aa_verdict_checked_by :: string

record admission_outcome =
  ao_attempt_id :: string
  ao_ts :: pyfloat
  ao_symbol :: string
  ao_write_result :: write_result
  ao_n_after :: int
  ao_position_identity :: string
  ao_anomaly :: string

section \<open>Policy\<close>

datatype policy_error = NegativePositions int | NegativeHardMax int

definition checked_by :: string where
  "checked_by = ''evaluate_hard_portfolio_ceiling''"

definition evaluate_hard_portfolio_ceiling :: "int \<Rightarrow> int \<Rightarrow> policy_error + admission_verdict" where
  "evaluate_hard_portfolio_ceiling n hard_max =
     (if n < 0 then Inl (NegativePositions n)
      else if hard_max < 0 then Inl (NegativeHardMax hard_max)
      else if n < hard_max then
        Inr \<lparr>av_decision = APPROVED, av_level = LevelA, av_n_at_check = n,
             av_hard_max_at_check = hard_max, av_blocker = NONE, av_reason = None,
             av_checked_by = checked_by\<rparr>
      else
        Inr \<lparr>av_decision = REJECTED, av_level = LevelA, av_n_at_check = n,
             av_hard_max_at_check = hard_max, av_blocker = PORTFOLIO_HARD_CEILING,
             av_reason = Some (n, hard_max), av_checked_by = checked_by\<rparr>)"

definition make_attempt ::
  "string \<Rightarrow> pyfloat \<Rightarrow> admission_verdict \<Rightarrow> string \<Rightarrow> string \<Rightarrow> admission_attempt" where
  "make_attempt new_id now v cycle symbol =
     \<lparr>aa_attempt_id = new_id, aa_ts = now, aa_cycle_id = cycle, aa_symbol = symbol,
      aa_n_before = av_n_at_check v, aa_hard_max = av_hard_max_at_check v,
      aa_level = av_level v, aa_decision = av_decision v, aa_blocker = av_blocker v,
      aa_reason = av_reason v, aa_verdict_checked_by = av_checked_by v\<rparr>"

definition make_outcome ::
  "pyfloat \<Rightarrow> admission_attempt \<Rightarrow> write_result \<Rightarrow> int \<Rightarrow> string \<Rightarrow> string \<Rightarrow> admission_outcome" where
  "make_outcome now a w n_after ident anomaly =
     \<lparr>ao_attempt_id = aa_attempt_id a, ao_ts = now, ao_symbol = aa_symbol a,
      ao_write_result = w, ao_n_after = n_after, ao_position_identity = ident,
      ao_anomaly = anomaly\<rparr>"

section \<open>Ledger\<close>

datatype ledger_line =
    AttemptLine admission_attempt
  | OutcomeLine admission_outcome
  | OtherObject
  | NotAnObject
  | NotJson
  | BlankLine

type_synonym admission_file = "ledger_line list"

definition record_attempt :: "admission_file \<Rightarrow> admission_attempt \<Rightarrow> admission_file" where
  "record_attempt f a = f @ [AttemptLine a]"

definition record_outcome :: "admission_file \<Rightarrow> admission_outcome \<Rightarrow> admission_file" where
  "record_outcome f out = f @ [OutcomeLine out]"

definition ledger_events :: "admission_file \<Rightarrow> ledger_line list" where
  "ledger_events f = filter (\<lambda>l. l \<noteq> NotJson \<and> l \<noteq> BlankLine) f"

text \<open>
  One step of the loop of \<^verbatim>\<open>pairs\<close>: a value that is not an object has no \<^verbatim>\<open>get\<close>, an
  \<^verbatim>\<open>AttributeError\<close>; objects without an identifier or of another kind are passed over.
\<close>

datatype pairs_error = AttributeError

type_synonym pair_maps =
  "(string, admission_attempt) dict \<times> (string, admission_outcome) dict"

fun pairs_step :: "pair_maps \<Rightarrow> ledger_line \<Rightarrow> pairs_error + pair_maps" where
  "pairs_step (attempts, outs) (AttemptLine a) =
     (if aa_attempt_id a = [] then Inr (attempts, outs)
      else Inr (dict_set attempts (aa_attempt_id a) a, outs))"
| "pairs_step (attempts, outs) (OutcomeLine out) =
     (if ao_attempt_id out = [] then Inr (attempts, outs)
      else Inr (attempts, dict_set outs (ao_attempt_id out) out))"
| "pairs_step m NotAnObject = Inl AttributeError"
| "pairs_step m _ = Inr m"

definition pairs ::
  "admission_file \<Rightarrow> pairs_error + (admission_attempt \<times> admission_outcome option) list" where
  "pairs f =
     bindE (foldE pairs_step ([], []) (ledger_events f)) (\<lambda>(attempts, outs).
       Inr (map (\<lambda>i. (the (dict_get attempts i), dict_get outs i)) (sort (dict_keys attempts))))"

section \<open>Facts\<close>

lemma ceiling_cases:
  "evaluate_hard_portfolio_ceiling n hard_max = Inr v \<Longrightarrow>
     0 \<le> n \<and> 0 \<le> hard_max \<and> av_n_at_check v = n \<and> av_hard_max_at_check v = hard_max \<and>
     (av_decision v = APPROVED \<longleftrightarrow> n < hard_max) \<and>
     (av_decision v = APPROVED \<longleftrightarrow> av_blocker v = NONE)"
  by (auto simp: evaluate_hard_portfolio_ceiling_def split: if_splits)

text \<open>The last attempt and the last outcome of an identifier in a file.\<close>

fun last_attempt :: "string \<Rightarrow> admission_file \<Rightarrow> admission_attempt option" where
  "last_attempt i [] = None"
| "last_attempt i (l # ls) =
     (case last_attempt i ls of
        Some a \<Rightarrow> Some a
      | None \<Rightarrow> (case l of AttemptLine a \<Rightarrow> if aa_attempt_id a = i then Some a else None | _ \<Rightarrow> None))"

fun last_outcome :: "string \<Rightarrow> admission_file \<Rightarrow> admission_outcome option" where
  "last_outcome i [] = None"
| "last_outcome i (l # ls) =
     (case last_outcome i ls of
        Some out \<Rightarrow> Some out
      | None \<Rightarrow> (case l of OutcomeLine out \<Rightarrow> if ao_attempt_id out = i then Some out else None
                 | _ \<Rightarrow> None))"

lemma last_attempt_snoc:
  "last_attempt i (ls @ [l]) =
     (case l of AttemptLine a \<Rightarrow> if aa_attempt_id a = i then Some a else last_attempt i ls
      | _ \<Rightarrow> last_attempt i ls)"
  by (induction ls) (auto split: ledger_line.splits option.splits)

lemma last_outcome_snoc:
  "last_outcome i (ls @ [l]) =
     (case l of OutcomeLine out \<Rightarrow> if ao_attempt_id out = i then Some out else last_outcome i ls
      | _ \<Rightarrow> last_outcome i ls)"
  by (induction ls) (auto split: ledger_line.splits option.splits)

definition maps_of :: "pair_maps \<Rightarrow> admission_file \<Rightarrow> bool" where
  "maps_of m f \<longleftrightarrow>
     distinct (dict_keys (fst m)) \<and>
     (\<forall>i. i \<noteq> [] \<longrightarrow> dict_get (fst m) i = last_attempt i f \<and> dict_get (snd m) i = last_outcome i f) \<and>
     dict_get (fst m) [] = None"

lemma pairs_step_maps:
  "maps_of m f \<Longrightarrow> pairs_step m l = Inr m' \<Longrightarrow> maps_of m' (f @ [l])"
  by (cases l; cases m)
    (auto simp: maps_of_def last_attempt_snoc last_outcome_snoc split: if_splits)

lemma pairs_fold_maps:
  "foldE pairs_step ([], []) f = Inr m \<Longrightarrow> maps_of m f"
proof (induction f arbitrary: m rule: rev_induct)
  case Nil
  then show ?case by (auto simp: maps_of_def)
next
  case (snoc l f)
  from snoc.prems obtain m1 where "foldE pairs_step ([], []) f = Inr m1" "pairs_step m1 l = Inr m"
    by (auto simp: foldE_snoc result_simps)
  with snoc.IH pairs_step_maps show ?case by blast
qed

lemma last_attempt_id: "last_attempt i f = Some a \<Longrightarrow> aa_attempt_id a = i"
  by (induction f) (auto split: option.splits ledger_line.splits if_splits)

lemma last_outcome_id: "last_outcome i f = Some out \<Longrightarrow> ao_attempt_id out = i"
  by (induction f) (auto split: option.splits ledger_line.splits if_splits)

lemma last_attempt_events: "last_attempt i (ledger_events f) = last_attempt i f"
  by (induction f) (auto simp: ledger_events_def split: option.splits ledger_line.splits)

lemma last_outcome_events: "last_outcome i (ledger_events f) = last_outcome i f"
  by (induction f) (auto simp: ledger_events_def split: option.splits ledger_line.splits)

lemma pairs_fold_total:
  "NotAnObject \<notin> set f \<Longrightarrow> \<exists>m. foldE pairs_step m0 f = Inr m"
proof (induction f arbitrary: m0)
  case Nil
  then show ?case by simp
next
  case (Cons l f)
  obtain a b where "m0 = (a, b)" by force
  with Cons.prems have "\<exists>m. pairs_step m0 l = Inr m" by (cases l) auto
  with Cons show ?case by auto
qed

text \<open>
  The pairs read back from the ledger are causal and complete. Whatever lines the file
  holds, as long as each JSON line is an object: the pairs are sorted by attempt identifier,
  each identifier that has a recorded attempt occurs exactly once, with its last recorded
  attempt and its last recorded outcome, and an outcome never appears under another attempt.
\<close>

theorem pairs_complete:
  assumes "NotAnObject \<notin> set f"
  shows "\<exists>ps. pairs f = Inr ps \<and>
    sorted (map (aa_attempt_id \<circ> fst) ps) \<and> distinct (map (aa_attempt_id \<circ> fst) ps) \<and>
    (\<forall>a out. (a, out) \<in> set ps \<longleftrightarrow>
       aa_attempt_id a \<noteq> [] \<and> last_attempt (aa_attempt_id a) f = Some a \<and>
       out = last_outcome (aa_attempt_id a) f)"
proof -
  have "NotAnObject \<notin> set (ledger_events f)" using assms by (simp add: ledger_events_def)
  then obtain attempts outs where
    fold: "foldE pairs_step ([], []) (ledger_events f) = Inr (attempts, outs)"
    using pairs_fold_total by (metis surj_pair)
  note m = pairs_fold_maps [OF fold, unfolded maps_of_def last_attempt_events last_outcome_events]
  let ?ids = "sort (dict_keys attempts)"
  let ?ps = "map (\<lambda>i. (the (dict_get attempts i), dict_get outs i)) ?ids"
  have get: "dict_get attempts i = last_attempt i f \<and> dict_get outs i = last_outcome i f \<and>
      (\<exists>a. last_attempt i f = Some a \<and> aa_attempt_id a = i)" if "i \<in> set ?ids" for i
  proof -
    have "dict_get attempts i \<noteq> None" using that by (simp add: map_of_eq_None_iff)
    moreover from this have "i \<noteq> []" using m by auto
    ultimately have "i \<noteq> []" "dict_get attempts i \<noteq> None" by simp_all
    with m show ?thesis using last_attempt_id by fastforce
  qed
  have "aa_attempt_id (the (dict_get attempts i)) = i" if "i \<in> set ?ids" for i
    using get [OF that] by force
  then have "map (\<lambda>i. aa_attempt_id (the (dict_get attempts i))) ?ids = ?ids" by (rule map_idI)
  then have ids: "map (aa_attempt_id \<circ> fst) ?ps = ?ids" by (simp add: o_def)
  have "(a, out) \<in> set ?ps \<longleftrightarrow> aa_attempt_id a \<noteq> [] \<and>
      last_attempt (aa_attempt_id a) f = Some a \<and> out = last_outcome (aa_attempt_id a) f" for a out
  proof
    assume "(a, out) \<in> set ?ps"
    then obtain i where i: "i \<in> set ?ids" "a = the (dict_get attempts i)" "out = dict_get outs i"
      by auto
    with get [OF i(1)] m show "aa_attempt_id a \<noteq> [] \<and> last_attempt (aa_attempt_id a) f = Some a \<and>
        out = last_outcome (aa_attempt_id a) f" by auto
  next
    assume h: "aa_attempt_id a \<noteq> [] \<and> last_attempt (aa_attempt_id a) f = Some a \<and>
        out = last_outcome (aa_attempt_id a) f"
    then have "dict_get attempts (aa_attempt_id a) = Some a" using m by simp
    then have "aa_attempt_id a \<in> set ?ids" by (simp add: dict_get_Some_key)
    with h get [OF this] show "(a, out) \<in> set ?ps" by force
  qed
  moreover have "pairs f = Inr ?ps" by (simp add: pairs_def fold)
  moreover have "sorted (map (aa_attempt_id \<circ> fst) ?ps)" "distinct (map (aa_attempt_id \<circ> fst) ?ps)"
    unfolding ids using m by simp_all
  ultimately show ?thesis by blast
qed

definition sample_attempt :: "string \<Rightarrow> admission_attempt" where
  "sample_attempt i = make_attempt i (Fin 0)
     \<lparr>av_decision = APPROVED, av_level = LevelA, av_n_at_check = 0, av_hard_max_at_check = 5,
      av_blocker = NONE, av_reason = None, av_checked_by = checked_by\<rparr> ''c'' ''BTC''"

definition sample_file :: admission_file where
  "sample_file = record_attempt (record_outcome (record_attempt [NotJson] (sample_attempt ''b''))
     (make_outcome (Fin 1) (sample_attempt ''b'') FILLED 1 [] [])) (sample_attempt ''a'')"

theorem pairs_complete_witness:
  "\<exists>ps. pairs sample_file = Inr ps \<and> distinct (map (aa_attempt_id \<circ> fst) ps) \<and>
     (sample_attempt ''a'', None) \<in> set ps"
proof -
  have "NotAnObject \<notin> set sample_file"
    "last_attempt ''a'' sample_file = Some (sample_attempt ''a'')"
    "last_outcome ''a'' sample_file = None" "aa_attempt_id (sample_attempt ''a'') = ''a''"
    by (simp_all add: sample_file_def record_attempt_def record_outcome_def sample_attempt_def
        make_attempt_def make_outcome_def)
  with pairs_complete [of sample_file] show ?thesis by (metis list.distinct(1))
qed

text \<open>
  One line that is JSON but not an object, a bare number for example, makes the whole
  read-back raise, whatever else the ledger holds; a line that is not JSON at all is skipped.
\<close>

theorem pairs_not_tolerant:
  "(\<exists>f. pairs f = Inl AttributeError \<and> NotJson \<notin> set f) \<and>
   (\<forall>f. pairs (filter (\<lambda>l. l \<noteq> NotJson) f) = pairs f)"
proof
  have "pairs [NotAnObject] = Inl AttributeError" by (simp add: pairs_def ledger_events_def)
  then show "\<exists>f. pairs f = Inl AttributeError \<and> NotJson \<notin> set f"
    by (intro exI [of _ "[NotAnObject]"]) simp
  show "\<forall>f. pairs (filter (\<lambda>l. l \<noteq> NotJson) f) = pairs f"
    by (simp add: pairs_def ledger_events_def)
qed

end
