(* ===== verification/PyDecimal.thy ===== *)
theory PyDecimal
  imports PyText
begin

text \<open>
  Python's \<^verbatim>\<open>decimal\<close> in its default context: 28 significant digits, ties to even. The modelled
  code compares decimals, multiplies and divides them and turns them into floats, so a decimal
  is the rational it denotes; the exponent range of the context (999999 either way) is far
  beyond what products and quotients of three doubles can reach, and no signal is raised.
\<close>

text \<open>Rounding to 28 significant digits; the fuel covers every exponent within 2000.\<close>

definition decimal_round :: "rat \<Rightarrow> rat" where
  "decimal_round q =
     (if q = 0 then 0
      else let e = ilog10 2000 \<bar>q\<bar> - 27
           in of_int (round_even (q / pow10 e)) * pow10 e)"

definition decimal_mul :: "rat \<Rightarrow> rat \<Rightarrow> rat" where
  "decimal_mul a b = decimal_round (a * b)"

definition decimal_div :: "rat \<Rightarrow> rat \<Rightarrow> rat" where
  "decimal_div a b = decimal_round (a / b)"

text \<open>\<^verbatim>\<open>to_integral_value(rounding=ROUND_DOWN)\<close> truncates and never rounds.\<close>

definition decimal_floor :: "rat \<Rightarrow> rat" where
  "decimal_floor a = of_int (truncate_rat a)"

text \<open>
  \<^verbatim>\<open>Decimal(str(f))\<close> of a finite float is the value of the shortest text of the float, and
  \<^verbatim>\<open>float(d)\<close> of a decimal is the nearest double.
\<close>

definition decimal_of_float :: "rat \<Rightarrow> rat" where
  "decimal_of_float q =
     (if q = 0 then 0
      else if 0 < q then (case shortest q of (m, k) \<Rightarrow> of_int m * pow10 k)
      else (case shortest (- q) of (m, k) \<Rightarrow> - (of_int m * pow10 k)))"

lemma float_of_decimal_of_float:
  "is_double q \<Longrightarrow> round_double (decimal_of_float q) = Fin q"
proof -
  assume q: "is_double q"
  consider "q = 0" | "0 < q" | "q < 0" by linarith
  then show ?thesis
  proof cases
    case 2
    obtain m k where mk: "shortest q = (m, k)" by force
    with shortest_reads_back [OF q 2 mk] 2 show ?thesis by (simp add: decimal_of_float_def)
  next
    case 3
    obtain m k where mk: "shortest (- q) = (m, k)" by force
    have "round_double (of_int m * pow10 k) = Fin (- q)"
      using shortest_reads_back [OF is_double_uminus [OF q] _ mk] 3 by simp
    then have "round_double (- (of_int m * pow10 k)) = Fin q"
      using round_double_uminus [of "of_int m * pow10 k"] by simp
    with 3 mk show ?thesis by (simp add: decimal_of_float_def)
  qed (simp add: decimal_of_float_def)
qed

text \<open>Comparing decimals of floats as the code does implies the comparison of the floats.\<close>

lemma decimal_le_float:
  assumes "is_double q" and "d \<le> decimal_of_float q" and "round_double d = Fin r"
  shows "r \<le> q"
  using round_double_mono [OF assms(3) float_of_decimal_of_float [OF assms(1)] assms(2)] .

lemma float_le_decimal:
  assumes "is_double q" and "decimal_of_float q \<le> d" and "round_double d = Fin r"
  shows "q \<le> r"
  using round_double_mono [OF float_of_decimal_of_float [OF assms(1)] assms(3) assms(2)] .

text \<open>What is not above the decimal of a double does not overflow.\<close>

lemma round_double_finite:
  assumes "is_double q" and "0 \<le> d" and "d \<le> decimal_of_float q"
  shows "\<exists>r. round_double d = Fin r"
proof (cases "d = 0")
  case False
  then have d: "0 < d" "0 < decimal_of_float q" using assms by simp_all
  have "round_mag (decimal_of_float q) < double_bound"
    using float_of_decimal_of_float [OF assms(1)] d(2) by (simp add: round_double_Fin_iff)
  moreover have "round_mag d \<le> round_mag (decimal_of_float q)"
    using d(1) assms(3) by (rule round_mag_mono)
  ultimately show ?thesis using d(1) by (simp add: round_double_def Let_def)
qed simp

end
