(* ===== verification/OrderAuthorization.thy ===== *)
theory OrderAuthorization
  imports PyDecimal
begin

text \<open>
  \<^verbatim>\<open>quant_hedge_ai/agents/execution/order_authorization.py\<close>: the pre-network authorization of an
  order. \<open>authorize_order\<close> is the sequence of the code's numbered stages; a stage either passes
  on what it computed, or ends the function with a denial, or lets an exception escape. The
  caller's values are \<open>pyval\<close>s because the code accepts any type; the human-readable \<^verbatim>\<open>detail\<close>
  of a result is left out.
\<close>

datatype denial_reason =
    INVALID_AMOUNT
  | NON_FINITE_AMOUNT
  | NON_POSITIVE_AMOUNT
  | ABOVE_AUTHORIZED_EXPOSURE
  | BELOW_MIN_NOTIONAL
  | PRECISION_COLLAPSE
  | PRECISION_WOULD_INCREASE_EXPOSURE
  | INSUFFICIENT_QUOTE_BALANCE
  | INSUFFICIENT_BASE_BALANCE
  | BALANCE_UNAVAILABLE
  | AUTHORITY_DENIED
  | UNSUPPORTED_MARKET_SEMANTICS
  | METADATA_UNAVAILABLE

record order_authorization_result =
  oa_authorized :: bool
  oa_symbol :: string
  oa_side :: string
  oa_requested_amount :: pyfloat
  oa_authorized_max_amount :: pyfloat
  oa_normalized_amount :: pyfloat
  oa_normalized_qty :: pyfloat
  oa_authorized_max_notional :: pyfloat
  oa_denial_reason :: "denial_reason option"
  oa_balance_source :: "string option"
  oa_precision_amount :: "pyfloat option"
  oa_min_notional :: "pyfloat option"

text \<open>The keyword arguments of \<^verbatim>\<open>authorize_order\<close>.\<close>

record order_request =
  rq_symbol :: string
  rq_side :: pyval
  rq_requested_amount :: pyval
  rq_price :: pyval
  rq_amount_precision :: pyval
  rq_min_notional :: pyval
  rq_authorized_max_amount :: "pyfloat option"
  rq_available_quote :: pyval
  rq_available_base :: pyval
  rq_balance_error :: bool
  rq_balance_source :: string
  rq_authority_denied :: bool
  rq_market_semantics_supported :: bool
  rq_require_balance_check :: bool

definition to_finite_positive_decimal :: "pyval \<Rightarrow> bool \<Rightarrow> conv_error + rat option" where
  "to_finite_positive_decimal v allow_zero =
     (case v of
        VNone \<Rightarrow> Inr None
      | VBool _ \<Rightarrow> Inr None
      | _ \<Rightarrow>
          (case py_float v of
             Inl OverflowError \<Rightarrow> Inl OverflowError
           | Inl _ \<Rightarrow> Inr None
           | Inr (Fin q) \<Rightarrow>
               if q < 0 \<or> (q = 0 \<and> \<not> allow_zero) then Inr None
               else Inr (Some (decimal_of_float q))
           | Inr _ \<Rightarrow> Inr None))"

text \<open>Only \<^verbatim>\<open>TypeError\<close> and \<^verbatim>\<open>ValueError\<close> are caught around the conversion.\<close>

definition deny ::
  "order_request \<Rightarrow> string \<Rightarrow> pyval \<Rightarrow> pyfloat \<Rightarrow> denial_reason \<Rightarrow> string option
     \<Rightarrow> pyfloat option \<Rightarrow> pyfloat option \<Rightarrow> conv_error + order_authorization_result" where
  "deny r side requested max_amount reason source precision min_not =
     bindE (case py_float requested of
              Inl OverflowError \<Rightarrow> Inl OverflowError
            | Inl _ \<Rightarrow> Inr (Fin 0)
            | Inr x \<Rightarrow> Inr (if fl_finite x then x else Fin 0)) (\<lambda>req.
       Inr \<lparr>oa_authorized = False, oa_symbol = rq_symbol r, oa_side = side,
            oa_requested_amount = req, oa_authorized_max_amount = max_amount,
            oa_normalized_amount = Fin 0, oa_normalized_qty = Fin 0,
            oa_authorized_max_notional = max_amount, oa_denial_reason = Some reason,
            oa_balance_source = source, oa_precision_amount = precision,
            oa_min_notional = min_not\<rparr>)"

text \<open>
  A stage: \<open>Inr\<close> goes on, \<open>Inl\<close> is the outcome of the whole function, an escaping exception or
  a result.
\<close>

type_synonym 'a stage = "(conv_error + order_authorization_result) + 'a"

definition side_norm :: "order_request \<Rightarrow> string" where
  "side_norm r = (case rq_side r of VStr s \<Rightarrow> py_lower (py_strip s) | _ \<Rightarrow> [])"

definition max_or_zero :: "order_request \<Rightarrow> pyfloat" where
  "max_or_zero r = (case rq_authorized_max_amount r of None \<Rightarrow> Fin 0 | Some x \<Rightarrow> x)"

definition check_authority :: "order_request \<Rightarrow> unit stage" where
  "check_authority r =
     bindE (raise_if (side_norm r \<notin> set [''buy'', ''sell''])
              (deny r (py_str (rq_side r)) (rq_requested_amount r) (max_or_zero r)
                 UNSUPPORTED_MARKET_SEMANTICS None None None)) (\<lambda>_.
     bindE (raise_if (\<not> rq_market_semantics_supported r)
              (deny r (side_norm r) (rq_requested_amount r) (max_or_zero r)
                 UNSUPPORTED_MARKET_SEMANTICS None None None)) (\<lambda>_.
       raise_if (rq_authority_denied r)
         (deny r (side_norm r) (rq_requested_amount r) (max_or_zero r)
            AUTHORITY_DENIED None None None)))"

definition check_amount :: "order_request \<Rightarrow> (pyfloat \<times> pyfloat) stage" where
  "check_amount r =
     (let refuse = (\<lambda>v m reason. deny r (side_norm r) v m reason None None None) in
      bindE (raise_if (rq_requested_amount r = VNone)
               (refuse (rq_requested_amount r) (max_or_zero r) INVALID_AMOUNT)) (\<lambda>_.
      bindE (case py_float (rq_requested_amount r) of
               Inl OverflowError \<Rightarrow> Inl (Inl OverflowError)
             | Inl _ \<Rightarrow> Inl (refuse (rq_requested_amount r) (max_or_zero r) INVALID_AMOUNT)
             | Inr x \<Rightarrow> Inr x) (\<lambda>amount.
      bindE (raise_if (\<not> fl_finite amount)
               (refuse (rq_requested_amount r) (max_or_zero r) NON_FINITE_AMOUNT)) (\<lambda>_.
      bindE (raise_if (fl_le amount (Fin 0))
               (refuse (VFloat amount) (max_or_zero r) NON_POSITIVE_AMOUNT)) (\<lambda>_.
      let cap = (case rq_authorized_max_amount r of None \<Rightarrow> amount | Some x \<Rightarrow> x) in
      bindE (raise_if (fl_le cap (Fin 0) \<or> \<not> fl_finite cap)
               (refuse (VFloat amount) (Fin 0) INVALID_AMOUNT)) (\<lambda>_.
      bindE (raise_if (fl_lt cap amount)
               (refuse (VFloat amount) cap ABOVE_AUTHORIZED_EXPOSURE)) (\<lambda>_.
        Inr (amount, cap))))))))"

definition or_escape :: "conv_error + 'a \<Rightarrow> 'a stage" where
  "or_escape m = (case m of Inl e \<Rightarrow> Inl (Inl e) | Inr a \<Rightarrow> Inr a)"

text \<open>\<^verbatim>\<open>float(d)\<close> of a decimal.\<close>

abbreviation dec_float :: "rat \<Rightarrow> pyfloat" where
  "dec_float \<equiv> round_double"

definition check_metadata ::
  "order_request \<Rightarrow> pyfloat \<Rightarrow> pyfloat \<Rightarrow> (rat \<times> rat \<times> rat) stage" where
  "check_metadata r amount cap =
     (let refuse = (\<lambda>precision. deny r (side_norm r) (VFloat amount) cap METADATA_UNAVAILABLE
                      None precision None) in
      bindE (or_escape (to_finite_positive_decimal (rq_price r) False)) (\<lambda>p.
      bindE (or_raise (refuse None) p) (\<lambda>price.
      bindE (or_escape (to_finite_positive_decimal (rq_amount_precision r) False)) (\<lambda>s.
      bindE (or_raise (refuse None) s) (\<lambda>step.
      bindE (or_escape (to_finite_positive_decimal (rq_min_notional r) True)) (\<lambda>m.
      bindE (or_raise (refuse (Some (dec_float step))) m) (\<lambda>min_notional.
        Inr (price, step, min_notional))))))))"

definition normalize_quantity :: "pyfloat \<Rightarrow> rat \<Rightarrow> rat \<Rightarrow> rat" where
  "normalize_quantity amount price step =
     (let amount_dec = decimal_of_float (case amount of Fin q \<Rightarrow> q | _ \<Rightarrow> 0);
          raw_qty = decimal_div amount_dec price;
          qty = decimal_mul (decimal_floor (decimal_div raw_qty step)) step
      in if qty < 0 then 0 else qty)"

definition check_normalized ::
  "order_request \<Rightarrow> pyfloat \<Rightarrow> pyfloat \<Rightarrow> rat \<Rightarrow> rat \<Rightarrow> rat \<Rightarrow> (rat \<times> rat) stage" where
  "check_normalized r amount cap price step min_notional =
     (let refuse = (\<lambda>reason. deny r (side_norm r) (VFloat amount) cap reason None
                      (Some (dec_float step)) (Some (dec_float min_notional)));
          authorized = decimal_of_float (case cap of Fin q \<Rightarrow> q | _ \<Rightarrow> 0);
          qty = normalize_quantity amount price step;
          notional = decimal_mul qty price in
      bindE (raise_if (authorized < notional) (refuse PRECISION_WOULD_INCREASE_EXPOSURE)) (\<lambda>_.
      bindE (raise_if (qty \<le> 0) (refuse PRECISION_COLLAPSE)) (\<lambda>_.
      bindE (raise_if (notional < min_notional) (refuse BELOW_MIN_NOTIONAL)) (\<lambda>_.
        Inr (qty, notional)))))"

definition check_balance ::
  "order_request \<Rightarrow> pyfloat \<Rightarrow> pyfloat \<Rightarrow> rat \<Rightarrow> rat \<Rightarrow> rat \<Rightarrow> rat \<Rightarrow> unit stage" where
  "check_balance r amount cap step min_notional qty notional =
     (let refuse = (\<lambda>reason. deny r (side_norm r) (VFloat amount) cap reason
                      (Some (rq_balance_source r)) (Some (dec_float step))
                      (Some (dec_float min_notional))) in
      if \<not> rq_require_balance_check r then Inr ()
      else bindE (raise_if (rq_balance_error r) (refuse BALANCE_UNAVAILABLE)) (\<lambda>_.
        if side_norm r = ''buy'' then
          bindE (or_escape (to_finite_positive_decimal (rq_available_quote r) True)) (\<lambda>q.
          bindE (or_raise (refuse BALANCE_UNAVAILABLE) q) (\<lambda>quote.
            raise_if (quote < notional) (refuse INSUFFICIENT_QUOTE_BALANCE)))
        else
          bindE (or_escape (to_finite_positive_decimal (rq_available_base r) True)) (\<lambda>b.
          bindE (or_raise (refuse BALANCE_UNAVAILABLE) b) (\<lambda>base.
            raise_if (base < qty) (refuse INSUFFICIENT_BASE_BALANCE)))))"

definition authorize_stages :: "order_request \<Rightarrow> order_authorization_result stage" where
  "authorize_stages r =
     bindE (check_authority r) (\<lambda>_.
     bindE (check_amount r) (\<lambda>(amount, cap).
     bindE (check_metadata r amount cap) (\<lambda>(price, step, min_notional).
     bindE (check_normalized r amount cap price step min_notional) (\<lambda>(qty, notional).
     bindE (check_balance r amount cap step min_notional qty notional) (\<lambda>_.
       Inr \<lparr>oa_authorized = True, oa_symbol = rq_symbol r, oa_side = side_norm r,
            oa_requested_amount = amount, oa_authorized_max_amount = cap,
            oa_normalized_amount = dec_float notional, oa_normalized_qty = dec_float qty,
            oa_authorized_max_notional = cap, oa_denial_reason = None,
            oa_balance_source = Some (rq_balance_source r),
            oa_precision_amount = Some (dec_float step),
            oa_min_notional = Some (dec_float min_notional)\<rparr>)))))"

definition authorize_order :: "order_request \<Rightarrow> conv_error + order_authorization_result" where
  "authorize_order r = (case authorize_stages r of Inl res \<Rightarrow> res | Inr res \<Rightarrow> Inr res)"

section \<open>Trading authority gates\<close>

record authority_gates =
  ag_paper_trading_enabled :: bool
  ag_live_trading_confirmed :: bool
  ag_exchange_present :: bool
  ag_live_mode :: bool
  ag_halted :: bool
  ag_safe_mode :: bool
  ag_kill_switch :: bool
  ag_execution_mode_supported :: bool

definition evaluate_trading_authority :: "authority_gates \<Rightarrow> bool \<times> string" where
  "evaluate_trading_authority g =
     (if \<not> ag_execution_mode_supported g then (False, ''unsupported_execution_mode'')
      else if \<not> ag_exchange_present g then (False, ''missing_exchange'')
      else if \<not> ag_live_mode g then (False, ''not_in_live_mode'')
      else if ag_paper_trading_enabled g then (False, ''blocked_by_paper_gate'')
      else if \<not> ag_live_trading_confirmed g then (False, ''live_trading_not_confirmed'')
      else if ag_halted g then (False, ''session_halted'')
      else if ag_safe_mode g then (False, ''safe_mode_active'')
      else if ag_kill_switch g then (False, ''kill_switch_engaged'')
      else (True, ''authorized''))"

section \<open>Denials\<close>

definition is_denial :: "conv_error + order_authorization_result \<Rightarrow> bool" where
  "is_denial m \<longleftrightarrow>
     (\<forall>res. m = Inr res \<longrightarrow> \<not> oa_authorized res \<and> oa_denial_reason res \<noteq> None \<and>
        oa_normalized_amount res = Fin 0 \<and> oa_normalized_qty res = Fin 0)"

lemma deny_is_denial [simp]: "is_denial (deny r sd v m reason s p n)"
  by (auto simp: is_denial_def deny_def result_simps)

lemma is_denial_Inl [simp]: "is_denial (Inl e)"
  by (simp add: is_denial_def)

text \<open>Every early exit of every stage is a denial or an escaping exception.\<close>

definition denies :: "'a stage \<Rightarrow> bool" where
  "denies m \<longleftrightarrow> (\<forall>res. m = Inl res \<longrightarrow> is_denial res)"

lemma denies_Inr [simp]: "denies (Inr a)"
  by (simp add: denies_def)

lemma denies_raise_if [simp]: "is_denial res \<Longrightarrow> denies (raise_if b res)"
  by (simp add: denies_def raise_if_def)

lemma denies_or_raise [simp]: "is_denial res \<Longrightarrow> denies (or_raise res m)"
  by (cases m) (simp_all add: denies_def)

lemma denies_or_escape [simp]: "denies (or_escape m)"
  by (cases m) (simp_all add: denies_def or_escape_def)

lemma denies_bind: "denies m \<Longrightarrow> (\<And>a. m = Inr a \<Longrightarrow> denies (f a)) \<Longrightarrow> denies (bindE m f)"
  by (cases m) (simp_all add: denies_def)

lemma stages_deny: "denies (authorize_stages r)"
proof -
  have "denies (check_authority r)"
    unfolding check_authority_def by (intro denies_bind denies_raise_if deny_is_denial)
  moreover have "denies (check_amount r)"
    unfolding check_amount_def Let_def
    by (intro denies_bind denies_raise_if denies_Inr deny_is_denial)
      (auto simp: denies_def split: sum.splits conv_error.splits)
  moreover have "denies (check_metadata r a c)" for a c
    unfolding check_metadata_def Let_def
    by (intro denies_bind denies_or_raise denies_or_escape denies_Inr deny_is_denial)
  moreover have "denies (check_normalized r a c p s m)" for a c p s m
    unfolding check_normalized_def Let_def
    by (intro denies_bind denies_raise_if denies_Inr deny_is_denial)
  moreover have "denies (check_balance r a c s m q n)" for a c s m q n
    unfolding check_balance_def Let_def
    by (auto intro!: denies_bind)
  ultimately show ?thesis
    unfolding authorize_stages_def by (auto intro!: denies_bind split: prod.splits)
qed

text \<open>
  A result without authorization always names a reason and carries no amount and no
  quantity that could be sent; a result with authorization names no reason.
\<close>

theorem denial_or_authorization:
  assumes "authorize_order r = Inr res"
  shows "(oa_authorized res \<longleftrightarrow> oa_denial_reason res = None) \<and>
    (\<not> oa_authorized res \<longrightarrow>
       oa_normalized_amount res = Fin 0 \<and> oa_normalized_qty res = Fin 0)"
proof (cases "authorize_stages r")
  case (Inl m)
  with assms stages_deny [of r] have "is_denial (Inr res)"
    by (simp add: authorize_order_def denies_def)
  then show ?thesis by (auto simp: is_denial_def)
next
  case (Inr res')
  with assms have "authorize_stages r = Inr res" by (simp add: authorize_order_def)
  then show ?thesis
    unfolding authorize_stages_def by (auto simp: result_simps split: prod.splits)
qed

section \<open>What an authorization guarantees\<close>

lemma decimal_round_nonneg: "0 \<le> q \<Longrightarrow> 0 \<le> decimal_round q"
proof -
  assume q: "0 \<le> q"
  have "0 \<le> round_even (q / pow10 e)" for e
    using q pow10_pos [of e] by (intro round_even_ge) (simp add: zero_le_divide_iff less_imp_le)
  then show ?thesis
    using pow10_pos by (simp add: decimal_round_def Let_def less_imp_le)
qed

lemma decimal_round_nonpos: "q \<le> 0 \<Longrightarrow> decimal_round q \<le> 0"
proof -
  assume q: "q \<le> 0"
  have "round_even (q / pow10 e) \<le> 0" for e
    using q pow10_pos [of e] round_even_le [of "q / pow10 e" 0] by (simp add: divide_le_0_iff less_imp_le)
  then show ?thesis
    using pow10_pos by (simp add: decimal_round_def Let_def mult_nonpos_nonneg less_imp_le)
qed

lemma decimal_of_float_pos: "is_double q \<Longrightarrow> 0 < q \<Longrightarrow> 0 < decimal_of_float q"
  using round_double_nonpos [OF float_of_decimal_of_float, of q] by (meson not_le)

text \<open>The floats of a request are doubles.\<close>

definition value_double :: "pyval \<Rightarrow> bool" where
  "value_double v \<longleftrightarrow> (case v of VFloat x \<Rightarrow> fl_double x | _ \<Rightarrow> True)"

definition request_double :: "order_request \<Rightarrow> bool" where
  "request_double r \<longleftrightarrow>
     value_double (rq_requested_amount r) \<and> value_double (rq_price r) \<and>
     value_double (rq_amount_precision r) \<and> value_double (rq_min_notional r) \<and>
     value_double (rq_available_quote r) \<and> value_double (rq_available_base r) \<and>
     (\<forall>x. rq_authorized_max_amount r = Some x \<longrightarrow> fl_double x)"

lemma fl_double_neg: "fl_double x \<Longrightarrow> fl_double (fl_neg x)"
  by (cases x) (simp_all add: fl_double_def is_double_uminus)

lemma float_of_str_double: "float_of_str s = Some x \<Longrightarrow> fl_double x"
  by (auto simp: float_of_str_def unsigned_float_of_str_def fl_double_neg
      split: list.splits if_splits)
    (auto simp: fl_double_def)

lemma fl_double_Fin [simp]: "fl_double (Fin q) = is_double q"
  by (simp add: fl_double_def)

lemma py_float_double:
  assumes "value_double v" "py_float v = Inr x"
  shows "fl_double x"
proof (cases v)
  case (VBool b)
  have "is_double 1" using is_double_of_int [of 1] by simp
  with VBool assms(2) show ?thesis by (auto split: if_splits)
next
  case (VInt n)
  with assms(2) show ?thesis
    by (auto split: pyfloat.splits intro: round_double_is_double)
next
  case (VStr s)
  with assms(2) show ?thesis by (simp add: float_of_str_double)
qed (use assms in \<open>auto simp: value_double_def\<close>)

lemma positive_decimal:
  assumes "value_double v" "to_finite_positive_decimal v b = Inr (Some d)"
  obtains q where "py_float v = Inr (Fin q)" "is_double q" "d = decimal_of_float q" "0 \<le> q"
    "b \<or> 0 < q"
proof -
  have "\<exists>q. py_float v = Inr (Fin q) \<and> d = decimal_of_float q \<and> 0 \<le> q \<and> (b \<or> 0 < q)"
    using assms(2)
    by (auto simp: to_finite_positive_decimal_def split: pyval.splits sum.splits conv_error.splits
        pyfloat.splits if_splits)
  with py_float_double [OF assms(1)] that show ?thesis by auto
qed

lemma authorized_stages:
  assumes "authorize_order r = Inr res" "oa_authorized res"
  obtains amount cap price step min_notional qty notional where
    "check_authority r = Inr ()" "check_amount r = Inr (amount, cap)"
    "check_metadata r amount cap = Inr (price, step, min_notional)"
    "check_normalized r amount cap price step min_notional = Inr (qty, notional)"
    "check_balance r amount cap step min_notional qty notional = Inr ()"
    "oa_side res = side_norm r" "oa_requested_amount res = amount"
    "oa_authorized_max_amount res = cap" "oa_normalized_amount res = dec_float notional"
    "oa_normalized_qty res = dec_float qty"
proof (cases "authorize_stages r")
  case (Inl m)
  with assms stages_deny [of r] have "is_denial (Inr res)"
    by (simp add: authorize_order_def denies_def)
  with assms(2) show ?thesis by (simp add: is_denial_def)
next
  case (Inr res')
  with assms(1) have "authorize_stages r = Inr res" by (simp add: authorize_order_def)
  then show ?thesis
    using that unfolding authorize_stages_def by (auto simp: result_simps)
qed

lemma checked_amount:
  assumes "check_amount r = Inr (amount, cap)"
  shows "py_float (rq_requested_amount r) = Inr amount \<and> fl_finite amount \<and> fl_lt (Fin 0) amount \<and>
    fl_finite cap \<and> fl_le amount cap \<and>
    cap = (case rq_authorized_max_amount r of None \<Rightarrow> amount | Some x \<Rightarrow> x)"
  using assms
  by (auto simp: check_amount_def Let_def result_simps not_fl_le_zero fl_finite_iff not_less not_le
      split: sum.splits conv_error.splits option.splits)

lemma checked_metadata:
  assumes "request_double r" "check_metadata r amount cap = Inr (price, step, min_notional)"
  obtains p s m where "is_double p" "0 < p" "price = decimal_of_float p"
    "is_double s" "0 < s" "step = decimal_of_float s"
    "py_float (rq_min_notional r) = Inr (Fin m)" "is_double m" "0 \<le> m"
    "min_notional = decimal_of_float m"
proof -
  have esc: "or_escape x = Inr a \<longleftrightarrow> x = Inr a" for x :: "conv_error + 'b" and a
    by (cases x) (simp_all add: or_escape_def)
  from assms(2) have dec: "to_finite_positive_decimal (rq_price r) False = Inr (Some price)"
    "to_finite_positive_decimal (rq_amount_precision r) False = Inr (Some step)"
    "to_finite_positive_decimal (rq_min_notional r) True = Inr (Some min_notional)"
    by (auto simp: check_metadata_def Let_def result_simps esc)
  have dbl: "value_double (rq_price r)" "value_double (rq_amount_precision r)"
    "value_double (rq_min_notional r)"
    using assms(1) by (simp_all add: request_double_def)
  obtain p s m where "is_double p" "price = decimal_of_float p" "0 < p"
    "is_double s" "step = decimal_of_float s" "0 < s"
    "py_float (rq_min_notional r) = Inr (Fin m)" "is_double m" "0 \<le> m"
    "min_notional = decimal_of_float m"
    using positive_decimal [OF dbl(1) dec(1)] positive_decimal [OF dbl(2) dec(2)]
      positive_decimal [OF dbl(3) dec(3)] by metis
  then show ?thesis by (intro that)
qed

text \<open>The floats the result reports, compared with the floats the caller gave.\<close>

lemma checked_normalized:
  assumes "request_double r" "check_amount r = Inr (Fin a, Fin c)"
    and "check_metadata r (Fin a) (Fin c) = Inr (price, step, min_notional)"
    and "check_normalized r (Fin a) (Fin c) price step min_notional = Inr (qty, notional)"
  shows "0 < qty \<and> 0 \<le> notional \<and>
    (\<exists>m y. py_float (rq_min_notional r) = Inr (Fin m) \<and> dec_float notional = Fin y \<and> m \<le> y \<and> y \<le> c)"
proof -
  obtain p s m where p: "is_double p" "0 < p" "price = decimal_of_float p"
    and m: "py_float (rq_min_notional r) = Inr (Fin m)" "is_double m" "0 \<le> m"
    "min_notional = decimal_of_float m"
    using assms(1,3) by (rule checked_metadata)
  have amt: "py_float (rq_requested_amount r) = Inr (Fin a)"
    "Fin c = (case rq_authorized_max_amount r of None \<Rightarrow> Fin a | Some x \<Rightarrow> x)"
    using checked_amount [OF assms(2)] by simp_all
  have "is_double c"
    using amt assms(1) py_float_double [of "rq_requested_amount r" "Fin a"]
    by (auto simp: request_double_def split: option.splits)
  from assms(4) have chk: "notional = decimal_mul qty price" "notional \<le> decimal_of_float c"
    "0 < qty" "min_notional \<le> notional"
    by (auto simp: check_normalized_def Let_def result_simps not_less not_le)
  have "0 < price" using p decimal_of_float_pos by simp
  then have nonneg: "0 \<le> notional"
    using chk(1,3) by (simp add: decimal_mul_def decimal_round_nonneg)
  obtain y where y: "dec_float notional = Fin y"
    using round_double_finite [OF \<open>is_double c\<close> nonneg chk(2)] by blast
  have "y \<le> c" using decimal_le_float [OF \<open>is_double c\<close> chk(2) y] .
  moreover have "m \<le> y" using float_le_decimal [OF m(2) _ y] chk(4) m(4) by simp
  ultimately show ?thesis using chk(3) nonneg m(1) y by blast
qed

lemma checked_balance:
  assumes "request_double r" "rq_require_balance_check r" "0 < qty" "0 \<le> notional"
    and "check_balance r amount cap step min_notional qty notional = Inr ()"
  shows "\<not> rq_balance_error r \<and>
    (if side_norm r = ''buy''
     then \<exists>b. py_float (rq_available_quote r) = Inr b \<and> fl_le (dec_float notional) b
     else \<exists>b. py_float (rq_available_base r) = Inr b \<and> fl_le (dec_float qty) b)"
proof -
  have esc: "or_escape x = Inr a \<longleftrightarrow> x = Inr a" for x :: "conv_error + 'b" and a
    by (cases x) (simp_all add: or_escape_def)
  have le: "\<exists>b. py_float v = Inr b \<and> fl_le (dec_float d) b"
    if h: "value_double v" "to_finite_positive_decimal v True = Inr (Some x)" "0 \<le> d" "d \<le> x" for v d x
  proof -
    obtain q where q: "py_float v = Inr (Fin q)" "is_double q" "x = decimal_of_float q"
      using h(1,2) by (rule positive_decimal)
    obtain y where y: "dec_float d = Fin y"
      using round_double_finite [OF q(2) h(3)] h(4) q(3) by blast
    have "y \<le> q" using decimal_le_float [OF q(2) _ y] h(4) q(3) by simp
    with q y show ?thesis by auto
  qed
  have dbl: "value_double (rq_available_quote r)" "value_double (rq_available_base r)"
    using assms(1) by (simp_all add: request_double_def)
  show ?thesis
  proof (cases "side_norm r = ''buy''")
    case True
    with assms(2,5) obtain x where
      "to_finite_positive_decimal (rq_available_quote r) True = Inr (Some x)" "notional \<le> x"
      "\<not> rq_balance_error r"
      by (auto simp: check_balance_def Let_def result_simps esc not_less)
    with le [OF dbl(1) _ assms(4)] True show ?thesis by auto
  next
    case False
    with assms(2,5) obtain x where
      "to_finite_positive_decimal (rq_available_base r) True = Inr (Some x)" "qty \<le> x"
      "\<not> rq_balance_error r"
      by (auto simp: check_balance_def Let_def result_simps esc not_less)
    with le [OF dbl(2)] assms(3) False show ?thesis by auto
  qed
qed

text \<open>The steps of the lot: the quantity is the whole number of them that the amount pays for.\<close>

lemma metadata_read:
  assumes "request_double r" "check_metadata r amount cap = Inr (price, step, min_notional)"
  obtains p s where "py_float (rq_price r) = Inr (Fin p)" "0 < p" "price = decimal_of_float p"
    "py_float (rq_amount_precision r) = Inr (Fin s)" "is_double s" "0 < s" "step = decimal_of_float s"
proof -
  have esc: "or_escape x = Inr a \<longleftrightarrow> x = Inr a" for x :: "conv_error + 'b" and a
    by (cases x) (simp_all add: or_escape_def)
  have dec: "to_finite_positive_decimal (rq_price r) False = Inr (Some price)"
    "to_finite_positive_decimal (rq_amount_precision r) False = Inr (Some step)"
    using assms(2) by (auto simp: check_metadata_def Let_def result_simps esc)
  have dbl: "value_double (rq_price r)" "value_double (rq_amount_precision r)"
    using assms(1) by (simp_all add: request_double_def)
  show ?thesis
    using positive_decimal [OF dbl(1) dec(1)] positive_decimal [OF dbl(2) dec(2)] that by metis
qed

lemma quantity_steps:
  assumes "0 < step" "0 < normalize_quantity (Fin a) price step"
  defines "q \<equiv> decimal_div (decimal_div (decimal_of_float a) price) step"
  shows "\<exists>n :: nat. 0 < n \<and> of_nat n \<le> q \<and> q < of_nat n + 1 \<and>
    normalize_quantity (Fin a) price step = decimal_mul (of_nat n) step"
proof -
  have qty: "normalize_quantity (Fin a) price step = decimal_mul (of_int (truncate_rat q)) step"
    using assms(2) by (auto simp: normalize_quantity_def q_def decimal_floor_def Let_def split: if_splits)
  have "0 < truncate_rat q"
  proof (rule ccontr)
    assume "\<not> 0 < truncate_rat q"
    then have "of_int (truncate_rat q) * step \<le> 0" using assms(1) by (simp add: mult_nonpos_nonneg)
    then have "decimal_mul (of_int (truncate_rat q)) step \<le> 0"
      using decimal_round_nonpos by (simp add: decimal_mul_def)
    with assms(2) qty show False by simp
  qed
  moreover from this have "truncate_rat q = \<lfloor>q\<rfloor>"
    by (auto simp: truncate_rat_def split: if_splits)
  ultimately have "0 < nat \<lfloor>q\<rfloor> \<and> of_nat (nat \<lfloor>q\<rfloor>) \<le> q \<and> q < of_nat (nat \<lfloor>q\<rfloor>) + 1 \<and>
      normalize_quantity (Fin a) price step = decimal_mul (of_nat (nat \<lfloor>q\<rfloor>)) step"
    using qty by (simp add: of_nat_nat) linarith
  then show ?thesis by blast
qed

text \<open>
  C9: An authorized order is never larger than what was authorized, in whole steps of the lot, and never unfunded. The
  side is buy or sell, the authority gates did not deny it, the requested amount is positive
  and within the ceiling, and the amount reported for sending, after decimal normalization and
  conversion back to a float, is at most the ceiling and at least the minimum notional; the quantity is
  a positive whole number of steps, the largest one that the requested amount pays for at the price (in
  the arithmetic of decimals), and the amount is its value; when
  balances apply, no balance error was reported and the quote balance covers the amount of a
  buy, the base balance the quantity of a sell.
\<close>

theorem authorized_is_safe:
  assumes "authorize_order r = Inr res" and "oa_authorized res" and "request_double r"
  shows "\<not> rq_authority_denied r \<and> rq_market_semantics_supported r \<and>
    oa_side res \<in> {''buy'', ''sell''} \<and>
    fl_lt (Fin 0) (oa_requested_amount res) \<and>
    fl_le (oa_requested_amount res) (oa_authorized_max_amount res) \<and>
    (\<forall>x. rq_authorized_max_amount r = Some x \<longrightarrow> oa_authorized_max_amount res = x) \<and>
    fl_le (oa_normalized_amount res) (oa_authorized_max_amount res) \<and>
    (\<exists>m. py_float (rq_min_notional r) = Inr m \<and> fl_le m (oa_normalized_amount res)) \<and>
    (\<exists>a p s q n. py_float (rq_requested_amount r) = Inr (Fin a) \<and> py_float (rq_price r) = Inr (Fin p) \<and>
       py_float (rq_amount_precision r) = Inr (Fin s) \<and> 0 < p \<and> 0 < s \<and> 0 < n \<and>
       q = decimal_div (decimal_div (decimal_of_float a) (decimal_of_float p)) (decimal_of_float s) \<and>
       of_nat n \<le> q \<and> q < of_nat n + 1 \<and>
       oa_normalized_qty res = dec_float (decimal_mul (of_nat n) (decimal_of_float s)) \<and>
       oa_normalized_amount res = dec_float (decimal_mul (decimal_mul (of_nat n) (decimal_of_float s)) (decimal_of_float p))) \<and>
    (rq_require_balance_check r \<longrightarrow> \<not> rq_balance_error r \<and>
       (if oa_side res = ''buy''
        then \<exists>b. py_float (rq_available_quote r) = Inr b \<and> fl_le (oa_normalized_amount res) b
        else \<exists>b. py_float (rq_available_base r) = Inr b \<and> fl_le (oa_normalized_qty res) b))"
  using assms(1,2)
proof (rule authorized_stages)
  fix amount cap price step min_notional qty notional
  assume h: "check_authority r = Inr ()" "check_amount r = Inr (amount, cap)"
    "check_metadata r amount cap = Inr (price, step, min_notional)"
    "check_normalized r amount cap price step min_notional = Inr (qty, notional)"
    "check_balance r amount cap step min_notional qty notional = Inr ()"
    and res: "oa_side res = side_norm r" "oa_requested_amount res = amount"
    "oa_authorized_max_amount res = cap" "oa_normalized_amount res = dec_float notional"
    "oa_normalized_qty res = dec_float qty"
  note amt = checked_amount [OF h(2)]
  have "fl_finite amount" "fl_finite cap" using amt by blast+
  then obtain a c where ac: "amount = Fin a" "cap = Fin c" unfolding fl_finite_iff by blast
  have norm: "0 < qty \<and> 0 \<le> notional \<and>
    (\<exists>m y. py_float (rq_min_notional r) = Inr (Fin m) \<and> dec_float notional = Fin y \<and> m \<le> y \<and> y \<le> c)"
    using checked_normalized [OF assms(3)] h(2-4) unfolding ac by blast
  from h(1) have auth: "\<not> rq_authority_denied r" "rq_market_semantics_supported r"
    "side_norm r \<in> {''buy'', ''sell''}"
    by (auto simp: check_authority_def result_simps)
  have balance: "rq_require_balance_check r \<longrightarrow> \<not> rq_balance_error r \<and>
    (if side_norm r = ''buy''
     then \<exists>b. py_float (rq_available_quote r) = Inr b \<and> fl_le (dec_float notional) b
     else \<exists>b. py_float (rq_available_base r) = Inr b \<and> fl_le (dec_float qty) b)"
    using checked_balance [OF assms(3) _ _ _ h(5)] norm by blast
  obtain p s where ps: "py_float (rq_price r) = Inr (Fin p)" "0 < p" "price = decimal_of_float p"
    "py_float (rq_amount_precision r) = Inr (Fin s)" "is_double s" "0 < s" "step = decimal_of_float s"
    using assms(3) h(3) by (rule metadata_read)
  have made: "qty = normalize_quantity (Fin a) price step" "notional = decimal_mul qty price"
    using h(4) unfolding ac by (auto simp: check_normalized_def Let_def result_simps)
  have "0 < step" using ps(5-7) decimal_of_float_pos by simp
  from quantity_steps [OF this, of a price] norm made(1) obtain n :: nat where n: "0 < n"
    "of_nat n \<le> decimal_div (decimal_div (decimal_of_float a) price) step"
    "decimal_div (decimal_div (decimal_of_float a) price) step < of_nat n + 1" "qty = decimal_mul (of_nat n) step"
    by metis
  have "py_float (rq_requested_amount r) = Inr (Fin a)" using amt ac by simp
  then have steps: "\<exists>a p s q n. py_float (rq_requested_amount r) = Inr (Fin a) \<and> py_float (rq_price r) = Inr (Fin p) \<and>
       py_float (rq_amount_precision r) = Inr (Fin s) \<and> 0 < p \<and> 0 < s \<and> 0 < n \<and>
       q = decimal_div (decimal_div (decimal_of_float a) (decimal_of_float p)) (decimal_of_float s) \<and>
       of_nat n \<le> q \<and> q < of_nat n + 1 \<and>
       dec_float qty = dec_float (decimal_mul (of_nat n) (decimal_of_float s)) \<and>
       dec_float notional = dec_float (decimal_mul (decimal_mul (of_nat n) (decimal_of_float s)) (decimal_of_float p))"
    using ps n made(2) by metis
  have cap: "\<forall>x. rq_authorized_max_amount r = Some x \<longrightarrow> cap = x"
    using amt by simp
  have pos: "fl_lt (Fin 0) amount" "fl_le amount cap" using amt by blast+
  obtain m y where "py_float (rq_min_notional r) = Inr (Fin m)"
    "dec_float notional = Fin y" "m \<le> y" "y \<le> c"
    using norm by blast
  then have "fl_le (dec_float notional) cap"
    "\<exists>m. py_float (rq_min_notional r) = Inr m \<and> fl_le m (dec_float notional)"
    by (auto simp: ac(2))
  with balance steps cap pos auth show ?thesis unfolding res by blast
qed

section \<open>Sample requests\<close>

definition sample_request :: order_request where
  "sample_request = \<lparr>rq_symbol = ''BTC'', rq_side = VStr ''buy'', rq_requested_amount = VInt 4,
     rq_price = VInt 2, rq_amount_precision = VInt 1, rq_min_notional = VInt 1,
     rq_authorized_max_amount = Some (Fin 5), rq_available_quote = VInt 8,
     rq_available_base = VNone, rq_balance_error = False, rq_balance_source = ''t'',
     rq_authority_denied = False, rq_market_semantics_supported = True,
     rq_require_balance_check = True\<rparr>"

lemma ilog10_digit: "1 \<le> q \<Longrightarrow> q < 10 \<Longrightarrow> ilog10 (numeral w) q = 0"
  by (rule ilog10_numeral)

lemma round_even_numeral [simp]: "round_even (numeral n) = numeral n" "round_even 1 = 1"
  using round_even_of_int [of "numeral n"] round_even_of_int [of 1] by simp_all

lemma decimal_of_digit:
  assumes "n \<in> {1, 2, 4, 5, 8}"
  shows "decimal_of_float (of_int n) = of_int n"
proof -
  have one: "is_double (of_int n)" "(1 :: rat) \<le> of_int n" "of_int n < (10 :: rat)"
    using assms by (auto intro!: is_double_of_int [of "_ :: int", simplified])
  have "with_digits (of_int n) 0 1 = Some (n, 0)"
    using one(1) by (simp add: with_digits_def reads_as_def is_double_def)
  moreover have "ilog10 400 (of_int n) = 0" using one by (intro ilog10_digit) simp_all
  moreover have "[1..17] = 1 # [2..17 :: int]" by (simp add: upto.simps)
  ultimately have "shortest (of_int n) = strip_zeros n 0" by (simp add: shortest_def)
  also have "\<dots> = (n, 0)" using assms by (subst strip_zeros.simps) auto
  finally show ?thesis using one by (simp add: decimal_of_float_def)
qed

lemma decimal_digits [simp]:
  "decimal_of_float 1 = 1" "decimal_of_float 2 = 2" "decimal_of_float 4 = 4"
  "decimal_of_float 5 = 5" "decimal_of_float 8 = 8"
  using decimal_of_digit [of 1] decimal_of_digit [of 2] decimal_of_digit [of 4]
    decimal_of_digit [of 5] decimal_of_digit [of 8] by simp_all

lemma decimal_round_digit:
  assumes "n \<in> {1, 2, 4, 5, 8}"
  shows "decimal_round (of_int n) = of_int n"
proof -
  have one: "(1 :: rat) \<le> of_int n" "of_int n < (10 :: rat)" using assms by auto
  define t where "t = (10 :: int) ^ 27"
  have ten: "pow10 (- 27) = 1 / of_int t" "t \<noteq> 0" by (simp_all add: pow10_def t_def)
  have "of_int n / pow10 (- 27) = of_int (n * t)" by (simp add: ten)
  then have "round_even (of_int n / pow10 (- 27)) = n * t"
    by (simp only: round_even_of_int)
  moreover have "of_int (n * t) * pow10 (- 27) = of_int n" by (simp add: ten)
  moreover have "ilog10 2000 \<bar>of_int n\<bar> - 27 = - 27" using one by (simp add: ilog10_digit)
  moreover have "(of_int n :: rat) \<noteq> 0" using one by linarith
  ultimately show ?thesis by (simp only: decimal_round_def Let_def if_False)
qed

lemma decimal_round_digits [simp]:
  "decimal_round 1 = 1" "decimal_round 2 = 2" "decimal_round 4 = 4" "decimal_round 5 = 5"
  "decimal_round 8 = 8"
  using decimal_round_digit [of 1] decimal_round_digit [of 2] decimal_round_digit [of 4]
    decimal_round_digit [of 5] decimal_round_digit [of 8] by simp_all

lemmas authorize_eval = authorize_order_def authorize_stages_def check_authority_def
  check_amount_def check_metadata_def check_normalized_def check_balance_def
  normalize_quantity_def to_finite_positive_decimal_def or_escape_def side_norm_def
  max_or_zero_def raise_if_def decimal_mul_def decimal_div_def decimal_floor_def
  truncate_rat_def py_lower_def lower_char_def py_strip_def is_space_def

lemma sample_authorized:
  "\<exists>res. authorize_order sample_request = Inr res \<and> oa_authorized res \<and>
     oa_normalized_amount res = Fin 4 \<and> oa_authorized_max_amount res = Fin 5 \<and>
     oa_denial_reason res = None"
  by (simp add: authorize_eval sample_request_def)

theorem authorized_is_safe_witness:
  "\<exists>res. authorize_order sample_request = Inr res \<and>
     fl_le (oa_normalized_amount res) (oa_authorized_max_amount res) \<and>
     (\<exists>n :: nat. 0 < n \<and> oa_normalized_qty res = dec_float (decimal_mul (of_nat n) 1))"
proof -
  obtain res where res: "authorize_order sample_request = Inr res" "oa_authorized res"
    using sample_authorized by blast
  have "is_double 5" using is_double_of_int [of 5] by simp
  then have "request_double sample_request"
    by (simp add: request_double_def sample_request_def value_double_def)
  from authorized_is_safe [OF res this] have "fl_le (oa_normalized_amount res) (oa_authorized_max_amount res)"
    "\<exists>s n :: nat. py_float (rq_amount_precision sample_request) = Inr (Fin s) \<and> 0 < n \<and>
       oa_normalized_qty res = dec_float (decimal_mul (of_nat n) (decimal_of_float s))" by blast+
  moreover have "py_float (rq_amount_precision sample_request) = Inr (Fin 1)" by (simp add: sample_request_def)
  ultimately show ?thesis using res(1) decimal_digits(1) by auto
qed

theorem denial_or_authorization_witness:
  "\<exists>res. authorize_order (sample_request\<lparr>rq_authority_denied := True\<rparr>) = Inr res \<and>
     oa_denial_reason res = Some AUTHORITY_DENIED \<and> oa_normalized_amount res = Fin 0"
proof -
  obtain res where res: "authorize_order (sample_request\<lparr>rq_authority_denied := True\<rparr>) = Inr res"
    "oa_denial_reason res = Some AUTHORITY_DENIED"
    by (simp add: authorize_eval sample_request_def deny_def)
  with denial_or_authorization [OF res(1)] show ?thesis by auto
qed

section \<open>Gates\<close>

text \<open>
  Trading is allowed exactly when every gate is in its safe position: the mode supported,
  an exchange present, live mode on and confirmed, paper trading off, and neither a halt, nor
  the safe mode, nor the kill switch engaged; the reason says so.
\<close>

theorem trading_allowed_iff:
  "(fst (evaluate_trading_authority g) \<longleftrightarrow>
     ag_execution_mode_supported g \<and> ag_exchange_present g \<and> ag_live_mode g \<and>
     \<not> ag_paper_trading_enabled g \<and> ag_live_trading_confirmed g \<and> \<not> ag_halted g \<and>
     \<not> ag_safe_mode g \<and> \<not> ag_kill_switch g) \<and>
   (fst (evaluate_trading_authority g) \<longleftrightarrow> snd (evaluate_trading_authority g) = ''authorized'')"
  by (simp_all add: evaluate_trading_authority_def)

section \<open>Values the boundary does not refuse\<close>

text \<open>
  Two kinds of amounts slip past the validation of the boundary. A boolean, which the
  validation of prices and balances rejects explicitly, is authorized as an order of one unit;
  and an integer beyond the range of floats is neither authorized nor denied, the function
  raises \<^verbatim>\<open>OverflowError\<close>.
\<close>

theorem amount_validation_gaps:
  "(\<exists>res. authorize_order (sample_request\<lparr>rq_requested_amount := VBool True, rq_price := VInt 1\<rparr>)
       = Inr res \<and> oa_authorized res \<and> oa_normalized_amount res = Fin 1) \<and>
   to_finite_positive_decimal (VBool True) False = Inr None \<and>
   (\<forall>r n. side_norm r = ''buy'' \<longrightarrow> rq_market_semantics_supported r \<longrightarrow>
      \<not> rq_authority_denied r \<longrightarrow> rq_requested_amount r = VInt n \<longrightarrow>
      float_of_number (VInt n) = None \<longrightarrow> authorize_order r = Inl OverflowError)"
proof (intro conjI allI impI)
  show "\<exists>res. authorize_order (sample_request\<lparr>rq_requested_amount := VBool True, rq_price := VInt 1\<rparr>)
       = Inr res \<and> oa_authorized res \<and> oa_normalized_amount res = Fin 1"
    by (simp add: authorize_eval sample_request_def)
  show "to_finite_positive_decimal (VBool True) False = Inr None"
    by (simp add: to_finite_positive_decimal_def)
next
  fix r n
  assume "side_norm r = ''buy''" "rq_market_semantics_supported r" "\<not> rq_authority_denied r"
    and n: "rq_requested_amount r = VInt n" "float_of_number (VInt n) = None"
  then show "authorize_order r = Inl OverflowError"
    by (simp add: authorize_order_def authorize_stages_def check_authority_def check_amount_def
        raise_if_def Let_def del: float_of_number.simps)
qed

theorem amount_validation_gaps_witness:
  "authorize_order (sample_request\<lparr>rq_requested_amount := VInt (2 ^ 1024)\<rparr>) = Inl OverflowError"
proof -
  let ?r = "sample_request\<lparr>rq_requested_amount := VInt (2 ^ 1024)\<rparr>"
  have "side_norm ?r = ''buy''" "rq_market_semantics_supported ?r" "\<not> rq_authority_denied ?r"
    "rq_requested_amount ?r = VInt (2 ^ 1024)"
    by (simp_all add: sample_request_def authorize_eval)
  with amount_validation_gaps first_overflow show ?thesis by metis
qed

end
