(* ===== verification/PySha256.thy ===== *)
theory PySha256
  imports PyPrelude "HOL-Library.Word"
begin

text \<open>
  \<^verbatim>\<open>hashlib.sha256\<close>, as FIPS 180-4 defines it: padding, the message schedule, the
  compression function on eight 32-bit words with wrapping addition, and the hexadecimal digest.
  A message is a string of code points below 256, one byte each.
\<close>

unbundle bit_operations_syntax

type_synonym sha_word = "32 word"

text \<open>
  The constants are the first 32 bits of the fractional parts of the cube roots of the first 64
  primes, and of the square roots of the first eight. They are computed that way here: the root
  of \<open>p * 2 ^ (32 * k)\<close>, found bit by bit from \<open>2 ^ 36\<close> down, is the k-th root of \<open>p\<close> with 32
  binary digits after the point, and a word keeps just these.
\<close>

definition nat_root :: "nat \<Rightarrow> nat \<Rightarrow> nat" where
  "nat_root k n = fold (\<lambda>b r. if (r + 2 ^ b) ^ k \<le> n then r + 2 ^ b else r) (rev [0..<37]) 0"

definition root_bits :: "nat \<Rightarrow> nat \<Rightarrow> sha_word" where
  "root_bits k p = of_nat (nat_root k (p * 2 ^ (32 * k)))"

definition small_primes :: "nat \<Rightarrow> nat list" where
  "small_primes n = filter (\<lambda>p. list_all (\<lambda>d. p mod d \<noteq> 0) [2..<p]) [2..<n]"

definition sha_k :: "sha_word list" where
  "sha_k = map (root_bits 3) (small_primes 312)"

definition sha_init :: "sha_word list" where
  "sha_init = map (root_bits 2) [2, 3, 5, 7, 11, 13, 17, 19]"

definition sha_pad :: "nat list \<Rightarrow> nat list" where
  "sha_pad bs =
     bs @ [128] @ replicate ((119 - length bs mod 64) mod 64) 0 @
     map (\<lambda>i. (8 * length bs) div 256 ^ i mod 256) (rev [0..<8])"

fun sha_words :: "nat list \<Rightarrow> sha_word list" where
  "sha_words (a # b # c # d # bs) =
     of_nat (((a * 256 + b) * 256 + c) * 256 + d) # sha_words bs"
| "sha_words _ = []"

definition sha_extend :: "sha_word list \<Rightarrow> sha_word list" where
  "sha_extend w =
     (let n = length w; x = w ! (n - 15); y = w ! (n - 2);
          s0 = word_rotr 7 x XOR word_rotr 18 x XOR drop_bit 3 x;
          s1 = word_rotr 17 y XOR word_rotr 19 y XOR drop_bit 10 y
      in w @ [w ! (n - 16) + s0 + w ! (n - 7) + s1])"

fun sha_round :: "sha_word \<times> sha_word \<Rightarrow> sha_word list \<Rightarrow> sha_word list" where
  "sha_round (k, w) [a, b, c, d, e, f, g, h] =
     (let s1 = word_rotr 6 e XOR word_rotr 11 e XOR word_rotr 25 e;
          ch = (e AND f) XOR (NOT e AND g);
          t1 = h + s1 + ch + k + w;
          s0 = word_rotr 2 a XOR word_rotr 13 a XOR word_rotr 22 a;
          maj = (a AND b) XOR (a AND c) XOR (b AND c)
      in [t1 + s0 + maj, a, b, c, d + t1, e, f, g])"
| "sha_round _ s = s"

definition sha_block :: "sha_word list \<Rightarrow> sha_word list \<Rightarrow> sha_word list" where
  "sha_block block state =
     map2 (+) state (fold sha_round (zip sha_k ((sha_extend ^^ 48) block)) state)"

function sha_blocks :: "sha_word list \<Rightarrow> sha_word list \<Rightarrow> sha_word list" where
  "sha_blocks ws state =
     (if ws = [] then state else sha_blocks (drop 16 ws) (sha_block (take 16 ws) state))"
  by pat_completeness auto
termination
  by (relation "measure (\<lambda>(ws, _). length ws)") auto

declare sha_blocks.simps [simp del]

definition hex_digit :: "nat \<Rightarrow> char" where
  "hex_digit d = (if d < 10 then char_of (48 + d) else char_of (87 + d))"

definition hex_word :: "sha_word \<Rightarrow> string" where
  "hex_word w = map (\<lambda>i. hex_digit (unat w div 16 ^ i mod 16)) (rev [0..<8])"

definition sha256_words :: "string \<Rightarrow> sha_word list" where
  "sha256_words s = sha_blocks (sha_words (sha_pad (map of_char s))) sha_init"

definition sha256_hex :: "string \<Rightarrow> string" where
  "sha256_hex s = concat (map hex_word (sha256_words s))"

text \<open>The same digest as bytes.\<close>

definition sha256_bytes :: "string \<Rightarrow> string" where
  "sha256_bytes s = concat (map (\<lambda>w. map (\<lambda>i. char_of (unat w div 256 ^ i mod 256)) (rev [0..<4])) (sha256_words s))"

section \<open>The shape of a digest\<close>

lemma length_sha_round [simp]: "length (sha_round kw s) = length s"
  by (cases "(kw, s)" rule: sha_round.cases) (auto simp: Let_def)

lemma length_sha_fold: "length (fold sha_round kws s) = length s"
  by (induction kws arbitrary: s) simp_all

lemma length_sha_block [simp]: "length (sha_block b s) = length s"
  by (simp add: sha_block_def length_sha_fold)

lemma length_sha_blocks: "length (sha_blocks ws s) = length s"
proof (induction ws s rule: sha_blocks.induct)
  case (1 ws s)
  then show ?case by (subst sha_blocks.simps) simp
qed

lemma length_hex_word [simp]: "length (hex_word w) = 8"
  by (simp add: hex_word_def)

lemma length_concat_hex: "length (concat (map hex_word ws)) = 8 * length ws"
  by (induction ws) simp_all

lemma length_sha256_hex: "length (sha256_hex s) = 64"
  by (simp add: sha256_hex_def sha256_words_def length_concat_hex length_sha_blocks sha_init_def)

definition is_hex :: "char \<Rightarrow> bool" where
  "is_hex c \<longleftrightarrow> c \<in> set ''0123456789abcdef''"

lemma hex_digit_is_hex: "d < 16 \<Longrightarrow> is_hex (hex_digit d)"
proof -
  assume "d < 16"
  then have "d \<in> set [0..<16]" by simp
  moreover have "list_all (\<lambda>d. is_hex (hex_digit d)) [0..<16]"
    by code_simp
  ultimately show ?thesis by (simp add: list_all_iff)
qed

lemma sha256_hex_digits: "list_all is_hex (sha256_hex s)"
  by (auto simp: sha256_hex_def hex_word_def list_all_iff hex_digit_is_hex)

end
