(* ===== verification/OrderIntent.thy ===== *)
theory OrderIntent
  imports PyDecimal PySha256
begin

text \<open>
  The identity part of \<^verbatim>\<open>quant_hedge_ai/agents/execution/order_intent_protocol.py\<close>: the
  canonical form of an order intent, its JSON text, its SHA-256 digest and the client order
  identifier cut from it. Identity is a function of the canonical text alone; \<open>canonical_json_inj\<close>
  says which intents share a text.
\<close>

section \<open>Canonical decimal text\<close>

text \<open>
  \<^verbatim>\<open>Decimal(str(v))\<close>: underscores are dropped, then a sign and a numeral, an infinity or a NaN.
  \<open>None\<close> is \<^verbatim>\<open>InvalidOperation\<close>. (A NaN with a payload, which no number prints, is refused too.)
\<close>

datatype decimal_text = DFinite bool nat int | DInfinite bool | DNaN bool

definition unsigned_decimal :: "bool \<Rightarrow> string \<Rightarrow> decimal_text option" where
  "unsigned_decimal neg s =
     (if s = ''inf'' \<or> s = ''infinity'' then Some (DInfinite neg)
      else if s = ''nan'' then Some (DNaN neg)
      else map_option (\<lambda>(m, k). DFinite neg m k) (decimal_parts s))"

definition parse_decimal :: "string \<Rightarrow> decimal_text option" where
  "parse_decimal s =
     (case filter (\<lambda>c. c \<noteq> CHR ''_'') (py_lower (py_strip s)) of
        [] \<Rightarrow> None
      | c # t \<Rightarrow>
          if c = CHR ''-'' then unsigned_decimal True t
          else if c = CHR ''+'' then unsigned_decimal False t
          else unsigned_decimal False (c # t))"

text \<open>\<^verbatim>\<open>normalize()\<close>: 28 significant digits, ties to even, no trailing zeros; zero has exponent 0.\<close>

definition normalize_parts :: "nat \<Rightarrow> int \<Rightarrow> nat \<times> int" where
  "normalize_parts m k =
     (let n = length (show_nat m); d = n - 28;
          r = (if n \<le> 28 then int m else round_even (of_nat m / 10 ^ d))
      in if r = 0 then (0, 0)
         else case strip_zeros r (k + (if n \<le> 28 then 0 else int d)) of (r', k') \<Rightarrow> (nat r', k'))"

text \<open>\<^verbatim>\<open>format(d, "f")\<close>.\<close>

definition plain_notation :: "nat \<Rightarrow> int \<Rightarrow> string" where
  "plain_notation m k =
     (let ds = show_nat m; p = int (length ds) + k in
      if 0 \<le> k then ds @ zeros k
      else if p \<le> 0 then ''0.'' @ zeros (- p) @ ds
      else take (nat p) ds @ ''.'' @ drop (nat p) ds)"

fun decimal_plain_text :: "decimal_text \<Rightarrow> string" where
  "decimal_plain_text (DFinite neg m k) =
     (case normalize_parts m k of (m', k') \<Rightarrow> (if neg then ''-'' else []) @ plain_notation m' k')"
| "decimal_plain_text (DInfinite neg) = (if neg then ''-'' else []) @ ''Infinity''"
| "decimal_plain_text (DNaN neg) = (if neg then ''-'' else []) @ ''NaN''"

datatype intent_error = MissingCausalIdentity | UnsupportedSide | InvalidDecimal

definition norm_decimal_str :: "pyval \<Rightarrow> intent_error + string" where
  "norm_decimal_str v =
     (if v = VNone then Inr ''null''
      else bindE (or_raise InvalidDecimal (parse_decimal (py_str v))) (\<lambda>d.
        let text = decimal_plain_text d
        in Inr (if text = ''-0'' \<or> text = ''-0.0'' then ''0'' else text)))"

section \<open>Intents\<close>

record order_intent =
  oi_schema_version :: int
  oi_namespace :: string
  oi_causal_id :: string
  oi_account_scope :: string
  oi_symbol :: string
  oi_side :: string
  oi_order_type :: string
  oi_amount :: string
  oi_price :: "string option"
  oi_reduce_only :: bool
  oi_position_ref :: "string option"

definition schema_version :: int where
  "schema_version = 1"

definition build_order_intent ::
  "string \<Rightarrow> string option \<Rightarrow> string \<Rightarrow> string \<Rightarrow> string \<Rightarrow> string \<Rightarrow> pyval \<Rightarrow> pyval \<Rightarrow> bool
     \<Rightarrow> string option \<Rightarrow> intent_error + order_intent" where
  "build_order_intent namespace causal account symbol sd order_type amount price reduce_only ref =
     (case causal of
        None \<Rightarrow> Inl MissingCausalIdentity
      | Some c \<Rightarrow>
          bindE (raise_if (py_strip c = []) MissingCausalIdentity) (\<lambda>_.
          let side_norm = py_lower (py_strip sd) in
          bindE (raise_if (side_norm \<notin> set [''buy'', ''sell'']) UnsupportedSide) (\<lambda>_.
          bindE (norm_decimal_str amount) (\<lambda>amount_text.
          bindE (if price = VNone then Inr None
                 else bindE (norm_decimal_str price) (\<lambda>t. Inr (Some t))) (\<lambda>price_text.
            Inr \<lparr>oi_schema_version = schema_version, oi_namespace = namespace,
                 oi_causal_id = py_strip c, oi_account_scope = account, oi_symbol = symbol,
                 oi_side = side_norm, oi_order_type = order_type, oi_amount = amount_text,
                 oi_price = price_text, oi_reduce_only = reduce_only,
                 oi_position_ref = ref\<rparr>)))))"

section \<open>Canonical JSON\<close>

text \<open>\<^verbatim>\<open>json.dumps\<close> of a string in its default, ASCII-only form.\<close>

definition json_char :: "char \<Rightarrow> string" where
  "json_char c =
     (let n = (of_char c :: nat) in
      if c = CHR 0x22 then [CHR 0x5C, CHR 0x22]
      else if c = CHR 0x5C then [CHR 0x5C, CHR 0x5C]
      else if n = 10 then [CHR 0x5C, CHR ''n'']
      else if n = 13 then [CHR 0x5C, CHR ''r'']
      else if n = 9 then [CHR 0x5C, CHR ''t'']
      else if n = 8 then [CHR 0x5C, CHR ''b'']
      else if n = 12 then [CHR 0x5C, CHR ''f'']
      else if 32 \<le> n \<and> n \<le> 126 then [c]
      else [CHR 0x5C, CHR ''u'', CHR ''0'', CHR ''0'', hex_digit (n div 16), hex_digit (n mod 16)])"

definition json_str :: "string \<Rightarrow> string" where
  "json_str s = [CHR 0x22] @ concat (map json_char s) @ [CHR 0x22]"

text \<open>One member of the object: a comma unless it is the first, the key, the value.\<close>

definition json_field :: "string \<Rightarrow> string \<Rightarrow> string" where
  "json_field key val = json_str key @ '':'' @ val"

definition null_text :: "string option \<Rightarrow> string" where
  "null_text v = (case v of None \<Rightarrow> ''null'' | Some t \<Rightarrow> t)"

definition canonical_fields :: "order_intent \<Rightarrow> (string \<times> string) list" where
  "canonical_fields i =
     [(''schema_version'', show_int (oi_schema_version i)),
      (''namespace'', json_str (oi_namespace i)),
      (''causal_id'', json_str (oi_causal_id i)),
      (''account_scope'', json_str (oi_account_scope i)),
      (''symbol'', json_str (oi_symbol i)),
      (''side'', json_str (oi_side i)),
      (''order_type'', json_str (oi_order_type i)),
      (''amount'', json_str (oi_amount i)),
      (''price'', json_str (null_text (oi_price i))),
      (''reduce_only'', if oi_reduce_only i then ''true'' else ''false''),
      (''position_ref'', json_str (null_text (oi_position_ref i)))]"

definition json_object :: "(string \<times> string) list \<Rightarrow> string" where
  "json_object kvs =
     ''{'' @ concat (map (\<lambda>(first, (k, v)). (if first then [] else '','') @ json_field k v)
                      (zip (True # replicate (length kvs - 1) False) kvs)) @ ''}''"

definition canonical_json :: "order_intent \<Rightarrow> string" where
  "canonical_json i = json_object (canonical_fields i)"

definition full_digest :: "order_intent \<Rightarrow> string" where
  "full_digest i = sha256_hex (canonical_json i)"

text \<open>\<^verbatim>\<open>s[:n]\<close>; a negative bound counts from the end.\<close>

definition py_prefix :: "string \<Rightarrow> int \<Rightarrow> string" where
  "py_prefix s n = (if 0 \<le> n then take (nat n) s else take (length s - nat (- n)) s)"

definition client_order_id :: "order_intent \<Rightarrow> int \<Rightarrow> string" where
  "client_order_id i max_len =
     (let prefix = ''reb'' @ show_int (oi_schema_version i);
          remaining = max_len - int (length prefix);
          frag = py_prefix (full_digest i) (if remaining \<le> 8 then 8 else remaining)
      in py_prefix (prefix @ frag) max_len)"

section \<open>Which intents share a text\<close>

lemma hex_digit_code: "d < 16 \<Longrightarrow> (of_char (hex_digit d) :: nat) = (if d < 10 then 48 + d else 87 + d)"
  by (simp add: hex_digit_def)

lemma hex_digit_inj: "a < 16 \<Longrightarrow> b < 16 \<Longrightarrow> hex_digit a = hex_digit b \<Longrightarrow> a = b"
proof -
  assume ab: "a < 16" "b < 16" "hex_digit a = hex_digit b"
  have "(of_char (hex_digit a) :: nat) = of_char (hex_digit b)" using ab(3) by (rule arg_cong)
  then have "(if a < 10 then 48 + a else 87 + a) = (if b < 10 then 48 + b else 87 + b)"
    unfolding hex_digit_code [OF ab(1)] hex_digit_code [OF ab(2)] .
  then show "a = b" by (simp split: if_split_asm)
qed

lemma hex_pair_inj:
  assumes "hex_digit (m div 16) = hex_digit (n div 16)" "hex_digit (m mod 16) = hex_digit (n mod 16)"
    "m < 256" "n < 256"
  shows "m = n"
proof -
  have "m div 16 = n div 16" using assms by (intro hex_digit_inj) auto
  moreover have "m mod 16 = n mod 16" using assms(2) by (intro hex_digit_inj) auto
  ultimately show ?thesis by (metis mult_div_mod_eq)
qed

lemma json_char_cancel:
  "json_char c @ t = json_char d @ u \<longleftrightarrow> c = d \<and> t = u"
proof
  assume eq: "json_char c @ t = json_char d @ u"
  have n: "(of_char c :: nat) < 256" "(of_char d :: nat) < 256" by (rule of_char_less)+
  have inj: "(of_char c :: nat) = of_char d \<Longrightarrow> c = d" by (metis char_of_char)
  show "c = d \<and> t = u"
    using eq hex_pair_inj [of "of_char c" "of_char d"] n inj
    by (auto simp: json_char_def Let_def split: if_splits)
qed simp

lemma json_char_no_quote: "\<exists>x xs. json_char c = x # xs \<and> x \<noteq> CHR 0x22"
  by (auto simp: json_char_def Let_def)

lemma json_body_cancel:
  "concat (map json_char s) @ CHR 0x22 # t = concat (map json_char s') @ CHR 0x22 # t' \<longleftrightarrow>
     s = s' \<and> t = t'"
proof (induction s arbitrary: s')
  case Nil
  show ?case
  proof (cases s')
    case (Cons d s'')
    with json_char_no_quote [of d] show ?thesis by auto
  qed simp
next
  case (Cons c s)
  show ?case
  proof (cases s')
    case Nil
    with json_char_no_quote [of c] show ?thesis by auto
  next
    case (Cons d s'')
    then show ?thesis using Cons.IH by (simp add: json_char_cancel)
  qed
qed

lemma json_str_cancel: "json_str s @ t = json_str s' @ t' \<longleftrightarrow> s = s' \<and> t = t'"
  by (simp add: json_str_def json_body_cancel)

lemma json_str_inj: "json_str s = json_str s' \<longleftrightarrow> s = s'"
  using json_str_cancel [of s "[]" s' "[]"] by simp

lemma digits_cancel:
  assumes "\<not> is_digit c" "\<not> is_digit d" "list_all is_digit ds" "list_all is_digit es"
  shows "ds @ c # t = es @ d # u \<longleftrightarrow> ds = es \<and> c # t = d # u"
proof
  assume eq: "ds @ c # t = es @ d # u"
  have "takeWhile is_digit (ds @ c # t) = ds" "takeWhile is_digit (es @ d # u) = es"
    using assms by (simp_all add: takeWhile_append list_all_iff)
  with eq have "ds = es" by metis
  with eq show "ds = es \<and> c # t = d # u" by simp
qed simp

lemma show_int_cancel: "show_int m @ CHR '','' # t = show_int n @ CHR '','' # u \<longleftrightarrow> m = n \<and> t = u"
proof -
  have comma: "\<not> is_digit (CHR '','')" "\<not> is_digit (CHR ''-'')" by (simp_all add: is_digit_def)
  have nodash: "show_nat k @ x \<noteq> CHR ''-'' # y" for k x y
    using show_nat_digits [of k] show_nat_nonempty [of k] comma(2) by (cases "show_nat k") auto
  show ?thesis
    using nodash nodash [symmetric]
    by (auto simp: show_int_def digits_cancel [OF comma(1) comma(1) show_nat_digits show_nat_digits]
        dest!: show_nat_inj)
qed

lemma canonical_json_expand:
  "canonical_json i =
     ''{'' @ json_str ''schema_version'' @ '':'' @ show_int (oi_schema_version i) @ CHR '','' #
     json_str ''namespace'' @ '':'' @ json_str (oi_namespace i) @ '','' @
     json_str ''causal_id'' @ '':'' @ json_str (oi_causal_id i) @ '','' @
     json_str ''account_scope'' @ '':'' @ json_str (oi_account_scope i) @ '','' @
     json_str ''symbol'' @ '':'' @ json_str (oi_symbol i) @ '','' @
     json_str ''side'' @ '':'' @ json_str (oi_side i) @ '','' @
     json_str ''order_type'' @ '':'' @ json_str (oi_order_type i) @ '','' @
     json_str ''amount'' @ '':'' @ json_str (oi_amount i) @ '','' @
     json_str ''price'' @ '':'' @ json_str (null_text (oi_price i)) @ '','' @
     json_str ''reduce_only'' @ '':'' @ (if oi_reduce_only i then ''true'' else ''false'') @ '','' @
     json_str ''position_ref'' @ '':'' @ json_str (null_text (oi_position_ref i)) @ ''}''"
  by (simp add: canonical_json_def canonical_fields_def json_object_def json_field_def
      numeral_eq_Suc)

text \<open>
  The canonical text determines the intent: two intents have the same JSON, hence the same
  input to the digest, exactly when they agree in every field, except that an absent price or
  position reference cannot be told from the text \<^verbatim>\<open>null\<close>.
\<close>

theorem canonical_json_inj:
  "canonical_json i = canonical_json j \<longleftrightarrow>
     oi_schema_version i = oi_schema_version j \<and> oi_namespace i = oi_namespace j \<and>
     oi_causal_id i = oi_causal_id j \<and> oi_account_scope i = oi_account_scope j \<and>
     oi_symbol i = oi_symbol j \<and> oi_side i = oi_side j \<and> oi_order_type i = oi_order_type j \<and>
     oi_amount i = oi_amount j \<and> null_text (oi_price i) = null_text (oi_price j) \<and>
     oi_reduce_only i = oi_reduce_only j \<and>
     null_text (oi_position_ref i) = null_text (oi_position_ref j)"
  unfolding canonical_json_expand
  by (auto simp: json_str_cancel json_str_inj show_int_cancel)

section \<open>The client order identifier\<close>

lemma built_intent:
  assumes "build_order_intent namespace causal account symbol sd ot amount price ro ref = Inr i"
  shows "oi_schema_version i = 1 \<and> oi_causal_id i \<noteq> [] \<and> oi_side i \<in> {''buy'', ''sell''} \<and>
    (\<exists>c. causal = Some c \<and> oi_causal_id i = py_strip c) \<and>
    norm_decimal_str amount = Inr (oi_amount i)"
  using assms
  by (auto simp: build_order_intent_def Let_def result_simps schema_version_def split: option.splits)

lemma show_int_one: "show_int 1 = ''1''"
  by (simp add: show_int_def show_nat_digit digit_char_def char_of_def bit_0)

text \<open>
  Every intent the constructor builds has a causal identity and a valid side, and its
  client order identifier is exactly 32 characters: the version prefix and the first 28 digits
  of its digest, nothing but lower-case hexadecimal after the prefix.
\<close>

theorem client_order_id_shape:
  assumes "build_order_intent namespace causal account symbol sd ot amount price ro ref = Inr i"
  shows "oi_causal_id i \<noteq> [] \<and> oi_side i \<in> {''buy'', ''sell''} \<and>
    length (client_order_id i 32) = 32 \<and>
    client_order_id i 32 = ''reb1'' @ take 28 (full_digest i) \<and>
    list_all is_hex (drop 4 (client_order_id i 32))"
proof -
  note b = built_intent [OF assms]
  have len: "length (full_digest i) = 64" by (simp add: full_digest_def length_sha256_hex)
  have cid: "client_order_id i 32 = ''reb1'' @ take 28 (full_digest i)"
    using b len by (simp add: client_order_id_def py_prefix_def show_int_one Let_def)
  have "list_all is_hex (take 28 (full_digest i))"
    using sha256_hex_digits [of "canonical_json i"]
    by (auto simp: full_digest_def list_all_iff dest: in_set_takeD)
  with b cid len show ?thesis by simp
qed

definition sample_intent :: order_intent where
  "sample_intent = \<lparr>oi_schema_version = 1, oi_namespace = ''N'', oi_causal_id = ''d1'',
     oi_account_scope = ''mexc'', oi_symbol = ''BTC'', oi_side = ''buy'', oi_order_type = ''market'',
     oi_amount = ''5'', oi_price = None, oi_reduce_only = False, oi_position_ref = None\<rparr>"

lemma sample_built:
  "build_order_intent ''N'' (Some '' d1'') ''mexc'' ''BTC'' ''BUY'' ''market'' (VStr ''5.0'') VNone False
     None = Inr sample_intent"
  by (simp add: build_order_intent_def py_strip_def is_space_def py_lower_def lower_char_def Let_def
      char_of_def bit_0 norm_decimal_str_def parse_decimal_def unsigned_decimal_def
      decimal_parts_def break_at_def optional_digits_def is_digit_def read_digits_def
      digit_val_def normalize_parts_def show_nat_ge show_nat_digit strip_zeros.simps
      plain_notation_def zeros_def digit_char_def sample_intent_def schema_version_def)

theorem client_order_id_shape_witness:
  "length (client_order_id sample_intent 32) = 32 \<and> oi_side sample_intent \<in> {''buy'', ''sell''}"
  using client_order_id_shape [OF sample_built] by blast

section \<open>Equal amounts have equal texts\<close>

lemma strip_zeros_normal: "m \<noteq> 0 \<Longrightarrow> strip_zeros m k = (a, b) \<Longrightarrow> a mod 10 \<noteq> 0"
proof (induction m k rule: strip_zeros.induct)
  case (1 m k)
  show ?case
  proof (cases "m mod 10 = 0")
    case True
    then have "m div 10 \<noteq> 0" using "1.prems"(1) by presburger
    moreover have "strip_zeros (m div 10) (k + 1) = (a, b)"
      using "1.prems" True by (subst (asm) strip_zeros.simps) simp
    ultimately show ?thesis using "1.IH" "1.prems"(1) True by simp
  next
    case False
    with "1.prems" show ?thesis by (subst (asm) strip_zeros.simps) auto
  qed
qed

lemma normal_unique_le:
  fixes a c :: int
  assumes "of_int a * pow10 b = of_int c * pow10 d" "b \<le> d" "a mod 10 \<noteq> 0"
  shows "a = c \<and> b = d"
proof -
  obtain n where d: "d = b + int n" using assms(2) by (metis zle_iff_zadd)
  have "pow10 d = pow10 b * of_int (10 ^ n)"
    using pow10_add [of b "int n"] by (simp add: d pow10_def [of "int n"])
  with assms(1) have "(of_int a :: rat) = of_int (c * 10 ^ n)"
    using pow10_pos [of b] by simp
  then have a: "a = c * 10 ^ n" by (simp only: of_int_eq_iff)
  show ?thesis
  proof (cases n)
    case 0
    with a d show ?thesis by simp
  next
    case (Suc m)
    then have "a mod 10 = 0" by (simp add: a)
    with assms(3) show ?thesis by simp
  qed
qed

lemma normal_unique:
  assumes "of_int a * pow10 b = of_int c * pow10 d" "a mod 10 \<noteq> 0" "c mod 10 \<noteq> 0"
  shows "a = c \<and> b = d"
proof (cases "b \<le> d")
  case True
  with assms normal_unique_le show ?thesis by blast
next
  case False
  with normal_unique_le [of c d a b] assms show ?thesis by auto
qed

lemma normalize_parts_unique:
  assumes same: "of_nat m * pow10 k = of_nat n * pow10 l"
    and short: "length (show_nat m) \<le> 28" "length (show_nat n) \<le> 28"
  shows "normalize_parts m k = normalize_parts n l"
proof (cases "m = 0")
  case True
  then have "n = 0" using same pow10_pos [of l] by simp
  with True show ?thesis by (simp add: normalize_parts_def show_nat_digit)
next
  case False
  then have n: "n \<noteq> 0"
    using same pow10_pos [of k] by (metis less_irrefl mult_eq_0_iff of_nat_eq_0_iff)
  obtain a b where ab: "strip_zeros (int m) k = (a, b)" by force
  obtain c d where cd: "strip_zeros (int n) l = (c, d)" by force
  have "of_int a * pow10 b = of_int c * pow10 d"
    using strip_zeros_value [OF ab] strip_zeros_value [OF cd] same by simp
  then have "a = c \<and> b = d"
    using normal_unique strip_zeros_normal [OF _ ab] strip_zeros_normal [OF _ cd] False n by simp
  with ab cd False n short show ?thesis by (simp add: normalize_parts_def Let_def)
qed

text \<open>
  The amount in an intent depends on its numerical value alone. Two amounts of up to 28
  digits, written however the caller likes (trailing zeros, exponents, a float or a string),
  get the same canonical text as soon as they denote the same number, so they cannot give one
  logical order two identities.
\<close>

theorem equal_amounts_equal_text:
  assumes "parse_decimal (py_str v) = Some (DFinite neg m k)"
    and "parse_decimal (py_str w) = Some (DFinite neg n l)"
    and "of_nat m * pow10 k = of_nat n * pow10 l"
    and "length (show_nat m) \<le> 28" and "length (show_nat n) \<le> 28"
    and "v \<noteq> VNone" and "w \<noteq> VNone"
  shows "norm_decimal_str v = norm_decimal_str w"
  using assms by (simp add: norm_decimal_str_def normalize_parts_unique [OF assms(3-5)])

theorem equal_amounts_equal_text_witness:
  "norm_decimal_str (VStr ''5.0'') = norm_decimal_str (VStr ''5'')"
proof (rule equal_amounts_equal_text)
  show "parse_decimal (py_str (VStr ''5.0'')) = Some (DFinite False 50 (- 1))"
    "parse_decimal (py_str (VStr ''5'')) = Some (DFinite False 5 0)"
    by (simp_all add: parse_decimal_def py_strip_def is_space_def py_lower_def lower_char_def
        Let_def unsigned_decimal_def decimal_parts_def break_at_def optional_digits_def
        is_digit_def read_digits_def digit_val_def)
qed (simp_all add: pow10_def show_nat_ge show_nat_digit)

end
