(* ===== verification/OrderJournal.thy ===== *)
theory OrderJournal
  imports OrderIntent
begin

text \<open>
  The journal part of \<^verbatim>\<open>quant_hedge_ai/agents/execution/order_intent_protocol.py\<close>: the intent
  states and their allowed transitions, the append-only file and its reader, and
  \<^verbatim>\<open>append_transition\<close>. The file is modelled by its readable records, in order, and the shape of
  its end: a write can be cut off by a crash, and because a line is appended where the file
  ends, the next line is glued to what the crash left. Each write takes an \<open>io\<close> argument that
  says how far it got.
\<close>

section \<open>States\<close>

datatype intent_state =
    INTENT_RECORDED
  | SUBMISSION_STARTED
  | ACKNOWLEDGED
  | EXPLICITLY_REJECTED
  | RECONCILE_REQUIRED
  | RECONCILED_FOUND
  | RECONCILED_NOT_FOUND_PENDING
  | CANCELLED
  | COLLISION

fun allowed_transitions :: "intent_state \<Rightarrow> intent_state list" where
  "allowed_transitions INTENT_RECORDED = [SUBMISSION_STARTED]"
| "allowed_transitions SUBMISSION_STARTED = [ACKNOWLEDGED, EXPLICITLY_REJECTED, RECONCILE_REQUIRED]"
| "allowed_transitions RECONCILE_REQUIRED =
     [RECONCILED_FOUND, RECONCILED_NOT_FOUND_PENDING, RECONCILE_REQUIRED, COLLISION]"
| "allowed_transitions RECONCILED_NOT_FOUND_PENDING =
     [RECONCILED_FOUND, RECONCILED_NOT_FOUND_PENDING, COLLISION]"
| "allowed_transitions ACKNOWLEDGED = [CANCELLED]"
| "allowed_transitions EXPLICITLY_REJECTED = []"
| "allowed_transitions RECONCILED_FOUND = [CANCELLED]"
| "allowed_transitions CANCELLED = []"
| "allowed_transitions COLLISION = []"

definition legal_step :: "intent_state \<Rightarrow> intent_state \<Rightarrow> bool" where
  "legal_step a b \<longleftrightarrow> a = b \<or> b \<in> set (allowed_transitions a)"

section \<open>Records and the file\<close>

type_synonym candidate = "(string, pyval) dict"

type_synonym canonical_payload = "(string \<times> string) list"

datatype evidence = Matches "candidate list" | OneCandidate candidate

record causal_refs =
  cr_namespace :: string
  cr_causal_id :: string
  cr_position_ref :: "string option"

record journal_record =
  jr_intent_digest :: string
  jr_client_order_id :: string
  jr_canonical_payload :: "canonical_payload option"
  jr_causal_refs :: "causal_refs option"
  jr_authorization_ref :: "string option"
  jr_state :: intent_state
  jr_attempt :: int
  jr_ts :: pyfloat
  jr_exchange_order_id :: pyval
  jr_error_category :: "string option"
  jr_evidence :: "evidence option"

text \<open>
  The end of the file: a complete line, part of a line (unreadable), or a complete record whose
  newline is missing (the last readable record).
\<close>

datatype file_end = Clean | PartialLine | NoNewline

record journal =
  j_records :: "journal_record list"
  j_end :: file_end

definition empty_journal :: journal where
  "empty_journal = \<lparr>j_records = [], j_end = Clean\<rparr>"

text \<open>
  The fate of one write: complete and synced, complete but with a flush or sync that raises, not
  begun, or cut off within the line or just before its newline.
\<close>

datatype io = Written | WrittenUnsynced | NotWritten | TornPartial | TornNoNewline

text \<open>
  What is still readable once more bytes follow the present end: gluing makes an unterminated
  line unreadable, the last record included if only its newline was missing.
\<close>

definition settled_records :: "journal \<Rightarrow> journal_record list" where
  "settled_records j = (if j_end j = NoNewline then butlast (j_records j) else j_records j)"

fun write_line :: "io \<Rightarrow> journal_record \<Rightarrow> journal \<Rightarrow> journal" where
  "write_line Written r j =
     \<lparr>j_records = settled_records j @ (if j_end j = Clean then [r] else []), j_end = Clean\<rparr>"
| "write_line WrittenUnsynced r j =
     \<lparr>j_records = settled_records j @ (if j_end j = Clean then [r] else []), j_end = Clean\<rparr>"
| "write_line NotWritten r j = j"
| "write_line TornPartial r j = \<lparr>j_records = settled_records j, j_end = PartialLine\<rparr>"
| "write_line TornNoNewline r j =
     (if j_end j = Clean then \<lparr>j_records = j_records j @ [r], j_end = NoNewline\<rparr>
      else \<lparr>j_records = settled_records j, j_end = PartialLine\<rparr>)"

definition latest_by_digest :: "journal \<Rightarrow> (string, journal_record) dict" where
  "latest_by_digest j =
     fold (\<lambda>r d. if jr_intent_digest r = [] then d else dict_set d (jr_intent_digest r) r)
       (j_records j) []"

definition journal_get :: "journal \<Rightarrow> string \<Rightarrow> journal_record option" where
  "journal_get j digest = dict_get (latest_by_digest j) digest"

definition find_by_client_order_id :: "journal \<Rightarrow> string \<Rightarrow> journal_record option" where
  "find_by_client_order_id j cid =
     List.find (\<lambda>r. jr_client_order_id r = cid) (map snd (latest_by_digest j))"

section \<open>Appending a transition\<close>

datatype append_error = InvalidTransition intent_state intent_state | WriteError

text \<open>The optional arguments of \<^verbatim>\<open>append_transition\<close>, each \<open>None\<close> or \<open>VNone\<close> by default.\<close>

record append_args =
  ap_payload :: "canonical_payload option"
  ap_causal_refs :: "causal_refs option"
  ap_authorization_ref :: "string option"
  ap_exchange_order_id :: pyval
  ap_error_category :: "string option"
  ap_evidence :: "evidence option"

definition no_args :: append_args where
  "no_args = \<lparr>ap_payload = None, ap_causal_refs = None, ap_authorization_ref = None,
     ap_exchange_order_id = VNone, ap_error_category = None, ap_evidence = None\<rparr>"

definition inherit :: "'a option \<Rightarrow> ('r \<Rightarrow> 'a option) \<Rightarrow> 'r option \<Rightarrow> 'a option" where
  "inherit given field existing =
     (case given of Some x \<Rightarrow> Some x
      | None \<Rightarrow> (case existing of None \<Rightarrow> None | Some r \<Rightarrow> field r))"

definition new_record ::
  "journal \<Rightarrow> pyfloat \<Rightarrow> string \<Rightarrow> string \<Rightarrow> intent_state \<Rightarrow> append_args \<Rightarrow> journal_record" where
  "new_record j now digest cid st a =
     (let existing = journal_get j digest in
      \<lparr>jr_intent_digest = digest, jr_client_order_id = cid,
       jr_canonical_payload = inherit (ap_payload a) jr_canonical_payload existing,
       jr_causal_refs = inherit (ap_causal_refs a) jr_causal_refs existing,
       jr_authorization_ref = inherit (ap_authorization_ref a) jr_authorization_ref existing,
       jr_state = st, jr_attempt = 1, jr_ts = now,
       jr_exchange_order_id = ap_exchange_order_id a,
       jr_error_category = ap_error_category a, jr_evidence = ap_evidence a\<rparr>)"

text \<open>
  An append reads the file, checks the transition and forms the record; then it writes it. Another
  process can write between the two halves.
\<close>

definition prepare_append ::
  "pyfloat \<Rightarrow> journal \<Rightarrow> string \<Rightarrow> string \<Rightarrow> intent_state \<Rightarrow> append_args
     \<Rightarrow> append_error + journal_record" where
  "prepare_append now j digest cid st a =
     (let refused = (case journal_get j digest of
                       None \<Rightarrow> None
                     | Some e \<Rightarrow> if st \<noteq> jr_state e \<and> st \<notin> set (allowed_transitions (jr_state e))
                                 then Some (jr_state e) else None) in
      case refused of
        Some prev \<Rightarrow> Inl (InvalidTransition prev st)
      | None \<Rightarrow> Inr (new_record j now digest cid st a))"

definition append_transition ::
  "io \<Rightarrow> pyfloat \<Rightarrow> journal \<Rightarrow> string \<Rightarrow> string \<Rightarrow> intent_state \<Rightarrow> append_args
     \<Rightarrow> journal \<times> (append_error + journal_record)" where
  "append_transition io now j digest cid st a =
     (case prepare_append now j digest cid st a of
        Inl e \<Rightarrow> (j, Inl e)
      | Inr r \<Rightarrow> (write_line io r j, if io = Written then Inr r else Inl WriteError))"

section \<open>Looking up\<close>

text \<open>The records of one intent, oldest first; \<^verbatim>\<open>get\<close> returns the last.\<close>

definition history :: "string \<Rightarrow> journal_record list \<Rightarrow> journal_record list" where
  "history digest rs = filter (\<lambda>r. jr_intent_digest r = digest) rs"

lemma latest_fold:
  "dict_get (fold (\<lambda>r d. if jr_intent_digest r = [] then d else dict_set d (jr_intent_digest r) r)
      rs d0) digest =
     (if digest = [] \<or> history digest rs = [] then dict_get d0 digest
      else Some (last (history digest rs)))"
  by (induction rs arbitrary: d0) (auto simp: history_def)

lemma journal_get_history:
  "journal_get j digest =
     (if digest = [] \<or> history digest (j_records j) = [] then None
      else Some (last (history digest (j_records j))))"
  by (simp add: journal_get_def latest_by_digest_def latest_fold)

lemma history_Nil [simp]: "history digest [] = []"
  by (simp add: history_def)

lemma history_append: "history digest (xs @ ys) = history digest xs @ history digest ys"
  by (simp add: history_def)

lemma history_one: "history digest [r] = (if jr_intent_digest r = digest then [r] else [])"
  by (simp add: history_def)

section \<open>What a write keeps\<close>

text \<open>
  The interface a coordinator needs from its journal: there are identifiers the journal keeps
  for good, an append never loses one, an append that succeeds leaves the end clean, and an
  append that succeeds on a clean end makes its record's identifier one of them.
\<close>

locale durable_log =
  fixes append :: "'i \<Rightarrow> 'r \<Rightarrow> 'j \<Rightarrow> 'j"
    and ok :: "'i \<Rightarrow> bool"
    and ident :: "'r \<Rightarrow> 'd"
    and clean :: "'j \<Rightarrow> bool"
    and kept :: "'j \<Rightarrow> 'd set"
    and found :: "'j \<Rightarrow> 'd \<Rightarrow> bool"
  assumes append_keeps: "kept j \<subseteq> kept (append i r j)"
    and append_cleans: "ok i \<Longrightarrow> clean (append i r j)"
    and append_adds: "clean j \<Longrightarrow> ok i \<Longrightarrow> ident r \<in> kept (append i r j)"
    and kept_found: "d \<in> kept j \<Longrightarrow> found j d"
begin

lemma appends_keep: "kept j \<subseteq> kept (fold (\<lambda>(i, r) j. append i r j) irs j)"
proof (induction irs arbitrary: j)
  case Nil
  then show ?case by simp
next
  case (Cons ir irs)
  obtain i r where "ir = (i, r)" by force
  with Cons [of "append i r j"] append_keeps [of j i r] show ?case by auto
qed

text \<open>Two successful appends in a row leave the second record findable for good.\<close>

lemma second_append_kept:
  assumes "ok i" and "ok i'"
  shows "ident r' \<in> kept (append i' r' (append i r j))"
  by (rule append_adds [OF append_cleans [OF assms(1)] assms(2)])

lemma registered_is_found:
  assumes "ok i" and "ok i'"
  shows "found (fold (\<lambda>(i, r) j. append i r j) irs (append i' r' (append i r j))) (ident r')"
  using second_append_kept [OF assms] appends_keep kept_found by blast

end

definition kept_digests :: "journal \<Rightarrow> string set" where
  "kept_digests j = jr_intent_digest ` set (settled_records j)"

definition has_record :: "journal \<Rightarrow> string \<Rightarrow> bool" where
  "has_record j digest \<longleftrightarrow> history digest (j_records j) \<noteq> []"

lemma set_settled: "set (settled_records j) \<subseteq> set (j_records j)"
  by (auto simp: settled_records_def dest: in_set_butlastD)

lemma settled_write:
  "settled_records (write_line io r j) =
     (case io of
        Written \<Rightarrow> settled_records j @ (if j_end j = Clean then [r] else [])
      | WrittenUnsynced \<Rightarrow> settled_records j @ (if j_end j = Clean then [r] else [])
      | _ \<Rightarrow> settled_records j)"
  by (cases io) (auto simp: settled_records_def)

interpretation log: durable_log write_line "\<lambda>io. io = Written" jr_intent_digest
  "\<lambda>j. j_end j = Clean" kept_digests has_record
proof
  show "kept_digests j \<subseteq> kept_digests (write_line io r j)" for j io r
    by (auto simp: kept_digests_def settled_write split: io.splits simp del: write_line.simps)
  show "io = Written \<Longrightarrow> j_end (write_line io r j) = Clean" for io r j by simp
  show "j_end j = Clean \<Longrightarrow> io = Written \<Longrightarrow> jr_intent_digest r \<in> kept_digests (write_line io r j)"
    for j io r by (simp add: kept_digests_def settled_write del: write_line.simps)
  show "digest \<in> kept_digests j \<Longrightarrow> has_record j digest" for digest j
    using set_settled [of j] by (force simp: kept_digests_def has_record_def history_def filter_empty_conv)
qed

lemma kept_get: "digest \<in> kept_digests j \<Longrightarrow> digest \<noteq> [] \<Longrightarrow> journal_get j digest \<noteq> None"
  using log.kept_found by (simp add: journal_get_history has_record_def)

lemma prepared:
  assumes "prepare_append now j digest cid st a = Inr r"
  shows "jr_intent_digest r = digest" "jr_state r = st" "jr_client_order_id r = cid"
  using assms
  by (auto simp: prepare_append_def new_record_def Let_def split: option.splits if_splits)

lemma append_transition_cases:
  assumes "append_transition io now j digest cid st a = (j', res)"
  obtains (refused) prev where "j' = j" "res = Inl (InvalidTransition prev st)" "\<not> legal_step prev st"
      "\<exists>e. journal_get j digest = Some e \<and> jr_state e = prev"
  | (written) r where "j' = write_line io r j" "jr_intent_digest r = digest" "jr_state r = st"
      "jr_client_order_id r = cid" "res = (if io = Written then Inr r else Inl WriteError)"
      "\<forall>e. journal_get j digest = Some e \<longrightarrow> legal_step (jr_state e) st"
proof (cases "\<exists>e. journal_get j digest = Some e \<and> \<not> legal_step (jr_state e) st")
  case True
  with assms show ?thesis
    by (auto simp: append_transition_def prepare_append_def legal_step_def intro: refused)
next
  case False
  let ?r = "new_record j now digest cid st a"
  have "jr_intent_digest ?r = digest" "jr_state ?r = st" "jr_client_order_id ?r = cid"
    by (simp_all add: new_record_def Let_def)
  moreover have "(j', res) = (write_line io ?r j, if io = Written then Inr ?r else Inl WriteError)"
    using assms False
    by (auto simp: append_transition_def prepare_append_def Let_def legal_step_def split: option.splits if_splits)
  ultimately show ?thesis using False by (intro written [of ?r]) auto
qed

lemma append_transition_keeps:
  "append_transition io now j digest cid st a = (j', res) \<Longrightarrow> kept_digests j \<subseteq> kept_digests j'"
  by (erule append_transition_cases) (simp_all add: log.append_keeps)

section \<open>Legal histories\<close>

fun legal_chain :: "intent_state list \<Rightarrow> bool" where
  "legal_chain (a # b # xs) = (legal_step a b \<and> legal_chain (b # xs))"
| "legal_chain _ = True"

lemma legal_chain_snoc:
  "legal_chain (xs @ [x]) \<longleftrightarrow> legal_chain xs \<and> (xs = [] \<or> legal_step (last xs) x)"
  by (induction xs rule: legal_chain.induct) auto

lemma legal_chain_prefix: "legal_chain (xs @ ys) \<Longrightarrow> legal_chain xs"
  by (induction ys rule: rev_induct) (simp_all add: legal_chain_snoc flip: append_assoc)

definition journal_legal :: "journal \<Rightarrow> bool" where
  "journal_legal j \<longleftrightarrow> (\<forall>digest. digest \<noteq> [] \<longrightarrow> legal_chain (map jr_state (history digest (j_records j))))"

lemma history_settled: "\<exists>ys. history digest (j_records j) = history digest (settled_records j) @ ys"
proof (cases "j_end j = NoNewline \<and> j_records j \<noteq> []")
  case True
  then have "j_records j = settled_records j @ [last (j_records j)]"
    by (simp add: settled_records_def)
  then show ?thesis by (metis history_append)
next
  case False
  then show ?thesis by (auto simp: settled_records_def)
qed

lemma settled_legal:
  "journal_legal j \<Longrightarrow> digest \<noteq> [] \<Longrightarrow> legal_chain (map jr_state (history digest (settled_records j)))"
  using history_settled [of digest j] unfolding journal_legal_def
  by (metis legal_chain_prefix map_append)

lemma append_legal:
  assumes "journal_legal j" "append_transition io now j digest cid st a = (j', res)"
  shows "journal_legal j'"
  using assms(2)
proof (cases rule: append_transition_cases)
  case (refused prev)
  with assms(1) show ?thesis by simp
next
  case (written r)
  have new: "legal_chain (map jr_state (history d (j_records j @ [r])))" if "d \<noteq> []" for d
  proof (cases "d = digest \<and> history digest (j_records j) \<noteq> []")
    case True
    then have "journal_get j digest = Some (last (history digest (j_records j)))"
      using that by (simp add: journal_get_history)
    with written True assms(1) that show ?thesis
      by (simp add: journal_legal_def history_append history_one legal_chain_snoc last_map)
  next
    case False
    then show ?thesis
      using written assms(1) that by (auto simp: journal_legal_def history_append history_one)
  qed
  have "j_records j' \<in> {j_records j, settled_records j, j_records j @ [r]}"
    unfolding written(1) by (cases io) (auto simp: settled_records_def)
  then show ?thesis
    using new assms(1) settled_legal [OF assms(1)] by (auto simp: journal_legal_def)
qed

end
