(* ===== verification/OrderCoordinator.thy ===== *)
theory OrderCoordinator
  imports OrderJournal
begin

text \<open>
  The coordinator of \<^verbatim>\<open>quant_hedge_ai/agents/execution/order_intent_protocol.py\<close>: adapter
  capabilities, \<open>submit\<close> and \<open>reconcile\<close>. The exchange is the caller's \<open>mutate\<close> and \<open>lookup\<close>
  functions, where \<open>None\<close> is a call that raises; the lock, the clock and the fate of each write
  are the environment. The effect of an operation is the new journal, the list of exchange
  mutations it made, and its result. Human-readable details are left out.
\<close>

section \<open>Capabilities\<close>

datatype capability_verdict =
    SUBMIT_AND_RECONCILE_VERIFIED
  | SUBMIT_ONLY_RECONCILIATION_UNVERIFIED
  | UNSUPPORTED
  | INCONCLUSIVE

record adapter_capabilities =
  ac_verdict :: capability_verdict
  ac_client_order_id_param :: "string option"
  ac_max_client_order_id_len :: int
  ac_client_order_id_charset :: string
  ac_supports_open_order_search :: bool
  ac_supports_closed_order_search :: bool

definition supports_client_order_id :: "adapter_capabilities \<Rightarrow> bool" where
  "supports_client_order_id c \<longleftrightarrow> ac_verdict c = SUBMIT_AND_RECONCILE_VERIFIED"

definition mexc_capabilities :: adapter_capabilities where
  "mexc_capabilities = \<lparr>ac_verdict = SUBMIT_ONLY_RECONCILIATION_UNVERIFIED,
     ac_client_order_id_param = Some ''clientOrderId'', ac_max_client_order_id_len = 32,
     ac_client_order_id_charset = ''alnum'', ac_supports_open_order_search = False,
     ac_supports_closed_order_search = False\<rparr>"

definition unverified_capabilities :: adapter_capabilities where
  "unverified_capabilities = \<lparr>ac_verdict = UNSUPPORTED, ac_client_order_id_param = None,
     ac_max_client_order_id_len = 32, ac_client_order_id_charset = ''alnum'',
     ac_supports_open_order_search = False, ac_supports_closed_order_search = False\<rparr>"

definition capabilities_for_exchange :: "string \<Rightarrow> adapter_capabilities" where
  "capabilities_for_exchange exchange_id =
     (if py_lower exchange_id = ''mexc'' then mexc_capabilities else unverified_capabilities)"

section \<open>Results\<close>

datatype submission_outcome =
    OUT_MISSING_CAUSAL_ID
  | OUT_AUTHORIZATION_DENIED
  | OUT_ALREADY_RECORDED
  | OUT_INTENT_ALREADY_RECORDED
  | OUT_SUBMISSION_ALREADY_STARTED
  | OUT_ACKNOWLEDGED
  | OUT_EXPLICITLY_REJECTED
  | OUT_RECONCILE_REQUIRED
  | OUT_RECONCILED_FOUND
  | OUT_RECONCILED_NOT_FOUND_PENDING
  | OUT_IDENTITY_COLLISION
  | OUT_RECONCILIATION_CONFLICT
  | OUT_JOURNAL_FAILURE
  | OUT_UNSUPPORTED_ADAPTER_CAPABILITY
  | OUT_LOCK_UNAVAILABLE

record submission_result =
  sr_outcome :: submission_outcome
  sr_intent_digest :: string
  sr_client_order_id :: string
  sr_state :: "intent_state option"
  sr_exchange_order_id :: pyval
  sr_raw_evidence :: "candidate option"

definition plain_result ::
  "submission_outcome \<Rightarrow> string \<Rightarrow> string \<Rightarrow> intent_state option \<Rightarrow> submission_result" where
  "plain_result out digest cid st =
     \<lparr>sr_outcome = out, sr_intent_digest = digest, sr_client_order_id = cid, sr_state = st,
      sr_exchange_order_id = VNone, sr_raw_evidence = None\<rparr>"

datatype mutation_outcome = MUT_ACKNOWLEDGED | MUT_EXPLICITLY_REJECTED | MUT_AMBIGUOUS

record mutation_result =
  mr_outcome :: mutation_outcome
  mr_exchange_order_id :: pyval
  mr_error_category :: "string option"
  mr_raw :: "candidate option"

record lookup_result =
  lr_lookup_failed :: bool
  lr_matches :: "candidate list"

fun outcome_of_state :: "intent_state \<Rightarrow> submission_outcome" where
  "outcome_of_state INTENT_RECORDED = OUT_INTENT_ALREADY_RECORDED"
| "outcome_of_state SUBMISSION_STARTED = OUT_SUBMISSION_ALREADY_STARTED"
| "outcome_of_state ACKNOWLEDGED = OUT_ACKNOWLEDGED"
| "outcome_of_state EXPLICITLY_REJECTED = OUT_EXPLICITLY_REJECTED"
| "outcome_of_state RECONCILE_REQUIRED = OUT_RECONCILE_REQUIRED"
| "outcome_of_state RECONCILED_FOUND = OUT_RECONCILED_FOUND"
| "outcome_of_state RECONCILED_NOT_FOUND_PENDING = OUT_RECONCILED_NOT_FOUND_PENDING"
| "outcome_of_state COLLISION = OUT_IDENTITY_COLLISION"
| "outcome_of_state CANCELLED = OUT_ALREADY_RECORDED"

definition typed_result_from_record ::
  "journal_record \<Rightarrow> string \<Rightarrow> string \<Rightarrow> submission_result" where
  "typed_result_from_record r digest cid =
     \<lparr>sr_outcome = outcome_of_state (jr_state r), sr_intent_digest = digest,
      sr_client_order_id = cid, sr_state = Some (jr_state r),
      sr_exchange_order_id = jr_exchange_order_id r, sr_raw_evidence = None\<rparr>"

section \<open>Submission\<close>

text \<open>
  The environment of one call: whether the cross-process lock can be taken, and for the n-th
  write of the call its fate and its time.
\<close>

record call_env =
  ce_lock_ok :: bool
  ce_io :: "nat \<Rightarrow> io"
  ce_now :: "nat \<Rightarrow> pyfloat"

datatype coordinator_error = MutateRaised | LookupRaised | JournalRaised append_error

record effect =
  ef_journal :: journal
  ef_mutations :: "(order_intent \<times> string) list"
  ef_result :: "coordinator_error + submission_result"

type_synonym mutate = "order_intent \<Rightarrow> string \<Rightarrow> mutation_result option"

definition intent_refs :: "order_intent \<Rightarrow> causal_refs" where
  "intent_refs i = \<lparr>cr_namespace = oi_namespace i, cr_causal_id = oi_causal_id i,
     cr_position_ref = oi_position_ref i\<rparr>"

text \<open>
  The critical section under the lock: the collision check, the duplicate check, and the two
  records that must be durable before the exchange is called. \<open>None\<close> means go on.
\<close>

definition register_intent ::
  "journal \<Rightarrow> order_intent \<Rightarrow> string \<Rightarrow> string \<Rightarrow> string \<Rightarrow> call_env
     \<Rightarrow> journal \<times> submission_result option" where
  "register_intent j i digest cid auth_ref env =
     (let collision = (case find_by_client_order_id j cid of
                         None \<Rightarrow> False | Some r \<Rightarrow> jr_intent_digest r \<noteq> digest) in
      if collision then (j, Some (plain_result OUT_IDENTITY_COLLISION digest cid (Some COLLISION)))
      else case journal_get j digest of
        Some r \<Rightarrow> (j, Some (typed_result_from_record r digest cid))
      | None \<Rightarrow>
          (case append_transition (ce_io env 0) (ce_now env 0) j digest cid INTENT_RECORDED
                  (no_args\<lparr>ap_payload := Some (canonical_fields i),
                          ap_causal_refs := Some (intent_refs i),
                          ap_authorization_ref := Some auth_ref\<rparr>) of
             (j1, Inl _) \<Rightarrow> (j1, Some (plain_result OUT_JOURNAL_FAILURE digest cid None))
           | (j1, Inr _) \<Rightarrow>
               (case append_transition (ce_io env 1) (ce_now env 1) j1 digest cid
                       SUBMISSION_STARTED no_args of
                  (j2, Inl _) \<Rightarrow> (j2, Some (plain_result OUT_JOURNAL_FAILURE digest cid None))
                | (j2, Inr _) \<Rightarrow> (j2, None))))"

text \<open>After the call: record what the exchange said; an exception of this write escapes.\<close>

fun mutation_transition :: "mutation_outcome \<Rightarrow> intent_state \<times> submission_outcome" where
  "mutation_transition MUT_ACKNOWLEDGED = (ACKNOWLEDGED, OUT_ACKNOWLEDGED)"
| "mutation_transition MUT_EXPLICITLY_REJECTED = (EXPLICITLY_REJECTED, OUT_EXPLICITLY_REJECTED)"
| "mutation_transition MUT_AMBIGUOUS = (RECONCILE_REQUIRED, OUT_RECONCILE_REQUIRED)"

definition answer_args :: "mutation_result \<Rightarrow> append_args" where
  "answer_args m =
     (if mr_outcome m = MUT_ACKNOWLEDGED
      then no_args\<lparr>ap_exchange_order_id := mr_exchange_order_id m\<rparr>
      else no_args\<lparr>ap_error_category := mr_error_category m\<rparr>)"

definition settle_mutation ::
  "journal \<Rightarrow> string \<Rightarrow> string \<Rightarrow> mutation_result \<Rightarrow> call_env
     \<Rightarrow> journal \<times> (coordinator_error + submission_result)" where
  "settle_mutation j digest cid m env =
     (case mutation_transition (mr_outcome m) of (st, out) \<Rightarrow>
        (case append_transition (ce_io env 2) (ce_now env 2) j digest cid st (answer_args m) of
           (j', Inl e) \<Rightarrow> (j', Inl (JournalRaised e))
         | (j', Inr _) \<Rightarrow>
             (j', Inr \<lparr>sr_outcome = out, sr_intent_digest = digest, sr_client_order_id = cid,
                       sr_state = Some st,
                       sr_exchange_order_id =
                         (if mr_outcome m = MUT_ACKNOWLEDGED then mr_exchange_order_id m else VNone),
                       sr_raw_evidence = mr_raw m\<rparr>)))"

definition submit ::
  "adapter_capabilities \<Rightarrow> journal \<Rightarrow> order_intent \<Rightarrow> bool \<Rightarrow> string \<Rightarrow> mutate \<Rightarrow> call_env \<Rightarrow> effect" where
  "submit caps j i authorized auth_ref mut env =
     (let digest = full_digest i; cid = client_order_id i 32;
          stay = (\<lambda>out. \<lparr>ef_journal = j, ef_mutations = [],
                    ef_result = Inr (plain_result out digest cid None)\<rparr>) in
      if \<not> authorized then stay OUT_AUTHORIZATION_DENIED
      else if \<not> supports_client_order_id caps then stay OUT_UNSUPPORTED_ADAPTER_CAPABILITY
      else if \<not> ce_lock_ok env then stay OUT_LOCK_UNAVAILABLE
      else case register_intent j i digest cid auth_ref env of
        (j1, Some res) \<Rightarrow> \<lparr>ef_journal = j1, ef_mutations = [], ef_result = Inr res\<rparr>
      | (j1, None) \<Rightarrow>
          (case mut i cid of
             None \<Rightarrow> \<lparr>ef_journal = j1, ef_mutations = [(i, cid)], ef_result = Inl MutateRaised\<rparr>
           | Some m \<Rightarrow>
               (case settle_mutation j1 digest cid m env of (j2, res) \<Rightarrow>
                  \<lparr>ef_journal = j2, ef_mutations = [(i, cid)], ef_result = res\<rparr>)))"

section \<open>Reconciliation\<close>

definition candidate_order_id :: "candidate \<Rightarrow> pyval" where
  "candidate_order_id c =
     (if truthy (get_or_none c ''id'') then get_or_none c ''id'' else get_or_none c ''order_id'')"

type_synonym lookup = "string \<Rightarrow> lookup_result option"

type_synonym verify = "canonical_payload \<Rightarrow> candidate \<Rightarrow> bool"

text \<open>What a lookup result leads to: the transition, its arguments and the result.\<close>

definition reconcile_decision ::
  "journal_record \<Rightarrow> lookup_result \<Rightarrow> verify option
     \<Rightarrow> intent_state \<times> append_args \<times> submission_outcome \<times> pyval \<times> candidate option" where
  "reconcile_decision r res verify_match =
     (if lr_lookup_failed res then
        (RECONCILE_REQUIRED,
         no_args\<lparr>ap_error_category := Some ''reconciliation_lookup_failed''\<rparr>,
         OUT_RECONCILE_REQUIRED, VNone, None)
      else case lr_matches res of
        [] \<Rightarrow> (RECONCILED_NOT_FOUND_PENDING, no_args, OUT_RECONCILED_NOT_FOUND_PENDING, VNone, None)
      | [c] \<Rightarrow>
          let payload = (case jr_canonical_payload r of None \<Rightarrow> [] | Some p \<Rightarrow> p);
              compatible = (case verify_match of None \<Rightarrow> True | Some v \<Rightarrow> v payload c) in
          if \<not> compatible then
            (COLLISION,
             no_args\<lparr>ap_error_category := Some ''reconciliation_payload_mismatch'',
                     ap_evidence := Some (OneCandidate c)\<rparr>,
             OUT_RECONCILIATION_CONFLICT, VNone, None)
          else
            (RECONCILED_FOUND,
             no_args\<lparr>ap_exchange_order_id := candidate_order_id c,
                     ap_evidence := Some (OneCandidate c)\<rparr>,
             OUT_RECONCILED_FOUND, candidate_order_id c, Some c)
      | _ \<Rightarrow>
          (COLLISION,
           no_args\<lparr>ap_error_category := Some ''multiple_reconciliation_matches'',
                   ap_evidence := Some (Matches (lr_matches res))\<rparr>,
           OUT_RECONCILIATION_CONFLICT, VNone, None))"

definition reconcile ::
  "adapter_capabilities \<Rightarrow> journal \<Rightarrow> string \<Rightarrow> lookup \<Rightarrow> verify option \<Rightarrow> call_env
     \<Rightarrow> journal \<times> (coordinator_error + submission_result)" where
  "reconcile caps j digest look verify_match env =
     (if ac_verdict caps \<noteq> SUBMIT_AND_RECONCILE_VERIFIED
      then (j, Inr (plain_result OUT_UNSUPPORTED_ADAPTER_CAPABILITY digest [] None))
      else case journal_get j digest of
        None \<Rightarrow> (j, Inr (plain_result OUT_JOURNAL_FAILURE digest [] None))
      | Some r \<Rightarrow>
          let cid = jr_client_order_id r in
          if jr_state r \<notin> set [RECONCILE_REQUIRED, RECONCILED_NOT_FOUND_PENDING]
          then (j, Inr (typed_result_from_record r digest cid))
          else case look cid of
            None \<Rightarrow> (j, Inl LookupRaised)
          | Some res \<Rightarrow>
              (case reconcile_decision r res verify_match of (st, args, out, exid, raw) \<Rightarrow>
                 (case append_transition (ce_io env 0) (ce_now env 0) j digest cid st args of
                    (j', Inl e) \<Rightarrow> (j', Inl (JournalRaised e))
                  | (j', Inr _) \<Rightarrow>
                      (j', Inr \<lparr>sr_outcome = out, sr_intent_digest = digest,
                                sr_client_order_id = cid, sr_state = Some st,
                                sr_exchange_order_id = exid, sr_raw_evidence = raw\<rparr>))))"

section \<open>Registering an intent\<close>

lemma full_digest_nonempty [simp]: "full_digest i \<noteq> []"
  using length_sha256_hex [of "canonical_json i"] by (auto simp: full_digest_def)

lemma registered:
  assumes "register_intent j i digest cid ref env = (j1, None)"
  obtains r1 r2 where "journal_get j digest = None"
    "ce_io env 0 = Written" "ce_io env 1 = Written"
    "jr_intent_digest r1 = digest" "jr_state r1 = INTENT_RECORDED"
    "jr_intent_digest r2 = digest" "jr_state r2 = SUBMISSION_STARTED"
    "j1 = write_line Written r2 (write_line Written r1 j)"
proof -
  from assms obtain ja r1 r2 where none: "journal_get j digest = None"
    and one: "append_transition (ce_io env 0) (ce_now env 0) j digest cid INTENT_RECORDED
      (no_args\<lparr>ap_payload := Some (canonical_fields i), ap_causal_refs := Some (intent_refs i),
              ap_authorization_ref := Some ref\<rparr>) = (ja, Inr r1)"
    and two: "append_transition (ce_io env 1) (ce_now env 1) ja digest cid SUBMISSION_STARTED no_args
      = (j1, Inr r2)"
    by (auto simp: register_intent_def Let_def split: if_splits option.splits prod.splits sum.splits)
  from one have a: "ce_io env 0 = Written" "ja = write_line Written r1 j"
    "jr_intent_digest r1 = digest" "jr_state r1 = INTENT_RECORDED"
    by (auto elim!: append_transition_cases split: if_splits)
  from two have b: "ce_io env 1 = Written" "j1 = write_line Written r2 ja"
    "jr_intent_digest r2 = digest" "jr_state r2 = SUBMISSION_STARTED"
    by (auto elim!: append_transition_cases split: if_splits)
  show ?thesis by (rule that [OF none a(1) b(1) a(3,4) b(3,4)]) (simp add: a(2) b(2))
qed

lemma registered_last:
  assumes "register_intent j i digest cid ref env = (j1, None)" "digest \<noteq> []"
  shows "\<exists>r. journal_get j1 digest = Some r \<and> jr_state r = SUBMISSION_STARTED \<and> digest \<in> kept_digests j1"
  using assms(1)
proof (rule registered)
  fix r1 r2
  assume h: "jr_intent_digest r2 = digest" "jr_state r2 = SUBMISSION_STARTED"
    "j1 = write_line Written r2 (write_line Written r1 j)"
  have "history digest (j_records j1) \<noteq> []" "last (history digest (j_records j1)) = r2"
    using h by (simp_all add: history_append history_one)
  moreover have "digest \<in> kept_digests j1"
    unfolding h(3) h(1) [symmetric] by (rule log.second_append_kept) simp_all
  ultimately show ?thesis using assms(2) h(2) by (simp add: journal_get_history)
qed

lemma register_keeps:
  "register_intent j i digest cid ref env = (j1, res) \<Longrightarrow> kept_digests j \<subseteq> kept_digests j1"
  unfolding register_intent_def Let_def
  by (auto split: if_splits option.splits prod.splits sum.splits dest!: append_transition_keeps)

lemma settle_keeps:
  "settle_mutation j digest cid m env = (j', res) \<Longrightarrow> kept_digests j \<subseteq> kept_digests j'"
  unfolding settle_mutation_def Let_def
  by (auto split: if_splits option.splits prod.splits sum.splits dest!: append_transition_keeps)

lemma reconcile_keeps:
  "reconcile caps j digest look v env = (j', res) \<Longrightarrow> kept_digests j \<subseteq> kept_digests j'"
  unfolding reconcile_def Let_def
  by (auto split: if_splits option.splits prod.splits sum.splits dest!: append_transition_keeps)

text \<open>What it takes for a submission to reach the exchange, and what it leaves.\<close>

lemma submit_calls:
  assumes "ef_mutations (submit caps j i authorized ref mut env) \<noteq> []"
  obtains j1 where "authorized" "supports_client_order_id caps" "ce_lock_ok env"
    "register_intent j i (full_digest i) (client_order_id i 32) ref env = (j1, None)"
    "ef_mutations (submit caps j i authorized ref mut env) = [(i, client_order_id i 32)]"
    "kept_digests j1 \<subseteq> kept_digests (ef_journal (submit caps j i authorized ref mut env))"
  using assms
  by (auto simp: submit_def Let_def split: if_splits prod.splits option.splits dest!: settle_keeps)

lemma submit_keeps:
  "kept_digests j \<subseteq> kept_digests (ef_journal (submit caps j i authorized ref mut env))"
proof (cases "register_intent j i (full_digest i) (client_order_id i 32) ref env")
  case (Pair j1 res)
  note keeps = register_keeps [OF this]
  show ?thesis
  proof (cases res)
    case (Some r)
    with Pair keeps show ?thesis by (simp add: submit_def Let_def)
  next
    case None
    show ?thesis
    proof (cases "mut i (client_order_id i 32)")
      case None
      with Pair keeps \<open>res = None\<close> show ?thesis by (simp add: submit_def Let_def)
    next
      case (Some m)
      obtain j2 r2 where "settle_mutation j1 (full_digest i) (client_order_id i 32) m env = (j2, r2)"
        by force
      with Pair keeps \<open>res = None\<close> Some settle_keeps [OF this] show ?thesis
        by (simp add: submit_def Let_def) blast
    qed
  qed
qed

section \<open>Histories of operations\<close>

text \<open>
  A history is a sequence of submissions and reconciliations by any callers, with any
  exchange, any lock failures and any write failures and crashes mid-write; the state is the
  journal and the list of exchange mutations made so far.
\<close>

datatype action =
    Submit adapter_capabilities order_intent bool string mutate call_env
  | Reconcile adapter_capabilities string lookup "verify option" call_env

type_synonym order_system = "journal \<times> (order_intent \<times> string) list"

fun run_action :: "action \<Rightarrow> order_system \<Rightarrow> order_system" where
  "run_action (Submit caps i authorized ref mut env) (j, calls) =
     (let ef = submit caps j i authorized ref mut env in (ef_journal ef, calls @ ef_mutations ef))"
| "run_action (Reconcile caps digest look v env) (j, calls) =
     (fst (reconcile caps j digest look v env), calls)"

definition call_digests :: "(order_intent \<times> string) list \<Rightarrow> string list" where
  "call_digests calls = map (\<lambda>(i, _). full_digest i) calls"

definition calls_recorded :: "order_system \<Rightarrow> bool" where
  "calls_recorded s \<longleftrightarrow>
     distinct (call_digests (snd s)) \<and> set (call_digests (snd s)) \<subseteq> kept_digests (fst s)"

lemma run_action_recorded: "calls_recorded s \<Longrightarrow> calls_recorded (run_action act s)"
proof (cases act)
  case (Reconcile caps digest look v env)
  obtain j' res where "reconcile caps (fst s) digest look v env = (j', res)" by force
  with reconcile_keeps [OF this] Reconcile show "calls_recorded s \<Longrightarrow> ?thesis"
    by (cases s) (auto simp: calls_recorded_def)
next
  case (Submit caps i authorized ref mut env)
  assume ok: "calls_recorded s"
  let ?ef = "submit caps (fst s) i authorized ref mut env"
  have run: "run_action act s = (ef_journal ?ef, snd s @ ef_mutations ?ef)"
    by (cases s) (simp add: Submit Let_def)
  have keeps: "kept_digests (fst s) \<subseteq> kept_digests (ef_journal ?ef)" by (rule submit_keeps)
  show ?thesis
  proof (cases "ef_mutations ?ef = []")
    case True
    with run ok keeps show ?thesis by (auto simp: calls_recorded_def)
  next
    case False
    then obtain j1 where
      reg: "register_intent (fst s) i (full_digest i) (client_order_id i 32) ref env = (j1, None)"
      and calls: "ef_mutations ?ef = [(i, client_order_id i 32)]"
      and kept: "kept_digests j1 \<subseteq> kept_digests (ef_journal ?ef)"
      by (rule submit_calls)
    have "journal_get (fst s) (full_digest i) = None" using reg by (rule registered)
    then have "full_digest i \<notin> kept_digests (fst s)" using kept_get by fastforce
    moreover have "full_digest i \<in> kept_digests (ef_journal ?ef)"
      using registered_last [OF reg] kept by auto
    ultimately show ?thesis
      using ok run calls keeps by (auto simp: calls_recorded_def call_digests_def)
  qed
qed

interpretation orders: guarded_machine "\<lambda>s. snd s = []" run_action calls_recorded
  by unfold_locales (simp add: calls_recorded_def call_digests_def, rule run_action_recorded)

text \<open>
  C1: At most one exchange mutation per order intent. In every history of submissions and
  reconciliations from any journal, with writes that fail or are cut off at any point, no two
  mutation calls have the same digest, and each call's digest is still recorded in the journal
  at the end, so it stays blocked afterwards.
\<close>

theorem at_most_once:
  "distinct (call_digests (snd (fold run_action acts (j, [])))) \<and>
   set (call_digests (snd (fold run_action acts (j, [])))) \<subseteq>
     {digest. journal_get (fst (fold run_action acts (j, []))) digest \<noteq> None}"
proof -
  let ?s = "fold run_action acts (j, [])"
  have "calls_recorded ?s" by (rule orders.run_inv) simp
  moreover have "digest \<noteq> []" if "digest \<in> set (call_digests (snd ?s))" for digest
    using that by (auto simp: call_digests_def)
  ultimately show ?thesis using kept_get by (auto simp: calls_recorded_def)
qed

section \<open>Durable before the network, and refusals\<close>

text \<open>
  When a submission calls the exchange, the intent had no record before, it was authorized
  and its adapter certified, and at the moment of the call the journal durably shows the
  intent as SUBMISSION_STARTED; it calls once, with the identifier derived from the intent.
\<close>

theorem durable_before_network:
  assumes "ef_mutations (submit caps j i authorized ref mut env) \<noteq> []"
  shows "authorized \<and> ac_verdict caps = SUBMIT_AND_RECONCILE_VERIFIED \<and>
    journal_get j (full_digest i) = None \<and>
    ef_mutations (submit caps j i authorized ref mut env) = [(i, client_order_id i 32)] \<and>
    (\<exists>j1 r. register_intent j i (full_digest i) (client_order_id i 32) ref env = (j1, None) \<and>
       journal_get j1 (full_digest i) = Some r \<and> jr_state r = SUBMISSION_STARTED \<and>
       j_end j1 = Clean)"
  using assms
proof (rule submit_calls)
  fix j1
  assume h: "authorized" "supports_client_order_id caps"
    "register_intent j i (full_digest i) (client_order_id i 32) ref env = (j1, None)"
    "ef_mutations (submit caps j i authorized ref mut env) = [(i, client_order_id i 32)]"
  have "journal_get j (full_digest i) = None" "j_end j1 = Clean"
    using h(3) by (auto elim: registered)
  with h registered_last [OF h(3)] show ?thesis by (auto simp: supports_client_order_id_def)
qed

definition certified :: adapter_capabilities where
  "certified = \<lparr>ac_verdict = SUBMIT_AND_RECONCILE_VERIFIED, ac_client_order_id_param = Some ''id'',
     ac_max_client_order_id_len = 32, ac_client_order_id_charset = ''alnum'',
     ac_supports_open_order_search = True, ac_supports_closed_order_search = True\<rparr>"

definition good_env :: call_env where
  "good_env = \<lparr>ce_lock_ok = True, ce_io = (\<lambda>_. Written), ce_now = (\<lambda>_. Fin 0)\<rparr>"

definition sample_submit :: effect where
  "sample_submit = submit certified empty_journal sample_intent True ''ref'' (\<lambda>_ _. None) good_env"

lemma registers_in_empty:
  assumes "digest \<noteq> []"
  shows "\<exists>j1. register_intent empty_journal i digest cid ref good_env = (j1, None)"
  using assms
  by (simp add: register_intent_def Let_def find_by_client_order_id_def latest_by_digest_def
      empty_journal_def good_env_def append_transition_def prepare_append_def new_record_def journal_get_def
      settled_records_def)

lemma sample_submit_calls: "ef_mutations sample_submit = [(sample_intent, client_order_id sample_intent 32)]"
proof -
  obtain j1 where "register_intent empty_journal sample_intent (full_digest sample_intent)
      (client_order_id sample_intent 32) ''ref'' good_env = (j1, None)"
    using registers_in_empty [OF full_digest_nonempty] by blast
  then show ?thesis
    by (simp add: sample_submit_def submit_def Let_def certified_def supports_client_order_id_def)
      (simp add: good_env_def)
qed

theorem durable_before_network_witness:
  "ef_mutations sample_submit \<noteq> [] \<and> journal_get empty_journal (full_digest sample_intent) = None"
  using durable_before_network [of certified empty_journal sample_intent True "''ref''" "\<lambda>_ _. None" good_env]
    sample_submit_calls
  unfolding sample_submit_def by simp

text \<open>
  With the capabilities the code looks up for any exchange name, no submission ever calls
  an exchange or writes to the journal, and no reconciliation calls the lookup: no adapter in
  the repository is certified.
\<close>

theorem no_exchange_is_certified:
  "ef_mutations (submit (capabilities_for_exchange x) j i authorized ref mut env) = [] \<and>
   ef_journal (submit (capabilities_for_exchange x) j i authorized ref mut env) = j \<and>
   reconcile (capabilities_for_exchange x) j digest look v env =
     (j, Inr (plain_result OUT_UNSUPPORTED_ADAPTER_CAPABILITY digest [] None))"
  by (simp add: submit_def Let_def reconcile_def capabilities_for_exchange_def
      supports_client_order_id_def mexc_capabilities_def unverified_capabilities_def)

section \<open>Legal histories\<close>

lemma register_legal:
  "register_intent j i digest cid ref env = (j1, res) \<Longrightarrow> journal_legal j \<Longrightarrow> journal_legal j1"
  unfolding register_intent_def Let_def
  by (auto split: if_splits option.splits prod.splits sum.splits intro: append_legal)

lemma settle_legal:
  "settle_mutation j digest cid m env = (j1, res) \<Longrightarrow> journal_legal j \<Longrightarrow> journal_legal j1"
  unfolding settle_mutation_def Let_def
  by (auto split: if_splits option.splits prod.splits sum.splits intro: append_legal)

lemma reconcile_legal:
  "reconcile caps j digest look v env = (j1, res) \<Longrightarrow> journal_legal j \<Longrightarrow> journal_legal j1"
  unfolding reconcile_def Let_def
  by (auto split: if_splits option.splits prod.splits sum.splits intro: append_legal)

lemma submit_legal:
  "journal_legal j \<Longrightarrow> journal_legal (ef_journal (submit caps j i authorized ref mut env))"
  unfolding submit_def Let_def
  by (auto split: prod.splits option.splits intro: settle_legal register_legal
      dest!: register_legal)

lemma run_action_legal: "journal_legal (fst s) \<Longrightarrow> journal_legal (fst (run_action act s))"
  by (cases act; cases s) (auto simp: Let_def submit_legal intro: reconcile_legal [OF prod.collapse [symmetric]])

interpretation histories: guarded_machine "\<lambda>s. fst s = empty_journal" run_action "\<lambda>s. journal_legal (fst s)"
  by unfold_locales
    (simp add: journal_legal_def empty_journal_def history_def, rule run_action_legal)

text \<open>
  The recorded life of every intent follows the transition table. In the journal of any
  history from an empty journal, the readable records of an intent, in file order, move only
  along allowed transitions (or repeat a state), whatever writes were cut off or lost.
\<close>

theorem recorded_states_legal:
  assumes "digest \<noteq> []"
  shows "legal_chain (map jr_state (history digest
    (j_records (fst (fold run_action acts (empty_journal, calls))))))"
proof -
  have "journal_legal (fst (fold run_action acts (empty_journal, calls)))"
    by (rule histories.run_inv) simp
  with assms show ?thesis by (simp add: journal_legal_def)
qed

theorem recorded_states_legal_witness:
  "legal_chain (map jr_state (history (full_digest sample_intent)
    (j_records (fst (fold run_action
       [Submit certified sample_intent True ''ref'' (\<lambda>_ _. None) good_env] (empty_journal, []))))))"
  by (rule recorded_states_legal) simp

section \<open>A lookup that fails late\<close>

text \<open>
  A failed lookup is not always recorded. When an earlier lookup found nothing and a later
  one fails, \<open>reconcile\<close> asks for a transition the table forbids, from the pending state back
  to RECONCILE_REQUIRED: the journal is left as it was and \<^verbatim>\<open>InvalidTransitionError\<close> escapes,
  where the code's comment promises that the intent remains RECONCILE_REQUIRED.
\<close>

theorem pending_lookup_failure_raises:
  assumes "ac_verdict caps = SUBMIT_AND_RECONCILE_VERIFIED"
    and "journal_get j digest = Some r" and "jr_state r = RECONCILED_NOT_FOUND_PENDING"
    and "look (jr_client_order_id r) = Some res" and "lr_lookup_failed res"
  shows "reconcile caps j digest look v env =
    (j, Inl (JournalRaised (InvalidTransition RECONCILED_NOT_FOUND_PENDING RECONCILE_REQUIRED)))"
  using assms
  by (simp add: reconcile_def reconcile_decision_def append_transition_def prepare_append_def Let_def)

definition pending_record :: journal_record where
  "pending_record = \<lparr>jr_intent_digest = ''d'', jr_client_order_id = ''c'',
     jr_canonical_payload = None, jr_causal_refs = None, jr_authorization_ref = None,
     jr_state = RECONCILED_NOT_FOUND_PENDING, jr_attempt = 1, jr_ts = Fin 0,
     jr_exchange_order_id = VNone, jr_error_category = None, jr_evidence = None\<rparr>"

theorem pending_lookup_failure_raises_witness:
  "reconcile certified \<lparr>j_records = [pending_record], j_end = Clean\<rparr> ''d''
     (\<lambda>_. Some \<lparr>lr_lookup_failed = True, lr_matches = []\<rparr>) None good_env =
   (\<lparr>j_records = [pending_record], j_end = Clean\<rparr>,
    Inl (JournalRaised (InvalidTransition RECONCILED_NOT_FOUND_PENDING RECONCILE_REQUIRED)))"
  by (rule pending_lookup_failure_raises [where r = pending_record
        and res = "\<lparr>lr_lookup_failed = True, lr_matches = []\<rparr>"])
    (simp_all add: certified_def pending_record_def journal_get_def latest_by_digest_def dict_set_def)

section \<open>A write after a torn line\<close>

text \<open>
  The first record appended after a cut-off line is lost although the append reports
  success: the submission goes ahead, and the record a later reconciliation reads carries no
  canonical payload, so a match is compared with an empty one.
\<close>

theorem torn_line_loses_payload:
  "\<exists>j1 r. register_intent \<lparr>j_records = [], j_end = PartialLine\<rparr> i (full_digest i) cid ref good_env
       = (j1, None) \<and>
     journal_get j1 (full_digest i) = Some r \<and> jr_state r = SUBMISSION_STARTED \<and>
     jr_canonical_payload r = None"
  by (simp add: register_intent_def Let_def find_by_client_order_id_def latest_by_digest_def
      good_env_def append_transition_def prepare_append_def new_record_def journal_get_def settled_records_def
      inherit_def no_args_def dict_set_def)

section \<open>A submission whose result is lost\<close>

definition stuck :: "string \<Rightarrow> journal \<Rightarrow> bool" where
  "stuck digest j \<longleftrightarrow>
     history digest (j_records j) = history digest (settled_records j) \<and>
     history digest (j_records j) \<noteq> [] \<and>
     jr_state (last (history digest (j_records j))) = SUBMISSION_STARTED"

lemma write_other:
  assumes "jr_intent_digest r \<noteq> digest"
  shows "history digest (settled_records (write_line io r j)) = history digest (settled_records j)"
    and "stuck digest j \<Longrightarrow> stuck digest (write_line io r j)"
proof -
  show settled: "history digest (settled_records (write_line io r j)) = history digest (settled_records j)"
    using assms by (cases io) (auto simp: settled_write history_append history_one simp del: write_line.simps)
  show "stuck digest (write_line io r j)" if st: "stuck digest j"
  proof -
    have "history digest (j_records (write_line io r j)) = history digest (settled_records j)"
      using st assms by (cases io) (auto simp: stuck_def history_append history_one)
    with settled st show ?thesis unfolding stuck_def by metis
  qed
qed

lemma append_other:
  "append_transition io now j d cid st a = (j', res) \<Longrightarrow> d \<noteq> digest \<Longrightarrow> stuck digest j \<Longrightarrow> stuck digest j'"
  by (erule append_transition_cases) (simp_all add: write_other)

lemma stuck_get: "stuck digest j \<Longrightarrow> digest \<noteq> [] \<Longrightarrow>
    \<exists>r. journal_get j digest = Some r \<and> jr_state r = SUBMISSION_STARTED"
  by (auto simp: stuck_def journal_get_history)

lemma register_stuck:
  assumes "register_intent j i (full_digest i) cid ref env = (j1, res)" "stuck digest j" "digest \<noteq> []"
  shows "stuck digest j1 \<and> (full_digest i = digest \<longrightarrow> res \<noteq> None)"
proof (cases "full_digest i = digest")
  case True
  with stuck_get [OF assms(2,3)] assms(1,2) show ?thesis
    by (auto simp: register_intent_def Let_def split: if_splits option.splits)
next
  case False
  with assms show ?thesis
    unfolding register_intent_def Let_def
    by (auto split: if_splits option.splits prod.splits sum.splits intro: append_other)
qed

lemma settle_stuck:
  "settle_mutation j d cid m env = (j1, res) \<Longrightarrow> d \<noteq> digest \<Longrightarrow> stuck digest j \<Longrightarrow> stuck digest j1"
  unfolding settle_mutation_def Let_def
  by (auto split: if_splits option.splits prod.splits sum.splits intro: append_other)

lemma reconcile_stuck:
  assumes "reconcile caps j d look v env = (j1, res)" "stuck digest j" "digest \<noteq> []"
  shows "stuck digest j1"
proof (cases "d = digest")
  case True
  with stuck_get [OF assms(2,3)] assms(1,2) show ?thesis
    by (auto simp: reconcile_def Let_def split: if_splits)
next
  case False
  with assms show ?thesis
    unfolding reconcile_def Let_def
    by (auto split: if_splits option.splits prod.splits sum.splits intro: append_other)
qed

lemma submit_stuck:
  assumes "stuck digest j" "digest \<noteq> []"
  shows "stuck digest (ef_journal (submit caps j i authorized ref mut env)) \<and>
    digest \<notin> set (call_digests (ef_mutations (submit caps j i authorized ref mut env)))"
proof -
  obtain j1 res where reg: "register_intent j i (full_digest i) (client_order_id i 32) ref env = (j1, res)"
    by force
  note r = register_stuck [OF reg assms]
  show ?thesis
    using r reg assms(1)
    by (auto simp: submit_def Let_def call_digests_def split: option.splits prod.splits
        intro: settle_stuck)
qed

lemma run_action_stuck:
  assumes "stuck digest (fst s) \<and> digest \<notin> set (call_digests (snd s))" "digest \<noteq> []"
  shows "stuck digest (fst (run_action act s)) \<and> digest \<notin> set (call_digests (snd (run_action act s)))"
proof (cases act)
  case (Submit caps i authorized ref mut env)
  with submit_stuck [of digest "fst s"] assms show ?thesis
    by (cases s) (auto simp: Let_def call_digests_def)
next
  case (Reconcile caps d look v env)
  with reconcile_stuck [OF prod.collapse [symmetric]] assms show ?thesis
    by (cases s) auto
qed

text \<open>
  A submission whose result was lost is never repeated and never resolved. Once the last
  record of an intent is a complete SUBMISSION_STARTED, no later submission calls the exchange
  for it, and no reconciliation moves it: it shows as SUBMISSION_STARTED for ever.
\<close>

theorem lost_submission_stays:
  assumes "stuck digest j" and "digest \<noteq> []"
  shows "(\<exists>r. journal_get (fst (fold run_action acts (j, []))) digest = Some r \<and>
      jr_state r = SUBMISSION_STARTED) \<and>
    digest \<notin> set (call_digests (snd (fold run_action acts (j, []))))"
proof -
  have "stuck digest (fst (fold run_action acts s)) \<and>
      digest \<notin> set (call_digests (snd (fold run_action acts s)))"
    if "stuck digest (fst s) \<and> digest \<notin> set (call_digests (snd s))" for s
    using that
  proof (induction acts arbitrary: s)
    case (Cons act acts)
    show ?case using Cons.IH [OF run_action_stuck [OF Cons.prems assms(2)]] by simp
  qed simp
  from this [of "(j, [])"] assms have "stuck digest (fst (fold run_action acts (j, []))) \<and>
      digest \<notin> set (call_digests (snd (fold run_action acts (j, []))))"
    by (simp add: call_digests_def)
  with stuck_get assms(2) show ?thesis by blast
qed

theorem lost_submission_stays_witness:
  "full_digest sample_intent \<notin> set (call_digests (snd (fold run_action
     [Submit certified sample_intent True ''r'' (\<lambda>_ _. None) good_env,
      Reconcile certified (full_digest sample_intent) (\<lambda>_. None) None good_env]
     (ef_journal sample_submit, []))))"
proof -
  obtain j1 where reg: "register_intent empty_journal sample_intent (full_digest sample_intent)
      (client_order_id sample_intent 32) ''ref'' good_env = (j1, None)"
    using registers_in_empty [OF full_digest_nonempty] by blast
  then have j1: "ef_journal sample_submit = j1"
    by (simp add: sample_submit_def submit_def Let_def certified_def supports_client_order_id_def)
      (simp add: good_env_def)
  obtain r2 r1 where "jr_intent_digest r2 = full_digest sample_intent" "jr_state r2 = SUBMISSION_STARTED"
    "j1 = write_line Written r2 (write_line Written r1 empty_journal)"
    using reg by (rule registered)
  then have "stuck (full_digest sample_intent) j1"
    by (simp add: stuck_def settled_records_def history_append history_one)
  then show ?thesis unfolding j1 using lost_submission_stays by (metis full_digest_nonempty)
qed

end
