(* ===== verification/OrderProtocol.thy ===== *)
theory OrderProtocol
  imports OrderCoordinator
begin

text \<open>
  Several operating-system processes running \<^verbatim>\<open>submit\<close> and \<^verbatim>\<open>reconcile\<close> on one journal file, at
  the grain at which they can interleave. A process takes the file lock, makes its two checks,
  and appends its two records under the lock, each append a read followed by a write; it releases
  the lock before it calls the exchange, and the record of the exchange's answer, like every
  record of a reconciliation, is appended without the lock, after a lookup over the network. Any
  number of steps of other processes can come between two steps of one. Every write can fail or be
  cut off, and a process may crash between any two steps, which releases its lock.
\<close>

section \<open>The processes\<close>

datatype pc =
    Idle
  | Locked order_intent string
  | NoCollision order_intent string
  | Checked order_intent string
  | WritingIntent order_intent journal_record
  | Recorded order_intent
  | WritingStart order_intent journal_record
  | Started order_intent
  | Answered order_intent mutation_result
  | LookingUp string journal_record
  | Writing journal_record

text \<open>
  \<open>p_cut\<close> is a ghost: it remembers that a write made without the lock was cut off while another
  process was between its first and its second record.
\<close>

record protocol =
  p_journal :: journal
  p_lock :: "nat option"
  p_pc :: "nat \<Rightarrow> pc"
  p_calls :: "(order_intent \<times> string) list"
  p_cut :: bool

definition collides :: "journal \<Rightarrow> order_intent \<Rightarrow> bool" where
  "collides j i \<longleftrightarrow>
     (case find_by_client_order_id j (client_order_id i 32) of
        None \<Rightarrow> False | Some r \<Rightarrow> jr_intent_digest r \<noteq> full_digest i)"

definition first_args :: "order_intent \<Rightarrow> string \<Rightarrow> append_args" where
  "first_args i ref = no_args\<lparr>ap_payload := Some (canonical_fields i),
     ap_causal_refs := Some (intent_refs i), ap_authorization_ref := Some ref\<rparr>"

fun cut_off :: "io \<Rightarrow> bool" where
  "cut_off TornPartial = True"
| "cut_off TornNoNewline = True"
| "cut_off _ = False"

fun between_records :: "pc \<Rightarrow> bool" where
  "between_records (Recorded i) = True"
| "between_records (WritingStart i r) = True"
| "between_records _ = False"

definition goto :: "nat \<Rightarrow> pc \<Rightarrow> protocol \<Rightarrow> protocol" where
  "goto p c s = s\<lparr>p_pc := (p_pc s)(p := c)\<rparr>"

definition leave :: "nat \<Rightarrow> protocol \<Rightarrow> protocol" where
  "leave p s = (goto p Idle s)\<lparr>p_lock := (if p_lock s = Some p then None else p_lock s)\<rparr>"

definition append_line :: "io \<Rightarrow> journal_record \<Rightarrow> protocol \<Rightarrow> protocol" where
  "append_line io r s = s\<lparr>p_journal := write_line io r (p_journal s)\<rparr>"

text \<open>
  \<open>stop\<close> is a crash at any point, and also what the process does when it returns early: on a
  collision or an existing record, on a transition the journal refuses, and when the exchange
  call raises.
\<close>

inductive protocol_step :: "protocol \<Rightarrow> protocol \<Rightarrow> bool" where
  acquire: "p_pc s p = Idle \<Longrightarrow> p_lock s = None \<Longrightarrow>
    protocol_step s ((goto p (Locked i ref) s)\<lparr>p_lock := Some p\<rparr>)"
| no_collision: "p_pc s p = Locked i ref \<Longrightarrow> \<not> collides (p_journal s) i \<Longrightarrow>
    protocol_step s (goto p (NoCollision i ref) s)"
| absent: "p_pc s p = NoCollision i ref \<Longrightarrow> journal_get (p_journal s) (full_digest i) = None \<Longrightarrow>
    protocol_step s (goto p (Checked i ref) s)"
| form_intent: "p_pc s p = Checked i ref \<Longrightarrow>
    prepare_append now (p_journal s) (full_digest i) (client_order_id i 32) INTENT_RECORDED
      (first_args i ref) = Inr r \<Longrightarrow>
    protocol_step s (goto p (WritingIntent i r) s)"
| write_intent: "p_pc s p = WritingIntent i r \<Longrightarrow>
    protocol_step s (append_line io r (if io = Written then goto p (Recorded i) s else leave p s))"
| form_start: "p_pc s p = Recorded i \<Longrightarrow>
    prepare_append now (p_journal s) (full_digest i) (client_order_id i 32) SUBMISSION_STARTED
      no_args = Inr r \<Longrightarrow>
    protocol_step s (goto p (WritingStart i r) s)"
| write_start: "p_pc s p = WritingStart i r \<Longrightarrow>
    protocol_step s (append_line io r
      (if io = Written then (goto p (Started i) s)\<lparr>p_lock := None\<rparr> else leave p s))"
| call: "p_pc s p = Started i \<Longrightarrow>
    protocol_step s ((goto p (Answered i m) s)\<lparr>p_calls := p_calls s @ [(i, client_order_id i 32)]\<rparr>)"
| form_answer: "p_pc s p = Answered i m \<Longrightarrow>
    prepare_append now (p_journal s) (full_digest i) (client_order_id i 32)
      (fst (mutation_transition (mr_outcome m))) (answer_args m) = Inr r \<Longrightarrow>
    protocol_step s (goto p (Writing r) s)"
| begin_reconcile: "p_pc s p = Idle \<Longrightarrow> journal_get (p_journal s) digest = Some r \<Longrightarrow>
    jr_state r \<in> {RECONCILE_REQUIRED, RECONCILED_NOT_FOUND_PENDING} \<Longrightarrow>
    protocol_step s (goto p (LookingUp digest r) s)"
| form_reconciled: "p_pc s p = LookingUp digest r \<Longrightarrow>
    reconcile_decision r res v = (st, args, out, exid, raw) \<Longrightarrow>
    prepare_append now (p_journal s) digest (jr_client_order_id r) st args = Inr r' \<Longrightarrow>
    protocol_step s (goto p (Writing r') s)"
| write_unlocked: "p_pc s p = Writing r \<Longrightarrow>
    protocol_step s (append_line io r
      ((goto p Idle s)\<lparr>p_cut := p_cut s \<or> (cut_off io \<and> (\<exists>q. between_records (p_pc s q)))\<rparr>))"
| stop: "protocol_step s (leave p s)"

definition initial :: "journal \<Rightarrow> protocol" where
  "initial j = \<lparr>p_journal = j, p_lock = None, p_pc = (\<lambda>_. Idle), p_calls = [], p_cut = False\<rparr>"

inductive reachable :: "journal \<Rightarrow> protocol \<Rightarrow> bool" for j0 where
  start: "reachable j0 (initial j0)"
| step: "reachable j0 s \<Longrightarrow> protocol_step s s' \<Longrightarrow> reachable j0 s'"

section \<open>The invariant\<close>

text \<open>
  The digest a process has found absent and not yet called the exchange for: its claim. While it
  holds the lock it is the only process that can have one without a record in the journal.
\<close>

fun claim :: "pc \<Rightarrow> string option" where
  "claim (Checked i _) = Some (full_digest i)"
| "claim (WritingIntent i _) = Some (full_digest i)"
| "claim (Recorded i) = Some (full_digest i)"
| "claim (WritingStart i _) = Some (full_digest i)"
| "claim (Started i) = Some (full_digest i)"
| "claim _ = None"

fun in_lock :: "pc \<Rightarrow> bool" where
  "in_lock (Locked _ _) = True"
| "in_lock (NoCollision _ _) = True"
| "in_lock (Checked _ _) = True"
| "in_lock (WritingIntent _ _) = True"
| "in_lock (Recorded _) = True"
| "in_lock (WritingStart _ _) = True"
| "in_lock _ = False"

text \<open>What the position of a process says of the journal and of the record it is about to write.\<close>

fun record_formed :: "pc \<Rightarrow> bool" where
  "record_formed (WritingStart i r) = (jr_intent_digest r = full_digest i)"
| "record_formed (WritingIntent i r) = (jr_intent_digest r = full_digest i)"
| "record_formed _ = True"

fun recorded_in :: "journal \<Rightarrow> pc \<Rightarrow> bool" where
  "recorded_in j (Recorded i) = (full_digest i \<in> kept_digests j \<or> j_end j = Clean)"
| "recorded_in j (WritingStart i r) = (full_digest i \<in> kept_digests j \<or> j_end j = Clean)"
| "recorded_in j (Started i) = (full_digest i \<in> kept_digests j)"
| "recorded_in j _ = True"

abbreviation called :: "protocol \<Rightarrow> string list" where
  "called s \<equiv> call_digests (p_calls s)"

definition protocol_inv :: "protocol \<Rightarrow> bool" where
  "protocol_inv s \<longleftrightarrow>
     (\<forall>p. in_lock (p_pc s p) \<longrightarrow> p_lock s = Some p) \<and>
     (\<forall>p. record_formed (p_pc s p)) \<and>
     (\<forall>p. recorded_in (p_journal s) (p_pc s p)) \<and>
     (\<forall>p d. claim (p_pc s p) = Some d \<longrightarrow> d \<notin> set (called s)) \<and>
     (\<forall>p q d. claim (p_pc s p) = Some d \<longrightarrow> claim (p_pc s q) = Some d \<longrightarrow> p = q) \<and>
     distinct (called s) \<and> set (called s) \<subseteq> kept_digests (p_journal s)"

lemma protocol_invI:
  assumes "\<And>p. in_lock (p_pc s p) \<Longrightarrow> p_lock s = Some p"
    and "\<And>p. record_formed (p_pc s p)"
    and "\<And>p. recorded_in (p_journal s) (p_pc s p)"
    and "\<And>p d. claim (p_pc s p) = Some d \<Longrightarrow> d \<notin> set (called s)"
    and "\<And>p q d. claim (p_pc s p) = Some d \<Longrightarrow> claim (p_pc s q) = Some d \<Longrightarrow> p = q"
    and "distinct (called s)" and "set (called s) \<subseteq> kept_digests (p_journal s)"
  shows "protocol_inv s"
  using assms unfolding protocol_inv_def by blast

lemma protocol_invD:
  assumes "protocol_inv s"
  shows "in_lock (p_pc s p) \<Longrightarrow> p_lock s = Some p"
    and "record_formed (p_pc s p)"
    and "recorded_in (p_journal s) (p_pc s p)"
    and "claim (p_pc s p) = Some d \<Longrightarrow> d \<notin> set (called s)"
    and "claim (p_pc s p) = Some d \<Longrightarrow> claim (p_pc s q) = Some d \<Longrightarrow> p = q"
    and "distinct (called s)" and "set (called s) \<subseteq> kept_digests (p_journal s)"
  using assms unfolding protocol_inv_def by blast+

lemma goto_simps [simp]:
  "p_journal (goto p c s) = p_journal s" "p_lock (goto p c s) = p_lock s"
  "p_calls (goto p c s) = p_calls s" "p_cut (goto p c s) = p_cut s"
  "p_pc (goto p c s) = (p_pc s)(p := c)"
  by (simp_all add: goto_def)

lemma leave_simps [simp]:
  "p_journal (leave p s) = p_journal s" "p_calls (leave p s) = p_calls s"
  "p_cut (leave p s) = p_cut s" "p_pc (leave p s) = (p_pc s)(p := Idle)"
  "p_lock (leave p s) = (if p_lock s = Some p then None else p_lock s)"
  by (simp_all add: leave_def)

lemma append_line_simps [simp]:
  "p_journal (append_line io r s) = write_line io r (p_journal s)"
  "p_lock (append_line io r s) = p_lock s" "p_calls (append_line io r s) = p_calls s"
  "p_cut (append_line io r s) = p_cut s" "p_pc (append_line io r s) = p_pc s"
  by (simp_all add: append_line_def)

lemma commute:
  "append_line io r (goto p c s) = goto p c (append_line io r s)"
  "append_line io r (leave p s) = leave p (append_line io r s)"
  "append_line io r (s\<lparr>p_cut := b\<rparr>) = (append_line io r s)\<lparr>p_cut := b\<rparr>"
  "append_line io r (s\<lparr>p_lock := l\<rparr>) = (append_line io r s)\<lparr>p_lock := l\<rparr>"
  "goto p c (s\<lparr>p_lock := l\<rparr>) = (goto p c s)\<lparr>p_lock := l\<rparr>"
  by (cases s; simp add: append_line_def goto_def leave_def)+

lemma claim_kept: "claim c = Some d \<Longrightarrow> \<not> in_lock c \<Longrightarrow> recorded_in j c \<Longrightarrow> d \<in> kept_digests j"
  by (cases c) simp_all

lemma inv_cut: "protocol_inv (s\<lparr>p_cut := b\<rparr>) = protocol_inv s"
  by (simp add: protocol_inv_def)

text \<open>A process that moves on without writing, its new position being in order.\<close>

lemma inv_goto:
  assumes inv: "protocol_inv s"
    and new: "in_lock c \<Longrightarrow> p_lock s = Some p" "record_formed c" "recorded_in (p_journal s) c"
      "\<And>d. claim c = Some d \<Longrightarrow> d \<notin> set (called s)"
      "\<And>q d. claim c = Some d \<Longrightarrow> q \<noteq> p \<Longrightarrow> claim (p_pc s q) \<noteq> Some d"
  shows "protocol_inv (goto p c s)"
proof (rule protocol_invI)
  note old = protocol_invD [OF inv]
  show "in_lock (p_pc (goto p c s) q) \<Longrightarrow> p_lock (goto p c s) = Some q" for q
    using old(1) [of q] new(1) by (simp split: if_splits)
  show "record_formed (p_pc (goto p c s) q)" for q using old(2) new(2) by simp
  show "recorded_in (p_journal (goto p c s)) (p_pc (goto p c s) q)" for q using old(3) new(3) by simp
  show "claim (p_pc (goto p c s) q) = Some d \<Longrightarrow> d \<notin> set (called (goto p c s))" for q d
    using old(4) [of q d] new(4) [of d] by (simp split: if_splits)
  show "claim (p_pc (goto p c s) q) = Some d \<Longrightarrow> claim (p_pc (goto p c s) q') = Some d \<Longrightarrow> q = q'" for q q' d
    using old(5) [of q d q'] new(5) [of d] by (auto split: if_splits)
qed (use protocol_invD [OF inv] in simp_all)

lemma inv_same_claim:
  assumes inv: "protocol_inv s" and same: "claim c = claim (p_pc s p)" and lock: "in_lock c \<Longrightarrow> in_lock (p_pc s p)"
    and ok: "record_formed c" "recorded_in (p_journal s) c"
  shows "protocol_inv (goto p c s)"
proof (rule inv_goto [OF inv _ ok])
  show "in_lock c \<Longrightarrow> p_lock s = Some p" using protocol_invD(1) [OF inv] lock by blast
  show "claim c = Some d \<Longrightarrow> d \<notin> set (called s)" for d using protocol_invD(4) [OF inv] same by simp
  show "claim (p_pc s q) \<noteq> Some d" if "claim c = Some d" "q \<noteq> p" for q d
    using protocol_invD(5) [OF inv, of p d q] same that by auto
qed

lemma inv_no_claim:
  assumes inv: "protocol_inv s" and none: "claim c = None" and lock: "in_lock c \<Longrightarrow> in_lock (p_pc s p)"
    and ok: "record_formed c" "recorded_in (p_journal s) c"
  shows "protocol_inv (goto p c s)"
proof (rule inv_goto [OF inv _ ok])
  show "in_lock c \<Longrightarrow> p_lock s = Some p" using protocol_invD(1) [OF inv] lock by blast
qed (simp_all add: none)

lemma inv_unlock:
  assumes "protocol_inv s" "\<not> in_lock (p_pc s p)"
  shows "protocol_inv (s\<lparr>p_lock := (if p_lock s = Some p then None else p_lock s)\<rparr>)"
  using assms unfolding protocol_inv_def by (auto split: if_splits)

lemma inv_leave:
  assumes "protocol_inv s"
  shows "protocol_inv (leave p s)"
proof -
  have "protocol_inv (goto p Idle s)" using assms by (rule inv_no_claim) simp_all
  then have "protocol_inv ((goto p Idle s)\<lparr>p_lock := (if p_lock (goto p Idle s) = Some p then None else p_lock (goto p Idle s))\<rparr>)"
    by (rule inv_unlock) simp
  then show ?thesis by (simp only: leave_def goto_simps)
qed

text \<open>A write in any state in which no process is hurt by it.\<close>

lemma write_recorded:
  assumes "recorded_in j c" and "\<not> cut_off io \<or> \<not> between_records c"
  shows "recorded_in (write_line io r j) c"
proof (cases c)
  case (Recorded i)
  with assms log.append_keeps [of j io r] show ?thesis by (cases io) auto
next
  case (WritingStart i r')
  with assms log.append_keeps [of j io r] show ?thesis by (cases io) auto
next
  case (Started i)
  with assms log.append_keeps [of j io r] show ?thesis by auto
qed simp_all

lemma inv_append:
  assumes inv: "protocol_inv s" and safe: "\<And>q. \<not> cut_off io \<or> \<not> between_records (p_pc s q)"
  shows "protocol_inv (append_line io r s)"
  using inv write_recorded [OF _ safe] log.append_keeps [of "p_journal s" io r]
  unfolding protocol_inv_def by (simp add: subset_trans) blast

text \<open>Two processes are never between their records at once, and one holds the lock.\<close>

lemma alone:
  assumes "protocol_inv s" "in_lock (p_pc s p)" "q \<noteq> p"
  shows "\<not> in_lock (p_pc s q)" "\<not> between_records (p_pc s q)"
proof -
  show no: "\<not> in_lock (p_pc s q)"
    using protocol_invD(1) [OF assms(1), of p] protocol_invD(1) [OF assms(1), of q] assms(2,3) by auto
  then show "\<not> between_records (p_pc s q)" by (cases "p_pc s q") simp_all
qed

lemma inv_absent:
  assumes inv: "protocol_inv s" and pc: "p_pc s p = NoCollision i ref"
    and no: "journal_get (p_journal s) (full_digest i) = None"
  shows "protocol_inv (goto p (Checked i ref) s)"
proof (rule inv_goto [OF inv])
  have fresh: "full_digest i \<notin> kept_digests (p_journal s)"
    using no kept_get full_digest_nonempty by blast
  then show "claim (Checked i ref) = Some d \<Longrightarrow> d \<notin> set (called s)" for d
    using protocol_invD(7) [OF inv] by auto
  show "claim (p_pc s q) \<noteq> Some d" if "claim (Checked i ref) = Some d" "q \<noteq> p" for q d
    using that fresh claim_kept [of "p_pc s q" d "p_journal s"] alone(1) [OF inv _ that(2)]
      protocol_invD(3) [OF inv, of q] pc by auto
qed (use pc protocol_invD(1) [OF inv, of p] in simp_all)

lemma inv_write_intent:
  assumes inv: "protocol_inv s" and pc: "p_pc s p = WritingIntent i r"
  shows "protocol_inv (append_line io r (if io = Written then goto p (Recorded i) s else leave p s))"
proof -
  have lock: "in_lock (p_pc s p)" using pc by simp
  have written: "protocol_inv (append_line io r s)"
  proof (rule inv_append [OF inv])
    fix q show "\<not> cut_off io \<or> \<not> between_records (p_pc s q)"
      using alone(2) [OF inv lock, of q] pc by (cases "q = p") simp_all
  qed
  show ?thesis
  proof (cases "io = Written")
    case True
    have "protocol_inv (goto p (Recorded i) (append_line io r s))"
      using written by (rule inv_same_claim) (simp_all add: pc True)
    with True show ?thesis by (simp add: commute)
  next
    case False
    with inv_leave [OF written, of p] show ?thesis by (simp add: commute)
  qed
qed

lemma inv_write_start:
  assumes inv: "protocol_inv s" and pc: "p_pc s p = WritingStart i r"
  shows "protocol_inv (append_line io r
    (if io = Written then (goto p (Started i) s)\<lparr>p_lock := None\<rparr> else leave p s))"
proof (cases "io = Written")
  case True
  have lock: "p_lock s = Some p" using protocol_invD(1) [OF inv, of p] pc by simp
  have written: "protocol_inv (append_line io r s)" using inv True by (intro inv_append) simp_all
  have "full_digest i \<in> kept_digests (p_journal (append_line io r s))"
  proof (cases "j_end (p_journal s) = Clean")
    case True
    with log.append_adds [OF True, of io r] protocol_invD(2) [OF inv, of p] pc \<open>io = Written\<close>
    show ?thesis by auto
  next
    case False
    with protocol_invD(3) [OF inv, of p] pc log.append_keeps [of "p_journal s" io r]
    show ?thesis by auto
  qed
  with written have "protocol_inv (goto p (Started i) (append_line io r s))"
    by (intro inv_same_claim) (simp_all add: pc)
  from inv_unlock [OF this, of p] True lock show ?thesis by (simp add: commute)
next
  case False
  have "protocol_inv (append_line io r (leave p s))"
  proof (rule inv_append [OF inv_leave [OF inv]])
    fix q show "\<not> cut_off io \<or> \<not> between_records (p_pc (leave p s) q)"
      using alone(2) [OF inv, of p q] pc by (cases "q = p") simp_all
  qed
  with False show ?thesis by simp
qed

lemma inv_call:
  assumes inv: "protocol_inv s" and pc: "p_pc s p = Started i"
  shows "protocol_inv ((goto p (Answered i m) s)\<lparr>p_calls := p_calls s @ [(i, cid)]\<rparr>)" (is "protocol_inv ?t")
proof (rule protocol_invI)
  note old = protocol_invD [OF inv]
  have mine: "claim (p_pc s p) = Some (full_digest i)" using pc by simp
  have calls: "called ?t = called s @ [full_digest i]" by (simp add: call_digests_def)
  show "in_lock (p_pc ?t q) \<Longrightarrow> p_lock ?t = Some q" for q
    using old(1) [of q] by (simp split: if_splits)
  show "record_formed (p_pc ?t q)" "recorded_in (p_journal ?t) (p_pc ?t q)" for q
    using old(2) [of q] old(3) [of q] by simp_all
  show "d \<notin> set (called ?t)" if "claim (p_pc ?t q) = Some d" for q d
    using that old(4) [of q d] old(5) [OF mine, of q] unfolding calls by (auto split: if_splits)
  show "claim (p_pc ?t q) = Some d \<Longrightarrow> claim (p_pc ?t q') = Some d \<Longrightarrow> q = q'" for q q' d
    using old(5) [of q d q'] by (simp split: if_splits)
  show "distinct (called ?t)" using old(6) old(4) [OF mine] unfolding calls by simp
  show "set (called ?t) \<subseteq> kept_digests (p_journal ?t)"
    using old(7) old(3) [of p] pc unfolding calls by simp
qed

lemma step_inv: "protocol_step s s' \<Longrightarrow> protocol_inv s \<Longrightarrow> \<not> p_cut s' \<Longrightarrow> protocol_inv s'"
proof (induction rule: protocol_step.induct)
  case (acquire s p i ref)
  have "protocol_inv (s\<lparr>p_lock := Some p\<rparr>)"
    using acquire.prems acquire.hyps(2) unfolding protocol_inv_def by auto
  then have "protocol_inv (goto p (Locked i ref) (s\<lparr>p_lock := Some p\<rparr>))"
    by (rule inv_goto) (simp_all)
  then show ?case by (simp add: commute)
next
  case (no_collision s p i ref)
  show ?case using no_collision.prems(1) by (rule inv_no_claim) (simp_all add: no_collision.hyps)
next
  case (absent s p i ref)
  show ?case using absent.prems(1) absent.hyps by (rule inv_absent)
next
  case (form_intent s p i ref now r)
  show ?case
    by (intro inv_same_claim [OF form_intent.prems(1)]) (simp_all add: form_intent.hyps(1) prepared(1) [OF form_intent.hyps(2)])
next
  case (write_intent s p i r io)
  show ?case using write_intent.prems(1) write_intent.hyps by (rule inv_write_intent)
next
  case (form_start s p i now r)
  have "recorded_in (p_journal s) (Recorded i)" using protocol_invD(3) [OF form_start.prems(1), of p] form_start.hyps(1) by simp
  then show ?case
    by (intro inv_same_claim [OF form_start.prems(1)]) (simp_all add: form_start.hyps(1) prepared(1) [OF form_start.hyps(2)])
next
  case (write_start s p i r io)
  show ?case using write_start.prems(1) write_start.hyps by (rule inv_write_start)
next
  case (call s p i m)
  show ?case using call.prems(1) call.hyps by (rule inv_call)
next
  case (form_answer s p i m now r)
  show ?case using form_answer.prems(1) by (rule inv_no_claim) simp_all
next
  case (begin_reconcile s p digest r)
  show ?case using begin_reconcile.prems(1) by (rule inv_no_claim) simp_all
next
  case (form_reconciled s p digest r res v st args out exid raw now r')
  show ?case using form_reconciled.prems(1) by (rule inv_no_claim) simp_all
next
  case (write_unlocked s p r io)
  let ?t = "goto p Idle s"
  have "protocol_inv ?t" using write_unlocked.prems(1) by (rule inv_no_claim) simp_all
  moreover have "\<not> cut_off io \<or> \<not> between_records (p_pc ?t q)" for q
    using write_unlocked.prems(2) by (cases "q = p") auto
  ultimately have "protocol_inv (append_line io r ?t)" by (rule inv_append)
  then show ?case by (simp only: commute inv_cut)
next
  case (stop s p)
  show ?case using stop.prems(1) by (rule inv_leave)
qed

lemma cut_stays: "protocol_step s s' \<Longrightarrow> p_cut s \<Longrightarrow> p_cut s'"
  by (induction rule: protocol_step.induct) simp_all

lemma reachable_inv: "reachable j0 s \<Longrightarrow> \<not> p_cut s \<Longrightarrow> protocol_inv s"
proof (induction rule: reachable.induct)
  case start
  then show ?case by (simp add: protocol_inv_def initial_def call_digests_def)
next
  case (step s s')
  then show ?case using step_inv cut_stays by blast
qed

text \<open>
  C2: At most one exchange mutation per intent across processes. However many processes
  interleave the steps of their submissions and reconciliations on one journal, whatever state the
  journal was in, whichever writes fail or are cut off and wherever the processes crash, no intent is
  submitted twice and every intent that was submitted has a record that blocks it, unless a write
  made without the lock was cut off while another process was between its two records.
\<close>

theorem at_most_once_across_processes:
  assumes "reachable j0 s" and "\<not> p_cut s"
  shows "distinct (call_digests (p_calls s)) \<and>
    (\<forall>digest \<in> set (call_digests (p_calls s)). journal_get (p_journal s) digest \<noteq> None)"
proof -
  have inv: "protocol_inv s" using reachable_inv [OF assms] .
  have "digest \<noteq> []" if "digest \<in> set (call_digests (p_calls s))" for digest
    using that by (auto simp: call_digests_def)
  with inv kept_get show ?thesis unfolding protocol_inv_def by blast
qed

section \<open>A whole submission\<close>

text \<open>
  From the lock to the call without a step of another process: from a journal without a record of the
  intent a free process gets to its call.
\<close>

definition first_record :: "journal \<Rightarrow> order_intent \<Rightarrow> string \<Rightarrow> journal_record" where
  "first_record j i ref =
     new_record j (Fin 0) (full_digest i) (client_order_id i 32) INTENT_RECORDED (first_args i ref)"

definition start_record :: "journal \<Rightarrow> order_intent \<Rightarrow> journal_record" where
  "start_record j i =
     new_record j (Fin 0) (full_digest i) (client_order_id i 32) SUBMISSION_STARTED no_args"

definition recording :: "nat \<Rightarrow> order_intent \<Rightarrow> string \<Rightarrow> protocol \<Rightarrow> protocol" where
  "recording p i ref s =
     append_line Written (first_record (p_journal s) i ref) (goto p (Recorded i) (s\<lparr>p_lock := Some p\<rparr>))"

definition started :: "nat \<Rightarrow> order_intent \<Rightarrow> protocol \<Rightarrow> protocol" where
  "started p i s =
     append_line Written (start_record (p_journal s) i) ((goto p (Started i) s)\<lparr>p_lock := None\<rparr>)"

definition called_once :: "nat \<Rightarrow> order_intent \<Rightarrow> mutation_result \<Rightarrow> protocol \<Rightarrow> protocol" where
  "called_once p i m s =
     (goto p (Answered i m) s)\<lparr>p_calls := p_calls s @ [(i, client_order_id i 32)]\<rparr>"

lemma reach_recording:
  assumes "reachable j0 s" "p_pc s p = Idle" "p_lock s = None" "\<not> collides (p_journal s) i"
    "journal_get (p_journal s) (full_digest i) = None"
  shows "reachable j0 (recording p i ref s)"
proof -
  let ?l = "s\<lparr>p_lock := Some p\<rparr>"
  have again: "goto p c (goto p c' t) = goto p c t" for c c' t by (simp add: goto_def)
  have "reachable j0 (goto p (Locked i ref) ?l)"
    using reachable.step [OF assms(1) acquire [OF assms(2,3), of i ref]] by (simp add: commute)
  from reachable.step [OF this no_collision [of _ p i ref]]
  have "reachable j0 (goto p (NoCollision i ref) ?l)" using assms(4) by (simp add: again)
  from reachable.step [OF this absent [of _ p i ref]]
  have "reachable j0 (goto p (Checked i ref) ?l)" using assms(5) by (simp add: again)
  from reachable.step [OF this form_intent [of _ p i ref "Fin 0" "first_record (p_journal s) i ref"]]
  have "reachable j0 (goto p (WritingIntent i (first_record (p_journal s) i ref)) ?l)"
    using assms(5) by (simp add: again prepare_append_def first_record_def)
  from reachable.step [OF this write_intent [of _ p i "first_record (p_journal s) i ref" Written]]
  show ?thesis by (simp add: again recording_def)
qed

lemma reach_started:
  assumes "reachable j0 s" "p_pc s p = Recorded i"
    "\<And>e. journal_get (p_journal s) (full_digest i) = Some e \<Longrightarrow> legal_step (jr_state e) SUBMISSION_STARTED"
  shows "reachable j0 (started p i s)"
proof -
  have "prepare_append (Fin 0) (p_journal s) (full_digest i) (client_order_id i 32) SUBMISSION_STARTED no_args
      = Inr (start_record (p_journal s) i)"
    using assms(3) by (auto simp: prepare_append_def start_record_def legal_step_def split: option.splits)
  from reachable.step [OF assms(1) form_start [OF assms(2) this]]
  have "reachable j0 (goto p (WritingStart i (start_record (p_journal s) i)) s)" .
  from reachable.step [OF this write_start [of _ p i "start_record (p_journal s) i" Written]]
  moreover have "goto p c (goto p c' t) = goto p c t" for c c' t by (simp add: goto_def)
  ultimately show ?thesis by (simp add: started_def)
qed

lemma reach_called:
  "reachable j0 s \<Longrightarrow> p_pc s p = Started i \<Longrightarrow> reachable j0 (called_once p i m s)"
  unfolding called_once_def by (erule reachable.step) (rule protocol_step.call)

lemma first_record_fields [simp]:
  "jr_intent_digest (first_record j i ref) = full_digest i"
  "jr_state (first_record j i ref) = INTENT_RECORDED"
  by (simp_all add: first_record_def new_record_def Let_def)

lemma start_record_fields [simp]:
  "jr_intent_digest (start_record j i) = full_digest i"
  "jr_state (start_record j i) = SUBMISSION_STARTED"
  by (simp_all add: start_record_def new_record_def Let_def)

definition some_answer :: mutation_result where
  "some_answer = \<lparr>mr_outcome = MUT_AMBIGUOUS, mr_exchange_order_id = VNone, mr_error_category = None,
     mr_raw = None\<rparr>"

text \<open>The journal ends in a line that a crash cut off: the first record is lost, the second is not.\<close>

definition torn_journal :: journal where
  "torn_journal = \<lparr>j_records = [], j_end = PartialLine\<rparr>"

definition sample_called :: protocol where
  "sample_called = called_once 0 sample_intent some_answer
     (started 0 sample_intent (recording 0 sample_intent ''r'' (initial torn_journal)))"

lemma torn_get: "journal_get torn_journal digest = None" "\<not> collides torn_journal i"
  by (simp_all add: torn_journal_def journal_get_def latest_by_digest_def collides_def
      find_by_client_order_id_def)

lemma sample_called_reachable: "reachable torn_journal sample_called"
proof -
  let ?s = "recording 0 sample_intent ''r'' (initial torn_journal)"
  have one: "reachable torn_journal ?s"
    by (rule reach_recording [OF reachable.start]) (simp_all add: initial_def torn_get)
  have "journal_get (p_journal ?s) (full_digest sample_intent) = None"
    by (simp add: recording_def initial_def torn_journal_def settled_records_def journal_get_def
        latest_by_digest_def)
  with one have "reachable torn_journal (started 0 sample_intent ?s)"
    by (rule_tac reach_started) (simp_all add: recording_def)
  then show ?thesis unfolding sample_called_def
    by (rule reach_called) (simp add: started_def)
qed

theorem at_most_once_across_processes_witness:
  "p_calls sample_called = [(sample_intent, client_order_id sample_intent 32)] \<and>
   distinct (call_digests (p_calls sample_called)) \<and>
   journal_get (p_journal sample_called) (full_digest sample_intent) \<noteq> None"
proof -
  have "p_calls sample_called = [(sample_intent, client_order_id sample_intent 32)]" "\<not> p_cut sample_called"
    by (simp_all add: sample_called_def called_once_def started_def recording_def initial_def)
  with at_most_once_across_processes [OF sample_called_reachable] show ?thesis
    by (simp add: call_digests_def)
qed

section \<open>Two cut-off lines\<close>

text \<open>
  What the exception of C2 is about. The journal ends in a cut-off line. A first process registers an
  intent: its first record is glued to that line and lost. Before its second record, a second
  process that records a reconciliation of another intent, without the lock, is cut off: the second record
  is lost too, although both appends reported success. The first process calls the exchange; a third one
  finds no record of the intent, and calls it again.
\<close>

abbreviation rest :: "file_end \<Rightarrow> journal" where
  "rest e \<equiv> \<lparr>j_records = [pending_record], j_end = e\<rparr>"

lemma rest_get:
  "journal_get (rest e) ''d'' = Some pending_record"
  "journal_get (rest e) (full_digest sample_intent) = None"
  "\<not> collides (rest e) sample_intent"
proof -
  have d: "''d'' \<noteq> full_digest sample_intent"
  proof
    assume "''d'' = full_digest sample_intent"
    from arg_cong [OF this, of length] show False by (simp add: full_digest_def length_sha256_hex)
  qed
  have c: "''c'' \<noteq> client_order_id sample_intent 32"
  proof
    assume "''c'' = client_order_id sample_intent 32"
    from arg_cong [OF this, of length] client_order_id_shape [OF sample_built] show False by simp
  qed
  show "journal_get (rest e) ''d'' = Some pending_record"
    by (simp add: journal_get_def latest_by_digest_def pending_record_def)
  show "journal_get (rest e) (full_digest sample_intent) = None"
    using d by (simp add: journal_get_def latest_by_digest_def pending_record_def)
  show "\<not> collides (rest e) sample_intent"
    using c by (simp add: collides_def find_by_client_order_id_def latest_by_digest_def dict_set_def pending_record_def)
qed

lemma write_rest: "j_end j \<noteq> Clean \<Longrightarrow> j_end j \<noteq> NoNewline \<Longrightarrow> write_line Written r j = \<lparr>j_records = j_records j, j_end = Clean\<rparr>"
  by (simp add: settled_records_def)

theorem cut_between_records:
  "\<exists>s. reachable (rest PartialLine) s \<and> p_cut s \<and>
    p_calls s = [(sample_intent, client_order_id sample_intent 32), (sample_intent, client_order_id sample_intent 32)]"
proof -
  let ?i = sample_intent and ?R = "reachable (rest PartialLine)"
  let ?nothing = "\<lparr>lr_lookup_failed = False, lr_matches = []\<rparr>"
  let ?s1 = "goto 1 (LookingUp ''d'' pending_record) (initial (rest PartialLine))"
  have r1: "?R ?s1"
    using reachable.step [OF reachable.start begin_reconcile [of _ 1 "''d''" pending_record]] rest_get(1)
    by (simp add: initial_def pending_record_def)
  let ?s2 = "recording 0 ?i ''r'' ?s1"
  have r2: "?R ?s2" by (rule reach_recording [OF r1]) (simp_all add: initial_def rest_get)
  have s2: "p_journal ?s2 = rest Clean" "p_pc ?s2 0 = Recorded ?i" "p_pc ?s2 1 = LookingUp ''d'' pending_record"
    "p_lock ?s2 = Some 0" "p_calls ?s2 = []" "p_pc ?s2 2 = Idle"
    by (simp_all add: recording_def initial_def settled_records_def)
  have found: "reconcile_decision pending_record ?nothing None =
      (RECONCILED_NOT_FOUND_PENDING, no_args, OUT_RECONCILED_NOT_FOUND_PENDING, VNone, None)"
    by (simp add: reconcile_decision_def)
  obtain r where "prepare_append (Fin 0) (rest Clean) ''d'' (jr_client_order_id pending_record)
      RECONCILED_NOT_FOUND_PENDING no_args = Inr r"
    by (simp add: prepare_append_def rest_get) (simp add: pending_record_def)
  then have r3: "?R (goto 1 (Writing r) ?s2)"
    using reachable.step [OF r2 form_reconciled [OF s2(3) found]] s2(1) by metis
  let ?s3 = "goto 1 (Writing r) ?s2"
  let ?s4 = "append_line TornPartial r ((goto 1 Idle ?s3)\<lparr>p_cut := p_cut ?s3 \<or> (cut_off TornPartial \<and> (\<exists>q. between_records (p_pc ?s3 q)))\<rparr>)"
  have r4: "?R ?s4" by (rule reachable.step [OF r3 write_unlocked]) simp
  have "between_records (p_pc ?s3 0)" using s2(2) by simp
  then have "\<exists>q. between_records (p_pc ?s3 q)" by blast
  then have s4: "p_journal ?s4 = rest PartialLine" "p_pc ?s4 0 = Recorded ?i" "p_lock ?s4 = Some 0" "p_calls ?s4 = []" "p_cut ?s4"
    "p_pc ?s4 2 = Idle"
    using s2 by (simp_all add: settled_records_def)
  then obtain s4 where r4: "?R s4" and s4: "p_journal s4 = rest PartialLine" "p_pc s4 0 = Recorded ?i" "p_lock s4 = Some 0"
      "p_calls s4 = []" "p_cut s4" "p_pc s4 2 = Idle"
    using r4 by blast
  let ?s6 = "called_once 0 ?i some_answer (started 0 ?i s4)"
  have "?R (started 0 ?i s4)" by (rule reach_started [OF r4 s4(2)]) (simp only: s4(1) rest_get(2) option.distinct)
  then have r6: "?R ?s6" by (rule reach_called) (simp add: started_def)
  have s6: "p_journal ?s6 = rest Clean" "p_lock ?s6 = None" "p_calls ?s6 = [(?i, client_order_id ?i 32)]" "p_cut ?s6" "p_pc ?s6 2 = Idle"
    using s4 write_rest [of "rest PartialLine"] by (simp_all add: called_once_def started_def)
  then obtain s6 where r6: "?R s6" and s6: "p_journal s6 = rest Clean" "p_lock s6 = None" "p_calls s6 = [(?i, client_order_id ?i 32)]"
      "p_cut s6" "p_pc s6 2 = Idle"
    using r6 by blast
  let ?s7 = "recording 2 ?i ''r'' s6"
  have r7: "?R ?s7" by (rule reach_recording [OF r6]) (simp_all add: s6 rest_get)
  have s7: "p_journal ?s7 = \<lparr>j_records = [pending_record, first_record (rest Clean) ?i ''r''], j_end = Clean\<rparr>"
    "p_calls ?s7 = [(?i, client_order_id ?i 32)]" "p_cut ?s7" "p_pc ?s7 2 = Recorded ?i"
    using s6 by (simp_all add: recording_def settled_records_def)
  have "e = first_record (rest Clean) ?i ''r''" if "journal_get (p_journal ?s7) (full_digest ?i) = Some e" for e
    using that unfolding s7(1) by (simp add: journal_get_history history_def split: if_splits)
  then have "?R (started 2 ?i ?s7)"
    by (intro reach_started [OF r7 s7(4)]) (auto simp: legal_step_def)
  then have "?R (called_once 2 ?i some_answer (started 2 ?i ?s7))" by (rule reach_called) (simp add: started_def)
  moreover have "p_cut (called_once 2 ?i some_answer (started 2 ?i ?s7))"
    "p_calls (called_once 2 ?i some_answer (started 2 ?i ?s7)) = [(?i, client_order_id ?i 32), (?i, client_order_id ?i 32)]"
    using s7 by (simp_all add: called_once_def started_def)
  ultimately show ?thesis by blast
qed

end
