(* ===== verification/TradingAuthority.thy ===== *)
theory TradingAuthority
  imports PyPrelude PyText
begin

text \<open>
  \<^verbatim>\<open>src/governance/authority_state.py\<close> and \<^verbatim>\<open>src/governance/trading_authority.py\<close>: the single
  authority every agent asks to halt or resume trading and every execution engine asks before
  it places an order. Each public method holds the lock while it reads or changes the state, so
  an execution is a sequence of these operations; the audit entry, written after the lock is
  released, is part of the operation here. Texts for the dashboard are left out.
\<close>

section \<open>Authority levels\<close>

datatype authority_level = EMERGENCY | SAFE_MODE | RESTRICTED | WARNING | CLEAR

fun severity :: "authority_level \<Rightarrow> nat" where
  "severity EMERGENCY = 0"
| "severity SAFE_MODE = 1"
| "severity RESTRICTED = 2"
| "severity WARNING = 3"
| "severity CLEAR = 4"

lemma severity_eq [simp]: "severity a = severity b \<longleftrightarrow> a = b"
  by (cases a; cases b) simp_all

text \<open>The comparison methods of the class are the order of the severities.\<close>

instantiation authority_level :: linorder
begin

definition less_eq_authority_level :: "authority_level \<Rightarrow> authority_level \<Rightarrow> bool" where
  "less_eq_authority_level a b \<longleftrightarrow> severity a \<le> severity b"

definition less_authority_level :: "authority_level \<Rightarrow> authority_level \<Rightarrow> bool" where
  "less_authority_level a b \<longleftrightarrow> severity a < severity b"

instance
  by standard (auto simp: less_eq_authority_level_def less_authority_level_def not_le dest: antisym)

end

lemmas level_order = less_eq_authority_level_def less_authority_level_def

definition is_more_restrictive_than :: "authority_level \<Rightarrow> authority_level \<Rightarrow> bool" where
  "is_more_restrictive_than a b \<longleftrightarrow> severity a < severity b"

record trading_policy =
  tp_can_trade :: bool
  tp_can_fetch_data :: bool
  tp_can_place_orders :: bool
  tp_size_factor :: pyfloat

fun policy_of :: "authority_level \<Rightarrow> trading_policy" where
  "policy_of CLEAR = \<lparr>tp_can_trade = True, tp_can_fetch_data = True, tp_can_place_orders = True,
     tp_size_factor = Fin 1\<rparr>"
| "policy_of WARNING = \<lparr>tp_can_trade = True, tp_can_fetch_data = True, tp_can_place_orders = True,
     tp_size_factor = Fin (1 / 2)\<rparr>"
| "policy_of RESTRICTED = \<lparr>tp_can_trade = False, tp_can_fetch_data = True,
     tp_can_place_orders = False, tp_size_factor = Fin 0\<rparr>"
| "policy_of SAFE_MODE = \<lparr>tp_can_trade = False, tp_can_fetch_data = True,
     tp_can_place_orders = False, tp_size_factor = Fin 0\<rparr>"
| "policy_of EMERGENCY = \<lparr>tp_can_trade = False, tp_can_fetch_data = False,
     tp_can_place_orders = False, tp_size_factor = Fin 0\<rparr>"

lemma policy_trades: "tp_can_trade (policy_of l) \<longleftrightarrow> WARNING \<le> l"
  by (cases l) (simp_all add: level_order)

text \<open>The adapters from the two older state machines; an unknown name is \<open>SAFE_MODE\<close>.\<close>

definition runtime_levels :: "(string, authority_level) dict" where
  "runtime_levels = [(''NORMAL'', CLEAR), (''DEGRADED'', WARNING), (''CRITICAL'', RESTRICTED),
     (''SAFE_MODE'', SAFE_MODE), (''RECOVERY'', RESTRICTED)]"

definition from_runtime_state :: "string \<Rightarrow> authority_level" where
  "from_runtime_state v =
     (case dict_get runtime_levels (py_upper v) of None \<Rightarrow> SAFE_MODE | Some l \<Rightarrow> l)"

definition system_levels :: "(string, authority_level) dict" where
  "system_levels = [(''BOOTING'', RESTRICTED), (''SYNCING'', RESTRICTED), (''READY'', WARNING),
     (''TRADING'', CLEAR), (''RISK_OFF'', RESTRICTED), (''DEGRADED'', RESTRICTED),
     (''RECOVERY'', RESTRICTED), (''SHUTDOWN'', EMERGENCY), (''PANIC'', EMERGENCY)]"

definition from_system_state :: "string \<Rightarrow> authority_level" where
  "from_system_state v =
     (case dict_get system_levels (py_upper v) of None \<Rightarrow> SAFE_MODE | Some l \<Rightarrow> l)"

section \<open>The authority\<close>

record halt_request =
  hr_source :: string
  hr_level :: authority_level
  hr_reason :: string
  hr_timestamp_utc :: string

datatype audit_entry =
    HaltRequested string string authority_level string "string list" authority_level
  | ResumeRequested string string string authority_level authority_level

text \<open>
  The fields of an audit entry: time, source, level, reason, the sources halted before and the
  effective level; and time, source, reason, previous level and effective level.
\<close>

record authority =
  ta_halts :: "(string, halt_request) dict"
  ta_current_level :: authority_level
  ta_since_utc :: string
  ta_last_change_utc :: string
  ta_audit :: "audit_entry list"

text \<open>
  What an operation takes from outside: its readings of the clock, and whether the write to the
  audit file succeeds (an \<^verbatim>\<open>OSError\<close> is logged and swallowed).
\<close>

record authority_env =
  ae_halt_time :: string
  ae_since_time :: string
  ae_change_time :: string
  ae_audit_time :: string
  ae_audit_written :: bool

definition new_authority :: "string \<Rightarrow> string \<Rightarrow> audit_entry list \<Rightarrow> authority" where
  "new_authority since changed past = \<lparr>ta_halts = [], ta_current_level = CLEAR, ta_since_utc = since,
     ta_last_change_utc = changed, ta_audit = past\<rparr>"

definition can_trade :: "authority \<Rightarrow> bool" where
  "can_trade s = tp_can_trade (policy_of (ta_current_level s))"

definition can_fetch_data :: "authority \<Rightarrow> bool" where
  "can_fetch_data s = tp_can_fetch_data (policy_of (ta_current_level s))"

definition current_policy :: "authority \<Rightarrow> trading_policy" where
  "current_policy s = policy_of (ta_current_level s)"

text \<open>\<^verbatim>\<open>min\<close> of a non-empty sequence: the first smallest one.\<close>

fun py_min :: "'a::linorder \<Rightarrow> 'a list \<Rightarrow> 'a" where
  "py_min m [] = m"
| "py_min m (x # xs) = py_min (if x < m then x else m) xs"

definition compute_level :: "(string, halt_request) dict \<Rightarrow> authority_level" where
  "compute_level halts =
     (case map (\<lambda>(_, h). hr_level h) halts of [] \<Rightarrow> CLEAR | l # ls \<Rightarrow> py_min l ls)"

definition audit :: "bool \<Rightarrow> audit_entry \<Rightarrow> authority \<Rightarrow> authority" where
  "audit written e s = (if written then s\<lparr>ta_audit := ta_audit s @ [e]\<rparr> else s)"

definition set_level :: "authority_env \<Rightarrow> authority_level \<Rightarrow> authority \<Rightarrow> authority" where
  "set_level env new s =
     s\<lparr>ta_since_utc := (if new \<noteq> ta_current_level s then ae_since_time env else ta_since_utc s),
       ta_current_level := new, ta_last_change_utc := ae_change_time env\<rparr>"

datatype authority_error = HaltWithoutReason string

definition request_halt ::
  "authority_env \<Rightarrow> string \<Rightarrow> authority_level \<Rightarrow> string \<Rightarrow> authority \<Rightarrow>
     authority_error + authority \<times> authority_level" where
  "request_halt env source level reason s =
     (if reason = [] \<or> py_strip reason = [] then Inl (HaltWithoutReason source)
      else
        let halts_before = dict_keys (ta_halts s);
          halts = dict_set (ta_halts s) source \<lparr>hr_source = source, hr_level = level,
            hr_reason = reason, hr_timestamp_utc = ae_halt_time env\<rparr>;
          new = compute_level halts;
          s' = set_level env new (s\<lparr>ta_halts := halts\<rparr>)
        in Inr (audit (ae_audit_written env)
          (HaltRequested (ae_audit_time env) source level reason halts_before new) s', new))"

definition request_resume ::
  "authority_env \<Rightarrow> string \<Rightarrow> string \<Rightarrow> authority \<Rightarrow> authority \<times> authority_level" where
  "request_resume env source reason s =
     (case dict_get (ta_halts s) source of
        None \<Rightarrow> (s, ta_current_level s)
      | Some _ \<Rightarrow>
          let previous = ta_current_level s;
            halts = dict_del (ta_halts s) source;
            new = compute_level halts;
            s' = set_level env new (s\<lparr>ta_halts := halts\<rparr>)
          in (audit (ae_audit_written env)
            (ResumeRequested (ae_audit_time env) source reason previous new) s', new))"

definition force_emergency ::
  "authority_env \<Rightarrow> string \<Rightarrow> string \<Rightarrow> authority \<Rightarrow> authority_error + authority" where
  "force_emergency env source reason s =
     bindE (request_halt env source EMERGENCY reason s) (\<lambda>(s', _). Inr s')"

definition active_sources :: "authority \<Rightarrow> string list" where
  "active_sources s = dict_keys (ta_halts s)"

record authority_snapshot =
  as_current_level :: authority_level
  as_policy :: trading_policy
  as_active_halts :: "halt_request list"
  as_last_change_utc :: string
  as_since_utc :: string

definition status_snapshot :: "authority \<Rightarrow> authority_snapshot" where
  "status_snapshot s = \<lparr>as_current_level = ta_current_level s,
     as_policy = policy_of (ta_current_level s), as_active_halts = map snd (ta_halts s),
     as_last_change_utc = ta_last_change_utc s, as_since_utc = ta_since_utc s\<rparr>"

text \<open>A call by some agent; a halt without a reason raises and changes nothing.\<close>

datatype authority_call =
    Halt authority_env string authority_level string
  | Resume authority_env string string
  | ForceEmergency authority_env string string

fun run_call :: "authority_call \<Rightarrow> authority \<Rightarrow> authority" where
  "run_call (Halt env source level reason) s =
     (case request_halt env source level reason s of Inl _ \<Rightarrow> s | Inr (s', _) \<Rightarrow> s')"
| "run_call (Resume env source reason) s = fst (request_resume env source reason s)"
| "run_call (ForceEmergency env source reason) s =
     (case force_emergency env source reason s of Inl _ \<Rightarrow> s | Inr s' \<Rightarrow> s')"

section \<open>The level is the minimum of the standing halts\<close>

text \<open>
  What the constitution asks for: each source has at most one standing halt, the last one it
  requested with a reason and has not resumed, and the level is the least of them.
\<close>

fun standing_step :: "authority_call \<Rightarrow> (string \<Rightarrow> authority_level option) \<Rightarrow> string \<Rightarrow> authority_level option" where
  "standing_step (Halt _ source level reason) m = (if py_strip reason = [] then m else m(source \<mapsto> level))"
| "standing_step (Resume _ source _) m = m(source := None)"
| "standing_step (ForceEmergency _ source reason) m =
     (if py_strip reason = [] then m else m(source \<mapsto> EMERGENCY))"

definition standing :: "authority_call list \<Rightarrow> string \<Rightarrow> authority_level option" where
  "standing cs = fold standing_step cs (\<lambda>_. None)"

definition halt_levels :: "authority \<Rightarrow> string \<Rightarrow> authority_level option" where
  "halt_levels s source = map_option hr_level (dict_get (ta_halts s) source)"

lemma py_strip_Nil [simp]: "py_strip [] = []"
  by (simp add: py_strip_def)

lemma py_min_Min: "py_min m xs = Min (insert m (set xs))"
proof (induction xs arbitrary: m)
  case (Cons x xs)
  have "insert m (set (x # xs)) = insert x (insert m (set xs))" by auto
  then show ?case
    using Cons by (cases "xs = []") (auto simp: min_def insert_commute not_less)
qed simp

lemma CLEAR_top [simp]: "l \<le> CLEAR"
  by (cases l) (simp_all add: level_order)

lemma compute_level_Min: "compute_level halts = Min (insert CLEAR (hr_level ` snd ` set halts))"
proof (cases halts)
  case (Cons x xs)
  let ?A = "hr_level ` snd ` set halts"
  have "compute_level halts = Min ?A"
    using Cons by (auto simp: compute_level_def py_min_Min split_beta image_image)
  moreover have "Min (insert CLEAR ?A) = min CLEAR (Min ?A)" using Cons by (intro Min_insert) auto
  ultimately show ?thesis by (simp add: min.absorb2)
qed (simp add: compute_level_def)

definition authority_ok :: "authority \<Rightarrow> bool" where
  "authority_ok s \<longleftrightarrow> distinct (dict_keys (ta_halts s)) \<and> ta_current_level s = compute_level (ta_halts s)"

lemma audit_simps [simp]:
  "ta_halts (audit w e s) = ta_halts s" "ta_current_level (audit w e s) = ta_current_level s"
  by (simp_all add: audit_def)

lemma set_level_simps [simp]:
  "ta_halts (set_level env l s) = ta_halts s" "ta_current_level (set_level env l s) = l"
  "ta_audit (set_level env l s) = ta_audit s"
  by (simp_all add: set_level_def)

lemmas call_defs = request_halt_def request_resume_def force_emergency_def Let_def

lemma run_call_ok: "authority_ok s \<Longrightarrow> authority_ok (run_call c s)"
  by (cases c) (auto simp: authority_ok_def call_defs distinct_removeAll split: option.splits)

lemma run_call_standing: "halt_levels (run_call c s) = standing_step c (halt_levels s)"
  by (cases c) (auto simp: halt_levels_def call_defs fun_eq_iff split: option.splits)

interpretation authority: guarded_machine
  "\<lambda>s. ta_halts s = [] \<and> ta_current_level s = CLEAR" run_call authority_ok
  by unfold_locales (simp add: authority_ok_def compute_level_def, rule run_call_ok)

lemma fold_standing: "halt_levels (fold run_call cs s) = fold standing_step cs (halt_levels s)"
  by (induction cs arbitrary: s) (simp_all add: run_call_standing)

lemma ran_halt_levels: "distinct (dict_keys (ta_halts s)) \<Longrightarrow> ran (halt_levels s) = hr_level ` snd ` set (ta_halts s)"
proof -
  assume "distinct (dict_keys (ta_halts s))"
  moreover have "ran (halt_levels s) = hr_level ` ran (dict_get (ta_halts s))"
    by (auto simp: halt_levels_def ran_def)
  ultimately show ?thesis by (simp add: ran_distinct)
qed

lemma ok_level: "authority_ok s \<Longrightarrow> ta_current_level s = Min (insert CLEAR (ran (halt_levels s)))"
  by (simp add: authority_ok_def compute_level_Min ran_halt_levels)

lemma ok_can_trade: "authority_ok s \<Longrightarrow> can_trade s \<longleftrightarrow> ran (halt_levels s) \<subseteq> {WARNING, CLEAR}"
proof -
  assume ok: "authority_ok s"
  then have fin: "finite (ran (halt_levels s))" by (simp add: authority_ok_def ran_halt_levels)
  have above: "WARNING \<le> l \<longleftrightarrow> l \<in> {WARNING, CLEAR}" for l by (cases l) (simp_all add: level_order)
  have "can_trade s \<longleftrightarrow> WARNING \<le> Min (insert CLEAR (ran (halt_levels s)))"
    by (simp only: can_trade_def policy_trades ok_level [OF ok])
  also have "\<dots> \<longleftrightarrow> (\<forall>l \<in> insert CLEAR (ran (halt_levels s)). WARNING \<le> l)"
    using fin by (intro Min_ge_iff) simp_all
  finally show ?thesis unfolding above by blast
qed

text \<open>
  C10: The trading authority's level is the most restrictive standing halt. After any sequence of
  calls, the level is the minimum of the halts that were requested with a reason and not resumed
  (\<open>CLEAR\<close> when there is none), orders are allowed exactly when each of them is \<open>WARNING\<close> or
  \<open>CLEAR\<close>, and the standing halts are those the calls ask for.
\<close>

theorem effective_level:
  "let s = fold run_call cs (new_authority since changed past) in
     halt_levels s = standing cs \<and>
     ta_current_level s = Min (insert CLEAR (ran (standing cs))) \<and>
     can_trade s = (ran (standing cs) \<subseteq> {WARNING, CLEAR})"
proof -
  let ?s = "fold run_call cs (new_authority since changed past)"
  have ok: "authority_ok ?s" by (rule authority.run_inv) (simp add: new_authority_def)
  have "halt_levels (new_authority since changed past) = (\<lambda>_. None)"
    by (simp add: halt_levels_def new_authority_def fun_eq_iff)
  then have "halt_levels ?s = standing cs" by (simp add: fold_standing standing_def)
  with ok_level [OF ok] ok_can_trade [OF ok] show ?thesis by (simp add: Let_def)
qed

fun call_source :: "authority_call \<Rightarrow> string" where
  "call_source (Halt _ source _ _) = source"
| "call_source (Resume _ source _) = source"
| "call_source (ForceEmergency _ source _) = source"

lemma others_keep: "source \<notin> call_source ` set cs \<Longrightarrow> fold standing_step cs m source = m source"
proof (induction cs arbitrary: m)
  case (Cons c cs)
  then have "standing_step c m source = m source" by (cases c) auto
  with Cons show ?case by simp
qed simp

text \<open>
  C11: Nobody lifts somebody else's halt. Once a source has halted trading with a reason, at any
  level below \<open>WARNING\<close>, trading stays blocked through any calls of the other sources, and no
  call by them changes that source's halt.
\<close>

theorem halt_holds:
  assumes "request_halt env source level reason s = Inr (s1, l)" and "authority_ok s"
    and "level < WARNING" and "source \<notin> call_source ` set cs"
  shows "\<not> can_trade (fold run_call cs s1) \<and> halt_levels (fold run_call cs s1) source = Some level"
proof -
  have s1: "s1 = run_call (Halt env source level reason) s" using assms(1) by simp
  have ok: "authority_ok (fold run_call cs s1)"
    unfolding s1 by (intro authority.run_keeps run_call_ok assms(2))
  have "halt_levels s1 source = Some level"
    using assms(1) by (auto simp: halt_levels_def call_defs split: if_splits)
  then have held: "halt_levels (fold run_call cs s1) source = Some level"
    using others_keep [OF assms(4)] by (simp add: fold_standing)
  then have "level \<in> ran (halt_levels (fold run_call cs s1))" by (rule ranI)
  moreover have "level \<notin> {WARNING, CLEAR}" using assms(3) by (auto simp: level_order)
  ultimately show ?thesis using ok_can_trade [OF ok] held by blast
qed

definition sample_authority_env :: authority_env where
  "sample_authority_env = \<lparr>ae_halt_time = ''t1'', ae_since_time = ''t2'', ae_change_time = ''t3'',
     ae_audit_time = ''t4'', ae_audit_written = True\<rparr>"

theorem halt_holds_witness:
  "\<not> can_trade (fold run_call [Resume sample_authority_env ''advisor'' ''ok'']
     (run_call (Halt sample_authority_env ''monitor'' SAFE_MODE ''timeout'') (new_authority [] [] [])))"
proof -
  have *: "request_halt sample_authority_env ''monitor'' SAFE_MODE ''timeout'' (new_authority [] [] [])
    = Inr (run_call (Halt sample_authority_env ''monitor'' SAFE_MODE ''timeout'') (new_authority [] [] []),
        SAFE_MODE)" by code_simp
  have "authority_ok (new_authority [] [] [])" by code_simp
  from halt_holds [OF * this, of "[Resume sample_authority_env ''advisor'' ''ok'']"] show ?thesis
    by (simp add: level_order)
qed

section \<open>The audit file\<close>

text \<open>Reading the audit entries back, as an auditor would.\<close>

fun replay_audit :: "audit_entry \<Rightarrow> (string \<Rightarrow> authority_level option) \<Rightarrow> string \<Rightarrow> authority_level option" where
  "replay_audit (HaltRequested _ source level _ _ _) m = m(source \<mapsto> level)"
| "replay_audit (ResumeRequested _ source _ _ _) m = m(source := None)"

fun call_env :: "authority_call \<Rightarrow> authority_env" where
  "call_env (Halt env _ _ _) = env"
| "call_env (Resume env _ _) = env"
| "call_env (ForceEmergency env _ _) = env"

lemma run_call_audit:
  "ae_audit_written (call_env c) \<Longrightarrow>
     \<exists>es. ta_audit (run_call c s) = ta_audit s @ es \<and>
       fold replay_audit es (halt_levels s) = halt_levels (run_call c s)"
  unfolding run_call_standing
  by (cases c) (auto simp: call_defs audit_def halt_levels_def fun_eq_iff split: option.splits)

lemma fold_audit:
  "list_all (\<lambda>c. ae_audit_written (call_env c)) cs \<Longrightarrow>
     \<exists>es. ta_audit (fold run_call cs s) = ta_audit s @ es \<and>
       fold replay_audit es (halt_levels s) = halt_levels (fold run_call cs s)"
proof (induction cs arbitrary: s)
  case (Cons c cs)
  from Cons.prems run_call_audit obtain e1 where
    "ta_audit (run_call c s) = ta_audit s @ e1" "fold replay_audit e1 (halt_levels s) = halt_levels (run_call c s)"
    by (metis list.pred_inject(2))
  moreover from Cons obtain e2 where
    "ta_audit (fold run_call cs (run_call c s)) = ta_audit (run_call c s) @ e2"
    "fold replay_audit e2 (halt_levels (run_call c s)) = halt_levels (fold run_call cs (run_call c s))"
    by fastforce
  ultimately show ?case by (intro exI [of _ "e1 @ e2"]) simp
qed simp

text \<open>
  The governance audit is complete. When the audit file can be written, replaying the entries
  an execution appends gives exactly the halts in force at its end, for every source.
\<close>

theorem audit_reconstructs:
  assumes "list_all (\<lambda>c. ae_audit_written (call_env c)) cs"
  shows "fold replay_audit (ta_audit (fold run_call cs (new_authority since changed []))) (\<lambda>_. None) =
    halt_levels (fold run_call cs (new_authority since changed []))"
proof -
  have "halt_levels (new_authority since changed []) = (\<lambda>_. None)" "ta_audit (new_authority since changed []) = []"
    by (simp_all add: halt_levels_def new_authority_def fun_eq_iff)
  with fold_audit [OF assms, of "new_authority since changed []"] show ?thesis by auto
qed

theorem audit_reconstructs_witness:
  "fold replay_audit (ta_audit (fold run_call
     [Halt sample_authority_env ''monitor'' SAFE_MODE ''timeout'', ForceEmergency sample_authority_env ''bot'' ''kill'',
      Resume sample_authority_env ''monitor'' ''back''] (new_authority [] [] []))) (\<lambda>_. None) =
   [''bot'' \<mapsto> EMERGENCY]"
proof -
  have none: "halt_levels (new_authority [] [] []) = (\<lambda>_. None)"
    by (simp add: halt_levels_def new_authority_def fun_eq_iff)
  show ?thesis
    by (subst audit_reconstructs, simp add: sample_authority_env_def, simp only: fold_standing none)
      (simp add: py_strip_def is_space_def fun_eq_iff)
qed

end
