(* ===== verification/SystemState.thy ===== *)
theory SystemState
  imports PyPrelude PyFloat
begin

text \<open>
  \<^verbatim>\<open>src/system/state_machine.py\<close>: the persisted global state of the trading system. The state
  dictionary is a record; the file it is saved to is a second copy of it, which a restart reads
  back. A file that is missing or unreadable gives the default state; a readable file is one this
  class wrote. Times written as ISO text are whole seconds.
\<close>

datatype sys_state = NORMAL | DEGRADED | HALTED | RECOVERY | SAFE_MODE

fun parse_state :: "string \<Rightarrow> sys_state option" where
  "parse_state s =
     (if s = ''NORMAL'' then Some NORMAL
      else if s = ''DEGRADED'' then Some DEGRADED
      else if s = ''HALTED'' then Some HALTED
      else if s = ''RECOVERY'' then Some RECOVERY
      else if s = ''SAFE_MODE'' then Some SAFE_MODE
      else None)"

record state_dict =
  sd_state :: sys_state
  sd_previous_state :: "sys_state option"
  sd_transitioned_at :: int
  sd_halt_reason :: "string option"
  sd_halt_source :: "string option"
  sd_halted_at :: "int option"
  sd_recovery_consecutive_ok :: int
  sd_trading_enabled :: bool
  sd_open_positions_count :: int
  sd_exchange_sync_ok :: bool
  sd_last_successful_order_at :: "int option"
  sd_last_heartbeat_at :: "int option"
  sd_n_signals_last_cycle :: int
  sd_n_orders_last_cycle :: int
  sd_stall_alert_active :: bool
  sd_updated_at :: int

definition default_state :: "int \<Rightarrow> state_dict" where
  "default_state now = \<lparr>sd_state = NORMAL, sd_previous_state = None, sd_transitioned_at = now,
     sd_halt_reason = None, sd_halt_source = None, sd_halted_at = None,
     sd_recovery_consecutive_ok = 0, sd_trading_enabled = True, sd_open_positions_count = 0,
     sd_exchange_sync_ok = True, sd_last_successful_order_at = None, sd_last_heartbeat_at = None,
     sd_n_signals_last_cycle = 0, sd_n_orders_last_cycle = 0, sd_stall_alert_active = False,
     sd_updated_at = now\<rparr>"

text \<open>The machine: the dictionary in memory and the file, when it exists.\<close>

record machine =
  sm_state :: state_dict
  sm_file :: "state_dict option"

datatype save_error = SaveFailed

text \<open>
  \<^verbatim>\<open>_save\<close> writes a temporary file and renames it, so the file is replaced or left as it was; a
  failed write raises after the memory has changed. \<^verbatim>\<open>_load\<close> is given whether the file reads back.
\<close>

definition save :: "bool \<Rightarrow> machine \<Rightarrow> machine \<times> (save_error + unit)" where
  "save ok m = (if ok then (m\<lparr>sm_file := Some (sm_state m)\<rparr>, Inr ()) else (m, Inl SaveFailed))"

definition load_state :: "bool \<Rightarrow> int \<Rightarrow> state_dict option \<Rightarrow> state_dict" where
  "load_state readable now file =
     (case file of Some d \<Rightarrow> if readable then d else default_state now | None \<Rightarrow> default_state now)"

definition start_machine :: "bool \<Rightarrow> int \<Rightarrow> state_dict option \<Rightarrow> machine" where
  "start_machine readable now file = \<lparr>sm_state = load_state readable now file, sm_file = file\<rparr>"

definition trading_enabled :: "machine \<Rightarrow> bool" where
  "trading_enabled m = sd_trading_enabled (sm_state m)"

definition is_halted :: "machine \<Rightarrow> bool" where
  "is_halted m \<longleftrightarrow> sd_state (sm_state m) = HALTED"

text \<open>What entering a state does to the other fields.\<close>

fun enter :: "int \<Rightarrow> string \<Rightarrow> string \<Rightarrow> sys_state \<Rightarrow> state_dict \<Rightarrow> state_dict" where
  "enter now reason source HALTED d = d\<lparr>sd_trading_enabled := False, sd_halt_reason := Some reason,
     sd_halt_source := Some source, sd_halted_at := Some now, sd_recovery_consecutive_ok := 0\<rparr>"
| "enter now reason source NORMAL d = d\<lparr>sd_trading_enabled := True, sd_halt_reason := None,
     sd_halt_source := None, sd_halted_at := None, sd_recovery_consecutive_ok := 0\<rparr>"
| "enter now reason source RECOVERY d = d\<lparr>sd_trading_enabled := True\<rparr>"
| "enter now reason source SAFE_MODE d = d\<lparr>sd_trading_enabled := False\<rparr>"
| "enter now reason source DEGRADED d = d\<lparr>sd_trading_enabled := True\<rparr>"

definition transition ::
  "bool \<Rightarrow> int \<Rightarrow> string \<Rightarrow> string \<Rightarrow> string \<Rightarrow> machine \<Rightarrow> machine \<times> (save_error + bool)" where
  "transition ok now new_state reason halt_source m =
     (case parse_state new_state of
        None \<Rightarrow> (m, Inr False)
      | Some new \<Rightarrow>
          let old = sd_state (sm_state m) in
          if old = new then (m, Inr False)
          else
            let d = enter now reason halt_source new
                  ((sm_state m)\<lparr>sd_previous_state := Some old, sd_state := new, sd_transitioned_at := now\<rparr>);
              (m', res) = save ok (m\<lparr>sm_state := d\<rparr>)
            in (m', bindE res (\<lambda>_. Inr True)))"

definition to_normal_if_stable :: "bool \<Rightarrow> int \<Rightarrow> int \<Rightarrow> machine \<Rightarrow> machine \<times> (save_error + bool)" where
  "to_normal_if_stable ok now n m =
     (if sd_state (sm_state m) \<noteq> RECOVERY then (m, Inr False)
      else if sd_recovery_consecutive_ok (sm_state m) \<ge> n then
        let (m', res) = transition ok now ''NORMAL'' ''Stable'' [] m
        in (m', bindE res (\<lambda>_. Inr True))
      else (m, Inr False))"

record heartbeat =
  hb_n_signals :: int
  hb_n_orders :: int
  hb_exchange_ok :: bool
  hb_open_positions :: int
  hb_now_ts :: pyfloat
  hb_now_iso :: int

datatype alert = STALL int | EXCHANGE_DOWN | HALTED_ALERT "string option"

definition count_orders :: "heartbeat \<Rightarrow> state_dict \<Rightarrow> state_dict" where
  "count_orders hb d =
     (if hb_n_orders hb > 0 then
        let d' = d\<lparr>sd_last_successful_order_at := Some (hb_now_iso hb)\<rparr> in
        if sd_state d' = RECOVERY
        then d'\<lparr>sd_recovery_consecutive_ok := sd_recovery_consecutive_ok d' + 1\<rparr> else d'
      else d)"

definition stalled :: "int \<Rightarrow> heartbeat \<Rightarrow> state_dict \<Rightarrow> bool" where
  "stalled stall_seconds hb d \<longleftrightarrow>
     hb_n_signals hb > 0 \<and> hb_n_orders hb = 0 \<and> hb_open_positions hb = 0 \<and> sd_state d = NORMAL \<and>
     (case sd_last_successful_order_at d of
        None \<Rightarrow> False
      | Some t \<Rightarrow> fl_lt (Fin (of_int stall_seconds)) (fl_sub (hb_now_ts hb) (Fin (of_int t))))"

definition heartbeat_state :: "int \<Rightarrow> heartbeat \<Rightarrow> state_dict \<Rightarrow> state_dict" where
  "heartbeat_state stall_seconds hb d =
     (let d1 = d\<lparr>sd_last_heartbeat_at := Some (hb_now_iso hb), sd_n_signals_last_cycle := hb_n_signals hb,
            sd_n_orders_last_cycle := hb_n_orders hb, sd_exchange_sync_ok := hb_exchange_ok hb,
            sd_open_positions_count := hb_open_positions hb\<rparr>;
          d2 = count_orders hb d1
      in d2\<lparr>sd_stall_alert_active := stalled stall_seconds hb d2, sd_updated_at := hb_now_iso hb\<rparr>)"

definition heartbeat_alerts :: "heartbeat \<Rightarrow> state_dict \<Rightarrow> alert list" where
  "heartbeat_alerts hb d =
     (if sd_stall_alert_active d then [STALL (hb_n_signals hb)] else []) @
     (if hb_exchange_ok hb then [] else [EXCHANGE_DOWN]) @
     (if sd_state d = HALTED then [HALTED_ALERT (sd_halt_reason d)] else [])"

definition update_heartbeat ::
  "bool \<Rightarrow> int \<Rightarrow> heartbeat \<Rightarrow> machine \<Rightarrow> machine \<times> (save_error + alert list)" where
  "update_heartbeat ok stall_seconds hb m =
     (let d = heartbeat_state stall_seconds hb (sm_state m);
          (m', res) = save ok (m\<lparr>sm_state := d\<rparr>)
      in (m', bindE res (\<lambda>_. Inr (heartbeat_alerts hb d))))"

text \<open>What can happen to the machine over its life, restarts of the process included.\<close>

datatype machine_event =
    Transition bool int string string string
  | ToNormal bool int int
  | Heartbeat bool int heartbeat
  | Restart bool int

fun run_event :: "machine_event \<Rightarrow> machine \<Rightarrow> machine" where
  "run_event (Transition ok now new reason source) m = fst (transition ok now new reason source m)"
| "run_event (ToNormal ok now n) m = fst (to_normal_if_stable ok now n m)"
| "run_event (Heartbeat ok secs hb) m = fst (update_heartbeat ok secs hb m)"
| "run_event (Restart readable now) m = start_machine readable now (sm_file m)"

section \<open>Trading follows the state\<close>

definition dict_ok :: "state_dict \<Rightarrow> bool" where
  "dict_ok d \<longleftrightarrow>
     sd_trading_enabled d = (sd_state d \<notin> {HALTED, SAFE_MODE}) \<and>
     (sd_state d = HALTED \<longrightarrow> sd_halt_reason d \<noteq> None \<and> sd_halted_at d \<noteq> None) \<and>
     (sd_state d = NORMAL \<longrightarrow> sd_halt_reason d = None \<and> sd_halt_source d = None \<and>
        sd_recovery_consecutive_ok d = 0) \<and>
     sd_previous_state d \<noteq> Some (sd_state d) \<and> 0 \<le> sd_recovery_consecutive_ok d"

definition machine_ok :: "machine \<Rightarrow> bool" where
  "machine_ok m \<longleftrightarrow> dict_ok (sm_state m) \<and> (case sm_file m of None \<Rightarrow> True | Some d \<Rightarrow> dict_ok d)"

lemma default_ok [simp]: "dict_ok (default_state now)"
  by (simp add: dict_ok_def default_state_def)

lemma heartbeat_ok: "dict_ok d \<Longrightarrow> dict_ok (heartbeat_state secs hb d)"
  by (auto simp: dict_ok_def heartbeat_state_def count_orders_def Let_def)

lemma enter_ok:
  "dict_ok d \<Longrightarrow> sd_state d \<noteq> new \<Longrightarrow>
     dict_ok (enter now reason source new
       (d\<lparr>sd_previous_state := Some (sd_state d), sd_state := new, sd_transitioned_at := now\<rparr>))"
  by (cases new) (auto simp: dict_ok_def)

lemma save_ok: "machine_ok m \<Longrightarrow> dict_ok d \<Longrightarrow> machine_ok (fst (save ok (m\<lparr>sm_state := d\<rparr>)))"
  by (simp add: save_def machine_ok_def)

lemma transition_ok:
  assumes "machine_ok m"
  shows "machine_ok (fst (transition ok now new reason source m))"
proof (cases "parse_state new")
  case (Some st)
  have "dict_ok (sm_state m)" using assms by (simp add: machine_ok_def)
  with Some save_ok [OF assms enter_ok] show ?thesis
    using assms by (simp add: transition_def Let_def split_beta del: parse_state.simps)
qed (simp add: transition_def assms del: parse_state.simps)

lemma run_event_ok: "machine_ok m \<Longrightarrow> machine_ok (run_event e m)"
proof (cases e)
  case (ToNormal ok now n)
  then show "machine_ok m \<Longrightarrow> ?thesis"
    using transition_ok by (simp add: to_normal_if_stable_def split_beta)
next
  case (Heartbeat ok secs hb)
  then show "machine_ok m \<Longrightarrow> ?thesis"
    using save_ok [OF _ heartbeat_ok] by (simp add: update_heartbeat_def split_beta Let_def machine_ok_def)
next
  case Transition
  then show "machine_ok m \<Longrightarrow> ?thesis" by (simp add: transition_ok)
qed (auto simp: start_machine_def load_state_def machine_ok_def split: option.splits)

lemma machine_ok_start: "machine_ok (start_machine readable now None)"
  by (simp add: machine_ok_def start_machine_def load_state_def)

interpretation system: guarded_machine
  "\<lambda>m. \<exists>readable now. m = start_machine readable now None" run_event machine_ok
  by unfold_locales (auto simp: machine_ok_start run_event_ok)

lemma ok_facts:
  "machine_ok m \<Longrightarrow> trading_enabled m \<longleftrightarrow> sd_state (sm_state m) \<noteq> HALTED \<and> sd_state (sm_state m) \<noteq> SAFE_MODE"
  "machine_ok m \<Longrightarrow> is_halted m \<Longrightarrow> sd_halt_reason (sm_state m) \<noteq> None"
  "machine_ok m \<Longrightarrow> pred_option dict_ok (sm_file m)"
  by (auto simp: machine_ok_def dict_ok_def trading_enabled_def is_halted_def pred_option_def
      split: option.splits)

text \<open>
  Trading is enabled exactly outside \<open>HALTED\<close> and \<open>SAFE_MODE\<close>. In any life of the system
  state machine from a first start, with saves that fail, files that do not read back and
  restarts at any point, the flag that enables trading agrees with the state, a halted system
  keeps its reason, and the file always holds a state for which the same is true.
\<close>

theorem trading_follows_state:
  assumes "m = fold run_event es (start_machine readable now None)"
  shows "(trading_enabled m \<longleftrightarrow> sd_state (sm_state m) \<noteq> HALTED \<and> sd_state (sm_state m) \<noteq> SAFE_MODE) \<and>
    (is_halted m \<longrightarrow> sd_halt_reason (sm_state m) \<noteq> None) \<and> pred_option dict_ok (sm_file m)"
proof -
  have "machine_ok m" unfolding assms by (rule system.run_inv) blast
  then show ?thesis using ok_facts by blast
qed

theorem trading_follows_state_witness:
  "\<not> trading_enabled (fold run_event [Transition False 7 ''HALTED'' ''drawdown'' ''engine'']
     (start_machine True 5 None))"
  using trading_follows_state [OF refl, of "[Transition False 7 ''HALTED'' ''drawdown'' ''engine'']" True 5]
  by (simp add: transition_def save_def start_machine_def load_state_def default_state_def)

section \<open>Leaving a halt, leaving the recovery\<close>

text \<open>Every event but a call of \<^verbatim>\<open>transition\<close> and a restart that cannot read the file.\<close>

fun no_transition :: "machine_event \<Rightarrow> bool" where
  "no_transition (Transition _ _ _ _ _) = False"
| "no_transition (Restart readable _) = readable"
| "no_transition _ = True"

definition halted_dict :: "state_dict \<Rightarrow> bool" where
  "halted_dict d \<longleftrightarrow> sd_state d = HALTED \<and> \<not> sd_trading_enabled d"

lemma halted_stays:
  "no_transition e \<Longrightarrow> halted_dict (sm_state m) \<Longrightarrow> pred_option halted_dict (sm_file m) \<Longrightarrow>
     sm_file m \<noteq> None \<Longrightarrow>
     halted_dict (sm_state (run_event e m)) \<and> pred_option halted_dict (sm_file (run_event e m)) \<and>
     sm_file (run_event e m) \<noteq> None"
  by (cases e) (auto simp: halted_dict_def to_normal_if_stable_def update_heartbeat_def
      heartbeat_state_def count_orders_def save_def start_machine_def load_state_def Let_def)

lemma halted_run:
  "list_all no_transition es \<Longrightarrow> halted_dict (sm_state m) \<Longrightarrow> pred_option halted_dict (sm_file m) \<Longrightarrow>
     sm_file m \<noteq> None \<Longrightarrow> halted_dict (sm_state (fold run_event es m))"
proof (induction es arbitrary: m)
  case (Cons e es)
  with halted_stays [of e m] show ?case by simp
qed simp

text \<open>
  C38: A halt lasts until somebody ends it or its file is lost. After a halt that was saved, heartbeats, attempts to
  return to normal and restarts that read the file, with saves that succeed or fail, leave the system halted with
  trading disabled; and a restart that can not read the file ends every halt and enables trading.
\<close>

theorem halt_lasts:
  assumes "transition True now ''HALTED'' reason source m = (m1, Inr True)"
    and "list_all no_transition es"
  shows "is_halted (fold run_event es m1) \<and> \<not> trading_enabled (fold run_event es m1) \<and>
    \<not> is_halted (run_event (Restart False t) (fold run_event es m1)) \<and> trading_enabled (run_event (Restart False t) (fold run_event es m1))"
proof -
  have lost: "\<not> is_halted (run_event (Restart False t) m) \<and> trading_enabled (run_event (Restart False t) m)" for m
    by (simp add: start_machine_def load_state_def default_state_def is_halted_def trading_enabled_def split: option.split)
  have "halted_dict (sm_state m1) \<and> pred_option halted_dict (sm_file m1) \<and> sm_file m1 \<noteq> None"
    using assms(1) by (auto simp: transition_def save_def halted_dict_def Let_def split: if_splits)
  with halted_run [OF assms(2)] have "is_halted (fold run_event es m1) \<and> \<not> trading_enabled (fold run_event es m1)"
    by (simp add: halted_dict_def is_halted_def trading_enabled_def)
  with lost show ?thesis by blast
qed

theorem halt_lasts_witness:
  "\<not> trading_enabled (fold run_event [ToNormal True 9 0, Restart True 10]
     (fst (transition True 7 ''HALTED'' ''drawdown'' ''engine'' (start_machine True 5 None))))"
proof -
  have "transition True 7 ''HALTED'' ''drawdown'' ''engine'' (start_machine True 5 None) =
    (fst (transition True 7 ''HALTED'' ''drawdown'' ''engine'' (start_machine True 5 None)), Inr True)"
    by (simp add: transition_def save_def start_machine_def load_state_def default_state_def Let_def)
  from halt_lasts [OF this, of "[ToNormal True 9 0, Restart True 10]"] show ?thesis by simp
qed

lemma beat_keeps_state: "sd_state (sm_state (run_event (Heartbeat ok secs hb) m)) = sd_state (sm_state m)"
  by (simp add: update_heartbeat_def heartbeat_state_def count_orders_def save_def Let_def)

lemma beat_counts:
  "sd_state (sm_state m) = RECOVERY \<Longrightarrow>
     sd_recovery_consecutive_ok (sm_state (run_event (Heartbeat ok secs hb) m)) =
     sd_recovery_consecutive_ok (sm_state m) + (if hb_n_orders hb > 0 then 1 else 0)"
  by (simp add: update_heartbeat_def heartbeat_state_def count_orders_def save_def Let_def)

definition beats :: "(bool \<times> heartbeat) list \<Rightarrow> int \<Rightarrow> machine \<Rightarrow> machine" where
  "beats hs secs m = fold run_event (map (\<lambda>(ok, hb). Heartbeat ok secs hb) hs) m"

lemma beats_count:
  "sd_state (sm_state m) = RECOVERY \<Longrightarrow>
     sd_state (sm_state (beats hs secs m)) = RECOVERY \<and>
     sd_recovery_consecutive_ok (sm_state (beats hs secs m)) =
       sd_recovery_consecutive_ok (sm_state m) + int (length (filter (\<lambda>(_, hb). hb_n_orders hb > 0) hs))"
proof (induction hs arbitrary: m)
  case (Cons h hs)
  obtain ok hb where h: "h = (ok, hb)" by (cases h)
  from Cons.IH [of "run_event (Heartbeat ok secs hb) m"] Cons.prems show ?case
    by (simp add: beats_def h beat_keeps_state beat_counts del: run_event.simps)
qed (simp add: beats_def)

text \<open>
  What ends a recovery is placed orders, not clean cycles. After any heartbeats in \<open>RECOVERY\<close>
  the counter has grown by the number of them that placed an order, whatever the state of the
  exchange in them, and \<^verbatim>\<open>to_normal_if_stable\<close> returns to \<open>NORMAL\<close> exactly when it has reached the
  threshold: a system that recovers without orders stays in \<open>RECOVERY\<close> for ever. Leaving and
  entering \<open>RECOVERY\<close> again through \<open>DEGRADED\<close> or \<open>SAFE_MODE\<close> keeps the old count.
\<close>

theorem recovery_counts_orders:
  assumes "sd_state (sm_state m) = RECOVERY"
    and "via = ''DEGRADED'' \<or> via = ''SAFE_MODE''"
  shows "sd_state (sm_state (fst (to_normal_if_stable ok now n (beats hs secs m)))) =
      (if n \<le> sd_recovery_consecutive_ok (sm_state m) +
          int (length (filter (\<lambda>(_, hb). hb_n_orders hb > 0) hs)) then NORMAL else RECOVERY) \<and>
    sd_recovery_consecutive_ok (sm_state (fst (transition ok2 t2 ''RECOVERY'' r2 s2
      (fst (transition ok1 t1 via r1 s1 m))))) = sd_recovery_consecutive_ok (sm_state m)"
proof
  show "sd_state (sm_state (fst (to_normal_if_stable ok now n (beats hs secs m)))) =
      (if n \<le> sd_recovery_consecutive_ok (sm_state m) +
          int (length (filter (\<lambda>(_, hb). hb_n_orders hb > 0) hs)) then NORMAL else RECOVERY)"
    using beats_count [OF assms(1), of hs secs]
    by (auto simp: to_normal_if_stable_def transition_def save_def Let_def)
  show "sd_recovery_consecutive_ok (sm_state (fst (transition ok2 t2 ''RECOVERY'' r2 s2
      (fst (transition ok1 t1 via r1 s1 m))))) = sd_recovery_consecutive_ok (sm_state m)"
    using assms by (auto simp: transition_def save_def Let_def)
qed

definition quiet_beat :: heartbeat where
  "quiet_beat = \<lparr>hb_n_signals = 1, hb_n_orders = 0, hb_exchange_ok = True, hb_open_positions = 0,
     hb_now_ts = Fin 100, hb_now_iso = 100\<rparr>"

theorem recovery_counts_orders_witness:
  "sd_state (sm_state (fst (to_normal_if_stable True 9 10 (beats (replicate 50 (True, quiet_beat)) 1800
     (fst (transition True 7 ''RECOVERY'' [] [] (start_machine True 5 None))))))) = RECOVERY"
proof -
  have "sd_state (sm_state (fst (transition True 7 ''RECOVERY'' [] [] (start_machine True 5 None)))) = RECOVERY"
    "sd_recovery_consecutive_ok (sm_state (fst (transition True 7 ''RECOVERY'' [] [] (start_machine True 5 None)))) = 0"
    by (simp_all add: transition_def save_def start_machine_def load_state_def default_state_def Let_def)
  with recovery_counts_orders [of _ "''DEGRADED''" True 9 10 "replicate 50 (True, quiet_beat)" 1800]
  show ?thesis by (simp add: quiet_beat_def filter_replicate)
qed

end
