(* ===== verification/PyJson.thy ===== *)
theory PyJson
  imports PyText "HOL-Library.List_Lexorder" "HOL-Library.Char_ord"
begin

text \<open>
  The part of Python's \<^verbatim>\<open>json\<close> module the repository uses: values, the texts \<^verbatim>\<open>json.dumps\<close>
  writes, in the layouts its arguments choose (on one line, compact or spaced, or indented; with
  keys sorted or in their order; with or without \<^verbatim>\<open>ensure_ascii\<close>), and the reader
  \<^verbatim>\<open>json.loads\<close>. The locale \<open>json_style\<close> proves once, for every layout, that what is written
  reads back; \<open>sorted_line\<close> carries it over to sorted keys.
\<close>

datatype pyjson =
    JNull
  | JBool bool
  | JInt int
  | JFloat pyfloat
  | JStr string
  | JList "pyjson list"
  | JObj "(string \<times> pyjson) list"

section \<open>Writing\<close>

text \<open>
  Two hexadecimal digits are enough for an escape: a character is a code point below 256 and
  only those below 32 are escaped by their number.
\<close>

definition low_hex :: "nat \<Rightarrow> char" where
  "low_hex d = (if d < 10 then char_of (48 + d) else char_of (87 + d))"

definition escape_char :: "char \<Rightarrow> string" where
  "escape_char c =
     (let n = (of_char c :: nat) in
      if n = 34 then [CHR 0x5C, CHR 0x22]
      else if n = 92 then [CHR 0x5C, CHR 0x5C]
      else if n = 10 then [CHR 0x5C, CHR ''n'']
      else if n = 13 then [CHR 0x5C, CHR ''r'']
      else if n = 9 then [CHR 0x5C, CHR ''t'']
      else if n = 8 then [CHR 0x5C, CHR ''b'']
      else if n = 12 then [CHR 0x5C, CHR ''f'']
      else if n < 32 then [CHR 0x5C, CHR ''u'', CHR ''0'', CHR ''0'', low_hex (n div 16), low_hex (n mod 16)]
      else [c])"

text \<open>With \<^verbatim>\<open>ensure_ascii\<close>, the default, everything outside printable ASCII is escaped.\<close>

definition ascii_char :: "char \<Rightarrow> string" where
  "ascii_char c =
     (let n = (of_char c :: nat) in
      if n < 127 then escape_char c
      else [CHR 0x5C, CHR ''u'', CHR ''0'', CHR ''0'', low_hex (n div 16), low_hex (n mod 16)])"

definition quoted :: "(char \<Rightarrow> string) \<Rightarrow> string \<Rightarrow> string" where
  "quoted esc s = CHR 0x22 # concat (map esc s) @ [CHR 0x22]"

abbreviation dump_str :: "string \<Rightarrow> string" where
  "dump_str \<equiv> quoted escape_char"

text \<open>The argument is what follows a separator.\<close>

fun commas :: "string \<Rightarrow> string list \<Rightarrow> string" where
  "commas pad [] = []"
| "commas pad [x] = x"
| "commas pad (x # y # xs) = x @ CHR '','' # pad @ commas pad (y # xs)"

text \<open>
  A layout: the escapes, and the white space after an opening bracket, after a comma, before a
  closing bracket, at the depth of what follows, and after a colon. \<open>render\<close> keeps the order of
  the keys.
\<close>

record json_layout =
  ly_escape :: "char \<Rightarrow> string"
  ly_open :: "nat \<Rightarrow> string"
  ly_item :: "nat \<Rightarrow> string"
  ly_close :: "nat \<Rightarrow> string"
  ly_colon :: string

definition bracket :: "json_layout \<Rightarrow> nat \<Rightarrow> char \<Rightarrow> string list \<Rightarrow> char \<Rightarrow> string" where
  "bracket ly d l xs r =
     (if xs = [] then [l, r]
      else l # ly_open ly (d + 1) @ commas (ly_item ly (d + 1)) xs @ ly_close ly d @ [r])"

fun render :: "json_layout \<Rightarrow> nat \<Rightarrow> pyjson \<Rightarrow> string" where
  "render ly d JNull = ''null''"
| "render ly d (JBool b) = (if b then ''true'' else ''false'')"
| "render ly d (JInt n) = show_int n"
| "render ly d (JFloat x) = float_repr x"
| "render ly d (JStr s) = quoted (ly_escape ly) s"
| "render ly d (JList js) = bracket ly d (CHR ''['') (map (render ly (d + 1)) js) (CHR '']'')"
| "render ly d (JObj kvs) = bracket ly d (CHR ''{'')
     (map (\<lambda>(k, v). quoted (ly_escape ly) k @ '':'' @ ly_colon ly @ render ly (d + 1) v) kvs) (CHR ''}'')"

text \<open>\<^verbatim>\<open>sort_keys\<close>: the same value with the keys of every object in order.\<close>

fun canon :: "pyjson \<Rightarrow> pyjson" where
  "canon (JList js) = JList (map canon js)"
| "canon (JObj kvs) = JObj (sort_key fst (map (\<lambda>(k, v). (k, canon v)) kvs))"
| "canon j = j"

text \<open>On one line, the argument after each separator: nothing, or a space, the default.\<close>

definition line_layout :: "string \<Rightarrow> json_layout" where
  "line_layout pad = \<lparr>ly_escape = escape_char, ly_open = (\<lambda>_. []), ly_item = (\<lambda>_. pad),
     ly_close = (\<lambda>_. []), ly_colon = pad\<rparr>"

text \<open>\<^verbatim>\<open>indent=2\<close>, with the escapes of the argument.\<close>

definition indent_layout :: "(char \<Rightarrow> string) \<Rightarrow> json_layout" where
  "indent_layout esc = (let nl = (\<lambda>d. CHR 0x0A # replicate (2 * d) (CHR '' ''))
     in \<lparr>ly_escape = esc, ly_open = nl, ly_item = nl, ly_close = nl, ly_colon = '' ''\<rparr>)"

definition dump_with :: "string \<Rightarrow> pyjson \<Rightarrow> string" where
  "dump_with pad j = render (line_layout pad) 0 (canon j)"

abbreviation dump :: "pyjson \<Rightarrow> string" where
  "dump \<equiv> dump_with []"

text \<open>With \<^verbatim>\<open>allow_nan=False\<close> a float that is not finite is a \<^verbatim>\<open>ValueError\<close>, here \<open>None\<close>.\<close>

fun all_finite :: "pyjson \<Rightarrow> bool" where
  "all_finite (JFloat x) = fl_finite x"
| "all_finite (JList js) = list_all all_finite js"
| "all_finite (JObj kvs) = list_all (\<lambda>(_, v). all_finite v) kvs"
| "all_finite _ = True"

definition dumps :: "pyjson \<Rightarrow> string option" where
  "dumps j = (if all_finite j then Some (dump j) else None)"

section \<open>Reading\<close>

definition is_ws :: "char \<Rightarrow> bool" where
  "is_ws c \<longleftrightarrow> (of_char c :: nat) \<in> {9, 10, 13, 32}"

definition skip_ws :: "string \<Rightarrow> string" where
  "skip_ws s = dropWhile is_ws s"

definition hex_val :: "char \<Rightarrow> nat option" where
  "hex_val c =
     (let n = (of_char c :: nat) in
      if 48 \<le> n \<and> n \<le> 57 then Some (n - 48)
      else if 97 \<le> n \<and> n \<le> 102 then Some (n - 87)
      else if 65 \<le> n \<and> n \<le> 70 then Some (n - 55)
      else None)"

text \<open>
  Four hexadecimal digits. An escape of a code point above 255 has no character in the model
  and is refused; what the repository writes has none.
\<close>

definition hex4 :: "char \<Rightarrow> char \<Rightarrow> char \<Rightarrow> char \<Rightarrow> char option" where
  "hex4 a b c d =
     (case (hex_val a, hex_val b, hex_val c, hex_val d) of
        (Some h3, Some h2, Some h1, Some h0) \<Rightarrow>
          if h3 = 0 \<and> h2 = 0 then Some (char_of (16 * h1 + h0)) else None
      | _ \<Rightarrow> None)"

definition simple_escape :: "char \<Rightarrow> char option" where
  "simple_escape e =
     (let n = (of_char e :: nat) in
      if n = 34 \<or> n = 92 \<or> n = 47 then Some e
      else if n = 98 then Some (char_of (8 :: nat))
      else if n = 102 then Some (char_of (12 :: nat))
      else if n = 110 then Some (char_of (10 :: nat))
      else if n = 114 then Some (char_of (13 :: nat))
      else if n = 116 then Some (char_of (9 :: nat))
      else None)"

text \<open>The characters of a string literal after its opening quote, and the rest of the text.\<close>

fun read_str :: "string \<Rightarrow> (string \<times> string) option" where
  "read_str [] = None"
| "read_str (c # s) =
     (if c = CHR 0x22 then Some ([], s)
      else if c = CHR 0x5C then
        (case s of
           [] \<Rightarrow> None
         | e # t \<Rightarrow>
             (case simple_escape e of
                Some x \<Rightarrow> map_option (\<lambda>(u, r). (x # u, r)) (read_str t)
              | None \<Rightarrow>
                  if e \<noteq> CHR ''u'' then None
                  else (case t of
                      h3 # h2 # h1 # h0 # t' \<Rightarrow>
                        (case hex4 h3 h2 h1 h0 of
                           Some x \<Rightarrow> map_option (\<lambda>(u, r). (x # u, r)) (read_str t')
                         | None \<Rightarrow> None)
                    | _ \<Rightarrow> None)))
      else if (of_char c :: nat) < 32 then None
      else map_option (\<lambda>(u, r). (c # u, r)) (read_str s))"

text \<open>
  A number: an optional minus, an integer without leading zeros, an optional fraction and an
  optional exponent. Without the last two it is an int, otherwise the nearest double.
\<close>

definition read_frac :: "string \<Rightarrow> string option \<times> string" where
  "read_frac s =
     (case s of
        [] \<Rightarrow> (None, s)
      | c # t \<Rightarrow>
          if c = CHR ''.'' \<and> takeWhile is_digit t \<noteq> []
          then (Some (takeWhile is_digit t), dropWhile is_digit t) else (None, s))"

definition read_sign :: "string \<Rightarrow> bool \<times> string" where
  "read_sign s =
     (case s of
        [] \<Rightarrow> (False, s)
      | c # t \<Rightarrow> if c = CHR ''-'' then (True, t) else if c = CHR ''+'' then (False, t) else (False, s))"

definition read_exp :: "string \<Rightarrow> int option \<times> string" where
  "read_exp s =
     (case s of
        [] \<Rightarrow> (None, s)
      | c # t \<Rightarrow>
          (case read_sign t of
             (neg, u) \<Rightarrow>
               if (c = CHR ''e'' \<or> c = CHR ''E'') \<and> takeWhile is_digit u \<noteq> [] then
                 let n = int (read_digits (takeWhile is_digit u))
                 in (Some (if neg then - n else n), dropWhile is_digit u)
               else (None, s)))"

definition int_part :: "string \<Rightarrow> string" where
  "int_part s =
     (let ds = takeWhile is_digit s
      in if ds \<noteq> [] \<and> hd ds = CHR ''0'' then take 1 ds else ds)"

definition number_value :: "bool \<Rightarrow> string \<Rightarrow> string option \<Rightarrow> int option \<Rightarrow> pyjson" where
  "number_value neg ip fraction expo =
     (case (fraction, expo) of
        (None, None) \<Rightarrow> JInt (if neg then - int (read_digits ip) else int (read_digits ip))
      | _ \<Rightarrow>
          let f = (case fraction of None \<Rightarrow> [] | Some f \<Rightarrow> f);
              x = (case expo of None \<Rightarrow> 0 | Some x \<Rightarrow> x);
              v = round_double (of_nat (read_digits (ip @ f)) * pow10 (x - int (length f)))
          in JFloat (if neg then fl_neg v else v))"

definition read_number :: "string \<Rightarrow> (pyjson \<times> string) option" where
  "read_number s =
     (let (neg, s1) = (case s of [] \<Rightarrow> (False, s)
                       | c # t \<Rightarrow> if c = CHR ''-'' then (True, t) else (False, s));
          ip = int_part s1;
          (fraction, s2) = read_frac (drop (length ip) s1);
          (expo, s3) = read_exp s2
      in if ip = [] then None else Some (number_value neg ip fraction expo, s3))"

definition read_word :: "string \<Rightarrow> pyjson \<Rightarrow> string \<Rightarrow> (pyjson \<times> string) option" where
  "read_word w j s = (if take (length w) s = w then Some (j, drop (length w) s) else None)"

text \<open>
  What becomes of the members of an object is the caller's \<open>hook\<close>; \<open>None\<close> is a \<^verbatim>\<open>ValueError\<close>,
  as is a \<^verbatim>\<open>NaN\<close> or an infinity. The fuel bounds the nesting and the number of members;
  \<open>parse_fuel\<close> shows that more than the length of the text never matters.
\<close>

type_synonym json_hook = "(string \<times> pyjson) list \<Rightarrow> pyjson option"

fun parse_value :: "json_hook \<Rightarrow> nat \<Rightarrow> string \<Rightarrow> (pyjson \<times> string) option"
and parse_elements :: "json_hook \<Rightarrow> nat \<Rightarrow> string \<Rightarrow> (pyjson list \<times> string) option"
and parse_members :: "json_hook \<Rightarrow> nat \<Rightarrow> string \<Rightarrow> ((string \<times> pyjson) list \<times> string) option" where
  "parse_value h 0 s = None"
| "parse_value h (Suc n) s =
     (case s of
        [] \<Rightarrow> None
      | c # t \<Rightarrow>
          if c = CHR 0x22 then map_option (\<lambda>(u, r). (JStr u, r)) (read_str t)
          else if c = CHR ''{'' then
            (case skip_ws t of
               [] \<Rightarrow> None
             | d # r \<Rightarrow>
                 if d = CHR ''}'' then map_option (\<lambda>j. (j, r)) (h [])
                 else Option.bind (parse_members h n (d # r))
                        (\<lambda>(kvs, r'). map_option (\<lambda>j. (j, r')) (h kvs)))
          else if c = CHR ''['' then
            (case skip_ws t of
               [] \<Rightarrow> None
             | d # r \<Rightarrow>
                 if d = CHR '']'' then Some (JList [], r)
                 else map_option (\<lambda>(js, r'). (JList js, r')) (parse_elements h n (d # r)))
          else if c = CHR ''n'' then read_word ''null'' JNull s
          else if c = CHR ''t'' then read_word ''true'' (JBool True) s
          else if c = CHR ''f'' then read_word ''false'' (JBool False) s
          else read_number s)"
| "parse_elements h 0 s = None"
| "parse_elements h (Suc n) s =
     (case parse_value h n s of
        None \<Rightarrow> None
      | Some (j, r) \<Rightarrow>
          (case skip_ws r of
             [] \<Rightarrow> None
           | c # t \<Rightarrow>
               if c = CHR '']'' then Some ([j], t)
               else if c = CHR '','' then
                 map_option (\<lambda>(js, r'). (j # js, r')) (parse_elements h n (skip_ws t))
               else None))"
| "parse_members h 0 s = None"
| "parse_members h (Suc n) s =
     (case s of
        [] \<Rightarrow> None
      | c # t \<Rightarrow>
          if c \<noteq> CHR 0x22 then None
          else (case read_str t of
              None \<Rightarrow> None
            | Some (k, r) \<Rightarrow>
                (case skip_ws r of
                   [] \<Rightarrow> None
                 | d # u \<Rightarrow>
                     if d \<noteq> CHR '':'' then None
                     else (case parse_value h n (skip_ws u) of
                         None \<Rightarrow> None
                       | Some (v, r1) \<Rightarrow>
                           (case skip_ws r1 of
                              [] \<Rightarrow> None
                            | e # w \<Rightarrow>
                                if e = CHR ''}'' then Some ([(k, v)], w)
                                else if e = CHR '','' then
                                  map_option (\<lambda>(kvs, r'). ((k, v) # kvs, r'))
                                    (parse_members h n (skip_ws w))
                                else None)))))"

definition loads :: "json_hook \<Rightarrow> string \<Rightarrow> pyjson option" where
  "loads h s =
     (case parse_value h (Suc (length s)) (skip_ws s) of
        None \<Rightarrow> None
      | Some (j, r) \<Rightarrow> if skip_ws r = [] then Some j else None)"

text \<open>The hook that refuses a repeated key, and the default, where the last one wins.\<close>

definition strict_hook :: json_hook where
  "strict_hook kvs = (if distinct (map fst kvs) then Some (JObj kvs) else None)"

definition dict_hook :: json_hook where
  "dict_hook kvs = Some (JObj (fold (\<lambda>(k, v) d. dict_set d k v) kvs []))"

declare parse_value.simps [simp del] parse_elements.simps [simp del] parse_members.simps [simp del]

section \<open>Strings read back\<close>

lemma hex_val_low_hex: "d < 16 \<Longrightarrow> hex_val (low_hex d) = Some d"
  by (cases "d < 10") (auto simp: hex_val_def low_hex_def of_char_of Let_def)

lemma read_plain:
  "(of_char c :: nat) \<noteq> 34 \<Longrightarrow> (of_char c :: nat) \<noteq> 92 \<Longrightarrow> 32 \<le> (of_char c :: nat) \<Longrightarrow>
     read_str (c # s) = map_option (\<lambda>(u, r). (c # u, r)) (read_str s)"
  by (simp add: char_iff)

lemma read_simple:
  "simple_escape e = Some x \<Longrightarrow>
     read_str (CHR 0x5C # e # s) = map_option (\<lambda>(u, r). (x # u, r)) (read_str s)"
  by (simp add: char_iff)

lemma simple_escape_None: "simple_escape (CHR ''u'') = None"
  by (simp add: simple_escape_def)

lemma read_numbered:
  "hex4 a b c d = Some x \<Longrightarrow>
     read_str (CHR 0x5C # CHR ''u'' # a # b # c # d # s) = map_option (\<lambda>(u, r). (x # u, r)) (read_str s)"
  by (simp add: char_iff simple_escape_None)

lemma hex4_low: "n < 256 \<Longrightarrow> hex4 (CHR ''0'') (CHR ''0'') (low_hex (n div 16)) (low_hex (n mod 16)) = Some (char_of n)"
proof -
  assume "n < 256"
  then have "n div 16 < 16" by simp
  moreover have "hex_val (CHR ''0'') = Some 0" by (simp add: hex_val_def)
  ultimately show ?thesis by (simp add: hex4_def hex_val_low_hex)
qed

lemma read_escape: "read_str (escape_char c @ s) = map_option (\<lambda>(u, r). (c # u, r)) (read_str s)"
proof -
  let ?n = "of_char c :: nat"
  have self: "?n = k \<Longrightarrow> char_of k = c" for k by (rule char_of_eq)
  consider "?n \<in> {34, 92, 10, 13, 9, 8, 12}" | "?n \<notin> {34, 92, 10, 13, 9, 8, 12}" "?n < 32"
    | "?n \<notin> {34, 92, 10, 13, 9, 8, 12}" "32 \<le> ?n" by linarith
  then show ?thesis
  proof cases
    case 1
    then show ?thesis
      by (elim insertE emptyE)
        (simp_all add: escape_char_def read_simple simple_escape_def self char_iff del: read_str.simps)
  next
    case 2
    then show ?thesis
      by (simp add: escape_char_def Let_def read_numbered hex4_low of_char_less self del: read_str.simps)
  next
    case 3
    then show ?thesis by (simp add: escape_char_def Let_def read_plain del: read_str.simps)
  qed
qed

lemma read_dump_str: "read_str (concat (map escape_char s) @ CHR 0x22 # r) = Some (s, r)"
  by (induction s) (simp_all add: read_escape del: read_str.simps(2), simp)

section \<open>Numbers read back\<close>

text \<open>What may follow a number without being read as part of it.\<close>

definition number_ends :: "string \<Rightarrow> bool" where
  "number_ends r \<longleftrightarrow> (case r of [] \<Rightarrow> True
     | c # _ \<Rightarrow> \<not> is_digit c \<and> c \<noteq> CHR ''.'' \<and> c \<noteq> CHR ''e'' \<and> c \<noteq> CHR ''E'')"

lemma takeWhile_digits:
  "list_all is_digit ds \<Longrightarrow> (r = [] \<or> \<not> is_digit (hd r)) \<Longrightarrow>
     takeWhile is_digit (ds @ r) = ds \<and> dropWhile is_digit (ds @ r) = r"
  by (induction ds) (auto, (cases r; simp)+)

lemma read_digits_append: "read_digits (a @ b) = read_digits a * 10 ^ length b + read_digits b"
proof (induction b rule: rev_induct)
  case Nil
  show ?case by (simp add: read_digits_def)
next
  case (snoc c b)
  have "read_digits (a @ b @ [c]) = 10 * read_digits (a @ b) + digit_val c"
    using read_digits_snoc [of "a @ b" c] by simp
  with snoc show ?case by (simp add: algebra_simps)
qed

lemma digits_no_lead:
  "0 < n \<Longrightarrow> hd (show_nat n) \<noteq> CHR ''0''"
proof (induction n rule: show_nat.induct)
  case (1 n)
  show ?case
  proof (cases "n < 10")
    case True
    with 1(2) show ?thesis by (simp add: show_nat_digit digit_char_def char_iff of_char_of)
  next
    case False
    with 1 show ?thesis by (simp add: show_nat_ge hd_append)
  qed
qed

lemma show_nat_0: "show_nat 0 = ''0''"
  by (simp add: show_nat_digit digit_char_def char_iff of_char_of)

lemma int_part_show:
  assumes "r = [] \<or> \<not> is_digit (hd r)"
  shows "int_part (show_nat n @ r) = show_nat n"
proof (cases "n = 0")
  case True
  then show ?thesis
    using takeWhile_digits [OF show_nat_digits assms, of 0] by (simp add: int_part_def Let_def show_nat_0)
next
  case False
  then show ?thesis
    using takeWhile_digits [OF show_nat_digits assms, of n] digits_no_lead [of n]
    by (simp add: int_part_def Let_def)
qed

lemma ends_digit: "number_ends r \<Longrightarrow> r = [] \<or> \<not> is_digit (hd r)"
  by (cases r) (simp_all add: number_ends_def)

lemma ends_frac: "number_ends r \<Longrightarrow> read_frac r = (None, r)"
  by (cases r) (simp_all add: number_ends_def read_frac_def)

lemma ends_exp: "number_ends r \<Longrightarrow> read_exp r = (None, r)"
  by (cases r) (simp_all add: number_ends_def read_exp_def split: prod.splits)

lemma show_nat_hd: "\<exists>c t. show_nat n = c # t \<and> is_digit c"
proof -
  obtain c t where "show_nat n = c # t" using show_nat_nonempty by (meson neq_Nil_conv)
  with show_nat_digits [of n] show ?thesis by auto
qed

lemma digit_not_minus: "is_digit c \<Longrightarrow> c \<noteq> CHR ''-''"
  by (auto simp: is_digit_def)

lemma read_show_int:
  assumes "number_ends r"
  shows "read_number (show_int n @ r) = Some (JInt n, r)"
proof (cases "n < 0")
  case True
  then show ?thesis
    using int_part_show [OF ends_digit [OF assms], of "nat (- n)"]
    by (simp add: read_number_def show_int_def ends_frac assms ends_exp number_value_def read_show_nat)
next
  case False
  obtain c t where ct: "show_nat (nat n) = c # t" "is_digit c" using show_nat_hd by blast
  then show ?thesis
    using False int_part_show [OF ends_digit [OF assms], of "nat n"] digit_not_minus [of c]
      read_show_nat [of "nat n"]
    by (simp add: read_number_def show_int_def ends_frac assms ends_exp number_value_def ct)
qed

definition well_int :: "string \<Rightarrow> bool" where
  "well_int ip \<longleftrightarrow> ip \<noteq> [] \<and> list_all is_digit ip \<and> (hd ip = CHR ''0'' \<longrightarrow> ip = ''0'')"

lemma int_part_well:
  assumes "well_int ip" and "r = [] \<or> \<not> is_digit (hd r)"
  shows "int_part (ip @ r) = ip"
  using assms takeWhile_digits [of ip r] by (auto simp: well_int_def int_part_def Let_def)

lemma well_int_minus: "well_int ip \<Longrightarrow> \<exists>c t. ip = c # t \<and> c \<noteq> CHR ''-''"
  by (cases ip) (auto simp: well_int_def digit_not_minus)

lemma well_show_nat: "0 < n \<Longrightarrow> well_int (show_nat n)"
  by (simp add: well_int_def show_nat_digits digits_no_lead)

lemma point_not_digit: "\<not> is_digit (CHR ''.'')" "\<not> is_digit (CHR ''e'')"
  by (simp_all add: is_digit_def)

definition frac_text :: "string \<Rightarrow> string" where
  "frac_text f = (if f = [] then [] else CHR ''.'' # f)"

lemma read_frac_text:
  assumes "list_all is_digit f" and "r = [] \<or> \<not> is_digit (hd r) \<and> hd r \<noteq> CHR ''.''"
  shows "read_frac (frac_text f @ r) = (if f = [] then None else Some f, r)"
proof (cases "f = []")
  case True
  with assms show ?thesis by (cases r) (simp_all add: read_frac_def frac_text_def)
next
  case False
  have "takeWhile is_digit (f @ r) = f \<and> dropWhile is_digit (f @ r) = r"
    using assms by (intro takeWhile_digits) auto
  with False show ?thesis by (simp add: read_frac_def frac_text_def)
qed

lemma read_point:
  assumes "well_int ip" "list_all is_digit f" "f \<noteq> []" "number_ends r"
  shows "read_number (ip @ CHR ''.'' # f @ r) =
    Some (JFloat (round_double (of_nat (read_digits (ip @ f)) * pow10 (- int (length f)))), r)"
proof -
  have r: "r = [] \<or> \<not> is_digit (hd r) \<and> hd r \<noteq> CHR ''.''"
    using assms(4) by (cases r) (simp_all add: number_ends_def)
  have "int_part (ip @ CHR ''.'' # f @ r) = ip"
    by (rule int_part_well [OF assms(1)]) (simp add: point_not_digit)
  moreover have "read_frac (CHR ''.'' # f @ r) = (Some f, r)"
    using read_frac_text [OF assms(2) r] assms(3) by (simp add: frac_text_def)
  moreover obtain c t where ct: "ip = c # t" "c \<noteq> CHR ''-''" using well_int_minus [OF assms(1)] by blast
  ultimately show ?thesis
    by (simp add: read_number_def ends_exp [OF assms(4)] number_value_def)
qed

definition exp_text :: "int \<Rightarrow> string" where
  "exp_text x = ''e'' @ (if x < 0 then ''-'' else ''+'') @ (if \<bar>x\<bar> < 10 then ''0'' else []) @ show_int \<bar>x\<bar>"

lemma read_exp_text:
  assumes "number_ends r"
  shows "read_exp (exp_text x @ r) = (Some x, r)"
proof -
  define ds where "ds = (if \<bar>x\<bar> < 10 then ''0'' else []) @ show_nat (nat \<bar>x\<bar>)"
  have digits: "list_all is_digit ds" by (simp add: ds_def show_nat_digits is_digit_def)
  have val: "int (read_digits ds) = \<bar>x\<bar>"
    unfolding ds_def read_digits_append by (simp add: read_show_nat) (simp add: read_digits_def digit_val_def)
  have shape: "exp_text x @ r = CHR ''e'' # (if x < 0 then CHR ''-'' else CHR ''+'') # ds @ r"
    by (simp add: exp_text_def show_int_def ds_def)
  have taken: "takeWhile is_digit (ds @ r) = ds" "dropWhile is_digit (ds @ r) = r"
    using takeWhile_digits [OF digits ends_digit [OF assms]] by simp_all
  have "ds \<noteq> []" by (simp add: ds_def)
  with taken val show ?thesis
    unfolding shape by (simp add: read_exp_def read_sign_def Let_def del: takeWhile_append dropWhile_append)
qed

lemma read_exponent:
  assumes "well_int ip" "list_all is_digit f" "number_ends r"
  shows "read_number (ip @ frac_text f @ exp_text x @ r) =
    Some (JFloat (round_double (of_nat (read_digits (ip @ f)) * pow10 (x - int (length f)))), r)"
proof -
  have r: "exp_text x @ r = [] \<or> \<not> is_digit (hd (exp_text x @ r)) \<and> hd (exp_text x @ r) \<noteq> CHR ''.''"
    by (simp add: exp_text_def point_not_digit)
  have "int_part (ip @ frac_text f @ exp_text x @ r) = ip"
    by (rule int_part_well [OF assms(1)]) (auto simp: frac_text_def exp_text_def point_not_digit)
  moreover obtain c t where ct: "ip = c # t" "c \<noteq> CHR ''-''" using well_int_minus [OF assms(1)] by blast
  ultimately show ?thesis
    by (simp add: read_number_def read_frac_text [OF assms(2) r] read_exp_text [OF assms(3)] number_value_def)
qed

lemma read_digits_zeros: "read_digits (zeros n) = 0"
proof -
  have "read_digits (replicate k (CHR ''0'')) = 0" for k
    by (induction k) (simp_all add: replicate_append_same [symmetric] read_digits_def digit_val_def
        del: replicate.simps(2), simp_all add: read_digits_def digit_val_def)
  then show ?thesis by (simp add: zeros_def)
qed

lemma zeros_digits: "list_all is_digit (zeros n)"
  by (simp add: zeros_def list_all_iff is_digit_def)

lemma pow10_nat: "0 \<le> e \<Longrightarrow> pow10 e = 10 ^ nat e"
  by (simp add: pow10_def)

lemma point_notation_reads:
  assumes ds: "well_int ds" "hd ds \<noteq> CHR ''0''" and "number_ends r"
  shows "read_number (point_notation ds p @ r) =
    Some (JFloat (round_double (of_nat (read_digits ds) * pow10 (p - int (length ds)))), r)"
proof -
  have dig: "list_all is_digit ds" using ds by (simp add: well_int_def)
  consider "p \<le> 0" | "0 < p" "int (length ds) \<le> p" | "0 < p" "p < int (length ds)" by linarith
  then show ?thesis
  proof cases
    case 1
    let ?f = "zeros (- p) @ ds"
    have "read_number (''0'' @ CHR ''.'' # ?f @ r) =
      Some (JFloat (round_double (of_nat (read_digits (''0'' @ ?f)) * pow10 (- int (length ?f)))), r)"
      using ds assms(3) by (intro read_point) (auto simp: well_int_def is_digit_def dig zeros_digits)
    moreover have "read_digits (''0'' @ ?f) = read_digits ds"
      unfolding read_digits_append by (simp add: read_digits_zeros) (simp add: read_digits_def digit_val_def)
    moreover have "- int (length ?f) = p - int (length ds)" using 1 by (simp add: zeros_def)
    ultimately show ?thesis using 1 by (simp add: point_notation_def)
  next
    case 2
    let ?z = "zeros (p - int (length ds))"
    have "well_int (ds @ ?z)" using ds by (simp add: well_int_def zeros_digits)
    then have "read_number ((ds @ ?z) @ CHR ''.'' # ''0'' @ r) =
      Some (JFloat (round_double (of_nat (read_digits ((ds @ ?z) @ ''0'')) * pow10 (- int (length ''0'')))), r)"
      by (rule read_point) (simp_all add: is_digit_def assms(3))
    moreover have "read_digits ((ds @ ?z) @ ''0'') = 10 * (read_digits ds * 10 ^ nat (p - int (length ds)))"
      by (simp add: read_digits_append read_digits_zeros)
        (simp add: read_digits_def digit_val_def zeros_def)
    moreover have "pow10 (- 1) = 1 / 10" by (simp add: pow10_def)
    ultimately show ?thesis using 2 by (simp add: point_notation_def pow10_nat)
  next
    case 3
    let ?i = "take (nat p) ds" and ?f = "drop (nat p) ds"
    have i: "well_int ?i" using ds 3 by (auto simp: well_int_def list_all_iff dest: in_set_takeD)
    have f: "list_all is_digit ?f" "?f \<noteq> []" using dig 3 by (auto simp: list_all_iff dest: in_set_dropD)
    have "- int (length ?f) = p - int (length ds)" using 3 by simp
    then show ?thesis
      using read_point [OF i f assms(3)] 3 by (simp add: point_notation_def)
  qed
qed

lemma exponent_notation_reads:
  assumes ds: "well_int ds" "hd ds \<noteq> CHR ''0''" and "number_ends r"
  shows "read_number (exponent_notation ds (p - 1) @ r) =
    Some (JFloat (round_double (of_nat (read_digits ds) * pow10 (p - int (length ds)))), r)"
proof -
  obtain c t where ct: "ds = c # t" using ds by (cases ds) (auto simp: well_int_def)
  have "well_int [c]" "list_all is_digit t" using ds ct by (auto simp: well_int_def)
  moreover have "exponent_notation ds (p - 1) @ r = [c] @ frac_text t @ exp_text (p - 1) @ r"
    by (simp add: exponent_notation_def ct frac_text_def exp_text_def)
  moreover have "p - 1 - int (length t) = p - int (length ds)" using ct by simp
  ultimately show ?thesis
    using read_exponent [of "[c]" t r "p - 1"] assms(3) by (simp add: ct algebra_simps)
qed

lemma read_repr_pos:
  assumes "is_double q" "0 < q" "number_ends r"
  shows "read_number (repr_pos q @ r) = Some (JFloat (Fin q), r)"
proof -
  obtain m k where mk: "shortest q = (m, k)" by force
  have reads: "round_double (of_int m * pow10 k) = Fin q" by (rule shortest_reads_back [OF assms(1,2) mk])
  have "0 < m"
  proof (rule ccontr)
    assume "\<not> 0 < m"
    then have "of_int m * pow10 k \<le> 0" by (simp add: mult_nonpos_nonneg less_imp_le)
    with round_double_nonpos [OF reads] assms(2) show False by simp
  qed
  then have show_m: "show_int m = show_nat (nat m)" "well_int (show_nat (nat m))"
    "hd (show_nat (nat m)) \<noteq> CHR ''0''" "read_digits (show_nat (nat m)) = nat m"
    by (simp_all add: show_int_def well_show_nat digits_no_lead read_show_nat)
  with \<open>0 < m\<close> reads point_notation_reads [OF show_m(2,3) assms(3), of "int (length (show_nat (nat m))) + k"]
    exponent_notation_reads [OF show_m(2,3) assms(3), of "int (length (show_nat (nat m))) + k"]
  show ?thesis by (simp add: repr_pos_def mk Let_def)
qed

lemma read_number_minus:
  "read_number (c # s) = Some (JFloat v, r) \<Longrightarrow> c \<noteq> CHR ''-'' \<Longrightarrow>
     read_number (CHR ''-'' # c # s) = Some (JFloat (fl_neg v), r)"
  by (auto simp: read_number_def number_value_def Let_def split: prod.splits option.splits if_splits)

lemma repr_pos_start:
  assumes "is_double q" "0 < q"
  shows "\<exists>c t. repr_pos q = c # t \<and> is_digit c"
proof -
  have read: "read_number (repr_pos q) = Some (JFloat (Fin q), [])"
    using read_repr_pos [OF assms, of "[]"] by (simp add: number_ends_def)
  have shape: "hd (point_notation (show_nat n) p) \<in> set (CHR ''0'' # show_nat n) \<and>
     point_notation (show_nat n) p \<noteq> [] \<and>
     hd (exponent_notation (show_nat n) x) \<in> set (CHR ''0'' # show_nat n) \<and>
     exponent_notation (show_nat n) x \<noteq> []" for n p x
    using show_nat_hd [of n] by (auto simp: point_notation_def exponent_notation_def hd_append take_Cons')
  obtain m k where mk: "shortest q = (m, k)" by force
  have "0 < m"
  proof (rule ccontr)
    assume "\<not> 0 < m"
    then have "of_int m * pow10 k \<le> 0" by (simp add: mult_nonpos_nonneg less_imp_le)
    with round_double_nonpos [OF shortest_reads_back [OF assms mk]] assms(2) show False by simp
  qed
  then have m: "show_int m = show_nat (nat m)" by (simp add: show_int_def)
  let ?x = "repr_pos q"
  have "hd ?x \<in> set (CHR ''0'' # show_nat (nat m)) \<and> ?x \<noteq> []"
    using shape [of "nat m"] by (simp add: repr_pos_def mk Let_def m)
  moreover have "list_all is_digit (CHR ''0'' # show_nat (nat m))"
    by (simp add: show_nat_digits is_digit_def)
  ultimately show ?thesis by (cases ?x) (auto simp: list_all_iff)
qed

lemma read_float_repr:
  assumes "is_double q" "number_ends r"
  shows "read_number (float_repr (Fin q) @ r) = Some (JFloat (Fin q), r)"
proof -
  consider "q = 0" | "0 < q" | "q < 0" by linarith
  then show ?thesis
  proof cases
    case 1
    then show ?thesis
      using read_point [of "''0''" "''0''" r] assms(2)
      by (simp add: well_int_def is_digit_def read_digits_def digit_val_def)
  next
    case 2
    with read_repr_pos [OF assms(1) _ assms(2)] show ?thesis by simp
  next
    case 3
    have neg: "is_double (- q)" "0 < - q" using 3 assms(1) by (simp_all add: is_double_uminus)
    obtain c t where ct: "repr_pos (- q) = c # t" "is_digit c" using repr_pos_start [OF neg] by blast
    then have "c \<noteq> CHR ''-''" by (simp add: digit_not_minus)
    with 3 ct read_repr_pos [OF neg assms(2)] show ?thesis
      by (simp add: read_number_minus)
  qed
qed

section \<open>Values read back\<close>

fun json_ok :: "pyjson \<Rightarrow> bool" where
  "json_ok (JFloat x) = (fl_finite x \<and> fl_double x)"
| "json_ok (JList js) = list_all json_ok js"
| "json_ok (JObj kvs) = (distinct (map fst kvs) \<and> list_all (\<lambda>(_, v). json_ok v) kvs)"
| "json_ok _ = True"

definition opens :: "char \<Rightarrow> bool" where
  "opens c \<longleftrightarrow> \<not> is_ws c \<and> c \<noteq> CHR '']'' \<and> c \<noteq> CHR ''}''"

lemma opens_digit: "is_digit c \<Longrightarrow> opens c"
  by (auto simp: opens_def is_digit_def is_ws_def)

lemma opens_quote [simp]: "opens (CHR 0x22)"
  by (simp add: opens_def is_ws_def)

lemma bracket_start: "\<exists>t. bracket ly d l xs r = l # t"
  by (simp add: bracket_def)

lemma render_start:
  assumes "json_ok j"
  shows "\<exists>c t. render ly d j = c # t \<and> opens c"
proof (cases j)
  case (JInt n)
  show ?thesis
  proof (cases "n < 0")
    case True
    then show ?thesis by (simp add: JInt show_int_def opens_def is_ws_def)
  next
    case False
    with show_nat_hd [of "nat n"] opens_digit show ?thesis by (auto simp: JInt show_int_def)
  qed
next
  case (JFloat x)
  then obtain q where q: "x = Fin q" "is_double q" using assms by (cases x) (simp_all add: fl_double_def)
  consider "q = 0" | "0 < q" | "q < 0" by linarith
  then show ?thesis
    using repr_pos_start [OF q(2)] opens_digit
    by cases (auto simp: JFloat q opens_def is_ws_def)
qed (auto simp: opens_def is_ws_def quoted_def bracket_def)

lemma skip_opens: "opens c \<Longrightarrow> skip_ws (c # t) = c # t"
  by (simp add: skip_ws_def opens_def)

lemma skip_marks [simp]:
  "skip_ws (CHR '','' # t) = CHR '','' # t" "skip_ws (CHR '']'' # t) = CHR '']'' # t"
  "skip_ws (CHR ''}'' # t) = CHR ''}'' # t" "skip_ws (CHR '':'' # t) = CHR '':'' # t"
  "skip_ws (CHR 0x22 # t) = CHR 0x22 # t"
  by (simp_all add: skip_ws_def is_ws_def)

lemma ends_marks [simp]:
  "number_ends (CHR '','' # t)" "number_ends (CHR '']'' # t)" "number_ends (CHR ''}'' # t)" "number_ends []"
  by (simp_all add: number_ends_def is_digit_def)

lemma skip_render: "json_ok j \<Longrightarrow> skip_ws (render ly d j @ r) = render ly d j @ r"
  using render_start [of j ly d] skip_opens by fastforce

lemma render_nonempty: "json_ok j \<Longrightarrow> render ly d j \<noteq> []"
  using render_start [of j ly d] by auto

definition member_in :: "json_layout \<Rightarrow> nat \<Rightarrow> string \<times> pyjson \<Rightarrow> string" where
  "member_in ly d = (\<lambda>(k, v). quoted (ly_escape ly) k @ '':'' @ ly_colon ly @ render ly d v)"

lemma render_obj: "render ly d (JObj kvs) = bracket ly d (CHR ''{'') (map (member_in ly (d + 1)) kvs) (CHR ''}'')"
  by (simp add: member_in_def)

lemma commas_start: "\<exists>t. commas pad ((c # s) # xs) = c # t"
  by (cases xs) simp_all

lemma members_start: "kvs \<noteq> [] \<Longrightarrow> \<exists>t. commas pad (map (member_in ly d) kvs) = CHR 0x22 # t"
  by (cases kvs) (auto simp: member_in_def quoted_def commas_start)

text \<open>What a parse of one value must do, for the induction over the values inside a value.\<close>

definition reads_back :: "json_layout \<Rightarrow> json_hook \<Rightarrow> pyjson \<Rightarrow> bool" where
  "reads_back ly hook j \<longleftrightarrow> (\<forall>d n r. length (render ly d j) \<le> n \<longrightarrow> number_ends r \<longrightarrow>
     parse_value hook n (render ly d j @ r) = Some (j, r))"

lemma reads_backD:
  "reads_back ly hook j \<Longrightarrow> length (render ly d j) \<le> n \<Longrightarrow> number_ends r \<Longrightarrow>
     parse_value hook n (render ly d j @ r) = Some (j, r)"
  by (simp add: reads_back_def)

text \<open>
  A style of writing and reading: the spaces of the layout are white space, its escapes read
  back, and objects without repeated keys are kept.
\<close>

locale json_style =
  fixes ly :: json_layout and hook :: json_hook
  assumes blank: "list_all is_ws (ly_open ly d)" "list_all is_ws (ly_item ly d)" "list_all is_ws (ly_close ly d)"
      "list_all is_ws (ly_colon ly)"
    and escapes: "read_str (ly_escape ly c @ s) = map_option (\<lambda>(u, r). (c # u, r)) (read_str s)"
    and hook_keeps: "distinct (map fst kvs) \<Longrightarrow> hook kvs = Some (JObj kvs)"
begin

lemma skip_pad [simp]:
  "skip_ws (ly_open ly d @ s) = skip_ws s" "skip_ws (ly_item ly d @ s) = skip_ws s"
  "skip_ws (ly_close ly d @ s) = skip_ws s" "skip_ws (ly_colon ly @ s) = skip_ws s"
  using blank by (simp_all add: skip_ws_def list_all_iff dropWhile_append2)

lemma close_ends [simp]: "number_ends (c # s) \<Longrightarrow> number_ends (ly_close ly d @ c # s)"
  using blank(3) [of d] by (cases "ly_close ly d") (auto simp: number_ends_def is_ws_def is_digit_def)

lemma read_quoted: "read_str (concat (map (ly_escape ly) s) @ CHR 0x22 # r) = Some (s, r)"
  by (induction s) (simp_all add: escapes del: read_str.simps(2), simp)

lemma quoted_append: "quoted esc k @ r = CHR 0x22 # concat (map esc k) @ CHR 0x22 # r"
  by (simp add: quoted_def)

lemma elements_read_back:
  assumes "js \<noteq> []" "\<And>j. j \<in> set js \<Longrightarrow> json_ok j \<and> reads_back ly hook j"
    and "length (commas (ly_item ly d) (map (render ly d) js)) < n"
  shows "parse_elements hook n (commas (ly_item ly d) (map (render ly d) js) @ ly_close ly e @ CHR '']'' # r) = Some (js, r)"
  using assms
proof (induction js arbitrary: n)
  case (Cons j js)
  obtain m where n: "n = Suc m" using Cons.prems(3) by (cases n) auto
  have j: "json_ok j" "reads_back ly hook j" using Cons.prems(2) by auto
  show ?case
  proof (cases js)
    case Nil
    with j Cons.prems(3) show ?thesis by (simp add: n parse_elements.simps reads_backD)
  next
    case (Cons k ks)
    let ?rest = "commas (ly_item ly d) (map (render ly d) js)"
    have "parse_elements hook m (?rest @ ly_close ly e @ CHR '']'' # r) = Some (js, r)"
      using Cons.prems by (intro Cons.IH) (auto simp: n Cons)
    moreover have "skip_ws (?rest @ u) = ?rest @ u" for u
      using render_start [of k ly d] Cons.prems(2) skip_opens by (cases ks) (fastforce simp: Cons)+
    ultimately show ?thesis
      using j Cons.prems(3) by (simp add: n Cons parse_elements.simps reads_backD)
  qed
qed simp

lemma members_read_back:
  assumes "kvs \<noteq> []" "\<And>k v. (k, v) \<in> set kvs \<Longrightarrow> json_ok v \<and> reads_back ly hook v"
    and "length (commas (ly_item ly d) (map (member_in ly d) kvs)) < n"
  shows "parse_members hook n (commas (ly_item ly d) (map (member_in ly d) kvs) @ ly_close ly e @ CHR ''}'' # r) = Some (kvs, r)"
  using assms
proof (induction kvs arbitrary: n)
  case (Cons kv kvs)
  obtain k v where kv: "kv = (k, v)" by (cases kv)
  obtain m where n: "n = Suc m" using Cons.prems(3) by (cases n) auto
  have v: "json_ok v" "reads_back ly hook v" using Cons.prems(2) kv by auto
  have skip: "skip_ws (render ly d v @ u) = render ly d v @ u" for u using skip_render [OF v(1)] .
  show ?case
  proof (cases kvs)
    case Nil
    have "length (render ly d v) \<le> m" using Cons.prems(3) by (simp add: n kv Nil member_in_def)
    with v show ?thesis
      by (simp add: n kv Nil member_in_def quoted_append parse_members.simps read_quoted skip reads_backD)
  next
    case (Cons kv2 kvs2)
    let ?rest = "commas (ly_item ly d) (map (member_in ly d) kvs)"
    have rest: "parse_members hook m (?rest @ ly_close ly e @ CHR ''}'' # r) = Some (kvs, r)"
      using Cons.prems by (intro Cons.IH) (auto simp: n Cons)
    have "\<exists>t. ?rest = CHR 0x22 # t" by (rule members_start) (simp add: Cons)
    then have "skip_ws (?rest @ u) = ?rest @ u" for u by auto
    moreover have "length (render ly d v) \<le> m" using Cons.prems(3) by (simp add: n kv Cons member_in_def)
    moreover have "commas (ly_item ly d) (map (member_in ly d) (kv # kvs)) @ u =
      quoted (ly_escape ly) k @ CHR '':'' # ly_colon ly @ render ly d v @ CHR '','' # ly_item ly d @ ?rest @ u" for u
      by (simp add: Cons kv member_in_def)
    ultimately show ?thesis
      using v rest by (simp add: n quoted_append parse_members.simps read_quoted skip reads_backD kv)
  qed
qed simp

lemma number_reads_back:
  assumes "render ly d j = c # t" "is_digit c \<or> c = CHR ''-''" "read_number (c # t @ r) = Some (j, r)" "0 < n"
  shows "parse_value hook n (render ly d j @ r) = Some (j, r)"
proof -
  obtain m where "n = Suc m" using assms(4) by (cases n) auto
  moreover have "c \<noteq> CHR 0x22" "c \<noteq> CHR ''{''" "c \<noteq> CHR ''[''" "c \<noteq> CHR ''n''" "c \<noteq> CHR ''t''" "c \<noteq> CHR ''f''"
    using assms(2) by (auto simp: is_digit_def)
  ultimately show ?thesis using assms(1,3) by (simp add: parse_value.simps)
qed

lemma int_reads_back: "reads_back ly hook (JInt i)"
  unfolding reads_back_def
proof (intro allI impI)
  fix d n r assume n: "length (render ly d (JInt i)) \<le> n" and r: "number_ends r"
  obtain c t where ct: "show_int i = c # t" "is_digit c \<or> c = CHR ''-''"
    using show_nat_hd [of "nat i"] by (cases "i < 0") (auto simp: show_int_def)
  show "parse_value hook n (render ly d (JInt i) @ r) = Some (JInt i, r)"
    using ct n read_show_int [OF r, of i] by (intro number_reads_back) auto
qed

lemma float_reads_back:
  assumes "json_ok (JFloat x)"
  shows "reads_back ly hook (JFloat x)"
  unfolding reads_back_def
proof (intro allI impI)
  fix d n r assume n: "length (render ly d (JFloat x)) \<le> n" and r: "number_ends r"
  obtain q where q: "x = Fin q" "is_double q" using assms by (cases x) (simp_all add: fl_double_def)
  obtain c t where ct: "float_repr x = c # t" "is_digit c \<or> c = CHR ''-''"
  proof -
    consider "q = 0" | "0 < q" | "q < 0" by linarith
    then show ?thesis
      using repr_pos_start [OF q(2)] that
      by cases (auto simp: q is_digit_def)
  qed
  show "parse_value hook n (render ly d (JFloat x) @ r) = Some (JFloat x, r)"
    using ct n read_float_repr [OF q(2) r] by (intro number_reads_back) (auto simp: q)
qed

lemma list_reads_back:
  assumes js: "\<And>j. j \<in> set js \<Longrightarrow> json_ok j \<and> reads_back ly hook j"
  shows "reads_back ly hook (JList js)"
  unfolding reads_back_def
proof (intro allI impI)
  fix d n r assume n: "length (render ly d (JList js)) \<le> n"
  show "parse_value hook n (render ly d (JList js) @ r) = Some (JList js, r)"
  proof (cases js)
    case Nil
    then obtain m where "n = Suc m" using n by (cases n) (auto simp: bracket_def)
    then show ?thesis by (simp add: Nil bracket_def parse_value.simps)
  next
    case (Cons k ks)
    let ?body = "commas (ly_item ly (d + 1)) (map (render ly (d + 1)) js)"
    have shape: "render ly d (JList js) = CHR ''['' # ly_open ly (d + 1) @ ?body @ ly_close ly d @ [CHR '']'']"
      by (simp add: Cons bracket_def)
    obtain m where m: "n = Suc m" "length ?body < m" using n [unfolded shape] by (cases n) simp_all
    obtain c t where ct: "?body = c # t" "opens c"
      using render_start [of k ly "d + 1"] js [of k] by (cases ks) (auto simp: Cons)
    then have "skip_ws (c # t @ u) = c # t @ u" "c \<noteq> CHR '']''" for u
      by (simp_all add: skip_opens) (simp add: opens_def)
    with elements_read_back [OF _ js m(2), where e = d and r = r] ct show ?thesis
      unfolding shape by (simp add: m parse_value.simps Cons)
  qed
qed

lemma object_reads_back:
  assumes kvs: "\<And>k v. (k, v) \<in> set kvs \<Longrightarrow> json_ok v \<and> reads_back ly hook v" and keys: "distinct (map fst kvs)"
  shows "reads_back ly hook (JObj kvs)"
  unfolding reads_back_def
proof (intro allI impI)
  fix d n r assume n: "length (render ly d (JObj kvs)) \<le> n"
  have hook: "hook kvs = Some (JObj kvs)" using keys by (rule hook_keeps)
  show "parse_value hook n (render ly d (JObj kvs) @ r) = Some (JObj kvs, r)"
  proof (cases kvs)
    case Nil
    then obtain m where "n = Suc m" using n by (cases n) (auto simp: bracket_def)
    then show ?thesis using hook by (simp add: Nil bracket_def parse_value.simps)
  next
    case (Cons kv rest)
    let ?body = "commas (ly_item ly (d + 1)) (map (member_in ly (d + 1)) kvs)"
    have shape: "render ly d (JObj kvs) = CHR ''{'' # ly_open ly (d + 1) @ ?body @ ly_close ly d @ [CHR ''}'']"
      unfolding render_obj by (simp add: bracket_def Cons)
    obtain m where m: "n = Suc m" "length ?body < m" using n [unfolded shape] by (cases n) simp_all
    obtain t where "?body = CHR 0x22 # t"
      using members_start [of kvs] Cons by blast
    with members_read_back [OF _ kvs m(2), where e = d and r = r] hook Cons show ?thesis
      unfolding shape by (simp add: m parse_value.simps)
  qed
qed

lemma parse_render: "json_ok j \<Longrightarrow> reads_back ly hook j"
proof (induction j)
  case (JInt i)
  show ?case by (rule int_reads_back)
next
  case (JFloat x)
  then show ?case by (rule float_reads_back)
next
  case (JList js)
  then show ?case by (intro list_reads_back) (auto simp: list_all_iff)
next
  case (JObj kvs)
  then show ?case by (intro object_reads_back) (auto simp: list_all_iff)
next
  case (JStr x)
  show ?case
    unfolding reads_back_def
  proof (intro allI impI)
    fix d n r assume "length (render ly d (JStr x)) \<le> n"
    then obtain m where "n = Suc m" by (cases n) (auto simp: quoted_def)
    then show "parse_value hook n (render ly d (JStr x) @ r) = Some (JStr x, r)"
      by (simp add: quoted_append read_quoted parse_value.simps)
  qed
qed (auto simp: reads_back_def parse_value.simps read_word_def Suc_le_eq
      elim!: less_natE split: if_splits)

lemma loads_render:
  assumes "json_ok j" "list_all is_ws r"
  shows "loads hook (render ly d j @ r) = Some j"
proof -
  have "number_ends r" using assms(2) by (cases r) (auto simp: number_ends_def is_ws_def is_digit_def)
  moreover have "skip_ws r = []" using assms(2) by (simp add: skip_ws_def list_all_iff)
  ultimately show ?thesis
    using reads_backD [OF parse_render [OF assms(1)]] skip_render [OF assms(1)]
    by (simp add: loads_def)
qed

end

section \<open>Sorted keys on one line\<close>

lemma sort_key_map:
  "sort_key f (map g xs) = map g (sort_key (\<lambda>x. f (g x)) xs)"
proof (induction xs)
  case (Cons x xs)
  have "insort_key f (g x) (map g ys) = map g (insort_key (\<lambda>x. f (g x)) x ys)" for ys
    by (induction ys) simp_all
  with Cons show ?case by simp
qed simp

lemma canon_obj: "canon (JObj kvs) = JObj (map (\<lambda>(k, v). (k, canon v)) (sort_key fst kvs))"
  by (simp add: sort_key_map comp_def split_beta)

lemma json_ok_sorted:
  "json_ok (JObj kvs) \<Longrightarrow> (k, v) \<in> set (sort_key fst kvs) \<Longrightarrow> json_ok v"
  by (auto simp: list_all_iff)

lemma distinct_sorted_keys: "distinct (map fst kvs) \<Longrightarrow> distinct (map fst (sort_key fst kvs))"
  by (metis distinct_map distinct_sort set_sort)

lemma json_ok_canon: "json_ok j \<Longrightarrow> json_ok (canon j)"
proof (induction j)
  case (JObj kvs)
  then show ?case
    using distinct_sorted_keys [of kvs] unfolding canon_obj
    by (auto simp: list_all_iff comp_def split_beta)
qed (auto simp: list_all_iff)

lemma bracket_line: "bracket (line_layout pad) d l xs r = l # commas pad xs @ [r]"
  by (simp add: bracket_def line_layout_def)

lemma render_line: "render (line_layout pad) d j = render (line_layout pad) 0 j"
proof (induction j arbitrary: d)
  case (JList js)
  have "render (line_layout pad) (d + 1) x = render (line_layout pad) 1 x" if "x \<in> set js" for x
    using JList [OF that, of "d + 1"] JList [OF that, of 1] by simp
  then show ?case by (simp add: bracket_line cong: map_cong)
next
  case (JObj kvs)
  have "member_in (line_layout pad) (d + 1) kv = member_in (line_layout pad) 1 kv" if "kv \<in> set kvs" for kv
    using JObj [of kv "snd kv" "d + 1"] JObj [of kv "snd kv" 1] that by (cases kv) (simp add: member_in_def)
  then show ?case unfolding render_obj by (simp add: bracket_line cong: map_cong)
qed simp_all

definition member_text :: "string \<Rightarrow> string \<times> pyjson \<Rightarrow> string" where
  "member_text pad = (\<lambda>(k, v). dump_str k @ '':'' @ pad @ dump_with pad v)"

lemma member_line: "member_in (line_layout pad) d (k, canon v) = member_text pad (k, v)"
  using render_line [of pad d "canon v"] by (simp add: member_in_def member_text_def dump_with_def) (simp add: line_layout_def)

lemma dump_obj: "dump_with pad (JObj kvs) = ''{'' @ commas pad (map (member_text pad) (sort_key fst kvs)) @ ''}''"
  unfolding dump_with_def canon_obj render_obj bracket_line
  by (simp add: comp_def split_beta member_line)

lemma dump_list: "dump_with pad (JList js) = ''['' @ commas pad (map (dump_with pad) js) @ '']''"
proof -
  have "dump_with pad = render (line_layout pad) (0 + 1) \<circ> canon"
    using render_line [of pad 1] by (intro ext) (simp add: dump_with_def)
  then show ?thesis unfolding dump_with_def by (simp add: bracket_line)
qed

lemma dump_simps [simp]:
  "dump_with pad JNull = ''null''"
  "dump_with pad (JBool b) = (if b then ''true'' else ''false'')"
  "dump_with pad (JInt n) = show_int n"
  "dump_with pad (JFloat x) = float_repr x"
  "dump_with pad (JStr s) = dump_str s"
  "dump_with pad (JList js) = ''['' @ commas pad (map (dump_with pad) js) @ '']''"
  "dump_with pad (JObj kvs) =
     ''{'' @ commas pad (map (\<lambda>(k, t). dump_str k @ '':'' @ pad @ t)
                        (sort_key fst (map (\<lambda>(k, v). (k, dump_with pad v)) kvs))) @ ''}''"
  by (simp_all only: dump_list dump_obj sort_key_map member_text_def case_prod_unfold comp_def map_map fst_conv snd_conv)
    (simp_all add: dump_with_def line_layout_def)

locale sorted_line = json_style "line_layout pad" hook for pad hook
begin

lemma loads_dump_ws: "json_ok j \<Longrightarrow> list_all is_ws r \<Longrightarrow> loads hook (dump_with pad j @ r) = Some (canon j)"
  unfolding dump_with_def by (rule loads_render [OF json_ok_canon])

lemma loads_dump: "json_ok j \<Longrightarrow> loads hook (dump_with pad j) = Some (canon j)"
  using loads_dump_ws [of j "[]"] by simp

end

lemma dict_set_distinct:
  "distinct (map fst kvs) \<Longrightarrow> set (map fst kvs) \<inter> set (dict_keys d) = {} \<Longrightarrow>
     fold (\<lambda>(k, v) d. dict_set d k v) kvs d = d @ kvs"
  by (induction kvs arbitrary: d) (auto simp: dict_set_fresh dict_get_None_iff)

lemma read_ascii: "read_str (ascii_char c @ s) = map_option (\<lambda>(u, r). (c # u, r)) (read_str s)"
proof (cases "(of_char c :: nat) < 127")
  case True
  then show ?thesis by (simp add: ascii_char_def Let_def read_escape)
next
  case False
  have "(of_char c :: nat) < 256" by (rule of_char_less)
  then have "hex4 (CHR ''0'') (CHR ''0'') (low_hex (of_char c div 16)) (low_hex (of_char c mod 16)) = Some c"
    by (simp add: hex4_low)
  with False show ?thesis by (simp add: ascii_char_def Let_def read_numbered del: read_str.simps)
qed

lemma dict_hook_keeps: "distinct (map fst kvs) \<Longrightarrow> dict_hook kvs = Some (JObj kvs)"
  by (simp add: dict_hook_def dict_set_distinct)

interpretation compact: sorted_line "[]" strict_hook
  by unfold_locales (simp_all add: line_layout_def read_escape strict_hook_def)

interpretation spaced: sorted_line "'' ''" dict_hook
  by unfold_locales (simp_all add: line_layout_def read_escape dict_hook_keeps is_ws_def)

text \<open>The layouts of the files that people read.\<close>

interpretation indented: json_style "indent_layout escape_char" dict_hook
  by unfold_locales (simp_all add: indent_layout_def Let_def read_escape dict_hook_keeps is_ws_def list_all_iff)

interpretation indented_ascii: json_style "indent_layout ascii_char" dict_hook
  by unfold_locales (simp_all add: indent_layout_def Let_def read_ascii dict_hook_keeps is_ws_def list_all_iff)

section \<open>The fuel is enough\<close>

lemma length_skip: "length (skip_ws s) \<le> length s"
  by (simp add: skip_ws_def length_dropWhile_le)

lemma read_str_step:
  "read_str (c # s) = Some (u, r) \<Longrightarrow>
     r = s \<or> (\<exists>k u'. k \<in> {0, 1, 5} \<and> read_str (drop k s) = Some (u', r))"
  by (simp split: if_splits list.splits option.splits; force)

lemma read_str_shorter: "read_str s = Some (u, r) \<Longrightarrow> length r < length s"
proof (induction s arbitrary: u rule: length_induct)
  case (1 s)
  obtain c t where s: "s = c # t" using "1.prems" by (cases s) auto
  from "1.prems" read_str_step [of c t u r] consider "r = t"
    | k u' where "read_str (drop k t) = Some (u', r)" unfolding s by blast
  then show ?case
  proof cases
    case (2 k u')
    have "length (drop k t) < length s" by (simp add: s)
    with 1(1) 2 have "length r < length (drop k t)" by blast
    then show ?thesis by (simp add: s)
  qed (simp add: s)
qed

lemma drop_digits: "length (dropWhile is_digit s) \<le> length s"
  by (rule length_dropWhile_le)

lemma read_frac_shorter: "read_frac s = (f, r) \<Longrightarrow> length r \<le> length s"
  using drop_digits [of "tl s"] by (auto simp: read_frac_def split: list.splits if_splits)

lemma read_sign_shorter: "read_sign s = (b, r) \<Longrightarrow> length r \<le> length s"
  by (auto simp: read_sign_def split: list.splits if_splits)

lemma read_exp_shorter:
  assumes "read_exp s = (x, r)"
  shows "length r \<le> length s"
proof (cases s)
  case (Cons c t)
  obtain neg u where u: "read_sign t = (neg, u)" by force
  have "length (dropWhile is_digit u) \<le> length t"
    using drop_digits [of u] read_sign_shorter [OF u] by linarith
  with assms show ?thesis by (auto simp: read_exp_def Cons u Let_def split: if_splits)
qed (use assms in \<open>simp add: read_exp_def\<close>)

lemma read_number_shorter:
  assumes "read_number s = Some (j, r)"
  shows "length r < length s"
proof -
  obtain neg s1 where s1: "(case s of [] \<Rightarrow> (False, s) | c # t \<Rightarrow> if c = CHR ''-'' then (True, t) else (False, s)) = (neg, s1)"
    by force
  obtain f s2 where s2: "read_frac (drop (length (int_part s1)) s1) = (f, s2)" by force
  obtain x s3 where s3: "read_exp s2 = (x, s3)" by force
  have ip: "int_part s1 \<noteq> []" and r: "r = s3"
    using assms by (auto simp: read_number_def s1 s2 s3 Let_def split: if_splits)
  have "length s1 \<le> length s" using s1 by (auto split: list.splits if_splits)
  moreover have "s1 \<noteq> []" using ip by (auto simp: int_part_def)
  ultimately show ?thesis
    using read_frac_shorter [OF s2] read_exp_shorter [OF s3] ip r
    by (cases "int_part s1"; cases s1) auto
qed

lemma read_word_shorter: "read_word w j s = Some (k, r) \<Longrightarrow> w \<noteq> [] \<Longrightarrow> length r < length s"
  by (cases s; cases w) (auto simp: read_word_def split: if_splits)

lemma elements_step:
  assumes "parse_elements h (Suc n) s = Some (js, r)"
  obtains j r1 where "parse_value h n s = Some (j, r1)" "skip_ws r1 = CHR '']'' # r" "js = [j]"
  | j r1 t js' where "parse_value h n s = Some (j, r1)" "skip_ws r1 = CHR '','' # t"
      "parse_elements h n (skip_ws t) = Some (js', r)" "js = j # js'"
  using assms
  by (auto simp: parse_elements.simps split: option.splits list.splits if_splits)

lemma members_step:
  assumes "parse_members h (Suc n) s = Some (kvs, r)"
  obtains t k r0 u v r1 where "s = CHR 0x22 # t" "read_str t = Some (k, r0)" "skip_ws r0 = CHR '':'' # u"
      "parse_value h n (skip_ws u) = Some (v, r1)" "skip_ws r1 = CHR ''}'' # r" "kvs = [(k, v)]"
  | t k r0 u v r1 w kvs' where "s = CHR 0x22 # t" "read_str t = Some (k, r0)" "skip_ws r0 = CHR '':'' # u"
      "parse_value h n (skip_ws u) = Some (v, r1)" "skip_ws r1 = CHR '','' # w"
      "parse_members h n (skip_ws w) = Some (kvs', r)" "kvs = (k, v) # kvs'"
  using assms
  by (auto simp: parse_members.simps split: option.splits list.splits if_splits)

text \<open>A parse that succeeds with some fuel consumes text, and the text it consumes is fuel enough.\<close>

definition value_enough :: "json_hook \<Rightarrow> nat \<Rightarrow> bool" where
  "value_enough h n \<longleftrightarrow> (\<forall>s j r. parse_value h n s = Some (j, r) \<longrightarrow>
     length r < length s \<and> (\<forall>m. length s \<le> m + length r \<longrightarrow> parse_value h m s = Some (j, r)))"

lemma value_enoughD:
  assumes "value_enough h n" "parse_value h n s = Some (j, r)"
  shows "length r < length s" "length s \<le> m + length r \<Longrightarrow> parse_value h m s = Some (j, r)"
  using assms unfolding value_enough_def by blast+

lemma elements_enough:
  assumes "\<And>k. k < n \<Longrightarrow> value_enough h k" and "parse_elements h n s = Some (js, r)"
  shows "length r < length s \<and> (length s \<le> m + length r \<longrightarrow> parse_elements h m s = Some (js, r))"
  using assms
proof (induction n arbitrary: s js m)
  case (Suc n)
  have v: "value_enough h n" using Suc.prems(1) by simp
  from Suc.prems(2) show ?case
  proof (cases rule: elements_step)
    case (1 j r1)
    note val = value_enoughD [OF v 1(1)]
    have len: "length r < length r1" using length_skip [of r1] 1(2) by simp
    show ?thesis
    proof (intro conjI impI)
      assume m: "length s \<le> m + length r"
      then obtain m' where m': "m = Suc m'" using val(1) len by (cases m) auto
      have "parse_value h m' s = Some (j, r1)" using m m' len by (intro val(2)) simp
      with 1 show "parse_elements h m s = Some (js, r)" by (simp add: m' parse_elements.simps)
    qed (use val(1) len in simp)
  next
    case (2 j r1 t js')
    note val = value_enoughD [OF v 2(1)]
    have len: "length (skip_ws t) < length r1"
      using length_skip [of r1] length_skip [of t] 2(2) by simp
    have IH: "length r < length (skip_ws t) \<and>
        (length (skip_ws t) \<le> k + length r \<longrightarrow> parse_elements h k (skip_ws t) = Some (js', r))" for k
      using Suc.prems(1) 2(3) by (intro Suc.IH) auto
    show ?thesis
    proof (intro conjI impI)
      assume m: "length s \<le> m + length r"
      then obtain m' where m': "m = Suc m'" using val(1) len IH by (cases m) auto
      have "parse_value h m' s = Some (j, r1)" using m m' len IH [of 0] by (intro val(2)) simp
      moreover have "parse_elements h m' (skip_ws t) = Some (js', r)"
        using IH [of m'] m m' len val(1) by simp
      ultimately show "parse_elements h m s = Some (js, r)" using 2 by (simp add: m' parse_elements.simps)
    qed (use val(1) len IH [of 0] in simp)
  qed
qed (simp add: parse_elements.simps)

lemma members_enough:
  assumes "\<And>k. k < n \<Longrightarrow> value_enough h k" and "parse_members h n s = Some (kvs, r)"
  shows "length r < length s \<and> (length s \<le> m + length r \<longrightarrow> parse_members h m s = Some (kvs, r))"
  using assms
proof (induction n arbitrary: s kvs m)
  case (Suc n)
  have v: "value_enough h n" using Suc.prems(1) by simp
  from Suc.prems(2) show ?case
  proof (cases rule: members_step)
    case (1 t k r0 u x r1)
    note val = value_enoughD [OF v 1(4)]
    have len: "length r < length r1" "length (skip_ws u) < length s"
      using length_skip [of r1] length_skip [of r0] length_skip [of u] read_str_shorter [OF 1(2)] 1 by simp_all
    show ?thesis
    proof (intro conjI impI)
      assume m: "length s \<le> m + length r"
      then obtain m' where m': "m = Suc m'" using val(1) len by (cases m) auto
      have "parse_value h m' (skip_ws u) = Some (x, r1)" using m m' len by (intro val(2)) simp
      with 1 show "parse_members h m s = Some (kvs, r)" by (simp add: m' parse_members.simps)
    qed (use val(1) len in simp)
  next
    case (2 t k r0 u x r1 w kvs')
    note val = value_enoughD [OF v 2(4)]
    have len: "length (skip_ws w) < length r1" "length (skip_ws u) < length s"
      using length_skip [of r1] length_skip [of r0] length_skip [of u] length_skip [of w]
        read_str_shorter [OF 2(2)] 2 by simp_all
    have IH: "length r < length (skip_ws w) \<and>
        (length (skip_ws w) \<le> i + length r \<longrightarrow> parse_members h i (skip_ws w) = Some (kvs', r))" for i
      using Suc.prems(1) 2(6) by (intro Suc.IH) auto
    show ?thesis
    proof (intro conjI impI)
      assume m: "length s \<le> m + length r"
      then obtain m' where m': "m = Suc m'" using val(1) len IH by (cases m) auto
      have "parse_value h m' (skip_ws u) = Some (x, r1)" using m m' len IH [of 0] by (intro val(2)) simp
      moreover have "parse_members h m' (skip_ws w) = Some (kvs', r)"
        using IH [of m'] m m' len val(1) by simp
      ultimately show "parse_members h m s = Some (kvs, r)" using 2 by (simp add: m' parse_members.simps)
    qed (use val(1) len IH [of 0] in simp)
  qed
qed (simp add: parse_members.simps)

text \<open>A value with the fuel it needs: an object, a list, or a text that needs none.\<close>

lemma value_step:
  assumes "parse_value h (Suc n) s = Some (j, r)"
  obtains "length r < length s" "\<And>m. parse_value h (Suc m) s = Some (j, r)"
  | t d u kvs where "s = CHR ''{'' # t" "skip_ws t = d # u" "d \<noteq> CHR ''}''"
      "parse_members h n (d # u) = Some (kvs, r)" "h kvs = Some j"
  | t d u js where "s = CHR ''['' # t" "skip_ws t = d # u" "d \<noteq> CHR '']''"
      "parse_elements h n (d # u) = Some (js, r)" "j = JList js"
proof (cases s)
  case (Cons c t)
  note [simp] = parse_value.simps
  have short: "length (skip_ws t) \<le> length t" by (rule length_skip)
  consider "c = CHR ''{''" | "c = CHR ''[''" | "c \<noteq> CHR ''{''" "c \<noteq> CHR ''[''" by blast
  then show ?thesis
  proof cases
    case 1
    with assms Cons short that(1) that(2) show ?thesis
      by (auto split: list.splits if_splits option.splits simp: Option.bind_eq_Some_conv)
  next
    case 2
    with assms Cons short that(1) that(3) show ?thesis
      by (auto split: list.splits if_splits option.splits)
  next
    case 3
    with assms Cons show ?thesis
      by (intro that(1)) (auto split: if_splits dest: read_str_shorter read_word_shorter read_number_shorter)
  qed
qed (use assms in \<open>simp add: parse_value.simps\<close>)

lemma value_enough_all: "value_enough h n"
proof (induction n rule: less_induct)
  case (less n)
  show ?case
    unfolding value_enough_def
  proof (intro allI impI)
    fix s j r assume p: "parse_value h n s = Some (j, r)"
    then obtain k where k: "n = Suc k" by (cases n) (simp_all add: parse_value.simps)
    have IH: "\<And>i. i < k \<Longrightarrow> value_enough h i" using less.IH k by simp
    from p show "length r < length s \<and> (\<forall>m. length s \<le> m + length r \<longrightarrow> parse_value h m s = Some (j, r))"
      unfolding k
    proof (cases rule: value_step)
      case 1
      then show ?thesis using not0_implies_Suc by (metis add_0 not_le)
    next
      case (2 t d u kvs)
      have len: "length (d # u) \<le> length t" using length_skip [of t] 2(2) by simp
      have sub: "length r < length (d # u) \<and> (length (d # u) \<le> m + length r \<longrightarrow>
          parse_members h m (d # u) = Some (kvs, r))" for m
        using members_enough [OF IH 2(4)] by blast
      show ?thesis
      proof (intro conjI allI impI)
        fix m assume m: "length s \<le> m + length r"
        then obtain m' where "m = Suc m'" using sub [of 0] len 2(1) by (cases m) auto
        moreover from this have "parse_members h m' (d # u) = Some (kvs, r)"
          using sub [of m'] m len 2(1) by simp
        ultimately show "parse_value h m s = Some (j, r)" using 2 by (simp add: parse_value.simps)
      qed (use sub [of 0] len 2(1) in simp)
    next
      case (3 t d u js)
      have len: "length (d # u) \<le> length t" using length_skip [of t] 3(2) by simp
      have sub: "length r < length (d # u) \<and> (length (d # u) \<le> m + length r \<longrightarrow>
          parse_elements h m (d # u) = Some (js, r))" for m
        using elements_enough [OF IH 3(4)] by blast
      show ?thesis
      proof (intro conjI allI impI)
        fix m assume m: "length s \<le> m + length r"
        then obtain m' where "m = Suc m'" using sub [of 0] len 3(1) by (cases m) auto
        moreover from this have "parse_elements h m' (d # u) = Some (js, r)"
          using sub [of m'] m len 3(1) by simp
        ultimately show "parse_value h m s = Some (j, r)" using 3 by (simp add: parse_value.simps)
      qed (use sub [of 0] len 3(1) in simp)
    qed
  qed
qed

theorem parse_fuel:
  assumes "parse_value h n (skip_ws s) = Some (j, r)" and "skip_ws r = []"
  shows "loads h s = Some j"
proof -
  have "parse_value h (Suc (length s)) (skip_ws s) = Some (j, r)"
    using value_enoughD(2) [OF value_enough_all assms(1)] length_skip [of s] by simp
  with assms(2) show ?thesis by (simp add: loads_def)
qed

end
