(* ===== verification/EventStore.thy ===== *)
theory EventStore
  imports LedgerEvents PyJson PySha256
begin

text \<open>
  \<^verbatim>\<open>paper_trading/durable_event_store.py\<close>: the append-only store of ledger events, one file of
  JSON lines per epoch. A store is its directory of epoch files; a file is the text its bytes
  decode to, so a file that is not UTF-8 is outside the model. Messages are left out of the
  errors, which keep their class. What the operating system does to a write is an argument.
\<close>

datatype store_error =
    EventSerializationError
  | EventDeserializationError
  | UnsupportedSchemaVersionError
  | StoreEpochMismatchError
  | StoreCorruptionError
  | StoreSequenceRegressionError
  | StoreSequenceGapError
  | EventIdentityCollisionError
  | EpochNotFoundError
  | StoreOSError

section \<open>The wire format of an event\<close>

fun event_type_value :: "ledger_event_type \<Rightarrow> string" where
  "event_type_value EPOCH_CREATED = ''EPOCH_CREATED''"
| "event_type_value POSITION_OPENED = ''POSITION_OPENED''"
| "event_type_value POSITION_CLOSED = ''POSITION_CLOSED''"
| "event_type_value POSITION_UNRESOLVED = ''POSITION_UNRESOLVED''"
| "event_type_value RECOVERY_COMPLETED = ''RECOVERY_COMPLETED''"

definition event_type_of :: "string \<Rightarrow> ledger_event_type option" where
  "event_type_of v = map_of (map (\<lambda>t. (event_type_value t, t))
     [EPOCH_CREATED, POSITION_OPENED, POSITION_CLOSED, POSITION_UNRESOLVED, RECOVERY_COMPLETED]) v"

definition top_level_fields :: "string list" where
  "top_level_fields = [''event_id'', ''paper_epoch_id'', ''sequence'', ''event_type'', ''timestamp'',
     ''trade_id'', ''decision_id'', ''payload'', ''schema_version'']"

fun payload_fields :: "int \<Rightarrow> ledger_event_type \<Rightarrow> string list" where
  "payload_fields v EPOCH_CREATED = [''initial_virtual_capital'', ''code_sha'', ''config_snapshot_hash'']"
| "payload_fields v POSITION_OPENED =
     [''symbol'', ''side'', ''principal'', ''entry_price'', ''entry_fee''] @
     (if v = 2 then [''tp_price'', ''sl_price'', ''timeout_at'', ''recovery_eligible_until''] else [])"
| "payload_fields v POSITION_CLOSED = [''exit_price'', ''exit_fee'']"
| "payload_fields v POSITION_UNRESOLVED = [''reason'']"
| "payload_fields v RECOVERY_COMPLETED = [''restored_count'', ''unresolved_count'']"

definition require_number :: "store_error \<Rightarrow> pyval \<Rightarrow> store_error + unit" where
  "require_number err v =
     raise_if (\<not> (is_number v \<and> (case float_of_number v of Some x \<Rightarrow> fl_finite x | None \<Rightarrow> False))) err"

definition require_string :: "store_error \<Rightarrow> pyval \<Rightarrow> store_error + unit" where
  "require_string err v = raise_if (\<not> is_str v) err"

text \<open>Numbers compare by their exact values, whether int or float.\<close>

fun exact :: "pyval \<Rightarrow> pyfloat" where
  "exact (VInt n) = Fin (of_int n)"
| "exact (VFloat x) = x"
| "exact _ = NaN"

fun each :: "('a \<Rightarrow> 'e + unit) \<Rightarrow> 'a list \<Rightarrow> 'e + unit" where
  "each f [] = Inr ()"
| "each f (x # xs) = bindE (f x) (\<lambda>_. each f xs)"

text \<open>The checks of each event type, once the fields are the expected ones.\<close>

definition validate_replay_terms :: "store_error \<Rightarrow> (string \<Rightarrow> pyval) \<Rightarrow> pyfloat \<Rightarrow> store_error + unit" where
  "validate_replay_terms err get ts =
     bindE (each (\<lambda>k. require_number err (get k))
              [''tp_price'', ''sl_price'', ''timeout_at'', ''recovery_eligible_until'']) (\<lambda>_.
     bindE (raise_if (fl_le (exact (get ''tp_price'')) (Fin 0) \<or> fl_le (exact (get ''sl_price'')) (Fin 0)) err) (\<lambda>_.
     bindE (raise_if (fl_le (exact (get ''timeout_at'')) ts) err) (\<lambda>_.
       raise_if (fl_lt (exact (get ''recovery_eligible_until'')) (exact (get ''timeout_at''))) err)))"

fun validate_fields ::
  "store_error \<Rightarrow> ledger_event_type \<Rightarrow> (string \<Rightarrow> pyval) \<Rightarrow> int \<Rightarrow> pyfloat \<Rightarrow> store_error + unit" where
  "validate_fields err EPOCH_CREATED get v ts =
     bindE (require_number err (get ''initial_virtual_capital'')) (\<lambda>_.
     bindE (require_string err (get ''code_sha'')) (\<lambda>_.
       require_string err (get ''config_snapshot_hash'')))"
| "validate_fields err POSITION_OPENED get v ts =
     bindE (require_string err (get ''symbol'')) (\<lambda>_.
     bindE (require_string err (get ''side'')) (\<lambda>_.
     bindE (raise_if (get ''side'' \<notin> {VStr ''LONG'', VStr ''SHORT''}) err) (\<lambda>_.
     bindE (each (\<lambda>k. require_number err (get k)) [''principal'', ''entry_price'', ''entry_fee'']) (\<lambda>_.
       if v = 2 then validate_replay_terms err get ts else Inr ()))))"
| "validate_fields err POSITION_CLOSED get v ts =
     each (\<lambda>k. require_number err (get k)) [''exit_price'', ''exit_fee'']"
| "validate_fields err POSITION_UNRESOLVED get v ts = require_string err (get ''reason'')"
| "validate_fields err RECOVERY_COMPLETED get v ts =
     each (\<lambda>k. raise_if (strict_int (get k) = None) err) [''restored_count'', ''unresolved_count'']"

definition field_of :: "payload \<Rightarrow> string \<Rightarrow> pyval" where
  "field_of pl k = (case dict_get pl k of None \<Rightarrow> VNone | Some v \<Rightarrow> v)"

definition validate_payload ::
  "store_error \<Rightarrow> ledger_event_type \<Rightarrow> payload \<Rightarrow> int \<Rightarrow> pyfloat \<Rightarrow> store_error + unit" where
  "validate_payload err etype pl v ts =
     bindE (raise_if (set (dict_keys pl) \<noteq> set (payload_fields v etype)) err) (\<lambda>_.
       validate_fields err etype (field_of pl) v ts)"

fun json_of :: "pyval \<Rightarrow> pyjson" where
  "json_of VNone = JNull"
| "json_of (VBool b) = JBool b"
| "json_of (VInt n) = JInt n"
| "json_of (VFloat x) = JFloat x"
| "json_of (VStr s) = JStr s"

text \<open>\<^verbatim>\<open>_jsonable\<close> on the scalars a payload holds.\<close>

fun jsonable :: "pyval \<Rightarrow> store_error + pyjson" where
  "jsonable (VFloat x) = (if fl_finite x then Inr (JFloat x) else Inl EventSerializationError)"
| "jsonable v = Inr (json_of v)"

fun jsonable_payload :: "payload \<Rightarrow> store_error + (string \<times> pyjson) list" where
  "jsonable_payload [] = Inr []"
| "jsonable_payload ((k, v) # pl) =
     bindE (jsonable v) (\<lambda>j. bindE (jsonable_payload pl) (\<lambda>js. Inr ((k, j) # js)))"

fun json_of_opt :: "string option \<Rightarrow> pyjson" where
  "json_of_opt None = JNull"
| "json_of_opt (Some s) = JStr s"

definition event_fields :: "ledger_event \<Rightarrow> (string \<times> pyjson) list \<Rightarrow> (string \<times> pyjson) list" where
  "event_fields e js =
     [(''event_id'', JStr (le_event_id e)), (''paper_epoch_id'', JStr (le_paper_epoch_id e)),
      (''sequence'', JInt (le_sequence e)), (''event_type'', JStr (event_type_value (le_event_type e))),
      (''timestamp'', JFloat (le_timestamp e)), (''trade_id'', json_of_opt (le_trade_id e)),
      (''decision_id'', json_of_opt (le_decision_id e)), (''payload'', JObj js),
      (''schema_version'', JInt (le_schema_version e))]"

definition event_to_record :: "ledger_event \<Rightarrow> store_error + pyjson" where
  "event_to_record e =
     bindE (raise_if (le_event_id e = []) EventSerializationError) (\<lambda>_.
     bindE (raise_if (le_paper_epoch_id e = []) StoreEpochMismatchError) (\<lambda>_.
     bindE (raise_if (le_sequence e < 1) EventSerializationError) (\<lambda>_.
     bindE (require_number EventSerializationError (VFloat (le_timestamp e))) (\<lambda>_.
     bindE (if le_event_type e \<in> set trade_scoped_event_types
            then bindE (raise_if (\<not> truthy_str (le_trade_id e)) EventSerializationError) (\<lambda>_.
                   raise_if (le_trade_id e = Some (le_event_id e)) EventSerializationError)
            else Inr ()) (\<lambda>_.
     bindE (raise_if (le_event_type e = EPOCH_CREATED \<and> truthy_str (le_trade_id e)) EventSerializationError) (\<lambda>_.
     bindE (raise_if (le_schema_version e \<notin> {1, 2}) UnsupportedSchemaVersionError) (\<lambda>_.
     bindE (jsonable_payload (le_payload e)) (\<lambda>js.
     bindE (validate_payload EventSerializationError (le_event_type e) (le_payload e)
              (le_schema_version e) (le_timestamp e)) (\<lambda>_.
       Inr (JObj (event_fields e js)))))))))))"

definition canonical_line :: "ledger_event \<Rightarrow> store_error + string" where
  "canonical_line e =
     bindE (event_to_record e) (\<lambda>r.
     bindE (or_raise EventSerializationError (dumps r)) (\<lambda>text. Inr (text @ [CHR 0x0A])))"

section \<open>Reading an event back\<close>

fun json_str_field :: "pyjson \<Rightarrow> string option" where
  "json_str_field (JStr s) = (if s = [] then None else Some s)"
| "json_str_field _ = None"

fun json_int_field :: "pyjson \<Rightarrow> int option" where
  "json_int_field (JInt n) = Some n"
| "json_int_field _ = None"

fun json_opt_field :: "pyjson \<Rightarrow> string option option" where
  "json_opt_field JNull = Some None"
| "json_opt_field (JStr s) = Some (Some s)"
| "json_opt_field _ = None"

fun scalar_of :: "pyjson \<Rightarrow> pyval option" where
  "scalar_of JNull = Some VNone"
| "scalar_of (JBool b) = Some (VBool b)"
| "scalar_of (JInt n) = Some (VInt n)"
| "scalar_of (JFloat x) = Some (VFloat x)"
| "scalar_of (JStr s) = Some (VStr s)"
| "scalar_of _ = None"

text \<open>
  A payload that is not an object is refused, and one with a list or an object inside fails the
  check of the field that holds it, with the same error.
\<close>

fun scalars_of :: "(string \<times> pyjson) list \<Rightarrow> payload option" where
  "scalars_of [] = Some []"
| "scalars_of ((k, j) # kvs) =
     (case (scalar_of j, scalars_of kvs) of (Some v, Some pl) \<Rightarrow> Some ((k, v) # pl) | _ \<Rightarrow> None)"

fun payload_of_json :: "pyjson \<Rightarrow> payload option" where
  "payload_of_json (JObj kvs) = scalars_of kvs"
| "payload_of_json _ = None"

definition json_field_of :: "(string \<times> pyjson) list \<Rightarrow> string \<Rightarrow> pyjson" where
  "json_field_of kvs k = (case map_of kvs k of None \<Rightarrow> JNull | Some j \<Rightarrow> j)"

definition record_to_event :: "pyjson \<Rightarrow> store_error + ledger_event" where
  "record_to_event r =
     (case r of JObj kvs \<Rightarrow>
        let bad = EventDeserializationError; get = json_field_of kvs in
        bindE (raise_if (set (map fst kvs) \<noteq> set top_level_fields) bad) (\<lambda>_.
        bindE (or_raise bad (json_str_field (get ''event_id''))) (\<lambda>eid.
        bindE (or_raise bad (json_str_field (get ''paper_epoch_id''))) (\<lambda>epoch.
        bindE (or_raise bad (json_int_field (get ''sequence''))) (\<lambda>seq.
        bindE (raise_if (seq < 1) bad) (\<lambda>_.
        bindE (or_raise bad (json_str_field (get ''event_type''))) (\<lambda>tname.
        bindE (or_raise bad (event_type_of tname)) (\<lambda>etype.
        bindE (or_raise bad (scalar_of (get ''timestamp''))) (\<lambda>ts.
        bindE (require_number bad ts) (\<lambda>_.
        bindE (or_raise bad (json_opt_field (get ''trade_id''))) (\<lambda>tid.
        bindE (or_raise bad (json_opt_field (get ''decision_id''))) (\<lambda>did.
        bindE (or_raise bad (json_int_field (get ''schema_version''))) (\<lambda>v.
        bindE (raise_if (v \<notin> {1, 2}) UnsupportedSchemaVersionError) (\<lambda>_.
        bindE (or_raise bad (payload_of_json (get ''payload''))) (\<lambda>pl.
        bindE (or_raise bad (float_of_number ts)) (\<lambda>t.
        bindE (validate_payload bad etype pl v t) (\<lambda>_.
          lift_error (\<lambda>_. bad) (new_ledger_event eid epoch (VInt seq) etype ts tid did pl (VInt v))))))))))))))))))
      | _ \<Rightarrow> Inl EventDeserializationError)"

definition decode_record :: "string \<Rightarrow> store_error + ledger_event" where
  "decode_record text = bindE (or_raise EventDeserializationError (loads strict_hook text)) record_to_event"

section \<open>Files\<close>

text \<open>\<^verbatim>\<open>bytes.splitlines(keepends=True)\<close>: a line ends at a line feed, a carriage return, or both.\<close>

fun split_lines :: "string \<Rightarrow> string \<Rightarrow> string list" where
  "split_lines acc [] = (if acc = [] then [] else [rev acc])"
| "split_lines acc [c] =
     [rev (c # acc)]"
| "split_lines acc (c # d # s) =
     (if c = CHR 0x0A then rev (c # acc) # split_lines [] (d # s)
      else if c = CHR 0x0D then
        (if d = CHR 0x0A then rev (d # c # acc) # split_lines [] s
         else rev (c # acc) # split_lines [] (d # s))
      else split_lines (c # acc) (d # s))"

definition is_blank :: "string \<Rightarrow> bool" where
  "is_blank s \<longleftrightarrow> list_all (\<lambda>c. (of_char c :: nat) \<in> {9, 10, 11, 12, 13, 32}) s"

text \<open>\<^verbatim>\<open>str.encode("utf-8")\<close> for code points below 256, one character per byte.\<close>

definition utf8 :: "string \<Rightarrow> string" where
  "utf8 s = concat (map (\<lambda>c. let n = (of_char c :: nat) in
     if n < 128 then [c] else [char_of (192 + n div 64), char_of (128 + n mod 64)]) s)"

definition epoch_digest :: "string \<Rightarrow> string" where
  "epoch_digest epoch_id = sha256_hex (utf8 epoch_id)"

definition epoch_path :: "string \<Rightarrow> string" where
  "epoch_path epoch_id = epoch_digest epoch_id @ ''.jsonl''"

definition is_epoch_name :: "string \<Rightarrow> bool" where
  "is_epoch_name name \<longleftrightarrow>
     length name = 70 \<and> list_all is_hex (take 64 name) \<and> drop 64 name = ''.jsonl''"

datatype entry = RegularFile string | OtherEntry

record stored_event =
  se_event :: ledger_event
  se_line :: string
  se_path :: string
  se_number :: nat

record epoch_reading =
  er_epoch :: "string option"
  er_next :: int
  er_seen :: "string list"
  er_events :: "stored_event list"

definition read_line :: "string \<Rightarrow> epoch_reading \<Rightarrow> nat \<times> string \<Rightarrow> store_error + epoch_reading" where
  "read_line name st numbered =
     (case numbered of (n, raw_line) \<Rightarrow>
        bindE (raise_if (raw_line = [] \<or> last raw_line \<noteq> CHR 0x0A) StoreCorruptionError) (\<lambda>_.
        bindE (raise_if (is_blank (butlast raw_line)) StoreCorruptionError) (\<lambda>_.
        bindE (decode_record (butlast raw_line)) (\<lambda>e.
        bindE (canonical_line e) (\<lambda>line.
        bindE (raise_if (raw_line \<noteq> line) StoreCorruptionError) (\<lambda>_.
        bindE (case er_epoch st of
                 None \<Rightarrow> raise_if (name \<noteq> epoch_path (le_paper_epoch_id e)) StoreEpochMismatchError
               | Some i \<Rightarrow> raise_if (le_paper_epoch_id e \<noteq> i) StoreEpochMismatchError) (\<lambda>_.
        bindE (raise_if (le_event_id e \<in> set (er_seen st)) StoreCorruptionError) (\<lambda>_.
        bindE (raise_if (le_sequence e < er_next st) StoreSequenceRegressionError) (\<lambda>_.
        bindE (raise_if (le_sequence e > er_next st) StoreSequenceGapError) (\<lambda>_.
          Inr \<lparr>er_epoch = Some (le_paper_epoch_id e), er_next = er_next st + 1,
               er_seen = er_seen st @ [le_event_id e],
               er_events = er_events st @ [\<lparr>se_event = e, se_line = line, se_path = name, se_number = n\<rparr>]\<rparr>))))))))))"

definition read_epoch_file :: "string \<Rightarrow> string \<Rightarrow> store_error + stored_event list" where
  "read_epoch_file name content =
     bindE (raise_if (content = []) StoreCorruptionError) (\<lambda>_.
     bindE (raise_if (last content \<noteq> CHR 0x0A) StoreCorruptionError) (\<lambda>_.
     bindE (foldE (read_line name) \<lparr>er_epoch = None, er_next = 1, er_seen = [], er_events = []\<rparr>
              (enumerate 1 (split_lines [] content))) (\<lambda>st.
       Inr (er_events st))))"

section \<open>The store\<close>

text \<open>The directory of epoch files; \<open>None\<close> when it does not exist yet.\<close>

type_synonym store_dir = "(string, entry) dict option"

type_synonym store_index = "(string, stored_event list) dict \<times> (string, stored_event) dict"

definition index_event ::
  "(string, stored_event) dict \<Rightarrow> stored_event \<Rightarrow> store_error + (string, stored_event) dict" where
  "index_event ids item =
     bindE (raise_if (dict_get ids (le_event_id (se_event item)) \<noteq> None) StoreCorruptionError) (\<lambda>_.
       Inr (dict_set ids (le_event_id (se_event item)) item))"

definition scan_entry :: "store_index \<Rightarrow> string \<times> entry \<Rightarrow> store_error + store_index" where
  "scan_entry idx named =
     (case (idx, named) of ((epochs, ids), (name, en)) \<Rightarrow>
        (case en of
           OtherEntry \<Rightarrow> Inl StoreCorruptionError
         | RegularFile content \<Rightarrow>
             bindE (raise_if (\<not> is_epoch_name name) StoreCorruptionError) (\<lambda>_.
             bindE (read_epoch_file name content) (\<lambda>stored.
             bindE (case stored of [] \<Rightarrow> Inl StoreCorruptionError | item # _ \<Rightarrow> Inr (le_paper_epoch_id (se_event item))) (\<lambda>i.
             bindE (raise_if (dict_get epochs i \<noteq> None) StoreCorruptionError) (\<lambda>_.
             bindE (foldE index_event ids stored) (\<lambda>ids'.
               Inr (dict_set epochs i stored, ids'))))))))"

definition scan_store :: "store_dir \<Rightarrow> store_error + store_index" where
  "scan_store dir =
     (case dir of None \<Rightarrow> Inr ([], []) | Some files \<Rightarrow> foldE scan_entry ([], []) (sort_key fst files))"

datatype append_status = APPENDED | ALREADY_EXISTS

record append_result =
  ar_status :: append_status
  ar_event_id :: string
  ar_paper_epoch_id :: string
  ar_sequence :: int

text \<open>
  What becomes of a write: all of it reaches the disk and is synced; a sync of the file or of its
  directory fails after the bytes are visible; or only a beginning of the line was written.
  The last two raise.
\<close>

datatype append_io = Synced | SyncFailed | CutAfter nat

fun io_text :: "append_io \<Rightarrow> string \<Rightarrow> string" where
  "io_text (CutAfter n) line = take n line"
| "io_text _ line = line"

fun io_result :: "append_io \<Rightarrow> 'a \<Rightarrow> store_error + 'a" where
  "io_result Synced r = Inr r"
| "io_result _ r = Inl StoreOSError"

definition file_text :: "(string, entry) dict \<Rightarrow> string \<Rightarrow> string" where
  "file_text files name = (case dict_get files name of Some (RegularFile t) \<Rightarrow> t | _ \<Rightarrow> [])"

definition durable_append ::
  "append_io \<Rightarrow> (string, entry) dict \<Rightarrow> string \<Rightarrow> string \<Rightarrow> (string, entry) dict" where
  "durable_append io files name line =
     dict_set files name (RegularFile (file_text files name @ io_text io line))"

definition result_of :: "append_status \<Rightarrow> ledger_event \<Rightarrow> append_result" where
  "result_of st e = \<lparr>ar_status = st, ar_event_id = le_event_id e,
     ar_paper_epoch_id = le_paper_epoch_id e, ar_sequence = le_sequence e\<rparr>"

text \<open>The decision under the exclusive lock: an existing event, or the line to append.\<close>

definition append_decision ::
  "store_index \<Rightarrow> string \<Rightarrow> ledger_event \<Rightarrow> string \<Rightarrow> store_error + append_status" where
  "append_decision idx epoch_id e line =
     (case dict_get (snd idx) (le_event_id e) of
        Some item \<Rightarrow> if se_line item = line then Inr ALREADY_EXISTS else Inl EventIdentityCollisionError
      | None \<Rightarrow>
          let expected = (case dict_get (fst idx) epoch_id of
                None \<Rightarrow> 1 | Some [] \<Rightarrow> 1 | Some items \<Rightarrow> le_sequence (se_event (last items)) + 1) in
          if le_sequence e < expected then Inl StoreSequenceRegressionError
          else if le_sequence e > expected then Inl StoreSequenceGapError
          else Inr APPENDED)"

definition append_event ::
  "append_io \<Rightarrow> string \<Rightarrow> ledger_event \<Rightarrow> store_dir \<Rightarrow> store_dir \<times> (store_error + append_result)" where
  "append_event io epoch_id e dir =
     (if epoch_id = [] then (dir, Inl StoreEpochMismatchError)
      else case canonical_line e of
        Inl err \<Rightarrow> (dir, Inl err)
      | Inr line \<Rightarrow>
          if le_paper_epoch_id e \<noteq> epoch_id then (dir, Inl StoreEpochMismatchError)
          else
            let files = (case dir of None \<Rightarrow> [] | Some fs \<Rightarrow> fs) in
            case bindE (scan_store (Some files)) (\<lambda>idx. append_decision idx epoch_id e line) of
              Inl err \<Rightarrow> (Some files, Inl err)
            | Inr ALREADY_EXISTS \<Rightarrow> (Some files, io_result io (result_of ALREADY_EXISTS e))
            | Inr APPENDED \<Rightarrow>
                (Some (durable_append io files (epoch_path epoch_id) line),
                 io_result io (result_of APPENDED e)))"

definition load_epoch :: "string \<Rightarrow> store_dir \<Rightarrow> store_error + ledger_event list" where
  "load_epoch epoch_id dir =
     (if epoch_id = [] then Inl StoreEpochMismatchError
      else case dir of
        None \<Rightarrow> Inl EpochNotFoundError
      | Some files \<Rightarrow>
          if dict_get files (epoch_path epoch_id) = None then Inl EpochNotFoundError
          else bindE (scan_store dir) (\<lambda>(epochs, _).
            case dict_get epochs epoch_id of
              None \<Rightarrow> Inl EpochNotFoundError
            | Some stored \<Rightarrow> Inr (map se_event stored)))"

section \<open>An event reads back\<close>

text \<open>
  What is asked of an event besides being accepted: its payload is a dictionary, and its floats
  are doubles. Reading it back puts the payload's keys in order.
\<close>

definition event_wire_ok :: "ledger_event \<Rightarrow> bool" where
  "event_wire_ok e \<longleftrightarrow> distinct (dict_keys (le_payload e)) \<and> fl_double (le_timestamp e) \<and>
     list_all (\<lambda>(_, v). case v of VFloat x \<Rightarrow> fl_double x | _ \<Rightarrow> True) (le_payload e)"

definition in_order :: "ledger_event \<Rightarrow> ledger_event" where
  "in_order e = e\<lparr>le_payload := sort_key fst (le_payload e)\<rparr>"

lemma map_of_sort_key: "distinct (map fst kvs) \<Longrightarrow> map_of (sort_key fst kvs) = map_of kvs"
  using map_of_inject_set [of "sort_key fst kvs" kvs] distinct_sorted_keys [of kvs] by simp

lemma each_eq_Inr [simp]: "each f xs = Inr u \<longleftrightarrow> list_all (\<lambda>x. f x = Inr ()) xs"
  by (induction xs) (auto simp: result_simps)

lemma each_cong: "(\<And>x. x \<in> set xs \<Longrightarrow> f x = g x) \<Longrightarrow> each f xs = each g xs"
  by (induction xs) auto

lemma require_number_Inr [simp]:
  "require_number err v = Inr u \<longleftrightarrow> is_number v \<and> (\<exists>x. float_of_number v = Some x \<and> fl_finite x)"
  by (auto simp: require_number_def split: option.splits)

lemma require_string_Inr [simp]: "require_string err v = Inr u \<longleftrightarrow> is_str v"
  by (simp add: require_string_def)

lemma validate_fields_error:
  "validate_fields err etype get v ts = Inr () \<longleftrightarrow> validate_fields err' etype get v ts = Inr ()"
  by (cases etype; cases "v = 2")
    (simp_all only: validate_fields.simps validate_replay_terms_def bindE_eq_Inr each_eq_Inr
      raise_if_eq_Inr require_number_Inr require_string_Inr if_True if_False simp_thms)

lemma validate_payload_error:
  "validate_payload err etype pl v ts = Inr () \<Longrightarrow> validate_payload err' etype pl v ts = Inr ()"
  unfolding validate_payload_def bindE_eq_Inr raise_if_eq_Inr
  using validate_fields_error [of err etype _ v ts err'] by simp

lemma validate_payload_order:
  assumes "distinct (dict_keys pl)"
  shows "validate_payload err etype (sort_key fst pl) v ts = validate_payload err etype pl v ts"
proof -
  have "field_of (sort_key fst pl) = field_of pl"
    by (simp add: field_of_def map_of_sort_key assms fun_eq_iff)
  then show ?thesis by (simp add: validate_payload_def)
qed

lemma jsonable_Inr: "jsonable v = Inr j \<longleftrightarrow> j = json_of v \<and> (case v of VFloat x \<Rightarrow> fl_finite x | _ \<Rightarrow> True)"
  by (cases v) auto

lemma jsonable_payload_Inr:
  "jsonable_payload pl = Inr js \<longleftrightarrow>
     js = map (\<lambda>(k, v). (k, json_of v)) pl \<and>
     list_all (\<lambda>(_, v). case v of VFloat x \<Rightarrow> fl_finite x | _ \<Rightarrow> True) pl"
proof (induction pl arbitrary: js)
  case (Cons kv pl)
  obtain k v where kv: "kv = (k, v)" by (cases kv)
  have "jsonable_payload (kv # pl) = Inr js \<longleftrightarrow>
    (\<exists>j js'. jsonable v = Inr j \<and> jsonable_payload pl = Inr js' \<and> js = (k, j) # js')"
    by (auto simp: kv bindE_eq_Inr)
  then show ?case by (auto simp: Cons.IH jsonable_Inr kv)
qed auto

lemma scalar_json [simp]: "scalar_of (json_of v) = Some v"
  by (cases v) simp_all

lemma canon_scalar [simp]: "canon (json_of v) = json_of v"
  by (cases v) simp_all

lemma scalars_json: "scalars_of (map (\<lambda>(k, v). (k, json_of v)) pl) = Some pl"
  by (induction pl) auto

lemma json_opt_back [simp]: "json_opt_field (json_of_opt t) = Some t"
  by (cases t) simp_all

lemma canon_opt [simp]: "canon (json_of_opt t) = json_of_opt t" "json_ok (json_of_opt t)"
  by (cases t; simp)+

lemma event_type_back [simp]: "event_type_of (event_type_value t) = Some t" "event_type_value t \<noteq> []"
  by (cases t; simp add: event_type_of_def)+

lemma event_fields_keys [simp]: "map fst (event_fields e js) = top_level_fields"
  by (simp add: event_fields_def top_level_fields_def)

lemma top_level_distinct [simp]: "distinct top_level_fields"
  by (simp add: top_level_fields_def)

lemma record_json_ok:
  assumes "event_wire_ok e" "fl_finite (le_timestamp e)" "jsonable_payload (le_payload e) = Inr js"
  shows "json_ok (JObj (event_fields e js))"
proof -
  have "json_ok (json_of v)"
    if "(k, v) \<in> set (le_payload e)" for k v
    using assms that
    by (cases v) (fastforce simp: event_wire_ok_def jsonable_payload_Inr list_all_iff)+
  then have "json_ok (JObj js)"
    using assms by (fastforce simp: jsonable_payload_Inr event_wire_ok_def list_all_iff comp_def case_prod_unfold)
  with assms show ?thesis
    by (simp add: event_fields_def event_wire_ok_def del: json_ok.simps(3))
      (simp add: event_wire_ok_def)
qed

lemma canon_record:
  assumes "js = map (\<lambda>(k, v). (k, json_of v)) pl"
  shows "canon (JObj (event_fields e js)) =
    JObj (sort_key fst (event_fields e (map (\<lambda>(k, v). (k, json_of v)) (sort_key fst pl))))"
proof -
  have "canon (JObj js) = JObj (map (\<lambda>(k, v). (k, json_of v)) (sort_key fst pl))"
    unfolding canon_obj assms by (simp add: sort_key_map case_prod_unfold comp_def)
  then show ?thesis by (simp add: event_fields_def del: canon.simps(2)) (simp add: event_fields_def)
qed

text \<open>The conditions under which an event has a record, and the record.\<close>

lemma event_to_record_Inr:
  "event_to_record e = Inr r \<longleftrightarrow>
     event_ok e \<and> le_schema_version e \<in> {1, 2} \<and>
     (\<exists>js. jsonable_payload (le_payload e) = Inr js \<and> r = JObj (event_fields e js)) \<and>
     validate_payload EventSerializationError (le_event_type e) (le_payload e)
       (le_schema_version e) (le_timestamp e) = Inr ()"
proof -
  have ts: "require_number EventSerializationError (VFloat (le_timestamp e)) = Inr u \<longleftrightarrow> fl_finite (le_timestamp e)" for u
    by (auto simp: float_of_number.simps)
  have scoped: "(if le_event_type e \<in> set trade_scoped_event_types
            then bindE (raise_if (\<not> truthy_str (le_trade_id e)) EventSerializationError) (\<lambda>_.
                   raise_if (le_trade_id e = Some (le_event_id e)) EventSerializationError)
            else Inr ()) = Inr u \<longleftrightarrow>
     (le_event_type e \<in> set trade_scoped_event_types \<longrightarrow>
        truthy_str (le_trade_id e) \<and> le_trade_id e \<noteq> Some (le_event_id e))" for u
    by (auto simp: bindE_eq_Inr)
  show ?thesis
    unfolding event_to_record_def bindE_eq_Inr raise_if_eq_Inr ts scoped event_ok_def by auto
qed

lemma canonical_line_Inr:
  "canonical_line e = Inr line \<longleftrightarrow>
     (\<exists>r. event_to_record e = Inr r \<and> all_finite r \<and> line = dump r @ [CHR 0x0A])"
  by (auto simp: canonical_line_def bindE_eq_Inr dumps_def)

lemma json_field_sorted:
  "distinct (map fst kvs) \<Longrightarrow> json_field_of (sort_key fst kvs) = json_field_of kvs"
  by (simp add: json_field_of_def map_of_sort_key fun_eq_iff)

lemma event_field_values:
  "json_field_of (event_fields e js) ''event_id'' = JStr (le_event_id e)"
  "json_field_of (event_fields e js) ''paper_epoch_id'' = JStr (le_paper_epoch_id e)"
  "json_field_of (event_fields e js) ''sequence'' = JInt (le_sequence e)"
  "json_field_of (event_fields e js) ''event_type'' = JStr (event_type_value (le_event_type e))"
  "json_field_of (event_fields e js) ''timestamp'' = JFloat (le_timestamp e)"
  "json_field_of (event_fields e js) ''trade_id'' = json_of_opt (le_trade_id e)"
  "json_field_of (event_fields e js) ''decision_id'' = json_of_opt (le_decision_id e)"
  "json_field_of (event_fields e js) ''payload'' = JObj js"
  "json_field_of (event_fields e js) ''schema_version'' = JInt (le_schema_version e)"
  by (simp_all add: json_field_of_def event_fields_def)

lemma new_ledger_event_back:
  assumes "event_ok e"
  shows "new_ledger_event (le_event_id e) (le_paper_epoch_id e) (VInt (le_sequence e)) (le_event_type e)
    (VFloat (le_timestamp e)) (le_trade_id e) (le_decision_id e) pl (VInt (le_schema_version e)) =
    Inr (e\<lparr>le_payload := pl\<rparr>)"
  using assms by (auto simp: new_ledger_event_def event_ok_def event_require_finite_def)

lemma record_reads_back:
  assumes ok: "event_ok e" "le_schema_version e \<in> {1, 2}" and keys: "distinct (dict_keys (le_payload e))"
    and valid: "validate_payload err (le_event_type e) (le_payload e) (le_schema_version e) (le_timestamp e) = Inr ()"
  shows "record_to_event (JObj (sort_key fst (event_fields e
    (map (\<lambda>(k, v). (k, json_of v)) (sort_key fst (le_payload e)))))) = Inr (in_order e)"
proof -
  let ?js = "map (\<lambda>(k, v). (k, json_of v)) (sort_key fst (le_payload e))"
  have get: "json_field_of (sort_key fst (event_fields e ?js)) = json_field_of (event_fields e ?js)"
    by (rule json_field_sorted) simp
  have fields: "set (map fst (sort_key fst (event_fields e ?js))) = set top_level_fields"
    by (metis event_fields_keys list.set_map set_sort)
  have valid': "validate_payload EventDeserializationError (le_event_type e) (sort_key fst (le_payload e))
      (le_schema_version e) (le_timestamp e) = Inr ()"
    unfolding validate_payload_order [OF keys] by (rule validate_payload_error [OF valid])
  have ts: "require_number EventDeserializationError (VFloat (le_timestamp e)) = Inr ()"
    using ok by (simp add: event_ok_def)
  have "le_event_id e \<noteq> []" "le_paper_epoch_id e \<noteq> []" "\<not> le_sequence e < 1" using ok by (auto simp: event_ok_def)
  moreover have "raise_if (le_schema_version e \<notin> {1, 2}) UnsupportedSchemaVersionError = Inr ()"
    using ok(2) by simp
  ultimately show ?thesis
    using valid' new_ledger_event_back [OF ok(1), of "sort_key fst (le_payload e)"]
    unfolding record_to_event_def pyjson.case Let_def get fields event_field_values
    by (simp add: ts scalars_json in_order_def del: raise_if_eq_Inr insert_iff require_number_Inr)
qed

lemma line_reads_back:
  assumes line: "canonical_line e = Inr line" and wire: "event_wire_ok e"
  shows "decode_record (butlast line) = Inr (in_order e)"
proof -
  obtain js where ok: "event_ok e" "le_schema_version e \<in> {1, 2}"
    and js: "jsonable_payload (le_payload e) = Inr js"
    and valid: "validate_payload EventSerializationError (le_event_type e) (le_payload e)
       (le_schema_version e) (le_timestamp e) = Inr ()"
    and shape: "line = dump (JObj (event_fields e js)) @ [CHR 0x0A]"
    using line by (auto simp: canonical_line_Inr event_to_record_Inr)
  have "json_ok (JObj (event_fields e js))"
    using record_json_ok [OF wire _ js] ok by (simp add: event_ok_def)
  from compact.loads_dump [OF this]
  have "loads strict_hook (butlast line) = Some (canon (JObj (event_fields e js)))"
    by (simp only: shape butlast_snoc)
  moreover have "js = map (\<lambda>(k, v). (k, json_of v)) (le_payload e)" using js by (simp add: jsonable_payload_Inr)
  moreover have "distinct (dict_keys (le_payload e))" using wire by (simp add: event_wire_ok_def)
  ultimately show ?thesis
    using record_reads_back [OF ok _ valid] by (simp add: decode_record_def canon_record del: canon.simps)
qed

text \<open>
  C39: The line an accepted event is written as decodes to that event, with its payload's keys in
  order: the reader's validation accepts whatever the writer's accepts. So two events with the
  same line are the same event, up to the order of the keys.
\<close>

theorem line_roundtrip:
  assumes "canonical_line e = Inr line" and "event_wire_ok e"
  shows "decode_record (butlast line) = Inr (in_order e) \<and>
    (canonical_line e' = Inr line \<and> event_wire_ok e' \<longrightarrow> in_order e' = in_order e)"
  using line_reads_back [OF assms] line_reads_back [of e' line] by auto

definition sample_lost_event :: ledger_event where
  "sample_lost_event = \<lparr>le_event_id = ''e1'', le_paper_epoch_id = ''p1'', le_sequence = 1,
     le_event_type = POSITION_UNRESOLVED, le_timestamp = Fin 0, le_trade_id = Some ''t1'', le_decision_id = None,
     le_payload = [(''reason'', VStr ''lost'')], le_schema_version = 1\<rparr>"

lemma sample_line: "\<exists>line. canonical_line sample_lost_event = Inr line"
  by (auto simp: canonical_line_Inr event_to_record_Inr sample_lost_event_def event_ok_def truthy_str_def
      trade_scoped_event_types_def validate_payload_def bindE_eq_Inr field_of_def event_fields_def)

lemma sample_wire: "event_wire_ok sample_lost_event" "in_order sample_lost_event = sample_lost_event"
  by (simp_all add: event_wire_ok_def sample_lost_event_def in_order_def)

theorem line_roundtrip_witness:
  "\<exists>line. canonical_line sample_lost_event = Inr line \<and> decode_record (butlast line) = Inr sample_lost_event"
  using sample_line line_roundtrip [of sample_lost_event] sample_wire by auto

section \<open>Lines and files\<close>

text \<open>What is written has no control character, so a line has one line break, its last character.\<close>

definition printable :: "string \<Rightarrow> bool" where
  "printable s \<longleftrightarrow> list_all (\<lambda>c. 32 \<le> (of_char c :: nat)) s"

lemma printable_simps [simp]:
  "printable []" "printable (c # s) \<longleftrightarrow> 32 \<le> (of_char c :: nat) \<and> printable s"
  "printable (s @ t) \<longleftrightarrow> printable s \<and> printable t"
  by (simp_all add: printable_def)

lemma printable_digits: "list_all is_digit s \<Longrightarrow> printable s"
  by (auto simp: printable_def list_all_iff is_digit_def)

lemma printable_show_int: "printable (show_int n)"
  by (simp add: show_int_def printable_digits show_nat_digits)

lemma printable_zeros: "printable (zeros n)"
  by (rule printable_digits [OF zeros_digits])

lemma printable_sub: "printable s \<Longrightarrow> set t \<subseteq> set s \<Longrightarrow> printable t"
  by (auto simp: printable_def list_all_iff)

lemma printable_float: "printable (float_repr x)"
proof (cases x)
  case (Fin q)
  have "printable (point_notation ds p)" "printable (exponent_notation ds p)" if "printable ds" for ds p
    using that printable_zeros printable_show_int
      printable_sub [OF that set_take_subset] printable_sub [OF that set_drop_subset]
    by (simp_all add: point_notation_def exponent_notation_def)
  then have "printable (repr_pos r)" for r
    using printable_show_int by (simp add: repr_pos_def Let_def split: prod.splits)
  then show ?thesis by (simp add: Fin)
qed simp_all

lemma printable_escape: "printable (escape_char c)"
proof -
  have "32 \<le> (of_char (low_hex d) :: nat)" if "d < 16" for d
    using that by (simp add: low_hex_def of_char_of)
  moreover have "(of_char c :: nat) < 32 \<Longrightarrow> (of_char c :: nat) div 16 < 16" by simp
  ultimately show ?thesis by (simp add: escape_char_def Let_def)
qed

lemma printable_str: "printable (dump_str s)"
proof -
  have "printable (concat (map escape_char s))" by (induction s) (simp_all add: printable_escape)
  then show ?thesis by (simp add: quoted_def)
qed

lemma printable_commas: "list_all printable xs \<Longrightarrow> printable (commas [] xs)"
  by (induction "[] :: string" xs rule: commas.induct) simp_all

lemma printable_dump: "printable (dump j)"
proof (induction j)
  case (JList js)
  then have "printable (commas [] (map dump js))" by (intro printable_commas) (simp add: list_all_iff)
  then show ?case by simp
next
  case (JObj kvs)
  have "list_all printable (map (member_text []) (sort_key fst kvs))"
    using JObj printable_str by (fastforce simp: list_all_iff member_text_def)
  then show ?case unfolding dump_obj using printable_commas by simp
qed (simp_all add: printable_show_int printable_float printable_str)

lemma canonical_line_shape:
  assumes "canonical_line e = Inr line"
  obtains body where "line = body @ [CHR 0x0A]" "printable body" "body \<noteq> []"
proof -
  obtain r where r: "line = dump r @ [CHR 0x0A]" "event_to_record e = Inr r"
    using assms by (auto simp: canonical_line_Inr)
  then have "dump r \<noteq> []" by (auto simp: event_to_record_Inr)
  with r that printable_dump show thesis by blast
qed

lemma printable_no_break: "printable s \<Longrightarrow> CHR 0x0A \<notin> set s \<and> CHR 0x0D \<notin> set s"
  by (auto simp: printable_def list_all_iff)

lemma split_one:
  "CHR 0x0A \<notin> set body \<Longrightarrow> CHR 0x0D \<notin> set body \<Longrightarrow> split_lines acc (body @ [CHR 0x0A]) = [rev acc @ body @ [CHR 0x0A]]"
proof (induction body arbitrary: acc)
  case (Cons c body)
  obtain d s where ds: "body @ [CHR 0x0A] = d # s" by (cases body) auto
  from Cons.prems have "split_lines acc ((c # body) @ [CHR 0x0A]) = split_lines (c # acc) (body @ [CHR 0x0A])"
    unfolding append_Cons ds by auto
  with Cons show ?case by simp
qed simp

lemma split_append:
  "s \<noteq> [] \<Longrightarrow> last s = CHR 0x0A \<Longrightarrow> split_lines acc (s @ t) = split_lines acc s @ split_lines [] t"
proof (induction acc s rule: split_lines.induct)
  case (2 acc c)
  then show ?case by (cases t) simp_all
next
  case (3 acc c d s)
  then show ?case by (cases "s = []"; cases t) auto
qed simp

lemma split_append_line:
  assumes "canonical_line e = Inr line" "content = [] \<or> last content = CHR 0x0A"
  shows "split_lines [] (content @ line) = split_lines [] content @ [line]"
proof -
  obtain body where body: "line = body @ [CHR 0x0A]" "printable body" "body \<noteq> []"
    using canonical_line_shape [OF assms(1)] .
  have "split_lines [] line = [line]"
    using split_one [of body "[]"] printable_no_break [OF body(2)] body(1) by simp
  with split_append [of content "[]" line] assms(2) show ?thesis by (cases "content = []") simp_all
qed

lemma in_order_simps [simp]:
  "le_event_id (in_order e) = le_event_id e" "le_paper_epoch_id (in_order e) = le_paper_epoch_id e"
  "le_sequence (in_order e) = le_sequence e" "le_event_type (in_order e) = le_event_type e"
  "le_timestamp (in_order e) = le_timestamp e" "le_trade_id (in_order e) = le_trade_id e"
  "le_decision_id (in_order e) = le_decision_id e" "le_schema_version (in_order e) = le_schema_version e"
  "le_payload (in_order e) = sort_key fst (le_payload e)"
  by (simp_all add: in_order_def)

lemma event_ok_in_order [simp]: "event_ok (in_order e) \<longleftrightarrow> event_ok e"
  by (simp add: event_ok_def)

lemma sort_key_sorted: "sorted (map f xs) \<Longrightarrow> sort_key f xs = xs"
  by (induction xs) (simp_all add: insort_is_Cons)

lemma dump_sorted: "dump (JObj (sort_key fst kvs)) = dump (JObj kvs)"
  unfolding dump_obj by (simp add: sort_key_sorted)

text \<open>An event and its ordered form have the same line.\<close>

lemma canonical_line_in_order:
  assumes line: "canonical_line e = Inr line" and keys: "distinct (dict_keys (le_payload e))"
  shows "canonical_line (in_order e) = Inr line"
proof -
  obtain js where ok: "event_ok e" "le_schema_version e \<in> {1, 2}"
    and js: "jsonable_payload (le_payload e) = Inr js"
    and valid: "validate_payload EventSerializationError (le_event_type e) (le_payload e)
       (le_schema_version e) (le_timestamp e) = Inr ()"
    and fin: "all_finite (JObj (event_fields e js))"
    and shape: "line = dump (JObj (event_fields e js)) @ [CHR 0x0A]"
    using line by (auto simp: canonical_line_Inr event_to_record_Inr)
  let ?js = "sort_key fst js"
  have js': "js = map (\<lambda>(k, v). (k, json_of v)) (le_payload e)" using js by (simp add: jsonable_payload_Inr)
  have "?js = map (\<lambda>(k, v). (k, json_of v)) (sort_key fst (le_payload e))"
    unfolding js' by (simp add: sort_key_map case_prod_unfold)
  then have json: "jsonable_payload (le_payload (in_order e)) = Inr ?js"
    using js by (simp add: jsonable_payload_Inr list_all_iff)
  have same: "map (\<lambda>(k, v). (k, dump v)) (event_fields (in_order e) ?js) =
      map (\<lambda>(k, v). (k, dump v)) (event_fields e js)"
    by (simp add: event_fields_def dump_sorted del: dump_simps(7))
  have "dump (JObj (event_fields (in_order e) ?js)) = dump (JObj (event_fields e js))"
    unfolding dump_simps same ..
  moreover have "all_finite (JObj (event_fields (in_order e) ?js))"
    using fin by (simp add: event_fields_def list_all_iff)
  ultimately show ?thesis
    using ok valid json shape by (auto simp: canonical_line_Inr event_to_record_Inr validate_payload_order keys)
qed

section \<open>Reading an epoch file\<close>

abbreviation item_id :: "stored_event \<Rightarrow> string" where
  "item_id it \<equiv> le_event_id (se_event it)"

abbreviation item_epoch :: "stored_event \<Rightarrow> string" where
  "item_epoch it \<equiv> le_paper_epoch_id (se_event it)"

definition items_ok :: "string \<Rightarrow> stored_event list \<Rightarrow> bool" where
  "items_ok name items \<longleftrightarrow>
     distinct (map item_id items) \<and>
     map (\<lambda>it. le_sequence (se_event it)) items = map (\<lambda>i. 1 + int i) [0..<length items] \<and>
     list_all (\<lambda>it. item_epoch it = item_epoch (hd items) \<and>
       canonical_line (se_event it) = Inr (se_line it) \<and>
       decode_record (butlast (se_line it)) = Inr (se_event it) \<and> se_path it = name \<and> event_ok (se_event it)) items \<and>
     (items \<noteq> [] \<longrightarrow> name = epoch_path (item_epoch (hd items)))"

definition reading_ok :: "string \<Rightarrow> epoch_reading \<Rightarrow> bool" where
  "reading_ok name st \<longleftrightarrow>
     items_ok name (er_events st) \<and> er_next st = 1 + int (length (er_events st)) \<and>
     er_seen st = map item_id (er_events st) \<and>
     er_epoch st = (if er_events st = [] then None else Some (item_epoch (hd (er_events st))))"

definition no_reading :: epoch_reading where
  "no_reading = \<lparr>er_epoch = None, er_next = 1, er_seen = [], er_events = []\<rparr>"

lemma no_reading_ok [simp]: "reading_ok name no_reading"
  by (simp add: reading_ok_def no_reading_def items_ok_def)

text \<open>When a line is accepted, and what it adds.\<close>

lemma read_line_Inr:
  "read_line name st (n, raw_line) = Inr st' \<longleftrightarrow>
     (raw_line \<noteq> [] \<and> last raw_line = CHR 0x0A \<and> \<not> is_blank (butlast raw_line) \<and>
      (\<exists>e. decode_record (butlast raw_line) = Inr e \<and> canonical_line e = Inr raw_line \<and>
        (case er_epoch st of None \<Rightarrow> name = epoch_path (le_paper_epoch_id e) | Some i \<Rightarrow> le_paper_epoch_id e = i) \<and>
        le_event_id e \<notin> set (er_seen st) \<and> le_sequence e = er_next st \<and>
        st' = \<lparr>er_epoch = Some (le_paper_epoch_id e), er_next = er_next st + 1,
               er_seen = er_seen st @ [le_event_id e],
               er_events = er_events st @ [\<lparr>se_event = e, se_line = raw_line, se_path = name, se_number = n\<rparr>]\<rparr>))"
  by (auto simp: read_line_def bindE_eq_Inr split: option.splits)

lemma canonical_event_ok: "canonical_line e = Inr line \<Longrightarrow> event_ok e"
  by (auto simp: canonical_line_Inr event_to_record_Inr)

lemma read_line_keeps:
  assumes ok: "reading_ok name st" and step: "read_line name st numbered = Inr st'"
  shows "reading_ok name st'"
proof -
  obtain n raw_line where num: "numbered = (n, raw_line)" by (cases numbered)
  from step obtain e where e: "canonical_line e = Inr raw_line" "decode_record (butlast raw_line) = Inr e"
    "case er_epoch st of None \<Rightarrow> name = epoch_path (le_paper_epoch_id e) | Some i \<Rightarrow> le_paper_epoch_id e = i"
    "le_event_id e \<notin> set (er_seen st)" "le_sequence e = er_next st"
    and st': "st' = \<lparr>er_epoch = Some (le_paper_epoch_id e), er_next = er_next st + 1,
               er_seen = er_seen st @ [le_event_id e],
               er_events = er_events st @ [\<lparr>se_event = e, se_line = raw_line, se_path = name, se_number = n\<rparr>]\<rparr>"
    unfolding num read_line_Inr by blast
  have "event_ok e" by (rule canonical_event_ok [OF e(1)])
  with ok e show ?thesis
    unfolding st' reading_ok_def items_ok_def
    by (cases "er_events st = []") (auto simp: hd_append)
qed

interpretation reading: event_replay "read_line name" "reading_ok name" for name
  by unfold_locales (rule read_line_keeps)

lemma read_epoch_file_Inr:
  "read_epoch_file name content = Inr items \<longleftrightarrow>
     content \<noteq> [] \<and> last content = CHR 0x0A \<and>
     (\<exists>st. foldE (read_line name) no_reading (enumerate 1 (split_lines [] content)) = Inr st \<and> items = er_events st)"
  by (auto simp: read_epoch_file_def bindE_eq_Inr no_reading_def)

lemma read_items_ok: "read_epoch_file name content = Inr items \<Longrightarrow> items_ok name items"
  using reading.replay_keeps [OF no_reading_ok] by (fastforce simp: read_epoch_file_Inr reading_ok_def)

lemma not_blank_line:
  assumes "canonical_line e = Inr line"
  shows "\<not> is_blank (butlast line)"
proof -
  obtain r where r: "line = dump r @ [CHR 0x0A]" "event_to_record e = Inr r"
    using assms by (auto simp: canonical_line_Inr)
  then obtain s where "dump r = CHR ''{'' # s" by (auto simp: event_to_record_Inr)
  with r show ?thesis by (simp add: is_blank_def)
qed

definition stored_item :: "string \<Rightarrow> nat \<Rightarrow> ledger_event \<Rightarrow> string \<Rightarrow> stored_event" where
  "stored_item name n e line = \<lparr>se_event = in_order e, se_line = line, se_path = name, se_number = n\<rparr>"

lemma file_append:
  assumes old: "content = [] \<and> items = [] \<or> read_epoch_file name content = Inr items"
    and line: "canonical_line e = Inr line" and wire: "event_wire_ok e"
    and fits: "name = epoch_path (le_paper_epoch_id e)" "items \<noteq> [] \<Longrightarrow> item_epoch (hd items) = le_paper_epoch_id e"
      "le_event_id e \<notin> item_id ` set items" "le_sequence e = 1 + int (length items)"
  shows "\<exists>n. read_epoch_file name (content @ line) = Inr (items @ [stored_item name n e line])"
proof -
  from old obtain st where st: "foldE (read_line name) no_reading (enumerate 1 (split_lines [] content)) = Inr st"
    "items = er_events st" "content = [] \<or> last content = CHR 0x0A"
    by (auto simp: read_epoch_file_Inr no_reading_def)
  have ok: "reading_ok name st" by (rule reading.replay_keeps [OF no_reading_ok st(1)])
  let ?n = "1 + length (split_lines [] content)"
  have "decode_record (butlast line) = Inr (in_order e)" by (rule line_reads_back [OF line wire])
  moreover have "canonical_line (in_order e) = Inr line"
    using canonical_line_in_order [OF line] wire by (simp add: event_wire_ok_def)
  moreover obtain body where body: "line = body @ [CHR 0x0A]" "body \<noteq> []"
    using canonical_line_shape [OF line] by blast
  ultimately have "read_line name st (?n, line) = Inr
     \<lparr>er_epoch = Some (le_paper_epoch_id e), er_next = er_next st + 1,
      er_seen = er_seen st @ [le_event_id e], er_events = items @ [stored_item name ?n e line]\<rparr>"
    using ok fits not_blank_line [OF line]
    by (auto simp: read_line_Inr reading_ok_def st(2) stored_item_def split: option.splits)
  then have "foldE (read_line name) no_reading (enumerate 1 (split_lines [] (content @ line))) = Inr
     \<lparr>er_epoch = Some (le_paper_epoch_id e), er_next = er_next st + 1,
      er_seen = er_seen st @ [le_event_id e], er_events = items @ [stored_item name ?n e line]\<rparr>"
    using st(1) split_append_line [OF line st(3)] by (simp add: enumerate_append_eq foldE_snoc add.commute)
  then show ?thesis using body by (auto simp: read_epoch_file_Inr)
qed

text \<open>A file that ends in a cut-off line is refused.\<close>

lemma file_cut:
  assumes line: "canonical_line e = Inr line" and cut: "0 < n" "n < length line"
  shows "read_epoch_file name (content @ take n line) = Inl StoreCorruptionError"
proof -
  obtain body where body: "line = body @ [CHR 0x0A]" "printable body" "body \<noteq> []"
    using canonical_line_shape [OF line] .
  have part: "take n line = take n body" "take n body \<noteq> []" using body cut by auto
  have "last (take n body) \<in> set body" using part(2) by (meson in_set_takeD last_in_set)
  then have "last (take n body) \<noteq> CHR 0x0A" using printable_no_break [OF body(2)] by auto
  with part show ?thesis by (simp add: read_epoch_file_def)
qed

section \<open>What a scan accepts\<close>

definition stored_in :: "string \<times> entry \<Rightarrow> stored_event list" where
  "stored_in x = (case snd x of OtherEntry \<Rightarrow> []
     | RegularFile c \<Rightarrow> (case read_epoch_file (fst x) c of Inl _ \<Rightarrow> [] | Inr items \<Rightarrow> items))"

definition good_file :: "string \<times> entry \<Rightarrow> bool" where
  "good_file x \<longleftrightarrow> is_epoch_name (fst x) \<and> stored_in x \<noteq> []"

definition file_epoch :: "string \<times> entry \<Rightarrow> string" where
  "file_epoch x = item_epoch (hd (stored_in x))"

lemma stored_in_ok: "items_ok (fst x) (stored_in x)"
  by (cases "snd x") (auto simp: stored_in_def items_ok_def [of _ "[]"] split: sum.splits dest: read_items_ok)

lemma good_file_name: "good_file x \<Longrightarrow> fst x = epoch_path (file_epoch x)"
  using stored_in_ok [of x] by (simp add: good_file_def file_epoch_def items_ok_def)

lemma index_Inr:
  assumes "distinct (map fst ids)"
  shows "foldE index_event ids items = Inr ids' \<longleftrightarrow>
    distinct (map fst ids @ map item_id items) \<and> ids' = ids @ map (\<lambda>it. (item_id it, it)) items"
  using assms
proof (induction items arbitrary: ids)
  case (Cons it items)
  show ?case
  proof (cases "item_id it \<in> set (map fst ids)")
    case False
    then have "index_event ids it = Inr (ids @ [(item_id it, it)])"
      by (simp add: index_event_def dict_set_fresh dict_get_None_iff)
    moreover have "distinct (map fst (ids @ [(item_id it, it)]))" using Cons.prems False by simp
    ultimately show ?thesis
      using Cons.IH [of "ids @ [(item_id it, it)]"] False Cons.prems by auto
  next
    case True
    then have "dict_get ids (item_id it) \<noteq> None" by (simp add: dict_get_None_iff)
    then have "index_event ids it = Inl StoreCorruptionError" by (simp add: index_event_def)
    with True show ?thesis by auto
  qed
qed auto

lemma scan_entry_Inr:
  "scan_entry (epochs, ids) x = Inr idx \<longleftrightarrow>
     good_file x \<and> dict_get epochs (file_epoch x) = None \<and>
     (\<exists>ids'. foldE index_event ids (stored_in x) = Inr ids' \<and>
        idx = (dict_set epochs (file_epoch x) (stored_in x), ids'))"
proof (cases "snd x")
  case (RegularFile c)
  then have x: "x = (fst x, RegularFile c)" by (cases x) simp
  show ?thesis
  proof (cases "read_epoch_file (fst x) c")
    case (Inl err)
    then show ?thesis
      by (subst (1) x) (auto simp: scan_entry_def bindE_eq_Inr good_file_def stored_in_def RegularFile)
  next
    case (Inr items)
    then show ?thesis
      by (subst (1) x, cases items)
        (auto simp: scan_entry_def bindE_eq_Inr good_file_def stored_in_def RegularFile file_epoch_def)
  qed
next
  case OtherEntry
  then show ?thesis by (cases x) (simp add: scan_entry_def good_file_def stored_in_def)
qed

definition store_items :: "(string \<times> entry) list \<Rightarrow> stored_event list" where
  "store_items xs = concat (map stored_in xs)"

definition epoch_index :: "(string \<times> entry) list \<Rightarrow> (string, stored_event list) dict" where
  "epoch_index xs = map (\<lambda>x. (file_epoch x, stored_in x)) xs"

definition id_index :: "(string \<times> entry) list \<Rightarrow> (string, stored_event) dict" where
  "id_index xs = map (\<lambda>it. (item_id it, it)) (store_items xs)"

lemma scan_Inr:
  assumes "distinct (map fst epochs)" "distinct (map fst ids)"
  shows "foldE scan_entry (epochs, ids) xs = Inr idx \<longleftrightarrow>
    list_all good_file xs \<and> distinct (map fst epochs @ map file_epoch xs) \<and>
    distinct (map fst ids @ map item_id (store_items xs)) \<and>
    idx = (epochs @ epoch_index xs, ids @ id_index xs)"
  using assms
proof (induction xs arbitrary: epochs ids)
  case (Cons x xs)
  show ?case
  proof (cases "good_file x \<and> dict_get epochs (file_epoch x) = None \<and> distinct (map fst ids @ map item_id (stored_in x))")
    case True
    let ?ids = "ids @ map (\<lambda>it. (item_id it, it)) (stored_in x)"
    have fresh: "file_epoch x \<notin> set (map fst epochs)" using True by (simp add: dict_get_None_iff)
    then have set: "dict_set epochs (file_epoch x) (stored_in x) = epochs @ [(file_epoch x, stored_in x)]"
      by (simp add: dict_set_fresh)
    have "foldE index_event ids (stored_in x) = Inr ?ids" using True Cons.prems by (simp add: index_Inr)
    then have "scan_entry (epochs, ids) x = Inr (epochs @ [(file_epoch x, stored_in x)], ?ids)"
      using True set by (auto simp: scan_entry_Inr)
    then have "foldE scan_entry (epochs, ids) (x # xs) =
        foldE scan_entry (epochs @ [(file_epoch x, stored_in x)], ?ids) xs" by simp
    also have "\<dots> = Inr idx \<longleftrightarrow> list_all good_file xs \<and>
        distinct (map fst (epochs @ [(file_epoch x, stored_in x)]) @ map file_epoch xs) \<and>
        distinct (map fst ?ids @ map item_id (store_items xs)) \<and>
        idx = ((epochs @ [(file_epoch x, stored_in x)]) @ epoch_index xs, ?ids @ id_index xs)"
      using Cons.prems fresh True by (intro Cons.IH) (auto simp: comp_def)
    finally show ?thesis
      using True by (simp add: store_items_def epoch_index_def id_index_def comp_def)
  next
    case False
    then have "\<not> (\<exists>idx'. scan_entry (epochs, ids) x = Inr idx')"
      using Cons.prems by (auto simp: scan_entry_Inr index_Inr)
    moreover have "\<not> (list_all good_file (x # xs) \<and> distinct (map fst epochs @ map file_epoch (x # xs)) \<and>
        distinct (map fst ids @ map item_id (store_items (x # xs))))"
      using False by (auto simp: dict_get_None_iff store_items_def)
    ultimately show ?thesis by (auto simp: bindE_eq_Inr)
  qed
qed (auto simp: store_items_def epoch_index_def id_index_def)

section \<open>Stores that read\<close>

abbreviation ids_in :: "string \<times> entry \<Rightarrow> string set" where
  "ids_in x \<equiv> item_id ` set (stored_in x)"

definition apart :: "(string \<times> entry) set \<Rightarrow> bool" where
  "apart F \<longleftrightarrow> (\<forall>x \<in> F. \<forall>y \<in> F. x \<noteq> y \<longrightarrow> ids_in x \<inter> ids_in y = {})"

definition store_valid :: "(string, entry) dict \<Rightarrow> bool" where
  "store_valid files \<longleftrightarrow> distinct (dict_keys files) \<and> list_all good_file files \<and> apart (set files)"

definition epoch_view :: "(string, entry) dict \<Rightarrow> string \<Rightarrow> stored_event list option" where
  "epoch_view files = map_of (epoch_index files)"

lemma distinct_items:
  "distinct xs \<Longrightarrow> distinct (map item_id (store_items xs)) \<longleftrightarrow> apart (set xs)"
proof (induction xs)
  case (Cons x xs)
  have "distinct (map item_id (stored_in x))" using stored_in_ok [of x] by (simp add: items_ok_def)
  moreover have "item_id ` set (store_items xs) = (\<Union>y \<in> set xs. ids_in y)" by (auto simp: store_items_def)
  ultimately have "distinct (map item_id (store_items (x # xs))) \<longleftrightarrow>
      apart (set xs) \<and> (\<forall>y \<in> set xs. ids_in x \<inter> ids_in y = {})"
    using Cons by (auto simp: store_items_def)
  also have "\<dots> \<longleftrightarrow> apart (set (x # xs))" using Cons.prems by (fastforce simp: apart_def)
  finally show ?case .
qed (simp add: store_items_def apart_def)

lemma distinct_epochs:
  assumes "distinct (dict_keys files)" "list_all good_file files"
  shows "distinct (map file_epoch files)"
proof -
  have "map fst files = map epoch_path (map file_epoch files)"
    using assms(2) by (auto simp: list_all_iff good_file_name)
  with assms(1) show ?thesis by (metis distinct_map)
qed

lemma scan_valid:
  assumes "distinct (dict_keys files)"
  shows "scan_store (Some files) = Inr idx \<longleftrightarrow>
    store_valid files \<and> idx = (epoch_index (sort_key fst files), id_index (sort_key fst files))"
proof -
  have sorted: "distinct (dict_keys (sort_key fst files))" by (rule distinct_sorted_keys [OF assms])
  then have "distinct (sort_key fst files)" by (simp only: distinct_map)
  from distinct_items [OF this] distinct_epochs [OF sorted] show ?thesis
    using assms by (auto simp: scan_store_def scan_Inr store_valid_def list_all_iff)
qed

lemma valid_scan: "store_valid files \<Longrightarrow>
    scan_store (Some files) = Inr (epoch_index (sort_key fst files), id_index (sort_key fst files))"
  using scan_valid [of files] by (simp add: store_valid_def)

lemma epoch_index_keys: "map fst (epoch_index xs) = map file_epoch xs"
  by (simp add: epoch_index_def comp_def)

lemma view_sorted:
  assumes "store_valid files"
  shows "map_of (epoch_index (sort_key fst files)) = epoch_view files"
proof -
  have "distinct (dict_keys files)" "list_all good_file files" using assms by (simp_all add: store_valid_def)
  note d = this
  have "distinct (map fst (epoch_index files))"
    unfolding epoch_index_keys by (rule distinct_epochs [OF d])
  moreover have "distinct (map fst (epoch_index (sort_key fst files)))"
    unfolding epoch_index_keys using distinct_epochs [OF distinct_sorted_keys [OF d(1)]] d(2) by (simp add: list_all_iff)
  moreover have "set (epoch_index (sort_key fst files)) = set (epoch_index files)" by (simp add: epoch_index_def)
  ultimately show ?thesis unfolding epoch_view_def by (simp add: map_of_inject_set)
qed

lemma id_index_keys: "map fst (id_index xs) = map item_id (store_items xs)"
  by (simp add: id_index_def comp_def)

lemma id_lookup:
  assumes "store_valid files"
  shows "dict_get (id_index (sort_key fst files)) i = Some it \<longleftrightarrow>
    (\<exists>x \<in> set files. it \<in> set (stored_in x) \<and> item_id it = i)"
proof -
  have "distinct (dict_keys files)" "apart (set files)" using assms by (simp_all add: store_valid_def)
  then have "distinct (sort_key fst files)" "apart (set (sort_key fst files))"
    using distinct_sorted_keys [of files] by (simp_all only: distinct_map set_sort)
  then have d: "distinct (map fst (id_index (sort_key fst files)))"
    unfolding id_index_keys using distinct_items by blast
  have "dict_get (id_index (sort_key fst files)) i = Some it \<longleftrightarrow> (i, it) \<in> set (id_index (sort_key fst files))"
    using d by (metis map_of_is_SomeI map_of_SomeD)
  then show ?thesis by (auto simp: id_index_def store_items_def)
qed

lemma view_Some:
  assumes "store_valid files"
  shows "epoch_view files i = Some items \<longleftrightarrow> (\<exists>x \<in> set files. file_epoch x = i \<and> stored_in x = items)"
proof -
  have "distinct (map fst (epoch_index files))"
    unfolding epoch_index_keys using assms by (intro distinct_epochs) (simp_all add: store_valid_def)
  then have "epoch_view files i = Some items \<longleftrightarrow> (i, items) \<in> set (epoch_index files)"
    unfolding epoch_view_def by (metis map_of_is_SomeI map_of_SomeD)
  then show ?thesis by (auto simp: epoch_index_def)
qed

lemma load_valid:
  assumes "store_valid files" "i \<noteq> []"
  shows "load_epoch i (Some files) =
    (case epoch_view files i of None \<Rightarrow> Inl EpochNotFoundError | Some items \<Rightarrow> Inr (map se_event items))"
proof (cases "epoch_view files i")
  case (Some items)
  then obtain x where x: "x \<in> set files" "file_epoch x = i" using view_Some [OF assms(1)] by blast
  then have "fst x = epoch_path i" using good_file_name assms(1) by (fastforce simp: store_valid_def list_all_iff)
  with x have "dict_get files (epoch_path i) \<noteq> None"
    by (metis dict_get_None_iff image_eqI list.set_map)
  with Some assms show ?thesis
    by (simp add: load_epoch_def valid_scan view_sorted)
next
  case None
  with assms show ?thesis by (simp add: load_epoch_def valid_scan view_sorted)
qed

lemma load_invalid:
  assumes "distinct (dict_keys files)" "\<not> store_valid files"
  shows "\<exists>err. load_epoch i (Some files) = Inl err"
proof -
  obtain err where "scan_store (Some files) = Inl err"
    using scan_valid [OF assms(1)] assms(2) by (cases "scan_store (Some files)") auto
  then show ?thesis by (simp add: load_epoch_def)
qed

section \<open>Appending\<close>

text \<open>
  The file name of an epoch is a SHA-256 digest. What appending relies on is that no file of the
  store holds an epoch with the same digest as another epoch, the one appended to.
\<close>

definition no_collision :: "(string, entry) dict \<Rightarrow> string \<Rightarrow> bool" where
  "no_collision files i \<longleftrightarrow> list_all (\<lambda>x. fst x = epoch_path i \<longrightarrow> file_epoch x = i) files"

lemma epoch_path_name: "is_epoch_name (epoch_path i)"
  by (simp add: is_epoch_name_def epoch_path_def epoch_digest_def length_sha256_hex sha256_hex_digits)

lemma set_dict_set:
  assumes "distinct (dict_keys d)"
  shows "set (dict_set d k v) = insert (k, v) {x \<in> set d. fst x \<noteq> k}"
proof -
  have d': "distinct (dict_keys (dict_set d k v))" using assms by (rule dict_distinct_set)
  have "(a, b) \<in> set (dict_set d k v) \<longleftrightarrow> (a, b) \<in> insert (k, v) {x \<in> set d. fst x \<noteq> k}" for a b
  proof -
    have "(a, b) \<in> set (dict_set d k v) \<longleftrightarrow> dict_get (dict_set d k v) a = Some b"
      using d' by (metis map_of_is_SomeI map_of_SomeD)
    also have "\<dots> \<longleftrightarrow> (if a = k then b = v else dict_get d a = Some b)" by auto
    also have "\<dots> \<longleftrightarrow> (a, b) \<in> insert (k, v) {x \<in> set d. fst x \<noteq> k}"
      using assms by (auto dest: map_of_SomeD)
    finally show ?thesis .
  qed
  then show ?thesis by auto
qed

lemma option_eqI: "(\<And>y. a = Some y \<longleftrightarrow> b = Some y) \<Longrightarrow> a = b"
  by (cases a; cases b) auto

definition items_of :: "(string, entry) dict \<Rightarrow> string \<Rightarrow> stored_event list" where
  "items_of files i = (case epoch_view files i of None \<Rightarrow> [] | Some items \<Rightarrow> items)"

text \<open>The file appended to: it holds exactly the epoch's events, or does not exist.\<close>

lemma epoch_file:
  assumes valid: "store_valid files" and nc: "no_collision files i"
  obtains "epoch_view files i = None" "epoch_path i \<notin> set (dict_keys files)" "file_text files (epoch_path i) = []"
  | content items where "epoch_view files i = Some items" "items \<noteq> []"
      "(epoch_path i, RegularFile content) \<in> set files"
      "file_text files (epoch_path i) = content" "read_epoch_file (epoch_path i) content = Inr items"
      "stored_in (epoch_path i, RegularFile content) = items" "item_epoch (hd items) = i"
proof (cases "epoch_view files i")
  case None
  have "epoch_path i \<notin> set (dict_keys files)"
  proof
    assume "epoch_path i \<in> set (dict_keys files)"
    then obtain x where x: "x \<in> set files" "fst x = epoch_path i" by auto
    then have "file_epoch x = i" using nc by (simp add: no_collision_def list_all_iff)
    with x None show False using view_Some [OF valid, of i "stored_in x"] by auto
  qed
  moreover from this have "dict_get files (epoch_path i) = None" by (simp add: dict_get_None_iff)
  ultimately show thesis using that(1) None by (simp add: file_text_def)
next
  case (Some items)
  then obtain x where x: "x \<in> set files" "file_epoch x = i" "stored_in x = items"
    using view_Some [OF valid] by blast
  have good: "good_file x" and keys: "distinct (dict_keys files)"
    using x(1) valid by (simp_all add: store_valid_def list_all_iff)
  then have name: "fst x = epoch_path i" using good_file_name x(2) by blast
  have ne: "items \<noteq> []" using good x(3) by (simp add: good_file_def)
  then obtain content where c: "snd x = RegularFile content" "read_epoch_file (fst x) content = Inr items"
    using x(3) by (auto simp: stored_in_def split: entry.splits sum.splits)
  then have x': "x = (epoch_path i, RegularFile content)" using name by (cases x) simp
  then have "dict_get files (epoch_path i) = Some (RegularFile content)" using x(1) keys by simp
  then show thesis using that(2) [of items content] Some ne x x' c name
    by (simp add: file_text_def file_epoch_def)
qed

lemma new_file:
  assumes valid: "store_valid files" and nc: "no_collision files (le_paper_epoch_id e)"
    and line: "canonical_line e = Inr line" and wire: "event_wire_ok e"
    and fresh: "\<And>x. x \<in> set files \<Longrightarrow> le_event_id e \<notin> ids_in x"
    and seq: "le_sequence e = 1 + int (length (items_of files (le_paper_epoch_id e)))"
  shows "\<exists>n. stored_in (epoch_path (le_paper_epoch_id e),
      RegularFile (file_text files (epoch_path (le_paper_epoch_id e)) @ line)) =
    items_of files (le_paper_epoch_id e) @ [stored_item (epoch_path (le_paper_epoch_id e)) n e line]"
  using valid nc
proof (cases rule: epoch_file)
  case 1
  then obtain n where "read_epoch_file (epoch_path (le_paper_epoch_id e)) ([] @ line) =
      Inr ([] @ [stored_item (epoch_path (le_paper_epoch_id e)) n e line])"
    using file_append [of "[]" "[]" _ e line] line wire seq by (auto simp: items_of_def)
  with 1 show ?thesis by (auto simp: stored_in_def items_of_def)
next
  case (2 content items)
  have "le_event_id e \<notin> item_id ` set items" using fresh [OF 2(3)] 2(6) by simp
  then obtain n where "read_epoch_file (epoch_path (le_paper_epoch_id e)) (content @ line) =
      Inr (items @ [stored_item (epoch_path (le_paper_epoch_id e)) n e line])"
    using file_append [of content items _ e line] 2 line wire seq by (auto simp: items_of_def)
  with 2 show ?thesis by (auto simp: stored_in_def items_of_def)
qed

lemma append_keeps_valid:
  assumes valid: "store_valid files" and nc: "no_collision files (le_paper_epoch_id e)"
    and line: "canonical_line e = Inr line" and wire: "event_wire_ok e"
    and fresh: "\<And>x. x \<in> set files \<Longrightarrow> le_event_id e \<notin> ids_in x"
    and seq: "le_sequence e = 1 + int (length (items_of files (le_paper_epoch_id e)))"
  defines "p \<equiv> epoch_path (le_paper_epoch_id e)"
  defines "files' \<equiv> dict_set files p (RegularFile (file_text files p @ line))"
  shows "store_valid files' \<and> (\<exists>n. \<forall>i. epoch_view files' i =
    (if i = le_paper_epoch_id e then Some (items_of files i @ [stored_item p n e line]) else epoch_view files i))"
proof -
  let ?i = "le_paper_epoch_id e" and ?y = "(p, RegularFile (file_text files p @ line))"
  have keys: "distinct (dict_keys files)" and good: "\<And>x. x \<in> set files \<Longrightarrow> good_file x"
    and ap: "apart (set files)" using valid by (simp_all add: store_valid_def list_all_iff)
  obtain n where y: "stored_in ?y = items_of files ?i @ [stored_item p n e line]"
    using new_file [OF valid nc line wire fresh seq] unfolding p_def by blast
  have set': "set files' = insert ?y {x \<in> set files. fst x \<noteq> p}"
    unfolding files'_def by (rule set_dict_set [OF keys])
  have ep: "file_epoch ?y = ?i" and goody: "good_file ?y"
  proof -
    show "file_epoch ?y = ?i"
      using valid nc by (cases rule: epoch_file) (auto simp: file_epoch_def y items_of_def stored_item_def)
    show "good_file ?y" by (simp add: good_file_def y) (simp add: p_def epoch_path_name)
  qed
  have old: "ids_in x \<inter> item_id ` set (items_of files ?i) = {}" if x: "x \<in> set files" "fst x \<noteq> p" for x
    using valid nc
  proof (cases rule: epoch_file)
    case (2 content items)
    then have "x \<noteq> (p, RegularFile content)" using x(2) by auto
    with ap x(1) 2 show ?thesis unfolding apart_def p_def items_of_def by (metis option.case(2))
  qed (simp add: items_of_def)
  have idsy: "ids_in ?y = insert (le_event_id e) (item_id ` set (items_of files ?i))"
    by (simp add: y stored_item_def)
  have "apart (set files')"
    unfolding apart_def set'
  proof (intro ballI impI)
    fix a b assume ab: "a \<in> insert ?y {x \<in> set files. fst x \<noteq> p}" "b \<in> insert ?y {x \<in> set files. fst x \<noteq> p}" "a \<noteq> b"
    have one: "ids_in x \<inter> ids_in ?y = {}" if "x \<in> set files" "fst x \<noteq> p" for x
      using old [OF that] fresh [OF that(1)] unfolding idsy by auto
    show "ids_in a \<inter> ids_in b = {}"
    proof (cases "a = ?y")
      case True
      with ab one [of b] show ?thesis by auto
    next
      case False
      with ab one [of a] ap show ?thesis unfolding apart_def by (cases "b = ?y") auto
    qed
  qed
  then have valid': "store_valid files'"
    using good goody keys unfolding store_valid_def list_all_iff
    by (auto simp: set') (auto simp: files'_def)
  moreover have "epoch_view files' i =
    (if i = ?i then Some (items_of files i @ [stored_item p n e line]) else epoch_view files i)" for i
  proof (rule option_eqI)
    fix its
    have named: "fst x = p" if "x \<in> set files" "file_epoch x = ?i" for x
      using good_file_name [OF good [OF that(1)]] that(2) by (simp add: p_def)
    have unnamed: "file_epoch x = ?i" if "x \<in> set files" "fst x = p" for x
      using nc that by (simp add: no_collision_def list_all_iff p_def)
    show "epoch_view files' i = Some its \<longleftrightarrow>
        (if i = ?i then Some (items_of files i @ [stored_item p n e line]) else epoch_view files i) = Some its"
    proof (cases "i = ?i")
      case True
      then show ?thesis unfolding view_Some [OF valid'] set' using named ep y by auto
    next
      case False
      have "(\<exists>x \<in> set files'. file_epoch x = i \<and> stored_in x = its) \<longleftrightarrow>
          (\<exists>x \<in> set files. file_epoch x = i \<and> stored_in x = its)"
        unfolding set' using False unnamed ep by blast
      with False show ?thesis by (simp add: view_Some [OF valid] view_Some [OF valid'])
    qed
  qed
  ultimately show ?thesis by blast
qed

text \<open>Under the lock, on a store that reads.\<close>

lemma last_sequence:
  assumes "items_ok name items" "items \<noteq> []"
  shows "le_sequence (se_event (last items)) = int (length items)"
proof -
  have "map (\<lambda>it. le_sequence (se_event it)) items = map (\<lambda>i. 1 + int i) [0..<length items]"
    using assms(1) by (simp add: items_ok_def)
  then have "last (map (\<lambda>it. le_sequence (se_event it)) items) = last (map (\<lambda>i. 1 + int i) [0..<length items])"
    by simp
  with assms(2) show ?thesis by (simp add: last_map of_nat_diff Suc_leI)
qed

lemma view_items_ok:
  assumes "store_valid files" "epoch_view files i = Some items"
  shows "items_ok (epoch_path i) items \<and> items \<noteq> []"
proof -
  obtain x where x: "x \<in> set files" "file_epoch x = i" "stored_in x = items"
    using assms view_Some by blast
  then have "good_file x" using assms(1) by (simp add: store_valid_def list_all_iff)
  with x stored_in_ok [of x] good_file_name [of x] show ?thesis by (auto simp: good_file_def)
qed

lemma decision_cases:
  assumes valid: "store_valid files" and "epoch_id = le_paper_epoch_id e"
  defines "idx \<equiv> (epoch_index (sort_key fst files), id_index (sort_key fst files))"
  shows "append_decision idx epoch_id e line = Inr APPENDED \<longleftrightarrow>
      (\<forall>x \<in> set files. le_event_id e \<notin> ids_in x) \<and>
      le_sequence e = 1 + int (length (items_of files epoch_id))"
    and "append_decision idx epoch_id e line = Inr ALREADY_EXISTS \<longleftrightarrow>
      (\<exists>x \<in> set files. \<exists>it \<in> set (stored_in x). item_id it = le_event_id e \<and> se_line it = line)"
proof -
  have none: "dict_get (snd idx) (le_event_id e) = None \<longleftrightarrow> (\<forall>x \<in> set files. le_event_id e \<notin> ids_in x)"
  proof -
    have "(\<exists>it. dict_get (snd idx) (le_event_id e) = Some it) \<longleftrightarrow> (\<exists>x \<in> set files. le_event_id e \<in> ids_in x)"
      unfolding idx_def snd_conv id_lookup [OF valid] image_iff by (metis (no_types))
    then show ?thesis by (cases "dict_get (snd idx) (le_event_id e)") auto
  qed
  have view: "dict_get (fst idx) epoch_id = epoch_view files epoch_id"
    using view_sorted [OF valid] by (simp add: idx_def)
  have expected: "(case epoch_view files epoch_id of None \<Rightarrow> 1 | Some [] \<Rightarrow> 1
      | Some items \<Rightarrow> le_sequence (se_event (last items)) + 1) = 1 + int (length (items_of files epoch_id))"
  proof (cases "epoch_view files epoch_id")
    case (Some items)
    then have "items \<noteq> []" "le_sequence (se_event (last items)) = int (length items)"
      using view_items_ok [OF valid] last_sequence by blast+
    with Some show ?thesis by (auto simp: items_of_def split: list.splits)
  qed (simp add: items_of_def)
  show "append_decision idx epoch_id e line = Inr APPENDED \<longleftrightarrow>
      (\<forall>x \<in> set files. le_event_id e \<notin> ids_in x) \<and>
      le_sequence e = 1 + int (length (items_of files epoch_id))"
    unfolding append_decision_def view expected none [symmetric] Let_def
    by (auto split: option.splits)
  show "append_decision idx epoch_id e line = Inr ALREADY_EXISTS \<longleftrightarrow>
      (\<exists>x \<in> set files. \<exists>it \<in> set (stored_in x). item_id it = le_event_id e \<and> se_line it = line)"
  proof (cases "dict_get (snd idx) (le_event_id e)")
    case None
    then have "\<not> (\<exists>x \<in> set files. \<exists>it \<in> set (stored_in x). item_id it = le_event_id e \<and> se_line it = line)"
      using none by (metis image_eqI)
    with None show ?thesis by (simp add: append_decision_def Let_def)
  next
    case (Some it)
    have uniq: "it' = it" if "x \<in> set files" "it' \<in> set (stored_in x)" "item_id it' = le_event_id e" for x it'
    proof -
      have "dict_get (snd idx) (le_event_id e) = Some it'"
        unfolding idx_def snd_conv using id_lookup [OF valid] that by blast
      with Some show ?thesis by simp
    qed
    obtain x where x: "x \<in> set files" "it \<in> set (stored_in x)" "item_id it = le_event_id e"
      using Some id_lookup [OF valid, of "le_event_id e"] unfolding idx_def by auto
    have "append_decision idx epoch_id e line = Inr ALREADY_EXISTS \<longleftrightarrow> se_line it = line"
      using Some by (simp add: append_decision_def)
    also have "\<dots> \<longleftrightarrow> (\<exists>x \<in> set files. \<exists>it \<in> set (stored_in x). item_id it = le_event_id e \<and> se_line it = line)"
      using uniq x by blast
    finally show ?thesis .
  qed
qed

text \<open>The epochs an event log holds, as \<^verbatim>\<open>load_epoch\<close> returns them.\<close>

definition logs :: "(string, entry) dict \<Rightarrow> string \<Rightarrow> ledger_event list" where
  "logs files i = map se_event (items_of files i)"

lemma load_logs:
  assumes "store_valid files" "i \<noteq> []"
  shows "load_epoch i (Some files) = (if logs files i = [] then Inl EpochNotFoundError else Inr (logs files i))"
  using load_valid [OF assms] view_items_ok [OF assms(1), of i]
  by (auto simp: logs_def items_of_def split: option.splits)

lemma canonical_line_epoch: "canonical_line e = Inr line \<Longrightarrow> le_paper_epoch_id e \<noteq> []"
  using canonical_event_ok by (simp add: event_ok_def)

text \<open>What an append does to a store that reads, whatever becomes of the write.\<close>

lemma append_outcomes:
  assumes valid: "store_valid files" and "epoch_id = le_paper_epoch_id e"
    and line: "canonical_line e = Inr line"
    and run: "append_event io epoch_id e (Some files) = (dir', res)"
  obtains err where "dir' = Some files" "res = Inl err" "err \<noteq> StoreOSError"
  | "dir' = Some files" "res = io_result io (result_of ALREADY_EXISTS e)"
      "\<exists>x \<in> set files. \<exists>it \<in> set (stored_in x). item_id it = le_event_id e \<and> se_line it = line"
  | "dir' = Some (durable_append io files (epoch_path epoch_id) line)" "res = io_result io (result_of APPENDED e)"
      "\<forall>x \<in> set files. le_event_id e \<notin> ids_in x" "le_sequence e = 1 + int (length (items_of files epoch_id))"
proof -
  let ?idx = "(epoch_index (sort_key fst files), id_index (sort_key fst files))"
  have "epoch_id \<noteq> []" using canonical_line_epoch [OF line] assms(2) by simp
  then have eq: "append_event io epoch_id e (Some files) =
      (case append_decision ?idx epoch_id e line of
         Inl err \<Rightarrow> (Some files, Inl err)
       | Inr ALREADY_EXISTS \<Rightarrow> (Some files, io_result io (result_of ALREADY_EXISTS e))
       | Inr APPENDED \<Rightarrow> (Some (durable_append io files (epoch_path epoch_id) line), io_result io (result_of APPENDED e)))"
    using line by (simp add: append_event_def valid_scan [OF valid] assms(2) [symmetric])
  show thesis
  proof (cases "append_decision ?idx epoch_id e line")
    case (Inl err)
    then have "err \<noteq> StoreOSError"
      by (auto simp: append_decision_def Let_def split: option.splits if_splits)
    with Inl run that(1) show thesis by (auto simp: eq)
  next
    case (Inr st)
    show thesis
    proof (cases st)
      case APPENDED
      with Inr run decision_cases(1) [OF valid assms(2), of line] that(3) show thesis by (auto simp: eq)
    next
      case ALREADY_EXISTS
      with Inr run decision_cases(2) [OF valid assms(2), of line] that(2) show thesis by (auto simp: eq)
    qed
  qed
qed

lemma append_written:
  assumes valid: "store_valid files" and nc: "no_collision files (le_paper_epoch_id e)"
    and line: "canonical_line e = Inr line" and wire: "event_wire_ok e"
    and fresh: "\<forall>x \<in> set files. le_event_id e \<notin> ids_in x"
    and seq: "le_sequence e = 1 + int (length (items_of files (le_paper_epoch_id e)))"
    and io: "io_text io line = line"
  defines "files' \<equiv> durable_append io files (epoch_path (le_paper_epoch_id e)) line"
  shows "store_valid files' \<and> logs files' =
    (logs files)(le_paper_epoch_id e := logs files (le_paper_epoch_id e) @ [in_order e])"
proof -
  obtain n where n: "store_valid files'" "\<And>i. epoch_view files' i =
    (if i = le_paper_epoch_id e then Some (items_of files i @ [stored_item (epoch_path (le_paper_epoch_id e)) n e line])
     else epoch_view files i)"
    using append_keeps_valid [OF valid nc line wire _ seq] fresh
    unfolding files'_def durable_append_def io by blast
  then have "logs files' i = ((logs files)(le_paper_epoch_id e := logs files (le_paper_epoch_id e) @ [in_order e])) i" for i
    by (simp add: logs_def items_of_def stored_item_def)
  with n(1) show ?thesis by auto
qed

text \<open>
  An appended event is there to load. On a store that reads, an append that reports
  \<open>APPENDED\<close> leaves a store that reads, in which the event's epoch has gained exactly this event
  at its end and every other epoch is as it was; one that reports \<open>ALREADY_EXISTS\<close> leaves the
  store untouched, and the event is in it.
\<close>

theorem append_then_load:
  assumes "store_valid files" and "no_collision files epoch_id" and "event_wire_ok e"
    and "append_event io epoch_id e (Some files) = (dir', Inr res)"
  shows "\<exists>files'. dir' = Some files' \<and> store_valid files' \<and>
    (ar_status res = APPENDED \<longrightarrow>
       load_epoch epoch_id dir' = Inr (logs files epoch_id @ [in_order e]) \<and>
       (\<forall>i. i \<noteq> epoch_id \<longrightarrow> load_epoch i dir' = load_epoch i (Some files))) \<and>
    (ar_status res = ALREADY_EXISTS \<longrightarrow> files' = files \<and> (\<exists>i. in_order e \<in> set (logs files i)))"
proof -
  have eid: "epoch_id = le_paper_epoch_id e" and "\<exists>line. canonical_line e = Inr line"
    using assms(4) by (auto simp: append_event_def split: if_splits sum.splits)
  then obtain line where line: "canonical_line e = Inr line" by blast
  have synced: "io = Synced" if "io_result io r = Inr res" for r :: append_result
    using that by (cases io) auto
  from assms(1) eid line assms(4) show ?thesis
  proof (cases rule: append_outcomes)
    case 2
    then obtain x it where x: "x \<in> set files" "it \<in> set (stored_in x)" "item_id it = le_event_id e" "se_line it = line"
      by blast
    have "decode_record (butlast line) = Inr (se_event it)"
      using stored_in_ok [of x] x(2,4) by (auto simp: items_ok_def list_all_iff)
    then have "se_event it = in_order e" using line_reads_back [OF line assms(3)] by simp
    moreover have "logs files (file_epoch x) = map se_event (stored_in x)"
      using view_Some [OF assms(1), of "file_epoch x" "stored_in x"] x(1) by (auto simp: logs_def items_of_def)
    ultimately have "\<exists>i. in_order e \<in> set (logs files i)" using x(2) by (metis image_eqI list.set_map)
    moreover have "io = Synced" using synced 2(2) by simp
    ultimately show ?thesis using 2(1,2) assms(1) by (auto simp: result_of_def)
  next
    case 3
    have io: "io = Synced" using synced 3(2) by simp
    let ?files = "durable_append io files (epoch_path epoch_id) line"
    have "store_valid ?files \<and> logs ?files = (logs files)(epoch_id := logs files epoch_id @ [in_order e])"
      using append_written [OF assms(1) _ line assms(3)] assms(2) 3(3,4) io eid by simp
    note new = this
    have "load_epoch i dir' = load_epoch i (Some files)" if "i \<noteq> epoch_id" for i
      using that 3(1) io load_logs [OF assms(1), of i] load_logs [of ?files i] new
      by (cases "i = []") (simp_all add: load_epoch_def)
    moreover have "load_epoch epoch_id dir' = Inr (logs files epoch_id @ [in_order e])"
      using 3(1) io load_logs [of ?files epoch_id] new canonical_line_epoch [OF line] eid by simp
    ultimately show ?thesis using 3(1,2) io new by (auto simp: result_of_def)
  qed simp
qed

lemma sample_append:
  "append_event io ''p1'' sample_lost_event (Some []) =
     (Some (durable_append io [] (epoch_path ''p1'') (case canonical_line sample_lost_event of Inr line \<Rightarrow> line | Inl _ \<Rightarrow> [])),
      io_result io (result_of APPENDED sample_lost_event))"
proof -
  obtain line where line: "canonical_line sample_lost_event = Inr line" using sample_line by blast
  moreover have "le_paper_epoch_id sample_lost_event = ''p1''" "le_sequence sample_lost_event = 1" by (simp_all add: sample_lost_event_def)
  ultimately show ?thesis by (simp add: append_event_def scan_store_def append_decision_def)
qed

lemma empty_store [simp]: "store_valid []" "no_collision [] i" "logs [] i = []"
  by (simp_all add: store_valid_def apart_def no_collision_def logs_def items_of_def epoch_view_def epoch_index_def)

theorem append_then_load_witness:
  "load_epoch ''p1'' (fst (append_event Synced ''p1'' sample_lost_event (Some []))) = Inr [sample_lost_event]"
  using append_then_load [of "[]" "''p1''" sample_lost_event Synced]
  by (simp add: sample_append sample_wire result_of_def)

section \<open>Writes that are cut off\<close>

lemma dict_set_same: "dict_get d k = Some v \<Longrightarrow> dict_set d k v = d"
  by (induction d) (auto simp: dict_set_def split: if_splits)

lemma scan_bad_file:
  assumes valid: "store_valid files" and bad: "read_epoch_file p c = Inl err" "is_epoch_name p"
  shows "scan_store (Some (dict_set files p (RegularFile c))) = Inl err"
proof -
  let ?files = "dict_set files p (RegularFile c)"
  have keys: "distinct (dict_keys files)" and good: "\<And>x. x \<in> set files \<Longrightarrow> good_file x"
    and ap: "apart (set files)" using valid by (simp_all add: store_valid_def list_all_iff)
  have set': "set (sort_key fst ?files) = insert (p, RegularFile c) {x \<in> set files. fst x \<noteq> p}"
    by (simp add: set_dict_set [OF keys])
  then have "(p, RegularFile c) \<in> set (sort_key fst ?files)" by (simp only: insertI1)
  from split_list [OF this] obtain xs ys where split: "sort_key fst ?files = xs @ (p, RegularFile c) # ys"
    by blast
  have dist: "distinct (map fst (xs @ (p, RegularFile c) # ys))"
    unfolding split [symmetric] by (rule distinct_sorted_keys [OF dict_distinct_set [OF keys]])
  have sub: "set xs \<subseteq> set files"
  proof
    fix x assume x: "x \<in> set xs"
    then have "x \<in> insert (p, RegularFile c) {x \<in> set files. fst x \<noteq> p}"
      unfolding set' [symmetric] split by simp
    moreover have "fst x \<noteq> p" using dist x by auto
    ultimately show "x \<in> set files" by auto
  qed
  have "distinct (map fst xs)" using dist by simp
  moreover have "list_all good_file xs" using sub good by (auto simp: list_all_iff)
  moreover have "apart (set xs)" using ap sub unfolding apart_def by (metis subsetD)
  moreover have "distinct xs" using \<open>distinct (map fst xs)\<close> by (simp only: distinct_map)
  ultimately have "foldE scan_entry ([], []) xs = Inr (epoch_index xs, id_index xs)"
    using distinct_items [of xs] distinct_epochs [of xs] by (simp add: scan_Inr)
  moreover have "scan_entry idx (p, RegularFile c) = Inl err" for idx
    using bad by (cases idx) (simp add: scan_entry_def)
  ultimately show ?thesis by (simp add: scan_store_def split foldE_append)
qed

lemma read_empty: "read_epoch_file p [] = Inl StoreCorruptionError"
  by (simp add: read_epoch_file_def)

text \<open>What loading gives after a cut-off write: what it gave before, or a refusal.\<close>

lemma load_after_cut:
  assumes valid: "store_valid files" and nc: "no_collision files (le_paper_epoch_id e)"
    and line: "canonical_line e = Inr line" and cut: "n < length line" and i: "i \<noteq> []"
  defines "files' \<equiv> durable_append (CutAfter n) files (epoch_path (le_paper_epoch_id e)) line"
  shows "load_epoch i (Some files') = load_epoch i (Some files) \<or>
    load_epoch i (Some files') = Inl StoreCorruptionError"
proof -
  let ?p = "epoch_path (le_paper_epoch_id e)"
  have files': "files' = dict_set files ?p (RegularFile (file_text files ?p @ take n line))"
    by (simp add: files'_def durable_append_def)
  have refused: ?thesis
    if "read_epoch_file ?p (file_text files ?p @ take n line) = Inl StoreCorruptionError"
  proof (cases "dict_get files' (epoch_path i) = None")
    case True
    then have "dict_get files (epoch_path i) = None" by (auto simp: files' split: if_splits)
    with True show ?thesis by (simp add: load_epoch_def)
  next
    case False
    have "scan_store (Some files') = Inl StoreCorruptionError"
      unfolding files' by (rule scan_bad_file [OF valid that epoch_path_name])
    with False i have "load_epoch i (Some files') = Inl StoreCorruptionError" by (simp add: load_epoch_def)
    then show ?thesis ..
  qed
  show ?thesis
  proof (cases "n = 0")
    case False
    then show ?thesis using file_cut [OF line _ cut] refused by blast
  next
    case True
    show ?thesis
      using valid nc
    proof (cases rule: epoch_file)
      case 1
      then show ?thesis using refused True read_empty by simp
    next
      case (2 content items)
      have "dict_get files ?p = Some (RegularFile content)" using 2(3) valid by (simp add: store_valid_def)
      then have "files' = files" using 2(4) True by (simp add: files' dict_set_same)
      then show ?thesis by simp
    qed
  qed
qed

text \<open>
  C40: The store never loses or alters history, whatever becomes of a write. After an append with
  a write that succeeds, is cut off anywhere, or fails to sync, every epoch loads as before, or,
  for the event's epoch, as before with this event at the end; otherwise the store refuses to
  load it as corrupt, and then the append had raised \<^verbatim>\<open>OSError\<close>.
\<close>

theorem append_never_loses:
  assumes "store_valid files" and "no_collision files epoch_id" and "event_wire_ok e" and "i \<noteq> []"
    and "append_event io epoch_id e (Some files) = (dir', res)"
  shows "load_epoch i dir' = load_epoch i (Some files) \<or>
    i = epoch_id \<and> load_epoch i dir' = Inr (logs files i @ [in_order e]) \<or>
    load_epoch i dir' = Inl StoreCorruptionError \<and> res = Inl StoreOSError"
proof (cases "epoch_id = le_paper_epoch_id e \<and> (\<exists>line. canonical_line e = Inr line)")
  case False
  then have "dir' = Some files" using assms(5) by (auto simp: append_event_def split: if_splits sum.splits)
  then show ?thesis by simp
next
  case True
  then obtain line where eid: "epoch_id = le_paper_epoch_id e" and line: "canonical_line e = Inr line" by blast
  from assms(1) eid line assms(5) show ?thesis
  proof (cases rule: append_outcomes)
    case 3
    show ?thesis
    proof (cases "io_text io line = line")
      case True
      let ?files = "durable_append io files (epoch_path epoch_id) line"
      have "store_valid ?files \<and> logs ?files = (logs files)(epoch_id := logs files epoch_id @ [in_order e])"
        using append_written [OF assms(1) _ line assms(3) _ _ True] assms(2) 3(3,4) eid by simp
      then show ?thesis
        using 3(1) load_logs [OF assms(1,4)] load_logs [of ?files i] assms(4) by auto
    next
      case False
      then obtain n where n: "io = CutAfter n" "n < length line"
        by (cases io) (auto simp: not_le [symmetric])
      with load_after_cut [OF assms(1) _ line n(2) assms(4)] assms(2) 3(1,2) eid show ?thesis by auto
    qed
  qed simp_all
qed

theorem append_never_loses_witness:
  "load_epoch ''p1'' (fst (append_event (CutAfter 5) ''p1'' sample_lost_event (Some []))) \<in>
     {Inl EpochNotFoundError, Inr [sample_lost_event], Inl StoreCorruptionError}"
  using append_never_loses [of "[]" "''p1''" sample_lost_event "''p1''" "CutAfter 5"]
  by (simp add: sample_append sample_wire load_epoch_def)

text \<open>Turning an event into its line never raises \<^verbatim>\<open>OSError\<close>.\<close>

abbreviation no_os :: "store_error + 'a \<Rightarrow> bool" where
  "no_os \<equiv> raises_only (\<lambda>err. err \<noteq> StoreOSError)"

lemma no_os_intros [simp]:
  "err \<noteq> StoreOSError \<Longrightarrow> no_os (require_number err v)" "err \<noteq> StoreOSError \<Longrightarrow> no_os (require_string err v)"
  by (auto simp: require_number_def require_string_def)

lemma no_os_each [simp]: "(\<And>x. no_os (f x)) \<Longrightarrow> no_os (each f xs)"
  by (induction xs) (auto intro: raises_only_bindE)

lemma no_os_payload [simp]: "no_os (jsonable v)" "no_os (jsonable_payload pl)"
proof -
  show "no_os (jsonable v)" for v by (cases v) simp_all
  then show "no_os (jsonable_payload pl)" by (induction pl) (auto intro!: raises_only_bindE)
qed

lemma no_os_validate [simp]: "err \<noteq> StoreOSError \<Longrightarrow> no_os (validate_payload err etype pl v ts)"
  unfolding validate_payload_def validate_replay_terms_def
  by (cases etype) (auto simp: validate_replay_terms_def intro!: raises_only_bindE simp del: each.simps)

lemma canonical_line_no_os: "canonical_line e \<noteq> Inl StoreOSError"
proof -
  have "no_os (canonical_line e)"
    unfolding canonical_line_def event_to_record_def by (auto intro!: raises_only_bindE)
  then show ?thesis by (auto dest: raises_onlyD)
qed

text \<open>
  A retried append is idempotent. After an append whose bytes reached the file, even if its
  sync failed and it raised, appending the same event again changes nothing and, once the sync
  succeeds, reports that the event exists.
\<close>

theorem append_retry:
  assumes "store_valid files" and "no_collision files epoch_id" and "event_wire_ok e"
    and "append_event io epoch_id e (Some files) = (Some files', res)"
    and "res = Inl StoreOSError \<and> io = SyncFailed \<or> (\<exists>r. res = Inr r)"
  shows "append_event Synced epoch_id e (Some files') = (Some files', Inr (result_of ALREADY_EXISTS e))"
proof -
  have "\<not> (epoch_id \<noteq> le_paper_epoch_id e \<or> (\<forall>line. canonical_line e \<noteq> Inr line))"
  proof
    assume "epoch_id \<noteq> le_paper_epoch_id e \<or> (\<forall>line. canonical_line e \<noteq> Inr line)"
    then show False
      using assms(4,5) canonical_line_no_os by (auto simp: append_event_def split: if_splits sum.splits)
  qed
  then obtain line where eid: "epoch_id = le_paper_epoch_id e" and line: "canonical_line e = Inr line" by auto
  have exists: ?thesis
    if "store_valid files'" "\<exists>x \<in> set files'. \<exists>it \<in> set (stored_in x). item_id it = le_event_id e \<and> se_line it = line"
  proof -
    have "append_decision (epoch_index (sort_key fst files'), id_index (sort_key fst files')) epoch_id e line =
      Inr ALREADY_EXISTS" using decision_cases(2) [OF that(1) eid] that(2) by blast
    then show ?thesis
      using line eid canonical_line_epoch [OF line] by (simp add: append_event_def valid_scan [OF that(1)])
  qed
  from assms(1) eid line assms(4) show ?thesis
  proof (cases rule: append_outcomes)
    case 1
    with assms(5) show ?thesis by auto
  next
    case 2
    with exists assms(1) show ?thesis by simp
  next
    case 3
    have io: "io_text io line = line" using assms(5) 3(2) by (cases io) auto
    have f: "files' = dict_set files (epoch_path (le_paper_epoch_id e))
        (RegularFile (file_text files (epoch_path (le_paper_epoch_id e)) @ line))"
      using 3(1) io eid by (simp add: durable_append_def)
    obtain n where valid': "store_valid files'" and view: "epoch_view files' epoch_id =
        Some (items_of files epoch_id @ [stored_item (epoch_path epoch_id) n e line])"
      using append_keeps_valid [OF assms(1) _ line assms(3)] assms(2) 3(3,4) eid unfolding f by fastforce
    then obtain x where "x \<in> set files'" "stored_item (epoch_path epoch_id) n e line \<in> set (stored_in x)"
      using view_Some [OF valid'] by fastforce
    then have "\<exists>x \<in> set files'. \<exists>it \<in> set (stored_in x). item_id it = le_event_id e \<and> se_line it = line"
      by (force simp: stored_item_def)
    with exists valid' show ?thesis by blast
  qed
qed

theorem append_retry_witness:
  "append_event Synced ''p1'' sample_lost_event (fst (append_event SyncFailed ''p1'' sample_lost_event (Some []))) =
     (fst (append_event SyncFailed ''p1'' sample_lost_event (Some [])), Inr (result_of ALREADY_EXISTS sample_lost_event))"
  using append_retry [of "[]" "''p1''" sample_lost_event SyncFailed]
  by (simp add: sample_append sample_wire)

end
