(* ===== verification/EpochLog.thy ===== *)
theory EpochLog
  imports EventStore
begin

text \<open>
  What the clients of the durable event store rely on, for one epoch: the log it holds, what
  loading returns, and what an append does to it.
\<close>

definition epoch_log :: "store_dir \<Rightarrow> string \<Rightarrow> ledger_event list" where
  "epoch_log dir i = (case dir of None \<Rightarrow> [] | Some files \<Rightarrow> logs files i)"

definition disk_ok :: "string \<Rightarrow> store_dir \<Rightarrow> bool" where
  "disk_ok i dir \<longleftrightarrow> (case dir of None \<Rightarrow> True | Some files \<Rightarrow> store_valid files \<and> no_collision files i)"

definition whole_io :: "append_io \<Rightarrow> bool" where
  "whole_io io \<longleftrightarrow> (case io of CutAfter _ \<Rightarrow> False | _ \<Rightarrow> True)"

lemma epoch_log_simps [simp]: "epoch_log None i = []" "epoch_log (Some files) i = logs files i"
  by (simp_all add: epoch_log_def)

lemma disk_ok_simps [simp]:
  "disk_ok i None" "disk_ok i (Some files) \<longleftrightarrow> store_valid files \<and> no_collision files i"
  by (simp_all add: disk_ok_def)

lemma load_disk:
  assumes "disk_ok i dir" "i \<noteq> []"
  shows "load_epoch i dir = (if epoch_log dir i = [] then Inl EpochNotFoundError else Inr (epoch_log dir i))"
proof (cases dir)
  case None
  with assms show ?thesis by (simp add: load_epoch_def epoch_log_def)
next
  case (Some files)
  with assms load_logs [of files i] show ?thesis by (simp add: epoch_log_def disk_ok_def)
qed

section \<open>The events of a log\<close>

lemma logged_items:
  assumes "disk_ok i dir"
  obtains items where "epoch_log dir i = map se_event items" "items_ok (epoch_path i) items"
    "\<And>it. it \<in> set items \<Longrightarrow> item_epoch it = i"
proof (cases "epoch_log dir i = []")
  case True
  then show ?thesis using that [of "[]"] by (simp add: items_ok_def)
next
  case False
  then obtain files items where f: "dir = Some files" "store_valid files" "epoch_view files i = Some items"
      "epoch_log dir i = map se_event items"
    using assms by (auto simp: epoch_log_def disk_ok_def logs_def items_of_def split: option.splits)
  obtain x where x: "x \<in> set files" "file_epoch x = i" "stored_in x = items"
    using f(2,3) view_Some by blast
  have ok: "items_ok (epoch_path i) items" using view_items_ok [OF f(2,3)] by simp
  with x have "item_epoch it = i" if "it \<in> set items" for it
    using that by (auto simp: items_ok_def file_epoch_def list_all_iff)
  with that f(4) ok show ?thesis by blast
qed

text \<open>Its events are numbered from 1, have different identifiers and the epoch's name.\<close>

lemma logged_events:
  assumes "disk_ok i dir"
  shows "map le_sequence (epoch_log dir i) = map (\<lambda>n. 1 + int n) [0..<length (epoch_log dir i)]"
    and "distinct (map le_event_id (epoch_log dir i))"
    and "e \<in> set (epoch_log dir i) \<Longrightarrow> event_ok e \<and> le_paper_epoch_id e = i"
proof -
  obtain items where items: "epoch_log dir i = map se_event items" "items_ok (epoch_path i) items"
    "\<And>it. it \<in> set items \<Longrightarrow> item_epoch it = i" using logged_items [OF assms] by blast
  show "map le_sequence (epoch_log dir i) = map (\<lambda>n. 1 + int n) [0..<length (epoch_log dir i)]"
    "distinct (map le_event_id (epoch_log dir i))"
    using items(1,2) by (simp_all add: items_ok_def comp_def)
  show "e \<in> set (epoch_log dir i) \<Longrightarrow> event_ok e \<and> le_paper_epoch_id e = i"
    using items by (auto simp: items_ok_def list_all_iff)
qed

lemma last_logged_sequence:
  assumes "disk_ok i dir" "epoch_log dir i \<noteq> []"
  shows "le_sequence (last (epoch_log dir i)) = int (length (epoch_log dir i))"
proof -
  let ?l = "epoch_log dir i"
  have "le_sequence (last ?l) = last (map le_sequence ?l)" using assms(2) by (simp add: last_map)
  also have "\<dots> = 1 + int (length ?l - 1)"
    using assms(2) logged_events(1) [OF assms(1)] by (simp add: last_map)
  finally show ?thesis using assms(2) by (cases ?l) simp_all
qed

section \<open>Appending to a log\<close>

lemma collision_kept:
  assumes "store_valid files" "no_collision files i" "store_valid files'"
    and "files' = dict_set files (epoch_path i) en" and "epoch_view files' i = Some items"
  shows "no_collision files' i"
proof -
  obtain x where x: "x \<in> set files'" "file_epoch x = i" using assms(3,5) view_Some by blast
  then have "fst x = epoch_path i" using good_file_name assms(3) by (fastforce simp: store_valid_def list_all_iff)
  moreover have "distinct (map fst files')" using assms(3) by (simp add: store_valid_def)
  ultimately have "y = x" if "y \<in> set files'" "fst y = epoch_path i" for y
    using that x(1) by (metis eq_key_imp_eq_value prod.collapse)
  then show ?thesis using x(2) by (auto simp: no_collision_def list_all_iff)
qed

lemma append_absent: "append_event io i e None = append_event io i e (Some []) \<or>
   (\<exists>err. append_event io i e None = (None, Inl err) \<and> append_event io i e (Some []) = (Some [], Inl err))"
  by (simp add: append_event_def Let_def split: sum.splits)

lemma same_epoch_item:
  assumes "store_valid files" "x \<in> set files" "it \<in> set (stored_in x)" "se_line it = line"
    and "canonical_line e = Inr line" "event_wire_ok e"
  shows "in_order e \<in> set (logs files (le_paper_epoch_id e))"
proof -
  have items: "items_ok (fst x) (stored_in x)" by (rule stored_in_ok)
  then have "decode_record (butlast line) = Inr (se_event it)"
    using assms(3,4) by (auto simp: items_ok_def list_all_iff)
  then have ev: "se_event it = in_order e" using line_reads_back [OF assms(5,6)] by simp
  then have "file_epoch x = le_paper_epoch_id e"
    using items assms(3) by (auto simp: items_ok_def list_all_iff file_epoch_def)
  then have "epoch_view files (le_paper_epoch_id e) = Some (stored_in x)"
    using view_Some [OF assms(1)] assms(2) by blast
  with ev assms(3) show ?thesis by (metis image_eqI items_of_def list.set_map logs_def option.simps(5))
qed

text \<open>What a write that is not cut off does to the log.\<close>

lemma append_files:
  assumes ok: "store_valid files" "no_collision files i" and wire: "event_wire_ok e" and whole: "whole_io io"
    and run: "append_event io i e (Some files) = (dir', res)"
  shows "disk_ok i dir' \<and>
    (epoch_log dir' i = logs files i \<and> ((\<exists>err. res = Inl err) \<or>
        res = Inr (result_of ALREADY_EXISTS e) \<and> in_order e \<in> set (logs files i)) \<or>
     epoch_log dir' i = logs files i @ [in_order e] \<and> le_event_id e \<notin> le_event_id ` set (logs files i) \<and>
        res = io_result io (result_of APPENDED e))"
proof (cases "i = le_paper_epoch_id e \<and> (\<exists>line. canonical_line e = Inr line)")
  case False
  then have "dir' = Some files \<and> (\<exists>err. res = Inl err)"
    using run by (auto simp: append_event_def split: if_splits sum.splits)
  then show ?thesis using ok by (auto simp: disk_ok_def epoch_log_def)
next
  case True
  then obtain line where i: "i = le_paper_epoch_id e" and line: "canonical_line e = Inr line" by blast
  have io: "io_text io line = line" using whole by (cases io) (simp_all add: whole_io_def)
  from ok(1) i line run show ?thesis
  proof (cases rule: append_outcomes)
    case 1
    then show ?thesis using ok by (auto simp: disk_ok_def epoch_log_def)
  next
    case 2
    then have "in_order e \<in> set (logs files i)" using same_epoch_item [OF ok(1)] line wire i by blast
    moreover have "res = Inr (result_of ALREADY_EXISTS e) \<or> (\<exists>err. res = Inl err)" using 2(2) by (cases io) auto
    ultimately show ?thesis using ok 2(1) by (auto simp: disk_ok_def epoch_log_def)
  next
    case 3
    let ?files = "durable_append io files (epoch_path i) line"
    have new: "store_valid ?files \<and> logs ?files = (logs files)(i := logs files i @ [in_order e])"
      using append_written [OF ok(1) _ line wire _ _ io] ok(2) 3(3,4) i by simp
    then have "epoch_view ?files i \<noteq> None"
      by (auto simp: logs_def items_of_def fun_eq_iff split: option.splits dest: spec [of _ i])
    then have "no_collision ?files i"
      using collision_kept [OF ok] new unfolding durable_append_def by blast
    moreover have "le_event_id e \<notin> le_event_id ` set (logs files i)"
    proof
      assume "le_event_id e \<in> le_event_id ` set (logs files i)"
      then obtain it items where "it \<in> set items" "epoch_view files i = Some items" "item_id it = le_event_id e"
        by (auto simp: logs_def items_of_def split: option.splits)
      then show False using 3(3) view_Some [OF ok(1)] by force
    qed
    ultimately show ?thesis using new 3(1,2) by (simp add: disk_ok_def epoch_log_def)
  qed
qed

lemma append_disk:
  assumes "disk_ok i dir" "event_wire_ok e" "whole_io io" "append_event io i e dir = (dir', res)"
  shows "disk_ok i dir' \<and>
    (epoch_log dir' i = epoch_log dir i \<and> ((\<exists>err. res = Inl err) \<or>
        res = Inr (result_of ALREADY_EXISTS e) \<and> in_order e \<in> set (epoch_log dir i)) \<or>
     epoch_log dir' i = epoch_log dir i @ [in_order e] \<and> le_event_id e \<notin> le_event_id ` set (epoch_log dir i) \<and>
        res = io_result io (result_of APPENDED e))"
proof (cases dir)
  case (Some files)
  with assms(1) have "store_valid files" "no_collision files i" by (simp_all add: disk_ok_def)
  from append_files [OF this assms(2,3)] assms(4) Some show ?thesis by simp
next
  case None
  show ?thesis
  proof (cases "append_event io i e None = append_event io i e (Some [])")
    case True
    with append_files [of "[]" i, OF _ _ assms(2,3)] assms(4) None show ?thesis by simp
  next
    case False
    with append_absent [of io i e] assms(4) None show ?thesis by (auto simp: disk_ok_def)
  qed
qed

end
