(* ===== verification/AuthorityManifest.thy ===== *)
theory AuthorityManifest
  imports EventStore
begin

text \<open>
  The manifest of an authoritative epoch (first half of
  \<^verbatim>\<open>paper_trading/ppl_authority_runtime.py\<close>): its checked construction, the three builders, the
  file it is written to once, and the reader that trusts nothing of that file. Messages are left
  out. A manifest file is the text its bytes decode to.
\<close>

section \<open>The manifest\<close>

datatype manifest_error =
    ManifestValueError string
  | ManifestOverflowError string
  | AuthorityManifestError string
  | ManifestFileExists
  | ManifestOSError

definition transition_role :: string where "transition_role = ''PPL_AUTHORITY_TRANSITION''"
definition experiment_role :: string where "experiment_role = ''F00_EXPERIMENT''"
definition burn_in_role :: string where "burn_in_role = ''BURN_IN_EXPERIMENT''"

text \<open>
  The two versions are compared with \<^verbatim>\<open>==\<close> only, so \<^verbatim>\<open>True\<close> or \<^verbatim>\<open>1.0\<close> pass for 1 and are kept.
\<close>

record authority_manifest =
  am_paper_epoch_id :: string
  am_created_at :: pyfloat
  am_initial_virtual_capital :: pyfloat
  am_code_sha :: string
  am_config_snapshot_hash :: string
  am_legacy_boundary_sha256 :: string
  am_legacy_event_count :: int
  am_predecessor_shadow :: string
  am_predecessor_authority :: string
  am_epoch_role :: string
  am_event_schema :: pyval
  am_manifest_schema :: pyval

text \<open>Keyword arguments, and the defaults of those that may be left out.\<close>

definition manifest_defaults :: "(string, pyval) dict" where
  "manifest_defaults =
     [(''predecessor_shadow_epoch_id'', VStr []), (''predecessor_authority_epoch_id'', VStr []),
      (''epoch_role'', VStr transition_role), (''ppl_event_schema_version'', VInt 2),
      (''manifest_schema_version'', VInt 1)]"

definition manifest_arg :: "(string, pyval) dict \<Rightarrow> string \<Rightarrow> pyval" where
  "manifest_arg kwargs k =
     (case dict_get kwargs k of Some v \<Rightarrow> v
      | None \<Rightarrow> (case dict_get manifest_defaults k of Some v \<Rightarrow> v | None \<Rightarrow> VNone))"

fun required_text :: "string \<Rightarrow> pyval \<Rightarrow> manifest_error + string" where
  "required_text k (VStr s) = (if py_strip s = [] then Inl (ManifestValueError k) else Inr s)"
| "required_text k _ = Inl (ManifestValueError k)"

fun optional_text :: "string \<Rightarrow> pyval \<Rightarrow> manifest_error + string" where
  "optional_text k (VStr s) = Inr s"
| "optional_text k _ = Inl (ManifestValueError k)"

text \<open>The role decides the version and which predecessor the manifest names.\<close>

definition check_role :: "pyval \<Rightarrow> pyval \<Rightarrow> string \<Rightarrow> string \<Rightarrow> string \<Rightarrow> manifest_error + string" where
  "check_role role schema eid shadow authority =
     (if role = VStr transition_role then
        bindE (raise_if (\<not> py_eq_int schema 1) (ManifestValueError ''manifest_schema_version'')) (\<lambda>_.
        bindE (raise_if (authority \<noteq> []) (ManifestValueError ''predecessor_authority_epoch_id'')) (\<lambda>_.
        bindE (raise_if (shadow \<noteq> [] \<and> shadow = eid) (ManifestValueError ''paper_epoch_id'')) (\<lambda>_.
          Inr transition_role)))
      else if role = VStr experiment_role \<or> role = VStr burn_in_role then
        bindE (raise_if (\<not> py_eq_int schema (if role = VStr experiment_role then 2 else 3))
                 (ManifestValueError ''manifest_schema_version'')) (\<lambda>_.
        bindE (raise_if (shadow \<noteq> []) (ManifestValueError ''predecessor_shadow_epoch_id'')) (\<lambda>_.
        bindE (raise_if (py_strip authority = []) (ManifestValueError ''predecessor_authority_epoch_id'')) (\<lambda>_.
        bindE (raise_if (authority = eid) (ManifestValueError ''paper_epoch_id'')) (\<lambda>_.
          Inr (if role = VStr experiment_role then experiment_role else burn_in_role)))))
      else Inl (ManifestValueError ''epoch_role''))"

definition manifest_number :: "string \<Rightarrow> pyval \<Rightarrow> manifest_error + pyfloat" where
  "manifest_number k v =
     bindE (raise_if (\<not> is_number v) (ManifestValueError k)) (\<lambda>_.
     bindE (or_raise (ManifestOverflowError k) (float_of_number v)) (\<lambda>x.
     bindE (raise_if (\<not> fl_finite x) (ManifestValueError k)) (\<lambda>_.
     bindE (raise_if (k = ''initial_virtual_capital'' \<and> fl_le x (Fin 0)) (ManifestValueError k)) (\<lambda>_.
       Inr x))))"

definition new_manifest :: "(string, pyval) dict \<Rightarrow> manifest_error + authority_manifest" where
  "new_manifest kwargs =
     (let get = manifest_arg kwargs in
     bindE (required_text ''paper_epoch_id'' (get ''paper_epoch_id'')) (\<lambda>eid.
     bindE (required_text ''code_sha'' (get ''code_sha'')) (\<lambda>sha.
     bindE (required_text ''config_snapshot_hash'' (get ''config_snapshot_hash'')) (\<lambda>conf.
     bindE (required_text ''legacy_boundary_sha256'' (get ''legacy_boundary_sha256'')) (\<lambda>boundary.
     bindE (optional_text ''predecessor_shadow_epoch_id'' (get ''predecessor_shadow_epoch_id'')) (\<lambda>shadow.
     bindE (optional_text ''predecessor_authority_epoch_id'' (get ''predecessor_authority_epoch_id'')) (\<lambda>authority.
     bindE (check_role (get ''epoch_role'') (get ''manifest_schema_version'') eid shadow authority) (\<lambda>role.
     bindE (raise_if (\<not> py_eq_int (get ''ppl_event_schema_version'') 2)
              (ManifestValueError ''ppl_event_schema_version'')) (\<lambda>_.
     bindE (or_raise (ManifestValueError ''legacy_event_count'') (strict_int (get ''legacy_event_count''))) (\<lambda>count.
     bindE (raise_if (count < 0) (ManifestValueError ''legacy_event_count'')) (\<lambda>_.
     bindE (manifest_number ''created_at'' (get ''created_at'')) (\<lambda>created.
     bindE (manifest_number ''initial_virtual_capital'' (get ''initial_virtual_capital'')) (\<lambda>capital.
       Inr \<lparr>am_paper_epoch_id = eid, am_created_at = created, am_initial_virtual_capital = capital,
            am_code_sha = sha, am_config_snapshot_hash = conf, am_legacy_boundary_sha256 = boundary,
            am_legacy_event_count = count, am_predecessor_shadow = shadow,
            am_predecessor_authority = authority, am_epoch_role = role,
            am_event_schema = get ''ppl_event_schema_version'',
            am_manifest_schema = get ''manifest_schema_version''\<rparr>)))))))))))))"

section \<open>Building a manifest at a quiet boundary\<close>

record quiescence =
  qu_open_positions :: int
  qu_pending_orders :: int
  qu_transitions_in_flight :: int
  qu_process_stopped :: bool

definition quiescent :: "quiescence \<Rightarrow> bool" where
  "quiescent q \<longleftrightarrow> qu_process_stopped q \<and> qu_open_positions q = 0 \<and> qu_pending_orders q = 0 \<and>
     qu_transitions_in_flight q = 0"

definition count_nonempty_lines :: "string \<Rightarrow> nat" where
  "count_nonempty_lines raw = length (filter (\<lambda>line. \<not> is_blank line) (split_lines [] raw))"

text \<open>The arguments the three builders share.\<close>

record boundary =
  bo_paper_epoch_id :: pyval
  bo_created_at :: pyval
  bo_initial_virtual_capital :: pyval
  bo_code_sha :: pyval
  bo_config_snapshot_hash :: pyval
  bo_legacy_log :: string
  bo_quiescence :: quiescence

definition boundary_args :: "boundary \<Rightarrow> (string, pyval) dict" where
  "boundary_args b =
     [(''paper_epoch_id'', bo_paper_epoch_id b), (''created_at'', bo_created_at b),
      (''initial_virtual_capital'', bo_initial_virtual_capital b), (''code_sha'', bo_code_sha b),
      (''config_snapshot_hash'', bo_config_snapshot_hash b),
      (''legacy_boundary_sha256'', VStr (sha256_hex (bo_legacy_log b))),
      (''legacy_event_count'', VInt (int (count_nonempty_lines (bo_legacy_log b))))]"

definition build_cutover_manifest :: "boundary \<Rightarrow> pyval \<Rightarrow> manifest_error + authority_manifest" where
  "build_cutover_manifest b shadow =
     bindE (raise_if (\<not> quiescent (bo_quiescence b)) (AuthorityManifestError ''quiescence'')) (\<lambda>_.
       new_manifest (boundary_args b @ [(''predecessor_shadow_epoch_id'', shadow)]))"

definition build_experiment_manifest :: "boundary \<Rightarrow> pyval \<Rightarrow> manifest_error + authority_manifest" where
  "build_experiment_manifest b authority =
     bindE (raise_if (\<not> quiescent (bo_quiescence b)) (AuthorityManifestError ''quiescence'')) (\<lambda>_.
       new_manifest (boundary_args b @
         [(''predecessor_authority_epoch_id'', authority), (''epoch_role'', VStr experiment_role),
          (''manifest_schema_version'', VInt 2)]))"

definition build_burn_in_experiment_manifest :: "boundary \<Rightarrow> pyval \<Rightarrow> manifest_error + authority_manifest" where
  "build_burn_in_experiment_manifest b authority =
     bindE (raise_if (\<not> quiescent (bo_quiescence b)) (AuthorityManifestError ''quiescence'')) (\<lambda>_.
       new_manifest (boundary_args b @
         [(''predecessor_authority_epoch_id'', authority), (''epoch_role'', VStr burn_in_role),
          (''manifest_schema_version'', VInt 3)]))"

section \<open>The manifest file\<close>

datatype manifest_file = NoFile | RegularText string | NotRegular

definition manifest_fields :: "authority_manifest \<Rightarrow> (string \<times> pyjson) list" where
  "manifest_fields m =
     [(''manifest_schema_version'', json_of (am_manifest_schema m)),
      (''paper_epoch_id'', JStr (am_paper_epoch_id m)), (''created_at'', JFloat (am_created_at m)),
      (''initial_virtual_capital'', JFloat (am_initial_virtual_capital m)),
      (''code_sha'', JStr (am_code_sha m)), (''config_snapshot_hash'', JStr (am_config_snapshot_hash m)),
      (''legacy_boundary_sha256'', JStr (am_legacy_boundary_sha256 m)),
      (''legacy_event_count'', JInt (am_legacy_event_count m)), (''epoch_role'', JStr (am_epoch_role m)),
      (''ppl_event_schema_version'', json_of (am_event_schema m))] @
     (if am_epoch_role m = transition_role
      then [(''predecessor_shadow_epoch_id'', JStr (am_predecessor_shadow m))]
      else [(''predecessor_authority_epoch_id'', JStr (am_predecessor_authority m))])"

text \<open>
  The file is created exclusively. When writing or syncing it fails it is removed again; \<open>io\<close>
  says whether it succeeds.
\<close>

definition write_authority_manifest ::
  "bool \<Rightarrow> manifest_file \<Rightarrow> authority_manifest \<Rightarrow> manifest_file \<times> (manifest_error + unit)" where
  "write_authority_manifest io target m =
     (if am_epoch_role m \<notin> {transition_role, experiment_role, burn_in_role}
      then (target, Inl (AuthorityManifestError ''epoch_role''))
      else if \<not> all_finite (JObj (manifest_fields m)) then (target, Inl (ManifestValueError ''json''))
      else if target \<noteq> NoFile then (target, Inl ManifestFileExists)
      else if io then (RegularText (dump_with '' '' (JObj (manifest_fields m)) @ [CHR 0x0A]), Inr ())
      else (NoFile, Inl ManifestOSError))"

definition manifest_common_fields :: "string list" where
  "manifest_common_fields =
     [''manifest_schema_version'', ''paper_epoch_id'', ''created_at'', ''initial_virtual_capital'',
      ''code_sha'', ''config_snapshot_hash'', ''legacy_boundary_sha256'', ''legacy_event_count'',
      ''epoch_role'', ''ppl_event_schema_version'']"

text \<open>
  A field of the file as an argument of the constructor. A list or an object fails there exactly
  as \<^verbatim>\<open>None\<close> does.
\<close>

definition json_arg :: "(string \<times> pyjson) list \<Rightarrow> string \<Rightarrow> pyval" where
  "json_arg kvs k = (case scalar_of (json_field_of kvs k) of Some v \<Rightarrow> v | None \<Rightarrow> VNone)"

definition predecessor_field :: "(string \<times> pyjson) list \<Rightarrow> manifest_error + string" where
  "predecessor_field kvs =
     (let role = json_arg kvs ''epoch_role''; schema = json_arg kvs ''manifest_schema_version'' in
      if role = VStr transition_role \<and> py_eq_int schema 1 then Inr ''predecessor_shadow_epoch_id''
      else if role = VStr experiment_role \<and> py_eq_int schema 2 then Inr ''predecessor_authority_epoch_id''
      else if role = VStr burn_in_role \<and> py_eq_int schema 3 then Inr ''predecessor_authority_epoch_id''
      else Inl (AuthorityManifestError ''role or schema''))"

text \<open>Only \<^verbatim>\<open>TypeError\<close> and \<^verbatim>\<open>ValueError\<close> of the constructor are caught.\<close>

fun manifest_values_error :: "manifest_error \<Rightarrow> manifest_error" where
  "manifest_values_error (ManifestValueError k) = AuthorityManifestError k"
| "manifest_values_error err = err"

definition load_authority_manifest :: "manifest_file \<Rightarrow> manifest_error + authority_manifest" where
  "load_authority_manifest target =
     (case target of
        NoFile \<Rightarrow> Inl (AuthorityManifestError ''missing'')
      | NotRegular \<Rightarrow> Inl (AuthorityManifestError ''not regular'')
      | RegularText t \<Rightarrow>
          (case loads dict_hook t of
             Some (JObj kvs) \<Rightarrow>
               bindE (predecessor_field kvs) (\<lambda>pred.
               bindE (raise_if (set (map fst kvs) \<noteq> insert pred (set manifest_common_fields))
                        (AuthorityManifestError ''fields'')) (\<lambda>_.
                 lift_error manifest_values_error
                   (new_manifest (map (\<lambda>k. (k, json_arg kvs k)) (manifest_common_fields @ [pred])))))
           | _ \<Rightarrow> Inl (AuthorityManifestError ''not an object'')))"

section \<open>Event identities\<close>

definition event_domain_and_prefix :: "authority_manifest \<Rightarrow> (string \<times> string) option" where
  "event_domain_and_prefix m =
     (if am_epoch_role m = transition_role then Some (''PPL-02E-R4-AUTHORITY-V1'', ''ppl02e'')
      else if am_epoch_role m = experiment_role then Some (''F00-EPOCH-AUTHORITY-V1'', ''f00'')
      else if am_epoch_role m = burn_in_role then Some (''BURN-IN-EPOCH-AUTHORITY-V1'', ''burnin'')
      else None)"

fun join :: "string \<Rightarrow> string list \<Rightarrow> string" where
  "join sep [] = []"
| "join sep [x] = x"
| "join sep (x # y # xs) = x @ sep @ join sep (y # xs)"

definition authority_event_id :: "authority_manifest \<Rightarrow> ledger_event_type \<Rightarrow> string \<Rightarrow> string option" where
  "authority_event_id m etype tid =
     map_option (\<lambda>(domain, prefix). prefix @ ''-'' @
         sha256_hex (utf8 (join [CHR 0x1F] [domain, am_paper_epoch_id m, event_type_value etype, tid])))
       (event_domain_and_prefix m)"

section \<open>What the constructor promises\<close>

definition role_ok :: "authority_manifest \<Rightarrow> bool" where
  "role_ok m \<longleftrightarrow>
     (if am_epoch_role m = transition_role then
        py_eq_int (am_manifest_schema m) 1 \<and> am_predecessor_authority m = [] \<and>
        (am_predecessor_shadow m \<noteq> [] \<longrightarrow> am_predecessor_shadow m \<noteq> am_paper_epoch_id m)
      else am_epoch_role m \<in> {experiment_role, burn_in_role} \<and>
        py_eq_int (am_manifest_schema m) (if am_epoch_role m = experiment_role then 2 else 3) \<and>
        am_predecessor_shadow m = [] \<and> py_strip (am_predecessor_authority m) \<noteq> [] \<and>
        am_predecessor_authority m \<noteq> am_paper_epoch_id m)"

definition manifest_ok :: "authority_manifest \<Rightarrow> bool" where
  "manifest_ok m \<longleftrightarrow>
     list_all (\<lambda>s. py_strip s \<noteq> [])
       [am_paper_epoch_id m, am_code_sha m, am_config_snapshot_hash m, am_legacy_boundary_sha256 m] \<and>
     role_ok m \<and> py_eq_int (am_event_schema m) 2 \<and> 0 \<le> am_legacy_event_count m \<and>
     fl_finite (am_created_at m) \<and> fl_finite (am_initial_virtual_capital m) \<and>
     fl_lt (Fin 0) (am_initial_virtual_capital m)"

lemma required_text_Inr [simp]: "required_text k v = Inr s \<longleftrightarrow> v = VStr s \<and> py_strip s \<noteq> []"
  by (cases v) auto

lemma optional_text_Inr [simp]: "optional_text k v = Inr s \<longleftrightarrow> v = VStr s"
  by (cases v) auto

lemma roles_distinct [simp]:
  "transition_role \<noteq> experiment_role" "transition_role \<noteq> burn_in_role" "experiment_role \<noteq> burn_in_role"
  "experiment_role \<noteq> transition_role" "burn_in_role \<noteq> transition_role" "burn_in_role \<noteq> experiment_role"
  by (simp_all add: transition_role_def experiment_role_def burn_in_role_def)

lemma check_role_Inr:
  "check_role role schema eid shadow authority = Inr r \<longleftrightarrow> role = VStr r \<and>
     (if r = transition_role then py_eq_int schema 1 \<and> authority = [] \<and> (shadow \<noteq> [] \<longrightarrow> shadow \<noteq> eid)
      else r \<in> {experiment_role, burn_in_role} \<and>
        py_eq_int schema (if r = experiment_role then 2 else 3) \<and>
        shadow = [] \<and> py_strip authority \<noteq> [] \<and> authority \<noteq> eid)"
  by (auto simp: check_role_def bindE_eq_Inr)

lemma manifest_number_Inr:
  "manifest_number k v = Inr x \<longleftrightarrow> is_number v \<and> float_of_number v = Some x \<and> fl_finite x \<and>
     (k = ''initial_virtual_capital'' \<longrightarrow> fl_lt (Fin 0) x)"
  by (cases x) (auto simp: manifest_number_def bindE_eq_Inr not_le)

lemma strict_int_Some: "strict_int v = Some n \<longleftrightarrow> v = VInt n"
  by (cases v) auto

lemma new_manifest_Inr:
  "new_manifest kwargs = Inr m \<longleftrightarrow> manifest_ok m \<and>
     list_all (\<lambda>(k, v). manifest_arg kwargs k = v)
       [(''paper_epoch_id'', VStr (am_paper_epoch_id m)), (''code_sha'', VStr (am_code_sha m)),
        (''config_snapshot_hash'', VStr (am_config_snapshot_hash m)),
        (''legacy_boundary_sha256'', VStr (am_legacy_boundary_sha256 m)),
        (''predecessor_shadow_epoch_id'', VStr (am_predecessor_shadow m)),
        (''predecessor_authority_epoch_id'', VStr (am_predecessor_authority m)),
        (''epoch_role'', VStr (am_epoch_role m)), (''ppl_event_schema_version'', am_event_schema m),
        (''manifest_schema_version'', am_manifest_schema m),
        (''legacy_event_count'', VInt (am_legacy_event_count m))] \<and>
     list_all (\<lambda>(k, x). is_number (manifest_arg kwargs k) \<and> float_of_number (manifest_arg kwargs k) = Some x)
       [(''created_at'', am_created_at m), (''initial_virtual_capital'', am_initial_virtual_capital m)]"
(is "?l \<longleftrightarrow> ?r")
proof
  assume ?l
  then show ?r
    unfolding new_manifest_def Let_def bindE_eq_Inr required_text_Inr optional_text_Inr check_role_Inr
      raise_if_eq_Inr or_raise_eq_Inr manifest_number_Inr strict_int_Some
    by (elim exE conjE) (clarsimp simp: manifest_ok_def role_ok_def; simp split: if_splits)
next
  assume r: ?r
  then have "role_ok m" by (simp add: manifest_ok_def)
  then have "check_role (VStr (am_epoch_role m)) (am_manifest_schema m) (am_paper_epoch_id m)
      (am_predecessor_shadow m) (am_predecessor_authority m) = Inr (am_epoch_role m)"
    unfolding check_role_Inr role_ok_def by (rule conjI [OF refl])
  moreover have "manifest_number ''created_at'' (manifest_arg kwargs ''created_at'') = Inr (am_created_at m)"
    "manifest_number ''initial_virtual_capital'' (manifest_arg kwargs ''initial_virtual_capital'') =
       Inr (am_initial_virtual_capital m)"
    using r by (simp_all add: manifest_number_Inr manifest_ok_def)
  ultimately show ?l using r unfolding new_manifest_def Let_def by (simp add: manifest_ok_def)
qed

section \<open>A written manifest reads back\<close>

definition manifest_doubles :: "authority_manifest \<Rightarrow> bool" where
  "manifest_doubles m \<longleftrightarrow> fl_double (am_created_at m) \<and> fl_double (am_initial_virtual_capital m)"

lemma py_eq_int_json: "py_eq_int v n \<Longrightarrow> \<bar>n\<bar> \<le> 2 ^ 53 \<Longrightarrow> json_ok (json_of v) \<and> all_finite (json_of v)"
  using is_double_of_int [of n] by (cases v rule: json_of.cases; cases n) (auto simp: fl_double_def elim: py_eq_int.elims)

lemma manifest_json:
  assumes "manifest_ok m" "manifest_doubles m"
  shows "json_ok (JObj (manifest_fields m))" "all_finite (JObj (manifest_fields m))"
proof -
  have v: "json_ok (json_of (am_event_schema m)) \<and> all_finite (json_of (am_event_schema m))"
    using py_eq_int_json [of _ 2] assms(1) by (simp add: manifest_ok_def)
  have w: "json_ok (json_of (am_manifest_schema m)) \<and> all_finite (json_of (am_manifest_schema m))"
    using py_eq_int_json [of _ 1] py_eq_int_json [of _ 2] py_eq_int_json [of _ 3] assms(1)
    by (auto simp: manifest_ok_def role_ok_def split: if_splits)
  show "json_ok (JObj (manifest_fields m))" "all_finite (JObj (manifest_fields m))"
    using assms v w by (simp_all add: manifest_fields_def manifest_doubles_def manifest_ok_def)
qed

definition pred_key :: "authority_manifest \<Rightarrow> string" where
  "pred_key m = (if am_epoch_role m = transition_role then ''predecessor_shadow_epoch_id''
     else ''predecessor_authority_epoch_id'')"

lemma manifest_fields_keys:
  "set (map fst (manifest_fields m)) = insert (pred_key m) (set manifest_common_fields)"
  "distinct (map fst (manifest_fields m))"
  by (auto simp: manifest_fields_def manifest_common_fields_def pred_key_def)

lemma canon_manifest: "canon (JObj (manifest_fields m)) = JObj (sort_key fst (manifest_fields m))"
  by (simp add: manifest_fields_def)

lemma manifest_args:
  "map (json_arg (sort_key fst (manifest_fields m)))
     [''paper_epoch_id'', ''code_sha'', ''config_snapshot_hash'', ''legacy_boundary_sha256'', ''epoch_role'',
      ''ppl_event_schema_version'', ''manifest_schema_version'', ''legacy_event_count'', ''created_at'',
      ''initial_virtual_capital''] =
   [VStr (am_paper_epoch_id m), VStr (am_code_sha m), VStr (am_config_snapshot_hash m),
    VStr (am_legacy_boundary_sha256 m), VStr (am_epoch_role m), am_event_schema m, am_manifest_schema m,
    VInt (am_legacy_event_count m), VFloat (am_created_at m), VFloat (am_initial_virtual_capital m)]"
  "json_arg (sort_key fst (manifest_fields m)) (pred_key m) =
     VStr (if am_epoch_role m = transition_role then am_predecessor_shadow m else am_predecessor_authority m)"
  by (simp_all add: json_arg_def json_field_sorted manifest_fields_keys)
    (simp_all add: json_field_of_def manifest_fields_def pred_key_def
      flip: json_of.simps)

lemma manifest_rebuilt:
  assumes "manifest_ok m"
  shows "new_manifest (map (\<lambda>k. (k, json_arg (sort_key fst (manifest_fields m)) k))
    (manifest_common_fields @ [pred_key m])) = Inr m"
  unfolding new_manifest_Inr
  using assms manifest_args [of m]
  by (simp add: manifest_arg_def manifest_common_fields_def pred_key_def manifest_defaults_def
      manifest_ok_def role_ok_def split: if_splits)

text \<open>
  A manifest survives its file, and the file is never replaced. Every manifest the constructor
  accepts is written whole to a path that is free, and what was written loads as the same
  manifest, whatever its role. A path that is taken keeps what it has, and a write that fails
  leaves no file.
\<close>

theorem manifest_roundtrip:
  assumes "new_manifest kwargs = Inr m" and "manifest_doubles m"
  shows "(\<exists>t. write_authority_manifest True NoFile m = (RegularText t, Inr ()) \<and>
       load_authority_manifest (RegularText t) = Inr m) \<and>
     fst (write_authority_manifest False NoFile m) = NoFile \<and>
     (target = NoFile \<or> write_authority_manifest io target m = (target, Inl ManifestFileExists))"
proof -
  have ok: "manifest_ok m" using assms(1) by (simp add: new_manifest_Inr)
  note json = manifest_json [OF ok assms(2)]
  let ?kvs = "sort_key fst (manifest_fields m)"
  let ?t = "dump_with '' '' (JObj (manifest_fields m)) @ [CHR 0x0A]"
  have role: "am_epoch_role m \<in> {transition_role, experiment_role, burn_in_role}"
    using ok by (auto simp: manifest_ok_def role_ok_def split: if_splits)
  have loaded: "loads dict_hook ?t = Some (JObj ?kvs)"
    using spaced.loads_dump_ws [OF json(1), of "[CHR 0x0A]"] by (simp add: canon_manifest is_ws_def del: canon.simps)
  have "predecessor_field ?kvs = Inr (pred_key m)"
    using ok manifest_args(1) [of m]
    by (auto simp: predecessor_field_def pred_key_def manifest_ok_def role_ok_def Let_def split: if_splits)
  then have "load_authority_manifest (RegularText ?t) = Inr m"
    using loaded manifest_rebuilt [OF ok] manifest_fields_keys
    by (simp add: load_authority_manifest_def)
  with role json(2) show ?thesis
    by (simp add: write_authority_manifest_def del: all_finite.simps)
qed

definition sample_args :: "(string, pyval) dict" where
  "sample_args =
     [(''paper_epoch_id'', VStr ''E''), (''created_at'', VInt 0), (''initial_virtual_capital'', VInt 1000),
      (''code_sha'', VStr ''c''), (''config_snapshot_hash'', VStr ''h''),
      (''legacy_boundary_sha256'', VStr ''b''), (''legacy_event_count'', VInt 0)]"

definition sample_manifest :: authority_manifest where
  "sample_manifest = \<lparr>am_paper_epoch_id = ''E'', am_created_at = Fin 0, am_initial_virtual_capital = Fin 1000,
     am_code_sha = ''c'', am_config_snapshot_hash = ''h'', am_legacy_boundary_sha256 = ''b'',
     am_legacy_event_count = 0, am_predecessor_shadow = [], am_predecessor_authority = [],
     am_epoch_role = transition_role, am_event_schema = VInt 2, am_manifest_schema = VInt 1\<rparr>"

lemma sample_strips [simp]:
  "py_strip ''E'' = ''E''" "py_strip ''c'' = ''c''" "py_strip ''h'' = ''h''" "py_strip ''b'' = ''b''"
  by (simp_all add: py_strip_id is_space_def)

lemma sample_manifest_built: "new_manifest sample_args = Inr sample_manifest" "manifest_doubles sample_manifest"
proof -
  have "float_of_number (VInt 1000) = Some (Fin 1000)" by simp
  then show "new_manifest sample_args = Inr sample_manifest"
    by (simp add: new_manifest_def sample_args_def sample_manifest_def manifest_arg_def manifest_defaults_def
        check_role_def manifest_number_def)
  show "manifest_doubles sample_manifest"
    using is_double_of_int [of 1000] by (simp add: manifest_doubles_def sample_manifest_def fl_double_def)
qed

theorem manifest_roundtrip_witness:
  "\<exists>t. write_authority_manifest True NoFile sample_manifest = (RegularText t, Inr ()) \<and>
     load_authority_manifest (RegularText t) = Inr sample_manifest"
  using manifest_roundtrip [OF sample_manifest_built] by blast

section \<open>What the reader refuses\<close>

definition manifest_refusal :: "manifest_error \<Rightarrow> bool" where
  "manifest_refusal err \<longleftrightarrow> (case err of ManifestValueError _ \<Rightarrow> True | ManifestOverflowError k \<Rightarrow>
     k \<in> {''created_at'', ''initial_virtual_capital''} | _ \<Rightarrow> False)"

lemma new_manifest_refuses: "raises_only manifest_refusal (new_manifest kwargs)"
proof -
  have "raises_only manifest_refusal (required_text k v)" "raises_only manifest_refusal (optional_text k v)" for k v
    by (cases v; simp add: manifest_refusal_def)+
  moreover have "raises_only manifest_refusal (check_role r s i a b)" for r s i a b
    by (auto simp: check_role_def manifest_refusal_def intro!: raises_only_bindE)
  moreover have "raises_only manifest_refusal (manifest_number ''created_at'' v)"
    "raises_only manifest_refusal (manifest_number ''initial_virtual_capital'' v)" for v
    by (auto simp: manifest_number_def manifest_refusal_def intro!: raises_only_bindE)
  moreover have "manifest_refusal (ManifestValueError k)" for k by (simp add: manifest_refusal_def)
  ultimately show ?thesis
    unfolding new_manifest_def Let_def by (intro raises_only_bindE) simp_all
qed

text \<open>A manifest file whose creation time is an integer beyond the range of floats.\<close>

definition far_fields :: "(string \<times> pyjson) list" where
  "far_fields = AList.update ''created_at'' (JInt (2 ^ 1024)) (manifest_fields sample_manifest)"

lemma far_manifest:
  "load_authority_manifest (RegularText (dump_with '' '' (JObj far_fields))) = Inl (ManifestOverflowError ''created_at'')"
proof -
  have ok: "json_ok (JObj far_fields)" "canon (JObj far_fields) = JObj (sort_key fst far_fields)"
    "set (map fst far_fields) = insert ''predecessor_shadow_epoch_id'' (set manifest_common_fields)"
    and d: "distinct (map fst far_fields)"
    by (auto simp: far_fields_def manifest_fields_def sample_manifest_def fl_double_def is_double_def
        manifest_common_fields_def)
  have get: "json_arg (sort_key fst far_fields) = json_arg far_fields"
    by (simp add: json_arg_def json_field_sorted [OF d] fun_eq_iff)
  have args: "map (json_arg far_fields) (manifest_common_fields @ [''predecessor_shadow_epoch_id'']) =
     [VInt 1, VStr ''E'', VInt (2 ^ 1024), VFloat (Fin 1000), VStr ''c'', VStr ''h'', VStr ''b'', VInt 0,
      VStr transition_role, VInt 2, VStr []]"
    by (simp add: json_arg_def json_field_of_def far_fields_def manifest_fields_def sample_manifest_def
        manifest_common_fields_def)
  let ?kw = "map (\<lambda>k. (k, json_arg far_fields k)) (manifest_common_fields @ [''predecessor_shadow_epoch_id''])"
  have "predecessor_field (sort_key fst far_fields) = Inr ''predecessor_shadow_epoch_id''"
    using args by (simp add: predecessor_field_def get manifest_common_fields_def)
  moreover have "new_manifest ?kw = Inl (ManifestOverflowError ''created_at'')"
    using args first_overflow
    by (simp add: new_manifest_def manifest_arg_def manifest_common_fields_def manifest_number_def
        check_role_def manifest_defaults_def del: float_of_number.simps)
  ultimately show ?thesis
    using spaced.loads_dump [OF ok(1)] ok(2,3)
    by (simp add: load_authority_manifest_def get del: canon.simps)
qed

text \<open>
  What the reader of a manifest may do. Whatever the path holds, it returns a manifest that
  satisfies every rule of the constructor or raises \<^verbatim>\<open>AuthorityManifestError\<close>, with one exception:
  an integer too large for a float lets \<^verbatim>\<open>OverflowError\<close> escape, and there is a file that does so.
\<close>

theorem manifest_reader:
  "(case load_authority_manifest target of
      Inr m \<Rightarrow> manifest_ok m
    | Inl err \<Rightarrow> (\<exists>k. err = AuthorityManifestError k) \<or>
        err \<in> {ManifestOverflowError ''created_at'', ManifestOverflowError ''initial_virtual_capital''}) \<and>
   (\<exists>t. load_authority_manifest (RegularText t) = Inl (ManifestOverflowError ''created_at''))"
proof -
  let ?allowed = "\<lambda>err. (\<exists>k. err = AuthorityManifestError k) \<or>
        err \<in> {ManifestOverflowError ''created_at'', ManifestOverflowError ''initial_virtual_capital''}"
  have "raises_only ?allowed (lift_error manifest_values_error (new_manifest kwargs))" for kwargs
    using new_manifest_refuses [of kwargs]
    by (cases "new_manifest kwargs") (auto simp: manifest_refusal_def split: manifest_error.splits)
  moreover have "raises_only ?allowed (predecessor_field kvs)" for kvs
    by (simp add: predecessor_field_def Let_def)
  ultimately have "raises_only ?allowed (load_authority_manifest target)"
    by (auto simp: load_authority_manifest_def intro!: raises_only_bindE
        split: manifest_file.splits option.splits pyjson.splits)
  moreover have "manifest_ok m" if "load_authority_manifest target = Inr m" for m
  proof -
    from that obtain kwargs where "new_manifest kwargs = Inr m"
      by (auto simp: load_authority_manifest_def bindE_eq_Inr
          split: manifest_file.splits option.splits pyjson.splits)
    then show ?thesis by (simp add: new_manifest_Inr)
  qed
  ultimately show ?thesis
    using far_manifest by (cases "load_authority_manifest target") auto
qed

end
