(* ===== verification/AuthorityRuntime.thy ===== *)
theory AuthorityRuntime
  imports AuthorityManifest EpochLog PplRecovery
begin

text \<open>
  The runtime that owns an authoritative epoch (second half of
  \<^verbatim>\<open>paper_trading/ppl_authority_runtime.py\<close>): it composes the durable event store, the ledger's
  projection and the restart plan. Its state is the object's fields and the disk, with what the
  operating system makes of each coming write. The re-entrant lock makes a method atomic; the
  messages of the errors are left out.
\<close>

section \<open>State\<close>

datatype runtime_error =
    StoreError store_error
  | ReplayError replay_error
  | EventError event_error
  | PlanError recovery_error
  | PPLAuthorityRuntimeError string

datatype runtime_status = RUNTIME_READY | RUNTIME_DEGRADED

datatype rollback_disposition = SAFE_BEFORE_FIRST_LIFECYCLE_EVENT | BLOCKED_RECONCILIATION_REQUIRED

record authority_runtime =
  rt_manifest :: authority_manifest
  rt_status :: runtime_status
  rt_last_error :: "runtime_error option"
  rt_events :: "ledger_event list"
  rt_projection :: portfolio_state
  rt_dir :: store_dir
  rt_io :: "append_io list"

definition new_runtime :: "authority_manifest \<Rightarrow> store_dir \<Rightarrow> append_io list \<Rightarrow> authority_runtime" where
  "new_runtime m dir io = \<lparr>rt_manifest = m, rt_status = RUNTIME_READY, rt_last_error = None, rt_events = [],
     rt_projection = empty_state, rt_dir = dir, rt_io = io\<rparr>"

type_synonym 'a runtime_method = "(authority_runtime, runtime_error, 'a) action"

section \<open>Reading the epoch back\<close>

text \<open>The projection of an epoch's events, and the checks against the manifest.\<close>

definition checked_epoch :: "authority_manifest \<Rightarrow> ledger_event list \<Rightarrow> runtime_error + portfolio_state" where
  "checked_epoch m events =
     bindE (lift_error ReplayError (project events)) (\<lambda>s.
     bindE (or_raise (PPLAuthorityRuntimeError ''empty'') (epoch s)) (\<lambda>ep.
     bindE (raise_if (pe_schema_version ep \<noteq> 2) (PPLAuthorityRuntimeError ''schema'')) (\<lambda>_.
     bindE (raise_if (paper_epoch_id s \<noteq> Some (am_paper_epoch_id m)) (PPLAuthorityRuntimeError ''epoch id'')) (\<lambda>_.
     bindE (raise_if (pe_initial_virtual_capital ep \<noteq> am_initial_virtual_capital m)
              (PPLAuthorityRuntimeError ''capital'')) (\<lambda>_.
     bindE (raise_if (pe_code_sha ep \<noteq> am_code_sha m) (PPLAuthorityRuntimeError ''code_sha'')) (\<lambda>_.
     bindE (raise_if (pe_config_snapshot_hash ep \<noteq> am_config_snapshot_hash m)
              (PPLAuthorityRuntimeError ''config hash'')) (\<lambda>_.
       Inr s)))))))"

definition reload :: "unit runtime_method" where
  "reload rt =
     (case bindE (lift_error StoreError (load_epoch (am_paper_epoch_id (rt_manifest rt)) (rt_dir rt)))
             (\<lambda>events. bindE (checked_epoch (rt_manifest rt) events) (\<lambda>s. Inr (events, s))) of
        Inl err \<Rightarrow> (rt, Inl err)
      | Inr (events, s) \<Rightarrow> (rt\<lparr>rt_events := events, rt_projection := s\<rparr>, Inr ()))"

section \<open>Appending an event that has been validated\<close>

definition store_append :: "ledger_event \<Rightarrow> append_result runtime_method" where
  "store_append e rt =
     (let (io, ios) = (case rt_io rt of [] \<Rightarrow> (Synced, []) | io # ios \<Rightarrow> (io, ios));
          (dir, res) = append_event io (am_paper_epoch_id (rt_manifest rt)) e (rt_dir rt)
      in (rt\<lparr>rt_dir := dir, rt_io := ios\<rparr>, lift_error StoreError res))"

text \<open>\<^verbatim>\<open>next((ev for ev in self._events if ev.event_id == event_id), None)\<close>.\<close>

definition existing_event :: "authority_runtime \<Rightarrow> string \<Rightarrow> ledger_event option" where
  "existing_event rt eid = find (\<lambda>e. le_event_id e = eid) (rt_events rt)"

definition prospective :: "ledger_event \<Rightarrow> authority_runtime \<Rightarrow> runtime_error + portfolio_state" where
  "prospective e rt =
     (case existing_event rt (le_event_id e) of
        None \<Rightarrow> lift_error ReplayError (project (rt_events rt @ [e]))
      | Some _ \<Rightarrow> Inr (rt_projection rt))"

definition append_semantically_validated :: "ledger_event \<Rightarrow> append_result runtime_method" where
  "append_semantically_validated e =
     bindS (getS (prospective e)) (\<lambda>r.
     bindS (liftS r) (\<lambda>validated.
     bindS (store_append e) (\<lambda>result.
     bindS reload (\<lambda>_.
     bindS (getS rt_projection) (\<lambda>durable.
     bindS (liftS (raise_if (durable \<noteq> validated) (PPLAuthorityRuntimeError ''projection differs''))) (\<lambda>_.
       liftS (Inr result)))))))"

definition runtime_event_id :: "ledger_event_type \<Rightarrow> string \<Rightarrow> authority_runtime \<Rightarrow> runtime_error + string" where
  "runtime_event_id etype tid rt =
     or_raise (PPLAuthorityRuntimeError ''role'') (authority_event_id (rt_manifest rt) etype tid)"

text \<open>
  The sequence number of an event: that of the stored event it repeats, or the next one. The
  history is not empty after a reload.
\<close>

definition next_sequence :: "string \<Rightarrow> authority_runtime \<Rightarrow> int" where
  "next_sequence eid rt =
     (case existing_event rt eid of
        Some e \<Rightarrow> le_sequence e
      | None \<Rightarrow> le_sequence (last (rt_events rt)) + 1)"

section \<open>Binding to the epoch\<close>

definition epoch_created_event :: "authority_runtime \<Rightarrow> runtime_error + ledger_event" where
  "epoch_created_event rt =
     (let m = rt_manifest rt in
     bindE (runtime_event_id EPOCH_CREATED ''epoch'' rt) (\<lambda>eid.
       lift_error EventError
         (make_epoch_created_event eid (am_paper_epoch_id m) (VInt 1) (VFloat (am_created_at m))
            (VFloat (am_initial_virtual_capital m)) (VStr (am_code_sha m)) (VStr (am_config_snapshot_hash m))
            None (VInt 2))))"

definition ensure_epoch :: "unit runtime_method" where
  "ensure_epoch =
     bindS (getS (\<lambda>rt. load_epoch (am_paper_epoch_id (rt_manifest rt)) (rt_dir rt))) (\<lambda>loaded.
       case loaded of
         Inr _ \<Rightarrow> liftS (Inr ())
       | Inl err \<Rightarrow>
           if err = EpochNotFoundError then
             bindS (getS epoch_created_event) (\<lambda>r.
             bindS (liftS r) (\<lambda>e.
             bindS (append_semantically_validated e) (\<lambda>_. liftS (Inr ()))))
           else liftS (Inl (StoreError err)))"

definition unresolved_event :: "pyval \<Rightarrow> string \<Rightarrow> authority_runtime \<Rightarrow> runtime_error + ledger_event" where
  "unresolved_event now tid rt =
     bindE (runtime_event_id POSITION_UNRESOLVED tid rt) (\<lambda>eid.
     bindE (or_raise (PlanError NowTooLarge) (float_of_number now)) (\<lambda>t.
       lift_error EventError
         (make_position_unresolved_event eid (am_paper_epoch_id (rt_manifest rt))
            (VInt (le_sequence (last (rt_events rt)) + 1)) (VFloat t) (Some tid)
            (VStr ''recovery_window_expired'') None (VInt 2))))"

definition resolve_expired :: "pyval \<Rightarrow> restart_position_plan \<Rightarrow> unit runtime_method" where
  "resolve_expired now item =
     (if rp_disposition item \<noteq> UNRESOLVED_REQUIRED then liftS (Inr ())
      else bindS (getS (unresolved_event now (rp_trade_id item))) (\<lambda>r.
           bindS (liftS r) (\<lambda>e.
           bindS (append_semantically_validated e) (\<lambda>_. liftS (Inr ())))))"

definition bind_steps :: "pyval \<Rightarrow> unit runtime_method" where
  "bind_steps now =
     bindS ensure_epoch (\<lambda>_.
     bindS reload (\<lambda>_.
     bindS (getS (\<lambda>rt. lift_error PlanError (plan_restart_recovery (rt_projection rt) now))) (\<lambda>r.
     bindS (liftS r) (\<lambda>plan.
       eachS (resolve_expired now) (rr_positions plan)))))"

definition bind_runtime :: "pyval \<Rightarrow> portfolio_state runtime_method" where
  "bind_runtime now rt =
     (case bind_steps now rt of
        (rt', Inr _) \<Rightarrow> (rt'\<lparr>rt_status := RUNTIME_READY, rt_last_error := None\<rparr>, Inr (rt_projection rt'))
      | (rt', Inl err) \<Rightarrow> (rt'\<lparr>rt_status := RUNTIME_DEGRADED, rt_last_error := Some err\<rparr>, Inl err))"

section \<open>Committing lifecycle events\<close>

record open_request =
  oq_trade_id :: string
  oq_symbol :: pyval
  oq_side :: pyval
  oq_principal :: pyval
  oq_entry_price :: pyval
  oq_entry_fee :: pyval
  oq_opened_at :: pyval
  oq_tp_price :: pyval
  oq_sl_price :: pyval
  oq_timeout_at :: pyval
  oq_recovery_until :: pyval
  oq_decision_id :: "string option"

definition opened_event :: "open_request \<Rightarrow> authority_runtime \<Rightarrow> runtime_error + ledger_event" where
  "opened_event q rt =
     bindE (runtime_event_id POSITION_OPENED (oq_trade_id q) rt) (\<lambda>eid.
       lift_error EventError
         (make_position_opened_event eid (am_paper_epoch_id (rt_manifest rt)) (VInt (next_sequence eid rt))
            (oq_opened_at q) (Some (oq_trade_id q)) (oq_symbol q) (oq_side q) (oq_principal q)
            (oq_entry_price q) (oq_entry_fee q) (oq_decision_id q) (VInt 2) (oq_tp_price q) (oq_sl_price q)
            (oq_timeout_at q) (oq_recovery_until q)))"

record close_request =
  cq_trade_id :: string
  cq_exit_price :: pyval
  cq_exit_fee :: pyval
  cq_closed_at :: pyval
  cq_decision_id :: "string option"

definition closed_event :: "close_request \<Rightarrow> authority_runtime \<Rightarrow> runtime_error + ledger_event" where
  "closed_event q rt =
     bindE (runtime_event_id POSITION_CLOSED (cq_trade_id q) rt) (\<lambda>eid.
       lift_error EventError
         (make_position_closed_event eid (am_paper_epoch_id (rt_manifest rt)) (VInt (next_sequence eid rt))
            (cq_closed_at q) (Some (cq_trade_id q)) (cq_exit_price q) (cq_exit_fee q) (cq_decision_id q) (VInt 2)))"

definition commit :: "(authority_runtime \<Rightarrow> runtime_error + ledger_event) \<Rightarrow> append_result runtime_method" where
  "commit build =
     bindS reload (\<lambda>_.
     bindS (getS build) (\<lambda>r.
     bindS (liftS r) append_semantically_validated))"

definition commit_open :: "open_request \<Rightarrow> append_result runtime_method" where
  "commit_open q = commit (opened_event q)"

definition commit_close :: "close_request \<Rightarrow> append_result runtime_method" where
  "commit_close q = commit (closed_event q)"

section \<open>Reading the runtime\<close>

record runtime_view =
  rv_status :: runtime_status
  rv_paper_epoch_id :: string
  rv_last_error :: "runtime_error option"
  rv_projection :: portfolio_state
  rv_events :: "ledger_event list"

definition consistent_view :: "runtime_view runtime_method" where
  "consistent_view =
     bindS reload (\<lambda>_. getS (\<lambda>rt. \<lparr>rv_status = rt_status rt,
       rv_paper_epoch_id = am_paper_epoch_id (rt_manifest rt), rv_last_error = rt_last_error rt,
       rv_projection = rt_projection rt, rv_events = rt_events rt\<rparr>))"

definition rollback_disposition_of :: "rollback_disposition runtime_method" where
  "rollback_disposition_of =
     bindS reload (\<lambda>_. getS (\<lambda>rt. if length (rt_events rt) = 1 then SAFE_BEFORE_FIRST_LIFECYCLE_EVENT
       else BLOCKED_RECONCILIATION_REQUIRED))"

text \<open>The inspection of a configured epoch, once its runtime has been built from the environment.\<close>

definition configured_rollback_disposition :: "authority_runtime \<Rightarrow> runtime_error + rollback_disposition" where
  "configured_rollback_disposition rt =
     (case load_epoch (am_paper_epoch_id (rt_manifest rt)) (rt_dir rt) of
        Inr events \<Rightarrow> Inr (if length events \<le> 1 then SAFE_BEFORE_FIRST_LIFECYCLE_EVENT
                           else BLOCKED_RECONCILIATION_REQUIRED)
      | Inl err \<Rightarrow> if err = EpochNotFoundError then Inr SAFE_BEFORE_FIRST_LIFECYCLE_EVENT
                    else Inl (StoreError err))"

section \<open>What the ledger and the store share\<close>

text \<open>The projection does not see the order of a payload's keys.\<close>

lemma apply_event_in_order:
  assumes "distinct (dict_keys (le_payload e))"
  shows "apply_event s (in_order e) = apply_event s e"
proof -
  note get = map_of_sort_key [OF assms]
  have payload: "payload_get (in_order e) = payload_get e" by (simp add: fun_eq_iff payload_get_def get)
  then have finite: "get_finite (in_order e) = get_finite e" by (simp add: fun_eq_iff get_finite_def)
  then have terms: "opened_terms (in_order e) = opened_terms e" by (simp add: fun_eq_iff opened_terms_def)
  have "check_event s (in_order e) = check_event s e"
    unfolding check_event_def in_order_simps ..
  then show ?thesis
    unfolding apply_event_def handler_defs payload finite terms in_order_simps get by simp
qed

text \<open>Events built from Python values can be stored and read back.\<close>

definition py_value :: "pyval \<Rightarrow> bool" where
  "py_value v \<longleftrightarrow> (case v of VFloat x \<Rightarrow> fl_double x | _ \<Rightarrow> True)"

lemma py_value_simps [simp]:
  "py_value VNone" "py_value (VBool b)" "py_value (VInt n)" "py_value (VStr t)" "py_value (VFloat x) = fl_double x"
  by (simp_all add: py_value_def)

lemma float_of_number_double: "float_of_number v = Some x \<Longrightarrow> py_value v \<Longrightarrow> fl_double x"
  by (cases v) (auto split: pyfloat.splits simp: fl_double_def dest: round_double_is_double)

lemma event_finite_double: "event_require_finite k v = Inr x \<Longrightarrow> py_value v \<Longrightarrow> fl_double x"
  by (auto simp: event_require_finite_def split: if_splits option.splits dest: float_of_number_double)

lemma built_storable:
  assumes "new_ledger_event eid i seq etype ts tid did pl v = Inr e" "py_value ts"
    and "distinct (dict_keys pl)" "list_all (\<lambda>(_, v). py_value v) pl"
  shows "event_wire_ok e"
  using assms by (auto simp: new_ledger_event_def bindE_eq_Inr event_wire_ok_def py_value_def
      dest: event_finite_double)

definition open_values :: "open_request \<Rightarrow> bool" where
  "open_values q \<longleftrightarrow> list_all py_value
     [oq_symbol q, oq_side q, oq_principal q, oq_entry_price q, oq_entry_fee q, oq_opened_at q,
      oq_tp_price q, oq_sl_price q, oq_timeout_at q, oq_recovery_until q]"

definition close_values :: "close_request \<Rightarrow> bool" where
  "close_values q \<longleftrightarrow> list_all py_value [cq_exit_price q, cq_exit_fee q, cq_closed_at q]"

lemma opened_storable:
  assumes "opened_event q rt = Inr e" "open_values q"
  shows "event_wire_ok e \<and> le_event_type e = POSITION_OPENED"
proof -
  from assms(1) obtain eid sd pl where
    built: "new_ledger_event eid (am_paper_epoch_id (rt_manifest rt)) (VInt (next_sequence eid rt)) POSITION_OPENED
      (oq_opened_at q) (Some (oq_trade_id q)) (oq_decision_id q) pl (VInt 2) = Inr e"
    and pl: "\<exists>terms. replay_terms_payload (oq_opened_at q) (oq_tp_price q) (oq_sl_price q) (oq_timeout_at q)
        (oq_recovery_until q) = Inr terms \<and>
      pl = [(''symbol'', oq_symbol q), (''side'', VStr (side_value sd)), (''principal'', oq_principal q),
        (''entry_price'', oq_entry_price q), (''entry_fee'', oq_entry_fee q)] @ terms"
    by (auto simp: opened_event_def make_position_opened_event_def bindE_eq_Inr lift_error_Inr Let_def)
  have "distinct (dict_keys pl) \<and> list_all (\<lambda>(_, v). py_value v) pl"
    using pl assms(2)
    by (auto simp: replay_terms_payload_def bindE_eq_Inr open_values_def dest: event_finite_double)
  then show ?thesis
    using built_storable [OF built] assms(2) new_ledger_event_ok [OF built] by (simp add: open_values_def)
qed

lemma closed_storable:
  assumes "closed_event q rt = Inr e" "close_values q"
  shows "event_wire_ok e \<and> le_event_type e = POSITION_CLOSED"
proof -
  from assms(1) obtain eid where
    built: "new_ledger_event eid (am_paper_epoch_id (rt_manifest rt)) (VInt (next_sequence eid rt)) POSITION_CLOSED
      (cq_closed_at q) (Some (cq_trade_id q)) (cq_decision_id q)
      [(''exit_price'', cq_exit_price q), (''exit_fee'', cq_exit_fee q)] (VInt 2) = Inr e"
    by (auto simp: closed_event_def make_position_closed_event_def bindE_eq_Inr lift_error_Inr)
  show ?thesis
    using built_storable [OF built] assms(2) new_ledger_event_ok [OF built] by (simp add: close_values_def)
qed

lemma unresolved_storable:
  assumes "unresolved_event now tid rt = Inr e" "py_value now"
  shows "event_wire_ok e \<and> le_event_type e = POSITION_UNRESOLVED \<and> le_trade_id e = Some tid"
proof -
  from assms(1) obtain eid t where t: "float_of_number now = Some t" and
    built: "new_ledger_event eid (am_paper_epoch_id (rt_manifest rt)) (VInt (le_sequence (last (rt_events rt)) + 1))
      POSITION_UNRESOLVED (VFloat t) (Some tid) None [(''reason'', VStr ''recovery_window_expired'')] (VInt 2) = Inr e"
    by (auto simp: unresolved_event_def make_position_unresolved_event_def bindE_eq_Inr lift_error_Inr)
  show ?thesis
    using built_storable [OF built] float_of_number_double [OF t assms(2)] new_ledger_event_ok [OF built] by simp
qed

lemma created_storable:
  assumes "epoch_created_event rt = Inr e" "manifest_doubles (rt_manifest rt)"
  shows "event_wire_ok e \<and> le_event_type e = EPOCH_CREATED \<and> le_schema_version e = 2 \<and>
    le_paper_epoch_id e = am_paper_epoch_id (rt_manifest rt) \<and>
    le_payload e = [(''initial_virtual_capital'', VFloat (am_initial_virtual_capital (rt_manifest rt))),
      (''code_sha'', VStr (am_code_sha (rt_manifest rt))),
      (''config_snapshot_hash'', VStr (am_config_snapshot_hash (rt_manifest rt)))]"
proof -
  from assms(1) obtain eid where
    built: "new_ledger_event eid (am_paper_epoch_id (rt_manifest rt)) (VInt 1) EPOCH_CREATED
      (VFloat (am_created_at (rt_manifest rt))) None None
      [(''initial_virtual_capital'', VFloat (am_initial_virtual_capital (rt_manifest rt))),
       (''code_sha'', VStr (am_code_sha (rt_manifest rt))),
       (''config_snapshot_hash'', VStr (am_config_snapshot_hash (rt_manifest rt)))] (VInt 2) = Inr e"
    by (auto simp: epoch_created_event_def make_epoch_created_event_def bindE_eq_Inr lift_error_Inr Let_def)
  have "le_schema_version e = 2" using built by (auto simp: new_ledger_event_def bindE_eq_Inr)
  then show ?thesis
    using built_storable [OF built] assms(2) new_ledger_event_ok [OF built] by (simp add: manifest_doubles_def)
qed

section \<open>The epoch stays the manifest's\<close>

lemma checked_epoch_Inr:
  "checked_epoch m events = Inr s \<longleftrightarrow> project events = Inr s \<and> paper_epoch_id s = Some (am_paper_epoch_id m) \<and>
     (\<exists>ep. epoch s = Some ep \<and> pe_schema_version ep = 2 \<and>
       pe_initial_virtual_capital ep = am_initial_virtual_capital m \<and> pe_code_sha ep = am_code_sha m \<and>
       pe_config_snapshot_hash ep = am_config_snapshot_hash m)"
  by (auto simp: checked_epoch_def bindE_eq_Inr lift_error_Inr)

lemma checked_epoch_nonempty: "checked_epoch m events = Inr s \<Longrightarrow> events \<noteq> []"
  by (auto simp: checked_epoch_Inr project_def empty_state_def)

text \<open>Only the first event sets the epoch.\<close>

lemma epoch_fixed:
  assumes "epoch s = Some ep" "apply_event s e = Inr s'" "paper_epoch_id s = Some i"
  shows "epoch s' = Some ep \<and> paper_epoch_id s' = Some i"
  using assms(2)
proof (rule applied_event)
  fix seen
  assume "check_event s e = Inr ()"
  then have "le_event_type e \<noteq> EPOCH_CREATED" using checked_event(4,5) assms(3) by fastforce
  moreover assume "le_event_type e = EPOCH_CREATED \<and> apply_epoch_created s e seen = Inr s' \<or>
     le_event_type e = POSITION_OPENED \<and> apply_position_opened s e seen = Inr s' \<or>
     le_event_type e = POSITION_CLOSED \<and> apply_position_closed s e seen = Inr s' \<or>
     le_event_type e = POSITION_UNRESOLVED \<and> apply_position_unresolved s e seen = Inr s' \<or>
     le_event_type e = RECOVERY_COMPLETED \<and> apply_recovery_completed s e seen = Inr s'"
  ultimately show ?thesis using assms(1,3)
    by (elim disjE conjE)
      (simp, (erule applied_opened applied_closed applied_unresolved applied_recovery, simp)+)
qed

lemma checked_epoch_extends:
  assumes "checked_epoch m events = Inr s" "project (events @ [e]) = Inr s'"
  shows "checked_epoch m (events @ [e]) = Inr s'"
proof -
  have "apply_event s e = Inr s'" using assms by (auto simp: checked_epoch_Inr project_snoc)
  moreover from assms(1) obtain ep where ep: "epoch s = Some ep" "paper_epoch_id s = Some (am_paper_epoch_id m)"
    unfolding checked_epoch_Inr by blast
  ultimately have "epoch s' = Some ep" "paper_epoch_id s' = Some (am_paper_epoch_id m)"
    using epoch_fixed [OF ep(1) _ ep(2)] by blast+
  with assms ep show ?thesis by (simp add: checked_epoch_Inr)
qed

lemma checked_epoch_created:
  assumes "epoch_created_event rt = Inr e" "manifest_doubles (rt_manifest rt)" "project [e] = Inr s"
  shows "checked_epoch (rt_manifest rt) [e] = Inr s"
proof -
  note e = created_storable [OF assms(1,2)]
  have "apply_event empty_state e = Inr s" using assms(3) by (simp add: project_def bindE_eq_Inr)
  then obtain seen where "apply_epoch_created empty_state e seen = Inr s"
    using e by (auto elim: applied_event)
  then show ?thesis using e assms(3)
    by (auto simp: checked_epoch_Inr apply_epoch_created_def bindE_eq_Inr get_finite_def payload_get_def
        new_paper_epoch_def lift_error_Inr finite_value_def require_finite_def split: if_splits)
qed

end
