(* ===== verification/AuthorityHistory.thy ===== *)
theory AuthorityHistory
  imports AuthorityRuntime "HOL-Library.Sublist"
begin

text \<open>
  What the authoritative runtime guarantees over any history of its methods: the epoch on disk
  always replays, what it acknowledges is durable, the state in memory is the state on disk, and a
  restart leaves no position whose recovery window has passed.
\<close>

definition runtime_log :: "authority_runtime \<Rightarrow> ledger_event list" where
  "runtime_log rt = epoch_log (rt_dir rt) (am_paper_epoch_id (rt_manifest rt))"

definition runtime_ok :: "authority_manifest \<Rightarrow> authority_runtime \<Rightarrow> bool" where
  "runtime_ok m rt \<longleftrightarrow> rt_manifest rt = m \<and> disk_ok (am_paper_epoch_id m) (rt_dir rt) \<and>
     list_all whole_io (rt_io rt) \<and>
     (runtime_log rt = [] \<or> (\<exists>s. checked_epoch m (runtime_log rt) = Inr s)) \<and>
     prefix (rt_events rt) (runtime_log rt)"

definition in_step :: "authority_manifest \<Rightarrow> authority_runtime \<Rightarrow> bool" where
  "in_step m rt \<longleftrightarrow> runtime_ok m rt \<and> rt_events rt = runtime_log rt \<and>
     checked_epoch m (runtime_log rt) = Inr (rt_projection rt)"

lemma manifest_epoch_nonempty [simp]: "manifest_ok m \<Longrightarrow> am_paper_epoch_id m \<noteq> []"
  by (auto simp: manifest_ok_def py_strip_def)

lemma reload_ok:
  assumes "runtime_ok m rt" "manifest_ok m"
  shows "runtime_log rt = [] \<and> reload rt = (rt, Inl (StoreError EpochNotFoundError)) \<or>
    (\<exists>s. checked_epoch m (runtime_log rt) = Inr s \<and>
       reload rt = (rt\<lparr>rt_events := runtime_log rt, rt_projection := s\<rparr>, Inr ()) \<and>
       in_step m (rt\<lparr>rt_events := runtime_log rt, rt_projection := s\<rparr>))"
proof -
  have m: "rt_manifest rt = m" "disk_ok (am_paper_epoch_id m) (rt_dir rt)"
    using assms(1) by (simp_all add: runtime_ok_def)
  have load: "load_epoch (am_paper_epoch_id m) (rt_dir rt) =
    (if runtime_log rt = [] then Inl EpochNotFoundError else Inr (runtime_log rt))"
    using load_disk [OF m(2)] assms(2) m(1) by (simp add: runtime_log_def)
  show ?thesis
  proof (cases "runtime_log rt = []")
    case True
    then show ?thesis using load m(1) by (simp add: reload_def)
  next
    case False
    then obtain s where s: "checked_epoch m (runtime_log rt) = Inr s" using assms(1) by (auto simp: runtime_ok_def)
    then have "in_step m (rt\<lparr>rt_events := runtime_log rt, rt_projection := s\<rparr>)"
      using assms(1) by (simp add: in_step_def runtime_ok_def runtime_log_def)
    then show ?thesis using False load m(1) s by (simp add: reload_def)
  qed
qed

lemma store_append_ok:
  assumes ok: "runtime_ok m rt" and wire: "event_wire_ok e"
    and ext: "\<And>s. project (runtime_log rt @ [e]) = Inr s \<Longrightarrow> checked_epoch m (runtime_log rt @ [e]) = Inr s"
    and projects: "le_event_id e \<notin> le_event_id ` set (runtime_log rt) \<Longrightarrow> \<exists>s. project (runtime_log rt @ [e]) = Inr s"
    and run: "store_append e rt = (rt', res)"
  shows "runtime_ok m rt' \<and> rt_events rt' = rt_events rt \<and> rt_projection rt' = rt_projection rt \<and>
    (runtime_log rt' = runtime_log rt \<and>
       ((\<exists>err. res = Inl (StoreError err)) \<or>
        res = Inr (result_of ALREADY_EXISTS e) \<and> in_order e \<in> set (runtime_log rt)) \<or>
     runtime_log rt' = runtime_log rt @ [in_order e] \<and> le_event_id e \<notin> le_event_id ` set (runtime_log rt) \<and>
       (res = Inl (StoreError StoreOSError) \<or> res = Inr (result_of APPENDED e)))"
proof -
  let ?i = "am_paper_epoch_id m"
  have m: "rt_manifest rt = m" "disk_ok ?i (rt_dir rt)" "list_all whole_io (rt_io rt)"
    "prefix (rt_events rt) (runtime_log rt)" "runtime_log rt = epoch_log (rt_dir rt) ?i"
    using ok by (auto simp: runtime_ok_def runtime_log_def)
  obtain io ios where io: "(case rt_io rt of [] \<Rightarrow> (Synced, []) | io # ios \<Rightarrow> (io, ios)) = (io, ios)"
    "whole_io io" "list_all whole_io ios"
    using m(3) by (cases "rt_io rt") (auto simp: whole_io_def)
  obtain dir r where app: "append_event io ?i e (rt_dir rt) = (dir, r)" by fastforce
  have rt': "rt' = rt\<lparr>rt_dir := dir, rt_io := ios\<rparr>" "res = lift_error StoreError r"
    using run io(1) app m(1) by (simp_all add: store_append_def)
  have log': "runtime_log rt' = epoch_log dir ?i" by (simp add: rt' runtime_log_def m(1))
  have ok': "runtime_ok m rt'" if "disk_ok ?i dir"
    "epoch_log dir ?i = runtime_log rt \<or> epoch_log dir ?i = runtime_log rt @ [in_order e] \<and>
      le_event_id e \<notin> le_event_id ` set (runtime_log rt)"
  proof -
    have "epoch_log dir ?i = [] \<or> (\<exists>s. checked_epoch m (epoch_log dir ?i) = Inr s)"
    proof (cases "epoch_log dir ?i = runtime_log rt")
      case True
      with ok show ?thesis by (simp add: runtime_ok_def)
    next
      case False
      with that(2) projects obtain s where s: "project (runtime_log rt @ [e]) = Inr s"
        "epoch_log dir ?i = runtime_log rt @ [in_order e]" by auto
      have "distinct (dict_keys (le_payload e))" using wire by (simp add: event_wire_ok_def)
      then have "project (runtime_log rt @ [in_order e]) = Inr s"
        using s(1) by (simp add: project_snoc apply_event_in_order)
      with ext [OF s(1)] s show ?thesis by (auto simp: checked_epoch_Inr)
    qed
    with that(1,2) m(4) io(3) show ?thesis
      unfolding runtime_ok_def log' by (auto simp: rt' m(1))
  qed
  from append_disk [OF m(2) wire io(2) app] m(5)
  have cases: "disk_ok ?i dir \<and>
    (epoch_log dir ?i = runtime_log rt \<and> ((\<exists>err. r = Inl err) \<or>
        r = Inr (result_of ALREADY_EXISTS e) \<and> in_order e \<in> set (runtime_log rt)) \<or>
     epoch_log dir ?i = runtime_log rt @ [in_order e] \<and> le_event_id e \<notin> le_event_id ` set (runtime_log rt) \<and>
        r = io_result io (result_of APPENDED e))" by simp
  have "io_result io (result_of APPENDED e) \<in> {Inl StoreOSError, Inr (result_of APPENDED e)}"
    by (cases io) auto
  with cases ok' show ?thesis unfolding log' rt'(2) by (auto simp: rt'(1))
qed

lemma existing_None: "existing_event rt eid = None \<longleftrightarrow> eid \<notin> le_event_id ` set (rt_events rt)"
  by (auto simp: existing_event_def find_None_iff)

definition differs :: runtime_error where
  "differs = PPLAuthorityRuntimeError ''projection differs''"

lemma prospective_Inr:
  assumes "rt_events rt = runtime_log rt" "runtime_log rt = [] \<or> in_step m rt" "prospective e rt = Inr v"
  shows "le_event_id e \<in> le_event_id ` set (runtime_log rt) \<and> checked_epoch m (runtime_log rt) = Inr v \<or>
    le_event_id e \<notin> le_event_id ` set (runtime_log rt) \<and> project (runtime_log rt @ [e]) = Inr v"
proof (cases "le_event_id e \<in> le_event_id ` set (runtime_log rt)")
  case True
  then have "runtime_log rt \<noteq> []" by auto
  with assms(2) have "in_step m rt" by blast
  moreover from True have "v = rt_projection rt"
    using assms existing_None [of rt "le_event_id e"] by (auto simp: prospective_def split: option.splits)
  ultimately show ?thesis using True by (simp add: in_step_def)
next
  case False
  then show ?thesis
    using assms(1,3) existing_None [of rt "le_event_id e"]
    by (auto simp: prospective_def lift_error_Inr split: option.splits)
qed

text \<open>Once the store has taken the event, the rest of the method succeeds.\<close>

lemma append_confirmed:
  assumes mok: "manifest_ok m" and wire: "event_wire_ok e" and ok1: "runtime_ok m rt1"
    and v: "prospective e rt = Inr v" and app: "store_append e rt = (rt1, Inr result)"
    and replay: "checked_epoch m (runtime_log rt1) = Inr v"
    and run: "append_semantically_validated e rt = (rt', res)"
  shows "res = Inr result \<and> runtime_log rt' = runtime_log rt1 \<and> rt_projection rt' = v \<and> in_step m rt'"
proof -
  have "runtime_log rt1 \<noteq> []" using checked_epoch_nonempty [OF replay] .
  then have "reload rt1 = (rt1\<lparr>rt_events := runtime_log rt1, rt_projection := v\<rparr>, Inr ())"
    "in_step m (rt1\<lparr>rt_events := runtime_log rt1, rt_projection := v\<rparr>)"
    using reload_ok [OF ok1 mok] replay by auto
  then show ?thesis
    using run v app by (auto simp: append_semantically_validated_def bindS_def getS_def liftS_def runtime_log_def)
qed

text \<open>
  The four ways of a validated append: refused with nothing written, already stored, appended, or
  written but not confirmed.
\<close>

lemma append_validated:
  assumes ok: "runtime_ok m rt" and mok: "manifest_ok m" and wire: "event_wire_ok e"
    and synced: "rt_events rt = runtime_log rt" "runtime_log rt = [] \<or> in_step m rt"
    and ext: "\<forall>s. project (runtime_log rt @ [e]) = Inr s \<longrightarrow> checked_epoch m (runtime_log rt @ [e]) = Inr s"
    and run: "append_semantically_validated e rt = (rt', res)"
  obtains (refused) err where "res = Inl err" "err \<noteq> differs" "runtime_log rt' = runtime_log rt" "runtime_ok m rt'"
  | (stored) "res = Inr (result_of ALREADY_EXISTS e)" "runtime_log rt' = runtime_log rt"
      "in_order e \<in> set (runtime_log rt)" "in_step m rt'"
  | (appended) s where "res = Inr (result_of APPENDED e)" "runtime_log rt' = runtime_log rt @ [in_order e]"
      "project (runtime_log rt @ [e]) = Inr s" "rt_projection rt' = s" "in_step m rt'"
      "le_event_id e \<notin> le_event_id ` set (runtime_log rt)"
  | (unsynced) "res = Inl (StoreError StoreOSError)" "runtime_log rt' = runtime_log rt @ [in_order e]" "runtime_ok m rt'"
proof (cases "prospective e rt")
  case (Inl err)
  then have "res = Inl err" "rt' = rt" "err \<noteq> differs"
    using run by (auto simp: append_semantically_validated_def bindS_run getS_def liftS_def prospective_def
        lift_error_def differs_def split: option.splits sum.splits)
  with that(1) ok show thesis by simp
next
  case (Inr v)
  note pros = prospective_Inr [OF synced Inr]
  obtain rt1 r1 where app: "store_append e rt = (rt1, r1)" by fastforce
  have st: "runtime_ok m rt1 \<and> rt_events rt1 = rt_events rt \<and> rt_projection rt1 = rt_projection rt \<and>
    (runtime_log rt1 = runtime_log rt \<and>
       ((\<exists>err. r1 = Inl (StoreError err)) \<or>
        r1 = Inr (result_of ALREADY_EXISTS e) \<and> in_order e \<in> set (runtime_log rt)) \<or>
     runtime_log rt1 = runtime_log rt @ [in_order e] \<and> le_event_id e \<notin> le_event_id ` set (runtime_log rt) \<and>
       (r1 = Inl (StoreError StoreOSError) \<or> r1 = Inr (result_of APPENDED e)))"
    using store_append_ok [OF ok wire _ _ app] ext pros by blast
  have order: "checked_epoch m (runtime_log rt @ [in_order e]) = Inr v" if "project (runtime_log rt @ [e]) = Inr v"
    using ext that wire by (simp add: checked_epoch_Inr project_snoc apply_event_in_order event_wire_ok_def)
  have raised: "res = Inl err \<and> rt' = rt1" if "r1 = Inl err" for err
    using that run Inr app by (simp add: append_semantically_validated_def bindS_def getS_def liftS_def)
  from st consider
      (refused) err where "runtime_log rt1 = runtime_log rt" "r1 = Inl (StoreError err)"
    | (old) "runtime_log rt1 = runtime_log rt" "r1 = Inr (result_of ALREADY_EXISTS e)" "in_order e \<in> set (runtime_log rt)"
    | (torn) "runtime_log rt1 = runtime_log rt @ [in_order e]" "r1 = Inl (StoreError StoreOSError)"
    | (new) "runtime_log rt1 = runtime_log rt @ [in_order e]" "r1 = Inr (result_of APPENDED e)"
        "le_event_id e \<notin> le_event_id ` set (runtime_log rt)" by blast
  then show thesis
  proof cases
    case refused
    with raised st that(1) show thesis by (simp add: differs_def)
  next
    case old
    then have "le_event_id e \<in> le_event_id ` set (runtime_log rt)" by (metis image_eqI in_order_simps(1))
    with pros old(1) have c: "checked_epoch m (runtime_log rt1) = Inr v" by simp
    have "runtime_ok m rt1" using st by blast
    from append_confirmed [OF mok wire this Inr app [unfolded old(2)] c run] old(1,3) that(2) show thesis by simp
  next
    case torn
    with raised st that(4) show thesis by simp
  next
    case new
    with pros have p: "project (runtime_log rt @ [e]) = Inr v" by simp
    with order new(1) have c: "checked_epoch m (runtime_log rt1) = Inr v" by simp
    have "runtime_ok m rt1" using st by blast
    from append_confirmed [OF mok wire this Inr app [unfolded new(2)] c run] new(1,3) p that(3) show thesis by simp
  qed
qed

section \<open>Commits\<close>

text \<open>What a commit needs of the event it builds.\<close>

definition builds :: "authority_manifest \<Rightarrow> (authority_runtime \<Rightarrow> runtime_error + ledger_event) \<Rightarrow> bool" where
  "builds m build \<longleftrightarrow> (\<forall>rt. rt_manifest rt = m \<longrightarrow>
     (case build rt of Inl err \<Rightarrow> err \<noteq> differs | Inr e \<Rightarrow> event_wire_ok e))"

lemma buildsD:
  assumes "builds m build" "rt_manifest rt = m"
  shows "build rt = Inl err \<Longrightarrow> err \<noteq> differs" "build rt = Inr e \<Longrightarrow> event_wire_ok e"
  using assms by (auto simp: builds_def split: sum.splits)

lemma buildsI:
  "(\<And>rt. raises_only (\<lambda>err. err \<noteq> differs) (build rt)) \<Longrightarrow> (\<And>rt e. build rt = Inr e \<Longrightarrow> event_wire_ok e) \<Longrightarrow>
     builds m build"
  by (auto simp: builds_def split: sum.splits dest: raises_onlyD)

lemma raises_only_lift: "(\<And>err. P (f err)) \<Longrightarrow> raises_only P (lift_error f r)"
  by (cases r) simp_all

lemma event_id_raises: "raises_only (\<lambda>err. err \<noteq> differs) (runtime_event_id etype tid rt)"
  by (simp add: runtime_event_id_def differs_def)

lemma extends:
  "checked_epoch m events = Inr s \<Longrightarrow> project (events @ [e]) = Inr s' \<Longrightarrow> checked_epoch m (events @ [e]) = Inr s'"
  by (rule checked_epoch_extends)

lemma commit_cases:
  assumes ok: "runtime_ok m rt" and mok: "manifest_ok m" and b: "builds m build"
    and run: "commit build rt = (rt', res)"
  obtains (refused) err where "res = Inl err" "err \<noteq> differs" "runtime_log rt' = runtime_log rt" "runtime_ok m rt'"
  | (stored) rt1 e where "build rt1 = Inr e" "in_step m rt1" "runtime_log rt1 = runtime_log rt"
      "res = Inr (result_of ALREADY_EXISTS e)" "runtime_log rt' = runtime_log rt"
      "in_order e \<in> set (runtime_log rt)" "in_step m rt'"
  | (appended) rt1 e s where "build rt1 = Inr e" "in_step m rt1" "runtime_log rt1 = runtime_log rt"
      "res = Inr (result_of APPENDED e)" "runtime_log rt' = runtime_log rt @ [in_order e]"
      "project (runtime_log rt @ [e]) = Inr s" "rt_projection rt' = s" "in_step m rt'"
  | (unsynced) e where "res = Inl (StoreError StoreOSError)" "runtime_log rt' = runtime_log rt @ [in_order e]" "runtime_ok m rt'"
  using reload_ok [OF ok mok]
proof (elim disjE exE conjE)
  assume "reload rt = (rt, Inl (StoreError EpochNotFoundError))"
  then show thesis using run that(1) ok by (auto simp: commit_def bindS_run differs_def)
next
  fix s
  let ?rt = "rt\<lparr>rt_events := runtime_log rt, rt_projection := s\<rparr>"
  assume s: "checked_epoch m (runtime_log rt) = Inr s" "reload rt = (?rt, Inr ())" "in_step m ?rt"
  have log: "runtime_log ?rt = runtime_log rt" by (simp add: runtime_log_def)
  have m: "rt_manifest ?rt = m" "runtime_ok m ?rt" "rt_events ?rt = runtime_log ?rt"
    using s(3) by (auto simp: in_step_def runtime_ok_def)
  show thesis
  proof (cases "build ?rt")
    case (Inl err)
    then have "err \<noteq> differs" using buildsD(1) [OF b m(1)] by blast
    then show thesis using run s(2) Inl that(1) m(2) log by (auto simp: commit_def bindS_run getS_def liftS_def)
  next
    case (Inr e)
    then have wire: "event_wire_ok e" using buildsD(2) [OF b m(1)] by blast
    have app: "append_semantically_validated e ?rt = (rt', res)"
      using run s(2) Inr by (simp add: commit_def bindS_def getS_def liftS_def)
    have ext: "\<forall>t. project (runtime_log ?rt @ [e]) = Inr t \<longrightarrow> checked_epoch m (runtime_log ?rt @ [e]) = Inr t"
      using extends s(1) log by simp
    have "runtime_log ?rt = [] \<or> in_step m ?rt" using s(3) by blast
    from m(2) mok wire m(3) this ext app show thesis
      by (cases rule: append_validated) (use that Inr s(3) log in auto)
  qed
qed

lemma event_raises:
  "raises_only (\<lambda>err. err \<noteq> differs) (opened_event q rt)"
  "raises_only (\<lambda>err. err \<noteq> differs) (closed_event c rt)"
  "raises_only (\<lambda>err. err \<noteq> differs) (unresolved_event now tid rt)"
  "raises_only (\<lambda>err. err \<noteq> differs) (epoch_created_event rt)"
  unfolding opened_event_def closed_event_def unresolved_event_def epoch_created_event_def Let_def
  by (intro raises_only_bindE raises_only_lift event_id_raises; simp add: differs_def)+

lemma opened_builds: "open_values q \<Longrightarrow> builds m (opened_event q)"
  using event_raises(1) opened_storable by (intro buildsI) blast+

lemma closed_builds: "close_values q \<Longrightarrow> builds m (closed_event q)"
  using event_raises(2) closed_storable by (intro buildsI) blast+

section \<open>Binding\<close>

lemma ensure_epoch_cases:
  assumes ok: "runtime_ok m rt" and mok: "manifest_ok m" and dbl: "manifest_doubles m"
    and run: "ensure_epoch rt = (rt', res)"
  shows "runtime_ok m rt' \<and> prefix (runtime_log rt) (runtime_log rt') \<and>
    (case res of Inl err \<Rightarrow> err \<noteq> differs
     | Inr _ \<Rightarrow> if runtime_log rt = [] then \<exists>e. le_event_type e = EPOCH_CREATED \<and> runtime_log rt' = [e]
                else rt' = rt)"
proof (cases "runtime_log rt = []")
  case False
  have "load_epoch (am_paper_epoch_id m) (rt_dir rt) = Inr (runtime_log rt)"
    using load_disk [of "am_paper_epoch_id m" "rt_dir rt"] ok mok False by (simp add: runtime_ok_def runtime_log_def)
  then have "rt' = rt \<and> res = Inr ()"
    using run ok by (simp add: ensure_epoch_def bindS_run getS_def liftS_def runtime_ok_def)
  with ok False show ?thesis by simp
next
  case True
  have m: "rt_manifest rt = m" "rt_events rt = runtime_log rt" using ok True by (auto simp: runtime_ok_def)
  have load: "load_epoch (am_paper_epoch_id (rt_manifest rt)) (rt_dir rt) = Inl EpochNotFoundError"
    using load_disk [of "am_paper_epoch_id m" "rt_dir rt"] ok mok True by (simp add: runtime_ok_def runtime_log_def)
  show ?thesis
  proof (cases "epoch_created_event rt")
    case (Inl err)
    then have "rt' = rt \<and> res = Inl err"
      using run load by (simp add: ensure_epoch_def bindS_def getS_def liftS_def)
    with Inl ok raises_onlyD [OF event_raises(4)] show ?thesis by simp
  next
    case (Inr e)
    note e = created_storable [OF Inr] dbl m(1)
    obtain r where app: "append_semantically_validated e rt = (rt', r)"
      and res: "res = (case r of Inl err \<Rightarrow> Inl err | Inr _ \<Rightarrow> Inr ())"
      using run load Inr by (auto simp: ensure_epoch_def bindS_def getS_def liftS_def split: prod.splits sum.splits)
    have ext: "\<forall>s. project (runtime_log rt @ [e]) = Inr s \<longrightarrow> checked_epoch m (runtime_log rt @ [e]) = Inr s"
      using checked_epoch_created [OF Inr] True dbl m(1) by simp
    have "event_wire_ok e" "runtime_log rt = [] \<or> in_step m rt" using e True by simp_all
    from ok mok this(1) m(2) this(2) ext app show ?thesis
      by (cases rule: append_validated)
        (use e True in \<open>auto simp: res in_step_def differs_def intro: exI [of _ "in_order e"]\<close>)
  qed
qed

lemma in_stepD:
  assumes "in_step m rt"
  shows "runtime_ok m rt" "rt_manifest rt = m" "rt_events rt = runtime_log rt"
    "checked_epoch m (runtime_log rt) = Inr (rt_projection rt)" "runtime_log rt \<noteq> []"
    "disk_ok (am_paper_epoch_id m) (rt_dir rt)"
  using assms checked_epoch_nonempty by (auto simp: in_step_def runtime_ok_def)

lemma unresolved_sequence:
  "unresolved_event now tid rt = Inr e \<Longrightarrow> le_sequence e = le_sequence (last (rt_events rt)) + 1"
  by (auto simp: unresolved_event_def make_position_unresolved_event_def bindE_eq_Inr lift_error_Inr
      new_ledger_event_def)

text \<open>The next event in sequence is not in the log yet.\<close>

lemma next_not_logged:
  assumes "in_step m rt" "le_sequence e = le_sequence (last (rt_events rt)) + 1"
  shows "in_order e \<notin> set (runtime_log rt)"
proof
  assume "in_order e \<in> set (runtime_log rt)"
  note s = in_stepD [OF assms(1)]
  have log: "runtime_log rt = epoch_log (rt_dir rt) (am_paper_epoch_id m)" using s(2) by (simp add: runtime_log_def)
  have "le_sequence e = int (length (runtime_log rt)) + 1"
    using assms(2) last_logged_sequence [OF s(6)] s(3,5) log by simp
  moreover have "le_sequence e \<in> set (map le_sequence (runtime_log rt))"
    using \<open>in_order e \<in> set (runtime_log rt)\<close> by (metis image_eqI in_order_simps(3) list.set_map)
  then have "le_sequence e \<le> int (length (runtime_log rt))"
    using logged_events(1) [OF s(6)] unfolding log by auto
  ultimately show False by simp
qed

lemma unresolved_closes_entry:
  assumes "project (es @ [e]) = Inr s'" "project es = Inr s" "le_event_type e = POSITION_UNRESOLVED"
    "le_trade_id e = Some tid"
  shows "open_positions s' = dict_del (open_positions s) tid"
proof -
  have "apply_event s e = Inr s'" using assms(1,2) by (simp add: project_snoc)
  then obtain seen where "apply_position_unresolved s e seen = Inr s'"
    using assms(3) by (auto elim: applied_event)
  then show ?thesis using assms(4) by (auto simp: apply_position_unresolved_def bindE_eq_Inr)
qed

lemma resolve_step:
  assumes step: "in_step m rt" and mok: "manifest_ok m" and now: "py_value now"
    and run: "resolve_expired now item rt = (rt', res)"
  shows "runtime_ok m rt' \<and> prefix (runtime_log rt) (runtime_log rt') \<and>
    (case res of Inl err \<Rightarrow> err \<noteq> differs
     | Inr _ \<Rightarrow> in_step m rt' \<and> (if rp_disposition item \<noteq> UNRESOLVED_REQUIRED then rt' = rt
         else open_positions (rt_projection rt') = dict_del (open_positions (rt_projection rt)) (rp_trade_id item)))"
proof (cases "rp_disposition item \<noteq> UNRESOLVED_REQUIRED")
  case True
  with run step in_stepD(1) [OF step] show ?thesis by (auto simp: resolve_expired_def liftS_def)
next
  case False
  note s = in_stepD [OF step]
  show ?thesis
  proof (cases "unresolved_event now (rp_trade_id item) rt")
    case (Inl err)
    with run False s(1) raises_onlyD [OF event_raises(3) Inl] show ?thesis
      by (auto simp: resolve_expired_def bindS_def getS_def liftS_def)
  next
    case (Inr e)
    note e = unresolved_storable [OF Inr now]
    obtain r where app: "append_semantically_validated e rt = (rt', r)"
      and res: "res = (case r of Inl err \<Rightarrow> Inl err | Inr _ \<Rightarrow> Inr ())"
      using run False Inr
      by (auto simp: resolve_expired_def bindS_def getS_def liftS_def split: prod.splits sum.splits)
    have wire: "event_wire_ok e" using e by simp
    have "runtime_log rt = [] \<or> in_step m rt"
      "\<forall>t. project (runtime_log rt @ [e]) = Inr t \<longrightarrow> checked_epoch m (runtime_log rt @ [e]) = Inr t"
      using step extends [OF s(4)] by blast+
    from s(1) mok wire s(3) this app show ?thesis
    proof (cases rule: append_validated)
      case stored
      with next_not_logged [OF step unresolved_sequence [OF Inr]] show ?thesis by simp
    next
      case (appended t)
      have "project (runtime_log rt) = Inr (rt_projection rt)" using s(4) by (simp add: checked_epoch_Inr)
      with unresolved_closes_entry [OF appended(3)] e appended False show ?thesis by (simp add: res in_step_def)
    qed (simp_all add: res differs_def False)
  qed
qed

text \<open>The whole loop takes out the positions of the plan that need it.\<close>

definition to_resolve :: "restart_position_plan list \<Rightarrow> string set" where
  "to_resolve items = {tid. \<exists>item \<in> set items. rp_disposition item = UNRESOLVED_REQUIRED \<and> rp_trade_id item = tid}"

lemma filter_del:
  "filter (\<lambda>(tid, _). tid \<notin> A) (dict_del d k) = filter (\<lambda>(tid, _). tid \<noteq> k \<and> tid \<notin> A) d"
  by (induction d) (auto simp: dict_del_def)

lemma resolve_all:
  assumes "in_step m rt" "manifest_ok m" "py_value now" "eachS (resolve_expired now) items rt = (rt', res)"
  shows "runtime_ok m rt' \<and> prefix (runtime_log rt) (runtime_log rt') \<and>
    (case res of Inl err \<Rightarrow> err \<noteq> differs
     | Inr _ \<Rightarrow> in_step m rt' \<and> (to_resolve items = {} \<longrightarrow> rt' = rt) \<and>
         open_positions (rt_projection rt') =
           filter (\<lambda>(tid, _). tid \<notin> to_resolve items) (open_positions (rt_projection rt)))"
  using assms(1,4)
proof (induction items arbitrary: rt)
  case Nil
  then show ?case using in_stepD(1) by (auto simp: liftS_def to_resolve_def case_prod_unfold)
next
  case (Cons item items)
  obtain rt1 r1 where one: "resolve_expired now item rt = (rt1, r1)" by fastforce
  note st = resolve_step [OF Cons.prems(1) assms(2,3) one]
  show ?case
  proof (cases r1)
    case (Inl err)
    then show ?thesis using st one Cons.prems(2) by (simp add: bindS_run)
  next
    case (Inr u)
    then have "in_step m rt1" "eachS (resolve_expired now) items rt1 = (rt', res)"
      using st one Cons.prems(2) by (auto simp: bindS_run)
    note ih = Cons.IH [OF this]
    have "to_resolve (item # items) =
        (if rp_disposition item = UNRESOLVED_REQUIRED then insert (rp_trade_id item) (to_resolve items)
         else to_resolve items)"
      by (auto simp: to_resolve_def)
    with st ih Inr show ?thesis
      by (cases res; cases "rp_disposition item = UNRESOLVED_REQUIRED")
        (auto simp: filter_del intro: prefix_order.trans)
  qed
qed

definition expired :: "pyfloat \<Rightarrow> open_position \<Rightarrow> bool" where
  "expired t p \<longleftrightarrow> (case op_recovery_until p of None \<Rightarrow> False | Some r \<Rightarrow> fl_lt r t)"

lemma resolved_are_expired:
  assumes "project events = Inr s" "epoch s = Some ep" "pe_schema_version ep = 2"
  shows "filter (\<lambda>(tid, _). tid \<notin> to_resolve (map (planned s t) (sort (dict_keys (open_positions s)))))
       (open_positions s) = filter (\<lambda>(_, p). \<not> expired t p) (open_positions s)"
proof (rule filter_cong [OF refl], clarify)
  fix tid p
  assume mem: "(tid, p) \<in> set (open_positions s)"
  have known: "epoch_known s" and "books_ok s" using projected_known [OF assms(1,2)] by simp_all
  then have get: "dict_get (open_positions s) tid = Some p"
    using mem by (simp add: books_ok_def map_of_is_SomeI)
  from known_replay_complete [OF known assms(2,3) get] obtain r where "op_recovery_until p = Some r" by blast
  then have "rp_disposition (planned s t tid) = UNRESOLVED_REQUIRED \<longleftrightarrow> expired t p"
    using get by (simp add: planned_def disposition_at_def expired_def)
  moreover have "tid \<in> to_resolve (map (planned s t) (sort (dict_keys (open_positions s)))) \<longleftrightarrow>
      rp_disposition (planned s t tid) = UNRESOLVED_REQUIRED"
    using mem by (force simp: to_resolve_def)
  ultimately show "(tid \<notin> to_resolve (map (planned s t) (sort (dict_keys (open_positions s))))) = (\<not> expired t p)"
    by simp
qed

lemma nothing_expired:
  assumes "project events = Inr s" "epoch s = Some ep" "pe_schema_version ep = 2"
    and "filter (\<lambda>(_, p). expired t p) (open_positions s) = []"
  shows "to_resolve (map (planned s t) (sort (dict_keys (open_positions s)))) = {}" (is "?r = {}")
proof -
  have "filter (\<lambda>(_, p). \<not> expired t p) (open_positions s) = open_positions s"
    using assms(4) by (auto simp: filter_empty_conv filter_id_conv)
  then have "\<forall>(tid, _) \<in> set (open_positions s). tid \<notin> ?r"
    using resolved_are_expired [OF assms(1-3), of t] by (simp add: filter_id_conv split_beta)
  moreover have "?r \<subseteq> set (dict_keys (open_positions s))" by (auto simp: to_resolve_def)
  ultimately show ?thesis by fastforce
qed

lemma plan_time:
  "plan_restart_recovery s now = Inr plan \<Longrightarrow> \<exists>t. float_of_number now = Some t \<and> fl_finite t"
  by (auto simp: plan_restart_recovery_def bindE_eq_Inr)

text \<open>From a runtime that has just reloaded: the rest of \<^verbatim>\<open>bind\<close>.\<close>

definition resolve_plan :: "pyval \<Rightarrow> unit runtime_method" where
  "resolve_plan now =
     bindS (getS (\<lambda>rt. lift_error PlanError (plan_restart_recovery (rt_projection rt) now))) (\<lambda>r.
     bindS (liftS r) (\<lambda>plan. eachS (resolve_expired now) (rr_positions plan)))"

lemma resolve_plan_cases:
  assumes step: "in_step m rt" and mok: "manifest_ok m" and now: "py_value now"
    and run: "resolve_plan now rt = (rt', res)"
  shows "runtime_ok m rt' \<and> prefix (runtime_log rt) (runtime_log rt') \<and>
    (case res of Inl err \<Rightarrow> err \<noteq> differs
     | Inr _ \<Rightarrow> in_step m rt' \<and> (\<exists>t. float_of_number now = Some t \<and> fl_finite t \<and>
         (filter (\<lambda>(_, p). expired t p) (open_positions (rt_projection rt)) = [] \<longrightarrow> rt' = rt) \<and>
         open_positions (rt_projection rt') =
           filter (\<lambda>(_, p). \<not> expired t p) (open_positions (rt_projection rt))))"
proof (cases "plan_restart_recovery (rt_projection rt) now")
  case (Inl err)
  with run in_stepD(1) [OF step] show ?thesis
    by (auto simp: resolve_plan_def bindS_def getS_def liftS_def differs_def)
next
  case (Inr plan)
  obtain t where t: "float_of_number now = Some t" "fl_finite t" using plan_time [OF Inr] by blast
  obtain ep where s: "project (runtime_log rt) = Inr (rt_projection rt)" "epoch (rt_projection rt) = Some ep"
    "pe_schema_version ep = 2"
    using in_stepD(4) [OF step] by (auto simp: checked_epoch_Inr)
  let ?open = "open_positions (rt_projection rt)"
  have items: "rr_positions plan = map (planned (rt_projection rt) t) (sort (dict_keys ?open))"
    using plan_planned [OF s t] Inr by auto
  have each: "eachS (resolve_expired now) (rr_positions plan) rt = (rt', res)"
    using run Inr by (simp add: resolve_plan_def bindS_def getS_def liftS_def)
  have nothing: "to_resolve (rr_positions plan) = {}" if "filter (\<lambda>(_, p). expired t p) ?open = []"
    using nothing_expired [OF s that] by (simp only: items)
  then have same: "rt' = rt" if "res = Inr ()" "filter (\<lambda>(_, p). expired t p) ?open = []"
    using that resolve_all [OF step mok now each] by simp
  show ?thesis
  proof (cases res)
    case (Inr u)
    with resolve_all [OF step mok now each] t resolved_are_expired [OF s, of t] same show ?thesis
      by (simp add: items del: filter_empty_conv)
  qed (use resolve_all [OF step mok now each] in simp)
qed

lemma resolve_nothing:
  assumes step: "in_step m rt" and t: "float_of_number now = Some t" "fl_finite t"
    and none: "filter (\<lambda>(_, p). expired t p) (open_positions (rt_projection rt)) = []"
  shows "resolve_plan now rt = (rt, Inr ())"
proof -
  obtain ep where s: "project (runtime_log rt) = Inr (rt_projection rt)" "epoch (rt_projection rt) = Some ep"
    "pe_schema_version ep = 2"
    using in_stepD(4) [OF step] by (auto simp: checked_epoch_Inr)
  have "eachS (resolve_expired now) items rt = (rt, Inr ())" if "to_resolve items = {}" for items
    using that by (induction items) (auto simp: liftS_def bindS_def resolve_expired_def to_resolve_def)
  then show ?thesis
    using nothing_expired [OF s none] plan_planned [OF s t]
    by (simp add: resolve_plan_def bindS_def getS_def liftS_def)
qed

lemma bind_steps_plan: "bind_steps now = bindS ensure_epoch (\<lambda>_. bindS reload (\<lambda>_. resolve_plan now))"
  by (simp add: bind_steps_def resolve_plan_def)

lemma created_no_positions:
  assumes "project [e] = Inr s" "le_event_type e = EPOCH_CREATED"
  shows "open_positions s = []"
proof -
  have "apply_event empty_state e = Inr s" using assms(1) by (simp add: project_def bindE_eq_Inr)
  then obtain seen where "apply_epoch_created empty_state e seen = Inr s"
    using assms(2) by (auto elim: applied_event)
  then show ?thesis by (auto simp: apply_epoch_created_def bindE_eq_Inr)
qed

text \<open>The runtime as it stands once its epoch exists and has been read.\<close>

lemma ready_cases:
  assumes ok: "runtime_ok m rt" and mok: "manifest_ok m" and dbl: "manifest_doubles m"
    and run: "bindS ensure_epoch (\<lambda>_. reload) rt = (rt1, res)"
  shows "runtime_ok m rt1 \<and> prefix (runtime_log rt) (runtime_log rt1) \<and>
    (case res of Inl err \<Rightarrow> err \<noteq> differs
     | Inr _ \<Rightarrow> in_step m rt1 \<and> (in_step m rt \<longrightarrow> rt1 = rt) \<and> (\<exists>s. project (runtime_log rt) = Inr s \<and>
         open_positions s = open_positions (rt_projection rt1)))"
proof -
  obtain rt0 r0 where ens: "ensure_epoch rt = (rt0, r0)" by fastforce
  note e = ensure_epoch_cases [OF ok mok dbl ens]
  show ?thesis
  proof (cases r0)
    case (Inl err)
    then have "rt1 = rt0" "res = Inl err" using run ens by (auto simp: bindS_run)
    with e Inl show ?thesis by simp
  next
    case (Inr u)
    then have rel: "reload rt0 = (rt1, res)" using run ens by (auto simp: bindS_run)
    have ne: "runtime_log rt0 \<noteq> []" using e Inr by (auto split: if_splits)
    have ok0: "runtime_ok m rt0" using e by blast
    obtain s where s: "checked_epoch m (runtime_log rt0) = Inr s"
      "rt1 = rt0\<lparr>rt_events := runtime_log rt0, rt_projection := s\<rparr>" "res = Inr ()" "in_step m rt1"
      using reload_ok [OF ok0 mok] ne rel by auto
    have log: "runtime_log rt1 = runtime_log rt0" by (simp add: s(2) runtime_log_def)
    have "\<exists>t. project (runtime_log rt) = Inr t \<and> open_positions t = open_positions s"
    proof (cases "runtime_log rt = []")
      case True
      then obtain ev where "le_event_type ev = EPOCH_CREATED" "runtime_log rt0 = [ev]" using e Inr by auto
      then have "open_positions s = []" using s(1) created_no_positions by (auto simp: checked_epoch_Inr)
      with True show ?thesis by (simp add: project_def)
    next
      case False
      with e Inr s(1) show ?thesis by (auto simp: checked_epoch_Inr)
    qed
    moreover have "rt1 = rt" if "in_step m rt"
      using that e Inr s(1,2) in_stepD(3,4,5) [OF that] by auto
    ultimately show ?thesis using e s ok0 log by (auto simp: in_step_def)
  qed
qed

lemma status_kept [simp]:
  "runtime_log (rt\<lparr>rt_status := a, rt_last_error := b\<rparr>) = runtime_log rt"
  "runtime_ok m (rt\<lparr>rt_status := a, rt_last_error := b\<rparr>) = runtime_ok m rt"
  "in_step m (rt\<lparr>rt_status := a, rt_last_error := b\<rparr>) = in_step m rt"
  by (simp_all add: in_step_def runtime_ok_def runtime_log_def)

lemma bind_cases:
  assumes ok: "runtime_ok m rt" and mok: "manifest_ok m" and dbl: "manifest_doubles m" and now: "py_value now"
    and run: "bind_runtime now rt = (rt', res)"
  shows "runtime_ok m rt' \<and> prefix (runtime_log rt) (runtime_log rt') \<and>
    (case res of Inl err \<Rightarrow> err \<noteq> differs \<and> rt_status rt' = RUNTIME_DEGRADED \<and> rt_last_error rt' = Some err
     | Inr s \<Rightarrow> in_step m rt' \<and> rt_status rt' = RUNTIME_READY \<and> rt_last_error rt' = None \<and> s = rt_projection rt' \<and>
         (\<exists>t s0. float_of_number now = Some t \<and> fl_finite t \<and> project (runtime_log rt) = Inr s0 \<and>
            open_positions s = filter (\<lambda>(_, p). \<not> expired t p) (open_positions s0)))"
proof -
  obtain rt2 r2 where steps: "bind_steps now rt = (rt2, r2)" by fastforce
  obtain rt1 r1 where ready: "bindS ensure_epoch (\<lambda>_. reload) rt = (rt1, r1)" by fastforce
  note r = ready_cases [OF ok mok dbl ready]
  show ?thesis
  proof (cases r1)
    case (Inl err)
    then have "rt2 = rt1" "r2 = Inl err"
      using steps ready by (auto simp: bind_steps_plan bindS_run)
    with r Inl run steps show ?thesis by (auto simp: bind_runtime_def)
  next
    case (Inr u)
    then have plan: "resolve_plan now rt1 = (rt2, r2)" using steps ready by (auto simp: bind_steps_plan bindS_run)
    have step1: "in_step m rt1" using r Inr by simp
    note p = resolve_plan_cases [OF step1 mok now plan]
    have "prefix (runtime_log rt) (runtime_log rt2)" using r p prefix_order.trans by blast
    with r Inr p run steps show ?thesis by (cases r2) (auto simp: bind_runtime_def)
  qed
qed

section \<open>The guarantees\<close>

lemma loaded_in_step:
  assumes "in_step m rt" "manifest_ok m"
  shows "load_epoch (am_paper_epoch_id m) (rt_dir rt) = Inr (rt_events rt)"
    "project (rt_events rt) = Inr (rt_projection rt)"
  using in_stepD [OF assms(1)] load_disk [of "am_paper_epoch_id m" "rt_dir rt"] assms(2)
  by (simp_all add: runtime_log_def checked_epoch_Inr)

text \<open>
  C4: A successful restart leaves no position whose recovery window has passed. \<^verbatim>\<open>bind\<close> returns
  the projection of exactly the events on disk; its open positions are those the disk had before
  whose recovery deadline is not behind \<open>now\<close>, untouched and in order; and binding again at the
  same time changes nothing.
\<close>

theorem bind_resolves_expired:
  assumes "runtime_ok m rt" and "manifest_ok m" and "manifest_doubles m" and "py_value now"
    and "bind_runtime now rt = (rt', Inr s)"
  shows "load_epoch (am_paper_epoch_id m) (rt_dir rt') = Inr (rt_events rt') \<and>
    project (rt_events rt') = Inr s \<and> rt_status rt' = RUNTIME_READY \<and>
    (\<exists>t s0. float_of_number now = Some t \<and> project (runtime_log rt) = Inr s0 \<and>
       open_positions s = filter (\<lambda>(_, p). \<not> expired t p) (open_positions s0)) \<and>
    bind_runtime now rt' = (rt', Inr s)"
proof -
  obtain t s0 where step: "in_step m rt'" and s: "s = rt_projection rt'"
    and st: "rt_status rt' = RUNTIME_READY" "rt_last_error rt' = None"
    and t: "float_of_number now = Some t" "fl_finite t" and s0: "project (runtime_log rt) = Inr s0"
    and kept: "open_positions s = filter (\<lambda>(_, p). \<not> expired t p) (open_positions s0)"
    using bind_cases [OF assms] by auto
  note loaded = loaded_in_step [OF step assms(2)]
  have "filter (\<lambda>(_, p). expired t p) (open_positions s) = []" by (auto simp: kept filter_empty_conv)
  then have "resolve_plan now rt' = (rt', Inr ())" using resolve_nothing [OF step t] s by blast
  moreover have "ensure_epoch rt' = (rt', Inr ())" "reload rt' = (rt', Inr ())"
    using loaded in_stepD [OF step] by (simp_all add: ensure_epoch_def bindS_def getS_def liftS_def reload_def)
  ultimately have "bind_runtime now rt' = (rt', Inr s)"
    using s st by (simp add: bind_runtime_def bind_steps_plan bindS_def)
  with loaded s st t(1) s0 kept show ?thesis by auto
qed

section \<open>A first start\<close>

lemma new_runtime_ok:
  assumes "manifest_ok m" "list_all whole_io io"
  shows "runtime_ok m (new_runtime m None io)" "runtime_log (new_runtime m None io) = []"
  using assms by (simp_all add: runtime_ok_def new_runtime_def runtime_log_def)

lemma strip_nonempty: "py_strip x \<noteq> [] \<Longrightarrow> x \<noteq> []"
  by (auto simp: py_strip_def)

lemma created_exists:
  assumes "manifest_ok m" "rt_manifest rt = m"
  shows "\<exists>e. epoch_created_event rt = Inr e \<and> le_sequence e = 1 \<and> event_ok e"
proof -
  obtain eid where "authority_event_id m EPOCH_CREATED ''epoch'' = Some eid" "eid \<noteq> []"
    using assms(1)
    by (auto simp: authority_event_id_def event_domain_and_prefix_def manifest_ok_def role_ok_def split: if_splits)
  moreover have "fl_finite (am_created_at m)" "am_paper_epoch_id m \<noteq> []"
    using assms(1) by (auto simp: manifest_ok_def dest: strip_nonempty)
  ultimately show ?thesis
    using assms(2)
    by (auto simp: epoch_created_event_def make_epoch_created_event_def runtime_event_id_def new_ledger_event_def
        event_require_finite_def trade_scoped_event_types_def event_ok_def)
qed

lemma created_projects:
  assumes "manifest_ok m" "manifest_doubles m" "rt_manifest rt = m" "epoch_created_event rt = Inr e" "le_sequence e = 1"
    and "event_ok e"
  shows "\<exists>s. project [e] = Inr s \<and> open_positions s = [] \<and> available_cash s = am_initial_virtual_capital m"
    "\<exists>line. canonical_line e = Inr line"
proof -
  note e = created_storable [OF assms(4)] assms(2,3,5)
  have m: "fl_finite (am_initial_virtual_capital m)" "fl_lt (Fin 0) (am_initial_virtual_capital m)"
    "am_code_sha m \<noteq> []" "am_config_snapshot_hash m \<noteq> []" "am_paper_epoch_id m \<noteq> []" "fl_finite (le_timestamp e)"
    using assms(1,6) by (auto simp: manifest_ok_def event_ok_def dest: strip_nonempty)
  moreover from m(2) have "\<not> fl_le (am_initial_virtual_capital m) (Fin 0)"
    by (cases "am_initial_virtual_capital m") auto
  ultimately show "\<exists>s. project [e] = Inr s \<and> open_positions s = [] \<and> available_cash s = am_initial_virtual_capital m"
    using e by (auto simp: project_def apply_event_def check_event_def apply_epoch_created_def get_finite_def
        payload_get_def finite_value_def new_paper_epoch_def require_finite_def Let_def)
  have "jsonable_payload (le_payload e) = Inr (map (\<lambda>(k, v). (k, json_of v)) (le_payload e))"
    using e m(1) by (simp add: jsonable_payload_Inr)
  moreover have finite_opt: "all_finite (json_of_opt x)" for x by (cases x) simp_all
  ultimately show "\<exists>line. canonical_line e = Inr line"
    using e m assms(6) finite_opt
    by (auto simp: canonical_line_Inr event_to_record_Inr validate_payload_def bindE_eq_Inr field_of_def event_fields_def)
qed

lemma first_bind_ok:
  assumes "new_manifest kwargs = Inr m" and "manifest_doubles m" and "py_value now"
    and "float_of_number now = Some t" and "fl_finite t"
  shows "\<exists>rt s. bind_runtime now (new_runtime m None []) = (rt, Inr s) \<and> open_positions s = [] \<and>
    available_cash s = am_initial_virtual_capital m \<and> length (rt_events rt) = 1"
proof -
  let ?rt = "new_runtime m None []"
  have mok: "manifest_ok m" using assms(1) by (simp add: new_manifest_Inr)
  have rt: "runtime_ok m ?rt" "runtime_log ?rt = []" "rt_manifest ?rt = m" "rt_events ?rt = []" "rt_dir ?rt = None"
    using new_runtime_ok [OF mok, of "[]"] by (simp_all add: new_runtime_def)
  obtain e where e: "epoch_created_event ?rt = Inr e" "le_sequence e = 1" "event_ok e"
    using created_exists [OF mok rt(3)] by blast
  note c = created_storable [OF e(1)] assms(2) rt(3)
  obtain s line where s: "project [e] = Inr s" "open_positions s = []" "available_cash s = am_initial_virtual_capital m"
    and line: "canonical_line e = Inr line"
    using created_projects [OF mok assms(2) rt(3) e] by blast
  let ?dir = "Some (durable_append Synced [] (epoch_path (am_paper_epoch_id m)) line)"
  have app: "append_event Synced (am_paper_epoch_id m) e None = (?dir, Inr (result_of APPENDED e))"
    using line e(2) c mok by (simp add: append_event_def scan_store_def append_decision_def)
  have stored: "store_append e ?rt = (?rt\<lparr>rt_dir := ?dir\<rparr>, Inr (result_of APPENDED e))"
    using app rt(3) by (simp add: store_append_def new_runtime_def)
  have wire: "event_wire_ok e" using c by simp
  have log: "runtime_log (?rt\<lparr>rt_dir := ?dir\<rparr>) = [in_order e]" and disk: "disk_ok (am_paper_epoch_id m) ?dir"
    using append_disk [OF _ wire _ app] rt(3) by (auto simp: runtime_log_def whole_io_def result_of_def)
  have chk: "checked_epoch m [in_order e] = Inr s"
    using checked_epoch_created [OF e(1)] c s(1) apply_event_in_order [of e] wire
    by (simp add: checked_epoch_Inr project_def event_wire_ok_def)
  have ok1: "runtime_ok m (?rt\<lparr>rt_dir := ?dir\<rparr>)"
    using rt(1) disk log chk by (simp add: runtime_ok_def new_runtime_def)
  have pros: "prospective e ?rt = Inr s" using rt(4) s(1) by (simp add: prospective_def existing_event_def)
  obtain rt1 r where run: "append_semantically_validated e ?rt = (rt1, r)" by fastforce
  have a: "r = Inr (result_of APPENDED e) \<and> runtime_log rt1 = [in_order e] \<and> rt_projection rt1 = s \<and> in_step m rt1"
    using append_confirmed [OF mok wire ok1 pros stored _ run] log chk by simp
  then have step: "in_step m rt1" by blast
  have "load_epoch (am_paper_epoch_id m) None = Inl EpochNotFoundError" using mok by (simp add: load_epoch_def)
  then have "ensure_epoch ?rt = (rt1, Inr ())"
    using e(1) run a rt(3,5) by (simp add: ensure_epoch_def bindS_def getS_def liftS_def)
  moreover have "reload rt1 = (rt1, Inr ())"
    using loaded_in_step [OF step mok] in_stepD [OF step] by (simp add: reload_def)
  moreover have "resolve_plan now rt1 = (rt1, Inr ())"
    using resolve_nothing [OF step assms(4,5)] a s(2) by simp
  moreover have "rt_events rt1 = [in_order e]" using a in_stepD(3) [OF step] by simp
  ultimately show ?thesis using a s by (simp add: bind_runtime_def bind_steps_plan bindS_def)
qed

text \<open>
  A first start always succeeds. On a disk without a store, with writes that reach it, binding
  any accepted manifest at any finite time creates its epoch, and returns the empty portfolio with
  the whole initial capital as cash.
\<close>

theorem first_bind:
  assumes "new_manifest kwargs = Inr m" and "manifest_doubles m" and "py_value now"
    and "float_of_number now = Some t" and "fl_finite t"
  shows "\<exists>rt s. bind_runtime now (new_runtime m None []) = (rt, Inr s) \<and> open_positions s = [] \<and>
    available_cash s = am_initial_virtual_capital m \<and> length (rt_events rt) = 1"
  using first_bind_ok [OF assms] .

theorem first_bind_witness:
  "\<exists>rt s. bind_runtime (VInt 5) (new_runtime sample_manifest None []) = (rt, Inr s) \<and> open_positions s = [] \<and>
    available_cash s = Fin 1000"
proof -
  have "float_of_number (VInt 5) = Some (Fin 5)" by simp
  from first_bind [OF sample_manifest_built _ this] show ?thesis by (auto simp: sample_manifest_def)
qed

theorem bind_resolves_expired_witness:
  "\<exists>rt s. bind_runtime (VInt 5) (new_runtime sample_manifest None []) = (rt, Inr s) \<and>
    bind_runtime (VInt 5) rt = (rt, Inr s) \<and> rt_status rt = RUNTIME_READY"
proof -
  have mok: "manifest_ok sample_manifest" using sample_manifest_built(1) by (simp add: new_manifest_Inr)
  have "float_of_number (VInt 5) = Some (Fin 5)" by simp
  from first_bind_ok [OF sample_manifest_built _ this] obtain rt s where
    run: "bind_runtime (VInt 5) (new_runtime sample_manifest None []) = (rt, Inr s)" by auto
  have "runtime_ok sample_manifest (new_runtime sample_manifest None [])" using new_runtime_ok [OF mok] by simp
  from bind_resolves_expired [OF this mok sample_manifest_built(2) _ run] run show ?thesis by auto
qed

section \<open>What a commit promises\<close>

text \<open>The position that a request asks for, field by field, but for its place in the history.\<close>

definition position_of_request :: "open_request \<Rightarrow> open_position \<Rightarrow> bool" where
  "position_of_request q p \<longleftrightarrow>
     op_trade_id p = oq_trade_id q \<and> op_symbol p = py_str (oq_symbol q) \<and>
     (\<exists>raw. oq_side q = VStr raw \<and>
        (op_side p = LONG \<and> py_upper (py_strip raw) \<in> {''LONG'', ''BUY''} \<or>
         op_side p = SHORT \<and> py_upper (py_strip raw) \<in> {''SHORT'', ''SELL''})) \<and>
     float_of_number (oq_principal q) = Some (op_principal p) \<and>
     float_of_number (oq_entry_price q) = Some (op_entry_price p) \<and>
     float_of_number (oq_entry_fee q) = Some (op_entry_fee p) \<and>
     float_of_number (oq_opened_at q) = Some (op_opened_at p) \<and>
     (\<exists>tp sl timeout recovery.
        float_of_number (oq_tp_price q) = Some tp \<and> op_tp_price p = Some tp \<and>
        float_of_number (oq_sl_price q) = Some sl \<and> op_sl_price p = Some sl \<and>
        float_of_number (oq_timeout_at q) = Some timeout \<and> op_timeout_at p = Some timeout \<and>
        float_of_number (oq_recovery_until q) = Some recovery \<and> op_recovery_until p = Some recovery)"

lemma opened_names:
  assumes "apply_position_opened s e seen = Inr s'" "le_trade_id e = Some tid"
  obtains p symbol raw where "dict_get (open_positions s') tid = Some p" "payload_get e ''symbol'' = Inr symbol"
    "op_symbol p = py_str symbol" "payload_get e ''side'' = Inr raw" "side_of_payload raw = Inr (op_side p)"
  using assms unfolding apply_position_opened_def by (auto simp: result_simps split: prod.splits)

lemma finite_float: "event_require_finite name v = Inr x \<Longrightarrow> float_of_number v = Some x"
  by (auto simp: event_require_finite_def split: if_splits option.splits)

lemma side_value_read: "side_of_payload (VStr (side_value sd)) = Inr sd' \<Longrightarrow> sd' = sd"
  by (cases sd) simp_all

lemma opened_terms_kept:
  assumes "opened_event q rt = Inr e" "project (es @ [e]) = Inr s"
  shows "\<exists>p. dict_get (open_positions s) (oq_trade_id q) = Some p \<and> position_of_request q p \<and> op_opened_sequence p = last_sequence s"
proof -
  from assms(1) obtain eid sd terms where
    built: "new_ledger_event eid (am_paper_epoch_id (rt_manifest rt)) (VInt (next_sequence eid rt)) POSITION_OPENED
      (oq_opened_at q) (Some (oq_trade_id q)) (oq_decision_id q)
      ([(''symbol'', oq_symbol q), (''side'', VStr (side_value sd)), (''principal'', oq_principal q),
        (''entry_price'', oq_entry_price q), (''entry_fee'', oq_entry_fee q)] @ terms) (VInt 2) = Inr e"
    and terms: "replay_terms_payload (oq_opened_at q) (oq_tp_price q) (oq_sl_price q) (oq_timeout_at q)
        (oq_recovery_until q) = Inr terms"
    and side: "normalize_side (oq_side q) = Inr sd"
    by (auto simp: opened_event_def make_position_opened_event_def bindE_eq_Inr lift_error_Inr Let_def)
  have v: "le_schema_version e = 2" and ts: "event_require_finite ''timestamp'' (oq_opened_at q) = Inr (le_timestamp e)"
    using built by (auto simp: new_ledger_event_def bindE_eq_Inr)
  note e = new_ledger_event_ok [OF built]
  obtain s0 seen where app: "apply_position_opened s0 e seen = Inr s"
    using assms(2) e by (auto simp: project_snoc bindE_eq_Inr elim!: applied_event)
  obtain tp sl timeout recovery where t: "event_require_finite ''tp_price'' (oq_tp_price q) = Inr tp"
    "event_require_finite ''sl_price'' (oq_sl_price q) = Inr sl"
    "event_require_finite ''timeout_at'' (oq_timeout_at q) = Inr timeout"
    "event_require_finite ''recovery_eligible_until'' (oq_recovery_until q) = Inr recovery"
    "map_of terms ''tp_price'' = Some (VFloat tp)" "map_of terms ''sl_price'' = Some (VFloat sl)"
    "map_of terms ''timeout_at'' = Some (VFloat timeout)"
    "map_of terms ''recovery_eligible_until'' = Some (VFloat recovery)"
    using terms by (auto simp: replay_terms_payload_def bindE_eq_Inr)
  have payload: "payload_get e ''principal'' = Inr (oq_principal q)" "payload_get e ''entry_price'' = Inr (oq_entry_price q)"
    "payload_get e ''entry_fee'' = Inr (oq_entry_fee q)" "payload_get e ''tp_price'' = Inr (VFloat tp)"
    "payload_get e ''sl_price'' = Inr (VFloat sl)" "payload_get e ''timeout_at'' = Inr (VFloat timeout)"
    "payload_get e ''recovery_eligible_until'' = Inr (VFloat recovery)"
    "payload_get e ''symbol'' = Inr (oq_symbol q)" "payload_get e ''side'' = Inr (VStr (side_value sd))"
    using e t by (simp_all add: payload_get_def)
  have tid: "le_trade_id e = Some (oq_trade_id q)" using e by simp
  from app obtain p where p: "dict_get (open_positions s) (oq_trade_id q) = Some p" "opened_position e (oq_trade_id q) p"
    "last_sequence s = le_sequence e"
    using tid by (auto elim!: applied_opened)
  have names: "op_symbol p = py_str (oq_symbol q)" "op_side p = sd"
    using app tid by (rule opened_names, use p(1) payload(8,9) side_value_read in auto)+
  from p(2) have got: "get_finite e ''principal'' True False = Inr (op_principal p)"
      "get_finite e ''entry_price'' True False = Inr (op_entry_price p)"
      "get_finite e ''entry_fee'' False True = Inr (op_entry_fee p)"
      "opened_terms e (le_timestamp e) = Inr (op_tp_price p, op_sl_price p, op_timeout_at p, op_recovery_until p)"
      "op_trade_id p = oq_trade_id q" "op_opened_at p = le_timestamp e" "op_opened_sequence p = le_sequence e"
    by (simp_all add: opened_position_def position_ok_def)
  have "op_tp_price p = Some tp" "op_sl_price p = Some sl" "op_timeout_at p = Some timeout" "op_recovery_until p = Some recovery"
    using got(4) v payload(4-7) by (auto simp: opened_terms_def bindE_eq_Inr get_finite_def finite_value_def split: if_splits)
  moreover note t(1-4) [THEN finite_float] ts [THEN finite_float]
  moreover have "float_of_number (oq_principal q) = Some (op_principal p)" "float_of_number (oq_entry_price q) = Some (op_entry_price p)"
      "float_of_number (oq_entry_fee q) = Some (op_entry_fee p)"
    using got(1-3) payload(1-3) by (auto simp: get_finite_def finite_value_def split: if_splits option.splits)
  moreover have "\<exists>raw. oq_side q = VStr raw \<and> (sd = LONG \<and> py_upper (py_strip raw) \<in> {''LONG'', ''BUY''} \<or>
      sd = SHORT \<and> py_upper (py_strip raw) \<in> {''SHORT'', ''SELL''})"
  proof (cases "oq_side q")
    case (VStr raw)
    then show ?thesis using side normalize_side_table [of raw sd] by auto
  qed (use side in simp_all)
  ultimately have "position_of_request q p" using got(5,6) names unfolding position_of_request_def by simp
  with p got(7) show ?thesis by auto
qed

lemma load_of_log:
  assumes "runtime_ok m rt" "manifest_ok m"
  shows "load_epoch (am_paper_epoch_id m) (rt_dir rt) =
    (if runtime_log rt = [] then Inl EpochNotFoundError else Inr (runtime_log rt))"
  using assms load_disk [of "am_paper_epoch_id m" "rt_dir rt"] by (simp add: runtime_ok_def runtime_log_def)

text \<open>
  C5: What an acknowledgement of \<^verbatim>\<open>commit_open\<close> is worth. When it returns, the memory is exactly the
  replay of the disk, and if it reports a new event, the disk has one event more, the last of the history, and the trade is
  open with the symbol, the side, the amounts, the exit prices, the time and the deadlines of the request, each in its place. When it raises, nothing has changed on disk,
  unless the error is the operating system's; and the check that the durable projection is the
  validated one never fails.
\<close>

theorem commit_open_durable:
  assumes "runtime_ok m rt" and "manifest_ok m" and "open_values q" and "commit_open q rt = (rt', res)"
  shows "case res of
      Inr r \<Rightarrow> load_epoch (am_paper_epoch_id m) (rt_dir rt') = Inr (rt_events rt') \<and>
        project (rt_events rt') = Inr (rt_projection rt') \<and>
        (ar_status r = APPENDED \<longrightarrow> length (rt_events rt') = length (runtime_log rt) + 1 \<and>
           (\<exists>p. dict_get (open_positions (rt_projection rt')) (oq_trade_id q) = Some p \<and> position_of_request q p \<and>
              op_opened_sequence p = last_sequence (rt_projection rt')))
    | Inl err \<Rightarrow> err \<noteq> PPLAuthorityRuntimeError ''projection differs'' \<and>
        (err = StoreError StoreOSError \<or>
         load_epoch (am_paper_epoch_id m) (rt_dir rt') = load_epoch (am_paper_epoch_id m) (rt_dir rt))"
proof -
  have run: "commit (opened_event q) rt = (rt', res)" using assms(4) by (simp add: commit_open_def)
  from assms(1,2) opened_builds [OF assms(3)] run show ?thesis
  proof (cases rule: commit_cases)
    case (refused err)
    then show ?thesis
      using load_of_log [OF assms(1,2)] load_of_log [OF _ assms(2)] by (simp add: differs_def)
  next
    case (stored rt1 e)
    then show ?thesis using loaded_in_step [OF _ assms(2)] by (simp add: result_of_def)
  next
    case (appended rt1 e s)
    have "load_epoch (am_paper_epoch_id m) (rt_dir rt') = Inr (rt_events rt')"
      "project (rt_events rt') = Inr (rt_projection rt')" "length (rt_events rt') = length (runtime_log rt) + 1"
      using loaded_in_step [OF appended(8) assms(2)] in_stepD(3) [OF appended(8)] appended(5) by simp_all
    with opened_terms_kept [OF appended(1) appended(6)] appended(4,7) show ?thesis by (simp add: result_of_def)
  next
    case (unsynced e)
    then show ?thesis by simp
  qed
qed

definition sample_open_request :: open_request where
  "sample_open_request = \<lparr>oq_trade_id = ''A'', oq_symbol = VStr ''BTC'', oq_side = VStr ''LONG'', oq_principal = VInt 100,
     oq_entry_price = VInt 4, oq_entry_fee = VInt 1, oq_opened_at = VInt 2, oq_tp_price = VInt 6, oq_sl_price = VInt 3,
     oq_timeout_at = VInt 10, oq_recovery_until = VInt 20, oq_decision_id = None\<rparr>"

theorem commit_open_durable_witness:
  "\<exists>rt. length (runtime_log rt) = 1 \<and>
     (case snd (commit_open sample_open_request rt) of
        Inl err \<Rightarrow> err \<noteq> PPLAuthorityRuntimeError ''projection differs''
      | Inr r \<Rightarrow> ar_status r = APPENDED \<longrightarrow>
          length (rt_events (fst (commit_open sample_open_request rt))) = 2 \<and>
          (\<exists>p. dict_get (open_positions (rt_projection (fst (commit_open sample_open_request rt)))) ''A'' = Some p \<and>
             op_side p = LONG \<and> op_symbol p = ''BTC'' \<and> op_principal p = Fin 100 \<and> op_tp_price p = Some (Fin 6) \<and>
             op_sl_price p = Some (Fin 3)))"
proof -
  have mok: "manifest_ok sample_manifest" using sample_manifest_built(1) by (simp add: new_manifest_Inr)
  have "float_of_number (VInt 5) = Some (Fin 5)" by simp
  from first_bind_ok [OF sample_manifest_built _ this] obtain rt s where
    run: "bind_runtime (VInt 5) (new_runtime sample_manifest None []) = (rt, Inr s)" "length (rt_events rt) = 1" by auto
  have "runtime_ok sample_manifest (new_runtime sample_manifest None [])" using new_runtime_ok [OF mok] by simp
  then have step: "in_step sample_manifest rt"
    using bind_cases [OF _ mok sample_manifest_built(2) _ run(1)] by simp
  have "open_values sample_open_request" by (simp add: open_values_def sample_open_request_def)
  have "position_of_request sample_open_request p \<Longrightarrow> op_side p = LONG \<and> op_symbol p = ''BTC'' \<and> op_principal p = Fin 100 \<and>
      op_tp_price p = Some (Fin 6) \<and> op_sl_price p = Some (Fin 3)" for p
    by (auto simp: position_of_request_def sample_open_request_def) code_simp+
  note asked = this
  obtain rt' res where "commit_open sample_open_request rt = (rt', res)" by fastforce
  with commit_open_durable [OF in_stepD(1) [OF step] mok \<open>open_values sample_open_request\<close> this] run(2)
    in_stepD(3) [OF step]
    asked
  show ?thesis by (intro exI [of _ rt]) (auto split: sum.splits simp: sample_open_request_def)
qed

section \<open>Histories\<close>

datatype authority_call = Bind pyval | CommitOpen open_request | CommitClose close_request | View | Restart

fun run_authority :: "authority_call \<Rightarrow> authority_runtime \<Rightarrow> authority_runtime" where
  "run_authority (Bind now) rt = fst (bind_runtime now rt)"
| "run_authority (CommitOpen q) rt = fst (commit_open q rt)"
| "run_authority (CommitClose q) rt = fst (commit_close q rt)"
| "run_authority View rt = fst (consistent_view rt)"
| "run_authority Restart rt = new_runtime (rt_manifest rt) (rt_dir rt) (rt_io rt)"

fun call_values :: "authority_call \<Rightarrow> bool" where
  "call_values (Bind now) = py_value now"
| "call_values (CommitOpen q) = open_values q"
| "call_values (CommitClose q) = close_values q"
| "call_values _ = True"

lemma commit_keeps:
  assumes "runtime_ok m rt" "manifest_ok m" "builds m build"
  shows "runtime_ok m (fst (commit build rt)) \<and> prefix (runtime_log rt) (runtime_log (fst (commit build rt)))"
proof -
  obtain rt' res where run: "commit build rt = (rt', res)" by fastforce
  from assms run have "runtime_ok m rt' \<and> prefix (runtime_log rt) (runtime_log rt')"
    by (cases rule: commit_cases) (auto dest: in_stepD(1))
  with run show ?thesis by simp
qed

lemma call_keeps:
  assumes "runtime_ok m rt" "manifest_ok m" "manifest_doubles m" "call_values c"
  shows "runtime_ok m (run_authority c rt) \<and> prefix (runtime_log rt) (runtime_log (run_authority c rt))"
proof (cases c)
  case (Bind now)
  obtain rt' res where "bind_runtime now rt = (rt', res)" by fastforce
  with bind_cases [OF assms(1-3) _ this] assms(4) Bind show ?thesis by simp
next
  case (CommitOpen q)
  then show ?thesis using commit_keeps [OF assms(1,2) opened_builds] assms(4) by (simp add: commit_open_def)
next
  case (CommitClose q)
  then show ?thesis using commit_keeps [OF assms(1,2) closed_builds] assms(4) by (simp add: commit_close_def)
next
  case View
  have "fst (consistent_view rt) = fst (reload rt)" for rt
    by (simp add: consistent_view_def bindS_def getS_def split: prod.splits sum.splits)
  then show ?thesis using reload_ok [OF assms(1,2)] View assms(1) by (auto simp: in_step_def)
next
  case Restart
  then show ?thesis using assms(1) by (auto simp: runtime_ok_def new_runtime_def runtime_log_def)
qed

lemma history_keeps:
  assumes "manifest_ok m" "manifest_doubles m"
  shows "runtime_ok m rt \<Longrightarrow> list_all call_values calls \<Longrightarrow>
    runtime_ok m (fold run_authority calls rt) \<and> prefix (runtime_log rt) (runtime_log (fold run_authority calls rt))"
proof (induction calls arbitrary: rt)
  case (Cons c calls)
  with call_keeps [OF Cons.prems(1) assms, of c] show ?case
    by (auto intro: prefix_order.trans)
qed simp

text \<open>
  C3: No history of calls can poison the authoritative epoch. Whatever is committed, closed, bound
  and restarted, in any order and with any arguments, and whichever writes fail to sync, the epoch
  on disk does not exist yet or loads, projects, and still is the one the manifest describes; and
  history is only ever extended.
\<close>

theorem epoch_never_poisoned:
  assumes "new_manifest kwargs = Inr m" and "manifest_doubles m" and "list_all whole_io io"
    and "list_all call_values calls" and "list_all call_values later"
  defines "rt \<equiv> fold run_authority calls (new_runtime m None io)"
  shows "(load_epoch (am_paper_epoch_id m) (rt_dir rt) = Inl EpochNotFoundError \<or>
      (\<exists>events s. load_epoch (am_paper_epoch_id m) (rt_dir rt) = Inr events \<and> checked_epoch m events = Inr s)) \<and>
    prefix (runtime_log rt) (runtime_log (fold run_authority later rt))"
proof -
  have mok: "manifest_ok m" using assms(1) by (simp add: new_manifest_Inr)
  have "runtime_ok m rt"
    unfolding rt_def using history_keeps [OF mok assms(2) new_runtime_ok(1) [OF mok assms(3)] assms(4)] by simp
  with load_of_log [OF this mok] history_keeps [OF mok assms(2) this assms(5)] show ?thesis
    by (auto simp: runtime_ok_def)
qed

theorem epoch_never_poisoned_witness:
  "prefix (runtime_log (run_authority (Bind (VInt 5)) (new_runtime sample_manifest None [Synced, SyncFailed])))
     (runtime_log (run_authority Restart (run_authority (Bind (VInt 5))
        (new_runtime sample_manifest None [Synced, SyncFailed]))))"
  using epoch_never_poisoned [OF sample_manifest_built, of "[Synced, SyncFailed]" "[Bind (VInt 5)]" "[Restart]"]
  by (simp add: whole_io_def)

end
