(* ===== verification/Positions.thy ===== *)
theory Positions
  imports PyText
begin

text \<open>
  The \<^verbatim>\<open>Position\<close> of \<^verbatim>\<open>quant_hedge_ai/agents/execution/position_manager.py\<close>: its terms, its prices
  and stops, and the methods that change them. The decision context that is only kept for other
  components (score, conviction, features) is left out. Clock readings are arguments.
\<close>

datatype position_side = Long | Short

datatype execution_domain = REAL | TESTNET | FUTURES_DEMO | PAPER | SHADOW | UNKNOWN_DOMAIN

datatype close_reason =
    TP | SL | TRAILING | PARTIAL | BREAK_EVEN | TIME_STOP | LIQUIDATION_DEF | MANUAL | LIQUIDATION

fun close_reason_value :: "close_reason \<Rightarrow> string" where
  "close_reason_value TP = ''take_profit''"
| "close_reason_value SL = ''stop_loss''"
| "close_reason_value TRAILING = ''trailing_stop''"
| "close_reason_value PARTIAL = ''partial_close''"
| "close_reason_value BREAK_EVEN = ''break_even_triggered''"
| "close_reason_value TIME_STOP = ''time_stop''"
| "close_reason_value LIQUIDATION_DEF = ''liquidation_defense''"
| "close_reason_value MANUAL = ''manual''"
| "close_reason_value LIQUIDATION = ''liquidation_risk''"

text \<open>What the construction of a position fixes, and what its life changes.\<close>

record position_terms =
  pos_symbol :: string
  pos_side :: position_side
  pos_entry_price :: pyfloat
  pos_leverage :: int
  pos_order_id :: string
  pos_subaccount :: string
  pos_tp_pct :: pyfloat
  pos_sl_pct :: pyfloat
  pos_trailing_pct :: pyfloat
  pos_tp_atr_mult :: pyfloat
  pos_sl_atr_mult :: pyfloat
  pos_use_atr :: bool
  pos_partial_close_pct :: pyfloat
  pos_partial_close_trigger_pct :: pyfloat
  pos_break_even_trigger_pct :: pyfloat
  pos_max_age_minutes :: pyfloat
  pos_time_stop_enabled :: bool
  pos_aging_tp_decay :: bool
  pos_aging_start_min :: pyfloat
  pos_liq_defense_pct :: pyfloat
  pos_opened_at :: pyfloat
  pos_regime :: string

record position = position_terms +
  pos_size_usd :: pyfloat
  pos_qty :: pyfloat
  pos_atr :: pyfloat
  pos_volatility :: pyfloat
  pos_partial_done :: bool
  pos_break_even_done :: bool
  pos_highest_price :: pyfloat
  pos_lowest_price :: pyfloat
  pos_sl_price :: pyfloat
  pos_tp_price :: pyfloat
  pos_tp_price_init :: pyfloat
  pos_current_price :: pyfloat
  pos_pnl_usd :: pyfloat
  pos_pnl_pct :: pyfloat
  pos_closed :: bool
  pos_close_reason :: string
  pos_close_order_status :: string
  pos_close_order_denial_reason :: "string option"
  pos_domain :: execution_domain

text \<open>The exceptions that can leave these methods.\<close>

datatype position_error = ZeroDivisionError | FloatOverflow | BadValue | JournalError

section \<open>Construction\<close>

definition recalc_tp_sl :: "position \<Rightarrow> position" where
  "recalc_tp_sl p =
     (let atr_based = pos_use_atr p \<and> fl_lt (Fin 0) (pos_atr p);
          tp_dist = (if atr_based then fl_mul (pos_atr p) (pos_tp_atr_mult p)
                     else fl_mul (pos_entry_price p) (pos_tp_pct p));
          sl_dist = (if atr_based then fl_mul (pos_atr p) (pos_sl_atr_mult p)
                     else fl_mul (pos_entry_price p) (pos_sl_pct p))
      in if pos_tp_price p = Fin 0 then
           (case pos_side p of
              Long \<Rightarrow> p\<lparr>pos_tp_price := fl_add (pos_entry_price p) tp_dist,
                        pos_sl_price := fl_sub (pos_entry_price p) sl_dist\<rparr>
            | Short \<Rightarrow> p\<lparr>pos_tp_price := fl_sub (pos_entry_price p) tp_dist,
                         pos_sl_price := fl_add (pos_entry_price p) sl_dist\<rparr>)
         else p)"

definition position_post_init :: "position \<Rightarrow> position" where
  "position_post_init p =
     (let q = recalc_tp_sl p in
      q\<lparr>pos_tp_price_init := pos_tp_price q, pos_highest_price := pos_entry_price q,
        pos_lowest_price := pos_entry_price q\<rparr>)"

text \<open>
  \<^verbatim>\<open>from_futures_order\<close>: the exchange's answer is a dictionary of scalars whose \<^verbatim>\<open>info\<close> entry is
  given apart; \<open>defaults\<close> holds the values the class takes when it is constructed without them
  (the constants of the class, read from the environment at import, and the clock).
\<close>

definition conversion_error :: "conv_error \<Rightarrow> position_error" where
  "conversion_error e = (case e of OverflowError \<Rightarrow> FloatOverflow | _ \<Rightarrow> BadValue)"

definition as_float :: "pyval \<Rightarrow> position_error + pyfloat" where
  "as_float v = (case py_float v of Inl e \<Rightarrow> Inl (conversion_error e) | Inr x \<Rightarrow> Inr x)"

record order_terms =
  ot_symbol :: string
  ot_action :: string
  ot_size_usd :: pyfloat
  ot_leverage :: int
  ot_tp_pct :: pyfloat
  ot_sl_pct :: pyfloat
  ot_trailing :: pyfloat
  ot_atr :: pyfloat
  ot_volatility :: pyfloat
  ot_regime :: string

definition from_futures_order ::
  "position \<Rightarrow> (string, pyval) dict \<Rightarrow> (string, pyval) dict option \<Rightarrow> order_terms
     \<Rightarrow> position_error + position" where
  "from_futures_order defaults order info t =
     bindE (as_float (or_chain [get_or_none order ''price'', get_or_none order ''average'',
              (case info of None \<Rightarrow> VNone | Some i \<Rightarrow> get_or_none i ''avgPrice'')])) (\<lambda>price.
     bindE (as_float (or_chain [get_or_none order ''amount'', get_or_none order ''filled''])) (\<lambda>qty.
       Inr (position_post_init (defaults\<lparr>
         pos_symbol := ot_symbol t,
         pos_side := (if py_upper (ot_action t) = ''BUY'' then Long else Short),
         pos_entry_price := price, pos_size_usd := ot_size_usd t, pos_qty := qty,
         pos_leverage := ot_leverage t,
         pos_order_id := (case dict_get order ''id'' of None \<Rightarrow> [] | Some v \<Rightarrow> py_str v),
         pos_tp_pct := ot_tp_pct t, pos_sl_pct := ot_sl_pct t, pos_trailing_pct := ot_trailing t,
         pos_atr := ot_atr t, pos_volatility := ot_volatility t, pos_regime := ot_regime t\<rparr>))))"

section \<open>Prices\<close>

text \<open>An action on one position; \<^verbatim>\<open>float * int\<close> converts the int, which can overflow.\<close>

type_synonym 'a position_action = "(position, position_error, 'a) action"

definition int_as_float :: "int \<Rightarrow> position_error + pyfloat" where
  "int_as_float n = or_raise FloatOverflow (float_of_number (VInt n))"

definition favourable_move :: "position \<Rightarrow> pyfloat \<Rightarrow> pyfloat" where
  "favourable_move p price =
     (case pos_side p of Long \<Rightarrow> fl_sub price (pos_entry_price p)
                       | Short \<Rightarrow> fl_sub (pos_entry_price p) price)"

definition update_price :: "pyfloat \<Rightarrow> unit position_action" where
  "update_price price =
     bindS (setS (\<lambda>p. p\<lparr>pos_current_price := price\<rparr>)) (\<lambda>_.
     bindS (getS id) (\<lambda>p.
     bindS (liftS (or_raise ZeroDivisionError (fl_div (favourable_move p price) (pos_entry_price p)))) (\<lambda>pct.
     bindS (setS (\<lambda>p. p\<lparr>pos_pnl_pct := pct\<rparr>)) (\<lambda>_.
     bindS (liftS (int_as_float (pos_leverage p))) (\<lambda>lev.
       setS (\<lambda>p. p\<lparr>pos_pnl_usd := fl_mul (fl_mul pct (pos_size_usd p)) lev,
                    pos_highest_price := fl_max (pos_highest_price p) price,
                    pos_lowest_price := fl_min (pos_lowest_price p) price\<rparr>))))))"

section \<open>Adaptive stops\<close>

text \<open>The stops are recalculated only when the range has moved by more than five per cent.\<close>

definition atr_moved :: "pyfloat \<Rightarrow> pyfloat \<Rightarrow> bool" where
  "atr_moved old atr \<longleftrightarrow> fl_le old (Fin 0) \<or>
     (case fl_div (fl_abs (fl_sub atr old)) old of
        None \<Rightarrow> False | Some x \<Rightarrow> fl_lt (round_double (5 / 100)) x)"

definition update_market_data :: "pyfloat \<Rightarrow> pyfloat \<Rightarrow> position \<Rightarrow> position" where
  "update_market_data atr volatility p =
     (if fl_le atr (Fin 0) then p
      else
        let q = p\<lparr>pos_atr := atr, pos_volatility := volatility\<rparr>;
            sl_dist = fl_mul atr (pos_sl_atr_mult p);
            tp_dist = fl_mul atr (pos_tp_atr_mult p)
        in if \<not> atr_moved (pos_atr p) atr then q
           else case pos_side p of
             Long \<Rightarrow>
               let new_sl = fl_sub (pos_entry_price p) sl_dist;
                   new_tp = fl_add (pos_entry_price p) tp_dist
               in q\<lparr>pos_sl_price := (if pos_break_even_done p then pos_sl_price p
                       else if fl_lt (Fin 0) (pos_sl_price p) then fl_max (pos_sl_price p) new_sl
                       else new_sl),
                    pos_tp_price := (if fl_lt (Fin 0) (pos_tp_price_init p)
                       then fl_max (pos_tp_price p) new_tp else new_tp)\<rparr>
           | Short \<Rightarrow>
               let new_sl = fl_add (pos_entry_price p) sl_dist;
                   new_tp = fl_sub (pos_entry_price p) tp_dist
               in q\<lparr>pos_sl_price := (if pos_break_even_done p then pos_sl_price p
                       else if fl_lt (Fin 0) (pos_sl_price p) then fl_min (pos_sl_price p) new_sl
                       else new_sl),
                    pos_tp_price := (if fl_lt (Fin 0) (pos_tp_price_init p)
                       then fl_min (pos_tp_price p) new_tp else new_tp)\<rparr>)"

section \<open>Liquidation\<close>

definition liquidation_price :: "position \<Rightarrow> position_error + pyfloat" where
  "liquidation_price p =
     (if pos_leverage p \<le> 1 then Inr (Fin 0)
      else bindE (int_as_float (pos_leverage p)) (\<lambda>lev.
        bindE (or_raise ZeroDivisionError (fl_div (Fin 1) lev)) (\<lambda>margin_rate.
        Inr (case pos_side p of
          Long \<Rightarrow> fl_mul (pos_entry_price p)
                    (fl_add (fl_sub (Fin 1) margin_rate) (round_double (5 / 1000)))
        | Short \<Rightarrow> fl_mul (pos_entry_price p)
                    (fl_sub (fl_add (Fin 1) margin_rate) (round_double (5 / 1000)))))))"

definition liquidation_distance_pct :: "position \<Rightarrow> position_error + pyfloat" where
  "liquidation_distance_pct p =
     bindE (liquidation_price p) (\<lambda>liq.
       if fl_le liq (Fin 0) \<or> fl_le (pos_current_price p) (Fin 0) then Inr (Fin 1)
       else or_raise ZeroDivisionError
         (fl_div (case pos_side p of Long \<Rightarrow> fl_sub (pos_current_price p) liq
                                   | Short \<Rightarrow> fl_sub liq (pos_current_price p))
            (pos_current_price p)))"

definition age_minutes :: "pyfloat \<Rightarrow> position \<Rightarrow> pyfloat" where
  "age_minutes now p = the (fl_div (fl_sub now (pos_opened_at p)) (Fin 60))"

end
