(* ===== verification/PositionManager.thy ===== *)
theory PositionManager
  imports Positions OrderCoordinator OrderAuthorization
begin

text \<open>
  The \<^verbatim>\<open>PositionManager\<close> of \<^verbatim>\<open>quant_hedge_ai/agents/execution/position_manager.py\<close>: the checks a
  position goes through at every price, the closing of a position, and the close order behind
  the authorization boundary and the order intent coordinator. A check works on one position
  and on the books the manager shares between positions. What comes from outside (clock,
  environment variables, exchange, fate of each journal write) is an argument; the callbacks
  registered for closures are left out, and the closures they are told of are recorded.
\<close>

section \<open>Environment and state\<close>

record manager_config =
  mc_exchange :: bool
  mc_paper :: bool
  mc_domain :: execution_domain

definition new_manager_config :: "bool \<Rightarrow> bool \<Rightarrow> execution_domain option \<Rightarrow> manager_config" where
  "new_manager_config exchange_present paper_mode domain =
     \<lparr>mc_exchange = exchange_present, mc_paper = (paper_mode \<or> \<not> exchange_present),
      mc_domain = (case domain of Some d \<Rightarrow> d
                   | None \<Rightarrow> if paper_mode then PAPER else UNKNOWN_DOMAIN)\<rparr>"

record books =
  bk_closed :: "position list"
  bk_caps :: "adapter_capabilities option"
  bk_journal :: journal
  bk_sent :: "(order_intent \<times> string) list"
  bk_notices :: "(position \<times> close_reason) list"

record desk =
  dk_pos :: position
  dk_books :: books

type_synonym 'a desk_action = "(desk, position_error, 'a) PyPrelude.action"

text \<open>The exchange's answer to \<^verbatim>\<open>create_order\<close>: an order, or an exception with its text.\<close>

datatype exchange_reply = OrderPlaced candidate | ExchangeRaised string

text \<open>
  What one close order meets: the step size found for a market (\<open>VNone\<close> when the lookup fails or
  has none), the exchange, the writes of the journal, and the text of the authorization.
\<close>

record order_env =
  oe_precision :: "string \<Rightarrow> pyval"
  oe_reply :: "order_intent \<Rightarrow> string \<Rightarrow> exchange_reply"
  oe_call :: call_env
  oe_detail :: string

record visit_env =
  ve_now :: pyfloat
  ve_max_age :: "string option"
  ve_paper_trading :: "string option"
  ve_live_confirmed :: "string option"
  ve_exchange_id :: "string option"
  ve_order :: "close_reason \<Rightarrow> order_env"

definition getenv :: "string option \<Rightarrow> string \<Rightarrow> string" where
  "getenv v dflt = (case v of None \<Rightarrow> dflt | Some s \<Rightarrow> s)"

definition env_flag :: "string option \<Rightarrow> string \<Rightarrow> bool" where
  "env_flag v dflt \<longleftrightarrow> py_lower (getenv v dflt) \<in> set [''1'', ''true'', ''yes'', ''on'']"

section \<open>The close order\<close>

fun split_on :: "char \<Rightarrow> string \<Rightarrow> string list" where
  "split_on c [] = [[]]"
| "split_on c (x # xs) =
     (if x = c then [] # split_on c xs
      else case split_on c xs of [] \<Rightarrow> [[x]] | w # ws \<Rightarrow> (x # w) # ws)"

definition to_ccxt_symbol :: "string \<Rightarrow> position_error + string" where
  "to_ccxt_symbol s =
     (if CHR '':'' \<in> set s then Inr s
      else if CHR ''/'' \<in> set s then
        (case split_on (CHR ''/'') s of
           [base, quote] \<Rightarrow>
             let settle = (if quote = ''USDT'' then ''USD'' else quote) in
             if base = ''XRP'' \<and> settle = ''USD''
             then Inr (base @ ''/'' @ settle @ '':'' @ base)
             else Inr (base @ ''/'' @ settle @ '':'' @ settle)
         | _ \<Rightarrow> Inl BadValue)
      else Inr (take 3 s @ ''/USD:USD''))"

record close_result =
  cr_mode :: string
  cr_authorized :: bool
  cr_mutation_attempted :: bool
  cr_denial_reason :: "string option"

definition rejected :: "string \<Rightarrow> close_result" where
  "rejected reason = \<lparr>cr_mode = ''rejected'', cr_authorized = False, cr_mutation_attempted = False,
     cr_denial_reason = Some reason\<rparr>"

fun denial_value :: "denial_reason \<Rightarrow> string" where
  "denial_value INVALID_AMOUNT = ''INVALID_AMOUNT''"
| "denial_value NON_FINITE_AMOUNT = ''NON_FINITE_AMOUNT''"
| "denial_value NON_POSITIVE_AMOUNT = ''NON_POSITIVE_AMOUNT''"
| "denial_value ABOVE_AUTHORIZED_EXPOSURE = ''ABOVE_AUTHORIZED_EXPOSURE''"
| "denial_value BELOW_MIN_NOTIONAL = ''BELOW_MIN_NOTIONAL''"
| "denial_value PRECISION_COLLAPSE = ''PRECISION_COLLAPSE''"
| "denial_value PRECISION_WOULD_INCREASE_EXPOSURE = ''PRECISION_WOULD_INCREASE_EXPOSURE''"
| "denial_value INSUFFICIENT_QUOTE_BALANCE = ''INSUFFICIENT_QUOTE_BALANCE''"
| "denial_value INSUFFICIENT_BASE_BALANCE = ''INSUFFICIENT_BASE_BALANCE''"
| "denial_value BALANCE_UNAVAILABLE = ''BALANCE_UNAVAILABLE''"
| "denial_value AUTHORITY_DENIED = ''AUTHORITY_DENIED''"
| "denial_value UNSUPPORTED_MARKET_SEMANTICS = ''UNSUPPORTED_MARKET_SEMANTICS''"
| "denial_value METADATA_UNAVAILABLE = ''METADATA_UNAVAILABLE''"

definition close_qty :: "pyfloat option \<Rightarrow> position \<Rightarrow> pyfloat" where
  "close_qty override p = (case override of Some q \<Rightarrow> if q = Fin 0 then pos_qty p else q
                           | None \<Rightarrow> pos_qty p)"

definition close_side :: "position \<Rightarrow> string" where
  "close_side p = (case pos_side p of Long \<Rightarrow> ''sell'' | Short \<Rightarrow> ''buy'')"

definition close_gates :: "manager_config \<Rightarrow> visit_env \<Rightarrow> authority_gates" where
  "close_gates cfg env =
     \<lparr>ag_paper_trading_enabled = env_flag (ve_paper_trading env) ''true'',
      ag_live_trading_confirmed = env_flag (ve_live_confirmed env) ''false'',
      ag_exchange_present = mc_exchange cfg, ag_live_mode = True, ag_halted = False,
      ag_safe_mode = False, ag_kill_switch = False, ag_execution_mode_supported = True\<rparr>"

definition close_price :: "position \<Rightarrow> pyfloat" where
  "close_price p = (if fl_lt (Fin 0) (pos_current_price p) then pos_current_price p else pos_entry_price p)"

definition close_request :: "position \<Rightarrow> pyfloat \<Rightarrow> string \<Rightarrow> pyval \<Rightarrow> order_request" where
  "close_request p qty symbol precision =
     \<lparr>rq_symbol = symbol, rq_side = VStr ''sell'',
      rq_requested_amount = VFloat (fl_mul qty (close_price p)),
      rq_price = VFloat (close_price p), rq_amount_precision = precision,
      rq_min_notional = VFloat (Fin 0),
      rq_authorized_max_amount = Some (fl_mul (pos_qty p) (close_price p)),
      rq_available_quote = VNone, rq_available_base = VFloat (pos_qty p),
      rq_balance_error = False, rq_balance_source = ''position_manager.tracked_qty'',
      rq_authority_denied = False, rq_market_semantics_supported = True,
      rq_require_balance_check = True\<rparr>"

text \<open>The key of a position, in the manager's dictionary and in the identity of its orders.\<close>

definition position_key :: "position \<Rightarrow> string" where
  "position_key p = (if pos_order_id p \<noteq> [] then pos_order_id p
     else pos_symbol p @ ''_'' @ py_str (VFloat (pos_opened_at p)))"

definition close_intent ::
  "visit_env \<Rightarrow> position \<Rightarrow> close_reason \<Rightarrow> string \<Rightarrow> pyfloat \<Rightarrow> intent_error + order_intent" where
  "close_intent env p reason symbol qty =
     build_order_intent ''PositionManager.close''
       (Some (position_key p @ '':'' @ close_reason_value reason))
       (getenv (ve_exchange_id env) ''mexc'' @ '':position_manager'') symbol (close_side p) ''market''
       (VFloat qty) (VFloat (close_price p)) True (Some (position_key p))"

text \<open>\<^verbatim>\<open>mutate\<close>: an exception is classified by words of its text.\<close>

fun contains :: "string \<Rightarrow> string \<Rightarrow> bool" where
  "contains w [] = (w = [])"
| "contains w (c # s) = (take (length w) (c # s) = w \<or> contains w s)"

definition transport_words :: "string list" where
  "transport_words = [''timeout'', ''timed out'', ''econnreset'', ''connection'']"

definition rejection_words :: "string list" where
  "rejection_words = [''insufficient'', ''invalid'', ''rejected'', ''not enough'', ''no permission'',
     ''permission denied'']"

definition close_mutate :: "order_env \<Rightarrow> mutate" where
  "close_mutate oe intent cid =
     Some (case oe_reply oe intent cid of
       OrderPlaced order \<Rightarrow>
         \<lparr>mr_outcome = MUT_ACKNOWLEDGED, mr_exchange_order_id = get_or_none order ''id'',
          mr_error_category = None, mr_raw = Some order\<rparr>
     | ExchangeRaised text \<Rightarrow>
         let msg = py_lower text;
             failed = (\<lambda>out cat. \<lparr>mr_outcome = out, mr_exchange_order_id = VNone,
                         mr_error_category = Some cat, mr_raw = Some [(''error'', VStr text)]\<rparr>)
         in if list_ex (\<lambda>w. contains w msg) transport_words
            then failed MUT_AMBIGUOUS ''transport_error''
            else if list_ex (\<lambda>w. contains w msg) rejection_words
            then failed MUT_EXPLICITLY_REJECTED ''exchange_rejected''
            else failed MUT_AMBIGUOUS ''unknown_response'')"

text \<open>The coordinator is built at the first live order, for the exchange named then.\<close>

definition order_capabilities :: "visit_env \<Rightarrow> books \<Rightarrow> adapter_capabilities" where
  "order_capabilities env b =
     (case bk_caps b of Some c \<Rightarrow> c
      | None \<Rightarrow> capabilities_for_exchange (getenv (ve_exchange_id env) ''mexc''))"

fun outcome_mode :: "submission_outcome \<Rightarrow> string" where
  "outcome_mode OUT_ACKNOWLEDGED = ''live''"
| "outcome_mode OUT_RECONCILE_REQUIRED = ''live_ambiguous''"
| "outcome_mode OUT_RECONCILED_NOT_FOUND_PENDING = ''live_ambiguous''"
| "outcome_mode _ = ''live_failed''"

definition submit_close :: "visit_env \<Rightarrow> order_env \<Rightarrow> order_intent \<Rightarrow> close_result desk_action" where
  "submit_close env oe intent d =
     (let b = dk_books d;
          caps = order_capabilities env b;
          eff = submit caps (bk_journal b) intent True (oe_detail oe) (close_mutate oe) (oe_call oe);
          d' = d\<lparr>dk_books := b\<lparr>bk_caps := Some caps, bk_journal := ef_journal eff,
                               bk_sent := bk_sent b @ ef_mutations eff\<rparr>\<rparr>
      in case ef_result eff of
           Inl _ \<Rightarrow> (d', Inl JournalError)
         | Inr sub \<Rightarrow> (d', Inr \<lparr>cr_mode = outcome_mode (sr_outcome sub), cr_authorized = True,
                               cr_mutation_attempted = True, cr_denial_reason = None\<rparr>))"

definition escaped :: "conv_error + 'a \<Rightarrow> position_error + 'a" where
  "escaped m = (case m of Inl e \<Rightarrow> Inl (conversion_error e) | Inr x \<Rightarrow> Inr x)"

definition close_order_intent ::
  "visit_env \<Rightarrow> order_env \<Rightarrow> pyfloat \<Rightarrow> close_reason \<Rightarrow> position
     \<Rightarrow> position_error + (close_result + order_intent)" where
  "close_order_intent env oe qty reason p =
     bindE (to_ccxt_symbol (pos_symbol p)) (\<lambda>symbol.
     bindE (escaped (authorize_order (close_request p qty symbol (oe_precision oe symbol)))) (\<lambda>auth.
       if \<not> oa_authorized auth then
         Inr (Inl (rejected (case oa_denial_reason auth of Some r \<Rightarrow> denial_value r | None \<Rightarrow> ''denied'')))
       else case close_intent env p reason symbol (oa_normalized_qty auth) of
         Inl _ \<Rightarrow> Inl BadValue
       | Inr intent \<Rightarrow> Inr (Inr intent)))"

definition send_close_order ::
  "manager_config \<Rightarrow> visit_env \<Rightarrow> pyfloat option \<Rightarrow> close_reason \<Rightarrow> close_result desk_action" where
  "send_close_order cfg env override reason =
     bindS (getS dk_pos) (\<lambda>p.
       if mc_paper cfg \<or> \<not> mc_exchange cfg then
         liftS (Inr \<lparr>cr_mode = ''paper'', cr_authorized = True, cr_mutation_attempted = False,
                     cr_denial_reason = None\<rparr>)
       else if \<not> fst (evaluate_trading_authority (close_gates cfg env)) then
         liftS (Inr (rejected ''AUTHORITY_DENIED''))
       else bindS (liftS (close_order_intent env (ve_order env reason) (close_qty override p) reason p)) (\<lambda>r.
         case r of Inl res \<Rightarrow> liftS (Inr res) | Inr intent \<Rightarrow> submit_close env (ve_order env reason) intent))"

section \<open>Closing a position\<close>

definition on_pos :: "'a position_action \<Rightarrow> 'a desk_action" where
  "on_pos m d = (case m (dk_pos d) of (p, r) \<Rightarrow> (d\<lparr>dk_pos := p\<rparr>, r))"

definition set_pos :: "(position \<Rightarrow> position) \<Rightarrow> unit desk_action" where
  "set_pos f = setS (\<lambda>d. d\<lparr>dk_pos := f (dk_pos d)\<rparr>)"

definition not_confirmed :: "close_result \<Rightarrow> bool" where
  "not_confirmed r \<longleftrightarrow> \<not> cr_authorized r \<or>
     cr_mutation_attempted r \<and> cr_mode r \<in> set [''live_failed'', ''live_ambiguous'']"

definition mark_closed :: "close_reason \<Rightarrow> desk \<Rightarrow> desk" where
  "mark_closed reason d =
     (let p = (dk_pos d)\<lparr>pos_closed := True, pos_close_reason := close_reason_value reason\<rparr>;
          b = dk_books d
      in \<lparr>dk_pos = p, dk_books = b\<lparr>bk_closed := bk_closed b @ [p],
                                bk_notices := bk_notices b @ [(p, reason)]\<rparr>\<rparr>)"

definition close_position :: "manager_config \<Rightarrow> visit_env \<Rightarrow> close_reason \<Rightarrow> unit desk_action" where
  "close_position cfg env reason =
     whenS (\<lambda>d. \<not> pos_closed (dk_pos d))
       (bindS (send_close_order cfg env None reason) (\<lambda>r.
        bindS (set_pos (\<lambda>p. p\<lparr>pos_close_order_status := cr_mode r,
                              pos_close_order_denial_reason := cr_denial_reason r\<rparr>)) (\<lambda>_.
          if not_confirmed r then liftS (Inr ()) else setS (mark_closed reason))))"

section \<open>The checks\<close>

definition check_tp_sl :: "manager_config \<Rightarrow> visit_env \<Rightarrow> unit desk_action" where
  "check_tp_sl cfg env =
     bindS (getS dk_pos) (\<lambda>p.
       let price = pos_current_price p in
       if fl_le price (Fin 0) then liftS (Inr ())
       else case pos_side p of
         Long \<Rightarrow>
           if fl_le (pos_tp_price p) price then close_position cfg env TP
           else if fl_le price (pos_sl_price p) then close_position cfg env SL
           else liftS (Inr ())
       | Short \<Rightarrow>
           if fl_le price (pos_tp_price p) then close_position cfg env TP
           else if fl_le (pos_sl_price p) price then close_position cfg env SL
           else liftS (Inr ()))"

definition trail_stop :: "position \<Rightarrow> position" where
  "trail_stop p =
     (case pos_side p of
        Long \<Rightarrow>
          let new_sl = fl_mul (pos_highest_price p) (fl_sub (Fin 1) (pos_trailing_pct p))
          in if fl_lt (pos_sl_price p) new_sl then p\<lparr>pos_sl_price := new_sl\<rparr> else p
      | Short \<Rightarrow>
          let new_sl = fl_mul (pos_lowest_price p) (fl_add (Fin 1) (pos_trailing_pct p))
          in if fl_lt new_sl (pos_sl_price p) then p\<lparr>pos_sl_price := new_sl\<rparr> else p)"

definition stop_hit :: "position \<Rightarrow> bool" where
  "stop_hit p \<longleftrightarrow>
     (case pos_side p of Long \<Rightarrow> fl_le (pos_current_price p) (pos_sl_price p)
                       | Short \<Rightarrow> fl_le (pos_sl_price p) (pos_current_price p))"

definition check_trailing :: "manager_config \<Rightarrow> visit_env \<Rightarrow> unit desk_action" where
  "check_trailing cfg env =
     whenS (\<lambda>d. \<not> fl_le (pos_trailing_pct (dk_pos d)) (Fin 0) \<and> \<not> pos_closed (dk_pos d))
       (bindS (set_pos trail_stop) (\<lambda>_.
          whenS (\<lambda>d. stop_hit (dk_pos d)) (close_position cfg env TRAILING)))"

text \<open>What a partial close does to the position, whatever became of its order.\<close>

definition reduce_stop :: "position \<Rightarrow> position" where
  "reduce_stop p =
     (if pos_break_even_done p then p
      else p\<lparr>pos_sl_price := fl_mul (pos_entry_price p)
               (case pos_side p of Long \<Rightarrow> round_double (1001 / 1000) | Short \<Rightarrow> round_double (999 / 1000)),
             pos_break_even_done := True\<rparr>)"

definition take_partial :: "pyfloat \<Rightarrow> position \<Rightarrow> position" where
  "take_partial qty p =
     (let rest = fl_sub (pos_qty p) qty in
      reduce_stop (p\<lparr>pos_qty := rest, pos_size_usd := fl_mul rest (pos_current_price p),
                     pos_partial_done := True\<rparr>))"

definition partial_due :: "position \<Rightarrow> bool" where
  "partial_due p \<longleftrightarrow> \<not> fl_le (pos_partial_close_pct p) (Fin 0) \<and> \<not> pos_partial_done p \<and>
     \<not> pos_closed p \<and> fl_le (pos_partial_close_trigger_pct p) (pos_pnl_pct p)"

definition check_partial_close :: "manager_config \<Rightarrow> visit_env \<Rightarrow> unit desk_action" where
  "check_partial_close cfg env =
     whenS (\<lambda>d. partial_due (dk_pos d))
       (bindS (getS (\<lambda>d. fl_mul (pos_qty (dk_pos d)) (pos_partial_close_pct (dk_pos d)))) (\<lambda>qty.
        bindS (send_close_order cfg env (Some qty) PARTIAL) (\<lambda>_.
          set_pos (take_partial qty))))"

definition break_even :: "position \<Rightarrow> position" where
  "break_even p =
     (if pos_break_even_done p \<or> pos_closed p \<or>
         \<not> fl_le (pos_break_even_trigger_pct p) (pos_pnl_pct p) then p
      else p\<lparr>pos_sl_price := fl_mul (pos_entry_price p)
               (case pos_side p of Long \<Rightarrow> round_double (10005 / 10000)
                                 | Short \<Rightarrow> round_double (9995 / 10000)),
             pos_break_even_done := True\<rparr>)"

definition check_liquidation_defense :: "manager_config \<Rightarrow> visit_env \<Rightarrow> unit desk_action" where
  "check_liquidation_defense cfg env =
     bindS (getS dk_pos) (\<lambda>p.
     bindS (liftS (liquidation_distance_pct p)) (\<lambda>dist.
       if fl_lt dist (pos_liq_defense_pct p) then close_position cfg env LIQUIDATION_DEF
       else liftS (Inr ())))"

text \<open>The limit is read as text: the environment's, or the position's own, printed.\<close>

definition max_age :: "visit_env \<Rightarrow> position \<Rightarrow> position_error + pyfloat" where
  "max_age env p =
     or_raise BadValue (float_of_str (getenv (ve_max_age env) (py_str (VFloat (pos_max_age_minutes p)))))"

definition check_time_stop :: "manager_config \<Rightarrow> visit_env \<Rightarrow> unit desk_action" where
  "check_time_stop cfg env =
     whenS (\<lambda>d. pos_time_stop_enabled (dk_pos d))
       (bindS (getS dk_pos) (\<lambda>p.
        bindS (liftS (max_age env p)) (\<lambda>limit.
          if fl_le limit (age_minutes (ve_now env) p) then close_position cfg env TIME_STOP
          else liftS (Inr ()))))"

definition aging_decay :: "pyfloat \<Rightarrow> position \<Rightarrow> pyfloat" where
  "aging_decay now p =
     (let elapsed_hours = the (fl_div (fl_sub (age_minutes now p) (pos_aging_start_min p)) (Fin 60))
      in fl_min (round_double (1 / 2)) (fl_mul elapsed_hours (round_double (1 / 10))))"

definition aging_tp :: "pyfloat \<Rightarrow> position \<Rightarrow> position" where
  "aging_tp now p =
     (if \<not> pos_aging_tp_decay p \<or> fl_le (round_double (1 / 100)) (pos_pnl_pct p) then p
      else if fl_lt (age_minutes now p) (pos_aging_start_min p) then p
      else case pos_side p of
        Long \<Rightarrow>
          let new_tp = fl_mul (pos_tp_price_init p) (fl_sub (Fin 1) (aging_decay now p))
          in if fl_lt new_tp (pos_tp_price p)
             then p\<lparr>pos_tp_price := fl_max (fl_mul (pos_entry_price p) (round_double (1005 / 1000))) new_tp\<rparr>
             else p
      | Short \<Rightarrow>
          let new_tp = fl_mul (pos_tp_price_init p) (fl_add (Fin 1) (aging_decay now p))
          in if fl_lt (pos_tp_price p) new_tp
             then p\<lparr>pos_tp_price := fl_min (fl_mul (pos_entry_price p) (round_double (995 / 1000))) new_tp\<rparr>
             else p)"

section \<open>One position at one price\<close>

definition still_open :: "desk \<Rightarrow> bool" where
  "still_open d \<longleftrightarrow> \<not> pos_closed (dk_pos d)"

definition run_checks :: "manager_config \<Rightarrow> visit_env \<Rightarrow> unit desk_action" where
  "run_checks cfg env =
     bindS (check_liquidation_defense cfg env) (\<lambda>_. whenS still_open
       (bindS (check_time_stop cfg env) (\<lambda>_. whenS still_open
         (bindS (set_pos (aging_tp (ve_now env))) (\<lambda>_.
          bindS (set_pos break_even) (\<lambda>_.
          bindS (check_partial_close cfg env) (\<lambda>_.
          bindS (check_trailing cfg env) (\<lambda>_.
            check_tp_sl cfg env))))))))"

definition visit :: "manager_config \<Rightarrow> visit_env \<Rightarrow> pyfloat \<Rightarrow> unit desk_action" where
  "visit cfg env price = bindS (on_pos (update_price price)) (\<lambda>_. run_checks cfg env)"

section \<open>The manager\<close>

record manager =
  mg_positions :: "(string, position) dict"
  mg_books :: books

definition new_manager :: "journal \<Rightarrow> manager" where
  "new_manager j = \<lparr>mg_positions = [], mg_books = \<lparr>bk_closed = [], bk_caps = None, bk_journal = j,
     bk_sent = [], bk_notices = []\<rparr>\<rparr>"

type_synonym 'a manager_action = "(manager, position_error, 'a) PyPrelude.action"

text \<open>A check on the position tracked under a key; keys are never removed.\<close>

definition on_position :: "string \<Rightarrow> unit desk_action \<Rightarrow> unit manager_action" where
  "on_position k m s =
     (case dict_get (mg_positions s) k of
        None \<Rightarrow> (s, Inr ())
      | Some p \<Rightarrow> (case m \<lparr>dk_pos = p, dk_books = mg_books s\<rparr> of
          (d, r) \<Rightarrow> (s\<lparr>mg_positions := dict_set (mg_positions s) k (dk_pos d), mg_books := dk_books d\<rparr>, r)))"

definition add_position :: "manager_config \<Rightarrow> position \<Rightarrow> manager \<Rightarrow> manager" where
  "add_position cfg p s =
     (let q = (if pos_domain p = UNKNOWN_DOMAIN then p\<lparr>pos_domain := mc_domain cfg\<rparr> else p)
      in s\<lparr>mg_positions := dict_set (mg_positions s) (position_key q) q\<rparr>)"

definition get_open :: "manager \<Rightarrow> position list" where
  "get_open s = filter (\<lambda>p. \<not> pos_closed p) (map snd (mg_positions s))"

text \<open>\<^verbatim>\<open>self._closed[-n:]\<close>: the last \<open>n\<close>, all of them for 0, all but the first \<open>-n\<close> for less.\<close>

definition get_closed :: "int \<Rightarrow> manager \<Rightarrow> position list" where
  "get_closed n s =
     (let c = bk_closed (mg_books s) in
      if 0 < n then drop (length c - nat n) c else drop (nat (- n)) c)"

definition manager_market_data :: "string \<Rightarrow> pyfloat \<Rightarrow> pyfloat \<Rightarrow> manager \<Rightarrow> manager" where
  "manager_market_data symbol atr volatility s =
     s\<lparr>mg_positions := map (\<lambda>(k, p).
         (k, if pos_symbol p = symbol \<and> \<not> pos_closed p then update_market_data atr volatility p else p))
       (mg_positions s)\<rparr>"

definition update_price_and_check ::
  "manager_config \<Rightarrow> (string \<Rightarrow> visit_env) \<Rightarrow> string \<Rightarrow> pyfloat \<Rightarrow> unit manager_action" where
  "update_price_and_check cfg env symbol price =
     whenS (\<lambda>_. \<not> fl_le price (Fin 0))
       (bindS (getS (\<lambda>s. map fst (filter (\<lambda>(k, p). pos_symbol p = symbol \<and> \<not> pos_closed p) (mg_positions s))))
          (eachS (\<lambda>k. on_position k (visit cfg (env k) price))))"

text \<open>The ticker's last price, \<open>None\<close> when the call raises.\<close>

definition fetch_price :: "manager_config \<Rightarrow> (string \<Rightarrow> pyval option) \<Rightarrow> string \<Rightarrow> pyfloat option" where
  "fetch_price cfg ticker symbol =
     (if mc_paper cfg \<or> \<not> mc_exchange cfg then None
      else case to_ccxt_symbol symbol of
        Inl _ \<Rightarrow> None
      | Inr s \<Rightarrow> (case ticker s of
          None \<Rightarrow> None
        | Some v \<Rightarrow> (case py_float v of Inl _ \<Rightarrow> None | Inr x \<Rightarrow> Some x)))"

text \<open>
  The ageing of a target after a time stop that closed the position still changes it, and the
  closed list, whose last entry is this very object, shows the change.
\<close>

definition age_target :: "pyfloat \<Rightarrow> desk \<Rightarrow> desk" where
  "age_target now d =
     (let p = dk_pos d; q = aging_tp now p; b = dk_books d
      in \<lparr>dk_pos = q, dk_books = (if pos_closed p then b\<lparr>bk_closed := butlast (bk_closed b) @ [q]\<rparr> else b)\<rparr>)"

definition tick_position ::
  "manager_config \<Rightarrow> visit_env \<Rightarrow> (string \<Rightarrow> pyval option) \<Rightarrow> unit desk_action" where
  "tick_position cfg env ticker =
     whenS still_open (bindS (getS dk_pos) (\<lambda>p.
       case fetch_price cfg ticker (pos_symbol p) of
         None \<Rightarrow>
           if fl_lt (Fin 0) (pos_current_price p)
           then bindS (check_time_stop cfg env) (\<lambda>_. setS (age_target (ve_now env)))
           else liftS (Inr ())
       | Some price \<Rightarrow>
           if fl_le price (Fin 0) then liftS (Inr ()) else visit cfg env price))"

text \<open>An exception ends the tick; the watch loop logs it and goes on with the next tick.\<close>

definition tick ::
  "manager_config \<Rightarrow> (string \<Rightarrow> visit_env) \<Rightarrow> (string \<Rightarrow> string \<Rightarrow> pyval option) \<Rightarrow> unit manager_action" where
  "tick cfg env ticker =
     bindS (getS (\<lambda>s. map fst (mg_positions s)))
       (eachS (\<lambda>k. on_position k (tick_position cfg (env k) (ticker k))))"

text \<open>\<^verbatim>\<open>detect_hedges\<close>: by symbol in the order of first appearance, each long with each short.\<close>

definition detect_hedges :: "manager \<Rightarrow> (position \<times> position) list" where
  "detect_hedges s =
     (let ps = get_open s;
          syms = fold (\<lambda>p ss. if pos_symbol p \<in> set ss then ss else ss @ [pos_symbol p]) ps [];
          side_of = (\<lambda>sym sd. filter (\<lambda>p. pos_symbol p = sym \<and> pos_side p = sd) ps)
      in concat (map (\<lambda>sym. List.product (side_of sym Long) (side_of sym Short)) syms))"

end
