(* ===== verification/PositionSamples.thy ===== *)
theory PositionSamples
  imports PositionManager
begin

text \<open>A sample position on paper, followed through concrete prices.\<close>

definition sample_terms :: position where
  "sample_terms = \<lparr>pos_symbol = ''BTC/USDT'', pos_side = Long, pos_entry_price = Fin 64, pos_leverage = 1,
     pos_order_id = ''A'', pos_subaccount = ''main'', pos_tp_pct = Fin (1 / 4), pos_sl_pct = Fin (1 / 8),
     pos_trailing_pct = Fin 0, pos_tp_atr_mult = Fin 2, pos_sl_atr_mult = Fin 1, pos_use_atr = True,
     pos_partial_close_pct = Fin 0, pos_partial_close_trigger_pct = Fin 1,
     pos_break_even_trigger_pct = Fin 1, pos_max_age_minutes = Fin 240, pos_time_stop_enabled = False,
     pos_aging_tp_decay = False, pos_aging_start_min = Fin 60, pos_liq_defense_pct = Fin 0,
     pos_opened_at = Fin 0, pos_regime = ''r'', pos_size_usd = Fin 64, pos_qty = Fin 4, pos_atr = Fin 0,
     pos_volatility = Fin 0, pos_partial_done = False, pos_break_even_done = False,
     pos_highest_price = Fin 0, pos_lowest_price = Fin 0, pos_sl_price = Fin 0, pos_tp_price = Fin 0,
     pos_tp_price_init = Fin 0, pos_current_price = Fin 0, pos_pnl_usd = Fin 0, pos_pnl_pct = Fin 0,
     pos_closed = False, pos_close_reason = [], pos_close_order_status = [],
     pos_close_order_denial_reason = None, pos_domain = UNKNOWN_DOMAIN\<rparr>"

definition sample_tracked :: position where
  "sample_tracked = position_post_init sample_terms"

lemma sample_stops:
  "pos_tp_price sample_tracked = Fin 80 \<and> pos_sl_price sample_tracked = Fin 56 \<and>
   pos_closed sample_tracked = False"
  by (simp add: sample_tracked_def sample_terms_def position_post_init_def recalc_tp_sl_def Let_def fl_sub_def)

definition paper_config :: manager_config where
  "paper_config = new_manager_config False True None"

definition quiet_order :: order_env where
  "quiet_order = \<lparr>oe_precision = (\<lambda>_. VInt 1), oe_reply = (\<lambda>_ _. ExchangeRaised ''timeout''),
     oe_call = good_env, oe_detail = []\<rparr>"

definition quiet_env :: visit_env where
  "quiet_env = \<lparr>ve_now = Fin 0, ve_max_age = None, ve_paper_trading = None, ve_live_confirmed = None,
     ve_exchange_id = None, ve_order = (\<lambda>_. quiet_order)\<rparr>"

lemmas position_eval = visit_def on_pos_def update_price_def favourable_move_def int_as_float_def
  run_checks_def check_liquidation_defense_def liquidation_distance_pct_def liquidation_price_def
  check_time_stop_def aging_tp_def break_even_def check_partial_close_def partial_due_def
  check_trailing_def check_tp_sl_def close_position_def send_close_order_def still_open_def
  not_confirmed_def mark_closed_def whenS_def bindS_def getS_def setS_def liftS_def set_pos_def
  Let_def fl_sub_def fl_max_def fl_min_def

lemmas sample_eval = sample_tracked_def sample_terms_def position_post_init_def recalc_tp_sl_def
  paper_config_def new_manager_config_def

lemma quarters: "round_double (1 / 4) = Fin (1 / 4)" "round_double (1 / 8) = Fin (1 / 8)"
  by (simp_all add: round_eval float_eval)

definition quiet_books :: books where
  "quiet_books = mg_books (new_manager empty_journal)"

lemma sample_visit:
  "\<exists>d. visit paper_config quiet_env (Fin 72) \<lparr>dk_pos = sample_tracked, dk_books = quiet_books\<rparr> = (d, Inr ()) \<and>
     \<not> pos_closed (dk_pos d)"
  by (simp add: position_eval sample_eval quarters)

lemma sample_close:
  "\<exists>d. visit paper_config quiet_env (Fin 80) \<lparr>dk_pos = sample_tracked, dk_books = quiet_books\<rparr> = (d, Inr ()) \<and>
     pos_closed (dk_pos d) \<and> pos_close_reason (dk_pos d) = ''take_profit''"
  by (simp add: position_eval sample_eval quarters)

end
