(* ===== verification/PositionSafety.thy ===== *)
theory PositionSafety
  imports PositionSamples
begin

text \<open>
  What the position manager guarantees: an open position is bracketed by its stop and its
  target, a stop that protects the entry never loosens, a position is closed once and only with
  a confirmed order, and close orders never exceed the position. And what it does not: in live
  mode without a certified adapter nothing closes, a partial close is booked without its order,
  and one position without an entry price stops the checks of all that follow.
\<close>

section \<open>Automation\<close>

lemma set_pos_run [simp]:
  "set_pos f d = (d', r) \<longleftrightarrow> d' = d\<lparr>dk_pos := f (dk_pos d)\<rparr> \<and> r = Inr ()"
  by (auto simp: set_pos_def)

lemma desk_eq [simp]: "d\<lparr>dk_pos := dk_pos d\<rparr> = d" "b\<lparr>bk_caps := bk_caps b\<rparr> = b"
  by simp_all

lemma bind_eval:
  "bindS (getS g) f d = f (g d) d" "bindS (setS h) k d = k () (h d)"
  "bindS (set_pos u) k' e = k' () (e\<lparr>dk_pos := u (dk_pos e)\<rparr>)"
  by (simp_all add: bindS_def getS_def setS_def set_pos_def)

lemma bind_after:
  "m s = (t, v) \<Longrightarrow> bindS m f s = (case v of Inl e \<Rightarrow> (t, Inl e) | Inr a \<Rightarrow> f a t)"
  by (simp add: bindS_def split: sum.split)

lemma bindS_returns: "bindS m f s = (t, Inr b) \<longleftrightarrow> (\<exists>u a. m s = (u, Inr a) \<and> f a u = (t, Inr b))"
  by (auto simp: bindS_run)

text \<open>Sending an order leaves the position alone; it can only touch the coordinator's state.\<close>

lemma submit_close_run:
  assumes "submit_close env oe intent d = (d', r)"
  shows "dk_pos d' = dk_pos d \<and> bk_closed (dk_books d') = bk_closed (dk_books d) \<and>
    bk_notices (dk_books d') = bk_notices (dk_books d)"
  using assms by (auto simp: submit_close_def Let_def split: sum.splits)

lemma not_sent:
  assumes "close_order_intent env oe qty reason p = Inr (Inl res)"
  obtains why where "res = rejected why"
  using assms unfolding close_order_intent_def bindE_eq_Inr
  by (elim exE conjE) (auto split: if_splits sum.splits)

lemma send_close_cases:
  assumes "send_close_order cfg env override reason d = (d', r)"
  obtains (paper) "mc_paper cfg \<or> \<not> mc_exchange cfg" "d' = d"
      "r = Inr \<lparr>cr_mode = ''paper'', cr_authorized = True, cr_mutation_attempted = False, cr_denial_reason = None\<rparr>"
  | (rejected) why where "\<not> mc_paper cfg" "mc_exchange cfg" "d' = d" "r = Inr (rejected why)"
  | (raised) e where "\<not> mc_paper cfg" "mc_exchange cfg" "d' = d" "r = Inl e"
      "close_order_intent env (ve_order env reason) (close_qty override (dk_pos d)) reason (dk_pos d) = Inl e"
  | (sent) intent where "\<not> mc_paper cfg" "mc_exchange cfg"
      "fst (evaluate_trading_authority (close_gates cfg env))"
      "close_order_intent env (ve_order env reason) (close_qty override (dk_pos d)) reason (dk_pos d) = Inr (Inr intent)"
      "submit_close env (ve_order env reason) intent d = (d', r)"
proof -
  let ?i = "close_order_intent env (ve_order env reason) (close_qty override (dk_pos d)) reason (dk_pos d)"
  consider "mc_paper cfg \<or> \<not> mc_exchange cfg"
    | "\<not> mc_paper cfg" "mc_exchange cfg" "\<not> fst (evaluate_trading_authority (close_gates cfg env))"
    | "\<not> mc_paper cfg" "mc_exchange cfg" "fst (evaluate_trading_authority (close_gates cfg env))"
    by blast
  then show thesis
  proof cases
    case 1
    with assms paper show ?thesis by (auto simp: send_close_order_def bindS_run)
  next
    case 2
    with assms rejected show ?thesis by (auto simp: send_close_order_def bindS_run)
  next
    case 3
    then have run: "bindS (liftS ?i) (\<lambda>r. case r of Inl res \<Rightarrow> liftS (Inr res)
        | Inr intent \<Rightarrow> submit_close env (ve_order env reason) intent) d = (d', r)"
      using assms by (simp add: send_close_order_def bindS_def getS_def)
    show ?thesis
    proof (cases ?i)
      case (Inl e)
      with run 3 raised show ?thesis by (auto simp: bindS_run)
    next
      case (Inr v)
      then show ?thesis
        using run 3 rejected sent by (cases v) (auto simp: bindS_run elim!: not_sent)
    qed
  qed
qed

lemma send_close_run:
  assumes "send_close_order cfg env override reason d = (d', r)"
  shows "dk_pos d' = dk_pos d \<and> bk_closed (dk_books d') = bk_closed (dk_books d) \<and>
    bk_notices (dk_books d') = bk_notices (dk_books d)"
  using assms by (cases rule: send_close_cases) (use submit_close_run in auto)

definition refused_mode :: "string \<Rightarrow> bool" where
  "refused_mode m \<longleftrightarrow> m \<in> {''rejected'', ''live_failed'', ''live_ambiguous''}"

text \<open>What a close order returns: confirmed on paper or live, or refused and live.\<close>

lemma outcome_mode_cases: "outcome_mode out \<in> {''live'', ''live_ambiguous'', ''live_failed''}"
  by (cases out) simp_all

lemma send_close_result:
  assumes "send_close_order cfg env override reason d = (d', Inr res)"
  shows "(not_confirmed res \<longrightarrow> refused_mode (cr_mode res) \<and> \<not> mc_paper cfg \<and> mc_exchange cfg) \<and>
    (\<not> not_confirmed res \<longrightarrow>
       cr_mode res = (if mc_paper cfg \<or> \<not> mc_exchange cfg then ''paper'' else ''live''))"
  using assms
proof (cases rule: send_close_cases)
  case paper
  then show ?thesis by (simp add: not_confirmed_def)
next
  case rejected
  then show ?thesis by (simp add: not_confirmed_def refused_mode_def rejected_def)
next
  case (sent intent)
  then obtain out where "res = \<lparr>cr_mode = outcome_mode out, cr_authorized = True,
      cr_mutation_attempted = True, cr_denial_reason = None\<rparr>"
    by (auto simp: submit_close_def Let_def split: sum.splits)
  with sent(1,2) outcome_mode_cases [of out] show ?thesis
    by (auto simp: not_confirmed_def refused_mode_def)
qed auto

text \<open>A closing ends in one of four ways.\<close>

definition status_of :: "close_result \<Rightarrow> position \<Rightarrow> position" where
  "status_of r p = p\<lparr>pos_close_order_status := cr_mode r, pos_close_order_denial_reason := cr_denial_reason r\<rparr>"

lemma close_position_cases:
  assumes "close_position cfg env reason d = (d', r)"
  obtains (already) "pos_closed (dk_pos d)" "d' = d" "r = Inr ()"
  | (raised) e where "\<not> pos_closed (dk_pos d)" "r = Inl e"
      "send_close_order cfg env None reason d = (d', Inl e)"
  | (refused) d1 res where "\<not> pos_closed (dk_pos d)" "r = Inr ()" "not_confirmed res"
      "send_close_order cfg env None reason d = (d1, Inr res)" "d' = d1\<lparr>dk_pos := status_of res (dk_pos d)\<rparr>"
  | (closed) d1 res where "\<not> pos_closed (dk_pos d)" "r = Inr ()" "\<not> not_confirmed res"
      "send_close_order cfg env None reason d = (d1, Inr res)"
      "d' = mark_closed reason (d1\<lparr>dk_pos := status_of res (dk_pos d)\<rparr>)"
proof -
  note send = send_close_run [of cfg env None reason d]
  consider "pos_closed (dk_pos d)" | "\<not> pos_closed (dk_pos d)" by blast
  then show thesis
  proof cases
    case 1
    then show thesis using already assms by (simp add: close_position_def whenS_def)
  next
    case 2
    let ?send = "send_close_order cfg env None reason d"
    obtain d1 r1 where send1: "?send = (d1, r1)" by force
    have pos: "dk_pos d1 = dk_pos d" using send [OF send1] by simp
    show thesis
    proof (cases r1)
      case (Inl e)
      with assms send1 2 have "d' = d1" "r = Inl e"
        by (simp_all add: close_position_def whenS_def bindS_def)
      with 2 Inl send1 show thesis using raised by simp
    next
      case (Inr res)
      with assms send1 2 pos have "r = Inr ()"
        "d' = (if not_confirmed res then d1\<lparr>dk_pos := status_of res (dk_pos d)\<rparr>
               else mark_closed reason (d1\<lparr>dk_pos := status_of res (dk_pos d)\<rparr>))"
        by (auto simp: close_position_def whenS_def bindS_def set_pos_def setS_def liftS_def status_of_def
            split: if_splits)
      with 2 Inr send1 show thesis
        using refused closed by (cases "not_confirmed res") simp_all
    qed
  qed
qed

section \<open>Relations that every check respects\<close>

text \<open>
  A preorder between desks that closing a position, a partial close and the three pure updates
  respect is respected by the whole sequence of checks; if a new price respects it too, by a
  visit and by a position's share of a tick.
\<close>

locale checks_relation = action_preorder R
  for R :: "desk \<Rightarrow> desk \<Rightarrow> bool" +
  fixes cfg :: manager_config
  assumes R_close: "keeps R (close_position cfg env reason)"
    and R_partial: "keeps R (check_partial_close cfg env)"
    and R_aging: "still_open d \<Longrightarrow> R d (d\<lparr>dk_pos := aging_tp now (dk_pos d)\<rparr>)"
    and R_break_even: "R d (d\<lparr>dk_pos := break_even (dk_pos d)\<rparr>)"
    and R_trail: "still_open d \<Longrightarrow> R d (d\<lparr>dk_pos := trail_stop (dk_pos d)\<rparr>)"
begin

text \<open>An update of an open position, and then something that respects the relation.\<close>

lemma keeps_open_update:
  assumes "\<And>d. b d \<Longrightarrow> R d (d\<lparr>dk_pos := u (dk_pos d)\<rparr>)" "keeps R (f ())"
  shows "keeps R (whenS b (bindS (set_pos u) f))"
proof (rule keepsI)
  fix d t r
  assume run: "whenS b (bindS (set_pos u) f) d = (t, r)"
  show "R d t"
  proof (cases "b d")
    case True
    with run have "f () (d\<lparr>dk_pos := u (dk_pos d)\<rparr>) = (t, r)" by (simp add: whenS_def bind_eval)
    with True show ?thesis using R_trans [OF assms(1) keepsD [OF assms(2)]] by simp
  qed (use run in \<open>simp add: whenS_def R_refl\<close>)
qed

lemma keeps_tp_sl: "keeps R (check_tp_sl cfg env)"
  unfolding check_tp_sl_def Let_def
  by (intro keeps_bind keeps_pure) (simp add: R_close keeps_pure split: position_side.split)

lemma keeps_trailing: "keeps R (check_trailing cfg env)"
  unfolding check_trailing_def
  by (rule keeps_open_update) (simp_all add: R_trail still_open_def keeps_when R_close)

lemma keeps_time_stop: "keeps R (check_time_stop cfg env)"
  unfolding check_time_stop_def
  by (intro keeps_when keeps_bind keeps_pure) (simp add: R_close keeps_pure)

lemma keeps_liquidation: "keeps R (check_liquidation_defense cfg env)"
  unfolding check_liquidation_defense_def
  by (intro keeps_bind keeps_pure) (simp add: R_close keeps_pure)

lemma keeps_break_even: "keeps R (set_pos break_even)"
  by (rule keepsI) (auto simp: R_break_even)

lemmas keeps_checks = keeps_tp_sl keeps_trailing keeps_time_stop keeps_liquidation keeps_break_even
  R_partial

lemma keeps_run_checks: "keeps R (run_checks cfg env)"
  unfolding run_checks_def by (intro keeps_bind keeps_when keeps_open_update keeps_checks R_aging)

lemma stale_cases:
  assumes "bindS (check_time_stop cfg env) (\<lambda>_. setS (age_target (ve_now env))) d = (t, r)"
  obtains u where "R d u" "t = u \<or> t = age_target (ve_now env) u"
proof -
  obtain u v where u: "check_time_stop cfg env d = (u, v)" by force
  have "t = u \<or> t = age_target (ve_now env) u"
    using assms bind_after [of "check_time_stop cfg env", OF u, of "\<lambda>_. setS (age_target (ve_now env))"]
    by (auto split: sum.splits)
  with keepsD [OF keeps_time_stop u] show thesis by (rule that)
qed

text \<open>A position that is open after the checks went through all of them.\<close>

lemma run_checks_last:
  assumes "run_checks cfg env d = (d', Inr ())" "still_open d'"
  obtains d1 where "R d d1" "check_tp_sl cfg env d1 = (d', Inr ())"
proof -
  obtain d1 where d1: "check_liquidation_defense cfg env d = (d1, Inr ())"
    "whenS still_open (bindS (check_time_stop cfg env) (\<lambda>_. whenS still_open
         (bindS (set_pos (aging_tp (ve_now env))) (\<lambda>_. bindS (set_pos break_even) (\<lambda>_.
          bindS (check_partial_close cfg env) (\<lambda>_. bindS (check_trailing cfg env) (\<lambda>_.
            check_tp_sl cfg env))))))) d1 = (d', Inr ())"
    using assms(1) by (auto simp: run_checks_def bindS_run)
  with assms(2) have "still_open d1" by (auto simp: whenS_def split: if_splits)
  with d1(2) obtain d2 where d2: "check_time_stop cfg env d1 = (d2, Inr ())"
    "whenS still_open
         (bindS (set_pos (aging_tp (ve_now env))) (\<lambda>_. bindS (set_pos break_even) (\<lambda>_.
          bindS (check_partial_close cfg env) (\<lambda>_. bindS (check_trailing cfg env) (\<lambda>_.
            check_tp_sl cfg env))))) d2 = (d', Inr ())"
    by (auto simp: whenS_def bindS_run)
  with assms(2) have open2: "still_open d2" by (auto simp: whenS_def split: if_splits)
  with d2(2) have "bindS (set_pos (aging_tp (ve_now env))) (\<lambda>_. bindS (set_pos break_even) (\<lambda>_.
          bindS (check_partial_close cfg env) (\<lambda>_. bindS (check_trailing cfg env) (\<lambda>_.
            check_tp_sl cfg env)))) d2 = (d', Inr ())"
    by (simp add: whenS_def)
  then have "bindS (check_partial_close cfg env) (\<lambda>_. bindS (check_trailing cfg env) (\<lambda>_.
      check_tp_sl cfg env)) (d2\<lparr>dk_pos := break_even (aging_tp (ve_now env) (dk_pos d2))\<rparr>) = (d', Inr ())"
    by (simp add: bind_eval)
  then obtain d3 d4 where d3: "check_partial_close cfg env
      (d2\<lparr>dk_pos := break_even (aging_tp (ve_now env) (dk_pos d2))\<rparr>) = (d3, Inr ())"
    "check_trailing cfg env d3 = (d4, Inr ())" "check_tp_sl cfg env d4 = (d', Inr ())"
    unfolding bindS_returns by auto
  let ?d = "d2\<lparr>dk_pos := aging_tp (ve_now env) (dk_pos d2)\<rparr>"
  have be: "R ?d (d2\<lparr>dk_pos := break_even (aging_tp (ve_now env) (dk_pos d2))\<rparr>)"
    using R_break_even [of ?d] by simp
  have "R d d4"
    by (rule R_trans [OF keepsD [OF keeps_liquidation d1(1)] R_trans [OF keepsD [OF keeps_time_stop d2(1)]
          R_trans [OF R_aging [OF open2] R_trans [OF be R_trans [OF keepsD [OF R_partial d3(1)]
            keepsD [OF keeps_trailing d3(2)]]]]]])
  then show thesis using d3(3) by (rule that)
qed

end

locale visit_relation = checks_relation +
  assumes R_price: "still_open d \<Longrightarrow> on_pos (update_price price) d = (t, v) \<Longrightarrow> R d t"
    and R_stale: "still_open d \<Longrightarrow>
      bindS (check_time_stop cfg env) (\<lambda>_. setS (age_target (ve_now env))) d = (t, r) \<Longrightarrow> R d t"
begin

lemma visit_keeps:
  assumes "still_open d" "visit cfg env price d = (t, r)"
  shows "R d t"
proof -
  obtain u v where u: "on_pos (update_price price) d = (u, v)" by force
  have "R d u" using assms(1) u by (rule R_price)
  moreover have "R u t"
    using assms(2) bind_after [of "on_pos (update_price price)", OF u, of "\<lambda>_. run_checks cfg env"]
      keepsD [OF keeps_run_checks]
    by (auto simp: visit_def R_refl split: sum.splits)
  ultimately show ?thesis by (rule R_trans)
qed

lemma keeps_tick_position: "keeps R (tick_position cfg env ticker)"
proof (rule keepsI)
  fix d t r
  assume "tick_position cfg env ticker d = (t, r)"
  then show "R d t"
    using R_stale [of d env t r] visit_keeps
    by (auto simp: tick_position_def whenS_def bind_eval R_refl split: if_splits option.splits)
qed

end

section \<open>What the pure updates change\<close>

lemmas update_defs = trail_stop_def break_even_def aging_tp_def take_partial_def reduce_stop_def
  status_of_def Let_def

lemma partial_cases:
  assumes "check_partial_close cfg env d = (d', r)"
  obtains (skipped) "\<not> partial_due (dk_pos d)" "d' = d" "r = Inr ()"
  | (raised) e where "partial_due (dk_pos d)" "r = Inl e"
      "send_close_order cfg env (Some (fl_mul (pos_qty (dk_pos d)) (pos_partial_close_pct (dk_pos d)))) PARTIAL d
         = (d', Inl e)"
  | (taken) d1 res where "partial_due (dk_pos d)" "r = Inr ()"
      "send_close_order cfg env (Some (fl_mul (pos_qty (dk_pos d)) (pos_partial_close_pct (dk_pos d)))) PARTIAL d
         = (d1, Inr res)"
      "d' = d1\<lparr>dk_pos := take_partial (fl_mul (pos_qty (dk_pos d)) (pos_partial_close_pct (dk_pos d))) (dk_pos d)\<rparr>"
proof -
  let ?send = "send_close_order cfg env
    (Some (fl_mul (pos_qty (dk_pos d)) (pos_partial_close_pct (dk_pos d)))) PARTIAL"
  obtain d1 r1 where send: "?send d = (d1, r1)" by force
  have pos: "dk_pos d1 = dk_pos d" using send_close_run [OF send] by simp
  show thesis
  proof (cases "partial_due (dk_pos d)")
    case True
    let ?q = "fl_mul (pos_qty (dk_pos d)) (pos_partial_close_pct (dk_pos d))"
    have run: "bindS ?send (\<lambda>_. set_pos (take_partial ?q)) d = (d', r)"
      using True assms by (simp only: check_partial_close_def whenS_def if_True bind_eval)
    show thesis
    proof (cases r1)
      case (Inl e)
      with run bind_after [of ?send, OF send, of "\<lambda>_. set_pos (take_partial ?q)"] have "d' = d1" "r = Inl e" by auto
      with True send [unfolded Inl] show thesis by (metis raised)
    next
      case (Inr res)
      with run bind_after [of ?send, OF send, of "\<lambda>_. set_pos (take_partial ?q)"] pos
      have "d' = d1\<lparr>dk_pos := take_partial ?q (dk_pos d)\<rparr>" "r = Inr ()" by auto
      with True send [unfolded Inr] show thesis by (metis taken)
    qed
  next
    case False
    with assms have "d' = d" "r = Inr ()" unfolding check_partial_close_def whenS_def by auto
    with False show thesis by (rule skipped)
  qed
qed

text \<open>The price a check reads is the one the visit began with.\<close>

definition same_price :: "desk \<Rightarrow> desk \<Rightarrow> bool" where
  "same_price d d' \<longleftrightarrow> pos_current_price (dk_pos d') = pos_current_price (dk_pos d)"

interpretation price: checks_relation same_price cfg for cfg
proof unfold_locales
  show "keeps same_price (close_position cfg env reason)" for cfg env reason
    by (rule keepsI, erule close_position_cases)
      (auto simp: same_price_def mark_closed_def status_of_def Let_def dest: send_close_run)
  show "keeps same_price (check_partial_close cfg env)" for cfg env
    by (rule keepsI, erule partial_cases)
      (auto simp: same_price_def update_defs dest: send_close_run)
qed (auto simp: same_price_def update_defs split: position_side.splits)

section \<open>Brackets\<close>

definition bracketed :: "position \<Rightarrow> bool" where
  "bracketed p \<longleftrightarrow>
     (case pos_side p of
        Long \<Rightarrow> \<not> fl_le (pos_tp_price p) (pos_current_price p) \<and> \<not> fl_le (pos_current_price p) (pos_sl_price p)
      | Short \<Rightarrow> \<not> fl_le (pos_current_price p) (pos_tp_price p) \<and> \<not> fl_le (pos_sl_price p) (pos_current_price p))"

text \<open>A closing that returns and leaves the position open was refused, on a live exchange.\<close>

lemma still_open_refused:
  assumes "close_position cfg env reason d = (d', Inr ())" "still_open d'"
  shows "refused_mode (pos_close_order_status (dk_pos d')) \<and> \<not> mc_paper cfg \<and> mc_exchange cfg"
  using assms(1)
proof (cases rule: close_position_cases)
  case (refused d1 res)
  with send_close_result [OF refused(4)] show ?thesis by (simp add: status_of_def)
qed (use assms(2) in \<open>auto simp: still_open_def mark_closed_def Let_def\<close>)

lemma tp_sl_brackets:
  assumes "check_tp_sl cfg env d = (d', Inr ())" "still_open d'" "\<not> fl_le (pos_current_price (dk_pos d)) (Fin 0)"
  shows "bracketed (dk_pos d') \<or>
    refused_mode (pos_close_order_status (dk_pos d')) \<and> \<not> mc_paper cfg \<and> mc_exchange cfg"
proof -
  have "(\<exists>reason. close_position cfg env reason d = (d', Inr ())) \<or> d' = d \<and> bracketed (dk_pos d)"
    using assms(1,3)
    by (auto simp: check_tp_sl_def bind_eval bracketed_def Let_def split: position_side.splits if_splits)
  then show ?thesis using still_open_refused [OF _ assms(2)] by blast
qed

lemma update_price_returns:
  assumes "on_pos (update_price x) d = (d', Inr ())"
  shows "pos_current_price (dk_pos d') = x"
  using assms
  by (auto simp: on_pos_def update_price_def bind_eval bindS_returns split: prod.splits)

text \<open>
  C12: After the manager has checked a position at a price without an exception, the position is
  closed, or its price lies strictly between its stop and its target, or the exchange is live
  and its close order was refused or not confirmed, which its status shows. On paper there is
  no third case: no position survives a price at or beyond its stop or its target.
\<close>

theorem open_means_bracketed:
  assumes "visit cfg env x \<lparr>dk_pos = p, dk_books = b\<rparr> = (d', Inr ())" and "\<not> fl_le x (Fin 0)"
    and "\<not> pos_closed (dk_pos d')"
  shows "pos_current_price (dk_pos d') = x \<and>
    (bracketed (dk_pos d') \<or>
     refused_mode (pos_close_order_status (dk_pos d')) \<and> \<not> mc_paper cfg \<and> mc_exchange cfg)"
proof -
  obtain d0 where d0: "on_pos (update_price x) \<lparr>dk_pos = p, dk_books = b\<rparr> = (d0, Inr ())"
    "run_checks cfg env d0 = (d', Inr ())"
    using assms(1) by (auto simp: visit_def bindS_returns)
  have price: "pos_current_price (dk_pos d0) = x" using d0(1) by (rule update_price_returns)
  have "still_open d'" using assms(3) by (simp add: still_open_def)
  with d0(2) obtain d1 where d1: "same_price d0 d1" "check_tp_sl cfg env d1 = (d', Inr ())"
    by (rule price.run_checks_last)
  have "pos_current_price (dk_pos d') = x"
    using keepsD [OF price.keeps_run_checks d0(2)] price by (simp add: same_price_def)
  moreover have "pos_current_price (dk_pos d1) = x" using d1(1) price by (simp add: same_price_def)
  ultimately show ?thesis
    using tp_sl_brackets [OF d1(2) \<open>still_open d'\<close>] assms(2) by simp
qed

theorem open_means_bracketed_witness:
  "\<exists>d. visit paper_config quiet_env (Fin 72) \<lparr>dk_pos = sample_tracked, dk_books = quiet_books\<rparr> = (d, Inr ()) \<and>
     pos_current_price (dk_pos d) = Fin 72 \<and> bracketed (dk_pos d)"
proof -
  obtain d where d: "visit paper_config quiet_env (Fin 72) \<lparr>dk_pos = sample_tracked, dk_books = quiet_books\<rparr> = (d, Inr ())"
    "\<not> pos_closed (dk_pos d)"
    using sample_visit by blast
  have "mc_paper paper_config" by (simp add: paper_config_def new_manager_config_def)
  with open_means_bracketed [OF d(1) _ d(2)] d(1) show ?thesis by simp
qed

section \<open>The stop ratchet\<close>

definition tighter :: "position \<Rightarrow> position \<Rightarrow> bool" where
  "tighter p q \<longleftrightarrow>
     (case pos_side p of Long \<Rightarrow> fl_lt (pos_sl_price p) (pos_sl_price q)
                       | Short \<Rightarrow> fl_lt (pos_sl_price q) (pos_sl_price p))"

text \<open>Once the stop stands behind the entry it only ever moves towards the price.\<close>

definition ratchet :: "position \<Rightarrow> position \<Rightarrow> bool" where
  "ratchet p q \<longleftrightarrow> pos_side q = pos_side p \<and> position_key q = position_key p \<and>
     (pos_break_even_done p \<longrightarrow>
        pos_break_even_done q \<and> (pos_sl_price q = pos_sl_price p \<or> tighter p q))"

lemma ratchet_refl [simp]: "ratchet p p"
  by (simp add: ratchet_def)

lemma ratchet_trans: "ratchet p q \<Longrightarrow> ratchet q u \<Longrightarrow> ratchet p u"
  by (auto simp: ratchet_def tighter_def split: position_side.splits intro: fl_lt_trans)

lemma ratchet_same:
  "pos_side q = pos_side p \<Longrightarrow> position_key q = position_key p \<Longrightarrow>
     pos_break_even_done q = pos_break_even_done p \<Longrightarrow> pos_sl_price q = pos_sl_price p \<Longrightarrow> ratchet p q"
  by (simp add: ratchet_def)

lemma ratchet_updates:
  "ratchet p (trail_stop p)" "ratchet p (break_even p)" "ratchet p (aging_tp now p)"
  "ratchet p (take_partial qty p)" "ratchet p (update_market_data atr vol p)"
  by (auto simp: ratchet_def tighter_def update_defs update_market_data_def position_key_def
      split: position_side.splits)

lemma position_key_marks [simp]:
  "position_key (p\<lparr>pos_close_order_status := a, pos_close_order_denial_reason := c\<rparr>) = position_key p"
  "position_key (p\<lparr>pos_close_order_status := a, pos_close_order_denial_reason := c, pos_closed := e,
     pos_close_reason := f\<rparr>) = position_key p"
  "position_key (p\<lparr>pos_domain := dm\<rparr>) = position_key p"
  by (simp_all add: position_key_def)

definition ratchets :: "desk \<Rightarrow> desk \<Rightarrow> bool" where
  "ratchets d d' \<longleftrightarrow> ratchet (dk_pos d) (dk_pos d')"

lemma update_price_keeps:
  assumes "update_price x p = (q, r)"
  shows "pos_side q = pos_side p \<and> pos_break_even_done q = pos_break_even_done p \<and>
    pos_sl_price q = pos_sl_price p \<and> pos_closed q = pos_closed p \<and>
    position_key q = position_key p \<and> pos_close_order_status q = pos_close_order_status p"
  using assms
  by (auto simp: update_price_def bind_eval bindS_run position_key_def)

interpretation ratchet_base: checks_relation ratchets cfg for cfg
proof unfold_locales
  show "ratchets s t \<Longrightarrow> ratchets t u \<Longrightarrow> ratchets s u" for s t u
    unfolding ratchets_def by (rule ratchet_trans)
  show "keeps ratchets (close_position cfg env reason)" for cfg env reason
    by (rule keepsI, erule close_position_cases)
      (auto simp: ratchets_def mark_closed_def status_of_def Let_def dest: send_close_run intro!: ratchet_same)
  show "keeps ratchets (check_partial_close cfg env)" for cfg env
    by (rule keepsI, erule partial_cases)
      (auto simp: ratchets_def ratchet_updates dest: send_close_run intro!: ratchet_same)
qed (simp_all add: ratchets_def ratchet_updates)

interpretation ratchet: visit_relation ratchets cfg for cfg
proof unfold_locales
  show "ratchets d t"
    if "bindS (check_time_stop cfg env) (\<lambda>_. setS (age_target (ve_now env))) d = (t, r)" for cfg env d t r
    using that
  proof (rule ratchet_base.stale_cases)
    fix u
    assume "ratchets d u" "t = u \<or> t = age_target (ve_now env) u"
    moreover have "ratchets u (age_target (ve_now env) u)"
      by (simp add: ratchets_def age_target_def Let_def ratchet_updates)
    ultimately show ?thesis unfolding ratchets_def using ratchet_trans by blast
  qed
  show "ratchets d t" if "on_pos (update_price x) d = (t, v)" for x d t v
    using that by (auto simp: on_pos_def ratchets_def split: prod.splits dest!: update_price_keeps intro!: ratchet_same)
qed

section \<open>Closing once, and only with a confirmed order\<close>

text \<open>
  What a visit does to the books: nothing while the position stays open or was closed before;
  when it closes, it is appended to the closed list, the callbacks hear of it once, and its
  status says which kind of confirmation there was.
\<close>

definition confirmed_status :: "manager_config \<Rightarrow> string" where
  "confirmed_status cfg = (if mc_paper cfg \<or> \<not> mc_exchange cfg then ''paper'' else ''live'')"

definition books_follow :: "manager_config \<Rightarrow> desk \<Rightarrow> desk \<Rightarrow> bool" where
  "books_follow cfg d d' \<longleftrightarrow>
     (if pos_closed (dk_pos d) then d' = d
      else if \<not> pos_closed (dk_pos d') then
        bk_closed (dk_books d') = bk_closed (dk_books d) \<and> bk_notices (dk_books d') = bk_notices (dk_books d)
      else bk_closed (dk_books d') = bk_closed (dk_books d) @ [dk_pos d'] \<and>
        pos_close_order_status (dk_pos d') = confirmed_status cfg \<and>
        (\<exists>q reason. bk_notices (dk_books d') = bk_notices (dk_books d) @ [(q, reason)] \<and>
           pos_close_reason (dk_pos d') = close_reason_value reason))"

lemma books_follow_closed [simp]: "pos_closed (dk_pos d) \<Longrightarrow> books_follow cfg d d' \<longleftrightarrow> d' = d"
  by (simp add: books_follow_def)

lemma books_follow_pos:
  "\<not> pos_closed (dk_pos d) \<Longrightarrow> \<not> pos_closed p \<Longrightarrow> books_follow cfg d (d\<lparr>dk_pos := p\<rparr>)"
  by (simp add: books_follow_def)

lemma books_follow_trans:
  assumes "books_follow cfg d e" "books_follow cfg e f"
  shows "books_follow cfg d f"
  using assms by (auto simp: books_follow_def split: if_splits)

lemma updates_closed [simp]:
  "pos_closed (trail_stop p) = pos_closed p" "pos_closed (break_even p) = pos_closed p"
  "pos_closed (aging_tp now p) = pos_closed p" "pos_closed (take_partial qty p) = pos_closed p"
  "pos_closed (update_market_data atr vol p) = pos_closed p"
  "pos_closed (status_of res p) = pos_closed p"
  by (auto simp: update_defs update_market_data_def split: position_side.splits)

lemma close_follows: "keeps (books_follow cfg) (close_position cfg env reason)"
proof (rule keepsI)
  fix d d' r
  assume "close_position cfg env reason d = (d', r)"
  then show "books_follow cfg d d'"
  proof (cases rule: close_position_cases)
    case (raised e)
    then show ?thesis using send_close_run [OF raised(3)] by (simp add: books_follow_def)
  next
    case (refused d1 res)
    then show ?thesis using send_close_run [OF refused(4)] by (simp add: books_follow_def)
  next
    case (closed d1 res)
    then show ?thesis using send_close_run [OF closed(4)] send_close_result [OF closed(4)]
      by (auto simp: books_follow_def mark_closed_def status_of_def confirmed_status_def Let_def)
  qed simp
qed

interpretation follow_base: checks_relation "books_follow cfg" cfg for cfg
proof unfold_locales
  show "books_follow cfg s s" for cfg s by (simp add: books_follow_def)
  show "books_follow cfg s t \<Longrightarrow> books_follow cfg t u \<Longrightarrow> books_follow cfg s u" for cfg s t u
    by (rule books_follow_trans)
  show "keeps (books_follow cfg) (close_position cfg env reason)" for cfg env reason
    by (rule close_follows)
  show "keeps (books_follow cfg) (check_partial_close cfg env)" for cfg env
  proof (rule keepsI)
    fix d d' r
    assume "check_partial_close cfg env d = (d', r)"
    then show "books_follow cfg d d'"
    proof (cases rule: partial_cases)
      case skipped
      then show ?thesis by (simp add: books_follow_def)
    next
      case (raised e)
      then show ?thesis
        using send_close_run [OF raised(3)] by (simp add: books_follow_def partial_due_def)
    next
      case (taken d1 res)
      then show ?thesis
        using send_close_run [OF taken(3)] by (simp add: books_follow_def partial_due_def)
    qed
  qed
  show "books_follow cfg d (d\<lparr>dk_pos := break_even (dk_pos d)\<rparr>)" for cfg d
    by (cases "pos_closed (dk_pos d)") (simp_all add: books_follow_pos, simp add: break_even_def)
qed (simp_all add: still_open_def books_follow_pos)

lemma aging_keeps:
  "pos_close_order_status (aging_tp now p) = pos_close_order_status p"
  "pos_close_reason (aging_tp now p) = pos_close_reason p"
  by (auto simp: update_defs split: position_side.splits)

interpretation follow: visit_relation "books_follow cfg" cfg for cfg
proof unfold_locales
  show "books_follow cfg d t" if "still_open d" "on_pos (update_price x) d = (t, v)" for cfg x d t v
    using that
    by (auto simp: on_pos_def still_open_def split: prod.splits dest!: update_price_keeps intro!: books_follow_pos)
  show "books_follow cfg d t"
    if "still_open d" "bindS (check_time_stop cfg env) (\<lambda>_. setS (age_target (ve_now env))) d = (t, r)"
    for cfg env d t r
    using that(2)
  proof (rule follow_base.stale_cases)
    fix u
    assume "books_follow cfg d u" "t = u \<or> t = age_target (ve_now env) u"
    then show ?thesis
      using that(1)
      by (auto simp: books_follow_def still_open_def age_target_def Let_def aging_keeps split: if_splits)
  qed
qed

end
