(* ===== verification/PositionHistory.thy ===== *)
theory PositionHistory
  imports PositionSafety
begin

text \<open>
  Histories of the position manager: positions are added, market data and prices arrive, the
  watch loop ticks, in any order, any of them ending in an exception. Invariants of one check
  are lifted to histories by a locale.
\<close>

section \<open>Operations\<close>

datatype manager_op =
    AddPosition position
  | MarketData string pyfloat pyfloat
  | PriceUpdate "string \<Rightarrow> visit_env" string pyfloat
  | WatchTick "string \<Rightarrow> visit_env" "string \<Rightarrow> string \<Rightarrow> pyval option"

fun run_op :: "manager_config \<Rightarrow> manager_op \<Rightarrow> manager \<Rightarrow> manager" where
  "run_op cfg (AddPosition p) s = add_position cfg p s"
| "run_op cfg (MarketData symbol atr volatility) s = manager_market_data symbol atr volatility s"
| "run_op cfg (PriceUpdate env symbol price) s = fst (update_price_and_check cfg env symbol price s)"
| "run_op cfg (WatchTick env ticker) s = fst (tick cfg env ticker s)"

lemma on_position_cases:
  assumes "on_position k m s = (s', r)"
  obtains (untracked) "dict_get (mg_positions s) k = None" "s' = s" "r = Inr ()"
  | (ran) p d where "dict_get (mg_positions s) k = Some p" "m \<lparr>dk_pos = p, dk_books = mg_books s\<rparr> = (d, r)"
      "s' = s\<lparr>mg_positions := dict_set (mg_positions s) k (dk_pos d), mg_books := dk_books d\<rparr>"
  using assms by (auto simp: on_position_def split: option.splits prod.splits)

section \<open>Lifting an invariant\<close>

text \<open>
  \<open>B\<close> is about the books, \<open>Q\<close> about a tracked position and the books. What a check keeps of one
  position, and of the others, every operation keeps of all of them.
\<close>

definition manager_holds :: "(books \<Rightarrow> bool) \<Rightarrow> (position \<Rightarrow> books \<Rightarrow> bool) \<Rightarrow> manager \<Rightarrow> bool" where
  "manager_holds B Q s \<longleftrightarrow> distinct (dict_keys (mg_positions s)) \<and> B (mg_books s) \<and>
     (\<forall>k p. dict_get (mg_positions s) k = Some p \<longrightarrow> Q p (mg_books s))"

definition op_adds :: "(position \<Rightarrow> bool) \<Rightarrow> manager_op \<Rightarrow> bool" where
  "op_adds P op \<longleftrightarrow> (\<forall>p. op = AddPosition p \<longrightarrow> P p)"

definition desk_keeps :: "(books \<Rightarrow> bool) \<Rightarrow> (position \<Rightarrow> books \<Rightarrow> bool) \<Rightarrow> desk \<Rightarrow> desk \<Rightarrow> bool" where
  "desk_keeps B Q d d' \<longleftrightarrow> (B (dk_books d) \<and> Q (dk_pos d) (dk_books d) \<longrightarrow>
     B (dk_books d') \<and> Q (dk_pos d') (dk_books d') \<and> (\<forall>q. Q q (dk_books d) \<longrightarrow> Q q (dk_books d')))"

locale manager_invariant =
  fixes cfg :: manager_config
    and B :: "books \<Rightarrow> bool"
    and Q :: "position \<Rightarrow> books \<Rightarrow> bool"
    and A :: "position \<Rightarrow> bool"
  assumes keeps_visit:
      "still_open d \<Longrightarrow> visit cfg env x d = (d', r) \<Longrightarrow> desk_keeps B Q d d'"
    and keeps_tick: "tick_position cfg env ticker d = (d', r) \<Longrightarrow> desk_keeps B Q d d'"
    and keeps_market: "Q p b \<Longrightarrow> \<not> pos_closed p \<Longrightarrow> Q (update_market_data atr vol p) b"
    and keeps_added: "A p \<Longrightarrow> B b \<Longrightarrow> Q (p\<lparr>pos_domain := dm\<rparr>) b" "A p \<Longrightarrow> B b \<Longrightarrow> Q p b"
begin

lemma step_holds:
  assumes "manager_holds B Q s" "dict_get (mg_positions s) k = Some p"
    "desk_keeps B Q \<lparr>dk_pos = p, dk_books = mg_books s\<rparr> d"
  shows "manager_holds B Q (s\<lparr>mg_positions := dict_set (mg_positions s) k (dk_pos d), mg_books := dk_books d\<rparr>)"
  using assms by (auto simp: manager_holds_def desk_keeps_def split: if_splits)

lemma ticks_hold:
  "manager_holds B Q s \<Longrightarrow>
     eachS (\<lambda>k. on_position k (tick_position cfg (env k) (ticker k))) ks s = (s', r) \<Longrightarrow>
     manager_holds B Q s'"
proof (induction ks arbitrary: s)
  case (Cons k ks)
  let ?m = "on_position k (tick_position cfg (env k) (ticker k))"
  obtain t v where t: "?m s = (t, v)" by force
  have "manager_holds B Q t"
    using t
  proof (cases rule: on_position_cases)
    case (ran p d)
    then show ?thesis using step_holds [OF Cons.prems(1) ran(1) keeps_tick [OF ran(2)]] by simp
  qed (use Cons.prems in simp)
  moreover have "s' = t \<or> eachS (\<lambda>k. on_position k (tick_position cfg (env k) (ticker k))) ks t = (s', r)"
    using Cons.prems(2) t by (auto simp: bindS_def split: sum.splits)
  ultimately show ?case using Cons.IH by blast
qed simp

text \<open>The positions of a price update were open when the update began, and stay so till their turn.\<close>

lemma visits_hold:
  "manager_holds B Q s \<Longrightarrow> distinct ks \<Longrightarrow>
     (\<forall>k \<in> set ks. \<forall>p. dict_get (mg_positions s) k = Some p \<longrightarrow> \<not> pos_closed p) \<Longrightarrow>
     eachS (\<lambda>k. on_position k (visit cfg (env k) x)) ks s = (s', r) \<Longrightarrow> manager_holds B Q s'"
proof (induction ks arbitrary: s)
  case (Cons k ks)
  let ?m = "on_position k (visit cfg (env k) x)"
  obtain t v where t: "?m s = (t, v)" by force
  have "manager_holds B Q t \<and>
      (\<forall>k' \<in> set ks. \<forall>p. dict_get (mg_positions t) k' = Some p \<longrightarrow> \<not> pos_closed p)"
    using t
  proof (cases rule: on_position_cases)
    case (ran p d)
    have "still_open \<lparr>dk_pos = p, dk_books = mg_books s\<rparr>"
      using Cons.prems(3) ran(1) by (auto simp: still_open_def)
    from step_holds [OF Cons.prems(1) ran(1) keeps_visit [OF this ran(2)]] show ?thesis
      using ran(3) Cons.prems(2,3) by auto
  qed (use Cons.prems in simp)
  moreover have "s' = t \<or> eachS (\<lambda>k. on_position k (visit cfg (env k) x)) ks t = (s', r)"
    using Cons.prems(4) t by (auto simp: bindS_def split: sum.splits)
  moreover have "distinct ks" using Cons.prems(2) by simp
  ultimately show ?case using Cons.IH by blast
qed simp

lemma market_holds:
  "manager_holds B Q s \<Longrightarrow> manager_holds B Q (manager_market_data symbol atr vol s)"
proof -
  assume s: "manager_holds B Q s"
  define u where "u = (\<lambda>p. if pos_symbol p = symbol \<and> \<not> pos_closed p then update_market_data atr vol p else p)"
  have upd: "manager_market_data symbol atr vol s =
      s\<lparr>mg_positions := map (\<lambda>(k, p). (k, u p)) (mg_positions s)\<rparr>"
    by (simp add: manager_market_data_def u_def)
  have "Q p (mg_books s) \<Longrightarrow> Q (u p) (mg_books s)" for p
    by (simp add: u_def keeps_market)
  then show ?thesis
    using s by (auto simp: manager_holds_def upd map_of_map comp_def split_beta)
qed

lemma op_holds:
  assumes s: "manager_holds B Q s" and "op_adds A op"
  shows "manager_holds B Q (run_op cfg op s)"
proof (cases op)
  case (AddPosition p)
  with assms have "A p" by (simp add: op_adds_def)
  with s AddPosition show ?thesis
    by (auto simp: manager_holds_def add_position_def Let_def keeps_added split: if_splits)
next
  case (PriceUpdate env symbol price)
  let ?ks = "map fst (filter (\<lambda>(k, p). pos_symbol p = symbol \<and> \<not> pos_closed p) (mg_positions s))"
  have dist: "distinct (dict_keys (mg_positions s))" using s by (simp add: manager_holds_def)
  have "distinct ?ks" using dist by (rule distinct_map_filter)
  moreover have "\<forall>k \<in> set ?ks. \<forall>p. dict_get (mg_positions s) k = Some p \<longrightarrow> \<not> pos_closed p"
  proof (intro ballI allI impI)
    fix k p
    assume "k \<in> set ?ks" "dict_get (mg_positions s) k = Some p"
    then obtain q where "(k, q) \<in> set (mg_positions s)" "\<not> pos_closed q" "(k, p) \<in> set (mg_positions s)"
      using map_of_SomeD [of "mg_positions s" k p] by auto
    with eq_key_imp_eq_value [OF dist, of k p q] show "\<not> pos_closed p" by simp
  qed
  moreover obtain t r where t: "eachS (\<lambda>k. on_position k (visit cfg (env k) price)) ?ks s = (t, r)" by force
  ultimately have "manager_holds B Q t" using visits_hold [OF s] by blast
  with s t PriceUpdate show ?thesis
    by (simp add: update_price_and_check_def whenS_def bind_eval)
next
  case (WatchTick env ticker)
  obtain t r where t: "eachS (\<lambda>k. on_position k (tick_position cfg (env k) (ticker k)))
      (map fst (mg_positions s)) s = (t, r)" by force
  with ticks_hold [OF s t] WatchTick show ?thesis by (simp add: tick_def bind_eval)
qed (use s market_holds in simp)

lemma history_holds:
  assumes "manager_holds B Q s" "list_all (op_adds A) ops"
  shows "manager_holds B Q (fold (run_op cfg) ops s)"
  using assms by (induction ops arbitrary: s) (simp_all add: op_holds)

end

lemma new_manager_holds: "B (mg_books (new_manager j)) \<Longrightarrow> manager_holds B Q (new_manager j)"
  by (simp add: manager_holds_def new_manager_def)

section \<open>Closed positions are accounted for\<close>

definition books_accounted :: "manager_config \<Rightarrow> books \<Rightarrow> bool" where
  "books_accounted cfg b \<longleftrightarrow> length (bk_notices b) = length (bk_closed b) \<and>
     (\<forall>p \<in> set (bk_closed b). pos_closed p \<and> pos_close_order_status p = confirmed_status cfg)"

definition closed_recorded :: "position \<Rightarrow> books \<Rightarrow> bool" where
  "closed_recorded p b \<longleftrightarrow> (pos_closed p \<longrightarrow> p \<in> set (bk_closed b))"

lemma follow_accounted:
  "books_follow cfg d d' \<Longrightarrow> desk_keeps (books_accounted cfg) closed_recorded d d'"
  by (auto simp: desk_keeps_def books_follow_def books_accounted_def closed_recorded_def split: if_splits)

interpretation accounted:
  manager_invariant cfg "books_accounted cfg" closed_recorded "\<lambda>p. \<not> pos_closed p" for cfg
proof unfold_locales
  show "desk_keeps (books_accounted cfg) closed_recorded d d'"
    if "still_open d" "visit cfg env x d = (d', r)" for cfg env x d d' r
    using follow.visit_keeps [OF that] by (rule follow_accounted)
  show "desk_keeps (books_accounted cfg) closed_recorded d d'"
    if "tick_position cfg env ticker d = (d', r)" for cfg env ticker d d' r
    using keepsD [OF follow.keeps_tick_position that] by (rule follow_accounted)
qed (simp_all add: closed_recorded_def)

text \<open>
  Through any history of additions, market data, prices and ticks, whatever exceptions end
  them, every tracked position that is closed is in the list of closed positions; every position
  in that list is closed and its close order was confirmed, on paper or by the exchange; and the
  callbacks were called once per entry of the list.
\<close>

theorem closed_accounted:
  assumes "list_all (op_adds (\<lambda>p. \<not> pos_closed p)) ops"
    and "s = fold (run_op cfg) ops (new_manager j)"
  shows "(\<forall>k p. dict_get (mg_positions s) k = Some p \<longrightarrow> pos_closed p \<longrightarrow> p \<in> set (bk_closed (mg_books s))) \<and>
    (\<forall>p \<in> set (bk_closed (mg_books s)). pos_closed p \<and> pos_close_order_status p = confirmed_status cfg) \<and>
    length (bk_notices (mg_books s)) = length (bk_closed (mg_books s))"
proof -
  have "manager_holds (books_accounted cfg) closed_recorded (new_manager j)"
    by (rule new_manager_holds) (simp add: books_accounted_def new_manager_def)
  from accounted.history_holds [OF this assms(1)] show ?thesis
    unfolding assms(2) by (auto simp: manager_holds_def books_accounted_def closed_recorded_def)
qed

definition sample_history :: "manager_op list" where
  "sample_history = [AddPosition sample_tracked, PriceUpdate (\<lambda>_. quiet_env) ''BTC/USDT'' (Fin 72),
     PriceUpdate (\<lambda>_. quiet_env) ''BTC/USDT'' (Fin 80)]"

lemma sample_history_opens: "list_all (op_adds (\<lambda>p. \<not> pos_closed p)) sample_history"
  by (simp add: sample_history_def op_adds_def sample_stops)

lemma sample_history_closes:
  "\<exists>p. dict_get (mg_positions (fold (run_op paper_config) sample_history (new_manager j))) ''A'' = Some p \<and>
     pos_closed p"
  by (simp add: sample_history_def new_manager_def add_position_def position_key_def dict_set_def
      update_price_and_check_def on_position_def position_eval sample_eval quarters)

theorem closed_accounted_witness:
  "\<exists>p. dict_get (mg_positions (fold (run_op paper_config) sample_history (new_manager empty_journal))) ''A''
       = Some p \<and> pos_closed p \<and>
     p \<in> set (bk_closed (mg_books (fold (run_op paper_config) sample_history (new_manager empty_journal)))) \<and>
     pos_close_order_status p = ''paper''"
proof -
  obtain p where p: "dict_get (mg_positions (fold (run_op paper_config) sample_history (new_manager empty_journal)))
      ''A'' = Some p" "pos_closed p"
    using sample_history_closes by blast
  have "confirmed_status paper_config = ''paper''"
    by (simp add: confirmed_status_def paper_config_def new_manager_config_def)
  with p closed_accounted [OF sample_history_opens refl, of paper_config empty_journal] show ?thesis by metis
qed

section \<open>The stop of a history\<close>

definition from_position :: "position \<Rightarrow> position \<Rightarrow> books \<Rightarrow> bool" where
  "from_position p q b \<longleftrightarrow> (position_key q = position_key p \<longrightarrow> ratchet p q)"

lemma from_step:
  assumes "ratchet q u" "from_position p q b"
  shows "from_position p u b'"
  unfolding from_position_def
proof
  assume "position_key u = position_key p"
  with assms(1) have "position_key q = position_key p" by (simp add: ratchet_def)
  with assms(2) have "ratchet p q" by (simp add: from_position_def)
  then show "ratchet p u" using assms(1) by (rule ratchet_trans)
qed

lemma ratchet_from: "ratchets d d' \<Longrightarrow> desk_keeps (\<lambda>_. True) (from_position p) d d'"
  unfolding desk_keeps_def ratchets_def
  by (auto intro: from_step) (simp add: from_position_def)

interpretation stop:
  manager_invariant cfg "\<lambda>_. True" "from_position p" "\<lambda>q. position_key q \<noteq> position_key p" for cfg p
proof unfold_locales
  show "desk_keeps (\<lambda>_. True) (from_position p) d d'"
    if "still_open d" "visit cfg env x d = (d', r)" for cfg env x d d' r p
    using ratchet.visit_keeps [OF that] by (rule ratchet_from)
  show "desk_keeps (\<lambda>_. True) (from_position p) d d'"
    if "tick_position cfg env ticker d = (d', r)" for cfg env ticker d d' r p
    using keepsD [OF ratchet.keeps_tick_position that] by (rule ratchet_from)
  show "from_position p (update_market_data atr vol q) b"
    if "from_position p q b" for p q b atr vol
    using ratchet_updates(5) that by (rule from_step)
qed (simp_all add: from_position_def)

text \<open>
  Once the stop of a position has been moved behind its entry, by the break-even rule or a
  partial close, no later market data, price or tick ever loosens it: a long's stop only rises
  and a short's only falls, for as long as the position is tracked.
\<close>

theorem stop_never_loosens:
  assumes "distinct (dict_keys (mg_positions s))" and "pos_break_even_done p"
    and "\<forall>k q. dict_get (mg_positions s) k = Some q \<longrightarrow> position_key q = position_key p \<longrightarrow> q = p"
    and "list_all (op_adds (\<lambda>q. position_key q \<noteq> position_key p)) ops"
    and "dict_get (mg_positions (fold (run_op cfg) ops s)) k = Some q" and "position_key q = position_key p"
  shows "pos_break_even_done q \<and> (pos_sl_price q = pos_sl_price p \<or> tighter p q)"
proof -
  have "manager_holds (\<lambda>_. True) (from_position p) s"
    unfolding manager_holds_def from_position_def
    using assms(1,3) ratchet_refl [of p] by blast
  from stop.history_holds [OF this assms(4)] show ?thesis
    using assms(2,5,6) by (auto simp: manager_holds_def from_position_def ratchet_def)
qed

definition protected_position :: position where
  "protected_position = sample_tracked\<lparr>pos_break_even_done := True, pos_trailing_pct := Fin (1 / 4),
     pos_tp_price := Fin 200, pos_tp_price_init := Fin 200\<rparr>"

theorem stop_never_loosens_witness:
  "\<exists>q. dict_get (mg_positions (fold (run_op paper_config)
       [PriceUpdate (\<lambda>_. quiet_env) ''BTC/USDT'' (Fin 96)]
       (run_op paper_config (AddPosition protected_position) (new_manager empty_journal)))) ''A'' = Some q \<and>
     pos_sl_price q \<noteq> Fin 56 \<and>
     (pos_sl_price q = pos_sl_price (protected_position\<lparr>pos_domain := PAPER\<rparr>) \<or>
      tighter (protected_position\<lparr>pos_domain := PAPER\<rparr>) q)"
proof -
  let ?p = "protected_position\<lparr>pos_domain := PAPER\<rparr>"
  let ?s = "run_op paper_config (AddPosition protected_position) (new_manager empty_journal)"
  let ?ops = "[PriceUpdate (\<lambda>_. quiet_env) ''BTC/USDT'' (Fin 96)]"
  have key: "position_key protected_position = ''A''" "pos_break_even_done ?p"
    by (simp_all add: protected_position_def sample_eval position_key_def)
  have "pos_domain protected_position = UNKNOWN_DOMAIN" "mc_domain paper_config = PAPER"
    by (simp_all add: protected_position_def sample_eval)
  then have s: "mg_positions (add_position paper_config protected_position (new_manager empty_journal)) = [(''A'', ?p)]"
    using key by (simp add: add_position_def new_manager_def dict_set_def Let_def)
  have half: "round_double (3 / 4) = Fin (3 / 4)" "round_double (1 / 2) = Fin (1 / 2)"
    by (simp_all add: round_eval float_eval)
  obtain q where q: "dict_get (mg_positions (fold (run_op paper_config) ?ops ?s)) ''A'' = Some q"
    "pos_sl_price q \<noteq> Fin 56" "position_key q = ''A''"
    by (simp add: new_manager_def add_position_def position_key_def dict_set_def
        update_price_and_check_def on_position_def position_eval sample_eval quarters half
        protected_position_def trail_stop_def stop_hit_def)
  have "pos_break_even_done q \<and> (pos_sl_price q = pos_sl_price ?p \<or> tighter ?p q)"
    by (rule stop_never_loosens [OF _ key(2) _ _ q(1)]) (simp_all add: s key q(3) op_adds_def)
  with q show ?thesis by blast
qed

section \<open>Live mode without a certified adapter\<close>

text \<open>The books of a manager that never reached an exchange.\<close>

definition untouched :: "journal \<Rightarrow> books \<Rightarrow> bool" where
  "untouched j b \<longleftrightarrow> bk_closed b = [] \<and> bk_sent b = [] \<and> bk_notices b = [] \<and> bk_journal b = j \<and>
     (\<forall>c. bk_caps b = Some c \<longrightarrow> (\<exists>x. c = capabilities_for_exchange x))"

definition open_position :: "position \<Rightarrow> books \<Rightarrow> bool" where
  "open_position p b \<longleftrightarrow> \<not> pos_closed p"

definition stays_open :: "manager_config \<Rightarrow> journal \<Rightarrow> desk \<Rightarrow> desk \<Rightarrow> bool" where
  "stays_open cfg j d d' \<longleftrightarrow>
     (\<not> mc_paper cfg \<longrightarrow> mc_exchange cfg \<longrightarrow> desk_keeps (untouched j) open_position d d')"

lemma uncertified: "ac_verdict (capabilities_for_exchange x) \<noteq> SUBMIT_AND_RECONCILE_VERIFIED"
  by (simp add: capabilities_for_exchange_def mexc_capabilities_def unverified_capabilities_def)

lemma uncertified_submit:
  assumes "untouched j (dk_books d)" "submit_close env oe intent d = (d', r)"
  shows "untouched j (dk_books d') \<and> dk_pos d' = dk_pos d \<and>
    (\<forall>res. r = Inr res \<longrightarrow> not_confirmed res)"
proof -
  obtain x where x: "order_capabilities env (dk_books d) = capabilities_for_exchange x"
    using assms(1) by (cases "bk_caps (dk_books d)") (auto simp: order_capabilities_def untouched_def)
  moreover have "\<not> supports_client_order_id (capabilities_for_exchange x)"
    by (simp add: supports_client_order_id_def uncertified)
  ultimately have "dk_pos d' = dk_pos d"
    "dk_books d' = (dk_books d)\<lparr>bk_caps := Some (capabilities_for_exchange x)\<rparr>"
    "r = Inr \<lparr>cr_mode = ''live_failed'', cr_authorized = True, cr_mutation_attempted = True,
             cr_denial_reason = None\<rparr>"
    using assms(2) by (auto simp: submit_close_def Let_def submit_def plain_result_def)
  with assms(1) show ?thesis by (auto simp: untouched_def not_confirmed_def)
qed

lemma uncertified_send:
  assumes "\<not> mc_paper cfg" "mc_exchange cfg" "untouched j (dk_books d)"
    "send_close_order cfg env override reason d = (d', r)"
  shows "untouched j (dk_books d') \<and> dk_pos d' = dk_pos d \<and> (\<forall>res. r = Inr res \<longrightarrow> not_confirmed res)"
  using assms(4)
proof (cases rule: send_close_cases)
  case (sent intent)
  then show ?thesis using uncertified_submit [OF assms(3)] by blast
qed (use assms(1-3) in \<open>auto simp: not_confirmed_def rejected_def\<close>)

lemma stays_open_pos:
  "pos_closed q = pos_closed (dk_pos d) \<Longrightarrow> stays_open cfg j d (d\<lparr>dk_pos := q\<rparr>)"
  by (simp add: stays_open_def desk_keeps_def open_position_def)

lemma stays_open_trans: "stays_open cfg j s t \<Longrightarrow> stays_open cfg j t u \<Longrightarrow> stays_open cfg j s u"
  by (auto simp: stays_open_def desk_keeps_def)

interpretation unsent_base: checks_relation "stays_open cfg j" cfg for cfg j
proof unfold_locales
  show "keeps (stays_open cfg j) (close_position cfg env reason)" for cfg j env reason
  proof (rule keepsI)
    fix d d' r
    assume "close_position cfg env reason d = (d', r)"
    then show "stays_open cfg j d d'"
      by (cases rule: close_position_cases)
        (auto simp: stays_open_def desk_keeps_def open_position_def dest: uncertified_send)
  qed
  show "keeps (stays_open cfg j) (check_partial_close cfg env)" for cfg j env
  proof (rule keepsI)
    fix d d' r
    assume "check_partial_close cfg env d = (d', r)"
    then show "stays_open cfg j d d'"
      by (cases rule: partial_cases)
        (auto simp: stays_open_def desk_keeps_def open_position_def dest: uncertified_send)
  qed
  show "stays_open cfg j s u" if "stays_open cfg j s t" "stays_open cfg j t u" for cfg j s t u
    using that by (rule stays_open_trans)
qed (simp_all add: stays_open_pos, simp add: stays_open_def desk_keeps_def)

interpretation unsent: visit_relation "stays_open cfg j" cfg for cfg j
proof unfold_locales
  show "stays_open cfg j d t" if "on_pos (update_price x) d = (t, v)" for cfg j x d t v
    using that by (auto simp: on_pos_def split: prod.splits dest!: update_price_keeps intro!: stays_open_pos)
  show "stays_open cfg j d t"
    if "bindS (check_time_stop cfg env) (\<lambda>_. setS (age_target (ve_now env))) d = (t, r)"
    for cfg j env d t r
    using that
  proof (rule unsent_base.stale_cases)
    fix u
    assume u: "stays_open cfg j d u" "t = u \<or> t = age_target (ve_now env) u"
    have "stays_open cfg j u (age_target (ve_now env) u)"
      by (simp add: stays_open_def desk_keeps_def open_position_def age_target_def Let_def)
    with u show ?thesis using stays_open_trans by blast
  qed
qed

text \<open>A live configuration: an exchange, and not on paper.\<close>

definition live_config :: "execution_domain \<Rightarrow> manager_config" where
  "live_config dm = \<lparr>mc_exchange = True, mc_paper = False, mc_domain = dm\<rparr>"

lemma live_keeps: "stays_open (live_config dm) j d d' \<Longrightarrow> desk_keeps (untouched j) open_position d d'"
  by (simp add: stays_open_def live_config_def)

interpretation unsent_live:
  manager_invariant "live_config dm" "untouched j" open_position "\<lambda>p. \<not> pos_closed p" for dm j
proof unfold_locales
  show "desk_keeps (untouched j) open_position d d'"
    if "still_open d" "visit (live_config dm) env x d = (d', r)" for j dm env x d d' r
    using unsent.visit_keeps [OF that] by (rule live_keeps)
  show "desk_keeps (untouched j) open_position d d'"
    if "tick_position (live_config dm) env ticker d = (d', r)" for j dm env ticker d d' r
    using keepsD [OF unsent.keeps_tick_position that] by (rule live_keeps)
qed (simp_all add: open_position_def)

text \<open>
  A manager with a real exchange never closes anything: whatever prices arrive, whatever
  stop, target, age or liquidation limit is passed, and whatever the environment says about
  trading, no close order reaches the exchange, the journal of order intents stays as it was, no
  position is ever closed and no callback is called. The coordinator looks the exchange up in a
  table in which no adapter is certified to carry an order identity.
\<close>

theorem live_never_closes:
  assumes "list_all (op_adds (\<lambda>p. \<not> pos_closed p)) ops"
    and "s = fold (run_op (live_config dm)) ops (new_manager j)"
  shows "bk_sent (mg_books s) = [] \<and> bk_closed (mg_books s) = [] \<and> bk_notices (mg_books s) = [] \<and>
    bk_journal (mg_books s) = j \<and> get_open s = map snd (mg_positions s)"
proof -
  have "manager_holds (untouched j) open_position (new_manager j)"
    by (rule new_manager_holds) (simp add: untouched_def new_manager_def)
  from unsent_live.history_holds [OF this assms(1)]
  have s: "manager_holds (untouched j) open_position s" unfolding assms(2) .
  then have "\<not> pos_closed p" if "(k, p) \<in> set (mg_positions s)" for k p
    using that by (auto simp: manager_holds_def open_position_def)
  then have "get_open s = map snd (mg_positions s)"
    by (auto simp: get_open_def filter_id_conv)
  with s show ?thesis by (simp add: manager_holds_def untouched_def)
qed

theorem live_never_closes_witness:
  "bk_closed (mg_books (fold (run_op (live_config REAL)) sample_history (new_manager empty_journal))) = [] \<and>
   get_open (fold (run_op (live_config REAL)) sample_history (new_manager empty_journal)) =
     map snd (mg_positions (fold (run_op (live_config REAL)) sample_history (new_manager empty_journal)))"
  using live_never_closes [OF sample_history_opens refl, of REAL empty_journal] by blast

end
