(* ===== verification/PositionOrders.thy ===== *)
theory PositionOrders
  imports PositionHistory
begin

text \<open>
  The close orders of the position manager: what an order that reaches the exchange can be, and
  where the bookkeeping parts from the exchange: a partial close without its order, a close that
  leaves a remainder, a retry that is a new order, a missing order identifier, a position that
  stops the checks of the others.
\<close>

section \<open>What an order can be\<close>

lemma fl_double_mul [simp]: "fl_double (fl_mul x y)"
  by (cases x; cases y) (simp_all add: fl_inf_def, simp_all add: fl_double_def)

lemma sell_is_sell: "side_norm (close_request p qty symbol precision) = ''sell''"
  by (simp add: side_norm_def close_request_def py_strip_def py_lower_def lower_char_def is_space_def
      char_of_def bit_0)

lemma close_intent_fields:
  assumes "close_intent env p reason symbol q = Inr i"
  shows "oi_reduce_only i \<and> oi_side i = close_side p \<and> oi_symbol i = symbol \<and>
    oi_position_ref i = Some (position_key p) \<and> norm_decimal_str (VFloat q) = Inr (oi_amount i) \<and>
    (\<exists>t. norm_decimal_str (VFloat (close_price p)) = Inr t \<and> oi_price i = Some t)"
proof -
  have side: "py_lower (py_strip (close_side p)) = close_side p"
    by (cases "pos_side p") (simp_all add: close_side_def py_strip_def py_lower_def lower_char_def is_space_def char_of_def bit_0)
  show ?thesis
    using assms side by (auto simp: close_intent_def build_order_intent_def Let_def result_simps)
qed

lemma ordered_intent:
  assumes "close_order_intent env oe qty reason p = Inr (Inr i)"
  obtains symbol auth where "to_ccxt_symbol (pos_symbol p) = Inr symbol"
    "authorize_order (close_request p qty symbol (oe_precision oe symbol)) = Inr auth"
    "oa_authorized auth" "close_intent env p reason symbol (oa_normalized_qty auth) = Inr i"
  using assms unfolding close_order_intent_def bindE_eq_Inr escaped_def
  by (elim exE conjE) (auto split: if_splits sum.splits intro: that)

text \<open>
  A close order never exceeds the position. Whatever close is asked for, on either side, the
  order that may reach the exchange is reduce-only, on the side opposite to the position, and
  its amount is the decimal text of a number that is positive or zero and at most the quantity the manager
  tracks for the position.
\<close>

theorem close_order_bounded:
  assumes "close_order_intent env oe qty reason p = Inr (Inr i)"
    and "fl_double (pos_qty p)" "fl_double (close_price p)"
    and "value_double (oe_precision oe (oi_symbol i))"
  shows "oi_reduce_only i \<and> oi_side i = close_side p \<and> oi_position_ref i = Some (position_key p) \<and>
    (\<exists>q. norm_decimal_str (VFloat q) = Inr (oi_amount i) \<and> fl_le (Fin 0) q \<and> fl_le q (pos_qty p))"
  using assms(1)
proof (rule ordered_intent)
  fix symbol auth
  assume auth: "authorize_order (close_request p qty symbol (oe_precision oe symbol)) = Inr auth"
    "oa_authorized auth" and i: "close_intent env p reason symbol (oa_normalized_qty auth) = Inr i"
  let ?r = "close_request p qty symbol (oe_precision oe symbol)"
  have "oi_symbol i = symbol" using close_intent_fields [OF i] by simp
  with assms(2-4) have dbl: "request_double ?r"
    by (simp add: request_double_def close_request_def value_double_def)
  have "fl_le (Fin 0) (oa_normalized_qty auth) \<and> fl_le (oa_normalized_qty auth) (pos_qty p)"
    using auth
  proof (rule authorized_stages)
    fix amount cap price step min_notional q notional
    assume h: "check_amount ?r = Inr (amount, cap)"
      "check_metadata ?r amount cap = Inr (price, step, min_notional)"
      "check_normalized ?r amount cap price step min_notional = Inr (q, notional)"
      "check_balance ?r amount cap step min_notional q notional = Inr ()"
      and q: "oa_normalized_qty auth = dec_float q"
    have "fl_finite amount" "fl_finite cap" using checked_amount [OF h(1)] by blast+
    then obtain a c where "amount = Fin a" "cap = Fin c" unfolding fl_finite_iff by blast
    with checked_normalized [OF dbl] h(1-3) have "0 < q" "0 \<le> notional" by blast+
    with checked_balance [OF dbl _ _ _ h(4)] have le: "fl_le (dec_float q) (pos_qty p)"
      by (simp add: sell_is_sell) (simp add: close_request_def)
    moreover have "fl_le (Fin 0) (dec_float q)"
      using \<open>0 < q\<close> le by (cases "dec_float q")
        (auto simp: round_double_def Let_def round_mag_nonneg split: if_splits)
    ultimately show ?thesis by (simp add: q)
  qed
  with close_intent_fields [OF i] show ?thesis by blast
qed

section \<open>Identity of a retried close\<close>

text \<open>
  The identity of a close order follows its price and amount, not only its position and
  reason: two close orders of one position, for one reason and market, are the same intent to
  the journal exactly when both the rounded amounts and the prices print alike. A close that is
  retried at another price, after a call whose answer was lost, is a new intent.
\<close>

theorem retried_close_identity:
  assumes "close_intent env p reason symbol q = Inr i"
    and "close_intent env p' reason symbol q' = Inr i'"
    and "position_key p' = position_key p" "pos_side p' = pos_side p"
  shows "canonical_json i = canonical_json i' \<longleftrightarrow>
    norm_decimal_str (VFloat q) = norm_decimal_str (VFloat q') \<and>
    norm_decimal_str (VFloat (close_price p)) = norm_decimal_str (VFloat (close_price p'))"
proof -
  have same: "oi_schema_version i = oi_schema_version i' \<and> oi_namespace i = oi_namespace i' \<and>
      oi_causal_id i = oi_causal_id i' \<and> oi_account_scope i = oi_account_scope i' \<and>
      oi_order_type i = oi_order_type i'"
    using assms by (auto simp: close_intent_def build_order_intent_def Let_def result_simps)
  note f = close_intent_fields [OF assms(1)] close_intent_fields [OF assms(2)]
  then have "oi_side i = oi_side i'" using assms(4) by (simp add: close_side_def)
  with same f show ?thesis
    using assms(3) unfolding canonical_json_expand
    by (auto simp: json_str_cancel json_str_inj show_int_cancel null_text_def)
qed

section \<open>A partial close without its order\<close>

text \<open>
  A partial close is booked whatever became of its order. With a real exchange and trading
  not authorized, a position whose partial close is due loses that part of its tracked quantity,
  its stop moves, and the partial close is marked done, although no order was sent and the
  refusal is recorded nowhere.
\<close>

theorem partial_close_unconfirmed:
  assumes "partial_due p" and "\<not> mc_paper cfg" "mc_exchange cfg"
    and "\<not> fst (evaluate_trading_authority (close_gates cfg env))"
  shows "check_partial_close cfg env \<lparr>dk_pos = p, dk_books = b\<rparr> =
    (\<lparr>dk_pos = take_partial (fl_mul (pos_qty p) (pos_partial_close_pct p)) p, dk_books = b\<rparr>, Inr ()) \<and>
    pos_qty (take_partial (fl_mul (pos_qty p) (pos_partial_close_pct p)) p) =
      fl_sub (pos_qty p) (fl_mul (pos_qty p) (pos_partial_close_pct p)) \<and>
    pos_partial_done (take_partial (fl_mul (pos_qty p) (pos_partial_close_pct p)) p) \<and>
    pos_close_order_status (take_partial (fl_mul (pos_qty p) (pos_partial_close_pct p)) p) =
      pos_close_order_status p"
proof (intro conjI)
  let ?q = "fl_mul (pos_qty p) (pos_partial_close_pct p)"
  have send: "send_close_order cfg env (Some ?q) PARTIAL \<lparr>dk_pos = p, dk_books = b\<rparr> =
      (\<lparr>dk_pos = p, dk_books = b\<rparr>, Inr (rejected ''AUTHORITY_DENIED''))"
    using assms(2-4) by (simp add: send_close_order_def bind_eval liftS_def)
  show "check_partial_close cfg env \<lparr>dk_pos = p, dk_books = b\<rparr> =
      (\<lparr>dk_pos = take_partial ?q p, dk_books = b\<rparr>, Inr ())"
    using assms(1) bind_after [of "send_close_order cfg env (Some ?q) PARTIAL", OF send,
        of "\<lambda>_. set_pos (take_partial ?q)"]
    by (simp add: check_partial_close_def whenS_def bind_eval)
qed (simp_all add: take_partial_def reduce_stop_def Let_def split: position_side.split)

section \<open>One position stops the others\<close>

lemma eachS_append: "eachS f (xs @ ys) s = bindS (eachS f xs) (\<lambda>_. eachS f ys) s"
  by (induction xs arbitrary: s) (simp_all add: bindS_def liftS_def split: prod.split sum.split)

text \<open>Ticks of other keys leave a position alone.\<close>

lemma ticks_elsewhere:
  assumes "eachS (\<lambda>k. on_position k (m k)) ks s = (t, r)" "k \<notin> set ks"
  shows "dict_get (mg_positions t) k = dict_get (mg_positions s) k"
  using assms
proof (induction ks arbitrary: s)
  case (Cons k' ks)
  obtain u v where u: "on_position k' (m k') s = (u, v)" by force
  have "dict_get (mg_positions u) k = dict_get (mg_positions s) k"
    using u Cons.prems(2) by (cases rule: on_position_cases) auto
  moreover have "t = u \<or> eachS (\<lambda>k. on_position k (m k)) ks u = (t, r)"
    using Cons.prems(1) u by (auto simp: bindS_def split: sum.splits)
  ultimately show ?case using Cons.IH Cons.prems(2) by auto
qed simp

lemma zero_entry_raises:
  assumes "pos_entry_price p = Fin 0" "\<not> pos_closed p" "fetch_price cfg ticker (pos_symbol p) = Some x"
    "\<not> fl_le x (Fin 0)"
  shows "\<exists>d. tick_position cfg env ticker \<lparr>dk_pos = p, dk_books = b\<rparr> = (d, Inl ZeroDivisionError)"
  using assms
  by (simp add: tick_position_def whenS_def still_open_def bind_eval visit_def on_pos_def update_price_def
      bindS_def setS_def getS_def liftS_def)

text \<open>
  One position without an entry price stops the watch loop for all that follow. When a
  tracked open position has the entry price 0 (which an exchange answer without prices gives)
  and its market has a price, every tick ends in an exception at it or before, and no position
  after it in the dictionary is checked: it is exactly as before the tick, whatever its stop.
\<close>

theorem zero_entry_blocks:
  assumes "mg_positions s = before @ (k, p) # after" "distinct (dict_keys (mg_positions s))"
    and "pos_entry_price p = Fin 0" "\<not> pos_closed p"
    and "fetch_price cfg (ticker k) (pos_symbol p) = Some x" "\<not> fl_le x (Fin 0)"
    and "tick cfg env ticker s = (t, r)"
  shows "(\<exists>e. r = Inl e) \<and>
    (\<forall>k' q. (k', q) \<in> set after \<longrightarrow> dict_get (mg_positions t) k' = Some q)"
proof -
  let ?m = "\<lambda>k. tick_position cfg (env k) (ticker k)"
  let ?pre = "map fst before"
  obtain t' v where pre: "eachS (\<lambda>k. on_position k (?m k)) (?pre @ [k]) s = (t', v)" by force
  have "mg_positions s = (before @ [(k, p)]) @ after" using assms(1) by simp
  then have "bindS (eachS (\<lambda>k. on_position k (?m k)) (?pre @ [k]))
      (\<lambda>_. eachS (\<lambda>k. on_position k (?m k)) (map fst after)) s = (t, r)"
    using assms(7) by (simp add: tick_def bind_eval flip: eachS_append)
  moreover have "\<exists>e. v = Inl e"
  proof (rule ccontr)
    assume "\<nexists>e. v = Inl e"
    then obtain u w where u: "eachS (\<lambda>k. on_position k (?m k)) ?pre s = (u, Inr ())"
      and w: "on_position k (?m k) u = (w, Inr ())"
      using pre by (cases v) (auto simp: eachS_append bindS_returns)
    have "k \<notin> set ?pre" using assms(1,2) by simp
    then have "dict_get (mg_positions u) k = dict_get (mg_positions s) k"
      using u by (intro ticks_elsewhere)
    also have "\<dots> = Some p" using assms(1) map_of_is_SomeI [OF assms(2)] by simp
    finally show False
      using w zero_entry_raises [OF assms(3-6), of "env k" "mg_books u"] by (auto simp: on_position_def)
  qed
  ultimately obtain e where e: "v = Inl e" "bindS (eachS (\<lambda>k. on_position k (?m k)) (?pre @ [k]))
      (\<lambda>_. eachS (\<lambda>k. on_position k (?m k)) (map fst after)) s = (t, r)" by blast
  have "t = t'" "r = Inl e"
    using e(2) unfolding bind_after [of "eachS (\<lambda>k. on_position k (?m k)) (?pre @ [k])", OF pre [unfolded e(1)]]
    by simp_all
  moreover have "dict_get (mg_positions t') k' = Some q" if after: "(k', q) \<in> set after" for k' q
  proof -
    have "k' \<in> fst ` set after" using after by (rule image_eqI [rotated]) simp
    then have "k' \<notin> set (?pre @ [k])" using assms(2) unfolding assms(1) by auto
    with pre have "dict_get (mg_positions t') k' = dict_get (mg_positions s) k'" by (rule ticks_elsewhere)
    also have "\<dots> = Some q" using after assms(1) map_of_is_SomeI [OF assms(2)] by simp
    finally show ?thesis .
  qed
  ultimately show ?thesis by simp
qed

section \<open>A close that leaves a remainder\<close>

text \<open>
  Three contracts at the price 0.7, tradable in whole contracts. The notional in floats is a
  little less than 2.1, so that dividing it by the price again falls just short of three.
\<close>

abbreviation "price_07 \<equiv> (3152519739159347 / 4503599627370496 :: rat)"

abbreviation "notional_21 \<equiv> (1182194902184755 / 562949953421312 :: rat)"

lemma price_07: "round_double (7 / 10) = Fin price_07"
  by (simp add: round_eval float_eval)

lemma notional_21: "round_double (9457559217478041 / 4503599627370496) = Fin notional_21"
  by (simp add: round_eval float_eval)

lemma shortest_texts: "shortest price_07 = (7, -1)" "shortest notional_21 = (20999999999999996, -16)"
  "shortest 3 = (3, 0)"
  by (simp_all add: shortest_def with_digits_def reads_as_def round_eval float_eval
      upto.simps pow10_def strip_zeros.simps)

lemma decimals: "decimal_of_float price_07 = 7 / 10"
  "decimal_of_float notional_21 = 5249999999999999 / 2500000000000000" "decimal_of_float 3 = 3"
  by (simp_all add: decimal_of_float_def shortest_texts pow10_def)


lemma decimal_steps:
  "decimal_div (5249999999999999 / 2500000000000000) (7 / 10) =
     2999999999999999428571428571 / 1000000000000000000000000000"
  "decimal_div (2999999999999999428571428571 / 1000000000000000000000000000) 1 =
     2999999999999999428571428571 / 1000000000000000000000000000"
  "decimal_floor (2999999999999999428571428571 / 1000000000000000000000000000) = 2"
  "decimal_mul 2 1 = 2" "decimal_mul 2 (7 / 10) = 7 / 5"
  by (simp_all add: decimal_div_def decimal_mul_def decimal_round_def decimal_floor_def truncate_rat_def
      float_eval round_eval pow10_def)

definition contract_position :: position where
  "contract_position = sample_terms\<lparr>pos_qty := Fin 3, pos_current_price := Fin price_07\<rparr>"

lemma contract_authorized:
  "\<exists>res. authorize_order (close_request contract_position (Fin 3) symbol (VInt 1)) = Inr res \<and>
     oa_authorized res \<and> oa_normalized_qty res = Fin 2"
proof -
  have fields: "close_price contract_position = Fin price_07" "pos_qty contract_position = Fin 3"
    by (simp_all add: close_price_def contract_position_def)
  have notional: "fl_mul (Fin 3) (Fin price_07) = Fin notional_21" by (simp add: notional_21)
  have zero: "decimal_of_float 0 = 0" by (simp add: decimal_of_float_def)
  define r where "r = close_request contract_position (Fin 3) symbol (VInt 1)"
  have r: "side_norm r = ''sell''" "rq_requested_amount r = VFloat (Fin notional_21)"
    "rq_price r = VFloat (Fin price_07)" "rq_amount_precision r = VInt 1" "rq_min_notional r = VFloat (Fin 0)"
    "rq_authorized_max_amount r = Some (Fin notional_21)" "rq_available_base r = VFloat (Fin 3)"
    "\<not> rq_balance_error r" "\<not> rq_authority_denied r" "rq_market_semantics_supported r"
    "rq_require_balance_check r"
    unfolding r_def
    by (simp_all only: sell_is_sell) (simp_all add: close_request_def fields notional del: fl_mul.simps)
  have "\<exists>res. authorize_order r = Inr res \<and> oa_authorized res \<and> oa_normalized_qty res = Fin 2"
    by (simp add: authorize_order_def authorize_stages_def check_authority_def
        check_amount_def check_metadata_def check_normalized_def check_balance_def normalize_quantity_def
        to_finite_positive_decimal_def or_escape_def r decimals decimal_steps zero raise_if_def Let_def)
  then show ?thesis unfolding r_def .
qed

text \<open>The text of the amount and of the price.\<close>

lemmas decimal_text_eval = norm_decimal_str_def parse_decimal_def unsigned_decimal_def
  decimal_parts_def break_at_def optional_digits_def is_digit_def read_digits_def
  digit_val_def normalize_parts_def show_nat_ge show_nat_digit strip_zeros.simps
  plain_notation_def zeros_def digit_char_def py_strip_def is_space_def py_lower_def lower_char_def
  Let_def char_of_def bit_0

lemma repr_07: "float_repr (Fin price_07) = ''0.7''"
  by (simp add: repr_pos_def shortest_texts point_notation_def zeros_def show_int_def show_nat_digit
      digit_char_def char_of_def bit_0)

lemma repr_2: "float_repr (Fin 2) = ''2.0''"
  by (simp add: repr_pos_def shortest_def with_digits_def reads_as_def round_eval float_eval
      upto.simps pow10_def strip_zeros.simps point_notation_def zeros_def show_int_def show_nat_digit
      digit_char_def char_of_def bit_0)

lemma contract_texts: "norm_decimal_str (VFloat (Fin price_07)) = Inr ''0.7''"
  "norm_decimal_str (VFloat (Fin 2)) = Inr ''2''"
  by (simp_all add: decimal_text_eval repr_07 repr_2 del: float_repr.simps)

definition live_order :: order_env where
  "live_order = \<lparr>oe_precision = (\<lambda>_. VInt 1), oe_reply = (\<lambda>_ _. OrderPlaced []), oe_call = good_env,
     oe_detail = []\<rparr>"

definition live_env :: visit_env where
  "live_env = \<lparr>ve_now = Fin 0, ve_max_age = None, ve_paper_trading = Some ''false'',
     ve_live_confirmed = Some ''true'', ve_exchange_id = None, ve_order = (\<lambda>_. live_order)\<rparr>"

lemma live_gates: "fst (evaluate_trading_authority (close_gates (live_config dm) live_env))"
  by (simp add: evaluate_trading_authority_def close_gates_def live_config_def live_env_def env_flag_def
      getenv_def py_lower_def lower_char_def char_of_def bit_0)

lemma contract_fields:
  "close_price contract_position = Fin price_07" "pos_qty contract_position = Fin 3"
  "pos_symbol contract_position = ''BTC/USDT''" "position_key contract_position = ''A''"
  "close_side contract_position = ''sell''" "\<not> pos_closed contract_position"
  by (simp_all add: close_price_def contract_position_def sample_terms_def position_key_def close_side_def)

lemma contract_intent:
  "\<exists>i. close_intent live_env contract_position reason symbol (Fin 2) = Inr i"
proof -
  have "py_strip (''A:'' @ close_reason_value reason) \<noteq> []"
    by (cases reason) (simp_all add: py_strip_def is_space_def char_of_def bit_0)
  moreover have "py_lower (py_strip ''sell'') = ''sell''"
    by (simp add: py_strip_def py_lower_def lower_char_def is_space_def char_of_def bit_0)
  ultimately show ?thesis
    by (simp add: close_intent_def build_order_intent_def contract_fields contract_texts
        del: norm_decimal_str_def)
qed

lemma contract_order:
  "\<exists>i. close_order_intent live_env live_order (Fin 3) reason contract_position = Inr (Inr i) \<and>
     oi_amount i = ''2'' \<and> oi_symbol i = ''BTC/USD:USD''"
proof -
  obtain res where res: "authorize_order (close_request contract_position (Fin 3) ''BTC/USD:USD'' (VInt 1)) = Inr res"
    "oa_authorized res" "oa_normalized_qty res = Fin 2"
    using contract_authorized by blast
  obtain i where i: "close_intent live_env contract_position reason ''BTC/USD:USD'' (Fin 2) = Inr i"
    using contract_intent by blast
  have "to_ccxt_symbol ''BTC/USDT'' = Inr ''BTC/USD:USD''" by (simp add: to_ccxt_symbol_def)
  with res i close_intent_fields [OF i] contract_texts show ?thesis
    by (simp add: close_order_intent_def contract_fields live_order_def escaped_def)
qed

text \<open>A fresh intent that the exchange acknowledges.\<close>

lemma acknowledged_submit:
  assumes "register_intent j i (full_digest i) (client_order_id i 32) ref env = (j1, None)"
    and "supports_client_order_id caps" "ce_lock_ok env" "ce_io env 2 = Written"
    and "mut i (client_order_id i 32) = Some m" "mr_outcome m = MUT_ACKNOWLEDGED"
  shows "\<exists>sub. ef_result (submit caps j i True ref mut env) = Inr sub \<and> sr_outcome sub = OUT_ACKNOWLEDGED"
proof -
  obtain r where r: "journal_get j1 (full_digest i) = Some r" "jr_state r = SUBMISSION_STARTED"
    using registered_last [OF assms(1)] by auto
  then show ?thesis
    using assms by (simp add: submit_def Let_def settle_mutation_def append_transition_def prepare_append_def)
qed

definition certified_books :: books where
  "certified_books = quiet_books\<lparr>bk_caps := Some certified\<rparr>"

lemma contract_closes:
  "\<exists>d. close_position (live_config dm) live_env reason \<lparr>dk_pos = contract_position, dk_books = certified_books\<rparr>
     = (d, Inr ()) \<and> pos_closed (dk_pos d)"
proof -
  let ?d = "\<lparr>dk_pos = contract_position, dk_books = certified_books\<rparr>"
  obtain i where i: "close_order_intent live_env live_order (Fin 3) reason contract_position = Inr (Inr i)"
    using contract_order by blast
  obtain j1 where "register_intent empty_journal i (full_digest i) (client_order_id i 32) [] good_env = (j1, None)"
    using registers_in_empty [OF full_digest_nonempty] by blast
  from acknowledged_submit [OF this, of certified "close_mutate live_order"] obtain sub where
    sub: "ef_result (submit certified empty_journal i True [] (close_mutate live_order) good_env) = Inr sub"
    "sr_outcome sub = OUT_ACKNOWLEDGED"
    by (auto simp: certified_def supports_client_order_id_def good_env_def close_mutate_def live_order_def)
  have "\<exists>d. submit_close live_env live_order i ?d = (d, Inr \<lparr>cr_mode = ''live'', cr_authorized = True,
      cr_mutation_attempted = True, cr_denial_reason = None\<rparr>) \<and> dk_pos d = contract_position"
    using sub by (simp add: submit_close_def Let_def order_capabilities_def certified_books_def quiet_books_def
        new_manager_def) (simp add: live_order_def)
  then obtain d where d: "submit_close live_env live_order i ?d = (d, Inr \<lparr>cr_mode = ''live'',
      cr_authorized = True, cr_mutation_attempted = True, cr_denial_reason = None\<rparr>)" "dk_pos d = contract_position"
    by blast
  have "ve_order live_env = (\<lambda>_. live_order)" by (simp add: live_env_def)
  then have "send_close_order (live_config dm) live_env None reason ?d = (d, Inr \<lparr>cr_mode = ''live'',
      cr_authorized = True, cr_mutation_attempted = True, cr_denial_reason = None\<rparr>)"
    using i d(1) live_gates [of dm]
    by (simp add: send_close_order_def bind_eval close_qty_def contract_fields)
      (simp add: live_config_def bindS_def liftS_def)
  with contract_fields(6) show ?thesis
    by (simp add: close_position_def whenS_def bindS_def not_confirmed_def set_pos_def setS_def mark_closed_def Let_def)
qed

text \<open>
  A close can leave a remainder that nothing tracks. A position of three contracts at the
  price 0.7, with whole contracts as the step, is closed with an order for two: the quantity is
  recovered by dividing the notional by the price and falls just short of three before it is
  truncated. The exchange acknowledges, and the manager marks the position closed and stops
  watching it, with one contract left on the exchange.
\<close>

theorem close_leaves_remainder:
  "pos_qty contract_position = Fin 3 \<and>
   (\<exists>i. close_order_intent live_env live_order (close_qty None contract_position) reason contract_position
      = Inr (Inr i) \<and> oi_amount i = ''2'') \<and>
   (\<exists>d. close_position (live_config dm) live_env reason
      \<lparr>dk_pos = contract_position, dk_books = certified_books\<rparr> = (d, Inr ()) \<and> pos_closed (dk_pos d))"
  using contract_order [of reason] contract_closes [of dm reason] contract_fields(2)
  by (auto simp: close_qty_def)

section \<open>Orders without an identifier\<close>

text \<open>
  Orders that come back without an identifier share one key. When the exchange answers with
  an identifier that is \<^verbatim>\<open>None\<close>, the position is keyed by the text ''None''; the next such
  position replaces it in the manager, whatever its market, and the first is tracked no more.
\<close>

theorem missing_id_replaces:
  assumes "dict_get order ''id'' = Some VNone" "dict_get order' ''id'' = Some VNone"
    and "from_futures_order dflt order info t = Inr p" "from_futures_order dflt' order' info' t' = Inr p'"
    and "s' = add_position cfg p' (add_position cfg p s)"
  shows "position_key p = ''None'' \<and>
    (\<exists>q. dict_get (mg_positions s') ''None'' = Some q \<and> pos_symbol q = ot_symbol t') \<and>
    length (mg_positions s') = length (mg_positions (add_position cfg p s))"
proof -
  have sym: "pos_symbol (position_post_init q) = pos_symbol q" "pos_order_id (position_post_init q) = pos_order_id q"
    for q
    by (auto simp: position_post_init_def recalc_tp_sl_def Let_def split: position_side.split)
  have p: "pos_order_id p = ''None''" "pos_order_id p' = ''None''" "pos_symbol p' = ot_symbol t'"
    using assms(1-4) by (auto simp: from_futures_order_def result_simps sym)
  have key: "position_key (q\<lparr>pos_domain := dm\<rparr>) = position_key q" for q dm by (simp add: position_key_def)
  have k: "position_key p = ''None''" "position_key p' = ''None''" using p by (simp_all add: position_key_def)
  have len: "length (dict_set d k v) = (if k \<in> set (dict_keys d) then length d else Suc (length d))"
    for d :: "(string, position) dict" and k v
    by (induction d) (auto simp: dict_set_def)
  have "length (mg_positions s') = length (mg_positions (add_position cfg p s))"
    using k by (auto simp: assms(5) add_position_def Let_def key len)
  moreover have "\<exists>q. dict_get (mg_positions s') ''None'' = Some q \<and> pos_symbol q = ot_symbol t'"
    using k p(3) by (auto simp: assms(5) add_position_def Let_def key)
  ultimately show ?thesis using k(1) by blast
qed

definition sample_order :: "(string, pyval) dict" where
  "sample_order = [(''id'', VNone), (''price'', VInt 64), (''amount'', VInt 2)]"

definition sample_order_terms :: "string \<Rightarrow> order_terms" where
  "sample_order_terms symbol = \<lparr>ot_symbol = symbol, ot_action = ''BUY'', ot_size_usd = Fin 128, ot_leverage = 1,
     ot_tp_pct = Fin (1 / 4), ot_sl_pct = Fin (1 / 8), ot_trailing = Fin 0, ot_atr = Fin 0,
     ot_volatility = Fin 0, ot_regime = ''r''\<rparr>"

theorem missing_id_replaces_witness:
  "\<exists>p p'. from_futures_order sample_terms sample_order None (sample_order_terms ''BTC/USDT'') = Inr p \<and>
     from_futures_order sample_terms sample_order None (sample_order_terms ''ETH/USDT'') = Inr p' \<and>
     length (mg_positions (add_position paper_config p' (add_position paper_config p (new_manager empty_journal)))) =
       length (mg_positions (add_position paper_config p (new_manager empty_journal)))"
proof -
  have made: "\<exists>p. from_futures_order sample_terms sample_order None (sample_order_terms symbol) = Inr p" for symbol
    by (simp add: from_futures_order_def sample_order_def or_chain_def get_or_none_def as_float_def)
  obtain p p' where p: "from_futures_order sample_terms sample_order None (sample_order_terms ''BTC/USDT'') = Inr p"
    "from_futures_order sample_terms sample_order None (sample_order_terms ''ETH/USDT'') = Inr p'"
    using made by metis
  have id: "dict_get sample_order ''id'' = Some VNone" by (simp add: sample_order_def)
  from missing_id_replaces [OF id id p refl] p show ?thesis by blast
qed

section \<open>Hedges\<close>

text \<open>
  The hedge report is complete and exact: it lists precisely the pairs of an open long and
  an open short position on the same symbol.
\<close>

theorem hedges_exact:
  "set (detect_hedges s) =
     {(l, h). l \<in> set (get_open s) \<and> h \<in> set (get_open s) \<and> pos_side l = Long \<and> pos_side h = Short \<and>
        pos_symbol l = pos_symbol h}"
proof -
  have syms: "set (fold (\<lambda>p ss. if pos_symbol p \<in> set ss then ss else ss @ [pos_symbol p]) ps ss0) =
      set ss0 \<union> pos_symbol ` set ps" for ps ss0
    by (induction ps arbitrary: ss0) auto
  show ?thesis by (auto simp: detect_hedges_def Let_def syms)
qed

section \<open>Witnesses\<close>

lemma doubles: "is_double 3" "is_double price_07"
  using is_double_of_int [of 3] round_double_is_double [OF price_07] by simp_all

theorem close_order_bounded_witness:
  "\<exists>i q. close_order_intent live_env live_order (Fin 3) TP contract_position = Inr (Inr i) \<and>
     norm_decimal_str (VFloat q) = Inr (oi_amount i) \<and> fl_le q (Fin 3)"
proof -
  obtain i where i: "close_order_intent live_env live_order (Fin 3) TP contract_position = Inr (Inr i)"
    using contract_order by blast
  from close_order_bounded [OF i] show ?thesis
    using i by (auto simp: contract_fields doubles live_order_def value_double_def)
qed

theorem retried_close_identity_witness:
  "\<exists>i i'. close_intent live_env contract_position SL ''S'' (Fin 2) = Inr i \<and>
     close_intent live_env (contract_position\<lparr>pos_current_price := Fin 2\<rparr>) SL ''S'' (Fin 2) = Inr i' \<and>
     canonical_json i \<noteq> canonical_json i'"
proof -
  let ?p = "contract_position\<lparr>pos_current_price := Fin 2\<rparr>"
  have f: "close_price ?p = Fin 2" "position_key ?p = position_key contract_position"
    "close_side ?p = close_side contract_position" "pos_side ?p = pos_side contract_position"
    by (simp_all add: close_price_def position_key_def close_side_def)
  obtain i where i: "close_intent live_env contract_position SL ''S'' (Fin 2) = Inr i"
    using contract_intent by blast
  then have "\<exists>i'. close_intent live_env ?p SL ''S'' (Fin 2) = Inr i'"
    by (auto simp: close_intent_def build_order_intent_def f result_simps contract_texts Let_def split: option.splits)
  then obtain i' where i': "close_intent live_env ?p SL ''S'' (Fin 2) = Inr i'" by blast
  have "canonical_json i \<noteq> canonical_json i'"
    using retried_close_identity [OF i i' f(2,4)] by (simp add: f contract_fields contract_texts)
  with i i' show ?thesis by blast
qed

theorem partial_close_unconfirmed_witness:
  "\<exists>p d. pos_qty p = Fin 4 \<and>
     check_partial_close (live_config REAL) quiet_env \<lparr>dk_pos = p, dk_books = quiet_books\<rparr> = (d, Inr ()) \<and>
     pos_qty (dk_pos d) = Fin 2 \<and> pos_partial_done (dk_pos d) \<and> dk_books d = quiet_books"
proof -
  define p where "p = sample_terms\<lparr>pos_partial_close_pct := Fin (1 / 2), pos_pnl_pct := Fin 1\<rparr>"
  have due: "partial_due p" "\<not> mc_paper (live_config REAL)" "mc_exchange (live_config REAL)"
    by (simp_all add: p_def partial_due_def sample_terms_def live_config_def)
  have gate: "\<not> fst (evaluate_trading_authority (close_gates (live_config REAL) quiet_env))"
    by (simp add: evaluate_trading_authority_def close_gates_def live_config_def quiet_env_def env_flag_def
        getenv_def py_lower_def lower_char_def char_of_def bit_0)
  have "fl_sub (pos_qty p) (fl_mul (pos_qty p) (pos_partial_close_pct p)) = Fin 2" "pos_qty p = Fin 4"
    by (simp_all add: p_def sample_terms_def fl_sub_def)
  with partial_close_unconfirmed [OF due gate, of quiet_books] show ?thesis by auto
qed

theorem zero_entry_blocks_witness:
  "\<exists>s t e. tick (live_config REAL) (\<lambda>_. quiet_env) (\<lambda>_ _. Some (VInt 5)) s = (t, Inl e) \<and>
     mg_positions s = [(''Z'', sample_terms\<lparr>pos_entry_price := Fin 0\<rparr>), (''A'', sample_tracked)] \<and>
     dict_get (mg_positions t) ''A'' = Some sample_tracked"
proof -
  define s where "s = \<lparr>mg_positions = [(''Z'', sample_terms\<lparr>pos_entry_price := Fin 0\<rparr>), (''A'', sample_tracked)],
    mg_books = quiet_books\<rparr>"
  have s: "mg_positions s = [] @ (''Z'', sample_terms\<lparr>pos_entry_price := Fin 0\<rparr>) # [(''A'', sample_tracked)]"
    "distinct (dict_keys (mg_positions s))"
    by (simp_all add: s_def)
  obtain t r where run: "tick (live_config REAL) (\<lambda>_. quiet_env) (\<lambda>_ _. Some (VInt 5)) s = (t, r)" by force
  have "fetch_price (live_config REAL) (\<lambda>_. Some (VInt 5))
      (pos_symbol (sample_terms\<lparr>pos_entry_price := Fin 0\<rparr>)) = Some (Fin 5)"
    by (simp add: fetch_price_def live_config_def sample_terms_def to_ccxt_symbol_def)
  from zero_entry_blocks [OF s _ _ this _ run] run s(1) show ?thesis
    by (auto simp: sample_terms_def)
qed

end
