(* ===== verification/PositionReconciler.thy ===== *)
theory PositionReconciler
  imports PositionManager
begin

text \<open>
  \<^verbatim>\<open>src/system/position_reconciler.py\<close>: the comparison of the positions on the exchange with
  those of a position manager, and the guards that decide whether they can be compared at all.
  Handles of exchanges are compared by identity, here a number; error texts are left out. The
  drift list, which the code builds from a set, is given in the order of the exchange.
\<close>

section \<open>Inputs\<close>

text \<open>
  A raw position of the exchange is a dictionary whose \<^verbatim>\<open>info\<close> entry is missing, is not a
  dictionary, or is one; \<open>None\<close> as the whole answer is a call that raises.
\<close>

datatype raw_info = NoInfo | BadInfo | Info "(string, pyval) dict"

record raw_position =
  rw_fields :: "(string, pyval) dict"
  rw_info :: raw_info

datatype get_open_reply = NoGetOpen | GetOpenRaises | OpenPositions "position list"

text \<open>What the reconciler sees of the position manager; an absent attribute is \<open>UNKNOWN_DOMAIN\<close> or \<open>None\<close>.\<close>

record manager_view =
  mv_domain :: execution_domain
  mv_exchange :: "nat option"
  mv_open :: get_open_reply

definition view_manager :: "manager_config \<Rightarrow> nat option \<Rightarrow> manager \<Rightarrow> manager_view" where
  "view_manager cfg handle s = \<lparr>mv_domain = mc_domain cfg, mv_exchange = handle, mv_open = OpenPositions (get_open s)\<rparr>"

record reconciler =
  rc_exchange :: "nat option"
  rc_expected :: execution_domain
  rc_last :: pyfloat

record reconcile_report =
  rr_exchange_positions :: nat
  rr_internal_positions :: nat
  rr_ghosts :: "string list"
  rr_orphans :: "pyval list"
  rr_drifts :: "pyval list"
  rr_reachable :: bool
  rr_comparable :: bool
  rr_unresolved :: "string list"
  rr_performed :: bool
  rr_readable :: bool

definition empty_report :: reconcile_report where
  "empty_report = \<lparr>rr_exchange_positions = 0, rr_internal_positions = 0, rr_ghosts = [], rr_orphans = [],
     rr_drifts = [], rr_reachable = True, rr_comparable = True, rr_unresolved = [], rr_performed = True,
     rr_readable = True\<rparr>"

definition rr_has_drift :: "reconcile_report \<Rightarrow> bool" where
  "rr_has_drift r \<longleftrightarrow> rr_ghosts r \<noteq> [] \<or> rr_orphans r \<noteq> [] \<or> rr_drifts r \<noteq> [] \<or> \<not> rr_reachable r"

definition rr_is_clean :: "reconcile_report \<Rightarrow> bool" where
  "rr_is_clean r \<longleftrightarrow> rr_performed r \<and> rr_comparable r \<and> rr_reachable r \<and> rr_readable r \<and>
     \<not> rr_has_drift r \<and> rr_unresolved r = []"

section \<open>Reading both sides\<close>

definition get_default :: "(string, pyval) dict \<Rightarrow> string \<Rightarrow> pyval \<Rightarrow> pyval" where
  "get_default d k v = (case dict_get d k of None \<Rightarrow> v | Some w \<Rightarrow> w)"

definition float_or_error :: "pyval \<Rightarrow> unit + pyfloat" where
  "float_or_error v = (case py_float v of Inl _ \<Rightarrow> Inl () | Inr x \<Rightarrow> Inr x)"

definition raw_mark_price :: "raw_position \<Rightarrow> unit + pyfloat" where
  "raw_mark_price p =
     (let mark = get_or_none (rw_fields p) ''markPrice'' in
      if truthy mark then float_or_error mark
      else case rw_info p of
        BadInfo \<Rightarrow> Inl ()
      | NoInfo \<Rightarrow> Inr (Fin 0)
      | Info i \<Rightarrow> float_or_error (or_chain [get_default i ''markPrice'' (VInt 0)]))"

text \<open>The last entry of a symbol wins; positions without contracts are skipped.\<close>

definition add_raw :: "(pyval, pyfloat) dict \<Rightarrow> raw_position \<Rightarrow> unit + (pyval, pyfloat) dict" where
  "add_raw d p =
     bindE (float_or_error (or_chain [get_or_none (rw_fields p) ''contracts'', get_or_none (rw_fields p) ''size''])) (\<lambda>c.
       if fl_lt (Fin 0) c then
         bindE (raw_mark_price p) (\<lambda>mark.
           Inr (dict_set d (get_default (rw_fields p) ''symbol'' (VStr [])) mark))
       else Inr d)"

definition exchange_positions :: "nat option \<Rightarrow> raw_position list option \<Rightarrow> unit + (pyval, pyfloat) dict" where
  "exchange_positions handle reply =
     (case handle of
        None \<Rightarrow> Inr []
      | Some _ \<Rightarrow> (case reply of None \<Rightarrow> Inl () | Some raw \<Rightarrow> foldE add_raw [] raw))"

text \<open>Positions with a symbol, split by domain: the tracked ones by symbol, and the unresolved.\<close>

definition internal_positions :: "execution_domain \<Rightarrow> position list \<Rightarrow> (string, position) dict" where
  "internal_positions expected ps =
     fold (\<lambda>p d. dict_set d (pos_symbol p) p)
       (filter (\<lambda>p. pos_symbol p \<noteq> [] \<and> pos_domain p = expected) ps) []"

definition unresolved_positions :: "execution_domain \<Rightarrow> position list \<Rightarrow> string list" where
  "unresolved_positions expected ps =
     map pos_symbol (filter (\<lambda>p. pos_symbol p \<noteq> [] \<and> pos_domain p \<noteq> expected) ps)"

definition drifts :: "pyfloat \<Rightarrow> pyfloat \<Rightarrow> bool" where
  "drifts mark entry \<longleftrightarrow> fl_lt (Fin 0) mark \<and> fl_lt (Fin 0) entry \<and>
     (case fl_div (fl_abs (fl_sub mark entry)) entry of
        None \<Rightarrow> False | Some x \<Rightarrow> fl_lt (round_double (2 / 100)) x)"

section \<open>Reconciliation\<close>

definition compare_positions ::
  "execution_domain \<Rightarrow> (pyval, pyfloat) dict \<Rightarrow> position list \<Rightarrow> reconcile_report" where
  "compare_positions expected ex ps =
     (let inner = internal_positions expected ps in
      empty_report\<lparr>rr_unresolved := unresolved_positions expected ps,
        rr_exchange_positions := length ex, rr_internal_positions := length inner,
        rr_ghosts := filter (\<lambda>s. \<not> dict_has ex (VStr s)) (dict_keys inner),
        rr_orphans := filter (\<lambda>v. \<not> (\<exists>s. v = VStr s \<and> dict_has inner s)) (dict_keys ex),
        rr_drifts := map fst (filter (\<lambda>(v, mark).
           case v of VStr s \<Rightarrow> (case dict_get inner s of
                                  None \<Rightarrow> False | Some p \<Rightarrow> drifts mark (pos_entry_price p))
                   | _ \<Rightarrow> False) ex)\<rparr>)"

definition reconcile_report_of ::
  "reconciler \<Rightarrow> manager_view \<Rightarrow> raw_position list option \<Rightarrow> reconcile_report" where
  "reconcile_report_of rc view reply =
     (if mv_domain view \<noteq> rc_expected rc then empty_report\<lparr>rr_comparable := False\<rparr>
      else if mv_exchange view \<noteq> rc_exchange rc then empty_report\<lparr>rr_comparable := False\<rparr>
      else case exchange_positions (rc_exchange rc) reply of
        Inl _ \<Rightarrow> empty_report\<lparr>rr_reachable := False\<rparr>
      | Inr ex \<Rightarrow>
          (case mv_open view of
             NoGetOpen \<Rightarrow> empty_report\<lparr>rr_readable := False\<rparr>
           | GetOpenRaises \<Rightarrow> empty_report\<lparr>rr_readable := False\<rparr>
           | OpenPositions ps \<Rightarrow> compare_positions (rc_expected rc) ex ps))"

definition should_reconcile :: "pyfloat \<Rightarrow> reconciler \<Rightarrow> bool" where
  "should_reconcile now rc \<longleftrightarrow> fl_le (Fin 3600) (fl_sub now (rc_last rc))"

definition reconcile_positions ::
  "pyfloat \<Rightarrow> bool \<Rightarrow> manager_view \<Rightarrow> raw_position list option \<Rightarrow> reconciler \<Rightarrow> reconciler \<times> reconcile_report" where
  "reconcile_positions now force view reply rc =
     (if \<not> force \<and> \<not> should_reconcile now rc then (rc, empty_report\<lparr>rr_performed := False\<rparr>)
      else (rc\<lparr>rc_last := now\<rparr>, reconcile_report_of rc view reply))"

section \<open>What a clean report proves\<close>

lemma internal_keys:
  "set (dict_keys (internal_positions expected ps)) =
     {pos_symbol p | p. p \<in> set ps \<and> pos_symbol p \<noteq> [] \<and> pos_domain p = expected}"
proof -
  have keys: "set (dict_keys (fold (\<lambda>p d. dict_set d (pos_symbol p) p) qs d0)) =
      set (dict_keys d0) \<union> pos_symbol ` set qs" for qs d0
    by (induction qs arbitrary: d0) auto
  show ?thesis unfolding internal_positions_def keys by auto
qed

lemma clean_comparison:
  assumes "rr_is_clean (compare_positions expected ex ps)"
  shows "fst ` set ex = {VStr (pos_symbol p) | p. p \<in> set ps \<and> pos_symbol p \<noteq> []} \<and>
    (\<forall>p \<in> set ps. pos_symbol p \<noteq> [] \<longrightarrow> pos_domain p = expected)"
proof -
  let ?in = "internal_positions expected ps"
  have ghosts: "\<forall>s \<in> set (dict_keys ?in). VStr s \<in> fst ` set ex"
    and orphans: "\<forall>v \<in> fst ` set ex. \<exists>s. v = VStr s \<and> s \<in> set (dict_keys ?in)"
    and unresolved: "unresolved_positions expected ps = []"
    using assms by (auto simp: rr_is_clean_def rr_has_drift_def compare_positions_def Let_def empty_report_def
        filter_empty_conv)
  have domain: "\<forall>p \<in> set ps. pos_symbol p \<noteq> [] \<longrightarrow> pos_domain p = expected"
    using unresolved by (auto simp: unresolved_positions_def filter_empty_conv)
  then have "set (dict_keys ?in) = {pos_symbol p | p. p \<in> set ps \<and> pos_symbol p \<noteq> []}"
    unfolding internal_keys by blast
  with ghosts orphans domain show ?thesis by (auto; blast)
qed

lemma clean_report:
  assumes "rr_is_clean (reconcile_report_of rc view reply)"
  obtains ex ps where "mv_domain view = rc_expected rc" "mv_exchange view = rc_exchange rc"
    "exchange_positions (rc_exchange rc) reply = Inr ex" "mv_open view = OpenPositions ps"
    "rr_is_clean (compare_positions (rc_expected rc) ex ps)"
  using assms
  by (auto simp: reconcile_report_of_def rr_is_clean_def empty_report_def split: if_splits sum.splits get_open_reply.splits)

end
