(* ===== verification/PendingOrders.thy ===== *)
theory PendingOrders
  imports PyText
begin

text \<open>
  \<^verbatim>\<open>src/system/pending_order_tracker.py\<close>: the life of a submitted order, from its registration to
  a terminal status, and the cross-check of all pending orders with the exchange. The clock is
  read per order; the exchange's answers are arguments. Error texts are left out.
\<close>

section \<open>One order\<close>

datatype order_status = PO_NEW | PO_PARTIAL_FILL | PO_FILLED | PO_CANCELLED | PO_EXPIRED | PO_UNKNOWN

fun parse_order_status :: "string \<Rightarrow> order_status option" where
  "parse_order_status s =
     (if s = ''NEW'' then Some PO_NEW
      else if s = ''PARTIAL_FILL'' then Some PO_PARTIAL_FILL
      else if s = ''FILLED'' then Some PO_FILLED
      else if s = ''CANCELLED'' then Some PO_CANCELLED
      else if s = ''EXPIRED'' then Some PO_EXPIRED
      else if s = ''UNKNOWN'' then Some PO_UNKNOWN
      else None)"

definition terminal_order_statuses :: "order_status list" where
  "terminal_order_statuses = [PO_FILLED, PO_CANCELLED, PO_EXPIRED, PO_UNKNOWN]"

fun order_transitions :: "order_status \<Rightarrow> order_status list" where
  "order_transitions PO_NEW = [PO_PARTIAL_FILL, PO_FILLED, PO_CANCELLED, PO_EXPIRED, PO_UNKNOWN]"
| "order_transitions PO_PARTIAL_FILL = [PO_FILLED, PO_CANCELLED, PO_EXPIRED, PO_UNKNOWN]"
| "order_transitions _ = []"

record pending_order =
  po_order_id :: string
  po_symbol :: string
  po_side :: string
  po_requested_qty :: pyfloat
  po_filled_qty :: pyfloat
  po_status :: order_status
  po_created_at :: pyfloat
  po_resolved_at :: "pyfloat option"
  po_rejection_reason :: "string option"
  po_exchange :: string
  po_mode :: string

definition po_is_terminal :: "pending_order \<Rightarrow> bool" where
  "po_is_terminal o' \<longleftrightarrow> po_status o' \<in> set terminal_order_statuses"

definition po_unfilled_qty :: "pending_order \<Rightarrow> pyfloat" where
  "po_unfilled_qty o' = fl_max (Fin 0) (fl_sub (po_requested_qty o') (po_filled_qty o'))"

definition po_fill_ratio :: "pending_order \<Rightarrow> pyfloat" where
  "po_fill_ratio o' =
     (if fl_le (po_requested_qty o') (Fin 0) then Fin 0
      else the (fl_div (po_filled_qty o') (po_requested_qty o')))"

definition po_is_expired :: "pyfloat \<Rightarrow> pyfloat \<Rightarrow> pending_order \<Rightarrow> bool" where
  "po_is_expired now ttl o' \<longleftrightarrow>
     \<not> po_is_terminal o' \<and> fl_lt ttl (fl_sub now (po_created_at o'))"

text \<open>\<open>None\<close> is the \<^verbatim>\<open>ValueError\<close> of an unknown status or a forbidden transition.\<close>

definition po_transition :: "pyfloat \<Rightarrow> string \<Rightarrow> pyfloat option \<Rightarrow> pending_order \<Rightarrow> pending_order option" where
  "po_transition now new_status filled o' =
     (case parse_order_status new_status of
        None \<Rightarrow> None
      | Some st \<Rightarrow>
          if st \<notin> set (order_transitions (po_status o')) then None
          else
            let o1 = (case filled of None \<Rightarrow> o'
                      | Some q \<Rightarrow> o'\<lparr>po_filled_qty := fl_min q (po_requested_qty o')\<rparr>);
                o2 = o1\<lparr>po_status := st\<rparr>
            in Some (if st \<in> set terminal_order_statuses then o2\<lparr>po_resolved_at := Some now\<rparr> else o2))"

section \<open>The tracker\<close>

record tracker =
  tk_orders :: "(string, pending_order) dict"
  tk_ttl :: pyfloat

definition new_tracker :: "pyfloat \<Rightarrow> tracker" where
  "new_tracker ttl = \<lparr>tk_orders = [], tk_ttl = ttl\<rparr>"

definition put_order :: "pending_order \<Rightarrow> tracker \<Rightarrow> tracker" where
  "put_order o' t = t\<lparr>tk_orders := dict_set (tk_orders t) (po_order_id o') o'\<rparr>"

definition register_order ::
  "pyfloat \<Rightarrow> string \<Rightarrow> string \<Rightarrow> string \<Rightarrow> pyfloat \<Rightarrow> string \<Rightarrow> string \<Rightarrow> tracker \<Rightarrow> tracker \<times> pending_order" where
  "register_order now oid symbol sd qty mode exch t =
     (case dict_get (tk_orders t) oid of
        Some o' \<Rightarrow> (t, o')
      | None \<Rightarrow>
          let o' = \<lparr>po_order_id = oid, po_symbol = symbol, po_side = sd, po_requested_qty = qty,
                    po_filled_qty = Fin 0, po_status = PO_NEW, po_created_at = now, po_resolved_at = None,
                    po_rejection_reason = None, po_exchange = exch, po_mode = mode\<rparr>
          in (put_order o' t, o'))"

text \<open>
  The exchange's status word: an absent or empty one counts as the empty word; any other value
  that is not a string raises \<^verbatim>\<open>AttributeError\<close>, here \<open>None\<close>.
\<close>

definition status_word :: "pyval \<Rightarrow> string option" where
  "status_word v = (case v of VStr s \<Rightarrow> Some (py_lower s) | _ \<Rightarrow> if truthy v then None else Some [])"

definition normalize_ccxt_status :: "pyval \<Rightarrow> pyfloat \<Rightarrow> pyfloat \<Rightarrow> string option" where
  "normalize_ccxt_status v filled requested =
     map_option (\<lambda>s.
       if s \<in> set [''closed'', ''filled''] then ''FILLED''
       else if s \<in> set [''canceled'', ''cancelled''] then ''CANCELLED''
       else if s = ''expired'' then ''EXPIRED''
       else if s = ''open'' then
         (if fl_lt (Fin 0) filled \<and> fl_lt filled requested then ''PARTIAL_FILL'' else ''NEW'')
       else ''UNKNOWN'') (status_word v)"

datatype tracker_error = BadExchangeAnswer

definition update_from_exchange ::
  "pyfloat \<Rightarrow> string \<Rightarrow> pyval \<Rightarrow> pyfloat \<Rightarrow> string option \<Rightarrow> tracker \<Rightarrow> tracker_error + tracker" where
  "update_from_exchange now oid status filled rejection t =
     (case dict_get (tk_orders t) oid of
        None \<Rightarrow> Inr t
      | Some o' \<Rightarrow>
          if po_is_terminal o' then Inr t
          else bindE (or_raise BadExchangeAnswer (normalize_ccxt_status status filled (po_requested_qty o'))) (\<lambda>st.
            case po_transition now st (Some filled) o' of
              None \<Rightarrow> Inr t
            | Some o1 \<Rightarrow>
                Inr (put_order (if truthy_str rejection then o1\<lparr>po_rejection_reason := rejection\<rparr> else o1) t)))"

definition resolve_order :: "pyfloat \<Rightarrow> string \<Rightarrow> string \<Rightarrow> tracker \<Rightarrow> tracker" where
  "resolve_order now oid final_status t =
     (case dict_get (tk_orders t) oid of
        None \<Rightarrow> t
      | Some o' \<Rightarrow>
          if po_is_terminal o' then t
          else case po_transition now final_status None o' of None \<Rightarrow> t | Some o1 \<Rightarrow> put_order o1 t)"

definition expire_order :: "pyfloat \<Rightarrow> pyfloat \<Rightarrow> pending_order \<Rightarrow> pending_order" where
  "expire_order now ttl o' =
     (if po_is_expired now ttl o'
      then (case po_transition now ''EXPIRED'' None o' of None \<Rightarrow> o' | Some o1 \<Rightarrow> o1) else o')"

text \<open>The list of identifiers is of those the call moved to the expired status.\<close>

definition expire_stale :: "(string \<Rightarrow> pyfloat) \<Rightarrow> tracker \<Rightarrow> tracker \<times> string list" where
  "expire_stale clock t =
     (t\<lparr>tk_orders := map (\<lambda>(k, o'). (k, expire_order (clock k) (tk_ttl t) o')) (tk_orders t)\<rparr>,
      map fst (filter (\<lambda>(k, o'). po_is_expired (clock k) (tk_ttl t) o') (tk_orders t)))"

definition get_pending :: "tracker \<Rightarrow> pending_order list" where
  "get_pending t = filter (\<lambda>o'. \<not> po_is_terminal o') (map snd (tk_orders t))"

definition get_unresolved_past_ttl :: "(string \<Rightarrow> pyfloat) \<Rightarrow> tracker \<Rightarrow> pending_order list" where
  "get_unresolved_past_ttl clock t =
     map snd (filter (\<lambda>(k, o'). \<not> po_is_terminal o' \<and> po_is_expired (clock k) (tk_ttl t) o') (tk_orders t))"

definition get_partial_fills :: "tracker \<Rightarrow> pending_order list" where
  "get_partial_fills t = filter (\<lambda>o'. po_status o' = PO_PARTIAL_FILL) (map snd (tk_orders t))"

section \<open>The cross-check\<close>

record order_report =
  or_checked :: nat
  or_partial_fills :: "string list"
  or_cancelled :: "string list"
  or_expired :: "string list"
  or_unknown :: "string list"
  or_unresolved_past_ttl :: "string list"
  or_exchange_reachable :: bool

definition order_report_clean :: "order_report \<Rightarrow> bool" where
  "order_report_clean r \<longleftrightarrow> or_exchange_reachable r \<and> or_partial_fills r = [] \<and> or_cancelled r = [] \<and>
     or_expired r = [] \<and> or_unknown r = [] \<and> or_unresolved_past_ttl r = []"

definition note_status :: "order_status \<Rightarrow> string \<Rightarrow> order_report \<Rightarrow> order_report" where
  "note_status st oid r =
     (case st of
        PO_PARTIAL_FILL \<Rightarrow> r\<lparr>or_partial_fills := or_partial_fills r @ [oid]\<rparr>
      | PO_CANCELLED \<Rightarrow> r\<lparr>or_cancelled := or_cancelled r @ [oid]\<rparr>
      | PO_EXPIRED \<Rightarrow> r\<lparr>or_expired := or_expired r @ [oid]\<rparr>
      | PO_UNKNOWN \<Rightarrow> r\<lparr>or_unknown := or_unknown r @ [oid]\<rparr>
      | _ \<Rightarrow> r)"

text \<open>
  The exchange's answer is a dictionary, or \<open>None\<close> when the call raises. Whatever raises on the
  way, the call, the number or the status word, counts the order as unknown.
\<close>

type_synonym order_fetch = "string \<Rightarrow> string \<Rightarrow> (string, pyval) dict option"

definition answered_update ::
  "pyfloat \<Rightarrow> pending_order \<Rightarrow> (string, pyval) dict \<Rightarrow> tracker \<Rightarrow> tracker_error + tracker" where
  "answered_update now o' answer t =
     (let status = (case dict_get answer ''status'' of None \<Rightarrow> VStr ''unknown'' | Some v \<Rightarrow> v);
          filled = (case dict_get answer ''filled'' of None \<Rightarrow> VInt 0 | Some v \<Rightarrow> v)
      in case py_float (if truthy filled then filled else VInt 0) of
           Inl _ \<Rightarrow> Inl BadExchangeAnswer
         | Inr x \<Rightarrow> update_from_exchange now (po_order_id o') status x None t)"

definition check_order ::
  "(string \<Rightarrow> pyfloat) \<Rightarrow> order_fetch \<Rightarrow> pending_order \<Rightarrow> tracker \<times> order_report \<Rightarrow> tracker \<times> order_report" where
  "check_order clock fetch o' = (\<lambda>(t, r).
     let oid = po_order_id o';
         failed = (t, r\<lparr>or_exchange_reachable := False, or_unknown := or_unknown r @ [oid]\<rparr>)
     in case fetch oid (po_symbol o') of
          None \<Rightarrow> failed
        | Some answer \<Rightarrow>
            (case answered_update (clock oid) o' answer t of
               Inl _ \<Rightarrow> failed
             | Inr t' \<Rightarrow>
                 (case dict_get (tk_orders t') oid of
                    None \<Rightarrow> (t', r)
                  | Some o1 \<Rightarrow> (t', note_status (po_status o1) oid r))))"

definition reconcile_orders ::
  "(string \<Rightarrow> pyfloat) \<Rightarrow> (string \<Rightarrow> pyfloat) \<Rightarrow> order_fetch \<Rightarrow> tracker \<Rightarrow> tracker \<times> order_report" where
  "reconcile_orders clock late fetch t =
     (case expire_stale clock t of (t1, expired) \<Rightarrow>
        let pending = get_pending t1;
            r0 = \<lparr>or_checked = length pending, or_partial_fills = [], or_cancelled = [],
                  or_expired = expired, or_unknown = [], or_unresolved_past_ttl = [],
                  or_exchange_reachable = True\<rparr>
        in if pending = [] then (t1, r0)
           else case fold (check_order clock fetch) pending (t1, r0) of
                  (t2, r) \<Rightarrow>
                    (t2, r\<lparr>or_unresolved_past_ttl := map po_order_id (get_unresolved_past_ttl late t2)\<rparr>))"

section \<open>What an order can go through\<close>

definition po_follows :: "pending_order \<Rightarrow> pending_order \<Rightarrow> bool" where
  "po_follows a b \<longleftrightarrow>
     po_order_id b = po_order_id a \<and> po_symbol b = po_symbol a \<and> po_requested_qty b = po_requested_qty a \<and>
     po_created_at b = po_created_at a \<and>
     (po_is_terminal a \<longrightarrow> b = a) \<and> (po_status b = PO_NEW \<longrightarrow> b = a) \<and>
     (\<not> fl_lt (po_requested_qty a) (po_filled_qty a) \<longrightarrow> \<not> fl_lt (po_requested_qty a) (po_filled_qty b)) \<and>
     ((po_is_terminal a \<longleftrightarrow> po_resolved_at a \<noteq> None) \<longrightarrow> (po_is_terminal b \<longleftrightarrow> po_resolved_at b \<noteq> None))"

lemma po_follows_refl [simp]: "po_follows a a"
  by (simp add: po_follows_def)

lemma po_follows_frozen: "po_follows a b \<Longrightarrow> po_is_terminal a \<or> po_status b = PO_NEW \<Longrightarrow> b = a"
  unfolding po_follows_def by blast

lemma po_follows_fields:
  "po_follows a b \<Longrightarrow> po_order_id b = po_order_id a \<and> po_symbol b = po_symbol a \<and>
     po_requested_qty b = po_requested_qty a"
  unfolding po_follows_def by blast

lemma po_follows_trans:
  assumes "po_follows a b" "po_follows b c"
  shows "po_follows a c"
proof (cases "po_is_terminal a \<or> po_status c = PO_NEW")
  case True
  then have "c = b \<or> b = a" using assms po_follows_frozen by blast
  then show ?thesis using assms by (elim disjE) simp_all
next
  case False
  from assms have ab: "po_order_id b = po_order_id a \<and> po_symbol b = po_symbol a \<and>
      po_requested_qty b = po_requested_qty a \<and> po_created_at b = po_created_at a"
    and bc: "po_order_id c = po_order_id b \<and> po_symbol c = po_symbol b \<and>
      po_requested_qty c = po_requested_qty b \<and> po_created_at c = po_created_at b"
    unfolding po_follows_def by blast+
  from assms have "\<not> fl_lt (po_requested_qty a) (po_filled_qty a) \<longrightarrow> \<not> fl_lt (po_requested_qty a) (po_filled_qty c)"
    "(po_is_terminal a \<longleftrightarrow> po_resolved_at a \<noteq> None) \<longrightarrow> (po_is_terminal c \<longleftrightarrow> po_resolved_at c \<noteq> None)"
    unfolding po_follows_def by (metis, blast)
  with False ab bc show ?thesis unfolding po_follows_def by simp
qed

lemma fl_min_bound: "\<not> fl_lt b (fl_min a b)"
  by (simp add: fl_min_def)

lemma transition_follows:
  assumes "po_transition now st filled a = Some b"
  shows "po_follows a b"
proof -
  obtain s where s: "parse_order_status st = Some s" "s \<in> set (order_transitions (po_status a))"
    "b = (let o1 = (case filled of None \<Rightarrow> a | Some q \<Rightarrow> a\<lparr>po_filled_qty := fl_min q (po_requested_qty a)\<rparr>);
            o2 = o1\<lparr>po_status := s\<rparr>
          in if s \<in> set terminal_order_statuses then o2\<lparr>po_resolved_at := Some now\<rparr> else o2)"
    using assms by (auto simp: po_transition_def Let_def simp del: parse_order_status.simps split: option.splits if_splits)
  have "\<not> po_is_terminal a" "s \<noteq> PO_NEW"
    using s(2) by (cases "po_status a"; auto simp: po_is_terminal_def terminal_order_statuses_def)+
  then show ?thesis
    using fl_min_bound
    by (auto simp: s(3) po_follows_def po_is_terminal_def Let_def split: option.splits)
qed

section \<open>Histories of the tracker\<close>

definition order_ok :: "pending_order \<Rightarrow> bool" where
  "order_ok a \<longleftrightarrow> (po_is_terminal a \<longleftrightarrow> po_resolved_at a \<noteq> None) \<and>
     (\<not> fl_lt (po_requested_qty a) (Fin 0) \<longrightarrow> \<not> fl_lt (po_requested_qty a) (po_filled_qty a))"

lemma order_ok_follows: "order_ok a \<Longrightarrow> po_follows a b \<Longrightarrow> order_ok b"
  unfolding order_ok_def po_follows_def by auto

definition tracker_ok :: "tracker \<Rightarrow> bool" where
  "tracker_ok t \<longleftrightarrow> distinct (dict_keys (tk_orders t)) \<and>
     (\<forall>k a. dict_get (tk_orders t) k = Some a \<longrightarrow> po_order_id a = k \<and> order_ok a)"

definition tracker_follows :: "tracker \<Rightarrow> tracker \<Rightarrow> bool" where
  "tracker_follows t t' \<longleftrightarrow> tracker_ok t' \<and>
     (\<forall>k a. dict_get (tk_orders t) k = Some a \<longrightarrow>
        (\<exists>b. dict_get (tk_orders t') k = Some b \<and> po_follows a b))"

lemma tracker_follows_refl: "tracker_ok t \<Longrightarrow> tracker_follows t t"
  by (auto simp: tracker_follows_def)

lemma tracker_follows_trans:
  "tracker_follows t u \<Longrightarrow> tracker_follows u v \<Longrightarrow> tracker_follows t v"
  unfolding tracker_follows_def by (blast intro: po_follows_trans)

lemma put_follows:
  assumes "tracker_ok t" "dict_get (tk_orders t) oid = Some a" "po_follows a b"
  shows "tracker_follows t (put_order b t)"
proof -
  have "po_order_id a = oid" "order_ok a" using assms(1,2) by (simp_all add: tracker_ok_def)
  then have "po_order_id b = oid" "order_ok b"
    using po_follows_fields [OF assms(3)] order_ok_follows [OF _ assms(3)] by simp_all
  then show ?thesis
    using assms by (auto simp del: map_of_eq_Some_iff simp: tracker_follows_def tracker_ok_def put_order_def
        split: if_splits)
qed

lemma register_follows:
  assumes "tracker_ok t"
  shows "tracker_follows t (fst (register_order now oid symbol sd qty mode exch t))"
proof (cases "dict_get (tk_orders t) oid")
  case None
  have "\<not> fl_lt q (Fin 0) \<longrightarrow> \<not> fl_lt q (Fin 0)" for q by simp
  with None assms show ?thesis
    by (auto simp: register_order_def tracker_follows_def tracker_ok_def put_order_def order_ok_def
        po_is_terminal_def terminal_order_statuses_def Let_def split: if_splits)
qed (simp add: register_order_def assms tracker_follows_refl)

lemma rejection_follows: "po_follows a b \<Longrightarrow> \<not> po_is_terminal a \<Longrightarrow> po_status b \<noteq> PO_NEW \<Longrightarrow>
    po_follows a (b\<lparr>po_rejection_reason := r\<rparr>)"
  by (simp add: po_follows_def po_is_terminal_def)

lemma transition_not_new: "po_transition now st filled a = Some b \<Longrightarrow> po_status b \<noteq> PO_NEW"
  by (cases "po_status a")
    (auto simp: po_transition_def Let_def simp del: parse_order_status.simps split: option.splits if_splits)

lemma update_follows:
  assumes "tracker_ok t" "update_from_exchange now oid status filled rejection t = Inr t'"
  shows "tracker_follows t t'"
proof (cases "dict_get (tk_orders t) oid")
  case (Some a)
  consider "t' = t" | st b where "\<not> po_is_terminal a" "po_transition now st (Some filled) a = Some b"
      "t' = put_order (if truthy_str rejection then b\<lparr>po_rejection_reason := rejection\<rparr> else b) t"
    using assms(2) Some by (auto simp: update_from_exchange_def result_simps split: if_splits option.splits)
  then show ?thesis
  proof cases
    case 2
    have "po_follows a (if truthy_str rejection then b\<lparr>po_rejection_reason := rejection\<rparr> else b)"
      using rejection_follows [OF transition_follows [OF 2(2)] 2(1) transition_not_new [OF 2(2)]]
        transition_follows [OF 2(2)] by simp
    with assms(1) Some 2(3) show ?thesis by (simp add: put_follows)
  qed (simp add: assms(1) tracker_follows_refl)
qed (use assms in \<open>simp add: update_from_exchange_def tracker_follows_refl\<close>)

lemma resolve_follows:
  assumes "tracker_ok t"
  shows "tracker_follows t (resolve_order now oid final_status t)"
  using assms
  by (auto simp: resolve_order_def tracker_follows_refl split: option.split
      intro: put_follows transition_follows)

lemma expire_order_follows: "po_follows a (expire_order now ttl a)"
  by (auto simp: expire_order_def transition_follows split: option.split)

lemma expire_follows:
  assumes "tracker_ok t"
  shows "tracker_follows t (fst (expire_stale clock t))"
proof -
  have get: "dict_get (tk_orders (fst (expire_stale clock t))) k =
      map_option (expire_order (clock k) (tk_ttl t)) (dict_get (tk_orders t) k)" for k
  proof -
    have "dict_get (map (\<lambda>(k, o'). (k, f k o')) xs) k = map_option (f k) (dict_get xs k)"
      for f :: "string \<Rightarrow> pending_order \<Rightarrow> pending_order" and xs
      by (induction xs) auto
    then show ?thesis by (simp add: expire_stale_def)
  qed
  have keys: "dict_keys (tk_orders (fst (expire_stale clock t))) = dict_keys (tk_orders t)"
    by (simp add: expire_stale_def comp_def split_beta)
  have "po_order_id (expire_order now ttl a) = po_order_id a \<and> (order_ok a \<longrightarrow> order_ok (expire_order now ttl a))"
    for now ttl a
    using expire_order_follows [of a now ttl] order_ok_follows [of a "expire_order now ttl a"]
    unfolding po_follows_def [of a "expire_order now ttl a"] by blast
  with assms show ?thesis
    by (auto simp del: map_of_eq_Some_iff simp: tracker_follows_def tracker_ok_def get keys expire_order_follows)
qed

lemma check_follows:
  assumes "tracker_ok t" "check_order clock fetch o' (t, r) = (t', r')"
  shows "tracker_follows t t'"
  using assms
  by (auto simp: check_order_def answered_update_def Let_def tracker_follows_refl
      split: option.splits sum.splits dest!: update_follows [OF assms(1)])

lemma checks_follow:
  assumes "tracker_ok t" "fold (check_order clock fetch) os (t, r) = (t', r')"
  shows "tracker_follows t t'"
  using assms
proof (induction os arbitrary: t r)
  case (Cons o' os)
  obtain u v where u: "check_order clock fetch o' (t, r) = (u, v)" by force
  then have "tracker_follows t u" using Cons.prems(1) check_follows by blast
  moreover from this have "tracker_follows u t'"
    using Cons.IH [of u v] Cons.prems(2) u by (simp add: tracker_follows_def)
  ultimately show ?case by (rule tracker_follows_trans)
qed (simp add: tracker_follows_refl)

lemma reconcile_follows:
  assumes "tracker_ok t" "reconcile_orders clock late fetch t = (t', r)"
  shows "tracker_follows t t'"
proof -
  obtain t1 ex where t1: "expire_stale clock t = (t1, ex)" by force
  have first: "tracker_follows t t1" using expire_follows [OF assms(1), of clock] t1 by simp
  then have "tracker_ok t1" by (simp add: tracker_follows_def)
  then have "tracker_follows t1 t'"
    using assms(2) t1 checks_follow
    by (auto simp: reconcile_orders_def Let_def tracker_follows_refl split: prod.splits if_splits)
  with first show ?thesis by (rule tracker_follows_trans)
qed

datatype tracker_op =
    TrackerRegister pyfloat string string string pyfloat string string
  | TrackerUpdate pyfloat string pyval pyfloat "string option"
  | TrackerResolve pyfloat string string
  | TrackerExpire "string \<Rightarrow> pyfloat"
  | TrackerReconcile "string \<Rightarrow> pyfloat" "string \<Rightarrow> pyfloat" order_fetch

fun run_tracker :: "tracker_op \<Rightarrow> tracker \<Rightarrow> tracker" where
  "run_tracker (TrackerRegister now oid symbol sd qty mode exch) t =
     fst (register_order now oid symbol sd qty mode exch t)"
| "run_tracker (TrackerUpdate now oid status filled rejection) t =
     (case update_from_exchange now oid status filled rejection t of Inl _ \<Rightarrow> t | Inr t' \<Rightarrow> t')"
| "run_tracker (TrackerResolve now oid st) t = resolve_order now oid st t"
| "run_tracker (TrackerExpire clock) t = fst (expire_stale clock t)"
| "run_tracker (TrackerReconcile clock late fetch) t = fst (reconcile_orders clock late fetch t)"

lemma op_follows: "tracker_ok t \<Longrightarrow> tracker_follows t (run_tracker op t)"
  by (cases op)
    (auto simp: register_follows resolve_follows expire_follows tracker_follows_refl
      split: sum.split intro: update_follows reconcile_follows [OF _ surjective_pairing])

lemma history_follows: "tracker_ok t \<Longrightarrow> tracker_follows t (fold run_tracker ops t)"
proof (induction ops arbitrary: t)
  case (Cons op ops)
  have "tracker_follows t (run_tracker op t)" using Cons.prems by (rule op_follows)
  moreover from this have "tracker_follows (run_tracker op t) (fold run_tracker ops (run_tracker op t))"
    by (intro Cons.IH) (simp add: tracker_follows_def)
  ultimately show ?case by (simp add: tracker_follows_trans)
qed (simp add: tracker_follows_refl)

lemma new_tracker_ok: "tracker_ok (new_tracker ttl)"
  by (simp add: tracker_ok_def new_tracker_def)

text \<open>
  C37: The life of a tracked order, over any history of registrations, exchange updates,
  resolutions, expiries and cross-checks with an exchange that answers anything or fails: an
  order stays tracked under its identifier with its terms; a terminal order never changes again
  and no order returns to NEW; an order has a resolution time exactly when it is terminal; and
  the filled quantity never exceeds a requested quantity that was not negative.
\<close>

theorem order_life:
  assumes "t = fold run_tracker before (new_tracker ttl)" and "t' = fold run_tracker after t"
    and "dict_get (tk_orders t) oid = Some a"
  shows "\<exists>b. dict_get (tk_orders t') oid = Some b \<and>
    po_order_id b = oid \<and> po_symbol b = po_symbol a \<and> po_requested_qty b = po_requested_qty a \<and>
    (po_is_terminal a \<longrightarrow> b = a) \<and> (po_status b = PO_NEW \<longrightarrow> po_status a = PO_NEW) \<and>
    (po_is_terminal b \<longleftrightarrow> po_resolved_at b \<noteq> None) \<and>
    (\<not> fl_lt (po_requested_qty a) (Fin 0) \<longrightarrow> \<not> fl_lt (po_requested_qty b) (po_filled_qty b))"
proof -
  have t: "tracker_ok t" using history_follows [OF new_tracker_ok, of ttl before] assms(1)
    by (simp add: tracker_follows_def)
  have follows: "tracker_follows t t'" using history_follows [OF t, of after] assms(2) by simp
  then obtain b where b: "dict_get (tk_orders t') oid = Some b" "po_follows a b"
    using assms(3) by (auto simp del: map_of_eq_Some_iff simp: tracker_follows_def)
  have "po_order_id b = oid" "order_ok b"
    using follows b(1) by (simp_all add: tracker_follows_def tracker_ok_def)
  moreover from this have "po_is_terminal b \<longleftrightarrow> po_resolved_at b \<noteq> None"
    "\<not> fl_lt (po_requested_qty b) (Fin 0) \<longrightarrow> \<not> fl_lt (po_requested_qty b) (po_filled_qty b)"
    unfolding order_ok_def by blast+
  ultimately show ?thesis
    using b po_follows_fields [OF b(2)] po_follows_frozen [OF b(2)] by metis
qed

theorem order_life_witness:
  "\<exists>b. dict_get (tk_orders (fold run_tracker [TrackerExpire (\<lambda>_. Fin 600), TrackerResolve (Fin 700) ''A'' ''FILLED'']
       (fold run_tracker [TrackerRegister (Fin 0) ''A'' ''S'' ''BUY'' (Fin 2) ''paper'' ''x''] (new_tracker (Fin 300)))))
     ''A'' = Some b \<and> po_requested_qty b = Fin 2 \<and> (po_is_terminal b \<longleftrightarrow> po_resolved_at b \<noteq> None)"
proof -
  let ?before = "[TrackerRegister (Fin 0) ''A'' ''S'' ''BUY'' (Fin 2) ''paper'' ''x'']"
  obtain a where a: "dict_get (tk_orders (fold run_tracker ?before (new_tracker (Fin 300)))) ''A'' = Some a"
    "po_requested_qty a = Fin 2"
    by (simp add: new_tracker_def register_order_def put_order_def dict_set_def Let_def)
  from order_life [OF refl refl a(1), of "[TrackerExpire (\<lambda>_. Fin 600), TrackerResolve (Fin 700) ''A'' ''FILLED'']"]
  show ?thesis using a(2) by metis
qed

section \<open>A growing partial fill\<close>

text \<open>
  The tracker stops following a partial fill. Once an order is partially filled, every
  further report of the exchange that it is still open, with more filled, is refused as a
  forbidden transition from PARTIAL_FILL to itself: the order keeps the first quantity.
\<close>

theorem partial_fill_sticks:
  assumes "dict_get (tk_orders t) oid = Some a" and "po_status a = PO_PARTIAL_FILL"
    and "fl_lt (Fin 0) filled" "fl_lt filled (po_requested_qty a)"
  shows "update_from_exchange now oid (VStr ''open'') filled rejection t = Inr t"
  using assms
  by (simp add: update_from_exchange_def po_is_terminal_def terminal_order_statuses_def
      normalize_ccxt_status_def status_word_def py_lower_def lower_char_def po_transition_def char_of_def bit_0)

theorem partial_fill_sticks_witness:
  "\<exists>t a. dict_get (tk_orders t) ''A'' = Some a \<and> po_filled_qty a = Fin 1 \<and> po_requested_qty a = Fin 4 \<and>
     update_from_exchange (Fin 9) ''A'' (VStr ''open'') (Fin 3) None t = Inr t"
proof -
  define a where "a = \<lparr>po_order_id = ''A'', po_symbol = ''S'', po_side = ''BUY'', po_requested_qty = Fin 4,
    po_filled_qty = Fin 1, po_status = PO_PARTIAL_FILL, po_created_at = Fin 0, po_resolved_at = None,
    po_rejection_reason = None, po_exchange = ''x'', po_mode = ''paper''\<rparr>"
  define t where "t = put_order a (new_tracker (Fin 300))"
  have t: "dict_get (tk_orders t) ''A'' = Some a"
    by (simp add: t_def put_order_def new_tracker_def a_def)
  have a: "po_filled_qty a = Fin 1" "po_requested_qty a = Fin 4" "po_status a = PO_PARTIAL_FILL"
    by (simp_all add: a_def)
  then have "update_from_exchange (Fin 9) ''A'' (VStr ''open'') (Fin 3) None t = Inr t"
    by (intro partial_fill_sticks [OF t]) simp_all
  with t a show ?thesis by blast
qed

end
