(* ===== verification/BootGate.thy ===== *)
theory BootGate
  imports PositionReconciler PendingOrders
begin

text \<open>
  \<^verbatim>\<open>src/system/boot_gate.py\<close>: the lock that keeps trading off until a reconciliation of the
  positions and of the pending orders was clean. The gate composes the reconciler and the order
  tracker; both are objects it shares with the rest of the system. Reason texts are left out.
\<close>

record gate_report =
  gr_cleared :: bool
  gr_positions_clean :: bool
  gr_orders_clean :: bool
  gr_ghosts :: "string list"
  gr_orphans :: "pyval list"
  gr_partial :: "string list"
  gr_cancelled :: "string list"
  gr_expired :: "string list"
  gr_unknown :: "string list"
  gr_reachable :: bool
  gr_comparable :: bool

definition new_gate_report :: gate_report where
  "new_gate_report = \<lparr>gr_cleared = False, gr_positions_clean = False, gr_orders_clean = False, gr_ghosts = [],
     gr_orphans = [], gr_partial = [], gr_cancelled = [], gr_expired = [], gr_unknown = [],
     gr_reachable = True, gr_comparable = True\<rparr>"

record gate =
  bg_reconciler :: reconciler
  bg_tracker :: "tracker option"
  bg_cleared :: bool
  bg_last_report :: "gate_report option"

definition new_gate :: "reconciler \<Rightarrow> tracker option \<Rightarrow> gate" where
  "new_gate rc t = \<lparr>bg_reconciler = rc, bg_tracker = t, bg_cleared = False, bg_last_report = None\<rparr>"

text \<open>What one check meets: the clock, the position manager, the exchange's answers.\<close>

record gate_env =
  ge_now :: pyfloat
  ge_view :: manager_view
  ge_positions :: "raw_position list option"
  ge_exchange :: bool
  ge_clock :: "string \<Rightarrow> pyfloat"
  ge_late :: "string \<Rightarrow> pyfloat"
  ge_fetch :: order_fetch

definition take_positions :: "reconcile_report \<Rightarrow> gate_report" where
  "take_positions r =
     (if \<not> rr_reachable r then new_gate_report\<lparr>gr_reachable := False\<rparr>
      else new_gate_report\<lparr>gr_ghosts := rr_ghosts r, gr_orphans := rr_orphans r,
             gr_positions_clean := rr_is_clean r, gr_comparable := rr_comparable r\<rparr>)"

definition take_orders :: "order_report option \<Rightarrow> gate_report \<Rightarrow> gate_report" where
  "take_orders r g =
     (case r of
        None \<Rightarrow> g\<lparr>gr_orders_clean := True\<rparr>
      | Some o' \<Rightarrow> g\<lparr>gr_partial := or_partial_fills o', gr_cancelled := or_cancelled o',
                   gr_expired := or_expired o', gr_unknown := or_unknown o',
                   gr_orders_clean := order_report_clean o'\<rparr>)"

definition gate_has_drift :: "gate_report \<Rightarrow> bool" where
  "gate_has_drift g \<longleftrightarrow> gr_ghosts g \<noteq> [] \<or> gr_orphans g \<noteq> [] \<or> gr_partial g \<noteq> [] \<or> gr_cancelled g \<noteq> [] \<or>
     gr_expired g \<noteq> [] \<or> gr_unknown g \<noteq> []"

definition gate_decision :: "gate_report \<Rightarrow> bool" where
  "gate_decision g \<longleftrightarrow> gr_comparable g \<and> gr_positions_clean g \<and> \<not> gate_has_drift g"

definition gate_check :: "gate_env \<Rightarrow> gate \<Rightarrow> gate \<times> gate_report" where
  "gate_check env g =
     (let (rc, pos) = reconcile_positions (ge_now env) True (ge_view env) (ge_positions env) (bg_reconciler g);
          report = take_positions pos
      in if \<not> gr_reachable report
         then (g\<lparr>bg_reconciler := rc, bg_last_report := Some report\<rparr>, report)
         else
           let (t, orders) = (case bg_tracker g of
                   Some t \<Rightarrow> if ge_exchange env
                             then (case reconcile_orders (ge_clock env) (ge_late env) (ge_fetch env) t of
                                     (t', r) \<Rightarrow> (Some t', Some r))
                             else (Some t, None)
                 | None \<Rightarrow> (None, None));
               report1 = take_orders orders report;
               final = report1\<lparr>gr_cleared := gate_decision report1\<rparr>
           in (g\<lparr>bg_reconciler := rc, bg_tracker := t, bg_last_report := Some final,
                 bg_cleared := bg_cleared g \<or> gate_decision report1\<rparr>, final))"

definition require_clearance :: "gate \<Rightarrow> bool" where
  "require_clearance g \<longleftrightarrow> bg_cleared g"

definition revoke_gate :: "gate \<Rightarrow> gate" where
  "revoke_gate g = g\<lparr>bg_cleared := False\<rparr>"

section \<open>What a clearing check proves\<close>

text \<open>The position side of a check that cleared.\<close>

lemma cleared_positions:
  assumes "gate_check env g = (g', r)" "gr_cleared r"
  obtains rc pos where
    "reconcile_positions (ge_now env) True (ge_view env) (ge_positions env) (bg_reconciler g) = (rc, pos)"
    "rr_is_clean pos" "pos = reconcile_report_of (bg_reconciler g) (ge_view env) (ge_positions env)"
  using assms
  by (auto simp: gate_check_def reconcile_positions_def Let_def take_positions_def new_gate_report_def
      gate_decision_def take_orders_def split: if_splits option.splits prod.splits)

lemma cleared_orders:
  assumes "gate_check env g = (g', r)" "gr_cleared r" "bg_tracker g = Some t" "ge_exchange env"
    "reconcile_orders (ge_clock env) (ge_late env) (ge_fetch env) t = (t', o')"
  shows "or_partial_fills o' = [] \<and> or_cancelled o' = [] \<and> or_expired o' = [] \<and> or_unknown o' = [] \<and>
    bg_tracker g' = Some t'"
  using assms
  by (auto simp: gate_check_def reconcile_positions_def Let_def take_positions_def new_gate_report_def
      gate_decision_def gate_has_drift_def take_orders_def split: if_splits)

text \<open>
  A check clears the gate only on evidence. Then the position manager is of the expected
  domain and holds the very exchange handle of the reconciler, the exchange answered, every
  tracked position with a symbol is of the expected domain, and the symbols with contracts on
  the exchange are exactly the symbols the manager tracks; and when a tracker and an exchange
  are given, no order was found partially filled, cancelled, expired or unknown.
\<close>

theorem gate_clears_on_evidence:
  assumes "gate_check env g = (g', r)" and "gr_cleared r"
  shows "mv_domain (ge_view env) = rc_expected (bg_reconciler g) \<and>
    mv_exchange (ge_view env) = rc_exchange (bg_reconciler g) \<and>
    (\<exists>ex ps. exchange_positions (rc_exchange (bg_reconciler g)) (ge_positions env) = Inr ex \<and>
       mv_open (ge_view env) = OpenPositions ps \<and>
       fst ` set ex = {VStr (pos_symbol p) | p. p \<in> set ps \<and> pos_symbol p \<noteq> []} \<and>
       (\<forall>p \<in> set ps. pos_symbol p \<noteq> [] \<longrightarrow> pos_domain p = rc_expected (bg_reconciler g))) \<and>
    (\<forall>t t' o'. bg_tracker g = Some t \<longrightarrow> ge_exchange env \<longrightarrow>
       reconcile_orders (ge_clock env) (ge_late env) (ge_fetch env) t = (t', o') \<longrightarrow>
       or_partial_fills o' = [] \<and> or_cancelled o' = [] \<and> or_expired o' = [] \<and> or_unknown o' = [])"
  using assms
proof (rule cleared_positions)
  fix rc pos
  assume pos: "rr_is_clean pos" "pos = reconcile_report_of (bg_reconciler g) (ge_view env) (ge_positions env)"
  then obtain ex ps where h: "mv_domain (ge_view env) = rc_expected (bg_reconciler g)"
    "mv_exchange (ge_view env) = rc_exchange (bg_reconciler g)"
    "exchange_positions (rc_exchange (bg_reconciler g)) (ge_positions env) = Inr ex"
    "mv_open (ge_view env) = OpenPositions ps"
    "rr_is_clean (compare_positions (rc_expected (bg_reconciler g)) ex ps)"
    using clean_report by metis
  with clean_comparison [OF h(5)] cleared_orders [OF assms] show ?thesis by blast
qed

section \<open>Histories of the gate\<close>

datatype gate_op = GateCheck gate_env | GateRevoke

fun run_gate :: "gate_op \<Rightarrow> gate \<Rightarrow> gate" where
  "run_gate (GateCheck env) g = fst (gate_check env g)"
| "run_gate GateRevoke g = revoke_gate g"

lemma check_cleared: "bg_cleared (fst (gate_check env g)) \<longleftrightarrow> bg_cleared g \<or> gr_cleared (snd (gate_check env g))"
  by (auto simp: gate_check_def Let_def take_positions_def new_gate_report_def split: prod.splits)

lemma snoc_split:
  "xs @ [y] = before @ x # after \<longleftrightarrow>
     (after = [] \<and> before = xs \<and> y = x) \<or> (\<exists>rest. after = rest @ [y] \<and> xs = before @ x # rest)"
  by (cases after rule: rev_cases) auto

text \<open>
  The gate lets orders pass exactly when some check of the present session cleared it since
  the last revocation; before the first such check nothing passes. A later check that fails does
  not close it.
\<close>

theorem clearance_history:
  "require_clearance (fold run_gate ops (new_gate rc t)) \<longleftrightarrow>
     (\<exists>before env after. ops = before @ GateCheck env # after \<and> GateRevoke \<notin> set after \<and>
        gr_cleared (snd (gate_check env (fold run_gate before (new_gate rc t)))))"
proof (induction ops rule: rev_induct)
  case Nil
  then show ?case by (simp add: require_clearance_def new_gate_def)
next
  case (snoc op ops)
  let ?g = "fold run_gate ops (new_gate rc t)"
  show ?case
  proof (cases op)
    case GateRevoke
    then show ?thesis
      by (auto simp: require_clearance_def revoke_gate_def snoc_split)
  next
    case (GateCheck env)
    let ?C = "\<lambda>before env'. gr_cleared (snd (gate_check env' (fold run_gate before (new_gate rc t))))"
    have now: "require_clearance (fold run_gate (ops @ [op]) (new_gate rc t)) \<longleftrightarrow> require_clearance ?g \<or> ?C ops env"
      by (simp add: GateCheck require_clearance_def check_cleared)
    show ?thesis
    proof
      assume "require_clearance (fold run_gate (ops @ [op]) (new_gate rc t))"
      then consider "?C ops env" | before env' rest where "ops = before @ GateCheck env' # rest"
          "GateRevoke \<notin> set rest" "?C before env'"
        using now snoc.IH by blast
      then show "\<exists>before env' after. ops @ [op] = before @ GateCheck env' # after \<and>
          GateRevoke \<notin> set after \<and> ?C before env'"
      proof cases
        case 1
        then have "ops @ [op] = ops @ GateCheck env # [] \<and> GateRevoke \<notin> set [] \<and> ?C ops env"
          by (simp add: GateCheck)
        then show ?thesis by blast
      next
        case 2
        then have "ops @ [op] = before @ GateCheck env' # (rest @ [op]) \<and> GateRevoke \<notin> set (rest @ [op]) \<and>
            ?C before env'"
          by (simp add: GateCheck)
        then show ?thesis by blast
      qed
    next
      assume "\<exists>before env' after. ops @ [op] = before @ GateCheck env' # after \<and>
          GateRevoke \<notin> set after \<and> ?C before env'"
      then have "require_clearance ?g \<or> ?C ops env"
        unfolding snoc_split snoc.IH using GateCheck by force
      then show "require_clearance (fold run_gate (ops @ [op]) (new_gate rc t))" unfolding now .
    qed
  qed
qed

section \<open>Samples\<close>

definition boot_reconciler :: "nat option \<Rightarrow> reconciler" where
  "boot_reconciler handle = \<lparr>rc_exchange = handle, rc_expected = REAL, rc_last = Fin 0\<rparr>"

definition boot_env :: "nat option \<Rightarrow> position list \<Rightarrow> gate_env" where
  "boot_env handle ps = \<lparr>ge_now = Fin 0,
     ge_view = \<lparr>mv_domain = REAL, mv_exchange = handle, mv_open = OpenPositions ps\<rparr>,
     ge_positions = Some [], ge_exchange = False, ge_clock = (\<lambda>_. Fin 0), ge_late = (\<lambda>_. Fin 0),
     ge_fetch = (\<lambda>_ _. None)\<rparr>"

lemmas gate_eval = gate_check_def reconcile_positions_def reconcile_report_of_def exchange_positions_def
  compare_positions_def internal_positions_def unresolved_positions_def take_positions_def take_orders_def
  gate_decision_def gate_has_drift_def rr_is_clean_def rr_has_drift_def empty_report_def
  new_gate_report_def new_gate_def Let_def

lemma boot_clears: "gr_cleared (snd (gate_check (boot_env handle []) (new_gate (boot_reconciler handle) None)))"
  by (simp add: gate_eval boot_env_def boot_reconciler_def split: option.split)

theorem gate_clears_on_evidence_witness:
  "\<exists>g r. gate_check (boot_env (Some 7) []) (new_gate (boot_reconciler (Some 7)) None) = (g, r) \<and> gr_cleared r \<and>
     (\<exists>ex. exchange_positions (Some 7) (Some []) = Inr ex \<and> fst ` set ex = {})"
proof -
  obtain g r where r: "gate_check (boot_env (Some 7) []) (new_gate (boot_reconciler (Some 7)) None) = (g, r)"
    by force
  with boot_clears [of "Some 7"] have "gr_cleared r" by simp
  from gate_clears_on_evidence [OF r this] r this show ?thesis
    by (auto simp: boot_env_def boot_reconciler_def new_gate_def)
qed

section \<open>No exchange at all\<close>

text \<open>
  The proof of identity passes when there is nothing to identify. If the reconciler and the
  position manager both have no exchange handle, the manager claims the expected domain and
  tracks no position, and no tracker is given, the gate clears: an empty exchange side that was
  never asked counts as a clean comparison.
\<close>

theorem clears_without_exchange:
  assumes "rc_exchange (bg_reconciler g) = None" "mv_exchange (ge_view env) = None"
    and "mv_domain (ge_view env) = rc_expected (bg_reconciler g)" "mv_open (ge_view env) = OpenPositions []"
    and "bg_tracker g = None"
  shows "gr_cleared (snd (gate_check env g)) \<and> require_clearance (fst (gate_check env g))"
  using assms by (simp add: gate_eval require_clearance_def)

theorem clears_without_exchange_witness:
  "require_clearance (fst (gate_check (boot_env None []) (new_gate (boot_reconciler None) None)))"
  using clears_without_exchange [of "new_gate (boot_reconciler None) None" "boot_env None []"]
  by (simp add: boot_env_def boot_reconciler_def new_gate_def)

end
