(* ===== verification/Warmup.thy ===== *)
theory Warmup
  imports PyPrelude
begin

text \<open>
  \<^verbatim>\<open>src/cold_start/warmup_state_machine.py\<close>: the machine that takes the system from its start to
  live trading, one state at a time, on a confidence score that the caller computes. Every
  reading of the clock during a call is an argument of its own. The texts of the failure
  reasons are a datatype; the log is left out. The limits are the defaults of the environment
  variables, except the number of cycles, which is a parameter.
\<close>

section \<open>States\<close>

datatype warmup_state =
    BOOTING | FETCHING_MARKET_DATA | BUILDING_FEATURES | STABILIZING_REGIMES
  | VALIDATING_RISK | SHADOW_MODE | LIVE_READY | WARMUP_FAILED

definition state_sequence :: "warmup_state list" where
  "state_sequence = [BOOTING, FETCHING_MARKET_DATA, BUILDING_FEATURES, STABILIZING_REGIMES,
     VALIDATING_RISK, SHADOW_MODE, LIVE_READY]"

fun state_timeout :: "warmup_state \<Rightarrow> pyfloat" where
  "state_timeout BOOTING = Fin 30"
| "state_timeout FETCHING_MARKET_DATA = Fin 120"
| "state_timeout BUILDING_FEATURES = Fin 180"
| "state_timeout STABILIZING_REGIMES = Fin 600"
| "state_timeout VALIDATING_RISK = Fin 120"
| "state_timeout SHADOW_MODE = Fin 300"
| "state_timeout LIVE_READY = Fin 0"
| "state_timeout WARMUP_FAILED = Fin 0"

fun min_confidence :: "warmup_state \<Rightarrow> pyfloat" where
  "min_confidence BOOTING = round_double (80 / 100)"
| "min_confidence FETCHING_MARKET_DATA = round_double (60 / 100)"
| "min_confidence BUILDING_FEATURES = round_double (70 / 100)"
| "min_confidence STABILIZING_REGIMES = round_double (75 / 100)"
| "min_confidence VALIDATING_RISK = round_double (85 / 100)"
| "min_confidence SHADOW_MODE = round_double (85 / 100)"
| "min_confidence LIVE_READY = Fin 1"
| "min_confidence WARMUP_FAILED = Fin 0"

definition warmup_over :: "warmup_state \<Rightarrow> bool" where
  "warmup_over st \<longleftrightarrow> st \<in> set [LIVE_READY, WARMUP_FAILED]"

section \<open>The machine\<close>

datatype warmup_failure = TimedOut | StuckLoop int | NoMarketData nat | CriticalInvariants "string list"

record state_record =
  sr_state :: warmup_state
  sr_entered_at :: pyfloat
  sr_exited_at :: "pyfloat option"
  sr_confidence_at_exit :: pyfloat
  sr_failure_reason :: "warmup_failure option"

definition enter_state :: "warmup_state \<Rightarrow> pyfloat \<Rightarrow> warmup_failure option \<Rightarrow> state_record" where
  "enter_state st now reason = \<lparr>sr_state = st, sr_entered_at = now, sr_exited_at = None,
     sr_confidence_at_exit = Fin 0, sr_failure_reason = reason\<rparr>"

text \<open>An exit at time 0 counts as no exit.\<close>

definition record_duration :: "pyfloat \<Rightarrow> state_record \<Rightarrow> pyfloat" where
  "record_duration now r =
     fl_sub (case sr_exited_at r of None \<Rightarrow> now | Some t \<Rightarrow> if t = Fin 0 then now else t) (sr_entered_at r)"

record machine =
  wm_state :: warmup_state
  wm_history :: "state_record list"
  wm_failures :: nat
  wm_stuck_cycles :: int
  wm_stuck_alerted :: bool
  wm_saved :: "(warmup_state \<times> nat) option"

text \<open>What one call meets: its readings of the clock, and whether the state file can be written.\<close>

record warmup_clock =
  wc_check :: pyfloat
  wc_alert :: pyfloat
  wc_exit :: pyfloat
  wc_enter :: pyfloat
  wc_write_ok :: bool

definition persist :: "warmup_clock \<Rightarrow> machine \<Rightarrow> machine" where
  "persist ck m = (if wc_write_ok ck then m\<lparr>wm_saved := Some (wm_state m, wm_failures m)\<rparr> else m)"

definition new_machine :: "warmup_clock \<Rightarrow> (warmup_state \<times> nat) option \<Rightarrow> machine" where
  "new_machine ck saved =
     persist ck \<lparr>wm_state = BOOTING, wm_history = [enter_state BOOTING (wc_enter ck) None],
       wm_failures = 0, wm_stuck_cycles = 0, wm_stuck_alerted = False, wm_saved = saved\<rparr>"

definition time_in_state :: "pyfloat \<Rightarrow> machine \<Rightarrow> pyfloat" where
  "time_in_state now m = (if wm_history m = [] then Fin 0 else record_duration now (last (wm_history m)))"

definition is_timed_out :: "pyfloat \<Rightarrow> machine \<Rightarrow> bool" where
  "is_timed_out now m \<longleftrightarrow>
     (let timeout = state_timeout (wm_state m)
      in \<not> fl_le timeout (Fin 0) \<and> fl_lt timeout (time_in_state now m))"

definition exit_current :: "pyfloat \<Rightarrow> pyfloat \<Rightarrow> warmup_failure option \<Rightarrow> machine \<Rightarrow> machine" where
  "exit_current now confidence reason m =
     (if wm_history m = [] then m
      else m\<lparr>wm_history := butlast (wm_history m) @
             [(last (wm_history m))\<lparr>sr_exited_at := Some now, sr_confidence_at_exit := confidence,
                sr_failure_reason := reason\<rparr>]\<rparr>)"

definition fail_machine :: "warmup_clock \<Rightarrow> warmup_failure \<Rightarrow> machine \<Rightarrow> machine" where
  "fail_machine ck reason m =
     (let m1 = exit_current (wc_exit ck) (Fin 0) (Some reason) (m\<lparr>wm_failures := wm_failures m + 1\<rparr>)
      in persist ck (m1\<lparr>wm_state := WARMUP_FAILED,
           wm_history := wm_history m1 @ [enter_state WARMUP_FAILED (wc_enter ck) (Some reason)]\<rparr>))"

text \<open>\<^verbatim>\<open>_STATE_SEQUENCE.index\<close> and the entry after it; the last entry has none.\<close>

definition next_state :: "warmup_state \<Rightarrow> warmup_state option" where
  "next_state st = map_of (zip state_sequence (tl state_sequence)) st"

definition advance :: "warmup_clock \<Rightarrow> pyfloat \<Rightarrow> machine \<Rightarrow> machine" where
  "advance ck confidence m =
     (case next_state (wm_state m) of
        None \<Rightarrow> m
      | Some st \<Rightarrow>
          let m1 = exit_current (wc_exit ck) confidence None m
          in persist ck (m1\<lparr>wm_state := st, wm_stuck_cycles := 0, wm_stuck_alerted := False,
               wm_history := wm_history m1 @ [enter_state st (wc_enter ck) None], wm_failures := 0\<rparr>))"

definition check_stuck_alert :: "pyfloat \<Rightarrow> machine \<Rightarrow> machine" where
  "check_stuck_alert now m =
     (if wm_stuck_alerted m then m
      else if fl_le (Fin 300) (time_in_state now m) then m\<lparr>wm_stuck_alerted := True\<rparr> else m)"

text \<open>The number is \<^verbatim>\<open>_MAX_STUCK_CYCLES\<close>.\<close>

definition try_advance :: "int \<Rightarrow> warmup_clock \<Rightarrow> pyfloat \<Rightarrow> machine \<Rightarrow> machine" where
  "try_advance max_stuck ck confidence m =
     (if warmup_over (wm_state m) then m
      else if is_timed_out (wc_check ck) m then fail_machine ck TimedOut m
      else if fl_lt confidence (min_confidence (wm_state m)) then
        (let m1 = check_stuck_alert (wc_alert ck) (m\<lparr>wm_stuck_cycles := wm_stuck_cycles m + 1\<rparr>)
         in if max_stuck * 10 < wm_stuck_cycles m1
            then fail_machine ck (StuckLoop (wm_stuck_cycles m1)) m1 else m1)
      else advance ck confidence m)"

definition force_fail :: "warmup_clock \<Rightarrow> warmup_failure \<Rightarrow> machine \<Rightarrow> machine" where
  "force_fail = fail_machine"

definition reset_machine :: "warmup_clock \<Rightarrow> machine \<Rightarrow> machine" where
  "reset_machine ck m =
     persist ck (m\<lparr>wm_state := BOOTING, wm_history := wm_history m @ [enter_state BOOTING (wc_enter ck) None],
       wm_failures := 0, wm_stuck_cycles := 0, wm_stuck_alerted := False\<rparr>)"

definition is_stuck :: "pyfloat \<Rightarrow> machine \<Rightarrow> bool" where
  "is_stuck now m \<longleftrightarrow> \<not> warmup_over (wm_state m) \<and> fl_le (Fin 300) (time_in_state now m)"

section \<open>What the machine is at any time\<close>

text \<open>
  The machine's steps: forward by one state, to failure, and by a reset to the start. A history
  is well formed when each entry follows from the one before and the last, still open, is the
  current state, and a machine that is under way counts its stuck cycles within the
  limit.
\<close>

definition warmup_move :: "warmup_state \<Rightarrow> warmup_state \<Rightarrow> bool" where
  "warmup_move a b \<longleftrightarrow> next_state a = Some b \<or> b = WARMUP_FAILED \<or> b = BOOTING"

fun linked :: "('a \<Rightarrow> 'a \<Rightarrow> bool) \<Rightarrow> 'a list \<Rightarrow> bool" where
  "linked R (x # y # zs) = (R x y \<and> linked R (y # zs))"
| "linked R _ = True"

lemma linked_snoc: "xs \<noteq> [] \<Longrightarrow> linked R (xs @ [y]) \<longleftrightarrow> linked R xs \<and> R (last xs) y"
  by (induction R xs rule: linked.induct) auto

definition machine_ok :: "int \<Rightarrow> machine \<Rightarrow> bool" where
  "machine_ok max_stuck m \<longleftrightarrow>
     wm_history m \<noteq> [] \<and> sr_state (last (wm_history m)) = wm_state m \<and>
     sr_exited_at (last (wm_history m)) = None \<and>
     linked warmup_move (map sr_state (wm_history m)) \<and>
     0 \<le> wm_stuck_cycles m \<and>
     (\<not> warmup_over (wm_state m) \<longrightarrow> wm_stuck_cycles m \<le> max 0 (max_stuck * 10))"

lemma sequence_steps: "next_state st = Some t \<Longrightarrow> t \<noteq> WARMUP_FAILED"
  by (cases st) (auto simp: next_state_def state_sequence_def)

lemma persist_simps [simp]:
  "wm_state (persist ck m) = wm_state m" "wm_history (persist ck m) = wm_history m"
  "wm_stuck_cycles (persist ck m) = wm_stuck_cycles m" "wm_failures (persist ck m) = wm_failures m"
  by (simp_all add: persist_def)

lemma exit_simps [simp]:
  "wm_state (exit_current t c r m) = wm_state m" "wm_stuck_cycles (exit_current t c r m) = wm_stuck_cycles m"
  by (simp_all add: exit_current_def)

lemma exit_history:
  assumes "wm_history m \<noteq> []"
  shows "wm_history (exit_current t c r m) \<noteq> []"
    "map sr_state (wm_history (exit_current t c r m)) = map sr_state (wm_history m)"
proof -
  obtain xs x where "wm_history m = xs @ [x]" using assms by (metis rev_exhaust)
  then show "wm_history (exit_current t c r m) \<noteq> []"
    "map sr_state (wm_history (exit_current t c r m)) = map sr_state (wm_history m)"
    by (simp_all add: exit_current_def)
qed

lemma alert_simps [simp]:
  "wm_state (check_stuck_alert t m) = wm_state m" "wm_history (check_stuck_alert t m) = wm_history m"
  "wm_stuck_cycles (check_stuck_alert t m) = wm_stuck_cycles m"
  by (simp_all add: check_stuck_alert_def)

lemma new_machine_ok: "machine_ok max_stuck (new_machine ck saved)"
  by (simp add: machine_ok_def new_machine_def enter_state_def)

text \<open>An entry appended to a well-formed history.\<close>

lemma history_snoc:
  assumes "machine_ok k m" "warmup_move (wm_state m) st"
  shows "linked warmup_move (map sr_state (wm_history (exit_current t c r m)) @ [st])"
    "linked warmup_move (map sr_state (wm_history m) @ [st])"
proof -
  have "last (map sr_state (wm_history m)) = wm_state m"
    using assms(1) by (simp add: machine_ok_def last_map)
  then show "linked warmup_move (map sr_state (wm_history m) @ [st])"
    using assms by (simp add: machine_ok_def linked_snoc)
  then show "linked warmup_move (map sr_state (wm_history (exit_current t c r m)) @ [st])"
    using assms(1) exit_history [of m] by (simp add: machine_ok_def)
qed

lemma fail_machine_ok:
  assumes "machine_ok k m"
  shows "machine_ok k (fail_machine ck reason m)"
proof -
  have "machine_ok k (m\<lparr>wm_failures := wm_failures m + 1\<rparr>)" using assms by (simp add: machine_ok_def)
  from history_snoc(1) [OF this, of WARMUP_FAILED] assms show ?thesis
    by (simp add: machine_ok_def fail_machine_def Let_def enter_state_def warmup_move_def warmup_over_def)
qed

lemma advance_ok:
  assumes "machine_ok k m"
  shows "machine_ok k (advance ck c m)"
proof (cases "next_state (wm_state m)")
  case (Some st)
  then show ?thesis
    using assms history_snoc(1) [OF assms, of st]
    by (simp add: machine_ok_def advance_def Let_def enter_state_def warmup_move_def)
qed (simp add: advance_def assms)

lemma reset_machine_ok:
  assumes "machine_ok k m"
  shows "machine_ok k (reset_machine ck m)"
  using assms history_snoc(2) [OF assms, of BOOTING]
  by (simp add: machine_ok_def reset_machine_def enter_state_def warmup_move_def)

lemma try_advance_ok:
  assumes "machine_ok k m"
  shows "machine_ok k (try_advance k ck c m)"
proof -
  let ?m = "check_stuck_alert (wc_alert ck) (m\<lparr>wm_stuck_cycles := wm_stuck_cycles m + 1\<rparr>)"
  have pre: "machine_ok (wm_stuck_cycles m + 1) ?m" and within: "wm_stuck_cycles ?m \<le> k * 10 \<Longrightarrow> machine_ok k ?m"
    using assms by (auto simp: machine_ok_def)
  have "machine_ok k (fail_machine ck r ?m)" for r
    using fail_machine_ok [OF pre, of ck r] by (auto simp: machine_ok_def fail_machine_def Let_def warmup_over_def)
  then show ?thesis
    using assms fail_machine_ok [OF assms] advance_ok [OF assms] within
    by (auto simp: try_advance_def Let_def not_less)
qed

section \<open>The end of a warm-up\<close>

text \<open>What is left: the states still ahead, each with its cycles, less those spent in this one.\<close>

fun states_ahead :: "warmup_state \<Rightarrow> nat" where
  "states_ahead BOOTING = 6"
| "states_ahead FETCHING_MARKET_DATA = 5"
| "states_ahead BUILDING_FEATURES = 4"
| "states_ahead STABILIZING_REGIMES = 3"
| "states_ahead VALIDATING_RISK = 2"
| "states_ahead SHADOW_MODE = 1"
| "states_ahead LIVE_READY = 0"
| "states_ahead WARMUP_FAILED = 0"

definition cycles_left :: "int \<Rightarrow> machine \<Rightarrow> nat" where
  "cycles_left k m = states_ahead (wm_state m) * (nat (k * 10) + 1) - nat (wm_stuck_cycles m)"

lemma states_ahead_next: "next_state st = Some t \<Longrightarrow> states_ahead st = Suc (states_ahead t)"
  by (cases st) (auto simp: next_state_def state_sequence_def)

lemma states_ahead_pos: "\<not> warmup_over st \<longleftrightarrow> 0 < states_ahead st"
  by (cases st) (simp_all add: warmup_over_def)

lemma next_state_exists: "\<not> warmup_over st \<Longrightarrow> \<exists>t. next_state st = Some t"
  by (cases st) (simp_all add: warmup_over_def next_state_def state_sequence_def)

lemma fail_state [simp]: "wm_state (fail_machine ck r m) = WARMUP_FAILED"
  by (simp add: fail_machine_def Let_def)

lemma stuck_within: "machine_ok k m \<Longrightarrow> \<not> warmup_over (wm_state m) \<Longrightarrow> nat (wm_stuck_cycles m) \<le> nat (k * 10)"
  by (auto simp: machine_ok_def)

lemma cycles_left_pos:
  assumes "machine_ok k m" "\<not> warmup_over (wm_state m)"
  shows "0 < cycles_left k m"
proof -
  have "nat (wm_stuck_cycles m) < nat (k * 10) + 1" using stuck_within [OF assms] by simp
  also have "\<dots> \<le> states_ahead (wm_state m) * (nat (k * 10) + 1)"
    using assms(2) states_ahead_pos by (cases "states_ahead (wm_state m)") simp_all
  finally have "nat (wm_stuck_cycles m) < states_ahead (wm_state m) * (nat (k * 10) + 1)" .
  then show ?thesis unfolding cycles_left_def zero_less_diff .
qed

lemma try_advance_spends:
  assumes ok: "machine_ok k m" and on: "\<not> warmup_over (wm_state m)"
    and still: "\<not> warmup_over (wm_state (try_advance k ck c m))"
  shows "cycles_left k (try_advance k ck c m) < cycles_left k m"
proof -
  let ?m = "try_advance k ck c m"
  have not_failed: "wm_state ?m \<noteq> WARMUP_FAILED" using still by (auto simp: warmup_over_def)
  have cases: "(wm_state ?m = wm_state m \<and> wm_stuck_cycles ?m = wm_stuck_cycles m + 1) \<or>
      (next_state (wm_state m) = Some (wm_state ?m) \<and> wm_stuck_cycles ?m = 0)"
    using on not_failed next_state_exists [OF on]
    by (auto simp: try_advance_def advance_def Let_def split: if_splits)
  have stuck: "0 \<le> wm_stuck_cycles m" using ok by (simp add: machine_ok_def)
  from cases show ?thesis
  proof
    assume same: "wm_state ?m = wm_state m \<and> wm_stuck_cycles ?m = wm_stuck_cycles m + 1"
    then have "nat (wm_stuck_cycles ?m) = nat (wm_stuck_cycles m) + 1" using stuck by simp
    with same cycles_left_pos [OF ok on] show ?thesis
      unfolding cycles_left_def zero_less_diff by (metis diff_less_mono2 less_add_one)
  next
    assume ahead: "next_state (wm_state m) = Some (wm_state ?m) \<and> wm_stuck_cycles ?m = 0"
    then have "states_ahead (wm_state m) * (nat (k * 10) + 1) = states_ahead (wm_state ?m) * (nat (k * 10) + 1) + (nat (k * 10) + 1)"
      using states_ahead_next by simp
    with stuck_within [OF ok on] ahead show ?thesis unfolding cycles_left_def by linarith
  qed
qed

interpretation warmup: draining_machine
  "\<lambda>m. \<exists>ck saved. m = new_machine ck saved" "\<lambda>(ck, c). try_advance k ck c" "machine_ok k"
  "\<lambda>m. warmup_over (wm_state m)" "cycles_left k" for k
proof unfold_locales
  show "cycles_left k ((case op of (ck, c) \<Rightarrow> try_advance k ck c) m) < cycles_left k m"
    if "machine_ok k m" "\<not> warmup_over (wm_state m)"
      "\<not> warmup_over (wm_state ((case op of (ck, c) \<Rightarrow> try_advance k ck c) m))" for op m
    using that try_advance_spends by (cases op) simp
qed (auto simp: new_machine_ok try_advance_ok cycles_left_pos, simp add: try_advance_def)

section \<open>One way up\<close>

text \<open>
  Without resets a machine has been through the states in order, each once, and possibly to
  failure from one of them.
\<close>

definition straight :: "machine \<Rightarrow> bool" where
  "straight m \<longleftrightarrow> (\<exists>n. n < 7 \<and>
     (if wm_state m = WARMUP_FAILED
      then map sr_state (wm_history m) = take (n + 1) state_sequence @ [WARMUP_FAILED]
      else wm_state m = state_sequence ! n \<and> map sr_state (wm_history m) = take (n + 1) state_sequence))"

lemma length_state_sequence [simp]: "length state_sequence = 7"
  by (simp add: state_sequence_def)

lemma next_state_nth:
  assumes "n < 7" "next_state (state_sequence ! n) = Some st"
  shows "n + 1 < 7 \<and> st = state_sequence ! (n + 1)"
proof -
  have "n \<in> {0, 1, 2, 3, 4, 5, 6}" using assms(1) by auto
  with assms(2) show ?thesis by (auto simp: next_state_def state_sequence_def)
qed

lemma straightD:
  assumes "straight m" "\<not> warmup_over (wm_state m)"
  obtains n where "n < 7" "wm_state m = state_sequence ! n" "map sr_state (wm_history m) = take (n + 1) state_sequence"
  using assms by (auto simp: straight_def warmup_over_def split: if_splits)

lemma new_machine_straight: "straight (new_machine ck saved)"
  by (auto simp: straight_def new_machine_def enter_state_def state_sequence_def intro!: exI [of _ 0])

lemma fail_straight:
  assumes ok: "machine_ok k m" and st: "straight m" "\<not> warmup_over (wm_state m)"
  shows "straight (fail_machine ck r m)"
proof -
  have "wm_history m \<noteq> []" using ok by (simp add: machine_ok_def)
  with st exit_history [of "m\<lparr>wm_failures := wm_failures m + 1\<rparr>"] show ?thesis
    by (auto simp: straight_def fail_machine_def Let_def enter_state_def warmup_over_def split: if_splits)
qed

lemma advance_straight:
  assumes ok: "machine_ok k m" and st: "straight m" "\<not> warmup_over (wm_state m)"
  shows "straight (advance ck c m)"
proof -
  obtain n where n: "n < 7" "wm_state m = state_sequence ! n" "map sr_state (wm_history m) = take (n + 1) state_sequence"
    using straightD st by blast
  obtain s where s: "next_state (wm_state m) = Some s" using next_state_exists st(2) by blast
  then have succ: "n + 1 < 7" "s = state_sequence ! (n + 1)" using next_state_nth n by auto
  have "wm_history m \<noteq> []" using ok by (simp add: machine_ok_def)
  then have "map sr_state (wm_history (advance ck c m)) = take (n + 1) state_sequence @ [s]"
    "wm_state (advance ck c m) = s"
    using s n(3) exit_history(2) [of m] by (simp_all add: advance_def Let_def enter_state_def)
  moreover have "take (n + 1) state_sequence @ [s] = take (n + 2) state_sequence"
    using succ by (simp add: take_Suc_conv_app_nth)
  ultimately show ?thesis
    using succ sequence_steps [OF s] by (auto simp: straight_def intro!: exI [of _ "n + 1"])
qed

lemma straight_fields: "wm_state m' = wm_state m \<Longrightarrow> wm_history m' = wm_history m \<Longrightarrow> straight m' = straight m"
  by (simp add: straight_def)

lemma try_advance_straight:
  assumes ok: "machine_ok k m" and st: "straight m"
  shows "straight (try_advance k ck c m)"
proof (cases "warmup_over (wm_state m)")
  case False
  let ?m = "check_stuck_alert (wc_alert ck) (m\<lparr>wm_stuck_cycles := wm_stuck_cycles m + 1\<rparr>)"
  have "machine_ok (wm_stuck_cycles m + 1) ?m" using ok by (auto simp: machine_ok_def)
  moreover have same: "straight ?m" using st by (simp add: straight_fields [of ?m m])
  ultimately have "straight (fail_machine ck r ?m)" for r using False by (intro fail_straight) simp_all
  with same show ?thesis
    using False fail_straight [OF ok st False] advance_straight [OF ok st False]
    by (simp add: try_advance_def Let_def)
qed (simp add: try_advance_def st)

lemma straight_ready:
  assumes "straight m" "wm_state m = LIVE_READY"
  shows "map sr_state (wm_history m) = state_sequence"
proof -
  obtain n where n: "n < 7" "state_sequence ! n = LIVE_READY" "map sr_state (wm_history m) = take (n + 1) state_sequence"
    using assms by (auto simp: straight_def)
  have "n \<in> {0, 1, 2, 3, 4, 5, 6}" using n(1) by auto
  then have "n = 6" using n(2) by (auto simp: state_sequence_def)
  then show ?thesis using n(3) by simp
qed

section \<open>Any life of a machine\<close>

datatype machine_op = TryAdvance warmup_clock pyfloat | ForceFail warmup_clock warmup_failure | Reset warmup_clock

fun run_machine :: "int \<Rightarrow> machine_op \<Rightarrow> machine \<Rightarrow> machine" where
  "run_machine k (TryAdvance ck c) = try_advance k ck c"
| "run_machine k (ForceFail ck r) = force_fail ck r"
| "run_machine k (Reset ck) = reset_machine ck"

interpretation life: guarded_machine "\<lambda>m. \<exists>ck saved. m = new_machine ck saved" "run_machine k" "machine_ok k" for k
proof unfold_locales
  show "machine_ok k (run_machine k op m)" if "machine_ok k m" for op m
    using that by (cases op) (simp_all add: try_advance_ok force_fail_def fail_machine_ok reset_machine_ok)
qed (auto simp: new_machine_ok)

text \<open>
  C15: Whatever its owner does with it, advancing, failing and resetting it in any order with any
  scores and clocks, a machine stays well formed: its history is never empty, its last entry is
  the current state and still open, every entry follows from the one before it by a step of the
  sequence, a failure or a reset, and while it is under way it has spent no more cycles without
  progress than its limit allows.
\<close>

theorem machine_well_formed:
  "machine_ok k (fold (run_machine k) ops (new_machine ck saved))"
  by (rule life.run_inv) blast

end
