(* ===== verification/ColdMetrics.thy ===== *)
theory ColdMetrics
  imports Warmup PyText FloatOrder
begin

text \<open>
  \<^verbatim>\<open>src/cold_start/warmup_metrics.py\<close> and \<^verbatim>\<open>warmup_invariants.py\<close>: the scores the warm-up is
  steered by, with their rounding, and the binary checks that fail it. An overflow, of an int
  that no float can hold or of a square, is an exception of Python and a value of the sum type
  here. Squaring is taken as correctly rounded. A snapshot is a dictionary of scalars with the
  strategy weights beside it; what the checks read from files and from the environment is part
  of their input.
\<close>

section \<open>Arithmetic on floats and ints\<close>

definition overflow_or :: "pyfloat \<Rightarrow> conv_error + pyfloat" where
  "overflow_or x = (if fl_finite x then Inr x else Inl OverflowError)"

definition fl_of_int :: "int \<Rightarrow> conv_error + pyfloat" where
  "fl_of_int n = or_raise OverflowError (float_of_number (VInt n))"

text \<open>\<^verbatim>\<open>a / b\<close> of two ints, correctly rounded, for \<open>b\<close> not 0.\<close>

definition int_ratio :: "int \<Rightarrow> int \<Rightarrow> conv_error + pyfloat" where
  "int_ratio a b = overflow_or (round_double (of_int a / of_int b))"

definition fl_square :: "pyfloat \<Rightarrow> conv_error + pyfloat" where
  "fl_square x = (case x of Fin a \<Rightarrow> overflow_or (round_double (a * a)) | NaN \<Rightarrow> Inr NaN | _ \<Rightarrow> Inr PosInf)"

section \<open>Metrics\<close>

record metrics =
  wx_symbols_ready :: int
  wx_symbols_total :: int
  wx_feature_confidence :: pyfloat
  wx_regime_stability :: pyfloat
  wx_dwe_coverage :: pyfloat
  wx_risk_sync :: bool
  wx_hard_limits_ok :: bool
  wx_probation_consistent :: bool
  wx_evolution_memory :: bool
  wx_transition_cache :: bool
  wx_shadow_cycles :: int
  wx_positions_unknown :: bool
  wx_anomaly_count :: int

definition data_coverage :: "metrics \<Rightarrow> conv_error + pyfloat" where
  "data_coverage m =
     (if wx_symbols_total m \<le> 0 then Inr (Fin 0)
      else bindE (int_ratio (wx_symbols_ready m) (wx_symbols_total m)) (\<lambda>r. Inr (fl_min (Fin 1) r)))"

definition flag_score :: "bool \<Rightarrow> pyfloat \<Rightarrow> pyfloat" where
  "flag_score b other = (if b then Fin 1 else other)"

definition warmup_score :: "metrics \<Rightarrow> conv_error + pyfloat" where
  "warmup_score m =
     (if \<not> wx_hard_limits_ok m then Inr (Fin 0)
      else if wx_positions_unknown m then Inr (Fin 0)
      else bindE (data_coverage m) (\<lambda>data.
           bindE (fl_of_int (wx_anomaly_count m)) (\<lambda>anomalies.
             let twenty = round_double (20 / 100); fifteen = round_double (15 / 100);
                 ten = round_double (10 / 100); five = round_double (5 / 100);
                 parts = [(data, twenty), (wx_feature_confidence m, fifteen), (wx_regime_stability m, twenty),
                   (flag_score (wx_risk_sync m) (Fin 0), twenty), (flag_score (wx_probation_consistent m) (Fin 0), ten),
                   (flag_score (wx_evolution_memory m) (Fin (1 / 2)), five),
                   (flag_score (wx_transition_cache m) (round_double (7 / 10)), five),
                   (fl_max (Fin 0) (fl_sub (Fin 1) (fl_mul anomalies ten)), five)];
                 score = fl_sum (map (\<lambda>(v, w). fl_mul v w) parts)
             in Inr (fl_round 4 (fl_min (Fin 1) score)))))"

definition live_ready_metrics :: "metrics \<Rightarrow> conv_error + bool" where
  "live_ready_metrics m =
     bindE (warmup_score m) (\<lambda>score.
       Inr (fl_le (round_double (85 / 100)) score \<and> 10 \<le> wx_shadow_cycles m \<and> wx_hard_limits_ok m \<and>
            \<not> wx_positions_unknown m \<and> wx_risk_sync m))"

section \<open>The window of recent metrics\<close>

definition record_metrics :: "nat \<Rightarrow> metrics \<Rightarrow> metrics list \<Rightarrow> metrics list" where
  "record_metrics window m ms =
     (let ms' = ms @ [m] in if window < length ms' then tl ms' else ms')"

definition scores_of :: "metrics list \<Rightarrow> conv_error + pyfloat list" where
  "scores_of ms = foldE (\<lambda>xs m. bindE (warmup_score m) (\<lambda>x. Inr (xs @ [x]))) [] ms"

definition stability_score :: "metrics list \<Rightarrow> conv_error + pyfloat" where
  "stability_score ms =
     (if length ms < 2 then Inr (Fin (1 / 2))
      else bindE (scores_of ms) (\<lambda>scores.
        let count = Fin (of_nat (length scores));
            mean = the (fl_div (fl_sum scores) count)
        in bindE (foldE (\<lambda>xs s. bindE (fl_square (fl_sub s mean)) (\<lambda>x. Inr (xs @ [x]))) [] scores) (\<lambda>squares.
             let variance = the (fl_div (fl_sum squares) count)
             in Inr (fl_round 3 (fl_max (Fin 0) (fl_sub (Fin 1) (fl_mul variance (Fin 10))))))))"

definition avg_score :: "metrics list \<Rightarrow> conv_error + pyfloat" where
  "avg_score ms =
     (if ms = [] then Inr (Fin 0)
      else bindE (scores_of ms) (\<lambda>scores.
        Inr (fl_round 4 (the (fl_div (fl_sum scores) (Fin (of_nat (length scores))))))))"

section \<open>Invariants\<close>

text \<open>The strategy weights: no entry, something that is not a dictionary (true or false), or a dictionary.\<close>

datatype raw_weights = NoWeights | NotWeights bool | Weights "(string, pyval) dict"

datatype snapshot_file = NoSnapshot | BadSnapshot | NotADict | GoodSnapshot

record cold_input =
  ci_fields :: "(string, pyval) dict"
  ci_weights :: raw_weights
  ci_snapshot_file :: snapshot_file
  ci_black_box_ok :: bool
  ci_regime_clock :: pyfloat
  ci_regime_max_age :: "string option"

definition field :: "cold_input \<Rightarrow> string \<Rightarrow> pyval \<Rightarrow> pyval" where
  "field ci k v = (case dict_get (ci_fields ci) k of None \<Rightarrow> v | Some w \<Rightarrow> w)"

record invariant_result =
  ir_name :: string
  ir_passed :: bool
  ir_critical :: bool

text \<open>A check: \<open>None\<close> is an exception, which counts as a critical failure.\<close>

type_synonym invariant_fn = "cold_input \<Rightarrow> invariant_result option"

definition verdict :: "string \<Rightarrow> bool \<Rightarrow> invariant_result option" where
  "verdict name ok = Some \<lparr>ir_name = name, ir_passed = ok, ir_critical = True\<rparr>"

definition warning :: "string \<Rightarrow> bool \<Rightarrow> invariant_result option" where
  "warning name ok = Some \<lparr>ir_name = name, ir_passed = ok, ir_critical = False\<rparr>"

definition inv_capital_not_negative :: invariant_fn where
  "inv_capital_not_negative ci =
     (case py_float (field ci ''capital_total'' (VFloat (Fin 0))) of
        Inl OverflowError \<Rightarrow> None
      | Inl _ \<Rightarrow> verdict ''capital_not_negative'' False
      | Inr c \<Rightarrow> verdict ''capital_not_negative'' (fl_le (Fin 0) c))"

definition inv_no_unknown_positions :: invariant_fn where
  "inv_no_unknown_positions ci =
     verdict ''no_unknown_positions'' (\<not> truthy (field ci ''open_positions_unknown'' (VBool False)))"

definition inv_hard_limits_not_breached :: invariant_fn where
  "inv_hard_limits_not_breached ci =
     verdict ''hard_limits_not_breached'' (truthy (field ci ''hard_limits_ok'' (VBool True)))"

definition inv_kill_switch_not_active :: invariant_fn where
  "inv_kill_switch_not_active ci = warning ''kill_switch_not_active'' True"

definition governor_states :: "string list" where
  "governor_states = [''NORMAL'', ''AGGRESSIVE'', ''DEFENSIVE'', ''RECOVERY'', ''RISK_OFF'', '''']"

definition inv_risk_governor_initialized :: invariant_fn where
  "inv_risk_governor_initialized ci =
     (case field ci ''risk_governor_state'' (VStr []) of
        VStr s \<Rightarrow> verdict ''risk_governor_initialized'' (py_upper s \<in> set governor_states)
      | _ \<Rightarrow> None)"

text \<open>\<^verbatim>\<open>w != w or abs(w) == float("inf")\<close>; text and \<^verbatim>\<open>None\<close> have no absolute value.\<close>

fun bad_weight :: "pyval \<Rightarrow> bool option" where
  "bad_weight (VFloat x) = Some (\<not> fl_finite x)"
| "bad_weight (VInt n) = Some False"
| "bad_weight (VBool b) = Some False"
| "bad_weight _ = None"

definition inv_no_nan_capital_allocation :: invariant_fn where
  "inv_no_nan_capital_allocation ci =
     (case ci_weights ci of
        NoWeights \<Rightarrow> verdict ''no_nan_capital_allocation'' True
      | NotWeights _ \<Rightarrow> None
      | Weights ws \<Rightarrow>
          if list_ex (\<lambda>(_, w). bad_weight w = None) ws then None
          else verdict ''no_nan_capital_allocation'' (list_all (\<lambda>(_, w). bad_weight w = Some False) ws))"

text \<open>\<^verbatim>\<open>regime_ts > 0\<close> and the age; text and \<^verbatim>\<open>None\<close> cannot be compared.\<close>

definition regime_age :: "pyfloat \<Rightarrow> pyval \<Rightarrow> pyfloat option" where
  "regime_age now v =
     (case v of
        VNone \<Rightarrow> None
      | VStr _ \<Rightarrow> None
      | VInt n \<Rightarrow> if 0 < n then map_option (fl_sub now) (float_of_number (VInt n)) else Some PosInf
      | VBool b \<Rightarrow> Some (if b then fl_sub now (Fin 1) else PosInf)
      | VFloat x \<Rightarrow> Some (if fl_lt (Fin 0) x then fl_sub now x else PosInf))"

definition inv_regime_not_stale :: invariant_fn where
  "inv_regime_not_stale ci =
     (case (regime_age (ci_regime_clock ci) (field ci ''regime_last_updated_ts'' (VFloat (Fin 0))),
            case ci_regime_max_age ci of None \<Rightarrow> Some (Fin 1800) | Some s \<Rightarrow> float_of_str s) of
        (Some age, Some limit) \<Rightarrow> warning ''regime_not_stale'' (fl_le age limit)
      | _ \<Rightarrow> None)"

definition inv_portfolio_snapshot_readable :: invariant_fn where
  "inv_portfolio_snapshot_readable ci =
     (case ci_snapshot_file ci of
        NoSnapshot \<Rightarrow> warning ''portfolio_snapshot_readable'' True
      | BadSnapshot \<Rightarrow> verdict ''portfolio_snapshot_readable'' False
      | NotADict \<Rightarrow> verdict ''portfolio_snapshot_readable'' False
      | GoodSnapshot \<Rightarrow> verdict ''portfolio_snapshot_readable'' True)"

definition weights_total :: "(string, pyval) dict \<Rightarrow> conv_error + pyfloat" where
  "weights_total ws = foldE (\<lambda>t kw. bindE (py_float (snd kw)) (\<lambda>x. Inr (fl_add t x))) (Fin 0) ws"

definition inv_weights_sum_to_one :: invariant_fn where
  "inv_weights_sum_to_one ci =
     (case ci_weights ci of
        NoWeights \<Rightarrow> warning ''weights_sum_to_one'' True
      | NotWeights b \<Rightarrow> if b then None else warning ''weights_sum_to_one'' True
      | Weights ws \<Rightarrow>
          if ws = [] then warning ''weights_sum_to_one'' True
          else (case weights_total ws of
             Inl _ \<Rightarrow> None
           | Inr wsum \<Rightarrow>
               verdict ''weights_sum_to_one'' (fl_le (fl_abs (fl_sub wsum (Fin 1))) (round_double (1 / 100)))))"

definition inv_black_box_writable :: invariant_fn where
  "inv_black_box_writable ci = verdict ''black_box_writable'' (ci_black_box_ok ci)"

definition inv_lm_studio_or_fallback_ready :: invariant_fn where
  "inv_lm_studio_or_fallback_ready ci =
     warning ''lm_studio_or_fallback_ready''
       (truthy (field ci ''lm_studio_available'' (VBool True)) \<or> truthy (field ci ''fallback_rules_loaded'' (VBool True)))"

definition inv_decision_queue_empty :: invariant_fn where
  "inv_decision_queue_empty ci =
     (case py_int (field ci ''pending_decisions'' (VInt 0)) of
        Inl _ \<Rightarrow> None
      | Inr n \<Rightarrow> warning ''decision_queue_empty'' (n = 0))"

definition inv_agents_initialized :: invariant_fn where
  "inv_agents_initialized ci =
     verdict ''agents_initialized'' (truthy (field ci ''agents_initialized'' (VBool True)))"

fun invariants_by_state :: "warmup_state \<Rightarrow> (string \<times> invariant_fn) list" where
  "invariants_by_state BOOTING =
     [(''inv_agents_initialized'', inv_agents_initialized), (''inv_capital_not_negative'', inv_capital_not_negative),
      (''inv_risk_governor_initialized'', inv_risk_governor_initialized),
      (''inv_portfolio_snapshot_readable'', inv_portfolio_snapshot_readable),
      (''inv_no_unknown_positions'', inv_no_unknown_positions), (''inv_black_box_writable'', inv_black_box_writable),
      (''inv_lm_studio_or_fallback_ready'', inv_lm_studio_or_fallback_ready)]"
| "invariants_by_state FETCHING_MARKET_DATA =
     [(''inv_capital_not_negative'', inv_capital_not_negative),
      (''inv_hard_limits_not_breached'', inv_hard_limits_not_breached),
      (''inv_risk_governor_initialized'', inv_risk_governor_initialized),
      (''inv_portfolio_snapshot_readable'', inv_portfolio_snapshot_readable),
      (''inv_no_unknown_positions'', inv_no_unknown_positions), (''inv_decision_queue_empty'', inv_decision_queue_empty)]"
| "invariants_by_state BUILDING_FEATURES =
     [(''inv_capital_not_negative'', inv_capital_not_negative),
      (''inv_hard_limits_not_breached'', inv_hard_limits_not_breached),
      (''inv_no_nan_capital_allocation'', inv_no_nan_capital_allocation),
      (''inv_portfolio_snapshot_readable'', inv_portfolio_snapshot_readable)]"
| "invariants_by_state STABILIZING_REGIMES =
     [(''inv_capital_not_negative'', inv_capital_not_negative),
      (''inv_hard_limits_not_breached'', inv_hard_limits_not_breached),
      (''inv_no_nan_capital_allocation'', inv_no_nan_capital_allocation), (''inv_regime_not_stale'', inv_regime_not_stale)]"
| "invariants_by_state VALIDATING_RISK =
     [(''inv_capital_not_negative'', inv_capital_not_negative),
      (''inv_hard_limits_not_breached'', inv_hard_limits_not_breached),
      (''inv_no_unknown_positions'', inv_no_unknown_positions),
      (''inv_no_nan_capital_allocation'', inv_no_nan_capital_allocation),
      (''inv_weights_sum_to_one'', inv_weights_sum_to_one), (''inv_regime_not_stale'', inv_regime_not_stale),
      (''inv_black_box_writable'', inv_black_box_writable)]"
| "invariants_by_state WARMUP_FAILED = []"
| "invariants_by_state _ =
     [(''inv_capital_not_negative'', inv_capital_not_negative),
      (''inv_hard_limits_not_breached'', inv_hard_limits_not_breached),
      (''inv_no_unknown_positions'', inv_no_unknown_positions),
      (''inv_no_nan_capital_allocation'', inv_no_nan_capital_allocation),
      (''inv_weights_sum_to_one'', inv_weights_sum_to_one), (''inv_kill_switch_not_active'', inv_kill_switch_not_active),
      (''inv_black_box_writable'', inv_black_box_writable)]"

definition run_invariant :: "cold_input \<Rightarrow> string \<times> invariant_fn \<Rightarrow> invariant_result" where
  "run_invariant ci = (\<lambda>(name, fn).
     case fn ci of Some r \<Rightarrow> r | None \<Rightarrow> \<lparr>ir_name = name, ir_passed = False, ir_critical = True\<rparr>)"

definition check_invariants :: "warmup_state \<Rightarrow> cold_input \<Rightarrow> invariant_result list \<times> bool" where
  "check_invariants st ci =
     (let rs = map (run_invariant ci) (invariants_by_state st)
      in (rs, list_ex (\<lambda>r. \<not> ir_passed r \<and> ir_critical r) rs))"

definition failed_critical :: "invariant_result list \<Rightarrow> string list" where
  "failed_critical rs = map ir_name (filter (\<lambda>r. \<not> ir_passed r \<and> ir_critical r) rs)"

end
