(* ===== verification/WarmupSigner.thy ===== *)
theory WarmupSigner
  imports PyJson PySha256
begin

text \<open>
  \<^verbatim>\<open>src/cold_start/warmup_signer.py\<close>: the signatures of what the cold start writes. HMAC over
  SHA-256, which the code takes from the standard library, is written out, as is the UTF-8
  encoding of code points below 256. The key is an argument. The constants \<^verbatim>\<open>NaN\<close> and
  \<^verbatim>\<open>Infinity\<close>, which Python's reader takes and its writer makes of floats that are not finite,
  are outside the model of JSON.
\<close>

section \<open>HMAC\<close>

definition utf8 :: "string \<Rightarrow> string" where
  "utf8 s = concat (map (\<lambda>c. let n = (of_char c :: nat) in
     if n < 128 then [c] else [char_of (192 + n div 64), char_of (128 + n mod 64)]) s)"

definition hmac_block :: "string \<Rightarrow> string" where
  "hmac_block key =
     (let k = (if 64 < length key then sha256_bytes key else key)
      in k @ replicate (64 - length k) (char_of (0::nat)))"

definition xor_with :: "nat \<Rightarrow> string \<Rightarrow> string" where
  "xor_with n s = map (\<lambda>c. char_of ((of_char c :: nat) XOR n)) s"

definition hmac_hex :: "string \<Rightarrow> string \<Rightarrow> string" where
  "hmac_hex key msg =
     sha256_hex (xor_with 92 (hmac_block key) @ sha256_bytes (xor_with 54 (hmac_block key) @ msg))"

section \<open>Signing\<close>

text \<open>\<^verbatim>\<open>str\<close> of a scalar.\<close>

fun scalar_text :: "pyjson \<Rightarrow> string" where
  "scalar_text (JBool b) = py_str (VBool b)"
| "scalar_text (JInt n) = py_str (VInt n)"
| "scalar_text (JFloat x) = py_str (VFloat x)"
| "scalar_text _ = py_str VNone"

fun canonical :: "pyjson \<Rightarrow> string" where
  "canonical (JObj kvs) = utf8 (dump (JObj kvs))"
| "canonical (JList js) = utf8 (dump (JList js))"
| "canonical (JStr s) = utf8 s"
| "canonical j = utf8 (scalar_text j)"

definition sign :: "string \<Rightarrow> pyjson \<Rightarrow> string" where
  "sign key payload = hmac_hex key (canonical payload)"

text \<open>
  \<^verbatim>\<open>compare_digest\<close> raises for anything but two strings of ASCII; \<^verbatim>\<open>verify\<close> turns that into a
  refusal.
\<close>

definition verify :: "string \<Rightarrow> pyjson \<Rightarrow> pyjson \<Rightarrow> bool" where
  "verify key payload signature = (case signature of JStr s \<Rightarrow> s = sign key payload | _ \<Rightarrow> False)"

fun json_truthy :: "pyjson \<Rightarrow> bool" where
  "json_truthy JNull = False"
| "json_truthy (JBool b) = b"
| "json_truthy (JInt n) = (n \<noteq> 0)"
| "json_truthy (JFloat x) = (x \<noteq> Fin 0)"
| "json_truthy (JStr s) = (s \<noteq> [])"
| "json_truthy (JList js) = (js \<noteq> [])"
| "json_truthy (JObj kvs) = (kvs \<noteq> [])"

definition json_get :: "(string, pyjson) dict \<Rightarrow> string \<Rightarrow> pyjson \<Rightarrow> pyjson" where
  "json_get d k other = (case dict_get d k of None \<Rightarrow> other | Some v \<Rightarrow> v)"

section \<open>Records that carry their signature\<close>

definition sign_report :: "string \<Rightarrow> (string, pyjson) dict \<Rightarrow> (string, pyjson) dict" where
  "sign_report key d =
     (let clean = dict_del d ''hmac_signature''
      in dict_set clean ''hmac_signature'' (JStr (sign key (JObj clean))))"

definition verify_report :: "string \<Rightarrow> (string, pyjson) dict \<Rightarrow> bool" where
  "verify_report key d =
     (let sig = json_get d ''hmac_signature'' (JStr [])
      in json_truthy sig \<and> verify key (JObj (dict_del d ''hmac_signature'')) sig)"

definition sign_state :: "string \<Rightarrow> pyfloat \<Rightarrow> string \<Rightarrow> (string, pyjson) dict \<Rightarrow> (string, pyjson) dict" where
  "sign_state key now state extra =
     (let record = [(''state'', JStr state), (''ts'', JFloat (fl_round 3 now)), (''extra'', JObj extra)]
      in dict_set record ''signature'' (JStr (sign key (JObj record))))"

definition verify_state :: "string \<Rightarrow> (string, pyjson) dict \<Rightarrow> bool" where
  "verify_state key d =
     (let sig = json_get d ''signature'' (JStr [])
      in json_truthy sig \<and> verify key (JObj (dict_del d ''signature'')) sig)"

definition artifact_fields :: "pyjson \<Rightarrow> pyjson \<Rightarrow> pyjson \<Rightarrow> (string, pyjson) dict" where
  "artifact_fields kind stamp payload = [(''artifact_type'', kind), (''signed_at'', stamp), (''payload'', payload)]"

definition sign_artifact :: "string \<Rightarrow> pyfloat \<Rightarrow> string \<Rightarrow> (string, pyjson) dict \<Rightarrow> (string, pyjson) dict" where
  "sign_artifact key now kind data =
     (let envelope = artifact_fields (JStr kind) (JFloat (fl_round 3 now)) (JObj data)
      in dict_set envelope ''signature'' (JStr (sign key (JObj envelope))))"

definition verify_artifact :: "string \<Rightarrow> (string, pyjson) dict \<Rightarrow> bool" where
  "verify_artifact key d =
     (let sig = json_get d ''signature'' (JStr [])
      in json_truthy sig \<and>
         verify key (JObj (artifact_fields (json_get d ''artifact_type'' (JStr []))
           (json_get d ''signed_at'' (JInt 0)) (json_get d ''payload'' (JObj [])))) sig)"

section \<open>What is signed verifies\<close>

lemma sign_nonempty [simp]: "sign key j \<noteq> []"
  using length_sha256_hex by (metis sign_def hmac_hex_def list.size(3) zero_neq_numeral)

lemma sign_plain: "list_all is_hex (sign key j)"
  by (simp add: sign_def hmac_hex_def sha256_hex_digits)

lemma verify_iff: "verify key j sig \<longleftrightarrow> sig = JStr (sign key j)"
  by (cases sig) (auto simp: verify_def)

lemma dict_del_set [simp]: "dict_del (dict_set d k v) k = dict_del d k"
  by (simp add: dict_del_def dict_set_def delete_update_same)

lemma dict_del_twice [simp]: "dict_del (dict_del d k) k = dict_del d k"
  by (simp add: dict_del_def delete_idem)

lemma dict_del_fresh: "k \<notin> set (dict_keys d) \<Longrightarrow> dict_del d k = d"
  by (simp add: dict_del_def delete_id)

lemma sign_report_verifies: "verify_report key (sign_report key d)"
  by (simp add: verify_report_def sign_report_def Let_def json_get_def verify_iff)

lemma sign_state_verifies: "verify_state key (sign_state key now state extra)"
  by (simp add: verify_state_def sign_state_def Let_def json_get_def verify_iff dict_del_fresh)

lemma sign_artifact_verifies: "verify_artifact key (sign_artifact key now kind data)"
  by (simp add: verify_artifact_def sign_artifact_def Let_def json_get_def verify_iff)
    (simp add: artifact_fields_def)

text \<open>Signing a report again gives the same report: the old signature is left out.\<close>

lemma sign_report_again: "sign_report key (sign_report key d) = sign_report key d"
  by (simp add: sign_report_def Let_def)

end
