(* ===== verification/LiveToken.thy ===== *)
theory LiveToken
  imports WarmupSigner
begin

text \<open>
  \<^verbatim>\<open>src/cold_start/bypass_detector.py\<close>: the signed token that the warm-up leaves on disk when
  the system is ready, and the check that live execution makes of it. The text of the file is
  the one \<^verbatim>\<open>json.dumps\<close> writes; the refusals are a datatype, the entry in the black box is left
  out. The key and the readings of the clock are arguments.
\<close>

section \<open>Writing\<close>

definition token_payload :: "string \<Rightarrow> pyfloat \<Rightarrow> pyfloat \<Rightarrow> pyfloat \<Rightarrow> (string, pyjson) dict" where
  "token_payload session score now valid_for =
     [(''session_id'', JStr session), (''warmup_score'', JFloat (fl_round 4 score)),
      (''issued_at'', JFloat (fl_round 3 now)), (''valid_for_s'', JFloat valid_for)]"

definition signed_payload :: "string \<Rightarrow> (string, pyjson) dict \<Rightarrow> (string, pyjson) dict" where
  "signed_payload key payload = dict_set payload ''signature'' (JStr (sign key (JObj payload)))"

definition token_text :: "string \<Rightarrow> string \<Rightarrow> pyfloat \<Rightarrow> pyfloat \<Rightarrow> pyfloat \<Rightarrow> string" where
  "token_text key session score now valid_for =
     render (indent_layout ascii_char) 0 (JObj (signed_payload key (token_payload session score now valid_for)))"

text \<open>The token file: absent, not UTF-8, or a text.\<close>

datatype token_file = NoToken | BrokenToken | TokenText string

text \<open>A write fails with the file as it was, or cut off, or succeeds; a removal fails or succeeds.\<close>

datatype file_write = WriteDone | WriteRefused | WriteCut token_file

definition write_live_ready_token ::
  "string \<Rightarrow> file_write \<Rightarrow> string \<Rightarrow> pyfloat \<Rightarrow> pyfloat \<Rightarrow> pyfloat \<Rightarrow> token_file \<Rightarrow> token_file" where
  "write_live_ready_token key io session score now valid_for file =
     (case io of WriteDone \<Rightarrow> TokenText (token_text key session score now valid_for)
               | WriteRefused \<Rightarrow> file
               | WriteCut f \<Rightarrow> f)"

definition revoke_live_ready_token :: "bool \<Rightarrow> token_file \<Rightarrow> token_file" where
  "revoke_live_ready_token removed file = (if removed then NoToken else file)"

section \<open>Checking\<close>

datatype token_refusal = TokenAbsent | TokenUnreadable | SignatureInvalid | TokenExpired

record token_check =
  tc_ok :: bool
  tc_refusal :: "token_refusal option"
  tc_session :: pyjson
  tc_score :: pyfloat
  tc_age :: pyfloat

definition refuse :: "token_refusal \<Rightarrow> pyfloat \<Rightarrow> token_check" where
  "refuse r age = \<lparr>tc_ok = False, tc_refusal = Some r, tc_session = JStr [], tc_score = Fin 0, tc_age = age\<rparr>"

text \<open>What escapes the check: a document that is no object has no \<^verbatim>\<open>pop\<close> of two arguments, a value no float.\<close>

datatype token_error = NotAnObject | NotANumber conv_error

fun json_float :: "pyjson \<Rightarrow> conv_error + pyfloat" where
  "json_float JNull = py_float VNone"
| "json_float (JBool b) = py_float (VBool b)"
| "json_float (JInt n) = py_float (VInt n)"
| "json_float (JFloat x) = Inr x"
| "json_float (JStr s) = py_float (VStr s)"
| "json_float (JList _) = Inl TypeError"
| "json_float (JObj _) = Inl TypeError"

definition number_field :: "(string, pyjson) dict \<Rightarrow> string \<Rightarrow> pyjson \<Rightarrow> token_error + pyfloat" where
  "number_field d k other =
     (case json_float (json_get d k other) of Inl e \<Rightarrow> Inl (NotANumber e) | Inr x \<Rightarrow> Inr x)"

definition check_document :: "string \<Rightarrow> pyfloat \<Rightarrow> (string, pyjson) dict \<Rightarrow> token_error + token_check" where
  "check_document key now d =
     (let sig = json_get d ''signature'' (JStr []); data = dict_del d ''signature'' in
      if \<not> verify key (JObj data) sig then Inr (refuse SignatureInvalid (Fin 0))
      else bindE (number_field data ''issued_at'' (JInt 0)) (\<lambda>issued.
           bindE (number_field data ''valid_for_s'' (JFloat (Fin 3600))) (\<lambda>valid_for.
             let age = fl_sub now issued in
             if fl_lt valid_for age then Inr (refuse TokenExpired age)
             else bindE (number_field data ''warmup_score'' (JFloat (Fin 0))) (\<lambda>score.
               Inr \<lparr>tc_ok = True, tc_refusal = None, tc_session = json_get data ''session_id'' (JStr []),
                    tc_score = score, tc_age = age\<rparr>))))"

definition check_live_ready_token :: "string \<Rightarrow> pyfloat \<Rightarrow> token_file \<Rightarrow> token_error + token_check" where
  "check_live_ready_token key now file =
     (case file of
        NoToken \<Rightarrow> Inr (refuse TokenAbsent (Fin 0))
      | BrokenToken \<Rightarrow> Inr (refuse TokenUnreadable (Fin 0))
      | TokenText text \<Rightarrow>
          (case loads dict_hook text of
             None \<Rightarrow> Inr (refuse TokenUnreadable (Fin 0))
           | Some (JObj d) \<Rightarrow> check_document key now d
           | Some _ \<Rightarrow> Inl NotAnObject))"

datatype bypass_error = BypassDetected token_refusal | CheckFailed token_error

definition assert_no_bypass :: "string \<Rightarrow> pyfloat \<Rightarrow> token_file \<Rightarrow> bypass_error + unit" where
  "assert_no_bypass key now file =
     (case check_live_ready_token key now file of
        Inl e \<Rightarrow> Inl (CheckFailed e)
      | Inr c \<Rightarrow> (case tc_refusal c of Some r \<Rightarrow> Inl (BypassDetected r) | None \<Rightarrow> Inr ()))"

section \<open>The life of a token\<close>

lemma refuse_simps [simp]:
  "tc_ok (refuse r a) = False" "tc_refusal (refuse r a) = Some r" "tc_age (refuse r a) = a"
  by (simp_all add: refuse_def)

lemma signed_payload_eq:
  "signed_payload key (token_payload session score now valid_for) =
     token_payload session score now valid_for @
     [(''signature'', JStr (sign key (JObj (token_payload session score now valid_for))))]"
  by (simp add: signed_payload_def dict_set_fresh token_payload_def)

text \<open>The numbers of a token that can be written: doubles, and finite.\<close>

definition token_numbers_ok :: "pyfloat \<Rightarrow> pyfloat \<Rightarrow> pyfloat \<Rightarrow> bool" where
  "token_numbers_ok score now valid_for \<longleftrightarrow>
     list_all (\<lambda>x. fl_finite x \<and> fl_double x) [fl_round 4 score, fl_round 3 now, valid_for]"

lemma token_json_ok:
  assumes "token_numbers_ok score now valid_for"
  shows "json_ok (JObj (signed_payload key (token_payload session score now valid_for)))"
  using assms unfolding signed_payload_eq token_numbers_ok_def
  by (simp add: token_payload_def)

lemma token_reads_back:
  assumes "token_numbers_ok score now valid_for"
  shows "loads dict_hook (token_text key session score now valid_for) =
    Some (JObj (signed_payload key (token_payload session score now valid_for)))"
  using indented_ascii.loads_render [OF token_json_ok [OF assms], of "[]" 0] by (simp add: token_text_def)

lemma signed_payload_fields:
  "json_get (signed_payload key (token_payload session score now valid_for)) ''signature'' (JStr []) =
     JStr (sign key (JObj (token_payload session score now valid_for)))"
  "dict_del (signed_payload key (token_payload session score now valid_for)) ''signature'' =
     token_payload session score now valid_for"
  by (simp_all add: signed_payload_def json_get_def dict_del_fresh token_payload_def)

lemma token_check_written:
  assumes "token_numbers_ok score now valid_for"
  shows "check_live_ready_token key later (TokenText (token_text key session score now valid_for)) =
    (let age = fl_sub later (fl_round 3 now) in
     if fl_lt valid_for age then Inr (refuse TokenExpired age)
     else Inr \<lparr>tc_ok = True, tc_refusal = None, tc_session = JStr session, tc_score = fl_round 4 score, tc_age = age\<rparr>)"
proof -
  have "number_field (token_payload session score now valid_for) ''issued_at'' (JInt 0) = Inr (fl_round 3 now)"
    "number_field (token_payload session score now valid_for) ''valid_for_s'' (JFloat (Fin 3600)) = Inr valid_for"
    "number_field (token_payload session score now valid_for) ''warmup_score'' (JFloat (Fin 0)) = Inr (fl_round 4 score)"
    "json_get (token_payload session score now valid_for) ''session_id'' (JStr []) = JStr session"
    by (simp_all add: number_field_def json_get_def token_payload_def)
  then show ?thesis
    by (simp add: check_live_ready_token_def token_reads_back [OF assms] check_document_def signed_payload_fields verify_iff Let_def)
qed

text \<open>Whoever passes the check holds a token whose signature is that of its fields.\<close>

lemma check_ok_signed:
  assumes "check_live_ready_token key now file = Inr c" "tc_ok c"
  obtains s d where "file = TokenText s" "loads dict_hook s = Some (JObj d)"
    "dict_get d ''signature'' = Some (JStr (sign key (JObj (dict_del d ''signature''))))"
proof -
  obtain s d where td: "file = TokenText s" "loads dict_hook s = Some (JObj d)"
    and doc: "check_document key now d = Inr c"
    using assms by (auto simp: check_live_ready_token_def split: token_file.splits option.splits pyjson.splits)
  then have "verify key (JObj (dict_del d ''signature'')) (json_get d ''signature'' (JStr []))"
    using assms(2) by (auto simp: check_document_def Let_def split: if_splits)
  then have "dict_get d ''signature'' = Some (JStr (sign key (JObj (dict_del d ''signature''))))"
    using sign_nonempty [of key "JObj (dict_del d ''signature'')", symmetric]
    by (auto simp: verify_iff json_get_def split: option.splits)
  with td that show thesis by blast
qed

text \<open>
  C16: A token is accepted exactly while it is valid. Written with numbers that are finite, it is
  read back whole: until its time has passed since the moment of writing, to the millisecond,
  the check passes and reports the session and score it was written with, and afterwards live
  execution is refused with the reason that it expired, whatever the key.
\<close>

theorem token_lifetime:
  assumes "token_numbers_ok score now valid_for"
    and "file = write_live_ready_token key WriteDone session score now valid_for before"
  shows "assert_no_bypass key later file =
      (if fl_lt valid_for (fl_sub later (fl_round 3 now)) then Inl (BypassDetected TokenExpired) else Inr ()) \<and>
    (\<not> fl_lt valid_for (fl_sub later (fl_round 3 now)) \<longrightarrow>
      check_live_ready_token key later file =
        Inr \<lparr>tc_ok = True, tc_refusal = None, tc_session = JStr session, tc_score = fl_round 4 score,
             tc_age = fl_sub later (fl_round 3 now)\<rparr>)"
  using token_check_written [OF assms(1), of key later session] assms(2)
  by (simp add: write_live_ready_token_def assert_no_bypass_def Let_def)

lemma sample_token_numbers: "token_numbers_ok (Fin (7 / 8)) (Fin 1000) (Fin 3600)"
  by (simp add: token_numbers_ok_def round_eval float_eval fl_double_def is_double_def)

theorem token_lifetime_witness:
  "assert_no_bypass ''k'' (Fin 4600) (TokenText (token_text ''k'' ''s1'' (Fin (7 / 8)) (Fin 1000) (Fin 3600))) = Inr () \<and>
   assert_no_bypass ''k'' (Fin 4601) (TokenText (token_text ''k'' ''s1'' (Fin (7 / 8)) (Fin 1000) (Fin 3600))) =
     Inl (BypassDetected TokenExpired)"
proof -
  have age: "fl_sub (Fin 4600) (fl_round 3 (Fin 1000)) = Fin 3600" "fl_sub (Fin 4601) (fl_round 3 (Fin 1000)) = Fin 3601"
    by (simp_all add: fl_sub_def round_eval float_eval)
  show ?thesis
    using token_lifetime [OF sample_token_numbers refl, THEN conjunct1, of "''k''" "Fin 4600" "''s1''" NoToken]
      token_lifetime [OF sample_token_numbers refl, THEN conjunct1, of "''k''" "Fin 4601" "''s1''" NoToken]
    unfolding age write_live_ready_token_def file_write.case by simp
qed

end
