(* ===== verification/ColdStart.thy ===== *)
theory ColdStart
  imports ColdMetrics LiveToken
begin

text \<open>
  \<^verbatim>\<open>src/cold_start/cold_start_manager.py\<close> with the report it keeps
  (\<^verbatim>\<open>src/cold_start/warmup_report.py\<close>) and the loop that drives it, \<^verbatim>\<open>_run_warmup\<close> of
  \<^verbatim>\<open>src/runtime/advisor_main.py\<close>: a tick builds the metrics, checks the invariants, moves the
  machine and, at the end, writes or removes the token of live trading. An action may raise, and
  then keeps what it has changed so far. The archive in the black box, the printed summary and
  the saved report file are left out: they change nothing else, and the code swallows what they
  raise.
\<close>

section \<open>The confidence of a state\<close>

definition shadow_validation_cycles :: int where
  "shadow_validation_cycles = 10"

definition state_confidence :: "warmup_state \<Rightarrow> metrics \<Rightarrow> metrics list \<Rightarrow> conv_error + pyfloat" where
  "state_confidence st m window =
     (case st of
        BOOTING \<Rightarrow> Inr (if wx_hard_limits_ok m then round_double (90 / 100) else Fin 0)
      | FETCHING_MARKET_DATA \<Rightarrow>
          bindE (data_coverage m) (\<lambda>c.
            Inr (if fl_le (round_double (60 / 100)) c then c else fl_mul c (Fin (1 / 2))))
      | BUILDING_FEATURES \<Rightarrow> Inr (wx_feature_confidence m)
      | STABILIZING_REGIMES \<Rightarrow>
          bindE (stability_score window) (\<lambda>stability.
            Inr (fl_round 4 (fl_add (fl_mul (wx_regime_stability m) (round_double (6 / 10)))
                               (fl_mul stability (round_double (4 / 10))))))
      | VALIDATING_RISK \<Rightarrow>
          bindE (warmup_score m) (\<lambda>score.
            let base = (if wx_risk_sync m then score else fl_mul score (Fin (1 / 2)))
            in Inr (fl_round 4 (if wx_probation_consistent m then base else fl_mul base (round_double (7 / 10)))))
      | SHADOW_MODE \<Rightarrow>
          if wx_shadow_cycles m < shadow_validation_cycles then
            bindE (int_ratio (wx_shadow_cycles m) shadow_validation_cycles) (\<lambda>progress.
            bindE (warmup_score m) (\<lambda>score. Inr (fl_round 4 (fl_mul score progress))))
          else bindE (avg_score window) (\<lambda>x. Inr (fl_round 4 x))
      | _ \<Rightarrow> warmup_score m)"

section \<open>Building the metrics\<close>

text \<open>A value that is no number counts as the default; an infinite int or a too large float raises.\<close>

definition safe_int :: "pyval \<Rightarrow> int \<Rightarrow> conv_error + int" where
  "safe_int v other = (case py_int v of Inl OverflowError \<Rightarrow> Inl OverflowError | Inl _ \<Rightarrow> Inr other | Inr n \<Rightarrow> Inr n)"

definition safe_float :: "pyval \<Rightarrow> conv_error + pyfloat" where
  "safe_float v = (case py_float v of Inl OverflowError \<Rightarrow> Inl OverflowError | Inl _ \<Rightarrow> Inr (Fin 0) | Inr x \<Rightarrow> Inr x)"

definition flag :: "cold_input \<Rightarrow> string \<Rightarrow> bool \<Rightarrow> bool" where
  "flag ci k other = truthy (field ci k (VBool other))"

definition build_metrics :: "int \<Rightarrow> cold_input \<Rightarrow> conv_error + metrics" where
  "build_metrics shadow ci =
     bindE (safe_int (field ci ''symbols_ready'' (VInt 0)) 0) (\<lambda>ready.
     bindE (safe_int (field ci ''symbols_total'' (VInt 100)) 100) (\<lambda>all.
     bindE (safe_float (field ci ''avg_feature_confidence'' (VFloat (Fin 0)))) (\<lambda>features.
     bindE (safe_float (field ci ''regime_stability'' (VFloat (Fin 0)))) (\<lambda>regime.
     bindE (safe_float (field ci ''dwe_sample_coverage'' (VFloat (Fin 0)))) (\<lambda>dwe.
     bindE (safe_int (field ci ''anomaly_count'' (VInt 0)) 0) (\<lambda>anomalies.
       Inr \<lparr>wx_symbols_ready = ready, wx_symbols_total = max 1 all, wx_feature_confidence = features,
            wx_regime_stability = regime, wx_dwe_coverage = dwe, wx_risk_sync = flag ci ''risk_sync'' False,
            wx_hard_limits_ok = flag ci ''hard_limits_ok'' True,
            wx_probation_consistent = flag ci ''probation_consistent'' True,
            wx_evolution_memory = flag ci ''evolution_memory_loaded'' False,
            wx_transition_cache = flag ci ''transition_cache_populated'' False,
            wx_shadow_cycles = shadow, wx_positions_unknown = flag ci ''open_positions_unknown'' False,
            wx_anomaly_count = anomalies\<rparr>))))))"

section \<open>The report\<close>

record transition_entry =
  te_from :: warmup_state
  te_to :: warmup_state
  te_at :: pyfloat
  te_confidence :: pyfloat

record warmup_report =
  wr_transitions :: "transition_entry list"
  wr_invariants :: "(warmup_state, invariant_result list) dict"
  wr_final :: "(warmup_state \<times> metrics \<times> warmup_failure option) option"

definition record_transition ::
  "pyfloat \<Rightarrow> warmup_state \<Rightarrow> warmup_state \<Rightarrow> pyfloat \<Rightarrow> warmup_report \<Rightarrow> warmup_report" where
  "record_transition now a b c r = r\<lparr>wr_transitions := wr_transitions r @
     [\<lparr>te_from = a, te_to = b, te_at = fl_round 3 now, te_confidence = fl_round 3 c\<rparr>]\<rparr>"

text \<open>
  \<^verbatim>\<open>bottleneck_state\<close>: the state a transition leaves is charged with the time from that
  transition to the next one, the last with the time up to now; the first longest wins.
\<close>

fun state_times :: "pyfloat \<Rightarrow> transition_entry list \<Rightarrow> (warmup_state \<times> pyfloat) list" where
  "state_times now (t # u # ts) = (te_from t, fl_sub (te_at u) (te_at t)) # state_times now (u # ts)"
| "state_times now [t] = [(te_from t, fl_sub now (te_at t))]"
| "state_times now [] = []"

definition total_times :: "(warmup_state \<times> pyfloat) list \<Rightarrow> (warmup_state, pyfloat) dict" where
  "total_times xs = fold (\<lambda>(st, x) d.
     dict_set d st (fl_add (case dict_get d st of None \<Rightarrow> Fin 0 | Some y \<Rightarrow> y) x)) xs []"

definition bottleneck_state :: "pyfloat \<Rightarrow> warmup_report \<Rightarrow> warmup_state option" where
  "bottleneck_state now r =
     (case total_times (state_times now (wr_transitions r)) of
        [] \<Rightarrow> None
      | d # ds \<Rightarrow> Some (fst (fold (\<lambda>e best. if fl_lt (snd best) (snd e) then e else best) ds d)))"

section \<open>The manager\<close>

record cold_manager =
  cm_machine :: machine
  cm_window :: "metrics list"
  cm_last :: "metrics option"
  cm_report :: warmup_report
  cm_shadow_cycles :: int
  cm_zero_data :: nat
  cm_duration_alerted :: bool
  cm_session :: string
  cm_started_at :: pyfloat
  cm_token :: token_file

text \<open>What one tick meets.\<close>

record tick_env =
  te_input :: cold_input
  te_clock :: warmup_clock
  te_now :: pyfloat
  te_token_now :: pyfloat
  te_token_write :: file_write
  te_token_removed :: bool
  te_key :: string

text \<open>The limits that environment variables set: stuck cycles, ticks without data, life of a token.\<close>

record cold_limits =
  cl_max_stuck :: int
  cl_max_zero_data :: nat
  cl_token_valid_s :: pyfloat

type_synonym 'a cold_action = "(cold_manager, conv_error, 'a) PyPrelude.action"

definition new_cold_manager ::
  "warmup_clock \<Rightarrow> (warmup_state \<times> nat) option \<Rightarrow> string \<Rightarrow> pyfloat \<Rightarrow> token_file \<Rightarrow> cold_manager" where
  "new_cold_manager ck saved session now token =
     \<lparr>cm_machine = new_machine ck saved, cm_window = [], cm_last = None,
      cm_report = \<lparr>wr_transitions = [], wr_invariants = [], wr_final = None\<rparr>,
      cm_shadow_cycles = 0, cm_zero_data = 0, cm_duration_alerted = False, cm_session = session,
      cm_started_at = now, cm_token = token\<rparr>"

definition machine_state :: "cold_manager \<Rightarrow> warmup_state" where
  "machine_state s = wm_state (cm_machine s)"

definition is_live_ready :: "cold_manager \<Rightarrow> bool" where
  "is_live_ready s \<longleftrightarrow> machine_state s = LIVE_READY"

definition on_machine :: "(machine \<Rightarrow> machine) \<Rightarrow> unit cold_action" where
  "on_machine f = setS (\<lambda>s. s\<lparr>cm_machine := f (cm_machine s)\<rparr>)"

definition check_duration_alert :: "pyfloat \<Rightarrow> unit cold_action" where
  "check_duration_alert now =
     whenS (\<lambda>s. \<not> cm_duration_alerted s \<and> fl_le (Fin 1800) (fl_sub now (cm_started_at s)))
       (setS (\<lambda>s. s\<lparr>cm_duration_alerted := True\<rparr>))"

text \<open>
  \<^verbatim>\<open>_finalize\<close>. The report's log line computes the score of the metrics, and that may raise;
  the token is then left as it is.
\<close>

definition finalize :: "cold_limits \<Rightarrow> tick_env \<Rightarrow> warmup_state \<Rightarrow> metrics \<Rightarrow> warmup_failure option \<Rightarrow> unit cold_action" where
  "finalize cl env st m reason =
     bindS (setS (\<lambda>s. s\<lparr>cm_report := (cm_report s)\<lparr>wr_final := Some (st, m, reason)\<rparr>\<rparr>)) (\<lambda>_.
     bindS (liftS (warmup_score m)) (\<lambda>score.
       setS (\<lambda>s. s\<lparr>cm_token :=
         (if st = LIVE_READY
          then write_live_ready_token (te_key env) (te_token_write env) (cm_session s) score
                 (te_token_now env) (cl_token_valid_s cl) (cm_token s)
          else if st = WARMUP_FAILED then revoke_live_ready_token (te_token_removed env) (cm_token s)
          else cm_token s)\<rparr>)))"

definition fail_tick :: "cold_limits \<Rightarrow> tick_env \<Rightarrow> metrics \<Rightarrow> warmup_failure \<Rightarrow> unit cold_action" where
  "fail_tick cl env m reason =
     bindS (on_machine (force_fail (te_clock env) reason)) (\<lambda>_. finalize cl env WARMUP_FAILED m (Some reason))"

text \<open>The metrics of this tick, recorded, with the shadow counter of the tick.\<close>

definition take_metrics :: "tick_env \<Rightarrow> metrics cold_action" where
  "take_metrics env =
     bindS (getS cm_shadow_cycles) (\<lambda>shadow.
     bindS (liftS (build_metrics shadow (te_input env))) (\<lambda>m0.
     bindS (getS machine_state) (\<lambda>st.
       let m = (if st = SHADOW_MODE then m0\<lparr>wx_shadow_cycles := shadow + 1\<rparr> else m0)
       in bindS (setS (\<lambda>s. s\<lparr>cm_last := Some m, cm_window := record_metrics 5 m (cm_window s),
                    cm_shadow_cycles := wx_shadow_cycles m\<rparr>)) (\<lambda>_. liftS (Inr m)))))"

definition count_zero_data :: "warmup_state \<Rightarrow> metrics \<Rightarrow> unit cold_action" where
  "count_zero_data st m =
     (if st = FETCHING_MARKET_DATA then
        bindS (liftS (data_coverage m)) (\<lambda>c.
          setS (\<lambda>s. s\<lparr>cm_zero_data := (if c = Fin 0 then cm_zero_data s + 1 else 0)\<rparr>))
      else setS (\<lambda>s. s\<lparr>cm_zero_data := 0\<rparr>))"

text \<open>The move of the machine, with its entry in the report, whose figures may raise.\<close>

definition move_machine :: "cold_limits \<Rightarrow> tick_env \<Rightarrow> metrics \<Rightarrow> unit cold_action" where
  "move_machine cl env m =
     bindS (getS machine_state) (\<lambda>st.
     bindS (getS cm_window) (\<lambda>window.
     bindS (liftS (state_confidence st m window)) (\<lambda>c.
     bindS (on_machine (try_advance (cl_max_stuck cl) (te_clock env) c)) (\<lambda>_.
     bindS (getS machine_state) (\<lambda>st'.
     bindS (if st' = st then liftS (Inr ())
            else bindS (liftS (bindE (data_coverage m) (\<lambda>_. warmup_score m))) (\<lambda>_.
                 setS (\<lambda>s. s\<lparr>cm_report := record_transition (te_now env) st st' c (cm_report s)\<rparr>))) (\<lambda>_.
       if warmup_over st' then finalize cl env st' m None else liftS (Inr ())))))))"

definition cold_tick :: "cold_limits \<Rightarrow> tick_env \<Rightarrow> unit cold_action" where
  "cold_tick cl env =
     whenS (\<lambda>s. \<not> warmup_over (machine_state s))
       (bindS (check_duration_alert (te_now env)) (\<lambda>_.
        bindS (take_metrics env) (\<lambda>m.
        bindS (getS machine_state) (\<lambda>st.
        bindS (count_zero_data st m) (\<lambda>_.
        bindS (getS cm_zero_data) (\<lambda>zeros.
          if 0 < zeros \<and> cl_max_zero_data cl \<le> zeros then fail_tick cl env m (NoMarketData zeros)
          else (case check_invariants st (te_input env) of
            (results, critical) \<Rightarrow>
              bindS (setS (\<lambda>s. s\<lparr>cm_report := (cm_report s)\<lparr>wr_invariants :=
                  dict_set (wr_invariants (cm_report s)) st results\<rparr>\<rparr>)) (\<lambda>_.
                if critical then fail_tick cl env m (CriticalInvariants (failed_critical results))
                else move_machine cl env m))))))))"

section \<open>The loop\<close>

datatype warmup_outcome = Ready | GaveUp | TickRaised conv_error | StillWaiting

text \<open>
  \<^verbatim>\<open>_run_warmup\<close>: tick after tick until the manager is ready, giving up at the third failure in
  a row. The ticks' inputs are a list, and \<open>StillWaiting\<close> is the end of the list.
\<close>

fun run_warmup :: "cold_limits \<Rightarrow> nat \<Rightarrow> nat \<Rightarrow> tick_env list \<Rightarrow> cold_manager \<Rightarrow> cold_manager \<times> warmup_outcome" where
  "run_warmup cl max_fail fails envs s =
     (if is_live_ready s then (s, Ready)
      else case envs of
        [] \<Rightarrow> (s, StillWaiting)
      | env # rest \<Rightarrow>
          (case cold_tick cl env s of
             (s', Inl e) \<Rightarrow> (s', TickRaised e)
           | (s', Inr _) \<Rightarrow>
               if machine_state s' = WARMUP_FAILED then
                 (if max_fail \<le> fails + 1 then (s', GaveUp) else run_warmup cl max_fail (fails + 1) rest s')
               else run_warmup cl max_fail 0 rest s'))"

end
