(* ===== verification/ColdStartSafety.thy ===== *)
theory ColdStartSafety
  imports ColdStart
begin

text \<open>
  What a cold start guarantees: it ends, it only lets the system trade after every state was
  passed and every check of the last one holds, and what its token is worth. The locale facts
  about actions and machines come from \<open>PyPrelude\<close> and \<open>Warmup\<close>.
\<close>

section \<open>The parts of a tick\<close>

definition beside :: "cold_manager \<Rightarrow> cold_manager \<Rightarrow> bool" where
  "beside s t \<longleftrightarrow> cm_machine t = cm_machine s \<and> cm_token t = cm_token s \<and> cm_session t = cm_session s"

interpretation beside: action_preorder beside
  by unfold_locales (auto simp: beside_def)

lemma beside_refl [simp]: "beside s s"
  by (simp add: beside_def)

lemma beside_state: "beside s t \<Longrightarrow> machine_state t = machine_state s"
  by (simp add: beside_def machine_state_def)

lemma duration_beside: "keeps beside (check_duration_alert now)"
  unfolding check_duration_alert_def by (intro beside.keeps_when keeps_set) (simp add: beside_def)

lemma zero_data_beside: "keeps beside (count_zero_data st m)"
  unfolding count_zero_data_def
  by (auto intro!: beside.keeps_bind beside.keeps_pure keeps_set simp: beside_def)

text \<open>The metrics of a tick are recorded, with the shadow counter that goes up in shadow mode.\<close>

definition shadow_count :: "cold_manager \<Rightarrow> int" where
  "shadow_count s = cm_shadow_cycles s + (if machine_state s = SHADOW_MODE then 1 else 0)"

lemma build_metrics_shadow: "build_metrics sh ci = Inr m \<Longrightarrow> wx_shadow_cycles m = sh"
  by (auto simp: build_metrics_def bindE_eq_Inr)

lemma take_metrics_run:
  assumes "take_metrics env s = (t, r)"
  shows "beside s t \<and> cm_zero_data t = cm_zero_data s \<and>
    (case r of Inl e \<Rightarrow> cm_shadow_cycles t = cm_shadow_cycles s
     | Inr m \<Rightarrow> (\<exists>m0. build_metrics (cm_shadow_cycles s) (te_input env) = Inr m0 \<and>
          m = m0\<lparr>wx_shadow_cycles := shadow_count s\<rparr>) \<and>
        cm_shadow_cycles t = shadow_count s \<and> cm_window t = record_metrics 5 m (cm_window s))"
proof (cases "build_metrics (cm_shadow_cycles s) (te_input env)")
  case (Inl e)
  then show ?thesis using assms by (auto simp: take_metrics_def bindS_run)
next
  case (Inr m0)
  define m where "m = m0\<lparr>wx_shadow_cycles := shadow_count s\<rparr>"
  have "(if machine_state s = SHADOW_MODE then m0\<lparr>wx_shadow_cycles := cm_shadow_cycles s + 1\<rparr> else m0) = m"
    using build_metrics_shadow [OF Inr] by (auto simp: m_def shadow_count_def)
  then have "r = Inr m" "t = s\<lparr>cm_last := Some m, cm_window := record_metrics 5 m (cm_window s),
      cm_shadow_cycles := shadow_count s\<rparr>"
    using assms Inr by (simp_all add: take_metrics_def bindS_run Let_def) (simp_all add: m_def)
  then show ?thesis using Inr by (simp add: beside_def m_def)
qed

lemma duration_returns: "\<exists>t. check_duration_alert now s = (t, Inr ())"
  by (simp add: check_duration_alert_def whenS_def)

lemma shadow_duration: "check_duration_alert now s = (t, r) \<Longrightarrow> cm_shadow_cycles t = cm_shadow_cycles s \<and> cm_window t = cm_window s"
  by (auto simp: check_duration_alert_def whenS_def split: if_splits)

lemma shadow_zero_data: "count_zero_data st m s = (t, r) \<Longrightarrow> cm_shadow_cycles t = cm_shadow_cycles s \<and> cm_window t = cm_window s"
  by (auto simp: count_zero_data_def bindS_run split: if_splits)

text \<open>The three ways a tick of a warm-up under way can go.\<close>

definition tick_ready ::
  "tick_env \<Rightarrow> cold_manager \<Rightarrow> cold_manager \<Rightarrow> metrics \<Rightarrow> bool" where
  "tick_ready env s u m \<longleftrightarrow> beside s u \<and> cm_shadow_cycles u = shadow_count s \<and>
     cm_window u = record_metrics 5 m (cm_window s) \<and>
     (\<exists>m0. build_metrics (cm_shadow_cycles s) (te_input env) = Inr m0 \<and> m = m0\<lparr>wx_shadow_cycles := shadow_count s\<rparr>)"

lemma cold_tick_cases:
  assumes run: "cold_tick cl env s = (t, r)" and on: "\<not> warmup_over (machine_state s)"
  obtains (raised) e where "beside s t" "r = Inl e" "cm_shadow_cycles t \<in> {cm_shadow_cycles s, shadow_count s}"
  | (failed) u m reason where "tick_ready env s u m" "fail_tick cl env m reason u = (t, r)"
  | (moved) u m where "tick_ready env s u m" "\<not> snd (check_invariants (machine_state s) (te_input env))"
      "move_machine cl env m u = (t, r)"
proof -
  let ?alert = "check_duration_alert (te_now env)"
  obtain s1 where s1: "?alert s = (s1, Inr ())" using duration_returns by blast
  have b1: "beside s s1" "cm_shadow_cycles s1 = cm_shadow_cycles s" "cm_window s1 = cm_window s"
    using keepsD [OF duration_beside s1] shadow_duration [OF s1] by simp_all
  then have sh: "shadow_count s1 = shadow_count s" by (simp add: shadow_count_def beside_state)
  obtain s2 rm where s2: "take_metrics env s1 = (s2, rm)" by fastforce
  note tm = take_metrics_run [OF s2]
  have b2: "beside s s2" using b1 tm beside.R_trans by blast
  show thesis
  proof (cases rm)
    case (Inl e)
    then have "t = s2" "r = Inl e" using run on s1 s2 by (auto simp: cold_tick_def whenS_def bindS_def)
    then show thesis using raised [of e] b2 tm Inl b1 by simp
  next
    case (Inr m)
    obtain s3 rz where s3: "count_zero_data (machine_state s2) m s2 = (s3, rz)" by fastforce
    have b3: "beside s s3" using b2 keepsD [OF zero_data_beside s3] beside.R_trans by blast
    have ready: "tick_ready env s s3 m"
      using b3 tm Inr b1 sh shadow_zero_data [OF s3] by (simp add: tick_ready_def)
    show thesis
    proof (cases rz)
      case (Inl e)
      then have "t = s3" "r = Inl e" using run on s1 s2 s3 Inr by (auto simp: cold_tick_def whenS_def bindS_def getS_def)
      then show thesis using raised [of e] ready by (simp add: tick_ready_def)
    next
      case (Inr u)
      obtain results critical where chk: "check_invariants (machine_state s2) (te_input env) = (results, critical)" by fastforce
      let ?s4 = "s3\<lparr>cm_report := (cm_report s3)\<lparr>wr_invariants := dict_set (wr_invariants (cm_report s3)) (machine_state s2) results\<rparr>\<rparr>"
      have ready4: "tick_ready env s ?s4 m" using ready by (simp add: tick_ready_def beside_def)
      have "(if 0 < cm_zero_data s3 \<and> cl_max_zero_data cl \<le> cm_zero_data s3
          then fail_tick cl env m (NoMarketData (cm_zero_data s3)) s3
          else if critical then fail_tick cl env m (CriticalInvariants (failed_critical results)) ?s4
          else move_machine cl env m ?s4) = (t, r)"
        using run on s1 s2 s3 Inr \<open>rm = Inr m\<close> chk
        by (auto simp: cold_tick_def whenS_def bindS_def getS_def setS_def split: if_splits)
      moreover have "machine_state s2 = machine_state s" using b2 by (rule beside_state)
      ultimately show thesis
        using failed [OF ready] failed [OF ready4] moved [OF ready4] chk by (auto split: if_splits)
    qed
  qed
qed

section \<open>What a tick does to the machine and to the token\<close>

text \<open>The token after a tick that ended in a state: kept, or what the end of a warm-up makes of it.\<close>

definition token_after :: "cold_limits \<Rightarrow> tick_env \<Rightarrow> cold_manager \<Rightarrow> cold_manager \<Rightarrow> bool" where
  "token_after cl env s t \<longleftrightarrow> cm_token t = cm_token s \<or>
     (machine_state t = LIVE_READY \<and> (\<exists>score. cm_token t = write_live_ready_token (te_key env)
        (te_token_write env) (cm_session s) score (te_token_now env) (cl_token_valid_s cl) (cm_token s))) \<or>
     (machine_state t = WARMUP_FAILED \<and> cm_token t = revoke_live_ready_token (te_token_removed env) (cm_token s))"

lemma finalize_run:
  assumes "finalize cl env st m reason s = (t, r)" "machine_state s = st"
  shows "cm_machine t = cm_machine s \<and> cm_session t = cm_session s \<and> cm_shadow_cycles t = cm_shadow_cycles s \<and>
    token_after cl env s t"
proof (cases "warmup_score m")
  case (Inl e)
  then have "t = s\<lparr>cm_report := (cm_report s)\<lparr>wr_final := Some (st, m, reason)\<rparr>\<rparr>"
    using assms by (simp add: finalize_def bindS_run)
  then show ?thesis by (simp add: token_after_def)
next
  case (Inr score)
  then have "t = s\<lparr>cm_report := (cm_report s)\<lparr>wr_final := Some (st, m, reason)\<rparr>, cm_token :=
      (if st = LIVE_READY
       then write_live_ready_token (te_key env) (te_token_write env) (cm_session s) score (te_token_now env)
              (cl_token_valid_s cl) (cm_token s)
       else if st = WARMUP_FAILED then revoke_live_ready_token (te_token_removed env) (cm_token s)
       else cm_token s)\<rparr>"
    using assms by (simp add: finalize_def bindS_run)
  then show ?thesis using assms(2) by (cases st) (auto simp: token_after_def machine_state_def)
qed

lemma fail_tick_run:
  assumes "fail_tick cl env m reason s = (t, r)"
  shows "cm_machine t = fail_machine (te_clock env) reason (cm_machine s) \<and> cm_session t = cm_session s \<and>
    cm_shadow_cycles t = cm_shadow_cycles s \<and> token_after cl env s t"
proof -
  let ?u = "s\<lparr>cm_machine := fail_machine (te_clock env) reason (cm_machine s)\<rparr>"
  have "finalize cl env WARMUP_FAILED m (Some reason) ?u = (t, r)"
    using assms by (simp add: fail_tick_def on_machine_def bindS_run force_fail_def)
  from finalize_run [OF this] show ?thesis by (auto simp: machine_state_def token_after_def)
qed

lemma move_machine_run:
  assumes "move_machine cl env m s = (t, r)"
  shows "(\<exists>e. t = s \<and> r = Inl e) \<or>
    (\<exists>c. state_confidence (machine_state s) m (cm_window s) = Inr c \<and>
       cm_machine t = try_advance (cl_max_stuck cl) (te_clock env) c (cm_machine s) \<and> cm_session t = cm_session s \<and>
       cm_shadow_cycles t = cm_shadow_cycles s \<and> token_after cl env s t)"
proof (cases "state_confidence (machine_state s) m (cm_window s)")
  case (Inl e)
  then show ?thesis using assms by (auto simp: move_machine_def bindS_run)
next
  case (Inr c)
  let ?u = "s\<lparr>cm_machine := try_advance (cl_max_stuck cl) (te_clock env) c (cm_machine s)\<rparr>"
  let ?v = "?u\<lparr>cm_report := record_transition (te_now env) (machine_state s) (machine_state ?u) c (cm_report ?u)\<rparr>"
  let ?finish = "\<lambda>w. if warmup_over (machine_state ?u) then finalize cl env (machine_state ?u) m None w else (w, Inr ())"
  have shape: "(t, r) = (if machine_state ?u = machine_state s then ?finish ?u
      else case bindE (data_coverage m) (\<lambda>_. warmup_score m) of Inl e \<Rightarrow> (?u, Inl e) | Inr _ \<Rightarrow> ?finish ?v)"
    using assms Inr by (simp add: move_machine_def bindS_def getS_def setS_def liftS_def on_machine_def split: sum.splits if_splits)
  have same: "machine_state ?v = machine_state ?u" by (simp add: machine_state_def)
  have after_end: "cm_machine t = cm_machine w \<and> cm_session t = cm_session w \<and> cm_shadow_cycles t = cm_shadow_cycles w \<and>
      token_after cl env w t" if "(t, r) = ?finish w" "machine_state w = machine_state ?u" for w
    using that finalize_run [of cl env "machine_state ?u" m None w t r]
    by (auto simp: token_after_def split: if_splits)
  consider "(t, r) = ?finish ?u" | "(t, r) = ?finish ?v" | "t = ?u"
    using shape by (auto split: if_splits sum.splits)
  then show ?thesis
  proof cases
    case 1
    from after_end [OF this refl] Inr show ?thesis by (simp add: token_after_def)
  next
    case 2
    from after_end [OF this same] Inr show ?thesis by (simp add: token_after_def)
  next
    case 3
    with Inr show ?thesis by (simp add: token_after_def)
  qed
qed

text \<open>The step of the machine in a tick, with the confidence it was moved on.\<close>

lemma tick_step:
  assumes run: "cold_tick cl env s = (t, r)" and on: "\<not> warmup_over (machine_state s)"
  shows "cm_session t = cm_session s \<and> token_after cl env s t \<and>
    cm_shadow_cycles t \<in> {cm_shadow_cycles s, shadow_count s} \<and>
    (cm_machine t = cm_machine s \<and> (\<exists>e. r = Inl e) \<or>
     (\<exists>reason. cm_machine t = fail_machine (te_clock env) reason (cm_machine s)) \<or>
     (\<exists>m u c. tick_ready env s u m \<and> cm_shadow_cycles t = shadow_count s \<and>
        \<not> snd (check_invariants (machine_state s) (te_input env)) \<and>
        state_confidence (machine_state s) m (cm_window u) = Inr c \<and>
        cm_machine t = try_advance (cl_max_stuck cl) (te_clock env) c (cm_machine s)))"
  using run on
proof (cases rule: cold_tick_cases)
  case (raised e)
  then show ?thesis by (auto simp: beside_def token_after_def)
next
  case (failed u m reason)
  then show ?thesis using fail_tick_run [OF failed(2)]
    by (auto simp: tick_ready_def beside_def token_after_def)
next
  case (moved u m)
  have u: "cm_machine u = cm_machine s" "cm_token u = cm_token s" "cm_session u = cm_session s"
    "cm_shadow_cycles u = shadow_count s" "machine_state u = machine_state s"
    using moved(1) by (auto simp: tick_ready_def beside_def machine_state_def)
  with move_machine_run [OF moved(3)] moved(1,2) show ?thesis
    by (auto simp: token_after_def)
qed

lemma tick_over: "warmup_over (machine_state s) \<Longrightarrow> cold_tick cl env s = (s, Inr ())"
  by (simp add: cold_tick_def whenS_def)

section \<open>Scores\<close>

text \<open>A score never exceeds 1, whatever the numbers it is made of.\<close>

lemma fl_round_le:
  assumes "fl_le x (Fin (of_int k / 10 ^ n))" "round_double (of_int k / 10 ^ n) = Fin b"
  shows "fl_le (fl_round n x) (Fin b)"
proof (cases x)
  case (Fin q)
  then have q: "q * 10 ^ n \<le> of_int k" using assms(1) by (simp add: field_simps)
  let ?r = "of_int (round_even (q * 10 ^ n)) / 10 ^ n :: rat"
  have le: "?r \<le> of_int k / 10 ^ n"
    using round_even_le [OF q] by (simp add: divide_right_mono)
  show ?thesis
  proof (cases "round_double ?r")
    case (Fin c)
    then show ?thesis using round_double_mono [OF Fin assms(2) le] \<open>x = Fin q\<close> by simp
  next
    case PosInf
    then have "0 < ?r" by (cases rule: round_double_cases [of ?r]) auto
    moreover from this have "\<bar>?r\<bar> = ?r" "\<bar>of_int k / 10 ^ n\<bar> = (of_int k / 10 ^ n :: rat)" using le by linarith+
    ultimately have "round_mag \<bar>?r\<bar> \<le> round_mag \<bar>of_int k / 10 ^ n\<bar>" using round_mag_mono [of ?r] le by metis
    then show ?thesis using PosInf assms(2) \<open>0 < ?r\<close> le by (auto simp: round_double_def Let_def split: if_splits)
  qed (use \<open>x = Fin q\<close> in \<open>simp_all add: round_double_def Let_def split: if_splits\<close>)
qed (use assms in simp_all)

lemma warmup_score_le:
  assumes "warmup_score m = Inr x"
  shows "fl_le x (Fin 1)"
proof (cases "wx_hard_limits_ok m \<and> \<not> wx_positions_unknown m")
  case True
  then obtain y where x: "x = fl_round 4 (fl_min (Fin 1) y)"
    using assms by (auto simp: warmup_score_def bindE_eq_Inr Let_def)
  have "fl_le (fl_min (Fin 1) y) (Fin (of_int 10000 / 10 ^ 4))"
    by (cases y) (auto simp: fl_min_def)
  then show ?thesis unfolding x by (rule fl_round_le) simp
next
  case False
  then show ?thesis using assms by (auto simp: warmup_score_def split: if_splits)
qed

lemma fl_mul_le:
  assumes "fl_le x (Fin 1)" "0 < p" "round_double p = Fin p"
  shows "fl_le (fl_mul x (Fin p)) (Fin p)"
proof (cases x)
  case (Fin a)
  then have le: "a * p \<le> p" using assms by simp
  show ?thesis
  proof (cases "round_double (a * p)")
    case (Fin c)
    then show ?thesis using round_double_mono [OF Fin assms(3) le] \<open>x = Fin a\<close> by simp
  next
    case PosInf
    then have "0 < a * p" by (cases rule: round_double_cases [of "a * p"]) auto
    then have "round_mag (a * p) \<le> round_mag p" using round_mag_mono [of "a * p" p] le by simp
    then show ?thesis using PosInf assms(2,3) \<open>0 < a * p\<close> by (auto simp: round_double_def Let_def split: if_splits)
  qed (use \<open>x = Fin a\<close> in \<open>simp_all add: round_double_def Let_def split: if_splits\<close>)
qed (use assms in \<open>simp_all add: fl_inf_def\<close>)

text \<open>Nine cycles of shadow mode are needed: with eight the score cannot reach the threshold.\<close>

lemma shadow_needs_nine:
  assumes c: "state_confidence SHADOW_MODE m w = Inr c" "\<not> fl_lt c (min_confidence SHADOW_MODE)"
    and cycles: "1 \<le> wx_shadow_cycles m"
  shows "9 \<le> wx_shadow_cycles m"
proof (rule ccontr)
  let ?k = "wx_shadow_cycles m"
  assume "\<not> 9 \<le> ?k"
  then have k: "?k \<in> {1, 2, 3, 4, 5, 6, 7, 8}" using cycles by auto
  then have "case round_double (of_int ?k / 10) of Fin p \<Rightarrow> 0 < p \<and> p \<le> 8001 / 10000 | _ \<Rightarrow> False"
    by (elim insertE emptyE) (simp_all add: round_eval float_eval)
  then obtain p where p: "round_double (of_int ?k / 10) = Fin p" "0 < p" "p \<le> 8001 / 10000"
    by (auto split: pyfloat.splits)
  then have dbl: "round_double p = Fin p" using round_double_is_double by (simp add: is_double_def)
  obtain x where x: "warmup_score m = Inr x" "c = fl_round 4 (fl_mul x (Fin p))"
    using c(1) k p(1) by (auto simp: state_confidence_def bindE_eq_Inr shadow_validation_cycles_def int_ratio_def overflow_or_def)
  have "fl_le (fl_mul x (Fin p)) (Fin p)" using fl_mul_le [OF warmup_score_le [OF x(1)] p(2) dbl] .
  then have "fl_le (fl_mul x (Fin p)) (Fin (of_int 8001 / 10 ^ 4))" using p(3) by (cases "fl_mul x (Fin p)") auto
  moreover have "case round_double (of_int 8001 / 10 ^ 4) of Fin b \<Rightarrow> b < 81 / 100 | _ \<Rightarrow> False"
    by (simp add: round_eval float_eval)
  then obtain b where b: "round_double (of_int 8001 / 10 ^ 4) = Fin b" "b < 81 / 100"
    by (simp split: pyfloat.splits)
  ultimately have "fl_le c (Fin b)" unfolding x(2) by (intro fl_round_le)
  moreover have "case round_double (85 / 100) of Fin g \<Rightarrow> 84 / 100 < g | _ \<Rightarrow> False"
    by (simp add: round_eval float_eval)
  then obtain g where g: "round_double (85 / 100) = Fin g" "84 / 100 < g"
    by (simp split: pyfloat.splits)
  ultimately have "fl_lt c (Fin g)" using b(2) by (cases c) auto
  then show False using c(2) g(1) by simp
qed

end
