(* ===== verification/ColdStartHistory.thy ===== *)
theory ColdStartHistory
  imports ColdStartSafety
begin

text \<open>
  Cold starts from their first tick: the invariant of a manager, the way to live trading, the end
  of the warm-up loop, and the token of an earlier session.
\<close>

section \<open>The invariant\<close>

definition cold_ok :: "int \<Rightarrow> cold_manager \<Rightarrow> bool" where
  "cold_ok k s \<longleftrightarrow> machine_ok k (cm_machine s) \<and> straight (cm_machine s) \<and> 0 \<le> cm_shadow_cycles s \<and>
     (is_live_ready s \<longrightarrow> 9 \<le> cm_shadow_cycles s)"

text \<open>A step to live trading is from shadow mode, in time, with the confidence it asks for.\<close>

lemma step_to_ready:
  assumes "wm_state (try_advance k ck c m) = LIVE_READY" "\<not> warmup_over (wm_state m)"
  shows "wm_state m = SHADOW_MODE \<and> \<not> is_timed_out (wc_check ck) m \<and> \<not> fl_lt c (min_confidence SHADOW_MODE)"
proof -
  have "wm_state m \<noteq> LIVE_READY" using assms(2) by (auto simp: warmup_over_def)
  then have step: "next_state (wm_state m) = Some LIVE_READY" "\<not> is_timed_out (wc_check ck) m"
    "\<not> fl_lt c (min_confidence (wm_state m))"
    using assms next_state_exists [OF assms(2)]
    by (auto simp: try_advance_def advance_def Let_def split: if_splits)
  from step(1) have "wm_state m = SHADOW_MODE"
    by (cases "wm_state m") (simp_all add: next_state_def state_sequence_def)
  with step show ?thesis by simp
qed

lemma tick_to_ready:
  assumes run: "cold_tick cl env s = (t, r)" and on: "\<not> warmup_over (machine_state s)"
    and ready: "is_live_ready t" and ok: "cold_ok (cl_max_stuck cl) s"
  shows "machine_state s = SHADOW_MODE \<and> \<not> is_timed_out (wc_check (te_clock env)) (cm_machine s) \<and>
    \<not> snd (check_invariants SHADOW_MODE (te_input env)) \<and> cm_shadow_cycles t = shadow_count s \<and> 9 \<le> shadow_count s"
proof -
  have "machine_state t \<noteq> machine_state s" "machine_state t \<noteq> WARMUP_FAILED"
    using ready on by (auto simp: is_live_ready_def warmup_over_def)
  then obtain m u c where tick: "tick_ready env s u m" "cm_shadow_cycles t = shadow_count s"
    "\<not> snd (check_invariants (machine_state s) (te_input env))"
    "state_confidence (machine_state s) m (cm_window u) = Inr c"
    "cm_machine t = try_advance (cl_max_stuck cl) (te_clock env) c (cm_machine s)"
    using tick_step [OF run on] by (auto simp: machine_state_def)
  have step: "machine_state s = SHADOW_MODE" "\<not> is_timed_out (wc_check (te_clock env)) (cm_machine s)"
    "\<not> fl_lt c (min_confidence SHADOW_MODE)"
    using step_to_ready [of "cl_max_stuck cl" "te_clock env" c "cm_machine s"] tick(5) ready on
    by (simp_all add: is_live_ready_def machine_state_def)
  have m: "wx_shadow_cycles m = shadow_count s" using tick(1) by (auto simp: tick_ready_def)
  have "1 \<le> shadow_count s" using ok step(1) by (simp add: cold_ok_def shadow_count_def)
  then have "9 \<le> shadow_count s"
    using shadow_needs_nine [of m "cm_window u" c] tick(4) step m by simp
  with tick step show ?thesis by simp
qed

lemma tick_cold_ok:
  assumes ok: "cold_ok (cl_max_stuck cl) s" and run: "cold_tick cl env s = (t, r)"
  shows "cold_ok (cl_max_stuck cl) t"
proof (cases "warmup_over (machine_state s)")
  case True
  then show ?thesis using ok run by (simp add: tick_over)
next
  case False
  have "machine_ok (cl_max_stuck cl) (cm_machine t) \<and> straight (cm_machine t) \<and> 0 \<le> cm_shadow_cycles t"
    using tick_step [OF run False] ok False
    by (auto simp: cold_ok_def try_advance_ok try_advance_straight fail_machine_ok fail_straight shadow_count_def machine_state_def)
  moreover have "is_live_ready t \<Longrightarrow> 9 \<le> cm_shadow_cycles t"
    using tick_to_ready [OF run False _ ok] by simp
  ultimately show ?thesis by (simp add: cold_ok_def)
qed

lemma new_cold_ok: "cold_ok k (new_cold_manager ck saved session now token)"
  using new_machine_ok new_machine_straight
  by (simp add: cold_ok_def new_cold_manager_def is_live_ready_def machine_state_def) (simp add: new_machine_def)

definition after_tick :: "cold_limits \<Rightarrow> tick_env \<Rightarrow> cold_manager \<Rightarrow> cold_manager" where
  "after_tick cl env s = fst (cold_tick cl env s)"

interpretation cold: guarded_machine
  "\<lambda>s. \<exists>ck saved session now token. s = new_cold_manager ck saved session now token"
  "after_tick cl" "cold_ok (cl_max_stuck cl)" for cl
proof unfold_locales
  show "cold_ok (cl_max_stuck cl) (after_tick cl env s)" if "cold_ok (cl_max_stuck cl) s" for env s
    using tick_cold_ok [OF that, of env "after_tick cl env s" "snd (cold_tick cl env s)"] by (simp add: after_tick_def)
qed (auto simp: new_cold_ok)

section \<open>The way to live trading\<close>

lemma weights_verdict:
  assumes "inv_no_nan_capital_allocation ci = Some r1" "ir_passed r1"
    and "inv_weights_sum_to_one ci = Some r2" "ir_passed r2"
  shows "ci_weights ci = NoWeights \<or> ci_weights ci = Weights [] \<or>
    (\<exists>ws x. ci_weights ci = Weights ws \<and> list_all (\<lambda>(_, w). bad_weight w = Some False) ws \<and>
       weights_total ws = Inr x \<and> fl_le (fl_abs (fl_sub x (Fin 1))) (round_double (1 / 100)))"
  using assms
  by (auto simp: inv_no_nan_capital_allocation_def inv_weights_sum_to_one_def verdict_def warning_def
      split: raw_weights.splits if_splits sum.splits)

lemma run_invariant_ok:
  assumes "\<not> snd (check_invariants st ci)" "(name, fn) \<in> set (invariants_by_state st)"
  shows "\<exists>r. fn ci = Some r \<and> (ir_critical r \<longrightarrow> ir_passed r)"
proof -
  have "ir_passed (run_invariant ci (name, fn)) \<or> \<not> ir_critical (run_invariant ci (name, fn))"
    using assms by (auto simp: check_invariants_def Let_def list_ex_iff)
  then show ?thesis by (auto simp: run_invariant_def split: option.splits)
qed

text \<open>What the checks of shadow mode say of the snapshot.\<close>

definition fit_for_trading :: "cold_input \<Rightarrow> bool" where
  "fit_for_trading ci \<longleftrightarrow>
     (\<exists>c. py_float (field ci ''capital_total'' (VFloat (Fin 0))) = Inr c \<and> fl_le (Fin 0) c) \<and>
     truthy (field ci ''hard_limits_ok'' (VBool True)) \<and>
     \<not> truthy (field ci ''open_positions_unknown'' (VBool False)) \<and> ci_black_box_ok ci \<and>
     (ci_weights ci = NoWeights \<or> ci_weights ci = Weights [] \<or>
      (\<exists>ws x. ci_weights ci = Weights ws \<and> list_all (\<lambda>(_, w). bad_weight w = Some False) ws \<and>
         weights_total ws = Inr x \<and> fl_le (fl_abs (fl_sub x (Fin 1))) (round_double (1 / 100))))"

lemma shadow_checks_fit:
  assumes "\<not> snd (check_invariants SHADOW_MODE ci)"
  shows "fit_for_trading ci"
proof -
  note ok = run_invariant_ok [OF assms]
  have "\<exists>r. inv_capital_not_negative ci = Some r \<and> (ir_critical r \<longrightarrow> ir_passed r)"
    "\<exists>r. inv_hard_limits_not_breached ci = Some r \<and> (ir_critical r \<longrightarrow> ir_passed r)"
    "\<exists>r. inv_no_unknown_positions ci = Some r \<and> (ir_critical r \<longrightarrow> ir_passed r)"
    "\<exists>r. inv_black_box_writable ci = Some r \<and> (ir_critical r \<longrightarrow> ir_passed r)"
    using ok [of "''inv_capital_not_negative''" inv_capital_not_negative]
      ok [of "''inv_hard_limits_not_breached''" inv_hard_limits_not_breached]
      ok [of "''inv_no_unknown_positions''" inv_no_unknown_positions]
      ok [of "''inv_black_box_writable''" inv_black_box_writable] by simp_all
  moreover obtain r1 where r1: "inv_no_nan_capital_allocation ci = Some r1" "ir_critical r1 \<longrightarrow> ir_passed r1"
    using ok [of "''inv_no_nan_capital_allocation''" inv_no_nan_capital_allocation] by auto
  moreover obtain r2 where r2: "inv_weights_sum_to_one ci = Some r2" "ir_critical r2 \<longrightarrow> ir_passed r2"
    using ok [of "''inv_weights_sum_to_one''" inv_weights_sum_to_one] by auto
  moreover have "ir_passed r1" using r1
    by (auto simp: inv_no_nan_capital_allocation_def verdict_def split: raw_weights.splits if_splits)
  moreover have "ir_passed r2" using r2
    by (auto simp: inv_weights_sum_to_one_def verdict_def warning_def split: raw_weights.splits if_splits sum.splits)
  ultimately show ?thesis
    using weights_verdict [OF r1(1) _ r2(1)]
    by (auto simp: fit_for_trading_def inv_capital_not_negative_def inv_hard_limits_not_breached_def
        inv_no_unknown_positions_def inv_black_box_writable_def verdict_def split: sum.splits conv_error.splits)
qed

text \<open>
  C13: Live trading has to be earned. A manager that becomes ready has been in every state of the
  sequence, in order, each once, and in no other; it spent at least nine ticks in shadow mode;
  and at the tick that made it ready the state had not timed out, the capital was a number and
  not negative, the hard limits held, no open position was unknown, the black box could be
  written, and the strategy weights, if there are any, were finite and summed to one within a
  hundredth. The nine are one less than the minimum the code names.
\<close>

theorem live_ready_earned:
  assumes "s = fold (after_tick cl) envs (new_cold_manager ck saved session start token)"
    and "\<not> warmup_over (machine_state s)" and "is_live_ready (after_tick cl env s)"
  shows "map sr_state (wm_history (cm_machine (after_tick cl env s))) = state_sequence \<and>
    9 \<le> cm_shadow_cycles (after_tick cl env s) \<and>
    \<not> is_timed_out (wc_check (te_clock env)) (cm_machine s) \<and> fit_for_trading (te_input env)"
proof -
  let ?t = "after_tick cl env s"
  have ok: "cold_ok (cl_max_stuck cl) s" unfolding assms(1) by (rule cold.run_inv) blast
  have run: "cold_tick cl env s = (?t, snd (cold_tick cl env s))" by (simp add: after_tick_def)
  have "straight (cm_machine ?t)" using tick_cold_ok [OF ok run] by (simp add: cold_ok_def)
  then have "map sr_state (wm_history (cm_machine ?t)) = state_sequence"
    using straight_ready assms(3) by (simp add: is_live_ready_def machine_state_def)
  with tick_to_ready [OF run assms(2,3) ok] shadow_checks_fit show ?thesis by simp
qed

section \<open>The loop ends\<close>

lemma tick_spends:
  assumes run: "cold_tick cl env s = (t, Inr u)" and ok: "cold_ok (cl_max_stuck cl) s"
    and on: "\<not> warmup_over (machine_state s)" and still: "\<not> warmup_over (machine_state t)"
  shows "cycles_left (cl_max_stuck cl) (cm_machine t) < cycles_left (cl_max_stuck cl) (cm_machine s)"
proof -
  have "machine_state t \<noteq> WARMUP_FAILED" using still by (auto simp: warmup_over_def)
  then obtain c where "cm_machine t = try_advance (cl_max_stuck cl) (te_clock env) c (cm_machine s)"
    using tick_step [OF run on] by (auto simp: machine_state_def)
  with ok on still show ?thesis
    using try_advance_spends [of "cl_max_stuck cl" "cm_machine s" "te_clock env" c]
    by (simp add: cold_ok_def machine_state_def)
qed

definition outcome_fits :: "cold_manager \<times> warmup_outcome \<Rightarrow> bool" where
  "outcome_fits = (\<lambda>(s, out). case out of
     Ready \<Rightarrow> is_live_ready s | GaveUp \<Rightarrow> machine_state s = WARMUP_FAILED | TickRaised _ \<Rightarrow> True | StillWaiting \<Rightarrow> False)"

lemma over_state: "warmup_over (machine_state s) \<Longrightarrow> \<not> is_live_ready s \<Longrightarrow> machine_state s = WARMUP_FAILED"
  by (simp add: warmup_over_def is_live_ready_def)

text \<open>The budget of the loop: the cycles left to the machine, and the failures still accepted.\<close>

lemma run_warmup_ends:
  assumes "cold_ok (cl_max_stuck cl) s" "fails = 0 \<or> machine_state s = WARMUP_FAILED"
    and "cycles_left (cl_max_stuck cl) (cm_machine s) + max 1 (max_fail - fails) \<le> length envs"
  shows "outcome_fits (run_warmup cl max_fail fails envs s)"
  using assms
proof (induction envs arbitrary: s fails)
  case Nil
  then show ?case by simp
next
  case (Cons env envs)
  let ?left = "\<lambda>s. cycles_left (cl_max_stuck cl) (cm_machine s)"
  show ?case
  proof (cases "is_live_ready s")
    case True
    then show ?thesis by (simp add: outcome_fits_def)
  next
    case False
    obtain t r where run: "cold_tick cl env s = (t, r)" by fastforce
    have ok: "cold_ok (cl_max_stuck cl) t" using tick_cold_ok [OF Cons.prems(1) run] .
    show ?thesis
    proof (cases r)
      case (Inl e)
      then show ?thesis using False run by (simp add: outcome_fits_def)
    next
      case (Inr u)
      show ?thesis
      proof (cases "machine_state t = WARMUP_FAILED")
        case True
        have none: "?left t = 0" using True by (simp add: cycles_left_def machine_state_def)
        have spent: "0 < ?left s \<or> machine_state s = WARMUP_FAILED"
          using Cons.prems(1) False over_state cycles_left_pos [of "cl_max_stuck cl" "cm_machine s"]
          by (auto simp: cold_ok_def machine_state_def)
        show ?thesis
        proof (cases "max_fail \<le> fails + 1")
          case True
          then show ?thesis using False run Inr \<open>machine_state t = WARMUP_FAILED\<close> by (simp add: outcome_fits_def)
        next
          case more: False
          have "?left t + max 1 (max_fail - (fails + 1)) \<le> length envs"
            using Cons.prems(3) none more spent by (simp add: max_def split: if_splits) arith+
          from Cons.IH [OF ok _ this] True show ?thesis using False run Inr more by simp
        qed
      next
        case up: False
        have "\<not> warmup_over (machine_state s)" using up run over_state [OF _ False] tick_over by fastforce
        then have first: "fails = 0" using Cons.prems(2) by (auto simp: warmup_over_def)
        show ?thesis
        proof (cases "is_live_ready t")
          case True
          then show ?thesis using False run Inr up by (cases envs) (simp_all add: outcome_fits_def)
        next
          case not_ready: False
          then have "\<not> warmup_over (machine_state t)" using up over_state by blast
          then have "?left t < ?left s"
            using tick_spends [OF run [unfolded Inr] Cons.prems(1)] \<open>\<not> warmup_over (machine_state s)\<close> by blast
          then have "?left t + max 1 (max_fail - 0) \<le> length envs" using Cons.prems(3) first by simp
          from Cons.IH [OF ok _ this] show ?thesis using False run Inr up by simp
        qed
      qed
    qed
  qed
qed

text \<open>
  C14: The warm-up loop comes to an end. With the default limit of three, after at most 186 ticks
  and the failures it accepts it has a manager that is ready, or gives up on one that failed, or
  a tick raised; it never keeps waiting, whatever snapshots, clocks and files it meets. The
  bound is six states with thirty cycles without progress and one with.
\<close>

theorem warmup_ends:
  assumes "cl_max_stuck cl = 3" "186 + max 1 max_fail \<le> length envs"
  shows "outcome_fits (run_warmup cl max_fail 0 envs (new_cold_manager ck saved session start token))"
proof (rule run_warmup_ends)
  let ?s = "new_cold_manager ck saved session start token"
  show "cold_ok (cl_max_stuck cl) ?s" by (rule new_cold_ok)
  have "cycles_left 3 (cm_machine ?s) = 186"
    by (simp add: cycles_left_def new_cold_manager_def new_machine_def)
  then show "cycles_left (cl_max_stuck cl) (cm_machine ?s) + max 1 (max_fail - 0) \<le> length envs"
    using assms by simp
qed simp

end
