(* ===== verification/ColdStartSamples.thy ===== *)
theory ColdStartSamples
  imports ColdStartHistory
begin

text \<open>
  Concrete cold starts: the default snapshot of \<^verbatim>\<open>src/runtime/advisor_main.py\<close> and its poll
  every five seconds, evaluated to the end, and the witnesses of the properties of a cold start.
\<close>

definition default_limits :: cold_limits where
  "default_limits = \<lparr>cl_max_stuck = 3, cl_max_zero_data = 10, cl_token_valid_s = Fin 3600\<rparr>"

text \<open>\<^verbatim>\<open>_default_snapshot\<close> for one symbol, on a first start with a black box.\<close>

definition default_fields :: "(string, pyval) dict" where
  "default_fields =
     [(''capital_total'', VFloat (Fin 10000)), (''symbols_ready'', VInt 1), (''symbols_total'', VInt 1),
      (''avg_feature_confidence'', VFloat (round_double (85 / 100))), (''regime_stability'', VFloat (round_double (80 / 100))),
      (''risk_sync'', VBool True), (''hard_limits_ok'', VBool True), (''probation_consistent'', VBool True),
      (''evolution_memory_loaded'', VBool True), (''transition_cache_populated'', VBool True),
      (''shadow_cycles_completed'', VInt 0), (''open_positions_unknown'', VBool False), (''anomaly_count'', VInt 0),
      (''dwe_sample_coverage'', VFloat (round_double (80 / 100)))]"

definition default_input :: cold_input where
  "default_input = \<lparr>ci_fields = default_fields, ci_weights = NoWeights, ci_snapshot_file = NoSnapshot,
     ci_black_box_ok = True, ci_regime_clock = Fin 1000, ci_regime_max_age = None\<rparr>"

definition clock_at :: "pyfloat \<Rightarrow> warmup_clock" where
  "clock_at t = \<lparr>wc_check = t, wc_alert = t, wc_exit = t, wc_enter = t, wc_write_ok = True\<rparr>"

definition tick_at :: "cold_input \<Rightarrow> rat \<Rightarrow> tick_env" where
  "tick_at ci t = \<lparr>te_input = ci, te_clock = clock_at (Fin t), te_now = Fin t, te_token_now = Fin t,
     te_token_write = WriteDone, te_token_removed = True, te_key = ''k''\<rparr>"

definition started :: cold_manager where
  "started = new_cold_manager (clock_at (Fin 1000)) None ''s1'' (Fin 1000) NoToken"

definition default_metrics :: "int \<Rightarrow> metrics" where
  "default_metrics sh = \<lparr>wx_symbols_ready = 1, wx_symbols_total = 1, wx_feature_confidence = round_double (85 / 100),
     wx_regime_stability = round_double (80 / 100), wx_dwe_coverage = round_double (80 / 100), wx_risk_sync = True,
     wx_hard_limits_ok = True, wx_probation_consistent = True, wx_evolution_memory = True,
     wx_transition_cache = True, wx_shadow_cycles = sh, wx_positions_unknown = False, wx_anomaly_count = 0\<rparr>"

lemma default_build: "build_metrics sh default_input = Inr (default_metrics sh)"
  by (simp add: build_metrics_def default_input_def default_fields_def field_def flag_def safe_int_def
      safe_float_def default_metrics_def)

lemma constants:
  "round_double (1 / 20) = Fin (3602879701896397 / 72057594037927936)"
  "round_double (1 / 10) = Fin (3602879701896397 / 36028797018963968)"
  "round_double (3 / 20) = Fin (5404319552844595 / 36028797018963968)"
  "round_double (1 / 5) = Fin (3602879701896397 / 18014398509481984)"
  "round_double (2 / 5) = Fin (3602879701896397 / 9007199254740992)"
  "round_double (3 / 5) = Fin (5404319552844595 / 9007199254740992)"
  "round_double (7 / 10) = Fin (3152519739159347 / 4503599627370496)"
  "round_double (3 / 4) = Fin (3 / 4)"
  "round_double (4 / 5) = Fin (3602879701896397 / 4503599627370496)"
  "round_double (17 / 20) = Fin (7656119366529843 / 9007199254740992)"
  "round_double (9 / 10) = Fin (8106479329266893 / 9007199254740992)"
  by (simp_all add: round_eval float_eval)

lemma default_coverage: "data_coverage (default_metrics sh) = Inr (Fin 1)"
  by (simp add: default_metrics_def data_coverage_def int_ratio_def overflow_or_def fl_min_def)

lemma default_sum:
  "fl_sum (map (\<lambda>(v, w). fl_mul v w)
     [(Fin 1, round_double (20 / 100)), (round_double (85 / 100), round_double (15 / 100)),
      (round_double (80 / 100), round_double (20 / 100)), (Fin 1, round_double (20 / 100)), (Fin 1, round_double (10 / 100)),
      (Fin 1, round_double (5 / 100)), (Fin 1, round_double (5 / 100)), (Fin 1, round_double (5 / 100))]) = Fin (8444249301319681 / 9007199254740992)"
  by (simp add: constants fl_sum_def) (simp add: round_eval float_eval)

lemma default_score: "warmup_score (default_metrics sh) = Inr (Fin (15 / 16))"
proof -
  have "fl_max (Fin 0) (fl_sub (Fin 1) (fl_mul (Fin 0) (round_double (10 / 100)))) = Fin 1"
    by (simp add: constants fl_sub_def fl_max_def)
  moreover have "fl_round 4 (fl_min (Fin 1) (Fin (8444249301319681 / 9007199254740992))) = Fin (15 / 16)"
    by (simp add: fl_min_def) (simp add: round_eval float_eval)
  ultimately show ?thesis
    using default_sum
    by (simp only: warmup_score_def default_coverage bindE_Inr Let_def)
      (simp add: default_metrics_def fl_of_int_def flag_score_def)
qed

lemma default_scores: "scores_of (map default_metrics ks) = Inr (map (\<lambda>_. Fin (15 / 16)) ks)"
proof -
  have "foldE (\<lambda>xs m. bindE (warmup_score m) (\<lambda>x. Inr (xs @ [x]))) xs (map default_metrics ks) =
      Inr (xs @ map (\<lambda>_. Fin (15 / 16)) ks)" for xs
    by (induction ks arbitrary: xs) (simp_all add: default_score)
  from this [of "[]"] show ?thesis by (simp add: scores_of_def)
qed

lemma sixteenths: "round_double (15 / 8) = Fin (15 / 8)" "round_double (45 / 16) = Fin (45 / 16)"
  "round_double (15 / 4) = Fin (15 / 4)" "round_double (75 / 16) = Fin (75 / 16)" "round_double (15 / 16) = Fin (15 / 16)"
  by (simp_all add: round_eval float_eval)

lemma roundings: "fl_round 3 (Fin 1) = Fin 1" "fl_round 4 (Fin (15 / 16)) = Fin (15 / 16)"
  by (simp_all add: round_eval float_eval)

lemma default_flags:
  "wx_risk_sync (default_metrics sh)" "wx_hard_limits_ok (default_metrics sh)" "wx_probation_consistent (default_metrics sh)"
  "wx_feature_confidence (default_metrics sh) = round_double (85 / 100)"
  "wx_regime_stability (default_metrics sh) = round_double (80 / 100)" "wx_shadow_cycles (default_metrics sh) = sh"
  by (simp_all add: default_metrics_def)

lemma default_confidence:
  "state_confidence BOOTING (default_metrics sh) w = Inr (round_double (90 / 100))"
  "state_confidence FETCHING_MARKET_DATA (default_metrics sh) w = Inr (Fin 1)"
  "state_confidence BUILDING_FEATURES (default_metrics sh) w = Inr (round_double (85 / 100))"
  "state_confidence VALIDATING_RISK (default_metrics sh) w = Inr (Fin (15 / 16))"
  by (simp_all add: state_confidence_def default_score default_coverage default_flags Let_def roundings constants del: fl_round.simps)

lemma default_stability: "state_confidence STABILIZING_REGIMES (default_metrics sh) (map default_metrics [a, b, c, d]) = Inr (Fin (7926335344172073 / 9007199254740992))"
proof -
  have "stability_score (map default_metrics [a, b, c, d]) = Inr (Fin 1)"
    by (simp only: stability_score_def default_scores) (simp add: fl_sum_def sixteenths Let_def fl_square_def overflow_or_def fl_sub_def fl_max_def roundings del: fl_round.simps)
  then show ?thesis
    by (simp add: state_confidence_def default_flags constants del: list.map) (simp add: round_eval float_eval)
qed

lemma default_average: "avg_score (map default_metrics [a, b, c, d, e]) = Inr (Fin (15 / 16))"
  by (simp only: avg_score_def default_scores) (simp add: fl_sum_def sixteenths Let_def roundings del: fl_round.simps)

text \<open>Below ten cycles the score is scaled down, and at nine still misses the threshold.\<close>

lemma default_shadow_low:
  assumes "k \<in> {1..9}"
  shows "\<exists>c. state_confidence SHADOW_MODE (default_metrics k) w = Inr c \<and> fl_lt c (min_confidence SHADOW_MODE)"
proof -
  have "k \<in> {1, 2, 3, 4, 5, 6, 7, 8, 9}" using assms by auto
  then have "overflow_or (round_double (of_int k / 10)) = Inr (round_double (of_int k / 10)) \<and>
      fl_lt (fl_round 4 (fl_mul (Fin (15 / 16)) (round_double (of_int k / 10)))) (min_confidence SHADOW_MODE)"
    by (elim insertE emptyE) (simp_all add: round_eval float_eval overflow_or_def)
  moreover have "k < 10" using assms by simp
  ultimately show ?thesis
    by (simp add: state_confidence_def default_flags default_score int_ratio_def shadow_validation_cycles_def)
qed

lemma default_shadow_high:
  "state_confidence SHADOW_MODE (default_metrics 10) (map default_metrics [a, b, c, d, e]) = Inr (Fin (15 / 16))"
  by (simp only: state_confidence_def warmup_state.case default_flags default_average)
    (simp add: shadow_validation_cycles_def roundings del: fl_round.simps)

lemma default_checks: "\<not> snd (check_invariants st default_input)"
  by (cases st) (simp_all add: check_invariants_def run_invariant_def Let_def default_input_def default_fields_def field_def
      inv_agents_initialized_def inv_capital_not_negative_def inv_risk_governor_initialized_def governor_states_def py_upper_def
      inv_portfolio_snapshot_readable_def inv_no_unknown_positions_def inv_black_box_writable_def
      inv_lm_studio_or_fallback_ready_def inv_hard_limits_not_breached_def inv_decision_queue_empty_def
      inv_no_nan_capital_allocation_def inv_regime_not_stale_def regime_age_def inv_weights_sum_to_one_def
      inv_kill_switch_not_active_def verdict_def warning_def)

text \<open>One tick of a default start, given the confidence of the state.\<close>

lemma default_tick:
  assumes on: "\<not> warmup_over (machine_state s)"
    and c: "state_confidence (machine_state s) (default_metrics (shadow_count s))
      (record_metrics 5 (default_metrics (shadow_count s)) (cm_window s)) = Inr c"
  shows "\<exists>t. cold_tick default_limits (tick_at default_input x) s = (t, Inr ()) \<and>
    cm_machine t = try_advance 3 (clock_at (Fin x)) c (cm_machine s) \<and>
    cm_window t = record_metrics 5 (default_metrics (shadow_count s)) (cm_window s) \<and>
    cm_shadow_cycles t = shadow_count s"
proof -
  let ?env = "tick_at default_input x" and ?m = "default_metrics (shadow_count s)"
  obtain s1 where s1: "check_duration_alert (te_now ?env) s = (s1, Inr ())" using duration_returns by blast
  have b1: "cm_machine s1 = cm_machine s" "cm_window s1 = cm_window s" "cm_shadow_cycles s1 = cm_shadow_cycles s"
    using keepsD [OF duration_beside s1] shadow_duration [OF s1] by (simp_all add: beside_def)
  let ?s2 = "s1\<lparr>cm_last := Some ?m, cm_window := record_metrics 5 ?m (cm_window s), cm_shadow_cycles := shadow_count s\<rparr>"
  have "(if machine_state s = SHADOW_MODE then (default_metrics (cm_shadow_cycles s))\<lparr>wx_shadow_cycles := cm_shadow_cycles s + 1\<rparr>
      else default_metrics (cm_shadow_cycles s)) = ?m"
    by (simp add: default_metrics_def shadow_count_def)
  then have s2: "take_metrics ?env s1 = (?s2, Inr ?m)"
    using b1 by (simp add: take_metrics_def bindS_run tick_at_def default_build machine_state_def default_flags Let_def)
  have s3: "count_zero_data (machine_state ?s2) ?m ?s2 = (?s2\<lparr>cm_zero_data := 0\<rparr>, Inr ())"
    by (simp add: count_zero_data_def bindS_run default_coverage)
  obtain results where chk: "check_invariants (machine_state s) default_input = (results, False)"
    using default_checks [of "machine_state s"] by (metis prod.collapse)
  let ?s4 = "?s2\<lparr>cm_zero_data := 0, cm_report := (cm_report ?s2)\<lparr>wr_invariants :=
      dict_set (wr_invariants (cm_report ?s2)) (machine_state s) results\<rparr>\<rparr>"
  have "cold_tick default_limits ?env s = move_machine default_limits ?env ?m ?s4"
    using on s1 s2 s3 chk b1
    by (simp add: cold_tick_def whenS_def bindS_def getS_def setS_def machine_state_def tick_at_def)
  moreover obtain t r where run: "move_machine default_limits ?env ?m ?s4 = (t, r)" by fastforce
  moreover have "r = Inr ()"
    using run c b1 by (auto simp: move_machine_def bindS_run machine_state_def default_coverage default_score finalize_def
        on_machine_def split: if_splits)
  moreover have "cm_window t = cm_window ?s4"
    using run c b1 by (auto simp: move_machine_def bindS_run machine_state_def finalize_def on_machine_def split: if_splits)
  ultimately show ?thesis
    using move_machine_run [OF run] c b1
    by (auto simp: machine_state_def default_limits_def tick_at_def)
qed

section \<open>A default start, tick by tick\<close>

text \<open>
  A manager in a state it entered at a time, with its stuck cycles, the shadow counters of its
  window and its own.
\<close>

definition on_track :: "warmup_state \<Rightarrow> int \<Rightarrow> rat \<Rightarrow> int list \<Rightarrow> int \<Rightarrow> cold_manager \<Rightarrow> bool" where
  "on_track st n entered ks sh s \<longleftrightarrow>
     machine_state s = st \<and> wm_stuck_cycles (cm_machine s) = n \<and> wm_history (cm_machine s) \<noteq> [] \<and>
     sr_entered_at (last (wm_history (cm_machine s))) = Fin entered \<and>
     sr_exited_at (last (wm_history (cm_machine s))) = None \<and>
     cm_window s = map default_metrics ks \<and> cm_shadow_cycles s = sh"

lemma started_on_track: "on_track BOOTING 0 1000 [] 0 started"
  by (simp add: on_track_def started_def new_cold_manager_def new_machine_def persist_def clock_at_def
      machine_state_def enter_state_def)

definition elapsed_ok :: "warmup_state \<Rightarrow> rat \<Rightarrow> rat \<Rightarrow> bool" where
  "elapsed_ok st entered now \<longleftrightarrow> \<not> fl_lt (state_timeout st) (round_double (now - entered))"

lemma track_in_time:
  assumes "on_track st n e ks sh s" "elapsed_ok st e x"
  shows "\<not> is_timed_out (wc_check (clock_at (Fin x))) (cm_machine s)"
  using assms by (auto simp: on_track_def is_timed_out_def time_in_state_def record_duration_def fl_sub_def clock_at_def
      elapsed_ok_def machine_state_def Let_def)

definition next_window :: "int list \<Rightarrow> int \<Rightarrow> int list" where
  "next_window ks k = (if 5 < length ks + 1 then tl (ks @ [k]) else ks @ [k])"

lemma record_default: "record_metrics 5 (default_metrics k) (map default_metrics ks) = map default_metrics (next_window ks k)"
  by (simp add: record_metrics_def next_window_def Let_def map_tl)

definition next_shadow :: "warmup_state \<Rightarrow> int \<Rightarrow> int" where
  "next_shadow st sh = (if st = SHADOW_MODE then sh + 1 else sh)"

text \<open>A tick with enough confidence goes up, one with too little in shadow mode stays.\<close>

lemma track_up:
  assumes "on_track st n e ks sh s" "elapsed_ok st e x" "next_state st = Some st'" "\<not> warmup_over st"
    and "state_confidence st (default_metrics (next_shadow st sh)) (map default_metrics (next_window ks (next_shadow st sh))) = Inr c"
    and "\<not> fl_lt c (min_confidence st)"
  shows "on_track st' 0 x (next_window ks (next_shadow st sh)) (next_shadow st sh) (after_tick default_limits (tick_at default_input x) s)"
proof -
  have sh: "shadow_count s = next_shadow st sh" "machine_state s = st" "cm_window s = map default_metrics ks"
    using assms(1) by (simp_all add: on_track_def shadow_count_def next_shadow_def)
  then obtain t where t: "cold_tick default_limits (tick_at default_input x) s = (t, Inr ())"
    "cm_machine t = try_advance 3 (clock_at (Fin x)) c (cm_machine s)"
    "cm_window t = map default_metrics (next_window ks (next_shadow st sh))" "cm_shadow_cycles t = next_shadow st sh"
    using default_tick [of s c x] assms(4,5) by (auto simp: record_default)
  have "cm_machine t = advance (clock_at (Fin x)) c (cm_machine s)"
    using t(2) assms(4,6) sh(2) track_in_time [OF assms(1,2)] by (simp add: try_advance_def machine_state_def)
  with t(1,3,4) sh assms(3) show ?thesis
    by (simp add: on_track_def after_tick_def advance_def machine_state_def Let_def enter_state_def clock_at_def)
qed

lemma track_shadow:
  assumes "on_track SHADOW_MODE n e ks sh s" "elapsed_ok SHADOW_MODE e x" "0 \<le> sh" "sh < 9" "n < 30"
  shows "on_track SHADOW_MODE (n + 1) e (next_window ks (sh + 1)) (sh + 1) (after_tick default_limits (tick_at default_input x) s)"
proof -
  obtain c where c: "state_confidence SHADOW_MODE (default_metrics (sh + 1)) (map default_metrics (next_window ks (sh + 1))) = Inr c"
    "fl_lt c (min_confidence SHADOW_MODE)"
    using default_shadow_low [of "sh + 1"] assms(3,4) by auto
  have sh: "shadow_count s = sh + 1" "machine_state s = SHADOW_MODE" "cm_window s = map default_metrics ks"
    using assms(1) by (simp_all add: on_track_def shadow_count_def)
  then obtain t where t: "cold_tick default_limits (tick_at default_input x) s = (t, Inr ())"
    "cm_machine t = try_advance 3 (clock_at (Fin x)) c (cm_machine s)"
    "cm_window t = map default_metrics (next_window ks (sh + 1))" "cm_shadow_cycles t = sh + 1"
    using default_tick [of s c x] c(1) by (auto simp: record_default warmup_over_def)
  have "cm_machine t = check_stuck_alert (Fin x) ((cm_machine s)\<lparr>wm_stuck_cycles := wm_stuck_cycles (cm_machine s) + 1\<rparr>)"
    using t(2) c(2) sh(2) assms(1,5) track_in_time [OF assms(1,2)]
    by (simp add: try_advance_def machine_state_def warmup_over_def Let_def on_track_def clock_at_def)
  with t(1,3,4) sh assms(1) show ?thesis by (simp add: on_track_def after_tick_def machine_state_def)
qed

text \<open>The ticks: one every five seconds.\<close>

definition default_ticks :: "nat \<Rightarrow> tick_env list" where
  "default_ticks n = map (\<lambda>i. tick_at default_input (1000 + 5 * of_nat i)) [0..<n]"

definition default_start :: "nat \<Rightarrow> cold_manager" where
  "default_start n = fold (after_tick default_limits) (default_ticks n) started"

lemma default_start_Suc:
  "default_start (Suc n) = after_tick default_limits (tick_at default_input (1000 + 5 * of_nat n)) (default_start n)"
  by (simp add: default_start_def default_ticks_def)

lemmas track_eval = next_window_def next_shadow_def next_state_def state_sequence_def warmup_over_def elapsed_ok_def

lemma default_climb:
  "on_track SHADOW_MODE 0 1020 [0, 0, 0, 0, 0] 0 (default_start 5)"
proof -
  have 0: "on_track BOOTING 0 1000 [] 0 (default_start 0)"
    using started_on_track by (simp add: default_start_def default_ticks_def)
  have 1: "on_track FETCHING_MARKET_DATA 0 1000 [0] 0 (default_start 1)"
    unfolding One_nat_def default_start_Suc
    using track_up [OF 0, of 1000 FETCHING_MARKET_DATA "round_double (90 / 100)"]
    by (simp add: track_eval default_confidence constants)
  have 2: "on_track BUILDING_FEATURES 0 1005 [0, 0] 0 (default_start 2)"
    unfolding numeral_2_eq_2 default_start_Suc [of "Suc 0"]
    using track_up [OF 1, of 1005 BUILDING_FEATURES "Fin 1"]
    by (simp add: track_eval default_confidence constants round_eval float_eval)
  have 3: "on_track STABILIZING_REGIMES 0 1010 [0, 0, 0] 0 (default_start 3)"
    unfolding numeral_3_eq_3 default_start_Suc [of "Suc (Suc 0)"]
    using track_up [OF 2, of 1010 STABILIZING_REGIMES "round_double (85 / 100)"]
    by (simp add: track_eval default_confidence constants round_eval float_eval numeral_2_eq_2)
  have 4: "on_track VALIDATING_RISK 0 1015 [0, 0, 0, 0] 0 (default_start (Suc 3))"
    unfolding default_start_Suc
    using track_up [OF 3, of 1015 VALIDATING_RISK] default_stability [of 0 0 0 0 0]
    by (simp add: track_eval constants round_eval float_eval)
  have 5: "on_track SHADOW_MODE 0 1020 [0, 0, 0, 0, 0] 0 (default_start (Suc (Suc 3)))"
    unfolding default_start_Suc [of "Suc 3"]
    using track_up [OF 4, of 1020 SHADOW_MODE "Fin (15 / 16)"]
    by (simp add: track_eval default_confidence constants round_eval float_eval)
  then show ?thesis by (simp add: eval_nat_numeral)
qed


lemma shadow_in_time:
  assumes "i \<le> 9" shows "elapsed_ok SHADOW_MODE 1020 (1025 + 5 * of_nat i)"
proof -
  have "i \<in> {0, 1, 2, 3, 4, 5, 6, 7, 8, 9}" using assms by auto
  then show ?thesis by (elim insertE emptyE) (simp_all add: elapsed_ok_def round_eval float_eval)
qed

lemma default_shadow:
  assumes "i \<le> 9"
  shows "\<exists>a b c d e. on_track SHADOW_MODE (int i) 1020 [a, b, c, d, e] (int i) (default_start (5 + i))"
  using assms
proof (induction i)
  case 0
  then show ?case by (simp, intro exI) (rule default_climb)
next
  case (Suc i)
  then obtain a b c d e where on: "on_track SHADOW_MODE (int i) 1020 [a, b, c, d, e] (int i) (default_start (5 + i))" by auto
  have "on_track SHADOW_MODE (int (Suc i)) 1020 [b, c, d, e, int (Suc i)] (int (Suc i)) (default_start (Suc (5 + i)))"
    unfolding default_start_Suc
    using track_shadow [OF on, of "1025 + 5 * of_nat i"] shadow_in_time [of i] Suc.prems
    by (simp add: next_window_def algebra_simps)
  then show ?case by (simp, intro exI) assumption
qed

lemma default_before: "machine_state (default_start 14) = SHADOW_MODE"
  using default_shadow [of 9] by (auto simp: on_track_def)

lemma default_ready: "is_live_ready (default_start 15)"
proof -
  obtain a b c d e where on: "on_track SHADOW_MODE 9 1020 [a, b, c, d, e] 9 (default_start 14)"
    using default_shadow [of 9] by auto
  have "on_track LIVE_READY 0 1070 [b, c, d, e, 10] 10 (default_start (Suc 14))"
    unfolding default_start_Suc
    using track_up [OF on, of 1070 LIVE_READY "Fin (15 / 16)"] shadow_in_time [of 9] default_shadow_high [of b c d e 10]
    by (simp add: track_eval constants del: list.map)
  then show ?thesis by (simp add: on_track_def is_live_ready_def)
qed

theorem live_ready_earned_witness:
  "is_live_ready (default_start 15) \<and>
   map sr_state (wm_history (cm_machine (default_start 15))) = state_sequence \<and> 9 \<le> cm_shadow_cycles (default_start 15)"
  using live_ready_earned [OF default_start_def [of 14, unfolded started_def], of "tick_at default_input 1070"]
    default_before default_ready default_start_Suc [of 14]
  by (simp add: warmup_over_def)

theorem warmup_ends_witness:
  "outcome_fits (run_warmup default_limits 3 0 (default_ticks 189) started)"
  using warmup_ends [of default_limits 3 "default_ticks 189"]
  by (simp add: default_limits_def default_ticks_def started_def)

end
