(* ===== verification/ColdStartFaults.thy ===== *)
theory ColdStartFaults
  imports ColdStartSamples
begin

text \<open>
  Where a cold start does less than it means to: a feature confidence that is no number, the
  retries of the loop, and the token that an earlier session has left.
\<close>

section \<open>A confidence that is no number\<close>

text \<open>
  A feature confidence that is not a number is taken for a perfect one. If the hard limits
  hold and no open position is unknown, the score of the warm-up is 1, whatever the data coverage,
  the stability of the regimes, the risk synchronisation and the anomalies are: the score is no
  number, and the smaller of 1 and no number is 1 in Python. And in the state that builds the
  features the confidence is below no minimum, so that the machine goes on to the next state.
\<close>

theorem nan_features_pass:
  assumes "wx_feature_confidence m = NaN" "wx_hard_limits_ok m" "\<not> wx_positions_unknown m"
    and "data_coverage m = Inr d" "fl_of_int (wx_anomaly_count m) = Inr a"
  shows "warmup_score m = Inr (Fin 1) \<and>
    (wm_state w = BUILDING_FEATURES \<and> \<not> is_timed_out (wc_check ck) w \<longrightarrow>
      (\<exists>c. state_confidence (wm_state w) m window = Inr c \<and> wm_state (try_advance k ck c w) = STABILIZING_REGIMES))"
proof
  have "fl_round 4 (fl_min (Fin 1) NaN) = Fin 1" by (simp add: fl_min_def) (simp add: round_eval float_eval)
  then show "warmup_score m = Inr (Fin 1)"
    using assms by (simp add: warmup_score_def Let_def fl_sum_nan)
  show "wm_state w = BUILDING_FEATURES \<and> \<not> is_timed_out (wc_check ck) w \<longrightarrow>
      (\<exists>c. state_confidence (wm_state w) m window = Inr c \<and> wm_state (try_advance k ck c w) = STABILIZING_REGIMES)"
    using assms(1) by (simp add: state_confidence_def try_advance_def advance_def warmup_over_def next_state_def
        state_sequence_def Let_def enter_state_def persist_def exit_current_def)
qed

theorem nan_features_pass_witness:
  "warmup_score ((default_metrics 0)\<lparr>wx_feature_confidence := NaN, wx_risk_sync := False, wx_symbols_ready := 0\<rparr>) = Inr (Fin 1)"
  using nan_features_pass [of "(default_metrics 0)\<lparr>wx_feature_confidence := NaN, wx_risk_sync := False, wx_symbols_ready := 0\<rparr>" "Fin 0" "Fin 0"]
  by (simp add: default_metrics_def data_coverage_def int_ratio_def overflow_or_def fl_min_def fl_of_int_def)

section \<open>Retrying\<close>

text \<open>
  The loop cannot recover a failed manager. Once the machine has failed, no snapshot, clock or
  file makes any difference to it: the manager stays as it is, and the loop gives up as soon as
  the failures it accepts have been counted. The retries of the loop have nothing to retry,
  because nothing resets the manager between them.
\<close>

theorem retry_cannot_recover:
  assumes "machine_state s = WARMUP_FAILED"
  shows "run_warmup cl max_fail fails envs s = (s, if length envs < max 1 (max_fail - fails) then StillWaiting else GaveUp)"
  using assms
proof (induction envs arbitrary: fails)
  case (Cons env envs)
  have "cold_tick cl env s = (s, Inr ())" using Cons.prems by (simp add: tick_over warmup_over_def)
  with Cons show ?case
    by (auto simp: is_live_ready_def max_def split: if_splits)
qed (simp add: is_live_ready_def)

definition failed_start :: cold_manager where
  "failed_start = started\<lparr>cm_machine := force_fail (clock_at (Fin 1000)) (NoMarketData 10) (cm_machine started)\<rparr>"

theorem retry_cannot_recover_witness:
  "run_warmup default_limits 3 1 (default_ticks 5) failed_start = (failed_start, GaveUp)"
  using retry_cannot_recover [of failed_start default_limits 3 1 "default_ticks 5"]
  by (simp add: failed_start_def machine_state_def force_fail_def fail_machine_def started_def new_cold_manager_def
      new_machine_def default_ticks_def warmup_over_def persist_def enter_state_def Let_def)

section \<open>The token of an earlier session\<close>

lemma token_kept:
  assumes "\<not> warmup_over (machine_state (fold (after_tick cl) envs s))"
  shows "cm_token (fold (after_tick cl) envs s) = cm_token s"
  using assms
proof (induction envs rule: rev_induct)
  case (snoc env envs)
  let ?s = "fold (after_tick cl) envs s"
  have run: "cold_tick cl env ?s = (after_tick cl env ?s, snd (cold_tick cl env ?s))" by (simp add: after_tick_def)
  have on: "\<not> warmup_over (machine_state ?s)" using snoc.prems by (metis after_tick_def comp_def fold_append fold_simps tick_over fst_conv)
  have "token_after cl env ?s (after_tick cl env ?s)" using tick_step [OF run on] by auto
  then have "cm_token (after_tick cl env ?s) = cm_token ?s"
    using snoc.prems by (auto simp: token_after_def warmup_over_def)
  then show ?case using snoc.IH on by simp
qed simp

text \<open>
  A start does not take the right to trade away. If an earlier session has left its token and
  the hour of the token is not over, then live execution is let pass from the first moment of a
  new warm-up and at every tick of it, although the manager is not ready: the check compares the
  session of the token with nothing, and nothing removes the token at a start. It is removed when
  the warm-up fails, not before.
\<close>

theorem stale_token_admits:
  assumes "token_numbers_ok score earlier valid_for"
    and "s = fold (after_tick cl) envs (new_cold_manager ck saved session start (TokenText (token_text key old score earlier valid_for)))"
    and "\<not> warmup_over (machine_state s)" "\<not> fl_lt valid_for (fl_sub later (fl_round 3 earlier))"
  shows "\<not> is_live_ready s \<and> assert_no_bypass key later (cm_token s) = Inr ()"
proof -
  have "cm_token s = TokenText (token_text key old score earlier valid_for)"
    using token_kept assms(2,3) by (simp add: new_cold_manager_def)
  moreover have "\<not> is_live_ready s" using assms(3) by (auto simp: is_live_ready_def warmup_over_def)
  ultimately show ?thesis
    using token_check_written [OF assms(1), of key later old] assms(4) by (simp add: assert_no_bypass_def Let_def)
qed

theorem stale_token_admits_witness:
  "\<not> is_live_ready (new_cold_manager (clock_at (Fin 2000)) None ''s2'' (Fin 2000)
       (TokenText (token_text ''k'' ''s1'' (Fin (7 / 8)) (Fin 1000) (Fin 3600)))) \<and>
   assert_no_bypass ''k'' (Fin 2000) (TokenText (token_text ''k'' ''s1'' (Fin (7 / 8)) (Fin 1000) (Fin 3600))) = Inr ()"
  using stale_token_admits [OF sample_token_numbers, of
      "new_cold_manager (clock_at (Fin 2000)) None ''s2'' (Fin 2000) (TokenText (token_text ''k'' ''s1'' (Fin (7 / 8)) (Fin 1000) (Fin 3600)))"
      default_limits "[]" "clock_at (Fin 2000)" None "''s2''" "Fin 2000" "''k''" "''s1''" "Fin 2000"]
  by (simp add: new_cold_manager_def machine_state_def new_machine_def warmup_over_def fl_sub_def round_eval float_eval)

end
