(* ===== verification/KillSwitch.thy ===== *)
theory KillSwitch
  imports LiveToken
begin

text \<open>
  \<^verbatim>\<open>src/supervision/killswitch_hardened.py\<close>: the internal kill switch with the state it keeps on
  disk. A halt is set by the code and lifted by the code; in between it has to survive restarts.
  The callbacks, whose exceptions are swallowed, and the dashboard dictionary are left out. The
  text Python makes of a list or dictionary, which a file written by somebody else may hold in
  the place of the reason, is an argument.
\<close>

section \<open>The state and its file\<close>

record ks_state =
  ks_halted :: bool
  ks_safe_mode :: bool
  ks_reason :: string
  ks_halt_time :: pyfloat
  ks_safe_mode_time :: pyfloat
  ks_log :: "pyjson list"

definition default_ks_state :: ks_state where
  "default_ks_state = \<lparr>ks_halted = False, ks_safe_mode = False, ks_reason = [], ks_halt_time = Fin 0,
     ks_safe_mode_time = Fin 0, ks_log = []\<rparr>"

definition record_command :: "string \<Rightarrow> pyfloat \<Rightarrow> ks_state \<Rightarrow> ks_state" where
  "record_command cmd now s =
     (let log = ks_log s @ [JObj [(''cmd'', JStr cmd), (''time'', JFloat now)]]
      in s\<lparr>ks_log := (if 200 < length log then drop (length log - 200) log else log)\<rparr>)"

definition ks_to_dict :: "ks_state \<Rightarrow> (string, pyjson) dict" where
  "ks_to_dict s =
     [(''halted'', JBool (ks_halted s)), (''safe_mode'', JBool (ks_safe_mode s)), (''halt_reason'', JStr (ks_reason s)),
      (''halt_time'', JFloat (ks_halt_time s)), (''safe_mode_time'', JFloat (ks_safe_mode_time s)),
      (''commands_log'', JList (ks_log s)), (''version'', JInt 1)]"

text \<open>\<^verbatim>\<open>str\<close> and \<^verbatim>\<open>list\<close> of a value that was read; what is not iterable raises.\<close>

fun text_of_json :: "(pyjson \<Rightarrow> string) \<Rightarrow> pyjson \<Rightarrow> string" where
  "text_of_json other (JStr s) = s"
| "text_of_json other (JList js) = other (JList js)"
| "text_of_json other (JObj kvs) = other (JObj kvs)"
| "text_of_json other j = scalar_text j"

fun list_of_json :: "pyjson \<Rightarrow> conv_error + pyjson list" where
  "list_of_json (JList js) = Inr js"
| "list_of_json (JStr s) = Inr (map (\<lambda>c. JStr [c]) s)"
| "list_of_json (JObj kvs) = Inr (map (\<lambda>(k, _). JStr k) kvs)"
| "list_of_json _ = Inl TypeError"

definition ks_from_dict :: "(pyjson \<Rightarrow> string) \<Rightarrow> (string, pyjson) dict \<Rightarrow> conv_error + ks_state" where
  "ks_from_dict other d =
     bindE (json_float (json_get d ''halt_time'' (JFloat (Fin 0)))) (\<lambda>halt_time.
     bindE (json_float (json_get d ''safe_mode_time'' (JFloat (Fin 0)))) (\<lambda>safe_time.
     bindE (list_of_json (json_get d ''commands_log'' (JList []))) (\<lambda>log.
       Inr \<lparr>ks_halted = json_truthy (json_get d ''halted'' (JBool False)),
            ks_safe_mode = json_truthy (json_get d ''safe_mode'' (JBool False)),
            ks_reason = text_of_json other (json_get d ''halt_reason'' (JStr [])),
            ks_halt_time = halt_time, ks_safe_mode_time = safe_time, ks_log = log\<rparr>)))"

text \<open>The state file: absent, not UTF-8, or a text.\<close>

datatype ks_file = NoStateFile | BrokenStateFile | StateText string

datatype ks_write = StateWritten | StateRefused | StateCut ks_file

definition persist_state :: "ks_write \<Rightarrow> ks_state \<Rightarrow> ks_file \<Rightarrow> ks_file" where
  "persist_state io s file =
     (case io of StateWritten \<Rightarrow> StateText (render (indent_layout ascii_char) 0 (JObj (ks_to_dict s)))
               | StateRefused \<Rightarrow> file
               | StateCut f \<Rightarrow> f)"

text \<open>Every exception of the reading ends in the default state.\<close>

definition load_ks_state :: "(pyjson \<Rightarrow> string) \<Rightarrow> ks_file \<Rightarrow> ks_state" where
  "load_ks_state other file =
     (case file of
        StateText text \<Rightarrow>
          (case loads dict_hook text of
             Some (JObj d) \<Rightarrow> (case ks_from_dict other d of Inr s \<Rightarrow> s | Inl _ \<Rightarrow> default_ks_state)
           | _ \<Rightarrow> default_ks_state)
      | _ \<Rightarrow> default_ks_state)"

section \<open>The switch\<close>

record kill_switch =
  sw_state :: ks_state
  sw_file :: ks_file

definition start_switch :: "(pyjson \<Rightarrow> string) \<Rightarrow> ks_file \<Rightarrow> kill_switch" where
  "start_switch other file = \<lparr>sw_state = load_ks_state other file, sw_file = file\<rparr>"

definition is_switch_halted :: "kill_switch \<Rightarrow> bool" where
  "is_switch_halted sw = ks_halted (sw_state sw)"

definition is_switch_safe_mode :: "kill_switch \<Rightarrow> bool" where
  "is_switch_safe_mode sw = ks_safe_mode (sw_state sw)"

definition is_execution_allowed :: "kill_switch \<Rightarrow> bool" where
  "is_execution_allowed sw \<longleftrightarrow> \<not> is_switch_halted sw \<and> \<not> is_switch_safe_mode sw"

definition change_and_persist :: "ks_write \<Rightarrow> (ks_state \<Rightarrow> ks_state) \<Rightarrow> kill_switch \<Rightarrow> kill_switch" where
  "change_and_persist io f sw =
     (let s = f (sw_state sw) in sw\<lparr>sw_state := s, sw_file := persist_state io s (sw_file sw)\<rparr>)"

definition force_halt :: "string \<Rightarrow> pyfloat \<Rightarrow> pyfloat \<Rightarrow> ks_write \<Rightarrow> kill_switch \<Rightarrow> kill_switch" where
  "force_halt reason now logged io =
     change_and_persist io (\<lambda>s. record_command ''FORCE_HALT'' logged
       (s\<lparr>ks_halted := True, ks_reason := reason, ks_halt_time := now\<rparr>))"

definition force_safe_mode :: "pyfloat \<Rightarrow> pyfloat \<Rightarrow> ks_write \<Rightarrow> kill_switch \<Rightarrow> kill_switch" where
  "force_safe_mode now logged io =
     change_and_persist io (\<lambda>s. record_command ''FORCE_SAFE_MODE'' logged
       (s\<lparr>ks_safe_mode := True, ks_safe_mode_time := now\<rparr>))"

definition force_resume :: "pyfloat \<Rightarrow> ks_write \<Rightarrow> kill_switch \<Rightarrow> kill_switch" where
  "force_resume logged io =
     change_and_persist io (\<lambda>s. record_command ''FORCE_RESUME'' logged
       (s\<lparr>ks_halted := False, ks_safe_mode := False, ks_reason := []\<rparr>))"

section \<open>What is written is read back\<close>

definition ks_state_ok :: "ks_state \<Rightarrow> bool" where
  "ks_state_ok s \<longleftrightarrow> json_ok (JObj (ks_to_dict s))"

lemma ks_state_ok_iff:
  "ks_state_ok s \<longleftrightarrow> fl_finite (ks_halt_time s) \<and> fl_double (ks_halt_time s) \<and>
     fl_finite (ks_safe_mode_time s) \<and> fl_double (ks_safe_mode_time s) \<and> list_all json_ok (ks_log s)"
  by (auto simp: ks_state_ok_def ks_to_dict_def)

lemma ks_dict_roundtrip: "ks_from_dict other (ks_to_dict s) = Inr s"
  by (simp add: ks_from_dict_def ks_to_dict_def json_get_def)

lemma load_persisted:
  assumes "ks_state_ok s"
  shows "load_ks_state other (persist_state StateWritten s file) = s"
  using indented_ascii.loads_render [OF assms [unfolded ks_state_ok_def], of "[]" 0]
  by (simp add: load_ks_state_def persist_state_def ks_dict_roundtrip)

lemma record_command_simps [simp]:
  "ks_halted (record_command c t s) = ks_halted s" "ks_safe_mode (record_command c t s) = ks_safe_mode s"
  "ks_reason (record_command c t s) = ks_reason s" "ks_halt_time (record_command c t s) = ks_halt_time s"
  "ks_safe_mode_time (record_command c t s) = ks_safe_mode_time s"
  by (simp_all add: record_command_def Let_def)

lemma record_command_ok:
  "list_all json_ok (ks_log s) \<Longrightarrow> fl_finite t \<Longrightarrow> fl_double t \<Longrightarrow> list_all json_ok (ks_log (record_command c t s))"
  by (auto simp: record_command_def Let_def list_all_iff dest: in_set_dropD)

lemma log_bounded: "length (ks_log (record_command c t s)) \<le> 200"
  by (simp add: record_command_def Let_def)

section \<open>A history of a switch\<close>

datatype ks_op =
    Halt string pyfloat pyfloat ks_write
  | SafeMode pyfloat pyfloat ks_write
  | Resume pyfloat ks_write
  | Restart

fun ks_step :: "(pyjson \<Rightarrow> string) \<Rightarrow> ks_op \<Rightarrow> kill_switch \<Rightarrow> kill_switch" where
  "ks_step other (Halt reason now logged io) sw = force_halt reason now logged io sw"
| "ks_step other (SafeMode now logged io) sw = force_safe_mode now logged io sw"
| "ks_step other (Resume logged io) sw = force_resume logged io sw"
| "ks_step other Restart sw = start_switch other (sw_file sw)"

definition clock_ok :: "pyfloat \<Rightarrow> bool" where
  "clock_ok t \<longleftrightarrow> fl_finite t \<and> fl_double t"

text \<open>Operations with readings of a clock.\<close>

fun ks_op_ok :: "ks_op \<Rightarrow> bool" where
  "ks_op_ok (Halt reason now logged io) = (clock_ok now \<and> clock_ok logged)"
| "ks_op_ok (SafeMode now logged io) = (clock_ok now \<and> clock_ok logged)"
| "ks_op_ok (Resume logged io) = clock_ok logged"
| "ks_op_ok Restart = True"

fun is_resume :: "ks_op \<Rightarrow> bool" where
  "is_resume (Resume _ _) = True"
| "is_resume _ = False"

text \<open>
  Whether the file is whole after a write, and whether every restart of a history finds it whole: a write
  that is cut off leaves it broken until the next one that is done.
\<close>

fun file_whole :: "ks_write \<Rightarrow> bool \<Rightarrow> bool" where
  "file_whole StateWritten b = True"
| "file_whole StateRefused b = b"
| "file_whole (StateCut f) b = False"

fun restarts_read :: "bool \<Rightarrow> ks_op list \<Rightarrow> bool" where
  "restarts_read b [] = True"
| "restarts_read b (Restart # ops) = (b \<and> restarts_read b ops)"
| "restarts_read b (Halt reason now logged io # ops) = restarts_read (file_whole io b) ops"
| "restarts_read b (SafeMode now logged io # ops) = restarts_read (file_whole io b) ops"
| "restarts_read b (Resume logged io # ops) = restarts_read (file_whole io b) ops"

text \<open>Memory has a property, and so has what the file holds as long as it is whole.\<close>

definition switch_ok :: "(pyjson \<Rightarrow> string) \<Rightarrow> (ks_state \<Rightarrow> bool) \<Rightarrow> bool \<Rightarrow> kill_switch \<Rightarrow> bool" where
  "switch_ok other P b sw \<longleftrightarrow> ks_state_ok (sw_state sw) \<and> P (sw_state sw) \<and>
     (b \<longrightarrow> ks_state_ok (load_ks_state other (sw_file sw)) \<and> P (load_ks_state other (sw_file sw)))"

lemma change_ok:
  assumes "switch_ok other P b sw" "\<And>s. ks_state_ok s \<Longrightarrow> P s \<Longrightarrow> ks_state_ok (f s) \<and> P (f s)"
  shows "switch_ok other P (file_whole io b) (change_and_persist io f sw)"
proof -
  have new: "ks_state_ok (f (sw_state sw))" "P (f (sw_state sw))" using assms by (auto simp: switch_ok_def)
  then show ?thesis
    using assms(1)
    by (cases io) (simp_all add: switch_ok_def change_and_persist_def Let_def load_persisted, simp_all add: persist_state_def)
qed

text \<open>What no operation of a kind takes away: nothing at all, or, without a resume, the halt.\<close>

definition kept_by :: "ks_op list \<Rightarrow> (ks_state \<Rightarrow> bool) \<Rightarrow> bool" where
  "kept_by ops P \<longleftrightarrow> P = (\<lambda>_. True) \<or> P = ks_halted \<and> list_all (\<lambda>op. \<not> is_resume op) ops"

lemma history_ok:
  assumes "switch_ok other P b sw" "list_all ks_op_ok ops" "restarts_read b ops" "kept_by ops P"
  shows "\<exists>b'. switch_ok other P b' (fold (ks_step other) ops sw)"
  using assms
proof (induction ops arbitrary: sw b)
  case Nil
  then show ?case by auto
next
  case (Cons op ops)
  have rest: "kept_by ops P" using Cons.prems(4) by (auto simp: kept_by_def)
  have "\<exists>b'. switch_ok other P b' (ks_step other op sw) \<and> restarts_read b' ops"
  proof (cases op)
    case Restart
    then show ?thesis using Cons.prems(1,3) by (auto simp: switch_ok_def start_switch_def)
  next
    case (Halt reason now logged io)
    then have "switch_ok other P (file_whole io b) (ks_step other op sw)"
      using Cons.prems(1,2,4)
      by (auto simp: force_halt_def ks_state_ok_iff clock_ok_def kept_by_def intro!: change_ok record_command_ok)
    then show ?thesis using Cons.prems(3) Halt by auto
  next
    case (SafeMode now logged io)
    then have "switch_ok other P (file_whole io b) (ks_step other op sw)"
      using Cons.prems(1,2,4)
      by (auto simp: force_safe_mode_def ks_state_ok_iff clock_ok_def kept_by_def intro!: change_ok record_command_ok)
    then show ?thesis using Cons.prems(3) SafeMode by auto
  next
    case (Resume logged io)
    then have "switch_ok other P (file_whole io b) (ks_step other op sw)"
      using Cons.prems(1,2,4)
      by (auto simp: force_resume_def ks_state_ok_iff clock_ok_def kept_by_def intro!: change_ok record_command_ok)
    then show ?thesis using Cons.prems(3) Resume by auto
  qed
  then show ?case using Cons.IH Cons.prems(2) rest by auto
qed

lemma fresh_switch_ok: "switch_ok other (\<lambda>_. True) True (start_switch other NoStateFile)"
  by (simp add: switch_ok_def start_switch_def load_ks_state_def ks_state_ok_iff default_ks_state_def)

text \<open>
  C33: A halt that was written lasts. After any life of the switch, a forced halt whose state was
  written keeps execution forbidden through every later halt, safe mode and restart of the
  process, until somebody resumes; the later writes may be done, refused or cut off, as long as
  no restart finds the file as a cut-off write has left it. What a restart right after the halt
  reads is the state that was written, to the letter.
\<close>

theorem halt_survives:
  assumes "list_all ks_op_ok before" "restarts_read True before"
    and "list_all ks_op_ok later" "restarts_read True later" "list_all (\<lambda>op. \<not> is_resume op) later"
    and "clock_ok now" "clock_ok logged"
    and "sw = force_halt reason now logged StateWritten (fold (ks_step other) before (start_switch other NoStateFile))"
  shows "\<not> is_execution_allowed (fold (ks_step other) later sw) \<and>
    sw_state (start_switch other (sw_file sw)) = sw_state sw"
proof
  let ?before = "fold (ks_step other) before (start_switch other NoStateFile)"
  obtain b where "switch_ok other (\<lambda>_. True) b ?before"
    using history_ok [OF fresh_switch_ok assms(1,2)] by (auto simp: kept_by_def)
  then have ok: "ks_state_ok (sw_state sw)"
    using assms(6,7) unfolding assms(8)
    by (simp add: switch_ok_def force_halt_def change_and_persist_def Let_def ks_state_ok_iff clock_ok_def record_command_ok)
  have stored: "sw_file sw = persist_state StateWritten (sw_state sw) (sw_file ?before)"
    unfolding assms(8) by (simp add: force_halt_def change_and_persist_def Let_def)
  then have read: "load_ks_state other (sw_file sw) = sw_state sw" using load_persisted [OF ok] by simp
  have "ks_halted (sw_state sw)" unfolding assms(8) by (simp add: force_halt_def change_and_persist_def Let_def)
  then have "switch_ok other ks_halted True sw" using ok read by (simp add: switch_ok_def)
  then obtain b' where "switch_ok other ks_halted b' (fold (ks_step other) later sw)"
    using history_ok [where P = ks_halted, OF _ assms(3,4)] assms(5) by (auto simp: kept_by_def)
  then show "\<not> is_execution_allowed (fold (ks_step other) later sw)"
    by (simp add: switch_ok_def is_execution_allowed_def is_switch_halted_def)
  show "sw_state (start_switch other (sw_file sw)) = sw_state sw" using read by (simp add: start_switch_def)
qed

theorem halt_survives_witness:
  "\<not> is_execution_allowed (fold (ks_step (\<lambda>_. []))
     [SafeMode (Fin 6) (Fin 6) (StateCut BrokenStateFile), SafeMode (Fin 7) (Fin 7) StateWritten, Restart, SafeMode (Fin 8) (Fin 8) StateRefused]
     (force_halt ''drawdown'' (Fin 5) (Fin 5) StateWritten (fold (ks_step (\<lambda>_. [])) [Resume (Fin 4) StateWritten]
       (start_switch (\<lambda>_. []) NoStateFile))))"
  by (rule halt_survives [THEN conjunct1, OF _ _ _ _ _ _ _ refl]) (simp_all add: clock_ok_def fl_double_def is_double_def)

text \<open>
  A state file that cannot be read counts as permission. Whatever the switch was told before, and even if it is
  halted and its halt was written, if the process that writes a halt or a safe mode dies in the middle
  of it, or the file is damaged or removed, the next start allows execution again; and so it does when the write of a halt was
  refused and the file before it held none.
\<close>

theorem unreadable_halt_is_lifted:
  assumes "torn = NoStateFile \<or> torn = BrokenStateFile \<or> (\<exists>text. torn = StateText text \<and> loads dict_hook text = None)"
  shows "is_execution_allowed (start_switch other (sw_file (force_halt reason now logged (StateCut torn) sw))) \<and>
    is_execution_allowed (start_switch other (sw_file (force_safe_mode now logged (StateCut torn) sw))) \<and>
    (is_execution_allowed (start_switch other (sw_file sw)) \<longrightarrow>
      is_execution_allowed (start_switch other (sw_file (force_halt reason now logged StateRefused sw))))"
  using assms
  by (auto simp: start_switch_def force_halt_def force_safe_mode_def change_and_persist_def persist_state_def is_execution_allowed_def
      is_switch_halted_def is_switch_safe_mode_def load_ks_state_def default_ks_state_def Let_def)

theorem unreadable_halt_is_lifted_witness:
  "is_execution_allowed (start_switch (\<lambda>_. []) (sw_file (force_halt ''drawdown'' (Fin 5) (Fin 5)
     (StateCut (StateText ''{'')) (start_switch (\<lambda>_. []) NoStateFile))))"
  by (rule unreadable_halt_is_lifted [THEN conjunct1])
    (simp add: loads_def skip_ws_def is_ws_def parse_value.simps parse_members.simps)

end
