(* ===== verification/HardLimits.thy ===== *)
theory HardLimits
  imports FloatOrder
begin

text \<open>
  \<^verbatim>\<open>src/risk/risk_limits.py\<close>: the absolute limits that are checked before an order is sent. The
  limits are written as the numbers they are; the text of the exception is left out. An amount is a
  float, a count is an int.
\<close>

section \<open>The check\<close>

datatype limit_name =
    MIN_CAPITAL_USD | MAX_ORDER_USD | MAX_ORDER_PCT_CAPITAL | MAX_DRAWDOWN_PCT | PAUSE_DRAWDOWN_PCT
  | MAX_OPEN_POSITIONS | MAX_LEVERAGE | MAX_SYMBOL_EXPOSURE_PCT | MAX_CONSECUTIVE_LOSSES

text \<open>A breach with its value and threshold; the other two are what Python itself may raise.\<close>

datatype limit_error = HardLimitBreached limit_name pyfloat pyfloat | LimitDivision | LimitOverflow

record order_facts =
  of_order_size_usd :: pyfloat
  of_capital_usd :: pyfloat
  of_drawdown_pct :: pyfloat
  of_open_positions :: int
  of_consecutive_losses :: int
  of_leverage :: int
  of_symbol_exposure_usd :: pyfloat

definition percent_of :: "pyfloat \<Rightarrow> pyfloat \<Rightarrow> limit_error + pyfloat" where
  "percent_of x capital = bindE (or_raise LimitDivision (fl_div x capital)) (\<lambda>r. Inr (fl_mul r (Fin 100)))"

definition breach_if :: "bool \<Rightarrow> limit_name \<Rightarrow> pyfloat \<Rightarrow> pyfloat \<Rightarrow> limit_error + unit" where
  "breach_if b name v threshold = raise_if b (HardLimitBreached name v threshold)"

text \<open>A count is reported as a float, and an int may be too large for one.\<close>

definition breach_count :: "bool \<Rightarrow> limit_name \<Rightarrow> int \<Rightarrow> pyfloat \<Rightarrow> limit_error + unit" where
  "breach_count b name n threshold =
     (if b then bindE (or_raise LimitOverflow (float_of_number (VInt n))) (\<lambda>v. Inl (HardLimitBreached name v threshold))
      else Inr ())"

definition check_hard_limits :: "order_facts \<Rightarrow> limit_error + unit" where
  "check_hard_limits f =
     bindE (breach_if (fl_lt (of_capital_usd f) (Fin 500)) MIN_CAPITAL_USD (of_capital_usd f) (Fin 500)) (\<lambda>_.
     bindE (breach_if (fl_lt (Fin 200) (of_order_size_usd f)) MAX_ORDER_USD (of_order_size_usd f) (Fin 200)) (\<lambda>_.
     bindE (percent_of (of_order_size_usd f) (of_capital_usd f)) (\<lambda>order_pct.
     bindE (breach_if (fl_lt (Fin 5) order_pct) MAX_ORDER_PCT_CAPITAL order_pct (Fin 5)) (\<lambda>_.
       let dd = fl_abs (of_drawdown_pct f) in
     bindE (breach_if (fl_le (Fin 20) dd) MAX_DRAWDOWN_PCT dd (Fin 20)) (\<lambda>_.
     bindE (breach_if (fl_le (Fin 10) dd) PAUSE_DRAWDOWN_PCT dd (Fin 10)) (\<lambda>_.
     bindE (breach_count (4 \<le> of_open_positions f) MAX_OPEN_POSITIONS (of_open_positions f) (Fin 4)) (\<lambda>_.
     bindE (breach_count (10 < of_leverage f) MAX_LEVERAGE (of_leverage f) (Fin 10)) (\<lambda>_.
     bindE (percent_of (fl_add (of_symbol_exposure_usd f) (of_order_size_usd f)) (of_capital_usd f)) (\<lambda>symbol_pct.
     bindE (breach_if (fl_lt (Fin 15) symbol_pct) MAX_SYMBOL_EXPOSURE_PCT symbol_pct (Fin 15)) (\<lambda>_.
       breach_count (5 \<le> of_consecutive_losses f) MAX_CONSECUTIVE_LOSSES (of_consecutive_losses f) (Fin 5)))))))))))"

section \<open>What passing means\<close>

lemma breach_simps [simp]:
  "breach_if b n v t = Inr u \<longleftrightarrow> \<not> b" "breach_count b n i t = Inr u \<longleftrightarrow> \<not> b"
  by (auto simp: breach_if_def breach_count_def result_simps)

lemma percent_of_Inr [simp]: "percent_of x c = Inr r \<longleftrightarrow> (\<exists>q. fl_div x c = Some q \<and> r = fl_mul q (Fin 100))"
  by (auto simp: percent_of_def result_simps)

text \<open>
  The computed percentage against the exact one: a limit of \<open>k\<close> per cent is kept by every share
  up to it, and broken by every share from the next float on.
\<close>

lemma share_kept:
  assumes "fl_div (Fin x) (Fin c) = Some q" "0 < c" "100 * x \<le> k * c"
    and "round_double (k / 100) = Fin a" "round_double (a * 100) = Fin k"
  shows "\<not> fl_lt (Fin k) (fl_mul q (Fin 100))"
proof -
  have "x / c \<le> k / 100" using assms(2,3) by (simp add: field_simps)
  from round_double_le [OF this] have "fl_le q (Fin a)" using assms(1,2,4) by simp
  from fl_mul_mono [OF this, of 100] have "fl_le (fl_mul q (Fin 100)) (Fin k)" using assms(5) by simp
  then show ?thesis by (rule fl_le_not_lt)
qed

lemma share_broken:
  assumes "fl_div (Fin x) (Fin c) = Some q" "0 < c" "b * c \<le> x"
    and "round_double b = Fin b" "fl_lt (Fin k) (round_double (b * 100))"
  shows "fl_lt (Fin k) (fl_mul q (Fin 100))"
proof -
  have "b \<le> x / c" using assms(2,3) by (simp add: field_simps)
  from round_double_le [OF this] have "fl_le (Fin b) q" using assms(1,2,4) by simp
  from fl_mul_mono [OF this, of 100] have "fl_le (round_double (b * 100)) (fl_mul q (Fin 100))" by simp
  with assms(5) show ?thesis by (rule fl_lt_le_trans)
qed

lemma five_percent:
  "round_double (5 / 100) = Fin (3602879701896397 / 72057594037927936)"
  "round_double (3602879701896397 / 72057594037927936 * 100) = Fin 5"
  "round_double (3602879701896398 / 72057594037927936) = Fin (3602879701896398 / 72057594037927936)"
  "fl_lt (Fin 5) (round_double (3602879701896398 / 72057594037927936 * 100))"
  by (simp_all add: round_eval float_eval)

lemma fifteen_percent:
  "round_double (15 / 100) = Fin (5404319552844595 / 36028797018963968)"
  "round_double (5404319552844595 / 36028797018963968 * 100) = Fin 15"
  "round_double (5404319552844596 / 36028797018963968) = Fin (5404319552844596 / 36028797018963968)"
  "fl_lt (Fin 15) (round_double (5404319552844596 / 36028797018963968 * 100))"
  by (simp_all add: round_eval float_eval)

lemma five_share:
  assumes "fl_div (Fin x) (Fin c) = Some q" "500 \<le> c"
  shows "20 * x \<le> c \<Longrightarrow> \<not> fl_lt (Fin 5) (fl_mul q (Fin 100))"
    and "\<not> fl_lt (Fin 5) (fl_mul q (Fin 100)) \<Longrightarrow> 20 * x \<le> c * (1 + 1 / 10 ^ 15)"
proof -
  show "\<not> fl_lt (Fin 5) (fl_mul q (Fin 100))" if "20 * x \<le> c"
    using share_kept [OF assms(1) _ _ five_percent(1,2)] that assms(2) by simp
  show "20 * x \<le> c * (1 + 1 / 10 ^ 15)" if "\<not> fl_lt (Fin 5) (fl_mul q (Fin 100))"
  proof (rule ccontr)
    assume "\<not> ?thesis"
    then have "3602879701896398 / 72057594037927936 * c \<le> x" using assms(2) by simp
    with share_broken [OF assms(1) _ _ five_percent(3,4)] that assms(2) show False by simp
  qed
qed

lemma fifteen_share:
  assumes "fl_div (Fin x) (Fin c) = Some q" "500 \<le> c"
  shows "20 * x \<le> 3 * c \<Longrightarrow> \<not> fl_lt (Fin 15) (fl_mul q (Fin 100))"
    and "\<not> fl_lt (Fin 15) (fl_mul q (Fin 100)) \<Longrightarrow> 20 * x \<le> 3 * c * (1 + 1 / 10 ^ 15)"
proof -
  show "\<not> fl_lt (Fin 15) (fl_mul q (Fin 100))" if "20 * x \<le> 3 * c"
    using share_kept [OF assms(1) _ _ fifteen_percent(1,2)] that assms(2) by simp
  show "20 * x \<le> 3 * c * (1 + 1 / 10 ^ 15)" if "\<not> fl_lt (Fin 15) (fl_mul q (Fin 100))"
  proof (rule ccontr)
    assume "\<not> ?thesis"
    then have "5404319552844596 / 36028797018963968 * c \<le> x" using assms(2) by simp
    with share_broken [OF assms(1) _ _ fifteen_percent(3,4)] that assms(2) show False by simp
  qed
qed

lemma limits_pass_iff:
  "check_hard_limits f = Inr () \<longleftrightarrow>
     \<not> fl_lt (of_capital_usd f) (Fin 500) \<and> \<not> fl_lt (Fin 200) (of_order_size_usd f) \<and>
     (\<exists>q. fl_div (of_order_size_usd f) (of_capital_usd f) = Some q \<and> \<not> fl_lt (Fin 5) (fl_mul q (Fin 100))) \<and>
     \<not> fl_le (Fin 20) (fl_abs (of_drawdown_pct f)) \<and> \<not> fl_le (Fin 10) (fl_abs (of_drawdown_pct f)) \<and>
     of_open_positions f < 4 \<and> of_leverage f \<le> 10 \<and> of_consecutive_losses f < 5 \<and>
     (\<exists>q. fl_div (fl_add (of_symbol_exposure_usd f) (of_order_size_usd f)) (of_capital_usd f) = Some q \<and>
        \<not> fl_lt (Fin 15) (fl_mul q (Fin 100)))"
  by (auto simp: check_hard_limits_def Let_def result_simps not_le not_less)

text \<open>
  C34: The hard limits mean what they say, up to one part in ten to the fifteenth. For amounts
  that are numbers, an order that passes has a capital of at least 500, a size of at most 200 and
  of at most five per cent of the capital, a drawdown below ten per cent, fewer than four open
  positions, a leverage of at most ten, fewer than five losses in a row, and with it the symbol
  holds at most fifteen per cent; and an order within these bounds is never refused. The two
  roundings of a percentage are the whole difference.
\<close>

theorem hard_limits_exact:
  assumes "of_capital_usd f = Fin c" "of_order_size_usd f = Fin x" "of_drawdown_pct f = Fin d"
    and "fl_add (of_symbol_exposure_usd f) (of_order_size_usd f) = Fin t"
  shows "(check_hard_limits f = Inr () \<longrightarrow>
      500 \<le> c \<and> x \<le> 200 \<and> 20 * x \<le> c * (1 + 1 / 10 ^ 15) \<and> \<bar>d\<bar> < 10 \<and> of_open_positions f < 4 \<and>
      of_leverage f \<le> 10 \<and> of_consecutive_losses f < 5 \<and> 20 * t \<le> 3 * c * (1 + 1 / 10 ^ 15)) \<and>
    (500 \<le> c \<and> x \<le> 200 \<and> 20 * x \<le> c \<and> \<bar>d\<bar> < 10 \<and> of_open_positions f < 4 \<and>
      of_leverage f \<le> 10 \<and> of_consecutive_losses f < 5 \<and> 20 * t \<le> 3 * c \<longrightarrow> check_hard_limits f = Inr ())"
proof (intro conjI [OF impI impI])
  show "500 \<le> c \<and> x \<le> 200 \<and> 20 * x \<le> c * (1 + 1 / 10 ^ 15) \<and> \<bar>d\<bar> < 10 \<and> of_open_positions f < 4 \<and>
      of_leverage f \<le> 10 \<and> of_consecutive_losses f < 5 \<and> 20 * t \<le> 3 * c * (1 + 1 / 10 ^ 15)"
    if pass: "check_hard_limits f = Inr ()"
  proof -
    have c: "500 \<le> c" and rest: "x \<le> 200" "\<bar>d\<bar> < 10" "of_open_positions f < 4" "of_leverage f \<le> 10"
      "of_consecutive_losses f < 5"
      using pass assms by (simp_all add: limits_pass_iff)
    obtain q r where "fl_div (Fin x) (Fin c) = Some q" "\<not> fl_lt (Fin 5) (fl_mul q (Fin 100))"
      "fl_div (Fin t) (Fin c) = Some r" "\<not> fl_lt (Fin 15) (fl_mul r (Fin 100))"
      using pass assms unfolding limits_pass_iff by metis
    then show ?thesis using five_share(2) [of x c q] fifteen_share(2) [of t c r] c rest by blast
  qed
  show "check_hard_limits f = Inr ()"
    if ok: "500 \<le> c \<and> x \<le> 200 \<and> 20 * x \<le> c \<and> \<bar>d\<bar> < 10 \<and> of_open_positions f < 4 \<and>
      of_leverage f \<le> 10 \<and> of_consecutive_losses f < 5 \<and> 20 * t \<le> 3 * c"
  proof -
    obtain q r where "fl_div (Fin x) (Fin c) = Some q" "fl_div (Fin t) (Fin c) = Some r"
      using ok by simp
    then show ?thesis
      using five_share(1) [of x c q] fifteen_share(1) [of t c r] ok assms by (simp add: limits_pass_iff)
  qed
qed

definition sample_facts :: order_facts where
  "sample_facts = \<lparr>of_order_size_usd = Fin 200, of_capital_usd = Fin 4000, of_drawdown_pct = Fin (- 8), of_open_positions = 3,
     of_consecutive_losses = 4, of_leverage = 10, of_symbol_exposure_usd = Fin 400\<rparr>"

theorem hard_limits_exact_witness:
  "check_hard_limits sample_facts = Inr ()"
  using hard_limits_exact [of sample_facts 4000 200 "- 8" 600] by (simp add: sample_facts_def)

text \<open>
  Amounts that are not numbers pass. With a size that is not a number the absolute size, the
  share of the capital and the concentration on the symbol are all taken as within their limits,
  and with a capital that is not a number no limit on money remains: only the drawdown and the
  counts are checked.
\<close>

theorem nan_amounts_pass:
  assumes "of_order_size_usd f = NaN \<and> (\<exists>c. of_capital_usd f = Fin c \<and> 500 \<le> c) \<or>
      of_capital_usd f = NaN \<and> \<not> fl_lt (Fin 200) (of_order_size_usd f)"
    and "\<not> fl_le (Fin 10) (fl_abs (of_drawdown_pct f))" "of_open_positions f < 4" "of_leverage f \<le> 10"
    and "of_consecutive_losses f < 5"
  shows "check_hard_limits f = Inr ()"
proof -
  have "\<not> fl_le (Fin 20) (fl_abs (of_drawdown_pct f))"
    using assms(2) by (cases "fl_abs (of_drawdown_pct f)") auto
  moreover have "fl_div NaN (Fin c) = Some NaN" if "500 \<le> c" for c using that by (simp add: fl_inf_def)
  moreover have "fl_add x NaN = NaN" "fl_div x NaN = Some NaN" "fl_mul NaN x = NaN" for x
    by (cases x; simp add: fl_inf_def)+
  ultimately show ?thesis using assms by (auto simp: limits_pass_iff)
qed

theorem nan_amounts_pass_witness:
  "check_hard_limits (sample_facts\<lparr>of_order_size_usd := NaN\<rparr>) = Inr () \<and>
   check_hard_limits (sample_facts\<lparr>of_capital_usd := NaN\<rparr>) = Inr ()"
  using nan_amounts_pass [of "sample_facts\<lparr>of_order_size_usd := NaN\<rparr>"]
    nan_amounts_pass [of "sample_facts\<lparr>of_capital_usd := NaN\<rparr>"]
  by (simp add: sample_facts_def)

end
