(* ===== verification/Breaker.thy ===== *)
theory Breaker
  imports FloatOrder
begin

text \<open>
  \<^verbatim>\<open>src/supervision/circuit_breaker_robust.py\<close>: the circuit breaker around a component's calls,
  with its backoff and its spaced attempts to recover, and the registry of breakers. What the
  function does is an argument, its result or that it raised; so is every reading of the clock.
\<close>

section \<open>The breaker\<close>

datatype cb_state = HEALTHY | UNSTABLE | DEGRADED | DISABLED

definition backoff_schedule :: "rat list" where
  "backoff_schedule = [30, 60, 120, 300, 600]"

record 'r breaker =
  cb_state :: cb_state
  cb_failures :: nat
  cb_fallback :: 'r
  cb_last_failure :: pyfloat
  cb_last_recovery :: pyfloat
  cb_backoff_until :: pyfloat

definition new_breaker :: "'r \<Rightarrow> 'r breaker" where
  "new_breaker fallback = \<lparr>cb_state = HEALTHY, cb_failures = 0, cb_fallback = fallback,
     cb_last_failure = Fin 0, cb_last_recovery = Fin 0, cb_backoff_until = Fin 0\<rparr>"

text \<open>The readings of the clock in one call: against the backoff or the anchor, at an attempt, twice at a failure.\<close>

record cb_clock =
  ck_gate :: pyfloat
  ck_recovery :: pyfloat
  ck_failure :: pyfloat
  ck_backoff :: pyfloat

definition on_success :: "'r breaker \<Rightarrow> 'r breaker" where
  "on_success b =
     (let b1 = b\<lparr>cb_failures := cb_failures b - 1, cb_backoff_until := Fin 0\<rparr>
      in if cb_failures b1 = 0 \<and> cb_state b1 \<noteq> HEALTHY then b1\<lparr>cb_state := HEALTHY\<rparr> else b1)"

definition on_failure :: "cb_clock \<Rightarrow> 'r breaker \<Rightarrow> 'r breaker" where
  "on_failure ck b =
     (let n = cb_failures b + 1;
          backoff = backoff_schedule ! min (n - 1) (length backoff_schedule - 1);
          b1 = b\<lparr>cb_failures := n, cb_last_failure := ck_failure ck,
                 cb_backoff_until := fl_add (ck_backoff ck) (Fin backoff)\<rparr>
      in if 10 \<le> n \<and> cb_state b \<noteq> DISABLED then b1\<lparr>cb_state := DISABLED\<rparr>
         else if 5 \<le> n \<and> cb_state b \<notin> {DEGRADED, DISABLED} then b1\<lparr>cb_state := DEGRADED\<rparr>
         else if 2 \<le> n \<and> cb_state b = HEALTHY then b1\<lparr>cb_state := UNSTABLE\<rparr>
         else b1)"

definition recovery_interval :: "cb_state \<Rightarrow> rat" where
  "recovery_interval st = (if st = DEGRADED then 300 else 1800)"

definition should_attempt_recovery :: "cb_clock \<Rightarrow> cb_state \<Rightarrow> 'r breaker \<Rightarrow> bool" where
  "should_attempt_recovery ck st b =
     fl_le (Fin (recovery_interval st)) (fl_sub (ck_gate ck) (fl_max (cb_last_recovery b) (cb_last_failure b)))"

text \<open>The call itself: \<open>None\<close> is an exception.\<close>

definition guarded_call :: "cb_clock \<Rightarrow> 'r option \<Rightarrow> 'r breaker \<Rightarrow> 'r breaker \<times> 'r" where
  "guarded_call ck out b =
     (case out of Some r \<Rightarrow> (on_success b, r) | None \<Rightarrow> (on_failure ck b, cb_fallback b))"

definition try_recovery :: "cb_clock \<Rightarrow> 'r option \<Rightarrow> 'r breaker \<Rightarrow> 'r breaker \<times> 'r" where
  "try_recovery ck out b = guarded_call ck out (b\<lparr>cb_last_recovery := ck_recovery ck\<rparr>)"

definition call_breaker :: "cb_clock \<Rightarrow> 'r option \<Rightarrow> 'r breaker \<Rightarrow> 'r breaker \<times> 'r" where
  "call_breaker ck out b =
     (if cb_state b = DISABLED then
        (if should_attempt_recovery ck DISABLED b then try_recovery ck out b else (b, cb_fallback b))
      else if cb_state b = DEGRADED then
        (if should_attempt_recovery ck DEGRADED b then try_recovery ck out b else (b, cb_fallback b))
      else if cb_state b = UNSTABLE \<and> fl_lt (ck_gate ck) (cb_backoff_until b) then (b, cb_fallback b)
      else guarded_call ck out b)"

definition breaker_is_healthy :: "'r breaker \<Rightarrow> bool" where
  "breaker_is_healthy b \<longleftrightarrow> cb_state b = HEALTHY"

section \<open>The registry\<close>

type_synonym 'r registry = "(string, 'r breaker) dict"

definition get_breaker :: "string \<Rightarrow> 'r \<Rightarrow> 'r registry \<Rightarrow> 'r registry \<times> 'r breaker" where
  "get_breaker name fallback reg =
     (case dict_get reg name of
        Some b \<Rightarrow> (reg, b)
      | None \<Rightarrow> (dict_set reg name (new_breaker fallback), new_breaker fallback))"

definition any_degraded :: "'r registry \<Rightarrow> bool" where
  "any_degraded reg = list_ex (\<lambda>(_, b). cb_state b \<in> {DEGRADED, DISABLED}) reg"

section \<open>Counts and states\<close>

text \<open>How many failures a state stands for.\<close>

fun count_fits :: "cb_state \<Rightarrow> nat \<Rightarrow> bool" where
  "count_fits HEALTHY n = (n \<le> 1)"
| "count_fits UNSTABLE n = (1 \<le> n \<and> n \<le> 4)"
| "count_fits DEGRADED n = (1 \<le> n \<and> n \<le> 9)"
| "count_fits DISABLED n = (1 \<le> n)"

abbreviation breaker_ok :: "'r breaker \<Rightarrow> bool" where
  "breaker_ok b \<equiv> count_fits (cb_state b) (cb_failures b)"

lemma on_success_ok: "breaker_ok b \<Longrightarrow> breaker_ok (on_success b)"
  by (cases "cb_state b") (auto simp: on_success_def Let_def)

lemma on_failure_ok: "breaker_ok b \<Longrightarrow> breaker_ok (on_failure ck b)"
  by (cases "cb_state b") (auto simp: on_failure_def Let_def)

lemma call_ok: "breaker_ok b \<Longrightarrow> breaker_ok (fst (call_breaker ck out b))"
  by (auto simp: call_breaker_def try_recovery_def guarded_call_def on_success_ok on_failure_ok split: option.splits)

definition after_call :: "cb_clock \<times> 'r option \<Rightarrow> 'r breaker \<Rightarrow> 'r breaker" where
  "after_call c b = fst (call_breaker (fst c) (snd c) b)"

interpretation breaker: guarded_machine "\<lambda>b. \<exists>fallback. b = new_breaker fallback" after_call breaker_ok
  by unfold_locales (auto simp: new_breaker_def after_call_def call_ok)

text \<open>
  In every history of calls the state of a breaker fits its count of failures: at most one when
  healthy, one to four when unstable, one to nine when degraded and at least one when disabled;
  so it is healthy whenever no failure is left.
\<close>

theorem breaker_counts:
  "count_fits (cb_state (fold after_call calls (new_breaker fallback))) (cb_failures (fold after_call calls (new_breaker fallback)))"
  by (rule breaker.run_inv) blast

section \<open>The spacing of attempts\<close>

definition suspended :: "'r breaker \<Rightarrow> bool" where
  "suspended b \<longleftrightarrow> cb_state b \<in> {DEGRADED, DISABLED}"

text \<open>Whether a call reaches the function.\<close>

definition reaches :: "cb_clock \<Rightarrow> 'r breaker \<Rightarrow> bool" where
  "reaches ck b = (case cb_state b of
     HEALTHY \<Rightarrow> True
   | UNSTABLE \<Rightarrow> \<not> fl_lt (ck_gate ck) (cb_backoff_until b)
   | st \<Rightarrow> should_attempt_recovery ck st b)"

lemma call_blocked: "\<not> reaches ck b \<Longrightarrow> call_breaker ck out b = (b, cb_fallback b)"
  by (cases "cb_state b") (simp_all add: reaches_def call_breaker_def)

lemma call_reaches:
  "reaches ck b \<Longrightarrow> call_breaker ck out b =
     guarded_call ck out (if suspended b then b\<lparr>cb_last_recovery := ck_recovery ck\<rparr> else b)"
  by (cases "cb_state b") (auto simp: reaches_def call_breaker_def suspended_def try_recovery_def)

lemma guarded_recovery [simp]: "cb_last_recovery (fst (guarded_call ck out b)) = cb_last_recovery b"
  by (simp add: guarded_call_def on_success_def on_failure_def Let_def split: option.splits)

lemma recovery_time:
  "cb_last_recovery (fst (call_breaker ck out b)) =
     (if reaches ck b \<and> suspended b then ck_recovery ck else cb_last_recovery b)"
  by (cases "reaches ck b") (simp_all add: call_reaches call_blocked)

text \<open>The calls between two attempts: none of them is an attempt.\<close>

fun no_attempt :: "(cb_clock \<times> 'r option) list \<Rightarrow> 'r breaker \<Rightarrow> bool" where
  "no_attempt [] b = True"
| "no_attempt (c # cs) b = (\<not> (suspended b \<and> reaches (fst c) b) \<and> no_attempt cs (after_call c b))"

lemma no_attempt_keeps: "no_attempt cs b \<Longrightarrow> cb_last_recovery (fold after_call cs b) = cb_last_recovery b"
  by (induction cs arbitrary: b) (auto simp: after_call_def recovery_time)

text \<open>
  A suspended component is left alone between attempts. After an attempt to recover, whatever
  calls come in between, the next attempt is at least 300 seconds later while the breaker is
  degraded and at least 1800 while it is disabled, counted from the attempt before and from the
  last failure alike.
\<close>

theorem attempts_spaced:
  assumes "suspended b" "reaches ck b" "no_attempt cs (fst (call_breaker ck out b))"
    and "b' = fold after_call cs (fst (call_breaker ck out b))" "suspended b'" "reaches ck' b'"
    and "fl_finite (ck_gate ck')" "fl_finite (ck_recovery ck)" "fl_finite (cb_last_failure b')"
  shows "fl_le (Fin (recovery_interval (cb_state b'))) (fl_sub (ck_gate ck') (ck_recovery ck)) \<and>
    fl_le (Fin (recovery_interval (cb_state b'))) (fl_sub (ck_gate ck') (cb_last_failure b'))"
proof -
  have last: "cb_last_recovery b' = ck_recovery ck"
    using no_attempt_keeps [OF assms(3)] assms(1,2,4) by (simp add: recovery_time)
  have attempt: "should_attempt_recovery ck' (cb_state b') b'"
    using assms(5,6) by (auto simp: suspended_def reaches_def)
  obtain g r f where times: "ck_gate ck' = Fin g" "ck_recovery ck = Fin r" "cb_last_failure b' = Fin f"
    using assms(7-9) by (auto simp: fl_finite_iff)
  have later: "fl_le (fl_sub (Fin g) (fl_max (Fin r) (Fin f))) (fl_sub (Fin g) (Fin x))" if "x = r \<or> x = f" for x
    using that by (auto simp: fl_sub_def fl_max_def intro!: round_double_le)
  show ?thesis
    using attempt last times later [of r] later [of f]
    by (auto simp: should_attempt_recovery_def intro: fl_le_trans)
qed

text \<open>What a call that does not reach the function returns, and one that does.\<close>

lemma call_value:
  "snd (call_breaker ck out b) = (if reaches ck b then (case out of Some r \<Rightarrow> r | None \<Rightarrow> cb_fallback b) else cb_fallback b)"
  by (simp add: call_blocked call_reaches guarded_call_def split: option.splits)

section \<open>The cost of a recovery\<close>

text \<open>Calls that all reach the function and succeed.\<close>

fun all_succeed :: "cb_clock list \<Rightarrow> 'r \<Rightarrow> 'r breaker \<Rightarrow> bool" where
  "all_succeed [] r b = True"
| "all_succeed (ck # cks) r b = (reaches ck b \<and> all_succeed cks r (fst (call_breaker ck (Some r) b)))"

lemma success_step:
  assumes "reaches ck b"
  shows "cb_failures (fst (call_breaker ck (Some r) b)) = cb_failures b - 1"
    "1 < cb_failures b \<Longrightarrow> cb_state (fst (call_breaker ck (Some r) b)) = cb_state b"
    "cb_failures b = 1 \<Longrightarrow> cb_state (fst (call_breaker ck (Some r) b)) = HEALTHY"
  using assms by (auto simp: call_reaches guarded_call_def on_success_def Let_def)

text \<open>
  A recovery costs one spaced success for every failure counted. From a state with \<open>n\<close>
  failures the breaker stays in that state through every success but the last of \<open>n\<close>, and the
  \<open>n\<close>-th makes it healthy. A disabled component with ten failures thus needs ten attempts in a
  row that succeed, half an hour apart, and is not called in between.
\<close>

theorem recovery_cost:
  assumes "all_succeed cks r b" "0 < cb_failures b"
  shows "(length cks < cb_failures b \<longrightarrow> cb_state (fold (\<lambda>ck. after_call (ck, Some r)) cks b) = cb_state b) \<and>
    (length cks = cb_failures b \<longrightarrow> cb_state (fold (\<lambda>ck. after_call (ck, Some r)) cks b) = HEALTHY)"
  using assms
proof (induction cks arbitrary: b)
  case (Cons ck cks)
  have reach: "reaches ck b" and rest: "all_succeed cks r (fst (call_breaker ck (Some r) b))" using Cons.prems(1) by simp_all
  note step = success_step [OF reach, of r]
  show ?case
  proof (cases "cb_failures b = 1")
    case True
    then show ?thesis using step(3) by (cases cks) (simp_all add: after_call_def)
  next
    case False
    then have more: "0 < cb_failures (fst (call_breaker ck (Some r) b))" "1 < cb_failures b"
      using step(1) Cons.prems(2) by linarith+
    have "length (ck # cks) < cb_failures b \<longleftrightarrow> length cks < cb_failures (fst (call_breaker ck (Some r) b))"
      "length (ck # cks) = cb_failures b \<longleftrightarrow> length cks = cb_failures (fst (call_breaker ck (Some r) b))"
      using step(1) more(2) by (simp only: list.size, linarith)+
    then show ?thesis using Cons.IH [OF rest more(1)] step(2) [OF more(2)] by (simp add: after_call_def)
  qed
qed simp

section \<open>A component that fails and recovers\<close>

definition clock_now :: "rat \<Rightarrow> cb_clock" where
  "clock_now t = \<lparr>ck_gate = Fin t, ck_recovery = Fin t, ck_failure = Fin t, ck_backoff = Fin t\<rparr>"

text \<open>Five failures in a row, each after its backoff, and a success after five minutes.\<close>

definition failing :: "rat list \<Rightarrow> bool breaker \<Rightarrow> bool breaker" where
  "failing ts b = fold (\<lambda>t. after_call (clock_now t, None)) ts b"

lemmas breaker_eval = call_breaker_def should_attempt_recovery_def try_recovery_def guarded_call_def on_failure_def
  on_success_def after_call_def clock_now_def recovery_interval_def backoff_schedule_def fl_sub_def fl_max_def Let_def

definition degraded_sample :: "bool breaker" where
  "degraded_sample = failing [1000, 2000, 3000, 4000, 5000] (new_breaker False)"

lemma degraded_sample_eq:
  "degraded_sample = \<lparr>cb_state = DEGRADED, cb_failures = 5, cb_fallback = False, cb_last_failure = Fin 5000,
     cb_last_recovery = Fin 0, cb_backoff_until = Fin 5600\<rparr>"
  by (simp add: degraded_sample_def failing_def new_breaker_def breaker_eval)

theorem attempts_spaced_witness:
  "fl_le (Fin 300) (fl_sub (Fin 6400) (Fin 6000))"
  using attempts_spaced [of degraded_sample "clock_now 6000" "[(clock_now 6200, Some True)]" "Some True"
      "fst (call_breaker (clock_now 6000) (Some True) degraded_sample)" "clock_now 6400"]
  by (simp add: degraded_sample_eq suspended_def reaches_def breaker_eval)

theorem recovery_cost_witness:
  "cb_state (fold (\<lambda>ck. after_call (ck, Some True)) (map clock_now [6000, 7000, 8000, 9000]) degraded_sample) = DEGRADED \<and>
   cb_state (fold (\<lambda>ck. after_call (ck, Some True)) (map clock_now [6000, 7000, 8000, 9000, 9900]) degraded_sample) = HEALTHY"
  using recovery_cost [of "map clock_now [6000, 7000, 8000, 9000]" True degraded_sample]
    recovery_cost [of "map clock_now [6000, 7000, 8000, 9000, 9900]" True degraded_sample]
  by (simp add: degraded_sample_eq reaches_def breaker_eval)

end
