(* ===== verification/StateManager.thy ===== *)
theory StateManager
  imports PyPrelude
begin

text \<open>
  \<^verbatim>\<open>src/system/state_manager.py\<close>: the life of the whole system, the state that the gates of
  \<^verbatim>\<open>src/governance\<close> read. Listeners, whose exceptions are swallowed, and the diagnostics are left
  out; the lock makes every operation atomic. Texts of reasons are kept, for the history.
\<close>

section \<open>States and transitions\<close>

datatype life_state = BOOTING | SYNCING | READY | TRADING | RISK_OFF | DEGRADED | RECOVERY | SHUTDOWN | PANIC

fun life_transitions :: "life_state \<Rightarrow> life_state list" where
  "life_transitions BOOTING = [SYNCING, PANIC, SHUTDOWN]"
| "life_transitions SYNCING = [READY, DEGRADED, PANIC, SHUTDOWN]"
| "life_transitions READY = [TRADING, RISK_OFF, DEGRADED, SHUTDOWN, PANIC]"
| "life_transitions TRADING = [RISK_OFF, DEGRADED, READY, SHUTDOWN, PANIC]"
| "life_transitions RISK_OFF = [READY, TRADING, DEGRADED, RECOVERY, SHUTDOWN, PANIC]"
| "life_transitions DEGRADED = [RECOVERY, RISK_OFF, SHUTDOWN, PANIC]"
| "life_transitions RECOVERY = [READY, DEGRADED, SHUTDOWN, PANIC]"
| "life_transitions SHUTDOWN = []"
| "life_transitions PANIC = [SHUTDOWN]"

definition execution_forbidden :: "life_state list" where
  "execution_forbidden = [BOOTING, SYNCING, RISK_OFF, DEGRADED, RECOVERY, SHUTDOWN, PANIC]"

section \<open>The manager\<close>

record life_step =
  lt_from :: life_state
  lt_to :: life_state
  lt_reason :: string
  lt_at :: pyfloat

record state_manager =
  lm_state :: life_state
  lm_history :: "life_step list"
  lm_entered_at :: pyfloat

definition new_state_manager :: "pyfloat \<Rightarrow> state_manager" where
  "new_state_manager now = \<lparr>lm_state = BOOTING, lm_history = [], lm_entered_at = now\<rparr>"

definition life_trading_allowed :: "state_manager \<Rightarrow> bool" where
  "life_trading_allowed m \<longleftrightarrow> lm_state m = TRADING"

definition life_execution_allowed :: "state_manager \<Rightarrow> bool" where
  "life_execution_allowed m \<longleftrightarrow> lm_state m \<notin> set execution_forbidden"

definition life_is_healthy :: "state_manager \<Rightarrow> bool" where
  "life_is_healthy m \<longleftrightarrow> lm_state m \<in> {READY, TRADING}"

definition move_life :: "life_state \<Rightarrow> string \<Rightarrow> pyfloat \<Rightarrow> pyfloat \<Rightarrow> state_manager \<Rightarrow> state_manager" where
  "move_life st reason now stamp m =
     m\<lparr>lm_state := st, lm_entered_at := now,
       lm_history := lm_history m @ [\<lparr>lt_from = lm_state m, lt_to = st, lt_reason = reason, lt_at = stamp\<rparr>]\<rparr>"

text \<open>\<open>None\<close> is \<^verbatim>\<open>InvalidTransition\<close>, with the state as it was.\<close>

definition life_transition ::
  "life_state \<Rightarrow> string \<Rightarrow> pyfloat \<Rightarrow> pyfloat \<Rightarrow> state_manager \<Rightarrow> state_manager option" where
  "life_transition st reason now stamp m =
     (if st \<notin> set (life_transitions (lm_state m)) then None else Some (move_life st reason now stamp m))"

definition force_panic :: "string \<Rightarrow> pyfloat \<Rightarrow> pyfloat \<Rightarrow> state_manager \<Rightarrow> state_manager" where
  "force_panic = move_life PANIC"

definition try_transition ::
  "life_state \<Rightarrow> string \<Rightarrow> pyfloat \<Rightarrow> pyfloat \<Rightarrow> state_manager \<Rightarrow> state_manager \<times> bool" where
  "try_transition st reason now stamp m =
     (case life_transition st reason now stamp m of Some m' \<Rightarrow> (m', True) | None \<Rightarrow> (m, False))"

section \<open>A life\<close>

datatype life_op = Try life_state string pyfloat pyfloat | Panic string pyfloat pyfloat

fun run_life :: "life_op \<Rightarrow> state_manager \<Rightarrow> state_manager" where
  "run_life (Try st reason now stamp) m = fst (try_transition st reason now stamp m)"
| "run_life (Panic reason now stamp) m = force_panic reason now stamp m"

lemma run_life_cases:
  "run_life op m = m \<or> (\<exists>st reason now stamp. run_life op m = move_life st reason now stamp m \<and>
     (st = PANIC \<or> st \<in> set (life_transitions (lm_state m))))"
  by (cases op) (auto simp: try_transition_def life_transition_def force_panic_def)

text \<open>The history as a path from the start to the current state, each step allowed or a panic.\<close>

fun path_from :: "life_state \<Rightarrow> life_step list \<Rightarrow> life_state \<Rightarrow> bool" where
  "path_from a [] b = (a = b)"
| "path_from a (t # ts) b = (lt_from t = a \<and> (lt_to t = PANIC \<or> lt_to t \<in> set (life_transitions a)) \<and> path_from (lt_to t) ts b)"

lemma path_snoc:
  "path_from a (ts @ [t]) b \<longleftrightarrow>
     path_from a ts (lt_from t) \<and> (lt_to t = PANIC \<or> lt_to t \<in> set (life_transitions (lt_from t))) \<and> lt_to t = b"
  by (induction ts arbitrary: a) auto

definition life_ok :: "state_manager \<Rightarrow> bool" where
  "life_ok m \<longleftrightarrow> path_from BOOTING (lm_history m) (lm_state m)"

interpretation system_life: guarded_machine "\<lambda>m. \<exists>now. m = new_state_manager now" run_life life_ok
proof unfold_locales
  show "life_ok (run_life op m)" if "life_ok m" for op m
    using run_life_cases [of op m] that by (auto simp: life_ok_def move_life_def path_snoc)
qed (auto simp: new_state_manager_def life_ok_def)

text \<open>In the last two states of a life nothing may be executed any more.\<close>

definition life_over :: "life_state \<Rightarrow> bool" where
  "life_over st \<longleftrightarrow> st \<in> {PANIC, SHUTDOWN}"

lemma over_forbids: "life_over (lm_state m) \<Longrightarrow> \<not> life_execution_allowed m"
  by (auto simp: life_over_def life_execution_allowed_def execution_forbidden_def)

lemma run_life_over: "life_over (lm_state m) \<Longrightarrow> life_over (lm_state (run_life op m))"
  using run_life_cases [of op m] by (auto simp: life_over_def move_life_def)

lemma path_over: "path_from a ts b \<Longrightarrow> life_over a \<Longrightarrow> life_over b \<and> list_all (\<lambda>t. life_over (lt_to t)) ts"
proof (induction ts arbitrary: a)
  case (Cons t ts)
  then have "life_over (lt_to t)" by (auto simp: life_over_def)
  with Cons.IH [of "lt_to t"] Cons.prems show ?case by simp
qed simp

text \<open>
  A panic is final. In every life of the system, with transitions that are refused and panics
  forced from anywhere, the history is a path of allowed steps and panics from the start to the
  current state, execution is allowed in the states ready and trading only, and once a panic or
  a shutdown is in the history every later state is a panic or a shutdown, so that nothing is
  executed ever after.
\<close>

theorem panic_is_final:
  assumes "m = fold run_life ops (new_state_manager start)"
  shows "path_from BOOTING (lm_history m) (lm_state m) \<and>
    (life_execution_allowed m \<longleftrightarrow> lm_state m \<in> {READY, TRADING}) \<and>
    ((\<exists>t \<in> set (lm_history m). lt_to t \<in> {PANIC, SHUTDOWN}) \<longrightarrow>
      \<not> life_execution_allowed (fold run_life later m))"
proof (intro conjI impI)
  have path: "path_from BOOTING (lm_history m) (lm_state m)"
    using system_life.run_inv [of "new_state_manager start" ops] assms by (auto simp: life_ok_def)
  then show "path_from BOOTING (lm_history m) (lm_state m)" .
  show "life_execution_allowed m \<longleftrightarrow> lm_state m \<in> {READY, TRADING}"
    by (cases "lm_state m") (simp_all add: life_execution_allowed_def execution_forbidden_def)
  assume "\<exists>t \<in> set (lm_history m). lt_to t \<in> {PANIC, SHUTDOWN}"
  then obtain us t vs where split: "lm_history m = us @ t # vs" and final: "life_over (lt_to t)"
    by (auto simp: life_over_def dest: split_list)
  have "path_from a (us @ t # vs) b \<Longrightarrow> path_from (lt_to t) vs b" for a b us by (induction us arbitrary: a) auto
  with path split final path_over have "life_over (lm_state m)" by metis
  then have "life_over (lm_state (fold run_life later m))"
    by (induction later arbitrary: m) (simp_all add: run_life_over)
  then show "\<not> life_execution_allowed (fold run_life later m)" by (rule over_forbids)
qed

definition sample_life :: "life_op list" where
  "sample_life = [Try SYNCING [] (Fin 1) (Fin 1), Try READY [] (Fin 2) (Fin 2), Try TRADING [] (Fin 3) (Fin 3),
     Panic ''kill'' (Fin 4) (Fin 4), Try TRADING [] (Fin 5) (Fin 5)]"

theorem panic_is_final_witness:
  "\<not> life_execution_allowed (fold run_life [Try READY [] (Fin 6) (Fin 6)] (fold run_life sample_life (new_state_manager (Fin 0))))"
  using panic_is_final [OF refl, of sample_life "Fin 0" "[Try READY [] (Fin 6) (Fin 6)]"]
  by (simp add: sample_life_def new_state_manager_def try_transition_def life_transition_def force_panic_def move_life_def)

end
