(* ===== verification/TradeGates.thy ===== *)
theory TradeGates
  imports StateManager FloatOrder PyText
begin

text \<open>
  The first two gates that a trading decision passes: \<^verbatim>\<open>src/governance/confidence_gate.py\<close> and
  \<^verbatim>\<open>src/governance/risk_authorizer.py\<close>. The state of the system is read from its manager, once
  for a decision. Reason texts become datatypes; metrics are left out. All amounts are floats.
\<close>

section \<open>Confidence\<close>

datatype confidence_level = VERY_LOW | LOW | MEDIUM | HIGH | VERY_HIGH

definition level_from_score :: "pyfloat \<Rightarrow> confidence_level" where
  "level_from_score score =
     (if fl_le (round_double (85 / 100)) score then VERY_HIGH
      else if fl_le (round_double (70 / 100)) score then HIGH
      else if fl_le (round_double (55 / 100)) score then MEDIUM
      else if fl_le (round_double (40 / 100)) score then LOW
      else VERY_LOW)"

text \<open>The threshold of a state, or the default, and the adjustment for a market regime.\<close>

fun state_threshold :: "life_state \<Rightarrow> pyfloat" where
  "state_threshold TRADING = round_double (55 / 100)"
| "state_threshold READY = round_double (60 / 100)"
| "state_threshold RISK_OFF = round_double (80 / 100)"
| "state_threshold DEGRADED = round_double (80 / 100)"
| "state_threshold RECOVERY = round_double (75 / 100)"
| "state_threshold _ = round_double (70 / 100)"

definition regime_adjustment :: "string \<Rightarrow> pyfloat" where
  "regime_adjustment regime =
     (case dict_get [(''trending'', fl_neg (round_double (5 / 100))), (''range'', Fin 0),
        (''volatile'', round_double (10 / 100)), (''unknown'', round_double (5 / 100))] regime of
        Some x \<Rightarrow> x | None \<Rightarrow> Fin 0)"

fun size_multiplier :: "confidence_level \<Rightarrow> pyfloat" where
  "size_multiplier VERY_LOW = Fin 0"
| "size_multiplier LOW = Fin (1 / 4)"
| "size_multiplier MEDIUM = Fin (1 / 2)"
| "size_multiplier HIGH = round_double (80 / 100)"
| "size_multiplier VERY_HIGH = Fin 1"

record gate_result =
  gr_passed :: bool
  gr_level :: confidence_level
  gr_threshold :: pyfloat
  gr_multiplier :: pyfloat

definition confidence_threshold :: "life_state \<Rightarrow> string \<Rightarrow> pyfloat option \<Rightarrow> pyfloat" where
  "confidence_threshold st regime override =
     (case override of
        Some x \<Rightarrow> x
      | None \<Rightarrow> fl_min (fl_max (fl_add (state_threshold st) (regime_adjustment (py_lower regime))) (Fin 0)) (Fin 1))"

definition check_confidence :: "life_state \<Rightarrow> pyfloat \<Rightarrow> string \<Rightarrow> pyfloat option \<Rightarrow> gate_result" where
  "check_confidence st confidence regime override =
     (let level = level_from_score confidence;
          threshold = confidence_threshold st regime override;
          passed = fl_le threshold confidence
      in \<lparr>gr_passed = passed, gr_level = level, gr_threshold = threshold,
          gr_multiplier = (if passed then size_multiplier level else Fin 0)\<rparr>)"

section \<open>Risk\<close>

record risk_context =
  rc_size_usd :: pyfloat
  rc_drawdown :: pyfloat
  rc_daily_pnl :: pyfloat
  rc_exposure :: pyfloat
  rc_leverage :: pyfloat
  rc_volatility :: pyfloat
  rc_correlation :: pyfloat

datatype risk_violation =
    StateForbids life_state | DrawdownOver | DailyLossOver | PositionOver | ExposureOver | LeverageOver
  | VolatilityOver | CorrelationOver

datatype risk_warning = DrawdownNear | DailyLossNear | ExposureNear

record authorization =
  az_approved :: bool
  az_violations :: "risk_violation list"
  az_warnings :: "risk_warning list"
  az_risk_score :: pyfloat

type_synonym risk_limits = "(string, pyfloat) dict"

definition default_risk_limits :: risk_limits where
  "default_risk_limits =
     [(''max_drawdown'', round_double (5 / 100)), (''max_daily_loss_usd'', Fin 500), (''max_position_usd'', Fin 2000),
      (''max_portfolio_exposure'', round_double (80 / 100)), (''max_leverage'', Fin 5),
      (''max_volatility'', round_double (8 / 100)), (''max_correlation'', round_double (80 / 100))]"

fun state_multiplier :: "life_state \<Rightarrow> pyfloat" where
  "state_multiplier RISK_OFF = Fin (1 / 2)"
| "state_multiplier DEGRADED = round_double (60 / 100)"
| "state_multiplier RECOVERY = round_double (70 / 100)"
| "state_multiplier TRADING = Fin 1"
| "state_multiplier READY = round_double (90 / 100)"
| "state_multiplier _ = Fin 1"

definition set_limit :: "string \<Rightarrow> pyfloat \<Rightarrow> risk_limits \<Rightarrow> risk_limits" where
  "set_limit name v limits = dict_set limits name v"

definition get_limit :: "risk_limits \<Rightarrow> life_state \<Rightarrow> string \<Rightarrow> pyfloat" where
  "get_limit limits st name =
     fl_mul (case dict_get limits name of Some v \<Rightarrow> v | None \<Rightarrow> Fin 0) (state_multiplier st)"

text \<open>No divisor is zero: each is at least a positive number, or no number at all.\<close>

definition score_ratio :: "pyfloat \<Rightarrow> pyfloat \<Rightarrow> pyfloat" where
  "score_ratio x y = the (fl_div x y)"

definition compute_risk_score :: "risk_limits \<Rightarrow> life_state \<Rightarrow> risk_context \<Rightarrow> pyfloat" where
  "compute_risk_score limits st ctx =
     (let tiny = round_double (1 / 10 ^ 9);
          scores = [score_ratio (rc_drawdown ctx) (fl_max (get_limit limits st ''max_drawdown'') tiny),
            score_ratio (fl_max (Fin 0) (fl_neg (rc_daily_pnl ctx))) (fl_max (get_limit limits st ''max_daily_loss_usd'') (Fin 1)),
            score_ratio (rc_exposure ctx) (fl_max (get_limit limits st ''max_portfolio_exposure'') tiny),
            score_ratio (rc_leverage ctx) (fl_max (get_limit limits st ''max_leverage'') (Fin 1)),
            score_ratio (rc_volatility ctx) (fl_max (get_limit limits st ''max_volatility'') tiny)]
      in fl_min (fl_max (score_ratio (fl_sum scores) (Fin (of_nat (length scores)))) (Fin 0)) (Fin 1))"

text \<open>The checks in their order; each adds a violation, or a warning short of it.\<close>

definition risk_violations :: "risk_limits \<Rightarrow> life_state \<Rightarrow> risk_context \<Rightarrow> risk_violation list" where
  "risk_violations limits st ctx =
     (let limit = get_limit limits st; max_vol = limit ''max_volatility''; max_corr = limit ''max_correlation''
      in (if fl_le (limit ''max_drawdown'') (rc_drawdown ctx) then [DrawdownOver] else []) @
         (if fl_le (rc_daily_pnl ctx) (fl_neg (limit ''max_daily_loss_usd'')) then [DailyLossOver] else []) @
         (if fl_lt (limit ''max_position_usd'') (rc_size_usd ctx) then [PositionOver] else []) @
         (if fl_le (limit ''max_portfolio_exposure'') (rc_exposure ctx) then [ExposureOver] else []) @
         (if fl_lt (limit ''max_leverage'') (rc_leverage ctx) then [LeverageOver] else []) @
         (if fl_lt (Fin 0) max_vol \<and> fl_lt max_vol (rc_volatility ctx) then [VolatilityOver] else []) @
         (if fl_lt (Fin 0) max_corr \<and> fl_lt max_corr (rc_correlation ctx) then [CorrelationOver] else []))"

definition risk_warnings :: "risk_limits \<Rightarrow> life_state \<Rightarrow> risk_context \<Rightarrow> risk_warning list" where
  "risk_warnings limits st ctx =
     (let limit = get_limit limits st; max_dd = limit ''max_drawdown''; max_loss = limit ''max_daily_loss_usd'';
          max_exp = limit ''max_portfolio_exposure''
      in (if \<not> fl_le max_dd (rc_drawdown ctx) \<and> fl_le (fl_mul max_dd (round_double (85 / 100))) (rc_drawdown ctx)
          then [DrawdownNear] else []) @
         (if \<not> fl_le (rc_daily_pnl ctx) (fl_neg max_loss) \<and>
             fl_le (rc_daily_pnl ctx) (fl_mul (fl_neg max_loss) (round_double (80 / 100)))
          then [DailyLossNear] else []) @
         (if \<not> fl_le max_exp (rc_exposure ctx) \<and> fl_le (fl_mul max_exp (round_double (90 / 100))) (rc_exposure ctx)
          then [ExposureNear] else []))"

definition authorize_risk :: "risk_limits \<Rightarrow> life_state \<Rightarrow> risk_context \<Rightarrow> authorization" where
  "authorize_risk limits st ctx =
     (if st \<in> set execution_forbidden then
        \<lparr>az_approved = False, az_violations = [StateForbids st], az_warnings = [], az_risk_score = Fin 0\<rparr>
      else let violations = risk_violations limits st ctx
           in \<lparr>az_approved = (violations = []), az_violations = violations, az_warnings = risk_warnings limits st ctx,
               az_risk_score = compute_risk_score limits st ctx\<rparr>)"

section \<open>What the gates let pass\<close>

lemma nan_compare [simp]: "\<not> fl_lt x NaN" "\<not> fl_le x NaN"
  by (cases x; simp)+

lemma gate_passed:
  assumes "gr_passed (check_confidence st c regime override)"
  shows "fl_le (confidence_threshold st regime override) c"
    "gr_multiplier (check_confidence st c regime override) = size_multiplier (level_from_score c)"
  using assms by (simp_all add: check_confidence_def Let_def)

lemma authorized_iff:
  "az_approved (authorize_risk limits st ctx) \<longleftrightarrow> st \<in> {READY, TRADING} \<and> risk_violations limits st ctx = []"
  by (cases st) (simp_all add: authorize_risk_def execution_forbidden_def Let_def)

lemma fl_max_positive: "0 < t \<Longrightarrow> fl_max x (Fin t) \<noteq> Fin 0"
  by (cases x) (auto simp: fl_max_def)

lemma fl_div_defined: "y \<noteq> Fin 0 \<Longrightarrow> \<exists>z. fl_div x y = Some z"
  by (cases x; cases y) auto

lemma score_defined: "0 < t \<Longrightarrow> fl_div x (fl_max y (Fin t)) = Some (score_ratio x (fl_max y (Fin t)))"
  using fl_div_defined [OF fl_max_positive, of t x y] by (auto simp: score_ratio_def)

text \<open>In the normal state the limits are the ones that were set.\<close>

lemma trading_limits:
  "get_limit default_risk_limits TRADING ''max_drawdown'' = round_double (5 / 100)"
  "get_limit default_risk_limits TRADING ''max_daily_loss_usd'' = Fin 500"
  "get_limit default_risk_limits TRADING ''max_position_usd'' = Fin 2000"
  "get_limit default_risk_limits TRADING ''max_portfolio_exposure'' = round_double (80 / 100)"
  "get_limit default_risk_limits TRADING ''max_leverage'' = Fin 5"
  "get_limit default_risk_limits TRADING ''max_volatility'' = round_double (8 / 100)"
  "get_limit default_risk_limits TRADING ''max_correlation'' = round_double (80 / 100)"
  by (simp_all add: get_limit_def default_risk_limits_def round_eval float_eval)

lemma gate_constants:
  "round_double (1 / 20) = Fin (3602879701896397 / 72057594037927936)"
  "round_double (2 / 25) = Fin (5764607523034235 / 72057594037927936)"
  "round_double (1 / 10) = Fin (3602879701896397 / 36028797018963968)"
  "round_double (2 / 5) = Fin (3602879701896397 / 9007199254740992)"
  "round_double (11 / 20) = Fin (2476979795053773 / 4503599627370496)"
  "round_double (7 / 10) = Fin (3152519739159347 / 4503599627370496)"
  "round_double (4 / 5) = Fin (3602879701896397 / 4503599627370496)"
  "round_double (17 / 20) = Fin (7656119366529843 / 9007199254740992)"
  by (simp_all add: round_eval float_eval)

text \<open>While trading the threshold is between a half and one, whatever the regime.\<close>

lemma trading_threshold:
  "fl_le (Fin (1 / 2)) (confidence_threshold TRADING regime None) \<and> fl_le (confidence_threshold TRADING regime None) (Fin 1)"
proof -
  let ?adj = "regime_adjustment (py_lower regime)"
  have "?adj \<in> {fl_neg (round_double (5 / 100)), Fin 0, round_double (10 / 100), round_double (5 / 100)}"
    by (simp add: regime_adjustment_def)
  then have "fl_le (Fin (1 / 2)) (fl_add (state_threshold TRADING) ?adj)"
    by (elim insertE emptyE) (simp_all add: gate_constants, (simp add: round_eval float_eval)+)
  then show ?thesis
    by (cases "fl_add (state_threshold TRADING) ?adj") (auto simp: confidence_threshold_def fl_max_def fl_min_def)
qed

end
