(* ===== verification/ExecutionApproval.thy ===== *)
theory ExecutionApproval
  imports TradeGates WarmupSigner
begin

text \<open>
  \<^verbatim>\<open>src/governance/execution_approval.py\<close>: the last gate before an order: the operator's veto, the
  state of the system, the refusal of duplicates and the limit on approvals per minute. The lock
  makes each operation atomic; metrics are left out. The fingerprint of a request is written
  out, with Python's format of a float to two decimals.
\<close>

section \<open>Requests\<close>

record approval_request =
  aq_trace :: string
  aq_symbol :: string
  aq_side :: string
  aq_size_usd :: pyfloat
  aq_confidence :: pyfloat
  aq_risk_score :: pyfloat
  aq_gate_passed :: bool
  aq_risk_passed :: bool
  aq_strategy :: string

datatype approval_refusal =
    Vetoed string | NotTrading life_state | GateNotPassed | RiskNotPassed | DuplicateSignal | RateLimited
  | InvalidSize | InvalidSide

record approval_decision =
  ad_trace :: string
  ad_refusal :: "approval_refusal option"

definition ad_approved :: "approval_decision \<Rightarrow> bool" where
  "ad_approved d \<longleftrightarrow> ad_refusal d = None"

text \<open>The format \<^verbatim>\<open>.2f\<close>: the exact value to two decimals, ties to even.\<close>

fun two_decimals :: "pyfloat \<Rightarrow> string" where
  "two_decimals (Fin a) =
     (let n = nat (round_even (\<bar>a\<bar> * 100))
      in (if a < 0 then ''-'' else []) @ show_nat (n div 100) @ ''.'' @ [digit_char (n div 10 mod 10), digit_char (n mod 10)])"
| "two_decimals PosInf = ''inf''"
| "two_decimals NegInf = ''-inf''"
| "two_decimals NaN = ''nan''"

definition fingerprint :: "approval_request \<Rightarrow> string" where
  "fingerprint req = sha256_hex (utf8 (aq_symbol req @ ''|'' @ aq_side req @ ''|'' @ two_decimals (aq_size_usd req) @ ''|'' @
     aq_strategy req))"

section \<open>The gate\<close>

definition max_per_minute :: nat where
  "max_per_minute = 30"

definition dedup_ttl :: pyfloat where
  "dedup_ttl = Fin 10"

record approval =
  ap_veto :: bool
  ap_veto_reason :: string
  ap_timestamps :: "pyfloat list"
  ap_fingerprints :: "(string, pyfloat) dict"
  ap_approved :: nat
  ap_rejected :: nat

definition new_approval :: approval where
  "new_approval = \<lparr>ap_veto = False, ap_veto_reason = [], ap_timestamps = [], ap_fingerprints = [],
     ap_approved = 0, ap_rejected = 0\<rparr>"

definition activate_veto :: "string \<Rightarrow> approval \<Rightarrow> approval" where
  "activate_veto reason s = s\<lparr>ap_veto := True, ap_veto_reason := reason\<rparr>"

definition deactivate_veto :: "approval \<Rightarrow> approval" where
  "deactivate_veto s = s\<lparr>ap_veto := False, ap_veto_reason := []\<rparr>"

definition evict_stale_fingerprints :: "pyfloat \<Rightarrow> approval \<Rightarrow> approval" where
  "evict_stale_fingerprints now s =
     s\<lparr>ap_fingerprints := filter (\<lambda>(_, expires). \<not> fl_lt expires now) (ap_fingerprints s)\<rparr>"

definition evict_old_approvals :: "pyfloat \<Rightarrow> approval \<Rightarrow> approval" where
  "evict_old_approvals now s =
     s\<lparr>ap_timestamps := dropWhile (\<lambda>t. fl_lt t (fl_sub now (Fin 60))) (ap_timestamps s)\<rparr>"

text \<open>The checks from the fingerprint on: they leave it behind whatever they decide.\<close>

definition check_admission :: "pyfloat \<Rightarrow> approval_request \<Rightarrow> approval \<Rightarrow> approval \<times> approval_refusal option" where
  "check_admission now req s =
     (let s1 = evict_stale_fingerprints now s
      in if dict_has (ap_fingerprints s1) (fingerprint req) then (s1, Some DuplicateSignal)
         else let s2 = evict_old_approvals now
                    (s1\<lparr>ap_fingerprints := dict_set (ap_fingerprints s1) (fingerprint req) (fl_add now dedup_ttl)\<rparr>)
              in (s2, if max_per_minute \<le> length (ap_timestamps s2) then Some RateLimited
                      else if fl_le (aq_size_usd req) (Fin 0) then Some InvalidSize
                      else if aq_side req \<notin> {''long'', ''short''} then Some InvalidSide
                      else None))"

definition evaluate_request ::
  "life_state \<Rightarrow> pyfloat \<Rightarrow> approval_request \<Rightarrow> approval \<Rightarrow> approval \<times> approval_refusal option" where
  "evaluate_request st now req s =
     (if ap_veto s then (s, Some (Vetoed (ap_veto_reason s)))
      else if st \<noteq> TRADING then (s, Some (NotTrading st))
      else if \<not> aq_gate_passed req then (s, Some GateNotPassed)
      else if \<not> aq_risk_passed req then (s, Some RiskNotPassed)
      else check_admission now req s)"

definition request_approval ::
  "life_state \<Rightarrow> pyfloat \<Rightarrow> pyfloat \<Rightarrow> approval_request \<Rightarrow> approval \<Rightarrow> approval \<times> approval_decision" where
  "request_approval st now stamp req s =
     (case evaluate_request st now req s of
        (s', None) \<Rightarrow> (s'\<lparr>ap_approved := ap_approved s' + 1, ap_timestamps := ap_timestamps s' @ [stamp]\<rparr>,
                       \<lparr>ad_trace = aq_trace req, ad_refusal = None\<rparr>)
      | (s', Some r) \<Rightarrow> (s'\<lparr>ap_rejected := ap_rejected s' + 1\<rparr>, \<lparr>ad_trace = aq_trace req, ad_refusal = Some r\<rparr>))"

text \<open>\<^verbatim>\<open>snapshot\<close> also drops the approvals that are older than a minute.\<close>

definition approval_snapshot :: "pyfloat \<Rightarrow> approval \<Rightarrow> approval \<times> nat" where
  "approval_snapshot now s = (let s' = evict_old_approvals now s in (s', length (ap_timestamps s')))"

section \<open>Histories\<close>

datatype approval_op =
    Request life_state pyfloat pyfloat approval_request
  | Veto string | LiftVeto | Snapshot pyfloat

fun run_approval :: "approval_op \<Rightarrow> approval \<Rightarrow> approval" where
  "run_approval (Request st now stamp req) s = fst (request_approval st now stamp req s)"
| "run_approval (Veto reason) s = activate_veto reason s"
| "run_approval LiftVeto s = deactivate_veto s"
| "run_approval (Snapshot now) s = fst (approval_snapshot now s)"

text \<open>The readings of the clock in their order, and the moments of the approvals.\<close>

fun readings :: "approval_op \<Rightarrow> pyfloat list" where
  "readings (Request st now stamp req) = [now, stamp]"
| "readings (Snapshot now) = [now]"
| "readings _ = []"

fun approvals :: "approval_op list \<Rightarrow> approval \<Rightarrow> pyfloat list" where
  "approvals [] s = []"
| "approvals (op # ops) s =
     (case op of
        Request st now stamp req \<Rightarrow> if ad_approved (snd (request_approval st now stamp req s)) then [stamp] else []
      | _ \<Rightarrow> []) @ approvals ops (run_approval op s)"

text \<open>A clock that does not go back.\<close>

definition steady :: "approval_op list \<Rightarrow> bool" where
  "steady ops \<longleftrightarrow> sorted_wrt fl_le (concat (map readings ops)) \<and> list_all fl_finite (concat (map readings ops))"

lemma steady_Cons:
  "steady (op # ops) \<Longrightarrow> steady ops \<and> steady [op] \<and> (\<forall>x \<in> set (readings op). \<forall>y \<in> set (concat (map readings ops)). fl_le x y)"
  by (auto simp: steady_def sorted_wrt_append)

lemma approvals_append: "approvals (xs @ ys) s = approvals xs s @ approvals ys (fold run_approval xs s)"
  by (induction xs arbitrary: s) simp_all

lemma run_counts: "ap_approved (fold run_approval ops s) = ap_approved s + length (approvals ops s)"
proof (induction ops arbitrary: s)
  case (Cons op ops)
  have "ap_approved (run_approval op s) = ap_approved s + (case op of
      Request st now stamp req \<Rightarrow> if ad_approved (snd (request_approval st now stamp req s)) then 1 else 0 | _ \<Rightarrow> 0)"
    by (cases op) (auto simp: request_approval_def evaluate_request_def check_admission_def activate_veto_def deactivate_veto_def
        approval_snapshot_def evict_old_approvals_def evict_stale_fingerprints_def ad_approved_def Let_def split: prod.splits option.splits)
  then show ?case using Cons by (simp split: approval_op.splits)
qed simp

section \<open>At most thirty approvals a minute\<close>

text \<open>
  What is in the window: the latest approvals, all but some first ones, each of which is more than
  a minute before the last reading of the clock.
\<close>

definition window_ok :: "pyfloat list \<Rightarrow> pyfloat \<Rightarrow> approval \<Rightarrow> bool" where
  "window_ok A r s \<longleftrightarrow> (\<exists>k \<le> length A. ap_timestamps s = drop k A \<and> (\<forall>i < k. fl_lt (A ! i) (fl_sub r (Fin 60))))"

lemma window_later: "window_ok A r s \<Longrightarrow> fl_le r r' \<Longrightarrow> window_ok A r' s"
proof -
  assume win: "window_ok A r s" and le: "fl_le r r'"
  have "fl_le (fl_sub r (Fin 60)) (fl_sub r' (Fin 60))" using le by (rule fl_sub_mono) simp
  then have "fl_lt x (fl_sub r (Fin 60)) \<Longrightarrow> fl_lt x (fl_sub r' (Fin 60))" for x by (rule fl_lt_le_trans [rotated])
  with win show ?thesis unfolding window_ok_def by blast
qed

lemma window_evict:
  assumes "window_ok A r s" "fl_le r now"
  shows "window_ok A now (evict_old_approvals now s)"
proof -
  obtain k where k: "k \<le> length A" "ap_timestamps s = drop k A" "\<forall>i < k. fl_lt (A ! i) (fl_sub now (Fin 60))"
    using window_later [OF assms] by (auto simp: window_ok_def)
  define old where "old = takeWhile (\<lambda>t. fl_lt t (fl_sub now (Fin 60))) (drop k A)"
  have "dropWhile (\<lambda>t. fl_lt t (fl_sub now (Fin 60))) (drop k A) = drop (k + length old) A"
    unfolding old_def by (simp add: dropWhile_eq_drop add.commute)
  moreover have len: "length old \<le> length A - k"
    using length_takeWhile_le [of _ "drop k A"] unfolding old_def by simp
  moreover have "fl_lt (A ! i) (fl_sub now (Fin 60))" if "i < k + length old" for i
  proof (cases "i < k")
    case False
    then have "i - k < length old" using that by simp
    then have "old ! (i - k) \<in> set old" by (rule nth_mem)
    moreover have "old ! (i - k) = A ! i"
      using \<open>i - k < length old\<close> False k(1) unfolding old_def by (simp add: takeWhile_nth)
    ultimately show ?thesis using set_takeWhileD [of "A ! i"] unfolding old_def by metis
  qed (use k(3) in simp)
  ultimately show ?thesis using k by (auto simp: window_ok_def evict_old_approvals_def intro!: exI [of _ "k + length old"])
qed

text \<open>No approval is within a minute of the thirtieth before it.\<close>

definition minute_apart :: "pyfloat list \<Rightarrow> bool" where
  "minute_apart A \<longleftrightarrow> (\<forall>i. i + max_per_minute < length A \<longrightarrow> fl_lt (A ! i) (fl_sub (A ! (i + max_per_minute)) (Fin 60)))"

lemma minute_apart_snoc:
  assumes "minute_apart A" "\<And>i. i + max_per_minute = length A \<Longrightarrow> fl_lt (A ! i) (fl_sub t (Fin 60))"
  shows "minute_apart (A @ [t])"
  unfolding minute_apart_def
proof (intro allI impI)
  fix i assume "i + max_per_minute < length (A @ [t])"
  then consider "i + max_per_minute < length A" | "i + max_per_minute = length A" by fastforce
  then show "fl_lt ((A @ [t]) ! i) (fl_sub ((A @ [t]) ! (i + max_per_minute)) (Fin 60))"
  proof cases
    case 1
    then show ?thesis using assms(1) by (simp add: minute_apart_def nth_append)
  next
    case 2
    then show ?thesis using assms(2) [OF 2] by (simp add: nth_append max_per_minute_def)
  qed
qed

lemma request_window:
  assumes win: "window_ok A r s" and apart: "minute_apart A" and now: "fl_le r now" "fl_le now stamp"
    and run: "request_approval st now stamp req s = (t, d)"
  shows "window_ok (A @ (if ad_approved d then [stamp] else [])) stamp t \<and>
    minute_apart (A @ (if ad_approved d then [stamp] else []))"
proof -
  obtain u refusal where eval: "evaluate_request st now req s = (u, refusal)" by fastforce
  have kept: "ap_timestamps u = ap_timestamps s \<or> ap_timestamps u = ap_timestamps (evict_old_approvals now s)"
    using eval by (auto simp: evaluate_request_def check_admission_def Let_def evict_stale_fingerprints_def evict_old_approvals_def
        split: if_splits)
  have shape: "window_ok A now u"
    using kept window_evict [OF win now(1)] window_later [OF win now(1)] by (auto simp: window_ok_def)
  show ?thesis
  proof (cases refusal)
    case (Some x)
    then have "ap_timestamps t = ap_timestamps u" "\<not> ad_approved d"
      using run eval by (auto simp: request_approval_def ad_approved_def)
    then show ?thesis using window_later [OF shape now(2)] apart by (simp add: window_ok_def)
  next
    case None
    then have t: "ap_timestamps t = ap_timestamps u @ [stamp]" and d: "ad_approved d"
      using run eval by (auto simp: request_approval_def ad_approved_def)
    have few: "length (ap_timestamps u) < max_per_minute"
      using eval None by (auto simp: evaluate_request_def check_admission_def Let_def split: if_splits)
    obtain k where k: "k \<le> length A" "ap_timestamps u = drop k A" "\<forall>i < k. fl_lt (A ! i) (fl_sub stamp (Fin 60))"
      using window_later [OF shape now(2)] by (auto simp: window_ok_def)
    have "window_ok (A @ [stamp]) stamp t"
      using k t by (auto simp: window_ok_def nth_append intro!: exI [of _ k])
    moreover have "minute_apart (A @ [stamp])"
    proof (rule minute_apart_snoc [OF apart])
      fix i assume "i + max_per_minute = length A"
      then have "i < k" using few k(1,2) by auto
      then show "fl_lt (A ! i) (fl_sub stamp (Fin 60))" using k(3) by simp
    qed
    ultimately show ?thesis using d by simp
  qed
qed

lemma history_apart:
  assumes "steady ops" "\<forall>x \<in> set (concat (map readings ops)). fl_le r x" "window_ok A r s" "minute_apart A"
  shows "minute_apart (A @ approvals ops s)"
  using assms
proof (induction ops arbitrary: r A s)
  case (Cons op ops)
  note rest = steady_Cons [OF Cons.prems(1)]
  show ?case
  proof (cases op)
    case (Request st now stamp req)
    obtain t d where run: "request_approval st now stamp req s = (t, d)" by fastforce
    have "fl_le r now" "fl_le now stamp" using Cons.prems(2) rest Request by (auto simp: steady_def)
    from request_window [OF Cons.prems(3,4) this run] rest Cons.IH [of stamp _ t] show ?thesis
      using Request run by (simp add: append_assoc [symmetric] del: append_assoc)
  next
    case (Snapshot now)
    have "window_ok A now (evict_old_approvals now s)"
      using Cons.prems(2,3) Snapshot by (intro window_evict) auto
    then show ?thesis using Cons.IH [of now A] rest Cons.prems(4) Snapshot by (simp add: approval_snapshot_def Let_def)
  qed (use Cons in \<open>simp_all add: activate_veto_def deactivate_veto_def window_ok_def steady_Cons\<close>)
qed simp

text \<open>
  C32: However the requests, vetoes and readings come, and with a clock that does not go back, no
  more than thirty orders are approved within a minute: each approval comes more than sixty
  seconds after the thirtieth before it, as the clock and its rounding tell it. The counter of
  approvals is the number of them.
\<close>

theorem approvals_limited:
  assumes "steady ops" "i + max_per_minute < length (approvals ops new_approval)"
  shows "fl_lt (approvals ops new_approval ! i) (fl_sub (approvals ops new_approval ! (i + max_per_minute)) (Fin 60)) \<and>
    ap_approved (fold run_approval ops new_approval) = length (approvals ops new_approval)"
proof -
  have "fl_le NegInf x" if "fl_finite x" for x using that by (cases x) simp_all
  then have "\<forall>x \<in> set (concat (map readings ops)). fl_le NegInf x"
    using assms(1) by (auto simp: steady_def list_all_iff)
  moreover have "window_ok [] NegInf new_approval" by (simp add: window_ok_def new_approval_def)
  moreover have "minute_apart []" by (simp add: minute_apart_def)
  ultimately have "minute_apart (approvals ops new_approval)" using history_apart [OF assms(1)] by fastforce
  then show ?thesis using assms(2) run_counts [of ops new_approval] by (simp add: minute_apart_def new_approval_def)
qed

section \<open>No duplicates\<close>

lemma keys_filter: "dict_has (filter P d) k \<Longrightarrow> dict_has d k"
  by auto

text \<open>A fingerprint stays until a reading beyond its time, and while it is there it refuses.\<close>

definition remembers :: "string \<Rightarrow> pyfloat \<Rightarrow> approval \<Rightarrow> bool" where
  "remembers fp e s \<longleftrightarrow> (fp, e) \<in> set (ap_fingerprints s)"

lemma evict_remembers:
  "remembers fp e s \<Longrightarrow> \<not> fl_lt e now \<Longrightarrow> remembers fp e (evict_stale_fingerprints now s)"
  by (simp add: remembers_def evict_stale_fingerprints_def)

lemma set_remembers:
  "(fp, e) \<in> set d \<Longrightarrow> k \<noteq> fp \<Longrightarrow> (fp, e) \<in> set (dict_set d k v)"
  by (induction d) (auto simp: dict_set_def)

lemma request_remembers:
  assumes "remembers fp e s" "\<not> fl_lt e now"
  shows "remembers fp e (fst (request_approval st now stamp req s))"
    "fingerprint req = fp \<Longrightarrow> \<not> ad_approved (snd (request_approval st now stamp req s))"
proof -
  let ?s = "evict_stale_fingerprints now s"
  have mem: "(fp, e) \<in> set (ap_fingerprints ?s)" using evict_remembers [OF assms] by (simp add: remembers_def)
  then have has: "dict_has (ap_fingerprints ?s) fp" by force
  have "(fp, e) \<in> set (dict_set (ap_fingerprints ?s) (fingerprint req) v)"
    if "\<not> dict_has (ap_fingerprints ?s) (fingerprint req)" for v
    using that has by (intro set_remembers [OF mem]) auto
  then show "remembers fp e (fst (request_approval st now stamp req s))"
    using assms(1) mem
    by (auto simp: request_approval_def evaluate_request_def check_admission_def Let_def remembers_def evict_old_approvals_def
        split: option.splits prod.splits if_splits)
  show "\<not> ad_approved (snd (request_approval st now stamp req s))" if "fingerprint req = fp"
    using that has by (auto simp: request_approval_def evaluate_request_def check_admission_def Let_def ad_approved_def
        split: option.splits prod.splits if_splits)
qed

lemma history_remembers:
  assumes "remembers fp e s" "\<forall>x \<in> set (concat (map readings ops)). \<not> fl_lt e x"
  shows "remembers fp e (fold run_approval ops s)"
  using assms
proof (induction ops arbitrary: s)
  case (Cons op ops)
  have "remembers fp e (run_approval op s)"
    using Cons.prems by (cases op) (auto simp: request_remembers(1), auto simp: remembers_def activate_veto_def deactivate_veto_def
        approval_snapshot_def evict_old_approvals_def Let_def)
  then show ?case using Cons by simp
qed simp

text \<open>
  The same signal is not approved twice within ten seconds. Once a request has been approved,
  no request with its fingerprint, that is of the same symbol, side, strategy and size to the
  cent, is approved until the clock has gone more than ten seconds further, whatever happens in
  between.
\<close>

theorem no_duplicate_approval:
  assumes "request_approval st now stamp req s = (t, d)" "ad_approved d"
    and "\<forall>x \<in> set (concat (map readings ops)). \<not> fl_lt (fl_add now dedup_ttl) x"
    and "fingerprint req' = fingerprint req" "\<not> fl_lt (fl_add now dedup_ttl) now'"
  shows "\<not> ad_approved (snd (request_approval st' now' stamp' req' (fold run_approval ops t)))"
proof -
  have "evaluate_request st now req s = (u, None) \<Longrightarrow> remembers (fingerprint req) (fl_add now dedup_ttl) u" for u
    using dict_keys_set
    by (auto simp: evaluate_request_def check_admission_def Let_def remembers_def evict_old_approvals_def dict_set_fresh
        split: if_splits)
  then have "remembers (fingerprint req) (fl_add now dedup_ttl) t"
    using assms(1,2) by (auto simp: request_approval_def ad_approved_def remembers_def split: prod.splits option.splits)
  from history_remembers [OF this assms(3)] show ?thesis
    using request_remembers(2) [OF _ assms(5)] assms(4) by simp
qed

section \<open>Concrete requests\<close>

definition sample_request :: approval_request where
  "sample_request = \<lparr>aq_trace = ''t1'', aq_symbol = ''BTC'', aq_side = ''long'', aq_size_usd = Fin 500, aq_confidence = Fin (3 / 4),
     aq_risk_score = Fin 0, aq_gate_passed = True, aq_risk_passed = True, aq_strategy = ''m''\<rparr>"

text \<open>The same request every hundred seconds: each time the fingerprint and the window are gone.\<close>

definition spaced :: "nat \<Rightarrow> approval_op" where
  "spaced i = Request TRADING (Fin (of_int (1000 + 100 * int i))) (Fin (of_int (1000 + 100 * int i))) sample_request"

lemma exact_sum:
  assumes "\<bar>a + b\<bar> \<le> 2 ^ 53"
  shows "fl_add (Fin (of_int a)) (Fin (of_int b)) = Fin (of_int (a + b))"
proof -
  have "round_double (of_int (a + b)) = Fin (of_int (a + b))"
    using is_double_of_int [OF assms] unfolding is_double_def .
  then show ?thesis unfolding fl_add.simps of_int_add .
qed

definition after_spaced :: "nat \<Rightarrow> approval" where
  "after_spaced n = \<lparr>ap_veto = False, ap_veto_reason = [], ap_timestamps = [Fin (of_int (1000 + 100 * int n))],
     ap_fingerprints = [(fingerprint sample_request, Fin (of_int (1010 + 100 * int n)))], ap_approved = Suc n, ap_rejected = 0\<rparr>"

lemma spaced_sums:
  assumes "i \<le> 30"
  shows "fl_add (Fin (1000 + 100 * of_nat i)) (Fin 10) = Fin (1010 + 100 * of_nat i)"
    "fl_sub (Fin (1000 + 100 * of_nat i)) (Fin 60) = Fin (940 + 100 * of_nat i)"
  using exact_sum [of "1000 + 100 * int i" 10] exact_sum [of "1000 + 100 * int i" "- 60"] assms
  by (simp_all add: fl_sub_def del: fl_add.simps)

lemmas request_eval = request_approval_def evaluate_request_def check_admission_def evict_stale_fingerprints_def
  evict_old_approvals_def max_per_minute_def dedup_ttl_def ad_approved_def Let_def dict_set_fresh

lemma spaced_runs:
  assumes "n \<le> 30"
  shows "fold run_approval (map spaced [0..<Suc n]) new_approval = after_spaced n \<and>
    approvals (map spaced [0..<Suc n]) new_approval = map (\<lambda>i. Fin (of_int (1000 + 100 * int i))) [0..<Suc n]"
  using assms
proof (induction n)
  case 0
  then show ?case using spaced_sums [of 0]
    by (simp add: spaced_def request_eval sample_request_def new_approval_def after_spaced_def del: fl_add.simps)
next
  case (Suc n)
  have "request_approval TRADING (Fin (of_int (1000 + 100 * int (Suc n)))) (Fin (of_int (1000 + 100 * int (Suc n)))) sample_request
      (after_spaced n) = (after_spaced (Suc n), \<lparr>ad_trace = ''t1'', ad_refusal = None\<rparr>)"
    using spaced_sums [of "Suc n"] Suc.prems
    by (simp add: request_eval sample_request_def after_spaced_def del: fl_add.simps)
  then have step: "run_approval (spaced (Suc n)) (after_spaced n) = after_spaced (Suc n)"
    "approvals [spaced (Suc n)] (after_spaced n) = [Fin (of_int (1000 + 100 * int (Suc n)))]"
    by (simp_all add: spaced_def ad_approved_def)
  have longer: "[0..<Suc (Suc n)] = [0..<Suc n] @ [Suc n]" by simp
  have "fold run_approval (map spaced [0..<Suc n]) new_approval = after_spaced n"
    "approvals (map spaced [0..<Suc n]) new_approval = map (\<lambda>i. Fin (of_int (1000 + 100 * int i))) [0..<Suc n]"
    using Suc by simp_all
  then show ?case unfolding longer map_append approvals_append fold_append using step by simp
qed

lemma spaced_steady: "steady (map spaced [0..<n])"
proof (induction n)
  case (Suc n)
  then show ?case
    by (auto simp: steady_def sorted_wrt_append spaced_def)
qed (simp add: steady_def)

theorem approvals_limited_witness:
  "fl_lt (Fin 1000) (fl_sub (Fin 4000) (Fin 60))"
proof -
  have A: "approvals (map spaced [0..<31]) new_approval = map (\<lambda>i. Fin (of_int (1000 + 100 * int i))) [0..<31]"
    using spaced_runs [of 30] by simp
  show ?thesis
    using approvals_limited [OF spaced_steady, of 0 31] unfolding A by (simp add: max_per_minute_def)
qed

theorem no_duplicate_approval_witness:
  "\<not> ad_approved (snd (request_approval TRADING (Fin 1005) (Fin 1005) sample_request
     (fold run_approval [Veto ''wait'', LiftVeto, Snapshot (Fin 1004)]
       (fst (request_approval TRADING (Fin 1000) (Fin 1000) sample_request new_approval)))))"
  by (rule no_duplicate_approval [OF prod.collapse [symmetric]])
    (simp_all add: request_eval sample_request_def new_approval_def)

end
