(* ===== verification/DecisionRouter.thy ===== *)
theory DecisionRouter
  imports ExecutionApproval
begin

text \<open>
  \<^verbatim>\<open>src/governance/decision_router.py\<close>: the pipeline of a trading decision, from the signal through
  the confidence gate, the risk authorizer and the execution approval to an order. The logs and
  metrics of the router are left out; a rejection keeps what was found instead of its text.
\<close>

section \<open>The pipeline\<close>

datatype rejection_reason = CONFIDENCE_TOO_LOW | RISK_LIMIT_BREACHED | EXECUTION_BLOCKED | SYSTEM_STATE

record incoming_signal =
  sg_symbol :: string
  sg_side :: string
  sg_size_usd :: pyfloat
  sg_confidence :: pyfloat
  sg_strategy :: string
  sg_regime :: string
  sg_drawdown :: pyfloat
  sg_daily_pnl :: pyfloat
  sg_exposure :: pyfloat
  sg_leverage :: pyfloat
  sg_volatility :: pyfloat
  sg_correlation :: pyfloat
  sg_trace :: string

record execution_order =
  eo_trace :: string
  eo_symbol :: string
  eo_side :: string
  eo_size_usd :: pyfloat
  eo_confidence :: pyfloat
  eo_risk_score :: pyfloat
  eo_strategy :: string

record rejected_decision =
  rj_trace :: string
  rj_symbol :: string
  rj_side :: string
  rj_reason :: rejection_reason
  rj_violations :: "risk_violation list"
  rj_refusal :: "approval_refusal option"

type_synonym routing_outcome = "rejected_decision + execution_order"

definition context_of :: "incoming_signal \<Rightarrow> risk_context" where
  "context_of sg = \<lparr>rc_size_usd = sg_size_usd sg, rc_drawdown = sg_drawdown sg, rc_daily_pnl = sg_daily_pnl sg,
     rc_exposure = sg_exposure sg, rc_leverage = sg_leverage sg, rc_volatility = sg_volatility sg,
     rc_correlation = sg_correlation sg\<rparr>"

definition reject_signal ::
  "incoming_signal \<Rightarrow> rejection_reason \<Rightarrow> risk_violation list \<Rightarrow> approval_refusal option \<Rightarrow> routing_outcome" where
  "reject_signal sg reason violations refusal =
     Inl \<lparr>rj_trace = sg_trace sg, rj_symbol = sg_symbol sg, rj_side = sg_side sg, rj_reason = reason,
          rj_violations = violations, rj_refusal = refusal\<rparr>"

text \<open>The request that the last gate sees: the size is scaled by the confidence.\<close>

definition request_of :: "incoming_signal \<Rightarrow> gate_result \<Rightarrow> authorization \<Rightarrow> approval_request" where
  "request_of sg cg auth = \<lparr>aq_trace = sg_trace sg, aq_symbol = sg_symbol sg, aq_side = sg_side sg,
     aq_size_usd = fl_mul (sg_size_usd sg) (gr_multiplier cg), aq_confidence = sg_confidence sg,
     aq_risk_score = az_risk_score auth, aq_gate_passed = True, aq_risk_passed = True, aq_strategy = sg_strategy sg\<rparr>"

definition route_signal ::
  "risk_limits \<Rightarrow> life_state \<Rightarrow> pyfloat \<Rightarrow> pyfloat \<Rightarrow> incoming_signal \<Rightarrow> approval \<Rightarrow> approval \<times> routing_outcome" where
  "route_signal limits st now stamp sg s =
     (let cg = check_confidence st (sg_confidence sg) (sg_regime sg) None in
      if \<not> gr_passed cg then (s, reject_signal sg CONFIDENCE_TOO_LOW [] None)
      else let auth = authorize_risk limits st (context_of sg) in
      if \<not> az_approved auth then (s, reject_signal sg RISK_LIMIT_BREACHED (az_violations auth) None)
      else let req = request_of sg cg auth in
      case request_approval st now stamp req s of
        (s', d) \<Rightarrow>
          if \<not> ad_approved d then (s', reject_signal sg EXECUTION_BLOCKED (az_violations auth) (ad_refusal d))
          else (s', Inr \<lparr>eo_trace = sg_trace sg, eo_symbol = sg_symbol sg, eo_side = sg_side sg,
                        eo_size_usd = aq_size_usd req, eo_confidence = sg_confidence sg,
                        eo_risk_score = az_risk_score auth, eo_strategy = sg_strategy sg\<rparr>))"

section \<open>What an order has passed\<close>

lemma routed:
  assumes "route_signal limits st now stamp sg s = (t, Inr order)"
  shows "gr_passed (check_confidence st (sg_confidence sg) (sg_regime sg) None)"
    "az_approved (authorize_risk limits st (context_of sg))"
    "evaluate_request st now (request_of sg (check_confidence st (sg_confidence sg) (sg_regime sg) None)
       (authorize_risk limits st (context_of sg))) s =
     (t\<lparr>ap_approved := ap_approved t - 1, ap_timestamps := butlast (ap_timestamps t)\<rparr>, None)"
    "order = \<lparr>eo_trace = sg_trace sg, eo_symbol = sg_symbol sg, eo_side = sg_side sg,
       eo_size_usd = fl_mul (sg_size_usd sg) (gr_multiplier (check_confidence st (sg_confidence sg) (sg_regime sg) None)),
       eo_confidence = sg_confidence sg, eo_risk_score = az_risk_score (authorize_risk limits st (context_of sg)),
       eo_strategy = sg_strategy sg\<rparr>"
  using assms
  by (auto simp: route_signal_def reject_signal_def Let_def request_approval_def ad_approved_def request_of_def
      split: if_splits prod.splits option.splits)

lemma evaluation_passed:
  assumes "evaluate_request st now req s = (t, None)"
  shows "\<not> ap_veto s \<and> st = TRADING \<and> aq_gate_passed req \<and> aq_risk_passed req \<and> \<not> fl_le (aq_size_usd req) (Fin 0) \<and>
    aq_side req \<in> {''long'', ''short''} \<and> length (ap_timestamps (evict_old_approvals now s)) < max_per_minute"
  using assms
  by (auto simp: evaluate_request_def check_admission_def Let_def evict_old_approvals_def evict_stale_fingerprints_def
      split: if_splits)

lemma multiplier_values: "size_multiplier l \<in> {Fin 0, Fin (1 / 4), Fin (1 / 2), round_double (80 / 100), Fin 1}"
  by (cases l) simp_all

text \<open>
  C31: Every order that leaves the router has passed every gate. With the default limits the system
  is trading and no veto stands; the confidence is at least a half; the drawdown is not at five
  per cent, nor the loss of the day at 500, nor the exposure at 80 per cent; the requested size is
  not over 2000, the leverage not over five, the volatility not over eight per cent and the
  correlation not over 80 per cent; the side is long or short; fewer than thirty approvals are in
  the last minute; and the size of the order is the requested size scaled by one of the factors
  of the confidence, and not zero or below.
\<close>

theorem routed_order_safe:
  assumes "route_signal default_risk_limits st now stamp sg s = (t, Inr order)"
  shows "st = TRADING \<and> \<not> ap_veto s \<and> fl_le (Fin (1 / 2)) (sg_confidence sg) \<and>
    \<not> fl_le (round_double (5 / 100)) (sg_drawdown sg) \<and> \<not> fl_le (sg_daily_pnl sg) (Fin (- 500)) \<and>
    \<not> fl_le (round_double (80 / 100)) (sg_exposure sg) \<and> \<not> fl_lt (Fin 2000) (sg_size_usd sg) \<and>
    \<not> fl_lt (Fin 5) (sg_leverage sg) \<and> \<not> fl_lt (round_double (8 / 100)) (sg_volatility sg) \<and>
    \<not> fl_lt (round_double (80 / 100)) (sg_correlation sg) \<and> eo_side order \<in> {''long'', ''short''} \<and>
    length (ap_timestamps (evict_old_approvals now s)) < max_per_minute \<and>
    eo_size_usd order = fl_mul (sg_size_usd sg) (size_multiplier (level_from_score (sg_confidence sg))) \<and>
    \<not> fl_le (eo_size_usd order) (Fin 0)"
proof -
  note gates = routed [OF assms]
  note passed = evaluation_passed [OF gates(3)]
  have st: "st = TRADING" using passed by simp
  have "risk_violations default_risk_limits TRADING (context_of sg) = []" using gates(2) st by (simp add: authorized_iff)
  then have risk: "\<not> fl_le (round_double (5 / 100)) (sg_drawdown sg)" "\<not> fl_le (sg_daily_pnl sg) (Fin (- 500))"
    "\<not> fl_le (round_double (80 / 100)) (sg_exposure sg)" "\<not> fl_lt (Fin 2000) (sg_size_usd sg)" "\<not> fl_lt (Fin 5) (sg_leverage sg)"
    "\<not> fl_lt (round_double (8 / 100)) (sg_volatility sg)" "\<not> fl_lt (round_double (80 / 100)) (sg_correlation sg)"
    by (simp_all add: risk_violations_def Let_def trading_limits context_of_def gate_constants split: if_splits)
  have "fl_le (Fin (1 / 2)) (sg_confidence sg)"
    using gate_passed(1) [OF gates(1)] trading_threshold st fl_le_trans by blast
  moreover have "eo_size_usd order = fl_mul (sg_size_usd sg) (size_multiplier (level_from_score (sg_confidence sg)))"
    using gates(4) gate_passed(2) [OF gates(1)] by simp
  moreover have "\<not> fl_le (eo_size_usd order) (Fin 0)" "eo_side order \<in> {''long'', ''short''}"
    using passed gates(4) unfolding st by (simp_all add: request_of_def)
  ultimately show ?thesis using st risk passed by simp
qed

definition sample_signal :: incoming_signal where
  "sample_signal = \<lparr>sg_symbol = ''BTC'', sg_side = ''long'', sg_size_usd = Fin 500, sg_confidence = Fin (3 / 4), sg_strategy = ''m'',
     sg_regime = ''trending'', sg_drawdown = Fin 0, sg_daily_pnl = Fin (- 80), sg_exposure = Fin (1 / 4), sg_leverage = Fin 1,
     sg_volatility = Fin 0, sg_correlation = Fin 0, sg_trace = ''t1''\<rparr>"

text \<open>
  Amounts that are not numbers are within every limit. If the drawdown, the loss of the day,
  the exposure, the size, the leverage, the volatility and the correlation of a signal are all not
  numbers, no limit is violated, and in a system that trades the signal is approved, as an order
  whose size is not a number, unless the last gate has another reason to refuse.
\<close>

theorem nan_signal_routed:
  assumes "sg_size_usd sg = NaN" "sg_drawdown sg = NaN" "sg_daily_pnl sg = NaN" "sg_exposure sg = NaN"
    and "sg_leverage sg = NaN" "sg_volatility sg = NaN" "sg_correlation sg = NaN"
    and "fl_le (Fin 1) (sg_confidence sg)" "sg_side sg \<in> {''long'', ''short''}"
  shows "risk_violations limits st (context_of sg) = [] \<and>
    (\<exists>order. snd (route_signal limits TRADING now stamp sg new_approval) = Inr order \<and> eo_size_usd order = NaN)"
proof
  show clear: "risk_violations limits st (context_of sg) = []" for st
    using assms by (simp add: risk_violations_def context_of_def Let_def)
  have "gr_passed (check_confidence TRADING (sg_confidence sg) (sg_regime sg) None)"
    using assms(8) trading_threshold fl_le_trans by (auto simp: check_confidence_def Let_def)
  moreover have "fl_mul NaN x = NaN" for x by simp
  ultimately show "\<exists>order. snd (route_signal limits TRADING now stamp sg new_approval) = Inr order \<and> eo_size_usd order = NaN"
    using assms(1,9) clear
    by (simp add: route_signal_def authorized_iff request_approval_def evaluate_request_def check_admission_def new_approval_def
        request_of_def evict_stale_fingerprints_def evict_old_approvals_def max_per_minute_def ad_approved_def Let_def)
qed

lemma sample_gate: "check_confidence TRADING (Fin (3 / 4)) ''trending'' None =
  \<lparr>gr_passed = True, gr_level = HIGH, gr_threshold = Fin (1 / 2), gr_multiplier = round_double (80 / 100)\<rparr>"
proof -
  have "confidence_threshold TRADING ''trending'' None = Fin (1 / 2)"
    by (simp add: confidence_threshold_def regime_adjustment_def py_lower_def lower_char_def gate_constants fl_max_def fl_min_def)
      (simp add: round_eval float_eval)
  then show ?thesis by (simp add: check_confidence_def Let_def level_from_score_def gate_constants)
qed

lemma sample_signal_authorized: "az_approved (authorize_risk default_risk_limits TRADING (context_of sample_signal))"
  by (simp add: authorized_iff risk_violations_def Let_def trading_limits context_of_def sample_signal_def gate_constants)

theorem routed_order_safe_witness:
  "\<exists>t order. route_signal default_risk_limits TRADING (Fin 1000) (Fin 1000) sample_signal new_approval = (t, Inr order) \<and>
     eo_side order \<in> {''long'', ''short''} \<and> \<not> fl_le (eo_size_usd order) (Fin 0)"
proof -
  have "\<not> fl_le (round_double (500 * (3602879701896397 / 4503599627370496))) (Fin 0)" by (simp add: round_eval float_eval)
  then obtain t order where
    "route_signal default_risk_limits TRADING (Fin 1000) (Fin 1000) sample_signal new_approval = (t, Inr order)"
    using sample_gate sample_signal_authorized
    by (simp add: route_signal_def sample_signal_def request_of_def request_eval new_approval_def gate_constants del: fl_add.simps)
  with routed_order_safe [OF this] show ?thesis by blast
qed

theorem nan_signal_routed_witness:
  "\<exists>order. snd (route_signal default_risk_limits TRADING (Fin 1000) (Fin 1000)
     (sample_signal\<lparr>sg_size_usd := NaN, sg_drawdown := NaN, sg_daily_pnl := NaN, sg_exposure := NaN, sg_leverage := NaN,
       sg_volatility := NaN, sg_correlation := NaN, sg_confidence := Fin 1\<rparr>) new_approval) = Inr order \<and> eo_size_usd order = NaN"
  by (rule nan_signal_routed [THEN conjunct2]) (simp_all add: sample_signal_def)

end
