(* ===== verification/AiPromotion.thy ===== *)
theory AiPromotion
  imports FloatOrder
begin

text \<open>
  \<^verbatim>\<open>src/governance/ai_constraints.py\<close>: the stages through which a strategy of the AI modules has to
  go before it may reach live routing. The two decorators are left out: one checks nothing, the
  other always raises. The log is left out, and failures keep their kind instead of their text.
\<close>

section \<open>Stages\<close>

datatype ai_stage = SHADOW | PAPER | SANDBOX | PROMOTED | LIVE

fun stage_value :: "ai_stage \<Rightarrow> nat" where
  "stage_value SHADOW = 1"
| "stage_value PAPER = 2"
| "stage_value SANDBOX = 3"
| "stage_value PROMOTED = 4"
| "stage_value LIVE = 5"

definition stage_of_value :: "nat \<Rightarrow> ai_stage option" where
  "stage_of_value n = List.find (\<lambda>st. stage_value st = n) [SHADOW, PAPER, SANDBOX, PROMOTED, LIVE]"

record promotion_requirements =
  rq_min_sharpe :: pyfloat
  rq_min_win_rate :: pyfloat
  rq_min_paper_days :: int
  rq_max_drawdown :: pyfloat
  rq_min_trade_count :: int

definition default_requirements :: promotion_requirements where
  "default_requirements = \<lparr>rq_min_sharpe = Fin (3 / 2), rq_min_win_rate = round_double (52 / 100), rq_min_paper_days = 7,
     rq_max_drawdown = round_double (8 / 100), rq_min_trade_count = 20\<rparr>"

record promotion_request =
  pq_strategy :: string
  pq_source :: ai_stage
  pq_sharpe :: pyfloat
  pq_win_rate :: pyfloat
  pq_paper_days :: int
  pq_max_drawdown :: pyfloat
  pq_trade_count :: int

datatype promotion_failure =
  StageMismatch | DirectToLive | LowSharpe | LowWinRate | FewPaperDays | DrawdownTooHigh | FewTrades

record promotion_result =
  pr_promoted :: bool
  pr_strategy :: string
  pr_target :: ai_stage
  pr_failures :: "promotion_failure list"

section \<open>The registry\<close>

record ai_promotion =
  ai_stages :: "(string, ai_stage) dict"
  ai_history :: "promotion_result list"
  ai_requirements :: promotion_requirements

definition new_promotion :: ai_promotion where
  "new_promotion = \<lparr>ai_stages = [], ai_history = [], ai_requirements = default_requirements\<rparr>"

definition register_strategy :: "string \<Rightarrow> ai_stage \<Rightarrow> ai_promotion \<Rightarrow> ai_promotion" where
  "register_strategy sid st s = s\<lparr>ai_stages := dict_set (ai_stages s) sid st\<rparr>"

definition is_live_eligible :: "string \<Rightarrow> ai_promotion \<Rightarrow> bool" where
  "is_live_eligible sid s \<longleftrightarrow> dict_get (ai_stages s) sid = Some PROMOTED"

definition current_stage :: "string \<Rightarrow> ai_promotion \<Rightarrow> ai_stage" where
  "current_stage sid s = (case dict_get (ai_stages s) sid of Some st \<Rightarrow> st | None \<Rightarrow> SHADOW)"

definition quality_failures :: "promotion_requirements \<Rightarrow> promotion_request \<Rightarrow> promotion_failure list" where
  "quality_failures rq req =
     (if fl_lt (pq_sharpe req) (rq_min_sharpe rq) then [LowSharpe] else []) @
     (if fl_lt (pq_win_rate req) (rq_min_win_rate rq) then [LowWinRate] else []) @
     (if pq_paper_days req < rq_min_paper_days rq then [FewPaperDays] else []) @
     (if fl_lt (rq_max_drawdown rq) (pq_max_drawdown req) then [DrawdownTooHigh] else []) @
     (if pq_trade_count req < rq_min_trade_count rq then [FewTrades] else [])"

definition promotion_failures :: "promotion_request \<Rightarrow> ai_promotion \<Rightarrow> promotion_failure list" where
  "promotion_failures req s =
     (let current = current_stage (pq_strategy req) s
      in (if stage_value (pq_source req) \<noteq> stage_value current then [StageMismatch] else []) @
         (if stage_value LIVE \<le> stage_value current + 1 then [DirectToLive] else []) @
         quality_failures (ai_requirements s) req)"

definition promote :: "promotion_request \<Rightarrow> ai_promotion \<Rightarrow> ai_promotion \<times> promotion_result" where
  "promote req s =
     (let current = current_stage (pq_strategy req) s;
          failures = promotion_failures req s;
          target = (if failures = [] then the (stage_of_value (stage_value current + 1)) else current);
          result = \<lparr>pr_promoted = (failures = []), pr_strategy = pq_strategy req, pr_target = target, pr_failures = failures\<rparr>;
          stages = (if failures = [] then dict_set (ai_stages s) (pq_strategy req) target else ai_stages s)
      in (s\<lparr>ai_stages := stages, ai_history := ai_history s @ [result]\<rparr>, result))"

definition demote :: "string \<Rightarrow> ai_promotion \<Rightarrow> ai_promotion" where
  "demote sid s = s\<lparr>ai_stages := dict_set (ai_stages s) sid SHADOW\<rparr>"

text \<open>A change of one requirement, to a value of its type; another name changes nothing that is read.\<close>

datatype requirement_change =
    MinSharpe pyfloat | MinWinRate pyfloat | MinPaperDays int | MaxDrawdown pyfloat | MinTradeCount int | UnreadRequirement

fun change_requirement :: "requirement_change \<Rightarrow> promotion_requirements \<Rightarrow> promotion_requirements" where
  "change_requirement (MinSharpe x) rq = rq\<lparr>rq_min_sharpe := x\<rparr>"
| "change_requirement (MinWinRate x) rq = rq\<lparr>rq_min_win_rate := x\<rparr>"
| "change_requirement (MinPaperDays n) rq = rq\<lparr>rq_min_paper_days := n\<rparr>"
| "change_requirement (MaxDrawdown x) rq = rq\<lparr>rq_max_drawdown := x\<rparr>"
| "change_requirement (MinTradeCount n) rq = rq\<lparr>rq_min_trade_count := n\<rparr>"
| "change_requirement UnreadRequirement rq = rq"

definition set_requirement :: "requirement_change \<Rightarrow> ai_promotion \<Rightarrow> ai_promotion" where
  "set_requirement c s = s\<lparr>ai_requirements := change_requirement c (ai_requirements s)\<rparr>"

section \<open>Histories\<close>

datatype ai_op = Register string ai_stage | Promote promotion_request | Demote string | SetRequirement requirement_change

fun run_promotion :: "ai_op \<Rightarrow> ai_promotion \<Rightarrow> ai_promotion" where
  "run_promotion (Register sid st) s = register_strategy sid st s"
| "run_promotion (Promote req) s = fst (promote req s)"
| "run_promotion (Demote sid) s = demote sid s"
| "run_promotion (SetRequirement c) s = set_requirement c s"

text \<open>The stage a strategy was last put at, by a registration or a demotion; the first one without either.\<close>

fun entry_stage :: "string \<Rightarrow> ai_op list \<Rightarrow> ai_stage \<Rightarrow> ai_stage" where
  "entry_stage sid [] b = b"
| "entry_stage sid (Register sid' st # ops) b = entry_stage sid ops (if sid' = sid then st else b)"
| "entry_stage sid (Demote sid' # ops) b = entry_stage sid ops (if sid' = sid then SHADOW else b)"
| "entry_stage sid (_ # ops) b = entry_stage sid ops b"

text \<open>The requests granted to a strategy since then, the latest last, each with the requirements of its time.\<close>

type_synonym grant = "promotion_requirements \<times> promotion_request"

fun grants :: "string \<Rightarrow> ai_op list \<Rightarrow> ai_promotion \<Rightarrow> grant list \<Rightarrow> grant list" where
  "grants sid [] s gs = gs"
| "grants sid (op # ops) s gs =
     grants sid ops (run_promotion op s)
       (case op of
          Register sid' st \<Rightarrow> if sid' = sid then [] else gs
        | Promote req \<Rightarrow> if pq_strategy req = sid \<and> pr_promoted (snd (promote req s)) then gs @ [(ai_requirements s, req)] else gs
        | Demote sid' \<Rightarrow> if sid' = sid then [] else gs
        | SetRequirement c \<Rightarrow> gs)"

text \<open>What a request has to show: no figure on the wrong side of its requirement.\<close>

definition meets_requirements :: "promotion_requirements \<Rightarrow> promotion_request \<Rightarrow> bool" where
  "meets_requirements rq req \<longleftrightarrow>
     \<not> fl_lt (pq_sharpe req) (rq_min_sharpe rq) \<and> \<not> fl_lt (pq_win_rate req) (rq_min_win_rate rq) \<and>
     rq_min_paper_days rq \<le> pq_paper_days req \<and> \<not> fl_lt (rq_max_drawdown rq) (pq_max_drawdown req) \<and>
     rq_min_trade_count rq \<le> pq_trade_count req"

lemma quality_met: "quality_failures rq req = [] \<longleftrightarrow> meets_requirements rq req"
  by (auto simp: quality_failures_def meets_requirements_def)

text \<open>From the stage it was put at, one stage for each grant, and each grant from the stage reached so far.\<close>

definition earned :: "string \<Rightarrow> ai_stage \<Rightarrow> ai_promotion \<Rightarrow> grant list \<Rightarrow> bool" where
  "earned sid b s gs \<longleftrightarrow>
     stage_value (current_stage sid s) = stage_value b + length gs \<and> (gs = [] \<or> stage_value b + length gs \<le> 4) \<and>
     map (stage_value \<circ> pq_source \<circ> snd) gs = [stage_value b..<stage_value b + length gs] \<and>
     list_all (\<lambda>(rq, req). pq_strategy req = sid \<and> meets_requirements rq req) gs"

lemma stage_step: "stage_value st \<le> 3 \<Longrightarrow> \<exists>st'. stage_of_value (stage_value st + 1) = Some st' \<and> stage_value st' = Suc (stage_value st)"
  by (cases st) (simp_all add: stage_of_value_def)

lemma promote_earned:
  assumes "earned sid b s gs"
  shows "earned sid b (fst (promote req s))
    (if pq_strategy req = sid \<and> pr_promoted (snd (promote req s)) then gs @ [(ai_requirements s, req)] else gs)"
proof (cases "promotion_failures req s = []")
  case False
  then show ?thesis using assms by (simp add: promote_def Let_def earned_def current_stage_def)
next
  case True
  then have checks: "stage_value (pq_source req) = stage_value (current_stage (pq_strategy req) s)"
    "stage_value (current_stage (pq_strategy req) s) \<le> 3" "meets_requirements (ai_requirements s) req"
    by (auto simp: promotion_failures_def Let_def quality_met split: if_splits)
  obtain st where st: "stage_of_value (stage_value (current_stage (pq_strategy req) s) + 1) = Some st"
    "stage_value st = Suc (stage_value (current_stage (pq_strategy req) s))"
    using stage_step [OF checks(2)] by blast
  have "current_stage sid (fst (promote req s)) = (if pq_strategy req = sid then st else current_stage sid s)"
    using True st(1) by (simp add: promote_def Let_def current_stage_def)
  moreover have "pr_promoted (snd (promote req s))" using True by (simp add: promote_def Let_def)
  ultimately show ?thesis using assms checks st(2) by (auto simp: earned_def)
qed

lemma history_earned: "earned sid b s gs \<Longrightarrow> earned sid (entry_stage sid ops b) (fold run_promotion ops s) (grants sid ops s gs)"
proof (induction ops arbitrary: b s gs)
  case (Cons op ops)
  have "earned sid (entry_stage sid [op] b) (run_promotion op s) (grants sid [op] s gs)"
    using Cons.prems promote_earned [OF Cons.prems]
    by (cases op) (auto simp: earned_def register_strategy_def demote_def set_requirement_def current_stage_def split: if_splits)
  moreover have "entry_stage sid (op # ops) b = entry_stage sid ops (entry_stage sid [op] b)" by (cases op) simp_all
  ultimately show ?case using Cons.IH by simp
qed simp

text \<open>
  C36: Live eligibility has to be earned from the stage of the registration on. In every history of
  registrations, requests, demotions and changes of the requirements, a strategy that is eligible for live routing has been granted,
  since it was last registered or demoted, exactly the promotions from the stage it was put at up to the last one,
  in their order, each by a request of its own that met the requirements of its time. Only who registers a strategy
  at a higher stage spares it the stages below; and none is ever promoted to the stage live.
\<close>

theorem live_eligibility_earned:
  "(is_live_eligible sid (fold run_promotion ops new_promotion) \<longrightarrow>
      map (pq_source \<circ> snd) (grants sid ops new_promotion []) =
        filter (\<lambda>st. stage_value (entry_stage sid ops SHADOW) \<le> stage_value st) [SHADOW, PAPER, SANDBOX] \<and>
      list_all (\<lambda>(rq, req). pq_strategy req = sid \<and> meets_requirements rq req) (grants sid ops new_promotion [])) \<and>
    (current_stage sid (fold run_promotion ops new_promotion) = LIVE \<longrightarrow> entry_stage sid ops SHADOW = LIVE)"
proof -
  let ?s = "fold run_promotion ops new_promotion" and ?gs = "grants sid ops new_promotion []" and ?b = "entry_stage sid ops SHADOW"
  have "earned sid SHADOW new_promotion []" by (simp add: earned_def new_promotion_def current_stage_def)
  from history_earned [OF this] have ok: "earned sid ?b ?s ?gs" .
  have inj: "stage_value st = stage_value st' \<Longrightarrow> st = st'" for st st' by (cases st; cases st') simp_all
  have "?b = LIVE" if "current_stage sid ?s = LIVE"
    using ok that by (cases ?b) (auto simp: earned_def)
  moreover have "map (pq_source \<circ> snd) ?gs = filter (\<lambda>st. stage_value ?b \<le> stage_value st) [SHADOW, PAPER, SANDBOX]"
    if "is_live_eligible sid ?s"
  proof -
    have four: "stage_value ?b + length ?gs = 4" using ok that by (simp add: earned_def is_live_eligible_def current_stage_def)
    have "map stage_value (map (pq_source \<circ> snd) ?gs) = [stage_value ?b..<4]" using ok four by (simp add: earned_def comp_assoc)
    also have "\<dots> = map stage_value (filter (\<lambda>st. stage_value ?b \<le> stage_value st) [SHADOW, PAPER, SANDBOX])"
      using four by (cases ?b) (simp_all add: upt_rec)
    finally show ?thesis using inj by (metis (no_types, lifting) inj_def list.inj_map_strong)
  qed
  ultimately show ?thesis using ok by (auto simp: earned_def)
qed

definition good_request :: "ai_stage \<Rightarrow> promotion_request" where
  "good_request st = \<lparr>pq_strategy = ''m3'', pq_source = st, pq_sharpe = Fin 2, pq_win_rate = Fin (3 / 4), pq_paper_days = 14,
     pq_max_drawdown = Fin 0, pq_trade_count = 50\<rparr>"

definition sample_promotions :: "ai_op list" where
  "sample_promotions = [Register ''m3'' SHADOW, Promote (good_request PAPER), Promote (good_request SHADOW),
     Promote (good_request PAPER), Promote (good_request SANDBOX), Promote (good_request PROMOTED)]"

lemma good_quality: "quality_failures default_requirements (good_request st) = []"
  by (simp add: quality_failures_def default_requirements_def good_request_def) (simp add: round_eval float_eval)

lemma sample_eligible: "is_live_eligible ''m3'' (fold run_promotion sample_promotions new_promotion)"
proof -
  have name: "pq_strategy (good_request st) = ''m3''" "pq_source (good_request st) = st" for st
    by (simp_all add: good_request_def)
  show ?thesis
    by (simp add: sample_promotions_def promote_def promotion_failures_def register_strategy_def new_promotion_def
        current_stage_def is_live_eligible_def good_quality name stage_of_value_def Let_def)
qed

theorem live_eligibility_earned_witness:
  "is_live_eligible ''m3'' (fold run_promotion sample_promotions new_promotion) \<and>
   map (pq_source \<circ> snd) (grants ''m3'' sample_promotions new_promotion []) = [SHADOW, PAPER, SANDBOX]"
  using live_eligibility_earned [of "''m3''" sample_promotions] sample_eligible by (simp add: sample_promotions_def)

text \<open>Who registers a strategy as promoted makes it eligible without a single grant.\<close>

theorem registered_eligible:
  "is_live_eligible sid (fold run_promotion [Register sid PROMOTED] new_promotion) \<and> grants sid [Register sid PROMOTED] new_promotion [] = []"
  by (simp add: is_live_eligible_def register_strategy_def)

end
