(* ===== verification/RegimeTracker.thy ===== *)
theory RegimeTracker
  imports FloatOrder
begin

text \<open>
  \<^verbatim>\<open>src/quant_hedge_ai/agents/intelligence/market_regime_classifier.py\<close>: the tracker that turns
  raw regime observations into a stable regime, and the thresholds and stops of each regime. The
  defaults of the environment variables are written as numbers; descriptions are left out.
\<close>

section \<open>The tracker\<close>

record regime_tracker =
  tr_stability :: nat
  tr_decay :: pyfloat
  tr_history_size :: nat
  tr_history :: "string list"
  tr_stable :: string
  tr_votes :: "string list"
  tr_confidence :: pyfloat
  tr_duration :: nat
  tr_prev_stable :: string
  tr_in_transition :: bool

definition new_tracker :: "nat \<Rightarrow> pyfloat \<Rightarrow> nat \<Rightarrow> regime_tracker" where
  "new_tracker stability decay history_size =
     \<lparr>tr_stability = stability, tr_decay = decay, tr_history_size = history_size, tr_history = [],
      tr_stable = ''unknown'', tr_votes = [], tr_confidence = Fin (1 / 2), tr_duration = 0,
      tr_prev_stable = [], tr_in_transition = False\<rparr>"

record regime_packet =
  rp_regime :: string
  rp_confidence :: pyfloat
  rp_duration :: nat
  rp_transition_from :: string
  rp_entropy :: pyfloat
  rp_in_transition :: bool

text \<open>\<^verbatim>\<open>xs[-n:]\<close>, where \<^verbatim>\<open>xs[-0:]\<close> is the whole list, and a deque of a bounded length.\<close>

definition last_n :: "nat \<Rightarrow> 'a list \<Rightarrow> 'a list" where
  "last_n n xs = drop (length xs - n) xs"

definition suffix_slice :: "nat \<Rightarrow> 'a list \<Rightarrow> 'a list" where
  "suffix_slice n xs = (if n = 0 then xs else last_n n xs)"

definition push_bounded :: "nat \<Rightarrow> 'a \<Rightarrow> 'a list \<Rightarrow> 'a list" where
  "push_bounded n x xs = last_n n (xs @ [x])"

fun flips :: "string list \<Rightarrow> nat" where
  "flips (x # y # zs) = (if y \<noteq> x then 1 else 0) + flips (y # zs)"
| "flips _ = 0"

definition entropy_of :: "string list \<Rightarrow> pyfloat" where
  "entropy_of xs = round_double (of_nat (flips xs) / of_nat (max 1 (length xs - 1)))"

definition take_vote :: "string \<Rightarrow> regime_tracker \<Rightarrow> regime_tracker" where
  "take_vote observed t =
     (let votes = tr_votes t @ [observed]
      in t\<lparr>tr_history := push_bounded (tr_history_size t) observed (tr_history t),
           tr_votes := (if tr_stability t < length votes then suffix_slice (tr_stability t) votes else votes)\<rparr>)"

text \<open>The test of \<^verbatim>\<open>len(set(votes)) == 1\<close>.\<close>

definition settle :: "regime_tracker \<Rightarrow> regime_tracker" where
  "settle t =
     (if length (tr_votes t) = tr_stability t \<and> length (remdups (tr_votes t)) = 1 \<and> tr_votes t ! 0 \<noteq> tr_stable t
      then t\<lparr>tr_prev_stable := tr_stable t, tr_stable := tr_votes t ! 0, tr_duration := 0,
             tr_confidence := Fin (1 / 2), tr_in_transition := True\<rparr>
      else t\<lparr>tr_in_transition := False\<rparr>)"

definition confirm_regime :: "string \<Rightarrow> regime_tracker \<Rightarrow> regime_tracker" where
  "confirm_regime observed t =
     (if observed = tr_stable t then
        t\<lparr>tr_confidence := fl_min (Fin 1) (fl_add (tr_confidence t)
             (fl_mul (fl_sub (Fin 1) (tr_confidence t)) (round_double (1 / 10)))),
          tr_duration := tr_duration t + 1\<rparr>
      else t\<lparr>tr_confidence := fl_mul (tr_confidence t) (tr_decay t)\<rparr>)"

definition track :: "string \<Rightarrow> regime_tracker \<Rightarrow> regime_tracker" where
  "track observed t = confirm_regime observed (settle (take_vote observed t))"

definition packet_of :: "regime_tracker \<Rightarrow> regime_packet" where
  "packet_of t = \<lparr>rp_regime = tr_stable t, rp_confidence = fl_round 3 (tr_confidence t), rp_duration = tr_duration t,
     rp_transition_from = tr_prev_stable t, rp_entropy = fl_round 3 (entropy_of (tr_history t)),
     rp_in_transition = tr_in_transition t\<rparr>"

definition update_tracker :: "string \<Rightarrow> regime_tracker \<Rightarrow> regime_tracker \<times> regime_packet" where
  "update_tracker observed t = (let t' = track observed t in (t', packet_of t'))"

section \<open>The regimes\<close>

record regime_config =
  cf_min_score :: int
  cf_sl_factor :: pyfloat
  cf_tp_factor :: pyfloat
  cf_size_factor :: pyfloat
  cf_trail :: bool
  cf_confirm :: bool

definition config :: "int \<Rightarrow> rat \<Rightarrow> rat \<Rightarrow> rat \<Rightarrow> bool \<Rightarrow> bool \<Rightarrow> regime_config" where
  "config score sl tp scale trail needs = \<lparr>cf_min_score = score, cf_sl_factor = round_double sl, cf_tp_factor = round_double tp,
     cf_size_factor = round_double scale, cf_trail = trail, cf_confirm = needs\<rparr>"

definition regime_configs :: "(string, regime_config) dict" where
  "regime_configs =
     [(''bull_trend'', config 72 2 4 1 True True),
      (''bear_trend'', config 68 (15 / 10) 3 (6 / 10) True True),
      (''sideways'', config 60 (15 / 10) 1 (7 / 10) False False),
      (''high_volatility_regime'', config 68 (18 / 10) (25 / 10) (3 / 10) False True),
      (''flash_crash'', config 999 0 0 0 False True),
      (''unknown'', config 72 (15 / 10) (25 / 10) (5 / 10) False True),
      (''TREND_BULL'', config 72 2 4 1 True True),
      (''TREND_BEAR'', config 68 (15 / 10) 3 (6 / 10) True True),
      (''RANGE'', config 60 (15 / 10) 1 (7 / 10) False False),
      (''VOLATILE'', config 68 (18 / 10) (25 / 10) (3 / 10) False True),
      (''UNKNOWN'', config 72 (15 / 10) (25 / 10) (5 / 10) False True)]"

definition get_config :: "string \<Rightarrow> regime_config" where
  "get_config regime =
     (case dict_get regime_configs regime of
        Some c \<Rightarrow> c
      | None \<Rightarrow> config 72 (15 / 10) (25 / 10) (5 / 10) False True)"

definition effective_min_score :: "string \<Rightarrow> int \<Rightarrow> int \<Rightarrow> int" where
  "effective_min_score regime delta absolute_floor =
     (let base = cf_min_score (get_config regime)
      in if 999 \<le> base then base else max (base + delta) absolute_floor)"

definition compute_sl_pct :: "regime_config \<Rightarrow> pyfloat \<Rightarrow> pyfloat \<Rightarrow> pyfloat" where
  "compute_sl_pct c atr least =
     (if fl_le atr (Fin 0) \<or> fl_le (cf_sl_factor c) (Fin 0) then Fin 0 else fl_max (fl_mul atr (cf_sl_factor c)) least)"

definition compute_tp_pct :: "regime_config \<Rightarrow> pyfloat \<Rightarrow> pyfloat" where
  "compute_tp_pct c atr =
     (if fl_le atr (Fin 0) \<or> fl_le (cf_tp_factor c) (Fin 0) then Fin 0 else fl_mul atr (cf_tp_factor c))"

section \<open>The stable regime\<close>

text \<open>
  The reference: looking back over all observations, the stable regime is the one of the latest
  stretch of \<open>n\<close> equal observations, and unknown before there is one.
\<close>

fun stretch_regime :: "nat \<Rightarrow> string list \<Rightarrow> string" where
  "stretch_regime n [] = ''unknown''"
| "stretch_regime n (x # older) =
     (if n \<le> length (x # older) \<and> list_all (\<lambda>y. y = x) (take n (x # older)) then x else stretch_regime n older)"

lemma last_n_rev: "last_n n (rev xs) = rev (take n xs)"
  by (simp add: last_n_def rev_take)

lemma remdups_one: "length (remdups xs) = 1 \<longleftrightarrow> xs \<noteq> [] \<and> list_all (\<lambda>y. y = last xs) xs"
proof -
  have "length (remdups xs) = card (set xs)" by (simp add: length_remdups_card_conv)
  moreover have "card (set xs) = 1 \<longleftrightarrow> xs \<noteq> [] \<and> (\<forall>y \<in> set xs. y = last xs)"
  proof
    assume "card (set xs) = 1"
    then obtain a where a: "set xs = {a}" by (auto simp: card_1_singleton_iff)
    moreover from a have "xs \<noteq> []" by auto
    ultimately show "xs \<noteq> [] \<and> (\<forall>y \<in> set xs. y = last xs)" using last_in_set [of xs] by auto
  next
    assume "xs \<noteq> [] \<and> (\<forall>y \<in> set xs. y = last xs)"
    then have "set xs = {last xs}" by auto
    then show "card (set xs) = 1" by simp
  qed
  ultimately show ?thesis by (simp add: list_all_iff)
qed

definition tracks :: "string list \<Rightarrow> regime_tracker \<Rightarrow> bool" where
  "tracks seen t \<longleftrightarrow> 0 < tr_stability t \<and> tr_votes t = rev (take (tr_stability t) seen) \<and>
     tr_stable t = stretch_regime (tr_stability t) seen \<and> tr_history t = rev (take (tr_history_size t) seen)"

lemma confirm_keeps [simp]:
  "tr_votes (confirm_regime x t) = tr_votes t" "tr_stable (confirm_regime x t) = tr_stable t" "tr_history (confirm_regime x t) = tr_history t"
  "tr_stability (confirm_regime x t) = tr_stability t" "tr_history_size (confirm_regime x t) = tr_history_size t"
  by (simp_all add: confirm_regime_def)

lemma settle_regime_keeps [simp]:
  "tr_votes (settle t) = tr_votes t" "tr_history (settle t) = tr_history t" "tr_stability (settle t) = tr_stability t"
  "tr_history_size (settle t) = tr_history_size t"
  by (simp_all add: settle_def)

lemma votes_step:
  assumes "0 < n" "votes = rev (take n seen)"
  shows "(if n < length (votes @ [x]) then suffix_slice n (votes @ [x]) else votes @ [x]) = rev (take n (x # seen))"
proof -
  have all: "votes @ [x] = rev (x # take n seen)" using assms(2) by simp
  have "suffix_slice n (votes @ [x]) = rev (take n (x # take n seen))"
    using assms(1) unfolding suffix_slice_def all last_n_rev by simp
  also have "take n (x # take n seen) = take n (x # seen)" using assms(1) by (cases n) (simp_all add: min_def)
  finally have cut: "suffix_slice n (votes @ [x]) = rev (take n (x # seen))" .
  have "votes @ [x] = rev (take n (x # seen))" if "\<not> n < length (votes @ [x])"
    using that assms by (cases n) (auto simp: take_Cons')
  with cut show ?thesis by simp
qed

lemma track_tracks:
  assumes "tracks seen t"
  shows "tracks (x # seen) (track x t)"
proof -
  let ?n = "tr_stability t" and ?t = "take_vote x t"
  have n: "0 < ?n" and votes: "tr_votes t = rev (take ?n seen)" and stable: "tr_stable t = stretch_regime ?n seen"
    and hist: "tr_history t = rev (take (tr_history_size t) seen)"
    using assms by (simp_all add: tracks_def)
  have vt: "tr_votes ?t = rev (take ?n (x # seen))"
    using votes_step [OF n votes, of x] by (simp add: take_vote_def Let_def)
  have ht: "tr_history ?t = rev (take (tr_history_size t) (x # seen))"
  proof -
    have "tr_history t @ [x] = rev (x # take (tr_history_size t) seen)" using hist by simp
    then have "push_bounded (tr_history_size t) x (tr_history t) = rev (take (tr_history_size t) (x # take (tr_history_size t) seen))"
      by (simp only: push_bounded_def last_n_rev)
    also have "take (tr_history_size t) (x # take (tr_history_size t) seen) = take (tr_history_size t) (x # seen)"
      by (cases "tr_history_size t") (simp_all add: min_def)
    finally show ?thesis by (simp add: take_vote_def Let_def)
  qed
  have kept: "tr_stability ?t = ?n" "tr_history_size ?t = tr_history_size t" by (simp_all add: take_vote_def Let_def)
  have unanimous: "length (tr_votes ?t) = ?n \<and> length (remdups (tr_votes ?t)) = 1 \<longleftrightarrow>
      ?n \<le> length (x # seen) \<and> list_all (\<lambda>y. y = x) (take ?n (x # seen))"
    unfolding vt using n by (cases ?n) (auto simp: remdups_one [unfolded One_nat_def] list_all_iff)
  have first: "tr_votes ?t ! 0 = x" if "?n \<le> length (x # seen)" "list_all (\<lambda>y. y = x) (take ?n (x # seen))"
  proof -
    have "tr_votes ?t \<noteq> []" using vt n by simp
    then have "tr_votes ?t ! 0 \<in> set (take ?n (x # seen))" using vt by (metis length_greater_0_conv nth_mem set_rev)
    then show ?thesis using that(2) by (simp add: list_all_iff)
  qed
  have "tr_stable (settle ?t) = stretch_regime ?n (x # seen)"
    using unanimous first stable by (auto simp: settle_def take_vote_def Let_def)
  then show ?thesis
    using vt ht n by (simp add: tracks_def track_def kept)
qed

lemma run_tracks: "tracks seen t \<Longrightarrow> tracks (rev xs @ seen) (fold track xs t)"
proof (induction xs arbitrary: seen t)
  case (Cons x xs)
  then show ?case using Cons.IH [OF track_tracks [OF Cons.prems]] by simp
qed simp

lemma run_stability [simp]:
  "tr_stability (fold track xs t) = tr_stability t" "tr_history_size (fold track xs t) = tr_history_size t"
  by (induction xs arbitrary: t) (simp_all add: track_def, simp_all add: take_vote_def Let_def)

text \<open>
  The stable regime is hysteresis exactly. After any observations the regime the tracker
  reports is the one of the latest stretch of as many equal observations as the stability asks
  for, and unknown while there has been none: shorter spells, however often they come back, never
  change it.
\<close>

theorem stable_regime_is_last_stretch:
  assumes "0 < n"
  shows "tr_stable (fold track seen (new_tracker n decay history_size)) = stretch_regime n (rev seen)"
proof -
  have "tracks [] (new_tracker n decay history_size)" using assms by (simp add: tracks_def new_tracker_def)
  from run_tracks [OF this, of seen] show ?thesis by (simp add: tracks_def) (simp add: new_tracker_def)
qed

section \<open>Bounds\<close>

definition in_unit :: "pyfloat \<Rightarrow> bool" where
  "in_unit x \<longleftrightarrow> fl_le (Fin 0) x \<and> fl_le x (Fin 1)"

lemma in_unit_iff: "in_unit x \<longleftrightarrow> (\<exists>q. x = Fin q \<and> 0 \<le> q \<and> q \<le> 1)"
  by (cases x) (simp_all add: in_unit_def)

lemma round_unit: "0 \<le> q \<Longrightarrow> q \<le> 1 \<Longrightarrow> in_unit (round_double q)"
  using round_double_le [of 0 q] round_double_le [of q 1] by (simp add: in_unit_def)

lemma unit_mul: "in_unit x \<Longrightarrow> in_unit y \<Longrightarrow> in_unit (fl_mul x y)"
  by (auto simp: in_unit_iff [of x] in_unit_iff [of y] mult_le_one intro!: round_unit)

lemma unit_rest: "in_unit x \<Longrightarrow> in_unit (fl_sub (Fin 1) x)"
  by (auto simp: in_unit_iff [of x] fl_sub_def intro!: round_unit)

lemma unit_grow:
  assumes "in_unit x" "in_unit y"
  shows "in_unit (fl_min (Fin 1) (fl_add x y))"
proof -
  obtain p q where "x = Fin p" "y = Fin q" "0 \<le> p" "0 \<le> q" using assms by (auto simp: in_unit_iff)
  then have "fl_le (Fin 0) (fl_add x y)" using round_double_le [of 0 "p + q"] by simp
  then show ?thesis by (cases "fl_add x y") (auto simp: in_unit_def fl_min_def)
qed

lemma unit_round: "in_unit x \<Longrightarrow> in_unit (fl_round n x)"
proof -
  assume "in_unit x"
  then obtain q where q: "x = Fin q" "0 \<le> q" "q \<le> 1" by (auto simp: in_unit_iff)
  have "0 \<le> round_even (q * 10 ^ n)" using q(2) by (intro round_even_ge) simp
  moreover have "round_even (q * 10 ^ n) \<le> 10 ^ n" using q(3) by (intro round_even_le) simp
  then have "(of_int (round_even (q * 10 ^ n)) :: rat) \<le> of_int (10 ^ n)" by (simp only: of_int_le_iff)
  ultimately show ?thesis using q(1) by (auto intro!: round_unit)
qed

lemma flips_le: "flips xs \<le> length xs - 1"
  by (induction xs rule: flips.induct) auto

lemma entropy_unit: "in_unit (entropy_of xs)"
  unfolding entropy_of_def using flips_le [of xs] by (intro round_unit) (auto simp: divide_le_eq_1 max_def)

lemma tenth_unit: "in_unit (round_double (1 / 10))"
  by (rule round_unit) simp_all

lemma track_confidence:
  assumes "in_unit (tr_confidence t)" "in_unit (tr_decay t)"
  shows "in_unit (tr_confidence (track x t)) \<and> in_unit (tr_decay (track x t))"
proof -
  have half: "in_unit (Fin (1 / 2))" by (simp add: in_unit_def)
  have "in_unit (tr_confidence (settle (take_vote x t)))" "tr_decay (settle (take_vote x t)) = tr_decay t"
    using assms half by (auto simp: settle_def take_vote_def Let_def)
  then show ?thesis
    using assms(2) by (simp add: track_def confirm_regime_def unit_grow unit_mul unit_rest tenth_unit)
qed

text \<open>
  Every packet is within its bounds. With a decay between 0 and 1, whatever is observed, the
  reported confidence and entropy are numbers between 0 and 1, and the tracker keeps no more
  observations than its history size and no more votes than its stability.
\<close>

theorem packet_bounds:
  assumes "in_unit decay" "0 < n" "t = fold track seen (new_tracker n decay history_size)"
  shows "in_unit (rp_confidence (packet_of t)) \<and> in_unit (rp_entropy (packet_of t)) \<and>
    length (tr_history t) \<le> history_size \<and> length (tr_votes t) \<le> n"
proof -
  have "in_unit (tr_confidence t) \<and> in_unit (tr_decay t)" if "in_unit (tr_confidence t0)" "in_unit (tr_decay t0)" "t = fold track xs t0" for t t0 xs
    using that by (induction xs arbitrary: t0) (auto simp: track_confidence)
  from this [OF _ _ assms(3)] assms(1) have "in_unit (tr_confidence t)" by (simp add: new_tracker_def in_unit_def)
  moreover have "tracks [] (new_tracker n decay history_size)" using assms(2) by (simp add: tracks_def new_tracker_def)
  from run_tracks [OF this, of seen] have "tracks (rev seen) t" using assms(3) by simp
  moreover have "tr_stability t = n" "tr_history_size t = history_size"
    using assms(3) by (simp_all add: run_stability new_tracker_def)
  ultimately show ?thesis by (simp add: packet_of_def tracks_def unit_round entropy_unit)
qed

theorem packet_bounds_witness:
  "in_unit (rp_confidence (packet_of (fold track [''RANGE'', ''RANGE'', ''VOLATILE'', ''RANGE''] (new_tracker 3 (Fin (1 / 2)) 10))))"
  by (rule packet_bounds [OF _ _ refl, THEN conjunct1]) (simp_all add: in_unit_def)

theorem stable_regime_is_last_stretch_witness:
  "tr_stable (fold track [''A'', ''A'', ''B'', ''A'', ''B'', ''B'', ''A''] (new_tracker 2 (Fin (1 / 2)) 10)) = ''B''"
  using stable_regime_is_last_stretch [of 2 "[''A'', ''A'', ''B'', ''A'', ''B'', ''B'', ''A'']"] by simp

end
