(* ===== verification/SessionGuard.thy ===== *)
theory SessionGuard
  imports FloatOrder
begin

text \<open>
  \<^verbatim>\<open>src/quant_hedge_ai/agents/risk/session_guard.py\<close> and \<^verbatim>\<open>drawdown_guard.py\<close>: the limits of a
  trading session, with the halt that stops every order. Reasons keep their kind instead of their
  text; the dictionary form is left out.
\<close>

section \<open>A session\<close>

datatype session_halt = SessionDrawdown | SessionLoss | ConsecutiveLosses

datatype session_error = SessionHalted "session_halt option" | OrderTooLarge pyfloat pyfloat

record session_state =
  ss_start_equity :: pyfloat
  ss_peak_equity :: pyfloat
  ss_current_equity :: pyfloat
  ss_session_pnl :: pyfloat
  ss_consecutive_losses :: nat
  ss_total_trades :: nat
  ss_halted :: bool
  ss_halt_reason :: "session_halt option"
  ss_halt_time :: pyfloat
  ss_events :: "session_halt list"

record session_limits =
  sl_max_drawdown :: pyfloat
  sl_max_loss :: pyfloat
  sl_max_consecutive :: int
  sl_max_order_usd :: pyfloat

definition default_session_limits :: session_limits where
  "default_session_limits = \<lparr>sl_max_drawdown = round_double (5 / 100), sl_max_loss = round_double (3 / 100),
     sl_max_consecutive = 3, sl_max_order_usd = Fin 10000\<rparr>"

definition session_at :: "pyfloat \<Rightarrow> session_state" where
  "session_at equity = \<lparr>ss_start_equity = equity, ss_peak_equity = equity, ss_current_equity = equity, ss_session_pnl = Fin 0,
     ss_consecutive_losses = 0, ss_total_trades = 0, ss_halted = False, ss_halt_reason = None, ss_halt_time = Fin 0, ss_events = []\<rparr>"

text \<open>A fall as a share of a level that is positive, or no number.\<close>

definition fall_from :: "pyfloat \<Rightarrow> pyfloat \<Rightarrow> pyfloat" where
  "fall_from level x = (if fl_le level (Fin 0) then Fin 0 else the (fl_div (fl_sub level x) level))"

definition session_drawdown :: "session_state \<Rightarrow> pyfloat" where
  "session_drawdown s = fall_from (ss_peak_equity s) (ss_current_equity s)"

definition session_loss_pct :: "session_state \<Rightarrow> pyfloat" where
  "session_loss_pct s = fall_from (ss_start_equity s) (ss_current_equity s)"

section \<open>The guard\<close>

definition start_session :: "pyfloat \<Rightarrow> session_state \<Rightarrow> session_state" where
  "start_session equity s = session_at equity"

definition check_session_order :: "session_limits \<Rightarrow> pyfloat \<Rightarrow> session_state \<Rightarrow> session_error + unit" where
  "check_session_order limits size_usd s =
     (if ss_halted s then Inl (SessionHalted (ss_halt_reason s))
      else if fl_lt (sl_max_order_usd limits) size_usd then Inl (OrderTooLarge size_usd (sl_max_order_usd limits))
      else Inr ())"

definition halt_session :: "pyfloat \<Rightarrow> session_halt \<Rightarrow> session_state \<Rightarrow> session_state" where
  "halt_session now reason s = s\<lparr>ss_halted := True, ss_halt_reason := Some reason, ss_halt_time := now,
     ss_events := ss_events s @ [reason]\<rparr>"

definition check_session_limits :: "session_limits \<Rightarrow> pyfloat \<Rightarrow> session_state \<Rightarrow> session_state" where
  "check_session_limits limits now s =
     (if ss_halted s then s
      else if fl_le (sl_max_drawdown limits) (session_drawdown s) then halt_session now SessionDrawdown s
      else if fl_le (sl_max_loss limits) (session_loss_pct s) then halt_session now SessionLoss s
      else if sl_max_consecutive limits \<le> int (ss_consecutive_losses s) then halt_session now ConsecutiveLosses s
      else s)"

definition record_trade :: "session_limits \<Rightarrow> pyfloat \<Rightarrow> pyfloat \<Rightarrow> pyfloat \<Rightarrow> session_state \<Rightarrow> session_state" where
  "record_trade limits now pnl equity s =
     check_session_limits limits now
       (s\<lparr>ss_session_pnl := fl_add (ss_session_pnl s) pnl, ss_total_trades := ss_total_trades s + 1,
          ss_current_equity := equity, ss_peak_equity := fl_max (ss_peak_equity s) equity,
          ss_consecutive_losses := (if fl_lt pnl (Fin 0) then ss_consecutive_losses s + 1 else 0)\<rparr>)"

definition reset_session :: "session_state \<Rightarrow> session_state" where
  "reset_session s = s\<lparr>ss_halted := False, ss_halt_reason := None, ss_consecutive_losses := 0\<rparr>"

section \<open>The drawdown guard\<close>

definition adjust_position_size :: "pyfloat \<Rightarrow> pyfloat \<Rightarrow> pyfloat" where
  "adjust_position_size drawdown base_size =
     (if fl_le drawdown (Fin 0) then base_size
      else let factor = fl_max (round_double (1 / 10)) (fl_sub (Fin 1) (fl_mul drawdown (Fin (5 / 2))))
           in fl_round 4 (fl_mul base_size factor))"

section \<open>What a session guarantees\<close>

lemma halt_simps [simp]:
  "ss_halted (halt_session now r s)" "ss_current_equity (halt_session now r s) = ss_current_equity s"
  "ss_peak_equity (halt_session now r s) = ss_peak_equity s" "ss_start_equity (halt_session now r s) = ss_start_equity s"
  by (simp_all add: halt_session_def)

datatype session_op = Trade pyfloat pyfloat pyfloat | Start pyfloat | Reset

fun run_session :: "session_limits \<Rightarrow> session_op \<Rightarrow> session_state \<Rightarrow> session_state" where
  "run_session limits (Trade now pnl equity) s = record_trade limits now pnl equity s"
| "run_session limits (Start equity) s = start_session equity s"
| "run_session limits Reset s = reset_session s"

lemma session_halted_stays: "ss_halted s \<Longrightarrow> ss_halted (record_trade limits now pnl equity s)"
  by (simp add: record_trade_def check_session_limits_def)

text \<open>
  The peak is the highest equity since the start, and the start is never above it: the share lost
  since the peak is at least the share lost since the start.
\<close>

definition session_ok :: "session_state \<Rightarrow> bool" where
  "session_ok s \<longleftrightarrow> (ss_halted s \<longleftrightarrow> ss_halt_reason s \<noteq> None) \<and>
     \<not> fl_lt (ss_peak_equity s) (ss_start_equity s) \<and> ss_consecutive_losses s \<le> ss_total_trades s"

lemma fl_max_keeps: "\<not> fl_lt x z \<Longrightarrow> \<not> fl_lt (fl_max x y) z"
  by (cases x; cases y; cases z) (auto simp: fl_max_def)

lemma check_limits_ok: "session_ok s \<Longrightarrow> session_ok (check_session_limits limits now s)"
  by (simp add: check_session_limits_def session_ok_def halt_session_def)

lemma record_trade_ok: "session_ok s \<Longrightarrow> session_ok (record_trade limits now pnl equity s)"
  unfolding record_trade_def by (rule check_limits_ok) (auto simp: session_ok_def fl_max_keeps)

lemma run_session_ok: "session_ok s \<Longrightarrow> session_ok (run_session limits op s)"
  by (cases op) (simp_all add: record_trade_ok, auto simp: start_session_def session_at_def reset_session_def session_ok_def)

interpretation session: guarded_machine "\<lambda>s. \<exists>equity. s = session_at equity" "run_session limits" session_ok for limits
proof unfold_locales
  show "session_ok (run_session limits op s)" if "session_ok s" for op s using run_session_ok [OF that] .
qed (auto simp: session_at_def session_ok_def)

lemma trade_limits:
  assumes "\<not> ss_halted (record_trade limits now pnl equity s)"
  shows "\<not> fl_le (sl_max_drawdown limits) (session_drawdown (record_trade limits now pnl equity s)) \<and>
    \<not> fl_le (sl_max_loss limits) (session_loss_pct (record_trade limits now pnl equity s)) \<and>
    int (ss_consecutive_losses (record_trade limits now pnl equity s)) < sl_max_consecutive limits"
  using assms by (auto simp: record_trade_def check_session_limits_def split: if_splits)

lemma session_halted_run:
  "ss_halted s \<Longrightarrow> list_all (\<lambda>op. \<exists>now pnl equity. op = Trade now pnl equity) ops \<Longrightarrow> ss_halted (fold (run_session limits) ops s)"
  by (induction ops arbitrary: s) (auto simp: session_halted_stays)

text \<open>
  C35: A session stops trading when it has to. In any history of trades, starts and resets, an order
  that the guard lets pass right after a trade is not over the maximal size, and the session
  has lost less than the allowed share since its peak and since its start, with fewer losses in
  a row than allowed; and once a trade has broken one of these limits, every order is refused
  with the reason through all later trades, until an operator resets or a session is started.
\<close>

theorem session_stops:
  assumes "s = fold (run_session limits) ops (session_at equity0)" "t = record_trade limits now pnl equity s"
  shows "(check_session_order limits size_usd t = Inr () \<longrightarrow>
      \<not> fl_lt (sl_max_order_usd limits) size_usd \<and> \<not> fl_le (sl_max_drawdown limits) (session_drawdown t) \<and>
      \<not> fl_le (sl_max_loss limits) (session_loss_pct t) \<and> int (ss_consecutive_losses t) < sl_max_consecutive limits) \<and>
    (ss_halted t \<and> list_all (\<lambda>op. \<exists>now pnl equity. op = Trade now pnl equity) later \<longrightarrow>
      (\<exists>r. check_session_order limits size_usd (fold (run_session limits) later t) = Inl (SessionHalted (Some r))))"
proof (intro conjI impI)
  assume pass: "check_session_order limits size_usd t = Inr ()"
  then have "\<not> ss_halted t" "\<not> fl_lt (sl_max_order_usd limits) size_usd" by (auto simp: check_session_order_def split: if_splits)
  with trade_limits [of limits now pnl equity s] assms(2)
  show "\<not> fl_lt (sl_max_order_usd limits) size_usd" "\<not> fl_le (sl_max_drawdown limits) (session_drawdown t)"
    "\<not> fl_le (sl_max_loss limits) (session_loss_pct t)" "int (ss_consecutive_losses t) < sl_max_consecutive limits" by auto
next
  assume halt: "ss_halted t \<and> list_all (\<lambda>op. \<exists>now pnl equity. op = Trade now pnl equity) later"
  let ?u = "fold (run_session limits) later t"
  have "?u = fold (run_session limits) (ops @ [Trade now pnl equity] @ later) (session_at equity0)" using assms by simp
  then have "session_ok ?u" using session.run_inv [of "session_at equity0" limits "ops @ [Trade now pnl equity] @ later"] by auto
  moreover have "ss_halted ?u" using halt session_halted_run by blast
  ultimately show "\<exists>r. check_session_order limits size_usd ?u = Inl (SessionHalted (Some r))"
    by (auto simp: session_ok_def check_session_order_def)
qed

theorem session_stops_witness:
  "\<exists>r. check_session_order default_session_limits (Fin 1) (fold (run_session default_session_limits) [Trade (Fin 2) (Fin 50) (Fin 9550)]
     (record_trade default_session_limits (Fin 1) (Fin (- 500)) (Fin 9500) (fold (run_session default_session_limits) [] (session_at (Fin 10000))))) =
     Inl (SessionHalted (Some r))"
  by (rule session_stops [OF refl refl, THEN conjunct2, THEN mp])
    (simp add: record_trade_def check_session_limits_def session_drawdown_def fall_from_def session_at_def default_session_limits_def
      fl_max_def fl_sub_def round_eval float_eval)

end
