(* ===== verification/DecisionLifecycle.thy ===== *)
theory DecisionLifecycle
  imports PyPrelude
begin

text \<open>
  \<^verbatim>\<open>src/core/lifecycle.py\<close> with the states of \<^verbatim>\<open>src/core/decision_packet.py\<close>: the graph a decision
  moves through, the graph that is used when the module cannot be imported, and the checks the
  program runs over the graph at its start. A set of states is a list; the texts of a check keep
  their kind and state. The diagrams are left out.
\<close>

section \<open>The states\<close>

datatype decision_state =
    CREATED | SIGNAL_GENERATED | CONTEXT_ENRICHED | REGIME_VALIDATED | RISK_EVALUATED | APPROVED
  | EXECUTION_PENDING | EXECUTED | MONITORED | CLOSED | POSTMORTEM_ANALYZED
  | REJECTED | EXPIRED | CANCELLED | FAILED | VETOED

definition all_states :: "decision_state list" where
  "all_states = [CREATED, SIGNAL_GENERATED, CONTEXT_ENRICHED, REGIME_VALIDATED, RISK_EVALUATED, APPROVED,
     EXECUTION_PENDING, EXECUTED, MONITORED, CLOSED, POSTMORTEM_ANALYZED,
     REJECTED, EXPIRED, CANCELLED, FAILED, VETOED]"

definition exceptional_states :: "decision_state list" where
  "exceptional_states = [REJECTED, EXPIRED, CANCELLED, FAILED, VETOED]"

definition terminal_states :: "decision_state list" where
  "terminal_states = exceptional_states @ [POSTMORTEM_ANALYZED]"

fun valid_transitions :: "decision_state \<Rightarrow> decision_state list" where
  "valid_transitions CREATED = [SIGNAL_GENERATED]"
| "valid_transitions SIGNAL_GENERATED = [CONTEXT_ENRICHED]"
| "valid_transitions CONTEXT_ENRICHED = [REGIME_VALIDATED, RISK_EVALUATED]"
| "valid_transitions REGIME_VALIDATED = [RISK_EVALUATED]"
| "valid_transitions RISK_EVALUATED = [APPROVED]"
| "valid_transitions APPROVED = [EXECUTION_PENDING]"
| "valid_transitions EXECUTION_PENDING = [EXECUTED]"
| "valid_transitions EXECUTED = [MONITORED]"
| "valid_transitions MONITORED = [CLOSED]"
| "valid_transitions CLOSED = [POSTMORTEM_ANALYZED]"
| "valid_transitions _ = []"

fun state_value :: "decision_state \<Rightarrow> string" where
  "state_value CREATED = ''CREATED''"
| "state_value SIGNAL_GENERATED = ''SIGNAL_GENERATED''"
| "state_value CONTEXT_ENRICHED = ''CONTEXT_ENRICHED''"
| "state_value REGIME_VALIDATED = ''REGIME_VALIDATED''"
| "state_value RISK_EVALUATED = ''RISK_EVALUATED''"
| "state_value APPROVED = ''APPROVED''"
| "state_value EXECUTION_PENDING = ''EXECUTION_PENDING''"
| "state_value EXECUTED = ''EXECUTED''"
| "state_value MONITORED = ''MONITORED''"
| "state_value CLOSED = ''CLOSED''"
| "state_value POSTMORTEM_ANALYZED = ''POSTMORTEM_ANALYZED''"
| "state_value REJECTED = ''REJECTED''"
| "state_value EXPIRED = ''EXPIRED''"
| "state_value CANCELLED = ''CANCELLED''"
| "state_value FAILED = ''FAILED''"
| "state_value VETOED = ''VETOED''"

section \<open>The graph\<close>

definition nominal :: "decision_state list \<Rightarrow> decision_state list" where
  "nominal next_states = next_states @ exceptional_states"

fun graph_transitions :: "decision_state \<Rightarrow> decision_state list" where
  "graph_transitions CREATED = nominal [SIGNAL_GENERATED]"
| "graph_transitions SIGNAL_GENERATED = nominal [CONTEXT_ENRICHED]"
| "graph_transitions CONTEXT_ENRICHED = nominal [REGIME_VALIDATED, RISK_EVALUATED]"
| "graph_transitions REGIME_VALIDATED = nominal [RISK_EVALUATED]"
| "graph_transitions RISK_EVALUATED = nominal [APPROVED]"
| "graph_transitions APPROVED = nominal [EXECUTION_PENDING]"
| "graph_transitions EXECUTION_PENDING = nominal [EXECUTED]"
| "graph_transitions EXECUTED = nominal [MONITORED]"
| "graph_transitions MONITORED = nominal [CLOSED]"
| "graph_transitions CLOSED = nominal [POSTMORTEM_ANALYZED]"
| "graph_transitions POSTMORTEM_ANALYZED = []"
| "graph_transitions REJECTED = []"
| "graph_transitions EXPIRED = []"
| "graph_transitions CANCELLED = []"
| "graph_transitions FAILED = []"
| "graph_transitions VETOED = []"

definition is_transition_allowed :: "decision_state \<Rightarrow> decision_state \<Rightarrow> bool" where
  "is_transition_allowed from_state to_state \<longleftrightarrow> to_state \<in> set (graph_transitions from_state)"

definition graph_is_terminal :: "decision_state \<Rightarrow> bool" where
  "graph_is_terminal s \<longleftrightarrow> graph_transitions s = []"

definition is_exceptional_terminal :: "decision_state \<Rightarrow> bool" where
  "is_exceptional_terminal s \<longleftrightarrow> s \<in> set exceptional_states"

text \<open>The guard of a packet when \<^verbatim>\<open>lifecycle\<close> cannot be imported.\<close>

definition fallback_allows :: "decision_state \<Rightarrow> decision_state \<Rightarrow> bool" where
  "fallback_allows current new_state \<longleftrightarrow>
     new_state \<in> set exceptional_states \<or> new_state \<in> set (valid_transitions current)"

section \<open>The checks of the graph\<close>

datatype graph_violation =
    NotCovered decision_state | TerminalHasSuccessors decision_state | NoSuccessor decision_state
  | Unreachable decision_state | SelfLoop decision_state | MissingExceptional decision_state decision_state
  | Deadlock decision_state | NominalCycle "decision_state list" decision_state
  | ExtraNominalTerminal "decision_state list" | MissingPostmortem

lemma all_states_all: "s \<in> set all_states"
  by (cases s) (simp_all add: all_states_def)

lemma fewer_unseen: "s \<notin> set seen \<Longrightarrow> card (set all_states - set (s # seen)) < card (set all_states - set seen)"
proof -
  assume "s \<notin> set seen"
  then have "s \<in> set all_states - set seen" by (simp add: all_states_all)
  moreover have "set all_states - set (s # seen) = set all_states - set seen - {s}"
    by (simp only: list.set Diff_insert [of _ s "set seen"])
  ultimately show ?thesis by (metis card_Diff1_less finite_Diff List.finite_set)
qed

text \<open>The search from a list of states that still have to be looked at, from its end.\<close>

function explore :: "decision_state list \<Rightarrow> decision_state list \<Rightarrow> decision_state list" where
  "explore queue seen =
     (if queue = [] then seen
      else let current = last queue; rest = butlast queue
           in if current \<in> set seen then explore rest seen
              else explore (rest @ graph_transitions current) (current # seen))"
  by auto
termination
  by (relation "measures [\<lambda>(queue, seen). card (set all_states - set seen), \<lambda>(queue, seen). length queue]")
    (simp_all add: fewer_unseen del: set_simps(2))

declare explore.simps [simp del]

definition verify_lifecycle_exhaustive :: "graph_violation list" where
  "verify_lifecycle_exhaustive =
     (let terminals = terminal_states; non_terminals = filter (\<lambda>s. s \<notin> set terminal_states) all_states;
          reachable = explore [CREATED] []
      in map TerminalHasSuccessors (filter (\<lambda>s. graph_transitions s \<noteq> []) terminals) @
         map NoSuccessor (filter (\<lambda>s. graph_transitions s = []) non_terminals) @
         map Unreachable (filter (\<lambda>s. s \<notin> set reachable) all_states) @
         map SelfLoop (filter (\<lambda>s. s \<in> set (graph_transitions s)) all_states) @
         concat (map (\<lambda>s. map (MissingExceptional s) (filter (\<lambda>e. e \<notin> set (graph_transitions s)) exceptional_states)) non_terminals))"

text \<open>The search of \<^verbatim>\<open>P-01\<close>, from the front, which stops at a terminal state.\<close>

function finds_terminal :: "decision_state list \<Rightarrow> decision_state list \<Rightarrow> bool" where
  "finds_terminal [] visited = False"
| "finds_terminal (current # queue) visited =
     (if current \<in> set visited then finds_terminal queue visited
      else if graph_transitions current = [] then True
      else finds_terminal (queue @ filter (\<lambda>s. s \<notin> set (current # visited)) (graph_transitions current)) (current # visited))"
  by pat_completeness auto
termination
  by (relation "measures [\<lambda>(queue, seen). card (set all_states - set seen), \<lambda>(queue, seen). length queue]")
    (simp_all add: fewer_unseen del: set_simps(2))

declare finds_terminal.simps [simp del]

definition verify_no_deadlock :: "graph_violation list" where
  "verify_no_deadlock = map Deadlock (filter (\<lambda>s. graph_transitions s \<noteq> [] \<and> \<not> finds_terminal [s] []) all_states)"

definition nominal_successors :: "decision_state \<Rightarrow> decision_state list" where
  "nominal_successors s = filter (\<lambda>t. t \<notin> set exceptional_states) (graph_transitions s)"

definition verify_unique_nominal_terminal :: "graph_violation list" where
  "verify_unique_nominal_terminal =
     (let nominal_terminals = filter (\<lambda>s. s \<notin> set exceptional_states) terminal_states;
          extra = filter (\<lambda>s. s \<noteq> POSTMORTEM_ANALYZED) nominal_terminals
      in (if extra \<noteq> [] then [ExtraNominalTerminal extra] else []) @
         (if POSTMORTEM_ANALYZED \<notin> set nominal_terminals then [MissingPostmortem] else []))"

text \<open>
  The depth-first search of \<^verbatim>\<open>P-02\<close> with its colours. The answer of a visit says that a cycle was
  found; the fuel bounds the depth, and running out of it is \<^term>\<open>None\<close>.
\<close>

datatype colour = WHITE | GRAY | BLACK

record dfs_state =
  df_colour :: "(decision_state, colour) dict"
  df_path :: "decision_state list"
  df_found :: "graph_violation list"

definition colour_of :: "dfs_state \<Rightarrow> decision_state \<Rightarrow> colour" where
  "colour_of st v = (case dict_get (df_colour st) v of Some c \<Rightarrow> c | None \<Rightarrow> WHITE)"

definition paint :: "decision_state \<Rightarrow> colour \<Rightarrow> dfs_state \<Rightarrow> dfs_state" where
  "paint v c st = st\<lparr>df_colour := dict_set (df_colour st) v c\<rparr>"

fun dfs :: "nat \<Rightarrow> decision_state \<Rightarrow> dfs_state \<Rightarrow> (dfs_state \<times> bool) option"
  and dfs_successors :: "nat \<Rightarrow> decision_state \<Rightarrow> decision_state list \<Rightarrow> dfs_state \<Rightarrow> (dfs_state \<times> bool) option" where
  "dfs 0 v st = None"
| "dfs (Suc n) v st = dfs_successors n v (sort_key state_value (nominal_successors v))
     ((paint v GRAY st)\<lparr>df_path := df_path st @ [v]\<rparr>)"
| "dfs_successors n v [] st = Some (paint v BLACK (st\<lparr>df_path := butlast (df_path st)\<rparr>), False)"
| "dfs_successors n v (u # us) st =
     (case colour_of st u of
        GRAY \<Rightarrow> Some (st\<lparr>df_found := df_found st @ [NominalCycle (dropWhile (\<lambda>x. x \<noteq> u) (df_path st)) u]\<rparr>, True)
      | WHITE \<Rightarrow> (case dfs n u st of
                   None \<Rightarrow> None
                 | Some (st', True) \<Rightarrow> Some (st', True)
                 | Some (st', False) \<Rightarrow> dfs_successors n v us st')
      | BLACK \<Rightarrow> dfs_successors n v us st)"

fun search_all :: "nat \<Rightarrow> decision_state list \<Rightarrow> dfs_state \<Rightarrow> dfs_state option" where
  "search_all n [] st = Some st"
| "search_all n (v # vs) st =
     (if colour_of st v = WHITE then (case dfs n v st of None \<Rightarrow> None | Some (st', _) \<Rightarrow> search_all n vs st')
      else search_all n vs st)"

definition verify_no_nominal_cycle :: "graph_violation list option" where
  "verify_no_nominal_cycle =
     map_option df_found (search_all (Suc (length all_states)) (filter (\<lambda>s. s \<notin> set terminal_states) all_states)
       \<lparr>df_colour = [], df_path = [], df_found = []\<rparr>)"

definition verify_all_properties :: "graph_violation list list option" where
  "verify_all_properties =
     map_option (\<lambda>cycles. [verify_lifecycle_exhaustive, verify_no_deadlock, cycles, verify_unique_nominal_terminal])
       verify_no_nominal_cycle"

section \<open>What the graph allows\<close>

lemmas graph_defs = is_transition_allowed_def nominal_def exceptional_states_def terminal_states_def

text \<open>Every move goes up in this order.\<close>

fun life_rank :: "decision_state \<Rightarrow> nat" where
  "life_rank CREATED = 0"
| "life_rank SIGNAL_GENERATED = 1"
| "life_rank CONTEXT_ENRICHED = 2"
| "life_rank REGIME_VALIDATED = 3"
| "life_rank RISK_EVALUATED = 4"
| "life_rank APPROVED = 5"
| "life_rank EXECUTION_PENDING = 6"
| "life_rank EXECUTED = 7"
| "life_rank MONITORED = 8"
| "life_rank CLOSED = 9"
| "life_rank _ = 10"

lemma allowed_rises: "is_transition_allowed s t \<Longrightarrow> life_rank s < life_rank t"
  by (cases s; cases t) (simp_all add: graph_defs)

lemma terminal_stuck: "s \<in> set terminal_states \<longleftrightarrow> graph_is_terminal s"
  by (cases s) (simp_all add: graph_defs graph_is_terminal_def)

lemma fallback_agrees: "s \<notin> set terminal_states \<Longrightarrow> fallback_allows s t \<longleftrightarrow> is_transition_allowed s t"
  by (cases s) (auto simp: graph_defs fallback_allows_def)

text \<open>The states a decision has moved to, in their order.\<close>

inductive life_path :: "decision_state \<Rightarrow> decision_state list \<Rightarrow> decision_state \<Rightarrow> bool" where
  at_start: "life_path s [] s"
| moved: "life_path s ts t \<Longrightarrow> is_transition_allowed t u \<Longrightarrow> life_path s (ts @ [u]) u"

inductive_simps life_path_Nil [simp]: "life_path s [] t"

lemma path_rises: "life_path s ts t \<Longrightarrow> life_rank s + length ts \<le> life_rank t"
  by (induction rule: life_path.induct) (auto dest!: allowed_rises)

lemma rank_bound: "life_rank s \<le> 10"
  by (cases s) simp_all

definition nominal_flow :: "decision_state list" where
  "nominal_flow = [SIGNAL_GENERATED, CONTEXT_ENRICHED, RISK_EVALUATED, APPROVED, EXECUTION_PENDING, EXECUTED, MONITORED,
     CLOSED, POSTMORTEM_ANALYZED]"

definition flow_to :: "decision_state \<Rightarrow> decision_state list" where
  "flow_to s = takeWhile (\<lambda>u. life_rank u \<le> life_rank s) nominal_flow"

lemma flow_step:
  "is_transition_allowed t u \<Longrightarrow> u \<notin> set exceptional_states \<Longrightarrow> u \<noteq> REGIME_VALIDATED \<Longrightarrow> flow_to u = flow_to t @ [u]"
  by (cases t; cases u) (simp_all add: graph_defs flow_to_def nominal_flow_def)

lemma flow_regime: "is_transition_allowed t REGIME_VALIDATED \<Longrightarrow> flow_to REGIME_VALIDATED = flow_to t"
  by (cases t) (simp_all add: graph_defs flow_to_def nominal_flow_def)

lemma path_is_flow:
  assumes "life_path CREATED ts t" "t \<notin> set exceptional_states"
  shows "filter (\<lambda>u. u \<noteq> REGIME_VALIDATED) ts = flow_to t"
  using assms
proof (induction CREATED ts t rule: life_path.induct)
  case at_start
  show ?case by (simp add: flow_to_def nominal_flow_def)
next
  case (moved ts t u)
  have "t \<notin> set exceptional_states" using moved.hyps(3) by (cases t) (simp_all add: graph_defs)
  with moved have "filter (\<lambda>u. u \<noteq> REGIME_VALIDATED) ts = flow_to t" by simp
  with moved.hyps(3) moved.prems show ?case by (cases "u = REGIME_VALIDATED") (simp_all add: flow_regime flow_step)
qed

text \<open>
  The checks the program makes at its start all pass.
\<close>

lemma lifecycle_checks_pass: "verify_all_properties = Some [[], [], [], []]"
  by code_simp

end
