(* ===== verification/DecisionPacket.thy ===== *)
theory DecisionPacket
  imports DecisionLifecycle PyJson PySha256 FloatOrder
begin

text \<open>
  \<^verbatim>\<open>src/core/decision_packet.py\<close>: the packet that carries a decision through the program, the one
  operation that moves it, its reasoning and confidence, the veto, and the chain of hashes over
  its moves. A moment is its microseconds since the first day of year one. Prices, identifiers and
  the forms for storage, which no operation here reads, are left out, and so is the signature,
  which an external signer makes.
\<close>

section \<open>Moments\<close>

definition is_leap :: "nat \<Rightarrow> bool" where
  "is_leap y \<longleftrightarrow> y mod 4 = 0 \<and> (y mod 100 \<noteq> 0 \<or> y mod 400 = 0)"

definition month_lengths :: "nat \<Rightarrow> nat list" where
  "month_lengths y = [31, if is_leap y then 29 else 28, 31, 30, 31, 30, 31, 31, 30, 31, 30, 31]"

fun month_day :: "nat \<Rightarrow> nat list \<Rightarrow> nat \<Rightarrow> nat \<times> nat" where
  "month_day m (l # ls) d = (if d < l \<or> ls = [] then (m, d + 1) else month_day (m + 1) ls (d - l))"
| "month_day m [] d = (m, d + 1)"

definition civil_date :: "nat \<Rightarrow> nat \<times> nat \<times> nat" where
  "civil_date days =
     (let r = days mod 146097; c = min 3 (r div 36524); r2 = r - c * 36524; q = r2 div 1461; r3 = r2 mod 1461;
          a = min 3 (r3 div 365); y = 400 * (days div 146097) + 100 * c + 4 * q + a + 1
      in (y, month_day 1 (month_lengths y) (r3 - a * 365)))"

definition padded :: "nat \<Rightarrow> nat \<Rightarrow> string" where
  "padded k n = (let s = show_nat n in replicate (k - length s) (CHR ''0'') @ s)"

definition isoformat :: "nat \<Rightarrow> string" where
  "isoformat us =
     (case civil_date (us div 86400000000) of
        (y, m, d) \<Rightarrow>
          let t = us mod 86400000000; s = t div 1000000; f = t mod 1000000
          in padded 4 y @ ''-'' @ padded 2 m @ ''-'' @ padded 2 d @ ''T'' @ padded 2 (s div 3600) @ '':'' @
             padded 2 (s div 60 mod 60) @ '':'' @ padded 2 (s mod 60) @ (if f = 0 then [] else ''.'' @ padded 6 f))"

text \<open>\<^verbatim>\<open>int(delta.total_seconds() * 1000)\<close>.\<close>

definition elapsed_ms :: "nat \<Rightarrow> nat \<Rightarrow> int" where
  "elapsed_ms now before =
     (case fl_mul (round_double (of_int (int now - int before) / 1000000)) (Fin 1000) of
        Fin q \<Rightarrow> truncate_rat q
      | _ \<Rightarrow> 0)"

section \<open>The packet\<close>

datatype decision_side = LONG | SHORT | FLAT

datatype market_regime = TREND_BULL | TREND_BEAR | RANGE | VOLATILE | UNKNOWN

datatype event_category = TRADE | GOVERNANCE | SYSTEM

datatype conviction_level = VERY_HIGH | HIGH | MEDIUM | LOW | SKIP

datatype reasoning_severity = INFO | WARNING | CRITICAL | FATAL

datatype reasoning_category =
    SIGNAL_QUALITY | TREND_ALIGNMENT | RISK_GOVERNANCE | PORTFOLIO_EXPOSURE | PORTFOLIO_CONCENTRATION
  | PORTFOLIO_CORRELATION | PORTFOLIO_RISK_BUDGET | SIZING | GOVERNED | UNCATEGORIZED

fun blocked_states :: "event_category \<Rightarrow> decision_state list" where
  "blocked_states TRADE = []"
| "blocked_states _ = [APPROVED, EXECUTION_PENDING, EXECUTED, MONITORED, CLOSED, POSTMORTEM_ANALYZED]"

record state_transition =
  st_from :: string
  st_to :: string
  st_time :: nat
  st_actor :: string
  st_reason :: string
  st_duration_ms :: int
  st_confidence_before :: pyfloat
  st_confidence_after :: pyfloat
  st_previous_hash :: string
  st_current_hash :: string

record reasoning_entry =
  re_actor :: string
  re_message :: string
  re_impact :: pyfloat
  re_time :: nat
  re_category :: reasoning_category
  re_severity :: reasoning_severity

record decision_packet =
  dp_symbol :: string
  dp_category :: event_category
  dp_side :: decision_side
  dp_confidence :: pyfloat
  dp_confidence_raw :: "pyfloat option"
  dp_adjusted :: "pyfloat option"
  dp_regime :: market_regime
  dp_allocation_pct :: pyfloat
  dp_conviction :: conviction_level
  dp_veto :: bool
  dp_veto_reason :: "string option"
  dp_state :: decision_state
  dp_history :: "state_transition list"
  dp_agents :: "string list"
  dp_reasoning :: "reasoning_entry list"
  dp_features :: "(string, pyfloat) dict"
  dp_metadata :: "(string, pyjson) dict"

text \<open>\<^verbatim>\<open>max(0.0, min(100.0, x))\<close>.\<close>

definition clamp_score :: "pyfloat \<Rightarrow> pyfloat" where
  "clamp_score x = fl_max (Fin 0) (fl_min (Fin 100) x)"

definition post_init :: "decision_packet \<Rightarrow> decision_packet" where
  "post_init p =
     (let base = clamp_score (dp_confidence p);
          adjusted = (case dp_adjusted p of None \<Rightarrow> base | Some a \<Rightarrow> a)
      in p\<lparr>dp_confidence_raw := (case dp_confidence_raw p of None \<Rightarrow> Some base | r \<Rightarrow> r),
           dp_adjusted := Some adjusted, dp_confidence := clamp_score adjusted\<rparr>)"

definition new_packet :: "string \<Rightarrow> event_category \<Rightarrow> decision_side \<Rightarrow> pyfloat \<Rightarrow> market_regime \<Rightarrow> decision_packet" where
  "new_packet symbol category side confidence regime = post_init
     \<lparr>dp_symbol = symbol, dp_category = category, dp_side = side, dp_confidence = confidence, dp_confidence_raw = None,
      dp_adjusted = None, dp_regime = regime, dp_allocation_pct = Fin 0, dp_conviction = SKIP, dp_veto = False, dp_veto_reason = None,
      dp_state = CREATED, dp_history = [], dp_agents = [], dp_reasoning = [], dp_features = [], dp_metadata = []\<rparr>"

section \<open>Moving it\<close>

text \<open>The default separators of \<^verbatim>\<open>json.dumps\<close>, with ASCII escapes.\<close>

definition ascii_layout :: json_layout where
  "ascii_layout = (line_layout '' '')\<lparr>ly_escape := ascii_char\<rparr>"

definition hashed_fields :: "string \<Rightarrow> string \<Rightarrow> string \<Rightarrow> string \<Rightarrow> string \<Rightarrow> string \<Rightarrow> (string \<times> pyjson) list" where
  "hashed_fields from_state to_state stamp actor reason previous =
     [(''actor'', JStr actor), (''from_state'', JStr from_state), (''previous_hash'', JStr previous), (''reason'', JStr reason),
      (''timestamp'', JStr stamp), (''to_state'', JStr to_state)]"

definition hashed_text :: "string \<Rightarrow> string \<Rightarrow> string \<Rightarrow> string \<Rightarrow> string \<Rightarrow> string \<Rightarrow> string" where
  "hashed_text from_state to_state stamp actor reason previous =
     render ascii_layout 0 (JObj (hashed_fields from_state to_state stamp actor reason previous))"

definition compute_hash :: "string \<Rightarrow> string \<Rightarrow> string \<Rightarrow> string \<Rightarrow> string \<Rightarrow> string \<Rightarrow> string" where
  "compute_hash from_state to_state stamp actor reason previous =
     sha256_hex (hashed_text from_state to_state stamp actor reason previous)"

datatype packet_error = AlreadyTerminal decision_state | InvalidTransition decision_state decision_state | CategoryBlocked event_category decision_state

definition last_hash :: "state_transition list \<Rightarrow> string" where
  "last_hash h = (if h = [] then [] else st_current_hash (last h))"

definition transition_record :: "decision_state \<Rightarrow> string \<Rightarrow> string \<Rightarrow> nat \<Rightarrow> decision_packet \<Rightarrow> state_transition" where
  "transition_record new_state actor reason now p =
     (let h = dp_history p; prev = last_hash h
      in \<lparr>st_from = state_value (dp_state p), st_to = state_value new_state, st_time = now, st_actor = actor, st_reason = reason,
          st_duration_ms = (if h = [] then 0 else elapsed_ms now (st_time (last h))),
          st_confidence_before = (if h = [] then Fin 0 else st_confidence_after (last h)),
          st_confidence_after = dp_confidence p, st_previous_hash = prev,
          st_current_hash = compute_hash (state_value (dp_state p)) (state_value new_state) (isoformat now) actor reason prev\<rparr>)"

definition move_packet ::
  "decision_state \<Rightarrow> string \<Rightarrow> string \<Rightarrow> nat \<Rightarrow> decision_packet \<Rightarrow> decision_packet \<times> packet_error option" where
  "move_packet new_state actor reason now p =
     (if dp_state p \<in> set terminal_states then (p, Some (AlreadyTerminal (dp_state p)))
      else if \<not> is_transition_allowed (dp_state p) new_state then (p, Some (InvalidTransition (dp_state p) new_state))
      else if new_state \<in> set (blocked_states (dp_category p)) then (p, Some (CategoryBlocked (dp_category p) new_state))
      else (p\<lparr>dp_history := dp_history p @ [transition_record new_state actor reason now p], dp_state := new_state\<rparr>, None))"

section \<open>Enriching it\<close>

definition add_agent :: "string \<Rightarrow> decision_packet \<Rightarrow> decision_packet" where
  "add_agent name p = (if name \<in> set (dp_agents p) then p else p\<lparr>dp_agents := dp_agents p @ [name]\<rparr>)"

definition add_reasoning ::
  "string \<Rightarrow> string \<Rightarrow> pyfloat \<Rightarrow> reasoning_category \<Rightarrow> reasoning_severity \<Rightarrow> nat \<Rightarrow> decision_packet \<Rightarrow> decision_packet" where
  "add_reasoning actor message impact category severity now p =
     (let raw = (case dp_confidence_raw p of None \<Rightarrow> clamp_score (dp_confidence p) | Some r \<Rightarrow> r);
          adjusted = (case dp_adjusted p of None \<Rightarrow> clamp_score (dp_confidence p) | Some a \<Rightarrow> a);
          adjusted' = (if impact \<noteq> Fin 0 then clamp_score (fl_add adjusted impact) else adjusted)
      in p\<lparr>dp_reasoning := dp_reasoning p @ [\<lparr>re_actor = actor, re_message = message, re_impact = impact, re_time = now,
             re_category = category, re_severity = severity\<rparr>],
           dp_confidence_raw := Some raw, dp_adjusted := Some adjusted', dp_confidence := adjusted'\<rparr>)"

text \<open>Each reads the clock twice. What they have changed stays when the transition is refused.\<close>

definition veto_by :: "string \<Rightarrow> string \<Rightarrow> nat \<Rightarrow> nat \<Rightarrow> decision_packet \<Rightarrow> decision_packet \<times> packet_error option" where
  "veto_by actor reason noted now p =
     move_packet VETOED actor reason now
       (add_reasoning actor (''[VETO] '' @ reason) (Fin (- 100)) GOVERNED FATAL noted
         (add_agent actor (p\<lparr>dp_veto := True, dp_veto_reason := Some reason\<rparr>)))"

definition reject_packet :: "string \<Rightarrow> string \<Rightarrow> nat \<Rightarrow> nat \<Rightarrow> decision_packet \<Rightarrow> decision_packet \<times> packet_error option" where
  "reject_packet actor reason noted now p =
     move_packet REJECTED actor reason now
       (add_reasoning actor (''[REJECTED] '' @ reason) (Fin 0) UNCATEGORIZED INFO noted (add_agent actor p))"

definition is_actionable :: "decision_packet \<Rightarrow> bool" where
  "is_actionable p \<longleftrightarrow> \<not> dp_veto p \<and> dp_state p \<notin> set terminal_states \<and> dp_side p \<noteq> FLAT"

definition packet_is_terminal :: "decision_packet \<Rightarrow> bool" where
  "packet_is_terminal p \<longleftrightarrow> dp_state p \<in> set terminal_states"

fun chain_from :: "string \<Rightarrow> state_transition list \<Rightarrow> bool" where
  "chain_from expected [] = True"
| "chain_from expected (t # ts) =
     (if st_current_hash t = [] then False
      else if st_previous_hash t \<noteq> expected then False
      else if compute_hash (st_from t) (st_to t) (isoformat (st_time t)) (st_actor t) (st_reason t) (st_previous_hash t)
                \<noteq> st_current_hash t then False
      else chain_from (st_current_hash t) ts)"

definition verify_chain :: "decision_packet \<Rightarrow> bool" where
  "verify_chain p = chain_from [] (dp_history p)"

section \<open>Histories of a packet\<close>

datatype packet_op =
    Move decision_state string string nat
  | Veto string string nat nat
  | Reject string string nat nat
  | Reason string string pyfloat reasoning_category reasoning_severity nat
  | Agent string
  | Feature string pyfloat
  | Meta string pyjson

fun run_packet :: "packet_op \<Rightarrow> decision_packet \<Rightarrow> decision_packet" where
  "run_packet (Move s actor reason now) p = fst (move_packet s actor reason now p)"
| "run_packet (Veto actor reason noted now) p = fst (veto_by actor reason noted now p)"
| "run_packet (Reject actor reason noted now) p = fst (reject_packet actor reason noted now p)"
| "run_packet (Reason actor message impact cat sev now) p = add_reasoning actor message impact cat sev now p"
| "run_packet (Agent name) p = add_agent name p"
| "run_packet (Feature k v) p = p\<lparr>dp_features := dict_set (dp_features p) k v\<rparr>"
| "run_packet (Meta k v) p = p\<lparr>dp_metadata := dict_set (dp_metadata p) k v\<rparr>"

definition life_of :: "packet_op list \<Rightarrow> decision_packet \<Rightarrow> decision_packet" where
  "life_of ops p = fold run_packet ops p"

lemma enrich_simps [simp]:
  "dp_state (add_agent n p) = dp_state p" "dp_history (add_agent n p) = dp_history p" "dp_category (add_agent n p) = dp_category p"
  "dp_confidence (add_agent n p) = dp_confidence p" "dp_adjusted (add_agent n p) = dp_adjusted p"
  "dp_confidence_raw (add_agent n p) = dp_confidence_raw p" "dp_veto (add_agent n p) = dp_veto p" "dp_side (add_agent n p) = dp_side p"
  "dp_state (add_reasoning a m i c v now p) = dp_state p" "dp_history (add_reasoning a m i c v now p) = dp_history p"
  "dp_category (add_reasoning a m i c v now p) = dp_category p" "dp_veto (add_reasoning a m i c v now p) = dp_veto p"
  "dp_side (add_reasoning a m i c v now p) = dp_side p"
  by (simp_all add: add_agent_def add_reasoning_def Let_def)

lemma transition_keeps [simp]:
  "dp_category (fst (move_packet s a r now p)) = dp_category p" "dp_confidence (fst (move_packet s a r now p)) = dp_confidence p"
  "dp_adjusted (fst (move_packet s a r now p)) = dp_adjusted p" "dp_veto (fst (move_packet s a r now p)) = dp_veto p"
  by (simp_all add: move_packet_def)

text \<open>The score after every clamp is a number from 0 to 100.\<close>

definition score_range :: "pyfloat \<Rightarrow> bool" where
  "score_range x \<longleftrightarrow> fl_le (Fin 0) x \<and> fl_le x (Fin 100)"

lemma clamp_range: "score_range (clamp_score x)"
  by (cases x) (auto simp: score_range_def clamp_score_def fl_max_def fl_min_def)

lemma clamp_id: "score_range x \<Longrightarrow> clamp_score x = x"
  by (cases x) (auto simp: score_range_def clamp_score_def fl_max_def fl_min_def)

lemma clamp_nan: "clamp_score NaN = Fin 100"
  by (simp add: clamp_score_def fl_max_def fl_min_def)

section \<open>The chain\<close>

lemma chain_snoc:
  "chain_from e (h @ [t]) \<longleftrightarrow> chain_from e h \<and> st_current_hash t \<noteq> [] \<and>
     st_previous_hash t = (if h = [] then e else last_hash h) \<and>
     compute_hash (st_from t) (st_to t) (isoformat (st_time t)) (st_actor t) (st_reason t) (st_previous_hash t) = st_current_hash t"
  by (induction h arbitrary: e) (auto simp: last_hash_def)

lemma compute_hash_nonempty [simp]: "compute_hash a b c d e f \<noteq> []"
  using length_sha256_hex [of "hashed_text a b c d e f"] by (auto simp: compute_hash_def)

interpretation ascii_line: json_style ascii_layout dict_hook
  by unfold_locales (simp_all add: ascii_layout_def line_layout_def is_ws_def read_ascii dict_hook_keeps)

lemma hashed_text_inj:
  assumes "hashed_text a b c d e f = hashed_text a' b' c' d' e' f'"
  shows "(a, b, c, d, e, f) = (a', b', c', d', e', f')"
proof -
  have read: "loads dict_hook (hashed_text a b c d e f) = Some (JObj (hashed_fields a b c d e f))" for a b c d e f
    using ascii_line.loads_render [of "JObj (hashed_fields a b c d e f)" "[]"] by (simp add: hashed_text_def hashed_fields_def)
  have "JObj (hashed_fields a b c d e f) = JObj (hashed_fields a' b' c' d' e' f')"
    using read [of a b c d e f] read [of a' b' c' d' e' f'] assms by simp
  then show ?thesis by (simp add: hashed_fields_def)
qed

text \<open>What the hash of a move covers.\<close>

definition move_content :: "state_transition \<Rightarrow> string \<times> string \<times> string \<times> string \<times> string" where
  "move_content t = (st_from t, st_to t, isoformat (st_time t), st_actor t, st_reason t)"

definition move_text :: "state_transition \<Rightarrow> string" where
  "move_text t = hashed_text (st_from t) (st_to t) (isoformat (st_time t)) (st_actor t) (st_reason t) (st_previous_hash t)"

text \<open>Two different texts with one hash, among those that were hashed for two histories.\<close>

definition collision_between :: "state_transition list \<Rightarrow> state_transition list \<Rightarrow> bool" where
  "collision_between h k \<longleftrightarrow>
     (\<exists>t \<in> set h. \<exists>u \<in> set k. move_text t \<noteq> move_text u \<and> sha256_hex (move_text t) = sha256_hex (move_text u))"

lemma same_text: "move_text t = move_text u \<Longrightarrow> move_content t = move_content u \<and> st_previous_hash t = st_previous_hash u"
  unfolding move_text_def by (drule hashed_text_inj) (simp add: move_content_def)

lemma chains_agree:
  "chain_from [] h \<Longrightarrow> chain_from [] k \<Longrightarrow> last_hash h = last_hash k \<Longrightarrow>
     map move_content h = map move_content k \<or> collision_between h k"
proof (induction h arbitrary: k rule: rev_induct)
  case Nil
  then show ?case by (cases k rule: rev_cases) (auto simp: last_hash_def chain_snoc)
next
  case (snoc t h)
  obtain u k' where k: "k = k' @ [u]"
    using snoc.prems by (cases k rule: rev_cases) (auto simp: last_hash_def chain_snoc)
  note facts = snoc.prems [unfolded k chain_snoc]
  have "st_current_hash t = st_current_hash u" using facts(3) by (simp add: last_hash_def)
  then have hash: "sha256_hex (move_text t) = sha256_hex (move_text u)"
    using facts(1,2) unfolding move_text_def compute_hash_def by metis
  show ?case
  proof (cases "move_text t = move_text u")
    case False
    with hash show ?thesis unfolding k collision_between_def by auto
  next
    case True
    note same = same_text [OF True]
    have prev: "(if h = [] then [] else last_hash h) = last_hash h" for h :: "state_transition list" by (simp add: last_hash_def)
    have "last_hash h = last_hash k'" using facts same unfolding prev by simp
    with snoc.IH [of k'] facts same show ?thesis unfolding k collision_between_def by auto
  qed
qed

section \<open>What holds of every packet\<close>

definition packet_ok :: "decision_packet \<Rightarrow> bool" where
  "packet_ok p \<longleftrightarrow> (\<exists>ss. map st_to (dp_history p) = map state_value ss \<and> life_path CREATED ss (dp_state p) \<and>
       set ss \<inter> set (blocked_states (dp_category p)) = {}) \<and>
     chain_from [] (dp_history p) \<and> dp_adjusted p = Some (dp_confidence p) \<and> score_range (dp_confidence p)"

lemma new_packet_ok: "packet_ok (new_packet symbol category side confidence regime)"
  by (auto simp: packet_ok_def new_packet_def post_init_def Let_def clamp_range clamp_id)

lemma reasoning_ok: "packet_ok p \<Longrightarrow> packet_ok (add_reasoning a m i c v now p)"
  by (auto simp: packet_ok_def add_reasoning_def Let_def clamp_range)

lemma agent_ok: "packet_ok p \<Longrightarrow> packet_ok (add_agent n p)"
  by (simp add: packet_ok_def)

lemma packet_transition_ok:
  assumes "packet_ok p"
  shows "packet_ok (fst (move_packet s a r now p))"
proof (cases "snd (move_packet s a r now p)")
  case None
  obtain ss where ss: "map st_to (dp_history p) = map state_value ss" "life_path CREATED ss (dp_state p)"
      "set ss \<inter> set (blocked_states (dp_category p)) = {}"
    using assms by (auto simp: packet_ok_def)
  from None have move: "is_transition_allowed (dp_state p) s" "s \<notin> set (blocked_states (dp_category p))"
      "fst (move_packet s a r now p) = p\<lparr>dp_history := dp_history p @ [transition_record s a r now p], dp_state := s\<rparr>"
    by (auto simp: move_packet_def split: if_splits)
  have "chain_from [] (dp_history p @ [transition_record s a r now p])"
    using assms by (simp add: chain_snoc transition_record_def Let_def packet_ok_def last_hash_def)
  with assms ss move life_path.moved [OF ss(2) move(1)] show ?thesis
    by (auto simp: packet_ok_def transition_record_def Let_def intro!: exI [of _ "ss @ [s]"])
next
  case (Some e)
  then have "fst (move_packet s a r now p) = p" by (auto simp: move_packet_def split: if_splits)
  with assms show ?thesis by simp
qed

lemma run_packet_ok: "packet_ok p \<Longrightarrow> packet_ok (run_packet op p)"
proof (cases op)
  case (Veto a r t now)
  assume "packet_ok p"
  then have "packet_ok (p\<lparr>dp_veto := True, dp_veto_reason := Some r\<rparr>)" by (simp add: packet_ok_def)
  then show ?thesis using Veto by (simp add: veto_by_def packet_transition_ok reasoning_ok agent_ok)
qed (simp_all add: packet_transition_ok reasoning_ok agent_ok reject_packet_def, simp_all add: packet_ok_def)

interpretation packets: guarded_machine "\<lambda>p. \<exists>sy c si x r. p = new_packet sy c si x r" run_packet packet_ok
  by unfold_locales (auto simp: new_packet_ok run_packet_ok)

lemma life_ok: "packet_ok (life_of ops (new_packet sy c si x r))"
  unfolding life_of_def by (rule packets.run_inv) blast

lemma category_kept: "dp_category (run_packet op p) = dp_category p"
  by (cases op) (simp_all add: veto_by_def reject_packet_def)

lemma life_category: "dp_category (life_of ops p) = dp_category p"
  unfolding life_of_def by (induction ops arbitrary: p) (simp_all add: category_kept)

lemma new_packet_category [simp]: "dp_category (new_packet sy c si x r) = c"
  by (simp add: new_packet_def post_init_def Let_def)

lemma state_value_inj [simp]: "state_value s = state_value t \<longleftrightarrow> s = t"
  by (cases s; cases t) simp_all

lemma filter_values:
  "filter (\<lambda>v. v \<noteq> state_value s) (map state_value ss) = map state_value (filter (\<lambda>u. u \<noteq> s) ss)"
  by (induction ss) simp_all

section \<open>The life of a packet\<close>

text \<open>
  C22: No decision is executed that was not evaluated and approved. Whatever a program does to a
  packet with its operations, in any order and with any arguments, a packet that was not ended
  early has moved through exactly the states of the nominal flow up to its own, in that order,
  where only the validation of the regime may be left out or passed; and a packet of the categories
  of governance and system never comes to any state from the approval on.
\<close>

theorem executed_was_approved:
  "let p = life_of ops (new_packet symbol category side confidence regime)
   in (dp_state p \<notin> set exceptional_states \<longrightarrow>
        filter (\<lambda>v. v \<noteq> ''REGIME_VALIDATED'') (map st_to (dp_history p)) = map state_value (flow_to (dp_state p))) \<and>
      (category \<noteq> TRADE \<longrightarrow> dp_state p \<in> {CREATED, SIGNAL_GENERATED, CONTEXT_ENRICHED, REGIME_VALIDATED, RISK_EVALUATED} \<or>
        dp_state p \<in> set exceptional_states)"
proof -
  let ?p = "life_of ops (new_packet symbol category side confidence regime)"
  obtain ss where ss: "map st_to (dp_history ?p) = map state_value ss" "life_path CREATED ss (dp_state ?p)"
      "set ss \<inter> set (blocked_states category) = {}"
    using life_ok [of ops symbol category side confidence regime] by (auto simp: packet_ok_def life_category)
  have last: "dp_state ?p = (if ss = [] then CREATED else last ss)" using ss(2) by (cases rule: life_path.cases) auto
  have flow: "filter (\<lambda>v. v \<noteq> ''REGIME_VALIDATED'') (map st_to (dp_history ?p)) = map state_value (flow_to (dp_state ?p))"
    if "dp_state ?p \<notin> set exceptional_states"
    using filter_values [of REGIME_VALIDATED ss] path_is_flow [OF ss(2) that] unfolding ss(1) by simp
  have "dp_state ?p \<notin> set (blocked_states category)" if "category \<noteq> TRADE"
    using ss(3) that unfolding last by (cases "ss = []"; cases category) (auto dest: last_in_set)
  then have "category \<noteq> TRADE \<Longrightarrow> dp_state ?p \<in> {CREATED, SIGNAL_GENERATED, CONTEXT_ENRICHED, REGIME_VALIDATED, RISK_EVALUATED} \<or>
      dp_state ?p \<in> set exceptional_states"
    by (cases category; cases "dp_state ?p") (simp_all add: exceptional_states_def)
  with flow show ?thesis by (simp add: Let_def)
qed

definition sample_trade :: "packet_op list" where
  "sample_trade = map (\<lambda>s. Move s ''engine'' ''ok'' 1)
     [SIGNAL_GENERATED, CONTEXT_ENRICHED, REGIME_VALIDATED, RISK_EVALUATED, APPROVED, EXECUTION_PENDING, EXECUTED]"

lemma sample_trade_state: "dp_state (life_of sample_trade (new_packet ''BTC'' TRADE LONG (Fin 70) RANGE)) = EXECUTED"
  by (simp add: sample_trade_def life_of_def move_packet_def new_packet_def post_init_def Let_def graph_defs)

theorem executed_was_approved_witness:
  "filter (\<lambda>v. v \<noteq> ''REGIME_VALIDATED'')
     (map st_to (dp_history (life_of sample_trade (new_packet ''BTC'' TRADE LONG (Fin 70) RANGE)))) =
   map state_value [SIGNAL_GENERATED, CONTEXT_ENRICHED, RISK_EVALUATED, APPROVED, EXECUTION_PENDING, EXECUTED]"
  using executed_was_approved [of sample_trade "''BTC''" TRADE LONG "Fin 70" RANGE]
  by (simp add: Let_def sample_trade_state exceptional_states_def flow_to_def nominal_flow_def)

lemma terminal_keeps:
  "dp_state p \<in> set terminal_states \<Longrightarrow> dp_state (run_packet op p) = dp_state p \<and> dp_history (run_packet op p) = dp_history p"
  by (cases op) (simp_all add: move_packet_def veto_by_def reject_packet_def)

text \<open>
  C28: The life of a decision ends. Whatever is done to a packet, it moves at most ten times; and
  once it is in a terminal state, nothing changes its state or its history any more, and it can
  not be acted on. The code still lets the veto, the reasoning, the confidence, the agents, the features and the
  metadata of an ended packet change.
\<close>

theorem decision_life_ends:
  "length (dp_history (life_of ops (new_packet symbol category side confidence regime))) \<le> 10 \<and>
   (dp_state (life_of ops (new_packet symbol category side confidence regime)) \<in> set terminal_states \<longrightarrow>
     dp_state (life_of (ops @ later) (new_packet symbol category side confidence regime)) =
       dp_state (life_of ops (new_packet symbol category side confidence regime)) \<and>
     dp_history (life_of (ops @ later) (new_packet symbol category side confidence regime)) =
       dp_history (life_of ops (new_packet symbol category side confidence regime)) \<and>
     \<not> is_actionable (life_of (ops @ later) (new_packet symbol category side confidence regime)))"
proof -
  let ?p = "life_of ops (new_packet symbol category side confidence regime)"
  obtain ss where ss: "map st_to (dp_history ?p) = map state_value ss" "life_path CREATED ss (dp_state ?p)"
    using life_ok [of ops symbol category side confidence regime] by (auto simp: packet_ok_def)
  have "length (dp_history ?p) = length ss" using ss(1) by (metis length_map)
  then have short: "length (dp_history ?p) \<le> 10" using path_rises [OF ss(2)] rank_bound [of "dp_state ?p"] by simp
  have stay: "dp_state (fold run_packet later p) = dp_state p \<and> dp_history (fold run_packet later p) = dp_history p"
    if "dp_state p \<in> set terminal_states" for p
    using that by (induction later arbitrary: p) (simp_all add: terminal_keeps)
  have "life_of (ops @ later) (new_packet symbol category side confidence regime) = fold run_packet later ?p"
    by (simp add: life_of_def)
  with short stay [of ?p] show ?thesis by (auto simp: is_actionable_def)
qed

definition sample_life :: "packet_op list" where
  "sample_life = [Veto ''guard'' ''stop'' 0 0]"

theorem decision_life_ends_witness:
  "\<not> is_actionable (life_of (sample_life @ [Move SIGNAL_GENERATED ''engine'' ''again'' 1]) (new_packet ''BTC'' TRADE LONG (Fin 70) RANGE))"
  by (rule decision_life_ends [THEN conjunct2, THEN mp, THEN conjunct2, THEN conjunct2])
    (simp add: sample_life_def life_of_def veto_by_def move_packet_def new_packet_def post_init_def Let_def graph_defs)

text \<open>
  C29: The chain of a packet shows every change of what it covers. The chain of every packet
  verifies; and if another history verifies and ends in the same hash, then it tells the same moves, at the
  same times, by the same actors and for the same reasons, or among the texts that were hashed for the
  two histories there are two that differ and have the same SHA-256.
\<close>

theorem chain_tamper_evident:
  assumes "verify_chain q" "last_hash (dp_history q) = last_hash (dp_history (life_of ops (new_packet symbol category side confidence regime)))"
  shows "verify_chain (life_of ops (new_packet symbol category side confidence regime)) \<and>
    (map move_content (dp_history q) = map move_content (dp_history (life_of ops (new_packet symbol category side confidence regime))) \<or>
     collision_between (dp_history q) (dp_history (life_of ops (new_packet symbol category side confidence regime))))"
proof -
  have "chain_from [] (dp_history (life_of ops (new_packet symbol category side confidence regime)))"
    using life_ok by (auto simp: packet_ok_def)
  with chains_agree [of "dp_history q"] assms show ?thesis by (auto simp: verify_chain_def)
qed

theorem chain_tamper_evident_witness:
  "verify_chain (life_of sample_life (new_packet ''BTC'' TRADE LONG (Fin 70) RANGE)) \<and>
    map move_content (dp_history (life_of sample_life (new_packet ''BTC'' SYSTEM FLAT (Fin 70) UNKNOWN))) =
       map move_content (dp_history (life_of sample_life (new_packet ''BTC'' TRADE LONG (Fin 70) RANGE)))"
proof -
  let ?q = "life_of sample_life (new_packet ''BTC'' SYSTEM FLAT (Fin 70) UNKNOWN)"
  let ?p = "life_of sample_life (new_packet ''BTC'' TRADE LONG (Fin 70) RANGE)"
  have same: "dp_history ?q = dp_history ?p"
    by (simp add: sample_life_def life_of_def veto_by_def move_packet_def transition_record_def last_hash_def
        new_packet_def post_init_def Let_def graph_defs add_reasoning_def add_agent_def)
  have one: "length (dp_history ?p) = 1"
    by (simp add: sample_life_def life_of_def veto_by_def move_packet_def new_packet_def post_init_def Let_def graph_defs)
  then have apart: "\<not> collision_between (dp_history ?q) (dp_history ?p)"
    unfolding same by (auto simp: collision_between_def length_Suc_conv)
  have "verify_chain ?q" using life_ok by (auto simp: packet_ok_def verify_chain_def)
  from chain_tamper_evident [OF this, of sample_life "''BTC''" TRADE LONG "Fin 70" RANGE] same apart show ?thesis by simp
qed

text \<open>
  What the chain does not show. A chain that verifies still does when its last moves are cut
  off and when the confidences and durations of its moves are replaced by any others: they are not
  in the hash.
\<close>

theorem chain_misses:
  assumes "verify_chain p"
  shows "verify_chain (p\<lparr>dp_history := take n (map (\<lambda>t. t\<lparr>st_confidence_before := before t, st_confidence_after := after t,
    st_duration_ms := lasted t\<rparr>) (dp_history p))\<rparr>)"
proof -
  have "chain_from e h \<Longrightarrow> chain_from e (take n (map (\<lambda>t. t\<lparr>st_confidence_before := before t, st_confidence_after := after t,
      st_duration_ms := lasted t\<rparr>) h))" for e h
  proof (induction h arbitrary: e n)
    case (Cons t h)
    then show ?case by (cases n) (auto split: if_splits)
  qed simp
  with assms show ?thesis by (simp add: verify_chain_def)
qed

theorem chain_misses_witness:
  "verify_chain ((life_of sample_life (new_packet ''BTC'' TRADE LONG (Fin 70) RANGE))
     \<lparr>dp_history := take 1 (map (\<lambda>t. t\<lparr>st_confidence_before := NaN, st_confidence_after := Fin 100, st_duration_ms := 5\<rparr>)
       (dp_history (life_of sample_life (new_packet ''BTC'' TRADE LONG (Fin 70) RANGE))))\<rparr>)"
  by (rule chain_misses) (use life_ok in \<open>auto simp: packet_ok_def verify_chain_def\<close>)

text \<open>
  A confidence that is no number is full confidence. A packet made with it has confidence 100,
  and one reasoning whose impact is no number lifts any packet to 100, because the clamp keeps its
  bound when a comparison fails; every other confidence stays a number from 0 to 100.
\<close>

theorem nan_confidence_is_full:
  "dp_confidence (new_packet symbol category side NaN regime) = Fin 100 \<and>
   dp_confidence (add_reasoning actor message NaN cat sev now p) = Fin 100 \<and>
   score_range (dp_confidence (life_of ops (new_packet symbol category side confidence regime)))"
proof -
  have add: "fl_add x NaN = NaN" for x by (cases x) simp_all
  show ?thesis
    using life_ok [of ops symbol category side confidence regime]
    by (simp add: new_packet_def post_init_def add_reasoning_def Let_def clamp_nan add packet_ok_def)
      (simp add: clamp_score_def fl_max_def fl_min_def)
qed

end
