(* ===== verification/RiskGate.thy ===== *)
theory RiskGate
  imports DecisionPacket RegimeTracker SessionGuard WarmupSigner
begin

text \<open>
  \<^verbatim>\<open>src/quant_hedge_ai/agents/risk/global_risk_gate.py\<close>: the checks before a trade, on a signal and
  on a decision packet, and the adjustments of the score they ask for. The regime classifier is
  there; a message keeps its kind instead of its text, and one reading of the clock stands for all
  those of a check. The log of refusals and the event are left out.
\<close>

section \<open>Regimes\<close>

definition canonical_regimes :: "string list" where
  "canonical_regimes = [''TREND_BULL'', ''TREND_BEAR'', ''RANGE'', ''VOLATILE'', ''UNKNOWN'']"

definition regime_aliases :: "(string, string) dict" where
  "regime_aliases =
     [(''bull'', ''TREND_BULL''), (''bullish'', ''TREND_BULL''), (''bull_trend'', ''TREND_BULL''), (''trend_bull'', ''TREND_BULL''),
      (''bear'', ''TREND_BEAR''), (''bearish'', ''TREND_BEAR''), (''bear_trend'', ''TREND_BEAR''), (''trend_bear'', ''TREND_BEAR''),
      (''sideways'', ''RANGE''), (''range'', ''RANGE''), (''choppy'', ''RANGE''),
      (''volatile'', ''VOLATILE''), (''high_vol'', ''VOLATILE''), (''high_volatility'', ''VOLATILE''),
      (''high_volatility_regime'', ''VOLATILE''), (''flash_crash'', ''VOLATILE''), (''unknown'', ''UNKNOWN'')]"

definition normalize_regime :: "string \<Rightarrow> string" where
  "normalize_regime regime =
     (let raw = py_strip (if regime = [] then ''unknown'' else regime);
          raw' = (if raw = [] then ''unknown'' else raw)
      in if py_upper raw' \<in> set canonical_regimes then py_upper raw'
         else case dict_get regime_aliases (py_lower raw') of Some r \<Rightarrow> r | None \<Rightarrow> py_lower raw')"

section \<open>The gate\<close>

datatype gate_failure =
    SessionActive | DrawdownOk | SignalScore pyfloat int | SignalConfirmed | RegimeBlacklisted string string | DirectionDetected

record risk_gate_result =
  gc_conditions :: "(string \<times> bool) list"
  gc_failed :: "gate_failure list"
  gc_warned :: bool

definition gc_allowed :: "risk_gate_result \<Rightarrow> bool" where
  "gc_allowed r \<longleftrightarrow> gc_failed r = []"

record risk_gate =
  rg_drawdown_guard :: bool
  rg_min_signal_score :: int
  rg_require_confirmed :: bool
  rg_blacklist :: "string list"
  rg_max_drawdown :: pyfloat
  rg_safe_mode :: bool
  rg_regret_delta :: int
  rg_governor_delta :: int
  rg_last_regime :: string
  rg_transition :: "int option"
  rg_floor :: int

definition blacklist_regime :: "string \<Rightarrow> risk_gate \<Rightarrow> risk_gate" where
  "blacklist_regime regime g = g\<lparr>rg_blacklist := List.insert (normalize_regime regime) (rg_blacklist g)\<rparr>"

definition unblacklist_regime :: "string \<Rightarrow> risk_gate \<Rightarrow> risk_gate" where
  "unblacklist_regime regime g = g\<lparr>rg_blacklist := remove1 (normalize_regime regime) (rg_blacklist g)\<rparr>"

definition new_risk_gate :: "bool \<Rightarrow> int \<Rightarrow> bool \<Rightarrow> string list \<Rightarrow> pyfloat \<Rightarrow> bool \<Rightarrow> risk_gate" where
  "new_risk_gate guard score confirmed blacklisted max_dd safe =
     fold blacklist_regime (blacklisted @ [''unknown''])
       \<lparr>rg_drawdown_guard = guard, rg_min_signal_score = score, rg_require_confirmed = confirmed, rg_blacklist = [],
        rg_max_drawdown = max_dd, rg_safe_mode = safe, rg_regret_delta = 0, rg_governor_delta = 0, rg_last_regime = ''unknown'',
        rg_transition = None, rg_floor = 55\<rparr>"

section \<open>Calibration\<close>

definition apply_regret_delta :: "int \<Rightarrow> risk_gate \<Rightarrow> risk_gate" where
  "apply_regret_delta delta g =
     (if rg_safe_mode g then g else g\<lparr>rg_regret_delta := max (- 5) (min 5 (rg_regret_delta g + delta))\<rparr>)"

definition set_transition_threshold :: "int option \<Rightarrow> risk_gate \<Rightarrow> risk_gate" where
  "set_transition_threshold v g = (if rg_safe_mode g then g else g\<lparr>rg_transition := v\<rparr>)"

definition set_governor_delta :: "int \<Rightarrow> risk_gate \<Rightarrow> risk_gate" where
  "set_governor_delta delta g = g\<lparr>rg_governor_delta := max (- 10) (min 20 delta)\<rparr>"

definition set_adaptive_delta :: "int \<Rightarrow> risk_gate \<Rightarrow> risk_gate" where
  "set_adaptive_delta delta g = (if rg_safe_mode g then g else g\<lparr>rg_regret_delta := max (- 5) (min 5 delta)\<rparr>)"

definition gate_min_score :: "string \<Rightarrow> risk_gate \<Rightarrow> int \<times> risk_gate" where
  "gate_min_score regime g =
     (case rg_transition g of
        Some v \<Rightarrow> (v, g)
      | None \<Rightarrow> (max (rg_floor g) (effective_min_score regime (rg_regret_delta g + rg_governor_delta g) 55),
                 if regime \<noteq> rg_last_regime g then g\<lparr>rg_last_regime := regime\<rparr> else g))"

section \<open>The checks\<close>

type_synonym session = "(session_limits \<times> session_state) option"

definition session_passes :: "session \<Rightarrow> pyfloat \<Rightarrow> bool" where
  "session_passes guard size_usd =
     (case guard of None \<Rightarrow> True | Some (limits, s) \<Rightarrow> check_session_order limits size_usd s = Inr ())"

definition check_drawdown :: "risk_gate \<Rightarrow> pyfloat \<Rightarrow> bool" where
  "check_drawdown g dd =
     (if rg_drawdown_guard g \<and> fl_le (adjust_position_size dd (Fin 1)) (round_double (1 / 10)) then False
      else fl_le dd (rg_max_drawdown g))"

definition drawdown_near :: "risk_gate \<Rightarrow> pyfloat \<Rightarrow> bool" where
  "drawdown_near g dd \<longleftrightarrow> check_drawdown g dd \<and> fl_lt (fl_mul (rg_max_drawdown g) (round_double (7 / 10))) dd"

definition score_passes :: "int \<Rightarrow> pyfloat \<Rightarrow> bool" where
  "score_passes least score = fl_le (Fin (of_int least)) score"

definition gate_result_of ::
  "bool \<Rightarrow> bool \<Rightarrow> pyfloat \<Rightarrow> int \<Rightarrow> bool \<Rightarrow> string \<Rightarrow> bool \<Rightarrow> bool \<Rightarrow> risk_gate_result" where
  "gate_result_of c1 c2 score least c4 regime c5 warned =
     \<lparr>gc_conditions = [(''session_active'', c1), (''drawdown_ok'', c2), (''signal_score'', score_passes least score),
        (''signal_confirmed'', c4), (''regime_allowed'', c5)],
      gc_failed = (if c1 then [] else [SessionActive]) @ (if c2 then [] else [DrawdownOk]) @
        (if score_passes least score then [] else [SignalScore score least]) @ (if c4 then [] else [SignalConfirmed]) @
        (if c5 then [] else [RegimeBlacklisted regime (normalize_regime regime)]),
      gc_warned = warned\<rparr>"

record live_signal =
  ls_score :: pyfloat
  ls_regime :: string
  ls_confirmed :: bool

definition check_signal :: "session \<Rightarrow> live_signal \<Rightarrow> pyfloat \<Rightarrow> pyfloat \<Rightarrow> risk_gate \<Rightarrow> risk_gate \<times> risk_gate_result" where
  "check_signal guard sg dd size_usd g =
     (case gate_min_score (ls_regime sg) g of
        (least, g') \<Rightarrow>
          (g', gate_result_of (session_passes guard size_usd) (check_drawdown g dd) (ls_score sg) least
                 (if rg_require_confirmed g then ls_confirmed sg else True) (ls_regime sg)
                 (normalize_regime (ls_regime sg) \<notin> set (rg_blacklist g)) (drawdown_near g dd)))"

section \<open>On a packet\<close>

fun regime_value :: "market_regime \<Rightarrow> string" where
  "regime_value TREND_BULL = ''TREND_BULL''"
| "regime_value TREND_BEAR = ''TREND_BEAR''"
| "regime_value RANGE = ''RANGE''"
| "regime_value VOLATILE = ''VOLATILE''"
| "regime_value UNKNOWN = ''UNKNOWN''"

fun conviction_value :: "conviction_level \<Rightarrow> string" where
  "conviction_value VERY_HIGH = ''VERY_HIGH''"
| "conviction_value HIGH = ''HIGH''"
| "conviction_value MEDIUM = ''MEDIUM''"
| "conviction_value LOW = ''LOW''"
| "conviction_value SKIP = ''SKIP''"

fun failure_name :: "gate_failure \<Rightarrow> string" where
  "failure_name SessionActive = ''session_active''"
| "failure_name DrawdownOk = ''drawdown_ok''"
| "failure_name (SignalScore _ _) = ''signal_score''"
| "failure_name SignalConfirmed = ''signal_confirmed''"
| "failure_name (RegimeBlacklisted _ _) = ''regime_blacklisted''"
| "failure_name DirectionDetected = ''direction_detected''"

abbreviation gate_actor :: string where
  "gate_actor \<equiv> ''global_risk_gate''"

definition gate_note :: "bool \<Rightarrow> string \<Rightarrow> int \<Rightarrow> reasoning_category \<Rightarrow> nat \<Rightarrow> decision_packet \<Rightarrow> decision_packet" where
  "gate_note b message impact cat now p = (if b then add_reasoning gate_actor message (Fin (of_int impact)) cat INFO now p else p)"

definition packet_score :: "decision_packet \<Rightarrow> pyfloat" where
  "packet_score p = (case dp_adjusted p of Some a \<Rightarrow> a | None \<Rightarrow> dp_confidence p)"

text \<open>The first two checks and their notes, which the score of the third is read after.\<close>

definition note_exposure :: "bool \<Rightarrow> bool \<Rightarrow> pyfloat \<Rightarrow> risk_gate \<Rightarrow> nat \<Rightarrow> decision_packet \<Rightarrow> decision_packet" where
  "note_exposure c1 c2 dd g now p =
     (let p1 = gate_note (\<not> c1) ''session'' (- 20) RISK_GOVERNANCE now (add_agent gate_actor p);
          p2 = p1\<lparr>dp_features := dict_set (dp_features p1) ''risk_drawdown_pct'' (fl_round 2 (fl_mul dd (Fin 100)))\<rparr>
      in gate_note (drawdown_near g dd) ''drawdown near'' (- 5) RISK_GOVERNANCE now
           (gate_note (\<not> c2) ''drawdown'' (- 30) RISK_GOVERNANCE now p2))"

definition note_signal :: "bool \<Rightarrow> bool \<Rightarrow> bool \<Rightarrow> bool \<Rightarrow> nat \<Rightarrow> decision_packet \<Rightarrow> decision_packet" where
  "note_signal c3 lse c4 c5 now p =
     gate_note (\<not> c5) ''regime'' (- 25) RISK_GOVERNANCE now
       (gate_note (\<not> c4) ''unconfirmed'' (- 10) TREND_ALIGNMENT now
         (gate_note (\<not> lse \<and> c3) ''lse disagrees'' 0 RISK_GOVERNANCE now
           (gate_note (\<not> c3) ''score'' (- 15) RISK_GOVERNANCE now p)))"

definition write_verdict :: "risk_gate_result \<Rightarrow> string \<Rightarrow> decision_packet \<Rightarrow> decision_packet" where
  "write_verdict r conviction p =
     p\<lparr>dp_metadata := dict_set (dict_set (dict_set (dict_set (dp_metadata p)
         ''risk_conditions'' (JObj (map (\<lambda>(k, b). (k, JBool b)) (gc_conditions r))))
         ''risk_failed'' (JList (map (JStr \<circ> failure_name) (gc_failed r))))
         ''risk_warnings'' (JList (if gc_warned r then [JStr ''drawdown near''] else [])))
         ''risk_conviction_advisory'' (JStr conviction)\<rparr>"

definition flat_refusal :: risk_gate_result where
  "flat_refusal = \<lparr>gc_conditions = [(''direction_detected'', False)], gc_failed = [DirectionDetected], gc_warned = False\<rparr>"

text \<open>The packet after a check, and its result or the error of a move that the packet refuses.\<close>

definition with_result :: "'r \<Rightarrow> decision_packet \<times> packet_error option \<Rightarrow> decision_packet \<times> (packet_error + 'r)" where
  "with_result r m = (fst m, case snd m of None \<Rightarrow> Inr r | Some e \<Rightarrow> Inl e)"

definition check_packet ::
  "session \<Rightarrow> pyfloat \<Rightarrow> pyfloat \<Rightarrow> nat \<Rightarrow> decision_packet \<Rightarrow> risk_gate \<Rightarrow>
     risk_gate \<times> decision_packet \<times> (packet_error + risk_gate_result)" where
  "check_packet guard dd size_usd now p g =
     (if dp_side p = FLAT then
        (g, with_result flat_refusal (reject_packet gate_actor ''flat'' now now
              (gate_note True ''flat'' (- 50) RISK_GOVERNANCE now (add_agent gate_actor p))))
      else
        let lse = json_truthy (json_get (dp_metadata p) ''lse_actionable'' (JBool True));
            c1 = session_passes guard size_usd; c2 = check_drawdown g dd;
            p1 = note_exposure c1 c2 dd g now p; regime = regime_value (dp_regime p);
            (least, g') = gate_min_score regime g; c3 = score_passes least (packet_score p1);
            c4 = (if rg_require_confirmed g then json_truthy (json_get (dp_metadata p) ''mtf_confirmed'' (JBool False)) else True);
            c5 = normalize_regime regime \<notin> set (rg_blacklist g);
            r = gate_result_of c1 c2 (packet_score p1) least c4 regime c5 (drawdown_near g dd);
            p2 = write_verdict r (conviction_value (dp_conviction p)) (note_signal c3 lse c4 c5 now p1)
        in (g', with_result r (if gc_allowed r then move_packet RISK_EVALUATED gate_actor ''gate pass'' now p2
                               else reject_packet gate_actor ''gate block'' now now p2)))"

section \<open>What passing means\<close>

lemma gate_allowed_iff:
  "gc_allowed (gate_result_of c1 c2 score least c4 regime c5 warned) \<longleftrightarrow> c1 \<and> c2 \<and> score_passes least score \<and> c4 \<and> c5"
  by (simp add: gc_allowed_def gate_result_of_def)

lemma session_passes_iff:
  "session_passes guard size_usd \<longleftrightarrow>
     (\<forall>limits s. guard = Some (limits, s) \<longrightarrow> \<not> ss_halted s \<and> \<not> fl_lt (sl_max_order_usd limits) size_usd)"
  by (auto simp: session_passes_def check_session_order_def split: option.splits if_splits)

lemma drawdown_passed: "check_drawdown g dd \<Longrightarrow> fl_le dd (rg_max_drawdown g)"
  by (simp add: check_drawdown_def split: if_splits)

lemma gate_note_state [simp]:
  "dp_state (gate_note b m i c now p) = dp_state p" "dp_category (gate_note b m i c now p) = dp_category p"
  "dp_side (gate_note b m i c now p) = dp_side p" "gate_note False m i c now p = p"
  by (simp_all add: gate_note_def)

lemma transition_result:
  "move_packet s a r now p = (q, None) \<Longrightarrow> dp_state q = s \<and> dp_adjusted q = dp_adjusted p \<and> dp_confidence q = dp_confidence p \<and> dp_side q = dp_side p"
  "move_packet s a r now p = (q, Some e) \<Longrightarrow> q = p"
  by (auto simp: move_packet_def split: if_splits)

lemma reject_state: "dp_state (fst (reject_packet a r t now p)) \<in> {REJECTED, dp_state p}"
  by (simp add: reject_packet_def move_packet_def)

lemma note_zero_score: "dp_adjusted p = Some x \<Longrightarrow> packet_score (gate_note b m 0 c now p) = packet_score p"
  by (simp add: gate_note_def add_reasoning_def packet_score_def Let_def)

lemma note_exposure_adjusted: "dp_adjusted p = Some x \<Longrightarrow> \<exists>y. dp_adjusted (note_exposure c1 c2 dd g now p) = Some y"
  by (simp add: note_exposure_def gate_note_def add_reasoning_def Let_def)

lemma gate_note_simps [simp]:
  "dp_side (note_exposure c1 c2 dd g now p) = dp_side p" "dp_state (note_exposure c1 c2 dd g now p) = dp_state p"
  "dp_state (note_signal c3 lse c4 c5 now p) = dp_state p" "dp_side (note_signal c3 lse c4 c5 now p) = dp_side p"
  "dp_state (write_verdict r v p) = dp_state p" "dp_adjusted (write_verdict r v p) = dp_adjusted p"
  "dp_side (write_verdict r v p) = dp_side p" "dp_category (note_exposure c1 c2 dd g now p) = dp_category p"
  "dp_category (note_signal c3 lse c4 c5 now p) = dp_category p" "dp_category (write_verdict r v p) = dp_category p"
  by (simp_all add: note_exposure_def note_signal_def write_verdict_def Let_def)

lemma packet_score_kept [simp]:
  "packet_score (write_verdict r v u) = packet_score u" "packet_score (fst (move_packet s a m now u)) = packet_score u"
  by (cases "dp_adjusted u"; simp add: packet_score_def write_verdict_def)+

text \<open>
  C23: A packet that the gate lets on has passed every check. If a check takes a packet to the
  state of an evaluated risk, then its side is long or short, the session is not halted and the order
  not over its size, the drawdown is a number within the maximum, the score that the packet is left with
  reaches the threshold of its regime, the signal is confirmed where that is asked for, and the
  regime is not on the black list.
\<close>

theorem gate_pass_means:
  assumes "check_packet guard dd size_usd now p g = (g', q, r)" "dp_adjusted p = Some x"
    "dp_state p \<noteq> RISK_EVALUATED" "dp_state q = RISK_EVALUATED"
  shows "dp_side q \<noteq> FLAT \<and>
    (\<forall>limits s. guard = Some (limits, s) \<longrightarrow> \<not> ss_halted s \<and> \<not> fl_lt (sl_max_order_usd limits) size_usd) \<and>
    fl_le dd (rg_max_drawdown g) \<and>
    fl_le (Fin (of_int (fst (gate_min_score (regime_value (dp_regime p)) g)))) (packet_score q) \<and>
    (rg_require_confirmed g \<longrightarrow> json_truthy (json_get (dp_metadata p) ''mtf_confirmed'' (JBool False))) \<and>
    normalize_regime (regime_value (dp_regime p)) \<notin> set (rg_blacklist g)"
proof -
  let ?c1 = "session_passes guard size_usd" and ?c2 = "check_drawdown g dd"
  let ?p1 = "note_exposure ?c1 ?c2 dd g now p" and ?regime = "regime_value (dp_regime p)"
  let ?least = "fst (gate_min_score ?regime g)" and ?lse = "json_truthy (json_get (dp_metadata p) ''lse_actionable'' (JBool True))"
  let ?c4 = "if rg_require_confirmed g then json_truthy (json_get (dp_metadata p) ''mtf_confirmed'' (JBool False)) else True"
  let ?c5 = "normalize_regime ?regime \<notin> set (rg_blacklist g)"
  let ?r = "gate_result_of ?c1 ?c2 (packet_score ?p1) ?least ?c4 ?regime ?c5 (drawdown_near g dd)"
  let ?p2 = "write_verdict ?r (conviction_value (dp_conviction p)) (note_signal (score_passes ?least (packet_score ?p1)) ?lse ?c4 ?c5 now ?p1)"
  have side: "dp_side p \<noteq> FLAT"
  proof
    assume "dp_side p = FLAT"
    with assms(1) have "q = fst (reject_packet gate_actor ''flat'' now now (gate_note True ''flat'' (- 50) RISK_GOVERNANCE now (add_agent gate_actor p)))"
      by (simp add: check_packet_def with_result_def)
    then have "dp_state q \<in> {REJECTED, dp_state p}"
      using reject_state [of gate_actor "''flat''" now now "gate_note True ''flat'' (- 50) RISK_GOVERNANCE now (add_agent gate_actor p)"]
      by simp
    with assms(3,4) show False by auto
  qed
  have q: "q = fst (if gc_allowed ?r then move_packet RISK_EVALUATED gate_actor ''gate pass'' now ?p2
      else reject_packet gate_actor ''gate block'' now now ?p2)"
    using assms(1) side by (simp add: check_packet_def with_result_def Let_def split_beta)
  have allowed: "gc_allowed ?r"
  proof (rule ccontr)
    assume "\<not> gc_allowed ?r"
    then have "dp_state q \<in> {REJECTED, dp_state p}"
      using q reject_state [of gate_actor "''gate block''" now now ?p2] by simp
    with assms(3,4) show False by auto
  qed
  then have passed: "?c1" "?c2" "score_passes ?least (packet_score ?p1)" "?c4" "?c5" unfolding gate_allowed_iff by auto
  obtain y where y: "dp_adjusted ?p1 = Some y" using note_exposure_adjusted [OF assms(2)] by blast
  have "packet_score (note_signal b ?lse c d now ?p1) = packet_score ?p1" if "b" "c" "d" for b c d
    using that note_zero_score [OF y] by (simp add: note_signal_def)
  then have "packet_score (note_signal (score_passes ?least (packet_score ?p1)) ?lse ?c4 ?c5 now ?p1) = packet_score ?p1"
    using passed by blast
  moreover have "packet_score q = packet_score ?p2" unfolding q using allowed by simp
  ultimately have "packet_score q = packet_score ?p1" by simp
  moreover have "dp_side q = dp_side p"
    using q allowed by (simp add: move_packet_def)
  ultimately show ?thesis
    using side passed drawdown_passed unfolding session_passes_iff score_passes_def by auto
qed

section \<open>What is asked for\<close>

datatype gate_op = Regret int | Adaptive int | Governor int | Transition "int option" | Blacklist string | Unblacklist string | Scored string

fun run_gate :: "gate_op \<Rightarrow> risk_gate \<Rightarrow> risk_gate" where
  "run_gate (Regret d) g = apply_regret_delta d g"
| "run_gate (Adaptive d) g = set_adaptive_delta d g"
| "run_gate (Governor d) g = set_governor_delta d g"
| "run_gate (Transition v) g = set_transition_threshold v g"
| "run_gate (Blacklist r) g = blacklist_regime r g"
| "run_gate (Unblacklist r) g = unblacklist_regime r g"
| "run_gate (Scored r) g = snd (gate_min_score r g)"

definition gate_ok :: "risk_gate \<Rightarrow> bool" where
  "gate_ok g \<longleftrightarrow> rg_regret_delta g \<in> {- 5..5} \<and> rg_governor_delta g \<in> {- 10..20} \<and> rg_floor g = 55 \<and>
     (rg_safe_mode g \<longrightarrow> rg_transition g = None \<and> rg_regret_delta g = 0)"

lemma blacklist_ok: "gate_ok g \<Longrightarrow> gate_ok (fold blacklist_regime rs g)"
  by (induction rs arbitrary: g) (simp_all add: gate_ok_def blacklist_regime_def)

lemma new_gate_ok: "gate_ok (new_risk_gate guard score confirmed bl dd safe)"
  unfolding new_risk_gate_def by (rule blacklist_ok) (simp add: gate_ok_def)

lemma run_gate_ok: "gate_ok g \<Longrightarrow> gate_ok (run_gate op g)"
  by (cases op) (auto simp: gate_ok_def apply_regret_delta_def set_adaptive_delta_def set_governor_delta_def set_transition_threshold_def
      blacklist_regime_def unblacklist_regime_def gate_min_score_def split: option.splits)

interpretation risk_gates: guarded_machine "\<lambda>g. \<exists>a b c d e f. g = new_risk_gate a b c d e f" run_gate gate_ok
  by unfold_locales (auto simp: new_gate_ok run_gate_ok)

lemma safe_mode_kept: "rg_safe_mode (run_gate op g) = rg_safe_mode g"
  by (cases op) (auto simp: apply_regret_delta_def set_adaptive_delta_def set_governor_delta_def set_transition_threshold_def
      blacklist_regime_def unblacklist_regime_def gate_min_score_def split: option.splits)

text \<open>
  The score that is asked for stays within bounds. In any history of adjustments of a gate and
  as long as no transition threshold is set, the threshold of a regime is at least 55, at most 15
  below and 25 above what the regime is configured with, or 55, and always 999 in a flash crash; in
  safe mode no transition threshold is ever set and nothing but the governor moves the threshold, and a
  transition threshold replaces all of this, whatever its value.
\<close>

theorem threshold_bounds:
  assumes "g = fold run_gate ops (new_risk_gate guard score confirmed blacklisted max_dd safe)"
  shows "(rg_transition g = None \<longrightarrow>
      55 \<le> fst (gate_min_score regime g) \<and>
      (cf_min_score (get_config regime) < 999 \<longrightarrow>
        cf_min_score (get_config regime) - 15 \<le> fst (gate_min_score regime g) \<and>
        fst (gate_min_score regime g) \<le> max 55 (cf_min_score (get_config regime) + 25)) \<and>
      fst (gate_min_score ''flash_crash'' g) = 999) \<and>
    (safe \<longrightarrow> rg_transition g = None \<and> rg_regret_delta g = 0) \<and>
    (\<forall>v. rg_transition g = Some v \<longrightarrow> fst (gate_min_score regime g) = v)"
proof -
  have ok: "gate_ok g" unfolding assms by (rule risk_gates.run_inv) blast
  have "rg_safe_mode (fold run_gate ops h) = rg_safe_mode h" for h
    by (induction ops arbitrary: h) (simp_all add: safe_mode_kept)
  moreover have "rg_safe_mode (fold blacklist_regime rs h) = rg_safe_mode h" for rs h
    by (induction rs arbitrary: h) (simp_all add: blacklist_regime_def)
  ultimately have "rg_safe_mode g = safe" unfolding assms by (simp add: new_risk_gate_def blacklist_regime_def)
  moreover have "cf_min_score (get_config ''flash_crash'') = 999"
    by (simp add: get_config_def regime_configs_def config_def)
  ultimately show ?thesis
    using ok by (auto simp: gate_ok_def gate_min_score_def effective_min_score_def Let_def)
qed

section \<open>An example\<close>

definition sample_gate :: risk_gate where
  "sample_gate = new_risk_gate False 70 True [''flash_crash''] (round_double (1 / 10)) False"

lemma sample_regimes:
  "normalize_regime ''TREND_BULL'' = ''TREND_BULL''" "normalize_regime ''flash_crash'' = ''VOLATILE''"
  "normalize_regime ''unknown'' = ''UNKNOWN''"
  by code_simp+

lemma sample_gate_fields:
  "rg_blacklist sample_gate = [''UNKNOWN'', ''VOLATILE'']" "rg_require_confirmed sample_gate" "\<not> rg_drawdown_guard sample_gate"
  "rg_max_drawdown sample_gate = round_double (1 / 10)" "rg_transition sample_gate = None" "rg_floor sample_gate = 55"
  "rg_regret_delta sample_gate = 0" "rg_governor_delta sample_gate = 0"
  by (simp_all add: sample_gate_def new_risk_gate_def blacklist_regime_def sample_regimes)

definition sample_packet :: decision_packet where
  "sample_packet = life_of [Move SIGNAL_GENERATED ''engine'' ''signal'' 0, Move CONTEXT_ENRICHED ''engine'' ''context'' 1,
     Meta ''mtf_confirmed'' (JBool True)] (new_packet ''BTC/USDT'' TRADE LONG (Fin 80) TREND_BULL)"

lemma sample_packet_fields:
  "dp_adjusted sample_packet = Some (Fin 80)" "dp_confidence sample_packet = Fin 80" "dp_state sample_packet = CONTEXT_ENRICHED"
  "dp_side sample_packet = LONG" "dp_regime sample_packet = TREND_BULL" "dp_category sample_packet = TRADE"
  "dp_metadata sample_packet = [(''mtf_confirmed'', JBool True)]" "dp_symbol sample_packet = ''BTC/USDT''"
  by (simp_all add: sample_packet_def life_of_def move_packet_def new_packet_def post_init_def Let_def graph_defs
      clamp_score_def fl_max_def fl_min_def dict_set_def)

lemma sample_score: "gate_min_score ''TREND_BULL'' sample_gate = (72, sample_gate\<lparr>rg_last_regime := ''TREND_BULL''\<rparr>)"
  by (simp add: gate_min_score_def sample_gate_fields effective_min_score_def get_config_def regime_configs_def config_def Let_def
      new_risk_gate_def sample_gate_def blacklist_regime_def)

lemma sample_drawdown: "check_drawdown sample_gate (Fin 0)" "\<not> drawdown_near sample_gate (Fin 0)"
  by (simp_all add: drawdown_near_def check_drawdown_def sample_gate_fields round_eval float_eval)

lemma sample_checked:
  "dp_state (fst (snd (check_packet None (Fin 0) (Fin 100) 2 sample_packet sample_gate))) = RISK_EVALUATED"
proof -
  have "packet_score (note_exposure True True (Fin 0) sample_gate 2 sample_packet) = Fin 80"
    by (simp add: packet_score_def note_exposure_def Let_def sample_drawdown sample_packet_fields)
  then show ?thesis
    by (simp add: check_packet_def Let_def sample_packet_fields sample_score sample_drawdown session_passes_def sample_gate_fields
        gate_allowed_iff json_get_def score_passes_def sample_regimes with_result_def move_packet_def graph_defs)
qed

theorem gate_pass_means_witness:
  "fl_le (Fin (of_int (fst (gate_min_score ''TREND_BULL'' sample_gate))))
     (packet_score (fst (snd (check_packet None (Fin 0) (Fin 100) 2 sample_packet sample_gate))))"
proof -
  obtain g' q r where c: "check_packet None (Fin 0) (Fin 100) 2 sample_packet sample_gate = (g', q, r)" by (metis prod_cases3)
  from gate_pass_means [OF c sample_packet_fields(1)] sample_checked show ?thesis
    by (simp add: c sample_packet_fields)
qed

theorem threshold_bounds_witness:
  "fst (gate_min_score ''flash_crash'' (fold run_gate [Regret 9, Governor 12] sample_gate)) = 999"
proof -
  have "rg_transition (fold run_gate [Regret 9, Governor 12] sample_gate) = None"
    by (simp add: apply_regret_delta_def set_governor_delta_def sample_gate_fields)
  with threshold_bounds [OF refl, of "[Regret 9, Governor 12]" False 70 True "[''flash_crash'']" "round_double (1 / 10)" False]
  show ?thesis unfolding sample_gate_def by blast
qed

end
