(* ===== verification/RiskGovernor.thy ===== *)
theory RiskGovernor
  imports RegimeTracker
begin

text \<open>
  \<^verbatim>\<open>src/quant_hedge_ai/agents/risk/risk_governor.py\<close>, \<^verbatim>\<open>capital_throttle.py\<close> and
  \<^verbatim>\<open>exposure_manager.py\<close>: the state machine that scales and stops trading, the throttle that follows the
  drawdown, and the exposure each state allows. Environment variables have their defaults; a
  snapshot keeps what the loop reads of it.
\<close>

section \<open>The governor\<close>

datatype risk_state = NORMAL | DEFENSIVE | RISK_OFF | RECOVERY | AGGRESSIVE

fun size_mul :: "risk_state \<Rightarrow> pyfloat" where
  "size_mul NORMAL = Fin 1"
| "size_mul DEFENSIVE = Fin (1 / 2)"
| "size_mul RISK_OFF = Fin 0"
| "size_mul RECOVERY = Fin (1 / 4)"
| "size_mul AGGRESSIVE = round_double (12 / 10)"

fun threshold_delta :: "risk_state \<Rightarrow> int" where
  "threshold_delta RISK_OFF = 15"
| "threshold_delta RECOVERY = 3"
| "threshold_delta AGGRESSIVE = - 2"
| "threshold_delta _ = 0"

record governor =
  rv_state :: risk_state
  rv_cycles :: nat
  rv_last_transition :: int
  rv_cycle :: int
  rv_atr :: "pyfloat list"
  rv_pnl :: "pyfloat list"
  rv_loss_free :: nat
  rv_positive :: nat
  rv_emergency :: bool
  rv_cooldown :: int

definition new_governor :: governor where
  "new_governor = \<lparr>rv_state = NORMAL, rv_cycles = 0, rv_last_transition = 0, rv_cycle = 0, rv_atr = [], rv_pnl = [],
     rv_loss_free = 0, rv_positive = 0, rv_emergency = False, rv_cooldown = 0\<rparr>"

record governor_input =
  gi_cycle :: int
  gi_drawdown :: pyfloat
  gi_losses :: int
  gi_atr :: pyfloat
  gi_pnl :: pyfloat
  gi_regime :: string

definition dd_defensive :: pyfloat where
  "dd_defensive = round_double (3 / 100)"

definition dd_risk_off :: pyfloat where
  "dd_risk_off = round_double (6 / 100)"

fun fl_insert :: "pyfloat \<Rightarrow> pyfloat list \<Rightarrow> pyfloat list" where
  "fl_insert x [] = [x]"
| "fl_insert x (y # ys) = (if fl_lt y x then y # fl_insert x ys else x # y # ys)"

definition fl_sorted :: "pyfloat list \<Rightarrow> pyfloat list" where
  "fl_sorted xs = foldr fl_insert xs []"

text \<open>The median of what is recorded, all of it numbers above zero.\<close>

definition atr_median :: "governor \<Rightarrow> pyfloat" where
  "atr_median g =
     (if rv_atr g = [] then Fin 0
      else let s = fl_sorted (rv_atr g); mid = length s div 2
           in if odd (length s) then s ! mid else fl_mul (fl_add (s ! (mid - 1)) (s ! mid)) (Fin (1 / 2)))"

definition vol_ratio :: "pyfloat \<Rightarrow> governor \<Rightarrow> pyfloat" where
  "vol_ratio atr g =
     (let med = atr_median g
      in if fl_le med (Fin 0) \<or> fl_le atr (Fin 0) then Fin 0 else the (fl_div atr med))"

definition vol_is_known :: "pyfloat \<Rightarrow> governor \<Rightarrow> bool" where
  "vol_is_known atr g \<longleftrightarrow> fl_lt (Fin 0) atr \<and> fl_lt (Fin 0) (atr_median g)"

definition update_vol_emergency :: "pyfloat \<Rightarrow> governor \<Rightarrow> governor" where
  "update_vol_emergency atr g =
     (if fl_le (Fin 3) (vol_ratio atr g) then g\<lparr>rv_emergency := True, rv_cooldown := 5\<rparr>
      else if rv_emergency g then
        g\<lparr>rv_cooldown := rv_cooldown g - 1, rv_emergency := \<not> rv_cooldown g - 1 < 0\<rparr>
      else g)"

definition governor_to :: "risk_state \<Rightarrow> governor \<Rightarrow> governor" where
  "governor_to s g =
     (if s = rv_state g then g else g\<lparr>rv_state := s, rv_cycles := 0, rv_last_transition := rv_cycle g\<rparr>)"

definition trend_regime :: "string \<Rightarrow> bool" where
  "trend_regime regime \<longleftrightarrow> regime \<in> {''bull_trend'', ''bear_trend''}"

definition next_risk_state :: "governor_input \<Rightarrow> governor \<Rightarrow> risk_state" where
  "next_risk_state i g =
     (let dd = gi_drawdown i; known = vol_is_known (gi_atr i) g; ratio = vol_ratio (gi_atr i) g;
          hot = (known \<and> fl_lt (Fin 2) ratio); calm = (known \<and> fl_lt ratio (Fin 2))
      in case rv_state g of
           NORMAL \<Rightarrow>
             if fl_lt dd_defensive dd \<or> hot then DEFENSIVE
             else if trend_regime (gi_regime i) \<and> calm \<and> 10 \<le> rv_positive g then AGGRESSIVE
             else NORMAL
         | DEFENSIVE \<Rightarrow>
             if fl_lt dd_risk_off dd \<or> 3 \<le> gi_losses i then RISK_OFF
             else if fl_le dd (fl_mul dd_defensive (Fin (1 / 2))) \<and> (\<not> known \<or> calm) then NORMAL
             else DEFENSIVE
         | RISK_OFF \<Rightarrow> if 10 \<le> rv_loss_free g \<or> calm then RECOVERY else RISK_OFF
         | RECOVERY \<Rightarrow>
             if 20 \<le> rv_cycles g \<or> 15 \<le> rv_positive g then NORMAL
             else if fl_lt dd_risk_off dd \<or> 3 \<le> gi_losses i then RISK_OFF
             else RECOVERY
         | AGGRESSIVE \<Rightarrow>
             if fl_lt dd_defensive dd \<or> hot then DEFENSIVE
             else if \<not> trend_regime (gi_regime i) then NORMAL
             else AGGRESSIVE)"

definition evaluate_transitions :: "governor_input \<Rightarrow> governor \<Rightarrow> governor" where
  "evaluate_transitions i g = governor_to (next_risk_state i g) g"

definition record_cycle :: "governor_input \<Rightarrow> governor \<Rightarrow> governor" where
  "record_cycle i g =
     g\<lparr>rv_cycle := gi_cycle i, rv_cycles := rv_cycles g + 1,
       rv_atr := (if fl_lt (Fin 0) (gi_atr i) then push_bounded 50 (gi_atr i) (rv_atr g) else rv_atr g),
       rv_pnl := push_bounded 30 (gi_pnl i) (rv_pnl g),
       rv_loss_free := (if fl_le (Fin 0) (gi_pnl i) then rv_loss_free g + 1 else 0),
       rv_positive := (if fl_le (Fin 0) (gi_pnl i) then rv_positive g + 1 else 0)\<rparr>"

definition update_governor :: "governor_input \<Rightarrow> governor \<Rightarrow> governor" where
  "update_governor i g =
     (let g1 = update_vol_emergency (gi_atr i) (record_cycle i g)
      in if 5 \<le> rv_cycles g1 then evaluate_transitions i g1 else g1)"

definition allow_new_trades :: "governor \<Rightarrow> bool" where
  "allow_new_trades g \<longleftrightarrow> rv_state g \<noteq> RISK_OFF \<and> \<not> rv_emergency g"

record governor_snapshot =
  gs_state :: risk_state
  gs_size_multiplier :: pyfloat
  gs_threshold_delta :: int
  gs_allow_new_trades :: bool
  gs_cycles_until_eligible :: nat

definition snapshot_of :: "governor \<Rightarrow> governor_snapshot" where
  "snapshot_of g = \<lparr>gs_state = rv_state g, gs_size_multiplier = size_mul (rv_state g), gs_threshold_delta = threshold_delta (rv_state g),
     gs_allow_new_trades = allow_new_trades g, gs_cycles_until_eligible = 5 - rv_cycles g\<rparr>"

section \<open>What the governor does over time\<close>

definition governor_after :: "governor_input list \<Rightarrow> governor \<Rightarrow> governor" where
  "governor_after is g = fold update_governor is g"

definition governor_edges :: "(risk_state \<times> risk_state) set" where
  "governor_edges = {(NORMAL, DEFENSIVE), (NORMAL, AGGRESSIVE), (DEFENSIVE, RISK_OFF), (DEFENSIVE, NORMAL), (RISK_OFF, RECOVERY),
     (RECOVERY, NORMAL), (RECOVERY, RISK_OFF), (AGGRESSIVE, DEFENSIVE), (AGGRESSIVE, NORMAL)}"

lemma governor_after_simps [simp]:
  "governor_after [] g = g" "governor_after (i # is) g = governor_after is (update_governor i g)"
  "governor_after (is @ js) g = governor_after js (governor_after is g)"
  by (simp_all add: governor_after_def)

lemma emergency_simps [simp]:
  "rv_state (update_vol_emergency a g) = rv_state g" "rv_cycles (update_vol_emergency a g) = rv_cycles g"
  "rv_positive (update_vol_emergency a g) = rv_positive g" "rv_loss_free (update_vol_emergency a g) = rv_loss_free g"
  "rv_atr (update_vol_emergency a g) = rv_atr g" "rv_pnl (update_vol_emergency a g) = rv_pnl g"
  by (simp_all add: update_vol_emergency_def)

lemma record_cycle_simps [simp]:
  "rv_state (record_cycle i g) = rv_state g" "rv_cycles (record_cycle i g) = Suc (rv_cycles g)"
  "rv_positive (record_cycle i g) = (if fl_le (Fin 0) (gi_pnl i) then Suc (rv_positive g) else 0)"
  "rv_loss_free (record_cycle i g) = (if fl_le (Fin 0) (gi_pnl i) then Suc (rv_loss_free g) else 0)"
  by (simp_all add: record_cycle_def)

lemma governor_to_simps [simp]:
  "rv_state (governor_to s g) = s" "rv_cycles (governor_to s g) = (if s = rv_state g then rv_cycles g else 0)"
  "rv_positive (governor_to s g) = rv_positive g" "rv_loss_free (governor_to s g) = rv_loss_free g"
  by (simp_all add: governor_to_def)

lemma update_governor_simps:
  "rv_positive (update_governor i g) = (if fl_le (Fin 0) (gi_pnl i) then Suc (rv_positive g) else 0)"
  "rv_loss_free (update_governor i g) = (if fl_le (Fin 0) (gi_pnl i) then Suc (rv_loss_free g) else 0)"
  "rv_cycles (update_governor i g) = (if rv_state (update_governor i g) = rv_state g then Suc (rv_cycles g) else 0)"
  by (simp_all add: update_governor_def evaluate_transitions_def Let_def)

lemma governor_waits: "rv_cycles g < 4 \<Longrightarrow> rv_state (update_governor i g) = rv_state g"
  by (simp add: update_governor_def Let_def)

lemma next_edge: "next_risk_state i g = rv_state g \<or> (rv_state g, next_risk_state i g) \<in> governor_edges"
  by (cases "rv_state g") (simp_all add: next_risk_state_def governor_edges_def Let_def)

lemma update_edge:
  "rv_state (update_governor i g) = rv_state g \<or> (rv_state g, rv_state (update_governor i g)) \<in> governor_edges"
  using next_edge [of i "update_vol_emergency (gi_atr i) (record_cycle i g)"]
  by (auto simp: update_governor_def evaluate_transitions_def Let_def)

lemma cycles_constant:
  assumes "rv_cycles g0 = 0"
  shows "rv_cycles (governor_after is g0) \<le> length is \<and>
    (\<forall>k \<le> rv_cycles (governor_after is g0). rv_state (governor_after (take (length is - k) is) g0) = rv_state (governor_after is g0))"
proof (induction "is" rule: rev_induct)
  case Nil
  show ?case using assms by simp
next
  case (snoc i "is")
  let ?g = "governor_after is g0"
  have "rv_state (governor_after (take (Suc (length is) - k) (is @ [i])) g0) = rv_state (update_governor i ?g)"
    if k: "k \<le> Suc (rv_cycles ?g)" and same: "rv_state (update_governor i ?g) = rv_state ?g" for k
  proof (cases k)
    case 0 then show ?thesis by simp
  next
    case (Suc j)
    then have "take (Suc (length is) - k) (is @ [i]) = take (length is - j) is" by simp
    moreover have "j \<le> rv_cycles ?g" using k Suc by simp
    ultimately show ?thesis using snoc.IH same by simp
  qed
  then show ?case using snoc.IH by (simp add: update_governor_simps(3))
qed

text \<open>
  C24: The governor does not oscillate. If an update changes the state of a governor that started
  anew, then the move is one of nine, from stopped trading only to recovery, from the aggressive state never
  straight to a stop, and the state was the same after each of the four updates before it.
\<close>

theorem governor_hysteresis:
  assumes "rv_state (governor_after (is @ [i]) new_governor) \<noteq> rv_state (governor_after is new_governor)"
  shows "(rv_state (governor_after is new_governor), rv_state (governor_after (is @ [i]) new_governor)) \<in> governor_edges \<and>
    4 \<le> length is \<and>
    (\<forall>k \<le> 4. rv_state (governor_after (take (length is - k) is) new_governor) = rv_state (governor_after is new_governor))"
proof -
  have g0: "rv_cycles new_governor = 0" by (simp add: new_governor_def)
  have "4 \<le> rv_cycles (governor_after is new_governor)"
    using assms governor_waits [of "governor_after is new_governor" i] by (cases "rv_cycles (governor_after is new_governor) < 4") auto
  then show ?thesis
    using cycles_constant [OF g0, of "is"] update_edge [of i "governor_after is new_governor"] assms by (auto dest: le_trans)
qed

definition passes :: "risk_state \<Rightarrow> governor_input list \<Rightarrow> governor \<Rightarrow> bool" where
  "passes s is g \<longleftrightarrow> (\<exists>k \<le> length is. rv_state (governor_after (take k is) g) = s)"

lemma passes_now [simp]: "rv_state g = s \<Longrightarrow> passes s is g"
  unfolding passes_def by (rule exI [of _ 0]) simp

lemma passes_later: "passes s is (update_governor i g) \<Longrightarrow> passes s (i # is) g"
proof (unfold passes_def, elim exE conjE)
  fix k assume "k \<le> length is" "rv_state (governor_after (take k is) (update_governor i g)) = s"
  then show "\<exists>k \<le> length (i # is). rv_state (governor_after (take k (i # is)) g) = s" by (intro exI [of _ "Suc k"]) simp
qed

text \<open>How many updates a governor needs until it may move.\<close>

definition wait :: "governor \<Rightarrow> nat" where
  "wait g = (if rv_cycles g < 4 then 5 - rv_cycles g else 1)"

lemma wait_stays: "rv_state (update_governor i g) = rv_state g \<Longrightarrow> rv_cycles g < 4 \<Longrightarrow> Suc (wait (update_governor i g)) = wait g"
  by (cases "rv_cycles g < 3") (auto simp: wait_def update_governor_simps)

lemma wait_not_0 [simp]: "wait g \<noteq> 0"
  by (simp add: wait_def)

lemma wait_bounds: "0 < wait g" "wait g \<le> 5"
  by (simp_all add: wait_def)

text \<open>While the drawdown is over the limit, and the state to be reached is still ahead.\<close>

definition deep :: "governor_input \<Rightarrow> bool" where
  "deep i \<longleftrightarrow> fl_lt dd_risk_off (gi_drawdown i)"

lemma dd_order: "fl_lt dd_defensive dd_risk_off" "fl_lt (fl_mul dd_defensive (Fin (1 / 2))) dd_risk_off"
  by (simp_all add: dd_defensive_def dd_risk_off_def round_eval float_eval)

lemma deep_is_defensive:
  assumes "deep i"
  shows "fl_lt dd_defensive (gi_drawdown i)" "\<not> fl_le (gi_drawdown i) (fl_mul dd_defensive (Fin (1 / 2)))"
proof -
  show "fl_lt dd_defensive (gi_drawdown i)" using assms dd_order(1) unfolding deep_def by (rule fl_lt_trans [rotated])
  show "\<not> fl_le (gi_drawdown i) (fl_mul dd_defensive (Fin (1 / 2)))"
    using assms dd_order(2) fl_le_lt_trans fl_lt_trans fl_lt_irrefl unfolding deep_def by blast
qed

lemma deep_next:
  assumes "deep i"
  shows "rv_state g = NORMAL \<Longrightarrow> next_risk_state i g = DEFENSIVE" "rv_state g = AGGRESSIVE \<Longrightarrow> next_risk_state i g = DEFENSIVE"
    "rv_state g = DEFENSIVE \<Longrightarrow> next_risk_state i g = RISK_OFF"
    "rv_state g = RECOVERY \<Longrightarrow> next_risk_state i g = RISK_OFF \<or> next_risk_state i g = NORMAL"
  using assms deep_is_defensive [OF assms] by (auto simp: next_risk_state_def deep_def Let_def)



lemma evaluated:
  assumes "4 \<le> rv_cycles g"
  shows "rv_state (update_governor i g) = next_risk_state i (update_vol_emergency (gi_atr i) (record_cycle i g))"
  using assms by (simp add: update_governor_def evaluate_transitions_def Let_def)

lemma update_state_cases:
  obtains "rv_cycles g < 4" "rv_state (update_governor i g) = rv_state g"
  | "4 \<le> rv_cycles g" "rv_state (update_governor i g) = next_risk_state i (update_vol_emergency (gi_atr i) (record_cycle i g))"
  using governor_waits [of g i] evaluated [of g i] by linarith

lemma defensive_stops:
  assumes "\<forall>i \<in> set is. deep i" "rv_state g = DEFENSIVE" "wait g \<le> length is"
  shows "passes RISK_OFF is g"
  using assms
proof (induction "is" arbitrary: g)
  case Nil
  then show ?case using wait_bounds(1) [of g] by simp
next
  case (Cons i "is")
  show ?case
  proof (rule passes_later, cases rule: update_state_cases [of g i])
    case 1
    then show "passes RISK_OFF is (update_governor i g)" using Cons wait_stays [of i g] by auto
  next
    case 2
    then have "rv_state (update_governor i g) = RISK_OFF"
      using Cons.prems deep_next(3) [of i "update_vol_emergency (gi_atr i) (record_cycle i g)"] by simp
    then show "passes RISK_OFF is (update_governor i g)" by simp
  qed
qed

lemma changed_wait: "rv_state (update_governor i g) \<noteq> rv_state g \<Longrightarrow> wait (update_governor i g) = 5"
  by (simp add: wait_def update_governor_simps)

lemma trading_stops:
  assumes "\<forall>i \<in> set is. deep i" "rv_state g \<in> {NORMAL, AGGRESSIVE}" "wait g + 5 \<le> length is"
  shows "passes RISK_OFF is g"
  using assms
proof (induction "is" arbitrary: g)
  case (Cons i "is")
  show ?case
  proof (rule passes_later, cases rule: update_state_cases [of g i])
    case 1
    then show "passes RISK_OFF is (update_governor i g)" using Cons wait_stays [of i g] by auto
  next
    case 2
    then have d: "rv_state (update_governor i g) = DEFENSIVE"
      using Cons.prems deep_next(1,2) [of i "update_vol_emergency (gi_atr i) (record_cycle i g)"] by auto
    then have "wait (update_governor i g) = 5" using Cons.prems(2) by (intro changed_wait) auto
    then show "passes RISK_OFF is (update_governor i g)"
      using d Cons.prems wait_bounds(1) [of g] by (intro defensive_stops) auto
  qed
qed (use wait_bounds in auto)

lemma recovering_stops:
  assumes "\<forall>i \<in> set is. deep i" "rv_state g = RECOVERY" "wait g + 10 \<le> length is"
  shows "passes RISK_OFF is g"
  using assms
proof (induction "is" arbitrary: g)
  case (Cons i "is")
  show ?case
  proof (rule passes_later, cases rule: update_state_cases [of g i])
    case 1
    then show "passes RISK_OFF is (update_governor i g)" using Cons wait_stays [of i g] by auto
  next
    case 2
    then consider "rv_state (update_governor i g) = RISK_OFF" | "rv_state (update_governor i g) = NORMAL"
      using Cons.prems deep_next(4) [of i "update_vol_emergency (gi_atr i) (record_cycle i g)"] by auto
    then show "passes RISK_OFF is (update_governor i g)"
    proof cases
      case 2
      then have "wait (update_governor i g) = 5" using Cons.prems(2) by (intro changed_wait) auto
      then show ?thesis using 2 Cons.prems wait_bounds(1) [of g] by (intro trading_stops) auto
    qed simp
  qed
qed (use wait_bounds in auto)

text \<open>
  C25: A deep drawdown stops the trading. Whatever its state and history, a governor that sees fifteen
  updates in a row with a drawdown over six per cent is in the stopped state after one of them, in which it allows no
  new trade and has a size of zero.
\<close>

theorem governor_stops:
  assumes "length is = 15" "\<forall>i \<in> set is. fl_lt dd_risk_off (gi_drawdown i)"
  shows "\<exists>k \<le> 15. let g' = governor_after (take k is) g
    in rv_state g' = RISK_OFF \<and> \<not> allow_new_trades g' \<and> size_mul (rv_state g') = Fin 0"
proof -
  have "\<forall>i \<in> set is. deep i" using assms(2) by (simp add: deep_def)
  then have "passes RISK_OFF is g"
    using assms(1) wait_bounds(2) [of g] defensive_stops [of "is" g] trading_stops [of "is" g] recovering_stops [of "is" g]
    by (cases "rv_state g") auto
  then show ?thesis using assms(1) by (auto simp: passes_def allow_new_trades_def Let_def)
qed

text \<open>Without a loss, what counts for the way back grows.\<close>

definition lossless :: "governor_input \<Rightarrow> bool" where
  "lossless i \<longleftrightarrow> fl_le (Fin 0) (gi_pnl i)"

definition earned :: "nat \<Rightarrow> governor \<Rightarrow> bool" where
  "earned n g \<longleftrightarrow> n \<le> rv_positive g \<and> n \<le> rv_loss_free g"

lemma earned_grows: "earned n g \<Longrightarrow> lossless i \<Longrightarrow> earned (Suc n) (update_governor i g)"
  by (simp add: earned_def lossless_def update_governor_simps)

lemma earned_less: "earned n g \<Longrightarrow> m \<le> n \<Longrightarrow> earned m g"
  by (simp add: earned_def)

lemma earned_inner: "earned n (update_vol_emergency a (record_cycle i g)) \<longleftrightarrow>
    n \<le> (if lossless i then Suc (rv_positive g) else 0) \<and> n \<le> (if lossless i then Suc (rv_loss_free g) else 0)"
  by (simp add: earned_def lossless_def)

lemma earned_next:
  assumes "earned 15 g"
  shows "rv_state g = RECOVERY \<Longrightarrow> next_risk_state i g = NORMAL" "rv_state g = RISK_OFF \<Longrightarrow> next_risk_state i g = RECOVERY"
  using assms by (auto simp: next_risk_state_def earned_def Let_def)

lemma earned_keeps: "earned 15 g \<Longrightarrow> lossless i \<Longrightarrow> earned 15 (update_governor i g)"
  using earned_grows [of 15 g i] earned_less by simp

lemma earned_update:
  assumes "earned 15 g" "lossless i"
  shows "earned 15 (update_vol_emergency (gi_atr i) (record_cycle i g))"
  using assms by (simp add: earned_inner) (simp add: earned_def)

lemma recovery_resumes:
  assumes "\<forall>i \<in> set is. lossless i" "earned 15 g" "rv_state g = RECOVERY" "wait g \<le> length is"
  shows "passes NORMAL is g"
  using assms
proof (induction "is" arbitrary: g)
  case (Cons i "is")
  show ?case
  proof (rule passes_later, cases rule: update_state_cases [of g i])
    case 1
    then show "passes NORMAL is (update_governor i g)" using Cons wait_stays [of i g] earned_keeps by auto
  next
    case 2
    then have "rv_state (update_governor i g) = NORMAL"
      using Cons.prems earned_next(1) [OF earned_update [of g i], of i] by simp
    then show "passes NORMAL is (update_governor i g)" by simp
  qed
qed (use wait_bounds in auto)

lemma stopped_resumes:
  assumes "\<forall>i \<in> set is. lossless i" "earned 15 g" "rv_state g = RISK_OFF" "wait g + 5 \<le> length is"
  shows "passes NORMAL is g"
  using assms
proof (induction "is" arbitrary: g)
  case (Cons i "is")
  show ?case
  proof (rule passes_later, cases rule: update_state_cases [of g i])
    case 1
    then show "passes NORMAL is (update_governor i g)" using Cons wait_stays [of i g] earned_keeps by auto
  next
    case 2
    then have r: "rv_state (update_governor i g) = RECOVERY"
      using Cons.prems earned_next(2) [OF earned_update [of g i], of i] by simp
    then have "wait (update_governor i g) = 5" using Cons.prems(3) by (intro changed_wait) auto
    then show "passes NORMAL is (update_governor i g)"
      using r Cons.prems wait_bounds(1) [of g] by (intro recovery_resumes) (auto simp: earned_keeps)
  qed
qed (use wait_bounds in auto)

lemma earning_resumes:
  assumes "\<forall>i \<in> set is. lossless i" "earned n g" "rv_state g \<in> {RISK_OFF, RECOVERY}" "25 - n \<le> length is" "n \<le> 15"
  shows "passes NORMAL is g"
  using assms
proof (induction "is" arbitrary: g n)
  case (Cons i "is")
  show ?case
  proof (cases "n = 15")
    case True
    then show ?thesis
      using Cons.prems wait_bounds(2) [of g] recovery_resumes [of "i # is" g] stopped_resumes [of "i # is" g] by auto
  next
    case False
    then have n: "Suc n \<le> 15" using Cons.prems by simp
    have "earned (Suc n) (update_governor i g)" using Cons.prems by (simp add: earned_grows)
    moreover have "rv_state (update_governor i g) \<in> {RISK_OFF, RECOVERY, NORMAL}"
      using update_edge [of i g] Cons.prems(3) by (auto simp: governor_edges_def)
    ultimately show ?thesis
      using Cons.IH [of "Suc n" "update_governor i g"] Cons.prems n by (intro passes_later) auto
  qed
qed simp

text \<open>
  A stop does not outlast twenty-five updates without a loss. A governor that is stopped or recovering
  and sees twenty-five updates with a profit that is not negative is in its normal state after one of them,
  with the full size, whatever the drawdown, the losses before, the volatility and the regime.
\<close>

theorem governor_resumes:
  assumes "length is = 25" "\<forall>i \<in> set is. fl_le (Fin 0) (gi_pnl i)" "rv_state g = RISK_OFF \<or> rv_state g = RECOVERY"
  shows "\<exists>k \<le> 25. rv_state (governor_after (take k is) g) = NORMAL \<and> size_mul (rv_state (governor_after (take k is) g)) = Fin 1"
proof -
  have "\<forall>i \<in> set is. lossless i" using assms(2) by (simp add: lossless_def)
  moreover have "earned 0 g" by (simp add: earned_def)
  ultimately have "passes NORMAL is g" using assms by (intro earning_resumes [where n = 0]) auto
  then show ?thesis using assms(1) by (auto simp: passes_def)
qed

section \<open>The throttle\<close>

record throttle =
  ct_factor :: pyfloat
  ct_peak :: pyfloat
  ct_drawdown :: pyfloat
  ct_active :: bool

definition new_throttle :: throttle where
  "new_throttle = \<lparr>ct_factor = Fin 1, ct_peak = Fin 0, ct_drawdown = Fin 0, ct_active = False\<rparr>"

definition throttle_target :: "pyfloat \<Rightarrow> pyfloat" where
  "throttle_target dd =
     (let soft = round_double (5 / 100); hard = round_double (10 / 100); least = round_double (10 / 100)
      in if fl_le hard dd then Fin 0
         else if fl_lt soft dd then
           fl_max least (fl_sub (Fin 1) (fl_min (fl_mul (fl_mul (fl_sub dd soft) (Fin 100)) (round_double (10 / 100))) (fl_sub (Fin 1) least)))
         else Fin 1)"

definition update_throttle :: "pyfloat \<Rightarrow> throttle \<Rightarrow> throttle \<times> pyfloat" where
  "update_throttle capital t =
     (let t1 = (if fl_lt (ct_peak t) capital then t\<lparr>ct_peak := capital\<rparr> else t)
      in if fl_le (ct_peak t1) (Fin 0) then (t1, Fin 1)
         else let dd = fl_max (Fin 0) (the (fl_div (fl_sub (ct_peak t1) capital) (ct_peak t1)));
                  target = throttle_target dd;
                  factor = (if fl_lt target (ct_factor t1) then target
                            else fl_min (Fin 1) (fl_add (ct_factor t1) (round_double (20 / 100))))
              in (t1\<lparr>ct_drawdown := dd, ct_factor := factor, ct_active := fl_lt factor (Fin 1)\<rparr>, factor))"

definition throttle_allows :: "throttle \<Rightarrow> bool" where
  "throttle_allows t \<longleftrightarrow> fl_lt (Fin 0) (ct_factor t)"

definition throttled :: "pyfloat list \<Rightarrow> throttle" where
  "throttled capitals = fold (\<lambda>c t. fst (update_throttle c t)) capitals new_throttle"

lemma unit_const: "in_unit (Fin 0)" "in_unit (Fin 1)" "in_unit (round_double (10 / 100))" "in_unit (round_double (20 / 100))"
  by (simp_all add: in_unit_def) (auto simp: in_unit_def [symmetric] intro!: round_unit)

lemma unit_min_max: "in_unit x \<Longrightarrow> in_unit y \<Longrightarrow> in_unit (fl_min x y)" "in_unit x \<Longrightarrow> in_unit y \<Longrightarrow> in_unit (fl_max x y)"
  by (simp_all add: fl_min_def fl_max_def)

lemma unit_lowest: "fl_le (Fin 0) x \<Longrightarrow> in_unit y \<Longrightarrow> in_unit (fl_min x y)"
  by (cases x) (auto simp: in_unit_iff fl_min_def)

lemma target_unit: "in_unit (throttle_target dd)"
proof -
  let ?soft = "round_double (5 / 100)" and ?least = "round_double (10 / 100)"
  have "in_unit (fl_max ?least (fl_sub (Fin 1) (fl_min (fl_mul (fl_mul (fl_sub dd ?soft) (Fin 100)) ?least) (fl_sub (Fin 1) ?least))))"
    if bounds: "fl_lt ?soft dd" "\<not> fl_le ?least dd"
  proof -
    obtain s where s: "?soft = Fin s" using round_unit [of "5 / 100"] by (auto simp: in_unit_iff)
    obtain l where l: "?least = Fin l" "0 \<le> l" using unit_const(3) by (auto simp: in_unit_iff)
    obtain q where "dd = Fin q" "s < q" using bounds unfolding s l by (cases dd) auto
    note q = this s l
    have "fl_le (Fin 0) (fl_mul (fl_mul (fl_sub dd ?soft) (Fin 100)) ?least)"
    proof -
      have "fl_le (Fin 0) (fl_sub dd ?soft)" using q round_double_le [of 0 "q - s"] by (simp add: fl_sub_def)
      then have "fl_le (fl_mul (Fin 0) (Fin 100)) (fl_mul (fl_sub dd ?soft) (Fin 100))" by (rule fl_mul_mono) simp
      then have one: "fl_le (Fin 0) (fl_mul (fl_sub dd ?soft) (Fin 100))" by simp
      show ?thesis
      proof (cases "l = 0")
        case True
        then show ?thesis using q one by (cases "fl_mul (fl_sub dd ?soft) (Fin 100)") (auto simp: tenth_rounds)
      next
        case False
        then show ?thesis using fl_mul_mono [OF one, of l] q by simp
      qed
    qed
    then show ?thesis by (intro unit_min_max unit_const unit_rest unit_lowest)
  qed
  then show ?thesis by (auto simp: throttle_target_def unit_const Let_def)
qed

lemma throttle_step: "in_unit (ct_factor t) \<Longrightarrow> in_unit (ct_factor (fst (update_throttle c t))) \<and> in_unit (snd (update_throttle c t))"
  using target_unit unit_const unit_grow [of "ct_factor t" "round_double (20 / 100)"]
  by (simp add: update_throttle_def Let_def)

lemma throttled_unit: "in_unit (ct_factor (throttled cs))"
proof -
  have "in_unit (ct_factor (fold (\<lambda>c t. fst (update_throttle c t)) cs t))" if "in_unit (ct_factor t)" for t
    using that throttle_step by (induction cs arbitrary: t) auto
  then show ?thesis by (simp add: throttled_def new_throttle_def unit_const)
qed

lemma fifth_eval: "round_double (20 / 100) = Fin (3602879701896397 / 18014398509481984)"
  by (simp add: round_eval float_eval)

lemma update_throttle_open:
  assumes "fl_lt (Fin 0) (ct_peak t')" "update_throttle c t = (t', factor)"
  obtains peak dd where "factor = ct_factor t'" "ct_peak t' = peak" "peak = (if fl_lt (ct_peak t) c then c else ct_peak t)"
    "dd = fl_max (Fin 0) (the (fl_div (fl_sub peak c) peak))" "ct_drawdown t' = dd"
    "factor = (if fl_lt (throttle_target dd) (ct_factor t) then throttle_target dd
       else fl_min (Fin 1) (fl_add (ct_factor t) (round_double (20 / 100))))"
proof -
  have "\<not> fl_le x (Fin 0)" if "fl_lt (Fin 0) x" for x using that by (cases x) auto
  then show ?thesis using assms that by (auto simp: update_throttle_def Let_def split: if_splits)
qed

text \<open>
  The throttle stays within its bounds and closes at its limit. After any history of capitals, numbers or
  not, the factor is a number between 0 and 1; when it was open and the drawdown is at ten per cent or more of the
  greatest capital so far, it closes at once and allows nothing; and it never opens by more than a fifth at a time.
\<close>

theorem throttle_bounds:
  assumes "t = throttled capitals" "update_throttle c t = (t', factor)"
  shows "fl_le (Fin 0) (ct_factor t') \<and> fl_le (ct_factor t') (Fin 1) \<and>
    (fl_lt (Fin 0) (ct_peak t') \<longrightarrow> fl_le (round_double (10 / 100)) (ct_drawdown t') \<longrightarrow> fl_lt (Fin 0) (ct_factor t) \<longrightarrow>
      factor = Fin 0 \<and> \<not> throttle_allows t') \<and>
    (fl_le (ct_factor t') (ct_factor t) \<or> fl_le (ct_factor t') (fl_add (ct_factor t) (round_double (20 / 100))))"
proof -
  have u: "in_unit (ct_factor t)" unfolding assms(1) by (rule throttled_unit)
  then have u': "in_unit (ct_factor t')" using throttle_step [of t c] assms(2) by simp
  have self: "fl_le x x" if "in_unit x" for x using that by (auto simp: in_unit_iff)
  have "fl_add (ct_factor t) (round_double (20 / 100)) \<noteq> NaN" using u unfolding fifth_eval by (auto simp: in_unit_iff)
  then have least: "fl_le (fl_min (Fin 1) (fl_add (ct_factor t) (round_double (20 / 100)))) (fl_add (ct_factor t) (round_double (20 / 100)))"
    by (cases "fl_add (ct_factor t) (round_double (20 / 100))") (auto simp: fl_min_def)
  have "fl_le (ct_factor t') (ct_factor t) \<or> fl_le (ct_factor t') (fl_add (ct_factor t) (round_double (20 / 100)))"
    using assms(2) self [OF u] least u' by (auto simp: update_throttle_def Let_def fl_lt_imp_le split: if_splits)
  moreover have "factor = Fin 0 \<and> \<not> throttle_allows t'"
    if peak: "fl_lt (Fin 0) (ct_peak t')" and deep: "fl_le (round_double (10 / 100)) (ct_drawdown t')" and "open": "fl_lt (Fin 0) (ct_factor t)"
    by (rule update_throttle_open [OF peak assms(2)]) (use deep "open" in \<open>simp add: throttle_target_def throttle_allows_def\<close>)
  ultimately show ?thesis using u' by (auto simp: in_unit_def)
qed

lemma first_fifth: "fl_min (Fin 1) (fl_add (Fin 0) (round_double (20 / 100))) = round_double (20 / 100)"
  by (simp add: fl_min_def round_eval float_eval)

lemma update_twice:
  assumes "fl_lt (Fin 0) p" "fl_lt c p" "fl_div (fl_sub p c) p = Some dd" "fl_le (round_double (10 / 100)) dd" "ct_peak t = p"
  shows "ct_peak (fst (update_throttle c t)) = p"
    "fl_lt (Fin 0) (ct_factor t) \<Longrightarrow> ct_factor (fst (update_throttle c t)) = Fin 0"
    "ct_factor t = Fin 0 \<Longrightarrow> ct_factor (fst (update_throttle c t)) = round_double (20 / 100)"
proof -
  have "\<not> fl_lt p c" using assms(2) fl_lt_trans fl_lt_irrefl by blast
  moreover have "\<not> fl_le p (Fin 0)" using assms(1) by (cases p) auto
  moreover have "fl_max (Fin 0) dd = dd" using assms(4) by (cases dd) (auto simp: fl_max_def tenth_rounds)
  moreover have "throttle_target dd = Fin 0" using assms(4) by (simp add: throttle_target_def)
  ultimately have eq: "fst (update_throttle c t) =
      t\<lparr>ct_drawdown := dd, ct_factor := (if fl_lt (Fin 0) (ct_factor t) then Fin 0 else fl_min (Fin 1) (fl_add (ct_factor t) (round_double (20 / 100)))),
        ct_active := fl_lt (if fl_lt (Fin 0) (ct_factor t) then Fin 0 else fl_min (Fin 1) (fl_add (ct_factor t) (round_double (20 / 100)))) (Fin 1)\<rparr>"
    using assms(3,5) by (simp add: update_throttle_def Let_def del: fl_add.simps)
  show "ct_peak (fst (update_throttle c t)) = p" using eq assms(5) by simp
  show "fl_lt (Fin 0) (ct_factor t) \<Longrightarrow> ct_factor (fst (update_throttle c t)) = Fin 0" using eq by simp
  show "ct_factor t = Fin 0 \<Longrightarrow> ct_factor (fst (update_throttle c t)) = round_double (20 / 100)"
    using eq first_fifth by simp
qed

lemma first_throttle: "fl_lt (Fin 0) p \<Longrightarrow> ct_peak (fst (update_throttle p new_throttle)) = p \<and> ct_factor (fst (update_throttle p new_throttle)) = Fin 1"
proof -
  assume p: "fl_lt (Fin 0) p"
  then have "\<not> fl_le p (Fin 0)" by (cases p) auto
  moreover have "fl_max (Fin 0) (the (fl_div (fl_sub p p) p)) = Fin 0"
    using p by (cases p) (auto simp: fl_sub_def fl_max_def)
  moreover have "throttle_target (Fin 0) = Fin 1" by (simp add: throttle_target_def round_eval float_eval)
  moreover have "fl_min (Fin 1) (fl_add (Fin 1) (round_double (20 / 100))) = Fin 1" by (simp add: fl_min_def round_eval float_eval)
  ultimately show ?thesis using p by (simp add: update_throttle_def new_throttle_def Let_def del: fl_add.simps)
qed

text \<open>
  C30: The stop does not hold. While the capital stays at ten per cent or more under its peak, the factor
  alternates: 0 after the first update, and a fifth after the next, so that every second update lets the trades through.
\<close>

theorem throttle_alternates:
  assumes "fl_lt (Fin 0) p" "fl_lt c p" "fl_div (fl_sub p c) p = Some dd" "fl_le (round_double (10 / 100)) dd"
  shows "ct_factor (throttled (p # replicate (Suc n) c)) = (if even n then Fin 0 else round_double (20 / 100)) \<and>
    throttle_allows (throttled (p # replicate (Suc n) c)) = odd n"
proof -
  let ?t = "\<lambda>n. throttled (p # replicate n c)"
  have step: "?t (Suc m) = fst (update_throttle c (?t m))" for m
  proof -
    have "p # replicate (Suc m) c = (p # replicate m c) @ [c]" by (simp add: replicate_append_same)
    then show ?thesis by (simp only: throttled_def fold_append) simp
  qed
  have start: "ct_peak (?t 0) = p \<and> ct_factor (?t 0) = Fin 1"
    using assms(1) first_throttle by (cases p) (simp_all add: throttled_def)
  have "ct_peak (?t (Suc n)) = p \<and> ct_factor (?t (Suc n)) = (if even n then Fin 0 else round_double (20 / 100))"
  proof (induction n)
    case 0
    then show ?case using start update_twice(1,2) [OF assms, of "?t 0"] by (simp only: step) simp
  next
    case (Suc n)
    then show ?case
      using update_twice [OF assms, of "?t (Suc n)"] unfolding step [of "Suc n"] fifth_eval by (cases "even n") simp_all
  qed
  then show ?thesis unfolding throttle_allows_def fifth_eval by simp
qed

section \<open>Exposure\<close>

fun max_total_exposure :: "risk_state \<Rightarrow> pyfloat" where
  "max_total_exposure NORMAL = round_double (20 / 100)"
| "max_total_exposure DEFENSIVE = round_double (10 / 100)"
| "max_total_exposure RISK_OFF = Fin 0"
| "max_total_exposure RECOVERY = round_double (5 / 100)"
| "max_total_exposure AGGRESSIVE = round_double (30 / 100)"

record exposure_manager =
  em_capital :: pyfloat
  em_used :: pyfloat

definition new_exposure_manager :: "pyfloat \<Rightarrow> exposure_manager" where
  "new_exposure_manager capital = \<lparr>em_capital = fl_max (Fin 1) capital, em_used = Fin 0\<rparr>"

definition update_exposure_capital :: "pyfloat \<Rightarrow> exposure_manager \<Rightarrow> exposure_manager" where
  "update_exposure_capital capital m = m\<lparr>em_capital := fl_max (Fin 1) capital\<rparr>"

definition can_add_exposure :: "pyfloat \<Rightarrow> risk_state \<Rightarrow> exposure_manager \<Rightarrow> bool" where
  "can_add_exposure amount st m =
     (if st = RISK_OFF then False
      else if fl_lt (fl_mul (max_total_exposure st) (em_capital m)) (fl_add (em_used m) amount) then False
      else True)"

definition record_open :: "pyfloat \<Rightarrow> exposure_manager \<Rightarrow> exposure_manager" where
  "record_open amount m = m\<lparr>em_used := fl_max (Fin 0) (fl_add (em_used m) amount)\<rparr>"

definition record_close :: "pyfloat \<Rightarrow> exposure_manager \<Rightarrow> exposure_manager" where
  "record_close amount m = m\<lparr>em_used := fl_max (Fin 0) (fl_sub (em_used m) amount)\<rparr>"

definition sync_exposure :: "pyfloat list \<Rightarrow> exposure_manager \<Rightarrow> exposure_manager" where
  "sync_exposure sizes m = m\<lparr>em_used := fl_max (Fin 0) (fl_sum sizes)\<rparr>"

text \<open>\<^verbatim>\<open>ExposureManager.cap\<close>: the shares of a proposal.\<close>

definition cap_exposure :: "pyfloat \<Rightarrow> (string, pyfloat) dict \<Rightarrow> (string, pyfloat) dict" where
  "cap_exposure most proposed =
     (let capped = map (\<lambda>(k, v). (k, fl_min most v)) proposed; s = fl_sum (map snd capped);
          whole = (if s = Fin 0 then Fin 1 else s)
      in map (\<lambda>(k, v). (k, fl_round 4 (the (fl_div v whole)))) capped)"

text \<open>The cap divides what it has capped by the sum of it.\<close>

theorem single_share_whole:
  assumes "fl_double (fl_min most v)" "fl_min most v = Fin q" "q \<noteq> 0"
  shows "cap_exposure most [(k, v)] = [(k, Fin 1)]"
proof -
  have "round_double q = Fin q" using assms by (simp add: fl_double_def is_double_def)
  then show ?thesis
    using assms(2,3) by (simp add: cap_exposure_def fl_sum_def round_even_def Let_def)
qed

section \<open>Examples\<close>

text \<open>Updates with a drawdown of eight per cent and a small loss, and some without a loss.\<close>

definition sinking :: governor_input where
  "sinking = \<lparr>gi_cycle = 1, gi_drawdown = Fin (1 / 8), gi_losses = 1, gi_atr = Fin 0, gi_pnl = Fin (- 1), gi_regime = ''range''\<rparr>"

definition flat :: governor_input where
  "flat = sinking\<lparr>gi_pnl := Fin 0\<rparr>"

lemma eighth_deep: "fl_lt dd_risk_off (Fin (1 / 8))" "fl_lt dd_defensive (Fin (1 / 8))" "fl_le (round_double (10 / 100)) (Fin (1 / 8))"
  "fl_div (fl_sub (Fin 8) (Fin 7)) (Fin 8) = Some (Fin (1 / 8))"
  by (simp_all add: dd_risk_off_def dd_defensive_def fl_sub_def round_eval float_eval)

lemma sinking_waits: "k \<le> 4 \<Longrightarrow> rv_state (governor_after (replicate k sinking) new_governor) = NORMAL \<and>
    rv_cycles (governor_after (replicate k sinking) new_governor) = k"
proof (induction k)
  case (Suc k)
  have "replicate (Suc k) sinking = replicate k sinking @ [sinking]" by (simp add: replicate_append_same)
  then show ?case using Suc by (simp only: governor_after_simps) (simp add: governor_waits update_governor_simps(3))
qed (simp add: new_governor_def)

lemma sinking_moves: "rv_state g = NORMAL \<Longrightarrow> rv_cycles g = 4 \<Longrightarrow> rv_state (update_governor sinking g) = DEFENSIVE"
  by (rule trans [OF evaluated deep_next(1)]) (simp_all add: deep_def sinking_def eighth_deep)

lemma sinking_normal: "rv_state (governor_after (replicate 4 sinking) new_governor) = NORMAL"
  by (rule conjunct1 [OF sinking_waits]) (rule order_refl)

lemma sinking_defends: "rv_state (governor_after (replicate 4 sinking @ [sinking]) new_governor) = DEFENSIVE"
  unfolding governor_after_simps
  by (rule sinking_moves [OF sinking_normal]) (rule conjunct2 [OF sinking_waits], rule order_refl)

lemma governor_hysteresis_witness:
  "rv_state (governor_after (replicate 4 sinking @ [sinking]) new_governor) = DEFENSIVE \<and>
   (rv_state (governor_after (replicate 4 sinking) new_governor), rv_state (governor_after (replicate 4 sinking @ [sinking]) new_governor)) \<in> governor_edges \<and>
   rv_state (governor_after (take (length (replicate 4 sinking) - 4) (replicate 4 sinking)) new_governor) = NORMAL \<and>
   rv_state (governor_after (take (length (replicate 4 sinking) - 1) (replicate 4 sinking)) new_governor) = NORMAL"
proof -
  have "rv_state (governor_after (replicate 4 sinking @ [sinking]) new_governor) \<noteq> rv_state (governor_after (replicate 4 sinking) new_governor)"
    unfolding sinking_normal sinking_defends by (rule risk_state.distinct)
  note all = governor_hysteresis [OF this]
  have "(4::nat) \<le> 4" "(1::nat) \<le> 4" by simp_all
  with all have "rv_state (governor_after (take (length (replicate 4 sinking) - 4) (replicate 4 sinking)) new_governor) = NORMAL"
    "rv_state (governor_after (take (length (replicate 4 sinking) - 1) (replicate 4 sinking)) new_governor) = NORMAL"
    unfolding sinking_normal by blast+
  with all show ?thesis using sinking_defends by blast
qed

lemma governor_stops_witness:
  "\<exists>k \<le> 15. let g' = governor_after (take k (replicate 15 sinking)) new_governor
     in rv_state g' = RISK_OFF \<and> \<not> allow_new_trades g' \<and> size_mul (rv_state g') = Fin 0"
  by (rule governor_stops) (simp_all add: sinking_def eighth_deep)

lemma governor_resumes_witness:
  "\<exists>k \<le> 25. rv_state (governor_after (take k (replicate 25 flat)) (new_governor\<lparr>rv_state := RISK_OFF\<rparr>)) = NORMAL \<and>
     size_mul (rv_state (governor_after (take k (replicate 25 flat)) (new_governor\<lparr>rv_state := RISK_OFF\<rparr>))) = Fin 1"
  by (rule governor_resumes) (simp_all add: flat_def)

lemma throttle_bounds_witness:
  "snd (update_throttle (Fin 7) (throttled [Fin 8])) = Fin 0 \<and> \<not> throttle_allows (fst (update_throttle (Fin 7) (throttled [Fin 8])))"
proof -
  have t: "throttled [Fin 8] = fst (update_throttle (Fin 8) new_throttle)" by (simp add: throttled_def)
  have o: "ct_peak (throttled [Fin 8]) = Fin 8" "ct_factor (throttled [Fin 8]) = Fin 1"
    unfolding t using first_throttle [of "Fin 8"] by auto
  obtain t' f where t': "update_throttle (Fin 7) (throttled [Fin 8]) = (t', f)" by fastforce
  have p: "ct_peak t' = Fin 8"
    using update_twice(1) [of "Fin 8" "Fin 7" "Fin (1 / 8)" "throttled [Fin 8]"] eighth_deep o(1) unfolding t' by simp
  have d: "ct_drawdown t' = Fin (1 / 8)"
  proof (rule update_throttle_open [OF _ t'])
    show "fl_lt (Fin 0) (ct_peak t')" by (simp add: p)
  next
    fix peak dd assume "ct_peak t' = peak" "dd = fl_max (Fin 0) (the (fl_div (fl_sub peak (Fin 7)) peak))" "ct_drawdown t' = dd"
    moreover from this have "peak = Fin 8" by (simp add: p)
    ultimately show ?thesis by (simp only: eighth_deep) (simp add: fl_max_def)
  qed
  from throttle_bounds [OF refl t'] show ?thesis unfolding p d o t' by (simp only: eighth_deep) simp
qed

lemma throttle_alternates_witness:
  "throttle_allows (throttled [Fin 8, Fin 7, Fin 7]) \<and> \<not> throttle_allows (throttled [Fin 8, Fin 7, Fin 7, Fin 7])"
  using throttle_alternates [of "Fin 8" "Fin 7" "Fin (1 / 8)" 1] throttle_alternates [of "Fin 8" "Fin 7" "Fin (1 / 8)" 2] eighth_deep
  by (simp add: numeral_2_eq_2)

end
