(* ===== verification/RuntimeStates.thy ===== *)
theory RuntimeStates
  imports PyText FloatOrder
begin

text \<open>
  \<^verbatim>\<open>src/quant_hedge_ai/runtime/runtime_state_machine.py\<close> and \<^verbatim>\<open>src/core/authority.py\<close>: the states of
  the running system, which errors, silence and requests move it through, and the kernel that
  tells the decisions whether they may trade. The clock is an argument; callbacks and the lock are
  left out.
\<close>

section \<open>The states\<close>

datatype runtime_state = NORMAL | DEGRADED | CRITICAL | SAFE_MODE | RECOVERY

text \<open>May trade, may fetch, the factor of the size.\<close>

fun runtime_policy :: "runtime_state \<Rightarrow> bool \<times> bool \<times> pyfloat" where
  "runtime_policy NORMAL = (True, True, Fin 1)"
| "runtime_policy DEGRADED = (True, True, Fin (1 / 2))"
| "runtime_policy CRITICAL = (False, True, Fin 0)"
| "runtime_policy SAFE_MODE = (False, False, Fin 0)"
| "runtime_policy RECOVERY = (False, True, Fin 0)"

record runtime_machine =
  rm_state :: runtime_state
  rm_errors :: "pyfloat list"
  rm_last_error :: pyfloat
  rm_recovery_started :: pyfloat
  rm_faults :: "(string, nat) dict"
  rm_requests :: "(string, string \<times> pyfloat) dict"
  rm_degraded :: nat
  rm_critical :: nat
  rm_safe :: nat
  rm_window :: pyfloat
  rm_silence :: pyfloat
  rm_stability :: pyfloat

definition new_runtime :: "nat \<Rightarrow> nat \<Rightarrow> nat \<Rightarrow> pyfloat \<Rightarrow> pyfloat \<Rightarrow> pyfloat \<Rightarrow> runtime_machine" where
  "new_runtime degraded critical safe window silence stability =
     \<lparr>rm_state = NORMAL, rm_errors = [], rm_last_error = Fin 0, rm_recovery_started = Fin 0, rm_faults = [], rm_requests = [],
      rm_degraded = degraded, rm_critical = critical, rm_safe = safe, rm_window = window, rm_silence = silence, rm_stability = stability\<rparr>"

definition rm_can_trade :: "runtime_machine \<Rightarrow> bool" where
  "rm_can_trade m = fst (runtime_policy (rm_state m))"

definition rm_can_fetch :: "runtime_machine \<Rightarrow> bool" where
  "rm_can_fetch m = fst (snd (runtime_policy (rm_state m)))"

definition rm_size_factor :: "runtime_machine \<Rightarrow> pyfloat" where
  "rm_size_factor m = snd (snd (runtime_policy (rm_state m)))"

definition evict_errors :: "pyfloat \<Rightarrow> runtime_machine \<Rightarrow> runtime_machine" where
  "evict_errors now m = m\<lparr>rm_errors := dropWhile (\<lambda>t. fl_lt t (fl_sub now (rm_window m))) (rm_errors m)\<rparr>"

definition error_count :: "pyfloat \<Rightarrow> runtime_machine \<Rightarrow> runtime_machine \<times> nat" where
  "error_count now m = (let m' = evict_errors now m in (m', length (rm_errors m')))"

section \<open>What moves them\<close>

definition evaluate_degradation :: "runtime_machine \<Rightarrow> runtime_machine" where
  "evaluate_degradation m =
     (if rm_requests m \<noteq> [] then m\<lparr>rm_state := SAFE_MODE\<rparr>
      else let count = length (rm_errors m)
           in if rm_safe m \<le> count then m\<lparr>rm_state := SAFE_MODE\<rparr>
              else if rm_critical m \<le> count then
                (if rm_state m \<in> {CRITICAL, SAFE_MODE} then m else m\<lparr>rm_state := CRITICAL\<rparr>)
              else if rm_degraded m \<le> count then
                (if rm_state m \<in> {NORMAL, RECOVERY} then m\<lparr>rm_state := DEGRADED\<rparr> else m)
              else m)"

definition report_error :: "string \<Rightarrow> pyfloat \<Rightarrow> runtime_machine \<Rightarrow> runtime_machine" where
  "report_error fault now m =
     evaluate_degradation (evict_errors now
       (m\<lparr>rm_errors := rm_errors m @ [now], rm_last_error := now,
          rm_faults := dict_set (rm_faults m) fault
            ((case dict_get (rm_faults m) fault of None \<Rightarrow> 0 | Some n \<Rightarrow> n) + 1)\<rparr>))"

definition begin_recovery :: "pyfloat \<Rightarrow> runtime_machine \<Rightarrow> runtime_machine" where
  "begin_recovery now m = m\<lparr>rm_state := RECOVERY, rm_recovery_started := now\<rparr>"

definition report_ok :: "pyfloat \<Rightarrow> runtime_machine \<Rightarrow> runtime_machine" where
  "report_ok now m0 =
     (let m = evict_errors now m0;
          silence = (if fl_lt (Fin 0) (rm_last_error m) then fl_sub now (rm_last_error m) else PosInf)
      in case rm_state m of
           RECOVERY \<Rightarrow> if fl_le (rm_stability m) (fl_sub now (rm_recovery_started m)) then m\<lparr>rm_state := NORMAL\<rparr> else m
         | DEGRADED \<Rightarrow> if rm_errors m = [] \<and> fl_le (rm_silence m) silence then begin_recovery now m else m
         | CRITICAL \<Rightarrow> if rm_errors m = [] \<and> fl_le (rm_silence m) silence then begin_recovery now m else m
         | SAFE_MODE \<Rightarrow>
             if rm_requests m \<noteq> [] then m
             else if rm_errors m = [] \<and> fl_le (fl_mul (rm_silence m) (Fin 2)) silence then begin_recovery now m else m
         | NORMAL \<Rightarrow> m)"

definition source_key :: "string \<Rightarrow> string" where
  "source_key source =
     (let s = py_lower (py_strip (if source = [] then ''unknown'' else source)) in if s = [] then ''unknown'' else s)"

definition request_safe_mode :: "string \<Rightarrow> string \<Rightarrow> pyfloat \<Rightarrow> runtime_machine \<Rightarrow> runtime_machine" where
  "request_safe_mode source reason now m =
     m\<lparr>rm_requests := dict_set (rm_requests m) (source_key source) (reason, now), rm_state := SAFE_MODE\<rparr>"

definition force_safe :: "string \<Rightarrow> pyfloat \<Rightarrow> runtime_machine \<Rightarrow> runtime_machine" where
  "force_safe reason now m = request_safe_mode ''manual'' reason now m"

definition forget_errors :: "runtime_machine \<Rightarrow> runtime_machine" where
  "forget_errors m = m\<lparr>rm_errors := [], rm_last_error := Fin 0\<rparr>"

definition clear_request :: "string \<Rightarrow> pyfloat \<Rightarrow> runtime_machine \<Rightarrow> runtime_machine" where
  "clear_request source now m =
     (let m1 = m\<lparr>rm_requests := dict_del (rm_requests m) (source_key source)\<rparr>
      in if rm_requests m1 = [] \<and> rm_state m1 = SAFE_MODE then begin_recovery now (forget_errors m1) else m1)"

definition clear_all_requests :: "pyfloat \<Rightarrow> runtime_machine \<Rightarrow> runtime_machine" where
  "clear_all_requests now m =
     (let m1 = m\<lparr>rm_requests := []\<rparr>
      in if rm_state m1 = SAFE_MODE then begin_recovery now (forget_errors m1) else m1)"

definition force_recovery :: "pyfloat \<Rightarrow> runtime_machine \<Rightarrow> runtime_machine" where
  "force_recovery now m = begin_recovery now (forget_errors m)"

definition reset_runtime :: "runtime_machine \<Rightarrow> runtime_machine" where
  "reset_runtime m = (forget_errors m)\<lparr>rm_recovery_started := Fin 0, rm_faults := [], rm_state := NORMAL\<rparr>"

section \<open>The kernel\<close>

text \<open>The kernel of the process, which is there once it has been made.\<close>

datatype authority_error = NotInitialised

definition get_authority :: "runtime_machine option \<Rightarrow> authority_error + runtime_machine" where
  "get_authority made = or_raise NotInitialised made"

definition kernel_can_trade :: "runtime_machine \<Rightarrow> bool" where
  "kernel_can_trade m = rm_can_trade m"

definition kernel_can_place_order :: "runtime_machine \<Rightarrow> bool" where
  "kernel_can_place_order m \<longleftrightarrow> rm_can_trade m \<and> rm_state m \<noteq> RECOVERY"

section \<open>What holds of every machine\<close>

datatype runtime_op =
    ErrorReport string pyfloat | OkReport pyfloat | RequestSafe string string pyfloat | ClearSafe string pyfloat | ClearAll pyfloat
  | CountErrors pyfloat | ForceRecovery pyfloat | Reset

fun run_runtime :: "runtime_op \<Rightarrow> runtime_machine \<Rightarrow> runtime_machine" where
  "run_runtime (ErrorReport fault now) m = report_error fault now m"
| "run_runtime (OkReport now) m = report_ok now m"
| "run_runtime (RequestSafe source reason now) m = request_safe_mode source reason now m"
| "run_runtime (ClearSafe source now) m = clear_request source now m"
| "run_runtime (ClearAll now) m = clear_all_requests now m"
| "run_runtime (CountErrors now) m = fst (error_count now m)"
| "run_runtime (ForceRecovery now) m = force_recovery now m"
| "run_runtime Reset m = reset_runtime m"

text \<open>Orders between the thresholds, as the constructor has them.\<close>

definition thresholds_ok :: "runtime_machine \<Rightarrow> bool" where
  "thresholds_ok m \<longleftrightarrow> 0 < rm_degraded m \<and> rm_degraded m \<le> rm_critical m \<and> rm_critical m \<le> rm_safe m"

definition runtime_ok :: "runtime_machine \<Rightarrow> bool" where
  "runtime_ok m \<longleftrightarrow> thresholds_ok m \<and>
     (rm_state m \<in> {NORMAL, RECOVERY} \<longrightarrow> length (rm_errors m) < rm_degraded m) \<and>
     (rm_state m = DEGRADED \<longrightarrow> length (rm_errors m) < rm_critical m)"

lemma evict_shorter: "length (rm_errors (evict_errors now m)) \<le> length (rm_errors m)"
  by (simp add: evict_errors_def length_dropWhile_le)

lemma evict_simps [simp]:
  "rm_state (evict_errors now m) = rm_state m" "rm_requests (evict_errors now m) = rm_requests m"
  "thresholds_ok (evict_errors now m) = thresholds_ok m" "rm_degraded (evict_errors now m) = rm_degraded m"
  "rm_critical (evict_errors now m) = rm_critical m" "rm_safe (evict_errors now m) = rm_safe m"
  by (simp_all add: evict_errors_def thresholds_ok_def)

lemma evict_ok: "runtime_ok m \<Longrightarrow> runtime_ok (evict_errors now m)"
  using evict_shorter [of now m] by (auto simp: runtime_ok_def)

lemma degradation_ok: "thresholds_ok m \<Longrightarrow> runtime_ok (evaluate_degradation m)"
  by (cases "rm_state m") (auto simp: runtime_ok_def thresholds_ok_def evaluate_degradation_def Let_def)

lemma report_ok_ok: "runtime_ok m \<Longrightarrow> runtime_ok (report_ok now m)"
  using evict_ok [of m now]
  by (cases "rm_state m") (auto simp: report_ok_def Let_def begin_recovery_def runtime_ok_def thresholds_ok_def)

lemma run_runtime_ok: "runtime_ok m \<Longrightarrow> runtime_ok (run_runtime op m)"
proof (cases op)
  case (ErrorReport fault now)
  assume "runtime_ok m"
  then have "thresholds_ok m" by (simp add: runtime_ok_def)
  then have "thresholds_ok (evict_errors now (m\<lparr>rm_errors := rm_errors m @ [now], rm_last_error := now,
      rm_faults := dict_set (rm_faults m) fault ((case dict_get (rm_faults m) fault of None \<Rightarrow> 0 | Some n \<Rightarrow> n) + 1)\<rparr>))"
    unfolding evict_simps by (simp add: thresholds_ok_def)
  then show ?thesis unfolding ErrorReport run_runtime.simps report_error_def by (rule degradation_ok)
qed (auto simp: report_ok_ok evict_ok error_count_def Let_def,
    auto simp: runtime_ok_def thresholds_ok_def request_safe_mode_def clear_request_def clear_all_requests_def force_recovery_def
      reset_runtime_def begin_recovery_def forget_errors_def Let_def)

interpretation runtime: guarded_machine "\<lambda>m. rm_state m = NORMAL \<and> rm_errors m = [] \<and> thresholds_ok m" run_runtime runtime_ok
  by unfold_locales (auto simp: run_runtime_ok, auto simp: runtime_ok_def thresholds_ok_def)

lemma thresholds_kept [simp]:
  "rm_degraded (run_runtime op m) = rm_degraded m" "rm_critical (run_runtime op m) = rm_critical m"
  by (cases op; simp add: report_error_def evaluate_degradation_def report_ok_def request_safe_mode_def clear_request_def
      clear_all_requests_def force_recovery_def reset_runtime_def begin_recovery_def forget_errors_def error_count_def Let_def
      split: runtime_state.split)+

lemma thresholds_run [simp]:
  "rm_degraded (fold run_runtime ops m) = rm_degraded m" "rm_critical (fold run_runtime ops m) = rm_critical m"
  by (induction ops arbitrary: m) simp_all

text \<open>
  C26: There is a budget of errors for trading. After any history of reports, requests and overrides of a
  machine that starts with ordered thresholds, it may trade only while the window holds fewer errors
  than the critical number, and at full size only while it holds fewer than the degraded number;
  whoever may place an order may trade and may fetch.
\<close>

theorem error_budget:
  assumes "m = fold run_runtime ops (new_runtime degraded critical safe window silence stability)"
    "0 < degraded" "degraded \<le> critical" "critical \<le> safe"
  shows "(rm_can_trade m \<longrightarrow> length (rm_errors m) < critical) \<and>
    (rm_size_factor m = Fin 1 \<longrightarrow> length (rm_errors m) < degraded) \<and>
    (kernel_can_place_order m \<longrightarrow> rm_can_trade m \<and> rm_can_fetch m)"
proof -
  have start: "rm_state (new_runtime degraded critical safe window silence stability) = NORMAL \<and>
      rm_errors (new_runtime degraded critical safe window silence stability) = [] \<and>
      thresholds_ok (new_runtime degraded critical safe window silence stability)"
    using assms(2-) by (simp add: new_runtime_def thresholds_ok_def)
  have "runtime_ok m" unfolding assms(1) by (rule runtime.run_inv) (rule start)
  moreover have "rm_degraded m = degraded" "rm_critical m = critical" by (simp_all add: assms(1) new_runtime_def)
  ultimately show ?thesis
    by (cases "rm_state m")
      (auto simp: runtime_ok_def thresholds_ok_def rm_can_trade_def rm_size_factor_def rm_can_fetch_def kernel_can_place_order_def)
qed

definition overrides :: "runtime_op \<Rightarrow> bool" where
  "overrides op = (case op of ForceRecovery _ \<Rightarrow> True | Reset \<Rightarrow> True | _ \<Rightarrow> False)"

definition requests_hold :: "runtime_machine \<Rightarrow> bool" where
  "requests_hold m \<longleftrightarrow> (rm_requests m \<noteq> [] \<longrightarrow> rm_state m = SAFE_MODE)"

lemma requests_kept: "requests_hold m \<Longrightarrow> \<not> overrides op \<Longrightarrow> requests_hold (run_runtime op m)"
  by (cases op; cases "rm_state m")
    (auto simp: requests_hold_def overrides_def report_error_def evaluate_degradation_def report_ok_def request_safe_mode_def clear_request_def
      clear_all_requests_def begin_recovery_def forget_errors_def error_count_def Let_def dict_del_def)

text \<open>
  C27: A request for the safe mode is held. In any history without a forced recovery and a reset, as long as
  one source's request stands, the machine is in its safe mode: it does not trade, does not place an order
  and does not fetch, whatever is reported in the meantime.
\<close>

theorem safe_mode_held:
  assumes "m = fold run_runtime ops (new_runtime degraded critical safe window silence stability)"
    "\<forall>op \<in> set ops. \<not> overrides op" "dict_get (rm_requests m) source = Some r"
  shows "rm_state m = SAFE_MODE \<and> \<not> rm_can_trade m \<and> \<not> kernel_can_place_order m \<and> \<not> rm_can_fetch m"
proof -
  have "requests_hold (fold run_runtime ops k)" if "requests_hold k" for k
    using that assms(2) by (induction ops arbitrary: k) (auto simp: requests_kept)
  then have "requests_hold m" unfolding assms(1) by (simp add: requests_hold_def new_runtime_def)
  moreover have "rm_requests m \<noteq> []" using assms(3) by auto
  ultimately show ?thesis
    by (simp add: requests_hold_def rm_can_trade_def rm_can_fetch_def kernel_can_place_order_def)
qed

text \<open>
  An override does not hold it. After a forced recovery, one report of good health once the time of stability
  is over makes a machine trade at full size again, with every request for the safe mode still standing.
\<close>

theorem override_trades:
  assumes "fl_le (rm_stability m) (fl_sub later now)"
  shows "rm_can_trade (report_ok later (force_recovery now m)) \<and> rm_size_factor (report_ok later (force_recovery now m)) = Fin 1 \<and>
    rm_requests (report_ok later (force_recovery now m)) = rm_requests m"
  using assms
  by (simp add: report_ok_def force_recovery_def begin_recovery_def forget_errors_def evict_errors_def rm_can_trade_def
      rm_size_factor_def Let_def)

section \<open>Examples\<close>

definition sample_runtime :: runtime_machine where
  "sample_runtime = new_runtime 3 7 10 (Fin 60) (Fin 30) (Fin 60)"

definition three_errors :: "runtime_op list" where
  "three_errors = [ErrorReport ''feed'' (Fin 1), ErrorReport ''feed'' (Fin 2), ErrorReport ''feed'' (Fin 3)]"

definition asked_for_safety :: "runtime_op list" where
  "asked_for_safety = [RequestSafe ''Watchdog'' ''stale'' (Fin 5), ClearSafe ''manual'' (Fin 6), OkReport (Fin 900)]"

lemma watchdog_key: "source_key ''Watchdog'' = ''watchdog''" "source_key ''watchdog'' = ''watchdog''" "source_key ''manual'' = ''manual''"
  by code_simp+

lemma sample_runs:
  "rm_state (fold run_runtime three_errors sample_runtime) = DEGRADED"
  "rm_requests (fold run_runtime asked_for_safety sample_runtime) = [(''watchdog'', (''stale'', Fin 5))]"
  "fl_le (rm_stability sample_runtime) (fl_sub (Fin 70) (Fin 5))"
  by (simp_all add: sample_runtime_def new_runtime_def three_errors_def asked_for_safety_def report_error_def evict_errors_def
      evaluate_degradation_def request_safe_mode_def watchdog_key clear_request_def report_ok_def fl_sub_def dict_set_def dict_del_def Let_def)

lemma sample_overrides: "op \<in> set asked_for_safety \<Longrightarrow> \<not> overrides op"
  by (auto simp: asked_for_safety_def overrides_def)

lemma error_budget_witness:
  "rm_can_trade (fold run_runtime three_errors sample_runtime) \<and> length (rm_errors (fold run_runtime three_errors sample_runtime)) < 7"
  using error_budget [of "fold run_runtime three_errors sample_runtime" three_errors 3 7 10 "Fin 60" "Fin 30" "Fin 60"]
  by (simp add: sample_runtime_def [symmetric] rm_can_trade_def sample_runs(1))

lemma safe_mode_held_witness: "\<not> kernel_can_place_order (fold run_runtime asked_for_safety sample_runtime)"
  using safe_mode_held [of "fold run_runtime asked_for_safety sample_runtime" asked_for_safety 3 7 10 "Fin 60" "Fin 30" "Fin 60"
      "''watchdog''" "(''stale'', Fin 5)"]
  by (simp add: sample_runtime_def [symmetric] sample_runs(2) sample_overrides)

lemma override_trades_witness:
  "rm_can_trade (report_ok (Fin 70) (force_recovery (Fin 5) (request_safe_mode ''watchdog'' ''stale'' (Fin 4) sample_runtime)))"
  using override_trades [of "request_safe_mode ''watchdog'' ''stale'' (Fin 4) sample_runtime" "Fin 70" "Fin 5"] sample_runs(3)
  by (simp add: request_safe_mode_def)

end
