(* ===== verification/PortfolioBrain.thy ===== *)
theory PortfolioBrain
  imports RiskGate
begin

text \<open>
  \<^verbatim>\<open>src/quant_hedge_ai/agents/risk/portfolio_brain.py\<close>: whether the portfolio can take another
  trade, asked with the terms of a trade and with a decision packet. Environment variables have
  their defaults; messages keep their kind; the metrics of a verdict, the ranking of opportunities
  and the health report, which nothing here reads, are left out.
\<close>

section \<open>The portfolio\<close>

text \<open>What is read of a position. A leverage is an int that a float holds exactly.\<close>

record held =
  hd_symbol :: string
  hd_closed :: bool
  hd_size :: pyfloat
  hd_regime :: string
  hd_pnl :: pyfloat
  hd_long :: bool
  hd_leverage :: pyfloat

record brain =
  pb_capital :: pyfloat
  pb_correlations :: "(string \<times> string, pyfloat) dict"

definition default_correlations :: "(string \<times> string, pyfloat) dict" where
  "default_correlations =
     [((''BTC/USDT'', ''ETH/USDT''), round_double (85 / 100)), ((''BTC/USDT'', ''SOL/USDT''), round_double (78 / 100)),
      ((''ETH/USDT'', ''SOL/USDT''), round_double (80 / 100)), ((''BTC/USDT'', ''BTC/USDT''), Fin 1),
      ((''ETH/USDT'', ''ETH/USDT''), Fin 1), ((''SOL/USDT'', ''SOL/USDT''), Fin 1)]"

definition new_brain :: "pyfloat \<Rightarrow> brain" where
  "new_brain capital = \<lparr>pb_capital = capital, pb_correlations = default_correlations\<rparr>"

definition update_brain_capital :: "pyfloat \<Rightarrow> brain \<Rightarrow> brain" where
  "update_brain_capital capital b = b\<lparr>pb_capital := fl_max (Fin 1) capital\<rparr>"

definition correlation_of :: "brain \<Rightarrow> string \<Rightarrow> string \<Rightarrow> pyfloat" where
  "correlation_of b x y =
     (case dict_get (pb_correlations b) (x, y) of
        Some c \<Rightarrow> c
      | None \<Rightarrow> (case dict_get (pb_correlations b) (y, x) of Some c \<Rightarrow> c | None \<Rightarrow> Fin (1 / 2)))"

definition correlation_risk :: "brain \<Rightarrow> string \<Rightarrow> held list \<Rightarrow> pyfloat" where
  "correlation_risk b symbol positions =
     (if positions = [] then Fin 0
      else let weighted = foldl (\<lambda>s p. fl_add s (fl_mul (correlation_of b (hd_symbol p) symbol) (hd_size p))) (Fin 0) positions;
               total = fl_sum (map hd_size positions)
           in if total = Fin 0 then Fin 0 else the (fl_div weighted total))"

fun pairs_of :: "'a list \<Rightarrow> ('a \<times> 'a) list" where
  "pairs_of [] = []"
| "pairs_of (x # xs) = map (Pair x) xs @ pairs_of xs"

definition portfolio_correlation :: "brain \<Rightarrow> held list \<Rightarrow> pyfloat" where
  "portfolio_correlation b positions =
     (if length positions < 2 then Fin 0
      else let risks = map (\<lambda>(x, y). correlation_of b (hd_symbol x) (hd_symbol y)) (pairs_of positions)
           in the (fl_div (fl_sum risks) (Fin (of_nat (length risks)))))"

definition weighted_leverage :: "held list \<Rightarrow> pyfloat \<Rightarrow> pyfloat \<Rightarrow> pyfloat" where
  "weighted_leverage positions new_size new_leverage =
     (let live = filter (\<lambda>p. \<not> hd_closed p) positions;
          notional = fl_add (fl_sum (map (\<lambda>p. fl_mul (hd_size p) (hd_leverage p)) live)) (fl_mul new_size new_leverage);
          total = fl_add (fl_sum (map hd_size live)) new_size
      in if total = Fin 0 then Fin 1 else the (fl_div notional total))"

record portfolio_snapshot =
  sn_exposure :: pyfloat
  sn_exposure_pct :: pyfloat
  sn_positions :: nat
  sn_by_symbol :: "(string, pyfloat) dict"
  sn_by_regime :: "(string, pyfloat) dict"
  sn_correlation :: pyfloat
  sn_leverage :: pyfloat
  sn_pnl :: pyfloat

definition amount_of :: "(string, pyfloat) dict \<Rightarrow> string \<Rightarrow> pyfloat" where
  "amount_of d k = (case dict_get d k of Some x \<Rightarrow> x | None \<Rightarrow> Fin 0)"

definition count_position :: "held \<Rightarrow> portfolio_snapshot \<Rightarrow> portfolio_snapshot" where
  "count_position p s =
     (if hd_closed p then s
      else s\<lparr>sn_exposure := fl_add (sn_exposure s) (hd_size p), sn_positions := sn_positions s + 1,
             sn_by_symbol := dict_set (sn_by_symbol s) (hd_symbol p) (fl_add (amount_of (sn_by_symbol s) (hd_symbol p)) (hd_size p)),
             sn_by_regime := dict_set (sn_by_regime s) (hd_regime p) (fl_add (amount_of (sn_by_regime s) (hd_regime p)) (hd_size p)),
             sn_pnl := fl_add (sn_pnl s) (hd_pnl p)\<rparr>)"

definition empty_snapshot :: portfolio_snapshot where
  "empty_snapshot = \<lparr>sn_exposure = Fin 0, sn_exposure_pct = Fin 0, sn_positions = 0, sn_by_symbol = [], sn_by_regime = [],
     sn_correlation = Fin 0, sn_leverage = Fin 0, sn_pnl = Fin 0\<rparr>"

definition snapshot_portfolio :: "brain \<Rightarrow> held list \<Rightarrow> portfolio_snapshot" where
  "snapshot_portfolio b positions =
     (let s = fold count_position positions empty_snapshot
      in s\<lparr>sn_exposure_pct := (case fl_div (sn_exposure s) (pb_capital b) of Some x \<Rightarrow> x | None \<Rightarrow> Fin 0),
           sn_correlation := portfolio_correlation b positions, sn_leverage := weighted_leverage positions (Fin 0) (Fin 1)\<rparr>)"

section \<open>The checks\<close>

datatype brain_check =
    TotalExposure | SymbolExposure | RegimeExposure | Correlated | Leveraged | PositionCount | OppositePosition | OneSided | TooSmall

datatype advice = Fine | Reduce pyfloat | Refuse

definition shrink :: "pyfloat \<Rightarrow> pyfloat \<Rightarrow> pyfloat \<Rightarrow> pyfloat \<Rightarrow> pyfloat" where
  "shrink least x limit slope = fl_max least (fl_sub (Fin 1) (the (fl_div (fl_sub x limit) slope)))"

definition tenth :: pyfloat where
  "tenth = round_double (10 / 100)"

definition advise_overshoot :: "pyfloat \<Rightarrow> pyfloat \<Rightarrow> advice" where
  "advise_overshoot x limit =
     (if fl_lt limit x then let f = shrink (Fin 0) x limit tenth in if fl_le f (Fin 0) then Refuse else Reduce f else Fine)"

definition advise_regime :: "pyfloat \<Rightarrow> advice" where
  "advise_regime x =
     (let limit = round_double (30 / 100) in if fl_lt limit x then Reduce (shrink (round_double (3 / 10)) x limit tenth) else Fine)"

definition advise_correlation :: "pyfloat \<Rightarrow> advice" where
  "advise_correlation x = (if fl_lt (Fin (3 / 4)) x then Reduce (shrink (round_double (4 / 10)) x (Fin (3 / 4)) (Fin (1 / 4))) else Fine)"

definition advise_leverage :: "pyfloat \<Rightarrow> advice" where
  "advise_leverage x = (if fl_lt (Fin 2) x then Reduce (fl_max (round_double (3 / 10)) (the (fl_div (Fin 2) x))) else Fine)"

definition refuse_if :: "bool \<Rightarrow> advice" where
  "refuse_if c = (if c then Refuse else Fine)"

record trade_terms =
  tt_symbol :: string
  tt_long :: bool
  tt_size :: pyfloat
  tt_regime :: string
  tt_leverage :: pyfloat

record brain_figures =
  bf_exposure :: pyfloat
  bf_symbol :: pyfloat
  bf_regime :: pyfloat
  bf_correlation :: pyfloat
  bf_leverage :: pyfloat

datatype brain_error = BrainDivision | BrainMove packet_error

definition share_with :: "brain \<Rightarrow> pyfloat \<Rightarrow> pyfloat \<Rightarrow> brain_error + pyfloat" where
  "share_with b held_usd size_usd = or_raise BrainDivision (fl_div (fl_add held_usd size_usd) (pb_capital b))"

definition figures_of :: "brain \<Rightarrow> trade_terms \<Rightarrow> held list \<Rightarrow> brain_error + brain_figures" where
  "figures_of b t positions =
     (let snap = snapshot_portfolio b positions
      in bindE (share_with b (sn_exposure snap) (tt_size t)) (\<lambda>exposure.
         bindE (share_with b (amount_of (sn_by_symbol snap) (tt_symbol t)) (tt_size t)) (\<lambda>in_symbol.
         bindE (share_with b (amount_of (sn_by_regime snap) (tt_regime t)) (tt_size t)) (\<lambda>in_regime.
           Inr \<lparr>bf_exposure = exposure, bf_symbol = in_symbol, bf_regime = in_regime,
                bf_correlation = correlation_risk b (tt_symbol t) positions,
                bf_leverage = weighted_leverage positions (tt_size t) (tt_leverage t)\<rparr>))))"

definition advise_direction :: "bool \<Rightarrow> held list \<Rightarrow> advice" where
  "advise_direction long positions = (if 3 \<le> length (filter (\<lambda>p. hd_long p = long) positions) then Reduce (Fin (1 / 2)) else Fine)"

definition advices :: "brain_figures \<Rightarrow> trade_terms \<Rightarrow> held list \<Rightarrow> (brain_check \<times> advice) list" where
  "advices f t positions =
     [(TotalExposure, advise_overshoot (bf_exposure f) (round_double (40 / 100))),
      (SymbolExposure, advise_overshoot (bf_symbol f) (round_double (20 / 100))),
      (RegimeExposure, advise_regime (bf_regime f)),
      (Correlated, advise_correlation (bf_correlation f)),
      (Leveraged, advise_leverage (bf_leverage f)),
      (PositionCount, refuse_if (5 \<le> length (filter (\<lambda>p. \<not> hd_closed p) positions))),
      (OppositePosition, refuse_if (list_ex (\<lambda>p. hd_symbol p = tt_symbol t \<and> hd_long p \<noteq> tt_long t) positions)),
      (OneSided, advise_direction (tt_long t) positions),
      (TooSmall, refuse_if (fl_lt (tt_size t) (Fin 10)))]"

text \<open>The checks in order, up to the first that refuses; the others leave a factor and a warning.\<close>

fun weigh :: "(brain_check \<times> advice) list \<Rightarrow> brain_check option \<times> (brain_check \<times> pyfloat) list" where
  "weigh [] = (None, [])"
| "weigh ((c, Fine) # rest) = weigh rest"
| "weigh ((c, Reduce f) # rest) = (case weigh rest of (stop, reduced) \<Rightarrow> (stop, (c, f) # reduced))"
| "weigh ((c, Refuse) # rest) = (Some c, [])"

datatype brain_reason = AllClear | Warned "brain_check list" | Refused brain_check

record brain_verdict =
  bv_allowed :: bool
  bv_reason :: brain_reason
  bv_size_factor :: pyfloat
  bv_capital_available :: pyfloat
  bv_warnings :: "brain_check list"

definition final_factor :: "pyfloat \<Rightarrow> pyfloat list \<Rightarrow> pyfloat" where
  "final_factor conviction factors =
     (case factors of
        f # fs \<Rightarrow> foldl fl_min f fs
      | [] \<Rightarrow> if fl_le (Fin 80) conviction then fl_min (round_double (12 / 10)) (fl_mul (Fin 1) (round_double (11 / 10))) else Fin 1)"

definition available :: "brain \<Rightarrow> held list \<Rightarrow> pyfloat" where
  "available b positions =
     fl_max (Fin 0) (fl_sub (fl_mul (pb_capital b) (round_double (40 / 100))) (sn_exposure (snapshot_portfolio b positions)))"

definition verdict_of :: "brain \<Rightarrow> pyfloat \<Rightarrow> held list \<Rightarrow> (brain_check \<times> advice) list \<Rightarrow> brain_verdict" where
  "verdict_of b conviction positions given =
     (case weigh given of
        (Some c, reduced) \<Rightarrow> \<lparr>bv_allowed = False, bv_reason = Refused c, bv_size_factor = Fin 0, bv_capital_available = Fin 0,
                                bv_warnings = map fst reduced\<rparr>
      | (None, reduced) \<Rightarrow> \<lparr>bv_allowed = True, bv_reason = (if reduced = [] then AllClear else Warned (take 2 (map fst reduced))),
                             bv_size_factor = fl_round 3 (final_factor conviction (map snd reduced)),
                             bv_capital_available = fl_round 2 (available b positions), bv_warnings = map fst reduced\<rparr>)"

definition check_new_trade ::
  "brain \<Rightarrow> string \<Rightarrow> string \<Rightarrow> pyfloat \<Rightarrow> string \<Rightarrow> held list \<Rightarrow> pyfloat \<Rightarrow> pyfloat \<Rightarrow> brain_error + brain_verdict" where
  "check_new_trade b symbol action size_usd regime positions leverage conviction =
     (let t = \<lparr>tt_symbol = symbol, tt_long = (py_upper action = ''BUY''), tt_size = size_usd, tt_regime = regime, tt_leverage = leverage\<rparr>
      in bindE (figures_of b t positions) (\<lambda>f. Inr (verdict_of b conviction positions (advices f t positions))))"

section \<open>On a packet\<close>

fun conviction_score :: "conviction_level \<Rightarrow> pyfloat" where
  "conviction_score VERY_HIGH = Fin 90"
| "conviction_score HIGH = Fin 75"
| "conviction_score MEDIUM = Fin 50"
| "conviction_score LOW = Fin 25"
| "conviction_score SKIP = Fin 0"

abbreviation brain_actor :: string where
  "brain_actor \<equiv> ''portfolio_brain''"

text \<open>The note that a check leaves: its impact, category and severity.\<close>

fun brain_note :: "brain_check \<Rightarrow> advice \<Rightarrow> (int \<times> reasoning_category \<times> reasoning_severity) option" where
  "brain_note TotalExposure Refuse = Some (- 30, PORTFOLIO_EXPOSURE, CRITICAL)"
| "brain_note TotalExposure (Reduce _) = Some (- 8, PORTFOLIO_EXPOSURE, WARNING)"
| "brain_note TotalExposure Fine = Some (2, PORTFOLIO_EXPOSURE, INFO)"
| "brain_note SymbolExposure Refuse = Some (- 25, PORTFOLIO_CONCENTRATION, CRITICAL)"
| "brain_note SymbolExposure (Reduce _) = Some (- 5, PORTFOLIO_CONCENTRATION, WARNING)"
| "brain_note SymbolExposure Fine = Some (1, PORTFOLIO_CONCENTRATION, INFO)"
| "brain_note RegimeExposure (Reduce _) = Some (- 5, PORTFOLIO_EXPOSURE, WARNING)"
| "brain_note Correlated (Reduce _) = Some (- 8, PORTFOLIO_CORRELATION, WARNING)"
| "brain_note Correlated Fine = Some (1, PORTFOLIO_CORRELATION, INFO)"
| "brain_note Leveraged (Reduce _) = Some (- 6, PORTFOLIO_EXPOSURE, WARNING)"
| "brain_note PositionCount Refuse = Some (- 30, PORTFOLIO_RISK_BUDGET, CRITICAL)"
| "brain_note OppositePosition Refuse = Some (- 50, PORTFOLIO_RISK_BUDGET, CRITICAL)"
| "brain_note OneSided (Reduce _) = Some (- 4, PORTFOLIO_RISK_BUDGET, WARNING)"
| "brain_note TooSmall Refuse = Some (- 20, PORTFOLIO_RISK_BUDGET, WARNING)"
| "brain_note _ _ = None"

fun check_name :: "brain_check \<Rightarrow> string" where
  "check_name TotalExposure = ''exposure''"
| "check_name SymbolExposure = ''symbol''"
| "check_name RegimeExposure = ''regime''"
| "check_name Correlated = ''correlation''"
| "check_name Leveraged = ''leverage''"
| "check_name PositionCount = ''positions''"
| "check_name OppositePosition = ''opposite''"
| "check_name OneSided = ''direction''"
| "check_name TooSmall = ''size''"

fun brain_feature :: "brain_figures \<Rightarrow> brain_check \<Rightarrow> (string \<times> pyfloat) option" where
  "brain_feature f TotalExposure = Some (''pb_exposure_pct'', fl_round 4 (bf_exposure f))"
| "brain_feature f SymbolExposure = Some (''pb_symbol_pct'', fl_round 4 (bf_symbol f))"
| "brain_feature f Correlated = Some (''pb_corr_risk'', fl_round 4 (bf_correlation f))"
| "brain_feature f Leveraged = Some (''pb_leverage_weighted'', fl_round 3 (bf_leverage f))"
| "brain_feature f _ = None"

definition set_feature :: "(string \<times> pyfloat) option \<Rightarrow> decision_packet \<Rightarrow> decision_packet" where
  "set_feature kv p = (case kv of None \<Rightarrow> p | Some (k, v) \<Rightarrow> p\<lparr>dp_features := dict_set (dp_features p) k v\<rparr>)"

definition note_check :: "brain_figures \<Rightarrow> nat \<Rightarrow> brain_check \<Rightarrow> advice \<Rightarrow> decision_packet \<Rightarrow> decision_packet" where
  "note_check f now c a p =
     (case brain_note c a of
        None \<Rightarrow> set_feature (brain_feature f c) p
      | Some (impact, cat, sev) \<Rightarrow>
          add_reasoning brain_actor (check_name c) (Fin (of_int impact)) cat sev now (set_feature (brain_feature f c) p))"

fun note_checks :: "brain_figures \<Rightarrow> nat \<Rightarrow> (brain_check \<times> advice) list \<Rightarrow> decision_packet \<Rightarrow> decision_packet" where
  "note_checks f now [] p = p"
| "note_checks f now ((c, a) # rest) p =
     (if a = Refuse then note_check f now c a p else note_checks f now rest (note_check f now c a p))"

definition packet_terms :: "decision_packet \<Rightarrow> pyfloat \<Rightarrow> trade_terms" where
  "packet_terms p size_usd = \<lparr>tt_symbol = dp_symbol p, tt_long = (dp_side p = LONG), tt_size = size_usd,
     tt_regime = regime_value (dp_regime p), tt_leverage = Fin 1\<rparr>"

definition write_brain :: "brain_verdict \<Rightarrow> decision_packet \<Rightarrow> decision_packet" where
  "write_brain v p =
     p\<lparr>dp_features := dict_set (dict_set (dp_features p) ''pb_size_factor'' (bv_size_factor v)) ''pb_capital_available'' (bv_capital_available v),
       dp_metadata := dict_set (dp_metadata p) ''pb_warnings'' (JList (map (JStr \<circ> check_name) (bv_warnings v)))\<rparr>"

definition approve_packet ::
  "brain \<Rightarrow> held list \<Rightarrow> pyfloat \<Rightarrow> nat \<Rightarrow> decision_packet \<Rightarrow> decision_packet \<times> (brain_error + brain_verdict)" where
  "approve_packet b positions size_usd now p =
     (let p0 = add_agent brain_actor p; t = packet_terms p0 size_usd
      in case figures_of b t positions of
           Inl e \<Rightarrow> (p0, Inl e)
         | Inr f \<Rightarrow>
             let given = advices f t positions; v = verdict_of b (conviction_score (dp_conviction p0)) positions given;
                 p1 = note_checks f now given p0;
                 moved = (if bv_allowed v then move_packet APPROVED brain_actor ''portfolio ok'' now (write_brain v p1)
                          else reject_packet brain_actor ''portfolio block'' now now p1)
             in (fst moved, case snd moved of None \<Rightarrow> Inr v | Some e \<Rightarrow> Inl (BrainMove e)))"

section \<open>What an approval means\<close>

lemma weigh_passes: "weigh given = (None, reduced) \<Longrightarrow> (c, Refuse) \<notin> set given"
  by (induction given arbitrary: reduced rule: weigh.induct) (auto split: prod.splits)

lemma weigh_warns: "weigh given = (None, reduced) \<Longrightarrow> (c, Reduce f) \<in> set given \<Longrightarrow> c \<in> set (map fst reduced)"
  by (induction given arbitrary: reduced rule: weigh.induct) (auto split: prod.splits)

lemma weigh_stops: "fst (weigh given) = Some c \<Longrightarrow> (c, Refuse) \<in> set given"
  by (induction given rule: weigh.induct) (auto split: prod.splits)

lemma verdict_allowed: "bv_allowed (verdict_of b v positions given) \<Longrightarrow> (c, Refuse) \<notin> set given"
  by (auto simp: verdict_of_def split: prod.splits option.splits dest: weigh_passes)

lemma verdict_warns: "bv_allowed (verdict_of b v positions given) \<Longrightarrow> (c, Reduce f) \<in> set given \<Longrightarrow>
    c \<in> set (bv_warnings (verdict_of b v positions given))"
  by (cases "weigh given"; cases "fst (weigh given)") (use weigh_warns in \<open>fastforce simp: verdict_of_def\<close>)+

lemma overshoot_warns: "advise_overshoot x limit \<noteq> Refuse \<Longrightarrow> fl_lt limit x \<Longrightarrow> \<exists>f. advise_overshoot x limit = Reduce f"
  by (auto simp: advise_overshoot_def Let_def split: if_splits)

text \<open>A share that is no number passes every comparison.\<close>

definition below :: "pyfloat \<Rightarrow> rat \<Rightarrow> bool" where
  "below x limit \<longleftrightarrow> x = NaN \<or> fl_lt x (Fin limit)"

lemma tenth_eval: "tenth = Fin (3602879701896397 / 36028797018963968)"
  by (simp add: tenth_def round_eval float_eval)

lemma limits_eval: "round_double (40 / 100) = Fin (3602879701896397 / 9007199254740992)"
  "round_double (20 / 100) = Fin (3602879701896397 / 18014398509481984)"
  "round_double (2 / 5) = Fin (3602879701896397 / 9007199254740992)" "round_double (1 / 5) = Fin (3602879701896397 / 18014398509481984)"
  by (simp_all add: round_eval float_eval)

lemma overshoot_below:
  assumes "advise_overshoot x limit \<noteq> Refuse" "limit = Fin l" "0 < l" "l + 3602879701896397 / 36028797018963968 < m"
  shows "below x m"
proof -
  let ?t = "3602879701896397 / 36028797018963968 :: rat"
  have t: "round_double ?t = Fin ?t" using round_double_is_double [of "10 / 100"] tenth_eval by (simp add: tenth_def is_double_def)
  show ?thesis
  proof (cases "fl_lt limit x")
    case False
    then show ?thesis using assms(2-4) by (cases x) (auto simp: below_def)
  next
    case True
    then have open_factor: "\<not> fl_le (shrink (Fin 0) x limit tenth) (Fin 0)"
      using assms(1) by (auto simp: advise_overshoot_def Let_def split: if_splits)
    show ?thesis
    proof (cases x)
      case (Fin q)
      have "q - l < ?t"
      proof (rule ccontr)
        assume "\<not> q - l < ?t"
        then have "fl_le (Fin ?t) (round_double (q - l))" using round_double_le [of ?t "q - l"] t by simp
        then have "fl_le (Fin 1) (the (fl_div (round_double (q - l)) tenth))"
          using round_double_le [of 1] by (cases "round_double (q - l)") (auto simp: tenth_eval fl_inf_def)
        then have "fl_le (fl_sub (Fin 1) (the (fl_div (fl_sub x limit) tenth))) (Fin 0)"
          using round_double_le [of _ 0] Fin assms(2) by (cases "the (fl_div (round_double (q - l)) tenth)") (auto simp: fl_sub_def)
        then have "fl_le (shrink (Fin 0) x limit tenth) (Fin 0)"
          by (auto simp: shrink_def fl_max_def)
        with open_factor show False by simp
      qed
      then show ?thesis using Fin assms(4) by (simp add: below_def)
    next
      case PosInf
      then have "fl_le (shrink (Fin 0) x limit tenth) (Fin 0)"
        using assms(2) by (simp add: shrink_def fl_sub_def tenth_eval fl_inf_def fl_max_def)
      with open_factor show ?thesis by simp
    qed (simp_all add: below_def)
  qed
qed

lemma set_feature_simps [simp]:
  "dp_state (set_feature kv p) = dp_state p" "dp_category (set_feature kv p) = dp_category p" "dp_side (set_feature kv p) = dp_side p"
  "dp_veto (set_feature kv p) = dp_veto p"
  by (simp_all add: set_feature_def split: option.split)

lemma note_check_simps [simp]:
  "dp_state (note_check f now c a p) = dp_state p" "dp_category (note_check f now c a p) = dp_category p"
  "dp_side (note_check f now c a p) = dp_side p" "dp_veto (note_check f now c a p) = dp_veto p"
  by (simp_all add: note_check_def split: option.split prod.split)

lemma note_checks_simps [simp]:
  "dp_state (note_checks f now given p) = dp_state p" "dp_category (note_checks f now given p) = dp_category p"
  "dp_side (note_checks f now given p) = dp_side p" "dp_veto (note_checks f now given p) = dp_veto p"
  by (induction f now given p rule: note_checks.induct) simp_all

lemma write_brain_simps [simp]:
  "dp_state (write_brain v p) = dp_state p" "dp_category (write_brain v p) = dp_category p"
  "dp_side (write_brain v p) = dp_side p" "dp_veto (write_brain v p) = dp_veto p"
  by (simp_all add: write_brain_def)

lemma agent_terms [simp]: "packet_terms (add_agent n p) size_usd = packet_terms p size_usd"
  by (simp add: packet_terms_def add_agent_def)

lemma approve_side [simp]: "dp_side (fst (approve_packet b positions size_usd now p)) = dp_side p"
  by (simp add: approve_packet_def move_packet_def reject_packet_def Let_def split: sum.split)

lemma approve_veto [simp]: "dp_veto (fst (approve_packet b positions size_usd now p)) = dp_veto p"
  by (simp add: approve_packet_def reject_packet_def Let_def split: sum.split)

lemma approve_state:
  "dp_state (fst (approve_packet b positions size_usd now p)) \<in> {dp_state p, APPROVED, REJECTED}"
  by (simp add: approve_packet_def move_packet_def reject_packet_def Let_def split: sum.split)

lemma approved_figures:
  assumes "approve_packet b positions size_usd now p = (q, r)" "dp_state q = APPROVED" "dp_state p \<noteq> APPROVED"
  obtains f v where "figures_of b (packet_terms p size_usd) positions = Inr f" "r = Inr v" "bv_allowed v"
    "v = verdict_of b (conviction_score (dp_conviction p)) positions (advices f (packet_terms p size_usd) positions)"
proof -
  obtain f where f: "figures_of b (packet_terms p size_usd) positions = Inr f"
    using assms by (cases "figures_of b (packet_terms p size_usd) positions") (auto simp: approve_packet_def Let_def)
  let ?v = "verdict_of b (conviction_score (dp_conviction p)) positions (advices f (packet_terms p size_usd) positions)"
  have kept: "dp_conviction (add_agent brain_actor p) = dp_conviction p" by (simp add: add_agent_def)
  have allowed: "bv_allowed ?v"
  proof (rule ccontr)
    assume "\<not> bv_allowed ?v"
    then have "dp_state q \<in> {REJECTED, dp_state p}"
      using f assms(1) by (auto simp: approve_packet_def kept reject_packet_def move_packet_def Let_def split: if_splits)
    with assms show False by auto
  qed
  have "r = Inr ?v"
    using assms f allowed by (auto simp: approve_packet_def kept move_packet_def Let_def split: if_splits)
  with f allowed that show ?thesis by blast
qed

text \<open>
  C18: An approval means that the portfolio has room, within the ten points by which the brain lets a share of the
  capital pass its limit. If the brain takes a packet to its approved state,
  then fewer than five positions are open, none on its symbol has the other side, its size is not under ten, and what
  is held and the order come together to less than 50.1 per cent of the capital, and less than 30.1 on the
  symbol, unless a share is no number; and where the share is over the limit of forty per cent, or of
  twenty on the symbol, the verdict says so among its warnings.
\<close>

theorem approved_means:
  assumes "approve_packet b positions size_usd now p = (q, r)" "dp_state p \<noteq> APPROVED" "dp_state q = APPROVED"
  shows "length (filter (\<lambda>h. \<not> hd_closed h) positions) < 5 \<and>
    (\<forall>h \<in> set positions. hd_symbol h = dp_symbol p \<longrightarrow> hd_long h = (dp_side p = LONG)) \<and> \<not> fl_lt size_usd (Fin 10) \<and>
    (\<exists>v. r = Inr v \<and> bv_allowed v \<and>
       (\<exists>x. fl_div (fl_add (sn_exposure (snapshot_portfolio b positions)) size_usd) (pb_capital b) = Some x \<and> below x (501 / 1000) \<and>
          (fl_lt (round_double (40 / 100)) x \<longrightarrow> TotalExposure \<in> set (bv_warnings v))) \<and>
       (\<exists>x. fl_div (fl_add (amount_of (sn_by_symbol (snapshot_portfolio b positions)) (dp_symbol p)) size_usd) (pb_capital b) = Some x \<and>
          below x (301 / 1000) \<and> (fl_lt (round_double (20 / 100)) x \<longrightarrow> SymbolExposure \<in> set (bv_warnings v))))"
proof -
  obtain f v where f: "figures_of b (packet_terms p size_usd) positions = Inr f" and r: "r = Inr v" and v: "bv_allowed v"
    and verdict: "v = verdict_of b (conviction_score (dp_conviction p)) positions (advices f (packet_terms p size_usd) positions)"
    using approved_figures [OF assms(1,3,2)] by metis
  have given: "(c, Refuse) \<notin> set (advices f (packet_terms p size_usd) positions)" for c
    using v verdict_allowed unfolding verdict by blast
  have warned: "(c, Reduce k) \<in> set (advices f (packet_terms p size_usd) positions) \<Longrightarrow> c \<in> set (bv_warnings v)" for c k
    using v verdict_warns unfolding verdict by blast
  have shares: "fl_div (fl_add (sn_exposure (snapshot_portfolio b positions)) size_usd) (pb_capital b) = Some (bf_exposure f)"
    "fl_div (fl_add (amount_of (sn_by_symbol (snapshot_portfolio b positions)) (dp_symbol p)) size_usd) (pb_capital b) = Some (bf_symbol f)"
    using f by (auto simp: figures_of_def share_with_def packet_terms_def result_simps Let_def)
  have over: "advise_overshoot (bf_exposure f) (round_double (40 / 100)) \<noteq> Refuse" "advise_overshoot (bf_symbol f) (round_double (20 / 100)) \<noteq> Refuse"
    using given [of TotalExposure] given [of SymbolExposure] by (auto simp: advices_def)
  have warn: "fl_lt (round_double (40 / 100)) (bf_exposure f) \<Longrightarrow> TotalExposure \<in> set (bv_warnings v)"
    "fl_lt (round_double (20 / 100)) (bf_symbol f) \<Longrightarrow> SymbolExposure \<in> set (bv_warnings v)"
    using overshoot_warns [OF over(1)] overshoot_warns [OF over(2)] warned [of TotalExposure] warned [of SymbolExposure]
    unfolding advices_def by auto
  have "below (bf_exposure f) (501 / 1000)" by (rule overshoot_below [OF over(1) limits_eval(1)]) simp_all
  moreover have "below (bf_symbol f) (301 / 1000)" by (rule overshoot_below [OF over(2) limits_eval(2)]) simp_all
  moreover have "length (filter (\<lambda>h. \<not> hd_closed h) positions) < 5" "\<not> fl_lt size_usd (Fin 10)"
    "\<forall>h \<in> set positions. hd_symbol h = dp_symbol p \<longrightarrow> hd_long h = (dp_side p = LONG)"
    using given [of PositionCount] given [of TooSmall] given [of OppositePosition]
    by (auto simp: advices_def refuse_if_def packet_terms_def list_ex_iff split: if_splits)
  ultimately show ?thesis using shares warn r v by blast
qed

section \<open>An example\<close>

definition sample_held :: held where
  "sample_held = \<lparr>hd_symbol = ''ETH/USDT'', hd_closed = False, hd_size = Fin 100, hd_regime = ''bull_trend'', hd_pnl = Fin 0,
     hd_long = True, hd_leverage = Fin 1\<rparr>"

definition sample_brain :: brain where
  "sample_brain = new_brain (Fin 1024)"

definition evaluated_packet :: decision_packet where
  "evaluated_packet = fst (move_packet RISK_EVALUATED gate_actor ''pass'' 2 sample_packet)"

lemma evaluated_fields: "dp_state evaluated_packet = RISK_EVALUATED" "dp_symbol evaluated_packet = ''BTC/USDT''"
  "dp_side evaluated_packet = LONG" "dp_category evaluated_packet = TRADE" "dp_regime evaluated_packet = TREND_BULL"
  by (simp_all add: evaluated_packet_def move_packet_def sample_packet_fields graph_defs)

lemma sample_approved: "dp_state (fst (approve_packet sample_brain [sample_held] (Fin 28) 3 evaluated_packet)) = APPROVED"
proof -
  have "\<exists>f. figures_of sample_brain (packet_terms evaluated_packet (Fin 28)) [sample_held] = Inr f \<and>
      bf_exposure f = Fin (1 / 8) \<and> bf_symbol f = Fin (7 / 256)"
    by (simp add: figures_of_def share_with_def snapshot_portfolio_def count_position_def empty_snapshot_def sample_held_def
        sample_brain_def new_brain_def packet_terms_def evaluated_fields amount_of_def result_simps Let_def) (simp add: round_eval float_eval)
  then obtain f where f: "figures_of sample_brain (packet_terms evaluated_packet (Fin 28)) [sample_held] = Inr f"
    "bf_exposure f = Fin (1 / 8)" "bf_symbol f = Fin (7 / 256)" by blast
  have "(c, Refuse) \<notin> set (advices f (packet_terms evaluated_packet (Fin 28)) [sample_held])" for c
    using f(2,3) by (auto simp: advices_def advise_overshoot_def limits_eval advise_regime_def advise_correlation_def advise_leverage_def
        refuse_if_def advise_direction_def sample_held_def packet_terms_def evaluated_fields Let_def)
  then have "fst (weigh (advices f (packet_terms evaluated_packet (Fin 28)) [sample_held])) = None"
    using weigh_stops by (metis option.exhaust)
  then have "bv_allowed (verdict_of sample_brain v [sample_held] (advices f (packet_terms evaluated_packet (Fin 28)) [sample_held]))" for v
    by (auto simp: verdict_of_def split: prod.split option.split)
  then show ?thesis
    using f(1) by (simp add: approve_packet_def move_packet_def evaluated_fields graph_defs Let_def)
qed

lemma approved_means_witness:
  "\<exists>x. fl_div (fl_add (sn_exposure (snapshot_portfolio sample_brain [sample_held])) (Fin 28)) (pb_capital sample_brain) = Some x \<and>
     below x (501 / 1000)"
proof -
  obtain q r where q: "approve_packet sample_brain [sample_held] (Fin 28) 3 evaluated_packet = (q, r)" by fastforce
  have "dp_state evaluated_packet \<noteq> APPROVED" "dp_state q = APPROVED" using sample_approved q evaluated_fields(1) by simp_all
  from approved_means [OF q this] show ?thesis by blast
qed

end
