(* ===== verification/CapitalAllocation.thy ===== *)
theory CapitalAllocation
  imports RegimeTracker
begin

text \<open>
  \<^verbatim>\<open>src/quant_hedge_ai/agents/risk/capital_allocation_engine.py\<close>: the size of an order from the
  history of its strategy, the expected value, the volatility, the conviction and the regime.
  Environment variables have their defaults; the dictionary of factors for display and the lookup
  in the ranker are left out.
\<close>

section \<open>The allocation\<close>

datatype allocation_reason = RegimeRefused | LowValue | SizeReduced | AllocationOk

record allocation =
  al_size :: pyfloat
  al_leverage :: pyfloat
  al_reason :: allocation_reason
  al_kelly :: pyfloat
  al_ev :: pyfloat

record allocation_request =
  ar_base :: pyfloat
  ar_win_rate :: pyfloat
  ar_avg_win :: pyfloat
  ar_avg_loss :: pyfloat
  ar_volatility :: pyfloat
  ar_conviction :: pyfloat
  ar_regime :: string
  ar_leverage :: pyfloat
  ar_trades :: int

definition regime_value_or :: "(string \<times> pyfloat) list \<Rightarrow> pyfloat \<Rightarrow> string \<Rightarrow> pyfloat" where
  "regime_value_or table other regime = (case dict_get table regime of Some x \<Rightarrow> x | None \<Rightarrow> other)"

definition regime_caps :: "(string \<times> pyfloat) list" where
  "regime_caps = [(''bull_trend'', Fin 1), (''bear_trend'', round_double (60 / 100)), (''sideways'', round_double (70 / 100)),
     (''high_volatility_regime'', round_double (40 / 100)), (''flash_crash'', Fin 0), (''unknown'', Fin (1 / 2))]"

definition regime_leverage :: "(string \<times> pyfloat) list" where
  "regime_leverage = [(''bull_trend'', Fin 1), (''bear_trend'', Fin (3 / 4)), (''sideways'', Fin (3 / 4)),
     (''high_volatility_regime'', Fin (1 / 2)), (''flash_crash'', Fin 0), (''unknown'', round_double (60 / 100))]"

definition refused_allocation :: "allocation_reason \<Rightarrow> pyfloat \<Rightarrow> pyfloat \<Rightarrow> allocation" where
  "refused_allocation why kelly ev = \<lparr>al_size = Fin 0, al_leverage = Fin 0, al_reason = why, al_kelly = kelly, al_ev = ev\<rparr>"

definition least_value :: pyfloat where
  "least_value = round_double (5 / 1000)"

text \<open>The Kelly fraction, the expected value and whether it rests on a history; \<open>None\<close> is a division by zero.\<close>

definition kelly_of :: "allocation_request \<Rightarrow> (pyfloat \<times> pyfloat \<times> bool) option" where
  "kelly_of r =
     (if 10 \<le> ar_trades r \<and> fl_lt (Fin 0) (ar_avg_loss r) then
        Option.bind (fl_div (ar_avg_win r) (ar_avg_loss r)) (\<lambda>b.
          let p = ar_win_rate r; q = fl_sub (Fin 1) p
          in Option.bind (fl_div (fl_sub (fl_mul p b) q) b) (\<lambda>raw.
               Some (fl_min (fl_max (Fin 0) (fl_mul raw (Fin (1 / 4)))) (round_double (20 / 100)),
                     fl_sub (fl_mul p (ar_avg_win r)) (fl_mul q (ar_avg_loss r)), True)))
      else Some (round_double (8 / 100), fl_mul (fl_mul (fl_sub (ar_win_rate r) (Fin (1 / 2))) (ar_avg_win r)) (Fin 2), False))"

definition vol_reference :: pyfloat where
  "vol_reference = round_double (15 / 1000)"

definition ev_factor :: "pyfloat \<Rightarrow> pyfloat" where
  "ev_factor ev = fl_min (Fin (3 / 2)) (fl_add (Fin 1) (the (fl_div (fl_sub ev least_value) (round_double (5 / 100)))))"

definition vol_factor :: "pyfloat \<Rightarrow> pyfloat" where
  "vol_factor volatility =
     (if fl_lt (Fin 0) volatility then
        let ratio = the (fl_div volatility vol_reference)
        in if fl_lt (Fin 1) ratio then
             fl_max (Fin (1 / 2)) (fl_sub (Fin 1) (the (fl_div (fl_mul (Fin (1 / 2)) (fl_sub ratio (Fin 1))) (Fin 2))))
           else Fin 1
      else Fin 1)"

definition guarded_size :: "pyfloat \<Rightarrow> pyfloat \<Rightarrow> pyfloat \<Rightarrow> pyfloat" where
  "guarded_size capital base raw =
     fl_min (fl_max (Fin 30) (fl_max (fl_min raw (fl_mul base (Fin (3 / 2)))) (fl_mul base (round_double (30 / 100)))))
       (fl_mul capital (round_double (20 / 100)))"

definition adjusted_leverage :: "allocation_request \<Rightarrow> pyfloat" where
  "adjusted_leverage r =
     (let by_regime = regime_value_or regime_leverage (round_double (60 / 100)) (ar_regime r);
          excess = fl_max (Fin 0) (fl_mul (fl_sub (the (fl_div (ar_volatility r) vol_reference)) (Fin 1)) (round_double (3 / 10)));
          by_vol = fl_max (Fin (1 / 2)) (fl_sub (Fin 1) excess)
      in fl_max (Fin 1) (fl_min (Fin 3) (fl_mul (fl_mul (ar_leverage r) by_regime) by_vol)))"

definition allocate :: "pyfloat \<Rightarrow> allocation_request \<Rightarrow> allocation option" where
  "allocate capital r =
     (let cap = regime_value_or regime_caps (Fin (1 / 2)) (ar_regime r)
      in if cap = Fin 0 then Some (refused_allocation RegimeRefused (Fin 0) (Fin 0))
         else Option.bind (kelly_of r) (\<lambda>(kelly, ev, reliable).
           if reliable \<and> fl_lt ev least_value then Some (refused_allocation LowValue kelly ev)
           else let raw = fl_mul (fl_mul (fl_mul (fl_mul (fl_mul capital kelly) (ev_factor ev)) (vol_factor (ar_volatility r))) (ar_conviction r)) cap;
                    size_usd = guarded_size capital (ar_base r) raw
                in Some \<lparr>al_size = fl_round 2 size_usd, al_leverage = fl_round 2 (adjusted_leverage r),
                         al_reason = (if fl_lt size_usd (fl_mul (ar_base r) (round_double (7 / 10))) then SizeReduced else AllocationOk),
                         al_kelly = fl_round 4 kelly, al_ev = fl_round 5 ev\<rparr>))"

definition update_allocation_capital :: "pyfloat \<Rightarrow> pyfloat" where
  "update_allocation_capital capital = fl_max (Fin 1) capital"

section \<open>Bounds\<close>

lemma fl_round_mono: "fl_le x y \<Longrightarrow> fl_le (fl_round n x) (fl_round n y)"
proof -
  assume le: "fl_le x y"
  have ends: "fl_le (round_double r) PosInf" "fl_le NegInf (round_double r)" for r
    by (cases "round_double r"; simp)+
  have even_mono: "round_even p \<le> round_even q" if "p \<le> q" for p q
    using that by (rule round_even_mono)
  show ?thesis
    using le by (cases x; cases y) (auto simp: ends intro!: round_double_le divide_right_mono even_mono mult_right_mono)
qed

lemma guarded_least: "fl_le (Fin 30) (fl_max (Fin 30) x)" "fl_max (Fin 30) x \<noteq> NaN"
  by (cases x; auto simp: fl_max_def)+

lemma fl_min_below: "x \<noteq> NaN \<Longrightarrow> fl_le (fl_min x (Fin c)) (Fin c)"
  by (cases x) (auto simp: fl_min_def)

lemma fl_min_above: "fl_le l x \<Longrightarrow> fl_le l y \<Longrightarrow> fl_le l (fl_min x y)"
  by (simp add: fl_min_def)

text \<open>
  C19: An allocation stays within its bounds. With a capital \<open>c\<close> whose fifth is a finite number, an allocated
  size is zero or no more than that fifth, rounded to cents, and no less than thirty where the fifth
  is; and a size that is not zero came from a regime that allows trades and, where the history is long enough, from an expected
  value that is not below its least.
\<close>

theorem allocation_bounds:
  assumes "allocate capital r = Some a" "fl_mul capital (round_double (20 / 100)) = Fin fifth"
  shows "al_size a = Fin 0 \<or>
    fl_le (al_size a) (fl_round 2 (Fin fifth)) \<and> (30 \<le> fifth \<longrightarrow> fl_le (Fin 30) (al_size a)) \<and>
    regime_value_or regime_caps (Fin (1 / 2)) (ar_regime r) \<noteq> Fin 0 \<and>
    (\<exists>kelly ev reliable. kelly_of r = Some (kelly, ev, reliable) \<and> \<not> (reliable \<and> fl_lt ev least_value))"
proof (cases "al_size a = Fin 0")
  case False
  then obtain kelly ev reliable raw where k: "kelly_of r = Some (kelly, ev, reliable)" "\<not> (reliable \<and> fl_lt ev least_value)"
    and cap: "regime_value_or regime_caps (Fin (1 / 2)) (ar_regime r) \<noteq> Fin 0"
    and a: "al_size a = fl_round 2 (guarded_size capital (ar_base r) raw)"
    using assms(1) by (auto simp: allocate_def refused_allocation_def Let_def split: if_splits bind_splits)
  have g: "fl_le (guarded_size capital (ar_base r) raw) (Fin fifth)"
    unfolding guarded_size_def assms(2) by (rule fl_min_below) (rule guarded_least(2))
  have "fl_le (Fin 30) (guarded_size capital (ar_base r) raw)" if "30 \<le> fifth"
    unfolding guarded_size_def assms(2) using that by (intro fl_min_above guarded_least(1)) simp
  moreover have "fl_round 2 (Fin 30) = Fin 30" by (simp add: round_even_def)
  ultimately show ?thesis using k cap fl_round_mono [OF g, of 2] fl_round_mono [of "Fin 30" _ 2] unfolding a by (metis)
qed simp

text \<open>A conviction of zero does not bring the size to zero: the guard rails lift it to thirty.\<close>

definition unconvinced :: allocation_request where
  "unconvinced = \<lparr>ar_base = Fin 64, ar_win_rate = Fin (1 / 2), ar_avg_win = Fin 1, ar_avg_loss = Fin 1, ar_volatility = Fin 0,
     ar_conviction = Fin 0, ar_regime = ''bull_trend'', ar_leverage = Fin 1, ar_trades = 0\<rparr>"

lemma sample_kelly: "kelly_of unconvinced = Some (round_double (8 / 100), Fin 0, False)"
  by (simp add: kelly_of_def unconvinced_def fl_sub_def)

lemma sample_guarded: "guarded_size (Fin 1024) (Fin 64) (Fin 0) = Fin 30"
  by (simp add: guarded_size_def fl_min_def fl_max_def round_eval float_eval)

lemma unconvinced_sized: "\<exists>a. allocate (Fin 1024) unconvinced = Some a \<and> al_size a = Fin 30"
proof -
  have finite_factors: "fl_finite (fl_mul (fl_mul (fl_mul (Fin 1024) (round_double (8 / 100))) (ev_factor (Fin 0))) (vol_factor (Fin 0)))"
    by (simp add: ev_factor_def vol_factor_def least_value_def fl_sub_def fl_min_def round_eval float_eval)
  then have "fl_mul (fl_mul (fl_mul (fl_mul (fl_mul (Fin 1024) (round_double (8 / 100))) (ev_factor (Fin 0))) (vol_factor (Fin 0))) (Fin 0)) (Fin 1) = Fin 0"
    unfolding fl_finite_iff by auto
  moreover have "regime_value_or regime_caps (Fin (1 / 2)) (ar_regime unconvinced) = Fin 1"
    by (simp add: regime_value_or_def regime_caps_def unconvinced_def)
  moreover have "ar_base unconvinced = Fin 64" "ar_volatility unconvinced = Fin 0" "ar_conviction unconvinced = Fin 0"
    by (simp_all add: unconvinced_def)
  moreover have "fl_round 2 (Fin 30) = Fin 30" by (simp add: round_even_def)
  ultimately show ?thesis by (simp add: allocate_def sample_kelly sample_guarded Let_def del: fl_mul.simps fl_round.simps)
qed

lemma allocation_bounds_witness:
  "\<exists>a. allocate (Fin 1024) unconvinced = Some a \<and> al_size a \<noteq> Fin 0 \<and>
     fl_le (al_size a) (fl_round 2 (Fin (3602879701896397 / 17592186044416))) \<and> fl_le (Fin 30) (al_size a)"
proof -
  obtain a where a: "allocate (Fin 1024) unconvinced = Some a" "al_size a = Fin 30" using unconvinced_sized by blast
  have "fl_mul (Fin 1024) (round_double (20 / 100)) = Fin (3602879701896397 / 17592186044416)"
    by (simp add: round_eval float_eval)
  from allocation_bounds [OF a(1) this] have
    "fl_le (al_size a) (fl_round 2 (Fin (3602879701896397 / 17592186044416))) \<and> fl_le (Fin 30) (al_size a)"
    unfolding a(2) by simp
  then show ?thesis using a by (intro exI [of _ a]) simp
qed

end
