(* ===== verification/AdvisorGuard.thy ===== *)
theory AdvisorGuard
  imports PortfolioBrain CapitalAllocation HardLimits RuntimeStates RiskGovernor
begin

text \<open>
  The way of one signal through \<^verbatim>\<open>src/core/advisor_loop.py\<close>: from the gate to the decision in
  \<^verbatim>\<open>analyze_symbol\<close>, and from the decision to the order in the loop. The gate, the packet, the
  portfolio brain, the capital engine, the hard limits, the governor and the kernel are the models
  of this development; the agents that only say yes or no are answers in a record, as are the
  circuit breaker, which calls the gate through, the order validator and the rate limiter. Scans, features,
  logging, metrics, persistence, the shadow trade, the simulators and what follows an order are left out.
\<close>

section \<open>What an analysis is given\<close>

record signal_facts =
  sf_live :: live_signal
  sf_symbol :: string
  sf_action :: string
  sf_actionable :: bool
  sf_regime :: string
  sf_price :: pyfloat

text \<open>
  An agent that is not configured is \<open>None\<close>; one that is and has no answer, because its call
  failed, is \<open>Some None\<close>. The executive override answers with a permission and a factor of the
  size, the arbitration with a permission and a multiplier.
\<close>

record agents =
  ag_meta_allowed :: bool
  ag_awareness :: "bool option"
  ag_conviction :: "bool option option"
  ag_conviction_score :: pyfloat
  ag_no_trade :: "bool option option"
  ag_mistakes :: "bool option option"
  ag_feedback :: bool
  ag_override :: "(pyfloat \<Rightarrow> bool \<times> pyfloat) option"
  ag_radar :: "bool option option"
  ag_arbitration :: "(bool \<times> pyfloat) option"

record portfolio_side =
  ps_brain :: "brain option"
  ps_positions :: "held list"
  ps_capital :: "(pyfloat \<times> (pyfloat \<Rightarrow> allocation_request)) option"

record test_switches =
  ts_min_score :: pyfloat
  ts_force :: bool
  ts_max_order :: pyfloat

datatype analysis_error = BrainFailed brain_error | AllocationDivision

record outcome =
  oc_signal :: signal_facts
  oc_packet :: "decision_packet option"
  oc_gate_allowed :: bool
  oc_execute :: string
  oc_size :: pyfloat
  oc_allocation :: "allocation option"
  oc_trade_allowed :: bool
  oc_price :: pyfloat

section \<open>The layers in their order\<close>

text \<open>A step on the packet inside \<^verbatim>\<open>try\<close>: what it has done stays, its exception is forgotten.\<close>

definition live_packet :: "decision_packet option \<Rightarrow> decision_packet option" where
  "live_packet p = (case p of Some q \<Rightarrow> if packet_is_terminal q then None else Some q | None \<Rightarrow> None)"

definition gate_packet ::
  "session \<Rightarrow> pyfloat \<Rightarrow> nat \<Rightarrow> decision_packet option \<Rightarrow> risk_gate \<Rightarrow> risk_gate \<times> decision_packet option" where
  "gate_packet guard size_usd now p g =
     (case live_packet p of
        None \<Rightarrow> (g, p)
      | Some q \<Rightarrow> (case check_packet guard (Fin 0) size_usd now q g of (g', q', _) \<Rightarrow> (g', Some q')))"

definition overridden :: "test_switches \<Rightarrow> signal_facts \<Rightarrow> bool" where
  "overridden ts sg \<longleftrightarrow>
     fl_lt (Fin 0) (ts_min_score ts) \<and> fl_le (ts_min_score ts) (ls_score (sf_live sg)) \<and> ls_regime (sf_live sg) \<noteq> ''flash_crash''"

definition action_of :: "test_switches \<Rightarrow> signal_facts \<Rightarrow> string" where
  "action_of ts sg = (if overridden ts sg \<and> sf_action sg = ''HOLD'' then ''BUY'' else sf_action sg)"

definition brain_stage :: "portfolio_side \<Rightarrow> agents \<Rightarrow> signal_facts \<Rightarrow> pyfloat \<Rightarrow> analysis_error + brain_verdict option \<times> pyfloat" where
  "brain_stage ps ag sg size_usd =
     (case ps_brain ps of
        None \<Rightarrow> Inr (None, size_usd)
      | Some b \<Rightarrow>
          if \<not> sf_actionable sg then Inr (None, size_usd)
          else case check_new_trade b (sf_symbol sg) (sf_action sg) size_usd (sf_regime sg) (ps_positions ps) (Fin 1)
                     (if ag_conviction ag = None then Fin 50 else ag_conviction_score ag) of
                 Inl e \<Rightarrow> Inl (BrainFailed e)
               | Inr v \<Rightarrow> Inr (Some v, if bv_allowed v \<and> fl_lt (bv_size_factor v) (Fin 1) then fl_mul size_usd (bv_size_factor v) else size_usd))"

definition brain_packet :: "portfolio_side \<Rightarrow> pyfloat \<Rightarrow> nat \<Rightarrow> decision_packet option \<Rightarrow> decision_packet option" where
  "brain_packet ps size_usd now p =
     (case (p, ps_brain ps) of
        (Some q, Some b) \<Rightarrow>
          if dp_state q = RISK_EVALUATED then Some (fst (approve_packet b (ps_positions ps) size_usd now q)) else Some q
      | _ \<Rightarrow> p)"

definition capital_stage ::
  "portfolio_side \<Rightarrow> signal_facts \<Rightarrow> brain_verdict option \<Rightarrow> pyfloat \<Rightarrow> analysis_error + allocation option \<times> pyfloat" where
  "capital_stage ps sg verdict size_usd =
     (case ps_capital ps of
        None \<Rightarrow> Inr (None, size_usd)
      | Some (capital, request) \<Rightarrow>
          if \<not> sf_actionable sg \<or> (case verdict of None \<Rightarrow> False | Some v \<Rightarrow> \<not> bv_allowed v) then Inr (None, size_usd)
          else case allocate capital (request size_usd) of
                 None \<Rightarrow> Inl AllocationDivision
               | Some a \<Rightarrow> Inr (Some a, if fl_lt (Fin 0) (al_size a) then al_size a else size_usd))"

definition allocated :: "allocation option \<Rightarrow> bool" where
  "allocated a = (case a of None \<Rightarrow> False | Some x \<Rightarrow> fl_lt (Fin 0) (al_size x))"

abbreviation sizing_actor :: string where
  "sizing_actor \<equiv> ''capital_engine''"

definition size_packet :: "allocation option \<Rightarrow> nat \<Rightarrow> decision_packet option \<Rightarrow> decision_packet option" where
  "size_packet a now p =
     (case p of
        None \<Rightarrow> None
      | Some q \<Rightarrow>
          if dp_state q \<noteq> APPROVED then Some q
          else let q0 = add_agent sizing_actor q
               in if allocated a then
                    let q1 = q0\<lparr>dp_features := dict_set (dict_set (dp_features q0) ''os_size_usd'' (fl_round 2 (al_size (the a)))) ''os_kelly'' (al_kelly (the a))\<rparr>
                    in Some (fst (move_packet EXECUTION_PENDING sizing_actor ''sizing'' now
                         (add_reasoning sizing_actor ''sizing'' (Fin 0) SIZING INFO now q1)))
                  else Some (fst (reject_packet sizing_actor ''sizing refused'' now now
                         (add_reasoning sizing_actor ''sizing refused'' (Fin (- 20)) SIZING WARNING now q0))))"

definition override_stage :: "agents \<Rightarrow> signal_facts \<Rightarrow> pyfloat \<Rightarrow> (bool \<times> pyfloat) option \<times> pyfloat" where
  "override_stage ag sg size_usd =
     (case ag_override ag of
        None \<Rightarrow> (None, size_usd)
      | Some f \<Rightarrow>
          if \<not> sf_actionable sg then (None, size_usd)
          else let v = f size_usd in (Some v, if fst v \<and> fl_lt (snd v) (Fin 1) then fl_mul size_usd (snd v) else size_usd))"

section \<open>The decision\<close>

definition answered :: "bool option option \<Rightarrow> bool" where
  "answered a = (case a of None \<Rightarrow> True | Some None \<Rightarrow> False | Some (Some b) \<Rightarrow> b)"

definition authority_allows :: "runtime_machine option \<Rightarrow> bool" where
  "authority_allows made = (case get_authority made of Inl _ \<Rightarrow> False | Inr m \<Rightarrow> kernel_can_trade m)"

text \<open>What every layer says, in the order of the conjunction, without the authority and the gate.\<close>

definition layers ::
  "portfolio_side \<Rightarrow> agents \<Rightarrow> signal_facts \<Rightarrow> brain_verdict option \<Rightarrow> allocation option \<Rightarrow> (bool \<times> pyfloat) option \<Rightarrow> bool list" where
  "layers ps ag sg verdict alloc eo =
     (let live = sf_actionable sg
      in [ag_meta_allowed ag,
          (case ag_awareness ag of None \<Rightarrow> True | Some safe \<Rightarrow> safe),
          (case ag_conviction ag of None \<Rightarrow> True | Some None \<Rightarrow> False | Some (Some blocks) \<Rightarrow> \<not> blocks),
          \<not> live \<or> answered (ag_no_trade ag),
          ps_brain ps = None \<or> \<not> live \<or> (case verdict of None \<Rightarrow> False | Some v \<Rightarrow> bv_allowed v),
          ps_capital ps = None \<or> \<not> live \<or> (case verdict of None \<Rightarrow> False | Some v \<Rightarrow> \<not> bv_allowed v) \<or> allocated alloc,
          \<not> live \<or> \<not> ag_feedback ag \<or> answered (ag_mistakes ag),
          ag_override ag = None \<or> \<not> live \<or> (case eo of None \<Rightarrow> False | Some v \<Rightarrow> fst v),
          answered (ag_radar ag)])"

definition forced :: "test_switches \<Rightarrow> signal_facts \<Rightarrow> bool \<Rightarrow> bool" where
  "forced ts sg gated \<longleftrightarrow> ts_force ts \<and> gated \<and> fl_le (ts_min_score ts) (ls_score (sf_live sg))"

definition arbitration_allows :: "agents \<Rightarrow> bool" where
  "arbitration_allows ag = (case ag_arbitration ag of None \<Rightarrow> True | Some (ok, _) \<Rightarrow> ok)"

definition decided_size :: "test_switches \<Rightarrow> agents \<Rightarrow> signal_facts \<Rightarrow> bool \<Rightarrow> pyfloat \<Rightarrow> pyfloat" where
  "decided_size ts ag sg gated size_usd =
     (let size1 = (if forced ts sg gated \<and> fl_le size_usd (Fin 0) then ts_max_order ts else size_usd)
      in case ag_arbitration ag of
           None \<Rightarrow> size1
         | Some (ok, mult) \<Rightarrow> if fl_lt (Fin 0) mult \<and> ok then fl_mul size1 mult else size1)"

definition settle_packet :: "bool \<Rightarrow> nat \<Rightarrow> decision_packet option \<Rightarrow> decision_packet option" where
  "settle_packet allowed now p =
     (if allowed then p
      else case live_packet p of None \<Rightarrow> p | Some q \<Rightarrow> Some (fst (reject_packet ''pipeline_g8d'' ''trade refused'' now now q)))"

definition trace_packet :: "bool \<Rightarrow> nat \<Rightarrow> decision_packet option \<Rightarrow> decision_packet option" where
  "trace_packet shadowed now p =
     (case p of
        Some q \<Rightarrow>
          if shadowed \<and> is_actionable q \<and> \<not> json_truthy (json_get (dp_metadata q) ''trace_id'' JNull)
          then Some (fst (reject_packet ''governance_g0'' ''missing_trace_id'' now now q)) else p
      | None \<Rightarrow> p)"

definition refused_outcome :: "signal_facts \<Rightarrow> outcome" where
  "refused_outcome sg =
     (let hold = sg\<lparr>sf_action := ''HOLD'', sf_actionable := False, sf_live := \<lparr>ls_score = Fin 0, ls_regime = ''unknown'', ls_confirmed = False\<rparr>\<rparr>
      in \<lparr>oc_signal = hold, oc_packet = None, oc_gate_allowed = False, oc_execute = ''HOLD'', oc_size = Fin 0, oc_allocation = None,
          oc_trade_allowed = False, oc_price = Fin 0\<rparr>)"

definition analyze ::
  "runtime_machine option \<Rightarrow> runtime_machine option \<Rightarrow> session \<Rightarrow> portfolio_side \<Rightarrow> agents \<Rightarrow> test_switches \<Rightarrow> signal_facts \<Rightarrow> pyfloat \<Rightarrow> nat \<Rightarrow>
     decision_packet option \<Rightarrow> risk_gate \<Rightarrow> analysis_error + risk_gate \<times> outcome" where
  "analyze entry later guard ps ag ts sg size_usd now p g =
     (if \<not> authority_allows entry then Inr (g, refused_outcome sg)
      else
        let (g1, res) = check_signal guard (sf_live sg) (Fin 0) size_usd g; (g2, p1) = gate_packet guard size_usd now p g1;
            gated = (gc_allowed res \<or> overridden ts sg)
        in bindE (brain_stage ps ag sg size_usd) (\<lambda>(verdict, size2).
             let p2 = brain_packet ps size2 now p1
             in bindE (capital_stage ps sg verdict size2) (\<lambda>(alloc, size3).
                  let p3 = size_packet alloc now p2; (eo, size4) = override_stage ag sg size3;
                      agreed = (if forced ts sg gated then True else list_all id (layers ps ag sg verdict alloc eo));
                      allowed = (authority_allows later \<and> gated \<and> agreed \<and> arbitration_allows ag);
                      p4 = trace_packet (sf_actionable sg \<and> allowed) now (settle_packet allowed now p3)
                  in Inr (g2, \<lparr>oc_signal = sg, oc_packet = p4, oc_gate_allowed = gated, oc_execute = action_of ts sg,
                               oc_size = decided_size ts ag sg gated size4, oc_allocation = alloc, oc_trade_allowed = allowed,
                               oc_price = sf_price sg\<rparr>))))"

section \<open>The order\<close>

datatype validation = NoRules | Invalid | Valid | Resized pyfloat

record dispatch_facts =
  df_governor :: "governor_snapshot option"
  df_throttle :: pyfloat
  df_strategy_cap :: "pyfloat option"
  df_safety_blocks :: bool
  df_suspended :: bool
  df_last_loss :: "pyfloat option"
  df_trades :: "pyfloat list"
  df_now :: pyfloat
  df_advisor_only :: bool
  df_runtime :: runtime_machine
  df_capital :: pyfloat
  df_losses :: int
  df_validate :: "pyfloat \<Rightarrow> validation"
  df_rate_ok :: "bool option"

definition planned_size :: "dispatch_facts \<Rightarrow> outcome \<Rightarrow> pyfloat" where
  "planned_size d oc =
     (let base = (if allocated (oc_allocation oc) then al_size (the (oc_allocation oc)) else oc_size oc);
          governed = (case df_governor d of None \<Rightarrow> base | Some s \<Rightarrow> fl_mul base (fl_mul (gs_size_multiplier s) (df_throttle d)))
      in case df_strategy_cap d of
           None \<Rightarrow> governed
         | Some cap \<Rightarrow> if fl_lt (Fin 0) cap \<and> fl_lt cap governed then cap else governed)"

definition late_block :: "dispatch_facts \<Rightarrow> outcome \<Rightarrow> bool" where
  "late_block d oc \<longleftrightarrow> sf_action (oc_signal oc) \<noteq> ''HOLD'' \<and>
     ((case df_governor d of None \<Rightarrow> False | Some s \<Rightarrow> \<not> gs_allow_new_trades s) \<or> df_safety_blocks d \<or> df_suspended d)"

text \<open>
  The re-entry protection asks the position manager for a method that it does not have, so that it
  never applies; the loss of the last five minutes and ten trades within the hour do.
\<close>

definition recent_trades :: "dispatch_facts \<Rightarrow> pyfloat list" where
  "recent_trades d = filter (\<lambda>t. fl_lt (fl_sub (df_now d) (Fin 3600)) t) (df_trades d)"

definition protected :: "dispatch_facts \<Rightarrow> bool" where
  "protected d \<longleftrightarrow>
     (case df_last_loss d of None \<Rightarrow> False | Some t \<Rightarrow> fl_lt (fl_sub (df_now d) t) (Fin 300)) \<or> 10 \<le> length (recent_trades d)"

definition packet_allows :: "decision_packet option \<Rightarrow> bool" where
  "packet_allows p = (case p of None \<Rightarrow> True | Some q \<Rightarrow> \<not> packet_is_terminal q)"

definition reported_flag :: "dispatch_facts \<Rightarrow> outcome \<Rightarrow> bool" where
  "reported_flag d oc \<longleftrightarrow> oc_trade_allowed oc \<and> \<not> late_block d oc \<and> packet_allows (oc_packet oc)"

definition override_active :: "outcome \<Rightarrow> bool" where
  "override_active oc \<longleftrightarrow> oc_execute oc \<noteq> sf_action (oc_signal oc)"

definition may_send :: "dispatch_facts \<Rightarrow> outcome \<Rightarrow> bool" where
  "may_send d oc \<longleftrightarrow>
     (sf_actionable (oc_signal oc) \<or> override_active oc) \<and> (case oc_packet oc of None \<Rightarrow> False | Some q \<Rightarrow> is_actionable q) \<and>
     \<not> df_advisor_only d \<and> rm_state (df_runtime d) \<noteq> SAFE_MODE \<and> \<not> protected d \<and> fl_lt (Fin 0) (oc_price oc)"

text \<open>Drawdown and open positions are read from objects that do not have them, and are always zero.\<close>

definition order_facts_of :: "dispatch_facts \<Rightarrow> pyfloat \<Rightarrow> order_facts" where
  "order_facts_of d size_usd = \<lparr>of_order_size_usd = size_usd, of_capital_usd = fl_max (df_capital d) (Fin 1), of_drawdown_pct = Fin 0,
     of_open_positions = 0, of_consecutive_losses = df_losses d, of_leverage = 1, of_symbol_exposure_usd = Fin 0\<rparr>"

definition limits_hold :: "dispatch_facts \<Rightarrow> pyfloat \<Rightarrow> bool" where
  "limits_hold d size_usd = (case check_hard_limits (order_facts_of d size_usd) of Inl (HardLimitBreached _ _ _) \<Rightarrow> False | _ \<Rightarrow> True)"

definition validated_size :: "dispatch_facts \<Rightarrow> outcome \<Rightarrow> pyfloat \<Rightarrow> pyfloat option" where
  "validated_size d oc size_usd =
     (case df_validate d (the (fl_div size_usd (oc_price oc))) of
        NoRules \<Rightarrow> Some size_usd
      | Invalid \<Rightarrow> None
      | Valid \<Rightarrow> Some size_usd
      | Resized qty \<Rightarrow> Some (fl_mul qty (oc_price oc)))"

text \<open>What is sent: the action and the size; and the flag that is left on the result.\<close>

definition dispatch :: "dispatch_facts \<Rightarrow> outcome \<Rightarrow> (string \<times> pyfloat) option \<times> bool" where
  "dispatch d oc =
     (let size_usd = planned_size d oc
      in (if \<not> may_send d oc \<or> \<not> limits_hold d size_usd then None
          else case validated_size d oc size_usd of
                 None \<Rightarrow> None
               | Some size' \<Rightarrow> if df_rate_ok d = Some False then None else Some (oc_execute oc, size'),
          reported_flag d oc))"

section \<open>What an order means\<close>

lemma reject_ends: "dp_state q \<notin> set terminal_states \<Longrightarrow> dp_state (fst (reject_packet a r t now q)) = REJECTED"
  by (cases "dp_state q"; cases "dp_category q") (simp_all add: reject_packet_def move_packet_def graph_defs)

lemma rejected_not_actionable: "dp_state q = REJECTED \<Longrightarrow> \<not> is_actionable q"
  by (simp add: is_actionable_def graph_defs)

lemma rejected_stays: "dp_state q \<notin> set terminal_states \<Longrightarrow> \<not> is_actionable (fst (reject_packet a r t now q))"
  by (rule rejected_not_actionable) (rule reject_ends)

lemma settled: "settle_packet False now p = Some q \<Longrightarrow> \<not> is_actionable q"
  using rejected_stays
  by (auto simp: settle_packet_def live_packet_def packet_is_terminal_def split: option.splits if_splits) (simp add: is_actionable_def)

lemma traced:
  assumes "trace_packet b now p = Some q" "is_actionable q"
  shows "p = Some q \<and> (b \<longrightarrow> json_truthy (json_get (dp_metadata q) ''trace_id'' JNull))"
proof -
  have "\<not> is_actionable (fst (reject_packet a r t now x))" if "is_actionable x" for a r t x
    using that reject_ends rejected_not_actionable by (metis is_actionable_def)
  then show ?thesis using assms by (auto simp: trace_packet_def split: option.splits if_splits)
qed

lemma analyze_cases:
  assumes "analyze entry later guard ps ag ts sg size_usd now p g = Inr (g', oc)" "oc_trade_allowed oc \<or> oc_packet oc \<noteq> None"
  obtains verdict size2 size3 alloc eo g1 res g2 p1 gated agreed where
    "authority_allows entry" "check_signal guard (sf_live sg) (Fin 0) size_usd g = (g1, res)"
    "gate_packet guard size_usd now p g1 = (g2, p1)" "gated = (gc_allowed res \<or> overridden ts sg)"
    "agreed = (if forced ts sg gated then True else list_all id (layers ps ag sg verdict alloc eo))"
    "oc_trade_allowed oc = (authority_allows later \<and> gated \<and> agreed \<and> arbitration_allows ag)"
    "oc_packet oc = trace_packet (sf_actionable sg \<and> oc_trade_allowed oc) now
       (settle_packet (oc_trade_allowed oc) now (size_packet alloc now (brain_packet ps size2 now p1)))"
    "oc_price oc = sf_price sg" "oc_execute oc = action_of ts sg"
    "brain_stage ps ag sg size_usd = Inr (verdict, size2)" "capital_stage ps sg verdict size2 = Inr (alloc, size3)"
    "eo = fst (override_stage ag sg size3)"
proof -
  have entry: "authority_allows entry"
    using assms by (auto simp: analyze_def refused_outcome_def Let_def split: if_splits)
  obtain g1 res where c: "check_signal guard (sf_live sg) (Fin 0) size_usd g = (g1, res)" by fastforce
  obtain g2 p1 where q: "gate_packet guard size_usd now p g1 = (g2, p1)" by fastforce
  note known = entry c q
  obtain verdict size2 where b: "brain_stage ps ag sg size_usd = Inr (verdict, size2)"
    using assms(1) known by (cases "brain_stage ps ag sg size_usd") (auto simp: analyze_def Let_def)
  obtain alloc size3 where a: "capital_stage ps sg verdict size2 = Inr (alloc, size3)"
    using assms(1) known b by (cases "capital_stage ps sg verdict size2") (auto simp: analyze_def Let_def)
  obtain eo size4 where e: "override_stage ag sg size3 = (eo, size4)" by fastforce
  let ?gated = "gc_allowed res \<or> overridden ts sg"
  let ?agreed = "if forced ts sg ?gated then True else list_all id (layers ps ag sg verdict alloc eo)"
  let ?allowed = "authority_allows later \<and> ?gated \<and> ?agreed \<and> arbitration_allows ag"
  have oc: "oc = \<lparr>oc_signal = sg,
      oc_packet = trace_packet (sf_actionable sg \<and> ?allowed) now (settle_packet ?allowed now (size_packet alloc now (brain_packet ps size2 now p1))),
      oc_gate_allowed = ?gated, oc_execute = action_of ts sg, oc_size = decided_size ts ag sg ?gated size4, oc_allocation = alloc,
      oc_trade_allowed = ?allowed, oc_price = sf_price sg\<rparr>"
    using assms(1) known b a e by (simp add: analyze_def Let_def)
  show ?thesis by (rule that [OF entry c q refl refl _ _ _ _ b a]) (simp_all add: oc e)
qed

text \<open>A packet that is still alive behind the gate has passed its checks.\<close>

lemma gate_survives:
  assumes "check_packet guard dd size_usd now q g = (g', q', r)" "dp_state q \<notin> set terminal_states" "dp_state q' \<notin> set terminal_states"
  shows "dp_side q \<noteq> FLAT \<and> session_passes guard size_usd \<and> check_drawdown g dd \<and>
    (rg_require_confirmed g \<longrightarrow> json_truthy (json_get (dp_metadata q) ''mtf_confirmed'' (JBool False))) \<and>
    normalize_regime (regime_value (dp_regime q)) \<notin> set (rg_blacklist g)"
proof -
  have rejected: "dp_state (fst (reject_packet a t m n x)) \<in> set terminal_states" if "dp_state x = dp_state q" for a t m n x
    using that assms(2) reject_ends [of x a t m n] by (simp add: graph_defs)
  have side: "dp_side q \<noteq> FLAT"
  proof
    assume "dp_side q = FLAT"
    then have "q' = fst (reject_packet gate_actor ''flat'' now now (gate_note True ''flat'' (- 50) RISK_GOVERNANCE now (add_agent gate_actor q)))"
      using assms(1) by (simp add: check_packet_def with_result_def)
    with rejected assms(3) show False by simp
  qed
  let ?c1 = "session_passes guard size_usd" and ?c2 = "check_drawdown g dd"
  let ?p1 = "note_exposure ?c1 ?c2 dd g now q" and ?regime = "regime_value (dp_regime q)"
  let ?least = "fst (gate_min_score ?regime g)" and ?lse = "json_truthy (json_get (dp_metadata q) ''lse_actionable'' (JBool True))"
  let ?c4 = "if rg_require_confirmed g then json_truthy (json_get (dp_metadata q) ''mtf_confirmed'' (JBool False)) else True"
  let ?c5 = "normalize_regime ?regime \<notin> set (rg_blacklist g)"
  let ?r = "gate_result_of ?c1 ?c2 (packet_score ?p1) ?least ?c4 ?regime ?c5 (drawdown_near g dd)"
  let ?p2 = "write_verdict ?r (conviction_value (dp_conviction q)) (note_signal (score_passes ?least (packet_score ?p1)) ?lse ?c4 ?c5 now ?p1)"
  have "q' = fst (if gc_allowed ?r then move_packet RISK_EVALUATED gate_actor ''gate pass'' now ?p2
      else reject_packet gate_actor ''gate block'' now now ?p2)"
    using assms(1) side by (simp add: check_packet_def with_result_def Let_def split_beta)
  then have "gc_allowed ?r" using rejected [of ?p2] assms(3) by (cases "gc_allowed ?r") simp_all
  then show ?thesis using side unfolding gate_allowed_iff by auto
qed

lemma ended_stays:
  "dp_state q \<in> set terminal_states \<Longrightarrow> size_packet a now (brain_packet ps size_usd now (Some q)) = Some q"
  by (auto simp: size_packet_def brain_packet_def graph_defs split: option.split)

lemma stages_none: "size_packet a now (brain_packet ps size_usd now None) = None"
  by (simp add: size_packet_def brain_packet_def)

lemma signal_keeps: "check_signal guard sg dd size_usd g = (g1, res) \<Longrightarrow>
    rg_blacklist g1 = rg_blacklist g \<and> rg_require_confirmed g1 = rg_require_confirmed g"
  by (auto simp: check_signal_def gate_min_score_def split: option.splits if_splits)

lemma limits_held: "limits_hold d size_usd \<Longrightarrow> \<not> fl_lt (Fin 200) size_usd \<and> \<not> fl_lt (fl_max (df_capital d) (Fin 1)) (Fin 500)"
  by (cases "fl_lt (fl_max (df_capital d) (Fin 1)) (Fin 500)"; cases "fl_lt (Fin 200) size_usd")
    (simp_all add: limits_hold_def check_hard_limits_def order_facts_of_def breach_if_def raise_if_def)

text \<open>
  What it means that the layers agree, written without the stages: the agents in their own words, the portfolio
  brain's check of the trade, the allocation of what the brain leaves, and the override's answer on what is allocated.
\<close>

definition brain_leaves :: "portfolio_side \<Rightarrow> agents \<Rightarrow> signal_facts \<Rightarrow> pyfloat \<Rightarrow> pyfloat \<Rightarrow> bool" where
  "brain_leaves ps ag sg size_usd left \<longleftrightarrow>
     (case ps_brain ps of
        None \<Rightarrow> left = size_usd
      | Some b \<Rightarrow> \<exists>v. check_new_trade b (sf_symbol sg) (sf_action sg) size_usd (sf_regime sg) (ps_positions ps) (Fin 1)
            (if ag_conviction ag = None then Fin 50 else ag_conviction_score ag) = Inr v \<and> bv_allowed v \<and>
          left = (if fl_lt (bv_size_factor v) (Fin 1) then fl_mul size_usd (bv_size_factor v) else size_usd))"

definition capital_gives :: "portfolio_side \<Rightarrow> pyfloat \<Rightarrow> pyfloat \<Rightarrow> bool" where
  "capital_gives ps size_usd given \<longleftrightarrow>
     (case ps_capital ps of
        None \<Rightarrow> given = size_usd
      | Some (capital, request) \<Rightarrow> \<exists>a. allocate capital (request size_usd) = Some a \<and> fl_lt (Fin 0) (al_size a) \<and> given = al_size a)"

definition override_permits :: "agents \<Rightarrow> pyfloat \<Rightarrow> bool" where
  "override_permits ag size_usd \<longleftrightarrow> (case ag_override ag of None \<Rightarrow> True | Some f \<Rightarrow> fst (f size_usd))"

definition layers_agree :: "portfolio_side \<Rightarrow> agents \<Rightarrow> signal_facts \<Rightarrow> pyfloat \<Rightarrow> bool" where
  "layers_agree ps ag sg size_usd \<longleftrightarrow>
     ag_meta_allowed ag \<and> ag_awareness ag \<noteq> Some False \<and> ag_conviction ag \<in> {None, Some (Some False)} \<and>
     ag_radar ag \<in> {None, Some (Some True)} \<and>
     (sf_actionable sg \<longrightarrow>
        ag_no_trade ag \<in> {None, Some (Some True)} \<and> (ag_feedback ag \<longrightarrow> ag_mistakes ag \<in> {None, Some (Some True)}) \<and>
        (\<exists>left given. brain_leaves ps ag sg size_usd left \<and> capital_gives ps left given \<and> override_permits ag given))"

lemma answered_iff: "answered a \<longleftrightarrow> a \<in> {None, Some (Some True)}"
  by (auto simp: answered_def split: option.splits)

lemma brain_stage_leaves:
  assumes "brain_stage ps ag sg size_usd = Inr (verdict, size2)" "sf_actionable sg"
    "ps_brain ps = None \<or> (case verdict of None \<Rightarrow> False | Some v \<Rightarrow> bv_allowed v)"
  shows "brain_leaves ps ag sg size_usd size2 \<and> (case verdict of None \<Rightarrow> True | Some v \<Rightarrow> bv_allowed v)"
  using assms by (auto simp: brain_stage_def brain_leaves_def split: option.splits sum.splits if_splits)

lemma capital_stage_gives:
  assumes "capital_stage ps sg verdict size2 = Inr (alloc, size3)" "sf_actionable sg"
    "case verdict of None \<Rightarrow> True | Some v \<Rightarrow> bv_allowed v" "ps_capital ps = None \<or> allocated alloc"
  shows "capital_gives ps size2 size3"
proof (cases "ps_capital ps")
  case None
  with assms(1) show ?thesis by (simp add: capital_stage_def capital_gives_def)
next
  case (Some cr)
  obtain c r where cr: "cr = (c, r)" by force
  have "\<not> (case verdict of None \<Rightarrow> False | Some v \<Rightarrow> \<not> bv_allowed v)" using assms(3) by (cases verdict) simp_all
  with assms(1,2) Some cr obtain a where a: "allocate c (r size2) = Some a" "alloc = Some a"
      "size3 = (if fl_lt (Fin 0) (al_size a) then al_size a else size2)"
    by (cases "allocate c (r size2)") (simp_all add: capital_stage_def)
  with assms(4) Some have "fl_lt (Fin 0) (al_size a)" by (simp add: allocated_def)
  with a Some cr show ?thesis by (simp add: capital_gives_def)
qed

lemma layers_sound:
  assumes "list_all id (layers ps ag sg verdict alloc eo)" "brain_stage ps ag sg size_usd = Inr (verdict, size2)"
    "capital_stage ps sg verdict size2 = Inr (alloc, size3)" "eo = fst (override_stage ag sg size3)"
  shows "layers_agree ps ag sg size_usd"
proof -
  note ls = assms(1) [unfolded layers_def Let_def, simplified]
  have plain: "ag_meta_allowed ag" "ag_awareness ag \<noteq> Some False" "ag_conviction ag \<in> {None, Some (Some False)}"
    "ag_radar ag \<in> {None, Some (Some True)}"
    using ls by (auto simp: answered_iff split: option.splits)
  have chain: "ag_no_trade ag \<in> {None, Some (Some True)} \<and> (ag_feedback ag \<longrightarrow> ag_mistakes ag \<in> {None, Some (Some True)}) \<and>
      (\<exists>left given. brain_leaves ps ag sg size_usd left \<and> capital_gives ps left given \<and> override_permits ag given)"
    if live: "sf_actionable sg"
  proof -
    have brain: "brain_leaves ps ag sg size_usd size2" "case verdict of None \<Rightarrow> True | Some v \<Rightarrow> bv_allowed v"
      using brain_stage_leaves [OF assms(2) live] ls live by (auto split: option.splits)
    have "\<not> (case verdict of None \<Rightarrow> False | Some v \<Rightarrow> \<not> bv_allowed v)" using brain(2) by (cases verdict) simp_all
    then have "capital_gives ps size2 size3"
      using capital_stage_gives [OF assms(3) live brain(2)] ls live by blast
    moreover have "override_permits ag size3"
      using ls live assms(4) by (auto simp: override_permits_def override_stage_def Let_def split: option.splits)
    ultimately show ?thesis using brain(1) ls live by (auto simp: answered_iff)
  qed
  show ?thesis using plain chain by (simp add: layers_agree_def)
qed

text \<open>
  C17: An order that leaves the loop was decided on. If a signal is analysed and its outcome sends an order, then the
  kernel allowed trading at the start and at the decision, the system is not in its safe mode and not in advisory mode. The verdict was to trade:
  the gate passed the signal, or the test override's positive score threshold was met outside a flash crash; the arbitration
  agreed; and every configured layer agreed, the portfolio brain's check and the allocation of the size it left included (the
  layers for actionable signals only are asked for those), unless the forcing switch is set and the score meets the
  threshold. The packet that was handed in has a side, passed the session, the confirmation and the black list
  whatever the override, and is alive and not vetoed. The action is the signal's, or BUY for a HOLD that is overridden; no
  protection is active, the price is positive, the order was planned with no more than 200 and a
  capital of no less than 500, and what is sent is the planned size or the size the validator put in its place.
\<close>

theorem order_sent_means:
  assumes "analyze entry later guard ps ag ts sg size_usd now p g = Inr (g', oc)" "dispatch d oc = (Some (action, sent), flag)"
  shows "authority_allows entry \<and> authority_allows later \<and> rm_state (df_runtime d) \<noteq> SAFE_MODE \<and> \<not> df_advisor_only d \<and>
    oc_trade_allowed oc \<and>
    (gc_allowed (snd (check_signal guard (sf_live sg) (Fin 0) size_usd g)) \<or>
       fl_lt (Fin 0) (ts_min_score ts) \<and> fl_le (ts_min_score ts) (ls_score (sf_live sg)) \<and> ls_regime (sf_live sg) \<noteq> ''flash_crash'') \<and>
    arbitration_allows ag \<and>
    (ts_force ts \<and> fl_le (ts_min_score ts) (ls_score (sf_live sg)) \<or> layers_agree ps ag sg size_usd) \<and>
    (\<exists>p0. p = Some p0 \<and> dp_side p0 \<noteq> FLAT \<and> session_passes guard size_usd \<and>
       (rg_require_confirmed g \<longrightarrow> json_truthy (json_get (dp_metadata p0) ''mtf_confirmed'' (JBool False))) \<and>
       normalize_regime (regime_value (dp_regime p0)) \<notin> set (rg_blacklist g)) \<and>
    (\<exists>q. oc_packet oc = Some q \<and> is_actionable q) \<and>
    (action = sf_action sg \<or> sf_action sg = ''HOLD'' \<and> action = ''BUY'') \<and> \<not> protected d \<and> fl_lt (Fin 0) (sf_price sg) \<and>
    \<not> fl_lt (Fin 200) (planned_size d oc) \<and> \<not> fl_lt (fl_max (df_capital d) (Fin 1)) (Fin 500) \<and>
    (sent = planned_size d oc \<or>
       (\<exists>qty. df_validate d (the (fl_div (planned_size d oc) (sf_price sg))) = Resized qty \<and> sent = fl_mul qty (sf_price sg)))"
proof -
  have send: "may_send d oc" "limits_hold d (planned_size d oc)"
    using assms(2) by (auto simp: dispatch_def Let_def split: if_splits)
  then obtain q where q: "oc_packet oc = Some q" "is_actionable q" by (auto simp: may_send_def split: option.splits)
  then have "oc_trade_allowed oc \<or> oc_packet oc \<noteq> None" by simp
  then obtain verdict size2 size3 alloc eo g1 res g2 p1 gated agreed where st:
    "authority_allows entry" "check_signal guard (sf_live sg) (Fin 0) size_usd g = (g1, res)"
    "gate_packet guard size_usd now p g1 = (g2, p1)" "gated = (gc_allowed res \<or> overridden ts sg)"
    "agreed = (if forced ts sg gated then True else list_all id (layers ps ag sg verdict alloc eo))"
    "oc_trade_allowed oc = (authority_allows later \<and> gated \<and> agreed \<and> arbitration_allows ag)"
    "oc_packet oc = trace_packet (sf_actionable sg \<and> oc_trade_allowed oc) now
       (settle_packet (oc_trade_allowed oc) now (size_packet alloc now (brain_packet ps size2 now p1)))"
    "oc_price oc = sf_price sg" "oc_execute oc = action_of ts sg"
    "brain_stage ps ag sg size_usd = Inr (verdict, size2)" "capital_stage ps sg verdict size2 = Inr (alloc, size3)"
    "eo = fst (override_stage ag sg size3)"
    by (rule analyze_cases [OF assms(1)])
  have settled_q: "settle_packet (oc_trade_allowed oc) now (size_packet alloc now (brain_packet ps size2 now p1)) = Some q"
    using traced [OF trans [OF st(7) [symmetric] q(1)] q(2)] by (rule conjunct1)
  then have allowed: "oc_trade_allowed oc" using settled q(2) by (cases "oc_trade_allowed oc") auto
  then have final: "size_packet alloc now (brain_packet ps size2 now p1) = Some q" using settled_q by (simp add: settle_packet_def)
  obtain q1 where q1: "p1 = Some q1" using final stages_none by (cases p1) auto
  have alive1: "dp_state q1 \<notin> set terminal_states"
    using final ended_stays [of q1 alloc now ps size2] q(2) unfolding q1 by (auto simp: is_actionable_def)
  obtain p0 where p0: "p = Some p0" "dp_state p0 \<notin> set terminal_states" "\<exists>r. check_packet guard (Fin 0) size_usd now p0 g1 = (g2, q1, r)"
    using st(3) q1 alive1
    by (auto simp: gate_packet_def live_packet_def packet_is_terminal_def split: option.splits if_splits prod.splits)
  then obtain r where r: "check_packet guard (Fin 0) size_usd now p0 g1 = (g2, q1, r)" by blast
  have passed: "dp_side p0 \<noteq> FLAT \<and> session_passes guard size_usd \<and>
      (rg_require_confirmed g \<longrightarrow> json_truthy (json_get (dp_metadata p0) ''mtf_confirmed'' (JBool False))) \<and>
      normalize_regime (regime_value (dp_regime p0)) \<notin> set (rg_blacklist g)"
    using gate_survives [OF r p0(2) alive1] signal_keeps [OF st(2)] by auto
  have layered: "ts_force ts \<and> fl_le (ts_min_score ts) (ls_score (sf_live sg)) \<or> layers_agree ps ag sg size_usd"
    using allowed st(5,6) layers_sound [OF _ st(10-12)] by (auto simp: forced_def split: if_splits)
  have gate: "gc_allowed (snd (check_signal guard (sf_live sg) (Fin 0) size_usd g)) \<or>
      fl_lt (Fin 0) (ts_min_score ts) \<and> fl_le (ts_min_score ts) (ls_score (sf_live sg)) \<and> ls_regime (sf_live sg) \<noteq> ''flash_crash''"
    using allowed st(2,4,6) by (auto simp: overridden_def)
  have out: "action = oc_execute oc" "validated_size d oc (planned_size d oc) = Some sent"
    using assms(2) by (auto simp: dispatch_def Let_def split: if_splits option.splits)
  have size: "sent = planned_size d oc \<or>
      (\<exists>qty. df_validate d (the (fl_div (planned_size d oc) (sf_price sg))) = Resized qty \<and> sent = fl_mul qty (sf_price sg))"
    using out(2) st(8) by (auto simp: validated_size_def split: validation.splits)
  have act: "action = sf_action sg \<or> sf_action sg = ''HOLD'' \<and> action = ''BUY''"
    using out(1) st(9) by (simp add: action_of_def split: if_splits)
  have final_checks: "rm_state (df_runtime d) \<noteq> SAFE_MODE" "\<not> df_advisor_only d" "\<not> protected d" "fl_lt (Fin 0) (sf_price sg)"
    using send(1) st(8) by (auto simp: may_send_def)
  show ?thesis
    using st(1,6) allowed passed p0(1) q layered gate size act final_checks limits_held [OF send(2)] by blast
qed

text \<open>
  C20: What blocks late does not block. An order that is sent while the governor allows trades, the safety audit is
  quiet and the execution is not suspended is sent all the same, with the same action and size, when the governor, in the
  same state, is in its volatility emergency and forbids new trades, the audit blocks them and the execution is suspended; only
  the flag of the result says that the trade was not allowed. (The stop of the governor is different: its state gives the
  multiplier zero, and \<open>stopped_order_still_sent\<close> shows the order of size zero that goes out.)
\<close>

theorem late_blocks_ignored:
  assumes "dispatch d oc = (Some order, flag)" "df_governor d = Some (snapshot_of g)" "sf_action (oc_signal oc) \<noteq> ''HOLD''"
    and "rv_state g' = rv_state g" "rv_emergency g'"
  shows "\<not> allow_new_trades g' \<and>
    dispatch (d\<lparr>df_governor := Some (snapshot_of g'), df_safety_blocks := True, df_suspended := True\<rparr>) oc = (Some order, False)"
proof -
  let ?d = "d\<lparr>df_governor := Some (snapshot_of g'), df_safety_blocks := True, df_suspended := True\<rparr>"
  have "planned_size ?d oc = planned_size d oc" using assms(2,4) by (simp add: planned_size_def snapshot_of_def)
  moreover have "may_send ?d oc = may_send d oc"
    by (cases "df_last_loss d") (simp_all add: may_send_def protected_def recent_trades_def)
  moreover have "limits_hold ?d x = limits_hold d x" "validated_size ?d oc x = validated_size d oc x" for x
    by (simp_all add: limits_hold_def order_facts_of_def validated_size_def)
  moreover have "\<not> reported_flag ?d oc" using assms(3) by (simp add: reported_flag_def late_block_def)
  ultimately have "dispatch ?d oc = (Some order, False)"
    using assms(1) by (cases "validated_size d oc (planned_size d oc)") (simp_all add: dispatch_def Let_def split: if_splits)
  with assms(5) show ?thesis by (simp add: allow_new_trades_def)
qed

lemma size_unread:
  assumes "allocated (oc_allocation oc)"
  shows "dispatch d (oc\<lparr>oc_size := x\<rparr>) = dispatch d oc"
proof -
  have "planned_size d (oc\<lparr>oc_size := x\<rparr>) = planned_size d oc" using assms by (simp add: planned_size_def)
  moreover have "may_send d (oc\<lparr>oc_size := x\<rparr>) = may_send d oc" by (simp add: may_send_def override_active_def)
  moreover have "validated_size d (oc\<lparr>oc_size := x\<rparr>) y = validated_size d oc y" for y
    by (simp add: validated_size_def split: validation.split)
  moreover have "reported_flag d (oc\<lparr>oc_size := x\<rparr>) = reported_flag d oc" by (simp add: reported_flag_def late_block_def)
  moreover have "oc_execute (oc\<lparr>oc_size := x\<rparr>) = oc_execute oc" by simp
  ultimately show ?thesis unfolding dispatch_def by (simp only:)
qed

text \<open>
  C21: The reduction of the executive override does not reach the order. Where the capital engine has allocated a
  size, an override that permits the trade with any factor gives the same order as one that leaves the size alone.
\<close>

theorem reduction_ignored:
  assumes "analyze entry later guard ps (ag\<lparr>ag_override := Some (\<lambda>_. (True, factor))\<rparr>) ts sg size_usd now p g = Inr (g', oc)"
    "allocated (oc_allocation oc)"
  shows "\<exists>oc'. analyze entry later guard ps (ag\<lparr>ag_override := Some (\<lambda>_. (True, Fin 1))\<rparr>) ts sg size_usd now p g = Inr (g', oc') \<and>
    dispatch d oc' = dispatch d oc"
proof -
  let ?a = "\<lambda>f. ag\<lparr>ag_override := Some (\<lambda>_. (True, f))\<rparr>"
  have entry: "authority_allows entry" using assms by (auto simp: analyze_def refused_outcome_def allocated_def Let_def split: if_splits)
  obtain g1 res where c: "check_signal guard (sf_live sg) (Fin 0) size_usd g = (g1, res)" by fastforce
  obtain g2 p1 where q: "gate_packet guard size_usd now p g1 = (g2, p1)" by fastforce
  note known = entry c q
  have stage: "brain_stage ps (?a f) sg size_usd = brain_stage ps ag sg size_usd" for f
  proof -
    have "ag_conviction (?a f) = ag_conviction ag" "ag_conviction_score (?a f) = ag_conviction_score ag" by simp_all
    then show ?thesis unfolding brain_stage_def by (simp only:)
  qed
  obtain verdict size2 where b: "brain_stage ps ag sg size_usd = Inr (verdict, size2)"
    using assms(1) known by (cases "brain_stage ps ag sg size_usd") (auto simp: analyze_def stage Let_def)
  obtain alloc size3 where a: "capital_stage ps sg verdict size2 = Inr (alloc, size3)"
    using assms(1) known b by (cases "capital_stage ps sg verdict size2") (auto simp: analyze_def stage Let_def)
  let ?eo = "\<lambda>f. override_stage (?a f) sg size3"
  have layers_same: "list_all id (layers ps (?a f) sg verdict alloc (fst (?eo f))) = list_all id (layers ps (?a (Fin 1)) sg verdict alloc (fst (?eo (Fin 1))))" for f
    by (simp add: layers_def override_stage_def Let_def)
  have arb: "arbitration_allows (?a f) = arbitration_allows ag" for f by (simp add: arbitration_allows_def)
  let ?gated = "gc_allowed res \<or> overridden ts sg"
  let ?agreed = "if forced ts sg ?gated then True else list_all id (layers ps (?a (Fin 1)) sg verdict alloc (fst (?eo (Fin 1))))"
  let ?allowed = "authority_allows later \<and> ?gated \<and> ?agreed \<and> arbitration_allows ag"
  let ?oc = "\<lambda>f. \<lparr>oc_signal = sg,
      oc_packet = trace_packet (sf_actionable sg \<and> ?allowed) now (settle_packet ?allowed now (size_packet alloc now (brain_packet ps size2 now p1))),
      oc_gate_allowed = ?gated, oc_execute = action_of ts sg, oc_size = decided_size ts (?a f) sg ?gated (snd (?eo f)), oc_allocation = alloc,
      oc_trade_allowed = ?allowed, oc_price = sf_price sg\<rparr>"
  have run: "analyze entry later guard ps (?a f) ts sg size_usd now p g = Inr (g2, ?oc f)" for f
    using known b a layers_same [of f] by (simp add: analyze_def stage arb Let_def split_beta)
  have oc: "g' = g2" "oc = ?oc factor" using assms(1) run [of factor] by simp_all
  have "?oc (Fin 1) = (?oc factor)\<lparr>oc_size := oc_size (?oc (Fin 1))\<rparr>" by simp
  then have "dispatch d (?oc (Fin 1)) = dispatch d (?oc factor)" using size_unread [of "?oc factor" d] assms(2) oc(2) by metis
  then show ?thesis using run [of "Fin 1"] oc by blast
qed

section \<open>An example\<close>

definition buy_signal :: signal_facts where
  "buy_signal = \<lparr>sf_live = \<lparr>ls_score = Fin 80, ls_regime = ''bull_trend'', ls_confirmed = True\<rparr>, sf_symbol = ''BTC/USDT'', sf_action = ''BUY'',
     sf_actionable = True, sf_regime = ''bull_trend'', sf_price = Fin 1\<rparr>"

definition quiet_agents :: agents where
  "quiet_agents = \<lparr>ag_meta_allowed = True, ag_awareness = Some True, ag_conviction = None, ag_conviction_score = Fin 50, ag_no_trade = None,
     ag_mistakes = None, ag_feedback = False, ag_override = Some (\<lambda>_. (True, Fin (1 / 2))), ag_radar = None, ag_arbitration = None\<rparr>"

definition small_portfolio :: portfolio_side where
  "small_portfolio = \<lparr>ps_brain = None, ps_positions = [], ps_capital = Some (Fin 1024, \<lambda>_. unconvinced)\<rparr>"

definition no_switches :: test_switches where
  "no_switches = \<lparr>ts_min_score = Fin 0, ts_force = False, ts_max_order = Fin 50\<rparr>"

definition traced_packet :: decision_packet where
  "traced_packet = sample_packet\<lparr>dp_metadata := [(''mtf_confirmed'', JBool True), (''trace_id'', JStr ''t1'')]\<rparr>"

definition calm :: dispatch_facts where
  "calm = \<lparr>df_governor = Some (snapshot_of new_governor), df_throttle = Fin 1, df_strategy_cap = None, df_safety_blocks = False, df_suspended = False,
     df_last_loss = None, df_trades = [], df_now = Fin 0, df_advisor_only = False, df_runtime = sample_runtime, df_capital = Fin 1024,
     df_losses = 0, df_validate = (\<lambda>_. Valid), df_rate_ok = None\<rparr>"

abbreviation bull_gate :: risk_gate where
  "bull_gate \<equiv> sample_gate\<lparr>rg_last_regime := ''bull_trend''\<rparr>"

lemma bull_scores: "gate_min_score ''bull_trend'' sample_gate = (fst (gate_min_score ''bull_trend'' sample_gate), bull_gate)"
  "fst (gate_min_score ''bull_trend'' sample_gate) \<le> 80"
  "gate_min_score ''TREND_BULL'' bull_gate = (72, bull_gate\<lparr>rg_last_regime := ''TREND_BULL''\<rparr>)"
  by (simp_all add: gate_min_score_def sample_gate_fields effective_min_score_def get_config_def regime_configs_def config_def Let_def)

lemma bull_regime: "normalize_regime ''bull_trend'' = ''TREND_BULL''"
  by code_simp

lemma signal_passed: "check_signal None (sf_live buy_signal) (Fin 0) x sample_gate = (bull_gate, snd (check_signal None (sf_live buy_signal) (Fin 0) x sample_gate))"
  "gc_allowed (snd (check_signal None (sf_live buy_signal) (Fin 0) x sample_gate))"
  using bull_scores(1,2)
  by (simp_all add: check_signal_def buy_signal_def split_beta gate_allowed_iff session_passes_def sample_drawdown sample_gate_fields bull_regime
      score_passes_def) (simp_all add: prod_eq_iff)

lemma traced_fields:
  "dp_adjusted traced_packet = Some (Fin 80)" "dp_confidence traced_packet = Fin 80" "dp_state traced_packet = CONTEXT_ENRICHED"
  "dp_side traced_packet = LONG" "dp_regime traced_packet = TREND_BULL" "dp_category traced_packet = TRADE" "\<not> dp_veto traced_packet"
  "dp_metadata traced_packet = [(''mtf_confirmed'', JBool True), (''trace_id'', JStr ''t1'')]"
  by (simp_all add: traced_packet_def sample_packet_fields) (simp add: sample_packet_def life_of_def move_packet_def new_packet_def post_init_def Let_def)

lemma bull_drawdown: "check_drawdown bull_gate (Fin 0)" "\<not> drawdown_near bull_gate (Fin 0)"
  by (simp_all add: drawdown_near_def check_drawdown_def sample_gate_fields round_eval float_eval)

lemma traced_checked:
  "\<exists>g' q r. check_packet None (Fin 0) x 2 traced_packet bull_gate = (g', q, r) \<and> dp_state q = RISK_EVALUATED \<and> dp_side q = LONG \<and>
     \<not> dp_veto q \<and> json_get (dp_metadata q) ''trace_id'' JNull = JStr ''t1''"
proof -
  have score: "packet_score (note_exposure True True (Fin 0) bull_gate 2 traced_packet) = Fin 80"
    by (simp add: packet_score_def note_exposure_def Let_def bull_drawdown traced_fields)
  have kept: "dp_veto (note_exposure a b dd g n q) = dp_veto q" "dp_veto (note_signal c l d e n q) = dp_veto q" "dp_veto (write_verdict w v q) = dp_veto q"
    "dp_metadata (note_exposure a b dd g n q) = dp_metadata q" "dp_metadata (note_signal c l d e n q) = dp_metadata q" for a b c d e l dd g n q w v
    by (simp_all add: note_exposure_def note_signal_def write_verdict_def gate_note_def add_reasoning_def add_agent_def Let_def)
  show ?thesis
    by (simp add: check_packet_def Let_def traced_fields bull_scores(3) bull_drawdown session_passes_def sample_gate_fields score
        gate_allowed_iff json_get_def score_passes_def sample_regimes with_result_def move_packet_def graph_defs kept)
      (simp add: write_verdict_def kept traced_fields dict_set_def)
qed

lemma runtime_allows: "authority_allows (Some sample_runtime)" "rm_state sample_runtime = runtime_state.NORMAL"
  by (simp_all add: authority_allows_def get_authority_def kernel_can_trade_def rm_can_trade_def sample_runtime_def new_runtime_def)

lemma calm_limits: "limits_hold calm (Fin 30)"
proof -
  have "check_hard_limits (order_facts_of calm (Fin 30)) = Inr ()"
    unfolding limits_pass_iff by (simp add: order_facts_of_def calm_def fl_max_def) (simp add: round_eval float_eval)
  then show ?thesis by (simp add: limits_hold_def)
qed

lemma sample_analysis:
  "\<exists>g' oc. analyze (Some sample_runtime) (Some sample_runtime) None small_portfolio quiet_agents no_switches buy_signal (Fin 64) 2
       (Some traced_packet) sample_gate = Inr (g', oc) \<and>
     allocated (oc_allocation oc) \<and> al_size (the (oc_allocation oc)) = Fin 30 \<and> sf_action (oc_signal oc) = ''BUY'' \<and> dispatch calm oc = (Some (''BUY'', Fin 30), True)"
proof -
  obtain g' q r where q: "check_packet None (Fin 0) (Fin 64) 2 traced_packet bull_gate = (g', q, r)" "dp_state q = RISK_EVALUATED" "dp_side q = LONG"
    "\<not> dp_veto q" "json_get (dp_metadata q) ''trace_id'' JNull = JStr ''t1''" using traced_checked by blast
  obtain a where a: "allocate (Fin 1024) unconvinced = Some a" "al_size a = Fin 30" using unconvinced_sized by blast
  have live: "is_actionable q" using q by (simp add: is_actionable_def graph_defs)
  obtain res where res: "check_signal None (sf_live buy_signal) (Fin 0) (Fin 64) sample_gate = (bull_gate, res)" "gc_allowed res"
    using signal_passed [of "Fin 64"] by blast
  have sg: "sf_actionable buy_signal" "sf_action buy_signal = ''BUY''" "sf_price buy_signal = Fin 1" by (simp_all add: buy_signal_def)
  have sw: "\<not> overridden no_switches buy_signal" "\<not> forced no_switches buy_signal x" "action_of no_switches buy_signal = ''BUY''" for x
    by (simp_all add: overridden_def forced_def action_of_def no_switches_def buy_signal_def)
  have ps: "ps_brain small_portfolio = None" "ps_capital small_portfolio = Some (Fin 1024, \<lambda>_. unconvinced)" by (simp_all add: small_portfolio_def)
  have gp: "gate_packet None (Fin 64) 2 (Some traced_packet) bull_gate = (g', Some q)"
    using q(1) by (simp add: gate_packet_def live_packet_def packet_is_terminal_def traced_fields graph_defs)
  have st: "brain_stage small_portfolio quiet_agents buy_signal (Fin 64) = Inr (None, Fin 64)"
    "capital_stage small_portfolio buy_signal None (Fin 64) = Inr (Some a, Fin 30)"
    "size_packet (Some a) 2 (brain_packet small_portfolio (Fin 64) 2 (Some q)) = Some q" "allocated (Some a)"
    by (simp_all add: brain_stage_def capital_stage_def ps sg a size_packet_def brain_packet_def q(2) allocated_def)
  obtain eo z where e: "override_stage quiet_agents buy_signal (Fin 30) = (eo, z)" by fastforce
  have agreed: "list_all id (layers small_portfolio quiet_agents buy_signal None (Some a) eo)" "arbitration_allows quiet_agents"
    using e by (auto simp: layers_def ps sg quiet_agents_def answered_def st(4) override_stage_def arbitration_allows_def)
  have tp: "trace_packet True 2 (settle_packet True 2 (Some q)) = Some q"
    using q(5) by (simp add: settle_packet_def trace_packet_def)
  let ?oc = "\<lparr>oc_signal = buy_signal, oc_packet = Some q, oc_gate_allowed = True, oc_execute = ''BUY'',
    oc_size = decided_size no_switches quiet_agents buy_signal True z, oc_allocation = Some a, oc_trade_allowed = True, oc_price = Fin 1\<rparr>"
  have run: "analyze (Some sample_runtime) (Some sample_runtime) None small_portfolio quiet_agents no_switches buy_signal (Fin 64) 2
      (Some traced_packet) sample_gate = Inr (g', ?oc)"
    using runtime_allows(1) gp st e agreed tp res by (simp add: analyze_def Let_def sw sg)
  have size30: "planned_size calm ?oc = Fin 30"
    by (simp add: planned_size_def st(4) a calm_def snapshot_of_def new_governor_def)
  have send: "may_send calm ?oc"
    using live by (simp add: may_send_def sg protected_def recent_trades_def calm_def runtime_allows(2))
  have "dispatch calm ?oc = (Some (''BUY'', Fin 30), True)"
    unfolding dispatch_def size30 Let_def using send calm_limits live
    by (simp add: validated_size_def reported_flag_def late_block_def packet_allows_def packet_is_terminal_def is_actionable_def)
      (simp add: calm_def snapshot_of_def new_governor_def allow_new_trades_def)
  with run st(4) sg(2) a(2) show ?thesis by auto
qed

lemma order_sent_means_witness:
  "\<exists>oc. dispatch calm oc = (Some (''BUY'', Fin 30), True) \<and> (\<exists>q. oc_packet oc = Some q \<and> is_actionable q) \<and>
     layers_agree small_portfolio quiet_agents buy_signal (Fin 64) \<and> \<not> fl_lt (Fin 200) (planned_size calm oc)"
proof -
  obtain g' oc where r: "analyze (Some sample_runtime) (Some sample_runtime) None small_portfolio quiet_agents no_switches buy_signal (Fin 64) 2
      (Some traced_packet) sample_gate = Inr (g', oc)" and d: "dispatch calm oc = (Some (''BUY'', Fin 30), True)" using sample_analysis by blast
  have "\<not> ts_force no_switches" by (simp add: no_switches_def)
  with order_sent_means [OF r d] d show ?thesis by blast
qed

definition burst :: "pyfloat \<Rightarrow> governor_input" where
  "burst atr = \<lparr>gi_cycle = 1, gi_drawdown = Fin 0, gi_losses = 0, gi_atr = atr, gi_pnl = Fin 0, gi_regime = ''range''\<rparr>"

text \<open>A governor that has seen a range of one twice and then of three: an emergency, in the first state.\<close>

definition alarmed :: governor where
  "alarmed = governor_after [burst (Fin 1), burst (Fin 1), burst (Fin 3)] new_governor"

lemma update_atr:
  "rv_atr (update_governor i g) = (if fl_lt (Fin 0) (gi_atr i) then push_bounded 50 (gi_atr i) (rv_atr g) else rv_atr g)"
  "rv_emergency (update_governor i g) = rv_emergency (update_vol_emergency (gi_atr i) (record_cycle i g))"
  by (simp_all add: update_governor_def evaluate_transitions_def governor_to_def update_vol_emergency_def record_cycle_def Let_def)

lemma alarmed_emergency: "rv_emergency alarmed" "rv_state alarmed = rv_state new_governor"
proof -
  let ?one = "burst (Fin 1)" and ?three = "burst (Fin 3)"
  define g1 where "g1 = update_governor ?one new_governor"
  define g2 where "g2 = update_governor ?one g1"
  have run: "alarmed = update_governor ?three g2" by (simp add: alarmed_def governor_after_def g1_def g2_def)
  have start: "rv_cycles new_governor = 0" "rv_atr new_governor = []" by (simp_all add: new_governor_def)
  have s1: "rv_state g1 = rv_state new_governor" "rv_cycles g1 = 1" "rv_atr g1 = [Fin 1]"
    by (simp_all add: g1_def governor_waits update_governor_simps(3) update_atr start push_bounded_def last_n_def burst_def float_eval)
  have s2: "rv_state g2 = rv_state new_governor" "rv_cycles g2 = 2" "rv_atr g2 = [Fin 1, Fin 1]"
    by (simp_all add: g2_def governor_waits update_governor_simps(3) update_atr s1 push_bounded_def last_n_def burst_def float_eval)
  show "rv_state alarmed = rv_state new_governor" by (simp add: run governor_waits s2)
  have atr: "rv_atr (record_cycle ?three g2) = [Fin 1, Fin 1, Fin 3]"
    by (simp add: record_cycle_def s2 push_bounded_def last_n_def burst_def float_eval)
  have "atr_median (record_cycle ?three g2) = Fin 1"
    by (simp add: atr_median_def atr fl_sorted_def float_eval)
  then have "fl_le (Fin 3) (vol_ratio (Fin 3) (record_cycle ?three g2))"
    by (simp add: vol_ratio_def round_eval float_eval)
  then show "rv_emergency alarmed"
    by (simp add: run update_atr update_vol_emergency_def burst_def)
qed

lemma late_blocks_ignored_witness:
  "\<exists>oc. dispatch calm oc = (Some (''BUY'', Fin 30), True) \<and>
     dispatch (calm\<lparr>df_governor := Some (snapshot_of alarmed), df_safety_blocks := True, df_suspended := True\<rparr>) oc =
     (Some (''BUY'', Fin 30), False)"
proof -
  obtain g' oc where r: "analyze (Some sample_runtime) (Some sample_runtime) None small_portfolio quiet_agents no_switches buy_signal (Fin 64) 2
      (Some traced_packet) sample_gate = Inr (g', oc)" and d: "dispatch calm oc = (Some (''BUY'', Fin 30), True)"
    and b: "sf_action (oc_signal oc) = ''BUY''" using sample_analysis by blast
  have "df_governor calm = Some (snapshot_of new_governor)" by (simp add: calm_def)
  moreover have "sf_action (oc_signal oc) \<noteq> ''HOLD''"
    using b by simp
  ultimately show ?thesis using late_blocks_ignored [OF d _ _ alarmed_emergency(2,1)] d by blast
qed

text \<open>
  A governor that has stopped trading makes the size zero; the loop still calls the execution, with that size.
\<close>

lemma stopped_order_still_sent:
  assumes "rv_state g = RISK_OFF"
  shows "\<exists>oc. dispatch calm oc = (Some (''BUY'', Fin 30), True) \<and>
    dispatch (calm\<lparr>df_governor := Some (snapshot_of g)\<rparr>) oc = (Some (''BUY'', Fin 0), False)"
proof -
  obtain g' oc where d: "dispatch calm oc = (Some (''BUY'', Fin 30), True)" "sf_action (oc_signal oc) = ''BUY''"
    and al: "allocated (oc_allocation oc)" and base: "al_size (the (oc_allocation oc)) = Fin 30" using sample_analysis by blast
  let ?d = "calm\<lparr>df_governor := Some (snapshot_of g)\<rparr>"
  have size: "planned_size ?d oc = Fin 0"
    using al assms by (simp add: planned_size_def base snapshot_of_def calm_def float_eval)
  have send: "may_send calm oc" "oc_execute oc = ''BUY''"
    using d(1) by (auto simp: dispatch_def Let_def split: if_splits option.splits)
  have send': "may_send ?d oc"
    using send(1) by (simp add: may_send_def protected_def recent_trades_def calm_def)
  have "check_hard_limits (order_facts_of ?d (Fin 0)) = Inr ()"
    unfolding limits_pass_iff by (simp add: order_facts_of_def calm_def fl_max_def round_eval float_eval)
  then have "limits_hold ?d (Fin 0)" by (simp add: limits_hold_def)
  moreover have "\<not> reported_flag ?d oc" using d(2) assms by (simp add: reported_flag_def late_block_def snapshot_of_def allow_new_trades_def)
  moreover have "df_validate ?d = (\<lambda>_. Valid)" "df_rate_ok ?d = None" by (simp_all add: calm_def)
  ultimately have "dispatch ?d oc = (Some (''BUY'', Fin 0), False)"
    using send' size send(2) by (simp add: dispatch_def Let_def validated_size_def)
  with d(1) show ?thesis by blast
qed

lemma reduction_ignored_witness:
  "\<exists>g' oc'. analyze (Some sample_runtime) (Some sample_runtime) None small_portfolio (quiet_agents\<lparr>ag_override := Some (\<lambda>_. (True, Fin 1))\<rparr>)
       no_switches buy_signal (Fin 64) 2 (Some traced_packet) sample_gate = Inr (g', oc') \<and>
     dispatch calm oc' = (Some (''BUY'', Fin 30), True)"
proof -
  have "quiet_agents\<lparr>ag_override := Some (\<lambda>_. (True, Fin (1 / 2)))\<rparr> = quiet_agents" by (simp add: quiet_agents_def)
  then obtain g' oc where r: "analyze (Some sample_runtime) (Some sample_runtime) None small_portfolio
      (quiet_agents\<lparr>ag_override := Some (\<lambda>_. (True, Fin (1 / 2)))\<rparr>) no_switches buy_signal (Fin 64) 2
      (Some traced_packet) sample_gate = Inr (g', oc)" and a: "allocated (oc_allocation oc)" and d: "dispatch calm oc = (Some (''BUY'', Fin 30), True)"
    using sample_analysis by metis
  from reduction_ignored [OF r a, of calm] d show ?thesis by auto
qed

end
