(* ===== verification/Spec2Isabelle.thy ===== *)
theory Spec2Isabelle
  imports
    PortfolioAccounting LedgerConservation PplRecovery Admission
    OrderAuthorization OrderCoordinator OrderProtocol
    TradingAuthority SystemState EventStore EpochLog AuthorityManifest
    AuthorityRuntime AuthorityHistory PositionHistory PositionOrders BootGate
    ColdStartFaults KillSwitch HardLimits Breaker DecisionRouter AiPromotion RegimeTracker SessionGuard DecisionPacket
    RiskGate RiskGovernor RuntimeStates PortfolioBrain CapitalAllocation AdvisorGuard
begin

text \<open>
  A verification development for the trading core of this repository: a program in Python that
  turns market signals into decisions, decisions into authorized orders and orders into entries
  of a durable paper portfolio. The theories model the parts that decide whether capital is put
  at risk and that account for it, from the source under \<^verbatim>\<open>src/\<close>; the theorems say
  what these parts guarantee over any history of calls, failures and restarts, and where they do less than their
  comments say.

  \<^bold>\<open>How the program fits together.\<close> A signal of the advisor loop becomes a decision packet. The global
  risk gate, the portfolio brain and the capital engine judge it, under a governance kernel that
  reads the runtime state machine; the loop then plans a size with the risk governor and the throttle,
  checks the hard limits and sends the order. An order intent is authorized against the exchange's
  rules, journalled, and sent at most once by a coordinator. Positions are watched and closed by the
  position manager, pending orders are tracked, and after a restart a boot gate keeps
  trading off until both are reconciled with the exchange. On paper, every opening and closing is an event of an append-only
  store, owned by an authority runtime, and the portfolio is what the replay of the events gives. Beside this
  path stand what can stop it: the trading authority, the system state machine, the kill switch, circuit
  breakers, the session guard and the cold start, which admits live trading only after a warm-up.

  \<^bold>\<open>Python.\<close> \<open>PyFloat\<close> has doubles as the rationals they denote, with the infinities and NaN,
  every result correctly rounded; \<open>FloatOrder\<close> their order and monotone operations; \<open>PyPrelude\<close>
  results that may be exceptions (a sum, the error on the left), dictionaries as association lists in insertion order,
  and the locales of the development; \<open>PyText\<close>, \<open>PyDecimal\<close>, \<open>PyJson\<close> and \<open>PySha256\<close> the
  parts of \<^verbatim>\<open>str\<close>, \<^verbatim>\<open>decimal\<close>, \<^verbatim>\<open>json\<close> and \<^verbatim>\<open>hashlib\<close> that the code uses, with their round trips.
  Three locales carry the histories: \<open>event_replay\<close> (a loop that stops at the first exception),
  \<open>guarded_machine\<close> (operations that keep an invariant) and \<open>draining_machine\<close> (a measure that falls);
  further ones state what a client relies on, as the epoch log of the event store, the journal of the coordinator and
  the layout of a JSON text, and each is interpreted on the model of the code that provides it.

  \<^bold>\<open>The paper portfolio\<close> (\<^verbatim>\<open>src/paper_trading/\<close>).
  \<^item> \<open>PaperEpoch\<close>, \<open>LedgerEvents\<close>, \<open>PortfolioLedger\<close>: the epoch, the events with their constructors and
    builders, and \<^verbatim>\<open>project\<close>, the replay, one definition per handler of \<^verbatim>\<open>paper_portfolio_ledger.py\<close>.
  \<^item> \<open>PortfolioAccounting\<close>, \<open>LedgerConservation\<close>: the invariant of the money, the life cycle of a trade as an
    abstract machine that the replay refines, and a bound on the drift that rounding can cause.
  \<^item> \<open>PplRecovery\<close>, \<open>Admission\<close>: what a restart does with open positions, the readiness gate, the scientific
    capital, and the admission of new trades.
  \<^item> \<open>EventStore\<close>, \<open>EpochLog\<close>, \<open>AuthorityManifest\<close>, \<open>AuthorityRuntime\<close>, \<open>AuthorityHistory\<close>: the durable store with
    its wire format, the manifest, the runtime that owns an epoch, and its guarantees over histories with writes that fail.

  \<^bold>\<open>Orders and positions\<close> (\<^verbatim>\<open>src/quant_hedge_ai/agents/execution/\<close>, \<^verbatim>\<open>src/system/\<close>).
  \<^item> \<open>OrderAuthorization\<close>: the stages before the network, and what an authorization guarantees.
  \<^item> \<open>OrderIntent\<close>, \<open>OrderJournal\<close>, \<open>OrderCoordinator\<close>, \<open>OrderProtocol\<close>: the identity of an intent, its journal, the
    coordinator, and any number of processes that interleave their checks, reads, writes and calls on one journal, with
    writes that fail or are cut off; no intent reaches the exchange twice, but for one kind of cut-off write, which is
    named and shown to be an exception.
  \<^item> \<open>Positions\<close>, \<open>PositionManager\<close>, \<open>PositionSamples\<close>, \<open>PositionSafety\<close>, \<open>PositionHistory\<close>, \<open>PositionOrders\<close>: every check of a
    position, the closing order, and what holds of open positions and of the orders that close them.
  \<^item> \<open>PendingOrders\<close>, \<open>PositionReconciler\<close>, \<open>BootGate\<close>, \<open>SystemState\<close>: tracked orders, the comparison with the exchange,
    the lock at the start, and the persisted state of the system.

  \<^bold>\<open>What may stop trading\<close> (\<^verbatim>\<open>src/governance/\<close>, \<^verbatim>\<open>src/supervision/\<close>, \<^verbatim>\<open>src/risk/\<close>, \<^verbatim>\<open>src/cold_start/\<close>).
  \<^item> \<open>TradingAuthority\<close>, \<open>StateManager\<close>, \<open>TradeGates\<close>, \<open>ExecutionApproval\<close>, \<open>DecisionRouter\<close>, \<open>AiPromotion\<close>: halts by source,
    the life of the system, the gates of the router with the router itself, and the promotion of strategies under requirements that may be changed.
  \<^item> \<open>KillSwitch\<close>, \<open>Breaker\<close>, \<open>HardLimits\<close>, \<open>SessionGuard\<close>, \<open>RegimeTracker\<close>: the switch with its file, the breaker
    with its spaced attempts, the absolute limits, the session, and the regimes with their thresholds.
  \<^item> \<open>Warmup\<close>, \<open>ColdMetrics\<close>, \<open>WarmupSigner\<close>, \<open>LiveToken\<close>, \<open>ColdStart\<close>, \<open>ColdStartSafety\<close>, \<open>ColdStartHistory\<close>, \<open>ColdStartSamples\<close>,
    \<open>ColdStartFaults\<close>: the warm-up machine, its metrics and invariants, the signed token, the manager with its loop, their
    guarantees, a concrete run, and their gaps.

  \<^bold>\<open>The decision of a signal\<close> (\<^verbatim>\<open>src/core/\<close>, \<^verbatim>\<open>src/quant_hedge_ai/agents/risk/\<close>, \<^verbatim>\<open>src/quant_hedge_ai/runtime/\<close>).
  \<^item> \<open>DecisionLifecycle\<close>, \<open>DecisionPacket\<close>: the graph of states with the program's own checks of it, and the packet that moves
    through it with its chain of hashes.
  \<^item> \<open>RiskGate\<close>, \<open>PortfolioBrain\<close>, \<open>CapitalAllocation\<close>: the checks of a signal and of a packet, of the portfolio, and the size.
  \<^item> \<open>RiskGovernor\<close>, \<open>RuntimeStates\<close>: the governor, the throttle and the exposure; the runtime states and the kernel.
  \<^item> \<open>AdvisorGuard\<close>: the composition of all these in \<^verbatim>\<open>advisor_loop.py\<close>, from the gate to the order, with what an order
    that is sent means, written without the stages that compute it.

  \<^bold>\<open>What the lemmas show.\<close> Each theory has first the data and the operations in the order of the code, then the
  invariant and its preservation, then the properties, then concrete examples that the properties are applied to. Properties
  are about safety (what an acknowledged order, an approved packet or a ready system implies), about refinement and
  round trips, about ends and bounds, and about errors: some name what the code gets wrong.

  \<^bold>\<open>Bounds and fuel.\<close> The decimal exponent of a double is searched with fuel 400, and found, since doubles lie
  between ten to the powers of -324 and 309. The JSON reader has the length of the text plus
  one as fuel, and every call consumes a character. The warm-up ends within 186 ticks, six states of 31 ticks. The
  depth-first search of the life cycle has one more than its sixteen states. A packet moves ten times at most.

  \<^bold>\<open>What is arguments.\<close> Readings of the clock, random identifiers, keys, answers of the exchange, and what the operating system makes
  of a write. An operation that reads the clock more than once has an argument per reading, or one
  for all where its theory says so. Environment variables have their defaults where a theory says so.

  \<^bold>\<open>What is left out.\<close> Messages (errors and reasons keep their kind), logs, metrics, callbacks and displays; code points over 255;
  the sign of zero; the limit on the digits of an int; files that are not UTF-8; the constants \<^verbatim>\<open>NaN\<close> and \<^verbatim>\<open>Infinity\<close> of
  JSON texts; the locking of files by the operating system, where a lock makes an operation atomic; the fsync of directories.
  Sums of floats are those of Python 3.11, from the left, and squaring is taken as correctly rounded.

  \<^bold>\<open>What is not modelled.\<close> The rest of the advisor loop (scans, features, notifications, persistence and wiring); the agents that
  only answer the loop (conviction, no-trade, awareness, mistake memory, executive override, threat radar, arbitration); market
  data connectors and the execution engine, which talk to exchanges; machine learning and research code, which
  searches and scores; simulators, exporters, dashboards, bots, command centres and observability, which display or
  transport; the providers of the governance tower; legacy and shadow paths; tests, scripts and tools. They
  are the program's surroundings: their answers enter the models as arguments.
\<close>

end
